(* ===== verification/InkPrelude.thy ===== *)
theory InkPrelude
  imports Main "HOL-Library.Word" "HOL-Library.Char_ord" "HOL-Library.List_Lexorder" "HOL-Library.Sublist"
begin

unbundle bit_operations_syntax

text \<open>
  Prelude of the InkHole development: the error type of the core crate (\<open>error.rs\<close>), the
  result type and the \<open>?\<close> operator of Rust as combinators on sums, checked \<open>u64\<close>/\<open>u32\<close>
  arithmetic, big-endian integers, decimal numerals, and the named collections and generic
  lemmas shared by the component theories.

  Conventions of the whole development: a Rust \<open>str\<close> is the list of its UTF-8 bytes, written
  as a HOL \<open>string\<close> (so \<open>length\<close> is Rust's \<open>len()\<close> and the library's lexicographic
  order on strings is the byte order Rust compares with); a byte buffer is a list of
  \<open>8 word\<close>; an unsigned counter is a \<open>nat\<close> whose checked, saturating or limited arithmetic
  is written out; a fallible function returns \<open>core_error + 'a\<close> with \<open>Inl\<close> for the error.
\<close>

section \<open>Named collections\<close>

named_theorems result_simps \<open>unfolding rules of the result combinators\<close>
named_theorems model_defs \<open>definitions of small code fragments that proofs unfold\<close>
named_theorems string_facts \<open>facts about Rust string operations\<close>

section \<open>Errors and results\<close>

type_synonym byte = "8 word"
type_synonym bytes = "byte list"
type_synonym path = "string list"

text \<open>
  The kinds of \<open>std::io::Error\<close> the code distinguishes; every other kind is \<open>OtherIo\<close>
  with a description.
\<close>

datatype io_kind =
    NotFound
  | AlreadyExists
  | UnexpectedEof
  | ConnectionReset
  | ConnectionAborted
  | BrokenPipe
  | NotConnected
  | OtherIo string

text \<open>
  \<open>CoreError\<close>: the variants that wrap an error of a third-party crate carry its message.
\<close>

datatype core_error =
    InvalidRequest string
  | InvalidIdentity string
  | InvalidTransfer string
  | FingerprintMismatch
  | Cancelled
  | TransferBusy string
  | DigestMismatch path
  | Io io_kind
  | Json string
  | QuinnConnection string
  | QuinnConnect string
  | QuinnWrite string
  | QuinnRead string
  | QuinnConfig string
  | Crypto string
  | Protocol string

type_synonym 'a result = "core_error + 'a"

text \<open>The \<open>?\<close> operator: continue with the value, or return the error at once.\<close>

definition bind_r :: "'e + 'a \<Rightarrow> ('a \<Rightarrow> 'e + 'b) \<Rightarrow> 'e + 'b" where
  "bind_r m f = (case m of Inl e \<Rightarrow> Inl e | Inr x \<Rightarrow> f x)"

text \<open>\<open>if cond { return Err(e); }\<close> followed by the rest of the function.\<close>

definition reject_if :: "bool \<Rightarrow> 'e \<Rightarrow> 'e + 'a \<Rightarrow> 'e + 'a" where
  "reject_if c e k = (if c then Inl e else k)"

text \<open>\<open>Option::ok_or\<close>.\<close>

definition ok_or :: "'a option \<Rightarrow> 'e \<Rightarrow> 'e + 'a" where
  "ok_or x e = (case x of None \<Rightarrow> Inl e | Some v \<Rightarrow> Inr v)"

definition is_ok :: "'e + 'a \<Rightarrow> bool" where
  "is_ok m = (case m of Inl _ \<Rightarrow> False | Inr _ \<Rightarrow> True)"

lemma bind_r_simps [simp, code_unfold]:
  "bind_r (Inl e) f = Inl e" "bind_r (Inr x) f = f x"
  by (simp_all add: bind_r_def)

lemma bind_r_Inr_iff [result_simps]:
  "bind_r m f = Inr y \<longleftrightarrow> (\<exists>x. m = Inr x \<and> f x = Inr y)"
  by (cases m) auto

lemma bind_r_Inl_iff [result_simps]:
  "bind_r m f = Inl e \<longleftrightarrow> m = Inl e \<or> (\<exists>x. m = Inr x \<and> f x = Inl e)"
  by (cases m) auto

lemma reject_if_simps [simp]:
  "reject_if True e k = Inl e" "reject_if False e k = k"
  by (simp_all add: reject_if_def)

lemma reject_if_Inr_iff [result_simps]:
  "reject_if c e k = Inr y \<longleftrightarrow> \<not> c \<and> k = Inr y"
  by (simp add: reject_if_def)

lemma reject_if_Inl_iff [result_simps]:
  "reject_if c e k = Inl e' \<longleftrightarrow> (c \<and> e = e') \<or> (\<not> c \<and> k = Inl e')"
  by (auto simp: reject_if_def)

lemma ok_or_simps [simp]:
  "ok_or None e = Inl e" "ok_or (Some v) e = Inr v"
  by (simp_all add: ok_or_def)

lemma ok_or_Inr_iff [result_simps]: "ok_or x e = Inr v \<longleftrightarrow> x = Some v"
  by (cases x) auto

lemma is_ok_simps [simp]: "\<not> is_ok (Inl e)" "is_ok (Inr x)"
  by (simp_all add: is_ok_def)

lemma is_ok_iff: "is_ok m \<longleftrightarrow> (\<exists>x. m = Inr x)"
  by (cases m) auto

section \<open>Unsigned arithmetic\<close>

definition u16_max :: nat where "u16_max = 2 ^ 16 - 1"
definition u32_max :: nat where "u32_max = 2 ^ 32 - 1"
definition u64_max :: nat where "u64_max = 2 ^ 64 - 1"

text \<open>\<open>u64::checked_add\<close>.\<close>

definition checked_add_u64 :: "nat \<Rightarrow> nat \<Rightarrow> nat option" where
  "checked_add_u64 a b = (if a + b \<le> u64_max then Some (a + b) else None)"

lemma checked_add_u64_Some [simp]:
  "checked_add_u64 a b = Some c \<longleftrightarrow> c = a + b \<and> a + b \<le> u64_max"
  by (auto simp: checked_add_u64_def)

section \<open>Big-endian integers\<close>

text \<open>\<open>to_be_bytes\<close> of an integer of \<open>w\<close> bytes, and \<open>from_be_bytes\<close>.\<close>

fun be_bytes :: "nat \<Rightarrow> nat \<Rightarrow> bytes" where
  "be_bytes 0 n = []"
| "be_bytes (Suc w) n = be_bytes w (n div 256) @ [of_nat (n mod 256)]"

definition be_value :: "bytes \<Rightarrow> nat" where
  "be_value bs = foldl (\<lambda>a b. a * 256 + unat b) 0 bs"

lemma length_be_bytes [simp]: "length (be_bytes w n) = w"
  by (induction w arbitrary: n) auto

lemma be_value_snoc [simp]: "be_value (bs @ [b]) = be_value bs * 256 + unat b"
  by (simp add: be_value_def)

lemma be_value_Nil [simp]: "be_value [] = 0"
  by (simp add: be_value_def)

lemma unat_byte_of_nat [simp]: "unat (of_nat (n mod 256) :: byte) = n mod 256"
  by (simp add: unat_of_nat)

lemma unat_byte_less: "unat (b :: byte) < 256"
  using unsigned_less [of b, where ?'a = nat] by simp

lemma be_value_be_bytes: "n < 256 ^ w \<Longrightarrow> be_value (be_bytes w n) = n"
proof (induction w arbitrary: n)
  case 0
  then show ?case by simp
next
  case (Suc w)
  from Suc.prems have "n div 256 < 256 ^ w"
    by (simp add: less_mult_imp_div_less mult.commute)
  then show ?case using Suc.IH by simp
qed

lemma be_value_bound: "be_value bs < 256 ^ length bs"
proof (induction bs rule: rev_induct)
  case Nil
  then show ?case by simp
next
  case (snoc b bs)
  from snoc unat_byte_less [of b] show ?case by simp
qed

lemma be_bytes_be_value: "be_bytes (length bs) (be_value bs) = bs"
proof (induction bs rule: rev_induct)
  case Nil
  then show ?case by simp
next
  case (snoc b bs)
  have "unat b < 256" by (rule unat_byte_less)
  then have "(be_value bs * 256 + unat b) div 256 = be_value bs"
    and "(be_value bs * 256 + unat b) mod 256 = unat b"
    by simp_all
  with snoc show ?case by simp
qed

lemma be_bytes_inj: "n < 256 ^ w \<Longrightarrow> m < 256 ^ w \<Longrightarrow> be_bytes w n = be_bytes w m \<Longrightarrow> n = m"
  by (metis be_value_be_bytes)

section \<open>Strings as bytes\<close>

text \<open>\<open>str::as_bytes\<close> and back.\<close>

definition str_bytes :: "string \<Rightarrow> bytes" where
  "str_bytes s = map (\<lambda>c. of_nat (of_char c)) s"

definition bytes_str :: "bytes \<Rightarrow> string" where
  "bytes_str bs = map (\<lambda>b. char_of (unat b)) bs"

lemma of_char_less: "(of_char c :: nat) < 256"
  by (metis of_char_mod_256 mod_less_divisor zero_less_numeral)

lemma bytes_str_str_bytes [simp]: "bytes_str (str_bytes s) = s"
proof (induction s)
  case Nil
  show ?case by (simp add: bytes_str_def str_bytes_def)
next
  case (Cons c s)
  have "unat (of_nat (of_char c) :: byte) = of_char c"
    using of_char_less [of c] by (simp add: unat_of_nat)
  with Cons show ?case by (simp add: bytes_str_def str_bytes_def)
qed

lemma length_str_bytes [simp]: "length (str_bytes s) = length s"
  by (simp add: str_bytes_def)

lemma str_bytes_append [simp]: "str_bytes (s @ t) = str_bytes s @ str_bytes t"
  by (simp add: str_bytes_def)

lemma str_bytes_inj [simp]: "str_bytes s = str_bytes t \<longleftrightarrow> s = t"
  by (metis bytes_str_str_bytes)

section \<open>Decimal numerals\<close>

definition digit_char :: "nat \<Rightarrow> char" where
  "digit_char d = char_of (48 + d)"

text \<open>\<open>Display\<close> of an unsigned integer.\<close>

fun dec :: "nat \<Rightarrow> string" where
  "dec n = (if n < 10 then [digit_char n] else dec (n div 10) @ [digit_char (n mod 10)])"

declare dec.simps [simp del]

definition is_digit :: "char \<Rightarrow> bool" where
  "is_digit c \<longleftrightarrow> 48 \<le> (of_char c :: nat) \<and> (of_char c :: nat) \<le> 57"

definition digit_value :: "char \<Rightarrow> nat" where
  "digit_value c = of_char c - 48"

definition digits_value :: "string \<Rightarrow> nat" where
  "digits_value s = foldl (\<lambda>a c. a * 10 + digit_value c) 0 s"

lemma digit_char_simps [simp]:
  assumes "d < 10"
  shows "is_digit (digit_char d)" "digit_value (digit_char d) = d"
  using assms by (simp_all add: is_digit_def digit_char_def digit_value_def)

lemma dec_nonempty [simp]: "dec n \<noteq> []"
  by (subst dec.simps) simp

lemma dec_digits: "c \<in> set (dec n) \<Longrightarrow> is_digit c"
proof (induction n rule: dec.induct)
  case (1 n)
  then show ?case
    by (cases "n < 10") (auto simp: dec.simps [of n] digit_char_simps)
qed

lemma digits_value_snoc [simp]: "digits_value (s @ [c]) = digits_value s * 10 + digit_value c"
  by (simp add: digits_value_def)

lemma digits_value_dec [simp]: "digits_value (dec n) = n"
proof (induction n rule: dec.induct)
  case (1 n)
  then show ?case
    by (cases "n < 10") (auto simp: dec.simps [of n] digits_value_def)
qed

lemma dec_inj [simp]: "dec n = dec m \<longleftrightarrow> n = m"
  by (metis digits_value_dec)

text \<open>
  \<open>str::parse\<close> into an unsigned integer of at most \<open>bound\<close>: an optional \<open>+\<close>, at least one
  digit, no other character, and no overflow.
\<close>

definition parse_unsigned :: "nat \<Rightarrow> string \<Rightarrow> nat option" where
  "parse_unsigned bound s =
     (let ds = (case s of c # cs \<Rightarrow> if c = CHR ''+'' then cs else s | [] \<Rightarrow> [])
      in if ds \<noteq> [] \<and> list_all is_digit ds \<and> digits_value ds \<le> bound
         then Some (digits_value ds) else None)"

definition parse_u16 :: "string \<Rightarrow> nat option" where
  "parse_u16 s = parse_unsigned u16_max s"

lemma dec_hd_not_plus: "dec n = c # cs \<Longrightarrow> c \<noteq> CHR ''+''"
  using dec_digits [of c n] by (auto simp: is_digit_def)

lemma parse_unsigned_dec:
  assumes "n \<le> bound"
  shows "parse_unsigned bound (dec n) = Some n"
proof -
  obtain c cs where c: "dec n = c # cs" by (cases "dec n") auto
  then have "c \<noteq> CHR ''+''" by (rule dec_hd_not_plus)
  moreover have "list_all is_digit (c # cs)"
    using dec_digits [of _ n] c by (simp add: list_all_iff)
  moreover have "digits_value (c # cs) = n" using digits_value_dec [of n] c by simp
  ultimately show ?thesis using assms by (simp add: parse_unsigned_def c)
qed

lemma parse_u16_dec: "n \<le> u16_max \<Longrightarrow> parse_u16 (dec n) = Some n"
  by (simp add: parse_u16_def parse_unsigned_dec)

lemma parse_u16_bound: "parse_u16 s = Some n \<Longrightarrow> n \<le> u16_max"
  by (auto simp: parse_u16_def parse_unsigned_def Let_def split: if_splits)

section \<open>Lists\<close>

lemma strict_sorted_distinct: "sorted_wrt (<) (xs :: 'a :: linorder list) \<Longrightarrow> distinct xs"
  by (simp add: strict_sorted_iff)

lemma takeWhile_all_append:
  "\<forall>x \<in> set xs. P x \<Longrightarrow> \<not> P y \<Longrightarrow> takeWhile P (xs @ y # ys) = xs"
  by (induction xs) auto

lemma dropWhile_all_append:
  "\<forall>x \<in> set xs. P x \<Longrightarrow> dropWhile P (xs @ ys) = dropWhile P ys"
  by (induction xs) auto

end
