(* ===== verification/RustText.thy ===== *)
theory RustText
  imports InkPrelude
begin

text \<open>
  The operations of Rust's \<open>str\<close> that the core crate uses, on the UTF-8 bytes of the string:
  \<open>split\<close> and \<open>rsplit_once\<close> at an ASCII character, \<open>trim\<close> (all 25 code points with the
  Unicode property White\_Space, by their encodings), \<open>trim_end_matches\<close>, the ASCII case
  conversions, and the lower-case hexadecimal tests. An ASCII character never occurs inside the
  encoding of another code point, so testing bytes and testing characters agree for the
  ASCII tests the code makes.
\<close>

section \<open>Splitting\<close>

text \<open>\<open>str::split(c)\<close>: at least one part, \<open>[[]]\<close> for the empty string.\<close>

fun split_on :: "char \<Rightarrow> string \<Rightarrow> string list" where
  "split_on c [] = [[]]"
| "split_on c (x # xs) =
     (if x = c then [] # split_on c xs
      else case split_on c xs of [] \<Rightarrow> [[x]] | y # ys \<Rightarrow> (x # y) # ys)"

definition join_with :: "char \<Rightarrow> string list \<Rightarrow> string" where
  "join_with c parts = (case parts of [] \<Rightarrow> [] | p # ps \<Rightarrow> p @ concat (map (\<lambda>q. c # q) ps))"

text \<open>\<open>str::rsplit_once(c)\<close>: around the last occurrence.\<close>

definition rsplit_once :: "char \<Rightarrow> string \<Rightarrow> (string \<times> string) option" where
  "rsplit_once c s =
     (let post = takeWhile (\<lambda>x. x \<noteq> c) (rev s)
      in if length post = length s then None
         else Some (rev (drop (Suc (length post)) (rev s)), rev post))"

text \<open>\<open>str::split_once(sep)\<close> for a separator that is a string: around the first occurrence.\<close>

fun split_once_str :: "string \<Rightarrow> string \<Rightarrow> (string \<times> string) option" where
  "split_once_str sep [] = (if sep = [] then Some ([], []) else None)"
| "split_once_str sep (x # xs) =
     (if prefix sep (x # xs) then Some ([], drop (length sep) (x # xs))
      else map_option (\<lambda>(a, b). (x # a, b)) (split_once_str sep xs))"

lemma split_on_not_Nil [simp]: "split_on c s \<noteq> []"
  by (induction s) (auto split: list.splits)

lemma split_on_Cons_cases: "\<exists>y ys. split_on c s = y # ys"
  using split_on_not_Nil by (cases "split_on c s") blast+

lemma join_with_split_on [simp]: "join_with c (split_on c s) = s"
proof (induction s)
  case Nil
  show ?case by (simp add: join_with_def)
next
  case (Cons x xs)
  then show ?case
    using split_on_Cons_cases [of c xs] by (auto simp: join_with_def split: list.splits)
qed

lemma split_on_parts: "p \<in> set (split_on c s) \<Longrightarrow> c \<notin> set p"
proof (induction s arbitrary: p)
  case Nil
  then show ?case by simp
next
  case (Cons x xs)
  then show ?case
    by (cases "split_on c xs") (fastforce split: if_splits)+
qed

lemma split_on_free: "c \<notin> set s \<Longrightarrow> split_on c s = [s]"
  by (induction s) auto

lemma split_on_append: "c \<notin> set p \<Longrightarrow> split_on c (p @ c # s) = p # split_on c s"
  by (induction p) auto

lemma split_on_snoc: "split_on c (q @ [c]) = split_on c q @ [[]]"
proof (induction q)
  case Nil
  show ?case by simp
next
  case (Cons x q)
  then show ?case using split_on_Cons_cases [of c q] by auto
qed

lemma split_on_join_with:
  "ps \<noteq> [] \<Longrightarrow> \<forall>p \<in> set ps. c \<notin> set p \<Longrightarrow> split_on c (join_with c ps) = ps"
proof (induction ps)
  case Nil
  then show ?case by simp
next
  case (Cons p ps)
  show ?case
  proof (cases ps)
    case Nil
    with Cons.prems show ?thesis by (simp add: join_with_def split_on_free)
  next
    case (Cons q qs)
    have "join_with c (p # ps) = p @ c # join_with c ps"
      by (simp add: join_with_def Cons)
    with Cons Cons.IH Cons.prems show ?thesis by (simp add: split_on_append)
  qed
qed

lemma split_on_set: "p \<in> set (split_on c s) \<Longrightarrow> set p \<subseteq> set s"
proof (induction s arbitrary: p)
  case Nil
  then show ?case by simp
next
  case (Cons x xs)
  then show ?case
    by (cases "split_on c xs") (fastforce split: if_splits)+
qed

lemma rsplit_once_Some:
  assumes "rsplit_once c s = Some (a, b)"
  shows "s = a @ c # b \<and> c \<notin> set b"
proof -
  let ?post = "takeWhile (\<lambda>x. x \<noteq> c) (rev s)"
  let ?r = "dropWhile (\<lambda>x. x \<noteq> c) (rev s)"
  have app: "?post @ ?r = rev s" by simp
  have ne: "length ?post \<noteq> length s" and b: "b = rev ?post"
    and a: "a = rev (drop (Suc (length ?post)) (rev s))"
    using assms by (auto simp: rsplit_once_def Let_def split: if_splits)
  have "?r \<noteq> []"
    using ne app by (metis append_Nil2 length_rev)
  then obtain t where t: "?r = c # t"
    using hd_dropWhile [of "\<lambda>x. x \<noteq> c" "rev s"] by (cases ?r) auto
  have rs: "rev s = ?post @ c # t" using app t by simp
  then have "drop (Suc (length ?post)) (rev s) = t"
    by (metis append.assoc append_Cons append_Nil append_eq_conv_conj length_append_singleton)
  with a have "a = rev t" by simp
  moreover have "s = rev t @ c # rev ?post"
    using rs by (metis append.assoc append_Cons append_Nil rev_append rev_rev_ident rev.simps(2))
  moreover have "c \<notin> set b" using b by (auto dest: set_takeWhileD)
  ultimately show ?thesis using b by simp
qed

lemma rsplit_once_append: "c \<notin> set b \<Longrightarrow> rsplit_once c (a @ c # b) = Some (a, b)"
proof -
  assume "c \<notin> set b"
  then have "takeWhile (\<lambda>x. x \<noteq> c) (rev b @ c # rev a) = rev b"
    by (intro takeWhile_all_append) auto
  then show ?thesis by (simp add: rsplit_once_def Let_def)
qed

lemma rsplit_once_None: "rsplit_once c s = None \<longleftrightarrow> c \<notin> set s"
proof
  assume "rsplit_once c s = None"
  show "c \<notin> set s"
  proof
    assume "c \<in> set s"
    then obtain a b where "s = a @ c # b" "c \<notin> set b"
      by (auto dest: split_list_last)
    with \<open>rsplit_once c s = None\<close> show False by (simp add: rsplit_once_append)
  qed
next
  assume "c \<notin> set s"
  then have "takeWhile (\<lambda>x. x \<noteq> c) (rev s) = rev s"
    by (intro takeWhile_eq_all_conv [THEN iffD2]) auto
  then have "length (takeWhile (\<lambda>x. x \<noteq> c) (rev s)) = length s"
    by (metis length_rev)
  then show "rsplit_once c s = None" by (simp add: rsplit_once_def Let_def)
qed

section \<open>Trimming\<close>

text \<open>The UTF-8 encodings of the code points with the property White\_Space.\<close>

definition ws_encodings :: "string list" where
  "ws_encodings =
     [[CHR 0x09], [CHR 0x0A], [CHR 0x0B], [CHR 0x0C], [CHR 0x0D], [CHR 0x20],
      [CHR 0xC2, CHR 0x85], [CHR 0xC2, CHR 0xA0], [CHR 0xE1, CHR 0x9A, CHR 0x80],
      [CHR 0xE2, CHR 0x80, CHR 0x80], [CHR 0xE2, CHR 0x80, CHR 0x81],
      [CHR 0xE2, CHR 0x80, CHR 0x82], [CHR 0xE2, CHR 0x80, CHR 0x83],
      [CHR 0xE2, CHR 0x80, CHR 0x84], [CHR 0xE2, CHR 0x80, CHR 0x85],
      [CHR 0xE2, CHR 0x80, CHR 0x86], [CHR 0xE2, CHR 0x80, CHR 0x87],
      [CHR 0xE2, CHR 0x80, CHR 0x88], [CHR 0xE2, CHR 0x80, CHR 0x89],
      [CHR 0xE2, CHR 0x80, CHR 0x8A], [CHR 0xE2, CHR 0x80, CHR 0xA8],
      [CHR 0xE2, CHR 0x80, CHR 0xA9], [CHR 0xE2, CHR 0x80, CHR 0xAF],
      [CHR 0xE2, CHR 0x81, CHR 0x9F], [CHR 0xE3, CHR 0x80, CHR 0x80]]"

function strip_front :: "string list \<Rightarrow> string \<Rightarrow> string" where
  "strip_front ws s =
     (case find (\<lambda>w. w \<noteq> [] \<and> prefix w s) ws of
        None \<Rightarrow> s
      | Some w \<Rightarrow> strip_front ws (drop (length w) s))"
  by pat_completeness auto
termination
proof (relation "measure (\<lambda>(ws, s). length s)")
  show "wf (measure (\<lambda>(ws :: string list, s :: string). length s))" by simp
next
  fix ws :: "string list" and s w
  assume "find (\<lambda>w. w \<noteq> [] \<and> prefix w s) ws = Some w"
  then have "w \<noteq> []" and "prefix w s"
    by (auto simp: find_Some_iff)
  then show "((ws, drop (length w) s), (ws, s)) \<in> measure (\<lambda>(ws, s). length s)"
    using prefix_length_le [of w s] by (cases s) (auto simp: prefix_def)
qed

declare strip_front.simps [simp del]

definition trim_start :: "string \<Rightarrow> string" where
  "trim_start s = strip_front ws_encodings s"

definition trim_end :: "string \<Rightarrow> string" where
  "trim_end s = rev (strip_front (map rev ws_encodings) (rev s))"

definition trim :: "string \<Rightarrow> string" where
  "trim s = trim_end (trim_start s)"

definition no_front :: "string list \<Rightarrow> string \<Rightarrow> bool" where
  "no_front ws s \<longleftrightarrow> (\<forall>w \<in> set ws. w \<noteq> [] \<longrightarrow> \<not> prefix w s)"

lemma strip_front_no_front: "no_front ws s \<Longrightarrow> strip_front ws s = s"
  by (subst strip_front.simps) (auto simp: no_front_def find_None_iff split: option.splits
      dest!: find_Some_iff [THEN iffD1] nth_mem)

lemma no_front_strip_front: "no_front ws (strip_front ws s)"
proof (induction ws s rule: strip_front.induct)
  case (1 ws s)
  show ?case
  proof (cases "find (\<lambda>w. w \<noteq> [] \<and> prefix w s) ws")
    case None
    then have "strip_front ws s = s" by (subst strip_front.simps) simp
    with None show ?thesis by (auto simp: no_front_def find_None_iff)
  next
    case (Some w)
    with 1 show ?thesis by (subst strip_front.simps) simp
  qed
qed

lemma strip_front_suffix: "suffix (strip_front ws s) s"
proof (induction ws s rule: strip_front.induct)
  case (1 ws s)
  show ?case
  proof (cases "find (\<lambda>w. w \<noteq> [] \<and> prefix w s) ws")
    case None
    then show ?thesis by (subst strip_front.simps) simp
  next
    case (Some w)
    then have "strip_front ws s = strip_front ws (drop (length w) s)"
      by (subst strip_front.simps) simp
    with 1 [OF Some] suffix_drop [of "length w" s] show ?thesis by (auto intro: suffix_order.trans)
  qed
qed

lemma no_front_prefix: "no_front ws s \<Longrightarrow> prefix t s \<Longrightarrow> no_front ws t"
  unfolding no_front_def using prefix_order.trans by blast

lemma trim_end_prefix: "prefix (trim_end s) s"
  using strip_front_suffix [of "map rev ws_encodings" "rev s"]
  by (simp add: trim_end_def suffix_to_prefix)

lemma trim_idem [simp]: "trim (trim s) = trim s"
proof -
  have "no_front ws_encodings (trim_start s)"
    by (simp add: trim_start_def no_front_strip_front)
  then have "no_front ws_encodings (trim s)"
    unfolding trim_def using trim_end_prefix no_front_prefix by blast
  then have "trim_start (trim s) = trim s"
    by (simp add: trim_start_def strip_front_no_front)
  moreover have "trim_end (trim_end t) = trim_end t" for t
    by (simp add: trim_end_def strip_front_no_front no_front_strip_front)
  ultimately show ?thesis by (simp add: trim_def)
qed

text \<open>Trimming leaves text alone that shares no character with the white space encodings.\<close>

definition ws_chars :: "char set" where
  "ws_chars = (\<Union>w \<in> set ws_encodings. set w)"

lemma no_front_disjoint:
  assumes "set s \<inter> ws_chars = {}" "\<forall>w \<in> set ws. set w \<subseteq> ws_chars"
  shows "no_front ws s"
  unfolding no_front_def
proof (intro ballI impI notI)
  fix w assume "w \<in> set ws" "w \<noteq> []" "prefix w s"
  then have "hd w \<in> set s" "hd w \<in> set w" "set w \<subseteq> ws_chars"
    using assms(2) by (auto simp: prefix_def)
  with assms(1) show False by blast
qed

lemma trim_disjoint: "set s \<inter> ws_chars = {} \<Longrightarrow> trim s = s"
  unfolding trim_def trim_start_def trim_end_def
  by (simp add: strip_front_no_front no_front_disjoint ws_chars_def Sup_upper UN_upper)

lemma length_trim: "length (trim s) \<le> length s"
proof -
  have "length (trim s) \<le> length (trim_start s)"
    unfolding trim_def by (rule prefix_length_le [OF trim_end_prefix])
  also have "\<dots> \<le> length s"
    unfolding trim_start_def using strip_front_suffix by (rule suffix_length_le)
  finally show ?thesis .
qed

text \<open>\<open>trim_end_matches\<close> and \<open>trim_matches\<close> with a set of characters.\<close>

definition trim_end_chars :: "char list \<Rightarrow> string \<Rightarrow> string" where
  "trim_end_chars cs s = rev (dropWhile (\<lambda>c. c \<in> set cs) (rev s))"

definition trim_chars :: "char list \<Rightarrow> string \<Rightarrow> string" where
  "trim_chars cs s = trim_end_chars cs (dropWhile (\<lambda>c. c \<in> set cs) s)"

definition ends_with_any :: "char list \<Rightarrow> string \<Rightarrow> bool" where
  "ends_with_any cs s \<longleftrightarrow> s \<noteq> [] \<and> last s \<in> set cs"

lemma trim_end_chars_not_ends: "\<not> ends_with_any cs (trim_end_chars cs s)"
proof (cases "dropWhile (\<lambda>c. c \<in> set cs) (rev s)")
  case Nil
  then show ?thesis by (simp add: ends_with_any_def trim_end_chars_def)
next
  case (Cons x xs)
  then have "x \<notin> set cs" using hd_dropWhile [of "\<lambda>c. c \<in> set cs" "rev s"] by simp
  with Cons show ?thesis by (simp add: ends_with_any_def trim_end_chars_def)
qed

lemma trim_end_chars_id: "\<not> ends_with_any cs s \<Longrightarrow> trim_end_chars cs s = s"
  by (cases s rule: rev_cases) (auto simp: ends_with_any_def trim_end_chars_def)

lemma trim_end_chars_set: "set (trim_end_chars cs s) \<subseteq> set s"
  by (auto simp: trim_end_chars_def dest: set_dropWhileD)

section \<open>ASCII case and hexadecimal digits\<close>

definition ascii_lower_char :: "char \<Rightarrow> char" where
  "ascii_lower_char c =
     (if 65 \<le> (of_char c :: nat) \<and> (of_char c :: nat) \<le> 90 then char_of (of_char c + 32 :: nat) else c)"

definition ascii_upper_char :: "char \<Rightarrow> char" where
  "ascii_upper_char c =
     (if 97 \<le> (of_char c :: nat) \<and> (of_char c :: nat) \<le> 122 then char_of (of_char c - 32 :: nat) else c)"

definition to_ascii_lowercase :: "string \<Rightarrow> string" where
  "to_ascii_lowercase s = map ascii_lower_char s"

definition to_ascii_uppercase :: "string \<Rightarrow> string" where
  "to_ascii_uppercase s = map ascii_upper_char s"

definition is_lower_alpha :: "char \<Rightarrow> bool" where
  "is_lower_alpha c \<longleftrightarrow> 97 \<le> (of_char c :: nat) \<and> (of_char c :: nat) \<le> 122"

definition is_lower_hex :: "char \<Rightarrow> bool" where
  "is_lower_hex c \<longleftrightarrow> is_digit c \<or> (97 \<le> (of_char c :: nat) \<and> (of_char c :: nat) \<le> 102)"

lemma ascii_lower_char_idem [simp]: "ascii_lower_char (ascii_lower_char c) = ascii_lower_char c"
  by (simp add: ascii_lower_char_def)

lemma to_ascii_lowercase_idem [simp]:
  "to_ascii_lowercase (to_ascii_lowercase s) = to_ascii_lowercase s"
  by (simp add: to_ascii_lowercase_def)

lemma ws_chars_not_lower_hex: "c \<in> ws_chars \<Longrightarrow> \<not> is_lower_hex c"
  by (auto simp: ws_chars_def ws_encodings_def is_lower_hex_def is_digit_def)

lemma ws_chars_not_graphic: "c \<in> ws_chars \<Longrightarrow> \<not> (33 \<le> (of_char c :: nat) \<and> (of_char c :: nat) \<le> 126)"
  by (auto simp: ws_chars_def ws_encodings_def)

lemma trim_graphic: "list_all (\<lambda>c. 33 \<le> (of_char c :: nat) \<and> (of_char c :: nat) \<le> 126) s \<Longrightarrow> trim s = s"
  by (rule trim_disjoint) (auto simp: list_all_iff dest: ws_chars_not_graphic)

lemma trim_lower_hex: "list_all is_lower_hex s \<Longrightarrow> trim s = s"
  by (rule trim_disjoint) (auto simp: list_all_iff dest: ws_chars_not_lower_hex)

lemma ascii_lower_char_lower_hex: "is_lower_hex c \<Longrightarrow> ascii_lower_char c = c"
  by (auto simp: is_lower_hex_def is_digit_def ascii_lower_char_def)

lemma length_to_ascii_lowercase [simp]: "length (to_ascii_lowercase s) = length s"
  by (simp add: to_ascii_lowercase_def)

lemma length_to_ascii_uppercase [simp]: "length (to_ascii_uppercase s) = length s"
  by (simp add: to_ascii_uppercase_def)

end
