(* ===== verification/Json.thy ===== *)
theory Json
  imports RustText "HOL-Library.Countable"
begin

text \<open>
  The data side of serde: a JSON value, reading the fields of an object as
  \<open>#[derive(Deserialize)]\<close> does (a missing field is an error unless it has a default, a field
  given twice is an error, an unknown field is ignored), and the primitive decoders. The text
  of a value (\<open>serde_json::to_vec\<close>, \<open>from_slice\<close>) belongs to the crate and is a parameter of
  the model: the two functions \<open>json_print\<close> and \<open>json_parse\<close> of the record below, which
  bundles every function of a third-party crate that the modelled code calls. A number
  that is not an integer keeps its text only: no structure of the program has a floating-point
  field, so every decoder refuses it. The message of a \<open>serde_json::Error\<close> is not modelled: the
  error carries an empty text.
\<close>

datatype jvalue =
    JNull
  | JBool bool
  | JNum int
  | JReal string
  | JStr string
  | JArr "jvalue list"
  | JObj "(string \<times> jvalue) list"

instance jvalue :: countable
  by countable_datatype

text \<open>
  The third-party functions: JSON text, Base64, hexadecimal text, UUID syntax, BLAKE3 (plain,
  keyed, key derivation), Ed25519 (point decoding, verification, signing, public key of a seed),
  Unicode normalisation and lower-casing, HKDF-SHA256, SHA-256 and XSalsa20-Poly1305.
\<close>

record crates =
  json_print :: "jvalue \<Rightarrow> bytes"
  json_parse :: "bytes \<Rightarrow> jvalue option"
  base64_encode :: "bytes \<Rightarrow> string"
  base64_decode :: "string \<Rightarrow> bytes option"
  hex_encode :: "bytes \<Rightarrow> string"
  hex_decode :: "string \<Rightarrow> bytes option"
  uuid_parses :: "string \<Rightarrow> bool"
  blake3_hash :: "bytes \<Rightarrow> bytes"
  blake3_derive_key :: "string \<Rightarrow> bytes \<Rightarrow> bytes"
  blake3_keyed_hash :: "bytes \<Rightarrow> bytes \<Rightarrow> bytes"
  ed25519_point_ok :: "bytes \<Rightarrow> bool"
  ed25519_verify :: "bytes \<Rightarrow> bytes \<Rightarrow> bytes \<Rightarrow> bool"
  ed25519_sign :: "bytes \<Rightarrow> bytes \<Rightarrow> bytes"
  ed25519_public :: "bytes \<Rightarrow> bytes"
  unicode_nfc :: "string \<Rightarrow> string"
  unicode_lowercase :: "string \<Rightarrow> string"
  hkdf_sha256 :: "bytes \<Rightarrow> bytes \<Rightarrow> bytes"
  secretbox_encrypt :: "bytes \<Rightarrow> bytes \<Rightarrow> bytes \<Rightarrow> bytes"
  secretbox_decrypt :: "bytes \<Rightarrow> bytes \<Rightarrow> bytes \<Rightarrow> bytes option"
  sha256 :: "bytes \<Rightarrow> bytes"

definition json_error :: core_error where
  "json_error = Json []"

definition to_vec :: "crates \<Rightarrow> jvalue \<Rightarrow> bytes" where
  "to_vec E v = json_print E v"

definition from_slice :: "crates \<Rightarrow> bytes \<Rightarrow> jvalue result" where
  "from_slice E bs = ok_or (json_parse E bs) json_error"

text \<open>The documented behaviour of \<open>serde_json\<close> the code relies on: printed text parses back.\<close>

definition json_roundtrip :: "crates \<Rightarrow> bool" where
  "json_roundtrip E \<longleftrightarrow> (\<forall>v. json_parse E (json_print E v) = Some v)"

lemma json_print_inj: "json_roundtrip E \<Longrightarrow> json_print E v = json_print E w \<Longrightarrow> v = w"
  by (metis json_roundtrip_def option.inject)

text \<open>JSON text is never empty.\<close>

definition json_nonempty :: "crates \<Rightarrow> bool" where
  "json_nonempty E \<longleftrightarrow> (\<forall>v. json_print E v \<noteq> [])"

text \<open>The documented behaviour of the codecs: encoded bytes decode to themselves.\<close>

definition base64_roundtrip :: "crates \<Rightarrow> bool" where
  "base64_roundtrip E \<longleftrightarrow> (\<forall>b. base64_decode E (base64_encode E b) = Some b)"

definition hex_roundtrip :: "crates \<Rightarrow> bool" where
  "hex_roundtrip E \<longleftrightarrow> (\<forall>b. hex_decode E (hex_encode E b) = Some b)"

text \<open>Base64 text has no white space at its ends.\<close>

definition base64_plain :: "crates \<Rightarrow> bool" where
  "base64_plain E \<longleftrightarrow> (\<forall>b. trim (base64_encode E b) = base64_encode E b)"

text \<open>
  The documented behaviour of the Ed25519 crate: keys have 32 bytes and signatures 64, the
  public key of a seed is a valid point, and it verifies what the seed signs.
\<close>

definition ed25519_correct :: "crates \<Rightarrow> bool" where
  "ed25519_correct E \<longleftrightarrow>
     (\<forall>seed msg. length seed = 32 \<longrightarrow>
        length (ed25519_public E seed) = 32 \<and> ed25519_point_ok E (ed25519_public E seed) \<and>
        length (ed25519_sign E seed msg) = 64 \<and>
        ed25519_verify E (ed25519_public E seed) msg (ed25519_sign E seed msg))"

text \<open>The digest of the BLAKE3 crate has 32 bytes.\<close>

definition blake3_sizes :: "crates \<Rightarrow> bool" where
  "blake3_sizes E \<longleftrightarrow>
     (\<forall>k m. length (blake3_hash E m) = 32 \<and> length (blake3_keyed_hash E k m) = 32)"

text \<open>
  The documented behaviour of the authenticated cipher: a sealed message opens to itself and is
  16 bytes longer; a derived key has 32 bytes.
\<close>

definition secretbox_correct :: "crates \<Rightarrow> bool" where
  "secretbox_correct E \<longleftrightarrow>
     (\<forall>k n m. secretbox_decrypt E k n (secretbox_encrypt E k n m) = Some m \<and>
        length (secretbox_encrypt E k n m) = length m + 16)"

definition hkdf_sizes :: "crates \<Rightarrow> bool" where
  "hkdf_sizes E \<longleftrightarrow> (\<forall>k p. length (hkdf_sha256 E k p) = 32)"

text \<open>\<open>hex::encode\<close> writes two lower-case digits per byte.\<close>

definition hex_lower :: "crates \<Rightarrow> bool" where
  "hex_lower E \<longleftrightarrow>
     (\<forall>b. length (hex_encode E b) = 2 * length b \<and> list_all is_lower_hex (hex_encode E b))"

text \<open>The text of a UUID contains neither a separator nor a dot.\<close>

definition uuid_plain :: "crates \<Rightarrow> bool" where
  "uuid_plain E \<longleftrightarrow>
     (\<forall>s. uuid_parses E s \<longrightarrow> s \<noteq> [] \<and> CHR ''/'' \<notin> set s \<and> CHR 0x5C \<notin> set s \<and> CHR ''.'' \<notin> set s)"

section \<open>Fields of an object\<close>

definition entries_of :: "string \<Rightarrow> (string \<times> jvalue) list \<Rightarrow> jvalue list" where
  "entries_of k kvs = map snd (filter (\<lambda>kv. fst kv = k) kvs)"

text \<open>
  What a derived \<open>Deserialize\<close> takes for a struct with the fields \<open>required @ optional\<close>, in this order, the last
  ones with a default: an object, or an array of the values, from which the last ones with a default may be absent.
\<close>

fun as_struct :: "string list \<Rightarrow> string list \<Rightarrow> jvalue \<Rightarrow> (string \<times> jvalue) list result" where
  "as_struct required optional (JObj kvs) = Inr kvs"
| "as_struct required optional (JArr vs) =
     (if length required \<le> length vs \<and> length vs \<le> length required + length optional
      then Inr (zip (required @ optional) vs) else Inl json_error)"
| "as_struct required optional _ = Inl json_error"

text \<open>With \<open>#[serde(default, deny_unknown_fields)]\<close>.\<close>

definition strict_struct :: "string list \<Rightarrow> jvalue \<Rightarrow> (string \<times> jvalue) list result" where
  "strict_struct known v =
     bind_r (as_struct [] known v) (\<lambda>kvs. reject_if (list_ex (\<lambda>(k, _). k \<notin> set known) kvs) json_error (Inr kvs))"

text \<open>A required field.\<close>

definition field :: "string \<Rightarrow> (jvalue \<Rightarrow> 'a result) \<Rightarrow> (string \<times> jvalue) list \<Rightarrow> 'a result" where
  "field k dec_value kvs =
     (case entries_of k kvs of [v] \<Rightarrow> dec_value v | _ \<Rightarrow> Inl json_error)"

text \<open>A field with \<open>#[serde(default)]\<close>.\<close>

definition field_default ::
  "string \<Rightarrow> 'a \<Rightarrow> (jvalue \<Rightarrow> 'a result) \<Rightarrow> (string \<times> jvalue) list \<Rightarrow> 'a result" where
  "field_default k d dec_value kvs =
     (case entries_of k kvs of [] \<Rightarrow> Inr d | [v] \<Rightarrow> dec_value v | _ \<Rightarrow> Inl json_error)"

text \<open>\<open>Value::get(k)\<close>: the value of a key of an object, if it is one.\<close>

definition value_get :: "string \<Rightarrow> jvalue \<Rightarrow> jvalue option" where
  "value_get k v = (case v of JObj kvs \<Rightarrow> map_of (rev kvs) k | _ \<Rightarrow> None)"

definition value_as_str :: "jvalue \<Rightarrow> string option" where
  "value_as_str v = (case v of JStr s \<Rightarrow> Some s | _ \<Rightarrow> None)"

fun as_str :: "jvalue \<Rightarrow> string result" where
  "as_str (JStr s) = Inr s"
| "as_str _ = Inl json_error"

fun as_bool :: "jvalue \<Rightarrow> bool result" where
  "as_bool (JBool b) = Inr b"
| "as_bool _ = Inl json_error"

fun as_unsigned :: "nat \<Rightarrow> jvalue \<Rightarrow> nat result" where
  "as_unsigned bound (JNum n) = (if 0 \<le> n \<and> n \<le> int bound then Inr (nat n) else Inl json_error)"
| "as_unsigned bound _ = Inl json_error"

fun as_i64 :: "jvalue \<Rightarrow> int result" where
  "as_i64 (JNum n) = (if - (2 ^ 63) \<le> n \<and> n < 2 ^ 63 then Inr n else Inl json_error)"
| "as_i64 _ = Inl json_error"

fun map_result :: "('a \<Rightarrow> 'b result) \<Rightarrow> 'a list \<Rightarrow> 'b list result" where
  "map_result f [] = Inr []"
| "map_result f (x # xs) = bind_r (f x) (\<lambda>y. bind_r (map_result f xs) (\<lambda>ys. Inr (y # ys)))"

fun as_list :: "(jvalue \<Rightarrow> 'a result) \<Rightarrow> jvalue \<Rightarrow> 'a list result" where
  "as_list f (JArr vs) = map_result f vs"
| "as_list f _ = Inl json_error"

definition jnat :: "nat \<Rightarrow> jvalue" where
  "jnat n = JNum (int n)"

definition jstrs :: "string list \<Rightarrow> jvalue" where
  "jstrs ss = JArr (map JStr ss)"

lemma as_unsigned_jnat [simp]: "n \<le> bound \<Longrightarrow> as_unsigned bound (jnat n) = Inr n"
  by (simp add: jnat_def)

lemma jnat_inj [simp]: "jnat n = jnat m \<longleftrightarrow> n = m"
  by (simp add: jnat_def)

lemma map_result_map: "(\<And>x. x \<in> set xs \<Longrightarrow> f (g x) = Inr x) \<Longrightarrow> map_result f (map g xs) = Inr xs"
  by (induction xs) auto

lemma as_list_jstrs [simp]: "as_list as_str (jstrs ss) = Inr ss"
  by (simp add: jstrs_def map_result_map)

lemma jstrs_inj [simp]: "jstrs ss = jstrs ts \<longleftrightarrow> ss = ts"
  by (auto simp: jstrs_def inj_def dest: map_injective)

lemma entries_of_simps [simp]:
  "entries_of k [] = []"
  "entries_of k ((k', v) # kvs) = (if k' = k then v # entries_of k kvs else entries_of k kvs)"
  "entries_of k (kvs @ kvs') = entries_of k kvs @ entries_of k kvs'"
  by (simp_all add: entries_of_def)

text \<open>A variant without fields is its name, or an object with the name and \<open>null\<close>.\<close>

fun as_variant :: "jvalue \<Rightarrow> string result" where
  "as_variant (JStr s) = Inr s"
| "as_variant (JObj [(s, JNull)]) = Inr s"
| "as_variant _ = Inl json_error"

text \<open>An enum with \<open>#[serde(tag = ...)]\<close>: the tag, and the object or array of the other fields.\<close>

fun as_tagged :: "string \<Rightarrow> jvalue \<Rightarrow> (string \<times> jvalue) result" where
  "as_tagged tag (JObj kvs) = bind_r (field tag as_str kvs) (\<lambda>t. Inr (t, JObj kvs))"
| "as_tagged tag (JArr (v # vs)) = bind_r (as_str v) (\<lambda>t. Inr (t, JArr vs))"
| "as_tagged tag _ = Inl json_error"

section \<open>Values\<close>

text \<open>
  \<open>serde_json::Value\<close> keeps the keys of an object sorted, with the last value of a key that is
  repeated: both \<open>to_value\<close> and reading a \<open>Value\<close> give this form.
\<close>

definition key_map :: "(string \<times> 'a) list \<Rightarrow> (string \<times> 'a) list" where
  "key_map kvs = map (\<lambda>k. (k, the (map_of (rev kvs) k))) (sort (remdups (map fst kvs)))"

fun as_value :: "jvalue \<Rightarrow> jvalue" where
  "as_value (JArr vs) = JArr (map as_value vs)"
| "as_value (JObj kvs) = JObj (key_map (map (\<lambda>(k, v). (k, as_value v)) kvs))"
| "as_value JNull = JNull"
| "as_value (JBool b) = JBool b"
| "as_value (JNum n) = JNum n"
| "as_value (JReal s) = JReal s"
| "as_value (JStr s) = JStr s"

lemma map_of_key_map_rev: "map_of (map (\<lambda>k. (k, f k)) ks) k = (if k \<in> set ks then Some (f k) else None)"
  by (induction ks) auto

lemma map_of_distinct_rev:
  assumes "distinct (map fst kvs)"
  shows "map_of (rev kvs) = map_of kvs"
proof
  fix k show "map_of (rev kvs) k = map_of kvs k"
  proof (cases "map_of kvs k")
    case None
    then have "map_of (rev kvs) k = None" by (simp add: map_of_eq_None_iff)
    with None show ?thesis by simp
  next
    case (Some v)
    then have "(k, v) \<in> set (rev kvs)" by (simp add: map_of_SomeD)
    moreover have "distinct (map fst (rev kvs))" using assms by (simp add: rev_map [symmetric])
    ultimately show ?thesis using Some by simp
  qed
qed

lemma map_of_key_map [simp]: "map_of (key_map kvs) k = map_of (rev kvs) k"
proof -
  have "k \<in> fst ` set kvs \<longleftrightarrow> map_of (rev kvs) k \<noteq> None" by (simp add: map_of_eq_None_iff)
  then show ?thesis by (auto simp: key_map_def map_of_key_map_rev)
qed

lemma distinct_key_map [simp]: "distinct (map fst (key_map kvs))" "sorted (map fst (key_map kvs))"
  by (simp_all add: key_map_def comp_def)

lemma map_of_rev_key_map [simp]: "map_of (rev (key_map kvs)) k = map_of (rev kvs) k"
  using map_of_distinct_rev [OF distinct_key_map(1), of kvs] by simp

lemma entries_of_distinct:
  "distinct (map fst kvs) \<Longrightarrow> entries_of k kvs = (case map_of kvs k of None \<Rightarrow> [] | Some v \<Rightarrow> [v])"
proof (induction kvs)
  case (Cons kv kvs)
  then show ?case
    by (cases kv) (auto simp: map_of_eq_None_iff image_iff split: option.splits)
qed simp

lemma entries_of_key_map [simp]:
  "entries_of k (key_map kvs) = (case map_of (rev kvs) k of None \<Rightarrow> [] | Some v \<Rightarrow> [v])"
  by (simp add: entries_of_distinct)

lemma key_map_id: "distinct (map fst kvs) \<Longrightarrow> sorted (map fst kvs) \<Longrightarrow> key_map kvs = kvs"
  by (auto simp: key_map_def map_of_distinct_rev sorted_sort_id distinct_remdups_id intro!: map_idI)

lemma key_map_map: "key_map (map (\<lambda>(k, v). (k, f v)) kvs) = map (\<lambda>(k, v). (k, f v)) (key_map kvs)"
proof -
  have "map_of (map (\<lambda>(k, v). (k, f v)) xs) k = map_option f (map_of xs k)" for xs k
    by (induction xs) auto
  then have m: "map_of (rev (map (\<lambda>(k, v). (k, f v)) kvs)) k = map_option f (map_of (rev kvs) k)" for k
    by (simp add: rev_map)
  have "the (map_option f (map_of (rev kvs) k)) = f (the (map_of (rev kvs) k))" if "k \<in> fst ` set kvs" for k
    using that by (cases "map_of (rev kvs) k") (auto simp: map_of_eq_None_iff)
  moreover have "map fst (map (\<lambda>(k, v). (k, f v)) kvs) = map fst kvs" by (induction kvs) auto
  ultimately show ?thesis
    unfolding key_map_def m by (simp del: map_map) simp
qed

lemma as_value_idem [simp]: "as_value (as_value v) = as_value v"
proof (induction v rule: as_value.induct)
  case (2 kvs)
  have "map (\<lambda>(k, v). (k, as_value v)) (key_map (map (\<lambda>(k, v). (k, as_value v)) kvs)) =
      key_map (map (\<lambda>(k, v). (k, as_value v)) (map (\<lambda>(k, v). (k, as_value v)) kvs))"
    by (simp only: key_map_map)
  also have "map (\<lambda>(k, v). (k, as_value v)) (map (\<lambda>(k, v). (k, as_value v)) kvs) = map (\<lambda>(k, v). (k, as_value v)) kvs"
    using 2 by (auto simp: comp_def)
  finally have "map (\<lambda>(k, v). (k, as_value v)) (key_map (map (\<lambda>(k, v). (k, as_value v)) kvs)) =
      key_map (map (\<lambda>(k, v). (k, as_value v)) kvs)" .
  then show ?case by (simp add: key_map_id)
qed (auto simp: comp_def)

lemma field_value [simp]:
  "field k dec_value (key_map kvs) = (case map_of (rev kvs) k of None \<Rightarrow> Inl json_error | Some v \<Rightarrow> dec_value v)"
  "field_default k d dec_value (key_map kvs) = (case map_of (rev kvs) k of None \<Rightarrow> Inr d | Some v \<Rightarrow> dec_value v)"
  by (simp_all add: field_def field_default_def split: option.split)

lemma as_value_jnat [simp]: "as_value (jnat n) = jnat n"
  by (simp add: jnat_def)

section \<open>Optional fields of a printed object\<close>

text \<open>\<open>#[serde(default, skip_serializing_if = "String::is_empty")]\<close>\<close>

definition str_unless_empty :: "string \<Rightarrow> string \<Rightarrow> (string \<times> jvalue) list" where
  "str_unless_empty k s = (if s = [] then [] else [(k, JStr s)])"

lemma entries_of_str_unless_empty [simp]:
  "entries_of k (str_unless_empty k' s) = (if k = k' \<and> s \<noteq> [] then [JStr s] else [])"
  by (simp add: str_unless_empty_def)

end
