(* ===== verification/Paths.thy ===== *)
theory Paths
  imports RustText
begin

text \<open>
  File names and relative paths (\<open>protocol.rs\<close>, \<open>hash.rs\<close>): what the receiver accepts as a path
  inside a folder transfer, how it turns an offered file name into a name of its own, and the
  hexadecimal identifiers. The lemmas show that an accepted path cannot leave the directory it
  is joined to and that a sanitised name is always acceptable.
\<close>

definition MAX_CONTROL_FRAME :: nat where "MAX_CONTROL_FRAME = 64 * 1024"
definition MAX_FOLDER_MANIFEST_FRAME :: nat where "MAX_FOLDER_MANIFEST_FRAME = 32 * 1024 * 1024"
definition MAX_FILE_SIZE :: nat where "MAX_FILE_SIZE = 2 ^ 40"
definition MAX_FOLDER_ENTRIES :: nat where "MAX_FOLDER_ENTRIES = 100000"
definition MAX_CAPABILITIES :: nat where "MAX_CAPABILITIES = 64"
definition MAX_IDENTITY_FIELD :: nat where "MAX_IDENTITY_FIELD = 255"
definition MAX_FOLDER_PATH_BYTES :: nat where "MAX_FOLDER_PATH_BYTES = 4096"
definition AUTH_NONCE_BYTES :: nat where "AUTH_NONCE_BYTES = 32"
definition PROBE_NONCE_BYTES :: nat where "PROBE_NONCE_BYTES = 32"

definition QUIC_PROTOCOL_VERSION :: nat where "QUIC_PROTOCOL_VERSION = 2"
definition LAN_DISCOVERY_PROTOCOL_VERSION :: nat where "LAN_DISCOVERY_PROTOCOL_VERSION = 5"

section \<open>Identifiers\<close>

definition valid_hex_nonce :: "string \<Rightarrow> nat \<Rightarrow> bool" where
  "valid_hex_nonce value n \<longleftrightarrow> length value = n * 2 \<and> list_all is_lower_hex value"

definition valid_blake3 :: "string \<Rightarrow> bool" where
  "valid_blake3 value \<longleftrightarrow> length value = 64 \<and> list_all is_lower_hex value"

definition valid_instance_id :: "string \<Rightarrow> bool" where
  "valid_instance_id value \<longleftrightarrow> length value = 32 \<and> list_all is_lower_hex value"

section \<open>Reserved names\<close>

definition strip_prefix :: "string \<Rightarrow> string \<Rightarrow> string option" where
  "strip_prefix p s = (if prefix p s then Some (drop (length p) s) else None)"

definition windows_reserved_name :: "string \<Rightarrow> bool" where
  "windows_reserved_name component =
     (let stem = hd (split_on CHR ''.'' component);
          uppercase = to_ascii_uppercase stem
      in uppercase \<in> set [''CON'', ''PRN'', ''AUX'', ''NUL''] \<or>
         (case (case strip_prefix ''COM'' uppercase of
                  Some sfx \<Rightarrow> Some sfx
                | None \<Rightarrow> strip_prefix ''LPT'' uppercase) of
            None \<Rightarrow> False
          | Some sfx \<Rightarrow>
              sfx \<in> set [''1'', ''2'', ''3'', ''4'', ''5'', ''6'', ''7'', ''8'', ''9'']))"

section \<open>Relative paths of a folder transfer\<close>

text \<open>\<open>character < '\u{20}' || "<>:\"|?*".contains(character)\<close>\<close>

definition forbidden_char :: "char \<Rightarrow> bool" where
  "forbidden_char c \<longleftrightarrow>
     (of_char c :: nat) < 32 \<or>
     c \<in> set [CHR ''<'', CHR ''>'', CHR '':'', CHR 0x22, CHR ''|'', CHR ''?'', CHR ''*'']"

definition bad_component :: "string \<Rightarrow> bool" where
  "bad_component component \<longleftrightarrow>
     component = [] \<or> component = ''.'' \<or> component = ''..'' \<or>
     ends_with_any [CHR ''.'', CHR '' ''] component \<or>
     list_ex forbidden_char component \<or>
     windows_reserved_name component"

definition invalid_folder_entry :: "core_error" where
  "invalid_folder_entry = InvalidTransfer ''invalid folder entry path''"

definition validate_folder_relative_path :: "string \<Rightarrow> unit result" where
  "validate_folder_relative_path path =
     reject_if (path = [] \<or> MAX_FOLDER_PATH_BYTES < length path \<or>
                hd path = CHR ''/'' \<or> last path = CHR ''/'' \<or>
                list_ex (\<lambda>c. c = CHR 0x5C \<or> c = CHR 0x00) path)
       invalid_folder_entry
     (reject_if (list_ex bad_component (split_on CHR ''/'' path))
       invalid_folder_entry
     (Inr ()))"

lemma validate_folder_relative_path_iff:
  "validate_folder_relative_path path = Inr () \<longleftrightarrow>
     path \<noteq> [] \<and> length path \<le> MAX_FOLDER_PATH_BYTES \<and>
     CHR 0x5C \<notin> set path \<and> CHR 0x00 \<notin> set path \<and>
     (\<forall>p \<in> set (split_on CHR ''/'' path). \<not> bad_component p)"
proof -
  have "path \<noteq> [] \<Longrightarrow> hd path = CHR ''/'' \<Longrightarrow> \<exists>p \<in> set (split_on CHR ''/'' path). bad_component p"
    by (cases path) (auto simp: bad_component_def)
  moreover have "path \<noteq> [] \<Longrightarrow> last path = CHR ''/'' \<Longrightarrow>
      \<exists>p \<in> set (split_on CHR ''/'' path). bad_component p"
  proof -
    assume "path \<noteq> []" "last path = CHR ''/''"
    then obtain q where "path = q @ [CHR ''/'']" by (metis append_butlast_last_id)
    moreover have "[] \<in> set (split_on CHR ''/'' (q @ [CHR ''/'']))"
      by (simp add: split_on_snoc)
    ultimately show ?thesis by (auto simp: bad_component_def)
  qed
  ultimately show ?thesis
    by (auto simp: validate_folder_relative_path_def reject_if_def list_ex_iff)
qed

lemma validate_folder_relative_path_cases:
  "validate_folder_relative_path path = Inr () \<or>
   validate_folder_relative_path path = Inl invalid_folder_entry"
  by (simp add: validate_folder_relative_path_def reject_if_def)

section \<open>Joining paths\<close>

text \<open>
  A path is the list of its components below the root. \<open>Path::join\<close> and \<open>PathBuf::push\<close> take text: an absolute
  one starts again at the root, and what the operating system makes of the text is its lexical resolution
  (exact where no directory is a link): it is split at \<open>/\<close>, empty and \<open>.\<close> components are dropped, and \<open>..\<close>
  goes up one level. A path is joined as it is resolved, so a component is never one of these.
\<close>

definition resolve_step :: "path \<Rightarrow> string \<Rightarrow> path" where
  "resolve_step acc c =
     (if c = [] \<or> c = ''.'' then acc else if c = ''..'' then butlast acc else acc @ [c])"

definition path_join :: "path \<Rightarrow> string \<Rightarrow> path" where
  "path_join p s =
     foldl resolve_step (if s \<noteq> [] \<and> hd s = CHR ''/'' then [] else p) (split_on CHR ''/'' s)"

text \<open>A name that is one component.\<close>

definition plain_name :: "string \<Rightarrow> bool" where
  "plain_name s \<longleftrightarrow> CHR ''/'' \<notin> set s \<and> s \<noteq> [] \<and> s \<noteq> ''.'' \<and> s \<noteq> ''..''"

lemma path_join_plain [simp]: "plain_name s \<Longrightarrow> path_join p s = p @ [s]"
  by (cases s) (auto simp: plain_name_def path_join_def split_on_free resolve_step_def)

lemma foldl_path_join: "\<forall>c \<in> set cs. plain_name c \<Longrightarrow> foldl path_join p cs = p @ cs"
  by (induction cs arbitrary: p) auto

text \<open>What a name can do that is not plain.\<close>

lemma path_join_escapes:
  "path_join [''in''] ''/etc'' = [''etc'']" "path_join [''in''] ''../etc'' = [''etc'']" "path_join [''in''] ''.'' = [''in'']"
  by code_simp+

text \<open>The path the receiver joins: \<open>folder_entry_path\<close> of \<open>state.rs\<close>.\<close>

definition folder_entry_path :: "path \<Rightarrow> string \<Rightarrow> path result" where
  "folder_entry_path root relative =
     bind_r (validate_folder_relative_path relative)
       (\<lambda>_. Inr (foldl path_join root (split_on CHR ''/'' relative)))"

lemma valid_components_plain:
  assumes "validate_folder_relative_path relative = Inr u" "c \<in> set (split_on CHR ''/'' relative)"
  shows "plain_name c"
  using assms split_on_parts [OF assms(2)]
  by (auto simp: validate_folder_relative_path_iff bad_component_def plain_name_def)

lemma folder_entry_path_split:
  "folder_entry_path root relative =
     bind_r (validate_folder_relative_path relative) (\<lambda>_. Inr (root @ split_on CHR ''/'' relative))"
  using valid_components_plain [of relative]
  by (cases "validate_folder_relative_path relative") (auto simp: folder_entry_path_def foldl_path_join)

lemma folder_entry_path_resolve:
  assumes "folder_entry_path root relative = Inr p"
  shows "p = root @ split_on CHR ''/'' relative"
  using assms by (auto simp: folder_entry_path_split result_simps)

section \<open>Sanitised file names\<close>

definition basename :: "string \<Rightarrow> string" where
  "basename raw = rev (takeWhile (\<lambda>c. c \<noteq> CHR ''/'' \<and> c \<noteq> CHR 0x5C) (rev raw))"

definition safe_char :: "char \<Rightarrow> char" where
  "safe_char c = (if forbidden_char c then CHR ''_'' else c)"

definition safe_filename :: "string \<Rightarrow> string" where
  "safe_filename raw =
     (let safe = map safe_char (basename raw);
          trimmed = trim_end_chars [CHR ''.'', CHR '' ''] safe
      in if trimmed = [] \<or> trimmed = ''.'' \<or> trimmed = ''..'' then ''unknown''
         else if windows_reserved_name trimmed then CHR ''_'' # trimmed
         else trimmed)"

text \<open>What a sanitised name is: one acceptable component, with no separator.\<close>

definition safe_name :: "string \<Rightarrow> bool" where
  "safe_name s \<longleftrightarrow> CHR ''/'' \<notin> set s \<and> CHR 0x5C \<notin> set s \<and> \<not> bad_component s"

lemma safe_name_plain [simp]: "safe_name s \<Longrightarrow> plain_name s"
  by (auto simp: safe_name_def plain_name_def bad_component_def)

lemma hd_split_on: "hd (split_on c s) = takeWhile (\<lambda>x. x \<noteq> c) s"
  by (induction s) (auto split: list.splits simp: split_on_Cons_cases)

lemma windows_reserved_first_char:
  assumes "windows_reserved_name s"
  shows "s \<noteq> [] \<and> ascii_upper_char (hd s) \<in> {CHR ''C'', CHR ''P'', CHR ''A'', CHR ''N'', CHR ''L''}"
proof -
  let ?u = "to_ascii_uppercase (takeWhile (\<lambda>x. x \<noteq> CHR ''.'') s)"
  have "?u \<noteq> [] \<and> hd ?u \<in> {CHR ''C'', CHR ''P'', CHR ''A'', CHR ''N'', CHR ''L''}"
    using assms
    by (auto simp: windows_reserved_name_def Let_def hd_split_on strip_prefix_def prefix_def
        split: if_splits)
  then show ?thesis
    by (cases s) (auto simp: to_ascii_uppercase_def split: if_splits)
qed

lemma not_reserved_underscore [simp]: "\<not> windows_reserved_name (CHR ''_'' # s)"
  using windows_reserved_first_char [of "CHR ''_'' # s"] by (auto simp: ascii_upper_char_def)

lemma safe_name_unknown: "safe_name ''unknown''"
  by (simp add: safe_name_def bad_component_def ends_with_any_def forbidden_char_def
      windows_reserved_name_def to_ascii_uppercase_def ascii_upper_char_def strip_prefix_def Let_def)

lemma forbidden_underscore [simp]: "\<not> forbidden_char (CHR ''_'')"
  by (simp add: forbidden_char_def)

lemma not_forbidden_safe_char [simp]: "\<not> forbidden_char (safe_char c)"
  by (simp add: safe_char_def)

lemma safe_name_safe_filename: "safe_name (safe_filename raw)"
proof -
  let ?t = "trim_end_chars [CHR ''.'', CHR '' ''] (map safe_char (basename raw))"
  have sub: "set ?t \<subseteq> safe_char ` set (basename raw)"
    using trim_end_chars_set [of _ "map safe_char (basename raw)"] by simp
  have base: "CHR ''/'' \<notin> set (basename raw)" "CHR 0x5C \<notin> set (basename raw)"
    by (auto simp: basename_def dest: set_takeWhileD)
  then have sep: "CHR ''/'' \<notin> set ?t" "CHR 0x5C \<notin> set ?t"
    using sub by (auto simp: safe_char_def split: if_splits)
  have forb: "\<not> list_ex forbidden_char ?t"
    using sub by (auto simp: list_ex_iff)
  have ends: "\<not> ends_with_any [CHR ''.'', CHR '' ''] ?t"
    by (rule trim_end_chars_not_ends)
  have us: "safe_name (CHR ''_'' # ?t)" if "?t \<noteq> []"
    using that sep forb ends by (auto simp: safe_name_def bad_component_def ends_with_any_def)
  show ?thesis
    using safe_name_unknown us sep forb ends
    by (auto simp: safe_filename_def Let_def safe_name_def bad_component_def)
qed

lemma safe_filename_id:
  assumes "safe_name s"
  shows "safe_filename s = s"
proof -
  have "takeWhile (\<lambda>c. c \<noteq> CHR ''/'' \<and> c \<noteq> CHR 0x5C) (rev s) = rev s"
    using assms by (intro takeWhile_eq_all_conv [THEN iffD2]) (auto simp: safe_name_def)
  then have "basename s = s" unfolding basename_def by (simp only: rev_rev_ident)
  moreover have "map safe_char s = s"
    using assms by (intro map_idI) (auto simp: safe_name_def bad_component_def list_ex_iff safe_char_def)
  moreover have "trim_end_chars [CHR ''.'', CHR '' ''] s = s"
    using assms by (intro trim_end_chars_id) (auto simp: safe_name_def bad_component_def)
  ultimately show ?thesis
    using assms by (auto simp: safe_filename_def safe_name_def bad_component_def Let_def)
qed

lemma safe_filename_idem: "safe_filename (safe_filename raw) = safe_filename raw"
  by (rule safe_filename_id [OF safe_name_safe_filename])

lemma safe_filename_eq_iff: "safe_filename s = s \<longleftrightarrow> safe_name s"
  using safe_filename_id safe_name_safe_filename [of s] by auto

lemma safe_name_valid_path:
  assumes "safe_name s" "length s \<le> MAX_FOLDER_PATH_BYTES"
  shows "validate_folder_relative_path s = Inr ()"
proof -
  have "\<not> bad_component s" and "CHR ''/'' \<notin> set s" and "CHR 0x5C \<notin> set s"
    using assms by (simp_all add: safe_name_def)
  moreover have "CHR 0x00 \<notin> set s"
  proof
    assume "CHR 0x00 \<in> set s"
    moreover have "forbidden_char CHR 0x00" by (simp add: forbidden_char_def)
    ultimately have "bad_component s" by (auto simp: bad_component_def list_ex_iff)
    with \<open>\<not> bad_component s\<close> show False by blast
  qed
  moreover have "s \<noteq> []" using \<open>\<not> bad_component s\<close> by (auto simp: bad_component_def)
  ultimately show ?thesis
    using assms(2) by (simp add: validate_folder_relative_path_iff split_on_free)
qed

lemma length_safe_filename: "length (safe_filename raw) \<le> length raw + 7"
proof -
  let ?t = "trim_end_chars [CHR ''.'', CHR '' ''] (map safe_char (basename raw))"
  have "length ?t \<le> length (basename raw)"
    unfolding trim_end_chars_def using length_dropWhile_le [of _ "rev (map safe_char (basename raw))"]
    by simp
  also have "\<dots> \<le> length raw"
    unfolding basename_def using length_takeWhile_le [of _ "rev raw"] by simp
  finally show ?thesis by (simp add: safe_filename_def Let_def)
qed

text \<open>\<open>Path::file_name\<close> and \<open>Path::extension\<close> (Unix) as a function of the path's text.\<close>

definition path_file_name :: "string \<Rightarrow> string option" where
  "path_file_name s =
     (let cs = filter (\<lambda>c. c \<noteq> [] \<and> c \<noteq> ''.'') (split_on CHR ''/'' s)
      in if cs = [] \<or> last cs = ''..'' then None else Some (last cs))"

definition path_extension :: "string \<Rightarrow> string option" where
  "path_extension s =
     (case path_file_name s of
        None \<Rightarrow> None
      | Some f \<Rightarrow>
          (case rsplit_once CHR ''.'' f of
             None \<Rightarrow> None
           | Some (before, after) \<Rightarrow> if before = [] then None else Some after))"

lemma path_file_name_safe: "safe_name s \<Longrightarrow> path_file_name s = Some s"
  by (auto simp: path_file_name_def safe_name_def bad_component_def split_on_free Let_def)

text \<open>\<open>Path::file_stem\<close> and \<open>Path::with_extension\<close> on the last component of a path.\<close>

definition name_stem :: "string \<Rightarrow> string" where
  "name_stem f =
     (case rsplit_once CHR ''.'' f of
        None \<Rightarrow> f
      | Some (before, _) \<Rightarrow> if before = [] then f else before)"

definition with_extension :: "path \<Rightarrow> string \<Rightarrow> path" where
  "with_extension p ext = (if p = [] then [] else butlast p @ [name_stem (last p) @ ''.'' @ ext])"

lemma with_extension_snoc [simp]: "with_extension (d @ [f]) ext = d @ [name_stem f @ ''.'' @ ext]"
  by (simp add: with_extension_def)

lemma name_stem_plain: "CHR ''.'' \<notin> set f \<Longrightarrow> name_stem f = f"
  by (simp add: name_stem_def rsplit_once_None [THEN iffD2])

lemma name_stem_append: "CHR ''.'' \<notin> set b \<Longrightarrow> a \<noteq> [] \<Longrightarrow> name_stem (a @ CHR ''.'' # b) = a"
  by (simp add: name_stem_def rsplit_once_append)

end
