(* ===== verification/Samples.thy ===== *)
theory Samples
  imports Json
begin

text \<open>
  One concrete instance of the third-party functions, on which the hypotheses about their
  documented behaviour hold together: a printer that numbers the JSON values, hexadecimal
  text for both text codecs, and a digest and signature scheme with the sizes of
  the real ones. It only serves to show that theorems with such hypotheses apply.
\<close>

definition hex_digit :: "nat \<Rightarrow> char" where
  "hex_digit d = (if d < 10 then char_of (48 + d) else char_of (87 + d))"

definition hex_digit_value :: "char \<Rightarrow> nat option" where
  "hex_digit_value c =
     (let n = (of_char c :: nat) in
      if 48 \<le> n \<and> n \<le> 57 then Some (n - 48)
      else if 97 \<le> n \<and> n \<le> 102 then Some (n - 87) else None)"

fun hex_text :: "bytes \<Rightarrow> string" where
  "hex_text [] = []"
| "hex_text (b # bs) = hex_digit (unat b div 16) # hex_digit (unat b mod 16) # hex_text bs"

fun hex_bytes :: "string \<Rightarrow> bytes option" where
  "hex_bytes [] = Some []"
| "hex_bytes [c] = None"
| "hex_bytes (c # d # s) =
     (case (hex_digit_value c, hex_digit_value d, hex_bytes s) of
        (Some h, Some l, Some bs) \<Rightarrow> Some (of_nat (h * 16 + l) # bs) | _ \<Rightarrow> None)"

lemma hex_digit_value_digit [simp]: "d < 16 \<Longrightarrow> hex_digit_value (hex_digit d) = Some d"
  by (auto simp: hex_digit_def hex_digit_value_def)

lemma hex_bytes_text [simp]: "hex_bytes (hex_text bs) = Some bs"
proof (induction bs)
  case Nil
  then show ?case by simp
next
  case (Cons b bs)
  have "unat b < 256" by (rule unat_byte_less)
  then have "unat b div 16 < 16" "unat b mod 16 < 16" by auto
  then show ?case using Cons by simp
qed

lemma length_hex_text [simp]: "length (hex_text bs) = 2 * length bs"
  by (induction bs) auto

lemma is_lower_hex_digit: "d < 16 \<Longrightarrow> is_lower_hex (hex_digit d)"
  by (auto simp: is_lower_hex_def hex_digit_def is_digit_def)

lemma lower_hex_text: "list_all is_lower_hex (hex_text bs)"
proof (induction bs)
  case Nil
  then show ?case by simp
next
  case (Cons b bs)
  have "unat b < 256" by (rule unat_byte_less)
  then have "unat b div 16 < 16" "unat b mod 16 < 16" by auto
  then show ?case using Cons by (simp add: is_lower_hex_digit)
qed

lemma str_bytes_bytes_str [simp]: "str_bytes (bytes_str bs) = bs"
proof (induction bs)
  case Nil
  then show ?case by (simp add: str_bytes_def bytes_str_def)
next
  case (Cons b bs)
  have "(of_char (char_of (unat b)) :: nat) = unat b"
    using unat_byte_less [of b] by simp
  with Cons show ?case by (simp add: str_bytes_def bytes_str_def)
qed

definition sample_crates :: crates where
  "sample_crates =
     \<lparr>json_print = (\<lambda>v. replicate (Suc (to_nat v)) 0),
      json_parse = (\<lambda>bs. Some (from_nat (length bs - 1))),
      base64_encode = hex_text,
      base64_decode = hex_bytes,
      hex_encode = hex_text,
      hex_decode = hex_bytes,
      uuid_parses = (\<lambda>s. length s = 36 \<and> list_all (\<lambda>c. is_lower_hex c \<or> c = CHR ''-'') s),
      blake3_hash = (\<lambda>bs. replicate 31 0 @ [foldl (+) 0 bs]),
      blake3_derive_key = (\<lambda>ctx bs. replicate 31 0 @ [foldl (+) 0 bs]),
      blake3_keyed_hash = (\<lambda>k bs. replicate 30 0 @ [foldl (+) 0 k, foldl (+) 0 bs]),
      ed25519_point_ok = (\<lambda>k. length k = 32),
      ed25519_verify = (\<lambda>k m s. s = replicate 64 1),
      ed25519_sign = (\<lambda>k m. replicate 64 1),
      ed25519_public = (\<lambda>k. k),
      unicode_nfc = (\<lambda>s. s),
      unicode_lowercase = to_ascii_lowercase,
      hkdf_sha256 = (\<lambda>k i. replicate 32 0),
      secretbox_encrypt = (\<lambda>k n m. replicate 16 0 @ m),
      secretbox_decrypt = (\<lambda>k n c. if length c < 16 then None else Some (drop 16 c)),
      sha256 = (\<lambda>bs. replicate 31 0 @ [foldl (+) 0 bs])\<rparr>"

lemma sample_json_roundtrip [simp]: "json_roundtrip sample_crates"
  by (simp add: json_roundtrip_def sample_crates_def)

lemma sample_json_nonempty [simp]: "json_nonempty sample_crates"
  by (simp add: json_nonempty_def sample_crates_def)

lemma sample_base64_roundtrip [simp]: "base64_roundtrip sample_crates"
  by (simp add: base64_roundtrip_def sample_crates_def)

lemma sample_base64_plain [simp]: "base64_plain sample_crates"
  by (simp add: base64_plain_def sample_crates_def trim_lower_hex lower_hex_text)

lemma sample_hex_roundtrip [simp]: "hex_roundtrip sample_crates"
  by (simp add: hex_roundtrip_def sample_crates_def)

lemma sample_ed25519 [simp]: "ed25519_correct sample_crates"
  by (simp add: ed25519_correct_def sample_crates_def)

lemma sample_blake3_sizes [simp]: "blake3_sizes sample_crates"
  by (simp add: blake3_sizes_def sample_crates_def)

lemma sample_hex_lower [simp]: "hex_lower sample_crates"
  by (simp add: hex_lower_def sample_crates_def lower_hex_text)

lemma sample_secretbox [simp]: "secretbox_correct sample_crates" "hkdf_sizes sample_crates"
  by (simp_all add: secretbox_correct_def hkdf_sizes_def sample_crates_def)

lemma sample_uuid_plain [simp]: "uuid_plain sample_crates"
proof -
  have "\<not> is_lower_hex (CHR ''/'')" "\<not> is_lower_hex (CHR 0x5C)" "\<not> is_lower_hex (CHR ''.'')"
    by (simp_all add: is_lower_hex_def is_digit_def)
  then show ?thesis
    by (auto simp: uuid_plain_def sample_crates_def list_all_iff)
qed

text \<open>The same instance, with a printer that is short on one value.\<close>

definition short_crates :: "jvalue \<Rightarrow> crates" where
  "short_crates short =
     sample_crates
       \<lparr>json_print := (\<lambda>v. if v = short then [1] else json_print sample_crates v),
        json_parse := (\<lambda>bs. if bs = [1] then Some short else json_parse sample_crates bs)\<rparr>"

lemma short_crates_json [simp]:
  "json_roundtrip (short_crates v)" "json_nonempty (short_crates v)"
  "json_print (short_crates v) v = [1]"
  by (auto simp: short_crates_def json_roundtrip_def json_nonempty_def sample_crates_def)

text \<open>The same instance, with a printer that is short on the values of a list.\<close>

definition table_print :: "jvalue list \<Rightarrow> jvalue \<Rightarrow> bytes" where
  "table_print vs v =
     (if v \<in> set vs then [of_nat (length (takeWhile (\<lambda>x. x \<noteq> v) vs))] else 255 # replicate (to_nat v) 0)"

definition table_parse :: "jvalue list \<Rightarrow> bytes \<Rightarrow> jvalue option" where
  "table_parse vs bs =
     (case bs of [] \<Rightarrow> None
      | b # rest \<Rightarrow> Some (if unat b < length vs then vs ! unat b else from_nat (length rest)))"

definition table_crates :: "jvalue list \<Rightarrow> crates" where
  "table_crates vs = sample_crates\<lparr>json_print := table_print vs, json_parse := table_parse vs\<rparr>"

lemma table_parse_print:
  assumes "length vs < 255"
  shows "table_parse vs (table_print vs v) = Some v"
proof (cases "v \<in> set vs")
  case True
  let ?i = "length (takeWhile (\<lambda>x. x \<noteq> v) vs)"
  have i: "?i < length vs" 
    using True by (metis (mono_tags, lifting) length_takeWhile_le le_neq_implies_less takeWhile_eq_all_conv
        takeWhile_eq_take take_all_iff)
  then have "vs ! ?i = v" by (metis (mono_tags, lifting) nth_length_takeWhile)
  moreover have "unat (of_nat ?i :: 8 word) = ?i"
    using i assms by (simp add: unat_of_nat take_bit_nat_eq_self)
  ultimately show ?thesis using True i by (simp add: table_parse_def table_print_def)
next
  case False
  then show ?thesis using assms by (simp add: table_parse_def table_print_def)
qed

lemma table_crates_simps [simp]:
  "json_print (table_crates vs) = table_print vs"
  "json_parse (table_crates vs) = table_parse vs"
  "base64_encode (table_crates vs) = base64_encode sample_crates"
  "base64_decode (table_crates vs) = base64_decode sample_crates"
  "hex_encode (table_crates vs) = hex_encode sample_crates"
  "hex_decode (table_crates vs) = hex_decode sample_crates"
  "uuid_parses (table_crates vs) = uuid_parses sample_crates"
  "blake3_hash (table_crates vs) = blake3_hash sample_crates"
  "blake3_derive_key (table_crates vs) = blake3_derive_key sample_crates"
  "blake3_keyed_hash (table_crates vs) = blake3_keyed_hash sample_crates"
  "ed25519_point_ok (table_crates vs) = ed25519_point_ok sample_crates"
  "ed25519_verify (table_crates vs) = ed25519_verify sample_crates"
  "ed25519_sign (table_crates vs) = ed25519_sign sample_crates"
  "ed25519_public (table_crates vs) = ed25519_public sample_crates"
  "unicode_nfc (table_crates vs) = unicode_nfc sample_crates"
  "unicode_lowercase (table_crates vs) = unicode_lowercase sample_crates"
  by (simp_all add: table_crates_def)

lemma table_crates_json [simp]:
  "length vs < 255 \<Longrightarrow> json_roundtrip (table_crates vs)" "json_nonempty (table_crates vs)"
  by (simp_all add: json_roundtrip_def table_parse_print, simp add: json_nonempty_def table_print_def)

lemma table_crates_short: "v \<in> set vs \<Longrightarrow> length (to_vec (table_crates vs) v) = 1"
  by (simp add: to_vec_def table_print_def)

lemma table_crates_plain [simp]:
  "uuid_plain (table_crates vs)" "base64_roundtrip (table_crates vs)" "base64_plain (table_crates vs)"
  "hex_roundtrip (table_crates vs)" "ed25519_correct (table_crates vs)" "blake3_sizes (table_crates vs)"
  "hex_lower (table_crates vs)"
  using sample_uuid_plain sample_base64_roundtrip sample_base64_plain sample_hex_roundtrip sample_ed25519
    sample_blake3_sizes sample_hex_lower
  by (simp_all add: uuid_plain_def base64_roundtrip_def base64_plain_def hex_roundtrip_def ed25519_correct_def
      blake3_sizes_def hex_lower_def)

end
