(* ===== verification/Frames.thy ===== *)
theory Frames
  imports Json Paths Samples
begin

text \<open>
  Length-prefixed frames on a byte stream: \<open>write_frame\<close>/\<open>read_frame\<close> of \<open>protocol.rs\<close> and of
  \<open>ssh/protocol.rs\<close> share one layout, a 32-bit big-endian length and that many bytes. The
  interface \<open>prefix_codec\<close> states what a client of a wire format relies on, that a written item
  is read back whatever follows it; \<open>exact_codec\<close> adds that nothing else is accepted. The
  client lemmas (items cannot be confused, sequences read back) are proved once inside the
  locales and used through the interpretations on the formats of the program.
\<close>

section \<open>The interface of a wire format\<close>

fun get_many :: "(bytes \<Rightarrow> ('a \<times> bytes) result) \<Rightarrow> nat \<Rightarrow> bytes \<Rightarrow> ('a list \<times> bytes) result" where
  "get_many get 0 bs = Inr ([], bs)"
| "get_many get (Suc n) bs =
     bind_r (get bs) (\<lambda>(x, r). bind_r (get_many get n r) (\<lambda>(xs, r'). Inr (x # xs, r')))"

locale prefix_codec =
  fixes put :: "'a \<Rightarrow> bytes"
    and get :: "bytes \<Rightarrow> ('a \<times> bytes) result"
    and ok :: "'a \<Rightarrow> bool"
  assumes get_put: "ok x \<Longrightarrow> get (put x @ rest) = Inr (x, rest)"
begin

lemma put_inj:
  assumes "ok x" "ok y" "put x @ r = put y @ s"
  shows "x = y \<and> r = s"
proof -
  from assms have "Inr (x, r) = (Inr (y, s) :: ('a \<times> bytes) result)"
    by (metis get_put)
  then show ?thesis by simp
qed

lemma get_many_put:
  "\<forall>x \<in> set xs. ok x \<Longrightarrow>
     get_many get (length xs) (concat (map put xs) @ rest) = Inr (xs, rest)"
  by (induction xs) (simp_all add: get_put)

lemma put_many_inj:
  assumes "\<forall>x \<in> set xs. ok x" "\<forall>y \<in> set ys. ok y" "length xs = length ys"
    and "concat (map put xs) @ r = concat (map put ys) @ s"
  shows "xs = ys \<and> r = s"
proof -
  have "Inr (xs, r) = (Inr (ys, s) :: ('a list \<times> bytes) result)"
    by (metis assms get_many_put)
  then show ?thesis by simp
qed

end

locale exact_codec = prefix_codec +
  assumes put_get: "get bs = Inr (x, rest) \<Longrightarrow> ok x \<and> bs = put x @ rest"
begin

lemma get_iff: "get bs = Inr (x, rest) \<longleftrightarrow> ok x \<and> bs = put x @ rest"
  using get_put put_get by blast

lemma get_many_exact:
  "get_many get n bs = Inr (xs, rest) \<Longrightarrow>
     length xs = n \<and> (\<forall>x \<in> set xs. ok x) \<and> bs = concat (map put xs) @ rest"
proof (induction n arbitrary: bs xs)
  case 0
  then show ?case by simp
next
  case (Suc n)
  from Suc.prems obtain x r ys where
    g: "get bs = Inr (x, r)" and m: "get_many get n r = Inr (ys, rest)" and xs: "xs = x # ys"
    by (auto simp: result_simps)
  from put_get [OF g] Suc.IH [OF m] xs show ?case by simp
qed

end

section \<open>Reading from a stream\<close>

text \<open>\<open>read_exact\<close> and \<open>read_u32\<close> on what is left of the stream: a stream that ends early is an
  I/O error of kind \<open>UnexpectedEof\<close>.\<close>

definition read_exact :: "nat \<Rightarrow> bytes \<Rightarrow> (bytes \<times> bytes) result" where
  "read_exact n bs =
     (if length bs < n then Inl (Io UnexpectedEof) else Inr (take n bs, drop n bs))"

definition read_u32 :: "bytes \<Rightarrow> (nat \<times> bytes) result" where
  "read_u32 bs = bind_r (read_exact 4 bs) (\<lambda>(b, r). Inr (be_value b, r))"

lemma read_exact_append [simp]: "length b = n \<Longrightarrow> read_exact n (b @ r) = Inr (b, r)"
  by (simp add: read_exact_def)

lemma read_exact_Inr:
  "read_exact n bs = Inr (b, r) \<longleftrightarrow> length b = n \<and> bs = b @ r"
  by (auto simp: read_exact_def)

lemma read_u32_append [simp]: "n < 2 ^ 32 \<Longrightarrow> read_u32 (be_bytes 4 n @ r) = Inr (n, r)"
  using be_value_be_bytes [of n 4] by (simp add: read_u32_def)

lemma read_u32_Inr: "read_u32 bs = Inr (n, r) \<Longrightarrow> bs = be_bytes 4 n @ r \<and> n < 2 ^ 32"
proof -
  assume "read_u32 bs = Inr (n, r)"
  then obtain b where "length b = 4" "bs = b @ r" "n = be_value b"
    by (auto simp: read_u32_def result_simps read_exact_Inr)
  then show ?thesis using be_bytes_be_value [of b] be_value_bound [of b] by simp
qed

section \<open>Frames\<close>

text \<open>A length and a payload; \<open>hi\<close> is the limit the reader enforces.\<close>

definition put_frame :: "bytes \<Rightarrow> bytes" where
  "put_frame payload = be_bytes 4 (length payload) @ payload"

definition get_frame :: "nat \<Rightarrow> core_error \<Rightarrow> bytes \<Rightarrow> (bytes \<times> bytes) result" where
  "get_frame hi err bs =
     bind_r (read_u32 bs) (\<lambda>(len, r).
       reject_if (len = 0 \<or> hi < len) err (read_exact len r))"

definition frame_ok :: "nat \<Rightarrow> bytes \<Rightarrow> bool" where
  "frame_ok hi payload \<longleftrightarrow> payload \<noteq> [] \<and> length payload \<le> hi"

lemma exact_codec_frame:
  assumes "hi < 2 ^ 32"
  shows "exact_codec put_frame (get_frame hi err) (frame_ok hi)"
proof
  fix x rest
  assume "frame_ok hi x"
  with assms show "get_frame hi err (put_frame x @ rest) = Inr (x, rest)"
    by (simp add: frame_ok_def get_frame_def put_frame_def)
next
  fix bs x rest
  assume "get_frame hi err bs = Inr (x, rest)"
  then obtain len r where u: "read_u32 bs = Inr (len, r)" and l: "\<not> (len = 0 \<or> hi < len)"
    and e: "read_exact len r = Inr (x, rest)"
    by (auto simp: get_frame_def result_simps)
  from read_u32_Inr [OF u] e l show "frame_ok hi x \<and> bs = put_frame x @ rest"
    by (auto simp: frame_ok_def put_frame_def read_exact_Inr)
qed

text \<open>The control frames of the QUIC protocol (\<open>protocol.rs\<close>).\<close>

definition write_frame :: "crates \<Rightarrow> jvalue \<Rightarrow> bytes result" where
  "write_frame E v =
     (let payload = to_vec E v
      in reject_if (MAX_CONTROL_FRAME < length payload) (Protocol ''control frame is too large'')
           (Inr (put_frame payload)))"

definition read_frame :: "crates \<Rightarrow> (jvalue \<Rightarrow> 'a result) \<Rightarrow> bytes \<Rightarrow> ('a \<times> bytes) result" where
  "read_frame E decode bs =
     bind_r (get_frame MAX_CONTROL_FRAME (Protocol ''invalid control frame length'') bs)
       (\<lambda>(payload, rest). bind_r (from_slice E payload) (\<lambda>v. bind_r (decode v) (\<lambda>x. Inr (x, rest))))"

text \<open>The control frames of the SSH relay (\<open>ssh/protocol.rs\<close>).\<close>

definition MAX_RELAY_FRAME :: nat where "MAX_RELAY_FRAME = 64 * 1024"

definition ssh_write_frame :: "crates \<Rightarrow> jvalue \<Rightarrow> bytes result" where
  "ssh_write_frame E v =
     (let payload = to_vec E v
      in reject_if (payload = [] \<or> MAX_RELAY_FRAME < length payload)
           (InvalidRequest ''SSH relay control frame is invalid'')
           (Inr (put_frame payload)))"

definition ssh_read_frame :: "crates \<Rightarrow> (jvalue \<Rightarrow> 'a result) \<Rightarrow> bytes \<Rightarrow> ('a \<times> bytes) result" where
  "ssh_read_frame E decode bs =
     bind_r (get_frame MAX_RELAY_FRAME (Protocol ''SSH relay control frame is invalid'') bs)
       (\<lambda>(payload, rest). bind_r (from_slice E payload) (\<lambda>v. bind_r (decode v) (\<lambda>x. Inr (x, rest))))"

interpretation control: exact_codec put_frame
  "get_frame MAX_CONTROL_FRAME (Protocol ''invalid control frame length'')"
  "frame_ok MAX_CONTROL_FRAME"
  by (rule exact_codec_frame) (simp add: MAX_CONTROL_FRAME_def)

interpretation relay: exact_codec put_frame
  "get_frame MAX_RELAY_FRAME (Protocol ''SSH relay control frame is invalid'')"
  "frame_ok MAX_RELAY_FRAME"
  by (rule exact_codec_frame) (simp add: MAX_RELAY_FRAME_def)

interpretation manifest_frame: exact_codec put_frame
  "get_frame MAX_FOLDER_MANIFEST_FRAME (InvalidTransfer ''invalid folder manifest length'')"
  "frame_ok MAX_FOLDER_MANIFEST_FRAME"
  by (rule exact_codec_frame) (simp add: MAX_FOLDER_MANIFEST_FRAME_def)

text \<open>
  What a reader gets back from a frame that was written: with the documented behaviour of the
  JSON crate, the value itself, and the bytes after the frame untouched. JSON text is never
  empty (\<open>json_nonempty\<close>), which the reader's lower limit relies on.
\<close>

lemma write_frame_Inr:
  assumes "json_nonempty E" "write_frame E v = Inr w"
  shows "w = put_frame (json_print E v) \<and> frame_ok MAX_CONTROL_FRAME (json_print E v)"
  using assms
  by (auto simp: write_frame_def to_vec_def Let_def result_simps frame_ok_def json_nonempty_def)

lemma read_frame_put:
  assumes "json_parse E p = Some v" "frame_ok MAX_CONTROL_FRAME p" "decode v = Inr x"
  shows "read_frame E decode (put_frame p @ rest) = Inr (x, rest)"
  using assms by (simp add: read_frame_def control.get_put from_slice_def)

lemma read_write_frame:
  assumes "json_roundtrip E" "json_nonempty E" "write_frame E v = Inr w" "decode v = Inr x"
  shows "read_frame E decode (w @ rest) = Inr (x, rest)"
proof -
  from write_frame_Inr [OF assms(2,3)]
  have w: "w = put_frame (json_print E v)" and ok: "frame_ok MAX_CONTROL_FRAME (json_print E v)"
    by auto
  from assms(1) have "json_parse E (json_print E v) = Some v" by (simp add: json_roundtrip_def)
  then show ?thesis unfolding w by (rule read_frame_put) (rule ok, rule assms(4))
qed

lemma read_frame_bound:
  assumes "read_frame E decode bs = Inr (x, rest)"
  shows "\<exists>p. bs = put_frame p @ rest \<and> p \<noteq> [] \<and> length p \<le> MAX_CONTROL_FRAME"
proof -
  from assms obtain p where
    "get_frame MAX_CONTROL_FRAME (Protocol ''invalid control frame length'') bs = Inr (p, rest)"
    by (auto simp: read_frame_def result_simps)
  from control.put_get [OF this] show ?thesis by (auto simp: frame_ok_def)
qed

end
