(* ===== verification/Wire.thy ===== *)
theory Wire
  imports Frames
begin

text \<open>
  The messages of the QUIC transfer protocol (\<open>protocol.rs\<close>) as records and datatypes with the
  source's fields, and their serde images: the object each is printed as, with the field order,
  renames and omitted fields of the derive attributes, and how it is read back. Round-trip
  lemmas for every message, for values in the range of their Rust types.
\<close>

section \<open>Structures\<close>

record device_summary =
  ds_instance_id :: string
  ds_name :: string
  ds_public_key :: string

datatype transfer_kind = FileTransfer | FolderV1

datatype folder_entry_kind = FileEntry | DirectoryEntry

record folder_entry =
  fe_path :: string
  fe_kind :: folder_entry_kind
  fe_size :: nat
  fe_modified_ms :: int
  fe_blake3 :: string

record folder_manifest =
  fm_version :: nat
  fm_entries :: "folder_entry list"

record transfer_offer =
  to_protocol :: nat
  to_transfer_id :: string
  to_filename :: string
  to_kind :: transfer_kind
  to_size :: nat
  to_modified_ms :: int
  to_blake3 :: string
  to_sender :: device_summary
  to_signature :: string

record transfer_receipt =
  tr_transfer_id :: string
  tr_size :: nat
  tr_blake3 :: string

datatype transfer_response =
    Resume nat
  | FolderResume nat nat nat
  | Complete transfer_receipt
  | Rejected string

section \<open>Printing\<close>

definition device_summary_json :: "device_summary \<Rightarrow> jvalue" where
  "device_summary_json d =
     JObj [(''instance_id'', JStr (ds_instance_id d)), (''name'', JStr (ds_name d)),
           (''public_key'', JStr (ds_public_key d))]"

fun transfer_kind_json :: "transfer_kind \<Rightarrow> jvalue" where
  "transfer_kind_json FileTransfer = JStr ''file''"
| "transfer_kind_json FolderV1 = JStr ''folder-v1''"

fun folder_entry_kind_json :: "folder_entry_kind \<Rightarrow> jvalue" where
  "folder_entry_kind_json FileEntry = JStr ''file''"
| "folder_entry_kind_json DirectoryEntry = JStr ''directory''"

definition folder_entry_json :: "folder_entry \<Rightarrow> jvalue" where
  "folder_entry_json e =
     JObj ([(''path'', JStr (fe_path e)), (''kind'', folder_entry_kind_json (fe_kind e)),
            (''size'', jnat (fe_size e)), (''modified_ms'', JNum (fe_modified_ms e))]
           @ str_unless_empty ''blake3'' (fe_blake3 e))"

definition folder_manifest_json :: "folder_manifest \<Rightarrow> jvalue" where
  "folder_manifest_json m =
     JObj [(''version'', jnat (fm_version m)),
           (''entries'', JArr (map folder_entry_json (fm_entries m)))]"

text \<open>\<open>SignableOffer\<close>: the offer without its signature.\<close>

definition signable_offer_fields :: "transfer_offer \<Rightarrow> (string \<times> jvalue) list" where
  "signable_offer_fields t =
     [(''protocol'', jnat (to_protocol t)), (''transfer_id'', JStr (to_transfer_id t)),
      (''filename'', JStr (to_filename t)), (''kind'', transfer_kind_json (to_kind t)),
      (''size'', jnat (to_size t)), (''modified_ms'', JNum (to_modified_ms t)),
      (''blake3'', JStr (to_blake3 t)), (''sender'', device_summary_json (to_sender t))]"

definition transfer_offer_json :: "transfer_offer \<Rightarrow> jvalue" where
  "transfer_offer_json t =
     JObj (signable_offer_fields t @ str_unless_empty ''signature'' (to_signature t))"

definition transfer_receipt_json :: "transfer_receipt \<Rightarrow> jvalue" where
  "transfer_receipt_json r =
     JObj [(''transfer_id'', JStr (tr_transfer_id r)), (''size'', jnat (tr_size r)),
           (''blake3'', JStr (tr_blake3 r))]"

text \<open>\<open>#[serde(tag = "status", rename_all = "snake_case")]\<close>\<close>

fun transfer_response_json :: "transfer_response \<Rightarrow> jvalue" where
  "transfer_response_json (Resume offset) =
     JObj [(''status'', JStr ''resume''), (''offset'', jnat offset)]"
| "transfer_response_json (FolderResume file_index offset completed) =
     JObj [(''status'', JStr ''folder_resume''), (''file_index'', jnat file_index),
           (''offset'', jnat offset), (''completed'', jnat completed)]"
| "transfer_response_json (Complete receipt) =
     JObj [(''status'', JStr ''complete''), (''receipt'', transfer_receipt_json receipt)]"
| "transfer_response_json (Rejected reason) =
     JObj [(''status'', JStr ''rejected''), (''reason'', JStr reason)]"

section \<open>Reading\<close>

definition as_device_summary :: "jvalue \<Rightarrow> device_summary result" where
  "as_device_summary v =
     bind_r (as_struct [''instance_id'', ''name'', ''public_key''] [] v) (\<lambda>kvs.
     bind_r (field ''instance_id'' as_str kvs) (\<lambda>i.
     bind_r (field ''name'' as_str kvs) (\<lambda>n.
     bind_r (field ''public_key'' as_str kvs) (\<lambda>k.
     Inr \<lparr>ds_instance_id = i, ds_name = n, ds_public_key = k\<rparr>))))"

definition as_transfer_kind :: "jvalue \<Rightarrow> transfer_kind result" where
  "as_transfer_kind v =
     bind_r (as_variant v) (\<lambda>s.
     if s = ''file'' then Inr FileTransfer
     else if s = ''folder-v1'' then Inr FolderV1 else Inl json_error)"

definition as_folder_entry_kind :: "jvalue \<Rightarrow> folder_entry_kind result" where
  "as_folder_entry_kind v =
     bind_r (as_variant v) (\<lambda>s.
     if s = ''file'' then Inr FileEntry
     else if s = ''directory'' then Inr DirectoryEntry else Inl json_error)"

definition as_folder_entry :: "jvalue \<Rightarrow> folder_entry result" where
  "as_folder_entry v =
     bind_r (as_struct [''path'', ''kind'', ''size'', ''modified_ms''] [''blake3''] v) (\<lambda>kvs.
     bind_r (field ''path'' as_str kvs) (\<lambda>p.
     bind_r (field ''kind'' as_folder_entry_kind kvs) (\<lambda>k.
     bind_r (field ''size'' (as_unsigned u64_max) kvs) (\<lambda>s.
     bind_r (field ''modified_ms'' as_i64 kvs) (\<lambda>m.
     bind_r (field_default ''blake3'' [] as_str kvs) (\<lambda>b.
     Inr \<lparr>fe_path = p, fe_kind = k, fe_size = s, fe_modified_ms = m, fe_blake3 = b\<rparr>))))))"

definition as_folder_manifest :: "jvalue \<Rightarrow> folder_manifest result" where
  "as_folder_manifest v =
     bind_r (as_struct [''version'', ''entries''] [] v) (\<lambda>kvs.
     bind_r (field ''version'' (as_unsigned u16_max) kvs) (\<lambda>n.
     bind_r (field ''entries'' (as_list as_folder_entry) kvs) (\<lambda>es.
     Inr \<lparr>fm_version = n, fm_entries = es\<rparr>)))"

definition as_transfer_offer :: "jvalue \<Rightarrow> transfer_offer result" where
  "as_transfer_offer v =
     bind_r (as_struct [''protocol'', ''transfer_id'', ''filename'', ''kind'', ''size'', ''modified_ms'', ''blake3'', ''sender''] [''signature''] v) (\<lambda>kvs.
     bind_r (field ''protocol'' (as_unsigned u16_max) kvs) (\<lambda>p.
     bind_r (field ''transfer_id'' as_str kvs) (\<lambda>i.
     bind_r (field ''filename'' as_str kvs) (\<lambda>f.
     bind_r (field ''kind'' as_transfer_kind kvs) (\<lambda>k.
     bind_r (field ''size'' (as_unsigned u64_max) kvs) (\<lambda>s.
     bind_r (field ''modified_ms'' as_i64 kvs) (\<lambda>m.
     bind_r (field ''blake3'' as_str kvs) (\<lambda>b.
     bind_r (field ''sender'' as_device_summary kvs) (\<lambda>d.
     bind_r (field_default ''signature'' [] as_str kvs) (\<lambda>g.
     Inr \<lparr>to_protocol = p, to_transfer_id = i, to_filename = f, to_kind = k, to_size = s,
          to_modified_ms = m, to_blake3 = b, to_sender = d, to_signature = g\<rparr>))))))))))"

definition as_transfer_receipt :: "jvalue \<Rightarrow> transfer_receipt result" where
  "as_transfer_receipt v =
     bind_r (as_struct [''transfer_id'', ''size'', ''blake3''] [] v) (\<lambda>kvs.
     bind_r (field ''transfer_id'' as_str kvs) (\<lambda>i.
     bind_r (field ''size'' (as_unsigned u64_max) kvs) (\<lambda>s.
     bind_r (field ''blake3'' as_str kvs) (\<lambda>b.
     Inr \<lparr>tr_transfer_id = i, tr_size = s, tr_blake3 = b\<rparr>))))"

definition as_transfer_response :: "jvalue \<Rightarrow> transfer_response result" where
  "as_transfer_response v =
     bind_r (as_tagged ''status'' v) (\<lambda>(st, w).
     if st = ''resume'' then
       bind_r (as_struct [''offset''] [] w) (\<lambda>kvs.
       bind_r (field ''offset'' (as_unsigned u64_max) kvs) (\<lambda>off. Inr (Resume off)))
     else if st = ''folder_resume'' then
       bind_r (as_struct [''file_index'', ''offset'', ''completed''] [] w) (\<lambda>kvs.
       bind_r (field ''file_index'' (as_unsigned u32_max) kvs) (\<lambda>i.
       bind_r (field ''offset'' (as_unsigned u64_max) kvs) (\<lambda>off.
       bind_r (field ''completed'' (as_unsigned u64_max) kvs) (\<lambda>c.
       Inr (FolderResume i off c)))))
     else if st = ''complete'' then
       bind_r (as_struct [''receipt''] [] w) (\<lambda>kvs.
       bind_r (field ''receipt'' as_transfer_receipt kvs) (\<lambda>r. Inr (Complete r)))
     else if st = ''rejected'' then
       bind_r (as_struct [''reason''] [] w) (\<lambda>kvs.
       bind_r (field ''reason'' as_str kvs) (\<lambda>r. Inr (Rejected r)))
     else Inl json_error)"

section \<open>Ranges of the Rust types\<close>

definition in_i64 :: "int \<Rightarrow> bool" where
  "in_i64 n \<longleftrightarrow> - (2 ^ 63) \<le> n \<and> n < 2 ^ 63"

definition folder_entry_range :: "folder_entry \<Rightarrow> bool" where
  "folder_entry_range e \<longleftrightarrow> fe_size e \<le> u64_max \<and> in_i64 (fe_modified_ms e)"

definition folder_manifest_range :: "folder_manifest \<Rightarrow> bool" where
  "folder_manifest_range m \<longleftrightarrow>
     fm_version m \<le> u16_max \<and> list_all folder_entry_range (fm_entries m)"

definition transfer_offer_range :: "transfer_offer \<Rightarrow> bool" where
  "transfer_offer_range t \<longleftrightarrow>
     to_protocol t \<le> u16_max \<and> to_size t \<le> u64_max \<and> in_i64 (to_modified_ms t)"

fun transfer_response_range :: "transfer_response \<Rightarrow> bool" where
  "transfer_response_range (Resume offset) = (offset \<le> u64_max)"
| "transfer_response_range (FolderResume i offset completed) =
     (i \<le> u32_max \<and> offset \<le> u64_max \<and> completed \<le> u64_max)"
| "transfer_response_range (Complete r) = (tr_size r \<le> u64_max)"
| "transfer_response_range (Rejected _) = True"

section \<open>Round trips\<close>

lemma as_transfer_kind_json [simp]: "as_transfer_kind (transfer_kind_json k) = Inr k"
  by (cases k) (simp_all add: as_transfer_kind_def)

lemma as_folder_entry_kind_json [simp]: "as_folder_entry_kind (folder_entry_kind_json k) = Inr k"
  by (cases k) (simp_all add: as_folder_entry_kind_def)

lemma as_device_summary_json [simp]: "as_device_summary (device_summary_json d) = Inr d"
  by (simp add: as_device_summary_def device_summary_json_def field_def)

lemma as_folder_entry_json [simp]:
  "folder_entry_range e \<Longrightarrow> as_folder_entry (folder_entry_json e) = Inr e"
  by (simp add: as_folder_entry_def folder_entry_json_def field_def field_default_def
      folder_entry_range_def in_i64_def)

lemma as_folder_manifest_json:
  "folder_manifest_range m \<Longrightarrow> as_folder_manifest (folder_manifest_json m) = Inr m"
  by (simp add: as_folder_manifest_def folder_manifest_json_def field_def
      folder_manifest_range_def list_all_iff map_result_map)

lemma as_transfer_offer_json:
  "transfer_offer_range t \<Longrightarrow> as_transfer_offer (transfer_offer_json t) = Inr t"
  by (simp add: as_transfer_offer_def transfer_offer_json_def signable_offer_fields_def field_def
      field_default_def transfer_offer_range_def in_i64_def)

lemma as_transfer_receipt_json [simp]:
  "tr_size r \<le> u64_max \<Longrightarrow> as_transfer_receipt (transfer_receipt_json r) = Inr r"
  by (simp add: as_transfer_receipt_def transfer_receipt_json_def field_def)

lemma as_transfer_response_json:
  "transfer_response_range r \<Longrightarrow> as_transfer_response (transfer_response_json r) = Inr r"
  by (cases r) (simp_all add: as_transfer_response_def field_def)

section \<open>What the printed fields determine\<close>

lemma device_summary_json_inj [simp]:
  "device_summary_json d = device_summary_json d' \<longleftrightarrow> d = d'"
  by (metis as_device_summary_json sum.inject(2))

lemma transfer_kind_json_inj [simp]: "transfer_kind_json k = transfer_kind_json k' \<longleftrightarrow> k = k'"
  by (metis as_transfer_kind_json sum.inject(2))

lemma signable_offer_fields_inj:
  "signable_offer_fields t = signable_offer_fields t' \<longleftrightarrow>
     t\<lparr>to_signature := s\<rparr> = t'\<lparr>to_signature := s\<rparr>"
  by (cases t; cases t') (auto simp: signable_offer_fields_def)

end
