(* ===== verification/Manifest.thy ===== *)
theory Manifest
  imports Wire
begin

text \<open>
  \<open>FolderManifest::validate\<close>, \<open>digest\<close> and \<open>validate_offer\<close> (\<open>protocol.rs\<close>). The loop over the
  entries is modelled with its four loop variables; the main lemma shows that it accepts
  exactly the manifests that describe a tree: paths strictly sorted and acceptable, no two
  paths equal on a case-insensitive system, and every ancestor of every entry a directory
  entry listed before it.
\<close>

section \<open>Canonical paths\<close>

definition canonical_folder_path :: "crates \<Rightarrow> string \<Rightarrow> string" where
  "canonical_folder_path E path = unicode_lowercase E (unicode_nfc E path)"

definition folder_ancestors :: "string \<Rightarrow> string list" where
  "folder_ancestors path =
     map (\<lambda>i. take i path) (filter (\<lambda>i. path ! i = CHR ''/'') [0..<length path])"

section \<open>Validation\<close>

text \<open>
  The loop of \<open>validate\<close>: \<open>prev\<close> is \<open>previous_path\<close>, \<open>canon\<close> is \<open>canonical_paths\<close>, \<open>files\<close> is
  \<open>file_paths\<close> and \<open>tot\<close> is \<open>total_size\<close>.
\<close>

fun validate_entries ::
  "crates \<Rightarrow> string option \<Rightarrow> string set \<Rightarrow> string set \<Rightarrow> nat \<Rightarrow> folder_entry list \<Rightarrow> nat result" where
  "validate_entries E prev canon files tot [] = Inr tot"
| "validate_entries E prev canon files tot (entry # rest) =
     bind_r (validate_folder_relative_path (fe_path entry)) (\<lambda>_.
     reject_if (case prev of None \<Rightarrow> False | Some previous \<Rightarrow> fe_path entry \<le> previous)
       (InvalidTransfer ''folder manifest paths are not strictly sorted'')
     (let canonical = canonical_folder_path E (fe_path entry) in
      reject_if (case rsplit_once CHR ''/'' canonical of
                   None \<Rightarrow> False | Some (parent, _) \<Rightarrow> parent \<notin> canon)
        (InvalidTransfer ''folder manifest is missing a parent directory'')
      (reject_if (canonical \<in> canon)
        (InvalidTransfer ''folder contains a cross-platform duplicate path'')
      (let canon' = insert canonical canon in
       reject_if (list_ex (\<lambda>ancestor. ancestor \<in> files) (folder_ancestors canonical))
         (InvalidTransfer ''folder entry is nested below a file'')
       (reject_if (fe_modified_ms entry < 0)
         (InvalidTransfer ''folder entry modified_ms cannot be negative'')
       (case fe_kind entry of
          FileEntry \<Rightarrow>
            reject_if (MAX_FILE_SIZE < fe_size entry \<or> \<not> valid_blake3 (fe_blake3 entry))
              (InvalidTransfer ''invalid folder file metadata'')
            (bind_r (ok_or (checked_add_u64 tot (fe_size entry))
                       (InvalidTransfer ''folder size overflow'')) (\<lambda>tot'.
             reject_if (MAX_FILE_SIZE < tot') (InvalidTransfer ''folder is too large'')
               (validate_entries E (Some (fe_path entry)) canon' (insert canonical files) tot' rest)))
        | DirectoryEntry \<Rightarrow>
            reject_if (fe_size entry \<noteq> 0 \<or> fe_blake3 entry \<noteq> [])
              (InvalidTransfer ''invalid folder directory metadata'')
              (validate_entries E (Some (fe_path entry)) canon' files tot rest)))))))"

definition validate_manifest :: "crates \<Rightarrow> folder_manifest \<Rightarrow> nat result" where
  "validate_manifest E m =
     reject_if (fm_version m \<noteq> 1)
       (InvalidTransfer (''unsupported folder manifest version '' @ dec (fm_version m)))
     (reject_if (MAX_FOLDER_ENTRIES < length (fm_entries m))
       (InvalidTransfer ''folder contains too many entries'')
     (validate_entries E None {} {} 0 (fm_entries m)))"

definition FOLDER_MANIFEST_DOMAIN :: bytes where
  "FOLDER_MANIFEST_DOMAIN = str_bytes (''inkhole/quic/folder-manifest/v1'' @ [CHR 0x00])"

definition manifest_digest :: "crates \<Rightarrow> folder_manifest \<Rightarrow> bytes result" where
  "manifest_digest E m =
     bind_r (validate_manifest E m) (\<lambda>_.
       Inr (blake3_hash E (FOLDER_MANIFEST_DOMAIN @ to_vec E (folder_manifest_json m))))"

definition manifest_validate_offer :: "crates \<Rightarrow> folder_manifest \<Rightarrow> transfer_offer \<Rightarrow> unit result" where
  "manifest_validate_offer E m offer =
     (let err = InvalidTransfer ''folder manifest does not match its offer'' in
      reject_if (to_kind offer \<noteq> FolderV1) err
      (bind_r (validate_manifest E m) (\<lambda>size.
       reject_if (size \<noteq> to_size offer) err
       (bind_r (manifest_digest E m) (\<lambda>digest.
        reject_if (hex_encode E digest \<noteq> to_blake3 offer) err
        (Inr ()))))))"

section \<open>What an accepted manifest is\<close>

definition entry_canon :: "crates \<Rightarrow> folder_entry \<Rightarrow> string" where
  "entry_canon E e = canonical_folder_path E (fe_path e)"

definition file_sizes :: "folder_entry list \<Rightarrow> nat" where
  "file_sizes es = sum_list (map fe_size (filter (\<lambda>e. fe_kind e = FileEntry) es))"

fun entry_metadata_ok :: "folder_entry \<Rightarrow> bool" where
  "entry_metadata_ok e \<longleftrightarrow>
     0 \<le> fe_modified_ms e \<and>
     (case fe_kind e of
        FileEntry \<Rightarrow> valid_blake3 (fe_blake3 e)
      | DirectoryEntry \<Rightarrow> fe_size e = 0 \<and> fe_blake3 e = [])"

definition manifest_tree :: "crates \<Rightarrow> folder_entry list \<Rightarrow> bool" where
  "manifest_tree E es \<longleftrightarrow>
     sorted_wrt (<) (map fe_path es) \<and>
     distinct (map (entry_canon E) es) \<and>
     (\<forall>e \<in> set es. validate_folder_relative_path (fe_path e) = Inr () \<and> entry_metadata_ok e) \<and>
     (\<forall>i < length es. \<forall>a \<in> set (folder_ancestors (entry_canon E (es ! i))).
        \<exists>j < i. fe_kind (es ! j) = DirectoryEntry \<and> entry_canon E (es ! j) = a)"

lemma set_folder_ancestors:
  "set (folder_ancestors s) = {take i s | i. i < length s \<and> s ! i = CHR ''/''}"
  by (auto simp: folder_ancestors_def)

lemma folder_ancestors_rsplit_Some:
  assumes "rsplit_once CHR ''/'' s = Some (p, b)"
  shows "set (folder_ancestors s) = insert p (set (folder_ancestors p))"
proof -
  from rsplit_once_Some [OF assms] have s: "s = p @ CHR ''/'' # b" and b: "CHR ''/'' \<notin> set b"
    by auto
  have idx: "s ! i = CHR ''/'' \<Longrightarrow> i < length s \<Longrightarrow> i \<le> length p" for i
  proof (rule ccontr)
    assume i: "s ! i = CHR ''/''" "i < length s" "\<not> i \<le> length p"
    then have "s ! i = b ! (i - Suc (length p))" "i - Suc (length p) < length b"
      by (auto simp: s nth_append nth_Cons' not_le)
    with i(1) b show False by (metis nth_mem)
  qed
  show ?thesis
  proof (rule set_eqI)
    fix a
    have len: "length p < length s" and at: "s ! length p = CHR ''/''" "take (length p) s = p"
      by (simp_all add: s)
    have below: "s ! i = p ! i" "take i s = take i p" if "i < length p" for i
      using that by (simp_all add: s nth_append)
    show "a \<in> set (folder_ancestors s) \<longleftrightarrow> a \<in> insert p (set (folder_ancestors p))"
    proof
      assume "a \<in> set (folder_ancestors s)"
      then obtain i where i: "i < length s" "s ! i = CHR ''/''" "a = take i s"
        unfolding set_folder_ancestors by blast
      show "a \<in> insert p (set (folder_ancestors p))"
      proof (cases "i = length p")
        case True
        with i(3) at(2) show ?thesis by simp
      next
        case False
        with idx [OF i(2,1)] have lt: "i < length p" by simp
        have "a = take i p" using i(3) below(2) [OF lt] by simp
        moreover have "p ! i = CHR ''/''" using i(2) below(1) [OF lt] by simp
        ultimately show ?thesis using lt unfolding set_folder_ancestors by blast
      qed
    next
      assume "a \<in> insert p (set (folder_ancestors p))"
      then consider "a = p" | i where "i < length p" "p ! i = CHR ''/''" "a = take i p"
        unfolding set_folder_ancestors by blast
      then show "a \<in> set (folder_ancestors s)"
      proof cases
        case 1
        then have "a = take (length p) s" using at(2) by simp
        then show ?thesis using len at(1) unfolding set_folder_ancestors by blast
      next
        case 2
        then have "a = take i s" "s ! i = CHR ''/''" "i < length s"
          using len below [OF 2(1)] by simp_all
        then show ?thesis unfolding set_folder_ancestors by blast
      qed
    qed
  qed
qed

lemma folder_ancestors_rsplit_None:
  assumes "rsplit_once CHR ''/'' s = None"
  shows "folder_ancestors s = []"
proof -
  from assms have "CHR ''/'' \<notin> set s" by (simp add: rsplit_once_None)
  then show ?thesis by (auto simp: folder_ancestors_def filter_empty_conv in_set_conv_nth)
qed

subsection \<open>The loop as one condition per entry\<close>

text \<open>
  The condition one iteration checks against the entries before it, and the loop variables
  as functions of those entries.
\<close>

definition entry_ok :: "crates \<Rightarrow> folder_entry list \<Rightarrow> folder_entry \<Rightarrow> bool" where
  "entry_ok E pre e \<longleftrightarrow>
     validate_folder_relative_path (fe_path e) = Inr () \<and>
     (pre \<noteq> [] \<longrightarrow> fe_path (last pre) < fe_path e) \<and>
     (case rsplit_once CHR ''/'' (entry_canon E e) of
        None \<Rightarrow> True | Some (parent, _) \<Rightarrow> parent \<in> entry_canon E ` set pre) \<and>
     entry_canon E e \<notin> entry_canon E ` set pre \<and>
     (\<forall>a \<in> set (folder_ancestors (entry_canon E e)).
        a \<notin> entry_canon E ` {f \<in> set pre. fe_kind f = FileEntry}) \<and>
     entry_metadata_ok e \<and>
     (fe_kind e = FileEntry \<longrightarrow> file_sizes pre + fe_size e \<le> MAX_FILE_SIZE)"

fun entries_ok :: "crates \<Rightarrow> folder_entry list \<Rightarrow> folder_entry list \<Rightarrow> bool" where
  "entries_ok E pre [] \<longleftrightarrow> True"
| "entries_ok E pre (e # es) \<longleftrightarrow> entry_ok E pre e \<and> entries_ok E (pre @ [e]) es"

lemma file_sizes_simps [simp]:
  "file_sizes [] = 0"
  "file_sizes (es @ fs) = file_sizes es + file_sizes fs"
  "file_sizes (e # es) = (if fe_kind e = FileEntry then fe_size e else 0) + file_sizes es"
  by (simp_all add: file_sizes_def)

lemma MAX_FILE_SIZE_u64: "MAX_FILE_SIZE \<le> u64_max"
  by (simp add: MAX_FILE_SIZE_def u64_max_def)

lemma validate_entries_iff:
  "validate_entries E (if pre = [] then None else Some (fe_path (last pre)))
     (entry_canon E ` set pre) (entry_canon E ` {f \<in> set pre. fe_kind f = FileEntry})
     (file_sizes pre) es = Inr tot \<longleftrightarrow>
   entries_ok E pre es \<and> tot = file_sizes (pre @ es)"
proof (induction es arbitrary: pre)
  case Nil
  then show ?case by auto
next
  case (Cons e es)
  let ?files = "entry_canon E ` {f \<in> set pre. fe_kind f = FileEntry}"
  have files: "entry_canon E ` {f \<in> set (pre @ [e]). fe_kind f = FileEntry} =
      (if fe_kind e = FileEntry then insert (entry_canon E e) ?files else ?files)"
    by auto
  have canon: "entry_canon E ` set (pre @ [e]) = insert (entry_canon E e) (entry_canon E ` set pre)"
    by simp
  note IH = Cons.IH [of "pre @ [e]", unfolded files canon]
  show ?case
  proof (cases "fe_kind e")
    case FileEntry
    have "validate_entries E (Some (fe_path e)) (insert (entry_canon E e) (entry_canon E ` set pre))
        (insert (entry_canon E e) ?files) (file_sizes pre + fe_size e) es = Inr tot \<longleftrightarrow>
        entries_ok E (pre @ [e]) es \<and> tot = file_sizes (pre @ e # es)"
      using IH FileEntry by simp
    then show ?thesis
      using FileEntry MAX_FILE_SIZE_u64
      by (auto simp: entry_ok_def result_simps Let_def entry_canon_def list_ex_iff
          split: option.splits prod.splits)
  next
    case DirectoryEntry
    have "validate_entries E (Some (fe_path e)) (insert (entry_canon E e) (entry_canon E ` set pre))
        ?files (file_sizes pre) es = Inr tot \<longleftrightarrow>
        entries_ok E (pre @ [e]) es \<and> tot = file_sizes (pre @ e # es)"
      using IH DirectoryEntry by simp
    then show ?thesis
      using DirectoryEntry
      by (auto simp: entry_ok_def result_simps Let_def entry_canon_def list_ex_iff
          split: option.splits prod.splits)
  qed
qed

lemma validate_manifest_entries_ok:
  "validate_manifest E m = Inr tot \<longleftrightarrow>
     fm_version m = 1 \<and> length (fm_entries m) \<le> MAX_FOLDER_ENTRIES \<and>
     entries_ok E [] (fm_entries m) \<and> tot = file_sizes (fm_entries m)"
  using validate_entries_iff [of E "[]" "fm_entries m" tot]
  by (auto simp: validate_manifest_def result_simps)

lemma entries_ok_nth:
  "entries_ok E pre es \<longleftrightarrow> (\<forall>i < length es. entry_ok E (pre @ take i es) (es ! i))"
proof (induction es arbitrary: pre)
  case Nil
  then show ?case by simp
next
  case (Cons e es)
  have "(\<forall>i < length (e # es). entry_ok E (pre @ take i (e # es)) ((e # es) ! i)) \<longleftrightarrow>
      entry_ok E pre e \<and> (\<forall>i < length es. entry_ok E (pre @ e # take i es) (es ! i))"
    by (auto simp: less_Suc_eq_0_disj)
  then show ?case by (simp add: Cons.IH)
qed

lemma in_image_take:
  assumes "i \<le> length xs"
  shows "x \<in> f ` set (take i xs) \<longleftrightarrow> (\<exists>j < i. f (xs ! j) = x)"
proof -
  have "set (take i xs) = (!) xs ` {0..<i}" using nth_image [OF assms] by simp
  then show ?thesis by auto
qed

lemma file_sizes_take_mono: "file_sizes (take i es) \<le> file_sizes es"
proof -
  have "file_sizes es = file_sizes (take i es) + file_sizes (drop i es)"
    by (metis append_take_drop_id file_sizes_simps(2))
  then show ?thesis by simp
qed

lemma file_sizes_take_Suc:
  "i < length es \<Longrightarrow>
     file_sizes (take (Suc i) es) =
     file_sizes (take i es) + (if fe_kind (es ! i) = FileEntry then fe_size (es ! i) else 0)"
  by (simp add: take_Suc_conv_app_nth)

subsection \<open>Accepted manifests are trees\<close>

lemma entries_ok_ancestors:
  assumes ok: "\<And>i. i < length es \<Longrightarrow> entry_ok E (take i es) (es ! i)"
  shows "i < length es \<Longrightarrow> a \<in> set (folder_ancestors (entry_canon E (es ! i))) \<Longrightarrow>
    \<exists>j < i. fe_kind (es ! j) = DirectoryEntry \<and> entry_canon E (es ! j) = a"
proof (induction i arbitrary: a rule: less_induct)
  case (less i)
  let ?c = "entry_canon E (es ! i)"
  from less.prems(2) obtain p b where r: "rsplit_once CHR ''/'' ?c = Some (p, b)"
    using folder_ancestors_rsplit_None [of ?c] by (cases "rsplit_once CHR ''/'' ?c") auto
  note anc = folder_ancestors_rsplit_Some [OF r]
  from ok [OF less.prems(1)] r have "p \<in> entry_canon E ` set (take i es)"
    by (simp add: entry_ok_def)
  then obtain j where j: "j < i" "entry_canon E (es ! j) = p"
    using in_image_take [of i es p "entry_canon E"] less.prems(1) by auto
  have "p \<notin> entry_canon E ` {f \<in> set (take i es). fe_kind f = FileEntry}"
    using ok [OF less.prems(1)] anc by (simp add: entry_ok_def)
  moreover have "es ! j \<in> set (take i es)"
    using j(1) less.prems(1) by (auto simp: in_set_conv_nth)
  ultimately have dir: "fe_kind (es ! j) = DirectoryEntry"
    using j(2) by (cases "fe_kind (es ! j)") auto
  show ?case
  proof (cases "a = p")
    case True
    with j dir show ?thesis by blast
  next
    case False
    with less.prems(2) anc have "a \<in> set (folder_ancestors (entry_canon E (es ! j)))"
      by (simp add: j(2))
    from less.IH [OF j(1) _ this] j(1) less.prems(1) show ?thesis
      by (meson less_trans)
  qed
qed

lemma entries_ok_sizes:
  assumes ok: "\<And>i. i < length es \<Longrightarrow> entry_ok E (take i es) (es ! i)"
  shows "i \<le> length es \<Longrightarrow> file_sizes (take i es) \<le> MAX_FILE_SIZE"
proof (induction i)
  case 0
  then show ?case by simp
next
  case (Suc i)
  with ok [of i] show ?case
    by (simp add: file_sizes_take_Suc entry_ok_def)
qed

lemma entries_ok_imp_tree:
  assumes "entries_ok E [] es"
  shows "manifest_tree E es \<and> file_sizes es \<le> MAX_FILE_SIZE"
proof -
  have ok: "entry_ok E (take i es) (es ! i)" if "i < length es" for i
    using assms that by (simp add: entries_ok_nth)
  have "fe_path (es ! i) < fe_path (es ! Suc i)" if "Suc i < length es" for i
    using ok [OF that] that by (simp add: entry_ok_def take_Suc_conv_app_nth)
  then have sorted: "sorted_wrt (<) (map fe_path es)"
    by (simp add: sorted_wrt_iff_nth_Suc_transp)
  have later: "entry_canon E (es ! i) \<noteq> entry_canon E (es ! j)" if "j < i" "i < length es" for i j
  proof -
    have "entry_canon E (es ! i) \<notin> entry_canon E ` set (take i es)"
      using ok [OF that(2)] by (simp add: entry_ok_def)
    then show ?thesis
      using in_image_take [of i es _ "entry_canon E"] that by auto
  qed
  then have dist: "distinct (map (entry_canon E) es)"
    unfolding distinct_conv_nth by (metis length_map nat_neq_iff nth_map)
  have each: "validate_folder_relative_path (fe_path e) = Inr () \<and> entry_metadata_ok e"
    if "e \<in> set es" for e
    using that ok by (auto simp: in_set_conv_nth entry_ok_def simp del: entry_metadata_ok.simps)
  have "file_sizes es \<le> MAX_FILE_SIZE"
    using entries_ok_sizes [OF ok, of "length es"] by simp
  then show ?thesis
    unfolding manifest_tree_def
    using sorted dist each entries_ok_ancestors [OF ok] by blast
qed

lemma tree_imp_entry_ok:
  assumes tree: "manifest_tree E es" and max: "file_sizes es \<le> MAX_FILE_SIZE" and i: "i < length es"
  shows "entry_ok E (take i es) (es ! i)"
proof -
  let ?c = "entry_canon E (es ! i)"
  from tree have sorted: "sorted_wrt (<) (map fe_path es)" and dist: "distinct (map (entry_canon E) es)"
    and each: "validate_folder_relative_path (fe_path (es ! i)) = Inr ()" "entry_metadata_ok (es ! i)"
    and anc: "\<And>a. a \<in> set (folder_ancestors ?c) \<Longrightarrow>
      \<exists>j < i. fe_kind (es ! j) = DirectoryEntry \<and> entry_canon E (es ! j) = a"
    using i unfolding manifest_tree_def by (meson nth_mem)+
  have same: "j = k" if "j < length es" "k < length es" "entry_canon E (es ! j) = entry_canon E (es ! k)"
    for j k using dist that by (simp add: distinct_conv_nth) (metis length_map nth_map)
  have last: "take i es \<noteq> [] \<longrightarrow> fe_path (last (take i es)) < fe_path (es ! i)"
  proof
    assume "take i es \<noteq> []"
    then have "0 < i" and l: "last (take i es) = es ! (i - 1)"
      using i by (auto simp: last_conv_nth min_def)
    have "map fe_path es ! (i - 1) < map fe_path es ! i"
      using sorted \<open>0 < i\<close> i by (intro sorted_wrt_nth_less) auto
    with l i show "fe_path (last (take i es)) < fe_path (es ! i)" by simp
  qed
  have parent: "case rsplit_once CHR ''/'' ?c of None \<Rightarrow> True
      | Some (parent, _) \<Rightarrow> parent \<in> entry_canon E ` set (take i es)"
  proof (cases "rsplit_once CHR ''/'' ?c")
    case None
    then show ?thesis by simp
  next
    case (Some pb)
    obtain p b where pb: "pb = (p, b)" by fastforce
    have "p \<in> set (folder_ancestors ?c)"
      using folder_ancestors_rsplit_Some [of ?c p b] Some pb by simp
    then show ?thesis
      using anc [of p] in_image_take [of i es p "entry_canon E"] i Some pb by auto
  qed
  have new: "?c \<notin> entry_canon E ` set (take i es)"
  proof
    assume "?c \<in> entry_canon E ` set (take i es)"
    then obtain j where "j < i" "entry_canon E (es ! j) = ?c"
      using in_image_take [of i es ?c "entry_canon E"] i by auto
    with same [of j i] i show False by simp
  qed
  have nofile: "a \<notin> entry_canon E ` {f \<in> set (take i es). fe_kind f = FileEntry}"
    if "a \<in> set (folder_ancestors ?c)" for a
  proof
    assume "a \<in> entry_canon E ` {f \<in> set (take i es). fe_kind f = FileEntry}"
    then obtain k where k: "k < i" "a = entry_canon E (es ! k)" "fe_kind (es ! k) = FileEntry"
      using i by (auto simp: in_set_conv_nth)
    from anc [OF that] obtain j where
      j: "j < i" "fe_kind (es ! j) = DirectoryEntry" "entry_canon E (es ! j) = a" by blast
    have "j = k" by (rule same) (use j k i in simp_all)
    with j k show False by simp
  qed
  have "file_sizes (take (Suc i) es) \<le> MAX_FILE_SIZE"
    using file_sizes_take_mono max le_trans by blast
  then have "fe_kind (es ! i) = FileEntry \<longrightarrow> file_sizes (take i es) + fe_size (es ! i) \<le> MAX_FILE_SIZE"
    using i by (auto simp: file_sizes_take_Suc split: if_splits)
  with each last parent new nofile show ?thesis
    unfolding entry_ok_def by blast
qed

lemma validate_manifest_tree:
  "validate_manifest E m = Inr tot \<longleftrightarrow>
     fm_version m = 1 \<and> length (fm_entries m) \<le> MAX_FOLDER_ENTRIES \<and>
     manifest_tree E (fm_entries m) \<and> tot = file_sizes (fm_entries m) \<and> tot \<le> MAX_FILE_SIZE"
  using entries_ok_imp_tree [of E "fm_entries m"] tree_imp_entry_ok [of E "fm_entries m"]
  by (auto simp: validate_manifest_entries_ok entries_ok_nth)

lemma manifest_validate_offer_Inr:
  "manifest_validate_offer E m offer = Inr () \<longleftrightarrow>
     to_kind offer = FolderV1 \<and> validate_manifest E m = Inr (to_size offer) \<and>
     to_blake3 offer =
       hex_encode E (blake3_hash E (FOLDER_MANIFEST_DOMAIN @ to_vec E (folder_manifest_json m)))"
  by (auto simp: manifest_validate_offer_def manifest_digest_def Let_def result_simps)

end
