(* ===== verification/Offer.thy ===== *)
theory Offer
  imports Manifest
begin

text \<open>
  The signed offer of a transfer (\<open>TransferOffer::new\<close>, \<open>signing_bytes\<close>, \<open>validate\<close> of
  \<open>protocol.rs\<close>) and the device identity that signs it (\<open>identity.rs\<close>): the stored and the
  exported document, their checks, and the round trip through the private export. Lemmas show
  what an accepted offer has been checked for, that the signed bytes determine every field
  the receiver acts on, and that the sender's own offer is accepted.
\<close>

section \<open>Decoding keys and signatures\<close>

text \<open>Base64 text that must be an array of \<open>n\<close> bytes, with one error for both conditions.\<close>

definition decode_array :: "crates \<Rightarrow> nat \<Rightarrow> core_error \<Rightarrow> string \<Rightarrow> bytes result" where
  "decode_array E n err s =
     bind_r (ok_or (base64_decode E s) err) (\<lambda>b. reject_if (length b \<noteq> n) err (Inr b))"

lemma decode_array_Inr:
  "decode_array E n err s = Inr b \<longleftrightarrow> base64_decode E s = Some b \<and> length b = n"
  by (auto simp: decode_array_def result_simps)

section \<open>Offers\<close>

definition OFFER_SIGNATURE_DOMAIN :: bytes where
  "OFFER_SIGNATURE_DOMAIN = str_bytes (''inkhole/quic/offer/v2'' @ [CHR 0x00])"

definition offer_new ::
  "crates \<Rightarrow> string \<Rightarrow> string \<Rightarrow> nat \<Rightarrow> int \<Rightarrow> bytes \<Rightarrow> device_summary \<Rightarrow> transfer_offer" where
  "offer_new E transfer_id filename file_size modified_ms digest sender =
     \<lparr>to_protocol = QUIC_PROTOCOL_VERSION, to_transfer_id = transfer_id, to_filename = filename,
      to_kind = FileTransfer, to_size = file_size, to_modified_ms = modified_ms,
      to_blake3 = hex_encode E digest, to_sender = sender, to_signature = []\<rparr>"

definition offer_signing_bytes :: "crates \<Rightarrow> transfer_offer \<Rightarrow> bytes" where
  "offer_signing_bytes E offer =
     OFFER_SIGNATURE_DOMAIN @ to_vec E (JObj (signable_offer_fields offer))"

definition offer_validate :: "crates \<Rightarrow> transfer_offer \<Rightarrow> unit result" where
  "offer_validate E offer =
     (let sender = to_sender offer in
      reject_if (to_protocol offer \<noteq> QUIC_PROTOCOL_VERSION)
        (InvalidTransfer (''unsupported QUIC protocol version '' @ dec (to_protocol offer)))
      (reject_if (\<not> uuid_parses E (to_transfer_id offer)) (InvalidTransfer ''invalid transfer_id'')
      (reject_if (4096 < length (to_filename offer)) (InvalidTransfer ''filename is too long'')
      (reject_if (MAX_FILE_SIZE < to_size offer) (InvalidTransfer ''file is too large'')
      (reject_if (to_modified_ms offer < 0) (InvalidTransfer ''modified_ms cannot be negative'')
      (reject_if (\<not> valid_blake3 (to_blake3 offer)) (InvalidTransfer ''invalid BLAKE3 digest'')
      (reject_if (\<not> valid_instance_id (ds_instance_id sender))
        (InvalidTransfer ''invalid sender instance id'')
      (reject_if (trim (ds_name sender) = [] \<or> 255 < length (ds_name sender))
        (InvalidTransfer ''invalid sender name'')
      (bind_r (decode_array E 32 (InvalidTransfer ''invalid sender public key'')
                (ds_public_key sender)) (\<lambda>public_key.
       bind_r (decode_array E 64 (InvalidTransfer ''invalid offer signature'')
                (to_signature offer)) (\<lambda>signature.
       reject_if (\<not> ed25519_point_ok E public_key) (InvalidTransfer ''invalid sender public key'')
       (reject_if (\<not> ed25519_verify E public_key (offer_signing_bytes E offer) signature)
         (InvalidTransfer ''offer signature verification failed'')
       (Inr ())))))))))))))"

text \<open>What the fields of an offer satisfy, signature aside.\<close>

definition offer_fields_ok :: "crates \<Rightarrow> transfer_offer \<Rightarrow> bool" where
  "offer_fields_ok E offer \<longleftrightarrow>
     to_protocol offer = QUIC_PROTOCOL_VERSION \<and> uuid_parses E (to_transfer_id offer) \<and>
     length (to_filename offer) \<le> 4096 \<and> to_size offer \<le> MAX_FILE_SIZE \<and>
     0 \<le> to_modified_ms offer \<and> valid_blake3 (to_blake3 offer) \<and>
     valid_instance_id (ds_instance_id (to_sender offer)) \<and>
     trim (ds_name (to_sender offer)) \<noteq> [] \<and> length (ds_name (to_sender offer)) \<le> 255"

text \<open>The sender's key verifies the offer's signature.\<close>

definition offer_signed :: "crates \<Rightarrow> transfer_offer \<Rightarrow> bool" where
  "offer_signed E offer \<longleftrightarrow>
     (\<exists>key sig. base64_decode E (ds_public_key (to_sender offer)) = Some key \<and> length key = 32 \<and>
        base64_decode E (to_signature offer) = Some sig \<and> length sig = 64 \<and>
        ed25519_point_ok E key \<and> ed25519_verify E key (offer_signing_bytes E offer) sig)"

lemma offer_validate_iff:
  "offer_validate E offer = Inr () \<longleftrightarrow> offer_fields_ok E offer \<and> offer_signed E offer"
  by (auto simp: offer_validate_def offer_fields_ok_def offer_signed_def Let_def result_simps
      decode_array_Inr not_less)

lemma offer_signing_bytes_inj:
  assumes "json_roundtrip E" "offer_signing_bytes E a = offer_signing_bytes E b"
  shows "a\<lparr>to_signature := s\<rparr> = b\<lparr>to_signature := s\<rparr>"
proof -
  from assms(2) have "json_print E (JObj (signable_offer_fields a)) =
      json_print E (JObj (signable_offer_fields b))"
    by (simp add: offer_signing_bytes_def to_vec_def)
  from json_print_inj [OF assms(1) this] show ?thesis
    by (simp add: signable_offer_fields_inj [of a b s])
qed

lemma offer_signing_bytes_unsigned [simp]:
  "offer_signing_bytes E (offer\<lparr>to_signature := s\<rparr>) = offer_signing_bytes E offer"
  by (simp add: offer_signing_bytes_def signable_offer_fields_def)

section \<open>Device identities\<close>

record device_identity =
  id_instance_id :: string
  id_peer_name :: string
  id_tls_certificate :: bytes
  id_tls_private_key :: bytes
  id_signing_key :: bytes
  id_certificate_fingerprint :: string

record identity_document =
  idoc_version :: nat
  idoc_instance_id :: string
  idoc_peer_name :: string
  idoc_tls_certificate :: string
  idoc_tls_private_key :: string
  idoc_signing_private_key :: string

record private_identity_document =
  pdoc_version :: nat
  pdoc_tls_certificate :: string
  pdoc_tls_private_key :: string
  pdoc_signing_private_key :: string

definition IDENTITY_FORMAT_VERSION :: nat where "IDENTITY_FORMAT_VERSION = 1"
definition PRIVATE_IDENTITY_FORMAT_VERSION :: nat where "PRIVATE_IDENTITY_FORMAT_VERSION = 1"

definition identity_document_json :: "identity_document \<Rightarrow> jvalue" where
  "identity_document_json d =
     JObj [(''version'', jnat (idoc_version d)), (''instance_id'', JStr (idoc_instance_id d)),
           (''peer_name'', JStr (idoc_peer_name d)),
           (''tls_certificate'', JStr (idoc_tls_certificate d)),
           (''tls_private_key'', JStr (idoc_tls_private_key d)),
           (''signing_private_key'', JStr (idoc_signing_private_key d))]"

definition as_identity_document :: "jvalue \<Rightarrow> identity_document result" where
  "as_identity_document v =
     bind_r (as_struct [''version'', ''instance_id'', ''peer_name'', ''tls_certificate'', ''tls_private_key'', ''signing_private_key''] [] v) (\<lambda>kvs.
     bind_r (field ''version'' (as_unsigned u16_max) kvs) (\<lambda>n.
     bind_r (field ''instance_id'' as_str kvs) (\<lambda>i.
     bind_r (field ''peer_name'' as_str kvs) (\<lambda>p.
     bind_r (field ''tls_certificate'' as_str kvs) (\<lambda>c.
     bind_r (field ''tls_private_key'' as_str kvs) (\<lambda>k.
     bind_r (field ''signing_private_key'' as_str kvs) (\<lambda>s.
     Inr \<lparr>idoc_version = n, idoc_instance_id = i, idoc_peer_name = p, idoc_tls_certificate = c,
          idoc_tls_private_key = k, idoc_signing_private_key = s\<rparr>)))))))"

definition private_document_json :: "private_identity_document \<Rightarrow> jvalue" where
  "private_document_json d =
     JObj [(''version'', jnat (pdoc_version d)),
           (''tls_certificate'', JStr (pdoc_tls_certificate d)),
           (''tls_private_key'', JStr (pdoc_tls_private_key d)),
           (''signing_private_key'', JStr (pdoc_signing_private_key d))]"

definition as_private_document :: "jvalue \<Rightarrow> private_identity_document result" where
  "as_private_document v =
     bind_r (as_struct [''version'', ''tls_certificate'', ''tls_private_key'', ''signing_private_key''] [] v) (\<lambda>kvs.
     bind_r (field ''version'' (as_unsigned u16_max) kvs) (\<lambda>n.
     bind_r (field ''tls_certificate'' as_str kvs) (\<lambda>c.
     bind_r (field ''tls_private_key'' as_str kvs) (\<lambda>k.
     bind_r (field ''signing_private_key'' as_str kvs) (\<lambda>s.
     Inr \<lparr>pdoc_version = n, pdoc_tls_certificate = c, pdoc_tls_private_key = k,
          pdoc_signing_private_key = s\<rparr>)))))"

lemma as_identity_document_json:
  "idoc_version d \<le> u16_max \<Longrightarrow> as_identity_document (identity_document_json d) = Inr d"
  by (simp add: as_identity_document_def identity_document_json_def field_def)

lemma as_private_document_json:
  "pdoc_version d \<le> u16_max \<Longrightarrow> as_private_document (private_document_json d) = Inr d"
  by (simp add: as_private_document_def private_document_json_def field_def)

text \<open>
  \<open>validate_metadata\<close>: \<open>fresh\<close> is the random UUID drawn when no instance id is requested.
\<close>

definition validate_metadata :: "string \<Rightarrow> string option \<Rightarrow> string \<Rightarrow> (string \<times> string) result" where
  "validate_metadata fresh requested_instance_id peer_name =
     (let instance_id = (case requested_instance_id of Some i \<Rightarrow> i | None \<Rightarrow> fresh);
          name = trim peer_name
      in reject_if (\<not> valid_instance_id instance_id) (InvalidIdentity ''invalid instance id'')
        (reject_if (name = [] \<or> 255 < length name) (InvalidIdentity ''invalid peer name'')
        (Inr (instance_id, name))))"

definition decode_nonempty :: "crates \<Rightarrow> string \<Rightarrow> string \<Rightarrow> bytes result" where
  "decode_nonempty E encoded label =
     bind_r (ok_or (base64_decode E encoded) (InvalidIdentity (''invalid '' @ label))) (\<lambda>decoded.
     reject_if (decoded = []) (InvalidIdentity (''empty '' @ label)) (Inr decoded))"

definition from_key_material ::
  "crates \<Rightarrow> string \<Rightarrow> string \<Rightarrow> string \<Rightarrow> string \<Rightarrow> string \<Rightarrow> device_identity result" where
  "from_key_material E instance_id peer_name tls_certificate tls_private_key signing_private_key =
     bind_r (decode_nonempty E tls_certificate ''TLS certificate'') (\<lambda>cert.
     bind_r (decode_nonempty E tls_private_key ''TLS private key'') (\<lambda>key.
     bind_r (decode_array E 32 (InvalidIdentity ''invalid signing private key'')
               signing_private_key) (\<lambda>seed.
     Inr \<lparr>id_instance_id = instance_id, id_peer_name = peer_name, id_tls_certificate = cert,
          id_tls_private_key = key, id_signing_key = seed,
          id_certificate_fingerprint = hex_encode E (blake3_hash E cert)\<rparr>)))"

definition from_document :: "crates \<Rightarrow> identity_document \<Rightarrow> device_identity result" where
  "from_document E d =
     reject_if (idoc_version d \<noteq> IDENTITY_FORMAT_VERSION \<or>
                \<not> valid_instance_id (idoc_instance_id d) \<or> trim (idoc_peer_name d) = [])
       (InvalidIdentity ''invalid identity document'')
     (from_key_material E (idoc_instance_id d) (idoc_peer_name d) (idoc_tls_certificate d)
       (idoc_tls_private_key d) (idoc_signing_private_key d))"

definition from_private_export ::
  "crates \<Rightarrow> string \<Rightarrow> string \<Rightarrow> string option \<Rightarrow> string \<Rightarrow> device_identity result" where
  "from_private_export E fresh encoded requested_instance_id peer_name =
     bind_r (validate_metadata fresh requested_instance_id peer_name) (\<lambda>(instance_id, name).
     bind_r (ok_or (base64_decode E (trim encoded)) (InvalidIdentity ''invalid private identity''))
       (\<lambda>data.
     bind_r (from_slice E data) (\<lambda>v.
     bind_r (as_private_document v) (\<lambda>d.
     reject_if (pdoc_version d \<noteq> PRIVATE_IDENTITY_FORMAT_VERSION)
       (InvalidIdentity ''unsupported private identity version'')
     (from_key_material E instance_id name (pdoc_tls_certificate d) (pdoc_tls_private_key d)
       (pdoc_signing_private_key d))))))"

definition export_private :: "crates \<Rightarrow> device_identity \<Rightarrow> string" where
  "export_private E i =
     base64_encode E (to_vec E (private_document_json
       \<lparr>pdoc_version = PRIVATE_IDENTITY_FORMAT_VERSION,
        pdoc_tls_certificate = base64_encode E (id_tls_certificate i),
        pdoc_tls_private_key = base64_encode E (id_tls_private_key i),
        pdoc_signing_private_key = base64_encode E (id_signing_key i)\<rparr>))"

text \<open>The document \<open>persist\<close> writes.\<close>

definition identity_to_document :: "crates \<Rightarrow> device_identity \<Rightarrow> identity_document" where
  "identity_to_document E i =
     \<lparr>idoc_version = IDENTITY_FORMAT_VERSION, idoc_instance_id = id_instance_id i,
      idoc_peer_name = id_peer_name i,
      idoc_tls_certificate = base64_encode E (id_tls_certificate i),
      idoc_tls_private_key = base64_encode E (id_tls_private_key i),
      idoc_signing_private_key = base64_encode E (id_signing_key i)\<rparr>"

definition public_key_base64 :: "crates \<Rightarrow> device_identity \<Rightarrow> string" where
  "public_key_base64 E i = base64_encode E (ed25519_public E (id_signing_key i))"

definition identity_summary :: "crates \<Rightarrow> device_identity \<Rightarrow> device_summary" where
  "identity_summary E i =
     \<lparr>ds_instance_id = id_instance_id i, ds_name = id_peer_name i,
      ds_public_key = public_key_base64 E i\<rparr>"

definition sign_base64 :: "crates \<Rightarrow> device_identity \<Rightarrow> bytes \<Rightarrow> string" where
  "sign_base64 E i message = base64_encode E (ed25519_sign E (id_signing_key i) message)"

text \<open>What every constructor establishes.\<close>

definition identity_ok :: "crates \<Rightarrow> device_identity \<Rightarrow> bool" where
  "identity_ok E i \<longleftrightarrow>
     valid_instance_id (id_instance_id i) \<and> trim (id_peer_name i) \<noteq> [] \<and>
     id_tls_certificate i \<noteq> [] \<and> id_tls_private_key i \<noteq> [] \<and> length (id_signing_key i) = 32 \<and>
     id_certificate_fingerprint i = hex_encode E (blake3_hash E (id_tls_certificate i))"

lemma from_key_material_Inr:
  "from_key_material E i p c k s = Inr x \<longleftrightarrow>
     (\<exists>cert key seed. base64_decode E c = Some cert \<and> cert \<noteq> [] \<and> base64_decode E k = Some key \<and>
        key \<noteq> [] \<and> base64_decode E s = Some seed \<and> length seed = 32 \<and>
        x = \<lparr>id_instance_id = i, id_peer_name = p, id_tls_certificate = cert,
             id_tls_private_key = key, id_signing_key = seed,
             id_certificate_fingerprint = hex_encode E (blake3_hash E cert)\<rparr>)"
  by (auto simp: from_key_material_def decode_nonempty_def result_simps decode_array_Inr)

lemma from_document_ok: "from_document E d = Inr i \<Longrightarrow> identity_ok E i"
  by (auto simp: from_document_def result_simps from_key_material_Inr identity_ok_def)

lemma validate_metadata_Inr:
  "validate_metadata fresh r p = Inr (i, n) \<longleftrightarrow>
     i = (case r of Some x \<Rightarrow> x | None \<Rightarrow> fresh) \<and> n = trim p \<and>
     valid_instance_id i \<and> n \<noteq> [] \<and> length n \<le> 255"
  by (auto simp: validate_metadata_def Let_def result_simps)

lemma from_private_export_ok:
  "from_private_export E fresh e r p = Inr i \<Longrightarrow> identity_ok E i \<and> length (id_peer_name i) \<le> 255"
  by (auto simp: from_private_export_def result_simps validate_metadata_Inr from_key_material_Inr
      identity_ok_def)

section \<open>Properties\<close>

text \<open>The signed bytes determine the whole offer except the signature itself: two offers with
  the same signing bytes have the same version, id, file name, kind, size, time, digest and
  sender.\<close>

theorem offer_signature_covers_every_field:
  assumes "json_roundtrip E" "offer_signing_bytes E a = offer_signing_bytes E b"
    and "to_signature a = to_signature b"
  shows "a = b"
proof -
  have "a\<lparr>to_signature := to_signature a\<rparr> = b\<lparr>to_signature := to_signature a\<rparr>"
    by (rule offer_signing_bytes_inj) (fact assms)+
  then show ?thesis
    using assms(3) by (cases a; cases b) simp
qed

definition sample_offer :: transfer_offer where
  "sample_offer = offer_new sample_crates (replicate 36 CHR ''0'') ''a.txt'' 3 5 (replicate 32 7)
     \<lparr>ds_instance_id = replicate 32 CHR ''a'', ds_name = ''desk'',
      ds_public_key = hex_text (replicate 32 9)\<rparr>"

theorem offer_signature_covers_every_field_witness:
  "sample_offer = sample_offer"
  by (rule offer_signature_covers_every_field [of sample_crates]) simp_all

lemma own_offer_validates:
  assumes "base64_roundtrip E" "ed25519_correct E" "blake3_sizes E" "hex_lower E"
    and "identity_ok E me" "length (id_peer_name me) \<le> 255"
    and "uuid_parses E tid" "length name \<le> 4096" "n \<le> MAX_FILE_SIZE" "0 \<le> modified"
    and "raw = offer_new E tid name n modified (blake3_hash E content) (identity_summary E me)"
  shows "offer_validate E (raw\<lparr>to_signature := sign_base64 E me (offer_signing_bytes E raw)\<rparr>)
           = Inr ()"
proof -
  have len: "length (id_signing_key me) = 32" using assms(5) by (simp add: identity_ok_def)
  have digest: "valid_blake3 (hex_encode E (blake3_hash E content))"
    using assms(3,4) by (simp add: valid_blake3_def hex_lower_def blake3_sizes_def)
  let ?o = "raw\<lparr>to_signature := sign_base64 E me (offer_signing_bytes E raw)\<rparr>"
  have "offer_fields_ok E ?o"
    using assms(5-10) digest
    by (simp add: assms(11) offer_fields_ok_def offer_new_def identity_summary_def identity_ok_def)
  moreover have "offer_signed E ?o"
  proof -
    have "to_sender ?o = identity_summary E me" by (simp add: assms(11) offer_new_def)
    then show ?thesis
      unfolding offer_signed_def
      using assms(1,2) len
      by (simp add: identity_summary_def public_key_base64_def sign_base64_def
          base64_roundtrip_def ed25519_correct_def)
  qed
  ultimately show ?thesis by (simp add: offer_validate_iff)
qed

text \<open>The sender's own offer is accepted by the receiver: an offer built by
  \<open>TransferOffer::new\<close> for an identity of the program and signed by it passes \<open>validate\<close>,
  whenever the file is not too large and its name not too long.\<close>

theorem own_offer_accepted:
  assumes "base64_roundtrip E" "ed25519_correct E" "blake3_sizes E" "hex_lower E"
    and "identity_ok E me" "length (id_peer_name me) \<le> 255"
    and "uuid_parses E tid" "length name \<le> 4096" "n \<le> MAX_FILE_SIZE" "0 \<le> modified"
    and "raw = offer_new E tid name n modified (blake3_hash E content) (identity_summary E me)"
  shows "offer_validate E (raw\<lparr>to_signature := sign_base64 E me (offer_signing_bytes E raw)\<rparr>)
           = Inr ()"
  using assms by (rule own_offer_validates)

definition sample_identity :: device_identity where
  "sample_identity =
     \<lparr>id_instance_id = replicate 32 CHR ''a'', id_peer_name = ''desk'', id_tls_certificate = [1, 2],
      id_tls_private_key = [3], id_signing_key = replicate 32 9,
      id_certificate_fingerprint = hex_encode sample_crates (blake3_hash sample_crates [1, 2])\<rparr>"

lemma sample_identity_ok [simp]: "identity_ok sample_crates sample_identity"
  by (simp add: identity_ok_def sample_identity_def valid_instance_id_def) code_simp

theorem own_offer_accepted_witness:
  "offer_validate sample_crates
     ((offer_new sample_crates (replicate 36 CHR ''0'') ''a.txt'' 3 5
         (blake3_hash sample_crates [1, 2, 3]) (identity_summary sample_crates sample_identity))
      \<lparr>to_signature := sign_base64 sample_crates sample_identity
         (offer_signing_bytes sample_crates
           (offer_new sample_crates (replicate 36 CHR ''0'') ''a.txt'' 3 5
             (blake3_hash sample_crates [1, 2, 3]) (identity_summary sample_crates sample_identity)))\<rparr>)
   = Inr ()"
  by (rule own_offer_accepted)
     (simp_all add: MAX_FILE_SIZE_def, simp_all add: sample_identity_def sample_crates_def
       is_lower_hex_def is_digit_def list_all_iff)

text \<open>A signed offer of the bytes 1, 2, 3, for the examples of the store.\<close>

definition sample_raw_offer :: transfer_offer where
  "sample_raw_offer = offer_new sample_crates (replicate 36 CHR ''0'') ''a.txt'' 3 5
     (blake3_hash sample_crates [1, 2, 3]) (identity_summary sample_crates sample_identity)"

definition sample_signed_offer :: transfer_offer where
  "sample_signed_offer = sample_raw_offer\<lparr>to_signature :=
     sign_base64 sample_crates sample_identity (offer_signing_bytes sample_crates sample_raw_offer)\<rparr>"

lemma sample_signed_offer_valid [simp]: "offer_validate sample_crates sample_signed_offer = Inr ()"
  unfolding sample_signed_offer_def
  by (rule own_offer_validates [OF _ _ _ _ _ _ _ _ _ _ sample_raw_offer_def])
     (simp_all add: MAX_FILE_SIZE_def, simp_all add: sample_identity_def sample_crates_def
       is_lower_hex_def is_digit_def list_all_iff)

text \<open>An exported private identity imports back to the same device: the private export, with
  the same instance id and name, restores the certificate, its key, the signing key and the
  fingerprint.\<close>

theorem private_export_roundtrip:
  assumes "json_roundtrip E" "base64_roundtrip E" "identity_ok E me"
    and "base64_plain E" "trim (id_peer_name me) = id_peer_name me" "length (id_peer_name me) \<le> 255"
  shows "from_private_export E fresh (export_private E me) (Some (id_instance_id me))
           (id_peer_name me) = Inr me"
proof -
  have v: "validate_metadata fresh (Some (id_instance_id me)) (id_peer_name me) =
      Inr (id_instance_id me, id_peer_name me)"
    using assms(3,5,6) by (simp add: validate_metadata_Inr identity_ok_def)
  have "PRIVATE_IDENTITY_FORMAT_VERSION \<le> u16_max"
    by (simp add: PRIVATE_IDENTITY_FORMAT_VERSION_def u16_max_def)
  then show ?thesis
    using assms(1-4)
    by (simp add: from_private_export_def v export_private_def [of E me] json_roundtrip_def
        base64_roundtrip_def base64_plain_def from_slice_def to_vec_def as_private_document_json
        from_key_material_Inr identity_ok_def)
qed

theorem private_export_roundtrip_witness:
  "from_private_export sample_crates ''0'' (export_private sample_crates sample_identity)
     (Some (id_instance_id sample_identity)) (id_peer_name sample_identity) = Inr sample_identity"
proof -
  have "trim ''desk'' = ''desk''"
    by (rule trim_disjoint) (auto simp: ws_chars_def ws_encodings_def)
  moreover have "id_peer_name sample_identity = ''desk''" by (simp add: sample_identity_def)
  ultimately show ?thesis by (intro private_export_roundtrip) simp_all
qed

end
