(* ===== verification/Auth.thy ===== *)
theory Auth
  imports Offer "HOL-Library.Monad_Syntax"
begin

text \<open>
  Authentication of a LAN connection with the shared secret, and peer probes (\<open>protocol.rs\<close>):
  hello, challenge and authenticated request with their keyed digest, the signed probe
  response, and the canonical form of a capability list. The random nonces are arguments.
\<close>

section \<open>Hello and challenge\<close>

record authentication_hello =
  ah_type :: string
  ah_protocol :: nat
  ah_nonce :: string

record authentication_challenge =
  ac_type :: string
  ac_protocol :: nat
  ac_client_nonce :: string
  ac_nonce :: string

record authenticated_request =
  ar_type :: string
  ar_protocol :: nat
  ar_client_nonce :: string
  ar_challenge :: string
  ar_payload :: jvalue
  ar_mac :: string

definition AUTH_HELLO_TYPE :: string where "AUTH_HELLO_TYPE = ''auth_hello''"
definition AUTH_CHALLENGE_TYPE :: string where "AUTH_CHALLENGE_TYPE = ''auth_challenge''"
definition AUTHENTICATED_REQUEST_TYPE :: string where
  "AUTHENTICATED_REQUEST_TYPE = ''authenticated_request''"
definition AUTH_REJECTED_TYPE :: string where "AUTH_REJECTED_TYPE = ''auth_rejected''"
definition PEER_PROBE_REQUEST_TYPE :: string where "PEER_PROBE_REQUEST_TYPE = ''peer_probe''"
definition PEER_PROBE_RESPONSE_TYPE :: string where
  "PEER_PROBE_RESPONSE_TYPE = ''peer_probe_response''"
definition AUTH_KEY_CONTEXT :: string where
  "AUTH_KEY_CONTEXT = ''com.rexvane.inkhole.quic.shared-secret.v2''"
definition AUTH_REQUEST_DOMAIN :: bytes where
  "AUTH_REQUEST_DOMAIN = str_bytes (''inkhole/quic/authenticated-request/v2'' @ [CHR 0x00])"
definition PROBE_SIGNATURE_DOMAIN :: bytes where
  "PROBE_SIGNATURE_DOMAIN = str_bytes (''inkhole/quic/peer-probe/v2'' @ [CHR 0x00])"

definition authentication_failed :: core_error where
  "authentication_failed = Protocol ''shared secret authentication failed''"

definition hello_new :: "crates \<Rightarrow> bytes \<Rightarrow> authentication_hello" where
  "hello_new E nonce =
     \<lparr>ah_type = AUTH_HELLO_TYPE, ah_protocol = QUIC_PROTOCOL_VERSION, ah_nonce = hex_encode E nonce\<rparr>"

definition hello_validate :: "authentication_hello \<Rightarrow> unit result" where
  "hello_validate h =
     reject_if (ah_type h \<noteq> AUTH_HELLO_TYPE \<or> ah_protocol h \<noteq> QUIC_PROTOCOL_VERSION \<or>
                \<not> valid_hex_nonce (ah_nonce h) AUTH_NONCE_BYTES)
       authentication_failed (Inr ())"

definition challenge_new ::
  "crates \<Rightarrow> bytes \<Rightarrow> authentication_hello \<Rightarrow> authentication_challenge result" where
  "challenge_new E nonce h =
     bind_r (hello_validate h) (\<lambda>_.
     Inr \<lparr>ac_type = AUTH_CHALLENGE_TYPE, ac_protocol = QUIC_PROTOCOL_VERSION,
          ac_client_nonce = ah_nonce h, ac_nonce = hex_encode E nonce\<rparr>)"

definition challenge_validate_for ::
  "authentication_challenge \<Rightarrow> authentication_hello \<Rightarrow> unit result" where
  "challenge_validate_for c h =
     bind_r (hello_validate h) (\<lambda>_.
     reject_if (ac_type c \<noteq> AUTH_CHALLENGE_TYPE) authentication_failed
     (reject_if (ac_protocol c \<noteq> QUIC_PROTOCOL_VERSION)
       (Protocol (''unsupported QUIC authentication protocol version '' @ dec (ac_protocol c)))
     (reject_if (ac_client_nonce c \<noteq> ah_nonce h \<or>
                 \<not> valid_hex_nonce (ac_client_nonce c) AUTH_NONCE_BYTES \<or>
                 \<not> valid_hex_nonce (ac_nonce c) AUTH_NONCE_BYTES)
       authentication_failed (Inr ()))))"

definition challenge_validate :: "authentication_challenge \<Rightarrow> unit result" where
  "challenge_validate c =
     reject_if (ac_type c \<noteq> AUTH_CHALLENGE_TYPE \<or> ac_protocol c \<noteq> QUIC_PROTOCOL_VERSION \<or>
                \<not> valid_hex_nonce (ac_client_nonce c) AUTH_NONCE_BYTES \<or>
                \<not> valid_hex_nonce (ac_nonce c) AUTH_NONCE_BYTES)
       authentication_failed (Inr ())"

section \<open>Authenticated requests\<close>

text \<open>\<open>AuthenticatableRequest\<close>, the structure the digest covers.\<close>

definition authenticatable_json :: "nat \<Rightarrow> string \<Rightarrow> string \<Rightarrow> jvalue \<Rightarrow> jvalue" where
  "authenticatable_json protocol client_nonce challenge payload =
     JObj [(''protocol'', jnat protocol), (''client_nonce'', JStr client_nonce),
           (''challenge'', JStr challenge), (''payload'', payload)]"

definition authentication_key :: "crates \<Rightarrow> string \<Rightarrow> bytes" where
  "authentication_key E shared_secret = blake3_derive_key E AUTH_KEY_CONTEXT (str_bytes shared_secret)"

definition authenticated_message :: "crates \<Rightarrow> nat \<Rightarrow> string \<Rightarrow> string \<Rightarrow> jvalue \<Rightarrow> bytes" where
  "authenticated_message E protocol client_nonce challenge payload =
     AUTH_REQUEST_DOMAIN @ to_vec E (authenticatable_json protocol client_nonce challenge payload)"

definition authentication_mac ::
  "crates \<Rightarrow> nat \<Rightarrow> string \<Rightarrow> string \<Rightarrow> jvalue \<Rightarrow> string \<Rightarrow> bytes" where
  "authentication_mac E protocol client_nonce challenge payload shared_secret =
     blake3_keyed_hash E (authentication_key E shared_secret)
       (authenticated_message E protocol client_nonce challenge payload)"

text \<open>\<open>constant_time_eq\<close>: the fold that touches every byte of both arrays.\<close>

definition constant_time_eq :: "bytes \<Rightarrow> bytes \<Rightarrow> bool" where
  "constant_time_eq left right =
     (foldl (\<lambda>difference (l, r). difference OR (l XOR r)) 0 (zip left right) = 0)"

definition request_new ::
  "crates \<Rightarrow> authentication_challenge \<Rightarrow> jvalue \<Rightarrow> string \<Rightarrow> authenticated_request result" where
  "request_new E c payload shared_secret =
     bind_r (challenge_validate c) (\<lambda>_.
     Inr \<lparr>ar_type = AUTHENTICATED_REQUEST_TYPE, ar_protocol = ac_protocol c,
          ar_client_nonce = ac_client_nonce c, ar_challenge = ac_nonce c, ar_payload = payload,
          ar_mac = hex_encode E (authentication_mac E (ac_protocol c) (ac_client_nonce c)
                     (ac_nonce c) payload shared_secret)\<rparr>)"

definition authenticate ::
  "crates \<Rightarrow> authenticated_request \<Rightarrow> authentication_challenge \<Rightarrow> string \<Rightarrow> jvalue result" where
  "authenticate E r c shared_secret =
     bind_r (challenge_validate c) (\<lambda>_.
     reject_if (ar_type r \<noteq> AUTHENTICATED_REQUEST_TYPE \<or> ar_protocol r \<noteq> ac_protocol c \<or>
                ar_client_nonce r \<noteq> ac_client_nonce c \<or> ar_challenge r \<noteq> ac_nonce c)
       authentication_failed
     (bind_r (ok_or (hex_decode E (ar_mac r)) authentication_failed) (\<lambda>received.
      reject_if (length received \<noteq> 32) authentication_failed
      (let expected = authentication_mac E (ar_protocol r) (ar_client_nonce r) (ar_challenge r)
                        (ar_payload r) shared_secret
       in reject_if (\<not> constant_time_eq received expected) authentication_failed
            (Inr (ar_payload r))))))"

lemma or_eq_0_iff: "(a OR b :: 'a :: len word) = 0 \<longleftrightarrow> a = 0 \<and> b = 0"
  by (auto simp: bit_eq_iff bit_simps)

lemma fold_or_xor_eq_0:
  "foldl (\<lambda>d (l, r). d OR (l XOR r)) a (zip xs ys) = 0 \<longleftrightarrow>
     a = 0 \<and> (\<forall>(l, r) \<in> set (zip xs ys). l = (r :: 'a :: len word))"
proof (induction xs arbitrary: ys a)
  case Nil
  then show ?case by simp
next
  case (Cons x xs)
  have xor: "x XOR y = 0 \<longleftrightarrow> x = y" for y by (auto simp: bit_eq_iff bit_simps)
  show ?case by (cases ys) (auto simp: Cons or_eq_0_iff xor)
qed

lemma zip_all_eq:
  "length xs = length ys \<Longrightarrow> (\<forall>(l, r) \<in> set (zip xs ys). l = r) \<longleftrightarrow> xs = ys"
  by (induction xs ys rule: list_induct2) auto

lemma constant_time_eq_iff:
  "length xs = length ys \<Longrightarrow> constant_time_eq xs ys \<longleftrightarrow> xs = ys"
  by (simp add: constant_time_eq_def fold_or_xor_eq_0 zip_all_eq)

lemma authenticate_Inr_iff:
  assumes "blake3_sizes E"
  shows "authenticate E r c secret = Inr v \<longleftrightarrow>
     challenge_validate c = Inr () \<and> ar_type r = AUTHENTICATED_REQUEST_TYPE \<and>
     ar_protocol r = ac_protocol c \<and> ar_client_nonce r = ac_client_nonce c \<and>
     ar_challenge r = ac_nonce c \<and> v = ar_payload r \<and>
     hex_decode E (ar_mac r) =
       Some (authentication_mac E (ac_protocol c) (ac_client_nonce c) (ac_nonce c) v secret)"
proof -
  have len: "length (authentication_mac E a b d e f) = 32" for a b d e f
    using assms by (simp add: blake3_sizes_def authentication_mac_def)
  have eq: "constant_time_eq x (authentication_mac E a b d e f) \<longleftrightarrow>
      x = authentication_mac E a b d e f" if "length x = 32" for x a b d e f
    using that len by (simp add: constant_time_eq_iff)
  show ?thesis
    by (auto simp: authenticate_def result_simps Let_def eq len)
qed

lemma authenticatable_json_inj [simp]:
  "authenticatable_json p n c v = authenticatable_json p' n' c' v' \<longleftrightarrow>
     p = p' \<and> n = n' \<and> c = c' \<and> v = v'"
  by (simp add: authenticatable_json_def)

lemma authenticated_message_inj:
  "json_roundtrip E \<Longrightarrow>
     authenticated_message E p n c v = authenticated_message E p' n' c' v' \<longleftrightarrow>
       p = p' \<and> n = n' \<and> c = c' \<and> v = v'"
  by (auto simp: authenticated_message_def to_vec_def dest: json_print_inj)

section \<open>Capability lists\<close>

text \<open>\<open>Vec::dedup\<close>: drop every element equal to the one kept before it.\<close>

fun trim_capabilities :: "string list \<Rightarrow> string list result" where
  "trim_capabilities [] = Inr []"
| "trim_capabilities (c # cs) =
     reject_if (trim c = [] \<or> MAX_IDENTITY_FIELD < length (trim c))
       (InvalidIdentity ''invalid peer capability'')
     (bind_r (trim_capabilities cs) (\<lambda>ts. Inr (trim c # ts)))"

definition normalize_capabilities :: "string list \<Rightarrow> string list result" where
  "normalize_capabilities capabilities =
     reject_if (MAX_CAPABILITIES < length capabilities)
       (InvalidIdentity ''too many peer capabilities'')
     (bind_r (trim_capabilities capabilities) (\<lambda>normalized. Inr (remdups_adj (sort normalized))))"

definition capability_ok :: "string \<Rightarrow> bool" where
  "capability_ok c \<longleftrightarrow> trim c \<noteq> [] \<and> length (trim c) \<le> MAX_IDENTITY_FIELD"

lemma trim_capabilities_Inr:
  "trim_capabilities cs = Inr ts \<longleftrightarrow> (\<forall>c \<in> set cs. capability_ok c) \<and> ts = map trim cs"
  by (induction cs arbitrary: ts) (auto simp: result_simps capability_ok_def)

lemma remdups_adj_sorted_strict:
  "sorted (xs :: 'a :: linorder list) \<Longrightarrow> sorted_wrt (<) (remdups_adj xs)"
  by (induction xs rule: remdups_adj.induct) (auto simp: less_le)

lemma sorted_remdups_adj_sort: "sorted_wrt (<) (remdups_adj (sort (xs :: 'a :: linorder list)))"
  by (simp add: remdups_adj_sorted_strict)

lemma remdups_adj_sort_id:
  "sorted_wrt (<) (xs :: 'a :: linorder list) \<Longrightarrow> remdups_adj (sort xs) = xs"
  by (simp add: strict_sorted_iff sorted_sort_id remdups_adj_distinct)

lemma normalize_capabilities_Inr:
  "normalize_capabilities cs = Inr ns \<longleftrightarrow>
     length cs \<le> MAX_CAPABILITIES \<and> (\<forall>c \<in> set cs. capability_ok c) \<and>
     ns = remdups_adj (sort (map trim cs))"
  by (auto simp: normalize_capabilities_def result_simps trim_capabilities_Inr not_less)

definition canonical_capabilities :: "string list \<Rightarrow> bool" where
  "canonical_capabilities cs \<longleftrightarrow>
     length cs \<le> MAX_CAPABILITIES \<and> sorted_wrt (<) cs \<and>
     (\<forall>c \<in> set cs. trim c = c \<and> capability_ok c)"

lemma length_remdups_adj_le: "length (remdups_adj xs) \<le> length xs"
  by (induction xs rule: remdups_adj.induct) auto

lemma normalize_capabilities_canonical:
  "normalize_capabilities cs = Inr ns \<Longrightarrow> canonical_capabilities ns"
proof -
  assume "normalize_capabilities cs = Inr ns"
  then have len: "length cs \<le> MAX_CAPABILITIES" and ok: "\<forall>c \<in> set cs. capability_ok c"
    and ns: "ns = remdups_adj (sort (map trim cs))"
    by (simp_all add: normalize_capabilities_Inr)
  have "length ns \<le> length cs"
    using length_remdups_adj_le [of "sort (map trim cs)"] by (simp add: ns)
  with len ok show "canonical_capabilities ns"
    by (auto simp: canonical_capabilities_def ns sorted_remdups_adj_sort capability_ok_def)
qed

lemma normalize_capabilities_id_iff:
  "normalize_capabilities cs = Inr cs \<longleftrightarrow> canonical_capabilities cs"
proof
  assume "normalize_capabilities cs = Inr cs"
  then show "canonical_capabilities cs" by (rule normalize_capabilities_canonical)
next
  assume c: "canonical_capabilities cs"
  then have "map trim cs = cs"
    by (auto simp: canonical_capabilities_def intro: map_idI)
  with c show "normalize_capabilities cs = Inr cs"
    by (auto simp: normalize_capabilities_Inr canonical_capabilities_def remdups_adj_sort_id)
qed

section \<open>Peer probes\<close>

record peer_probe_request =
  pp_type :: string
  pp_protocol :: nat
  pp_nonce :: string

record peer_probe_response =
  pr_type :: string
  pr_protocol :: nat
  pr_nonce :: string
  pr_instance_id :: string
  pr_peer_name :: string
  pr_capabilities :: "string list"
  pr_public_key :: string
  pr_certificate_fingerprint :: string
  pr_signature :: string

definition probe_new :: "crates \<Rightarrow> bytes \<Rightarrow> peer_probe_request" where
  "probe_new E nonce =
     \<lparr>pp_type = PEER_PROBE_REQUEST_TYPE, pp_protocol = LAN_DISCOVERY_PROTOCOL_VERSION,
      pp_nonce = hex_encode E nonce\<rparr>"

definition probe_request_validate :: "peer_probe_request \<Rightarrow> unit result" where
  "probe_request_validate p =
     reject_if (pp_type p \<noteq> PEER_PROBE_REQUEST_TYPE)
       (InvalidIdentity ''invalid peer probe frame type'')
     (reject_if (pp_protocol p \<noteq> LAN_DISCOVERY_PROTOCOL_VERSION)
       (InvalidIdentity (''unsupported peer probe protocol version '' @ dec (pp_protocol p)))
     (reject_if (\<not> valid_hex_nonce (pp_nonce p) PROBE_NONCE_BYTES)
       (InvalidIdentity ''invalid peer probe nonce'') (Inr ())))"

definition probe_response_unsigned ::
  "peer_probe_request \<Rightarrow> device_summary \<Rightarrow> string \<Rightarrow> string list \<Rightarrow> peer_probe_response result" where
  "probe_response_unsigned p identity certificate_fingerprint capabilities =
     bind_r (probe_request_validate p) (\<lambda>_.
     bind_r (normalize_capabilities capabilities) (\<lambda>caps.
     Inr \<lparr>pr_type = PEER_PROBE_RESPONSE_TYPE, pr_protocol = pp_protocol p, pr_nonce = pp_nonce p,
          pr_instance_id = ds_instance_id identity, pr_peer_name = ds_name identity,
          pr_capabilities = caps, pr_public_key = ds_public_key identity,
          pr_certificate_fingerprint = certificate_fingerprint, pr_signature = []\<rparr>))"

definition signable_probe_json :: "peer_probe_response \<Rightarrow> jvalue" where
  "signable_probe_json r =
     JObj [(''protocol'', jnat (pr_protocol r)), (''nonce'', JStr (pr_nonce r)),
           (''instance_id'', JStr (pr_instance_id r)), (''peer_name'', JStr (pr_peer_name r)),
           (''capabilities'', jstrs (pr_capabilities r)), (''public_key'', JStr (pr_public_key r)),
           (''certificate_fingerprint'', JStr (pr_certificate_fingerprint r))]"

definition probe_signing_bytes :: "crates \<Rightarrow> peer_probe_response \<Rightarrow> bytes" where
  "probe_signing_bytes E r = PROBE_SIGNATURE_DOMAIN @ to_vec E (signable_probe_json r)"

definition probe_response_validate ::
  "crates \<Rightarrow> peer_probe_response \<Rightarrow> peer_probe_request \<Rightarrow> string option \<Rightarrow> string \<Rightarrow> unit result" where
  "probe_response_validate E r p expected_instance_id expected_fingerprint =
     bind_r (probe_request_validate p) (\<lambda>_.
     reject_if (pr_type r \<noteq> PEER_PROBE_RESPONSE_TYPE)
       (InvalidIdentity ''invalid peer probe response type'')
     (reject_if (pr_protocol r \<noteq> pp_protocol p \<or> pr_nonce r \<noteq> pp_nonce p)
       (InvalidIdentity ''peer probe challenge mismatch'')
     (reject_if (\<not> valid_instance_id (pr_instance_id r))
       (InvalidIdentity ''invalid peer instance id'')
     (reject_if (case expected_instance_id of None \<Rightarrow> False
                 | Some expected \<Rightarrow> \<not> valid_instance_id expected \<or> pr_instance_id r \<noteq> expected)
       (InvalidIdentity ''peer instance id mismatch'')
     (reject_if (trim (pr_peer_name r) \<noteq> pr_peer_name r \<or> pr_peer_name r = [] \<or>
                 MAX_IDENTITY_FIELD < length (pr_peer_name r))
       (InvalidIdentity ''invalid peer name'')
     (bind_r (normalize_capabilities (pr_capabilities r)) (\<lambda>caps.
      reject_if (caps \<noteq> pr_capabilities r)
        (InvalidIdentity ''peer capabilities are not canonical'')
      (reject_if (\<not> valid_blake3 (pr_certificate_fingerprint r) \<or>
                  \<not> valid_blake3 expected_fingerprint \<or>
                  pr_certificate_fingerprint r \<noteq> expected_fingerprint)
        FingerprintMismatch
      (bind_r (decode_array E 32 (InvalidIdentity ''invalid peer public key'') (pr_public_key r))
        (\<lambda>public_key.
       bind_r (decode_array E 64 (InvalidIdentity ''invalid peer probe signature'')
                 (pr_signature r)) (\<lambda>signature.
       reject_if (\<not> ed25519_point_ok E public_key) (InvalidIdentity ''invalid peer public key'')
       (reject_if (\<not> ed25519_verify E public_key (probe_signing_bytes E r) signature)
         (InvalidIdentity ''peer probe signature verification failed'')
       (Inr ())))))))))))))"

definition probe_signed :: "crates \<Rightarrow> peer_probe_response \<Rightarrow> bool" where
  "probe_signed E r \<longleftrightarrow>
     (\<exists>key sig. base64_decode E (pr_public_key r) = Some key \<and> length key = 32 \<and>
        base64_decode E (pr_signature r) = Some sig \<and> length sig = 64 \<and>
        ed25519_point_ok E key \<and> ed25519_verify E key (probe_signing_bytes E r) sig)"

lemma probe_response_validate_iff:
  "probe_response_validate E r p ex fp = Inr () \<longleftrightarrow>
     probe_request_validate p = Inr () \<and> pr_type r = PEER_PROBE_RESPONSE_TYPE \<and>
     pr_protocol r = pp_protocol p \<and> pr_nonce r = pp_nonce p \<and>
     valid_instance_id (pr_instance_id r) \<and>
     (case ex of None \<Rightarrow> True | Some i \<Rightarrow> pr_instance_id r = i) \<and>
     trim (pr_peer_name r) = pr_peer_name r \<and> pr_peer_name r \<noteq> [] \<and>
     length (pr_peer_name r) \<le> MAX_IDENTITY_FIELD \<and>
     canonical_capabilities (pr_capabilities r) \<and>
     valid_blake3 fp \<and> pr_certificate_fingerprint r = fp \<and> probe_signed E r"
  by (auto simp: probe_response_validate_def result_simps decode_array_Inr probe_signed_def
      normalize_capabilities_id_iff [symmetric] not_less split: option.splits)

lemma signable_probe_json_inj:
  "signable_probe_json a = signable_probe_json b \<longleftrightarrow>
     a\<lparr>pr_type := t, pr_signature := s\<rparr> = b\<lparr>pr_type := t, pr_signature := s\<rparr>"
  by (cases a; cases b) (auto simp: signable_probe_json_def)

lemma probe_signing_bytes_inj:
  assumes "json_roundtrip E" "probe_signing_bytes E a = probe_signing_bytes E b"
  shows "a\<lparr>pr_type := t, pr_signature := s\<rparr> = b\<lparr>pr_type := t, pr_signature := s\<rparr>"
proof -
  from assms(2) have "json_print E (signable_probe_json a) = json_print E (signable_probe_json b)"
    by (simp add: probe_signing_bytes_def to_vec_def)
  from json_print_inj [OF assms(1) this] show ?thesis
    by (simp add: signable_probe_json_inj [of a b s t])
qed

section \<open>Properties\<close>

lemma challenge_eqI:
  assumes "challenge_validate c = Inr ()" "challenge_validate c' = Inr ()"
    and "ac_client_nonce c = ac_client_nonce c'" "ac_nonce c = ac_nonce c'"
  shows "c = c'"
  using assms by (cases c; cases c') (auto simp: challenge_validate_def result_simps)

definition sample_challenge :: authentication_challenge where
  "sample_challenge =
     \<lparr>ac_type = AUTH_CHALLENGE_TYPE, ac_protocol = 2, ac_client_nonce = replicate 64 CHR ''0'',
      ac_nonce = replicate 64 CHR ''1''\<rparr>"

lemma sample_challenge_valid [simp]: "challenge_validate sample_challenge = Inr ()"
  by (simp add: sample_challenge_def challenge_validate_def reject_if_def valid_hex_nonce_def
      AUTH_NONCE_BYTES_def QUIC_PROTOCOL_VERSION_def list_all_iff is_lower_hex_def is_digit_def)

text \<open>C12: The server accepts a request exactly when it answers its own fresh challenge (same frame
  type, version and both nonces) and carries the keyed BLAKE3 digest of those nonces and the
  payload under the shared secret; what it returns is that payload.\<close>

theorem authenticate_accepts_iff:
  assumes "blake3_sizes E"
  shows "authenticate E r c secret = Inr v \<longleftrightarrow>
     challenge_validate c = Inr () \<and> ar_type r = AUTHENTICATED_REQUEST_TYPE \<and>
     ar_protocol r = ac_protocol c \<and> ar_client_nonce r = ac_client_nonce c \<and>
     ar_challenge r = ac_nonce c \<and> v = ar_payload r \<and>
     hex_decode E (ar_mac r) =
       Some (authentication_mac E (ac_protocol c) (ac_client_nonce c) (ac_nonce c) v secret)"
  by (rule authenticate_Inr_iff [OF assms])

theorem authenticate_accepts_iff_witness:
  "authenticate sample_crates
     \<lparr>ar_type = AUTHENTICATED_REQUEST_TYPE, ar_protocol = 2,
      ar_client_nonce = replicate 64 CHR ''0'', ar_challenge = replicate 64 CHR ''1'',
      ar_payload = JNull,
      ar_mac = hex_text (authentication_mac sample_crates 2 (replicate 64 CHR ''0'')
                 (replicate 64 CHR ''1'') JNull ''s'')\<rparr>
     sample_challenge ''s'' = Inr JNull"
  by (subst authenticate_accepts_iff) (simp_all, simp add: sample_challenge_def sample_crates_def)

text \<open>A client that knows the shared secret is let in: the request it builds for the challenge
  it received is accepted with the same secret, and the server gets the payload unchanged.\<close>

theorem authentication_completes:
  assumes "blake3_sizes E" "hex_roundtrip E"
    and "hello_validate h = Inr ()" "length nonce = AUTH_NONCE_BYTES" "hex_lower E"
  shows "\<exists>c r. challenge_new E nonce h = Inr c \<and> challenge_validate_for c h = Inr () \<and>
           request_new E c payload secret = Inr r \<and> authenticate E r c secret = Inr payload"
proof -
  let ?c = "\<lparr>ac_type = AUTH_CHALLENGE_TYPE, ac_protocol = QUIC_PROTOCOL_VERSION,
             ac_client_nonce = ah_nonce h, ac_nonce = hex_encode E nonce\<rparr>"
  have nonces: "valid_hex_nonce (ah_nonce h) AUTH_NONCE_BYTES"
    "valid_hex_nonce (hex_encode E nonce) AUTH_NONCE_BYTES"
    using assms(3-5) by (auto simp: hello_validate_def result_simps valid_hex_nonce_def hex_lower_def)
  then have c: "challenge_validate ?c = Inr ()" by (simp add: challenge_validate_def)
  let ?r = "\<lparr>ar_type = AUTHENTICATED_REQUEST_TYPE, ar_protocol = ac_protocol ?c,
     ar_client_nonce = ac_client_nonce ?c, ar_challenge = ac_nonce ?c, ar_payload = payload,
     ar_mac = hex_encode E (authentication_mac E (ac_protocol ?c) (ac_client_nonce ?c)
                (ac_nonce ?c) payload secret)\<rparr>"
  have "challenge_new E nonce h = Inr ?c" using assms(3) by (simp add: challenge_new_def)
  moreover have "challenge_validate_for ?c h = Inr ()"
    using assms(3) nonces by (simp add: challenge_validate_for_def)
  moreover have "request_new E ?c payload secret = Inr ?r"
    using c by (simp add: request_new_def)
  moreover have "authenticate E ?r ?c secret = Inr payload"
    using assms(2) c by (simp add: authenticate_Inr_iff [OF assms(1)] hex_roundtrip_def)
  ultimately show ?thesis by blast
qed

theorem authentication_completes_witness:
  "\<exists>c r. challenge_new sample_crates (replicate 32 5) (hello_new sample_crates (replicate 32 1)) = Inr c \<and>
     challenge_validate_for c (hello_new sample_crates (replicate 32 1)) = Inr () \<and>
     request_new sample_crates c JNull ''s'' = Inr r \<and> authenticate sample_crates r c ''s'' = Inr JNull"
  by (rule authentication_completes)
     (simp_all add: AUTH_NONCE_BYTES_def hello_validate_def hello_new_def valid_hex_nonce_def,
      simp add: sample_crates_def lower_hex_text)

text \<open>C13: One digest authenticates one request: if two accepted requests carry the same digest under
  the same secret, they answer the same challenge and have the same payload, unless the two messages
  that were authenticated differ and have the same keyed BLAKE3 digest. So a recorded request cannot
  be replayed against another challenge, and its payload cannot be exchanged.\<close>

theorem no_replay_no_tampering:
  assumes "blake3_sizes E" "json_roundtrip E"
    and "authenticate E r c secret = Inr v" "authenticate E r' c' secret = Inr v'"
    and "ar_mac r = ar_mac r'"
  shows "(c = c' \<and> v = v') \<or>
     (let m = authenticated_message E (ac_protocol c) (ac_client_nonce c) (ac_nonce c) v;
          m' = authenticated_message E (ac_protocol c') (ac_client_nonce c') (ac_nonce c') v' in
      m \<noteq> m' \<and> blake3_keyed_hash E (authentication_key E secret) m =
        blake3_keyed_hash E (authentication_key E secret) m')"
proof -
  let ?m = "authenticated_message E (ac_protocol c) (ac_client_nonce c) (ac_nonce c) v"
  let ?m' = "authenticated_message E (ac_protocol c') (ac_client_nonce c') (ac_nonce c') v'"
  note a = assms(3,4) [unfolded authenticate_Inr_iff [OF assms(1)]]
  from a assms(5) have "blake3_keyed_hash E (authentication_key E secret) ?m =
      blake3_keyed_hash E (authentication_key E secret) ?m'"
    by (simp add: authentication_mac_def)
  moreover have "c = c' \<and> v = v'" if "?m = ?m'"
    using that a challenge_eqI [of c c'] by (simp add: authenticated_message_inj [OF assms(2)])
  ultimately show ?thesis unfolding Let_def by blast
qed

theorem no_replay_no_tampering_witness:
  "\<exists>r. authenticate sample_crates r sample_challenge ''s'' = Inr JNull \<and>
     (\<forall>c v. authenticate sample_crates r c ''s'' = Inr v \<longrightarrow> c = sample_challenge \<and> v = JNull \<or>
        authenticated_message sample_crates (ac_protocol c) (ac_client_nonce c) (ac_nonce c) v \<noteq>
        authenticated_message sample_crates (ac_protocol sample_challenge) (ac_client_nonce sample_challenge)
          (ac_nonce sample_challenge) JNull)"
proof -
  let ?r = "\<lparr>ar_type = AUTHENTICATED_REQUEST_TYPE, ar_protocol = 2,
      ar_client_nonce = replicate 64 CHR ''0'', ar_challenge = replicate 64 CHR ''1'',
      ar_payload = JNull,
      ar_mac = hex_text (authentication_mac sample_crates 2 (replicate 64 CHR ''0'')
                 (replicate 64 CHR ''1'') JNull ''s'')\<rparr>"
  have a: "authenticate sample_crates ?r sample_challenge ''s'' = Inr JNull"
    by (subst authenticate_Inr_iff) (simp_all, simp add: sample_challenge_def sample_crates_def)
  have "c = sample_challenge \<and> v = JNull \<or>
        authenticated_message sample_crates (ac_protocol c) (ac_client_nonce c) (ac_nonce c) v \<noteq>
        authenticated_message sample_crates (ac_protocol sample_challenge) (ac_client_nonce sample_challenge)
          (ac_nonce sample_challenge) JNull"
    if b: "authenticate sample_crates ?r c ''s'' = Inr v" for c v
    using no_replay_no_tampering [OF _ _ b a] by (auto simp: Let_def)
  with a show ?thesis by blast
qed

text \<open>The constant-time comparison of digests is equality: folding the exclusive-or of every
  byte pair into one byte gives zero exactly for equal arrays.\<close>

theorem constant_time_eq_is_equality:
  assumes "length left = 32" "length right = 32"
  shows "constant_time_eq left right \<longleftrightarrow> left = right"
  using assms by (simp add: constant_time_eq_iff)

theorem constant_time_eq_is_equality_witness:
  "\<not> constant_time_eq (replicate 32 1) (replicate 32 2)"
  by (subst constant_time_eq_is_equality) simp_all

text \<open>A probe answer that is accepted answers this probe's nonce, names the expected device and
  certificate, and is signed by the key it names over all of that; the accepted capability
  list is sorted, without duplicates and trimmed.\<close>

theorem probe_answer_accepted_iff:
  "probe_response_validate E r p ex fp = Inr () \<longleftrightarrow>
     probe_request_validate p = Inr () \<and> pr_type r = PEER_PROBE_RESPONSE_TYPE \<and>
     pr_protocol r = pp_protocol p \<and> pr_nonce r = pp_nonce p \<and>
     valid_instance_id (pr_instance_id r) \<and>
     (case ex of None \<Rightarrow> True | Some i \<Rightarrow> pr_instance_id r = i) \<and>
     trim (pr_peer_name r) = pr_peer_name r \<and> pr_peer_name r \<noteq> [] \<and>
     length (pr_peer_name r) \<le> MAX_IDENTITY_FIELD \<and>
     canonical_capabilities (pr_capabilities r) \<and>
     valid_blake3 fp \<and> pr_certificate_fingerprint r = fp \<and> probe_signed E r"
  by (rule probe_response_validate_iff)

text \<open>An honest device answers a probe successfully: the response it builds from its identity
  and signs is accepted by the prober that knows its certificate fingerprint.\<close>

theorem honest_probe_answer_accepted:
  assumes "base64_roundtrip E" "ed25519_correct E" "blake3_sizes E" "hex_lower E"
    and "identity_ok E me" "trim (id_peer_name me) = id_peer_name me"
    and "length (id_peer_name me) \<le> MAX_IDENTITY_FIELD"
    and "probe_response_unsigned p (identity_summary E me) (id_certificate_fingerprint me) caps = Inr u"
  shows "probe_response_validate E (u\<lparr>pr_signature := sign_base64 E me (probe_signing_bytes E u)\<rparr>) p
           (Some (id_instance_id me)) (id_certificate_fingerprint me) = Inr ()"
proof -
  from assms(8) obtain ns where ns: "normalize_capabilities caps = Inr ns"
    and p: "probe_request_validate p = Inr ()"
    and u: "u = \<lparr>pr_type = PEER_PROBE_RESPONSE_TYPE, pr_protocol = pp_protocol p,
          pr_nonce = pp_nonce p, pr_instance_id = id_instance_id me,
          pr_peer_name = id_peer_name me, pr_capabilities = ns,
          pr_public_key = public_key_base64 E me,
          pr_certificate_fingerprint = id_certificate_fingerprint me, pr_signature = []\<rparr>"
    by (auto simp: probe_response_unsigned_def result_simps identity_summary_def)
  have fp: "valid_blake3 (id_certificate_fingerprint me)"
    using assms(3-5) by (simp add: valid_blake3_def identity_ok_def hex_lower_def blake3_sizes_def)
  have name: "id_peer_name me \<noteq> []" and len: "length (id_signing_key me) = 32"
    and iid: "valid_instance_id (id_instance_id me)"
    using assms(5,6) by (auto simp: identity_ok_def)
  let ?r = "u\<lparr>pr_signature := sign_base64 E me (probe_signing_bytes E u)\<rparr>"
  have "probe_signing_bytes E ?r = probe_signing_bytes E u"
    by (simp add: probe_signing_bytes_def signable_probe_json_def)
  then have "probe_signed E ?r"
    using assms(1,2) len
    by (simp add: probe_signed_def u public_key_base64_def sign_base64_def base64_roundtrip_def
        ed25519_correct_def)
  then show ?thesis
    using p ns fp name iid assms(6,7)
    by (simp add: probe_response_validate_iff u normalize_capabilities_canonical)
qed

theorem honest_probe_answer_accepted_witness:
  "\<exists>u. probe_response_validate sample_crates u (probe_new sample_crates (replicate 32 1))
     (Some (id_instance_id sample_identity)) (id_certificate_fingerprint sample_identity) = Inr ()"
proof -
  have t: "trim ''desk'' = ''desk''"
    by (rule trim_disjoint) (auto simp: ws_chars_def ws_encodings_def)
  have n: "id_peer_name sample_identity = ''desk''" by (simp add: sample_identity_def)
  have p: "probe_request_validate (probe_new sample_crates (replicate 32 1)) = Inr ()"
    by (simp add: probe_request_validate_def probe_new_def valid_hex_nonce_def PROBE_NONCE_BYTES_def)
       (simp add: sample_crates_def lower_hex_text)
  obtain u where u: "probe_response_unsigned (probe_new sample_crates (replicate 32 1))
     (identity_summary sample_crates sample_identity) (id_certificate_fingerprint sample_identity) [] = Inr u"
    by (simp add: probe_response_unsigned_def p normalize_capabilities_def)
  show ?thesis
    by (rule exI, rule honest_probe_answer_accepted [OF _ _ _ _ _ _ _ u])
       (simp_all add: n t MAX_IDENTITY_FIELD_def)
qed

text \<open>\<open>normalize_capabilities\<close> returns the canonical list (strictly sorted, trimmed, bounded) and
  leaves exactly the canonical lists unchanged, which is what the probe check compares with.\<close>

theorem capabilities_canonical:
  "(normalize_capabilities cs = Inr ns \<longrightarrow> canonical_capabilities ns) \<and>
   (normalize_capabilities cs = Inr cs \<longleftrightarrow> canonical_capabilities cs)"
  by (simp add: normalize_capabilities_canonical normalize_capabilities_id_iff)

theorem capabilities_canonical_witness:
  "canonical_capabilities [''a'', ''b'']"
proof -
  have "trim ''a'' = ''a''" "trim ''b'' = ''b''"
    by (rule trim_disjoint, auto simp: ws_chars_def ws_encodings_def)+
  then have "normalize_capabilities [''b'', ''a'', ''b''] = Inr [''a'', ''b'']"
    by (simp add: normalize_capabilities_def MAX_CAPABILITIES_def MAX_IDENTITY_FIELD_def)
  with capabilities_canonical [of "[''b'', ''a'', ''b'']" "[''a'', ''b'']"] show ?thesis by blast
qed

text \<open>The messages that a device key signs and the messages that are hashed for other purposes
  never coincide: an offer's signing bytes are never a probe's, nor the input of a manifest
  digest or of a request digest, so a signature or digest made for one use is none for another.\<close>

theorem signing_domains_disjoint:
  "offer_signing_bytes E a \<noteq> probe_signing_bytes E b \<and>
   offer_signing_bytes E a \<noteq> FOLDER_MANIFEST_DOMAIN @ x \<and>
   probe_signing_bytes E b \<noteq> FOLDER_MANIFEST_DOMAIN @ x \<and>
   authenticated_message E p n c v \<noteq> offer_signing_bytes E a \<and>
   authenticated_message E p n c v \<noteq> probe_signing_bytes E b \<and>
   authenticated_message E p n c v \<noteq> FOLDER_MANIFEST_DOMAIN @ x"
  by (simp add: offer_signing_bytes_def probe_signing_bytes_def authenticated_message_def
      OFFER_SIGNATURE_DOMAIN_def PROBE_SIGNATURE_DOMAIN_def FOLDER_MANIFEST_DOMAIN_def
      AUTH_REQUEST_DOMAIN_def str_bytes_def)

end
