(* ===== verification/Inbox.thy ===== *)
theory Inbox
  imports Wire
begin

text \<open>
  The inbox and its category directories (\<open>inbox.rs\<close>): which directory a received file goes to.
  Directories are compared as on Unix.
\<close>

datatype file_category = Media | Archive | OtherFile

record category_roots =
  cr_media :: "path option"
  cr_archive :: "path option"
  cr_file :: "path option"
  cr_folder :: "path option"

definition media_extensions :: "string list" where
  "media_extensions =
     [''jpg'', ''jpeg'', ''png'', ''gif'', ''webp'', ''bmp'', ''tif'', ''tiff'', ''heic'', ''heif'',
      ''svg'', ''mp4'', ''mov'', ''m4v'', ''mkv'', ''avi'', ''webm'', ''wmv'', ''flv'', ''mpeg'',
      ''mpg'', ''3gp'', ''m2ts'', ''mts'']"

definition archive_extensions :: "string list" where
  "archive_extensions =
     [''zip'', ''rar'', ''7z'', ''tar'', ''gz'', ''bz2'', ''xz'', ''tgz'', ''tbz'', ''tbz2'', ''txz'',
      ''zst'', ''lz'', ''lz4'', ''cab'', ''iso'', ''dmg'']"

definition file_category :: "string \<Rightarrow> file_category" where
  "file_category filename =
     (let extension = to_ascii_lowercase (case path_extension filename of None \<Rightarrow> [] | Some e \<Rightarrow> e)
      in if extension \<in> set media_extensions then Media
         else if extension \<in> set archive_extensions then Archive else OtherFile)"

definition root_for :: "category_roots \<Rightarrow> path \<Rightarrow> transfer_kind \<Rightarrow> string \<Rightarrow> path" where
  "root_for roots primary kind filename =
     (let configured =
        (if kind = FolderV1 then cr_folder roots
         else (case file_category filename of
                 Media \<Rightarrow> cr_media roots | Archive \<Rightarrow> cr_archive roots | OtherFile \<Rightarrow> cr_file roots))
      in case configured of Some r \<Rightarrow> r | None \<Rightarrow> primary)"

definition same_path :: "path \<Rightarrow> path \<Rightarrow> bool" where
  "same_path left right \<longleftrightarrow> left = right"

definition all_roots :: "category_roots \<Rightarrow> path \<Rightarrow> path list" where
  "all_roots roots primary =
     foldl (\<lambda>acc root. if list_ex (\<lambda>existing. same_path existing root) acc then acc else acc @ [root])
       [primary]
       (List.map_filter id [cr_media roots, cr_archive roots, cr_file roots, cr_folder roots])"

lemma foldl_dedup:
  "distinct acc \<Longrightarrow>
     (let r = foldl (\<lambda>acc x. if list_ex (\<lambda>y. same_path y x) acc then acc else acc @ [x]) acc xs
      in distinct r \<and> set r = set acc \<union> set xs)"
proof (induction xs arbitrary: acc)
  case Nil
  then show ?case by simp
next
  case (Cons x xs)
  have "distinct (if list_ex (\<lambda>y. same_path y x) acc then acc else acc @ [x])"
    using Cons.prems by (auto simp: list_ex_iff same_path_def)
  from Cons.IH [OF this] show ?case
    by (auto simp: Let_def list_ex_iff same_path_def split: if_splits)
qed

lemma root_for_in_all_roots: "root_for roots primary kind filename \<in> set (all_roots roots primary)"
proof -
  have "set (all_roots roots primary) =
      {primary} \<union> set (List.map_filter id [cr_media roots, cr_archive roots, cr_file roots, cr_folder roots])"
    using foldl_dedup [of "[primary]"] by (simp add: all_roots_def Let_def)
  then show ?thesis
    by (auto simp: root_for_def Let_def map_filter_def split: option.splits file_category.splits)
qed

lemma distinct_all_roots: "distinct (all_roots roots primary)"
  using foldl_dedup [of "[primary]"] by (simp add: all_roots_def Let_def)

end
