(* ===== verification/FileSystem.thy ===== *)
theory FileSystem
  imports Paths "HOL-Library.AList"
begin

text \<open>
  The file system as the transfer store uses it: a finite tree of files, directories and
  symbolic links under absolute paths, the calls of \<open>std::fs\<close>/\<open>tokio::fs\<close> on it, and the
  state-and-error monad in which the store is written. Every call may fail, with an error
  other than the definite answers \<open>NotFound\<close> and \<open>AlreadyExists\<close>, according to an arbitrary
  schedule of faults; a schedule that fails from some call on is the death of the process at that point, since a
  failed call changes nothing except that a failed write may have written a part of its data. Losing power is not
  modelled: what a call has changed stays changed, and \<open>io_sync\<close> only may fail. A path here is a resolved one: the
  text a program joins to it goes through \<open>path_join\<close>. Opening or reading a special node fails. The Hoare rules at
  the end are for all schedules.
\<close>

section \<open>Trees\<close>

text \<open>\<open>SpecialN\<close> is whatever is none of the three: a device, a FIFO, a socket.\<close>

datatype node = FileN bytes int | DirN int | LinkN path int | SpecialN int

type_synonym fs = "(path \<times> node) list"

definition lookup :: "fs \<Rightarrow> path \<Rightarrow> node option" where
  "lookup fs p = (if p = [] then Some (DirN 0) else map_of fs p)"

definition put_node :: "path \<Rightarrow> node \<Rightarrow> fs \<Rightarrow> fs" where
  "put_node p n fs = AList.update p n fs"

definition del_node :: "path \<Rightarrow> fs \<Rightarrow> fs" where
  "del_node p fs = filter (\<lambda>(q, _). q \<noteq> p) fs"

definition del_tree :: "path \<Rightarrow> fs \<Rightarrow> fs" where
  "del_tree p fs = filter (\<lambda>(q, _). \<not> prefix p q) fs"

definition move_tree :: "path \<Rightarrow> path \<Rightarrow> fs \<Rightarrow> fs" where
  "move_tree p q fs =
     map (\<lambda>(x, n). (if prefix p x then q @ drop (length p) x else x, n)) fs"

definition child_names :: "fs \<Rightarrow> path \<Rightarrow> string list" where
  "child_names fs p = map (\<lambda>(q, _). last q) (filter (\<lambda>(q, _). q \<noteq> [] \<and> butlast q = p) fs)"

definition is_dir :: "node \<Rightarrow> bool" where
  "is_dir n = (case n of DirN _ \<Rightarrow> True | _ \<Rightarrow> False)"

definition is_file :: "node \<Rightarrow> bool" where
  "is_file n = (case n of FileN _ _ \<Rightarrow> True | _ \<Rightarrow> False)"

definition is_symlink :: "node \<Rightarrow> bool" where
  "is_symlink n = (case n of LinkN _ _ \<Rightarrow> True | _ \<Rightarrow> False)"

text \<open>\<open>Metadata::len\<close> of a regular file (its value for other nodes is not used).\<close>

definition node_len :: "node \<Rightarrow> nat" where
  "node_len n = (case n of FileN d _ \<Rightarrow> length d | _ \<Rightarrow> 0)"

text \<open>\<open>Metadata::modified\<close>, in milliseconds since the epoch.\<close>

definition node_mtime :: "node \<Rightarrow> int" where
  "node_mtime n = (case n of FileN _ m \<Rightarrow> m | DirN m \<Rightarrow> m | LinkN _ m \<Rightarrow> m | SpecialN m \<Rightarrow> m)"

section \<open>Symbolic links\<close>

definition not_a_directory :: io_kind where "not_a_directory = OtherIo ''not a directory''"
definition is_a_directory :: io_kind where "is_a_directory = OtherIo ''is a directory''"

text \<open>
  Resolution of a path component by component, restarting at the target of a link; the first
  argument is the number of links still allowed (forty, as in Linux).
\<close>

function follow :: "nat \<Rightarrow> fs \<Rightarrow> path \<Rightarrow> path \<Rightarrow> io_kind + path" where
  "follow n fs cur [] = Inr cur"
| "follow n fs cur (c # cs) =
     (case lookup fs (cur @ [c]) of
        Some (LinkN target _) \<Rightarrow>
          (case n of
             0 \<Rightarrow> Inl (OtherIo ''too many levels of symbolic links'')
           | Suc m \<Rightarrow> follow m fs [] (target @ cs))
      | _ \<Rightarrow> follow n fs (cur @ [c]) cs)"
  by pat_completeness auto
termination
  by (relation "measures [\<lambda>(n, _, _, _). n, \<lambda>(_, _, _, cs). length cs]") auto

definition resolve_all :: "fs \<Rightarrow> path \<Rightarrow> io_kind + path" where
  "resolve_all fs p = follow 40 fs [] p"

definition resolve_parent :: "fs \<Rightarrow> path \<Rightarrow> io_kind + path" where
  "resolve_parent fs p =
     (if p = [] then Inr []
      else (case follow 40 fs [] (butlast p) of Inl e \<Rightarrow> Inl e | Inr d \<Rightarrow> Inr (d @ [last p])))"

text \<open>What a lookup under a parent that is no directory reports.\<close>

definition parent_error :: "fs \<Rightarrow> path \<Rightarrow> io_kind option" where
  "parent_error fs p =
     (if p = [] then None
      else (case lookup fs (butlast p) of
              Some (DirN _) \<Rightarrow> None
            | Some _ \<Rightarrow> Some not_a_directory
            | None \<Rightarrow>
                if list_ex (\<lambda>k. case lookup fs (take k p) of Some (FileN _ _) \<Rightarrow> True | Some (SpecialN _) \<Rightarrow> True | _ \<Rightarrow> False)
                     [0..<length p]
                then Some not_a_directory else Some NotFound))"

text \<open>A call on a path: resolve it, check the parent, then act.\<close>

definition at_path ::
  "(io_kind + path) \<Rightarrow> fs \<Rightarrow> (path \<Rightarrow> io_kind + 'a \<times> fs) \<Rightarrow> io_kind + 'a \<times> fs" where
  "at_path r fs act =
     bind_r r (\<lambda>p. case parent_error fs p of Some e \<Rightarrow> Inl e | None \<Rightarrow> act p)"

section \<open>Calls\<close>

text \<open>\<open>fs::metadata\<close> and \<open>fs::symlink_metadata\<close>: the node stands for the metadata.\<close>

definition sys_metadata :: "path \<Rightarrow> fs \<Rightarrow> io_kind + node \<times> fs" where
  "sys_metadata p fs = at_path (resolve_all fs p) fs (\<lambda>q.
     case lookup fs q of None \<Rightarrow> Inl NotFound | Some n \<Rightarrow> Inr (n, fs))"

definition sys_symlink_metadata :: "path \<Rightarrow> fs \<Rightarrow> io_kind + node \<times> fs" where
  "sys_symlink_metadata p fs = at_path (resolve_parent fs p) fs (\<lambda>q.
     case lookup fs q of None \<Rightarrow> Inl NotFound | Some n \<Rightarrow> Inr (n, fs))"

definition sys_try_exists :: "path \<Rightarrow> fs \<Rightarrow> io_kind + bool \<times> fs" where
  "sys_try_exists p fs =
     (case sys_metadata p fs of
        Inr (n, fs') \<Rightarrow> Inr (True, fs')
      | Inl NotFound \<Rightarrow> Inr (False, fs)
      | Inl e \<Rightarrow> Inl e)"

definition sys_read :: "path \<Rightarrow> fs \<Rightarrow> io_kind + bytes \<times> fs" where
  "sys_read p fs = at_path (resolve_all fs p) fs (\<lambda>q.
     case lookup fs q of
       None \<Rightarrow> Inl NotFound
     | Some (FileN d _) \<Rightarrow> Inr (d, fs)
     | Some _ \<Rightarrow> Inl is_a_directory)"

text \<open>
  Opening for writing: \<open>create(true)\<close> with or without \<open>truncate\<close>, and \<open>create_new(true)\<close>. The
  handle is the resolved path; \<open>now\<close> is the modification time a new file gets.
\<close>

definition sys_open :: "bool \<Rightarrow> int \<Rightarrow> path \<Rightarrow> fs \<Rightarrow> io_kind + path \<times> fs" where
  "sys_open trunc now p fs = at_path (resolve_all fs p) fs (\<lambda>q.
     case lookup fs q of
       None \<Rightarrow> Inr (q, put_node q (FileN [] now) fs)
     | Some (FileN d m) \<Rightarrow> Inr (q, if trunc then put_node q (FileN [] now) fs else fs)
     | Some _ \<Rightarrow> Inl is_a_directory)"

definition sys_create_new :: "int \<Rightarrow> path \<Rightarrow> fs \<Rightarrow> io_kind + path \<times> fs" where
  "sys_create_new now p fs = at_path (resolve_parent fs p) fs (\<lambda>q.
     case lookup fs q of
       None \<Rightarrow> Inr (q, put_node q (FileN [] now) fs)
     | Some _ \<Rightarrow> Inl AlreadyExists)"

text \<open>\<open>append(true)\<close> without \<open>create\<close>: the file must exist.\<close>

definition sys_open_append :: "path \<Rightarrow> fs \<Rightarrow> io_kind + path \<times> fs" where
  "sys_open_append p fs = at_path (resolve_all fs p) fs (\<lambda>q.
     case lookup fs q of
       None \<Rightarrow> Inl NotFound
     | Some (FileN d m) \<Rightarrow> Inr (q, fs)
     | Some _ \<Rightarrow> Inl is_a_directory)"

text \<open>Writing through a handle at an offset; a gap is filled with zeros.\<close>

definition overwrite :: "nat \<Rightarrow> bytes \<Rightarrow> bytes \<Rightarrow> bytes" where
  "overwrite off data old =
     take off (old @ replicate (off - length old) 0) @ data @ drop (off + length data) old"

definition sys_write :: "int \<Rightarrow> path \<Rightarrow> nat \<Rightarrow> bytes \<Rightarrow> fs \<Rightarrow> io_kind + unit \<times> fs" where
  "sys_write now h off data fs =
     (case lookup fs h of
        Some (FileN d _) \<Rightarrow> Inr ((), put_node h (FileN (overwrite off data d) now) fs)
      | _ \<Rightarrow> Inr ((), fs))"

definition sys_remove_file :: "path \<Rightarrow> fs \<Rightarrow> io_kind + unit \<times> fs" where
  "sys_remove_file p fs = at_path (resolve_parent fs p) fs (\<lambda>q.
     case lookup fs q of
       None \<Rightarrow> Inl NotFound
     | Some (DirN _) \<Rightarrow> Inl is_a_directory
     | Some _ \<Rightarrow> Inr ((), del_node q fs))"

definition sys_remove_dir_all :: "path \<Rightarrow> fs \<Rightarrow> io_kind + unit \<times> fs" where
  "sys_remove_dir_all p fs = at_path (resolve_parent fs p) fs (\<lambda>q.
     case lookup fs q of
       None \<Rightarrow> Inl NotFound
     | Some (DirN _) \<Rightarrow> Inr ((), del_tree q fs)
     | Some _ \<Rightarrow> Inl not_a_directory)"

definition sys_create_dir :: "int \<Rightarrow> path \<Rightarrow> fs \<Rightarrow> io_kind + unit \<times> fs" where
  "sys_create_dir now p fs = at_path (resolve_parent fs p) fs (\<lambda>q.
     case lookup fs q of
       None \<Rightarrow> Inr ((), put_node q (DirN now) fs)
     | Some _ \<Rightarrow> Inl AlreadyExists)"

definition sys_read_dir :: "path \<Rightarrow> fs \<Rightarrow> io_kind + string list \<times> fs" where
  "sys_read_dir p fs = at_path (resolve_all fs p) fs (\<lambda>q.
     case lookup fs q of
       None \<Rightarrow> Inl NotFound
     | Some (DirN _) \<Rightarrow> Inr (child_names fs q, fs)
     | Some _ \<Rightarrow> Inl not_a_directory)"

text \<open>
  \<open>fs::rename\<close>: a file or link replaces a file or link of the new name; a directory replaces
  only an empty directory.
\<close>

definition sys_rename :: "path \<Rightarrow> path \<Rightarrow> fs \<Rightarrow> io_kind + unit \<times> fs" where
  "sys_rename p q fs = at_path (resolve_parent fs p) fs (\<lambda>a.
     at_path (resolve_parent fs q) fs (\<lambda>b.
       case lookup fs a of
         None \<Rightarrow> Inl NotFound
       | Some n \<Rightarrow>
           if a = b then Inr ((), fs)
           else if is_dir n then
             (if prefix a b then Inl (OtherIo ''invalid argument'')
              else (case lookup fs b of
                      None \<Rightarrow> Inr ((), move_tree a b fs)
                    | Some (DirN _) \<Rightarrow>
                        if child_names fs b = [] then Inr ((), move_tree a b (del_node b fs))
                        else Inl (OtherIo ''directory not empty'')
                    | Some _ \<Rightarrow> Inl not_a_directory))
           else
             (case lookup fs b of
                Some (DirN _) \<Rightarrow> Inl is_a_directory
              | _ \<Rightarrow> Inr ((), put_node b n (del_node a fs)))))"

definition set_node_mtime :: "int \<Rightarrow> node \<Rightarrow> node" where
  "set_node_mtime t n =
     (case n of FileN d _ \<Rightarrow> FileN d t | DirN _ \<Rightarrow> DirN t | LinkN target m \<Rightarrow> LinkN target m |
        SpecialN _ \<Rightarrow> SpecialN t)"

definition sys_set_mtime :: "int \<Rightarrow> path \<Rightarrow> fs \<Rightarrow> io_kind + unit \<times> fs" where
  "sys_set_mtime t p fs = at_path (resolve_all fs p) fs (\<lambda>q.
     case lookup fs q of
       None \<Rightarrow> Inl NotFound
     | Some n \<Rightarrow> Inr ((), if q = [] then fs else put_node q (set_node_mtime t n) fs))"

section \<open>The monad\<close>

text \<open>
  \<open>w_fault\<close> says for each call by number whether it fails, and with which message; \<open>w_short\<close> how much of its data a
  failing write leaves in the file; \<open>w_uuid\<close> is the supply of random UUIDs.
\<close>

record world =
  w_fs :: fs
  w_calls :: nat
  w_fault :: "nat \<Rightarrow> string option"
  w_short :: "nat \<Rightarrow> nat"
  w_now :: "nat \<Rightarrow> int"
  w_uuid :: "nat \<Rightarrow> string"

text \<open>Computations that return a result and pass a state on; the combinators work for every state.\<close>

type_synonym ('s, 'a) action = "'s \<Rightarrow> 'a result \<times> 's"

type_synonym 'a io = "(world, 'a) action"

definition io_ret :: "'a \<Rightarrow> ('s, 'a) action" where
  "io_ret x = (\<lambda>w. (Inr x, w))"

definition io_throw :: "core_error \<Rightarrow> ('s, 'a) action" where
  "io_throw e = (\<lambda>w. (Inl e, w))"

text \<open>\<open>match m.await { Ok(x) => f x, Err(e) => g e }\<close>, and the \<open>?\<close> operator.\<close>

definition io_match ::
  "('s, 'a) action \<Rightarrow> ('a \<Rightarrow> ('s, 'b) action) \<Rightarrow> (core_error \<Rightarrow> ('s, 'b) action) \<Rightarrow> ('s, 'b) action" where
  "io_match m f g = (\<lambda>w. case m w of (Inr x, w') \<Rightarrow> f x w' | (Inl e, w') \<Rightarrow> g e w')"

definition io_bind :: "('s, 'a) action \<Rightarrow> ('a \<Rightarrow> ('s, 'b) action) \<Rightarrow> ('s, 'b) action" where
  "io_bind m f = io_match m f io_throw"

definition io_then :: "('s, 'a) action \<Rightarrow> ('s, 'b) action \<Rightarrow> ('s, 'b) action" where
  "io_then m k = io_bind m (\<lambda>_. k)"

definition io_lift :: "'a result \<Rightarrow> ('s, 'a) action" where
  "io_lift r = (\<lambda>w. (r, w))"

lemma io_bind_Inr: "io_bind m f s = (Inr y, t) \<longleftrightarrow> (\<exists>x s1. m s = (Inr x, s1) \<and> f x s1 = (Inr y, t))"
  by (auto simp: io_bind_def io_match_def io_throw_def split: prod.splits sum.splits)

lemma io_then_Inr: "io_then m f s = (Inr y, t) \<longleftrightarrow> (\<exists>x s1. m s = (Inr x, s1) \<and> f s1 = (Inr y, t))"
  by (auto simp: io_then_def io_bind_Inr)

definition io_reject_if :: "bool \<Rightarrow> core_error \<Rightarrow> ('s, 'a) action \<Rightarrow> ('s, 'a) action" where
  "io_reject_if c e k = (if c then io_throw e else k)"

text \<open>A pattern \<open>Err(error) if error.kind() == NotFound => a, Err(error) => return Err(error)\<close>.\<close>

definition if_not_found :: "('s, 'a) action \<Rightarrow> core_error \<Rightarrow> ('s, 'a) action" where
  "if_not_found k e = (if e = Io NotFound then k else io_throw e)"

definition tick :: "world \<Rightarrow> world" where
  "tick w = w\<lparr>w_calls := Suc (w_calls w)\<rparr>"

definition io_call :: "(fs \<Rightarrow> io_kind + 'a \<times> fs) \<Rightarrow> 'a io" where
  "io_call f = (\<lambda>w.
     case w_fault w (w_calls w) of
       Some k \<Rightarrow> (Inl (Io (OtherIo k)), tick w)
     | None \<Rightarrow>
         (case f (w_fs w) of
            Inl k \<Rightarrow> (Inl (Io k), tick w)
          | Inr (x, fs') \<Rightarrow> (Inr x, tick (w\<lparr>w_fs := fs'\<rparr>))))"

text \<open>\<open>write_all\<close>: a failure leaves a part of the data behind.\<close>

definition io_write :: "path \<Rightarrow> nat \<Rightarrow> bytes \<Rightarrow> unit io" where
  "io_write h off data = (\<lambda>w.
     let n = w_calls w in
     case w_fault w n of
       Some k \<Rightarrow>
         (case sys_write (w_now w n) h off (take (w_short w n) data) (w_fs w) of
            Inl _ \<Rightarrow> (Inl (Io (OtherIo k)), tick w)
          | Inr (_, fs') \<Rightarrow> (Inl (Io (OtherIo k)), tick (w\<lparr>w_fs := fs'\<rparr>)))
     | None \<Rightarrow> io_call (sys_write (w_now w n) h off data) w)"

text \<open>\<open>write_all\<close> on a file opened with \<open>append\<close>: at the end the file has then.\<close>

definition io_append :: "path \<Rightarrow> bytes \<Rightarrow> unit io" where
  "io_append h data = (\<lambda>w.
     io_write h (case lookup (w_fs w) h of Some n \<Rightarrow> node_len n | None \<Rightarrow> 0) data w)"

text \<open>A call that changes nothing (closing a file, and \<open>sync_all\<close>, whose effect is on what survives a loss of power).\<close>

definition io_sync :: "unit io" where
  "io_sync = io_call (\<lambda>fs. Inr ((), fs))"

definition io_metadata :: "path \<Rightarrow> node io" where "io_metadata p = io_call (sys_metadata p)"
definition io_symlink_metadata :: "path \<Rightarrow> node io" where
  "io_symlink_metadata p = io_call (sys_symlink_metadata p)"
definition io_try_exists :: "path \<Rightarrow> bool io" where "io_try_exists p = io_call (sys_try_exists p)"
definition io_read :: "path \<Rightarrow> bytes io" where "io_read p = io_call (sys_read p)"
definition io_remove_file :: "path \<Rightarrow> unit io" where "io_remove_file p = io_call (sys_remove_file p)"
definition io_remove_dir_all :: "path \<Rightarrow> unit io" where
  "io_remove_dir_all p = io_call (sys_remove_dir_all p)"
definition io_rename :: "path \<Rightarrow> path \<Rightarrow> unit io" where "io_rename p q = io_call (sys_rename p q)"
definition io_read_dir :: "path \<Rightarrow> string list io" where "io_read_dir p = io_call (sys_read_dir p)"
definition io_set_mtime :: "int \<Rightarrow> path \<Rightarrow> unit io" where
  "io_set_mtime t p = io_call (sys_set_mtime t p)"

definition io_open :: "bool \<Rightarrow> path \<Rightarrow> path io" where
  "io_open trunc p = (\<lambda>w. io_call (sys_open trunc (w_now w (w_calls w)) p) w)"
definition io_open_append :: "path \<Rightarrow> path io" where "io_open_append p = io_call (sys_open_append p)"
definition io_create_new :: "path \<Rightarrow> path io" where
  "io_create_new p = (\<lambda>w. io_call (sys_create_new (w_now w (w_calls w)) p) w)"
definition io_create_dir :: "path \<Rightarrow> unit io" where
  "io_create_dir p = (\<lambda>w. io_call (sys_create_dir (w_now w (w_calls w)) p) w)"

text \<open>The UUID drawn at this point of the run.\<close>

definition io_uuid :: "string io" where
  "io_uuid = (\<lambda>w. (Inr (w_uuid w (w_calls w)), tick w))"

text \<open>\<open>SystemTime::now()\<close>.\<close>

definition io_now :: "int io" where
  "io_now = (\<lambda>w. (Inr (w_now w (w_calls w)), tick w))"

fun create_dirs :: "path \<Rightarrow> path \<Rightarrow> unit io" where
  "create_dirs cur [] = io_ret ()"
| "create_dirs cur (c # cs) =
     io_match (io_create_dir (cur @ [c]))
       (\<lambda>_. create_dirs (cur @ [c]) cs)
       (\<lambda>e. if e = Io AlreadyExists
            then io_bind (io_metadata (cur @ [c]))
                   (\<lambda>n. if is_dir n then create_dirs (cur @ [c]) cs else io_throw e)
            else io_throw e)"

definition io_create_dir_all :: "path \<Rightarrow> unit io" where
  "io_create_dir_all p = create_dirs [] p"

end
