(* ===== verification/FileLogic.thy ===== *)
theory FileLogic
  imports FileSystem
begin

text \<open>
  Reasoning about the file system calls: what each call does on a tree of files and directories, a locale
  of the relations between the worlds before and after that every program built from calls
  respects, and Hoare triples for all runs of a class of fault schedules.
\<close>

section \<open>Lookup\<close>

lemma lookup_Nil [simp]: "lookup fs [] = Some (DirN 0)"
  by (simp add: lookup_def)

lemma lookup_put_node [simp]:
  "p \<noteq> [] \<Longrightarrow> lookup (put_node p n fs) q = (if q = p then Some n else lookup fs q)"
  by (auto simp: lookup_def put_node_def update_conv')

lemma map_of_filter_key:
  "map_of (filter (\<lambda>(q, _). P q) fs) p = (if P p then map_of fs p else None)"
  by (induction fs) auto

lemma lookup_del_node [simp]:
  "p \<noteq> [] \<Longrightarrow> lookup (del_node p fs) q = (if q = p then None else lookup fs q)"
  by (auto simp: lookup_def del_node_def map_of_filter_key)

lemma lookup_del_tree:
  "p \<noteq> [] \<Longrightarrow> lookup (del_tree p fs) q = (if prefix p q then None else lookup fs q)"
  by (auto simp: lookup_def del_tree_def map_of_filter_key)

fun is_special :: "node \<Rightarrow> bool" where
  "is_special (SpecialN m) = True"
| "is_special (FileN d m) = False"
| "is_special (DirN m) = False"
| "is_special (LinkN target m) = False"

text \<open>Files and directories only.\<close>

definition plain_nodes :: "fs \<Rightarrow> bool" where
  "plain_nodes fs \<longleftrightarrow>
     (\<forall>p target m. lookup fs p \<noteq> Some (LinkN target m)) \<and> (\<forall>p m. lookup fs p \<noteq> Some (SpecialN m))"

lemma plain_nodesD [simp]:
  "plain_nodes fs \<Longrightarrow> lookup fs p \<noteq> Some (LinkN target m)"
  "plain_nodes fs \<Longrightarrow> lookup fs p \<noteq> Some (SpecialN m)"
  by (simp_all add: plain_nodes_def)

lemma plain_nodes_put_node:
  "plain_nodes fs \<Longrightarrow> p \<noteq> [] \<Longrightarrow> \<not> is_symlink n \<Longrightarrow> \<not> is_special n \<Longrightarrow> plain_nodes (put_node p n fs)"
  by (cases n) (auto simp: plain_nodes_def is_symlink_def simp del: plain_nodesD)

lemma plain_nodes_del_node: "plain_nodes fs \<Longrightarrow> p \<noteq> [] \<Longrightarrow> plain_nodes (del_node p fs)"
  by (auto simp: plain_nodes_def simp del: plain_nodesD)

lemma plain_nodes_del_tree: "plain_nodes fs \<Longrightarrow> p \<noteq> [] \<Longrightarrow> plain_nodes (del_tree p fs)"
  by (auto simp: plain_nodes_def lookup_del_tree simp del: plain_nodesD)

lemma follow_plain_nodes [simp]: "plain_nodes fs \<Longrightarrow> follow n fs cur cs = Inr (cur @ cs)"
proof (induction cs arbitrary: cur)
  case Nil
  then show ?case by simp
next
  case (Cons c cs)
  then show ?case by (auto split: option.splits node.splits)
qed

lemma resolve_all_plain_nodes [simp]: "plain_nodes fs \<Longrightarrow> resolve_all fs p = Inr p"
  by (simp add: resolve_all_def)

lemma resolve_parent_plain_nodes [simp]: "plain_nodes fs \<Longrightarrow> resolve_parent fs p = Inr p"
  by (simp add: resolve_parent_def)

lemma at_path_Inr [simp]:
  "at_path (Inr p) fs act = (case parent_error fs p of Some e \<Rightarrow> Inl e | None \<Rightarrow> act p)"
  by (simp add: at_path_def)

definition in_dir :: "fs \<Rightarrow> path \<Rightarrow> bool" where
  "in_dir fs p \<longleftrightarrow> p \<noteq> [] \<and> (\<exists>t. lookup fs (butlast p) = Some (DirN t))"

lemma parent_error_in_dir [simp]: "in_dir fs p \<Longrightarrow> parent_error fs p = None"
  by (auto simp: in_dir_def parent_error_def)

lemma in_dir_snoc: "in_dir fs (d @ [c]) \<longleftrightarrow> (\<exists>t. lookup fs d = Some (DirN t))"
  by (simp add: in_dir_def)

section \<open>Relations every run respects\<close>

locale run_relation =
  fixes R :: "'s \<Rightarrow> 's \<Rightarrow> bool"
  assumes refl: "R w w"
    and trans: "R w w' \<Longrightarrow> R w' w'' \<Longrightarrow> R w w''"
begin

definition keeps :: "('s, 'a) action \<Rightarrow> bool" where
  "keeps m \<longleftrightarrow> (\<forall>w. R w (snd (m w)))"

lemma keeps_ret: "keeps (io_ret x)"
  by (simp add: keeps_def io_ret_def refl)

lemma keeps_throw: "keeps (io_throw e)"
  by (simp add: keeps_def io_throw_def refl)

lemma keeps_lift: "keeps (io_lift r)"
  by (simp add: keeps_def io_lift_def refl)

lemma keeps_match:
  assumes "keeps m" "\<And>x. keeps (f x)" "\<And>e. keeps (g e)"
  shows "keeps (io_match m f g)"
  unfolding keeps_def
proof
  fix w
  have "R w (snd (m w))" using assms(1) by (simp add: keeps_def)
  moreover have "R (snd (m w)) (snd (io_match m f g w))"
    using assms(2,3) by (auto simp: io_match_def keeps_def split: prod.split sum.split)
  ultimately show "R w (snd (io_match m f g w))" by (rule trans)
qed

lemma keeps_bind: "keeps m \<Longrightarrow> (\<And>x. keeps (f x)) \<Longrightarrow> keeps (io_bind m f)"
  unfolding io_bind_def by (intro keeps_match keeps_throw)

lemma keeps_then: "keeps m \<Longrightarrow> keeps k \<Longrightarrow> keeps (io_then m k)"
  unfolding io_then_def by (intro keeps_bind)

lemma keeps_reject_if: "keeps k \<Longrightarrow> keeps (io_reject_if c e k)"
  by (simp add: io_reject_if_def keeps_throw)

lemma keeps_if_not_found: "keeps k \<Longrightarrow> keeps (if_not_found k e)"
  by (simp add: if_not_found_def keeps_throw)

lemma keeps_If: "keeps a \<Longrightarrow> keeps b \<Longrightarrow> keeps (if c then a else b)"
  by simp

lemma keeps_Let: "(\<And>x. keeps (f x)) \<Longrightarrow> keeps (let x = a in f x)"
  by simp

lemma keeps_option: "keeps a \<Longrightarrow> (\<And>x. keeps (f x)) \<Longrightarrow> keeps (case x of None \<Rightarrow> a | Some x \<Rightarrow> f x)"
  by (cases x) simp_all

lemma keeps_prod: "(\<And>a b. keeps (f a b)) \<Longrightarrow> keeps (case x of (a, b) \<Rightarrow> f a b)"
  by (cases x) simp

lemmas keeps_rules = keeps_ret keeps_throw keeps_lift keeps_match keeps_bind keeps_then
  keeps_reject_if keeps_if_not_found keeps_If keeps_Let keeps_option keeps_prod

end

section \<open>Hoare triples over classes of schedules\<close>

text \<open>
  \<open>always W m fs Q\<close>: every run of \<open>m\<close> from the tree \<open>fs\<close> in a world of the class \<open>W\<close> ends with
  a result and a tree that satisfy \<open>Q\<close>, in a world of the class.
\<close>

definition always :: "(world \<Rightarrow> bool) \<Rightarrow> 'a io \<Rightarrow> fs \<Rightarrow> ('a result \<Rightarrow> fs \<Rightarrow> bool) \<Rightarrow> bool" where
  "always W m fs Q \<longleftrightarrow>
     (\<forall>w. W w \<longrightarrow> w_fs w = fs \<longrightarrow> W (snd (m w)) \<and> Q (fst (m w)) (w_fs (snd (m w))))"

definition may_fail :: "(world \<Rightarrow> bool) \<Rightarrow> string \<Rightarrow> bool" where
  "may_fail W k \<longleftrightarrow> (\<exists>w n. W w \<and> w_fault w n = Some k)"

definition may_draw :: "(world \<Rightarrow> bool) \<Rightarrow> string \<Rightarrow> bool" where
  "may_draw W u \<longleftrightarrow> (\<exists>w n. W w \<and> w_uuid w n = u)"

lemma alwaysD:
  "always W m fs Q \<Longrightarrow> W w \<Longrightarrow> w_fs w = fs \<Longrightarrow> W (snd (m w)) \<and> Q (fst (m w)) (w_fs (snd (m w)))"
  by (simp add: always_def)

locale schedule =
  fixes W :: "world \<Rightarrow> bool"
  assumes step: "W w \<Longrightarrow> W (tick (w\<lparr>w_fs := fs\<rparr>))"
begin

lemma tick_same: "W w \<Longrightarrow> W (tick w)"
  using step [of w "w_fs w"] by simp

lemma ret: "Q (Inr x) fs \<Longrightarrow> always W (io_ret x) fs Q"
  by (simp add: always_def io_ret_def)

lemma throw: "Q (Inl e) fs \<Longrightarrow> always W (io_throw e) fs Q"
  by (simp add: always_def io_throw_def)

lemma lift: "Q r fs \<Longrightarrow> always W (io_lift r) fs Q"
  by (simp add: always_def io_lift_def)

lemma mono:
  "always W m fs Q \<Longrightarrow> (\<And>r fs'. Q r fs' \<Longrightarrow> Q' r fs') \<Longrightarrow> always W m fs Q'"
  by (simp add: always_def)

lemma conj: "always W m fs Q \<Longrightarrow> always W m fs Q' \<Longrightarrow> always W m fs (\<lambda>r s. Q r s \<and> Q' r s)"
  by (simp add: always_def)

lemma match:
  assumes "always W m fs (\<lambda>r fs'. case r of Inl e \<Rightarrow> always W (g e) fs' Q | Inr x \<Rightarrow> always W (f x) fs' Q)"
  shows "always W (io_match m f g) fs Q"
  unfolding always_def
proof (intro allI impI)
  fix w assume w: "W w" "w_fs w = fs"
  obtain r w' where m: "m w = (r, w')" by (cases "m w")
  note post = alwaysD [OF assms w, unfolded m fst_conv snd_conv]
  from post m have "W w'" by simp
  from post m have
    "case r of Inl e \<Rightarrow> always W (g e) (w_fs w') Q | Inr x \<Rightarrow> always W (f x) (w_fs w') Q"
    by simp
  with m show "W (snd (io_match m f g w)) \<and>
      Q (fst (io_match m f g w)) (w_fs (snd (io_match m f g w)))"
    using \<open>W w'\<close> by (cases r) (auto simp: io_match_def always_def)
qed

lemma bind:
  assumes "always W m fs (\<lambda>r fs'. case r of Inl e \<Rightarrow> Q (Inl e) fs' | Inr x \<Rightarrow> always W (f x) fs' Q)"
  shows "always W (io_bind m f) fs Q"
  unfolding io_bind_def
  by (rule match, rule mono [OF assms]) (auto intro: throw split: sum.splits)

lemma thn:
  assumes "always W m fs (\<lambda>r fs'. case r of Inl e \<Rightarrow> Q (Inl e) fs' | Inr _ \<Rightarrow> always W k fs' Q)"
  shows "always W (io_then m k) fs Q"
  unfolding io_then_def by (rule bind) (rule assms)

lemma reject_if: "(c \<Longrightarrow> Q (Inl e) fs) \<Longrightarrow> (\<not> c \<Longrightarrow> always W k fs Q) \<Longrightarrow> always W (io_reject_if c e k) fs Q"
  by (simp add: io_reject_if_def throw)

lemma fs_call:
  assumes "\<And>k. may_fail W k \<Longrightarrow> Q (Inl (Io (OtherIo k))) fs"
    and "\<And>k. f fs = Inl k \<Longrightarrow> Q (Inl (Io k)) fs"
    and "\<And>x fs'. f fs = Inr (x, fs') \<Longrightarrow> Q (Inr x) fs'"
  shows "always W (io_call f) fs Q"
  unfolding always_def
proof (intro allI impI)
  fix w assume w: "W w" "w_fs w = fs"
  show "W (snd (io_call f w)) \<and> Q (fst (io_call f w)) (w_fs (snd (io_call f w)))"
  proof (cases "w_fault w (w_calls w)")
    case (Some k)
    with w have "may_fail W k" by (auto simp: may_fail_def)
    from assms(1) [OF this] Some w tick_same [OF w(1)] show ?thesis
      by (simp add: io_call_def tick_def)
  next
    case None
    show ?thesis
    proof (cases "f fs")
      case (Inl k)
      with assms(2) None w tick_same [OF w(1)] show ?thesis by (simp add: io_call_def tick_def)
    next
      case (Inr xf)
      then obtain x fs' where "f fs = Inr (x, fs')" by (cases xf) auto
      with assms(3) None w step [OF w(1), of fs'] show ?thesis
        by (simp add: io_call_def tick_def)
    qed
  qed
qed

text \<open>The same for the calls whose effect depends on the clock.\<close>

lemma fs_call_at:
  assumes "\<And>k. may_fail W k \<Longrightarrow> Q (Inl (Io (OtherIo k))) fs"
    and "\<And>k t. f t fs = Inl k \<Longrightarrow> Q (Inl (Io k)) fs"
    and "\<And>x t fs'. f t fs = Inr (x, fs') \<Longrightarrow> Q (Inr x) fs'"
  shows "always W (\<lambda>w. io_call (f (w_now w (w_calls w))) w) fs Q"
proof -
  have "always W (io_call (f t)) fs Q" for t by (rule fs_call) (use assms in blast)+
  then show ?thesis by (simp add: always_def)
qed

lemma uuid_drawn: "(\<And>u. may_draw W u \<Longrightarrow> Q (Inr u) fs) \<Longrightarrow> always W io_uuid fs Q"
  by (auto simp: always_def io_uuid_def may_draw_def tick_same) (simp add: tick_def, blast)

lemma sync_all: "(\<And>k. may_fail W k \<Longrightarrow> Q (Inl (Io (OtherIo k))) fs) \<Longrightarrow> Q (Inr ()) fs \<Longrightarrow> always W io_sync fs Q"
  unfolding io_sync_def by (rule fs_call) auto

lemma now_read: "(\<And>t. Q (Inr t) fs) \<Longrightarrow> always W io_now fs Q"
  by (auto simp: always_def io_now_def tick_same) (simp add: tick_def)

text \<open>A write of which any part may be left when it fails.\<close>

lemma write_all:
  assumes "\<And>k t n fs'. may_fail W k \<Longrightarrow> sys_write t h off (take n data) fs = Inr ((), fs') \<Longrightarrow>
             Q (Inl (Io (OtherIo k))) fs'"
    and "\<And>t fs'. sys_write t h off data fs = Inr ((), fs') \<Longrightarrow> Q (Inr ()) fs'"
  shows "always W (io_write h off data) fs Q"
  unfolding always_def
proof (intro allI impI)
  fix w assume w: "W w" "w_fs w = fs"
  let ?n = "w_calls w"
  have ok: "\<exists>fs'. sys_write t h off d fs = Inr ((), fs')" for t d
    by (auto simp: sys_write_def split: option.split node.split)
  show "W (snd (io_write h off data w)) \<and> Q (fst (io_write h off data w)) (w_fs (snd (io_write h off data w)))"
  proof (cases "w_fault w ?n")
    case (Some k)
    with w have k: "may_fail W k" by (auto simp: may_fail_def)
    obtain fs' where "sys_write (w_now w ?n) h off (take (w_short w ?n) data) fs = Inr ((), fs')"
      using ok by blast
    with assms(1) [OF k this] Some w step [OF w(1), of fs'] show ?thesis
      by (simp add: io_write_def Let_def tick_def)
  next
    case None
    obtain fs' where "sys_write (w_now w ?n) h off data fs = Inr ((), fs')" using ok by blast
    with assms(2) [OF this] None w step [OF w(1), of fs'] show ?thesis
      by (simp add: io_write_def io_call_def Let_def tick_def)
  qed
qed

end

definition clean :: "(string \<Rightarrow> bool) \<Rightarrow> world \<Rightarrow> bool" where
  "clean U w \<longleftrightarrow> (\<forall>n. w_fault w n = None \<and> U (w_uuid w n))"

interpretation any: schedule "\<lambda>_. True"
  by unfold_locales simp

interpretation no_fault: schedule "clean U" for U
  by unfold_locales (simp add: clean_def tick_def)

lemma may_fail_clean [simp]: "\<not> may_fail (clean U) k"
  by (auto simp: may_fail_def clean_def)

lemma may_draw_clean: "may_draw (clean U) u \<Longrightarrow> U u"
  by (auto simp: may_draw_def clean_def)

section \<open>The calls on a tree of files and directories\<close>

lemma sys_metadata_free:
  "plain_nodes fs \<Longrightarrow> sys_metadata p fs = Inr (n, fs') \<Longrightarrow> lookup fs p = Some n \<and> fs' = fs"
  by (auto simp: sys_metadata_def split: option.splits)

lemma sys_symlink_metadata_free:
  "plain_nodes fs \<Longrightarrow> sys_symlink_metadata p fs = Inr (n, fs') \<Longrightarrow> lookup fs p = Some n \<and> fs' = fs"
  by (auto simp: sys_symlink_metadata_def split: option.splits)

lemma parent_error_lookup:
  assumes "lookup fs p = Some n" "parent_error fs p = Some NotFound" "p \<noteq> []"
  shows "\<not> in_dir fs p"
  using assms by auto

lemma sys_try_exists_free:
  assumes "plain_nodes fs" "sys_try_exists p fs = Inr (b, fs')"
  shows "fs' = fs \<and> (b \<longrightarrow> (\<exists>n. lookup fs p = Some n)) \<and>
         (\<not> b \<longrightarrow> lookup fs p = None \<or> \<not> in_dir fs p)"
  using assms
  by (auto simp: sys_try_exists_def sys_metadata_def split: option.splits sum.splits io_kind.splits)

lemma sys_read_free:
  "plain_nodes fs \<Longrightarrow> sys_read p fs = Inr (d, fs') \<Longrightarrow> (\<exists>m. lookup fs p = Some (FileN d m)) \<and> fs' = fs"
  by (auto simp: sys_read_def split: option.splits node.splits)

lemma parent_error_Nil [simp]: "parent_error fs [] = None"
  by (simp add: parent_error_def)

lemma sys_create_new_free:
  assumes "plain_nodes fs" "sys_create_new t p fs = Inr (h, fs')"
  shows "h = p \<and> p \<noteq> [] \<and> lookup fs p = None \<and> in_dir fs p \<and> fs' = put_node p (FileN [] t) fs"
  using assms
  by (cases "p = []") (auto simp: sys_create_new_def parent_error_def in_dir_def split: option.splits node.splits if_splits)

lemma sys_open_free:
  assumes "plain_nodes fs" "sys_open trunc t p fs = Inr (h, fs')"
  shows "h = p \<and> p \<noteq> [] \<and> in_dir fs p \<and>
     ((lookup fs p = None \<and> fs' = put_node p (FileN [] t) fs) \<or>
      (\<exists>d m. lookup fs p = Some (FileN d m) \<and>
         fs' = (if trunc then put_node p (FileN [] t) fs else fs)))"
  using assms
  by (cases "p = []") (auto simp: sys_open_def parent_error_def in_dir_def split: option.splits node.splits if_splits)

lemma sys_write_file:
  "lookup fs h = Some (FileN d m) \<Longrightarrow>
     sys_write t h off data fs = Inr ((), put_node h (FileN (overwrite off data d) t) fs)"
  by (simp add: sys_write_def)

lemma sys_remove_file_free:
  assumes "plain_nodes fs" "sys_remove_file p fs = Inr (u, fs')"
  shows "p \<noteq> [] \<and> (\<exists>d m. lookup fs p = Some (FileN d m)) \<and> fs' = del_node p fs"
  using assms
  by (cases "p = []") (auto simp: sys_remove_file_def split: option.splits node.splits)

lemma sys_set_mtime_free:
  assumes "plain_nodes fs" "sys_set_mtime t p fs = Inr (u, fs')"
  shows "(\<exists>n. lookup fs p = Some n \<and>
     (p = [] \<and> fs' = fs \<or> p \<noteq> [] \<and> fs' = put_node p (set_node_mtime t n) fs))"
  using assms by (auto simp: sys_set_mtime_def split: option.splits if_splits)

lemma sys_rename_file_free:
  assumes "plain_nodes fs" "lookup fs p = Some (FileN d m)" "sys_rename p q fs = Inr (u, fs')"
  shows "p \<noteq> [] \<and> q \<noteq> [] \<and> in_dir fs q \<and> (\<forall>t. lookup fs q \<noteq> Some (DirN t)) \<and>
     ((p = q \<and> fs' = fs) \<or> (p \<noteq> q \<and> fs' = put_node q (FileN d m) (del_node p fs)))"
proof -
  have p: "p \<noteq> []" using assms(2) by auto
  then show ?thesis
    using assms
    by (cases "q = []")
       (auto simp: sys_rename_def is_dir_def in_dir_def parent_error_def
         split: option.splits node.splits if_splits)
qed

end
