(* ===== verification/Store.thy ===== *)
theory Store
  imports Auth Inbox FileLogic
begin

text \<open>
  The transfer store (\<open>state.rs\<close>), for single files: the records it keeps beside the inbox, the
  preparation of a transfer (new, resumed or already complete), the commit of a received file
  under a name of its own, and the recovery after a crash between the steps of a commit.
  \<open>transfer_lock\<close> and \<open>commit_lock\<close> make the operations on one transfer, and the commits, run one
  after the other; the model is one such operation.
\<close>

section \<open>Records\<close>

definition STATE_DIRECTORY :: string where "STATE_DIRECTORY = ''.inkhole-transfers''"

text \<open>Thirty days, in milliseconds.\<close>

definition STATE_RETENTION :: int where "STATE_RETENTION = 30 * 24 * 60 * 60 * 1000"

record store =
  st_inbox :: path
  st_category_roots :: category_roots

record stored_offer =
  so_transfer_id :: string
  so_filename :: string
  so_kind :: transfer_kind
  so_size :: nat
  so_modified_ms :: int
  so_blake3 :: string
  so_sender_instance_id :: string
  so_sender_public_key :: string

record commit_record =
  co_offer :: stored_offer
  co_destination :: string
  co_manifest :: "folder_manifest option"

record done_record =
  do_offer :: stored_offer
  do_destination :: string
  do_receipt :: transfer_receipt
  do_manifest :: "folder_manifest option"

record completed_transfer =
  ct_receipt :: transfer_receipt
  ct_destination :: path

record prepared_transfer =
  pt_part_path :: path
  pt_offset :: nat

datatype prepare_outcome =
    PrepareResume prepared_transfer
  | PrepareComplete completed_transfer

record state_paths =
  sp_part :: path
  sp_folder_part :: path
  sp_metadata :: path
  sp_manifest :: path
  sp_commit :: path
  sp_done :: path

definition stored_offer_of :: "transfer_offer \<Rightarrow> stored_offer" where
  "stored_offer_of offer =
     \<lparr>so_transfer_id = to_transfer_id offer, so_filename = safe_filename (to_filename offer),
      so_kind = to_kind offer, so_size = to_size offer, so_modified_ms = to_modified_ms offer,
      so_blake3 = to_blake3 offer, so_sender_instance_id = ds_instance_id (to_sender offer),
      so_sender_public_key = ds_public_key (to_sender offer)\<rparr>"

definition stored_offer_json :: "stored_offer \<Rightarrow> jvalue" where
  "stored_offer_json r =
     JObj [(''transfer_id'', JStr (so_transfer_id r)), (''filename'', JStr (so_filename r)),
           (''kind'', transfer_kind_json (so_kind r)), (''size'', jnat (so_size r)),
           (''modified_ms'', JNum (so_modified_ms r)), (''blake3'', JStr (so_blake3 r)),
           (''sender_instance_id'', JStr (so_sender_instance_id r)),
           (''sender_public_key'', JStr (so_sender_public_key r))]"

definition as_stored_offer :: "jvalue \<Rightarrow> stored_offer result" where
  "as_stored_offer v =
     bind_r (as_struct [''transfer_id'', ''filename'', ''kind'', ''size'', ''modified_ms'', ''blake3'', ''sender_instance_id'', ''sender_public_key''] [] v) (\<lambda>kvs.
     bind_r (field ''transfer_id'' as_str kvs) (\<lambda>i.
     bind_r (field ''filename'' as_str kvs) (\<lambda>f.
     bind_r (field ''kind'' as_transfer_kind kvs) (\<lambda>k.
     bind_r (field ''size'' (as_unsigned u64_max) kvs) (\<lambda>s.
     bind_r (field ''modified_ms'' as_i64 kvs) (\<lambda>m.
     bind_r (field ''blake3'' as_str kvs) (\<lambda>b.
     bind_r (field ''sender_instance_id'' as_str kvs) (\<lambda>si.
     bind_r (field ''sender_public_key'' as_str kvs) (\<lambda>sk.
     Inr \<lparr>so_transfer_id = i, so_filename = f, so_kind = k, so_size = s, so_modified_ms = m,
          so_blake3 = b, so_sender_instance_id = si, so_sender_public_key = sk\<rparr>)))))))))"

text \<open>\<open>Option\<close> fields with \<open>#[serde(default, skip_serializing_if = "Option::is_none")]\<close>.\<close>

definition manifest_field :: "folder_manifest option \<Rightarrow> (string \<times> jvalue) list" where
  "manifest_field m = (case m of None \<Rightarrow> [] | Some x \<Rightarrow> [(''manifest'', folder_manifest_json x)])"

definition as_manifest_option :: "jvalue \<Rightarrow> folder_manifest option result" where
  "as_manifest_option v =
     (case v of JNull \<Rightarrow> Inr None | _ \<Rightarrow> bind_r (as_folder_manifest v) (\<lambda>m. Inr (Some m)))"

definition commit_record_json :: "commit_record \<Rightarrow> jvalue" where
  "commit_record_json r =
     JObj ([(''offer'', stored_offer_json (co_offer r)), (''destination'', JStr (co_destination r))]
           @ manifest_field (co_manifest r))"

definition as_commit_record :: "jvalue \<Rightarrow> commit_record result" where
  "as_commit_record v =
     bind_r (as_struct [''offer'', ''destination''] [''manifest''] v) (\<lambda>kvs.
     bind_r (field ''offer'' as_stored_offer kvs) (\<lambda>x.
     bind_r (field ''destination'' as_str kvs) (\<lambda>d.
     bind_r (field_default ''manifest'' None as_manifest_option kvs) (\<lambda>m.
     Inr \<lparr>co_offer = x, co_destination = d, co_manifest = m\<rparr>))))"

definition done_record_json :: "done_record \<Rightarrow> jvalue" where
  "done_record_json r =
     JObj ([(''offer'', stored_offer_json (do_offer r)), (''destination'', JStr (do_destination r)),
            (''receipt'', transfer_receipt_json (do_receipt r))]
           @ manifest_field (do_manifest r))"

definition as_done_record :: "jvalue \<Rightarrow> done_record result" where
  "as_done_record v =
     bind_r (as_struct [''offer'', ''destination'', ''receipt''] [''manifest''] v) (\<lambda>kvs.
     bind_r (field ''offer'' as_stored_offer kvs) (\<lambda>x.
     bind_r (field ''destination'' as_str kvs) (\<lambda>d.
     bind_r (field ''receipt'' as_transfer_receipt kvs) (\<lambda>r.
     bind_r (field_default ''manifest'' None as_manifest_option kvs) (\<lambda>m.
     Inr \<lparr>do_offer = x, do_destination = d, do_receipt = r, do_manifest = m\<rparr>)))))"

definition stored_offer_range :: "stored_offer \<Rightarrow> bool" where
  "stored_offer_range r \<longleftrightarrow> so_size r \<le> u64_max \<and> in_i64 (so_modified_ms r)"

lemma as_stored_offer_json [simp]:
  "stored_offer_range r \<Longrightarrow> as_stored_offer (stored_offer_json r) = Inr r"
  by (simp add: as_stored_offer_def stored_offer_json_def field_def stored_offer_range_def in_i64_def)

lemma as_manifest_option_json [simp]:
  "folder_manifest_range m \<Longrightarrow> as_manifest_option (folder_manifest_json m) = Inr (Some m)"
  using as_folder_manifest_json [of m]
  by (simp add: as_manifest_option_def folder_manifest_json_def)

definition manifest_range :: "folder_manifest option \<Rightarrow> bool" where
  "manifest_range m = (case m of None \<Rightarrow> True | Some x \<Rightarrow> folder_manifest_range x)"

lemma as_commit_record_json:
  "stored_offer_range (co_offer r) \<Longrightarrow> manifest_range (co_manifest r) \<Longrightarrow>
     as_commit_record (commit_record_json r) = Inr r"
  by (cases "co_manifest r")
     (simp_all add: as_commit_record_def commit_record_json_def field_def field_default_def
       manifest_field_def manifest_range_def)

lemma as_done_record_json:
  "stored_offer_range (do_offer r) \<Longrightarrow> manifest_range (do_manifest r) \<Longrightarrow>
     tr_size (do_receipt r) \<le> u64_max \<Longrightarrow> as_done_record (done_record_json r) = Inr r"
  by (cases "do_manifest r")
     (simp_all add: as_done_record_def done_record_json_def field_def field_default_def
       manifest_field_def manifest_range_def)

section \<open>Files and records on disk\<close>

definition blake3_file_hex :: "crates \<Rightarrow> path \<Rightarrow> string io" where
  "blake3_file_hex E p = io_bind (io_read p) (\<lambda>data. io_ret (hex_encode E (blake3_hash E data)))"

definition read_json_optional :: "crates \<Rightarrow> (jvalue \<Rightarrow> 'a result) \<Rightarrow> path \<Rightarrow> 'a option io" where
  "read_json_optional E decode p =
     io_match (io_read p)
       (\<lambda>data. io_bind (io_lift (bind_r (from_slice E data) decode)) (\<lambda>x. io_ret (Some x)))
       (if_not_found (io_ret None))"

definition atomic_write_json :: "crates \<Rightarrow> path \<Rightarrow> jvalue \<Rightarrow> unit io" where
  "atomic_write_json E p v =
     (let data = to_vec E v in
      io_bind io_uuid (\<lambda>u.
      let temporary = with_extension p (''tmp-'' @ u) in
      io_bind (io_create_new temporary) (\<lambda>h.
      io_then (io_write h 0 data)
      (io_then io_sync
      (io_match (io_rename temporary p) io_ret (\<lambda>_.
       let retry = io_match (io_rename temporary p) io_ret
                     (\<lambda>e. io_match (io_remove_file temporary) (\<lambda>_. io_throw e) (\<lambda>_. io_throw e))
       in io_match (io_remove_file p) (\<lambda>_. retry) (\<lambda>_. retry)))))))"

definition remove_if_exists :: "path \<Rightarrow> unit io" where
  "remove_if_exists p = io_match (io_remove_file p) io_ret (if_not_found (io_ret ()))"

definition remove_dir_all_if_exists :: "path \<Rightarrow> unit io" where
  "remove_dir_all_if_exists p =
     io_match (io_symlink_metadata p)
       (\<lambda>m. if is_symlink m then io_remove_file p
            else if is_dir m then io_remove_dir_all p
            else io_throw (InvalidTransfer ''folder checkpoint root is not a directory''))
       (if_not_found (io_ret ()))"

text \<open>
  \<open>modified_ms as u64\<close> and the time it is after the epoch: a \<open>SystemTime\<close> holds its seconds in 64 signed bits, so the
  sum never overflows.
\<close>

definition apply_modified_time :: "path \<Rightarrow> int \<Rightarrow> unit io" where
  "apply_modified_time p modified_ms =
     (let duration = modified_ms mod 2 ^ 64 in
      io_reject_if (2 ^ 63 \<le> duration div 1000) (InvalidTransfer ''modified time is out of range'')
     (io_set_mtime duration p))"

lemma apply_modified_time_eq: "apply_modified_time p modified_ms = io_set_mtime (modified_ms mod 2 ^ 64) p"
proof -
  have "modified_ms mod 2 ^ 64 < (2 ^ 64 :: int)" by simp
  then have "modified_ms mod 2 ^ 64 div 1000 < (2 ^ 63 :: int)" by simp
  then show ?thesis by (simp add: apply_modified_time_def Let_def io_reject_if_def)
qed

definition split_extension :: "string \<Rightarrow> string \<times> string" where
  "split_extension filename =
     (case rsplit_once CHR ''.'' filename of
        None \<Rightarrow> (filename, [])
      | Some (before, after) \<Rightarrow>
          if before = [] then (filename, []) else (before, CHR ''.'' # after))"

definition ensure_same_offer :: "stored_offer \<Rightarrow> stored_offer \<Rightarrow> unit result" where
  "ensure_same_offer expected actual =
     reject_if (expected \<noteq> actual)
       (InvalidTransfer ''transfer_id was reused with different metadata'') (Inr ())"

definition ensure_same_manifest :: "folder_manifest \<Rightarrow> folder_manifest option \<Rightarrow> unit result" where
  "ensure_same_manifest expected actual =
     reject_if (actual \<noteq> Some expected)
       (InvalidTransfer ''transfer_id was reused with a different folder manifest'') (Inr ())"

definition validate_destination_name :: "string \<Rightarrow> unit result" where
  "validate_destination_name name =
     reject_if (safe_filename name \<noteq> name \<or> path_file_name name \<noteq> Some name)
       (InvalidTransfer ''invalid destination in transfer state'') (Inr ())"

definition ensure_file_destination :: "crates \<Rightarrow> path \<Rightarrow> nat \<Rightarrow> string \<Rightarrow> unit io" where
  "ensure_file_destination E p n digest =
     io_bind (io_symlink_metadata p) (\<lambda>m.
     io_reject_if (is_symlink m \<or> \<not> is_file m)
       (InvalidTransfer ''file destination is not a regular file'')
     (if node_len m \<noteq> n then io_throw (DigestMismatch p)
      else io_bind (blake3_file_hex E p) (\<lambda>actual.
             io_reject_if (actual \<noteq> digest) (DigestMismatch p) (io_ret ()))))"

section \<open>The store\<close>

definition destination_root :: "store \<Rightarrow> transfer_offer \<Rightarrow> path" where
  "destination_root st offer =
     root_for (st_category_roots st) (st_inbox st) (to_kind offer) (safe_filename (to_filename offer))"

definition destination_root_stored :: "store \<Rightarrow> stored_offer \<Rightarrow> path" where
  "destination_root_stored st r =
     root_for (st_category_roots st) (st_inbox st) (so_kind r) (so_filename r)"

definition paths_of :: "store \<Rightarrow> transfer_offer \<Rightarrow> state_paths" where
  "paths_of st offer =
     (let pre = path_join (destination_root st offer @ [STATE_DIRECTORY]) (to_transfer_id offer) in
      \<lparr>sp_part = with_extension pre ''part'', sp_folder_part = with_extension pre ''folder.part'',
       sp_metadata = with_extension pre ''json'', sp_manifest = with_extension pre ''manifest.json'',
       sp_commit = with_extension pre ''commit.json'', sp_done = with_extension pre ''done.json''\<rparr>)"

text \<open>The loop over the numbered candidates.\<close>

function unique_from :: "path \<Rightarrow> string \<Rightarrow> string \<Rightarrow> nat \<Rightarrow> string io" where
  "unique_from root stem extension index =
     (if u32_max < index then io_throw (InvalidTransfer ''cannot allocate a destination filename'')
      else (let candidate = stem @ '' ('' @ dec index @ '')'' @ extension in
            io_bind (io_try_exists (path_join root candidate)) (\<lambda>b.
              if \<not> b then io_ret candidate else unique_from root stem extension (Suc index))))"
  by pat_completeness auto
termination
  by (relation "measure (\<lambda>(_, _, _, i). Suc u32_max - i)") auto

declare unique_from.simps [simp del]

definition unique_destination :: "path \<Rightarrow> string \<Rightarrow> string io" where
  "unique_destination root filename =
     io_bind (io_try_exists (path_join root filename)) (\<lambda>b.
       if \<not> b then io_ret filename
       else (case split_extension filename of (stem, extension) \<Rightarrow> unique_from root stem extension 2))"

definition receipt_of :: "stored_offer \<Rightarrow> transfer_receipt" where
  "receipt_of r = \<lparr>tr_transfer_id = so_transfer_id r, tr_size = so_size r, tr_blake3 = so_blake3 r\<rparr>"

definition validate_completed :: "crates \<Rightarrow> store \<Rightarrow> done_record \<Rightarrow> completed_transfer option io" where
  "validate_completed E st d =
     io_then (io_lift (validate_destination_name (do_destination d)))
     (let destination = path_join (destination_root_stored st (do_offer d)) (do_destination d) in
      io_bind (io_try_exists destination) (\<lambda>b.
        if \<not> b then io_ret None
        else io_then (ensure_file_destination E destination (tr_size (do_receipt d)) (tr_blake3 (do_receipt d)))
               (io_ret (Some \<lparr>ct_receipt = do_receipt d, ct_destination = destination\<rparr>))))"

definition recover_commit ::
  "crates \<Rightarrow> store \<Rightarrow> commit_record \<Rightarrow> state_paths \<Rightarrow> completed_transfer option io" where
  "recover_commit E st c ps =
     io_then (io_lift (validate_destination_name (co_destination c)))
     (let destination = path_join (destination_root_stored st (co_offer c)) (co_destination c) in
      io_bind (io_try_exists destination) (\<lambda>b.
        if \<not> b then io_ret None
        else
          io_then (ensure_file_destination E destination (so_size (co_offer c)) (so_blake3 (co_offer c)))
          (let receipt = receipt_of (co_offer c);
               record = \<lparr>do_offer = co_offer c, do_destination = co_destination c,
                         do_receipt = receipt, do_manifest = None\<rparr> in
           io_then (atomic_write_json E (sp_done ps) (done_record_json record))
           (io_then (remove_if_exists (sp_part ps))
           (io_then (remove_if_exists (sp_metadata ps))
           (io_then (remove_if_exists (sp_commit ps))
           (io_ret (Some \<lparr>ct_receipt = receipt, ct_destination = destination\<rparr>))))))))"

text \<open>The third step of \<open>prepare\<close>: the metadata record and the partial file.\<close>

definition prepare_part :: "crates \<Rightarrow> transfer_offer \<Rightarrow> state_paths \<Rightarrow> prepare_outcome io" where
  "prepare_part E offer ps =
     io_bind (read_json_optional E as_stored_offer (sp_metadata ps)) (\<lambda>stored.
     io_then
       (case stored of
          Some s \<Rightarrow> io_lift (ensure_same_offer (stored_offer_of offer) s)
        | None \<Rightarrow>
            io_bind (io_try_exists (sp_part ps)) (\<lambda>b.
            io_then (if b then remove_if_exists (sp_part ps) else io_ret ())
              (atomic_write_json E (sp_metadata ps) (stored_offer_json (stored_offer_of offer)))))
     (io_bind
       (io_match (io_metadata (sp_part ps))
          (\<lambda>m. io_ret (node_len m))
          (if_not_found (io_then (io_open True (sp_part ps)) (io_then io_sync (io_ret 0)))))
       (\<lambda>offset.
     io_reject_if (to_size offer < offset)
       (InvalidTransfer ''partial transfer is larger than the offer'')
     (io_ret (PrepareResume \<lparr>pt_part_path = sp_part ps, pt_offset = offset\<rparr>)))))"

text \<open>The second step: a commit that was interrupted.\<close>

definition prepare_commit :: "crates \<Rightarrow> store \<Rightarrow> transfer_offer \<Rightarrow> state_paths \<Rightarrow> prepare_outcome io" where
  "prepare_commit E st offer ps =
     io_bind (read_json_optional E as_commit_record (sp_commit ps)) (\<lambda>c.
     case c of
       None \<Rightarrow> prepare_part E offer ps
     | Some commit \<Rightarrow>
         io_then (io_lift (ensure_same_offer (stored_offer_of offer) (co_offer commit)))
         (io_bind (recover_commit E st commit ps) (\<lambda>r.
          case r of
            Some completed \<Rightarrow> io_ret (PrepareComplete completed)
          | None \<Rightarrow> prepare_part E offer ps)))"

definition prepare :: "crates \<Rightarrow> store \<Rightarrow> transfer_offer \<Rightarrow> prepare_outcome io" where
  "prepare E st offer =
     io_then (io_lift (offer_validate E offer))
     (io_reject_if (to_kind offer \<noteq> FileTransfer)
       (InvalidTransfer ''folder transfers are not enabled in this protocol revision'')
     (let ps = paths_of st offer in
      io_bind (read_json_optional E as_done_record (sp_done ps)) (\<lambda>d.
      case d of
        None \<Rightarrow> prepare_commit E st offer ps
      | Some record \<Rightarrow>
          io_then (io_lift (ensure_same_offer (stored_offer_of offer) (do_offer record)))
          (io_bind (validate_completed E st record) (\<lambda>r.
           case r of
             Some completed \<Rightarrow> io_ret (PrepareComplete completed)
           | None \<Rightarrow> io_then (remove_if_exists (sp_done ps)) (prepare_commit E st offer ps))))))"

text \<open>The commit record of \<open>finalize\<close>: the one on disk, or a new one with a free name.\<close>

definition commit_for ::
  "crates \<Rightarrow> store \<Rightarrow> transfer_offer \<Rightarrow> state_paths \<Rightarrow> commit_record io" where
  "commit_for E st offer ps =
     io_bind (read_json_optional E as_commit_record (sp_commit ps)) (\<lambda>c.
     case c of
       Some record \<Rightarrow>
         io_then (io_lift (ensure_same_offer (stored_offer_of offer) (co_offer record)))
         (io_then (io_lift (validate_destination_name (co_destination record)))
         (io_ret record))
     | None \<Rightarrow>
         io_bind (unique_destination (destination_root st offer) (so_filename (stored_offer_of offer)))
           (\<lambda>destination.
         let record = \<lparr>co_offer = stored_offer_of offer, co_destination = destination,
                       co_manifest = None\<rparr> in
         io_then (atomic_write_json E (sp_commit ps) (commit_record_json record))
         (io_ret record)))"

text \<open>The part of \<open>finalize\<close> after the commit record: move the file and check it again.\<close>

definition place_file :: "crates \<Rightarrow> transfer_offer \<Rightarrow> state_paths \<Rightarrow> path \<Rightarrow> unit io" where
  "place_file E offer ps destination =
     io_bind (io_try_exists destination) (\<lambda>b.
     io_then (if \<not> b then io_rename (sp_part ps) destination else io_ret ())
     (io_then (ensure_file_destination E destination (to_size offer) (to_blake3 offer))
     (apply_modified_time destination (to_modified_ms offer))))"

definition finish_file ::
  "crates \<Rightarrow> transfer_offer \<Rightarrow> state_paths \<Rightarrow> string \<Rightarrow> path \<Rightarrow> completed_transfer io" where
  "finish_file E offer ps name destination =
     (let receipt = receipt_of (stored_offer_of offer);
          record = \<lparr>do_offer = stored_offer_of offer, do_destination = name,
                    do_receipt = receipt, do_manifest = None\<rparr> in
      io_then (atomic_write_json E (sp_done ps) (done_record_json record))
      (io_then (remove_if_exists (sp_metadata ps))
      (io_then (remove_if_exists (sp_commit ps))
      (io_ret \<lparr>ct_receipt = receipt, ct_destination = destination\<rparr>))))"

definition finalize :: "crates \<Rightarrow> store \<Rightarrow> transfer_offer \<Rightarrow> completed_transfer io" where
  "finalize E st offer =
     (let ps = paths_of st offer in
      io_bind (io_metadata (sp_part ps)) (\<lambda>m.
      io_reject_if (node_len m \<noteq> to_size offer)
        (InvalidTransfer (''received '' @ dec (node_len m) @ '' of '' @ dec (to_size offer) @ '' bytes''))
      (io_bind (blake3_file_hex E (sp_part ps)) (\<lambda>actual_digest.
      if actual_digest \<noteq> to_blake3 offer
      then io_then (remove_if_exists (sp_part ps))
           (io_then (remove_if_exists (sp_metadata ps))
           (io_then (remove_if_exists (sp_commit ps))
           (io_throw (DigestMismatch (sp_part ps)))))
      else
        io_bind (commit_for E st offer ps) (\<lambda>commit.
        let destination = path_join (destination_root st offer) (co_destination commit) in
        io_then (place_file E offer ps destination)
        (finish_file E offer ps (co_destination commit) destination))))))"

text \<open>Removal of state nothing has touched for thirty days; every error is ignored.\<close>

fun prune_entries :: "int \<Rightarrow> path \<Rightarrow> string list \<Rightarrow> unit io" where
  "prune_entries now directory [] = io_ret ()"
| "prune_entries now directory (name # names) =
     (let p = directory @ [name]; rest = prune_entries now directory names in
      io_match (io_symlink_metadata p)
        (\<lambda>m. if \<not> STATE_RETENTION < now - node_mtime m then rest
             else io_match (if is_dir m then io_remove_dir_all p else io_remove_file p)
                    (\<lambda>_. rest) (\<lambda>_. rest))
        (\<lambda>_. rest))"

definition prune_stale_state :: "path \<Rightarrow> unit io" where
  "prune_stale_state directory =
     io_match (io_read_dir directory)
       (\<lambda>names. io_bind io_now (\<lambda>now. prune_entries now directory names))
       (\<lambda>_. io_ret ())"

fun open_roots :: "path list \<Rightarrow> unit io" where
  "open_roots [] = io_ret ()"
| "open_roots (root # roots) =
     (let state_directory = root @ [STATE_DIRECTORY] in
      io_then (io_create_dir_all state_directory)
      (io_then (prune_stale_state state_directory) (open_roots roots)))"

definition with_category_roots :: "path \<Rightarrow> category_roots \<Rightarrow> store io" where
  "with_category_roots inbox roots =
     io_then (open_roots (all_roots roots inbox))
       (io_ret \<lparr>st_inbox = inbox, st_category_roots = roots\<rparr>)"

end
