(* ===== verification/StoreSpec.thy ===== *)
theory StoreSpec
  imports Store
begin

text \<open>
  What the building blocks of the store do, as Hoare triples over every fault schedule
  (\<open>any\<close>) and over the schedules without faults (\<open>no_fault\<close>), on trees of files and directories.
\<close>

section \<open>Trees that agree\<close>

definition agree_except :: "path set \<Rightarrow> fs \<Rightarrow> fs \<Rightarrow> bool" where
  "agree_except S fs fs' \<longleftrightarrow> (\<forall>p. p \<notin> S \<longrightarrow> lookup fs' p = lookup fs p)"

lemma agree_refl [simp]: "agree_except S fs fs"
  by (simp add: agree_except_def)

lemma agree_trans: "agree_except S fs fs' \<Longrightarrow> agree_except S fs' fs'' \<Longrightarrow> agree_except S fs fs''"
  by (simp add: agree_except_def)

lemma agree_mono: "agree_except S fs fs' \<Longrightarrow> S \<subseteq> T \<Longrightarrow> agree_except T fs fs'"
  by (auto simp: agree_except_def)

lemma agreeD: "agree_except S fs fs' \<Longrightarrow> p \<notin> S \<Longrightarrow> lookup fs' p = lookup fs p"
  by (simp add: agree_except_def)

lemma agree_put: "p \<in> S \<Longrightarrow> p \<noteq> [] \<Longrightarrow> agree_except S fs (put_node p n fs)"
  by (auto simp: agree_except_def)

lemma agree_del: "p \<in> S \<Longrightarrow> p \<noteq> [] \<Longrightarrow> agree_except S fs (del_node p fs)"
  by (auto simp: agree_except_def)

text \<open>A record of the state directory: its name ends in \<open>.json\<close>, so it is no temporary name.\<close>

definition record_path :: "path \<Rightarrow> bool" where
  "record_path p \<longleftrightarrow> (\<exists>d stem. stem \<noteq> [] \<and> p = d @ [stem @ ''.json''])"

definition temp_path :: "path \<Rightarrow> string \<Rightarrow> path" where
  "temp_path p u = with_extension p (''tmp-'' @ u)"

lemma name_stem_json: "stem \<noteq> [] \<Longrightarrow> name_stem (stem @ ''.json'') = stem"
  by (rule name_stem_append [of "''json''", simplified]) auto

lemma temp_path_neq: "record_path p \<Longrightarrow> temp_path p u \<noteq> p"
  by (auto simp: record_path_def temp_path_def name_stem_json)

lemma temp_path_props [simp]:
  "p \<noteq> [] \<Longrightarrow> temp_path p u \<noteq> []" "p \<noteq> [] \<Longrightarrow> butlast (temp_path p u) = butlast p"
  by (simp_all add: temp_path_def with_extension_def)

lemma record_path_not_Nil [simp]: "record_path p \<Longrightarrow> p \<noteq> []"
  by (auto simp: record_path_def)

section \<open>Blocks\<close>

text \<open>A place for a regular file: its parent is a directory and it is no directory itself.\<close>

definition slot :: "fs \<Rightarrow> path \<Rightarrow> bool" where
  "slot fs p \<longleftrightarrow> in_dir fs p \<and> (\<forall>t. lookup fs p \<noteq> Some (DirN t))"

definition may_err :: "(world \<Rightarrow> bool) \<Rightarrow> bool \<Rightarrow> bool" where
  "may_err W b \<longleftrightarrow> (\<exists>k. may_fail W k) \<or> \<not> b"

lemma may_err_fail [simp]: "may_fail W k \<Longrightarrow> may_err W b"
  by (auto simp: may_err_def)

lemma may_err_clean [simp]: "may_err (clean U) b \<longleftrightarrow> \<not> b"
  by (simp add: may_err_def)

lemma may_errI: "\<not> b \<Longrightarrow> may_err W b"
  by (simp add: may_err_def)

lemma parent_error_slot: "parent_error fs p = Some e \<Longrightarrow> p \<noteq> [] \<and> \<not> in_dir fs p"
  by (cases "p = []") auto

lemma slotD: "slot fs p \<Longrightarrow> in_dir fs p" by (simp add: slot_def)

context schedule
begin

lemma try_exists_rule:
  assumes "plain_nodes fs"
    and "\<And>e. may_err W (in_dir fs p) \<Longrightarrow> Q (Inl e) fs"
    and "\<And>n. lookup fs p = Some n \<Longrightarrow> Q (Inr True) fs"
    and "lookup fs p = None \<or> \<not> in_dir fs p \<Longrightarrow> Q (Inr False) fs"
  shows "always W (io_try_exists p) fs Q"
  unfolding io_try_exists_def
proof (rule fs_call)
  fix k assume "sys_try_exists p fs = Inl k"
  then have "\<not> in_dir fs p"
    using assms(1)
    by (auto simp: sys_try_exists_def sys_metadata_def parent_error_slot
        split: option.splits sum.splits io_kind.splits)
  then show "Q (Inl (Io k)) fs" by (intro assms(2) may_errI)
next
  fix b fs' assume "sys_try_exists p fs = Inr (b, fs')"
  from sys_try_exists_free [OF assms(1) this] show "Q (Inr b) fs'"
    using assms(3,4) by (cases b) auto
qed (use assms(2) in auto)

lemma metadata_rule:
  assumes "plain_nodes fs"
    and "\<And>e. e \<noteq> Io NotFound \<Longrightarrow> may_err W (in_dir fs p) \<Longrightarrow> Q (Inl e) fs"
    and "lookup fs p = None \<or> \<not> in_dir fs p \<Longrightarrow> Q (Inl (Io NotFound)) fs"
    and "\<And>n. lookup fs p = Some n \<Longrightarrow> Q (Inr n) fs"
  shows "always W (io_metadata p) fs Q"
  unfolding io_metadata_def
proof (rule fs_call)
  fix k assume k: "sys_metadata p fs = Inl k"
  show "Q (Inl (Io k)) fs"
  proof (cases "k = NotFound")
    case True
    then show ?thesis using k assms(1,3)
      by (auto simp: sys_metadata_def parent_error_slot split: option.splits)
  next
    case False
    with k assms(1) have "\<not> in_dir fs p"
      by (auto simp: sys_metadata_def parent_error_slot split: option.splits)
    then show ?thesis using False by (intro assms(2) may_errI) auto
  qed
next
  fix n fs' assume "sys_metadata p fs = Inr (n, fs')"
  from sys_metadata_free [OF assms(1) this] show "Q (Inr n) fs'" using assms(4) by auto
qed (use assms(2) in auto)

lemma symlink_metadata_rule:
  assumes "plain_nodes fs"
    and "\<And>e. e \<noteq> Io NotFound \<Longrightarrow> may_err W (in_dir fs p) \<Longrightarrow> Q (Inl e) fs"
    and "lookup fs p = None \<or> \<not> in_dir fs p \<Longrightarrow> Q (Inl (Io NotFound)) fs"
    and "\<And>n. lookup fs p = Some n \<Longrightarrow> Q (Inr n) fs"
  shows "always W (io_symlink_metadata p) fs Q"
  unfolding io_symlink_metadata_def
proof (rule fs_call)
  fix k assume k: "sys_symlink_metadata p fs = Inl k"
  show "Q (Inl (Io k)) fs"
  proof (cases "k = NotFound")
    case True
    then show ?thesis using k assms(1,3)
      by (auto simp: sys_symlink_metadata_def parent_error_slot split: option.splits)
  next
    case False
    with k assms(1) have "\<not> in_dir fs p"
      by (auto simp: sys_symlink_metadata_def parent_error_slot split: option.splits)
    then show ?thesis using False by (intro assms(2) may_errI) auto
  qed
next
  fix n fs' assume "sys_symlink_metadata p fs = Inr (n, fs')"
  from sys_symlink_metadata_free [OF assms(1) this] show "Q (Inr n) fs'" using assms(4) by auto
qed (use assms(2) in auto)

lemma read_rule:
  assumes "plain_nodes fs"
    and "\<And>e. e \<noteq> Io NotFound \<Longrightarrow> may_err W (slot fs p) \<Longrightarrow> Q (Inl e) fs"
    and "lookup fs p = None \<or> \<not> slot fs p \<Longrightarrow> Q (Inl (Io NotFound)) fs"
    and "\<And>d m. lookup fs p = Some (FileN d m) \<Longrightarrow> Q (Inr d) fs"
  shows "always W (io_read p) fs Q"
  unfolding io_read_def
proof (rule fs_call)
  fix k assume k: "sys_read p fs = Inl k"
  show "Q (Inl (Io k)) fs"
  proof (cases "k = NotFound")
    case True
    then show ?thesis using k assms(1,3)
      by (auto simp: sys_read_def slot_def parent_error_slot is_a_directory_def
          split: option.splits node.splits)
  next
    case False
    with k assms(1) have "\<not> slot fs p"
      by (auto simp: sys_read_def slot_def parent_error_slot split: option.splits node.splits)
    then show ?thesis using False by (intro assms(2) may_errI) auto
  qed
next
  fix d fs' assume "sys_read p fs = Inr (d, fs')"
  from sys_read_free [OF assms(1) this] show "Q (Inr d) fs'" using assms(4) by auto
qed (use assms(2) in auto)

lemma remove_file_rule:
  assumes "plain_nodes fs"
    and "\<And>e. e \<noteq> Io NotFound \<Longrightarrow> may_err W (slot fs p) \<Longrightarrow> Q (Inl e) fs"
    and "lookup fs p = None \<or> \<not> slot fs p \<Longrightarrow> Q (Inl (Io NotFound)) fs"
    and "\<And>d m. p \<noteq> [] \<Longrightarrow> lookup fs p = Some (FileN d m) \<Longrightarrow> Q (Inr ()) (del_node p fs)"
  shows "always W (io_remove_file p) fs Q"
  unfolding io_remove_file_def
proof (rule fs_call)
  fix k assume k: "sys_remove_file p fs = Inl k"
  show "Q (Inl (Io k)) fs"
  proof (cases "k = NotFound")
    case True
    then show ?thesis using k assms(1,3)
      by (auto simp: sys_remove_file_def slot_def parent_error_slot is_a_directory_def
          split: option.splits node.splits)
  next
    case False
    with k assms(1) have "\<not> slot fs p"
      by (auto simp: sys_remove_file_def slot_def parent_error_slot split: option.splits node.splits)
    then show ?thesis using False by (intro assms(2) may_errI) auto
  qed
next
  fix u fs' assume "sys_remove_file p fs = Inr (u, fs')"
  from sys_remove_file_free [OF assms(1) this] show "Q (Inr u) fs'" using assms(4) by auto
qed (use assms(2) in auto)

lemma remove_if_exists_rule:
  assumes "plain_nodes fs"
    and "\<And>e. may_err W (slot fs p) \<Longrightarrow> Q (Inl e) fs"
    and "lookup fs p = None \<or> \<not> slot fs p \<Longrightarrow> Q (Inr ()) fs"
    and "\<And>d m. p \<noteq> [] \<Longrightarrow> lookup fs p = Some (FileN d m) \<Longrightarrow> Q (Inr ()) (del_node p fs)"
  shows "always W (remove_if_exists p) fs Q"
  unfolding remove_if_exists_def
  by (rule match, rule remove_file_rule [OF assms(1)])
     (auto simp: if_not_found_def intro: ret throw assms(2-))

lemma read_json_rule:
  assumes "plain_nodes fs"
    and "\<And>e. may_err W (slot fs p) \<Longrightarrow> Q (Inl e) fs"
    and "lookup fs p = None \<or> \<not> slot fs p \<Longrightarrow> Q (Inr None) fs"
    and "\<And>d m e. lookup fs p = Some (FileN d m) \<Longrightarrow> bind_r (from_slice E d) decode = Inl e \<Longrightarrow> Q (Inl e) fs"
    and "\<And>d m x. lookup fs p = Some (FileN d m) \<Longrightarrow> bind_r (from_slice E d) decode = Inr x \<Longrightarrow> Q (Inr (Some x)) fs"
  shows "always W (read_json_optional E decode p) fs Q"
  unfolding read_json_optional_def
proof (rule match, rule read_rule [OF assms(1)])
  fix d m assume d: "lookup fs p = Some (FileN d m)"
  show "case Inr d of Inl e \<Rightarrow> always W (if_not_found (io_ret None) e) fs Q
      | Inr data \<Rightarrow> always W (io_bind (io_lift (bind_r (from_slice E data) decode)) (\<lambda>x. io_ret (Some x))) fs Q"
    by (simp, rule bind, rule lift)
       (auto split: sum.split intro: ret assms(4) [OF d] assms(5) [OF d])
qed (auto simp: if_not_found_def intro: ret throw assms(2,3))

lemma blake3_file_hex_rule:
  assumes "plain_nodes fs"
    and "\<And>e. may_err W (slot fs p \<and> lookup fs p \<noteq> None) \<Longrightarrow> Q (Inl e) fs"
    and "\<And>d m. lookup fs p = Some (FileN d m) \<Longrightarrow> Q (Inr (hex_encode E (blake3_hash E d))) fs"
  shows "always W (blake3_file_hex E p) fs Q"
  unfolding blake3_file_hex_def
  by (rule bind, rule read_rule [OF assms(1)])
     (auto intro!: ret assms(2,3) simp: may_err_def)

lemma ensure_file_destination_rule:
  assumes "plain_nodes fs"
    and "\<And>e. may_err W (\<exists>d m. slot fs p \<and> lookup fs p = Some (FileN d m) \<and> length d = n \<and>
                hex_encode E (blake3_hash E d) = digest) \<Longrightarrow> Q (Inl e) fs"
    and "\<And>d m. lookup fs p = Some (FileN d m) \<Longrightarrow> length d = n \<Longrightarrow>
                hex_encode E (blake3_hash E d) = digest \<Longrightarrow> Q (Inr ()) fs"
  shows "always W (ensure_file_destination E p n digest) fs Q"
  unfolding ensure_file_destination_def
proof (rule bind, rule symlink_metadata_rule [OF assms(1)])
  fix nd assume l: "lookup fs p = Some nd"
  have "always W (io_reject_if (is_symlink nd \<or> \<not> is_file nd)
          (InvalidTransfer ''file destination is not a regular file'')
        (if node_len nd \<noteq> n then io_throw (DigestMismatch p)
         else io_bind (blake3_file_hex E p) (\<lambda>actual.
                io_reject_if (actual \<noteq> digest) (DigestMismatch p) (io_ret ())))) fs Q"
  proof (rule reject_if)
    assume "is_symlink nd \<or> \<not> is_file nd"
    then show "Q (Inl (InvalidTransfer ''file destination is not a regular file'')) fs"
      using l assms(1) by (intro assms(2) may_errI) (auto simp: is_file_def is_symlink_def split: node.splits)
  next
    assume "\<not> (is_symlink nd \<or> \<not> is_file nd)"
    then obtain d m where d: "nd = FileN d m" by (cases nd) (auto simp: is_file_def)
    show "always W (if node_len nd \<noteq> n then io_throw (DigestMismatch p)
       else io_bind (blake3_file_hex E p) (\<lambda>actual.
              io_reject_if (actual \<noteq> digest) (DigestMismatch p) (io_ret ()))) fs Q"
    proof (cases "length d = n")
      case False
      then show ?thesis using l d by (auto simp: node_len_def intro!: throw assms(2) may_errI)
    next
      case True
      then show ?thesis using l d
        by (auto simp: node_len_def may_err_def intro!: bind blake3_file_hex_rule [OF assms(1)]
            reject_if ret assms(2,3))
    qed
  qed
  then show "case Inr nd of Inl e \<Rightarrow> Q (Inl e) fs | Inr m \<Rightarrow> always W (io_reject_if (is_symlink m \<or> \<not> is_file m)
          (InvalidTransfer ''file destination is not a regular file'')
        (if node_len m \<noteq> n then io_throw (DigestMismatch p)
         else io_bind (blake3_file_hex E p) (\<lambda>actual.
                io_reject_if (actual \<noteq> digest) (DigestMismatch p) (io_ret ())))) fs Q"
    by simp
qed (auto intro!: assms(2) simp: may_err_def slot_def)

lemma rename_file_rule:
  assumes "plain_nodes fs" "lookup fs p = Some (FileN d m)" "in_dir fs p" "p \<noteq> q"
    and "\<And>e. may_err W (slot fs q) \<Longrightarrow> Q (Inl e) fs"
    and "slot fs q \<Longrightarrow> q \<noteq> [] \<Longrightarrow> Q (Inr ()) (put_node q (FileN d m) (del_node p fs))"
  shows "always W (io_rename p q) fs Q"
  unfolding io_rename_def
proof (rule fs_call)
  fix k assume "sys_rename p q fs = Inl k"
  then have "\<not> slot fs q"
    using assms(1-4)
    by (cases "q = []")
       (auto simp: sys_rename_def slot_def is_dir_def parent_error_slot
        split: option.splits node.splits if_splits)
  then show "Q (Inl (Io k)) fs" by (intro assms(5) may_errI)
next
  fix u fs' assume r: "sys_rename p q fs = Inr (u, fs')"
  from sys_rename_file_free [OF assms(1,2) r] assms(4) show "Q (Inr u) fs'"
    using assms(6) by (auto simp: slot_def)
qed (use assms(5) in auto)

lemma set_mtime_rule:
  assumes "plain_nodes fs"
    and "\<And>e. may_err W (in_dir fs p \<and> lookup fs p \<noteq> None) \<Longrightarrow> Q (Inl e) fs"
    and "\<And>n. lookup fs p = Some n \<Longrightarrow> p = [] \<Longrightarrow> Q (Inr ()) fs"
    and "\<And>n. lookup fs p = Some n \<Longrightarrow> p \<noteq> [] \<Longrightarrow> Q (Inr ()) (put_node p (set_node_mtime t n) fs)"
  shows "always W (io_set_mtime t p) fs Q"
  unfolding io_set_mtime_def
proof (rule fs_call)
  fix k assume "sys_set_mtime t p fs = Inl k"
  then have "\<not> (in_dir fs p \<and> lookup fs p \<noteq> None)"
    using assms(1) by (auto simp: sys_set_mtime_def parent_error_slot split: option.splits)
  then show "Q (Inl (Io k)) fs" by (intro assms(2) may_errI)
next
  fix u fs' assume "sys_set_mtime t p fs = Inr (u, fs')"
  from sys_set_mtime_free [OF assms(1) this] show "Q (Inr u) fs'" using assms(3,4) by auto
qed (use assms(2) in auto)

lemma open_truncate_rule:
  assumes "plain_nodes fs" "lookup fs p = None"
    and "\<And>e. may_err W (in_dir fs p) \<Longrightarrow> Q (Inl e) fs"
    and "\<And>t. p \<noteq> [] \<Longrightarrow> in_dir fs p \<Longrightarrow> Q (Inr p) (put_node p (FileN [] t) fs)"
  shows "always W (io_open True p) fs Q"
  unfolding io_open_def
proof (rule fs_call_at)
  fix k t assume "sys_open True t p fs = Inl k"
  then have "\<not> in_dir fs p"
    using assms(1,2) by (auto simp: sys_open_def parent_error_slot split: option.splits)
  then show "Q (Inl (Io k)) fs" by (intro assms(3) may_errI)
next
  fix h t fs' assume "sys_open True t p fs = Inr (h, fs')"
  from sys_open_free [OF assms(1) this] show "Q (Inr h) fs'" using assms(2,4) by auto
qed (use assms(3) in auto)

lemma create_new_rule:
  assumes "plain_nodes fs"
    and "\<And>e. may_err W (in_dir fs p \<and> lookup fs p = None) \<Longrightarrow> Q (Inl e) fs"
    and "\<And>t. p \<noteq> [] \<Longrightarrow> in_dir fs p \<Longrightarrow> lookup fs p = None \<Longrightarrow> Q (Inr p) (put_node p (FileN [] t) fs)"
  shows "always W (io_create_new p) fs Q"
  unfolding io_create_new_def
proof (rule fs_call_at)
  fix k t assume "sys_create_new t p fs = Inl k"
  then have "\<not> (in_dir fs p \<and> lookup fs p = None)"
    using assms(1)
    by (auto simp: sys_create_new_def parent_error_slot split: option.splits if_splits)
  then show "Q (Inl (Io k)) fs" by (intro assms(2) may_errI)
next
  fix h t fs' assume "sys_create_new t p fs = Inr (h, fs')"
  from sys_create_new_free [OF assms(1) this] show "Q (Inr h) fs'" using assms(3) by auto
qed (use assms(2) in auto)

end

lemma overwrite_new [simp]: "overwrite 0 data [] = data"
  by (simp add: overwrite_def)

text \<open>The trees between the steps of \<open>atomic_write_json\<close>: the temporary file is complete.\<close>

definition mid_write :: "fs \<Rightarrow> path \<Rightarrow> path \<Rightarrow> bytes \<Rightarrow> fs \<Rightarrow> bool" where
  "mid_write fs p t data fs' \<longleftrightarrow>
     plain_nodes fs' \<and> agree_except {p, t} fs fs' \<and> in_dir fs' p \<and> in_dir fs' t \<and> p \<noteq> t \<and>
     (\<exists>m. lookup fs' t = Some (FileN data m)) \<and> lookup fs t = None \<and>
     (lookup fs' p = lookup fs p \<or> lookup fs' p = None)"

lemma in_dir_agree:
  "agree_except S fs fs' \<Longrightarrow> butlast p \<notin> S \<Longrightarrow> in_dir fs' p = in_dir fs p"
  by (simp add: in_dir_def agree_except_def)

lemma not_own_parent: "p \<noteq> [] \<Longrightarrow> butlast p \<noteq> p"
  by (metis length_butlast diff_less length_greater_0_conv less_irrefl zero_less_one)

lemma mid_write_slot: "mid_write fs p t data fs' \<Longrightarrow> slot fs p \<Longrightarrow> slot fs' p"
  by (auto simp: mid_write_def slot_def)

lemma mid_write_slot_iff: "mid_write fs p t data fs' \<Longrightarrow> \<not> slot fs' p \<Longrightarrow> \<not> slot fs p"
  using mid_write_slot by blast

lemma mid_write_renamed:
  assumes "mid_write fs p t data fs'" "lookup fs' t = Some (FileN data m)"
  shows "plain_nodes (put_node p (FileN data m) (del_node t fs'))"
    and "agree_except {p} fs (put_node p (FileN data m) (del_node t fs'))"
    and "lookup (put_node p (FileN data m) (del_node t fs')) p = Some (FileN data m)"
proof -
  have ne: "p \<noteq> []" "t \<noteq> []" using assms(1) by (auto simp: mid_write_def in_dir_def)
  with assms show "plain_nodes (put_node p (FileN data m) (del_node t fs'))"
    by (auto simp: mid_write_def is_symlink_def intro!: plain_nodes_put_node plain_nodes_del_node)
  from assms(1) ne show "agree_except {p} fs (put_node p (FileN data m) (del_node t fs'))"
    by (auto simp: mid_write_def agree_except_def)
  from ne show "lookup (put_node p (FileN data m) (del_node t fs')) p = Some (FileN data m)" by simp
qed

context schedule
begin

lemma retry_rename_rule:
  assumes mid: "mid_write fs p t data fs'"
    and err: "\<And>e fs'. may_err W (slot fs p) \<Longrightarrow> plain_nodes fs' \<Longrightarrow> agree_except {p, t} fs fs' \<Longrightarrow>
          lookup fs' p = lookup fs p \<or> lookup fs' p = None \<Longrightarrow> Q (Inl e) fs'"
    and ok: "\<And>m fs'. plain_nodes fs' \<Longrightarrow> agree_except {p} fs fs' \<Longrightarrow>
          lookup fs' p = Some (FileN data m) \<Longrightarrow> Q (Inr ()) fs'"
  shows "always W (io_match (io_rename t p) io_ret
           (\<lambda>e. io_match (io_remove_file t) (\<lambda>_. io_throw e) (\<lambda>_. io_throw e))) fs' Q"
proof -
  from mid obtain m where t: "lookup fs' t = Some (FileN data m)" and lf: "plain_nodes fs'"
    and tp: "t \<noteq> p" "in_dir fs' t" and ag: "agree_except {p, t} fs fs'"
    and lp: "lookup fs' p = lookup fs p \<or> lookup fs' p = None"
    by (auto simp: mid_write_def)
  have ne: "t \<noteq> []" using tp by (simp add: in_dir_def)
  have e: "may_err W (slot fs' p) \<Longrightarrow> may_err W (slot fs p)"
    using mid_write_slot [OF mid] by (auto simp: may_err_def)
  show ?thesis
  proof (rule match, rule rename_file_rule [OF lf t tp(2,1)])
    fix er assume m: "may_err W (slot fs' p)"
    have "always W (io_match (io_remove_file t) (\<lambda>_. io_throw er) (\<lambda>_. io_throw er)) fs' Q"
    proof (rule match, rule remove_file_rule [OF lf])
      show "case Inr () of Inl e \<Rightarrow> always W (io_throw er) (del_node t fs') Q
              | Inr x \<Rightarrow> always W (io_throw er) (del_node t fs') Q"
        using ag lp tp(1) ne
        by (auto intro!: throw err e m plain_nodes_del_node lf simp: agree_except_def)
    qed (auto intro!: throw err e m lf ag lp)
    then show "case Inl er of Inl e \<Rightarrow> always W (io_match (io_remove_file t) (\<lambda>_. io_throw e) (\<lambda>_. io_throw e)) fs' Q
        | Inr x \<Rightarrow> always W (io_ret x) fs' Q" by simp
  next
    show "case Inr () of Inl e \<Rightarrow> always W (io_match (io_remove_file t) (\<lambda>_. io_throw e) (\<lambda>_. io_throw e))
            (put_node p (FileN data m) (del_node t fs')) Q
        | Inr x \<Rightarrow> always W (io_ret x) (put_node p (FileN data m) (del_node t fs')) Q"
      using mid_write_renamed [OF mid t] by (auto intro!: ret ok)
  qed
qed

lemma atomic_write_rule:
  assumes lf: "plain_nodes fs" and rp: "record_path p"
    and err: "\<And>e fs' u. may_err W (slot fs p \<and> (\<forall>u. may_draw W u \<longrightarrow> lookup fs (temp_path p u) = None)) \<Longrightarrow>
          plain_nodes fs' \<Longrightarrow> agree_except {p, temp_path p u} fs fs' \<Longrightarrow>
          lookup fs' (temp_path p u) = lookup fs (temp_path p u) \<or> lookup fs (temp_path p u) = None \<Longrightarrow>
          lookup fs' p = lookup fs p \<or> lookup fs' p = None \<Longrightarrow> Q (Inl e) fs'"
    and ok: "\<And>m fs'. plain_nodes fs' \<Longrightarrow> agree_except {p} fs fs' \<Longrightarrow>
          lookup fs' p = Some (FileN (to_vec E v) m) \<Longrightarrow> Q (Inr ()) fs'"
  shows "always W (atomic_write_json E p v) fs Q"
  unfolding atomic_write_json_def Let_def
proof (rule bind, rule uuid_drawn)
  fix u assume u: "may_draw W u"
  define t where "t = temp_path p u"
  have ne: "p \<noteq> []" "t \<noteq> []" and bl: "butlast t = butlast p" using rp by (simp_all add: t_def)
  have tp: "t \<noteq> p" using temp_path_neq [OF rp] by (simp add: t_def)
  have dir: "in_dir fs t = in_dir fs p" using ne bl by (simp add: in_dir_def)
  let ?free = "slot fs p \<and> (\<forall>u. may_draw W u \<longrightarrow> lookup fs (temp_path p u) = None)"
  let ?data = "to_vec E v"
  let ?retry = "io_match (io_rename t p) io_ret
     (\<lambda>e. io_match (io_remove_file t) (\<lambda>_. io_throw e) (\<lambda>_. io_throw e))"
  let ?rest = "io_match (io_rename t p) io_ret
     (\<lambda>_. io_match (io_remove_file p) (\<lambda>_. ?retry) (\<lambda>_. ?retry))"
  have stop: "Q (Inl e) fs'"
    if "may_err W ?free" "plain_nodes fs'" "agree_except {p, t} fs fs'" "lookup fs t = None"
      "lookup fs' p = lookup fs p \<or> lookup fs' p = None" for e fs'
    using that by (intro err [of fs' u]) (auto simp: t_def)
  have weaker: "may_err W (slot fs p) \<Longrightarrow> may_err W ?free" by (auto simp: may_err_def)
  have retry: "always W ?retry fs' Q" if mid: "mid_write fs p t ?data fs'" for fs'
    using mid by (intro retry_rename_rule [OF mid]) (auto intro!: stop ok weaker simp: mid_write_def)
  have rest: "always W ?rest fs' Q" if mid: "mid_write fs p t ?data fs'" for fs'
  proof -
    from mid obtain m where tl: "lookup fs' t = Some (FileN ?data m)" and lf': "plain_nodes fs'"
      and dt: "in_dir fs' t" by (auto simp: mid_write_def)
    have "mid_write fs p t ?data (del_node p fs')"
      using mid ne tp not_own_parent [of p] bl
      by (auto simp: mid_write_def agree_except_def in_dir_def intro: plain_nodes_del_node)
    note retry' = retry [OF mid] retry [OF this]
    show ?thesis
      using mid_write_renamed [OF mid tl]
      by (intro match rename_file_rule [OF lf' tl dt tp])
         (auto intro!: match remove_file_rule [OF lf'] retry' ret ok)
  qed
  have "always W (io_bind (io_create_new t) (\<lambda>h. io_then (io_write h 0 ?data) (io_then io_sync ?rest))) fs Q"
  proof (rule bind, rule create_new_rule [OF lf])
    fix e assume "may_err W (in_dir fs t \<and> lookup fs t = None)"
    then have "may_err W ?free" using u dir by (auto simp: may_err_def slot_def t_def)
    then show "case Inl e of Inl e \<Rightarrow> Q (Inl e) fs
        | Inr h \<Rightarrow> always W (io_then (io_write h 0 ?data) (io_then io_sync ?rest)) fs Q"
      using lf by (simp, intro err [of fs u]) auto
  next
    fix c assume new: "in_dir fs t" "lookup fs t = None"
    let ?fs1 = "put_node t (FileN [] c) fs"
    have written: "always W (io_then (io_write t 0 ?data) (io_then io_sync ?rest)) ?fs1 Q"
    proof (rule thn, rule write_all)
      fix k tm n fs' assume k: "may_fail W k"
        and w: "sys_write tm t 0 (take n ?data) ?fs1 = Inr ((), fs')"
      then have "fs' = put_node t (FileN (take n ?data) tm) ?fs1"
        using ne by (simp add: sys_write_def)
      then show "case Inl (Io (OtherIo k)) of Inl e \<Rightarrow> Q (Inl e) fs'
          | Inr x \<Rightarrow> always W (io_then io_sync ?rest) fs' Q"
        using ne tp lf k new
        by (auto intro!: stop plain_nodes_put_node simp: is_symlink_def agree_except_def)
    next
      fix tm fs' assume w: "sys_write tm t 0 ?data ?fs1 = Inr ((), fs')"
      then have fs': "fs' = put_node t (FileN ?data tm) ?fs1" using ne by (simp add: sys_write_def)
      have mid: "mid_write fs p t ?data fs'"
        using ne tp lf new dir bl not_own_parent [of t] not_own_parent [of p]
        unfolding mid_write_def fs'
        by (auto intro!: plain_nodes_put_node simp: is_symlink_def agree_except_def in_dir_def)
      have "always W (io_then io_sync ?rest) fs' Q"
        using mid new
        by (intro thn sync_all) (auto intro!: stop rest simp: mid_write_def)
      then show "case Inr () of Inl e \<Rightarrow> Q (Inl e) fs'
          | Inr x \<Rightarrow> always W (io_then io_sync ?rest) fs' Q" by simp
    qed
    then show "case Inr t of Inl e \<Rightarrow> Q (Inl e) ?fs1
        | Inr h \<Rightarrow> always W (io_then (io_write h 0 ?data) (io_then io_sync ?rest)) ?fs1 Q" by simp
  qed
  then show "case Inr u of Inl e \<Rightarrow> Q (Inl e) fs
      | Inr u \<Rightarrow> always W (io_bind (io_create_new (with_extension p (''tmp-'' @ u)))
          (\<lambda>h. io_then (io_write h 0 ?data) (io_then io_sync
            (io_match (io_rename (with_extension p (''tmp-'' @ u)) p) io_ret
              (\<lambda>_. io_match (io_remove_file p)
                (\<lambda>_. io_match (io_rename (with_extension p (''tmp-'' @ u)) p) io_ret
                   (\<lambda>e. io_match (io_remove_file (with_extension p (''tmp-'' @ u)))
                      (\<lambda>_. io_throw e) (\<lambda>_. io_throw e)))
                (\<lambda>_. io_match (io_rename (with_extension p (''tmp-'' @ u)) p) io_ret
                   (\<lambda>e. io_match (io_remove_file (with_extension p (''tmp-'' @ u)))
                      (\<lambda>_. io_throw e) (\<lambda>_. io_throw e)))))))) fs Q"
    by (simp add: t_def temp_path_def)
qed

end

end
