(* ===== verification/IdentityStore.thy ===== *)
theory IdentityStore
  imports Offer StoreSpec
begin

text \<open>
  The identity file (\<open>identity.rs\<close>): a new identity is generated once, written to a temporary file and renamed, and
  read back at every later start. Key and certificate generation are the functions of the crates; the programs run on
  the file system of \<open>FileSystem\<close>, in which every call may fail and the process may die between any two.
\<close>

section \<open>Generation\<close>

text \<open>\<open>rcgen\<close> and the random seed of one run: \<open>CertificateParams::new\<close> may fail, the key pair, the certificate for
  a common name, and the key in DER.\<close>

record keygen =
  kg_params_error :: "string option"
  kg_key_pair :: "string + bytes"
  kg_self_signed :: "string \<Rightarrow> bytes \<Rightarrow> string + bytes"
  kg_serialize_der :: "bytes \<Rightarrow> bytes"
  kg_signing_seed :: bytes

definition crypto_error :: "string + 'a \<Rightarrow> 'a result" where
  "crypto_error r = (case r of Inl e \<Rightarrow> Inl (Crypto e) | Inr x \<Rightarrow> Inr x)"

definition identity_generate ::
  "crates \<Rightarrow> keygen \<Rightarrow> string \<Rightarrow> string option \<Rightarrow> string \<Rightarrow> device_identity result" where
  "identity_generate E G fresh requested_instance_id peer_name =
     bind_r (validate_metadata fresh requested_instance_id peer_name) (\<lambda>(instance_id, name).
     bind_r (case kg_params_error G of Some e \<Rightarrow> Inl (Crypto e) | None \<Rightarrow> Inr ()) (\<lambda>_.
     bind_r (crypto_error (kg_key_pair G)) (\<lambda>tls_key.
     bind_r (crypto_error (kg_self_signed G name tls_key)) (\<lambda>tls_certificate.
     Inr \<lparr>id_instance_id = instance_id, id_peer_name = name, id_tls_certificate = tls_certificate,
          id_tls_private_key = kg_serialize_der G tls_key, id_signing_key = kg_signing_seed G,
          id_certificate_fingerprint = hex_encode E (blake3_hash E tls_certificate)\<rparr>))))"

section \<open>The file\<close>

text \<open>\<open>pretty\<close> is \<open>serde_json::to_vec_pretty\<close>.\<close>

definition identity_persist :: "crates \<Rightarrow> (jvalue \<Rightarrow> bytes) \<Rightarrow> device_identity \<Rightarrow> path \<Rightarrow> unit io" where
  "identity_persist E pretty me p =
     io_then (if p = [] then io_ret () else io_create_dir_all (butlast p))
     (let data = pretty (identity_document_json (identity_to_document E me)) in
      io_bind io_uuid (\<lambda>u.
      let temp_path = with_extension p (''tmp-'' @ u) in
      io_bind (io_create_new temp_path) (\<lambda>h.
      io_then (io_write h 0 data)
      (io_then io_sync
      (io_match (io_rename temp_path p) io_ret
        (\<lambda>e. io_match (io_remove_file temp_path) (\<lambda>_. io_throw e) (\<lambda>_. io_throw e)))))))"

definition read_identity :: "crates \<Rightarrow> bytes \<Rightarrow> device_identity result" where
  "read_identity E data = bind_r (from_slice E data) (\<lambda>v. bind_r (as_identity_document v) (from_document E))"

definition load_or_create ::
  "crates \<Rightarrow> (jvalue \<Rightarrow> bytes) \<Rightarrow> keygen \<Rightarrow> path \<Rightarrow> string option \<Rightarrow> string \<Rightarrow> device_identity io" where
  "load_or_create E pretty G p requested_instance_id peer_name =
     (let name = trim peer_name in
      io_reject_if (name = [] \<or> 255 < length name) (InvalidIdentity ''invalid peer name'')
     (io_reject_if (case requested_instance_id of Some i \<Rightarrow> \<not> valid_instance_id i | None \<Rightarrow> False)
        (InvalidIdentity ''invalid instance id'')
     (io_match (io_read p)
       (\<lambda>data. io_lift (bind_r (read_identity E data) (\<lambda>me.
          reject_if (case requested_instance_id of Some i \<Rightarrow> id_instance_id me \<noteq> i | None \<Rightarrow> False)
            (InvalidIdentity ''stored identity belongs to another instance id'') (Inr me))))
       (if_not_found
         (io_bind (case requested_instance_id of Some _ \<Rightarrow> io_ret [] | None \<Rightarrow> io_uuid) (\<lambda>fresh.
          io_bind (io_lift (identity_generate E G fresh requested_instance_id name)) (\<lambda>me.
          io_then (identity_persist E pretty me p) (io_ret me))))))))"

section \<open>What is generated and read\<close>

text \<open>The documented behaviour of the key generation: DER texts are not empty, and the seed has 32 bytes.\<close>

definition keygen_ok :: "keygen \<Rightarrow> bool" where
  "keygen_ok G \<longleftrightarrow> (\<forall>name key cert. kg_self_signed G name key = Inr cert \<longrightarrow> cert \<noteq> []) \<and>
     (\<forall>key. kg_serialize_der G key \<noteq> []) \<and> length (kg_signing_seed G) = 32"

lemma generated_ok: "keygen_ok G \<Longrightarrow> identity_generate E G fresh requested name = Inr me \<Longrightarrow> identity_ok E me"
  by (auto simp: identity_generate_def crypto_error_def result_simps validate_metadata_Inr identity_ok_def keygen_ok_def
      split: sum.splits option.splits)

lemma read_persisted:
  assumes "\<And>v. json_parse E (pretty v) = Some v" "base64_roundtrip E" "identity_ok E me"
  shows "read_identity E (pretty (identity_document_json (identity_to_document E me))) = Inr me"
proof -
  have "as_identity_document (identity_document_json (identity_to_document E me)) = Inr (identity_to_document E me)"
    by (rule as_identity_document_json) (simp add: identity_to_document_def IDENTITY_FORMAT_VERSION_def u16_max_def)
  moreover have "from_document E (identity_to_document E me) = Inr me"
    using assms(2,3)
    by (simp add: from_document_def identity_to_document_def base64_roundtrip_def identity_ok_def from_key_material_Inr)
  ultimately show ?thesis by (simp add: read_identity_def from_slice_def assms(1))
qed

section \<open>One start\<close>

definition id_path :: "fs \<Rightarrow> path \<Rightarrow> bool" where
  "id_path fs p \<longleftrightarrow> plain_nodes fs \<and> p \<noteq> [] \<and> (lookup fs p = None \<or> slot fs p)"

context schedule
begin

lemma create_dir_rule:
  assumes "plain_nodes fs" "\<And>e. Q (Inl e) fs"
    and "\<And>t. p \<noteq> [] \<Longrightarrow> lookup fs p = None \<Longrightarrow> Q (Inr ()) (put_node p (DirN t) fs)"
  shows "always W (io_create_dir p) fs Q"
  unfolding io_create_dir_def
proof (rule fs_call_at)
  fix u t fs' assume "sys_create_dir t p fs = Inr (u, fs')"
  then show "Q (Inr u) fs'"
    using assms(1,3) by (cases "p = []") (auto simp: sys_create_dir_def split: option.splits)
qed (rule assms(2))+

lemma create_dirs_rule:
  "plain_nodes fs \<Longrightarrow> \<not> prefix p (cur @ cs) \<Longrightarrow>
   always W (create_dirs cur cs) fs (\<lambda>_ fs'. plain_nodes fs' \<and> lookup fs' p = lookup fs p)"
proof (induction cs arbitrary: cur fs)
  case Nil
  then show ?case by (simp add: ret)
next
  case (Cons c cs)
  let ?Q = "\<lambda>_ fs'. plain_nodes fs' \<and> lookup fs' p = lookup fs p"
  have off: "\<not> prefix p ((cur @ [c]) @ cs)" "p \<noteq> cur @ [c]" using Cons.prems(2) by auto
  have next': "always W (create_dirs (cur @ [c]) cs) fs' ?Q" if "plain_nodes fs'" "lookup fs' p = lookup fs p" for fs'
    using Cons.IH [OF that(1) off(1)] that(2) by (auto elim: mono)
  have other: "always W (if e = Io AlreadyExists
          then io_bind (io_metadata (cur @ [c])) (\<lambda>n. if is_dir n then create_dirs (cur @ [c]) cs else io_throw e)
          else io_throw e) fs ?Q" for e
    using Cons.prems(1) by (auto intro!: throw bind metadata_rule next')
  show ?case
    unfolding create_dirs.simps
    by (rule match, rule create_dir_rule [OF Cons.prems(1)])
      (use other off Cons.prems(1) in \<open>auto intro!: next' plain_nodes_put_node simp: is_symlink_def\<close>)
qed

lemma identity_persist_rule:
  assumes p: "id_path fs p" "lookup fs p = None" "\<And>u. with_extension p (''tmp-'' @ u) \<noteq> p"
    and data: "data = pretty (identity_document_json (identity_to_document E me))"
    and err: "\<And>e fs'. plain_nodes fs' \<Longrightarrow> lookup fs' p = None \<Longrightarrow> Q (Inl e) fs'"
    and ok: "\<And>m fs'. plain_nodes fs' \<Longrightarrow> slot fs' p \<Longrightarrow> lookup fs' p = Some (FileN data m) \<Longrightarrow> Q (Inr ()) fs'"
  shows "always W (identity_persist E pretty me p) fs Q"
proof -
  have ne: "p \<noteq> []" "\<not> prefix p (butlast p)"
    using p(1) prefix_length_le [of p "butlast p"] by (cases p rule: rev_cases; auto simp: id_path_def)+
  have rest: "always W (io_bind (io_create_new t) (\<lambda>h. io_then (io_write h 0 data) (io_then io_sync
      (io_match (io_rename t p) io_ret
        (\<lambda>e. io_match (io_remove_file t) (\<lambda>_. io_throw e) (\<lambda>_. io_throw e)))))) fs1 Q"
    if t: "t = with_extension p (''tmp-'' @ u)" and fs1: "plain_nodes fs1" "lookup fs1 p = None" for t u fs1
  proof (rule bind, rule create_new_rule [OF fs1(1)])
    fix c assume new: "in_dir fs1 t" "lookup fs1 t = None"
    have tp: "t \<noteq> p" "t \<noteq> []" "butlast t = butlast p" using ne(1) p(3) t by (auto simp: with_extension_def)
    have dir: "in_dir fs1 p" using new(1) tp ne(1) by (simp add: in_dir_def)
    let ?rename = "io_match (io_rename t p) io_ret (\<lambda>e. io_match (io_remove_file t) (\<lambda>_. io_throw e) (\<lambda>_. io_throw e))"
    have step: "plain_nodes (put_node t (FileN d x) (put_node t (FileN [] c) fs1))"
        "lookup (put_node t (FileN d x) (put_node t (FileN [] c) fs1)) p = None" for d x
      using fs1 tp by (auto intro!: plain_nodes_put_node simp: is_symlink_def)
    have renamed: "always W ?rename (put_node t (FileN data x) (put_node t (FileN [] c) fs1)) Q" for x
    proof (rule retry_rename_rule [where fs = fs1 and data = data])
      show "mid_write fs1 p t data (put_node t (FileN data x) (put_node t (FileN [] c) fs1))"
        using step new tp dir ne(1) not_own_parent [of t] not_own_parent [of p]
        by (auto simp: mid_write_def agree_except_def in_dir_def)
      show "Q (Inr ()) fs'" if "plain_nodes fs'" "agree_except {p} fs1 fs'" "lookup fs' p = Some (FileN data m)" for m fs'
        using that dir in_dir_agree [OF that(2), of p] not_own_parent [OF ne(1)] by (intro ok) (auto simp: slot_def)
    qed (use fs1(2) in \<open>auto intro: err\<close>)
    show "case Inr t of Inl e \<Rightarrow> Q (Inl e) (put_node t (FileN [] c) fs1)
        | Inr h \<Rightarrow> always W (io_then (io_write h 0 data) (io_then io_sync ?rename)) (put_node t (FileN [] c) fs1) Q"
      using tp step renamed
      by (auto intro!: thn write_all sync_all err simp: sys_write_def)
  qed (use fs1 in \<open>auto intro: err\<close>)
  show ?thesis
    unfolding identity_persist_def Let_def io_create_dir_all_def
    using ne p(1,2) rest
    by (auto simp: id_path_def data intro!: thn bind uuid_drawn mono [OF create_dirs_rule] err split: sum.split)
qed

lemma load_or_create_rule:
  assumes p: "id_path fs p" "\<And>u. with_extension p (''tmp-'' @ u) \<noteq> p" and keys: "keygen_ok G"
    and there: "\<And>r. lookup fs p \<noteq> None \<Longrightarrow>
        (\<And>me. r = Inr me \<Longrightarrow> \<exists>d m. lookup fs p = Some (FileN d m) \<and> read_identity E d = Inr me) \<Longrightarrow> Q r fs"
    and failed: "\<And>e fs'. lookup fs p = None \<Longrightarrow> plain_nodes fs' \<Longrightarrow> lookup fs' p = None \<Longrightarrow> Q (Inl e) fs'"
    and made: "\<And>me m fs'. lookup fs p = None \<Longrightarrow> plain_nodes fs' \<Longrightarrow> slot fs' p \<Longrightarrow> identity_ok E me \<Longrightarrow>
        lookup fs' p = Some (FileN (pretty (identity_document_json (identity_to_document E me))) m) \<Longrightarrow> Q (Inr me) fs'"
  shows "always W (load_or_create E pretty G p requested name) fs Q"
proof -
  have same: "Q (Inl e) fs" for e using there [of "Inl e"] failed [of fs e] p(1) by (auto simp: id_path_def)
  have new: "always W (io_bind (case requested of Some _ \<Rightarrow> io_ret [] | None \<Rightarrow> io_uuid) (\<lambda>fresh.
      io_bind (io_lift (identity_generate E G fresh requested (trim name))) (\<lambda>me.
      io_then (identity_persist E pretty me p) (io_ret me)))) fs Q" if none: "lookup fs p = None"
  proof -
    have "always W (io_bind (io_lift (identity_generate E G fresh requested (trim name))) (\<lambda>me.
        io_then (identity_persist E pretty me p) (io_ret me))) fs Q" for fresh
    proof (rule bind, rule lift)
      show "case identity_generate E G fresh requested (trim name) of Inl e \<Rightarrow> Q (Inl e) fs
          | Inr me \<Rightarrow> always W (io_then (identity_persist E pretty me p) (io_ret me)) fs Q"
        using generated_ok [OF keys] made [OF none] failed [OF none]
        by (auto intro!: same thn identity_persist_rule [OF p(1) none p(2) refl] ret split: sum.split)
    qed
    then show ?thesis by (cases requested) (auto intro!: bind ret uuid_drawn)
  qed
  show ?thesis
    unfolding load_or_create_def Let_def
  proof (intro reject_if same match read_rule)
    show "plain_nodes fs" using p(1) by (simp add: id_path_def)
    fix d m assume at: "lookup fs p = Some (FileN d m)"
    show "case Inr d of Inl e \<Rightarrow> always W (if_not_found (io_bind (case requested of Some _ \<Rightarrow> io_ret [] | None \<Rightarrow> io_uuid) (\<lambda>fresh.
          io_bind (io_lift (identity_generate E G fresh requested (trim name))) (\<lambda>me.
          io_then (identity_persist E pretty me p) (io_ret me)))) e) fs Q
      | Inr data \<Rightarrow> always W (io_lift (bind_r (read_identity E data) (\<lambda>me.
          reject_if (case requested of Some i \<Rightarrow> id_instance_id me \<noteq> i | None \<Rightarrow> False)
            (InvalidIdentity ''stored identity belongs to another instance id'') (Inr me)))) fs Q"
      using at by (auto intro!: lift there simp: result_simps)
  qed (use p(1) new same in \<open>auto simp: if_not_found_def id_path_def intro: throw\<close>)
qed

lemma load_existing_rule:
  assumes "plain_nodes fs" "slot fs p" "lookup fs p = Some (FileN d m)" "read_identity E d = Inr me"
    and "trim name \<noteq> []" "length (trim name) \<le> 255" "valid_instance_id (id_instance_id me)"
    and "requested = None \<or> requested = Some (id_instance_id me)"
  shows "always W (load_or_create E pretty G p requested name) fs (\<lambda>r fs'. r = Inr me \<or> (\<exists>k. may_fail W k))"
  unfolding load_or_create_def Let_def
proof (intro reject_if match read_rule)
  fix d' m' assume "lookup fs p = Some (FileN d' m')"
  then show "case Inr d' of Inl e \<Rightarrow> always W (if_not_found (io_bind (case requested of Some _ \<Rightarrow> io_ret [] | None \<Rightarrow> io_uuid) (\<lambda>fresh.
          io_bind (io_lift (identity_generate E G fresh requested (trim name))) (\<lambda>me.
          io_then (identity_persist E pretty me p) (io_ret me)))) e) fs (\<lambda>r fs'. r = Inr me \<or> (\<exists>k. may_fail W k))
      | Inr data \<Rightarrow> always W (io_lift (bind_r (read_identity E data) (\<lambda>me.
          reject_if (case requested of Some i \<Rightarrow> id_instance_id me \<noteq> i | None \<Rightarrow> False)
            (InvalidIdentity ''stored identity belongs to another instance id'') (Inr me)))) fs (\<lambda>r fs'. r = Inr me \<or> (\<exists>k. may_fail W k))"
    using assms(3,4,8) by (auto intro!: lift)
qed (use assms in \<open>auto simp: if_not_found_def may_err_def intro!: throw\<close>)

end

section \<open>Every start\<close>

text \<open>The starts of the application one after the other, each with its own randomness, request and schedule of faults.\<close>

record id_start =
  is_keygen :: keygen
  is_requested :: "string option"
  is_name :: string
  is_world :: world

fun id_starts ::
  "crates \<Rightarrow> (jvalue \<Rightarrow> bytes) \<Rightarrow> path \<Rightarrow> id_start list \<Rightarrow> fs \<Rightarrow> device_identity result list \<times> fs" where
  "id_starts E pretty p [] fs = ([], fs)"
| "id_starts E pretty p (s # ss) fs =
     (case load_or_create E pretty (is_keygen s) p (is_requested s) (is_name s) ((is_world s)\<lparr>w_fs := fs\<rparr>) of
        (r, w) \<Rightarrow> (case id_starts E pretty p ss (w_fs w) of (rs, fs') \<Rightarrow> (r # rs, fs')))"

text \<open>The identity that is on disk.\<close>

definition identity_at :: "crates \<Rightarrow> path \<Rightarrow> fs \<Rightarrow> device_identity \<Rightarrow> bool" where
  "identity_at E p fs me \<longleftrightarrow> (\<exists>d m. lookup fs p = Some (FileN d m) \<and> read_identity E d = Inr me)"

lemma one_start:
  assumes "id_path fs p" "\<And>u. with_extension p (''tmp-'' @ u) \<noteq> p" "keygen_ok G"
    and "\<And>v. json_parse E (pretty v) = Some v" "base64_roundtrip E"
    and "load_or_create E pretty G p requested name (w\<lparr>w_fs := fs\<rparr>) = (r, w')"
  shows "id_path (w_fs w') p" "\<And>me. r = Inr me \<Longrightarrow> identity_at E p (w_fs w') me"
    "lookup fs p \<noteq> None \<Longrightarrow> w_fs w' = fs" "\<And>e. r = Inl e \<Longrightarrow> lookup (w_fs w') p = lookup fs p"
proof -
  let ?Q = "\<lambda>r fs'. id_path fs' p \<and> (\<forall>me. r = Inr me \<longrightarrow> identity_at E p fs' me) \<and>
      (lookup fs p \<noteq> None \<longrightarrow> fs' = fs) \<and> (\<forall>e. r = Inl e \<longrightarrow> lookup fs' p = lookup fs p)"
  have "always (\<lambda>_. True) (load_or_create E pretty G p requested name) fs ?Q"
    using assms(1) read_persisted [OF assms(4,5)]
    by (intro any.load_or_create_rule [OF assms(1-3)]) (auto simp: id_path_def identity_at_def)
  from alwaysD [OF this, of "w\<lparr>w_fs := fs\<rparr>"] assms(6)
  show "id_path (w_fs w') p" "\<And>me. r = Inr me \<Longrightarrow> identity_at E p (w_fs w') me"
    "lookup fs p \<noteq> None \<Longrightarrow> w_fs w' = fs" "\<And>e. r = Inl e \<Longrightarrow> lookup (w_fs w') p = lookup fs p"
    by simp_all
qed

lemma identity_at_unique: "identity_at E p fs a \<Longrightarrow> identity_at E p fs b \<Longrightarrow> a = b"
  by (auto simp: identity_at_def)

lemma starts_keep:
  assumes "\<And>u. with_extension p (''tmp-'' @ u) \<noteq> p" "\<And>v. json_parse E (pretty v) = Some v" "base64_roundtrip E"
  shows "id_path fs p \<Longrightarrow> \<forall>s \<in> set starts. keygen_ok (is_keygen s) \<Longrightarrow> id_starts E pretty p starts fs = (rs, fs') \<Longrightarrow>
    id_path fs' p \<and> (\<forall>me. Inr me \<in> set rs \<longrightarrow> identity_at E p fs' me) \<and>
    (lookup fs p \<noteq> None \<longrightarrow> fs' = fs) \<and> ((\<forall>r \<in> set rs. \<not> is_ok r) \<longrightarrow> lookup fs' p = lookup fs p)"
proof (induction starts arbitrary: fs rs)
  case (Cons s ss)
  obtain r w' where run: "load_or_create E pretty (is_keygen s) p (is_requested s) (is_name s) ((is_world s)\<lparr>w_fs := fs\<rparr>) = (r, w')"
    by fastforce
  obtain rs' where rest: "id_starts E pretty p ss (w_fs w') = (rs', fs')" "rs = r # rs'"
    using Cons.prems(3) run by (auto split: prod.splits)
  have keys: "keygen_ok (is_keygen s)" using Cons.prems(2) by simp
  note start = one_start [OF Cons.prems(1) assms(1) keys assms(2,3) run]
  have later: "id_path fs' p \<and> (\<forall>me. Inr me \<in> set rs' \<longrightarrow> identity_at E p fs' me) \<and>
    (lookup (w_fs w') p \<noteq> None \<longrightarrow> fs' = w_fs w') \<and> ((\<forall>r \<in> set rs'. \<not> is_ok r) \<longrightarrow> lookup fs' p = lookup (w_fs w') p)"
    using Cons.IH [OF start(1) _ rest(1)] Cons.prems(2) by simp
  have made: "identity_at E p fs' me" if "r = Inr me" for me
    using start(2) [OF that] later by (auto simp: identity_at_def)
  then show ?case
    using later start(3,4) rest(2) by (cases r) (auto simp: is_ok_def)
qed auto

text \<open>C33: A device keeps its identity over all restarts. Whatever fails at each start, wherever the process dies, and
  whatever keys are generated, requested and drawn: either no start has ever succeeded and the identity file is as it was
  (a half-written one is never seen), or every start that succeeded returned one and the same identity, which is the one
  on disk, and every undisturbed start with a valid name that asks for no other instance id returns it again.\<close>

theorem identity_survives_restarts:
  assumes "\<forall>v. json_parse E (pretty v) = Some v" "base64_roundtrip E"
    and "plain_nodes fs" "p \<noteq> []" "lookup fs p = None \<or> slot fs p" "\<forall>u. with_extension p (''tmp-'' @ u) \<noteq> p"
    and "\<forall>s \<in> set starts. keygen_ok (is_keygen s)" "id_starts E pretty p starts fs = (rs, fs')"
  shows "(\<forall>r \<in> set rs. \<exists>e. r = Inl e) \<and> lookup fs' p = lookup fs p \<or>
    (\<exists>me. Inr me \<in> set rs \<and> (\<forall>r \<in> set rs. r = Inr me \<or> (\<exists>e. r = Inl e)) \<and> identity_at E p fs' me \<and>
      (\<forall>w G requested name. w_fs w = fs' \<and> (\<forall>n. w_fault w n = None) \<and> trim name \<noteq> [] \<and> length (trim name) \<le> 255 \<and>
         (requested = None \<or> requested = Some (id_instance_id me)) \<longrightarrow>
         fst (load_or_create E pretty G p requested name w) = Inr me))"
proof -
  have path: "id_path fs p" using assms(3-5) by (simp add: id_path_def)
  have kept: "id_path fs' p" "\<And>me. Inr me \<in> set rs \<Longrightarrow> identity_at E p fs' me"
      "(\<forall>r \<in> set rs. \<not> is_ok r) \<Longrightarrow> lookup fs' p = lookup fs p"
    using starts_keep [OF _ _ assms(2) path assms(7,8)] assms(1,6) by blast+
  show ?thesis
  proof (cases "\<exists>me. Inr me \<in> set rs")
    case False
    then have "\<forall>r \<in> set rs. \<exists>e. r = Inl e" by (metis sum.exhaust)
    moreover from this have "\<forall>r \<in> set rs. \<not> is_ok r" by (auto simp: is_ok_def)
    ultimately show ?thesis using kept(3) by blast
  next
    case True
    then obtain me where me: "Inr me \<in> set rs" by blast
    then have at: "identity_at E p fs' me" by (rule kept(2))
    then obtain d m where stored: "lookup fs' p = Some (FileN d m)" "read_identity E d = Inr me"
      by (auto simp: identity_at_def)
    have valid: "valid_instance_id (id_instance_id me)"
      using stored(2) from_document_ok by (auto simp: read_identity_def result_simps identity_ok_def)
    have again: "fst (load_or_create E pretty G p requested name w) = Inr me"
      if "w_fs w = fs'" "\<forall>n. w_fault w n = None" "trim name \<noteq> []" "length (trim name) \<le> 255"
        "requested = None \<or> requested = Some (id_instance_id me)" for w G requested name
    proof -
      have "clean (\<lambda>_. True) w" using that(2) by (simp add: clean_def)
      moreover have "plain_nodes fs'" "slot fs' p" using kept(1) stored(1) by (auto simp: id_path_def)
      then have "always (clean (\<lambda>_. True)) (load_or_create E pretty G p requested name) fs'
          (\<lambda>r fs'. r = Inr me \<or> (\<exists>k. may_fail (clean (\<lambda>_. True)) k))"
        by (rule no_fault.load_existing_rule [OF _ _ stored that(3,4) valid that(5)])
      ultimately show ?thesis using alwaysD that(1) by fastforce
    qed
    have "\<forall>r \<in> set rs. r = Inr me \<or> (\<exists>e. r = Inl e)"
      using kept(2) identity_at_unique [OF at] by (metis sum.exhaust)
    then show ?thesis using me at again by blast
  qed
qed

text \<open>A first start on an empty disk, which makes an identity, and a second one in another world, which reads it.\<close>

definition sample_keygen :: keygen where
  "sample_keygen = \<lparr>kg_params_error = None, kg_key_pair = Inr [7], kg_self_signed = (\<lambda>name key. Inr [4, 5, 6]),
     kg_serialize_der = (\<lambda>key. 48 # key), kg_signing_seed = replicate 32 9\<rparr>"

definition calm_world :: "string \<Rightarrow> world" where
  "calm_world u = \<lparr>w_fs = [], w_calls = 0, w_fault = (\<lambda>_. None), w_short = (\<lambda>_. 0), w_now = (\<lambda>_. 0), w_uuid = (\<lambda>_. u)\<rparr>"

definition sample_start :: "string \<Rightarrow> id_start" where
  "sample_start u = \<lparr>is_keygen = sample_keygen, is_requested = Some (id_instance_id sample_identity), is_name = ''desk'',
     is_world = calm_world u\<rparr>"

lemma sample_temp_path: "with_extension [''id.json''] ext = [''id.'' @ ext]"
  using name_stem_append [of "''json''" "''id''"] by (simp add: with_extension_def)

lemma sample_first_start:
  "\<exists>me w. load_or_create sample_crates (json_print sample_crates) sample_keygen [''id.json'']
     (Some (id_instance_id sample_identity)) ''desk'' (calm_world ''1'') = (Inr me, w)"
proof -
  have name: "trim ''desk'' = ''desk''" by (rule trim_disjoint) (auto simp: ws_chars_def ws_encodings_def)
  have "valid_instance_id (id_instance_id sample_identity)" using sample_identity_ok by (simp add: identity_ok_def)
  then obtain me where made: "identity_generate sample_crates sample_keygen [] (Some (id_instance_id sample_identity)) ''desk'' = Inr me"
    by (simp add: identity_generate_def validate_metadata_def Let_def name sample_keygen_def crypto_error_def)
  have "\<exists>w. io_read [''id.json''] (calm_world ''1'') = (Inl (Io NotFound), w) \<and> w = tick (calm_world ''1'')"
    by (simp add: io_read_def io_call_def calm_world_def sys_read_def parent_error_def lookup_def resolve_all_def)
  moreover have "\<exists>w. identity_persist sample_crates (json_print sample_crates) me [''id.json''] (tick (calm_world ''1'')) = (Inr (), w)"
    by (simp add: identity_persist_def io_create_dir_all_def sample_temp_path Let_def io_then_def io_bind_def io_match_def
        io_ret_def io_uuid_def io_create_new_def io_call_def io_write_def io_sync_def io_rename_def tick_def calm_world_def
        sys_create_new_def sys_write_def sys_rename_def parent_error_def lookup_def resolve_parent_def put_node_def is_dir_def)
  ultimately show ?thesis
    using \<open>valid_instance_id (id_instance_id sample_identity)\<close>
    by (auto simp: load_or_create_def Let_def name io_reject_if_def io_match_def io_bind_def io_then_def io_lift_def io_ret_def
        if_not_found_def made)
qed

theorem identity_survives_restarts_witness:
  "\<exists>rs fs me. id_starts sample_crates (json_print sample_crates) [''id.json''] [sample_start ''1'', sample_start ''2''] [] = (rs, fs) \<and>
     Inr me \<in> set rs \<and> identity_at sample_crates [''id.json''] fs me"
proof -
  let ?run = "id_starts sample_crates (json_print sample_crates) [''id.json''] [sample_start ''1'', sample_start ''2''] []"
  obtain me w where first: "load_or_create sample_crates (json_print sample_crates) sample_keygen [''id.json'']
     (Some (id_instance_id sample_identity)) ''desk'' (calm_world ''1'') = (Inr me, w)"
    using sample_first_start by blast
  obtain rs fs where run: "?run = (rs, fs)" by fastforce
  have "(is_world (sample_start ''1''))\<lparr>w_fs := []\<rparr> = calm_world ''1''" by (simp add: sample_start_def calm_world_def)
  then have "Inr me \<in> set rs" using run first by (auto simp: sample_start_def split: prod.splits)
  moreover have "\<forall>v. json_parse sample_crates (json_print sample_crates v) = Some v"
    using sample_json_roundtrip by (simp add: json_roundtrip_def)
  moreover have "plain_nodes []" by (simp add: plain_nodes_def lookup_def)
  moreover have "\<forall>u. with_extension [''id.json''] (''tmp-'' @ u) \<noteq> [''id.json'']" by (simp add: sample_temp_path)
  moreover have "\<forall>s \<in> set [sample_start ''1'', sample_start ''2'']. keygen_ok (is_keygen s)"
    by (simp add: sample_start_def sample_keygen_def keygen_ok_def)
  ultimately show ?thesis
    using identity_survives_restarts [of sample_crates "json_print sample_crates" "[]" "[''id.json'']", OF _ _ _ _ _ _ _ run] run
    by (auto simp: lookup_def)
qed

end
