(* ===== verification/Quic.thy ===== *)
theory Quic
  imports Store
begin

text \<open>
  One bidirectional QUIC stream as an end of it sees it (\<open>transport.rs\<close>): the bytes that arrive
  and how they end, the bytes written, and a schedule that may cancel an await, let it time out
  or lose the connection at any point. QUIC delivers the bytes of a stream in order; how many
  one read returns is arbitrary. Then the steps both protocols share: control frames, the
  authentication exchange of both ends, rejections and the answer to a peer probe.
\<close>

section \<open>A stream\<close>

datatype net_fault = NetCancelled | NetTimedOut | NetLost string

text \<open>
  \<open>nt_end\<close> is how the arriving bytes end: \<open>None\<close> when the peer finished the stream, or the error of
  a reset stream or lost connection. \<open>nt_fault\<close> says which awaits fail, \<open>nt_chunk\<close> how much the
  reads return, and \<open>nt_random\<close> is the supply of random bytes.
\<close>

record net =
  nt_input :: bytes
  nt_end :: "string option"
  nt_output :: bytes
  nt_finished :: bool
  nt_step :: nat
  nt_fault :: "nat \<Rightarrow> net_fault option"
  nt_chunk :: "nat \<Rightarrow> nat"
  nt_random :: "nat \<Rightarrow> bytes"

text \<open>
  What a fault means for one kind of call; \<open>None\<close> when it does not concern the call (a call outside
  of \<open>select!\<close> is not cancelled).
\<close>

type_synonym fault_meaning = "net_fault \<Rightarrow> core_error option"

fun exchange_fault :: fault_meaning where
  "exchange_fault NetCancelled = Some Cancelled"
| "exchange_fault NetTimedOut = Some (Protocol ''QUIC authentication timed out'')"
| "exchange_fault (NetLost k) = Some (Io (OtherIo k))"

fun application_fault :: fault_meaning where
  "application_fault NetCancelled = Some Cancelled"
| "application_fault NetTimedOut = None"
| "application_fault (NetLost k) = Some (Io (OtherIo k))"

fun read_fault :: fault_meaning where
  "read_fault NetCancelled = Some Cancelled"
| "read_fault NetTimedOut = None"
| "read_fault (NetLost k) = Some (QuinnRead k)"

fun write_fault :: fault_meaning where
  "write_fault NetCancelled = Some Cancelled"
| "write_fault NetTimedOut = None"
| "write_fault (NetLost k) = Some (QuinnWrite k)"

text \<open>Calls outside of \<open>select!\<close>.\<close>

fun plain_read_fault :: fault_meaning where
  "plain_read_fault (NetLost k) = Some (QuinnRead k)"
| "plain_read_fault _ = None"

fun plain_io_fault :: fault_meaning where
  "plain_io_fault (NetLost k) = Some (Io (OtherIo k))"
| "plain_io_fault _ = None"

fun finish_fault :: fault_meaning where
  "finish_fault (NetLost k) = Some (Protocol (''finish QUIC stream: '' @ k))"
| "finish_fault _ = None"

fun finish_probe_fault :: fault_meaning where
  "finish_probe_fault (NetLost k) = Some (Protocol (''finish QUIC probe stream: '' @ k))"
| "finish_probe_fault _ = None"

text \<open>An await: the next entry of the schedule, or the call.\<close>

definition net_call :: "fault_meaning \<Rightarrow> ('z net_scheme, 'a) action \<Rightarrow> ('z net_scheme, 'a) action" where
  "net_call meaning call = (\<lambda>s.
     let s' = s\<lparr>nt_step := Suc (nt_step s)\<rparr> in
     case Option.bind (nt_fault s (nt_step s)) meaning of
       Some e \<Rightarrow> (Inl e, s')
     | None \<Rightarrow> call s')"

text \<open>\<open>read(&mut buffer[..wanted])\<close>; the empty result is the end of the stream.\<close>

definition net_read :: "fault_meaning \<Rightarrow> nat \<Rightarrow> ('z net_scheme, bytes) action" where
  "net_read meaning wanted = net_call meaning (\<lambda>s.
     if nt_input s = [] then
       (case nt_end s of None \<Rightarrow> (Inr [], s) | Some k \<Rightarrow> (Inl (QuinnRead k), s))
     else
       (let n = max 1 (min wanted (nt_chunk s (nt_step s))) in
        (Inr (take n (nt_input s)), s\<lparr>nt_input := drop n (nt_input s)\<rparr>)))"

definition net_write :: "fault_meaning \<Rightarrow> bytes \<Rightarrow> ('z net_scheme, unit) action" where
  "net_write meaning data = net_call meaning (\<lambda>s. (Inr (), s\<lparr>nt_output := nt_output s @ data\<rparr>))"

definition net_finish :: "fault_meaning \<Rightarrow> ('z net_scheme, unit) action" where
  "net_finish meaning = net_call meaning (\<lambda>s. (Inr (), s\<lparr>nt_finished := True\<rparr>))"

definition net_random :: "('z net_scheme, bytes) action" where
  "net_random = (\<lambda>s. (Inr (nt_random s (nt_step s)), s\<lparr>nt_step := Suc (nt_step s)\<rparr>))"

section \<open>Control frames on a stream\<close>

text \<open>A frame that ends early is \<open>UnexpectedEof\<close>, or the error the stream ended with.\<close>

definition net_decode ::
  "(bytes \<Rightarrow> ('a \<times> bytes) result) \<Rightarrow> ('z net_scheme, 'a) action" where
  "net_decode decode = (\<lambda>s.
     case decode (nt_input s) of
       Inr (x, rest) \<Rightarrow> (Inr x, s\<lparr>nt_input := rest\<rparr>)
     | Inl e \<Rightarrow>
         (Inl (case nt_end s of
                 Some k \<Rightarrow> if e = Io UnexpectedEof then Io (OtherIo k) else e
               | None \<Rightarrow> e), s))"

definition recv_frame ::
  "crates \<Rightarrow> fault_meaning \<Rightarrow> (jvalue \<Rightarrow> 'a result) \<Rightarrow> ('z net_scheme, 'a) action" where
  "recv_frame E meaning decode = net_call meaning (net_decode (read_frame E decode))"

definition send_frame :: "crates \<Rightarrow> fault_meaning \<Rightarrow> jvalue \<Rightarrow> ('z net_scheme, unit) action" where
  "send_frame E meaning v = io_bind (io_lift (write_frame E v)) (net_write meaning)"

text \<open>The frame of a folder manifest has a limit of its own.\<close>

definition write_manifest_frame :: "crates \<Rightarrow> folder_manifest \<Rightarrow> bytes result" where
  "write_manifest_frame E m =
     (let payload = to_vec E (folder_manifest_json m) in
      reject_if (MAX_FOLDER_MANIFEST_FRAME < length payload)
        (InvalidTransfer ''folder manifest is too large'') (Inr (put_frame payload)))"

definition read_manifest_frame :: "crates \<Rightarrow> bytes \<Rightarrow> (folder_manifest \<times> bytes) result" where
  "read_manifest_frame E bs =
     bind_r (get_frame MAX_FOLDER_MANIFEST_FRAME (InvalidTransfer ''invalid folder manifest length'') bs)
       (\<lambda>(payload, rest).
     bind_r (from_slice E payload) (\<lambda>v.
     bind_r (as_folder_manifest v) (\<lambda>m.
     bind_r (validate_manifest E m) (\<lambda>_. Inr (m, rest)))))"

section \<open>The type of a frame\<close>

text \<open>\<open>frame.get("type").and_then(Value::as_str)\<close>.\<close>

definition frame_type :: "jvalue \<Rightarrow> string option" where
  "frame_type v = Option.bind (value_get ''type'' v) value_as_str"

section \<open>Authentication structures on the wire\<close>

definition hello_json :: "authentication_hello \<Rightarrow> jvalue" where
  "hello_json h =
     JObj [(''type'', JStr (ah_type h)), (''protocol'', jnat (ah_protocol h)), (''nonce'', JStr (ah_nonce h))]"

definition as_hello :: "jvalue \<Rightarrow> authentication_hello result" where
  "as_hello v =
     bind_r (as_struct [''type'', ''protocol'', ''nonce''] [] v) (\<lambda>kvs.
     bind_r (field ''type'' as_str kvs) (\<lambda>t.
     bind_r (field ''protocol'' (as_unsigned u16_max) kvs) (\<lambda>p.
     bind_r (field ''nonce'' as_str kvs) (\<lambda>n.
     Inr \<lparr>ah_type = t, ah_protocol = p, ah_nonce = n\<rparr>))))"

definition challenge_json :: "authentication_challenge \<Rightarrow> jvalue" where
  "challenge_json c =
     JObj [(''type'', JStr (ac_type c)), (''protocol'', jnat (ac_protocol c)),
           (''client_nonce'', JStr (ac_client_nonce c)), (''nonce'', JStr (ac_nonce c))]"

definition as_challenge :: "jvalue \<Rightarrow> authentication_challenge result" where
  "as_challenge v =
     bind_r (as_struct [''type'', ''protocol'', ''client_nonce'', ''nonce''] [] v) (\<lambda>kvs.
     bind_r (field ''type'' as_str kvs) (\<lambda>t.
     bind_r (field ''protocol'' (as_unsigned u16_max) kvs) (\<lambda>p.
     bind_r (field ''client_nonce'' as_str kvs) (\<lambda>c.
     bind_r (field ''nonce'' as_str kvs) (\<lambda>n.
     Inr \<lparr>ac_type = t, ac_protocol = p, ac_client_nonce = c, ac_nonce = n\<rparr>)))))"

definition request_json :: "authenticated_request \<Rightarrow> jvalue" where
  "request_json r =
     JObj [(''type'', JStr (ar_type r)), (''protocol'', jnat (ar_protocol r)),
           (''client_nonce'', JStr (ar_client_nonce r)), (''challenge'', JStr (ar_challenge r)),
           (''payload'', ar_payload r), (''mac'', JStr (ar_mac r))]"

definition as_request :: "jvalue \<Rightarrow> authenticated_request result" where
  "as_request v =
     bind_r (as_struct [''type'', ''protocol'', ''client_nonce'', ''challenge'', ''payload'', ''mac''] [] v) (\<lambda>kvs.
     bind_r (field ''type'' as_str kvs) (\<lambda>t.
     bind_r (field ''protocol'' (as_unsigned u16_max) kvs) (\<lambda>p.
     bind_r (field ''client_nonce'' as_str kvs) (\<lambda>c.
     bind_r (field ''challenge'' as_str kvs) (\<lambda>n.
     bind_r (field ''payload'' (\<lambda>x. Inr (as_value x)) kvs) (\<lambda>x.
     bind_r (field ''mac'' as_str kvs) (\<lambda>m.
     Inr \<lparr>ar_type = t, ar_protocol = p, ar_client_nonce = c, ar_challenge = n,
          ar_payload = x, ar_mac = m\<rparr>)))))))"

text \<open>\<open>AuthenticationRejected\<close>, as its reason.\<close>

definition rejected_json :: "string \<Rightarrow> jvalue" where
  "rejected_json reason = JObj [(''type'', JStr AUTH_REJECTED_TYPE), (''reason'', JStr reason)]"

definition as_rejected :: "jvalue \<Rightarrow> string result" where
  "as_rejected v =
     bind_r (as_struct [''type'', ''reason''] [] v) (\<lambda>kvs.
     bind_r (field ''type'' as_str kvs) (\<lambda>_.
     bind_r (field ''reason'' as_str kvs) Inr))"

definition probe_request_json :: "peer_probe_request \<Rightarrow> jvalue" where
  "probe_request_json p =
     JObj [(''type'', JStr (pp_type p)), (''protocol'', jnat (pp_protocol p)), (''nonce'', JStr (pp_nonce p))]"

definition as_probe_request :: "jvalue \<Rightarrow> peer_probe_request result" where
  "as_probe_request v =
     bind_r (as_struct [''type'', ''protocol'', ''nonce''] [] v) (\<lambda>kvs.
     bind_r (field ''type'' as_str kvs) (\<lambda>t.
     bind_r (field ''protocol'' (as_unsigned u16_max) kvs) (\<lambda>p.
     bind_r (field ''nonce'' as_str kvs) (\<lambda>n.
     Inr \<lparr>pp_type = t, pp_protocol = p, pp_nonce = n\<rparr>))))"

definition probe_response_json :: "peer_probe_response \<Rightarrow> jvalue" where
  "probe_response_json r =
     JObj ([(''type'', JStr (pr_type r)), (''protocol'', jnat (pr_protocol r)),
            (''nonce'', JStr (pr_nonce r)), (''instance_id'', JStr (pr_instance_id r)),
            (''peer_name'', JStr (pr_peer_name r)), (''capabilities'', jstrs (pr_capabilities r)),
            (''public_key'', JStr (pr_public_key r)),
            (''certificate_fingerprint'', JStr (pr_certificate_fingerprint r))]
           @ str_unless_empty ''signature'' (pr_signature r))"

definition as_probe_response :: "jvalue \<Rightarrow> peer_probe_response result" where
  "as_probe_response v =
     bind_r (as_struct [''type'', ''protocol'', ''nonce'', ''instance_id'', ''peer_name'', ''capabilities'', ''public_key'', ''certificate_fingerprint''] [''signature''] v) (\<lambda>kvs.
     bind_r (field ''type'' as_str kvs) (\<lambda>t.
     bind_r (field ''protocol'' (as_unsigned u16_max) kvs) (\<lambda>p.
     bind_r (field ''nonce'' as_str kvs) (\<lambda>n.
     bind_r (field ''instance_id'' as_str kvs) (\<lambda>i.
     bind_r (field ''peer_name'' as_str kvs) (\<lambda>nm.
     bind_r (field ''capabilities'' (as_list as_str) kvs) (\<lambda>c.
     bind_r (field ''public_key'' as_str kvs) (\<lambda>k.
     bind_r (field ''certificate_fingerprint'' as_str kvs) (\<lambda>f.
     bind_r (field_default ''signature'' [] as_str kvs) (\<lambda>g.
     Inr \<lparr>pr_type = t, pr_protocol = p, pr_nonce = n, pr_instance_id = i, pr_peer_name = nm,
          pr_capabilities = c, pr_public_key = k, pr_certificate_fingerprint = f,
          pr_signature = g\<rparr>))))))))))"

section \<open>The authentication exchange\<close>

definition authenticate_incoming_request :: "crates \<Rightarrow> string \<Rightarrow> ('z net_scheme, jvalue) action" where
  "authenticate_incoming_request E shared_secret =
     io_bind (recv_frame E exchange_fault as_hello) (\<lambda>hello.
     io_bind net_random (\<lambda>nonce.
     io_bind (io_lift (challenge_new E nonce hello)) (\<lambda>challenge.
     io_then (send_frame E exchange_fault (challenge_json challenge))
     (io_bind (recv_frame E exchange_fault as_request) (\<lambda>authenticated.
      io_lift (authenticate E authenticated challenge shared_secret))))))"

definition reject_if_rejected :: "jvalue \<Rightarrow> ('s, 'a) action \<Rightarrow> ('s, 'a) action" where
  "reject_if_rejected frame k =
     (if frame_type frame = Some AUTH_REJECTED_TYPE then
        io_bind (io_lift (as_rejected frame)) (\<lambda>reason. io_throw (Protocol reason))
      else k)"

definition write_authenticated_request ::
  "crates \<Rightarrow> jvalue \<Rightarrow> string \<Rightarrow> ('z net_scheme, unit) action" where
  "write_authenticated_request E payload shared_secret =
     io_bind net_random (\<lambda>nonce.
     let hello = hello_new E nonce in
     io_then (send_frame E exchange_fault (hello_json hello))
     (io_bind (recv_frame E exchange_fault (\<lambda>v. Inr (as_value v))) (\<lambda>frame.
      reject_if_rejected frame
      (io_bind (io_lift (as_challenge frame)) (\<lambda>challenge.
       io_then (io_lift (challenge_validate_for challenge hello))
       (io_bind (io_lift (request_new E challenge (as_value payload) shared_secret)) (\<lambda>request.
        send_frame E exchange_fault (request_json request))))))))"

definition read_application_frame :: "crates \<Rightarrow> (jvalue \<Rightarrow> 'a result) \<Rightarrow> ('z net_scheme, 'a) action" where
  "read_application_frame E decode =
     io_bind (recv_frame E application_fault (\<lambda>v. Inr (as_value v))) (\<lambda>frame.
     reject_if_rejected frame (io_lift (decode frame)))"

section \<open>Rejections\<close>

text \<open>\<open>let _ = ...\<close>: the result of both calls is ignored.\<close>

definition send_and_finish :: "crates \<Rightarrow> jvalue \<Rightarrow> ('z net_scheme, unit) action" where
  "send_and_finish E v =
     (let finish = io_match (net_finish finish_fault) io_ret (\<lambda>_. io_ret ()) in
      io_match (send_frame E plain_io_fault v) (\<lambda>_. finish) (\<lambda>_. finish))"

definition reject_stream :: "crates \<Rightarrow> string \<Rightarrow> ('z net_scheme, unit) action" where
  "reject_stream E reason = send_and_finish E (transfer_response_json (Rejected reason))"

definition reject_authentication :: "crates \<Rightarrow> ('z net_scheme, unit) action" where
  "reject_authentication E = send_and_finish E (rejected_json ''shared secret authentication failed'')"

definition reject_busy :: "crates \<Rightarrow> ('z net_scheme, unit) action" where
  "reject_busy E = send_and_finish E (rejected_json ''receiver is busy; retry later'')"

text \<open>
  \<open>to_string\<close> of an error; the texts of \<open>std::io\<close> are given by \<open>io_text\<close>.
\<close>

fun error_text :: "(io_kind \<Rightarrow> string) \<Rightarrow> core_error \<Rightarrow> string" where
  "error_text io_text (InvalidRequest s) = ''invalid request: '' @ s"
| "error_text io_text (InvalidIdentity s) = ''invalid identity: '' @ s"
| "error_text io_text (InvalidTransfer s) = ''invalid transfer: '' @ s"
| "error_text io_text FingerprintMismatch = ''peer certificate fingerprint mismatch''"
| "error_text io_text Cancelled = ''transfer was cancelled''"
| "error_text io_text (TransferBusy s) = ''transfer is already active: '' @ s"
| "error_text io_text (DigestMismatch p) = ''BLAKE3 mismatch for '' @ CHR ''/'' # join_with CHR ''/'' p"
| "error_text io_text (Io k) = ''I/O error: '' @ io_text k"
| "error_text io_text (Json s) = ''JSON error: '' @ s"
| "error_text io_text (QuinnConnection s) = ''QUIC connection error: '' @ s"
| "error_text io_text (QuinnConnect s) = ''QUIC connect error: '' @ s"
| "error_text io_text (QuinnWrite s) = ''QUIC write error: '' @ s"
| "error_text io_text (QuinnRead s) = ''QUIC read error: '' @ s"
| "error_text io_text (QuinnConfig s) = ''QUIC configuration error: '' @ s"
| "error_text io_text (Crypto s) = ''cryptographic error: '' @ s"
| "error_text io_text (Protocol s) = ''protocol error: '' @ s"

section \<open>Peer probes\<close>

definition handle_probe_stream ::
  "crates \<Rightarrow> device_identity \<Rightarrow> string list \<Rightarrow> peer_probe_request \<Rightarrow> ('z net_scheme, unit) action" where
  "handle_probe_stream E identity capabilities request =
     io_bind (io_lift (probe_response_unsigned request (identity_summary E identity)
                         (id_certificate_fingerprint identity) capabilities)) (\<lambda>response.
     let signed = response\<lparr>pr_signature := sign_base64 E identity (probe_signing_bytes E response)\<rparr> in
     io_then (send_frame E plain_io_fault (probe_response_json signed))
       (net_finish finish_probe_fault))"

text \<open>
  \<open>probe_peer\<close> once the stream is open: TLS has accepted the peer's certificate by then
  (\<open>pinned_accepts\<close> below). The result is what \<open>VerifiedPeer\<close> is made of.
\<close>

definition probe_peer_stream ::
  "crates \<Rightarrow> string option \<Rightarrow> string \<Rightarrow> string \<Rightarrow> ('z net_scheme, peer_probe_response) action" where
  "probe_peer_stream E expected_instance_id certificate_fingerprint shared_secret =
     (let expected_fingerprint = to_ascii_lowercase (trim certificate_fingerprint);
          expected = map_option (\<lambda>v. to_ascii_lowercase (trim v)) expected_instance_id in
      io_bind net_random (\<lambda>nonce.
      let request = probe_new E nonce in
      io_then (write_authenticated_request E (probe_request_json request) shared_secret)
      (io_then (net_finish finish_probe_fault)
      (io_bind (read_application_frame E as_probe_response) (\<lambda>response.
       io_then (io_lift (probe_response_validate E response request expected expected_fingerprint))
       (io_ret response))))))"

text \<open>\<open>PinnedCertificateVerifier\<close>.\<close>

definition pinned_new :: "crates \<Rightarrow> string \<Rightarrow> bytes result" where
  "pinned_new E expected_fingerprint =
     (let err = InvalidIdentity ''invalid certificate fingerprint'' in
      bind_r (ok_or (hex_decode E expected_fingerprint) err) (\<lambda>expected.
      reject_if (length expected \<noteq> 32) err (Inr expected)))"

definition pinned_accepts :: "crates \<Rightarrow> bytes \<Rightarrow> bytes \<Rightarrow> bool" where
  "pinned_accepts E expected end_entity \<longleftrightarrow> blake3_hash E end_entity = expected"

end
