(* ===== verification/StoreNames.thy ===== *)
theory StoreNames
  imports StoreSpec
begin

text \<open>
  The names the store gives to received files: the offered name, sanitised, or a numbered
  variant of it. Every candidate is a sanitised name again, the candidates are distinct, and
  so the search ends with a free one unless billions of names are taken.
\<close>

definition candidate :: "string \<Rightarrow> nat \<Rightarrow> string" where
  "candidate filename index =
     (case split_extension filename of (stem, extension) \<Rightarrow>
        stem @ '' ('' @ dec index @ '')'' @ extension)"

lemma split_extension_cases:
  obtains (plain) "split_extension s = (s, [])"
  | (dot) a b where "split_extension s = (a, CHR ''.'' # b)" "a \<noteq> []" "s = a @ CHR ''.'' # b"
      "CHR ''.'' \<notin> set b"
proof (cases "rsplit_once CHR ''.'' s")
  case None
  then show ?thesis by (intro plain) (simp add: split_extension_def)
next
  case (Some ab)
  obtain a b where ab: "ab = (a, b)" by (cases ab)
  have s: "s = a @ CHR ''.'' # b" "CHR ''.'' \<notin> set b"
    using Some ab by (auto simp: rsplit_once_Some)
  show ?thesis
  proof (cases "a = []")
    case True
    then show ?thesis using Some ab by (intro plain) (simp add: split_extension_def)
  next
    case False
    then show ?thesis using Some ab s by (intro dot [of a b]) (simp_all add: split_extension_def)
  qed
qed

lemma candidate_inj: "candidate s i = candidate s j \<longleftrightarrow> i = j"
  by (cases s rule: split_extension_cases) (auto simp: candidate_def)

lemma windows_reserved_no_paren:
  assumes "windows_reserved_name s"
  shows "CHR '')'' \<notin> set (takeWhile (\<lambda>x. x \<noteq> CHR ''.'') s)"
proof
  let ?h = "takeWhile (\<lambda>x. x \<noteq> CHR ''.'') s"
  let ?u = "to_ascii_uppercase ?h"
  assume "CHR '')'' \<in> set ?h"
  moreover have "ascii_upper_char (CHR '')'') = CHR '')''" by (simp add: ascii_upper_char_def)
  ultimately have paren: "CHR '')'' \<in> set ?u"
    unfolding to_ascii_uppercase_def by (metis image_eqI image_set)
  have "?u \<in> set [''CON'', ''PRN'', ''AUX'', ''NUL''] \<or>
     (\<exists>d \<in> set [''1'', ''2'', ''3'', ''4'', ''5'', ''6'', ''7'', ''8'', ''9''].
        ?u = ''COM'' @ d \<or> ?u = ''LPT'' @ d)"
    using assms
    by (auto simp: windows_reserved_name_def Let_def hd_split_on strip_prefix_def prefix_def
        split: if_splits)
  then show False using paren by auto
qed

lemma forbidden_dec: "c \<in> set (dec i) \<Longrightarrow> \<not> forbidden_char c"
proof -
  assume "c \<in> set (dec i)"
  then have "is_digit c" by (rule dec_digits)
  then show ?thesis by (auto simp: is_digit_def forbidden_char_def)
qed

lemma dec_plain: "CHR ''/'' \<notin> set (dec i)" "CHR 0x5C \<notin> set (dec i)"
  using dec_digits [of "CHR ''/''" i] dec_digits [of "CHR 0x5C" i] by (auto simp: is_digit_def)

lemma takeWhile_dot_append:
  "takeWhile (\<lambda>x. x \<noteq> CHR ''.'') (a @ b) =
     (if CHR ''.'' \<in> set a then takeWhile (\<lambda>x. x \<noteq> CHR ''.'') a
      else a @ takeWhile (\<lambda>x. x \<noteq> CHR ''.'') b)"
  by (induction a) auto

lemma reserved_stem:
  "windows_reserved_name s \<Longrightarrow> takeWhile (\<lambda>x. x \<noteq> CHR ''.'') s = takeWhile (\<lambda>x. x \<noteq> CHR ''.'') t \<Longrightarrow>
     windows_reserved_name t"
  by (simp add: windows_reserved_name_def hd_split_on)

lemma not_reserved_numbered:
  assumes "\<not> windows_reserved_name (a @ b)" "CHR ''.'' \<in> set a \<or> b = b"
  shows "\<not> windows_reserved_name (a @ '' ('' @ dec i @ '')'' @ c) \<or> CHR ''.'' \<in> set a"
proof (cases "CHR ''.'' \<in> set a")
  case False
  have "CHR ''.'' \<notin> set (dec i)" using dec_digits [of "CHR ''.''" i] by (auto simp: is_digit_def)
  with False have "CHR '')'' \<in> set (takeWhile (\<lambda>x. x \<noteq> CHR ''.'') (a @ '' ('' @ dec i @ '')'' @ c))"
    by (simp add: takeWhile_dot_append)
  then show ?thesis using windows_reserved_no_paren by blast
qed simp

lemma candidate_safe:
  assumes "safe_name s"
  shows "safe_name (candidate s i)"
proof -
  have s: "CHR ''/'' \<notin> set s" "CHR 0x5C \<notin> set s" "\<forall>c \<in> set s. \<not> forbidden_char c"
    "\<not> windows_reserved_name s" "s \<noteq> []" "last s \<noteq> CHR ''.''" "last s \<noteq> CHR '' ''"
    using assms by (auto simp: safe_name_def bad_component_def list_ex_iff ends_with_any_def)
  obtain a e where ae: "split_extension s = (a, e)" "s = a @ e" "e = [] \<or> (hd e = CHR ''.'' \<and> a \<noteq> [])"
  proof (cases s rule: split_extension_cases)
    case plain
    show ?thesis by (rule that [OF plain]) simp_all
  next
    case (dot a b)
    show ?thesis by (rule that [OF dot(1)]) (use dot in simp_all)
  qed
  have res: "\<not> windows_reserved_name (a @ '' ('' @ dec i @ '')'' @ e)"
  proof (cases "CHR ''.'' \<in> set a")
    case True
    then show ?thesis using s(4) ae(2)
      by (auto dest: reserved_stem [of _ s] simp: takeWhile_dot_append)
  next
    case False
    then show ?thesis using not_reserved_numbered [of a e i e] s(4) ae(2) by simp
  qed
  have last: "last (a @ '' ('' @ dec i @ '')'' @ e) = (if e = [] then CHR '')'' else last s)"
    using ae(2) by simp
  have chars: "\<forall>c \<in> set (a @ '' ('' @ dec i @ '')'' @ e). \<not> forbidden_char c"
    using s(3) ae(2) forbidden_dec by (auto simp: forbidden_char_def)
  show ?thesis
    unfolding candidate_def ae(1) prod.case safe_name_def bad_component_def
    using s(1,2,6,7) ae(2) dec_plain [of i] res last chars
    by (auto simp: list_ex_iff ends_with_any_def split: if_splits)
qed

lemma validate_destination_name_iff: "validate_destination_name s = Inr () \<longleftrightarrow> safe_name s"
  by (auto simp: validate_destination_name_def result_simps safe_filename_eq_iff path_file_name_safe)

text \<open>The names the search may return.\<close>

definition candidates :: "string \<Rightarrow> string set" where
  "candidates s = insert s (candidate s ` {2..u32_max})"

lemma candidates_safe: "safe_name s \<Longrightarrow> c \<in> candidates s \<Longrightarrow> safe_name c"
  by (auto simp: candidates_def candidate_safe)

lemma lookup_keys: "lookup fs p = Some n \<Longrightarrow> p \<noteq> [] \<Longrightarrow> p \<in> fst ` set fs"
  by (force simp: lookup_def dest: map_of_SomeD)

lemma candidates_free:
  assumes "length fs < u32_max - 1"
  shows "\<exists>i \<in> {2..u32_max}. lookup fs (root @ [candidate s i]) = None"
proof (rule ccontr)
  assume "\<not> ?thesis"
  then have taken: "\<forall>i \<in> {2..u32_max}. \<exists>n. lookup fs (root @ [candidate s i]) = Some n" by auto
  have sub: "(\<lambda>i. root @ [candidate s i]) ` {2..u32_max} \<subseteq> fst ` set fs"
  proof (rule image_subsetI)
    fix i assume "i \<in> {2..u32_max}"
    with taken obtain n where "lookup fs (root @ [candidate s i]) = Some n" by blast
    then show "root @ [candidate s i] \<in> fst ` set fs" by (rule lookup_keys) simp
  qed
  have inj: "inj_on (\<lambda>i. root @ [candidate s i]) {2..u32_max}"
    by (auto simp: inj_on_def candidate_inj)
  have "u32_max - 1 = card {2..u32_max}" by simp
  also have "\<dots> = card ((\<lambda>i. root @ [candidate s i]) ` {2..u32_max})"
    using card_image [OF inj] by (rule sym)
  also have "\<dots> \<le> card (fst ` set fs)" by (rule card_mono [OF _ sub]) simp
  also have "\<dots> \<le> length fs"
    using card_image_le [of "set fs" fst] card_length [of fs] by simp
  finally show False using assms by simp
qed

section \<open>What an operation can return\<close>

definition yields :: "('s, 'a) action \<Rightarrow> ('a \<Rightarrow> bool) \<Rightarrow> bool" where
  "yields m P \<longleftrightarrow> (\<forall>s x s'. m s = (Inr x, s') \<longrightarrow> P x)"

lemma yields_ret: "P x \<Longrightarrow> yields (io_ret x) P"
  by (simp add: yields_def io_ret_def)

lemma yields_throw: "yields (io_throw e) P"
  by (simp add: yields_def io_throw_def)

lemma yields_match: "(\<And>x. yields (f x) P) \<Longrightarrow> (\<And>e. yields (g e) P) \<Longrightarrow> yields (io_match m f g) P"
  unfolding yields_def io_match_def by (auto split: prod.splits sum.splits)

lemma yields_bind: "(\<And>x. yields (f x) P) \<Longrightarrow> yields (io_bind m f) P"
  unfolding io_bind_def by (intro yields_match yields_throw)

lemma yields_then: "yields k P \<Longrightarrow> yields (io_then m k) P"
  unfolding io_then_def by (intro yields_bind)

lemma yields_reject_if: "yields k P \<Longrightarrow> yields (io_reject_if c e k) P"
  by (simp add: io_reject_if_def yields_throw)

lemma yields_if_not_found: "yields k P \<Longrightarrow> yields (if_not_found k e) P"
  by (simp add: if_not_found_def yields_throw)

lemma yields_if: "yields a P \<Longrightarrow> yields b P \<Longrightarrow> yields (if c then a else b) P"
  by simp

lemma yields_option: "yields a P \<Longrightarrow> (\<And>x. yields (f x) P) \<Longrightarrow> yields (case v of None \<Rightarrow> a | Some x \<Rightarrow> f x) P"
  by (cases v) simp_all

lemmas yields_rules = yields_ret yields_throw yields_match yields_bind yields_then yields_reject_if
  yields_if_not_found yields_if yields_option

lemma yields_bind_result:
  assumes "yields m P" "\<And>x. P x \<Longrightarrow> yields (f x) Q"
  shows "yields (io_bind m f) Q"
  using assms unfolding yields_def io_bind_def io_match_def io_throw_def by (fastforce split: prod.splits sum.splits)

lemma yields_lift: "(\<And>x. r = Inr x \<Longrightarrow> P x) \<Longrightarrow> yields (io_lift r) P"
  by (simp add: yields_def io_lift_def)

lemma bind_yields_cong:
  assumes "yields m P" "\<And>x. P x \<Longrightarrow> f x = g x"
  shows "io_bind m f = io_bind m g"
  using assms by (auto simp: yields_def io_bind_def io_match_def fun_eq_iff split: prod.split sum.split)

lemma lift_then_cong:
  assumes "\<And>x. r = Inr x \<Longrightarrow> k = k'"
  shows "io_then (io_lift r) k = io_then (io_lift r) k'"
  unfolding io_then_def
  by (rule bind_yields_cong [where P = "\<lambda>x. r = Inr x", OF yields_lift]) (use assms in blast)+

section \<open>The name of a destination is one component\<close>

text \<open>
  The store joins the name of a destination to the directory it belongs to. The name comes from a record on
  disk and is checked, or from the search above: it is one component in all cases, so the join appends it.
\<close>

lemma unique_from_yields:
  assumes "split_extension s = (stem, ext)" "safe_name s"
  shows "yields (unique_from root stem ext index) safe_name"
proof (induction "Suc u32_max - index" arbitrary: index)
  case 0
  then show ?case by (subst unique_from.simps) (simp add: yields_throw)
next
  case (Suc n)
  have "stem @ '' ('' @ dec index @ '')'' @ ext = candidate s index" by (simp add: candidate_def assms(1))
  with Suc show ?case
    by (subst unique_from.simps) (auto simp: Let_def candidate_safe assms(2) intro!: yields_rules)
qed

lemma unique_destination_yields:
  assumes "safe_name s"
  shows "yields (unique_destination root s) safe_name"
  unfolding unique_destination_def
  by (cases "split_extension s") (auto intro!: yields_rules unique_from_yields assms)

lemma stored_name_safe [simp]: "safe_name (so_filename (stored_offer_of offer))"
  by (simp add: stored_offer_of_def safe_name_safe_filename)

lemma checked_name_yields:
  "yields (io_then (io_lift (validate_destination_name (co_destination record))) (io_ret record))
     (\<lambda>c. safe_name (co_destination c))"
proof (cases "validate_destination_name (co_destination record)")
  case (Inr u)
  then show ?thesis using validate_destination_name_iff by (auto intro!: yields_rules)
qed (simp add: yields_def io_then_def io_bind_def io_match_def io_lift_def io_throw_def)

lemma commit_for_yields: "yields (commit_for E st offer ps) (\<lambda>c. safe_name (co_destination c))"
  unfolding commit_for_def Let_def
  by (intro yields_bind yields_option yields_then checked_name_yields
      yields_bind_result [OF unique_destination_yields] yields_ret) simp_all

lemma finalize_eq:
  "finalize E st offer =
     (let ps = paths_of st offer in
      io_bind (io_metadata (sp_part ps)) (\<lambda>m.
      io_reject_if (node_len m \<noteq> to_size offer)
        (InvalidTransfer (''received '' @ dec (node_len m) @ '' of '' @ dec (to_size offer) @ '' bytes''))
      (io_bind (blake3_file_hex E (sp_part ps)) (\<lambda>actual_digest.
      if actual_digest \<noteq> to_blake3 offer
      then io_then (remove_if_exists (sp_part ps))
           (io_then (remove_if_exists (sp_metadata ps))
           (io_then (remove_if_exists (sp_commit ps))
           (io_throw (DigestMismatch (sp_part ps)))))
      else
        io_bind (commit_for E st offer ps) (\<lambda>commit.
        let destination = destination_root st offer @ [co_destination commit] in
        io_then (place_file E offer ps destination)
        (finish_file E offer ps (co_destination commit) destination))))))"
proof -
  have "io_bind (commit_for E st offer ps) (\<lambda>c. io_then (place_file E offer ps (path_join root (co_destination c)))
      (finish_file E offer ps (co_destination c) (path_join root (co_destination c)))) =
    io_bind (commit_for E st offer ps) (\<lambda>c. io_then (place_file E offer ps (root @ [co_destination c]))
      (finish_file E offer ps (co_destination c) (root @ [co_destination c])))" for ps root
    by (rule bind_yields_cong [OF commit_for_yields]) simp
  then show ?thesis unfolding finalize_def Let_def by (simp only:)
qed

lemma checked_name_joined: "validate_destination_name s = Inr u \<Longrightarrow> path_join p s = p @ [s]"
  using validate_destination_name_iff [of s] by simp

lemma recover_commit_eq:
  "recover_commit E st c ps =
     io_then (io_lift (validate_destination_name (co_destination c)))
     (let destination = destination_root_stored st (co_offer c) @ [co_destination c] in
      io_bind (io_try_exists destination) (\<lambda>b.
        if \<not> b then io_ret None
        else
          io_then (ensure_file_destination E destination (so_size (co_offer c)) (so_blake3 (co_offer c)))
          (let receipt = receipt_of (co_offer c);
               record = \<lparr>do_offer = co_offer c, do_destination = co_destination c,
                         do_receipt = receipt, do_manifest = None\<rparr> in
           io_then (atomic_write_json E (sp_done ps) (done_record_json record))
           (io_then (remove_if_exists (sp_part ps))
           (io_then (remove_if_exists (sp_metadata ps))
           (io_then (remove_if_exists (sp_commit ps))
           (io_ret (Some \<lparr>ct_receipt = receipt, ct_destination = destination\<rparr>))))))))"
  unfolding recover_commit_def Let_def
  by (rule lift_then_cong) (simp only: checked_name_joined)

lemma validate_completed_eq:
  "validate_completed E st d =
     io_then (io_lift (validate_destination_name (do_destination d)))
     (let destination = destination_root_stored st (do_offer d) @ [do_destination d] in
      io_bind (io_try_exists destination) (\<lambda>b.
        if \<not> b then io_ret None
        else io_then (ensure_file_destination E destination (tr_size (do_receipt d)) (tr_blake3 (do_receipt d)))
               (io_ret (Some \<lparr>ct_receipt = do_receipt d, ct_destination = destination\<rparr>))))"
  unfolding validate_completed_def Let_def
  by (rule lift_then_cong) (simp only: checked_name_joined)

section \<open>The search for a name\<close>

context schedule
begin

lemma unique_from_rule:
  assumes lf: "plain_nodes fs" and safe: "safe_name s" and split: "split_extension s = (stem, ext)"
    and err: "\<And>e. may_err W (in_dir fs (root @ [s]) \<and>
          (\<exists>i \<in> {2..u32_max}. lookup fs (root @ [candidate s i]) = None)) \<Longrightarrow> Q (Inl e) fs"
    and ok: "\<And>c. c \<in> candidates s \<Longrightarrow> lookup fs (root @ [c]) = None \<or> \<not> in_dir fs (root @ [s]) \<Longrightarrow>
          Q (Inr c) fs"
  shows "2 \<le> index \<Longrightarrow> \<forall>i \<in> {2..<index}. lookup fs (root @ [candidate s i]) \<noteq> None \<Longrightarrow>
     always W (unique_from root stem ext index) fs Q"
proof (induction "Suc u32_max - index" arbitrary: index)
  case 0
  then have "\<not> (\<exists>i \<in> {2..u32_max}. lookup fs (root @ [candidate s i]) = None)" by auto
  then have "always W (io_throw (InvalidTransfer ''cannot allocate a destination filename'')) fs Q"
    by (auto intro!: throw err simp: may_err_def)
  with 0 show ?case by (subst unique_from.simps) simp
next
  case (Suc n)
  have c: "stem @ '' ('' @ dec index @ '')'' @ ext = candidate s index"
    by (simp add: candidate_def split)
  have dir: "in_dir fs (root @ [candidate s index]) = in_dir fs (root @ [s])"
    by (simp add: in_dir_snoc)
  have next_one: "always W (unique_from root stem ext (Suc index)) fs Q"
    if "lookup fs (root @ [candidate s index]) = Some n'" for n'
    using Suc that by (intro Suc.hyps(1)) (auto simp: less_Suc_eq)
  have "always W (io_bind (io_try_exists (root @ [candidate s index]))
      (\<lambda>b. if \<not> b then io_ret (candidate s index) else unique_from root stem ext (Suc index))) fs Q"
  proof (rule bind, rule try_exists_rule [OF lf])
    fix e assume "may_err W (in_dir fs (root @ [candidate s index]))"
    then have "Q (Inl e) fs" by (intro err) (auto simp: may_err_def dir)
    then show "case Inl e of Inl e \<Rightarrow> Q (Inl e) fs
      | Inr b \<Rightarrow> always W (if \<not> b then io_ret (candidate s index)
          else unique_from root stem ext (Suc index)) fs Q" by simp
  next
    fix n' assume "lookup fs (root @ [candidate s index]) = Some n'"
    then show "case Inr True of Inl e \<Rightarrow> Q (Inl e) fs
      | Inr b \<Rightarrow> always W (if \<not> b then io_ret (candidate s index)
          else unique_from root stem ext (Suc index)) fs Q" using next_one by simp
  next
    assume "lookup fs (root @ [candidate s index]) = None \<or> \<not> in_dir fs (root @ [candidate s index])"
    then have "Q (Inr (candidate s index)) fs"
      using Suc.hyps(2) Suc.prems(1) by (intro ok) (auto simp: candidates_def dir)
    then show "case Inr False of Inl e \<Rightarrow> Q (Inl e) fs
      | Inr b \<Rightarrow> always W (if \<not> b then io_ret (candidate s index)
          else unique_from root stem ext (Suc index)) fs Q" by (simp add: ret)
  qed
  then have "always W (let candidate = stem @ '' ('' @ dec index @ '')'' @ ext in
      io_bind (io_try_exists (path_join root candidate))
        (\<lambda>b. if \<not> b then io_ret candidate else unique_from root stem ext (Suc index))) fs Q"
    unfolding Let_def c by (simp add: candidate_safe safe)
  moreover have "\<not> u32_max < index" using Suc.hyps(2) by simp
  ultimately show ?case by (subst unique_from.simps) (simp only: if_False)
qed

lemma unique_destination_rule:
  assumes lf: "plain_nodes fs" and safe: "safe_name s"
    and err: "\<And>e. may_err W (in_dir fs (root @ [s]) \<and>
          (\<exists>i \<in> {2..u32_max}. lookup fs (root @ [candidate s i]) = None)) \<Longrightarrow> Q (Inl e) fs"
    and ok: "\<And>c. c \<in> candidates s \<Longrightarrow> lookup fs (root @ [c]) = None \<or> \<not> in_dir fs (root @ [s]) \<Longrightarrow>
          Q (Inr c) fs"
  shows "always W (unique_destination root s) fs Q"
  unfolding unique_destination_def path_join_plain [OF safe_name_plain [OF safe]]
proof (rule bind, rule try_exists_rule [OF lf])
  fix e assume "may_err W (in_dir fs (root @ [s]))"
  then show "case Inl e of Inl e \<Rightarrow> Q (Inl e) fs
      | Inr b \<Rightarrow> always W (if \<not> b then io_ret s else case split_extension s of
          (stem, extension) \<Rightarrow> unique_from root stem extension 2) fs Q"
    by (auto intro!: err simp: may_err_def)
next
  obtain stem ext where se: "split_extension s = (stem, ext)" by (cases "split_extension s")
  have "always W (unique_from root stem ext 2) fs Q"
    by (rule unique_from_rule [OF lf safe se]) (auto intro: err ok)
  then show "case Inr True of Inl e \<Rightarrow> Q (Inl e) fs
      | Inr b \<Rightarrow> always W (if \<not> b then io_ret s else case split_extension s of
          (stem, extension) \<Rightarrow> unique_from root stem extension 2) fs Q"
    by (simp add: se)
next
  assume "lookup fs (root @ [s]) = None \<or> \<not> in_dir fs (root @ [s])"
  then show "case Inr False of Inl e \<Rightarrow> Q (Inl e) fs
      | Inr b \<Rightarrow> always W (if \<not> b then io_ret s else case split_extension s of
          (stem, extension) \<Rightarrow> unique_from root stem extension 2) fs Q"
    by (auto intro!: ret ok simp: candidates_def)
qed

end

end
