(* ===== verification/StoreKeep.thy ===== *)
theory StoreKeep
  imports StoreNames
begin

text \<open>
  No operation of the store changes the content of a file outside its state directory, or
  removes one, whatever fails on the way: received files and everything else the user keeps in
  the inbox are safe from later transfers. The relation between the trees before and after is
  an instance of \<open>run_relation\<close>, so it is shown for the calls and carried to the operations by
  the rules of that locale.
\<close>

section \<open>The paths of a transfer\<close>

lemma with_extension_two [simp]:
  "with_extension (d @ [x, f]) ext = d @ [x, name_stem f @ ''.'' @ ext]"
  using with_extension_snoc [of "d @ [x]" f ext] by simp

lemma name_stem_records [simp]:
  assumes "tid \<noteq> []"
  shows "name_stem (tid @ ''.json'') = tid"
    and "name_stem (tid @ ''.commit.json'') = tid @ ''.commit''"
    and "name_stem (tid @ ''.done.json'') = tid @ ''.done''"
    and "name_stem (tid @ ''.manifest.json'') = tid @ ''.manifest''"
  using assms name_stem_json [of tid] name_stem_json [of "tid @ ''.commit''"]
    name_stem_json [of "tid @ ''.done''"] name_stem_json [of "tid @ ''.manifest''"]
  by simp_all

text \<open>The text of a UUID is one component without a dot.\<close>

definition id_name :: "string \<Rightarrow> bool" where
  "id_name s \<longleftrightarrow> s \<noteq> [] \<and> CHR ''/'' \<notin> set s \<and> CHR ''.'' \<notin> set s"

lemma id_name_plain [simp]: "id_name s \<Longrightarrow> plain_name s"
  by (auto simp: id_name_def plain_name_def)

lemma id_name_stem [simp]: "id_name s \<Longrightarrow> name_stem s = s"
  by (simp add: id_name_def name_stem_plain)

lemma id_name_ne: "id_name s \<Longrightarrow> s \<noteq> []"
  by (simp add: id_name_def)

lemma uuid_id_name: "uuid_plain E \<Longrightarrow> uuid_parses E s \<Longrightarrow> id_name s \<and> s \<noteq> []"
  by (auto simp: uuid_plain_def id_name_def)

lemma paths_of_simps:
  fixes st :: store
  assumes "id_name (to_transfer_id offer)"
  defines "d \<equiv> destination_root st offer @ [STATE_DIRECTORY]"
  shows "sp_part (paths_of st offer) = d @ [to_transfer_id offer @ ''.part'']"
    and "sp_metadata (paths_of st offer) = d @ [to_transfer_id offer @ ''.json'']"
    and "sp_commit (paths_of st offer) = d @ [to_transfer_id offer @ ''.commit.json'']"
    and "sp_done (paths_of st offer) = d @ [to_transfer_id offer @ ''.done.json'']"
    and "sp_manifest (paths_of st offer) = d @ [to_transfer_id offer @ ''.manifest.json'']"
    and "sp_folder_part (paths_of st offer) = d @ [to_transfer_id offer @ ''.folder.part'']"
  using assms(1)
  by (simp_all add: paths_of_def Let_def d_def)

definition state_dir :: "store \<Rightarrow> transfer_offer \<Rightarrow> path" where
  "state_dir st offer = destination_root st offer @ [STATE_DIRECTORY]"

lemma paths_in_state_dir:
  assumes "id_name (to_transfer_id offer)"
  shows "\<exists>x. sp_part (paths_of st offer) = state_dir st offer @ [x]"
  "\<exists>x. sp_metadata (paths_of st offer) = state_dir st offer @ [x]"
  "\<exists>x. sp_commit (paths_of st offer) = state_dir st offer @ [x]"
  "\<exists>x. sp_done (paths_of st offer) = state_dir st offer @ [x]"
  using assms by (simp_all add: paths_of_def Let_def state_dir_def)

lemma record_path_append: "stem \<noteq> [] \<Longrightarrow> record_path (d @ [x, stem @ ''.json''])"
  unfolding record_path_def by (intro exI [of _ "d @ [x]"] exI [of _ stem]) simp

lemma records_of_transfer:
  assumes "id_name (to_transfer_id offer)" "to_transfer_id offer \<noteq> []"
  shows "record_path (sp_metadata (paths_of st offer))"
    and "record_path (sp_commit (paths_of st offer))"
    and "record_path (sp_done (paths_of st offer))"
  using assms
    record_path_append [of "to_transfer_id offer"]
    record_path_append [of "to_transfer_id offer @ ''.commit''"]
    record_path_append [of "to_transfer_id offer @ ''.done''"]
  by (simp_all add: paths_of_simps)

section \<open>The relation\<close>

definition files_kept :: "path \<Rightarrow> fs \<Rightarrow> fs \<Rightarrow> bool" where
  "files_kept D fs fs' \<longleftrightarrow>
     (\<forall>p d m. \<not> prefix D p \<longrightarrow> lookup fs p = Some (FileN d m) \<longrightarrow>
        (\<exists>m'. lookup fs' p = Some (FileN d m')))"

lemma files_kept_refl [simp]: "files_kept D fs fs"
  by (simp add: files_kept_def)

lemma files_kept_trans: "files_kept D fs fs' \<Longrightarrow> files_kept D fs' fs'' \<Longrightarrow> files_kept D fs fs''"
  unfolding files_kept_def by meson

lemma files_kept_agree: "agree_except S fs fs' \<Longrightarrow> \<forall>p \<in> S. prefix D p \<Longrightarrow> files_kept D fs fs'"
  by (auto simp: files_kept_def agree_except_def)

lemma files_kept_put_new:
  "p \<noteq> [] \<Longrightarrow> \<forall>d m. lookup fs p \<noteq> Some (FileN d m) \<Longrightarrow> files_kept D fs (put_node p n fs)"
  by (auto simp: files_kept_def)

text \<open>Only files and directories, and the partial file is no directory.\<close>

definition plain_tree :: "path \<Rightarrow> fs \<Rightarrow> bool" where
  "plain_tree part fs \<longleftrightarrow> plain_nodes fs \<and> (\<forall>t. lookup fs part \<noteq> Some (DirN t))"

definition kept_run :: "path \<Rightarrow> path \<Rightarrow> world \<Rightarrow> world \<Rightarrow> bool" where
  "kept_run D part w w' \<longleftrightarrow>
     (plain_tree part (w_fs w) \<longrightarrow>
        plain_tree part (w_fs w') \<and> files_kept D (w_fs w) (w_fs w'))"

interpretation kept: run_relation "kept_run D part" for D part
  by unfold_locales (auto simp: kept_run_def intro: files_kept_trans)

lemma keptI:
  assumes "\<And>fs. plain_nodes fs \<Longrightarrow> (\<And>t. lookup fs part \<noteq> Some (DirN t)) \<Longrightarrow>
     always (\<lambda>_. True) m fs (\<lambda>r fs'. plain_tree part fs' \<and> files_kept D fs fs')"
  shows "kept.keeps D part m"
  unfolding kept.keeps_def kept_run_def
  using assms by (auto simp: always_def plain_tree_def)

lemma keptD:
  "kept.keeps D part m \<Longrightarrow> plain_tree part (w_fs w) \<Longrightarrow>
     plain_tree part (w_fs (snd (m w))) \<and> files_kept D (w_fs w) (w_fs (snd (m w)))"
  by (simp add: kept.keeps_def kept_run_def)

lemma plain_tree_same [simp]: "plain_nodes fs \<Longrightarrow> (\<And>t. lookup fs part \<noteq> Some (DirN t)) \<Longrightarrow> plain_tree part fs"
  by (simp add: plain_tree_def)

lemma plain_tree_put_file:
  "plain_nodes fs \<Longrightarrow> (\<And>t. lookup fs part \<noteq> Some (DirN t)) \<Longrightarrow> p \<noteq> [] \<Longrightarrow>
     plain_tree part (put_node p (FileN d m) fs)"
  by (auto simp: plain_tree_def is_symlink_def intro: plain_nodes_put_node)

lemma kept_try_exists: "kept.keeps D part (io_try_exists p)"
  by (rule keptI, rule any.try_exists_rule) simp_all

lemma kept_metadata: "kept.keeps D part (io_metadata p)"
  by (rule keptI, rule any.metadata_rule) simp_all

lemma kept_symlink_metadata: "kept.keeps D part (io_symlink_metadata p)"
  by (rule keptI, rule any.symlink_metadata_rule) simp_all

lemma kept_read: "kept.keeps D part (io_read p)"
  by (rule keptI, rule any.read_rule) simp_all

lemma kept_sync: "kept.keeps D part io_sync"
  by (rule keptI, rule any.sync_all) simp_all

lemma kept_remove_if_exists:
  assumes "prefix D p"
  shows "kept.keeps D part (remove_if_exists p)"
proof (rule keptI, rule any.remove_if_exists_rule)
  fix fs d m assume "plain_nodes fs" "\<And>t. lookup fs part \<noteq> Some (DirN t)" "p \<noteq> []"
  then show "plain_tree part (del_node p fs) \<and> files_kept D fs (del_node p fs)"
    using assms by (auto simp: plain_tree_def files_kept_def intro: plain_nodes_del_node)
qed simp_all

lemma prefix_temp: "prefix D (temp_path (D @ [x]) u)"
  by (simp add: temp_path_def)

lemma kept_atomic_write:
  assumes "record_path p" "p = D @ [x]" "part \<noteq> p" "\<And>u. part \<noteq> temp_path p u"
  shows "kept.keeps D part (atomic_write_json E p v)"
proof (rule keptI, rule any.atomic_write_rule)
  fix fs fs' u
  assume fs: "\<And>t. lookup fs part \<noteq> Some (DirN t)" "plain_nodes fs'"
    "agree_except {p, temp_path p u} fs fs'"
  have "lookup fs' part = lookup fs part" using assms(3,4) by (intro agreeD [OF fs(3)]) auto
  moreover have "files_kept D fs fs'"
    using fs(3) by (rule files_kept_agree) (auto simp: assms(2) prefix_temp)
  ultimately show "plain_tree part fs' \<and> files_kept D fs fs'" using fs by simp
next
  fix m fs fs'
  assume fs: "\<And>t. lookup fs part \<noteq> Some (DirN t)" "plain_nodes fs'" "agree_except {p} fs fs'"
  have "lookup fs' part = lookup fs part" using assms(3) by (intro agreeD [OF fs(3)]) auto
  moreover have "files_kept D fs fs'"
    using fs(3) by (rule files_kept_agree) (auto simp: assms(2))
  ultimately show "plain_tree part fs' \<and> files_kept D fs fs'" using fs by simp
qed (use assms in auto)

lemma kept_open_part:
  assumes "prefix D p"
  shows "kept.keeps D part (io_open True p)"
proof (rule keptI)
  fix fs assume fs: "plain_nodes fs" "\<And>t. lookup fs part \<noteq> Some (DirN t)"
  show "always (\<lambda>_. True) (io_open True p) fs (\<lambda>r fs'. plain_tree part fs' \<and> files_kept D fs fs')"
    unfolding io_open_def
  proof (rule any.fs_call_at)
    fix h t fs' assume "sys_open True t p fs = Inr (h, fs')"
    from sys_open_free [OF fs(1) this] have "p \<noteq> []" "fs' = put_node p (FileN [] t) fs" by auto
    then show "plain_tree part fs' \<and> files_kept D fs fs'"
      using fs assms by (auto simp: plain_tree_put_file files_kept_def)
  qed (use fs in auto)
qed

lemma rename_plain_rule:
  assumes "plain_nodes fs" "\<And>t. lookup fs p \<noteq> Some (DirN t)" "p \<noteq> q"
    and "\<And>e. Q (Inl e) fs"
    and "\<And>d m. lookup fs p = Some (FileN d m) \<Longrightarrow> p \<noteq> [] \<Longrightarrow> slot fs q \<Longrightarrow>
           Q (Inr ()) (put_node q (FileN d m) (del_node p fs))"
  shows "always (\<lambda>_. True) (io_rename p q) fs Q"
  unfolding io_rename_def
proof (rule any.fs_call)
  fix u fs' assume r: "sys_rename p q fs = Inr (u, fs')"
  show "Q (Inr u) fs'"
  proof (cases "lookup fs p")
    case None
    then show ?thesis using r assms(1)
      by (auto simp: sys_rename_def split: option.splits)
  next
    case (Some n)
    then obtain d m where "lookup fs p = Some (FileN d m)"
      using assms(1,2) by (cases n) auto
    with sys_rename_file_free [OF assms(1) this r] assms(3,5) show ?thesis
      by (auto simp: slot_def)
  qed
qed (use assms(4) in auto)

lemma kept_ensure_file_destination: "kept.keeps D part (ensure_file_destination E p n digest)"
  unfolding ensure_file_destination_def blake3_file_hex_def
  by (intro kept.keeps_rules kept_read kept_symlink_metadata)

lemma kept_read_json: "kept.keeps D part (read_json_optional E decode p)"
  unfolding read_json_optional_def by (intro kept.keeps_rules kept_read)

lemma kept_set_mtime:
  assumes "p \<noteq> part"
  shows "kept.keeps D part (io_set_mtime t p)"
proof (rule keptI, rule any.set_mtime_rule)
  fix fs n assume fs: "plain_nodes fs" "\<And>t. lookup fs part \<noteq> Some (DirN t)" "lookup fs p = Some n" "p \<noteq> []"
  then have "\<not> is_symlink (set_node_mtime t n)" "\<not> is_special (set_node_mtime t n)"
    by (cases n; auto simp: is_symlink_def set_node_mtime_def)+
  then show "plain_tree part (put_node p (set_node_mtime t n) fs) \<and>
      files_kept D fs (put_node p (set_node_mtime t n) fs)"
    using fs assms
    by (auto simp: plain_tree_def files_kept_def set_node_mtime_def intro!: plain_nodes_put_node split: node.splits)
qed simp_all

lemma kept_move:
  assumes "prefix D part" "part \<noteq> q" "q \<noteq> []"
  shows "kept.keeps D part
     (io_bind (io_try_exists q) (\<lambda>b. if \<not> b then io_rename part q else io_ret ()))"
proof (rule keptI, rule any.bind, rule any.try_exists_rule)
  fix fs assume fs: "plain_nodes fs" "\<And>t. lookup fs part \<noteq> Some (DirN t)"
    and none: "lookup fs q = None \<or> \<not> in_dir fs q"
  have "always (\<lambda>_. True) (io_rename part q) fs (\<lambda>r fs'. plain_tree part fs' \<and> files_kept D fs fs')"
  proof (rule rename_plain_rule [OF fs assms(2)])
    fix d m assume s: "slot fs q" "part \<noteq> []"
    then have "lookup fs q = None" using none by (simp add: slot_def)
    then show "plain_tree part (put_node q (FileN d m) (del_node part fs)) \<and>
        files_kept D fs (put_node q (FileN d m) (del_node part fs))"
      using fs s assms
      by (auto simp: plain_tree_def files_kept_def is_symlink_def
          intro!: plain_nodes_put_node plain_nodes_del_node)
  qed (use fs in auto)
  then show "case Inr False of Inl e \<Rightarrow> plain_tree part fs \<and> files_kept D fs fs
      | Inr b \<Rightarrow> always (\<lambda>_. True) (if \<not> b then io_rename part q else io_ret ()) fs
          (\<lambda>r fs'. plain_tree part fs' \<and> files_kept D fs fs')" by simp
qed (auto intro!: any.ret)

lemma io_bind_assoc: "io_bind (io_bind m f) g = io_bind m (\<lambda>x. io_bind (f x) g)"
  by (rule ext) (simp add: io_bind_def io_match_def io_throw_def split: prod.split sum.split)

lemma place_file_alt:
  "place_file E offer ps destination =
     io_then (io_bind (io_try_exists destination)
               (\<lambda>b. if \<not> b then io_rename (sp_part ps) destination else io_ret ()))
       (io_then (ensure_file_destination E destination (to_size offer) (to_blake3 offer))
         (apply_modified_time destination (to_modified_ms offer)))"
  by (simp add: place_file_def io_then_def io_bind_assoc)

lemma kept_place_file:
  assumes "prefix D (sp_part ps)" "sp_part ps \<noteq> q" "q \<noteq> []"
  shows "kept.keeps D (sp_part ps) (place_file E offer ps q)"
  unfolding place_file_alt apply_modified_time_eq
  using assms
  by (intro kept.keeps_then kept_move kept_ensure_file_destination kept_set_mtime) auto

lemma kept_unique_from: "kept.keeps D part (unique_from root stem ext index)"
proof (induction root stem ext index rule: unique_from.induct)
  case (1 root stem ext index)
  then show ?case
    by (subst unique_from.simps) (auto simp: Let_def intro!: kept.keeps_rules kept_try_exists)
qed

lemma kept_unique_destination: "kept.keeps D part (unique_destination root s)"
  unfolding unique_destination_def
  by (intro kept.keeps_rules kept_try_exists kept_unique_from)

section \<open>The operations\<close>

text \<open>What the arguments of an operation guarantee about its paths.\<close>

lemma transfer_writes:
  fixes st :: store
  assumes "id_name (to_transfer_id offer)" "to_transfer_id offer \<noteq> []"
  defines "ps \<equiv> paths_of st offer" and "D \<equiv> state_dir st offer"
  shows "kept.keeps D (sp_part ps) (atomic_write_json E (sp_metadata ps) v)"
    and "kept.keeps D (sp_part ps) (atomic_write_json E (sp_commit ps) v)"
    and "kept.keeps D (sp_part ps) (atomic_write_json E (sp_done ps) v)"
    and "kept.keeps D (sp_part ps) (remove_if_exists (sp_part ps))"
    and "kept.keeps D (sp_part ps) (remove_if_exists (sp_metadata ps))"
    and "kept.keeps D (sp_part ps) (remove_if_exists (sp_commit ps))"
    and "kept.keeps D (sp_part ps) (remove_if_exists (sp_done ps))"
    and "kept.keeps D (sp_part ps) (io_open True (sp_part ps))"
    and "prefix D (sp_part ps)"
    and "sp_part ps \<noteq> destination_root st offer @ [name]"
  using assms(1,2) paths_of_simps [OF assms(1), of st] records_of_transfer [OF assms(1,2), of st]
  unfolding ps_def D_def state_dir_def
  by (auto intro!: kept_atomic_write kept_remove_if_exists kept_open_part
      simp: temp_path_def)

lemmas kept_calls = kept_try_exists kept_metadata kept_symlink_metadata kept_read kept_sync
  kept_read_json kept_ensure_file_destination kept_unique_destination

lemma kept_prepare:
  assumes "id_name (to_transfer_id offer)" "to_transfer_id offer \<noteq> []"
  shows "kept.keeps (state_dir st offer) (sp_part (paths_of st offer)) (prepare E st offer)"
  unfolding prepare_def prepare_commit_def prepare_part_def validate_completed_eq recover_commit_eq
    Let_def
  by (intro kept.keeps_rules kept_calls transfer_writes [OF assms])

lemma kept_finalize:
  assumes "id_name (to_transfer_id offer)" "to_transfer_id offer \<noteq> []"
  shows "kept.keeps (state_dir st offer) (sp_part (paths_of st offer)) (finalize E st offer)"
  unfolding finalize_eq commit_for_def finish_file_def blake3_file_hex_def Let_def
  by (intro kept.keeps_rules kept_calls transfer_writes [OF assms] kept_place_file) auto

end
