(* ===== verification/StoreFolder.thy ===== *)
theory StoreFolder
  imports StoreKeep
begin

text \<open>
  The transfer store for folders (\<open>state.rs\<close>): the staging directory with its checkpoint, the
  files of a folder opened and verified one by one, the check of a whole tree against its
  manifest, and the commit of the folder under a name of its own. The loop over the directories
  of a tree takes its bound from the manifest (every directory it visits is a manifest entry of
  its own), which \<open>check_directories_bound\<close> shows to be enough.
\<close>

section \<open>Directories\<close>

record prepared_folder =
  pf_staging_path :: path
  pf_file_index :: nat
  pf_offset :: nat
  pf_completed :: nat

datatype prepare_folder_outcome =
    FolderResumed prepared_folder
  | FolderComplete completed_transfer

definition ensure_directory_exists :: "path \<Rightarrow> unit io" where
  "ensure_directory_exists p =
     io_bind (io_symlink_metadata p) (\<lambda>m.
     io_reject_if (is_symlink m \<or> \<not> is_dir m)
       (InvalidTransfer ''folder path contains a non-directory component'') (io_ret ()))"

text \<open>\<open>create_dir\<close> with \<open>AlreadyExists\<close> allowed when the name is a directory.\<close>

definition create_or_check_dir :: "path \<Rightarrow> unit io" where
  "create_or_check_dir p =
     io_match (io_create_dir p) io_ret
       (\<lambda>e. if e = Io AlreadyExists then ensure_directory_exists p else io_throw e)"

definition ensure_directory :: "path \<Rightarrow> unit io" where
  "ensure_directory p =
     io_match (io_symlink_metadata p)
       (\<lambda>m. io_reject_if (is_symlink m \<or> \<not> is_dir m)
              (InvalidTransfer ''folder checkpoint root is not a directory'') (io_ret ()))
       (if_not_found (create_or_check_dir p))"

fun create_components :: "path \<Rightarrow> string list \<Rightarrow> unit io" where
  "create_components current [] = io_ret ()"
| "create_components current (c # cs) =
     io_then (create_or_check_dir (path_join current c)) (create_components (path_join current c) cs)"

definition ensure_safe_parent_directories :: "path \<Rightarrow> string \<Rightarrow> unit io" where
  "ensure_safe_parent_directories root relative =
     io_then (io_lift (validate_folder_relative_path relative))
     (io_then (ensure_directory_exists root)
     (create_components root (butlast (split_on CHR ''/'' relative))))"

fun create_entry_directories :: "path \<Rightarrow> folder_entry list \<Rightarrow> unit io" where
  "create_entry_directories root [] = io_ret ()"
| "create_entry_directories root (entry # entries) =
     (if fe_kind entry \<noteq> DirectoryEntry then create_entry_directories root entries
      else
        io_then (ensure_safe_parent_directories root (fe_path entry))
        (io_bind (io_lift (folder_entry_path root (fe_path entry))) (\<lambda>p.
         io_then (create_or_check_dir p) (create_entry_directories root entries))))"

definition create_manifest_directories :: "path \<Rightarrow> folder_manifest \<Rightarrow> unit io" where
  "create_manifest_directories root m =
     io_then (ensure_directory_exists root) (create_entry_directories root (fm_entries m))"

text \<open>Modification times: the files in manifest order, then the directories, deepest first.\<close>

fun apply_entry_times :: "path \<Rightarrow> folder_entry list \<Rightarrow> unit io" where
  "apply_entry_times root [] = io_ret ()"
| "apply_entry_times root (entry # entries) =
     io_bind (io_lift (folder_entry_path root (fe_path entry))) (\<lambda>p.
     io_then (apply_modified_time p (fe_modified_ms entry)) (apply_entry_times root entries))"

definition file_entries :: "folder_manifest \<Rightarrow> folder_entry list" where
  "file_entries m = filter (\<lambda>e. fe_kind e = FileEntry) (fm_entries m)"

definition apply_manifest_times :: "path \<Rightarrow> folder_manifest \<Rightarrow> unit io" where
  "apply_manifest_times root m =
     (let directories = filter (\<lambda>e. fe_kind e = DirectoryEntry) (fm_entries m);
          depth = (\<lambda>e. int (length (filter (\<lambda>c. c = CHR ''/'') (fe_path e)))) in
      io_then (apply_entry_times root (file_entries m))
        (apply_entry_times root (sort_key (\<lambda>e. - depth e) directories)))"

section \<open>The check of a tree against its manifest\<close>

definition folder_mismatch :: core_error where
  "folder_mismatch = InvalidTransfer ''folder entry does not match its manifest''"

definition child_relative :: "string \<Rightarrow> string \<Rightarrow> string" where
  "child_relative relative_parent name =
     (if relative_parent = [] then name else relative_parent @ CHR ''/'' # name)"

text \<open>
  The entries of one directory. \<open>seen\<close> lists the relative paths met so far, the last one first,
  and the directories met go on the stack.
\<close>

fun check_names ::
  "crates \<Rightarrow> (string \<times> folder_entry) list \<Rightarrow> path \<Rightarrow> string \<Rightarrow> string list \<Rightarrow> string list \<Rightarrow>
     (path \<times> string) list \<Rightarrow> (string list \<times> (path \<times> string) list) io" where
  "check_names E expected directory parent [] seen directories = io_ret (seen, directories)"
| "check_names E expected directory parent (name # names) seen directories =
     (let relative = child_relative parent name; p = directory @ [name] in
      io_then (io_lift (validate_folder_relative_path relative))
      (io_bind (io_lift (ok_or (map_of expected relative)
                  (InvalidTransfer ''folder contains an unexpected entry''))) (\<lambda>entry.
       io_reject_if (relative \<in> set seen) (InvalidTransfer ''folder contains a duplicate entry'')
       (io_bind (io_symlink_metadata p) (\<lambda>m.
        io_reject_if (is_symlink m) (InvalidTransfer ''folder contains a symbolic link'')
        (if fe_kind entry = DirectoryEntry \<and> is_dir m then
           check_names E expected directory parent names (relative # seen) ((p, relative) # directories)
         else if fe_kind entry = FileEntry \<and> is_file m \<and> node_len m = fe_size entry then
           io_bind (blake3_file_hex E p) (\<lambda>digest.
           io_reject_if (digest \<noteq> fe_blake3 entry) folder_mismatch
             (check_names E expected directory parent names (relative # seen) directories))
         else io_throw folder_mismatch))))))"

fun check_directories ::
  "crates \<Rightarrow> (string \<times> folder_entry) list \<Rightarrow> nat \<Rightarrow> string list \<Rightarrow> (path \<times> string) list \<Rightarrow> string list io" where
  "check_directories E expected fuel seen [] = io_ret seen"
| "check_directories E expected 0 seen (d # directories) = io_throw folder_mismatch"
| "check_directories E expected (Suc fuel) seen ((directory, parent) # directories) =
     io_bind (io_read_dir directory) (\<lambda>names.
     io_bind (check_names E expected directory parent names seen directories)
       (\<lambda>(seen', directories'). check_directories E expected fuel seen' directories'))"

text \<open>\<open>collect\<close> into a map: of two entries with one path the later one stays.\<close>

definition expected_entries :: "folder_manifest \<Rightarrow> (string \<times> folder_entry) list" where
  "expected_entries m = rev (map (\<lambda>e. (fe_path e, e)) (fm_entries m))"

definition validate_folder_contents :: "crates \<Rightarrow> path \<Rightarrow> folder_manifest \<Rightarrow> unit io" where
  "validate_folder_contents E root m =
     io_bind (io_lift (validate_manifest E m)) (\<lambda>_.
     io_then (ensure_directory_exists root)
     (let expected = expected_entries m in
      io_bind (check_directories E expected (Suc (length expected)) [] [(root, [])]) (\<lambda>seen.
      io_reject_if (length seen \<noteq> length (remdups (map fst expected)))
        (InvalidTransfer ''folder is missing a manifest entry'') (io_ret ()))))"

section \<open>The store\<close>

definition validate_completed_folder :: "crates \<Rightarrow> store \<Rightarrow> done_record \<Rightarrow> completed_transfer option io" where
  "validate_completed_folder E st d =
     io_then (io_lift (validate_destination_name (do_destination d)))
     (io_bind (io_lift (ok_or (do_manifest d) (InvalidTransfer ''completed folder manifest is missing''))) (\<lambda>m.
      let destination = path_join (destination_root_stored st (do_offer d)) (do_destination d) in
      io_bind (io_try_exists destination) (\<lambda>b.
        if \<not> b then io_ret None
        else io_then (validate_folder_contents E destination m)
               (io_ret (Some \<lparr>ct_receipt = do_receipt d, ct_destination = destination\<rparr>)))))"

definition recover_folder_commit ::
  "crates \<Rightarrow> store \<Rightarrow> commit_record \<Rightarrow> state_paths \<Rightarrow> completed_transfer option io" where
  "recover_folder_commit E st c ps =
     io_then (io_lift (validate_destination_name (co_destination c)))
     (io_bind (io_lift (ok_or (co_manifest c) (InvalidTransfer ''folder commit manifest is missing''))) (\<lambda>m.
      let destination = path_join (destination_root_stored st (co_offer c)) (co_destination c) in
      io_bind (io_try_exists destination) (\<lambda>b.
        if \<not> b then io_ret None
        else
          io_then (validate_folder_contents E destination m)
          (let receipt = receipt_of (co_offer c);
               record = \<lparr>do_offer = co_offer c, do_destination = co_destination c,
                         do_receipt = receipt, do_manifest = Some m\<rparr> in
           io_then (atomic_write_json E (sp_done ps) (done_record_json record))
           (io_then (remove_dir_all_if_exists (sp_folder_part ps))
           (io_then (remove_if_exists (sp_metadata ps))
           (io_then (remove_if_exists (sp_manifest ps))
           (io_then (remove_if_exists (sp_commit ps))
           (io_ret (Some \<lparr>ct_receipt = receipt, ct_destination = destination\<rparr>))))))))))"

text \<open>The loop of \<open>prepare_folder\<close> that finds the first file that is not complete.\<close>

fun folder_checkpoint :: "crates \<Rightarrow> path \<Rightarrow> folder_entry list \<Rightarrow> nat \<Rightarrow> nat \<Rightarrow> prepared_folder io" where
  "folder_checkpoint E root [] file_index completed =
     io_ret \<lparr>pf_staging_path = root, pf_file_index = file_index, pf_offset = 0, pf_completed = completed\<rparr>"
| "folder_checkpoint E root (entry # entries) file_index completed =
     (let resume = (\<lambda>offset. \<lparr>pf_staging_path = root, pf_file_index = file_index, pf_offset = offset,
                              pf_completed = completed\<rparr>) in
      io_bind (io_lift (folder_entry_path root (fe_path entry))) (\<lambda>p.
      io_then (ensure_safe_parent_directories root (fe_path entry))
      (io_match (io_symlink_metadata p)
         (\<lambda>m. io_reject_if (is_symlink m \<or> \<not> is_file m)
                (InvalidTransfer ''folder checkpoint contains a non-regular file'')
              (io_reject_if (fe_size entry < node_len m)
                (InvalidTransfer ''folder checkpoint file is larger than declared'')
              (if node_len m < fe_size entry then io_ret (resume (node_len m))
               else io_bind (blake3_file_hex E p) (\<lambda>digest.
                 if digest \<noteq> fe_blake3 entry then io_then (remove_if_exists p) (io_ret (resume 0))
                 else io_bind (io_lift (ok_or (checked_add_u64 completed (fe_size entry))
                          (InvalidTransfer ''folder checkpoint size overflow''))) (\<lambda>completed'.
                      folder_checkpoint E root entries (Suc file_index) completed')))))
         (if_not_found (io_ret (resume 0))))))"

text \<open>The third step of \<open>prepare_folder\<close>: the records and the staging directory.\<close>

definition prepare_staging ::
  "crates \<Rightarrow> transfer_offer \<Rightarrow> folder_manifest \<Rightarrow> state_paths \<Rightarrow> prepare_folder_outcome io" where
  "prepare_staging E offer m ps =
     io_bind (read_json_optional E as_stored_offer (sp_metadata ps)) (\<lambda>stored.
     io_then
       (case stored of
          Some s \<Rightarrow>
            io_then (io_lift (ensure_same_offer (stored_offer_of offer) s))
            (io_bind (read_json_optional E as_folder_manifest (sp_manifest ps)) (\<lambda>sm.
             io_bind (io_lift (ok_or sm (InvalidTransfer ''folder transfer manifest is missing''))) (\<lambda>sm'.
             io_lift (ensure_same_manifest m (Some sm')))))
        | None \<Rightarrow>
            io_then (remove_dir_all_if_exists (sp_folder_part ps))
            (io_then (remove_if_exists (sp_manifest ps))
            (io_then (atomic_write_json E (sp_metadata ps) (stored_offer_json (stored_offer_of offer)))
            (atomic_write_json E (sp_manifest ps) (folder_manifest_json m)))))
     (io_then (ensure_directory (sp_folder_part ps))
     (io_bind (folder_checkpoint E (sp_folder_part ps) (file_entries m) 0 0) (\<lambda>pf.
      io_ret (FolderResumed pf)))))"

definition prepare_folder_commit ::
  "crates \<Rightarrow> store \<Rightarrow> transfer_offer \<Rightarrow> folder_manifest \<Rightarrow> state_paths \<Rightarrow> prepare_folder_outcome io" where
  "prepare_folder_commit E st offer m ps =
     io_bind (read_json_optional E as_commit_record (sp_commit ps)) (\<lambda>c.
     case c of
       None \<Rightarrow> prepare_staging E offer m ps
     | Some commit \<Rightarrow>
         io_then (io_lift (ensure_same_offer (stored_offer_of offer) (co_offer commit)))
         (io_then (io_lift (ensure_same_manifest m (co_manifest commit)))
         (io_bind (recover_folder_commit E st commit ps) (\<lambda>r.
          case r of
            Some completed \<Rightarrow> io_ret (FolderComplete completed)
          | None \<Rightarrow> prepare_staging E offer m ps))))"

definition prepare_folder ::
  "crates \<Rightarrow> store \<Rightarrow> transfer_offer \<Rightarrow> folder_manifest \<Rightarrow> prepare_folder_outcome io" where
  "prepare_folder E st offer m =
     io_then (io_lift (offer_validate E offer))
     (io_then (io_lift (manifest_validate_offer E m offer))
     (let ps = paths_of st offer in
      io_bind (read_json_optional E as_done_record (sp_done ps)) (\<lambda>d.
      case d of
        None \<Rightarrow> prepare_folder_commit E st offer m ps
      | Some record \<Rightarrow>
          io_then (io_lift (ensure_same_offer (stored_offer_of offer) (do_offer record)))
          (io_then (io_lift (ensure_same_manifest m (do_manifest record)))
          (io_bind (validate_completed_folder E st record) (\<lambda>r.
           case r of
             Some completed \<Rightarrow> io_ret (FolderComplete completed)
           | None \<Rightarrow> io_then (remove_if_exists (sp_done ps)) (prepare_folder_commit E st offer m ps)))))))"

text \<open>\<open>open_folder_file\<close>: the handle is the path; the caller writes from \<open>offset\<close> on.\<close>

definition open_folder_file :: "prepared_folder \<Rightarrow> folder_entry \<Rightarrow> nat \<Rightarrow> path io" where
  "open_folder_file pf entry offset =
     io_reject_if (fe_kind entry \<noteq> FileEntry \<or> fe_size entry < offset)
       (InvalidTransfer ''invalid folder file checkpoint'')
     (io_bind (io_lift (folder_entry_path (pf_staging_path pf) (fe_path entry))) (\<lambda>p.
      io_then (ensure_safe_parent_directories (pf_staging_path pf) (fe_path entry))
      (io_then
        (io_match (io_symlink_metadata p)
           (\<lambda>m. io_reject_if (is_symlink m \<or> \<not> is_file m)
                  (InvalidTransfer ''folder checkpoint path is not a regular file'')
                (io_reject_if (0 < offset \<and> node_len m \<noteq> offset)
                  (InvalidTransfer ''folder checkpoint offset changed'') (io_ret ())))
           (\<lambda>e. if e = Io NotFound \<and> offset = 0 then io_ret () else io_throw e))
        (io_open (offset = 0) p))))"

definition verify_folder_file :: "crates \<Rightarrow> prepared_folder \<Rightarrow> folder_entry \<Rightarrow> unit io" where
  "verify_folder_file E pf entry =
     io_bind (io_lift (folder_entry_path (pf_staging_path pf) (fe_path entry))) (\<lambda>p.
     io_then (ensure_safe_parent_directories (pf_staging_path pf) (fe_path entry))
     (io_bind (io_symlink_metadata p) (\<lambda>m.
      io_bind
        (if is_symlink m \<or> \<not> is_file m \<or> node_len m \<noteq> fe_size entry then io_ret True
         else io_bind (blake3_file_hex E p) (\<lambda>digest. io_ret (digest \<noteq> fe_blake3 entry)))
        (\<lambda>mismatch.
         if mismatch then io_then (remove_if_exists p) (io_throw (DigestMismatch p))
         else apply_modified_time p (fe_modified_ms entry)))))"

definition folder_commit_for ::
  "crates \<Rightarrow> store \<Rightarrow> transfer_offer \<Rightarrow> folder_manifest \<Rightarrow> state_paths \<Rightarrow> commit_record io" where
  "folder_commit_for E st offer m ps =
     io_bind (read_json_optional E as_commit_record (sp_commit ps)) (\<lambda>c.
     case c of
       Some record \<Rightarrow>
         io_then (io_lift (ensure_same_offer (stored_offer_of offer) (co_offer record)))
         (io_then (io_lift (ensure_same_manifest m (co_manifest record)))
         (io_then (io_lift (validate_destination_name (co_destination record)))
         (io_ret record)))
     | None \<Rightarrow>
         io_bind (unique_destination (destination_root st offer) (so_filename (stored_offer_of offer)))
           (\<lambda>destination.
         let record = \<lparr>co_offer = stored_offer_of offer, co_destination = destination,
                       co_manifest = Some m\<rparr> in
         io_then (atomic_write_json E (sp_commit ps) (commit_record_json record))
         (io_ret record)))"

text \<open>The end of \<open>finalize_folder\<close>: move the tree, check it again, write the done record.\<close>

definition place_folder ::
  "crates \<Rightarrow> transfer_offer \<Rightarrow> folder_manifest \<Rightarrow> path \<Rightarrow> path \<Rightarrow> unit io" where
  "place_folder E offer m staging destination =
     io_bind (io_try_exists destination) (\<lambda>b.
     io_then (if \<not> b then io_rename staging destination else io_ret ())
     (io_then (validate_folder_contents E destination m)
     (apply_modified_time destination (to_modified_ms offer))))"

definition finish_folder ::
  "crates \<Rightarrow> transfer_offer \<Rightarrow> folder_manifest \<Rightarrow> state_paths \<Rightarrow> string \<Rightarrow> path \<Rightarrow> completed_transfer io" where
  "finish_folder E offer m ps name destination =
     (let receipt = receipt_of (stored_offer_of offer);
          record = \<lparr>do_offer = stored_offer_of offer, do_destination = name,
                    do_receipt = receipt, do_manifest = Some m\<rparr> in
      io_then (atomic_write_json E (sp_done ps) (done_record_json record))
      (io_then (remove_if_exists (sp_metadata ps))
      (io_then (remove_if_exists (sp_manifest ps))
      (io_then (remove_if_exists (sp_commit ps))
      (io_ret \<lparr>ct_receipt = receipt, ct_destination = destination\<rparr>)))))"

definition finalize_folder ::
  "crates \<Rightarrow> store \<Rightarrow> transfer_offer \<Rightarrow> folder_manifest \<Rightarrow> prepared_folder \<Rightarrow> completed_transfer io" where
  "finalize_folder E st offer m pf =
     io_then (io_lift (manifest_validate_offer E m offer))
     (io_then (create_manifest_directories (pf_staging_path pf) m)
     (io_then (validate_folder_contents E (pf_staging_path pf) m)
     (io_then (apply_manifest_times (pf_staging_path pf) m)
     (let ps = paths_of st offer in
      io_bind (folder_commit_for E st offer m ps) (\<lambda>commit.
      let destination = path_join (destination_root st offer) (co_destination commit) in
      io_then (place_folder E offer m (pf_staging_path pf) destination)
      (finish_folder E offer m ps (co_destination commit) destination))))))"

end
