(* ===== verification/Receive.thy ===== *)
theory Receive
  imports Quic StoreFolder
begin

text \<open>
  The receiving end of a transfer (\<open>transport.rs\<close>): \<open>handle_stream\<close> and \<open>handle_folder_stream\<close>, on a
  stream and the disk of the store. A receiver that is paused waits at the gate of the loop and
  reads nothing; the model is the run it continues. The loops count down the bytes that are
  missing: every round receives at least one byte or ends the loop.
\<close>

definition TRANSFER_BUFFER_SIZE :: nat where "TRANSFER_BUFFER_SIZE = 256 * 1024"

record transfer_progress =
  tp_transfer_id :: string
  tp_filename :: string
  tp_done :: nat
  tp_total :: nat

datatype transfer_event =
    ProgressEvent transfer_progress
  | ReceivedEvent string path string nat string string string
  | StatusEvent string

record receiving = net +
  rc_world :: world
  rc_events :: "transfer_event list"

record incoming_context =
  ix_store :: store
  ix_identity :: device_identity
  ix_capabilities :: "string list"
  ix_shared_secret :: string
  ix_io_text :: "io_kind \<Rightarrow> string"

definition on_disk :: "'a io \<Rightarrow> (receiving, 'a) action" where
  "on_disk m = (\<lambda>s. case m (rc_world s) of (r, w) \<Rightarrow> (r, s\<lparr>rc_world := w\<rparr>))"

definition emit_event :: "transfer_event \<Rightarrow> (receiving, unit) action" where
  "emit_event ev = (\<lambda>s. (Inr (), s\<lparr>rc_events := rc_events s @ [ev]\<rparr>))"

definition progress_of :: "transfer_offer \<Rightarrow> nat \<Rightarrow> transfer_progress" where
  "progress_of offer n =
     \<lparr>tp_transfer_id = to_transfer_id offer, tp_filename = safe_filename (to_filename offer),
      tp_done = n, tp_total = to_size offer\<rparr>"

definition received_event :: "transfer_offer \<Rightarrow> completed_transfer \<Rightarrow> transfer_event" where
  "received_event offer c =
     ReceivedEvent (to_transfer_id offer) (ct_destination c) (safe_filename (to_filename offer))
       (to_size offer) (to_blake3 offer) (ds_instance_id (to_sender offer)) (ds_name (to_sender offer))"

text \<open>The gate of a paused receiver: passing it can be cancelled.\<close>

fun gate_fault :: fault_meaning where
  "gate_fault NetCancelled = Some Cancelled"
| "gate_fault _ = None"

definition gate_wait :: "(receiving, unit) action" where
  "gate_wait = net_call gate_fault (io_ret ())"

text \<open>\<open>reject_stream(..., error.to_string())\<close> and return the error.\<close>

definition or_reject ::
  "crates \<Rightarrow> incoming_context \<Rightarrow> (receiving, 'a) action \<Rightarrow> ('a \<Rightarrow> (receiving, 'b) action) \<Rightarrow> (receiving, 'b) action" where
  "or_reject E ctx m k =
     io_match m k (\<lambda>e. io_then (reject_stream E (error_text (ix_io_text ctx) e)) (io_throw e))"

section \<open>A single file\<close>

fun receive_loop :: "transfer_offer \<Rightarrow> path \<Rightarrow> nat \<Rightarrow> nat \<Rightarrow> (receiving, nat) action" where
  "receive_loop offer part 0 received = io_ret received"
| "receive_loop offer part (Suc missing) received =
     (if to_size offer \<le> received then io_ret received
      else
        io_then gate_wait
        (io_bind (net_read read_fault (min (to_size offer - received) TRANSFER_BUFFER_SIZE)) (\<lambda>data.
         if data = [] then
           io_then (on_disk io_sync)
             (io_throw (Protocol (''sender disconnected after '' @ dec received @ '' of '' @
                dec (to_size offer) @ '' bytes'')))
         else
           io_then (on_disk (io_append part data))
           (io_then (emit_event (ProgressEvent (progress_of offer (received + length data))))
           (receive_loop offer part missing (received + length data))))))"

definition send_complete :: "crates \<Rightarrow> completed_transfer \<Rightarrow> (receiving, unit) action" where
  "send_complete E c =
     io_then (send_frame E plain_io_fault (transfer_response_json (Complete (ct_receipt c))))
       (net_finish finish_fault)"

definition receive_part ::
  "crates \<Rightarrow> store \<Rightarrow> transfer_offer \<Rightarrow> prepared_transfer \<Rightarrow> (receiving, unit) action" where
  "receive_part E st offer prepared =
     io_then (send_frame E plain_io_fault (transfer_response_json (Resume (pt_offset prepared))))
     (io_bind (on_disk (io_open_append (pt_part_path prepared))) (\<lambda>part.
      io_then (emit_event (ProgressEvent (progress_of offer (pt_offset prepared))))
      (io_bind (receive_loop offer part (to_size offer - pt_offset prepared) (pt_offset prepared)) (\<lambda>_.
       io_bind (net_read plain_read_fault 1) (\<lambda>extra.
       io_reject_if (extra \<noteq> []) (Protocol ''sender wrote more bytes than declared'')
       (io_then (on_disk io_sync)
       (io_bind (on_disk (finalize E st offer)) (\<lambda>completed.
        io_then (emit_event (received_event offer completed))
        (send_complete E completed)))))))))"

definition receive_file :: "crates \<Rightarrow> incoming_context \<Rightarrow> transfer_offer \<Rightarrow> (receiving, unit) action" where
  "receive_file E ctx offer =
     or_reject E ctx (on_disk (prepare E (ix_store ctx) offer)) (\<lambda>outcome.
       case outcome of
         PrepareComplete completed \<Rightarrow> send_complete E completed
       | PrepareResume prepared \<Rightarrow> receive_part E (ix_store ctx) offer prepared)"

section \<open>A folder\<close>

fun receive_entry_loop ::
  "transfer_offer \<Rightarrow> folder_entry \<Rightarrow> path \<Rightarrow> nat \<Rightarrow> nat \<Rightarrow> nat \<Rightarrow> (receiving, nat) action" where
  "receive_entry_loop offer entry part 0 file_received received = io_ret received"
| "receive_entry_loop offer entry part (Suc missing) file_received received =
     (if fe_size entry \<le> file_received then io_ret received
      else
        io_then gate_wait
        (io_bind (net_read read_fault (min (fe_size entry - file_received) TRANSFER_BUFFER_SIZE)) (\<lambda>data.
         if data = [] then
           io_then (on_disk io_sync)
             (io_throw (Protocol (''sender disconnected after '' @ dec received @ '' of '' @
                dec (to_size offer) @ '' folder bytes'')))
         else
           io_then (on_disk (io_write part file_received data))
           (io_then (emit_event (ProgressEvent (progress_of offer (received + length data))))
           (receive_entry_loop offer entry part missing (file_received + length data)
              (received + length data))))))"

fun receive_entries ::
  "crates \<Rightarrow> incoming_context \<Rightarrow> transfer_offer \<Rightarrow> prepared_folder \<Rightarrow> folder_entry list \<Rightarrow> nat \<Rightarrow> nat \<Rightarrow>
     (receiving, nat) action" where
  "receive_entries E ctx offer pf [] offset received = io_ret received"
| "receive_entries E ctx offer pf (entry # entries) offset received =
     or_reject E ctx (on_disk (open_folder_file pf entry offset)) (\<lambda>part.
     io_bind (receive_entry_loop offer entry part (fe_size entry - offset) offset received) (\<lambda>received'.
     io_then (on_disk io_sync)
     (or_reject E ctx (on_disk (verify_folder_file E pf entry)) (\<lambda>_.
      receive_entries E ctx offer pf entries 0 received'))))"

definition receive_staging ::
  "crates \<Rightarrow> incoming_context \<Rightarrow> transfer_offer \<Rightarrow> folder_manifest \<Rightarrow> prepared_folder \<Rightarrow> (receiving, unit) action" where
  "receive_staging E ctx offer m pf =
     io_then (send_frame E plain_io_fault
        (transfer_response_json (FolderResume (pf_file_index pf) (pf_offset pf) (pf_completed pf))))
     (io_bind (io_lift (ok_or (checked_add_u64 (pf_completed pf) (pf_offset pf))
                 (InvalidTransfer ''folder progress overflow''))) (\<lambda>received.
      io_then (emit_event (ProgressEvent (progress_of offer received)))
      (io_bind (receive_entries E ctx offer pf (drop (pf_file_index pf) (file_entries m))
                  (pf_offset pf) received) (\<lambda>_.
       io_bind (net_read plain_read_fault 1) (\<lambda>extra.
       or_reject E ctx
         (io_lift (reject_if (extra \<noteq> []) (Protocol ''sender wrote more folder bytes than declared'') (Inr ())))
         (\<lambda>_.
       or_reject E ctx (on_disk (finalize_folder E (ix_store ctx) offer m pf)) (\<lambda>completed.
       io_then (emit_event (received_event offer completed))
       (send_complete E completed))))))))"

definition receive_folder ::
  "crates \<Rightarrow> incoming_context \<Rightarrow> transfer_offer \<Rightarrow> folder_manifest \<Rightarrow> (receiving, unit) action" where
  "receive_folder E ctx offer m =
     or_reject E ctx (on_disk (prepare_folder E (ix_store ctx) offer m)) (\<lambda>outcome.
       case outcome of
         FolderComplete completed \<Rightarrow> send_complete E completed
       | FolderResumed pf \<Rightarrow>
           or_reject E ctx
             (io_lift (reject_if (length (file_entries m) < pf_file_index pf)
                (InvalidTransfer ''invalid folder checkpoint file index'') (Inr ())))
             (\<lambda>_.
              io_reject_if (u32_max < pf_file_index pf) (InvalidTransfer ''too many folder files'')
                (receive_staging E ctx offer m pf)))"

section \<open>A stream\<close>

text \<open>Reading the manifest: a cancelled read returns at once, any other error rejects the stream.\<close>

definition receive_manifest :: "crates \<Rightarrow> incoming_context \<Rightarrow> (receiving, folder_manifest) action" where
  "receive_manifest E ctx =
     io_match (net_call application_fault (net_decode (read_manifest_frame E))) io_ret (\<lambda>e.
       if e = Cancelled then io_throw e
       else io_then (reject_stream E (error_text (ix_io_text ctx) e)) (io_throw e))"

definition handle_offer :: "crates \<Rightarrow> incoming_context \<Rightarrow> transfer_offer \<Rightarrow> (receiving, unit) action" where
  "handle_offer E ctx offer =
     or_reject E ctx (io_lift (offer_validate E offer)) (\<lambda>_.
     if to_kind offer = FolderV1 then
       io_bind (receive_manifest E ctx) (\<lambda>m.
       or_reject E ctx (io_lift (manifest_validate_offer E m offer)) (\<lambda>_.
       receive_folder E ctx offer m))
     else if to_kind offer \<noteq> FileTransfer then
       or_reject E ctx (io_throw (InvalidTransfer ''unsupported transfer kind'')) io_ret
     else receive_file E ctx offer)"

definition handle_stream :: "crates \<Rightarrow> incoming_context \<Rightarrow> (receiving, unit) action" where
  "handle_stream E ctx =
     io_match (authenticate_incoming_request E (ix_shared_secret ctx))
       (\<lambda>frame.
          if frame_type frame = Some PEER_PROBE_REQUEST_TYPE then
            io_bind (io_lift (as_probe_request frame))
              (handle_probe_stream E (ix_identity ctx) (ix_capabilities ctx))
          else io_bind (io_lift (as_transfer_offer frame)) (handle_offer E ctx))
       (\<lambda>e. io_then (reject_authentication E) (io_throw e))"

text \<open>The task of a stream reports an error as a status event.\<close>

definition stream_task :: "crates \<Rightarrow> incoming_context \<Rightarrow> (receiving, unit) action" where
  "stream_task E ctx =
     io_match (handle_stream E ctx) io_ret
       (\<lambda>e. emit_event (StatusEvent (error_text (ix_io_text ctx) e)))"

end
