(* ===== verification/StoreFile.thy ===== *)
theory StoreFile
  imports StoreKeep
begin

text \<open>
  A received file is never lost. The states a fully received file can be in are described on
  the tree alone (\<open>received\<close>, \<open>committed\<close>, \<open>delivered\<close>); an attempt to complete the transfer
  keeps the file in one of them whatever fails, so after any number of crashes one undisturbed
  attempt delivers it.
\<close>

section \<open>A transfer and its paths\<close>

text \<open>The offer of a file with the given content, as the receiver accepted it.\<close>

definition offer_of_data :: "crates \<Rightarrow> transfer_offer \<Rightarrow> bytes \<Rightarrow> bool" where
  "offer_of_data E offer data \<longleftrightarrow>
     json_roundtrip E \<and> uuid_plain E \<and> offer_validate E offer = Inr () \<and>
     transfer_offer_range offer \<and> to_kind offer = FileTransfer \<and>
     to_size offer = length data \<and> to_blake3 offer = hex_encode E (blake3_hash E data)"

lemma offer_tid:
  assumes "offer_of_data E offer data"
  shows "id_name (to_transfer_id offer)" "to_transfer_id offer \<noteq> []"
  using assms by (auto simp: offer_of_data_def uuid_plain_def id_name_def offer_validate_iff offer_fields_ok_def)

lemma offer_range:
  "offer_of_data E offer data \<Longrightarrow> stored_offer_range (stored_offer_of offer)"
  by (simp add: offer_of_data_def stored_offer_range_def stored_offer_of_def transfer_offer_range_def)

definition dest :: "store \<Rightarrow> transfer_offer \<Rightarrow> string \<Rightarrow> path" where
  "dest st offer c = destination_root st offer @ [c]"

lemma destination_root_stored_of [simp]:
  "destination_root_stored st (stored_offer_of offer) = destination_root st offer"
  by (simp add: destination_root_stored_def stored_offer_of_def destination_root_def)

definition holds :: "fs \<Rightarrow> path \<Rightarrow> bytes \<Rightarrow> bool" where
  "holds fs p d \<longleftrightarrow> (\<exists>m. lookup fs p = Some (FileN d m))"

definition commit_of :: "transfer_offer \<Rightarrow> string \<Rightarrow> commit_record" where
  "commit_of offer c =
     \<lparr>co_offer = stored_offer_of offer, co_destination = c, co_manifest = None\<rparr>"

definition done_of :: "transfer_offer \<Rightarrow> string \<Rightarrow> done_record" where
  "done_of offer c =
     \<lparr>do_offer = stored_offer_of offer, do_destination = c,
      do_receipt = receipt_of (stored_offer_of offer), do_manifest = None\<rparr>"

lemma read_back:
  assumes "offer_of_data E offer data"
  shows "bind_r (from_slice E (to_vec E (stored_offer_json (stored_offer_of offer)))) as_stored_offer =
           Inr (stored_offer_of offer)"
    and "bind_r (from_slice E (to_vec E (commit_record_json (commit_of offer c)))) as_commit_record =
           Inr (commit_of offer c)"
    and "bind_r (from_slice E (to_vec E (done_record_json (done_of offer c)))) as_done_record =
           Inr (done_of offer c)"
proof -
  have json: "from_slice E (to_vec E v) = Inr v" for v
    using assms by (simp add: offer_of_data_def json_roundtrip_def from_slice_def to_vec_def)
  have size: "so_size (stored_offer_of offer) \<le> u64_max"
    using offer_range [OF assms] by (simp add: stored_offer_range_def)
  show "bind_r (from_slice E (to_vec E (stored_offer_json (stored_offer_of offer)))) as_stored_offer =
           Inr (stored_offer_of offer)"
    using offer_range [OF assms] by (simp add: json)
  show "bind_r (from_slice E (to_vec E (commit_record_json (commit_of offer c)))) as_commit_record =
           Inr (commit_of offer c)"
    using offer_range [OF assms] by (simp add: json as_commit_record_json commit_of_def manifest_range_def)
  show "bind_r (from_slice E (to_vec E (done_record_json (done_of offer c)))) as_done_record =
           Inr (done_of offer c)"
    using offer_range [OF assms] size
    by (simp add: json as_done_record_json done_of_def manifest_range_def receipt_of_def)
qed

section \<open>States of a received file\<close>

text \<open>The directories exist, nothing is a link, and no record name is taken by a directory.\<close>

definition tree_ok :: "store \<Rightarrow> transfer_offer \<Rightarrow> fs \<Rightarrow> bool" where
  "tree_ok st offer fs \<longleftrightarrow>
     id_name (to_transfer_id offer) \<and> plain_nodes fs \<and>
     (\<exists>t. lookup fs (destination_root st offer) = Some (DirN t)) \<and>
     (\<exists>t. lookup fs (state_dir st offer) = Some (DirN t)) \<and>
     (let ps = paths_of st offer in
      \<forall>p \<in> {sp_part ps, sp_metadata ps, sp_commit ps, sp_done ps}. \<forall>t. lookup fs p \<noteq> Some (DirN t))"

text \<open>Fully received: the partial file is complete; a commit may have chosen a name already.\<close>

definition received :: "crates \<Rightarrow> store \<Rightarrow> transfer_offer \<Rightarrow> bytes \<Rightarrow> fs \<Rightarrow> bool" where
  "received E st offer data fs \<longleftrightarrow>
     (let ps = paths_of st offer in
      holds fs (sp_part ps) data \<and>
      holds fs (sp_metadata ps) (to_vec E (stored_offer_json (stored_offer_of offer))) \<and>
      lookup fs (sp_done ps) = None \<and>
      (lookup fs (sp_commit ps) = None \<or>
       (\<exists>c. safe_name c \<and> holds fs (sp_commit ps) (to_vec E (commit_record_json (commit_of offer c))) \<and>
          (lookup fs (dest st offer c) = None \<or> holds fs (dest st offer c) data))))"

text \<open>Committed: the file is under the name of the commit record.\<close>

definition committed :: "crates \<Rightarrow> store \<Rightarrow> transfer_offer \<Rightarrow> bytes \<Rightarrow> fs \<Rightarrow> bool" where
  "committed E st offer data fs \<longleftrightarrow>
     (\<exists>c. safe_name c \<and>
        holds fs (sp_commit (paths_of st offer)) (to_vec E (commit_record_json (commit_of offer c))) \<and>
        holds fs (dest st offer c) data \<and> lookup fs (sp_done (paths_of st offer)) = None)"

text \<open>Delivered: the done record names the file.\<close>

definition delivered :: "crates \<Rightarrow> store \<Rightarrow> transfer_offer \<Rightarrow> bytes \<Rightarrow> string \<Rightarrow> fs \<Rightarrow> bool" where
  "delivered E st offer data c fs \<longleftrightarrow>
     safe_name c \<and>
     holds fs (sp_done (paths_of st offer)) (to_vec E (done_record_json (done_of offer c))) \<and>
     holds fs (dest st offer c) data"

definition durable :: "crates \<Rightarrow> store \<Rightarrow> transfer_offer \<Rightarrow> bytes \<Rightarrow> fs \<Rightarrow> bool" where
  "durable E st offer data fs \<longleftrightarrow>
     tree_ok st offer fs \<and>
     (received E st offer data fs \<or> committed E st offer data fs \<or>
      (\<exists>c. delivered E st offer data c fs))"

text \<open>
  An attempt to complete a transfer of which nothing is missing: what the receiver does with the
  offer when the sender offers the file again (no byte is left to receive).
\<close>

definition attempt :: "crates \<Rightarrow> store \<Rightarrow> transfer_offer \<Rightarrow> completed_transfer io" where
  "attempt E st offer =
     io_bind (prepare E st offer) (\<lambda>r.
       case r of PrepareComplete completed \<Rightarrow> io_ret completed
       | PrepareResume prepared \<Rightarrow> finalize E st offer)"

text \<open>What an undisturbed attempt needs besides: unused temporary names and a free destination.\<close>

definition room :: "store \<Rightarrow> transfer_offer \<Rightarrow> (string \<Rightarrow> bool) \<Rightarrow> fs \<Rightarrow> bool" where
  "room st offer U fs \<longleftrightarrow>
     (\<forall>u. U u \<longrightarrow> lookup fs (temp_path (sp_commit (paths_of st offer)) u) = None \<and>
                 lookup fs (temp_path (sp_done (paths_of st offer)) u) = None) \<and>
     (\<exists>i \<in> {2..u32_max}. lookup fs (dest st offer (candidate (safe_filename (to_filename offer)) i)) = None)"

section \<open>Trees that stay well-formed\<close>

lemma tree_ok_slots:
  assumes "tree_ok st offer fs"
  shows "slot fs (sp_part (paths_of st offer))" "slot fs (sp_metadata (paths_of st offer))"
    "slot fs (sp_commit (paths_of st offer))" "slot fs (sp_done (paths_of st offer))"
    "in_dir fs (dest st offer c)" "plain_nodes fs"
proof -
  obtain t where t: "lookup fs (state_dir st offer) = Some (DirN t)"
    using assms by (auto simp: tree_ok_def)
  have "in_dir fs (state_dir st offer @ [x])" for x using t by (auto simp: in_dir_snoc)
  then show "slot fs (sp_part (paths_of st offer))" "slot fs (sp_metadata (paths_of st offer))"
    "slot fs (sp_commit (paths_of st offer))" "slot fs (sp_done (paths_of st offer))"
    using assms paths_in_state_dir [of offer st]
    by (auto simp: slot_def tree_ok_def Let_def)
  show "in_dir fs (dest st offer c)" "plain_nodes fs"
    using assms by (auto simp: tree_ok_def dest_def in_dir_snoc)
qed

lemma tree_ok_agree:
  assumes "tree_ok st offer fs" "agree_except S fs fs'" "plain_nodes fs'"
    and "destination_root st offer \<notin> S" "state_dir st offer \<notin> S"
    and "\<And>p t. p \<in> S \<Longrightarrow> p \<in> {sp_part (paths_of st offer), sp_metadata (paths_of st offer),
           sp_commit (paths_of st offer), sp_done (paths_of st offer)} \<Longrightarrow> lookup fs' p \<noteq> Some (DirN t)"
  shows "tree_ok st offer fs'"
proof -
  have "lookup fs' p \<noteq> Some (DirN t)"
    if "p \<in> {sp_part (paths_of st offer), sp_metadata (paths_of st offer),
           sp_commit (paths_of st offer), sp_done (paths_of st offer)}" for p t
  proof (cases "p \<in> S")
    case True
    with assms(6) that show ?thesis by blast
  next
    case False
    with assms(1,2) that show ?thesis by (auto simp: tree_ok_def Let_def agree_except_def)
  qed
  then show ?thesis
    using assms(1-5) by (auto simp: tree_ok_def Let_def agree_except_def)
qed

text \<open>All paths of a transfer are different; this is all that the proofs below use of them.\<close>

lemma paths_apart:
  fixes st :: store
  assumes "offer_of_data E offer data"
  defines "ps \<equiv> paths_of st offer"
  shows "distinct [sp_part ps, sp_metadata ps, sp_commit ps, sp_done ps]"
    and "dest st offer c \<notin> {sp_part ps, sp_metadata ps, sp_commit ps, sp_done ps}"
    and "p \<in> {sp_part ps, sp_metadata ps, sp_commit ps, sp_done ps} \<Longrightarrow>
           p \<noteq> destination_root st offer \<and> p \<noteq> state_dir st offer \<and> p \<noteq> []"
    and "dest st offer c \<noteq> destination_root st offer \<and> dest st offer c \<noteq> []"
    and "q \<in> {sp_commit ps, sp_done ps} \<Longrightarrow>
           temp_path q u \<notin> {sp_part ps, sp_metadata ps, sp_commit ps, sp_done ps} \<and>
           temp_path q u \<noteq> dest st offer c \<and>
           temp_path q u \<noteq> destination_root st offer \<and> temp_path q u \<noteq> state_dir st offer"
proof -
  note tid = offer_tid [OF assms(1)]
  note simps = paths_of_simps [OF tid(1), of st]
  have len: "length (sp_part ps) = Suc (Suc (length (destination_root st offer)))"
    by (simp add: ps_def simps)
  show "distinct [sp_part ps, sp_metadata ps, sp_commit ps, sp_done ps]"
    using tid by (auto simp: ps_def simps)
  show "dest st offer c \<notin> {sp_part ps, sp_metadata ps, sp_commit ps, sp_done ps}"
    by (auto simp: ps_def simps dest_def)
  show "p \<in> {sp_part ps, sp_metadata ps, sp_commit ps, sp_done ps} \<Longrightarrow>
           p \<noteq> destination_root st offer \<and> p \<noteq> state_dir st offer \<and> p \<noteq> []"
    by (auto simp: ps_def simps state_dir_def)
  show "dest st offer c \<noteq> destination_root st offer \<and> dest st offer c \<noteq> []"
    by (simp add: dest_def)
  show "q \<in> {sp_commit ps, sp_done ps} \<Longrightarrow>
           temp_path q u \<notin> {sp_part ps, sp_metadata ps, sp_commit ps, sp_done ps} \<and>
           temp_path q u \<noteq> dest st offer c \<and>
           temp_path q u \<noteq> destination_root st offer \<and> temp_path q u \<noteq> state_dir st offer"
    using tid by (auto simp: ps_def simps dest_def state_dir_def temp_path_def)
qed

lemma holds_agree: "agree_except S fs fs' \<Longrightarrow> p \<notin> S \<Longrightarrow> holds fs' p d = holds fs p d"
  by (simp add: holds_def agree_except_def)

lemma holds_not_dir: "holds fs p d \<Longrightarrow> lookup fs p \<noteq> Some (DirN t)"
  by (auto simp: holds_def)

section \<open>Steps of an attempt\<close>

definition delivered_ok :: "crates \<Rightarrow> store \<Rightarrow> transfer_offer \<Rightarrow> bytes \<Rightarrow> string \<Rightarrow> fs \<Rightarrow> bool" where
  "delivered_ok E st offer data c fs \<longleftrightarrow> tree_ok st offer fs \<and> delivered E st offer data c fs"

lemma delivered_ok_del:
  assumes "offer_of_data E offer data" "delivered_ok E st offer data c fs"
    and "p \<in> {sp_part (paths_of st offer), sp_metadata (paths_of st offer), sp_commit (paths_of st offer)}"
  shows "delivered_ok E st offer data c (del_node p fs)"
proof -
  note ap = paths_apart [OF assms(1), where st = st]
  have p: "p \<noteq> []" "p \<noteq> destination_root st offer" "p \<noteq> state_dir st offer"
    "p \<noteq> sp_done (paths_of st offer)" "p \<noteq> dest st offer c"
    using ap(1) ap(2) [of c] ap(3) [of p] assms(3) by auto
  have ag: "agree_except {p} fs (del_node p fs)" using p(1) by (intro agree_del) auto
  have t: "tree_ok st offer fs" using assms(2) by (simp add: delivered_ok_def)
  have "tree_ok st offer (del_node p fs)"
    by (rule tree_ok_agree [OF t ag]) (use p plain_nodes_del_node tree_ok_slots(6) [OF t] in auto)
  then show ?thesis
    using assms(2) p by (simp add: delivered_ok_def delivered_def holds_agree [OF ag])
qed

lemma delivered_ok_durable: "delivered_ok E st offer data c fs \<Longrightarrow> durable E st offer data fs"
  by (auto simp: delivered_ok_def durable_def)

context schedule
begin

lemma remove_delivered:
  assumes "offer_of_data E offer data" "delivered_ok E st offer data c fs"
    and "p \<in> {sp_part (paths_of st offer), sp_metadata (paths_of st offer), sp_commit (paths_of st offer)}"
    and "\<And>e. may_err W True \<Longrightarrow> delivered_ok E st offer data c fs \<Longrightarrow> Q (Inl e) fs"
    and "\<And>fs'. delivered_ok E st offer data c fs' \<Longrightarrow> always W k fs' Q"
  shows "always W (io_then (remove_if_exists p) k) fs Q"
proof -
  have t: "tree_ok st offer fs" using assms(2) by (simp add: delivered_ok_def)
  have sl: "slot fs p" using tree_ok_slots [OF t] assms(3) by auto
  show ?thesis
    by (rule thn, rule remove_if_exists_rule [OF tree_ok_slots(6) [OF t]])
       (use assms sl delivered_ok_del [OF assms(1,2,3)] in auto)
qed

lemma write_done_rule:
  assumes od: "offer_of_data E offer data" and t: "tree_ok st offer fs" and c: "safe_name c"
    and cm: "holds fs (sp_commit (paths_of st offer)) (to_vec E (commit_record_json (commit_of offer c)))"
    and dd: "holds fs (dest st offer c) data" and dn: "lookup fs (sp_done (paths_of st offer)) = None"
    and err: "\<And>e fs'. may_err W (\<forall>u. may_draw W u \<longrightarrow>
          lookup fs (temp_path (sp_done (paths_of st offer)) u) = None) \<Longrightarrow>
          durable E st offer data fs' \<Longrightarrow> Q (Inl e) fs'"
    and ok: "\<And>fs'. delivered_ok E st offer data c fs' \<Longrightarrow> always W k fs' Q"
  shows "always W (io_then (atomic_write_json E (sp_done (paths_of st offer))
           (done_record_json (done_of offer c))) k) fs Q"
proof (rule thn, rule atomic_write_rule [OF tree_ok_slots(6) [OF t]
    records_of_transfer(3) [OF offer_tid [OF od]]])
  let ?d = "sp_done (paths_of st offer)"
  note ap = paths_apart [OF od, where st = st]
  fix e fs' u
  assume m: "may_err W (slot fs ?d \<and> (\<forall>u. may_draw W u \<longrightarrow> lookup fs (temp_path ?d u) = None))"
    and f: "plain_nodes fs'" "agree_except {?d, temp_path ?d u} fs fs'"
      "lookup fs' ?d = lookup fs ?d \<or> lookup fs' ?d = None"
  have "tree_ok st offer fs'"
  proof (rule tree_ok_agree [OF t f(2,1)])
    show "destination_root st offer \<notin> {?d, temp_path ?d u}" "state_dir st offer \<notin> {?d, temp_path ?d u}"
      using ap(3) [of ?d] ap(5) [of ?d u c] by auto
  qed (use ap(5) [of ?d u c] f(3) dn in auto)
  moreover have "committed E st offer data fs'"
    unfolding committed_def
    using c cm dd dn f(3) ap(1) ap(2) [of c] ap(5) [of ?d u c]
    by (intro exI [of _ c]) (auto simp: holds_agree [OF f(2)])
  ultimately have "durable E st offer data fs'" by (simp add: durable_def)
  moreover have "may_err W (\<forall>u. may_draw W u \<longrightarrow> lookup fs (temp_path ?d u) = None)"
    using m tree_ok_slots(4) [OF t] by (auto simp: may_err_def)
  ultimately show "case Inl e of Inl e \<Rightarrow> Q (Inl e) fs' | Inr _ \<Rightarrow> always W k fs' Q"
    by (simp add: err)
next
  let ?d = "sp_done (paths_of st offer)"
  note ap = paths_apart [OF od, where st = st]
  fix m fs'
  assume f: "plain_nodes fs'" "agree_except {?d} fs fs'"
    "lookup fs' ?d = Some (FileN (to_vec E (done_record_json (done_of offer c))) m)"
  have "tree_ok st offer fs'"
    by (rule tree_ok_agree [OF t f(2,1)]) (use ap(3) [of ?d] f(3) in auto)
  then have "delivered_ok E st offer data c fs'"
    using c dd f(3) ap(2) [of c]
    by (auto simp: delivered_ok_def delivered_def holds_agree [OF f(2)]) (simp add: holds_def)
  then show "case Inr () of Inl e \<Rightarrow> Q (Inl e) fs' | Inr _ \<Rightarrow> always W k fs' Q"
    by (simp add: ok)
qed

lemma finish_file_rule:
  assumes "offer_of_data E offer data" "tree_ok st offer fs" "safe_name c"
    "holds fs (sp_commit (paths_of st offer)) (to_vec E (commit_record_json (commit_of offer c)))"
    "holds fs (dest st offer c) data" "lookup fs (sp_done (paths_of st offer)) = None"
    and err: "\<And>e fs'. may_err W (\<forall>u. may_draw W u \<longrightarrow>
          lookup fs (temp_path (sp_done (paths_of st offer)) u) = None) \<Longrightarrow>
          durable E st offer data fs' \<Longrightarrow> Q (Inl e) fs'"
    and ok: "\<And>fs'. delivered_ok E st offer data c fs' \<Longrightarrow>
          Q (Inr \<lparr>ct_receipt = receipt_of (stored_offer_of offer), ct_destination = dest st offer c\<rparr>) fs'"
  shows "always W (finish_file E offer (paths_of st offer) c (dest st offer c)) fs Q"
  unfolding finish_file_def Let_def done_of_def [symmetric]
  by (rule write_done_rule [OF assms(1-6)], fact err)
     (auto intro!: remove_delivered [OF assms(1)] ret ok err delivered_ok_durable simp: may_err_def)

text \<open>Moving the file to the committed name.\<close>

lemma ensure_dest_rule:
  assumes od: "offer_of_data E offer data" and t: "tree_ok st offer fs" and d: "holds fs (dest st offer c) data"
    and err: "\<And>e. may_err W True \<Longrightarrow> Q (Inl e) fs" and ok: "always W k fs Q"
  shows "always W (io_then (ensure_file_destination E (dest st offer c) (to_size offer) (to_blake3 offer)) k) fs Q"
proof (rule thn, rule ensure_file_destination_rule [OF tree_ok_slots(6) [OF t]])
  fix e
  assume "may_err W (\<exists>d m. slot fs (dest st offer c) \<and> lookup fs (dest st offer c) = Some (FileN d m) \<and>
    length d = to_size offer \<and> hex_encode E (blake3_hash E d) = to_blake3 offer)"
  moreover obtain m where "lookup fs (dest st offer c) = Some (FileN data m)"
    using d by (auto simp: holds_def)
  moreover have "slot fs (dest st offer c)"
    using tree_ok_slots(5) [OF t, of c] holds_not_dir [OF d] by (simp add: slot_def)
  ultimately have "may_err W True" using od by (auto simp: may_err_def offer_of_data_def)
  then show "case Inl e of Inl e \<Rightarrow> Q (Inl e) fs | Inr _ \<Rightarrow> always W k fs Q" by (simp add: err)
qed (use ok in simp)

end

text \<open>The tree after the file was moved to its committed name.\<close>

lemma moved_tree:
  assumes od: "offer_of_data E offer data" and t: "tree_ok st offer fs"
    and part: "lookup fs (sp_part (paths_of st offer)) = Some (FileN data m)"
    and none: "lookup fs (dest st offer c) = None"
  defines "fs' \<equiv> put_node (dest st offer c) (FileN data m) (del_node (sp_part (paths_of st offer)) fs)"
  shows "tree_ok st offer fs'" "agree_except {sp_part (paths_of st offer), dest st offer c} fs fs'"
    "holds fs' (dest st offer c) data"
proof -
  let ?p = "sp_part (paths_of st offer)" and ?q = "dest st offer c"
  note ap = paths_apart [OF od, where st = st]
  have ne: "?p \<noteq> []" "?q \<noteq> []" "?p \<noteq> ?q" using ap(2) [of c] ap(3) [of ?p] ap(4) [of c] by auto
  show ag: "agree_except {?p, ?q} fs fs'" using ne by (auto simp: fs'_def agree_except_def)
  show "holds fs' ?q data" using ne by (simp add: fs'_def holds_def)
  have lf: "plain_nodes fs'"
    unfolding fs'_def using ne tree_ok_slots(6) [OF t]
    by (intro plain_nodes_put_node plain_nodes_del_node) (auto simp: is_symlink_def)
  have qd: "?q \<noteq> destination_root st offer" "?q \<noteq> state_dir st offer"
    using t none ap(4) [of c] by (auto simp: tree_ok_def)
  show "tree_ok st offer fs'"
  proof (rule tree_ok_agree [OF t ag lf])
    show "destination_root st offer \<notin> {?p, ?q}" "state_dir st offer \<notin> {?p, ?q}"
      using ap(3) [of ?p] qd by auto
  next
    fix p t assume "p \<in> {?p, ?q}"
    then show "lookup fs' p \<noteq> Some (DirN t)" using ne by (auto simp: fs'_def)
  qed
qed

lemma touched_tree:
  fixes m' :: int
  assumes od: "offer_of_data E offer data" and t: "tree_ok st offer fs"
    and d: "lookup fs (dest st offer c) = Some (FileN data m)"
  defines "fs' \<equiv> put_node (dest st offer c) (FileN data m') fs"
  shows "tree_ok st offer fs'" "agree_except {sp_part (paths_of st offer), dest st offer c} fs fs'"
    "holds fs' (dest st offer c) data"
proof -
  let ?p = "sp_part (paths_of st offer)" and ?q = "dest st offer c"
  note ap = paths_apart [OF od, where st = st]
  have ne: "?q \<noteq> []" using ap(4) [of c] by auto
  show ag: "agree_except {?p, ?q} fs fs'" using ne by (auto simp: fs'_def agree_except_def)
  show "holds fs' ?q data" using ne by (simp add: fs'_def holds_def)
  have ag': "agree_except {?q} fs fs'" using ne by (auto simp: fs'_def agree_except_def)
  have lf: "plain_nodes fs'"
    unfolding fs'_def using ne tree_ok_slots(6) [OF t] by (intro plain_nodes_put_node) (auto simp: is_symlink_def)
  have qd: "?q \<noteq> destination_root st offer" "?q \<noteq> state_dir st offer"
    using t d ap(4) [of c] by (auto simp: tree_ok_def)
  show "tree_ok st offer fs'"
    by (rule tree_ok_agree [OF t ag' lf]) (use qd ne in \<open>auto simp: fs'_def\<close>)
qed

context schedule
begin

lemma place_file_rule:
  assumes od: "offer_of_data E offer data" and t: "tree_ok st offer fs"
    and where_it_is: "lookup fs (dest st offer c) = None \<and> holds fs (sp_part (paths_of st offer)) data \<or>
               holds fs (dest st offer c) data"
    and err: "\<And>e fs'. may_err W True \<Longrightarrow> tree_ok st offer fs' \<Longrightarrow>
          fs' = fs \<or> agree_except {sp_part (paths_of st offer), dest st offer c} fs fs' \<and>
                     holds fs' (dest st offer c) data \<Longrightarrow> Q (Inl e) fs'"
    and ok: "\<And>fs'. tree_ok st offer fs' \<Longrightarrow>
          agree_except {sp_part (paths_of st offer), dest st offer c} fs fs' \<Longrightarrow>
          holds fs' (dest st offer c) data \<Longrightarrow> always W k fs' Q"
  shows "always W (io_then (place_file E offer (paths_of st offer) (dest st offer c)) k) fs Q"
proof -
  let ?p = "sp_part (paths_of st offer)" and ?q = "dest st offer c"
  let ?touch = "apply_modified_time ?q (to_modified_ms offer)"
  let ?check = "io_then (ensure_file_destination E ?q (to_size offer) (to_blake3 offer)) ?touch"
  note lf = tree_ok_slots(6) [OF t]
  have pq: "?p \<noteq> ?q" "?q \<noteq> []"
    using paths_apart(2) [OF od, where st = st and c = c] paths_apart(4) [OF od, where st = st and c = c]
    by auto
  have check: "always W ?check fs1 (\<lambda>r fs'. case r of Inl e \<Rightarrow> Q (Inl e) fs' | Inr _ \<Rightarrow> always W k fs' Q)"
    if t1: "tree_ok st offer fs1" and ag: "agree_except {?p, ?q} fs fs1" and h: "holds fs1 ?q data" for fs1
  proof (rule ensure_dest_rule [OF od t1 h])
    obtain m where m: "lookup fs1 ?q = Some (FileN data m)" using h by (auto simp: holds_def)
    note tt = touched_tree [OF od t1 m]
    show "always W ?touch fs1 (\<lambda>r fs'. case r of Inl e \<Rightarrow> Q (Inl e) fs' | Inr _ \<Rightarrow> always W k fs' Q)"
      unfolding apply_modified_time_eq
    proof (rule set_mtime_rule [OF tree_ok_slots(6) [OF t1]])
      fix n assume "lookup fs1 ?q = Some n"
      then show "case Inr () of Inl e \<Rightarrow> Q (Inl e) (put_node ?q (set_node_mtime (to_modified_ms offer mod 2 ^ 64) n) fs1)
        | Inr _ \<Rightarrow> always W k (put_node ?q (set_node_mtime (to_modified_ms offer mod 2 ^ 64) n) fs1) Q"
        using tt m ag by (auto intro!: ok intro: agree_trans simp: set_node_mtime_def)
    qed (use m pq tree_ok_slots(5) [OF t1] t1 ag h in \<open>auto intro!: err simp: may_err_def\<close>)
  qed (use t1 ag h err in auto)
  have move: "always W (if \<not> b then io_rename ?p ?q else io_ret ()) fs
      (\<lambda>r fs'. case r of Inl e \<Rightarrow> fs' = fs \<and> may_err W True
         | Inr _ \<Rightarrow> tree_ok st offer fs' \<and> agree_except {?p, ?q} fs fs' \<and> holds fs' ?q data)"
    if b: "b \<longleftrightarrow> lookup fs ?q \<noteq> None" for b
  proof (cases b)
    case True
    then have "holds fs ?q data" using where_it_is b by (auto simp: holds_def)
    with True t show ?thesis by (auto intro!: ret)
  next
    case False
    then have none: "lookup fs ?q = None" using b by simp
    then obtain m where m: "lookup fs ?p = Some (FileN data m)" using where_it_is by (auto simp: holds_def)
    have sl: "slot fs ?q" using none tree_ok_slots(5) [OF t] by (simp add: slot_def)
    have "always W (io_rename ?p ?q) fs
      (\<lambda>r fs'. case r of Inl e \<Rightarrow> fs' = fs \<and> may_err W True
         | Inr _ \<Rightarrow> tree_ok st offer fs' \<and> agree_except {?p, ?q} fs fs' \<and> holds fs' ?q data)"
      by (rule rename_file_rule [OF lf m _ pq(1)])
         (use tree_ok_slots(1) [OF t] moved_tree [OF od t m none] sl in \<open>auto simp: may_err_def slot_def\<close>)
    with False show ?thesis by simp
  qed
  have step: "always W (io_then (if \<not> b then io_rename ?p ?q else io_ret ()) ?check) fs
      (\<lambda>r fs'. case r of Inl e \<Rightarrow> Q (Inl e) fs' | Inr _ \<Rightarrow> always W k fs' Q)"
    if b: "b \<longleftrightarrow> lookup fs ?q \<noteq> None" for b
  proof (rule thn, rule mono [OF move [OF b]])
    fix r :: "unit result" and fs'
    assume "case r of Inl e \<Rightarrow> fs' = fs \<and> may_err W True
       | Inr _ \<Rightarrow> tree_ok st offer fs' \<and> agree_except {?p, ?q} fs fs' \<and> holds fs' ?q data"
    then show "case r of
        Inl e \<Rightarrow> (case Inl e of Inl e \<Rightarrow> Q (Inl e) fs' | Inr _ \<Rightarrow> always W k fs' Q)
      | Inr _ \<Rightarrow> always W ?check fs'
          (\<lambda>r fs'. case r of Inl e \<Rightarrow> Q (Inl e) fs' | Inr _ \<Rightarrow> always W k fs' Q)"
      using t err [of fs] check [of fs'] by (cases r) simp_all
  qed
  show ?thesis
    unfolding place_file_def
  proof (rule thn, rule bind, rule try_exists_rule [OF lf])
    fix e assume "may_err W (in_dir fs ?q)"
    then have "may_err W True" using tree_ok_slots(5) [OF t] by (auto simp: may_err_def)
    then have "Q (Inl e) fs" using t by (intro err) auto
    then show "case Inl e of Inl e \<Rightarrow> (case Inl e of Inl e \<Rightarrow> Q (Inl e) fs | Inr _ \<Rightarrow> always W k fs Q)
        | Inr b \<Rightarrow> always W (io_then (if \<not> b then io_rename ?p ?q else io_ret ()) ?check) fs
           (\<lambda>r fs'. case r of Inl e \<Rightarrow> Q (Inl e) fs' | Inr _ \<Rightarrow> always W k fs' Q)" by simp
  next
    fix n assume "lookup fs ?q = Some n"
    with step [of True] show "case Inr True of Inl e \<Rightarrow> (case Inl e of Inl e \<Rightarrow> Q (Inl e) fs | Inr _ \<Rightarrow> always W k fs Q)
        | Inr b \<Rightarrow> always W (io_then (if \<not> b then io_rename ?p ?q else io_ret ()) ?check) fs
           (\<lambda>r fs'. case r of Inl e \<Rightarrow> Q (Inl e) fs' | Inr _ \<Rightarrow> always W k fs' Q)" by simp
  next
    assume "lookup fs ?q = None \<or> \<not> in_dir fs ?q"
    then have "lookup fs ?q = None" using tree_ok_slots(5) [OF t] by auto
    with step [of False] show "case Inr False of Inl e \<Rightarrow> (case Inl e of Inl e \<Rightarrow> Q (Inl e) fs | Inr _ \<Rightarrow> always W k fs Q)
        | Inr b \<Rightarrow> always W (io_then (if \<not> b then io_rename ?p ?q else io_ret ()) ?check) fs
           (\<lambda>r fs'. case r of Inl e \<Rightarrow> Q (Inl e) fs' | Inr _ \<Rightarrow> always W k fs' Q)" by simp
  qed
qed

end

section \<open>Choosing a name\<close>

text \<open>Received, with a commit record that names \<open>c\<close>.\<close>

definition named :: "crates \<Rightarrow> store \<Rightarrow> transfer_offer \<Rightarrow> bytes \<Rightarrow> string \<Rightarrow> fs \<Rightarrow> bool" where
  "named E st offer data c fs \<longleftrightarrow>
     (let ps = paths_of st offer in
      tree_ok st offer fs \<and> safe_name c \<and>
      holds fs (sp_part ps) data \<and>
      holds fs (sp_metadata ps) (to_vec E (stored_offer_json (stored_offer_of offer))) \<and>
      lookup fs (sp_done ps) = None \<and>
      holds fs (sp_commit ps) (to_vec E (commit_record_json (commit_of offer c))) \<and>
      (lookup fs (dest st offer c) = None \<or> holds fs (dest st offer c) data))"

lemma named_durable: "named E st offer data c fs \<Longrightarrow> durable E st offer data fs"
  by (auto simp: named_def durable_def received_def Let_def)

text \<open>\<open>room\<close> for the UUIDs a class of schedules may draw.\<close>

definition room_for :: "(world \<Rightarrow> bool) \<Rightarrow> store \<Rightarrow> transfer_offer \<Rightarrow> fs \<Rightarrow> bool" where
  "room_for W st offer fs \<longleftrightarrow> room st offer (may_draw W) fs"

lemma temps_apart:
  assumes "offer_of_data E offer data"
  shows "temp_path (sp_done (paths_of st offer)) u \<notin>
    {sp_part (paths_of st offer), sp_metadata (paths_of st offer), sp_commit (paths_of st offer),
     dest st offer c}"
  using paths_apart(5) [OF assms, where st = st and q = "sp_done (paths_of st offer)" and u = u and c = c]
  by simp

context schedule
begin

lemma commit_for_rule:
  assumes od: "offer_of_data E offer data" and t: "tree_ok st offer fs"
    and rc: "received E st offer data fs"
    and err: "\<And>e fs'. may_err W (room_for W st offer fs) \<Longrightarrow> durable E st offer data fs' \<Longrightarrow> Q (Inl e) fs'"
    and ok: "\<And>c fs'. named E st offer data c fs' \<Longrightarrow>
          agree_except {sp_commit (paths_of st offer)} fs fs' \<Longrightarrow>
          always W (f (commit_of offer c)) fs' Q"
  shows "always W (io_bind (commit_for E st offer (paths_of st offer)) f) fs Q"
proof -
  let ?c = "sp_commit (paths_of st offer)"
  let ?Q = "\<lambda>r fs'. case r of Inl e \<Rightarrow> Q (Inl e) fs' | Inr x \<Rightarrow> always W (f x) fs' Q"
  let ?name = "so_filename (stored_offer_of offer)"
  note lf = tree_ok_slots(6) [OF t] and ap = paths_apart [OF od, where st = st]
  have dur: "durable E st offer data fs" using t rc by (simp add: durable_def)
  have old: "always W (io_then (io_lift (ensure_same_offer (stored_offer_of offer) (co_offer x)))
      (io_then (io_lift (validate_destination_name (co_destination x))) (io_ret x))) fs ?Q"
    if x: "x = commit_of offer c" and c: "safe_name c" and r: "named E st offer data c fs" for x c
  proof -
    have "ensure_same_offer (stored_offer_of offer) (co_offer x) = Inr ()"
      "validate_destination_name (co_destination x) = Inr ()"
      using c by (simp_all add: x commit_of_def ensure_same_offer_def validate_destination_name_iff)
    then show ?thesis using ok [OF r] by (auto intro!: thn lift ret simp: x)
  qed
  have new: "always W (io_bind (unique_destination (destination_root st offer) ?name) (\<lambda>destination.
      io_then (atomic_write_json E ?c (commit_record_json (commit_of offer destination)))
        (io_ret (commit_of offer destination)))) fs ?Q" if none: "lookup fs ?c = None"
  proof (rule bind, rule unique_destination_rule [OF lf stored_name_safe])
    fix e
    assume "may_err W (in_dir fs (destination_root st offer @ [?name]) \<and>
      (\<exists>i\<in>{2..u32_max}. lookup fs (destination_root st offer @ [candidate ?name i]) = None))"
    then have "may_err W (room_for W st offer fs)"
      using tree_ok_slots(5) [OF t, of ?name]
      by (auto simp: may_err_def room_for_def room_def dest_def stored_offer_of_def)
    then show "case Inl e of Inl e \<Rightarrow> ?Q (Inl e) fs
      | Inr d \<Rightarrow> always W (io_then (atomic_write_json E ?c (commit_record_json (commit_of offer d)))
          (io_ret (commit_of offer d))) fs ?Q" using err dur by simp
  next
    fix c assume c: "c \<in> candidates ?name"
      and "lookup fs (destination_root st offer @ [c]) = None \<or> \<not> in_dir fs (destination_root st offer @ [?name])"
    then have free: "lookup fs (dest st offer c) = None"
      using tree_ok_slots(5) [OF t, of ?name] by (auto simp: dest_def)
    have safe: "safe_name c"
      using candidates_safe [OF _ c] safe_name_safe_filename by (simp add: stored_offer_of_def)
    have "always W (io_then (atomic_write_json E ?c (commit_record_json (commit_of offer c)))
        (io_ret (commit_of offer c))) fs ?Q"
    proof (rule thn, rule atomic_write_rule [OF lf records_of_transfer(2) [OF offer_tid [OF od]]])
      fix e fs' u
      assume m: "may_err W (slot fs ?c \<and> (\<forall>u. may_draw W u \<longrightarrow> lookup fs (temp_path ?c u) = None))"
        and f: "plain_nodes fs'" "agree_except {?c, temp_path ?c u} fs fs'"
          "lookup fs' ?c = lookup fs ?c \<or> lookup fs' ?c = None"
      have "tree_ok st offer fs'"
      proof (rule tree_ok_agree [OF t f(2,1)])
        show "destination_root st offer \<notin> {?c, temp_path ?c u}" "state_dir st offer \<notin> {?c, temp_path ?c u}"
          using ap(3) [of ?c] ap(5) [of ?c u c] by auto
      qed (use ap(5) [of ?c u c] f(3) none in auto)
      moreover have "received E st offer data fs'"
        using rc none f(3) ap(1) ap(5) [of ?c u c] agreeD [OF f(2)]
        by (auto simp: received_def Let_def holds_agree [OF f(2)])
      ultimately have "durable E st offer data fs'" by (simp add: durable_def)
      moreover have "may_err W (room_for W st offer fs)"
        using m tree_ok_slots(3) [OF t] by (auto simp: may_err_def room_for_def room_def)
      ultimately show "case Inl e of Inl e \<Rightarrow> ?Q (Inl e) fs' | Inr _ \<Rightarrow> always W (io_ret (commit_of offer c)) fs' ?Q"
        using err by simp
    next
      fix m fs'
      assume f: "plain_nodes fs'" "agree_except {?c} fs fs'"
        "lookup fs' ?c = Some (FileN (to_vec E (commit_record_json (commit_of offer c))) m)"
      have "tree_ok st offer fs'"
        by (rule tree_ok_agree [OF t f(2,1)]) (use ap(3) [of ?c] f(3) in auto)
      moreover have "lookup fs' (dest st offer c) = None"
        using free agreeD [OF f(2)] ap(2) [of c] by auto
      moreover have "lookup fs' (sp_done (paths_of st offer)) = lookup fs (sp_done (paths_of st offer))"
        using agreeD [OF f(2)] ap(1) by auto
      ultimately have "named E st offer data c fs'"
        using rc safe f(3) ap(1)
        by (auto simp: named_def received_def Let_def holds_agree [OF f(2)]) (auto simp: holds_def)
      with ok f(2) show "case Inr () of Inl e \<Rightarrow> ?Q (Inl e) fs'
        | Inr _ \<Rightarrow> always W (io_ret (commit_of offer c)) fs' ?Q" by (auto intro: ret)
    qed
    then show "case Inr c of Inl e \<Rightarrow> ?Q (Inl e) fs
      | Inr d \<Rightarrow> always W (io_then (atomic_write_json E ?c (commit_record_json (commit_of offer d)))
          (io_ret (commit_of offer d))) fs ?Q" by simp
  qed
  have have_commit: "\<exists>c. bind_r (from_slice E d) as_commit_record = Inr (commit_of offer c) \<and>
      safe_name c \<and> named E st offer data c fs" if "lookup fs ?c = Some (FileN d m)" for d m
    using rc t that read_back(2) [OF od]
    by (auto simp: received_def named_def Let_def holds_def)
  show ?thesis
    unfolding commit_for_def Let_def commit_of_def [symmetric]
  proof (rule bind, rule bind, rule read_json_rule [OF lf])
    fix e assume "may_err W (slot fs ?c)"
    then have "may_err W (room_for W st offer fs)" using tree_ok_slots(3) [OF t] by (auto simp: may_err_def)
    then show "case Inl e of Inl e \<Rightarrow> ?Q (Inl e) fs
      | Inr c \<Rightarrow> always W (case c of None \<Rightarrow> io_bind (unique_destination (destination_root st offer) ?name)
           (\<lambda>destination. io_then (atomic_write_json E ?c (commit_record_json (commit_of offer destination)))
             (io_ret (commit_of offer destination)))
        | Some record \<Rightarrow> io_then (io_lift (ensure_same_offer (stored_offer_of offer) (co_offer record)))
            (io_then (io_lift (validate_destination_name (co_destination record))) (io_ret record))) fs ?Q"
      using err dur by simp
  qed (use new have_commit old tree_ok_slots(3) [OF t] in fastforce)+
qed

end

section \<open>Finalize and prepare\<close>

definition completed_as :: "store \<Rightarrow> transfer_offer \<Rightarrow> string \<Rightarrow> completed_transfer" where
  "completed_as st offer c =
     \<lparr>ct_receipt = receipt_of (stored_offer_of offer), ct_destination = dest st offer c\<rparr>"

lemma commit_of_simps [simp]:
  "co_offer (commit_of offer c) = stored_offer_of offer" "co_destination (commit_of offer c) = c"
  by (simp_all add: commit_of_def)

lemma done_of_simps [simp]:
  "do_offer (done_of offer c) = stored_offer_of offer" "do_destination (done_of offer c) = c"
  "do_receipt (done_of offer c) = receipt_of (stored_offer_of offer)"
  by (simp_all add: done_of_def)

lemma stored_offer_of_simps [simp]:
  "so_size (stored_offer_of offer) = to_size offer" "so_blake3 (stored_offer_of offer) = to_blake3 offer"
  by (simp_all add: stored_offer_of_def)

lemma receipt_of_simps [simp]:
  "tr_size (receipt_of r) = so_size r" "tr_blake3 (receipt_of r) = so_blake3 r"
  "tr_transfer_id (receipt_of r) = so_transfer_id r"
  by (simp_all add: receipt_of_def)

context schedule
begin

lemma finalize_rule:
  assumes od: "offer_of_data E offer data" and t: "tree_ok st offer fs"
    and rc: "received E st offer data fs"
    and err: "\<And>e fs'. may_err W (room_for W st offer fs) \<Longrightarrow> durable E st offer data fs' \<Longrightarrow> Q (Inl e) fs'"
    and ok: "\<And>c fs'. delivered_ok E st offer data c fs' \<Longrightarrow> Q (Inr (completed_as st offer c)) fs'"
  shows "always W (finalize E st offer) fs Q"
proof -
  let ?ps = "paths_of st offer"
  note lf = tree_ok_slots(6) [OF t] and ap = paths_apart [OF od, where st = st]
  have dur: "durable E st offer data fs" using t rc by (simp add: durable_def)
  obtain m where part: "lookup fs (sp_part ?ps) = Some (FileN data m)"
    using rc by (auto simp: received_def Let_def holds_def)
  have fail: "may_err W (slot fs (sp_part ?ps) \<and> lookup fs (sp_part ?ps) \<noteq> None) \<Longrightarrow> Q (Inl e) fs"
    "may_err W (in_dir fs (sp_part ?ps)) \<Longrightarrow> Q (Inl e) fs" for e
    using dur part tree_ok_slots(1) [OF t] by (auto intro!: err simp: may_err_def slot_def)
  have indir: "in_dir fs (sp_part ?ps)" using tree_ok_slots(1) [OF t] by (rule slotD)
  have commit: "always W (io_bind (commit_for E st offer ?ps) (\<lambda>commit.
       io_then (place_file E offer ?ps (destination_root st offer @ [co_destination commit]))
         (finish_file E offer ?ps (co_destination commit)
            (destination_root st offer @ [co_destination commit])))) fs Q"
  proof (rule commit_for_rule [OF od t rc])
    show "Q (Inl e) fs'" if "may_err W (room_for W st offer fs)" "durable E st offer data fs'" for e fs'
      using that by (rule err)
  next
    fix c fs1 assume n: "named E st offer data c fs1" and ag1: "agree_except {sp_commit ?ps} fs fs1"
    have t1: "tree_ok st offer fs1" and safe: "safe_name c" using n by (simp_all add: named_def Let_def)
    have cm: "holds fs1 (sp_commit ?ps) (to_vec E (commit_record_json (commit_of offer c)))"
      and dn: "lookup fs1 (sp_done ?ps) = None" using n by (simp_all add: named_def Let_def)
    have "always W (io_then (place_file E offer ?ps (dest st offer c))
        (finish_file E offer ?ps c (dest st offer c))) fs1 Q"
    proof (rule place_file_rule [OF od t1])
      show "lookup fs1 (dest st offer c) = None \<and> holds fs1 (sp_part ?ps) data \<or> holds fs1 (dest st offer c) data"
        using n by (auto simp: named_def Let_def)
    next
      fix e fs' assume m: "may_err W True" and t': "tree_ok st offer fs'"
        and f: "fs' = fs1 \<or> agree_except {sp_part ?ps, dest st offer c} fs1 fs' \<and> holds fs' (dest st offer c) data"
      have "committed E st offer data fs'"
        if "agree_except {sp_part ?ps, dest st offer c} fs1 fs'" "holds fs' (dest st offer c) data"
        using that cm dn safe ap(1) ap(2) [of c] agreeD [OF that(1)]
        by (auto simp: committed_def holds_agree [OF that(1)])
      then have "durable E st offer data fs'"
        using f t' named_durable [OF n] by (auto simp: durable_def)
      then show "Q (Inl e) fs'" using m by (intro err) (auto simp: may_err_def)
    next
      fix fs2 assume t2: "tree_ok st offer fs2" and ag2: "agree_except {sp_part ?ps, dest st offer c} fs1 fs2"
        and d2: "holds fs2 (dest st offer c) data"
      show "always W (finish_file E offer ?ps c (dest st offer c)) fs2 Q"
      proof (rule finish_file_rule [OF od t2 safe _ d2])
        show "holds fs2 (sp_commit ?ps) (to_vec E (commit_record_json (commit_of offer c)))"
          "lookup fs2 (sp_done ?ps) = None"
          using cm dn ap(1) ap(2) [of c] agreeD [OF ag2] by (auto simp: holds_agree [OF ag2])
      next
        fix e fs' assume "may_err W (\<forall>u. may_draw W u \<longrightarrow> lookup fs2 (temp_path (sp_done ?ps) u) = None)"
          and "durable E st offer data fs'"
        moreover have "lookup fs2 (temp_path (sp_done ?ps) u) = lookup fs (temp_path (sp_done ?ps) u)" for u
          using agreeD [OF ag1] agreeD [OF ag2] temps_apart [OF od, where st = st and u = u and c = c] by auto
        ultimately show "Q (Inl e) fs'"
          by (intro err) (auto simp: may_err_def room_for_def room_def)
      next
        fix fs' assume "delivered_ok E st offer data c fs'"
        then show "Q (Inr \<lparr>ct_receipt = receipt_of (stored_offer_of offer), ct_destination = dest st offer c\<rparr>) fs'"
          using ok by (simp add: completed_as_def)
      qed
    qed
    then show "always W (io_then (place_file E offer ?ps (destination_root st offer @ [co_destination (commit_of offer c)]))
         (finish_file E offer ?ps (co_destination (commit_of offer c))
            (destination_root st offer @ [co_destination (commit_of offer c)]))) fs1 Q"
      by (simp add: dest_def)
  qed
  have len: "node_len (FileN data m) = to_size offer" and hash: "hex_encode E (blake3_hash E data) = to_blake3 offer"
    using od by (simp_all add: offer_of_data_def node_len_def)
  show ?thesis
    unfolding finalize_eq Let_def
    by (rule bind, rule metadata_rule [OF lf])
       (use part len hash commit fail indir in \<open>auto intro!: reject_if bind blake3_file_hex_rule [OF lf]\<close>)
qed

lemma recover_commit_rule:
  assumes od: "offer_of_data E offer data" and t: "tree_ok st offer fs" and safe: "safe_name c"
    and cm: "holds fs (sp_commit (paths_of st offer)) (to_vec E (commit_record_json (commit_of offer c)))"
    and dn: "lookup fs (sp_done (paths_of st offer)) = None"
    and fileq: "lookup fs (dest st offer c) = None \<or> holds fs (dest st offer c) data"
    and err: "\<And>e fs'. may_err W (room_for W st offer fs) \<Longrightarrow>
          fs' = fs \<or> durable E st offer data fs' \<Longrightarrow> Q (Inl e) fs'"
    and none: "lookup fs (dest st offer c) = None \<Longrightarrow> always W (f None) fs Q"
    and some: "\<And>fs'. delivered_ok E st offer data c fs' \<Longrightarrow> always W (f (Some (completed_as st offer c))) fs' Q"
  shows "always W (io_bind (recover_commit E st (commit_of offer c) (paths_of st offer)) f) fs Q"
proof -
  let ?ps = "paths_of st offer" and ?q = "dest st offer c"
  let ?Q = "\<lambda>r fs'. case r of Inl e \<Rightarrow> Q (Inl e) fs' | Inr x \<Rightarrow> always W (f x) fs' Q"
  note lf = tree_ok_slots(6) [OF t]
  have q: "destination_root_stored st (co_offer (commit_of offer c)) @ [co_destination (commit_of offer c)] = ?q"
    by (simp add: dest_def)
  have rec: "\<lparr>do_offer = co_offer (commit_of offer c), do_destination = co_destination (commit_of offer c),
      do_receipt = receipt_of (co_offer (commit_of offer c)), do_manifest = None\<rparr> = done_of offer c"
    by (simp add: done_of_def)
  have late: "Q (Inl e) fs'" if "may_err W True" "delivered_ok E st offer data c fs'" for e fs'
    using that delivered_ok_durable by (intro err) (auto simp: may_err_def)
  have early: "Q (Inl e) fs'" if "may_err W (\<forall>u. may_draw W u \<longrightarrow> lookup fs (temp_path (sp_done ?ps) u) = None)"
      "durable E st offer data fs'" for e fs'
    using that by (intro err) (auto simp: may_err_def room_for_def room_def)
  have now: "Q (Inl e) fs" if "may_err W True" for e
    using that by (intro err) (auto simp: may_err_def)
  have found: "always W (io_then (ensure_file_destination E ?q (to_size offer) (to_blake3 offer))
      (io_then (atomic_write_json E (sp_done ?ps) (done_record_json (done_of offer c)))
      (io_then (remove_if_exists (sp_part ?ps))
      (io_then (remove_if_exists (sp_metadata ?ps))
      (io_then (remove_if_exists (sp_commit ?ps))
        (io_ret (Some (completed_as st offer c)))))))) fs ?Q" if h: "holds fs ?q data"
  proof (rule ensure_dest_rule [OF od t h], simp add: now, rule write_done_rule [OF od t safe cm h dn], simp add: early)
    fix fs1 assume "delivered_ok E st offer data c fs1"
    then show "always W (io_then (remove_if_exists (sp_part ?ps))
      (io_then (remove_if_exists (sp_metadata ?ps))
      (io_then (remove_if_exists (sp_commit ?ps))
        (io_ret (Some (completed_as st offer c)))))) fs1 ?Q"
      by (auto intro!: remove_delivered [OF od] ret late some)
  qed
  have vd: "validate_destination_name c = Inr ()" using safe by (simp add: validate_destination_name_iff)
  show ?thesis
    unfolding recover_commit_eq Let_def rec q
    unfolding commit_of_simps stored_offer_of_simps completed_as_def [symmetric]
  proof (rule bind, rule thn, rule lift, simp only: vd sum.case, rule bind, rule try_exists_rule [OF lf])
    fix e assume "may_err W (in_dir fs ?q)"
    then show "case Inl e of Inl e \<Rightarrow> ?Q (Inl e) fs
      | Inr b \<Rightarrow> always W (if \<not> b then io_ret None else
          io_then (ensure_file_destination E ?q (to_size offer) (to_blake3 offer))
          (io_then (atomic_write_json E (sp_done ?ps) (done_record_json (done_of offer c)))
          (io_then (remove_if_exists (sp_part ?ps))
          (io_then (remove_if_exists (sp_metadata ?ps))
          (io_then (remove_if_exists (sp_commit ?ps))
            (io_ret (Some (completed_as st offer c)))))))) fs ?Q"
      using tree_ok_slots(5) [OF t] by (auto intro!: err simp: may_err_def)
  qed (use found fileq none tree_ok_slots(5) [OF t] in \<open>auto intro!: ret\<close>)
qed

lemma prepare_part_rule:
  assumes od: "offer_of_data E offer data" and t: "tree_ok st offer fs"
    and rc: "received E st offer data fs"
    and err: "\<And>e. may_err W True \<Longrightarrow> Q (Inl e) fs"
    and ok: "Q (Inr (PrepareResume \<lparr>pt_part_path = sp_part (paths_of st offer), pt_offset = length data\<rparr>)) fs"
  shows "always W (prepare_part E offer (paths_of st offer)) fs Q"
proof -
  let ?ps = "paths_of st offer"
  note lf = tree_ok_slots(6) [OF t]
  obtain m where part: "lookup fs (sp_part ?ps) = Some (FileN data m)"
    using rc by (auto simp: received_def Let_def holds_def)
  obtain m' where meta: "lookup fs (sp_metadata ?ps) =
      Some (FileN (to_vec E (stored_offer_json (stored_offer_of offer))) m')"
    using rc by (auto simp: received_def Let_def holds_def)
  have fail: "may_err W (slot fs (sp_metadata ?ps)) \<Longrightarrow> Q (Inl e) fs"
    "may_err W (in_dir fs (sp_part ?ps)) \<Longrightarrow> Q (Inl e) fs" for e
    using tree_ok_slots(1,2) [OF t] slotD by (auto intro!: err simp: may_err_def)
  have sz: "to_size offer = length data" using od by (simp add: offer_of_data_def)
  have part_step: "always W (io_bind
       (io_match (io_metadata (sp_part ?ps)) (\<lambda>m. io_ret (node_len m))
          (if_not_found (io_then (io_open True (sp_part ?ps)) (io_then io_sync (io_ret 0)))))
       (\<lambda>offset. io_reject_if (to_size offer < offset)
          (InvalidTransfer ''partial transfer is larger than the offer'')
          (io_ret (PrepareResume \<lparr>pt_part_path = sp_part ?ps, pt_offset = offset\<rparr>)))) fs Q"
    by (rule bind, rule match, rule metadata_rule [OF lf])
       (use part ok sz fail slotD [OF tree_ok_slots(1) [OF t]] in
         \<open>auto intro!: ret reject_if throw simp: node_len_def if_not_found_def\<close>)
  show ?thesis
    unfolding prepare_part_def
  proof (rule bind, rule read_json_rule [OF lf])
    fix d m x assume "lookup fs (sp_metadata ?ps) = Some (FileN d m)"
      and "bind_r (from_slice E d) as_stored_offer = Inr x"
    then have "x = stored_offer_of offer" using meta read_back(1) [OF od] by simp
    then show "case Inr (Some x) of Inl e \<Rightarrow> Q (Inl e) fs
      | Inr stored \<Rightarrow> always W (io_then
       (case stored of
          Some s \<Rightarrow> io_lift (ensure_same_offer (stored_offer_of offer) s)
        | None \<Rightarrow>
            io_bind (io_try_exists (sp_part ?ps)) (\<lambda>b.
            io_then (if b then remove_if_exists (sp_part ?ps) else io_ret ())
              (atomic_write_json E (sp_metadata ?ps) (stored_offer_json (stored_offer_of offer)))))
       (io_bind
       (io_match (io_metadata (sp_part ?ps)) (\<lambda>m. io_ret (node_len m))
          (if_not_found (io_then (io_open True (sp_part ?ps)) (io_then io_sync (io_ret 0)))))
       (\<lambda>offset. io_reject_if (to_size offer < offset)
          (InvalidTransfer ''partial transfer is larger than the offer'')
          (io_ret (PrepareResume \<lparr>pt_part_path = sp_part ?ps, pt_offset = offset\<rparr>))))) fs Q"
      using part_step by (auto intro!: thn lift simp: ensure_same_offer_def)
  qed (use meta read_back(1) [OF od] fail tree_ok_slots(2) [OF t] in auto)
qed

lemma prepare_commit_rule:
  assumes od: "offer_of_data E offer data" and t: "tree_ok st offer fs"
    and rc: "received E st offer data fs \<or> committed E st offer data fs"
    and err: "\<And>e fs'. may_err W (room_for W st offer fs) \<Longrightarrow> durable E st offer data fs' \<Longrightarrow> Q (Inl e) fs'"
    and resume: "received E st offer data fs \<Longrightarrow>
        Q (Inr (PrepareResume \<lparr>pt_part_path = sp_part (paths_of st offer), pt_offset = length data\<rparr>)) fs"
    and complete: "\<And>c fs'. delivered_ok E st offer data c fs' \<Longrightarrow>
        Q (Inr (PrepareComplete (completed_as st offer c))) fs'"
  shows "always W (prepare_commit E st offer (paths_of st offer)) fs Q"
proof -
  let ?ps = "paths_of st offer"
  note lf = tree_ok_slots(6) [OF t]
  have dur: "durable E st offer data fs" using t rc by (auto simp: durable_def)
  have dn: "lookup fs (sp_done ?ps) = None" using rc by (auto simp: received_def committed_def Let_def)
  have part: "always W (prepare_part E offer ?ps) fs Q" if r: "received E st offer data fs"
    by (rule prepare_part_rule [OF od t r]) (use err dur resume r in \<open>auto simp: may_err_def\<close>)
  have recover: "always W (io_bind (recover_commit E st (commit_of offer c) ?ps) (\<lambda>r. case r of
          Some completed \<Rightarrow> io_ret (PrepareComplete completed)
        | None \<Rightarrow> prepare_part E offer ?ps)) fs Q"
    if cm: "holds fs (sp_commit ?ps) (to_vec E (commit_record_json (commit_of offer c)))"
      and safe: "safe_name c"
      and q: "lookup fs (dest st offer c) = None \<and> received E st offer data fs \<or> holds fs (dest st offer c) data" for c
  proof (rule recover_commit_rule [OF od t safe cm dn])
    show "lookup fs (dest st offer c) = None \<or> holds fs (dest st offer c) data" using q by blast
  next
    assume "lookup fs (dest st offer c) = None"
    then have "received E st offer data fs" using q by (auto simp: holds_def)
    then show "always W (case None of Some completed \<Rightarrow> io_ret (PrepareComplete completed)
        | None \<Rightarrow> prepare_part E offer ?ps) fs Q" using part by simp
  qed (use dur complete in \<open>auto intro!: err ret\<close>)
  have have_commit: "\<exists>c. bind_r (from_slice E d) as_commit_record = Inr (commit_of offer c) \<and> safe_name c \<and>
      holds fs (sp_commit ?ps) (to_vec E (commit_record_json (commit_of offer c))) \<and>
      (lookup fs (dest st offer c) = None \<and> received E st offer data fs \<or> holds fs (dest st offer c) data)"
    if l: "lookup fs (sp_commit ?ps) = Some (FileN d m)" for d m
  proof -
    from rc l obtain c where c: "safe_name c"
      "holds fs (sp_commit ?ps) (to_vec E (commit_record_json (commit_of offer c)))"
      "lookup fs (dest st offer c) = None \<and> received E st offer data fs \<or> holds fs (dest st offer c) data"
      by (auto simp: received_def committed_def Let_def)
    moreover have "d = to_vec E (commit_record_json (commit_of offer c))" using c(2) l by (simp add: holds_def)
    ultimately show ?thesis using read_back(2) [OF od] by blast
  qed
  have same: "ensure_same_offer (stored_offer_of offer) (co_offer (commit_of offer c)) = Inr ()" for c
    by (simp add: ensure_same_offer_def)
  have no_commit: "received E st offer data fs" if "lookup fs (sp_commit ?ps) = None"
    using rc that by (auto simp: committed_def holds_def)
  show ?thesis
    unfolding prepare_commit_def
  proof (rule bind, rule read_json_rule [OF lf])
    fix d m x assume l: "lookup fs (sp_commit ?ps) = Some (FileN d m)"
      and x: "bind_r (from_slice E d) as_commit_record = Inr x"
    from have_commit [OF l] x obtain c where c: "x = commit_of offer c" "safe_name c"
      "holds fs (sp_commit ?ps) (to_vec E (commit_record_json (commit_of offer c)))"
      "lookup fs (dest st offer c) = None \<and> received E st offer data fs \<or> holds fs (dest st offer c) data"
      by auto
    show "case Inr (Some x) of Inl e \<Rightarrow> Q (Inl e) fs
      | Inr c \<Rightarrow> always W (case c of None \<Rightarrow> prepare_part E offer ?ps
        | Some commit \<Rightarrow> io_then (io_lift (ensure_same_offer (stored_offer_of offer) (co_offer commit)))
           (io_bind (recover_commit E st commit ?ps) (\<lambda>r. case r of
              Some completed \<Rightarrow> io_ret (PrepareComplete completed)
            | None \<Rightarrow> prepare_part E offer ?ps))) fs Q"
      using recover [OF c(3,2,4)] same by (auto intro!: thn lift simp: c(1))
  next
    fix e assume "may_err W (slot fs (sp_commit ?ps))"
    then have "Q (Inl e) fs" using dur tree_ok_slots(3) [OF t] by (intro err) (auto simp: may_err_def)
    then show "case Inl e of Inl e \<Rightarrow> Q (Inl e) fs
      | Inr c \<Rightarrow> always W (case c of None \<Rightarrow> prepare_part E offer ?ps
        | Some commit \<Rightarrow> io_then (io_lift (ensure_same_offer (stored_offer_of offer) (co_offer commit)))
           (io_bind (recover_commit E st commit ?ps) (\<lambda>r. case r of
              Some completed \<Rightarrow> io_ret (PrepareComplete completed)
            | None \<Rightarrow> prepare_part E offer ?ps))) fs Q" by simp
  next
    fix d m e assume l: "lookup fs (sp_commit ?ps) = Some (FileN d m)"
      and x: "bind_r (from_slice E d) as_commit_record = Inl e"
    then show "case Inl e of Inl e \<Rightarrow> Q (Inl e) fs
      | Inr c \<Rightarrow> always W (case c of None \<Rightarrow> prepare_part E offer ?ps
        | Some commit \<Rightarrow> io_then (io_lift (ensure_same_offer (stored_offer_of offer) (co_offer commit)))
           (io_bind (recover_commit E st commit ?ps) (\<lambda>r. case r of
              Some completed \<Rightarrow> io_ret (PrepareComplete completed)
            | None \<Rightarrow> prepare_part E offer ?ps))) fs Q"
      using have_commit [OF l] by auto
  qed (use part no_commit tree_ok_slots(3) [OF t] in auto)
qed

lemma prepare_rule:
  assumes od: "offer_of_data E offer data" and d: "durable E st offer data fs"
    and err: "\<And>e fs'. may_err W (room_for W st offer fs) \<Longrightarrow> durable E st offer data fs' \<Longrightarrow> Q (Inl e) fs'"
    and resume: "tree_ok st offer fs \<Longrightarrow> received E st offer data fs \<Longrightarrow>
        Q (Inr (PrepareResume \<lparr>pt_part_path = sp_part (paths_of st offer), pt_offset = length data\<rparr>)) fs"
    and complete: "\<And>c fs'. delivered_ok E st offer data c fs' \<Longrightarrow>
        Q (Inr (PrepareComplete (completed_as st offer c))) fs'"
  shows "always W (prepare E st offer) fs Q"
proof -
  let ?ps = "paths_of st offer"
  have t: "tree_ok st offer fs" using d by (simp add: durable_def)
  note lf = tree_ok_slots(6) [OF t]
  have fine: "offer_validate E offer = Inr ()" "to_kind offer = FileTransfer"
    using od by (simp_all add: offer_of_data_def)
  have commit: "always W (prepare_commit E st offer ?ps) fs Q" if "lookup fs (sp_done ?ps) = None"
    by (rule prepare_commit_rule [OF od t])
       (use d that in \<open>auto intro!: err resume complete simp: durable_def delivered_def holds_def t\<close>)
  have finished: "always W (io_then (io_lift (ensure_same_offer (stored_offer_of offer) (do_offer (done_of offer c))))
      (io_bind (validate_completed E st (done_of offer c)) (\<lambda>r. case r of
         Some completed \<Rightarrow> io_ret (PrepareComplete completed)
       | None \<Rightarrow> io_then (remove_if_exists (sp_done ?ps)) (prepare_commit E st offer ?ps)))) fs Q"
    if dl: "delivered E st offer data c fs" for c
  proof -
    have h: "holds fs (dest st offer c) data" and vd: "validate_destination_name c = Inr ()"
      using dl by (simp_all add: delivered_def validate_destination_name_iff)
    have there: "lookup fs (dest st offer c) \<noteq> None" using h by (auto simp: holds_def)
    have now: "Q (Inl e) fs" if "may_err W True" for e
      using that d by (intro err) (auto simp: may_err_def)
    have same: "ensure_same_offer (stored_offer_of offer) (do_offer (done_of offer c)) = Inr ()"
      by (simp add: ensure_same_offer_def)
    have dok: "delivered_ok E st offer data c fs" using t dl by (simp add: delivered_ok_def)
    have vc: "always W (validate_completed E st (done_of offer c)) fs
        (\<lambda>r fs'. case r of Inl e \<Rightarrow> Q (Inl e) fs' | Inr x \<Rightarrow> x = Some (completed_as st offer c) \<and> fs' = fs)"
      unfolding validate_completed_eq Let_def done_of_simps destination_root_stored_of
        receipt_of_simps stored_offer_of_simps dest_def [symmetric] completed_as_def [symmetric]
      by (rule thn, rule lift, simp only: vd sum.case, rule bind, rule try_exists_rule [OF lf])
         (use there tree_ok_slots(5) [OF t] in \<open>auto intro!: ensure_dest_rule [OF od t h] ret now\<close>)
    show ?thesis
    proof (rule thn, rule lift, simp only: same sum.case, rule bind, rule mono [OF vc])
      fix r :: "completed_transfer option result" and fs'
      assume "case r of Inl e \<Rightarrow> Q (Inl e) fs' | Inr x \<Rightarrow> x = Some (completed_as st offer c) \<and> fs' = fs"
      then show "case r of Inl e \<Rightarrow> Q (Inl e) fs' | Inr r \<Rightarrow> always W (case r of
         Some completed \<Rightarrow> io_ret (PrepareComplete completed)
       | None \<Rightarrow> io_then (remove_if_exists (sp_done ?ps)) (prepare_commit E st offer ?ps)) fs' Q"
        using complete [OF dok] by (cases r) (auto intro!: ret)
    qed
  qed
  have have_done: "\<exists>c. bind_r (from_slice E x) as_done_record = Inr (done_of offer c) \<and>
      delivered E st offer data c fs" if l: "lookup fs (sp_done ?ps) = Some (FileN x m)" for x m
  proof -
    from d l obtain c where c: "delivered E st offer data c fs"
      by (auto simp: durable_def received_def committed_def Let_def)
    then have "x = to_vec E (done_record_json (done_of offer c))" using l by (simp add: delivered_def holds_def)
    with c show ?thesis using read_back(3) [OF od] by blast
  qed
  show ?thesis
    unfolding prepare_def Let_def
    by (rule thn, rule lift, simp only: fine sum.case, rule reject_if, simp, rule bind,
        rule read_json_rule [OF lf])
       (use commit finished have_done tree_ok_slots(4) [OF t] d err in \<open>fastforce simp: may_err_def\<close>)+
qed

text \<open>An attempt delivers the file, or fails and keeps it.\<close>

lemma attempt_rule:
  assumes od: "offer_of_data E offer data" and d: "durable E st offer data fs"
    and err: "\<And>e fs'. may_err W (room_for W st offer fs) \<Longrightarrow> durable E st offer data fs' \<Longrightarrow> Q (Inl e) fs'"
    and ok: "\<And>c fs'. delivered_ok E st offer data c fs' \<Longrightarrow> Q (Inr (completed_as st offer c)) fs'"
  shows "always W (attempt E st offer) fs Q"
  unfolding attempt_def
  by (rule bind, rule prepare_rule [OF od d])
     (auto intro!: err ok ret finalize_rule [OF od])

end

end
