(* ===== verification/StoreProps.thy ===== *)
theory StoreProps
  imports StoreFile
begin

text \<open>
  The properties of the transfer store for files: nothing of the user's is overwritten, what is
  reported as complete is on disk with the offered digest, a resumed transfer is the same
  transfer, and a received file survives any number of crashes.
\<close>

section \<open>An example state\<close>

definition sample_store :: store where
  "sample_store = \<lparr>st_inbox = [''in''],
     st_category_roots = \<lparr>cr_media = None, cr_archive = None, cr_file = None, cr_folder = None\<rparr>\<rparr>"

definition sample_state_dir :: path where
  "sample_state_dir = [''in'', ''.inkhole-transfers'']"

definition sample_tree :: fs where
  "sample_tree =
     [([''in''], DirN 0), (sample_state_dir, DirN 0),
      (sample_state_dir @ [replicate 36 CHR ''0'' @ ''.part''], FileN [1, 2, 3] 0),
      (sample_state_dir @ [replicate 36 CHR ''0'' @ ''.json''],
         FileN (to_vec sample_crates (stored_offer_json (stored_offer_of sample_signed_offer))) 0)]"

definition sample_world :: world where
  "sample_world = \<lparr>w_fs = sample_tree, w_calls = 0, w_fault = (\<lambda>_. None), w_short = (\<lambda>_. 0),
     w_now = (\<lambda>_. 0), w_uuid = (\<lambda>_. ''u'')\<rparr>"

lemma sample_offer_fields [simp]:
  "to_transfer_id sample_signed_offer = replicate 36 CHR ''0''"
  "to_kind sample_signed_offer = FileTransfer" "to_size sample_signed_offer = 3"
  "to_modified_ms sample_signed_offer = 5" "to_filename sample_signed_offer = ''a.txt''"
  "to_protocol sample_signed_offer = 2"
  "to_blake3 sample_signed_offer = hex_encode sample_crates (blake3_hash sample_crates [1, 2, 3])"
  by (simp_all add: sample_signed_offer_def sample_raw_offer_def offer_new_def QUIC_PROTOCOL_VERSION_def)

lemma sample_offer_of_data [simp]: "offer_of_data sample_crates sample_signed_offer [1, 2, 3]"
  by (simp add: offer_of_data_def transfer_offer_range_def in_i64_def u16_max_def u64_max_def)

lemma sample_root [simp]: "destination_root sample_store sample_signed_offer = [''in'']"
  by (simp add: destination_root_def root_for_def sample_store_def Let_def split: file_category.split)

lemma sample_paths:
  "sp_part (paths_of sample_store sample_signed_offer) = sample_state_dir @ [replicate 36 CHR ''0'' @ ''.part'']"
  "sp_metadata (paths_of sample_store sample_signed_offer) = sample_state_dir @ [replicate 36 CHR ''0'' @ ''.json'']"
  "sp_commit (paths_of sample_store sample_signed_offer) = sample_state_dir @ [replicate 36 CHR ''0'' @ ''.commit.json'']"
  "sp_done (paths_of sample_store sample_signed_offer) = sample_state_dir @ [replicate 36 CHR ''0'' @ ''.done.json'']"
  using paths_of_simps [of sample_signed_offer sample_store]
  by (simp_all add: sample_state_dir_def STATE_DIRECTORY_def id_name_def)

lemma sample_temps:
  "temp_path (sp_commit (paths_of sample_store sample_signed_offer)) u =
     sample_state_dir @ [replicate 36 CHR ''0'' @ ''.commit.tmp-'' @ u]"
  "temp_path (sp_done (paths_of sample_store sample_signed_offer)) u =
     sample_state_dir @ [replicate 36 CHR ''0'' @ ''.done.tmp-'' @ u]"
  unfolding sample_paths temp_path_def with_extension_snoc by simp_all

lemma sample_plain_nodes [simp]: "plain_nodes sample_tree"
  by (simp add: plain_nodes_def lookup_def sample_tree_def)

lemma sample_tree_ok: "tree_ok sample_store sample_signed_offer sample_tree"
  by (simp add: tree_ok_def Let_def sample_paths state_dir_def STATE_DIRECTORY_def id_name_def)
     (simp add: lookup_def sample_tree_def sample_state_dir_def)

lemma sample_received: "received sample_crates sample_store sample_signed_offer [1, 2, 3] sample_tree"
  by (simp add: received_def Let_def sample_paths holds_def)
     (simp add: lookup_def sample_tree_def sample_state_dir_def)

lemma sample_durable: "durable sample_crates sample_store sample_signed_offer [1, 2, 3] sample_tree"
  using sample_tree_ok sample_received by (simp add: durable_def)

section \<open>Nothing of the user's is overwritten\<close>

text \<open>Preparing or finalising a transfer never changes the content of a file outside the store's
  own state directory and never removes one, whatever fails on the way and whatever the state
  directory contains; it only ever adds a file under a name that was free.\<close>

theorem store_keeps_user_files:
  assumes "uuid_plain E" "uuid_parses E (to_transfer_id offer)"
    and "plain_tree (sp_part (paths_of st offer)) (w_fs w)"
  shows "files_kept (state_dir st offer) (w_fs w) (w_fs (snd (prepare E st offer w))) \<and>
         files_kept (state_dir st offer) (w_fs w) (w_fs (snd (finalize E st offer w)))"
proof -
  have tid: "id_name (to_transfer_id offer)" "to_transfer_id offer \<noteq> []"
    using assms(1,2) by (auto simp: uuid_plain_def id_name_def)
  show ?thesis
    using keptD [OF kept_prepare [OF tid] assms(3)] keptD [OF kept_finalize [OF tid] assms(3)] by blast
qed

theorem store_keeps_user_files_witness:
  "files_kept (state_dir sample_store sample_signed_offer) sample_tree
     (w_fs (snd (prepare sample_crates sample_store sample_signed_offer sample_world))) \<and>
   files_kept (state_dir sample_store sample_signed_offer) sample_tree
     (w_fs (snd (finalize sample_crates sample_store sample_signed_offer sample_world)))"
proof -
  have "plain_tree (sp_part (paths_of sample_store sample_signed_offer)) (w_fs sample_world)"
    using sample_tree_ok by (simp add: plain_tree_def sample_world_def tree_ok_def Let_def)
  moreover have "uuid_parses sample_crates (to_transfer_id sample_signed_offer)"
    by (simp add: sample_crates_def is_lower_hex_def is_digit_def list_all_iff)
  ultimately show ?thesis
    using store_keeps_user_files [of sample_crates sample_signed_offer sample_store sample_world]
    by (simp add: sample_world_def)
qed

section \<open>A received file survives crashes\<close>

text \<open>The trees that any number of interrupted attempts can lead to.\<close>

inductive restarts :: "crates \<Rightarrow> store \<Rightarrow> transfer_offer \<Rightarrow> fs \<Rightarrow> fs \<Rightarrow> bool"
  for E st offer where
  start: "restarts E st offer fs fs"
| again: "restarts E st offer fs (w_fs w) \<Longrightarrow> restarts E st offer fs (w_fs (snd (attempt E st offer w)))"

lemma attempt_durable:
  assumes "offer_of_data E offer data" "durable E st offer data (w_fs w)"
  shows "durable E st offer data (w_fs (snd (attempt E st offer w)))"
proof -
  have "always (\<lambda>_. True) (attempt E st offer) (w_fs w) (\<lambda>r fs'. durable E st offer data fs')"
    by (rule any.attempt_rule [OF assms]) (auto intro: delivered_ok_durable)
  then show ?thesis by (auto simp: always_def)
qed

lemma restarts_durable:
  assumes "restarts E st offer fs fs'" "offer_of_data E offer data" "durable E st offer data fs"
  shows "durable E st offer data fs'"
  using assms by induction (auto intro: attempt_durable)

text \<open>C7: A completely received file is never lost: after any number of attempts to complete the
  transfer, each interrupted or disturbed at any call, the file's bytes are still on disk, in
  the partial file or under the committed name, with the records that lead to them.\<close>

theorem received_file_never_lost:
  assumes "offer_of_data E offer data" "durable E st offer data fs" "restarts E st offer fs fs'"
  shows "durable E st offer data fs'"
  using assms(3,1,2) by (rule restarts_durable)

theorem received_file_never_lost_witness:
  "durable sample_crates sample_store sample_signed_offer [1, 2, 3]
     (w_fs (snd (attempt sample_crates sample_store sample_signed_offer sample_world)))"
  by (rule received_file_never_lost [OF sample_offer_of_data sample_durable])
     (rule restarts.again, simp add: sample_world_def restarts.start)

text \<open>C8: After any number of crashes one undisturbed attempt completes the transfer: it returns the
  receipt of the offer, and the file is under a safe name in the transfer's inbox directory
  with exactly the received bytes.\<close>

theorem crash_recovery_completes:
  assumes "offer_of_data E offer data" "durable E st offer data fs" "restarts E st offer fs fs'"
    and "clean U w" "w_fs w = fs'" "room st offer U fs'"
  shows "\<exists>c w'. attempt E st offer w = (Inr (completed_as st offer c), w') \<and>
           safe_name c \<and> holds (w_fs w') (dest st offer c) data"
proof -
  have d: "durable E st offer data (w_fs w)"
    using restarts_durable [OF assms(3,1,2)] assms(5) by simp
  have room: "room_for (clean U) st offer (w_fs w)"
    using assms(5,6) by (auto simp: room_for_def room_def dest: may_draw_clean)
  have "always (clean U) (attempt E st offer) (w_fs w)
     (\<lambda>r fs'. \<exists>c. r = Inr (completed_as st offer c) \<and> delivered_ok E st offer data c fs')"
    by (rule no_fault.attempt_rule [OF assms(1) d]) (use room in auto)
  with assms(4) have "\<exists>c. fst (attempt E st offer w) = Inr (completed_as st offer c) \<and>
      delivered_ok E st offer data c (w_fs (snd (attempt E st offer w)))"
    by (auto simp: always_def)
  then show ?thesis
    by (cases "attempt E st offer w") (auto simp: delivered_ok_def delivered_def)
qed

theorem crash_recovery_completes_witness:
  "\<exists>c w'. attempt sample_crates sample_store sample_signed_offer sample_world =
       (Inr (completed_as sample_store sample_signed_offer c), w') \<and>
     safe_name c \<and> holds (w_fs w') (dest sample_store sample_signed_offer c) [1, 2, 3]"
proof (rule crash_recovery_completes [OF sample_offer_of_data sample_durable restarts.start])
  show "clean (\<lambda>u. u = ''u'') sample_world" "w_fs sample_world = sample_tree"
    by (simp_all add: clean_def sample_world_def)
  have "length sample_tree < u32_max - 1" by (simp add: sample_tree_def u32_max_def)
  then show "room sample_store sample_signed_offer (\<lambda>u. u = ''u'') sample_tree"
    using candidates_free [of sample_tree "[''in'']"]
    by (simp add: room_def dest_def sample_temps)
       (simp add: sample_state_dir_def lookup_def sample_tree_def)
qed

section \<open>What is reported as complete is on disk\<close>

definition verified_at :: "crates \<Rightarrow> store \<Rightarrow> transfer_offer \<Rightarrow> completed_transfer \<Rightarrow> fs \<Rightarrow> bool" where
  "verified_at E st offer c fs \<longleftrightarrow>
     (\<exists>name data. safe_name name \<and> ct_destination c = dest st offer name \<and>
        holds fs (dest st offer name) data \<and> length data = to_size offer \<and>
        hex_encode E (blake3_hash E data) = to_blake3 offer \<and>
        ct_receipt c = receipt_of (stored_offer_of offer))"

lemma dest_not_record:
  fixes st :: store
  assumes "id_name (to_transfer_id offer)" "to_transfer_id offer \<noteq> []"
  shows "dest st offer c \<noteq> sp_part (paths_of st offer)" "dest st offer c \<noteq> sp_metadata (paths_of st offer)"
    "dest st offer c \<noteq> sp_commit (paths_of st offer)" "dest st offer c \<noteq> sp_done (paths_of st offer)"
    "sp_part (paths_of st offer) \<noteq> sp_commit (paths_of st offer)" "dest st offer c \<noteq> []"
  by (simp_all add: dest_def paths_of_simps [OF assms(1)])

lemma finish_verified:
  assumes tid: "id_name (to_transfer_id offer)" "to_transfer_id offer \<noteq> []"
    and lf: "plain_nodes fs" and safe: "safe_name c" and h: "holds fs (dest st offer c) data"
    and data: "length data = to_size offer" "hex_encode E (blake3_hash E data) = to_blake3 offer"
  shows "always (\<lambda>_. True) (finish_file E offer (paths_of st offer) c (dest st offer c)) fs
    (\<lambda>r fs'. \<forall>x. r = Inr x \<longrightarrow> verified_at E st offer x fs')"
proof -
  let ?I = "\<lambda>fs. plain_nodes fs \<and> holds fs (dest st offer c) data"
  note ne = dest_not_record [OF tid, where st = st]
  have rm: "always (\<lambda>_. True) (io_then (remove_if_exists p) k) fs1 Q"
    if "?I fs1" "dest st offer c \<noteq> p" "\<And>e fs'. Q (Inl e) fs'"
      "\<And>fs'. ?I fs' \<Longrightarrow> always (\<lambda>_. True) k fs' Q"
    for p k fs1 and Q :: "completed_transfer result \<Rightarrow> fs \<Rightarrow> bool"
    by (rule any.thn, rule any.remove_if_exists_rule)
       (use that in \<open>auto intro!: that(4) plain_nodes_del_node simp: holds_def\<close>)
  have fin: "verified_at E st offer \<lparr>ct_receipt = receipt_of (stored_offer_of offer),
      ct_destination = dest st offer c\<rparr> fs'" if "?I fs'" for fs'
    using that safe data by (auto simp: verified_at_def)
  show ?thesis
    unfolding finish_file_def Let_def
  proof (rule any.thn, rule any.atomic_write_rule [OF lf records_of_transfer(3) [OF tid]])
    fix m fs' assume f: "plain_nodes fs'" "agree_except {sp_done (paths_of st offer)} fs fs'"
    then have "?I fs'" using h ne by (auto simp: holds_agree [OF f(2)])
    then have "always (\<lambda>_. True) (io_then (remove_if_exists (sp_metadata (paths_of st offer)))
        (io_then (remove_if_exists (sp_commit (paths_of st offer)))
        (io_ret \<lparr>ct_receipt = receipt_of (stored_offer_of offer), ct_destination = dest st offer c\<rparr>))) fs'
        (\<lambda>r fs'. \<forall>x. r = Inr x \<longrightarrow> verified_at E st offer x fs')"
      using ne by (auto intro!: rm any.ret fin)
    then show "case Inr () of Inl e \<Rightarrow> \<forall>x. Inl e = Inr x \<longrightarrow> verified_at E st offer x fs'
      | Inr _ \<Rightarrow> always (\<lambda>_. True) (io_then (remove_if_exists (sp_metadata (paths_of st offer)))
        (io_then (remove_if_exists (sp_commit (paths_of st offer)))
        (io_ret \<lparr>ct_receipt = receipt_of (stored_offer_of offer), ct_destination = dest st offer c\<rparr>))) fs'
        (\<lambda>r fs'. \<forall>x. r = Inr x \<longrightarrow> verified_at E st offer x fs')" by simp
  qed simp
qed

lemma place_verified:
  assumes tid: "id_name (to_transfer_id offer)" "to_transfer_id offer \<noteq> []"
    and lf: "plain_nodes fs" and part: "\<And>t. lookup fs (sp_part (paths_of st offer)) \<noteq> Some (DirN t)"
    and safe: "safe_name c"
  shows "always (\<lambda>_. True) (io_then (place_file E offer (paths_of st offer) (dest st offer c))
      (finish_file E offer (paths_of st offer) c (dest st offer c))) fs
    (\<lambda>r fs'. \<forall>x. r = Inr x \<longrightarrow> verified_at E st offer x fs')"
proof -
  let ?p = "sp_part (paths_of st offer)" and ?q = "dest st offer c"
  note ne = dest_not_record [OF tid, where st = st]
  have pq: "?p \<noteq> ?q" "?q \<noteq> []" using ne(1) [of c] ne(6) [of c] by auto
  have move: "always (\<lambda>_. True) (if \<not> b then io_rename ?p ?q else io_ret ()) fs (\<lambda>r fs'. plain_nodes fs')" for b
  proof (cases b)
    case True
    then show ?thesis using lf by (auto intro: any.ret)
  next
    case False
    have "always (\<lambda>_. True) (io_rename ?p ?q) fs (\<lambda>r fs'. plain_nodes fs')"
      by (rule rename_plain_rule [OF lf part pq(1)])
         (use lf pq in \<open>auto intro!: plain_nodes_put_node plain_nodes_del_node simp: is_symlink_def\<close>)
    with False show ?thesis by simp
  qed
  let ?check = "io_then (ensure_file_destination E ?q (to_size offer) (to_blake3 offer))
      (apply_modified_time ?q (to_modified_ms offer))"
  have check: "always (\<lambda>_. True) ?check fs1 (\<lambda>r fs'. r = Inr () \<longrightarrow> plain_nodes fs' \<and>
      (\<exists>d. holds fs' ?q d \<and> length d = to_size offer \<and> hex_encode E (blake3_hash E d) = to_blake3 offer))"
    if lf1: "plain_nodes fs1" for fs1
  proof (rule any.thn, rule any.ensure_file_destination_rule [OF lf1])
    fix d m assume d: "lookup fs1 ?q = Some (FileN d m)" "length d = to_size offer"
      "hex_encode E (blake3_hash E d) = to_blake3 offer"
    have "always (\<lambda>_. True) (apply_modified_time ?q (to_modified_ms offer)) fs1
        (\<lambda>r fs'. r = Inr () \<longrightarrow> plain_nodes fs' \<and>
      (\<exists>d. holds fs' ?q d \<and> length d = to_size offer \<and> hex_encode E (blake3_hash E d) = to_blake3 offer))"
      unfolding apply_modified_time_eq
      by (rule any.set_mtime_rule [OF lf1])
         (use d lf1 pq in \<open>auto simp: set_node_mtime_def holds_def is_symlink_def intro!: plain_nodes_put_node\<close>)
    then show "case Inr () of Inl e \<Rightarrow> Inl e = Inr () \<longrightarrow> plain_nodes fs1 \<and>
      (\<exists>d. holds fs1 ?q d \<and> length d = to_size offer \<and> hex_encode E (blake3_hash E d) = to_blake3 offer)
      | Inr _ \<Rightarrow> always (\<lambda>_. True) (apply_modified_time ?q (to_modified_ms offer)) fs1
        (\<lambda>r fs'. r = Inr () \<longrightarrow> plain_nodes fs' \<and>
      (\<exists>d. holds fs' ?q d \<and> length d = to_size offer \<and> hex_encode E (blake3_hash E d) = to_blake3 offer))"
      by simp
  qed simp
  have step: "always (\<lambda>_. True) (io_then (if \<not> b then io_rename ?p ?q else io_ret ()) ?check) fs
    (\<lambda>r fs'. r = Inr () \<longrightarrow> plain_nodes fs' \<and>
      (\<exists>d. holds fs' ?q d \<and> length d = to_size offer \<and> hex_encode E (blake3_hash E d) = to_blake3 offer))" for b
    by (rule any.thn, rule any.mono [OF move]) (use check in \<open>simp split: sum.split\<close>)
  have place: "always (\<lambda>_. True) (place_file E offer (paths_of st offer) ?q) fs
    (\<lambda>r fs'. r = Inr () \<longrightarrow> plain_nodes fs' \<and>
      (\<exists>d. holds fs' ?q d \<and> length d = to_size offer \<and> hex_encode E (blake3_hash E d) = to_blake3 offer))"
    unfolding place_file_def
    by (rule any.bind, rule any.try_exists_rule [OF lf])
       (use step [of True] step [of False] in simp_all)
  show ?thesis
  proof (rule any.thn, rule any.mono [OF place])
    fix r :: "unit result" and fs'
    assume "r = Inr () \<longrightarrow> plain_nodes fs' \<and>
      (\<exists>d. holds fs' ?q d \<and> length d = to_size offer \<and> hex_encode E (blake3_hash E d) = to_blake3 offer)"
    then show "case r of Inl e \<Rightarrow> \<forall>x. Inl e = Inr x \<longrightarrow> verified_at E st offer x fs'
      | Inr _ \<Rightarrow> always (\<lambda>_. True) (finish_file E offer (paths_of st offer) c ?q) fs'
          (\<lambda>r fs'. \<forall>x. r = Inr x \<longrightarrow> verified_at E st offer x fs')"
      by (cases r) (auto intro: finish_verified [OF tid _ safe])
  qed
qed

lemma commit_for_any:
  assumes tid: "id_name (to_transfer_id offer)" "to_transfer_id offer \<noteq> []"
    and lf: "plain_nodes fs" and part: "\<And>t. lookup fs (sp_part (paths_of st offer)) \<noteq> Some (DirN t)"
  shows "always (\<lambda>_. True) (commit_for E st offer (paths_of st offer)) fs
    (\<lambda>r fs'. \<forall>x. r = Inr x \<longrightarrow> plain_nodes fs' \<and> safe_name (co_destination x) \<and>
       (\<forall>t. lookup fs' (sp_part (paths_of st offer)) \<noteq> Some (DirN t)))"
    (is "always _ _ _ ?Q")
proof -
  let ?c = "sp_commit (paths_of st offer)"
  have part': "\<forall>t. lookup fs (sp_part (paths_of st offer)) \<noteq> Some (DirN t)" using part by blast
  have old: "always (\<lambda>_. True) (io_then (io_lift (ensure_same_offer (stored_offer_of offer) (co_offer x)))
      (io_then (io_lift (validate_destination_name (co_destination x))) (io_ret x))) fs ?Q" for x
    using lf part'
    by (intro any.thn any.lift) (auto intro!: any.thn any.lift any.ret
        simp: validate_destination_name_iff split: sum.split)
  have new: "always (\<lambda>_. True) (io_bind (unique_destination (destination_root st offer)
      (so_filename (stored_offer_of offer))) (\<lambda>d.
        io_then (atomic_write_json E ?c (commit_record_json \<lparr>co_offer = stored_offer_of offer,
            co_destination = d, co_manifest = None\<rparr>))
        (io_ret \<lparr>co_offer = stored_offer_of offer, co_destination = d, co_manifest = None\<rparr>))) fs ?Q"
  proof (rule any.bind, rule any.unique_destination_rule [OF lf stored_name_safe])
    fix d assume d: "d \<in> candidates (so_filename (stored_offer_of offer))"
    have safe: "safe_name d"
      using candidates_safe [OF _ d] safe_name_safe_filename by (simp add: stored_offer_of_def)
    have "always (\<lambda>_. True) (io_then (atomic_write_json E ?c (commit_record_json
        \<lparr>co_offer = stored_offer_of offer, co_destination = d, co_manifest = None\<rparr>))
        (io_ret \<lparr>co_offer = stored_offer_of offer, co_destination = d, co_manifest = None\<rparr>)) fs ?Q"
    proof (rule any.thn, rule any.atomic_write_rule [OF lf records_of_transfer(2) [OF tid]])
      fix m fs' assume f: "plain_nodes fs'" "agree_except {?c} fs fs'"
      have "lookup fs' (sp_part (paths_of st offer)) = lookup fs (sp_part (paths_of st offer))"
        using agreeD [OF f(2)] dest_not_record(5) [OF tid, of st] by auto
      then have "\<forall>t. lookup fs' (sp_part (paths_of st offer)) \<noteq> Some (DirN t)" using part' by simp
      then show "case Inr () of Inl e \<Rightarrow> ?Q (Inl e) fs'
        | Inr _ \<Rightarrow> always (\<lambda>_. True) (io_ret \<lparr>co_offer = stored_offer_of offer, co_destination = d,
            co_manifest = None\<rparr>) fs' ?Q"
        using f(1) safe by (auto intro!: any.ret)
    qed simp
    then show "case Inr d of Inl e \<Rightarrow> ?Q (Inl e) fs
      | Inr d \<Rightarrow> always (\<lambda>_. True) (io_then (atomic_write_json E ?c (commit_record_json
        \<lparr>co_offer = stored_offer_of offer, co_destination = d, co_manifest = None\<rparr>))
        (io_ret \<lparr>co_offer = stored_offer_of offer, co_destination = d, co_manifest = None\<rparr>)) fs ?Q"
      by simp
  qed simp
  show ?thesis
    unfolding commit_for_def Let_def
    by (rule any.bind, rule any.read_json_rule [OF lf]) (use old new in simp_all)
qed

lemma throw_verified: "always (\<lambda>_. True) m fs (\<lambda>r _. \<forall>x. r \<noteq> Inr x) \<Longrightarrow>
    always (\<lambda>_. True) m fs (\<lambda>r fs'. \<forall>x. r = Inr x \<longrightarrow> verified_at E st offer x fs')"
  by (erule any.mono) auto

lemma remove_then_throw:
  "plain_nodes fs \<Longrightarrow> (\<And>fs'. plain_nodes fs' \<Longrightarrow> always (\<lambda>_. True) k fs' (\<lambda>r _. \<forall>x. r \<noteq> Inr x)) \<Longrightarrow>
     always (\<lambda>_. True) (io_then (remove_if_exists p) k) fs (\<lambda>r _. \<forall>x. r \<noteq> Inr x)"
  by (rule any.thn, rule any.remove_if_exists_rule) (auto intro: plain_nodes_del_node)

lemma finalize_verified:
  assumes tid: "id_name (to_transfer_id offer)" "to_transfer_id offer \<noteq> []" and lf: "plain_nodes fs"
  shows "always (\<lambda>_. True) (finalize E st offer) fs
    (\<lambda>r fs'. \<forall>x. r = Inr x \<longrightarrow> verified_at E st offer x fs')"
proof -
  let ?ps = "paths_of st offer"
  let ?Q = "\<lambda>r fs'. \<forall>x. r = Inr x \<longrightarrow> verified_at E st offer x fs'"
  have commit: "always (\<lambda>_. True) (io_bind (commit_for E st offer ?ps) (\<lambda>c.
      io_then (place_file E offer ?ps (destination_root st offer @ [co_destination c]))
       (finish_file E offer ?ps (co_destination c) (destination_root st offer @ [co_destination c])))) fs ?Q"
    if "\<And>t. lookup fs (sp_part ?ps) \<noteq> Some (DirN t)"
  proof (rule any.bind, rule any.mono [OF commit_for_any [OF tid lf that]])
    fix r :: "commit_record result" and fs'
    assume "\<forall>x. r = Inr x \<longrightarrow> plain_nodes fs' \<and> safe_name (co_destination x) \<and>
       (\<forall>t. lookup fs' (sp_part ?ps) \<noteq> Some (DirN t))"
    then show "case r of Inl e \<Rightarrow> ?Q (Inl e) fs' | Inr c \<Rightarrow> always (\<lambda>_. True)
      (io_then (place_file E offer ?ps (destination_root st offer @ [co_destination c]))
       (finish_file E offer ?ps (co_destination c) (destination_root st offer @ [co_destination c]))) fs' ?Q"
      by (cases r) (auto intro: place_verified [OF tid, unfolded dest_def])
  qed
  have cleanup: "always (\<lambda>_. True) (io_then (remove_if_exists (sp_part ?ps))
           (io_then (remove_if_exists (sp_metadata ?ps))
           (io_then (remove_if_exists (sp_commit ?ps))
           (io_throw (DigestMismatch (sp_part ?ps)))))) fs ?Q"
    by (rule throw_verified) (intro remove_then_throw lf any.throw, auto)
  have digest: "always (\<lambda>_. True) (io_bind (blake3_file_hex E (sp_part ?ps)) (\<lambda>actual_digest.
      if actual_digest \<noteq> to_blake3 offer
      then io_then (remove_if_exists (sp_part ?ps))
           (io_then (remove_if_exists (sp_metadata ?ps))
           (io_then (remove_if_exists (sp_commit ?ps))
           (io_throw (DigestMismatch (sp_part ?ps)))))
      else io_bind (commit_for E st offer ?ps) (\<lambda>c.
        io_then (place_file E offer ?ps (destination_root st offer @ [co_destination c]))
        (finish_file E offer ?ps (co_destination c) (destination_root st offer @ [co_destination c]))))) fs ?Q"
    by (rule any.bind, rule any.blake3_file_hex_rule [OF lf]) (use commit cleanup in simp_all)
  show ?thesis
    unfolding finalize_eq Let_def
    by (rule any.bind, rule any.metadata_rule [OF lf]) (use digest in \<open>auto intro!: any.reject_if\<close>)
qed

text \<open>What \<open>finalize\<close> reports as complete is on disk: whenever it returns, whatever the tree was
  and whatever failed, the reported destination is a regular file under a safe name in the
  inbox directory of the transfer, of the offered size and with the offered BLAKE3 digest, and
  the receipt names the offer's id, size and digest.\<close>

theorem finalize_success_is_verified:
  assumes "uuid_plain E" "uuid_parses E (to_transfer_id offer)" "plain_nodes (w_fs w)"
    and "finalize E st offer w = (Inr c, w')"
  shows "verified_at E st offer c (w_fs w')"
proof -
  have tid: "id_name (to_transfer_id offer)" "to_transfer_id offer \<noteq> []"
    using assms(1,2) by (auto simp: uuid_plain_def id_name_def)
  from alwaysD [OF finalize_verified [OF tid assms(3), where E = E and st = st], of w] assms(4)
  show ?thesis by auto
qed

theorem finalize_success_is_verified_witness:
  "\<exists>c w'. finalize sample_crates sample_store sample_signed_offer sample_world = (Inr c, w') \<and>
     verified_at sample_crates sample_store sample_signed_offer c (w_fs w')"
proof -
  have cl: "clean (\<lambda>u. u = ''u'') sample_world" "w_fs sample_world = sample_tree"
    by (simp_all add: clean_def sample_world_def)
  have "length sample_tree < u32_max - 1" by (simp add: sample_tree_def u32_max_def)
  then have room: "room sample_store sample_signed_offer (\<lambda>u. u = ''u'') sample_tree"
    using candidates_free [of sample_tree "[''in'']"]
    by (simp add: room_def dest_def sample_temps)
       (simp add: sample_state_dir_def lookup_def sample_tree_def)
  have "always (clean (\<lambda>u. u = ''u'')) (finalize sample_crates sample_store sample_signed_offer) sample_tree
     (\<lambda>r fs'. \<exists>x. r = Inr x)"
    by (rule no_fault.finalize_rule [OF sample_offer_of_data sample_tree_ok sample_received])
       (use room in \<open>auto simp: room_for_def room_def dest: may_draw_clean\<close>)
  from alwaysD [OF this cl] obtain c w' where
    f: "finalize sample_crates sample_store sample_signed_offer sample_world = (Inr c, w')"
    by (cases "finalize sample_crates sample_store sample_signed_offer sample_world") auto
  moreover have "verified_at sample_crates sample_store sample_signed_offer c (w_fs w')"
    by (rule finalize_success_is_verified [OF _ _ _ f])
       (simp_all add: cl, simp add: sample_crates_def is_lower_hex_def is_digit_def list_all_iff)
  ultimately show ?thesis by blast
qed

section \<open>A resumed transfer is the same transfer\<close>

lemma keeps_always:
  "kept.keeps D part m \<Longrightarrow> plain_tree part fs \<Longrightarrow> always (\<lambda>_. True) m fs (\<lambda>_ fs'. plain_tree part fs')"
  by (auto simp: always_def dest: keptD)

definition resumable :: "crates \<Rightarrow> store \<Rightarrow> transfer_offer \<Rightarrow> prepared_transfer \<Rightarrow> fs \<Rightarrow> bool" where
  "resumable E st offer pt fs \<longleftrightarrow>
     pt_part_path pt = sp_part (paths_of st offer) \<and> pt_offset pt \<le> to_size offer \<and>
     (\<exists>d. holds fs (sp_part (paths_of st offer)) d \<and> length d = pt_offset pt) \<and>
     (\<exists>r. holds fs (sp_metadata (paths_of st offer)) r \<and>
        bind_r (from_slice E r) as_stored_offer = Inr (stored_offer_of offer))"

lemma prepare_part_resumable:
  assumes tid: "id_name (to_transfer_id offer)" "to_transfer_id offer \<noteq> []"
    and json: "json_roundtrip E" "transfer_offer_range offer"
    and pl: "plain_tree (sp_part (paths_of st offer)) fs"
  shows "always (\<lambda>_. True) (prepare_part E offer (paths_of st offer)) fs
    (\<lambda>r fs'. \<forall>pt. r = Inr (PrepareResume pt) \<longrightarrow> resumable E st offer pt fs')"
    (is "always _ _ _ ?Q")
proof -
  let ?p = "sp_part (paths_of st offer)" and ?m = "sp_metadata (paths_of st offer)"
  let ?meta = "\<lambda>fs. \<exists>r. holds fs ?m r \<and> bind_r (from_slice E r) as_stored_offer = Inr (stored_offer_of offer)"
  have ne: "?p \<noteq> ?m" "?p \<noteq> []" "\<And>u. temp_path ?m u \<noteq> ?p"
    using tid by (simp_all add: paths_of_simps [OF tid(1)] temp_path_def)
  have range: "stored_offer_range (stored_offer_of offer)"
    using json(2) by (simp add: stored_offer_range_def stored_offer_of_def transfer_offer_range_def)
  have readback: "bind_r (from_slice E (to_vec E (stored_offer_json (stored_offer_of offer)))) as_stored_offer
      = Inr (stored_offer_of offer)"
    using json(1) range by (simp add: from_slice_def to_vec_def json_roundtrip_def)
  have tail: "always (\<lambda>_. True) (io_bind
       (io_match (io_metadata ?p) (\<lambda>m. io_ret (node_len m))
          (if_not_found (io_then (io_open True ?p) (io_then io_sync (io_ret 0)))))
       (\<lambda>offset. io_reject_if (to_size offer < offset)
          (InvalidTransfer ''partial transfer is larger than the offer'')
          (io_ret (PrepareResume \<lparr>pt_part_path = ?p, pt_offset = offset\<rparr>)))) fs1 ?Q"
    if pl1: "plain_tree ?p fs1" and meta: "?meta fs1" for fs1
  proof -
    have lf: "plain_nodes fs1" using pl1 by (simp add: plain_tree_def)
    have meta': "?meta (put_node ?p n fs1)" for n
      using meta ne by (simp add: holds_def)
    have resume: "always (\<lambda>_. True) (io_reject_if (to_size offer < offset)
          (InvalidTransfer ''partial transfer is larger than the offer'')
          (io_ret (PrepareResume \<lparr>pt_part_path = ?p, pt_offset = offset\<rparr>))) fs2 ?Q"
      if "holds fs2 ?p d" "length d = offset" "?meta fs2" for fs2 d offset
      using that by (intro any.reject_if any.ret) (auto simp: resumable_def)
    have opened: "always (\<lambda>_. True) (io_then (io_open True ?p) (io_then io_sync (io_ret 0))) fs1
        (\<lambda>r fs'. \<forall>x. r = Inr x \<longrightarrow> x = (0 :: nat) \<and> holds fs' ?p [] \<and> ?meta fs')"
      if none: "lookup fs1 ?p = None"
      by (rule any.thn, rule any.open_truncate_rule [OF lf none])
         (use ne meta' in \<open>auto intro!: any.thn any.sync_all any.ret simp: holds_def\<close>)
    have opened_any: "always (\<lambda>_. True) (io_then (io_open True ?p) (io_then io_sync (io_ret 0))) fs1
        (\<lambda>r fs'. \<forall>x. r = Inr x \<longrightarrow> x = (0 :: nat) \<and> holds fs' ?p [] \<and> ?meta fs')"
      if nd: "lookup fs1 ?p = None \<or> \<not> in_dir fs1 ?p"
    proof (cases "lookup fs1 ?p = None")
      case True
      then show ?thesis by (rule opened)
    next
      case False
      with nd have "\<not> in_dir fs1 ?p" by blast
      then have fails: "\<exists>k. sys_open True t ?p fs1 = Inl k" for t
        using sys_open_free [OF lf, of True t ?p] by (cases "sys_open True t ?p fs1") auto
      show ?thesis
      proof (rule any.thn, unfold io_open_def, rule any.fs_call_at)
        fix x t fs' assume "sys_open True t ?p fs1 = Inr (x, fs')"
        with fails [of t] show "case Inr x of
            Inl e \<Rightarrow> \<forall>x. Inl e = Inr x \<longrightarrow> x = (0 :: nat) \<and> holds fs' ?p [] \<and> ?meta fs'
          | Inr _ \<Rightarrow> always (\<lambda>_. True) (io_then io_sync (io_ret 0)) fs'
              (\<lambda>r fs'. \<forall>x. r = Inr x \<longrightarrow> x = (0 :: nat) \<and> holds fs' ?p [] \<and> ?meta fs')" by simp
      qed simp_all
    qed
    have offset: "always (\<lambda>_. True) (io_match (io_metadata ?p) (\<lambda>m. io_ret (node_len m))
          (if_not_found (io_then (io_open True ?p) (io_then io_sync (io_ret 0))))) fs1
        (\<lambda>r fs'. \<forall>x. r = Inr x \<longrightarrow> (\<exists>d. holds fs' ?p d \<and> length d = x) \<and> ?meta fs')"
    proof (rule any.match, rule any.metadata_rule [OF lf])
      fix n assume n: "lookup fs1 ?p = Some n"
      then obtain d m where "n = FileN d m" using pl1 by (cases n) (auto simp: plain_tree_def)
      then show "case Inr n of
          Inl e \<Rightarrow> always (\<lambda>_. True) (if_not_found (io_then (io_open True ?p) (io_then io_sync (io_ret 0))) e) fs1
            (\<lambda>r fs'. \<forall>x. r = Inr x \<longrightarrow> (\<exists>d. holds fs' ?p d \<and> length d = x) \<and> ?meta fs')
        | Inr m \<Rightarrow> always (\<lambda>_. True) (io_ret (node_len m)) fs1
            (\<lambda>r fs'. \<forall>x. r = Inr x \<longrightarrow> (\<exists>d. holds fs' ?p d \<and> length d = x) \<and> ?meta fs')"
        using n meta by (auto intro!: any.ret simp: node_len_def holds_def)
    next
      assume nd: "lookup fs1 ?p = None \<or> \<not> in_dir fs1 ?p"
      have "always (\<lambda>_. True) (io_then (io_open True ?p) (io_then io_sync (io_ret 0))) fs1
            (\<lambda>r fs'. \<forall>x. r = Inr x \<longrightarrow> (\<exists>d. holds fs' ?p d \<and> length d = x) \<and> ?meta fs')"
        by (rule any.mono [OF opened_any [OF nd]]) auto
      then show "case Inl (Io NotFound) of
          Inl e \<Rightarrow> always (\<lambda>_. True) (if_not_found (io_then (io_open True ?p) (io_then io_sync (io_ret 0))) e) fs1
            (\<lambda>r fs'. \<forall>x. r = Inr x \<longrightarrow> (\<exists>d. holds fs' ?p d \<and> length d = x) \<and> ?meta fs')
        | Inr m \<Rightarrow> always (\<lambda>_. True) (io_ret (node_len m)) fs1
            (\<lambda>r fs'. \<forall>x. r = Inr x \<longrightarrow> (\<exists>d. holds fs' ?p d \<and> length d = x) \<and> ?meta fs')"
        by (simp add: if_not_found_def)
    qed (auto simp: if_not_found_def intro: any.throw)
    show ?thesis
    proof (rule any.bind, rule any.mono [OF offset])
      fix r :: "nat result" and fs'
      assume "\<forall>x. r = Inr x \<longrightarrow> (\<exists>d. holds fs' ?p d \<and> length d = x) \<and> ?meta fs'"
      then show "case r of Inl e \<Rightarrow> ?Q (Inl e) fs'
        | Inr offset \<Rightarrow> always (\<lambda>_. True) (io_reject_if (to_size offer < offset)
          (InvalidTransfer ''partial transfer is larger than the offer'')
          (io_ret (PrepareResume \<lparr>pt_part_path = ?p, pt_offset = offset\<rparr>))) fs' ?Q"
        using resume by (cases r) auto
    qed
  qed
  have lf: "plain_nodes fs" using pl by (simp add: plain_tree_def)
  have fresh: "always (\<lambda>_. True) (io_bind (io_try_exists ?p) (\<lambda>b.
       io_then (if b then remove_if_exists ?p else io_ret ())
              (atomic_write_json E ?m (stored_offer_json (stored_offer_of offer))))) fs
       (\<lambda>r fs'. r = Inr () \<longrightarrow> plain_tree ?p fs' \<and> ?meta fs')"
  proof -
    have wr: "always (\<lambda>_. True) (atomic_write_json E ?m (stored_offer_json (stored_offer_of offer))) fs1
       (\<lambda>r fs'. r = Inr () \<longrightarrow> plain_tree ?p fs' \<and> ?meta fs')" if pl1: "plain_tree ?p fs1" for fs1
    proof (rule any.atomic_write_rule [OF _ records_of_transfer(1) [OF tid]])
      fix m fs' assume f: "plain_nodes fs'" "agree_except {?m} fs1 fs'"
        "lookup fs' ?m = Some (FileN (to_vec E (stored_offer_json (stored_offer_of offer))) m)"
      have "lookup fs' ?p = lookup fs1 ?p" using agreeD [OF f(2)] ne by auto
      then show "Inr () = Inr () \<longrightarrow> plain_tree ?p fs' \<and> ?meta fs'"
        using f readback pl1 by (auto simp: plain_tree_def holds_def)
    qed (use pl1 in \<open>auto simp: plain_tree_def\<close>)
    have rm: "always (\<lambda>_. True) (if b then remove_if_exists ?p else io_ret ()) fs
        (\<lambda>_ fs'. plain_tree ?p fs')" for b
      by (rule keeps_always [OF _ pl, of "state_dir st offer"])
         (intro kept.keeps_rules transfer_writes [OF tid])
    have rest: "always (\<lambda>_. True) (io_then (if b then remove_if_exists ?p else io_ret ())
        (atomic_write_json E ?m (stored_offer_json (stored_offer_of offer)))) fs
       (\<lambda>r fs'. r = Inr () \<longrightarrow> plain_tree ?p fs' \<and> ?meta fs')" for b
      by (rule any.thn, rule any.mono [OF rm]) (simp add: wr split: sum.split)
    show ?thesis
      by (rule any.bind, rule any.try_exists_rule [OF lf])
         (use rest [of True] rest [of False] in simp_all)
  qed
  show ?thesis
    unfolding prepare_part_def
  proof (rule any.bind, rule any.read_json_rule [OF lf])
    let ?tail = "io_bind
       (io_match (io_metadata ?p) (\<lambda>m. io_ret (node_len m))
          (if_not_found (io_then (io_open True ?p) (io_then io_sync (io_ret 0)))))
       (\<lambda>offset. io_reject_if (to_size offer < offset)
          (InvalidTransfer ''partial transfer is larger than the offer'')
          (io_ret (PrepareResume \<lparr>pt_part_path = ?p, pt_offset = offset\<rparr>)))"
    have none: "always (\<lambda>_. True) (io_then (io_bind (io_try_exists ?p) (\<lambda>b.
       io_then (if b then remove_if_exists ?p else io_ret ())
              (atomic_write_json E ?m (stored_offer_json (stored_offer_of offer))))) ?tail) fs ?Q"
    proof (rule any.thn, rule any.mono [OF fresh])
      fix r :: "unit result" and fs' assume "r = Inr () \<longrightarrow> plain_tree ?p fs' \<and> ?meta fs'"
      then show "case r of Inl e \<Rightarrow> ?Q (Inl e) fs' | Inr _ \<Rightarrow> always (\<lambda>_. True) ?tail fs' ?Q"
        using tail by (cases r) auto
    qed
    then show "case Inr None of Inl e \<Rightarrow> ?Q (Inl e) fs | Inr stored \<Rightarrow> always (\<lambda>_. True) (io_then
       (case stored of Some s \<Rightarrow> io_lift (ensure_same_offer (stored_offer_of offer) s)
        | None \<Rightarrow> io_bind (io_try_exists ?p) (\<lambda>b.
            io_then (if b then remove_if_exists ?p else io_ret ())
              (atomic_write_json E ?m (stored_offer_json (stored_offer_of offer))))) ?tail) fs ?Q"
      by simp
    fix d m x assume d: "lookup fs ?m = Some (FileN d m)" "bind_r (from_slice E d) as_stored_offer = Inr x"
    have "always (\<lambda>_. True) (io_then (io_lift (ensure_same_offer (stored_offer_of offer) x)) ?tail) fs ?Q"
      using d tail [OF pl]
      by (intro any.thn any.lift) (auto simp: ensure_same_offer_def reject_if_def holds_def)
    then show "case Inr (Some x) of Inl e \<Rightarrow> ?Q (Inl e) fs | Inr stored \<Rightarrow> always (\<lambda>_. True) (io_then
       (case stored of Some s \<Rightarrow> io_lift (ensure_same_offer (stored_offer_of offer) s)
        | None \<Rightarrow> io_bind (io_try_exists ?p) (\<lambda>b.
            io_then (if b then remove_if_exists ?p else io_ret ())
              (atomic_write_json E ?m (stored_offer_json (stored_offer_of offer))))) ?tail) fs ?Q"
      by simp
  qed simp_all
qed

lemma prepare_resumable:
  assumes tid: "id_name (to_transfer_id offer)" "to_transfer_id offer \<noteq> []"
    and json: "json_roundtrip E" "transfer_offer_range offer"
    and pl: "plain_tree (sp_part (paths_of st offer)) fs"
  shows "always (\<lambda>_. True) (prepare E st offer) fs
    (\<lambda>r fs'. \<forall>pt. r = Inr (PrepareResume pt) \<longrightarrow> resumable E st offer pt fs')"
    (is "always _ _ _ ?Q")
proof -
  let ?ps = "paths_of st offer" and ?p = "sp_part (paths_of st offer)"
  have then_part: "always (\<lambda>_. True) (io_bind m f) fs1 ?Q"
    if "kept.keeps (state_dir st offer) ?p m" "plain_tree ?p fs1"
      "\<And>x fs'. plain_tree ?p fs' \<Longrightarrow> always (\<lambda>_. True) (f x) fs' ?Q"
    for m :: "'a io" and f fs1
    by (rule any.bind, rule any.mono [OF keeps_always [OF that(1,2)]]) (use that(3) in \<open>simp split: sum.split\<close>)
  have part: "always (\<lambda>_. True) (prepare_part E offer ?ps) fs1 ?Q" if "plain_tree ?p fs1" for fs1
    by (rule prepare_part_resumable [OF tid json that])
  have commit: "always (\<lambda>_. True) (prepare_commit E st offer ?ps) fs1 ?Q" if "plain_tree ?p fs1" for fs1
    unfolding prepare_commit_def io_then_def
  proof (rule then_part [OF kept_read_json that])
    fix c fs' assume pl': "plain_tree ?p fs'"
    have "kept.keeps (state_dir st offer) ?p (recover_commit E st x ?ps)" for x
      unfolding recover_commit_eq Let_def
      by (intro kept.keeps_rules kept_calls transfer_writes [OF tid])
    then show "always (\<lambda>_. True) (case c of None \<Rightarrow> prepare_part E offer ?ps
       | Some commit \<Rightarrow> io_bind (io_lift (ensure_same_offer (stored_offer_of offer) (co_offer commit)))
         (\<lambda>_. io_bind (recover_commit E st commit ?ps) (\<lambda>r. case r of
              None \<Rightarrow> prepare_part E offer ?ps
            | Some completed \<Rightarrow> io_ret (PrepareComplete completed)))) fs' ?Q"
      using pl' part
      by (auto intro!: then_part kept.keeps_lift any.ret split: option.split)
  qed
  have valid: "kept.keeps (state_dir st offer) ?p (validate_completed E st x)" for x
    unfolding validate_completed_eq Let_def by (intro kept.keeps_rules kept_calls)
  have removed: "kept.keeps (state_dir st offer) ?p (remove_if_exists (sp_done ?ps))"
    by (intro transfer_writes [OF tid])
  show ?thesis
    unfolding prepare_def Let_def io_then_def
    by (auto intro!: then_part kept.keeps_lift kept_read_json valid removed any.ret any.reject_if
        commit pl split: option.split)
qed

text \<open>C11: A transfer that is resumed is the transfer that was begun: when \<open>prepare\<close> asks the sender
  to continue at an offset, the stored metadata is exactly the offer's (name, kind, size, time,
  digest, sender and sender key), the partial file has exactly that many bytes, and the offset
  is within the offered size; an id reused with other metadata is never resumed.\<close>

theorem resume_is_the_same_transfer:
  assumes "json_roundtrip E" "uuid_plain E" "uuid_parses E (to_transfer_id offer)"
    and "transfer_offer_range offer" "plain_tree (sp_part (paths_of st offer)) (w_fs w)"
    and "prepare E st offer w = (Inr (PrepareResume pt), w')"
  shows "resumable E st offer pt (w_fs w')"
proof -
  have tid: "id_name (to_transfer_id offer)" "to_transfer_id offer \<noteq> []"
    using assms(2,3) by (auto simp: uuid_plain_def id_name_def)
  from alwaysD [OF prepare_resumable [OF tid assms(1,4,5)], of w] assms(6) show ?thesis by auto
qed

theorem resume_is_the_same_transfer_witness:
  "\<exists>w' :: world. resumable sample_crates sample_store sample_signed_offer
     \<lparr>pt_part_path = sp_part (paths_of sample_store sample_signed_offer), pt_offset = 3\<rparr> (w_fs w')"
proof -
  have cl: "clean (\<lambda>u. True) sample_world" "w_fs sample_world = sample_tree"
    by (simp_all add: clean_def sample_world_def)
  have nocommit: "lookup sample_tree (sp_commit (paths_of sample_store sample_signed_offer)) = None"
    unfolding sample_paths by (simp add: sample_state_dir_def lookup_def sample_tree_def)
  have "always (clean (\<lambda>u. True)) (prepare_commit sample_crates sample_store sample_signed_offer
      (paths_of sample_store sample_signed_offer)) sample_tree
     (\<lambda>r fs'. r = Inr (PrepareResume
       \<lparr>pt_part_path = sp_part (paths_of sample_store sample_signed_offer), pt_offset = 3\<rparr>))"
    unfolding prepare_commit_def
    by (rule no_fault.bind, rule no_fault.read_json_rule)
       (use nocommit tree_ok_slots [OF sample_tree_ok] in
        \<open>auto intro!: no_fault.prepare_part_rule [OF sample_offer_of_data sample_tree_ok sample_received]\<close>)
  moreover have nodone: "lookup sample_tree (sp_done (paths_of sample_store sample_signed_offer)) = None"
    unfolding sample_paths by (simp add: sample_state_dir_def lookup_def sample_tree_def)
  ultimately have "always (clean (\<lambda>u. True)) (prepare sample_crates sample_store sample_signed_offer) sample_tree
     (\<lambda>r fs'. r = Inr (PrepareResume
       \<lparr>pt_part_path = sp_part (paths_of sample_store sample_signed_offer), pt_offset = 3\<rparr>))"
    unfolding prepare_def Let_def
    by (intro no_fault.thn no_fault.lift)
       (use tree_ok_slots [OF sample_tree_ok] in
        \<open>auto intro!: no_fault.reject_if no_fault.bind no_fault.read_json_rule\<close>)
  from alwaysD [OF this cl] obtain w' where
    p: "prepare sample_crates sample_store sample_signed_offer sample_world = (Inr (PrepareResume
       \<lparr>pt_part_path = sp_part (paths_of sample_store sample_signed_offer), pt_offset = 3\<rparr>), w')"
    by (cases "prepare sample_crates sample_store sample_signed_offer sample_world") auto
  have pl: "plain_tree (sp_part (paths_of sample_store sample_signed_offer)) (w_fs sample_world)"
    using sample_tree_ok by (simp add: plain_tree_def cl tree_ok_def Let_def)
  have "uuid_parses sample_crates (to_transfer_id sample_signed_offer)"
    by (simp add: sample_crates_def is_lower_hex_def is_digit_def list_all_iff)
  then show ?thesis
    using resume_is_the_same_transfer [OF _ _ _ _ pl p]
    by (intro exI [of _ w']) (auto simp: transfer_offer_range_def in_i64_def u16_max_def u64_max_def)
qed

section \<open>The chosen name\<close>

text \<open>C40: The search for a destination ends with a free, safe name: without I/O errors, in a
  directory tree of fewer than about four billion entries, \<open>unique_destination\<close> returns the
  offered name or a numbered variant of it, which is acceptable as a file name on every
  platform and names nothing that exists; the tree is unchanged.\<close>

theorem unique_destination_finds_a_free_name:
  assumes "clean U w" "plain_nodes (w_fs w)" "lookup (w_fs w) root = Some (DirN t)"
    and "length (w_fs w) < u32_max - 1"
  shows "\<exists>c w'. unique_destination root (safe_filename raw) w = (Inr c, w') \<and> w_fs w' = w_fs w \<and>
           c \<in> candidates (safe_filename raw) \<and> safe_name c \<and> lookup (w_fs w) (root @ [c]) = None"
proof -
  let ?s = "safe_filename raw"
  have dir: "in_dir (w_fs w) (root @ [?s])" using assms(3) by (simp add: in_dir_snoc)
  have "always (clean U) (unique_destination root ?s) (w_fs w) (\<lambda>r fs'. fs' = w_fs w \<and>
     (\<exists>c. r = Inr c \<and> c \<in> candidates ?s \<and> lookup (w_fs w) (root @ [c]) = None))"
    by (rule no_fault.unique_destination_rule [OF assms(2) safe_name_safe_filename])
       (use dir candidates_free [OF assms(4)] in auto)
  from alwaysD [OF this assms(1) refl] show ?thesis
    using candidates_safe [OF safe_name_safe_filename]
    by (cases "unique_destination root ?s w") auto
qed

theorem unique_destination_finds_a_free_name_witness:
  "\<exists>c w'. unique_destination [''in''] (safe_filename ''a.txt'') sample_world = (Inr c, w') \<and>
     w_fs w' = w_fs sample_world \<and> c \<in> candidates (safe_filename ''a.txt'') \<and> safe_name c \<and>
     lookup (w_fs sample_world) ([''in''] @ [c]) = None"
  by (rule unique_destination_finds_a_free_name [of "\<lambda>_. True" _ _ 0])
     (simp_all add: clean_def sample_world_def, simp_all add: lookup_def sample_tree_def u32_max_def)

end
