(* ===== verification/StoreResume.thy ===== *)
theory StoreResume
  imports StoreProps
begin

text \<open>
  A file that is only partly received. Between the offer and the last byte the disk is in one of
  two kinds of states: nothing received yet (\<open>fresh\<close>), or a prefix of the file in the partial file
  beside its metadata record (\<open>partly\<close>). The rules say that \<open>prepare\<close> and the writes of the
  receiving loop stay within these states whatever fails, and where they lead when nothing does.
\<close>

definition fresh :: "crates \<Rightarrow> store \<Rightarrow> transfer_offer \<Rightarrow> fs \<Rightarrow> bool" where
  "fresh E st offer fs \<longleftrightarrow>
     (let ps = paths_of st offer in
      tree_ok st offer fs \<and> lookup fs (sp_done ps) = None \<and> lookup fs (sp_commit ps) = None \<and>
      (lookup fs (sp_metadata ps) = None \<or>
       holds fs (sp_metadata ps) (to_vec E (stored_offer_json (stored_offer_of offer))) \<and>
       lookup fs (sp_part ps) = None))"

definition partly :: "crates \<Rightarrow> store \<Rightarrow> transfer_offer \<Rightarrow> bytes \<Rightarrow> nat \<Rightarrow> fs \<Rightarrow> bool" where
  "partly E st offer data n fs \<longleftrightarrow>
     (let ps = paths_of st offer in
      tree_ok st offer fs \<and> lookup fs (sp_done ps) = None \<and> lookup fs (sp_commit ps) = None \<and>
      holds fs (sp_metadata ps) (to_vec E (stored_offer_json (stored_offer_of offer))) \<and>
      holds fs (sp_part ps) (take n data) \<and> n \<le> length data)"

text \<open>Everything the disk can be while a transfer is under way or over.\<close>

definition on_the_way :: "crates \<Rightarrow> store \<Rightarrow> transfer_offer \<Rightarrow> bytes \<Rightarrow> fs \<Rightarrow> bool" where
  "on_the_way E st offer data fs \<longleftrightarrow>
     fresh E st offer fs \<or> (\<exists>n. partly E st offer data n fs) \<or> durable E st offer data fs"

text \<open>The offset at which such a transfer goes on.\<close>

definition resume_offset :: "store \<Rightarrow> transfer_offer \<Rightarrow> fs \<Rightarrow> nat" where
  "resume_offset st offer fs =
     (let ps = paths_of st offer in
      case (lookup fs (sp_metadata ps), lookup fs (sp_part ps)) of
        (Some _, Some (FileN d _)) \<Rightarrow> length d | _ \<Rightarrow> 0)"

lemma fresh_tree: "fresh E st offer fs \<Longrightarrow> tree_ok st offer fs"
  by (simp add: fresh_def Let_def)

lemma partly_tree: "partly E st offer data n fs \<Longrightarrow> tree_ok st offer fs"
  by (simp add: partly_def Let_def)

lemma on_the_way_intros:
  "fresh E st offer fs \<Longrightarrow> on_the_way E st offer data fs"
  "partly E st offer data n fs \<Longrightarrow> on_the_way E st offer data fs"
  "durable E st offer data fs \<Longrightarrow> on_the_way E st offer data fs"
  by (auto simp: on_the_way_def)

lemma partly_all: "partly E st offer data (length data) fs \<Longrightarrow> received E st offer data fs"
  by (simp add: partly_def received_def Let_def)

lemma partly_offset: "partly E st offer data n fs \<Longrightarrow> resume_offset st offer fs = n"
  by (auto simp: partly_def resume_offset_def holds_def Let_def)

text \<open>A change of the partial file, or of the metadata record when there is none.\<close>

lemma tree_ok_put:
  assumes "offer_of_data E offer data" "tree_ok st offer fs"
    and "p \<in> {sp_part (paths_of st offer), sp_metadata (paths_of st offer)}"
  shows "tree_ok st offer (put_node p (FileN d t) fs)" "tree_ok st offer (del_node p fs)"
proof -
  note ap = paths_apart [OF assms(1), where st = st]
  have p: "p \<noteq> []" "p \<noteq> destination_root st offer" "p \<noteq> state_dir st offer"
    using ap(3) [of p] assms(3) by auto
  show "tree_ok st offer (put_node p (FileN d t) fs)"
    by (rule tree_ok_agree [OF assms(2), where S = "{p}"])
       (use p tree_ok_slots(6) [OF assms(2)] in \<open>auto intro!: agree_put plain_nodes_put_node simp: is_symlink_def\<close>)
  show "tree_ok st offer (del_node p fs)"
    by (rule tree_ok_agree [OF assms(2), where S = "{p}"])
       (use p tree_ok_slots(6) [OF assms(2)] in \<open>auto intro!: agree_del plain_nodes_del_node\<close>)
qed

lemma partly_put:
  assumes "offer_of_data E offer data" "partly E st offer data n fs" "m \<le> length data"
  shows "partly E st offer data m (put_node (sp_part (paths_of st offer)) (FileN (take m data) t) fs)"
proof -
  let ?p = "sp_part (paths_of st offer)"
  have t: "tree_ok st offer fs" using assms(2) by (rule partly_tree)
  have ap: "?p \<noteq> []" "?p \<noteq> sp_metadata (paths_of st offer)" "?p \<noteq> sp_commit (paths_of st offer)"
      "?p \<noteq> sp_done (paths_of st offer)"
    using paths_apart(1) [OF assms(1), of st] paths_apart(3) [OF assms(1), of ?p st] by auto
  show ?thesis
    using assms(2,3) ap tree_ok_put(1) [OF assms(1) t, of ?p]
    by (simp add: partly_def Let_def holds_def)
qed

lemma fresh_start:
  assumes "offer_of_data E offer data" "fresh E st offer fs"
    and "holds fs (sp_metadata (paths_of st offer)) (to_vec E (stored_offer_json (stored_offer_of offer)))"
  shows "partly E st offer data 0 (put_node (sp_part (paths_of st offer)) (FileN [] t) fs)"
proof -
  let ?p = "sp_part (paths_of st offer)"
  have t: "tree_ok st offer fs" using assms(2) by (rule fresh_tree)
  have ap: "?p \<noteq> []" "?p \<noteq> sp_metadata (paths_of st offer)" "?p \<noteq> sp_commit (paths_of st offer)"
      "?p \<noteq> sp_done (paths_of st offer)"
    using paths_apart(1) [OF assms(1), of st] paths_apart(3) [OF assms(1), of ?p st] by auto
  show ?thesis
    using assms(2,3) ap tree_ok_put(1) [OF assms(1) t, of ?p]
    by (simp add: partly_def fresh_def Let_def holds_def)
qed

text \<open>The tree apart from the two files that change on the way.\<close>

definition progressed :: "store \<Rightarrow> transfer_offer \<Rightarrow> fs \<Rightarrow> fs \<Rightarrow> bool" where
  "progressed st offer = agree_except {sp_part (paths_of st offer), sp_metadata (paths_of st offer)}"

lemma progressed_refl [simp]: "progressed st offer fs fs"
  by (simp add: progressed_def)

lemma progressed_trans: "progressed st offer fs fs' \<Longrightarrow> progressed st offer fs' fs'' \<Longrightarrow> progressed st offer fs fs''"
  unfolding progressed_def by (rule agree_trans)

lemma progressed_part:
  assumes "offer_of_data E offer data"
  shows "progressed st offer fs (put_node (sp_part (paths_of st offer)) n fs)"
    "progressed st offer fs (del_node (sp_part (paths_of st offer)) fs)"
  using paths_apart(3) [OF assms, of "sp_part (paths_of st offer)" st]
  by (auto simp: progressed_def intro: agree_put agree_del)

lemma room_for_progressed:
  assumes "offer_of_data E offer data" "progressed st offer fs fs'"
  shows "room_for W st offer fs' = room_for W st offer fs"
proof -
  let ?ps = "paths_of st offer"
  have d: "dest st offer c \<notin> {sp_part ?ps, sp_metadata ?ps}" for c
    using paths_apart(2) [OF assms(1), of st c] by auto
  have t: "temp_path q u \<notin> {sp_part ?ps, sp_metadata ?ps}" if "q \<in> {sp_commit ?ps, sp_done ?ps}" for q u
    using paths_apart(5) [OF assms(1) that, of u] by auto
  show ?thesis
    using agreeD [OF assms(2) [unfolded progressed_def] d]
      agreeD [OF assms(2) [unfolded progressed_def] t [of "sp_commit ?ps"]]
      agreeD [OF assms(2) [unfolded progressed_def] t [of "sp_done ?ps"]]
    by (simp add: room_for_def room_def)
qed

lemma overwrite_end: "overwrite (length d) x d = d @ x"
  by (simp add: overwrite_def)

lemma take_more: "n \<le> length data \<Longrightarrow> prefix x (drop n data) \<Longrightarrow> take n data @ x = take (n + length x) data"
  by (auto simp: prefix_def take_add)

context schedule
begin

text \<open>Appending the next bytes of the file; a failed write leaves some of them.\<close>

lemma append_rule:
  assumes od: "offer_of_data E offer data" and p: "partly E st offer data n fs"
    and x: "prefix x (drop n data)"
    and err: "\<And>e m fs'. may_err W True \<Longrightarrow> partly E st offer data m fs' \<Longrightarrow> Q (Inl e) fs'"
    and ok: "\<And>fs'. partly E st offer data (n + length x) fs' \<Longrightarrow> progressed st offer fs fs' \<Longrightarrow> Q (Inr ()) fs'"
  shows "always W (io_append (sp_part (paths_of st offer)) x) fs Q"
proof -
  let ?p = "sp_part (paths_of st offer)"
  obtain t where l: "lookup fs ?p = Some (FileN (take n data) t)" and n: "n \<le> length data"
    using p by (auto simp: partly_def Let_def holds_def)
  have len: "length (take n data) = n" using n by simp
  have bound: "n + length x \<le> length data"
    using prefix_length_le [OF x] n by simp
  have written: "partly E st offer data (n + length (take k x)) fs' \<and> progressed st offer fs fs'"
    if "sys_write t' ?p n (take k x) fs = Inr ((), fs')" for t' k fs'
  proof -
    have px: "prefix (take k x) (drop n data)" using x by (meson prefix_order.trans take_is_prefix)
    have "n + length (take k x) \<le> length data" using bound by (simp add: min_def)
    from partly_put [OF od p this] that l overwrite_end [of "take n data" "take k x"]
      take_more [OF n px] len progressed_part(1) [OF od]
    show ?thesis by (auto simp: sys_write_def)
  qed
  have w: "always W (io_write ?p n x) fs Q"
    by (rule write_all) (use written [of _ "length x"] written in \<open>force intro!: err ok\<close>)+
  have "io_append ?p x w = io_write ?p n x w" if "w_fs w = fs" for w
    using that l n by (simp add: io_append_def node_len_def)
  then show ?thesis using w by (simp add: always_def)
qed

lemma open_append_rule:
  assumes t: "tree_ok st offer fs" and h: "holds fs (sp_part (paths_of st offer)) d"
    and err: "\<And>e. may_err W True \<Longrightarrow> Q (Inl e) fs"
    and ok: "Q (Inr (sp_part (paths_of st offer))) fs"
  shows "always W (io_open_append (sp_part (paths_of st offer))) fs Q"
proof -
  have lf: "plain_nodes fs" and in_d: "in_dir fs (sp_part (paths_of st offer))"
    using tree_ok_slots(6,1) [OF t] slotD by auto
  obtain m where l: "lookup fs (sp_part (paths_of st offer)) = Some (FileN d m)"
    using h by (auto simp: holds_def)
  show ?thesis
    unfolding io_open_append_def
    by (rule fs_call) (use lf in_d l in \<open>auto simp: sys_open_append_def intro!: err ok\<close>)
qed

end

text \<open>What an undisturbed \<open>prepare\<close> needs: unused names for the temporary file of the record.\<close>

definition room_to_start :: "(world \<Rightarrow> bool) \<Rightarrow> store \<Rightarrow> transfer_offer \<Rightarrow> fs \<Rightarrow> bool" where
  "room_to_start W st offer fs \<longleftrightarrow>
     (\<forall>u. may_draw W u \<longrightarrow> lookup fs (temp_path (sp_metadata (paths_of st offer)) u) = None)"

lemma metadata_temps_apart:
  assumes "offer_of_data E offer data"
  shows "temp_path (sp_metadata (paths_of st offer)) u \<notin>
    {sp_part (paths_of st offer), sp_metadata (paths_of st offer), sp_commit (paths_of st offer),
     sp_done (paths_of st offer), destination_root st offer, state_dir st offer}"
  using offer_tid [OF assms] paths_of_simps [OF offer_tid(1) [OF assms], of st]
  by (auto simp: temp_path_def state_dir_def)

definition starting :: "crates \<Rightarrow> store \<Rightarrow> transfer_offer \<Rightarrow> bytes \<Rightarrow> fs \<Rightarrow> bool" where
  "starting E st offer data fs \<longleftrightarrow> fresh E st offer fs \<or> (\<exists>n. partly E st offer data n fs)"

lemma starting_tree: "starting E st offer data fs \<Longrightarrow> tree_ok st offer fs"
  by (auto simp: starting_def fresh_tree partly_tree)

context schedule
begin

text \<open>The end of \<open>prepare_part\<close>: the length of the partial file, which is created when missing.\<close>

lemma part_length_rule:
  assumes od: "offer_of_data E offer data"
    and s: "(fresh E st offer fs \<and> lookup fs (sp_metadata (paths_of st offer)) \<noteq> None) \<or>
            (\<exists>n. partly E st offer data n fs)"
    and err: "\<And>e fs'. may_err W True \<Longrightarrow> starting E st offer data fs' \<Longrightarrow> Q (Inl e) fs'"
    and ok: "\<And>fs'. partly E st offer data (resume_offset st offer fs) fs' \<Longrightarrow> progressed st offer fs fs' \<Longrightarrow>
          Q (Inr (PrepareResume \<lparr>pt_part_path = sp_part (paths_of st offer),
                                pt_offset = resume_offset st offer fs\<rparr>)) fs'"
  shows "always W (io_bind
       (io_match (io_metadata (sp_part (paths_of st offer))) (\<lambda>m. io_ret (node_len m))
          (if_not_found (io_then (io_open True (sp_part (paths_of st offer))) (io_then io_sync (io_ret 0)))))
       (\<lambda>offset. io_reject_if (to_size offer < offset)
          (InvalidTransfer ''partial transfer is larger than the offer'')
          (io_ret (PrepareResume \<lparr>pt_part_path = sp_part (paths_of st offer), pt_offset = offset\<rparr>)))) fs Q"
proof -
  let ?p = "sp_part (paths_of st offer)"
  have st: "starting E st offer data fs" using s by (auto simp: starting_def)
  have t: "tree_ok st offer fs" using st by (rule starting_tree)
  note lf = tree_ok_slots(6) [OF t] and in_d = slotD [OF tree_ok_slots(1) [OF t]]
  have sz: "to_size offer = length data" using od by (simp add: offer_of_data_def)
  have now: "may_err W (in_dir fs ?p) \<Longrightarrow> Q (Inl e) fs" for e
    using in_d st by (intro err) (auto simp: may_err_def)
  have none: "always W (io_then (io_open True ?p) (io_then io_sync (io_ret 0))) fs
      (\<lambda>r fs'. case r of Inl e \<Rightarrow> Q (Inl e) fs' | Inr offset \<Rightarrow> always W
         (io_reject_if (to_size offer < offset) (InvalidTransfer ''partial transfer is larger than the offer'')
          (io_ret (PrepareResume \<lparr>pt_part_path = ?p, pt_offset = offset\<rparr>))) fs' Q)"
    if l: "lookup fs ?p = None"
  proof -
    have fr: "fresh E st offer fs" and md: "lookup fs (sp_metadata (paths_of st offer)) \<noteq> None"
      using s l by (auto simp: partly_def Let_def holds_def)
    have h: "holds fs (sp_metadata (paths_of st offer)) (to_vec E (stored_offer_json (stored_offer_of offer)))"
      using fr md by (auto simp: fresh_def Let_def)
    have ro: "resume_offset st offer fs = 0" using l by (auto simp: resume_offset_def Let_def split: option.split)
    have p: "partly E st offer data 0 (put_node ?p (FileN [] tm) fs)" for tm
      using fresh_start [OF od fr h] .
    have q: "Q (Inl e) (put_node ?p (FileN [] tm) fs)" if "may_err W True" for e tm
      using that p by (intro err) (auto simp: starting_def)
    show ?thesis
      by (rule thn, rule open_truncate_rule [OF lf l])
         (use now q p progressed_part(1) [OF od] in \<open>auto intro!: thn sync_all ret reject_if ok [unfolded ro]\<close>)
  qed
  have some: "always W (io_reject_if (to_size offer < node_len nd)
        (InvalidTransfer ''partial transfer is larger than the offer'')
        (io_ret (PrepareResume \<lparr>pt_part_path = ?p, pt_offset = node_len nd\<rparr>))) fs Q"
    if l: "lookup fs ?p = Some nd" for nd
  proof -
    obtain n where pn: "partly E st offer data n fs"
      using s l by (auto simp: fresh_def Let_def)
    then have n: "node_len nd = n" "n \<le> length data"
      using l by (auto simp: partly_def Let_def holds_def node_len_def)
    show ?thesis
      using ok [of fs] pn partly_offset [OF pn] n sz by (auto intro!: reject_if ret)
  qed
  show ?thesis
    by (rule bind, rule match, rule metadata_rule [OF lf])
       (use now none some in_d in \<open>auto intro!: ret throw simp: if_not_found_def\<close>)
qed

lemma prepare_part_start_rule:
  assumes od: "offer_of_data E offer data" and s: "starting E st offer data fs"
    and err: "\<And>e fs'. may_err W (room_to_start W st offer fs) \<Longrightarrow> starting E st offer data fs' \<Longrightarrow> Q (Inl e) fs'"
    and ok: "\<And>fs'. partly E st offer data (resume_offset st offer fs) fs' \<Longrightarrow> progressed st offer fs fs' \<Longrightarrow>
          Q (Inr (PrepareResume \<lparr>pt_part_path = sp_part (paths_of st offer),
                                pt_offset = resume_offset st offer fs\<rparr>)) fs'"
  shows "always W (prepare_part E offer (paths_of st offer)) fs Q"
proof -
  let ?ps = "paths_of st offer"
  let ?m = "sp_metadata ?ps" and ?p = "sp_part ?ps"
  let ?rest = "io_bind
       (io_match (io_metadata ?p) (\<lambda>m. io_ret (node_len m))
          (if_not_found (io_then (io_open True ?p) (io_then io_sync (io_ret 0)))))
       (\<lambda>offset. io_reject_if (to_size offer < offset)
          (InvalidTransfer ''partial transfer is larger than the offer'')
          (io_ret (PrepareResume \<lparr>pt_part_path = ?p, pt_offset = offset\<rparr>)))"
  have t: "tree_ok st offer fs" using s by (rule starting_tree)
  note lf = tree_ok_slots(6) [OF t] and apart = paths_apart(1) [OF od, of st]
  have err': "may_err W True \<Longrightarrow> starting E st offer data fs' \<Longrightarrow> Q (Inl e) fs'" for e fs'
    by (rule err) (auto simp: may_err_def)
  have known: "always W ?rest fs Q" if "lookup fs ?m \<noteq> None"
    by (rule part_length_rule [OF od]) (use s that err' ok in \<open>auto simp: starting_def\<close>)
  have meta: "bind_r (from_slice E d) as_stored_offer = Inr (stored_offer_of offer)"
    if "lookup fs ?m = Some (FileN d m)" for d m
    using s that read_back(1) [OF od]
    by (auto simp: starting_def fresh_def partly_def Let_def holds_def)
  have written: "always W (io_then (atomic_write_json E ?m (stored_offer_json (stored_offer_of offer))) ?rest) fs1 Q"
    if f1: "fresh E st offer fs1" and m1: "lookup fs1 ?m = None" and p1: "lookup fs1 ?p = None"
      and ro: "resume_offset st offer fs = 0" and pr: "progressed st offer fs fs1"
      and room: "room_to_start W st offer fs1 \<longleftrightarrow> room_to_start W st offer fs" for fs1
  proof (rule thn, rule atomic_write_rule [OF _ records_of_transfer(1) [OF offer_tid [OF od]]])
    have t1: "tree_ok st offer fs1" using f1 by (rule fresh_tree)
    show "plain_nodes fs1" by (rule tree_ok_slots(6) [OF t1])
    show "case Inl e of Inl e \<Rightarrow> Q (Inl e) fs' | Inr _ \<Rightarrow> always W ?rest fs' Q"
      if m: "may_err W (slot fs1 ?m \<and> (\<forall>u. may_draw W u \<longrightarrow> lookup fs1 (temp_path ?m u) = None))"
        and a: "plain_nodes fs'" "agree_except {?m, temp_path ?m u} fs1 fs'"
          "lookup fs' ?m = lookup fs1 ?m \<or> lookup fs' ?m = None" for e fs' u
    proof -
      note ta = metadata_temps_apart [OF od, of st u]
      have none: "lookup fs' ?m = None" using a(3) m1 by auto
      have "tree_ok st offer fs'"
        by (rule tree_ok_agree [OF t1 a(2,1)])
           (use ta none paths_apart(3) [OF od, of ?m st] in auto)
      then have "fresh E st offer fs'"
        using f1 none ta apart agreeD [OF a(2)] by (auto simp: fresh_def Let_def)
      moreover have "may_err W (room_to_start W st offer fs)"
        using m room tree_ok_slots(2) [OF t1] by (auto simp: may_err_def room_to_start_def)
      ultimately show ?thesis by (auto intro!: err simp: starting_def)
    qed
    show "case Inr () of Inl e \<Rightarrow> Q (Inl e) fs' | Inr _ \<Rightarrow> always W ?rest fs' Q"
      if a: "plain_nodes fs'" "agree_except {?m} fs1 fs'"
        "lookup fs' ?m = Some (FileN (to_vec E (stored_offer_json (stored_offer_of offer))) m)" for m fs'
    proof -
      have "tree_ok st offer fs'"
        by (rule tree_ok_agree [OF t1 a(2,1)]) (use a(3) paths_apart(3) [OF od, of ?m st] in auto)
      then have f': "fresh E st offer fs'" "lookup fs' ?p = None"
        using f1 p1 a(3) apart agreeD [OF a(2)] by (auto simp: fresh_def Let_def holds_def)
      have ro': "resume_offset st offer fs' = 0"
        using f'(2) by (auto simp: resume_offset_def Let_def split: option.split)
      have "progressed st offer fs1 fs'" using a(2) by (auto simp: progressed_def intro: agree_mono)
      then have "progressed st offer fs fs''" if "progressed st offer fs' fs''" for fs''
        using pr that progressed_trans by blast
      then have "always W ?rest fs' Q"
        by (intro part_length_rule [OF od])
           (use f'(1) a(3) err' ok in \<open>auto simp: ro ro'\<close>)
      then show ?thesis by simp
    qed
  qed
  have unknown: "always W (io_then
       (io_bind (io_try_exists ?p) (\<lambda>b.
            io_then (if b then remove_if_exists ?p else io_ret ())
              (atomic_write_json E ?m (stored_offer_json (stored_offer_of offer))))) ?rest) fs Q"
    if none: "lookup fs ?m = None"
  proof -
    have fr: "fresh E st offer fs" using s none by (auto simp: starting_def partly_def Let_def holds_def)
    have ro: "resume_offset st offer fs = 0" using none by (simp add: resume_offset_def Let_def)
    have gone: "fresh E st offer (del_node ?p fs)" "lookup (del_node ?p fs) ?m = None"
      "lookup (del_node ?p fs) ?p = None"
      "room_to_start W st offer (del_node ?p fs) \<longleftrightarrow> room_to_start W st offer fs"
      using fr none apart tree_ok_put(2) [OF od t, of ?p] paths_apart(3) [OF od, of ?p st]
        metadata_temps_apart [OF od, of st]
      by (auto simp: fresh_def Let_def room_to_start_def)
    have now: "Q (Inl e) fs" if "may_err W True" for e
      using err' [OF that] s by simp
    have assoc: "io_then (io_bind (io_try_exists ?p) (\<lambda>b. io_then (f b) g)) ?rest =
        io_bind (io_try_exists ?p) (\<lambda>b. io_then (f b) (io_then g ?rest))"
      for f :: "bool \<Rightarrow> unit io" and g :: "unit io"
      by (simp add: io_then_def io_bind_assoc)
    have remove: "always W (io_then (remove_if_exists ?p) (io_then (atomic_write_json E ?m
        (stored_offer_json (stored_offer_of offer))) ?rest)) fs Q"
      by (rule thn, rule remove_if_exists_rule [OF lf])
         (use now written [OF fr none _ ro progressed_refl] written [OF gone(1-3) ro progressed_part(2) [OF od] gone(4)] tree_ok_slots(1) [OF t] in
           \<open>auto simp: may_err_def\<close>)
    have keep: "always W (io_then (io_ret ()) (io_then (atomic_write_json E ?m
        (stored_offer_json (stored_offer_of offer))) ?rest)) fs Q" if "lookup fs ?p = None"
      by (rule thn) (use written [OF fr none that ro progressed_refl] in \<open>auto intro!: ret\<close>)
    show ?thesis
      unfolding assoc
      by (rule bind, rule try_exists_rule [OF lf])
         (use now remove keep slotD [OF tree_ok_slots(1) [OF t]] in \<open>auto simp: may_err_def\<close>)
  qed
  show ?thesis
    unfolding prepare_part_def
    by (rule bind, rule read_json_rule [OF lf])
       (use meta known unknown err' s tree_ok_slots(2) [OF t] in
         \<open>auto intro!: thn lift simp: ensure_same_offer_def may_err_def\<close>)
qed

lemma prepare_start_rule:
  assumes od: "offer_of_data E offer data" and s: "starting E st offer data fs"
    and err: "\<And>e fs'. may_err W (room_to_start W st offer fs) \<Longrightarrow> starting E st offer data fs' \<Longrightarrow> Q (Inl e) fs'"
    and ok: "\<And>fs'. partly E st offer data (resume_offset st offer fs) fs' \<Longrightarrow> progressed st offer fs fs' \<Longrightarrow>
          Q (Inr (PrepareResume \<lparr>pt_part_path = sp_part (paths_of st offer),
                                pt_offset = resume_offset st offer fs\<rparr>)) fs'"
  shows "always W (prepare E st offer) fs Q"
proof -
  let ?ps = "paths_of st offer"
  have t: "tree_ok st offer fs" using s by (rule starting_tree)
  note lf = tree_ok_slots(6) [OF t]
  have fine: "offer_validate E offer = Inr ()" "to_kind offer = FileTransfer"
    using od by (simp_all add: offer_of_data_def)
  have none: "lookup fs (sp_done ?ps) = None" "lookup fs (sp_commit ?ps) = None"
    using s by (auto simp: starting_def fresh_def partly_def Let_def)
  have now: "Q (Inl e) fs" if "may_err W True" for e
    using that s by (intro err) (auto simp: may_err_def)
  have commit: "always W (prepare_commit E st offer ?ps) fs Q"
    unfolding prepare_commit_def
    by (rule bind, rule read_json_rule [OF lf])
       (use none now tree_ok_slots(3) [OF t] in
         \<open>auto intro!: prepare_part_start_rule [OF od s] err ok simp: may_err_def\<close>)
  show ?thesis
    unfolding prepare_def Let_def
    by (rule thn, rule lift, simp only: fine sum.case, rule reject_if, simp, rule bind,
        rule read_json_rule [OF lf])
       (use commit none now tree_ok_slots(4) [OF t] in \<open>auto simp: may_err_def\<close>)
qed

end

section \<open>Every state\<close>

text \<open>The partial file holds the first \<open>n\<close> bytes and the transfer is not committed elsewhere.\<close>

definition ready :: "crates \<Rightarrow> store \<Rightarrow> transfer_offer \<Rightarrow> bytes \<Rightarrow> nat \<Rightarrow> fs \<Rightarrow> bool" where
  "ready E st offer data n fs \<longleftrightarrow>
     partly E st offer data n fs \<or>
     n = length data \<and> tree_ok st offer fs \<and> received E st offer data fs"

definition room_to_receive :: "(world \<Rightarrow> bool) \<Rightarrow> store \<Rightarrow> transfer_offer \<Rightarrow> fs \<Rightarrow> bool" where
  "room_to_receive W st offer fs \<longleftrightarrow> room_to_start W st offer fs \<and> room_for W st offer fs"

lemma ready_on_the_way: "ready E st offer data n fs \<Longrightarrow> on_the_way E st offer data fs"
  by (auto simp: ready_def on_the_way_def durable_def)

lemma ready_all: "ready E st offer data (length data) fs \<Longrightarrow> tree_ok st offer fs \<and> received E st offer data fs"
  by (auto simp: ready_def partly_all partly_tree)

lemma ready_part: "ready E st offer data n fs \<Longrightarrow>
    tree_ok st offer fs \<and> n \<le> length data \<and> holds fs (sp_part (paths_of st offer)) (take n data)"
  by (auto simp: ready_def partly_def received_def Let_def)

lemma received_offset: "received E st offer data fs \<Longrightarrow> resume_offset st offer fs = length data"
  by (auto simp: received_def resume_offset_def holds_def Let_def)

lemma starting_durable:
  assumes "starting E st offer data fs" "durable E st offer data fs"
  shows "resume_offset st offer fs = length data"
proof -
  have "lookup fs (sp_done (paths_of st offer)) = None" "lookup fs (sp_commit (paths_of st offer)) = None"
    using assms(1) by (auto simp: starting_def fresh_def partly_def Let_def)
  then have "received E st offer data fs"
    using assms(2) by (auto simp: durable_def committed_def delivered_def holds_def)
  then show ?thesis by (rule received_offset)
qed

lemma starting_on_the_way: "starting E st offer data fs \<Longrightarrow> on_the_way E st offer data fs"
  by (auto simp: starting_def on_the_way_def)

context schedule
begin

lemma prepare_any_rule:
  assumes od: "offer_of_data E offer data" and s: "on_the_way E st offer data fs"
    and err: "\<And>e fs'. may_err W (room_to_receive W st offer fs) \<Longrightarrow> on_the_way E st offer data fs' \<Longrightarrow> Q (Inl e) fs'"
    and resume: "\<And>fs'. ready E st offer data (resume_offset st offer fs) fs' \<Longrightarrow> progressed st offer fs fs' \<Longrightarrow>
          (durable E st offer data fs \<Longrightarrow> resume_offset st offer fs = length data) \<Longrightarrow>
          Q (Inr (PrepareResume \<lparr>pt_part_path = sp_part (paths_of st offer),
                                pt_offset = resume_offset st offer fs\<rparr>)) fs'"
    and complete: "\<And>c fs'. durable E st offer data fs \<Longrightarrow> delivered_ok E st offer data c fs' \<Longrightarrow>
        Q (Inr (PrepareComplete (completed_as st offer c))) fs'"
  shows "always W (prepare E st offer) fs Q"
proof (cases "starting E st offer data fs")
  case True
  show ?thesis
    by (rule prepare_start_rule [OF od True])
       (auto intro!: err resume starting_on_the_way starting_durable [OF True]
        simp: may_err_def room_to_receive_def ready_def)
next
  case False
  then have d: "durable E st offer data fs" using s by (auto simp: on_the_way_def starting_def)
  show ?thesis
    by (rule prepare_rule [OF od d])
       (use resume complete [OF d] received_offset [of E st offer data fs] in
         \<open>auto intro!: err on_the_way_intros(3) simp: may_err_def room_to_receive_def ready_def\<close>)
qed

end

end
