(* ===== verification/ReceiveProps.thy ===== *)
theory ReceiveProps
  imports Receive StoreResume
begin

text \<open>
  What the receiving end does to the disk. \<open>post\<close> says what one run ends with; its rules take the
  combinators apart. The loop rule carries the bytes that are on disk; from it and the rules of
  the store follow that an interrupted transfer can always go on and that an undisturbed one
  delivers the file, and what a peer that sends anything at all can cause.
\<close>

section \<open>Runs of an action\<close>

definition post :: "('s, 'a) action \<Rightarrow> 's \<Rightarrow> ('a result \<Rightarrow> 's \<Rightarrow> bool) \<Rightarrow> bool" where
  "post m s Q \<longleftrightarrow> (case m s of (r, s') \<Rightarrow> Q r s')"

lemma postD: "post m s Q \<Longrightarrow> m s = (r, s') \<Longrightarrow> Q r s'"
  by (simp add: post_def)

lemma post_mono: "post m s Q \<Longrightarrow> (\<And>r s'. Q r s' \<Longrightarrow> Q' r s') \<Longrightarrow> post m s Q'"
  by (auto simp: post_def)

lemma post_ret [simp]: "post (io_ret x) s Q = Q (Inr x) s"
  by (simp add: post_def io_ret_def)

lemma post_throw [simp]: "post (io_throw e) s Q = Q (Inl e) s"
  by (simp add: post_def io_throw_def)

lemma post_lift [simp]: "post (io_lift r) s Q = Q r s"
  by (simp add: post_def io_lift_def)

lemma post_match [simp]:
  "post (io_match m f g) s Q =
     post m s (\<lambda>r s'. case r of Inl e \<Rightarrow> post (g e) s' Q | Inr x \<Rightarrow> post (f x) s' Q)"
  by (auto simp: post_def io_match_def split: prod.split sum.split)

lemma post_bind [simp]:
  "post (io_bind m f) s Q = post m s (\<lambda>r s'. case r of Inl e \<Rightarrow> Q (Inl e) s' | Inr x \<Rightarrow> post (f x) s' Q)"
  by (auto simp: post_def io_bind_def io_match_def io_throw_def split: prod.split sum.split)

lemma post_then [simp]:
  "post (io_then m k) s Q = post m s (\<lambda>r s'. case r of Inl e \<Rightarrow> Q (Inl e) s' | Inr _ \<Rightarrow> post k s' Q)"
  by (simp add: io_then_def)

lemma post_reject_if [simp]: "post (io_reject_if c e k) s Q = (if c then Q (Inl e) s else post k s Q)"
  by (simp add: io_reject_if_def)

lemma post_emit [simp]: "post (emit_event ev) s Q = Q (Inr ()) (s\<lparr>rc_events := rc_events s @ [ev]\<rparr>)"
  by (simp add: post_def emit_event_def)

lemma post_net_call [simp]:
  "post (net_call meaning call) s Q =
     (case Option.bind (nt_fault s (nt_step s)) meaning of
        Some e \<Rightarrow> Q (Inl e) (s\<lparr>nt_step := Suc (nt_step s)\<rparr>)
      | None \<Rightarrow> post call (s\<lparr>nt_step := Suc (nt_step s)\<rparr>) Q)"
  by (simp add: post_def net_call_def Let_def split: option.split)

lemma post_on_disk:
  "post (on_disk m) s Q = Q (fst (m (rc_world s))) (s\<lparr>rc_world := snd (m (rc_world s))\<rparr>)"
  by (simp add: post_def on_disk_def split: prod.split)

text \<open>A rule of the store inside a stream.\<close>

lemma post_on_disk_always:
  assumes "always W m (w_fs (rc_world s)) P" "W (rc_world s)"
    and "\<And>r w. W w \<Longrightarrow> P r (w_fs w) \<Longrightarrow> Q r (s\<lparr>rc_world := w\<rparr>)"
  shows "post (on_disk m) s Q"
  using alwaysD [OF assms(1,2) refl] assms(3) by (simp add: post_on_disk)

section \<open>What the network leaves alone\<close>

text \<open>The disk and how the network behaves; \<open>calm\<close> when nothing will go wrong.\<close>

definition calm :: "'z net_scheme \<Rightarrow> bool" where
  "calm s \<longleftrightarrow> nt_fault s = (\<lambda>_. None) \<and> nt_end s = None"

definition off_disk :: "(receiving, 'a) action \<Rightarrow> bool" where
  "off_disk m \<longleftrightarrow> (\<forall>s. rc_world (snd (m s)) = rc_world s)"

lemma off_disk_simps [simp]:
  "off_disk (io_ret x)" "off_disk (io_throw e)" "off_disk (io_lift r)"
  "off_disk (emit_event ev)" "off_disk gate_wait" "off_disk (net_read meaning n)"
  "off_disk (net_write meaning data)" "off_disk (net_finish meaning)" "off_disk net_random"
  "off_disk (net_call meaning (net_decode d))"
  by (auto simp: off_disk_def io_ret_def io_throw_def io_lift_def emit_event_def gate_wait_def
      net_read_def net_write_def net_finish_def net_random_def net_call_def net_decode_def Let_def
      split: option.split sum.split)

lemma off_disk_match [simp]:
  "off_disk m \<Longrightarrow> (\<And>x. off_disk (f x)) \<Longrightarrow> (\<And>e. off_disk (g e)) \<Longrightarrow> off_disk (io_match m f g)"
  unfolding off_disk_def
proof (intro allI)
  fix s assume a: "\<forall>s. rc_world (snd (m s)) = rc_world s" "\<And>x. \<forall>s. rc_world (snd (f x s)) = rc_world s"
    "\<And>e. \<forall>s. rc_world (snd (g e s)) = rc_world s"
  obtain r s' where "m s = (r, s')" by (cases "m s")
  with a show "rc_world (snd (io_match m f g s)) = rc_world s"
    using a(1) [rule_format, of s] by (cases r) (simp_all add: io_match_def)
qed

lemma off_disk_bind [simp]:
  "off_disk m \<Longrightarrow> (\<And>x. off_disk (f x)) \<Longrightarrow> off_disk (io_bind m f)"
  by (simp add: io_bind_def)

lemma off_disk_then [simp]: "off_disk m \<Longrightarrow> off_disk k \<Longrightarrow> off_disk (io_then m k)"
  by (simp add: io_then_def)

lemma off_disk_frames [simp]:
  "off_disk (send_frame E meaning v)" "off_disk (recv_frame E meaning d)" "off_disk (send_complete E c)"
  "off_disk (send_and_finish E v)" "off_disk (reject_stream E reason)" "off_disk (reject_authentication E)"
  by (simp_all add: send_frame_def recv_frame_def send_complete_def send_and_finish_def reject_stream_def
      reject_authentication_def Let_def)

lemma post_off_disk:
  assumes "off_disk m" and "\<And>r s'. rc_world s' = rc_world s \<Longrightarrow> Q r s'"
  shows "post m s Q"
  using assms by (auto simp: post_def off_disk_def split: prod.split)
    (metis snd_conv)

section \<open>The loop\<close>

text \<open>
  Something may go wrong: the disk fails, the network fails, or the bytes that arrive are not all
  the missing bytes.
\<close>

definition troubled :: "(world \<Rightarrow> bool) \<Rightarrow> bytes \<Rightarrow> receiving \<Rightarrow> bool" where
  "troubled W missing s \<longleftrightarrow> (\<exists>k. may_fail W k) \<or> \<not> calm s \<or> nt_input s \<noteq> missing"

lemma troubled_after:
  "troubled W missing (s\<lparr>nt_step := n\<rparr>) = troubled W missing s"
  "troubled W missing (s\<lparr>rc_world := w\<rparr>) = troubled W missing s"
  "troubled W missing (s\<lparr>rc_events := ev\<rparr>) = troubled W missing s"
  by (simp_all add: troubled_def calm_def)

text \<open>What the loop does not touch.\<close>

definition same_talk :: "receiving \<Rightarrow> receiving \<Rightarrow> bool" where
  "same_talk s s' \<longleftrightarrow>
     nt_output s' = nt_output s \<and> nt_finished s' = nt_finished s \<and> nt_fault s' = nt_fault s \<and>
     nt_end s' = nt_end s \<and> nt_random s' = nt_random s"

lemma same_talk_simps [simp]:
  "same_talk s s"
  "same_talk s (s'\<lparr>nt_step := n\<rparr>) = same_talk s s'"
  "same_talk s (s'\<lparr>nt_input := i\<rparr>) = same_talk s s'"
  "same_talk s (s'\<lparr>rc_world := w\<rparr>) = same_talk s s'"
  "same_talk s (s'\<lparr>rc_events := ev\<rparr>) = same_talk s s'"
  by (simp_all add: same_talk_def)

lemma calm_step [simp]: "calm (s\<lparr>nt_step := n\<rparr>) = calm s"
  by (simp add: calm_def)

lemma same_talk_trans: "same_talk s s' \<Longrightarrow> same_talk s' s'' \<Longrightarrow> same_talk s s''"
  by (simp add: same_talk_def)

lemma same_talk_calm: "same_talk s s' \<Longrightarrow> calm s' = calm s"
  by (simp add: same_talk_def calm_def)

lemma post_net_read:
  assumes "\<And>e. \<not> calm s \<Longrightarrow> Q (Inl e) (s\<lparr>nt_step := Suc (nt_step s)\<rparr>)"
    and "nt_input s = [] \<Longrightarrow> Q (Inr []) (s\<lparr>nt_step := Suc (nt_step s)\<rparr>)"
    and "\<And>x rest. x \<noteq> [] \<Longrightarrow> nt_input s = x @ rest \<Longrightarrow> wanted = 0 \<or> length x \<le> wanted \<Longrightarrow>
           Q (Inr x) (s\<lparr>nt_step := Suc (nt_step s), nt_input := rest\<rparr>)"
  shows "post (net_read meaning wanted) s Q"
proof (cases "Option.bind (nt_fault s (nt_step s)) meaning")
  case (Some e)
  then have "\<not> calm s" by (auto simp: calm_def)
  with assms(1) Some show ?thesis by (simp add: net_read_def)
next
  case None
  show ?thesis
  proof (cases "nt_input s = []")
    case True
    have "nt_end s \<noteq> None \<Longrightarrow> \<not> calm s" by (simp add: calm_def)
    with None True assms(1,2) show ?thesis
      by (cases "nt_end s") (simp add: net_read_def, simp add: post_def)+
  next
    case False
    let ?n = "max 1 (min wanted (nt_chunk s (Suc (nt_step s))))"
    have "post (net_read meaning wanted) s Q =
        Q (Inr (take ?n (nt_input s))) (s\<lparr>nt_step := Suc (nt_step s), nt_input := drop ?n (nt_input s)\<rparr>)"
      using None False by (simp add: net_read_def) (simp add: post_def Let_def)
    moreover have "wanted = 0 \<or> length (take ?n (nt_input s)) \<le> wanted" by auto
    ultimately show ?thesis
      using False assms(3) [of "take ?n (nt_input s)" "drop ?n (nt_input s)"] by simp
  qed
qed

lemma post_net_call_rule:
  assumes "\<And>e. \<not> calm s \<Longrightarrow> Q (Inl e) (s\<lparr>nt_step := Suc (nt_step s)\<rparr>)"
    and "post call (s\<lparr>nt_step := Suc (nt_step s)\<rparr>) Q"
  shows "post (net_call meaning call) s Q"
proof (cases "nt_fault s (nt_step s)")
  case None
  with assms(2) show ?thesis by simp
next
  case (Some e)
  then have "\<not> calm s" by (auto simp: calm_def)
  with assms show ?thesis by (auto split: option.split)
qed

lemma gate_wait_rule:
  assumes "\<And>e. \<not> calm s \<Longrightarrow> Q (Inl e) (s\<lparr>nt_step := Suc (nt_step s)\<rparr>)"
    and "Q (Inr ()) (s\<lparr>nt_step := Suc (nt_step s)\<rparr>)"
  shows "post gate_wait s Q"
  unfolding gate_wait_def by (rule post_net_call_rule) (use assms in auto)

context schedule
begin

lemma receive_loop_rule:
  assumes od: "offer_of_data E offer data"
    and "ready E st offer data n (w_fs (rc_world s))" "W (rc_world s)"
    and "prefix (nt_input s) (drop n data)" "length data - n \<le> fuel"
    and "\<And>e s'. troubled W (drop n data) s \<Longrightarrow> W (rc_world s') \<Longrightarrow>
           on_the_way E st offer data (w_fs (rc_world s')) \<Longrightarrow> Q (Inl e) s'"
    and "\<And>s'. W (rc_world s') \<Longrightarrow> ready E st offer data (length data) (w_fs (rc_world s')) \<Longrightarrow>
           nt_input s' = [] \<Longrightarrow> same_talk s s' \<Longrightarrow>
           progressed st offer (w_fs (rc_world s)) (w_fs (rc_world s')) \<Longrightarrow> Q (Inr (length data)) s'"
  shows "post (receive_loop offer (sp_part (paths_of st offer)) fuel n) s Q"
  using assms(2-)
proof (induction fuel arbitrary: n s)
  case 0
  then have "n = length data" using ready_part [OF 0(1)] by simp
  with 0 show ?case by simp
next
  case (Suc fuel)
  let ?part = "sp_part (paths_of st offer)"
  have sz: "to_size offer = length data" using od by (simp add: offer_of_data_def)
  have n: "n \<le> length data" using ready_part [OF Suc.prems(1)] by simp
  have way: "on_the_way E st offer data (w_fs (rc_world s))" using Suc.prems(1) by (rule ready_on_the_way)
  show ?case
  proof (cases "n = length data")
    case True
    with Suc.prems sz show ?thesis by simp
  next
    case False
    then have less: "n < length data" and p: "partly E st offer data n (w_fs (rc_world s))"
      using n Suc.prems(1) by (auto simp: ready_def)
    note bad = Suc.prems(5)
    let ?s = "\<lambda>k i. s\<lparr>nt_step := k, nt_input := i\<rparr>"
    have eof: "post (on_disk io_sync) s' (\<lambda>r s''. case r of Inl e \<Rightarrow> Q (Inl e) s'' | Inr _ \<Rightarrow> Q (Inl e') s'')"
      if "nt_input s = []" and s': "rc_world s' = rc_world s" for s' e'
    proof -
      have tr: "troubled W (drop n data) s" using that less by (simp add: troubled_def)
      show ?thesis
        by (rule post_on_disk_always [where W = W and P = "\<lambda>_ fs'. fs' = w_fs (rc_world s)"])
           (use s' Suc.prems(2) way bad [OF tr] in \<open>auto intro!: sync_all split: sum.split\<close>)
    qed
    have chunk: "post (on_disk (io_append ?part x)) s' (\<lambda>r s''. case r of Inl e \<Rightarrow> Q (Inl e) s''
        | Inr _ \<Rightarrow> post (receive_loop offer ?part fuel (n + length x))
            (s''\<lparr>rc_events := rc_events s'' @ [ev]\<rparr>) Q)"
      if x: "x \<noteq> []" "nt_input s = x @ nt_input s'" and s': "rc_world s' = rc_world s" "same_talk s s'"
      for x s' ev
    proof (rule post_on_disk_always [OF append_rule [OF od, where Q = "\<lambda>r fs'. case r of
          Inl e \<Rightarrow> may_err W True \<and> on_the_way E st offer data fs'
        | Inr _ \<Rightarrow> partly E st offer data (n + length x) fs' \<and> progressed st offer (w_fs (rc_world s)) fs'"]])
      show "partly E st offer data n (w_fs (rc_world s'))" using p s' by simp
      show px: "prefix x (drop n data)" using Suc.prems(3) x by (metis append_prefixD)
      show "W (rc_world s')" using Suc.prems(2) s' by simp
      fix r :: "unit result" and w assume w: "W w" and post: "case r of Inl e \<Rightarrow> may_err W True \<and> on_the_way E st offer data (w_fs w)
        | Inr _ \<Rightarrow> partly E st offer data (n + length x) (w_fs w) \<and>
            progressed st offer (w_fs (rc_world s)) (w_fs w)"
      show "case r of Inl e \<Rightarrow> Q (Inl e) (s'\<lparr>rc_world := w\<rparr>)
        | Inr _ \<Rightarrow> post (receive_loop offer ?part fuel (n + length x))
            ((s'\<lparr>rc_world := w\<rparr>)\<lparr>rc_events := rc_events (s'\<lparr>rc_world := w\<rparr>) @ [ev]\<rparr>) Q"
      proof (cases r)
        case (Inl e)
        then have "troubled W (drop n data) s" using post by (auto simp: may_err_def troubled_def)
        from bad [OF this] Inl post w show ?thesis by simp
      next
        case (Inr u)
        have rest: "prefix (nt_input s') (drop (n + length x) data)"
        proof -
          obtain z where "drop n data = (x @ nt_input s') @ z" using Suc.prems(3) x by (auto simp: prefix_def)
          then have "drop (length x) (drop n data) = nt_input s' @ z" by simp
          then show ?thesis by (simp add: add.commute)
        qed
        have tr: "troubled W (drop n data) s"
          if "troubled W (drop (n + length x) data) (s'\<lparr>rc_world := w, rc_events := ev'\<rparr>)" for ev'
        proof (rule ccontr)
          assume "\<not> troubled W (drop n data) s"
          then have no: "\<not> (\<exists>k. may_fail W k)" "calm s" and "x @ nt_input s' = drop n data"
            using x(2) by (simp_all add: troubled_def)
          then have "drop (length x) (x @ nt_input s') = drop (n + length x) data" by (simp add: add.commute)
          then show False
            using that no same_talk_calm [OF s'(2)] by (simp add: troubled_def calm_def)
        qed
        show ?thesis
          unfolding Inr sum.case
        proof (rule Suc.IH)
          let ?s2 = "(s'\<lparr>rc_world := w\<rparr>)\<lparr>rc_events := rc_events (s'\<lparr>rc_world := w\<rparr>) @ [ev]\<rparr>"
          show "ready E st offer data (n + length x) (w_fs (rc_world ?s2))"
            using post Inr by (simp add: ready_def)
          show "W (rc_world ?s2)" using w by simp
          show "prefix (nt_input ?s2) (drop (n + length x) data)" using rest by simp
          have "0 < length x" using x(1) by simp
          then show "length data - (n + length x) \<le> fuel" using Suc.prems(4) by linarith
          show "Q (Inl e) s''" if "troubled W (drop (n + length x) data) ?s2" "W (rc_world s'')"
            "on_the_way E st offer data (w_fs (rc_world s''))" for e s''
            using bad tr that by simp
          show "Q (Inr (length data)) s''" if "W (rc_world s'')" "nt_input s'' = []" "same_talk ?s2 s''"
            "ready E st offer data (length data) (w_fs (rc_world s''))"
            "progressed st offer (w_fs (rc_world ?s2)) (w_fs (rc_world s''))" for s''
            using Suc.prems(6) that s'(2) same_talk_trans [of s ?s2 s''] post Inr
              progressed_trans [of st offer "w_fs (rc_world s)" "w_fs w"] by simp
        qed
      qed
    qed (use s' in \<open>auto intro: on_the_way_intros\<close>)
    show ?thesis
      using less sz
      by (auto intro!: gate_wait_rule post_net_read eof chunk bad simp: way Suc.prems(2) troubled_def
          cong: sum.case_cong)
  qed
qed

end

section \<open>A whole file\<close>

definition fits :: "crates \<Rightarrow> jvalue \<Rightarrow> bool" where
  "fits E v \<longleftrightarrow> length (to_vec E v) \<le> MAX_CONTROL_FRAME"

definition frame_of :: "crates \<Rightarrow> jvalue \<Rightarrow> bytes" where
  "frame_of E v = put_frame (to_vec E v)"

lemma post_send_frame:
  assumes "\<And>e s'. \<not> (fits E v \<and> calm s) \<Longrightarrow> rc_world s' = rc_world s \<Longrightarrow> Q (Inl e) s'"
    and "Q (Inr ()) (s\<lparr>nt_step := Suc (nt_step s), nt_output := nt_output s @ frame_of E v\<rparr>)"
  shows "post (send_frame E meaning v) (s :: receiving) Q"
proof (cases "fits E v")
  case False
  then have "write_frame E v = Inl (Protocol ''control frame is too large'')"
    by (simp add: write_frame_def fits_def)
  with False assms(1) show ?thesis by (simp add: send_frame_def)
next
  case True
  then have w: "write_frame E v = Inr (frame_of E v)"
    by (simp add: write_frame_def fits_def frame_of_def)
  show ?thesis
    unfolding send_frame_def net_write_def post_bind post_lift w sum.case
    by (rule post_net_call_rule) (use assms in \<open>auto simp: post_def\<close>)
qed

lemma post_net_finish:
  assumes "\<And>e s'. \<not> calm s \<Longrightarrow> rc_world s' = rc_world s \<Longrightarrow> Q (Inl e) s'"
    and "Q (Inr ()) (s\<lparr>nt_step := Suc (nt_step s), nt_finished := True\<rparr>)"
  shows "post (net_finish meaning) (s :: receiving) Q"
  unfolding net_finish_def
  by (rule post_net_call_rule) (use assms in \<open>auto simp: post_def\<close>)

lemma send_complete_rule:
  assumes "\<And>e s'. \<not> (fits E (transfer_response_json (Complete (ct_receipt c))) \<and> calm s) \<Longrightarrow>
             rc_world s' = rc_world s \<Longrightarrow> Q (Inl e) s'"
    and "\<And>s'. rc_world s' = rc_world s \<Longrightarrow>
             nt_output s' = nt_output s @ frame_of E (transfer_response_json (Complete (ct_receipt c))) \<Longrightarrow>
             nt_finished s' \<Longrightarrow> rc_events s' = rc_events s \<Longrightarrow> Q (Inr ()) s'"
  shows "post (send_complete E c) s Q"
  unfolding send_complete_def
  by (auto intro!: post_send_frame post_net_finish assms simp: calm_def)

text \<open>The bytes the receiver still needs, and what it answers before them.\<close>

definition missing :: "crates \<Rightarrow> store \<Rightarrow> transfer_offer \<Rightarrow> bytes \<Rightarrow> fs \<Rightarrow> bytes" where
  "missing E st offer data fs =
     (if durable E st offer data fs then [] else drop (resume_offset st offer fs) data)"

lemma missing_ready:
  assumes "ready E st offer data n fs'" "n = resume_offset st offer fs" "on_the_way E st offer data fs"
    and "durable E st offer data fs \<Longrightarrow> n = length data"
  shows "missing E st offer data fs = drop n data"
  using assms by (simp add: missing_def)

context schedule
begin

lemma receive_part_rule:
  assumes od: "offer_of_data E offer data" and rd: "ready E st offer data n (w_fs (rc_world s))"
    and W: "W (rc_world s)" and input: "prefix (nt_input s) (drop n data)"
    and err: "\<And>e s'. troubled W (drop n data) s \<or> \<not> fits E (transfer_response_json (Resume n)) \<or>
          \<not> fits E (transfer_response_json (Complete (receipt_of (stored_offer_of offer)))) \<or>
          may_err W (room_for W st offer (w_fs (rc_world s))) \<Longrightarrow>
          W (rc_world s') \<Longrightarrow> on_the_way E st offer data (w_fs (rc_world s')) \<Longrightarrow> Q (Inl e) s'"
    and ok: "\<And>c s'. W (rc_world s') \<Longrightarrow> delivered_ok E st offer data c (w_fs (rc_world s')) \<Longrightarrow>
          nt_output s' = nt_output s @ frame_of E (transfer_response_json (Resume n)) @
            frame_of E (transfer_response_json (Complete (receipt_of (stored_offer_of offer)))) \<Longrightarrow>
          nt_finished s' \<Longrightarrow> Q (Inr ()) s'"
  shows "post (receive_part E st offer \<lparr>pt_part_path = sp_part (paths_of st offer), pt_offset = n\<rparr>) s Q"
proof -
  let ?part = "sp_part (paths_of st offer)"
  have way: "on_the_way E st offer data (w_fs (rc_world s))" using rd by (rule ready_on_the_way)
  have sz: "to_size offer = length data" using od by (simp add: offer_of_data_def)
  have n: "n \<le> length data" using ready_part [OF rd] by simp
  note bad = err [OF disjI1]
  have disk_err: "troubled W (drop n data) s'" if "may_err W True" for s'
    using that by (auto simp: may_err_def troubled_def)
  have finish: "post (on_disk (finalize E st offer)) s' (\<lambda>r s'. case r of Inl e \<Rightarrow> Q (Inl e) s'
      | Inr c \<Rightarrow> post (send_complete E c) (s'\<lparr>rc_events := rc_events s' @ [received_event offer c]\<rparr>) Q)"
    if rd': "ready E st offer data (length data) (w_fs (rc_world s'))" and W': "W (rc_world s')"
      and pr: "progressed st offer (w_fs (rc_world s)) (w_fs (rc_world s'))"
      and out: "nt_output s' = nt_output s @ frame_of E (transfer_response_json (Resume n))"
      and calm: "calm s' = calm s" for s'
  proof (rule post_on_disk_always [OF finalize_rule [OF od, where Q = "\<lambda>r fs'. case r of
        Inl e \<Rightarrow> may_err W (room_for W st offer (w_fs (rc_world s'))) \<and> durable E st offer data fs'
      | Inr c \<Rightarrow> \<exists>name. c = completed_as st offer name \<and> delivered_ok E st offer data name fs'"]])
    show "tree_ok st offer (w_fs (rc_world s'))" "received E st offer data (w_fs (rc_world s'))"
      using ready_all [OF rd'] by auto
    show "W (rc_world s')" by (rule W')
    fix r :: "completed_transfer result" and w assume w: "W w" and p: "case r of
        Inl e \<Rightarrow> may_err W (room_for W st offer (w_fs (rc_world s'))) \<and> durable E st offer data (w_fs w)
      | Inr c \<Rightarrow> \<exists>name. c = completed_as st offer name \<and> delivered_ok E st offer data name (w_fs w)"
    show "case r of Inl e \<Rightarrow> Q (Inl e) (s'\<lparr>rc_world := w\<rparr>)
      | Inr c \<Rightarrow> post (send_complete E c) ((s'\<lparr>rc_world := w\<rparr>)
          \<lparr>rc_events := rc_events (s'\<lparr>rc_world := w\<rparr>) @ [received_event offer c]\<rparr>) Q"
    proof (cases r)
      case (Inl e)
      then show ?thesis using p w room_for_progressed [OF od pr] by (auto intro!: err on_the_way_intros(3))
    next
      case (Inr c)
      then obtain name where c: "c = completed_as st offer name" "delivered_ok E st offer data name (w_fs w)"
        using p by auto
      show ?thesis
        unfolding Inr sum.case
        by (rule send_complete_rule)
           (use c w out calm delivered_ok_durable [OF c(2)] in
             \<open>auto intro!: err ok on_the_way_intros(3) simp: completed_as_def troubled_def calm_def\<close>)
    qed
  qed auto
  have last: "post (on_disk io_sync) s' (\<lambda>r s'. case r of Inl e \<Rightarrow> Q (Inl e) s'
      | Inr _ \<Rightarrow> post (on_disk (finalize E st offer)) s' (\<lambda>r s'. case r of Inl e \<Rightarrow> Q (Inl e) s'
      | Inr c \<Rightarrow> post (send_complete E c) (s'\<lparr>rc_events := rc_events s' @ [received_event offer c]\<rparr>) Q))"
    if rd': "ready E st offer data (length data) (w_fs (rc_world s'))" and W': "W (rc_world s')"
      and pr: "progressed st offer (w_fs (rc_world s)) (w_fs (rc_world s'))"
      and out: "nt_output s' = nt_output s @ frame_of E (transfer_response_json (Resume n))"
      and calm: "calm s' = calm s" for s'
  proof (rule post_on_disk_always [where W = W and P = "\<lambda>r fs'. fs' = w_fs (rc_world s') \<and>
      (\<forall>e. r = Inl e \<longrightarrow> may_err W True)"])
    show "always W io_sync (w_fs (rc_world s')) (\<lambda>r fs'. fs' = w_fs (rc_world s') \<and> (\<forall>e. r = Inl e \<longrightarrow> may_err W True))"
      by (rule sync_all) auto
    show "W (rc_world s')" by (rule W')
    fix r :: "unit result" and w
    assume w: "W w" and p: "w_fs w = w_fs (rc_world s') \<and> (\<forall>e. r = Inl e \<longrightarrow> may_err W True)"
    show "case r of Inl e \<Rightarrow> Q (Inl e) (s'\<lparr>rc_world := w\<rparr>)
      | Inr _ \<Rightarrow> post (on_disk (finalize E st offer)) (s'\<lparr>rc_world := w\<rparr>) (\<lambda>r s'. case r of Inl e \<Rightarrow> Q (Inl e) s'
      | Inr c \<Rightarrow> post (send_complete E c) (s'\<lparr>rc_events := rc_events s' @ [received_event offer c]\<rparr>) Q)"
    proof (cases r)
      case (Inl e)
      then show ?thesis using p w ready_on_the_way [OF rd'] by (auto intro!: bad disk_err)
    next
      case (Inr u)
      have "calm (s'\<lparr>rc_world := w\<rparr>) = calm s" using calm by (simp add: calm_def)
      then show ?thesis
        unfolding Inr sum.case by (intro finish) (use p w rd' out pr in simp_all)
    qed
  qed
  have extra: "post (net_read plain_read_fault 1) s' (\<lambda>r s'. case r of Inl e \<Rightarrow> Q (Inl e) s'
      | Inr extra \<Rightarrow> post (io_reject_if (extra \<noteq> []) (Protocol ''sender wrote more bytes than declared'')
          (io_then (on_disk io_sync) (io_bind (on_disk (finalize E st offer)) (\<lambda>completed.
             io_then (emit_event (received_event offer completed)) (send_complete E completed))))) s' Q)"
    if rd': "ready E st offer data (length data) (w_fs (rc_world s'))" and W': "W (rc_world s')"
      and pr: "progressed st offer (w_fs (rc_world s)) (w_fs (rc_world s'))"
      and out: "nt_output s' = nt_output s @ frame_of E (transfer_response_json (Resume n))"
      and calm: "calm s' = calm s" and empty: "nt_input s' = []" for s'
    by (rule post_net_read)
       (use rd' W' out calm empty last pr ready_on_the_way [OF rd'] in
         \<open>auto intro!: bad simp: troubled_def cong: sum.case_cong\<close>)
  let ?tail = "\<lambda>r s'. case r of Inl e \<Rightarrow> Q (Inl e) s'
      | Inr _ \<Rightarrow> post (net_read plain_read_fault 1) s' (\<lambda>r s'. case r of Inl e \<Rightarrow> Q (Inl e) s'
        | Inr extra \<Rightarrow> post (io_reject_if (extra \<noteq> []) (Protocol ''sender wrote more bytes than declared'')
          (io_then (on_disk io_sync) (io_bind (on_disk (finalize E st offer)) (\<lambda>completed.
             io_then (emit_event (received_event offer completed)) (send_complete E completed))))) s' Q)"
  have loop: "post (receive_loop offer ?part (length data - n) n) s' ?tail"
    if s': "w_fs (rc_world s') = w_fs (rc_world s)" "W (rc_world s')" "nt_input s' = nt_input s"
      and out: "nt_output s' = nt_output s @ frame_of E (transfer_response_json (Resume n))"
      and calm: "calm s' = calm s" for s'
  proof (rule receive_loop_rule [OF od])
    show "ready E st offer data n (w_fs (rc_world s'))" using rd s' by simp
    show "prefix (nt_input s') (drop n data)" using input s' by simp
    show "?tail (Inl e) s''" if "troubled W (drop n data) s'" "W (rc_world s'')"
      "on_the_way E st offer data (w_fs (rc_world s''))" for e s''
      using that s' calm bad by (auto simp: troubled_def)
    show "?tail (Inr (length data)) s''" if "W (rc_world s'')"
      "ready E st offer data (length data) (w_fs (rc_world s''))" "nt_input s'' = []" "same_talk s' s''"
      "progressed st offer (w_fs (rc_world s')) (w_fs (rc_world s''))" for s''
    proof -
      have "nt_output s'' = nt_output s'" using that(4) by (simp add: same_talk_def)
      then show ?thesis
        using extra [OF that(2,1) _ _ _ that(3)] that(5) s'(1) same_talk_calm [OF that(4)] out calm by simp
    qed
  qed (use s' in simp_all)
  have opened: "post (on_disk (io_open_append ?part)) s' (\<lambda>r s'. case r of Inl e \<Rightarrow> Q (Inl e) s'
      | Inr part \<Rightarrow> post (receive_loop offer part (length data - n) n)
          (s'\<lparr>rc_events := rc_events s' @ [ev]\<rparr>) ?tail)"
    if s': "rc_world s' = rc_world s" "nt_input s' = nt_input s"
      and out: "nt_output s' = nt_output s @ frame_of E (transfer_response_json (Resume n))"
      and calm: "calm s' = calm s" for s' ev
  proof (rule post_on_disk_always [where W = W and P = "\<lambda>r fs'. fs' = w_fs (rc_world s) \<and>
      (r = Inr ?part \<or> (\<exists>e. r = Inl e \<and> may_err W True))"])
    show "always W (io_open_append ?part) (w_fs (rc_world s')) (\<lambda>r fs'. fs' = w_fs (rc_world s) \<and>
      (r = Inr ?part \<or> (\<exists>e. r = Inl e \<and> may_err W True)))"
      by (rule open_append_rule) (use ready_part [OF rd] s' in auto)
    show "W (rc_world s')" using W s' by simp
    fix r :: "path result" and w
    assume w: "W w" and p: "w_fs w = w_fs (rc_world s) \<and> (r = Inr ?part \<or> (\<exists>e. r = Inl e \<and> may_err W True))"
    then show "case r of Inl e \<Rightarrow> Q (Inl e) (s'\<lparr>rc_world := w\<rparr>)
      | Inr part \<Rightarrow> post (receive_loop offer part (length data - n) n)
          ((s'\<lparr>rc_world := w\<rparr>)\<lparr>rc_events := rc_events (s'\<lparr>rc_world := w\<rparr>) @ [ev]\<rparr>) ?tail"
    proof (cases r)
      case (Inl e)
      then show ?thesis using p w way by (auto intro!: bad disk_err)
    next
      case (Inr part)
      have "calm (s'\<lparr>rc_world := w, rc_events := ev'\<rparr>) = calm s" for ev' using calm by (simp add: calm_def)
      moreover have "part = ?part" using p Inr by auto
      ultimately show ?thesis
        unfolding Inr sum.case by (auto intro!: loop simp: p w s' out)
    qed
  qed
  have "post (receive_part E st offer \<lparr>pt_part_path = ?part, pt_offset = n\<rparr>) s Q =
    post (send_frame E plain_io_fault (transfer_response_json (Resume n))) s (\<lambda>r s'. case r of Inl e \<Rightarrow> Q (Inl e) s'
      | Inr _ \<Rightarrow> post (on_disk (io_open_append ?part)) s' (\<lambda>r s'. case r of Inl e \<Rightarrow> Q (Inl e) s'
      | Inr part \<Rightarrow> post (receive_loop offer part (length data - n) n)
          (s'\<lparr>rc_events := rc_events s' @ [ProgressEvent (progress_of offer n)]\<rparr>) ?tail))"
    by (simp only: receive_part_def post_then post_bind post_emit sum.case prepared_transfer.simps sz)
  moreover have "Q (Inl e) s'"
    if "\<not> (fits E (transfer_response_json (Resume n)) \<and> calm s)" "rc_world s' = rc_world s" for e s'
  proof (rule err)
    show "troubled W (drop n data) s \<or> \<not> fits E (transfer_response_json (Resume n)) \<or>
          \<not> fits E (transfer_response_json (Complete (receipt_of (stored_offer_of offer)))) \<or>
          may_err W (room_for W st offer (w_fs (rc_world s)))"
      using that(1) by (simp only: troubled_def) blast
  qed (simp_all add: that W way)
  ultimately show ?thesis
    by (simp only:) (rule post_send_frame, simp, simp only: sum.case, rule opened, simp_all add: calm_def)
qed

text \<open>All of a file transfer after the offer was accepted.\<close>

lemma receive_file_rule:
  assumes od: "offer_of_data E offer data" and way: "on_the_way E (ix_store ctx) offer data (w_fs (rc_world s))"
    and W: "W (rc_world s)" and input: "prefix (nt_input s) (missing E (ix_store ctx) offer data (w_fs (rc_world s)))"
    and err: "\<And>e s'. troubled W (missing E (ix_store ctx) offer data (w_fs (rc_world s))) s \<or>
          \<not> fits E (transfer_response_json (Resume (resume_offset (ix_store ctx) offer (w_fs (rc_world s))))) \<or>
          \<not> fits E (transfer_response_json (Complete (receipt_of (stored_offer_of offer)))) \<or>
          may_err W (room_to_receive W (ix_store ctx) offer (w_fs (rc_world s))) \<Longrightarrow>
          W (rc_world s') \<Longrightarrow> on_the_way E (ix_store ctx) offer data (w_fs (rc_world s')) \<Longrightarrow> Q (Inl e) s'"
    and ok: "\<And>c s' answer. W (rc_world s') \<Longrightarrow>
          delivered_ok E (ix_store ctx) offer data c (w_fs (rc_world s')) \<Longrightarrow>
          answer = frame_of E (transfer_response_json
            (Resume (resume_offset (ix_store ctx) offer (w_fs (rc_world s))))) \<or>
          answer = [] \<and> durable E (ix_store ctx) offer data (w_fs (rc_world s)) \<Longrightarrow>
          nt_output s' = nt_output s @ answer @
            frame_of E (transfer_response_json (Complete (receipt_of (stored_offer_of offer)))) \<Longrightarrow>
          nt_finished s' \<Longrightarrow> Q (Inr ()) s'"
  shows "post (receive_file E ctx offer) s Q"
proof -
  let ?st = "ix_store ctx" and ?fs = "w_fs (rc_world s)"
  show ?thesis
    unfolding receive_file_def or_reject_def post_match
  proof (rule post_on_disk_always [OF prepare_any_rule [OF od way, where Q = "\<lambda>r fs'. case r of
        Inl e \<Rightarrow> may_err W (room_to_receive W ?st offer ?fs) \<and> on_the_way E ?st offer data fs'
      | Inr (PrepareComplete c) \<Rightarrow> durable E ?st offer data ?fs \<and>
          (\<exists>name. c = completed_as ?st offer name \<and> delivered_ok E ?st offer data name fs')
      | Inr (PrepareResume pt) \<Rightarrow> ready E ?st offer data (resume_offset ?st offer ?fs) fs' \<and> progressed ?st offer ?fs fs' \<and>
          (durable E ?st offer data ?fs \<longrightarrow> resume_offset ?st offer ?fs = length data) \<and>
          pt = \<lparr>pt_part_path = sp_part (paths_of ?st offer), pt_offset = resume_offset ?st offer ?fs\<rparr>"]])
    show "W (rc_world s)" by (rule W)
    fix r :: "prepare_outcome result" and w
    assume w: "W w" and p: "case r of
        Inl e \<Rightarrow> may_err W (room_to_receive W ?st offer ?fs) \<and> on_the_way E ?st offer data (w_fs w)
      | Inr (PrepareComplete c) \<Rightarrow> durable E ?st offer data ?fs \<and>
          (\<exists>name. c = completed_as ?st offer name \<and> delivered_ok E ?st offer data name (w_fs w))
      | Inr (PrepareResume pt) \<Rightarrow> ready E ?st offer data (resume_offset ?st offer ?fs) (w_fs w) \<and> progressed ?st offer ?fs (w_fs w) \<and>
          (durable E ?st offer data ?fs \<longrightarrow> resume_offset ?st offer ?fs = length data) \<and>
          pt = \<lparr>pt_part_path = sp_part (paths_of ?st offer), pt_offset = resume_offset ?st offer ?fs\<rparr>"
    let ?goal = "case r of
        Inl e \<Rightarrow> post (io_then (reject_stream E (error_text (ix_io_text ctx) e)) (io_throw e)) (s\<lparr>rc_world := w\<rparr>) Q
      | Inr x \<Rightarrow> post (case x of PrepareResume prepared \<Rightarrow> receive_part E ?st offer prepared
            | PrepareComplete completed \<Rightarrow> send_complete E completed) (s\<lparr>rc_world := w\<rparr>) Q"
    show ?goal
    proof (cases r)
      case (Inl e)
      have "Q (Inl e') s'" if "rc_world s' = w" for e' s'
        using p w that Inl by (intro err) auto
      then show ?thesis
        unfolding Inl sum.case post_then
        by (intro post_off_disk) (auto split: sum.split)
    next
      case (Inr outcome)
      have calm: "calm (s\<lparr>rc_world := w\<rparr>) = calm s" by (simp add: calm_def)
      show ?thesis
      proof (cases outcome)
        case (PrepareResume pt)
        let ?n = "resume_offset ?st offer ?fs"
        have m: "missing E ?st offer data ?fs = drop ?n data"
          using p Inr PrepareResume by (auto simp: missing_def)
        have pt: "pt = \<lparr>pt_part_path = sp_part (paths_of ?st offer), pt_offset = ?n\<rparr>"
          and rd: "ready E ?st offer data ?n (w_fs (rc_world (s\<lparr>rc_world := w\<rparr>)))"
          and pr: "progressed ?st offer ?fs (w_fs w)"
          using p Inr PrepareResume by simp_all
        show ?thesis
          unfolding Inr PrepareResume sum.case prepare_outcome.case pt
        proof (rule receive_part_rule [OF od rd])
          show "Q (Inr ()) s'" if "W (rc_world s')" "delivered_ok E ?st offer data c (w_fs (rc_world s'))"
            "nt_output s' = nt_output (s\<lparr>rc_world := w\<rparr>) @ frame_of E (transfer_response_json (Resume ?n)) @
              frame_of E (transfer_response_json (Complete (receipt_of (stored_offer_of offer))))"
            "nt_finished s'" for c s'
            using that by (intro ok) auto
          show "Q (Inl e) s'" if bad: "troubled W (drop ?n data) (s\<lparr>rc_world := w\<rparr>) \<or>
              \<not> fits E (transfer_response_json (Resume ?n)) \<or>
              \<not> fits E (transfer_response_json (Complete (receipt_of (stored_offer_of offer)))) \<or>
              may_err W (room_for W ?st offer (w_fs (rc_world (s\<lparr>rc_world := w\<rparr>))))"
            and s': "W (rc_world s')" "on_the_way E ?st offer data (w_fs (rc_world s'))" for e s'
          proof (rule err)
            have "room_for W ?st offer (w_fs w) \<longleftrightarrow> room_for W ?st offer ?fs"
              by (rule room_for_progressed [OF od pr])
            then show "troubled W (missing E ?st offer data ?fs) s \<or>
                \<not> fits E (transfer_response_json (Resume ?n)) \<or>
                \<not> fits E (transfer_response_json (Complete (receipt_of (stored_offer_of offer)))) \<or>
                may_err W (room_to_receive W ?st offer ?fs)"
              using bad by (auto simp: m troubled_after may_err_def room_to_receive_def)
          qed (use s' in simp_all)
        qed (use w input m in simp_all)
      next
        case (PrepareComplete c)
        then obtain name where c: "c = completed_as ?st offer name" "delivered_ok E ?st offer data name (w_fs w)"
          and d: "durable E ?st offer data ?fs"
          using p Inr by auto
        show ?thesis
          unfolding Inr PrepareComplete sum.case prepare_outcome.case
          by (rule send_complete_rule)
             (use w c d calm delivered_ok_durable [OF c(2)] in
               \<open>auto intro!: err ok on_the_way_intros(3) simp: completed_as_def troubled_def\<close>)
      qed
    qed
  qed (auto split: prod.split)
qed

end

end
