(* ===== verification/Sessions.thy ===== *)
theory Sessions
  imports ReceiveProps
begin

text \<open>
  Whole transfers of a file, over any number of connections. A session is one run of
  \<open>receive_file\<close>: the sender offers the file again, is told how much the receiver has, and sends
  what is missing, or the first bytes of it; anything may fail on the way, and the process may die.
\<close>

inductive sessions :: "crates \<Rightarrow> incoming_context \<Rightarrow> transfer_offer \<Rightarrow> bytes \<Rightarrow> fs \<Rightarrow> fs \<Rightarrow> bool"
  for E ctx offer data where
  start: "sessions E ctx offer data fs fs"
| again: "sessions E ctx offer data fs (w_fs (rc_world s)) \<Longrightarrow>
    prefix (nt_input s) (missing E (ix_store ctx) offer data (w_fs (rc_world s))) \<Longrightarrow>
    sessions E ctx offer data fs (w_fs (rc_world (snd (receive_file E ctx offer s))))"

lemma session_on_the_way:
  assumes "offer_of_data E offer data" "on_the_way E (ix_store ctx) offer data (w_fs (rc_world s))"
    and "prefix (nt_input s) (missing E (ix_store ctx) offer data (w_fs (rc_world s)))"
  shows "on_the_way E (ix_store ctx) offer data (w_fs (rc_world (snd (receive_file E ctx offer s))))"
proof -
  have "post (receive_file E ctx offer) s
    (\<lambda>r s'. on_the_way E (ix_store ctx) offer data (w_fs (rc_world s')))"
    by (rule any.receive_file_rule [OF assms(1,2) _ assms(3)])
       (auto intro: on_the_way_intros(3) delivered_ok_durable)
  then show ?thesis by (auto simp: post_def split: prod.splits)
qed

lemma sessions_on_the_way:
  assumes "sessions E ctx offer data fs fs'" "offer_of_data E offer data"
    and "on_the_way E (ix_store ctx) offer data fs"
  shows "on_the_way E (ix_store ctx) offer data fs'"
  using assms by induction (auto intro: session_on_the_way)

text \<open>C5: An interrupted transfer can always go on: after any number of sessions, each cut short or
  disturbed at any call by the disk, the network or the peer, the disk still holds nothing of the
  file, or a prefix of its bytes under the metadata of this offer, or all of it with the records
  that lead to it; the partial file never holds a wrong byte.\<close>

theorem interrupted_transfer_resumes:
  assumes "offer_of_data E offer data" "fresh E (ix_store ctx) offer fs"
    and "sessions E ctx offer data fs fs'"
  shows "on_the_way E (ix_store ctx) offer data fs'"
  by (rule sessions_on_the_way [OF assms(3,1)]) (rule on_the_way_intros(1) [OF assms(2)])

text \<open>
  What one undisturbed session needs: the frames it sends are not over the limit, the names it
  draws for temporary files are free, and so is one of the names for the file.
\<close>

definition undisturbed :: "crates \<Rightarrow> incoming_context \<Rightarrow> transfer_offer \<Rightarrow> bytes \<Rightarrow> receiving \<Rightarrow> bool" where
  "undisturbed E ctx offer data s \<longleftrightarrow>
     (let st = ix_store ctx; fs = w_fs (rc_world s) in
      calm s \<and> (\<exists>U. clean U (rc_world s) \<and> room st offer U fs \<and>
        (\<forall>u. U u \<longrightarrow> lookup fs (temp_path (sp_metadata (paths_of st offer)) u) = None)) \<and>
      nt_input s = missing E st offer data fs \<and>
      fits E (transfer_response_json (Resume (resume_offset st offer fs))) \<and>
      fits E (transfer_response_json (Complete (receipt_of (stored_offer_of offer)))))"

text \<open>C6: A transfer ends: after any number of interrupted sessions, one undisturbed session in which
  the sender sends the missing bytes succeeds; the file is then under a safe name of the inbox with
  exactly the offered bytes, and the last frame the receiver sends is the receipt of the offer.\<close>

theorem resumed_transfer_completes:
  assumes "offer_of_data E offer data" "fresh E (ix_store ctx) offer fs"
    and "sessions E ctx offer data fs (w_fs (rc_world s))" "undisturbed E ctx offer data s"
  shows "\<exists>c s' answer. receive_file E ctx offer s = (Inr (), s') \<and> safe_name c \<and>
           holds (w_fs (rc_world s')) (dest (ix_store ctx) offer c) data \<and> nt_finished s' \<and>
           nt_output s' = nt_output s @ answer @
             frame_of E (transfer_response_json (Complete (receipt_of (stored_offer_of offer))))"
proof -
  let ?st = "ix_store ctx" and ?fs = "w_fs (rc_world s)"
  have way: "on_the_way E ?st offer data ?fs"
    by (rule sessions_on_the_way [OF assms(3,1)]) (rule on_the_way_intros(1) [OF assms(2)])
  obtain U where U: "clean U (rc_world s)" "room ?st offer U ?fs"
      "\<forall>u. U u \<longrightarrow> lookup ?fs (temp_path (sp_metadata (paths_of ?st offer)) u) = None"
    and calm: "calm s" "nt_input s = missing E ?st offer data ?fs"
    and fit: "fits E (transfer_response_json (Resume (resume_offset ?st offer ?fs)))"
      "fits E (transfer_response_json (Complete (receipt_of (stored_offer_of offer))))"
    using assms(4) by (auto simp: undisturbed_def Let_def)
  have room: "room_to_receive (clean U) ?st offer ?fs"
    using U by (auto simp: room_to_receive_def room_to_start_def room_for_def room_def dest: may_draw_clean)
  have "post (receive_file E ctx offer) s (\<lambda>r s'. r = Inr () \<and> nt_finished s' \<and>
      (\<exists>c answer. delivered_ok E ?st offer data c (w_fs (rc_world s')) \<and>
         nt_output s' = nt_output s @ answer @
           frame_of E (transfer_response_json (Complete (receipt_of (stored_offer_of offer))))))"
    by (rule no_fault.receive_file_rule [OF assms(1) way U(1)])
       (use calm fit room in \<open>auto simp: troubled_def\<close>)
  then show ?thesis
    by (cases "receive_file E ctx offer s") (auto simp: post_def delivered_ok_def delivered_def)
qed

section \<open>An example\<close>

text \<open>An inbox in which nothing was received yet, and the connection of its first session.\<close>

definition sample_frames :: "jvalue list" where
  "sample_frames = [transfer_response_json (Resume 0),
     transfer_response_json (Complete (receipt_of (stored_offer_of sample_signed_offer)))]"

definition sample_inbox :: fs where
  "sample_inbox = [([''in''], DirN 0), (sample_state_dir, DirN 0)]"

definition sample_incoming :: incoming_context where
  "sample_incoming = \<lparr>ix_store = sample_store, ix_identity = sample_identity, ix_capabilities = [],
     ix_shared_secret = ''secret'', ix_io_text = (\<lambda>_. [])\<rparr>"

definition sample_receiving :: "bytes \<Rightarrow> (nat \<Rightarrow> net_fault option) \<Rightarrow> receiving" where
  "sample_receiving input fault =
     \<lparr>nt_input = input, nt_end = None, nt_output = [], nt_finished = False, nt_step = 0,
      nt_fault = fault, nt_chunk = (\<lambda>_. 2), nt_random = (\<lambda>_. []),
      rc_world = sample_world\<lparr>w_fs := sample_inbox\<rparr>, rc_events = []\<rparr>"

lemma table_offer_of_data: "length vs < 255 \<Longrightarrow> offer_of_data (table_crates vs) sample_signed_offer [1, 2, 3]"
proof -
  have verify: "ed25519_verify sample_crates k m s = ed25519_verify sample_crates k m' s" for k m m' s
    by (simp add: sample_crates_def)
  have "decode_array (table_crates vs) = decode_array sample_crates"
    by (intro ext) (simp add: decode_array_def)
  then have "offer_validate (table_crates vs) sample_signed_offer = offer_validate sample_crates sample_signed_offer"
    unfolding offer_validate_def
    using verify [of _ "offer_signing_bytes (table_crates vs) sample_signed_offer" _
        "offer_signing_bytes sample_crates sample_signed_offer"] by simp
  then show "length vs < 255 \<Longrightarrow> offer_of_data (table_crates vs) sample_signed_offer [1, 2, 3]"
    using sample_offer_of_data by (simp add: offer_of_data_def)
qed

lemma sample_inbox_lookup:
  "lookup sample_inbox [''in''] = Some (DirN 0)" "lookup sample_inbox sample_state_dir = Some (DirN 0)"
  "p \<notin> {[], [''in''], sample_state_dir} \<Longrightarrow> lookup sample_inbox p = None"
  by (simp_all add: sample_inbox_def lookup_def sample_state_dir_def)

lemma sample_inbox_fresh: "fresh E sample_store sample_signed_offer sample_inbox"
proof -
  have none: "lookup sample_inbox (sample_state_dir @ [c]) = None" for c
    by (rule sample_inbox_lookup(3)) (simp add: sample_state_dir_def)
  have lf: "plain_nodes sample_inbox"
    by (simp add: plain_nodes_def lookup_def sample_inbox_def)
  have sd: "state_dir sample_store sample_signed_offer = sample_state_dir"
    by (simp add: state_dir_def STATE_DIRECTORY_def sample_state_dir_def)
  show ?thesis
    using lf by (simp add: fresh_def tree_ok_def id_name_def Let_def sample_paths none sd sample_inbox_lookup)
qed

lemma fresh_missing:
  assumes "fresh E st offer fs"
  shows "missing E st offer data fs = data" "resume_offset st offer fs = 0"
proof -
  have "lookup fs (sp_metadata (paths_of st offer)) = None \<or> lookup fs (sp_part (paths_of st offer)) = None"
    and none: "lookup fs (sp_done (paths_of st offer)) = None" "lookup fs (sp_commit (paths_of st offer)) = None"
    using assms by (auto simp: fresh_def Let_def)
  then have "\<not> durable E st offer data fs" and r: "resume_offset st offer fs = 0"
    by (auto simp: durable_def received_def committed_def delivered_def holds_def resume_offset_def
        Let_def split: option.split)
  then show "missing E st offer data fs = data" "resume_offset st offer fs = 0"
    by (simp_all add: missing_def)
qed

text \<open>The first session is cut off after two bytes.\<close>

theorem interrupted_transfer_resumes_witness:
  "on_the_way (table_crates sample_frames) sample_store sample_signed_offer [1, 2, 3]
     (w_fs (rc_world (snd (receive_file (table_crates sample_frames) sample_incoming sample_signed_offer
        (sample_receiving [1, 2] (\<lambda>_. None))))))"
proof -
  let ?E = "table_crates sample_frames"
  let ?s = "sample_receiving [1, 2] (\<lambda>_. None)"
  have fs: "w_fs (rc_world ?s) = sample_inbox" "nt_input ?s = [1, 2]" and st: "ix_store sample_incoming = sample_store"
    by (simp_all add: sample_receiving_def sample_world_def sample_incoming_def)
  have "sessions ?E sample_incoming sample_signed_offer [1, 2, 3] sample_inbox
      (w_fs (rc_world (snd (receive_file ?E sample_incoming sample_signed_offer ?s))))"
    by (rule sessions.again) (use sessions.start in \<open>simp_all add: fs st fresh_missing [OF sample_inbox_fresh]\<close>)
  from interrupted_transfer_resumes [OF table_offer_of_data _ this] show ?thesis
    by (simp add: st sample_inbox_fresh sample_frames_def)
qed

theorem resumed_transfer_completes_witness:
  "\<exists>c s' answer. receive_file (table_crates sample_frames) sample_incoming sample_signed_offer
       (sample_receiving [1, 2, 3] (\<lambda>_. None)) = (Inr (), s') \<and> safe_name c \<and>
     holds (w_fs (rc_world s')) [''in'', c] [1, 2, 3] \<and> nt_finished s' \<and>
     nt_output s' = answer @ frame_of (table_crates sample_frames)
       (transfer_response_json (Complete (receipt_of (stored_offer_of sample_signed_offer))))"
proof -
  let ?E = "table_crates sample_frames"
  let ?s = "sample_receiving [1, 2, 3] (\<lambda>_. None)"
  have fs: "w_fs (rc_world ?s) = sample_inbox" "nt_input ?s = [1, 2, 3]" "nt_output ?s = []" "calm ?s"
    "clean (\<lambda>u. u = ''u'') (rc_world ?s)"
    and st: "ix_store sample_incoming = sample_store"
    by (simp_all add: sample_receiving_def sample_world_def sample_incoming_def calm_def clean_def)
  note ms = fresh_missing [OF sample_inbox_fresh]
  have fit: "fits ?E v" if "v \<in> set sample_frames" for v
    using table_crates_short [OF that] by (simp add: fits_def MAX_CONTROL_FRAME_def)
  have none: "lookup sample_inbox (sample_state_dir @ [c]) = None" for c
    by (rule sample_inbox_lookup(3)) (simp add: sample_state_dir_def)
  have "length sample_inbox < u32_max - 1" by (simp add: sample_inbox_def u32_max_def)
  then have room: "room sample_store sample_signed_offer (\<lambda>u. u = ''u'') sample_inbox"
    using candidates_free [of sample_inbox "[''in'']"]
    by (simp add: room_def dest_def sample_temps none)
  have temp: "lookup sample_inbox (temp_path (sp_metadata (paths_of sample_store sample_signed_offer)) u) = None" for u
    unfolding sample_paths temp_path_def with_extension_snoc by (simp add: none)
  have "undisturbed ?E sample_incoming sample_signed_offer [1, 2, 3] ?s"
    using fs room temp ms fit [of "transfer_response_json (Resume 0)"]
      fit [of "transfer_response_json (Complete (receipt_of (stored_offer_of sample_signed_offer)))"]
    by (auto simp: undisturbed_def Let_def st sample_frames_def)
  from resumed_transfer_completes [OF table_offer_of_data _ _ this, of sample_inbox] show ?thesis
    by (simp add: st sample_inbox_fresh sample_frames_def fs sessions.start dest_def)
qed

end
