(* ===== verification/Send.thy ===== *)
theory Send
  imports Receive
begin

text \<open>
  The sending end of a transfer: \<open>send_file\<close> and \<open>send_folder_stream\<close> (\<open>transport.rs\<close>) and the scan
  of a folder (\<open>folder.rs\<close>). The sender only reads its disk, but other programs may change it at
  any time: the disk is a tree for every step of the run. The loop over the directories of a
  scan is bounded by the limit on entries, which every directory below the root counts for.
\<close>

record sending = net +
  sd_disk :: "nat \<Rightarrow> fs"
  sd_disk_fault :: "nat \<Rightarrow> string option"
  sd_progress :: "transfer_progress list"

definition disk_call :: "(fs \<Rightarrow> io_kind + 'a \<times> fs) \<Rightarrow> (sending, 'a) action" where
  "disk_call f = (\<lambda>s.
     let n = nt_step s; s' = s\<lparr>nt_step := Suc n\<rparr> in
     case sd_disk_fault s n of
       Some k \<Rightarrow> (Inl (Io (OtherIo k)), s')
     | None \<Rightarrow> (case f (sd_disk s n) of Inl k \<Rightarrow> (Inl (Io k), s') | Inr (x, _) \<Rightarrow> (Inr x, s')))"

text \<open>A call inside \<open>select!\<close>, or after \<open>check_cancelled\<close>.\<close>

definition cancellable :: "(sending, 'a) action \<Rightarrow> (sending, 'a) action" where
  "cancellable m = net_call gate_fault m"

definition sys_open_read :: "path \<Rightarrow> fs \<Rightarrow> io_kind + path \<times> fs" where
  "sys_open_read p fs = at_path (resolve_all fs p) fs (\<lambda>q.
     case lookup fs q of None \<Rightarrow> Inl NotFound | Some _ \<Rightarrow> Inr (q, fs))"

text \<open>\<open>read\<close> on an open file at a position: at most \<open>n\<close> bytes, none at the end of the file.\<close>

definition sys_read_at :: "path \<Rightarrow> nat \<Rightarrow> nat \<Rightarrow> fs \<Rightarrow> io_kind + bytes \<times> fs" where
  "sys_read_at h pos n fs =
     (case lookup fs h of
        Some (FileN d _) \<Rightarrow> Inr (take n (drop pos d), fs)
      | Some _ \<Rightarrow> Inl is_a_directory
      | None \<Rightarrow> Inr ([], fs))"

definition disk_read :: "path \<Rightarrow> nat \<Rightarrow> nat \<Rightarrow> (sending, bytes) action" where
  "disk_read h pos wanted = (\<lambda>s.
     disk_call (sys_read_at h pos (max 1 (min wanted (nt_chunk s (nt_step s))))) s)"

definition send_progress :: "transfer_offer \<Rightarrow> nat \<Rightarrow> (sending, unit) action" where
  "send_progress offer n = (\<lambda>s. (Inr (), s\<lparr>sd_progress := sd_progress s @ [progress_of offer n]\<rparr>))"

definition metadata_modified_ms :: "node \<Rightarrow> int" where
  "metadata_modified_ms m = min (max 0 (node_mtime m)) (2 ^ 63 - 1)"

definition source_filename :: "path \<Rightarrow> string result" where
  "source_filename p =
     (if p = [] \<or> last p = ''..'' \<or> last p = [] then
        Inl (InvalidTransfer ''source path has no UTF-8 filename'')
      else Inr (last p))"

definition validate_receipt :: "transfer_offer \<Rightarrow> transfer_receipt \<Rightarrow> unit result" where
  "validate_receipt offer receipt =
     reject_if (tr_transfer_id receipt \<noteq> to_transfer_id offer \<or> tr_size receipt \<noteq> to_size offer \<or>
                tr_blake3 receipt \<noteq> to_blake3 offer)
       (Protocol ''receiver returned a mismatched completion receipt'') (Inr ())"

definition source_digest :: "crates \<Rightarrow> path \<Rightarrow> (sending, bytes) action" where
  "source_digest E p =
     io_bind (cancellable (disk_call (sys_read p))) (\<lambda>d. io_ret (blake3_hash E d))"

section \<open>The scan of a folder\<close>

record folder_source =
  fo_manifest :: folder_manifest
  fo_files :: "path list"

type_synonym scanned_entry = "folder_entry \<times> path option"

definition scan_limit :: "scanned_entry list \<Rightarrow> (sending, 'a) action \<Rightarrow> (sending, 'a) action" where
  "scan_limit scanned k =
     io_reject_if (MAX_FOLDER_ENTRIES < length scanned)
       (InvalidTransfer ''folder contains too many entries'') k"

definition scan_file :: "crates \<Rightarrow> path \<Rightarrow> string \<Rightarrow> node \<Rightarrow> (sending, folder_entry) action" where
  "scan_file E source relative metadata =
     io_bind (cancellable (disk_call (sys_read source))) (\<lambda>data.
     io_bind (disk_call (sys_symlink_metadata source)) (\<lambda>current.
     io_reject_if (is_symlink current \<or> \<not> is_file current \<or> node_len current \<noteq> node_len metadata \<or>
                   length data \<noteq> node_len metadata)
       (InvalidTransfer (''source file changed while scanning: '' @ relative))
     (io_ret \<lparr>fe_path = relative, fe_kind = FileEntry, fe_size = node_len metadata,
              fe_modified_ms = metadata_modified_ms metadata,
              fe_blake3 = hex_encode E (blake3_hash E data)\<rparr>)))"

fun scan_names ::
  "crates \<Rightarrow> path \<Rightarrow> string \<Rightarrow> string list \<Rightarrow> scanned_entry list \<Rightarrow> (path \<times> string) list \<Rightarrow>
     (sending, scanned_entry list \<times> (path \<times> string) list) action" where
  "scan_names E directory parent [] scanned directories = io_ret (scanned, directories)"
| "scan_names E directory parent (name # names) scanned directories =
     (let relative = child_relative parent name; source = directory @ [name] in
      io_then (cancellable (io_lift (validate_folder_relative_path relative)))
      (io_bind (disk_call (sys_symlink_metadata source)) (\<lambda>metadata.
       io_reject_if (is_symlink metadata)
         (InvalidTransfer (''folder contains a symbolic link: '' @ relative))
       (if is_dir metadata then
          let scanned' = scanned @ [(\<lparr>fe_path = relative, fe_kind = DirectoryEntry, fe_size = 0,
                 fe_modified_ms = metadata_modified_ms metadata, fe_blake3 = []\<rparr>, None)] in
          scan_limit scanned' (scan_names E directory parent names scanned' ((source, relative) # directories))
        else if is_file metadata then
          io_bind (scan_file E source relative metadata) (\<lambda>entry.
          let scanned' = scanned @ [(entry, Some source)] in
          scan_limit scanned' (scan_names E directory parent names scanned' directories))
        else io_throw (InvalidTransfer (''folder contains a special file: '' @ relative))))))"

fun scan_directories ::
  "crates \<Rightarrow> nat \<Rightarrow> scanned_entry list \<Rightarrow> (path \<times> string) list \<Rightarrow> (sending, scanned_entry list) action" where
  "scan_directories E fuel scanned [] = io_ret scanned"
| "scan_directories E 0 scanned (d # directories) =
     io_throw (InvalidTransfer ''folder contains too many entries'')"
| "scan_directories E (Suc fuel) scanned ((directory, parent) # directories) =
     io_bind (cancellable (disk_call (sys_read_dir directory))) (\<lambda>names.
     io_bind (scan_names E directory parent names scanned directories)
       (\<lambda>(scanned', directories'). scan_directories E fuel scanned' directories'))"

definition scan_folder :: "crates \<Rightarrow> path \<Rightarrow> (sending, folder_source) action" where
  "scan_folder E root =
     io_bind (cancellable (disk_call (sys_symlink_metadata root))) (\<lambda>root_metadata.
     io_reject_if (is_symlink root_metadata \<or> \<not> is_dir root_metadata)
       (InvalidTransfer ''source path is not a regular directory'')
     (io_bind (scan_directories E (Suc (Suc MAX_FOLDER_ENTRIES)) [] [(root, [])]) (\<lambda>scanned.
      let sorted = sort_key (\<lambda>e. fe_path (fst e)) scanned;
          m = \<lparr>fm_version = 1, fm_entries = map fst sorted\<rparr> in
      io_bind (io_lift (validate_manifest E m)) (\<lambda>_.
      io_ret \<lparr>fo_manifest = m, fo_files = List.map_filter snd sorted\<rparr>))))"

section \<open>Sending a file\<close>

fun send_loop :: "core_error \<Rightarrow> path \<Rightarrow> nat \<Rightarrow> (nat \<Rightarrow> (sending, unit) action) \<Rightarrow> nat \<Rightarrow> nat \<Rightarrow> (sending, nat) action" where
  "send_loop changed h file_size report 0 sent = io_ret sent"
| "send_loop changed h file_size report (Suc missing) sent =
     (if file_size \<le> sent then io_ret sent
      else
        io_bind (cancellable (disk_read h sent (min (file_size - sent) TRANSFER_BUFFER_SIZE))) (\<lambda>data.
        io_reject_if (data = []) changed
        (io_then (net_write write_fault data)
        (io_then (report (sent + length data))
        (send_loop changed h file_size report missing (sent + length data))))))"

text \<open>A file from an offset on, and the check that nothing follows its declared size.\<close>

definition send_content ::
  "core_error \<Rightarrow> core_error \<Rightarrow> path \<Rightarrow> nat \<Rightarrow> (nat \<Rightarrow> (sending, unit) action) \<Rightarrow> nat \<Rightarrow> (sending, unit) action" where
  "send_content changed grew h file_size report offset =
     io_bind (send_loop changed h file_size report (file_size - offset) offset) (\<lambda>_.
     io_bind (disk_read h file_size 1) (\<lambda>extra.
     io_reject_if (extra \<noteq> []) grew (io_ret ())))"

text \<open>The answer to the finished stream.\<close>

definition receive_completion :: "crates \<Rightarrow> bool \<Rightarrow> transfer_offer \<Rightarrow> (sending, transfer_receipt) action" where
  "receive_completion E folder offer =
     io_then (net_finish finish_fault)
     (io_bind (read_application_frame E as_transfer_response) (\<lambda>response.
      case response of
        Complete receipt \<Rightarrow> io_then (io_lift (validate_receipt offer receipt)) (io_ret receipt)
      | Rejected reason \<Rightarrow> io_throw (Protocol (''receiver rejected transfer: '' @ reason))
      | Resume _ \<Rightarrow> io_throw (Protocol ''receiver returned a duplicate resume response'')
      | FolderResume _ _ _ \<Rightarrow>
          io_throw (Protocol (if folder then ''receiver returned a duplicate resume response''
                              else ''receiver returned a folder resume response for a file''))))"

definition send_from :: "crates \<Rightarrow> path \<Rightarrow> transfer_offer \<Rightarrow> nat \<Rightarrow> (sending, transfer_receipt) action" where
  "send_from E source offer offset =
     io_bind (cancellable (disk_call (sys_open_read source))) (\<lambda>h.
     io_then (cancellable (io_ret ()))
     (io_then (send_progress offer offset)
     (io_then
       (send_content (InvalidTransfer ''source file changed while it was being sent'')
          (InvalidTransfer ''source file grew while sending'') h (to_size offer) (send_progress offer) offset)
     (receive_completion E False offer))))"

definition send_file_stream ::
  "crates \<Rightarrow> path \<Rightarrow> transfer_offer \<Rightarrow> transfer_response \<Rightarrow> (sending, transfer_receipt) action" where
  "send_file_stream E source offer response =
     (case response of
        Resume offset \<Rightarrow>
          if offset \<le> to_size offer then send_from E source offer offset
          else io_throw (Protocol ''receiver returned an invalid resume offset'')
      | Complete receipt \<Rightarrow> io_then (io_lift (validate_receipt offer receipt)) (io_ret receipt)
      | Rejected reason \<Rightarrow> io_throw (Protocol (''receiver rejected transfer: '' @ reason))
      | FolderResume _ _ _ \<Rightarrow>
          io_throw (Protocol ''receiver returned a folder resume response for a file''))"

section \<open>Sending a folder\<close>

text \<open>The sizes of the files before the checkpoint, added with overflow checks.\<close>

fun checked_sum :: "nat \<Rightarrow> nat list \<Rightarrow> nat option" where
  "checked_sum acc [] = Some acc"
| "checked_sum acc (n # ns) = Option.bind (checked_add_u64 acc n) (\<lambda>acc'. checked_sum acc' ns)"

definition check_checkpoint :: "folder_entry list \<Rightarrow> nat \<Rightarrow> nat \<Rightarrow> nat \<Rightarrow> unit result" where
  "check_checkpoint entries file_index offset completed =
     reject_if (length entries < file_index)
       (Protocol ''receiver returned an invalid folder file index'')
     (bind_r (ok_or (checked_sum 0 (map fe_size (take file_index entries)))
        (Protocol ''folder resume size overflow'')) (\<lambda>expected_completed.
      reject_if (completed \<noteq> expected_completed \<or> (file_index = length entries \<and> offset \<noteq> 0) \<or>
                 (file_index < length entries \<and> fe_size (entries ! file_index) < offset))
        (Protocol ''receiver returned an inconsistent folder checkpoint'') (Inr ())))"

fun send_entries ::
  "transfer_offer \<Rightarrow> (folder_entry \<times> path) list \<Rightarrow> nat \<Rightarrow> nat \<Rightarrow> (sending, nat) action" where
  "send_entries offer [] offset sent = io_ret sent"
| "send_entries offer ((entry, source) # rest) offset sent =
     io_bind (cancellable (disk_call (sys_symlink_metadata source))) (\<lambda>metadata.
     io_reject_if (is_symlink metadata \<or> \<not> is_file metadata \<or> node_len metadata \<noteq> fe_size entry)
       (InvalidTransfer (''source file changed while sending folder: '' @ fe_path entry))
     (io_bind (cancellable (disk_call (sys_open_read source))) (\<lambda>h.
      io_then (cancellable (io_ret ()))
      (io_then
        (send_content (InvalidTransfer (''source file changed while sending folder: '' @ fe_path entry))
           (InvalidTransfer (''source file grew while sending folder: '' @ fe_path entry)) h (fe_size entry)
           (\<lambda>file_sent. send_progress offer (sent + (file_sent - offset))) offset)
      (send_entries offer rest 0 (sent + (fe_size entry - offset)))))))"

definition send_folder_stream ::
  "crates \<Rightarrow> folder_source \<Rightarrow> transfer_offer \<Rightarrow> transfer_response \<Rightarrow> (sending, transfer_receipt) action" where
  "send_folder_stream E folder offer response =
     (let entries = file_entries (fo_manifest folder) in
      io_reject_if (length entries \<noteq> length (fo_files folder))
        (InvalidTransfer ''folder source no longer matches its manifest'')
      (case response of
         FolderResume file_index offset completed \<Rightarrow>
           io_then (io_lift (check_checkpoint entries file_index offset completed))
           (io_bind (io_lift (ok_or (checked_add_u64 completed offset)
                       (Protocol ''folder progress overflow''))) (\<lambda>sent.
            io_then (send_progress offer sent)
            (io_then (send_entries offer (drop file_index (zip entries (fo_files folder))) offset sent)
            (receive_completion E True offer))))
       | Complete receipt \<Rightarrow> io_then (io_lift (validate_receipt offer receipt)) (io_ret receipt)
       | Rejected reason \<Rightarrow> io_throw (Protocol (''receiver rejected transfer: '' @ reason))
       | Resume _ \<Rightarrow> io_throw (Protocol ''receiver returned a file resume response for a folder'')))"

section \<open>The whole of \<open>send_file\<close>\<close>

datatype outbound_payload = FilePayload path | FolderPayload folder_source

definition outbound ::
  "crates \<Rightarrow> device_identity \<Rightarrow> string \<Rightarrow> path \<Rightarrow> node \<Rightarrow> (sending, transfer_offer \<times> outbound_payload) action" where
  "outbound E identity transfer_id source metadata =
     (let modified_ms = metadata_modified_ms metadata; sender = identity_summary E identity in
      if is_file metadata then
        io_bind (source_digest E source) (\<lambda>digest.
        io_bind (io_lift (source_filename source)) (\<lambda>filename.
        io_ret (offer_new E transfer_id filename (node_len metadata) modified_ms digest sender,
                FilePayload source)))
      else if is_dir metadata then
        io_bind (scan_folder E source) (\<lambda>folder.
        io_bind (io_lift (validate_manifest E (fo_manifest folder))) (\<lambda>file_size.
        io_bind (io_lift (manifest_digest E (fo_manifest folder))) (\<lambda>digest.
        io_bind (io_lift (source_filename source)) (\<lambda>filename.
        io_ret ((offer_new E transfer_id filename file_size modified_ms digest sender)\<lparr>to_kind := FolderV1\<rparr>,
                FolderPayload folder)))))
      else io_throw (InvalidTransfer ''source path is not a regular file or directory''))"

definition send_file ::
  "crates \<Rightarrow> device_identity \<Rightarrow> string \<Rightarrow> string \<Rightarrow> path \<Rightarrow> (sending, transfer_receipt) action" where
  "send_file E identity transfer_id shared_secret source =
     io_bind (cancellable (disk_call (sys_symlink_metadata source))) (\<lambda>metadata.
     io_reject_if (is_symlink metadata) (InvalidTransfer ''source path is a symbolic link'')
     (io_bind (outbound E identity transfer_id source metadata) (\<lambda>(unsigned_offer, payload).
      let offer = unsigned_offer\<lparr>to_signature :=
                    sign_base64 E identity (offer_signing_bytes E unsigned_offer)\<rparr> in
      io_then (io_lift (offer_validate E offer))
      (io_then (write_authenticated_request E (transfer_offer_json offer) shared_secret)
      (io_then
        (case payload of
           FolderPayload folder \<Rightarrow>
             io_bind (io_lift (write_manifest_frame E (fo_manifest folder))) (net_write application_fault)
         | FilePayload _ \<Rightarrow> io_ret ())
      (io_bind (read_application_frame E as_transfer_response) (\<lambda>response.
       case payload of
         FolderPayload folder \<Rightarrow> send_folder_stream E folder offer response
       | FilePayload p \<Rightarrow> send_file_stream E p offer response)))))))"

end
