(* ===== verification/Exchange.thy ===== *)
theory Exchange
  imports Sessions Send
begin

text \<open>
  Both ends of a transfer together. The network carries what one end writes to the other end; a
  transfer of a file is then a pair of runs, of \<open>send_file\<close> and of \<open>handle_stream\<close>, each of which
  reads what the other one writes. The first part is what a \<open>serde_json::Value\<close> keeps of a
  structure, then come the two ends, and last the pair.
\<close>

section \<open>Structures read through a value\<close>

lemma as_value_kind [simp]: "as_value (transfer_kind_json k) = transfer_kind_json k"
  by (cases k) simp_all

lemma as_device_summary_value [simp]: "as_device_summary (as_value (device_summary_json d)) = Inr d"
  by (simp add: as_device_summary_def device_summary_json_def result_simps)

lemma as_transfer_offer_value:
  assumes "transfer_offer_range t"
  shows "as_transfer_offer (as_value (transfer_offer_json t)) = Inr t"
  using assms
  by (simp add: as_transfer_offer_def transfer_offer_json_def signable_offer_fields_def transfer_offer_range_def
      in_i64_def str_unless_empty_def)

lemma as_challenge_value:
  "ac_protocol c \<le> u16_max \<Longrightarrow> as_challenge (as_value (challenge_json c)) = Inr c"
  by (simp add: as_challenge_def challenge_json_def)

lemma as_transfer_receipt_value [simp]:
  "tr_size r \<le> u64_max \<Longrightarrow> as_transfer_receipt (as_value (transfer_receipt_json r)) = Inr r"
  by (simp add: as_transfer_receipt_def transfer_receipt_json_def)

lemma as_transfer_response_value:
  "transfer_response_range r \<Longrightarrow> as_transfer_response (as_value (transfer_response_json r)) = Inr r"
  by (cases r) (simp_all add: as_transfer_response_def)

lemma frame_types [simp]:
  "frame_type (as_value (challenge_json c)) = Some (ac_type c)"
  "frame_type (as_value (transfer_response_json r)) = None"
  "frame_type (as_value (transfer_offer_json t)) = None"
  by (simp_all add: frame_type_def challenge_json_def transfer_offer_json_def signable_offer_fields_def
      value_get_def value_as_str_def str_unless_empty_def)
    (cases r; simp)

section \<open>The authentication exchange\<close>

lemma calm_net_call [simp]: "calm s \<Longrightarrow> net_call meaning call s = call (s\<lparr>nt_step := Suc (nt_step s)\<rparr>)"
  by (simp add: net_call_def calm_def Let_def)

lemma calm_updates [simp]:
  "calm (s\<lparr>nt_step := n\<rparr>) = calm s" "calm (s\<lparr>nt_input := bs\<rparr>) = calm s"
  "calm (s\<lparr>nt_output := bs\<rparr>) = calm s" "calm (s\<lparr>nt_finished := b\<rparr>) = calm s"
  by (simp_all add: calm_def)

text \<open>The documented behaviour of the crates that both ends rely on.\<close>

definition crates_correct :: "crates \<Rightarrow> bool" where
  "crates_correct E \<longleftrightarrow> json_roundtrip E \<and> json_nonempty E \<and> base64_roundtrip E \<and> hex_roundtrip E \<and>
     hex_lower E \<and> blake3_sizes E \<and> ed25519_correct E \<and> uuid_plain E"

lemma frame_of_ok:
  "crates_correct E \<Longrightarrow> fits E v \<Longrightarrow> write_frame E v = Inr (frame_of E v)"
  "crates_correct E \<Longrightarrow> fits E v \<Longrightarrow> decode v = Inr x \<Longrightarrow> read_frame E decode (frame_of E v @ rest) = Inr (x, rest)"
proof -
  assume a: "crates_correct E" "fits E v"
  show w: "write_frame E v = Inr (frame_of E v)"
    using a by (simp add: write_frame_def fits_def frame_of_def)
  show "read_frame E decode (frame_of E v @ rest) = Inr (x, rest)" if "decode v = Inr x"
    by (rule read_write_frame [OF _ _ w]) (use a that in \<open>simp_all add: crates_correct_def\<close>)
qed

lemma recv_frame_run:
  assumes "crates_correct E" "calm s" "fits E v" "decode v = Inr x" "nt_input s = frame_of E v @ rest"
  shows "recv_frame E meaning decode s = (Inr x, s\<lparr>nt_step := Suc (nt_step s), nt_input := rest\<rparr>)"
  using frame_of_ok(2) [where decode = decode, OF assms(1,3,4)] assms(2,5) by (simp add: recv_frame_def net_decode_def)

lemma send_frame_run:
  assumes "crates_correct E" "calm s" "fits E v"
  shows "send_frame E meaning v s =
    (Inr (), s\<lparr>nt_step := Suc (nt_step s), nt_output := nt_output s @ frame_of E v\<rparr>)"
  using frame_of_ok(1) [OF assms(1,3)] assms(2)
  by (simp add: send_frame_def net_write_def io_bind_def io_match_def io_lift_def)

lemma as_hello_json: "ah_protocol h \<le> u16_max \<Longrightarrow> as_hello (hello_json h) = Inr h"
  by (simp add: as_hello_def hello_json_def field_def)

lemma as_request_json:
  "ar_protocol r \<le> u16_max \<Longrightarrow> as_request (request_json r) = Inr (r\<lparr>ar_payload := as_value (ar_payload r)\<rparr>)"
  by (simp add: as_request_def request_json_def field_def)

text \<open>The messages of one exchange: the hello, the challenge that answers it, and the request.\<close>

definition challenge_of :: "crates \<Rightarrow> bytes \<Rightarrow> bytes \<Rightarrow> authentication_challenge" where
  "challenge_of E client server =
     \<lparr>ac_type = AUTH_CHALLENGE_TYPE, ac_protocol = QUIC_PROTOCOL_VERSION,
      ac_client_nonce = hex_encode E client, ac_nonce = hex_encode E server\<rparr>"

definition request_of :: "crates \<Rightarrow> bytes \<Rightarrow> bytes \<Rightarrow> jvalue \<Rightarrow> string \<Rightarrow> authenticated_request" where
  "request_of E client server payload secret =
     \<lparr>ar_type = AUTHENTICATED_REQUEST_TYPE, ar_protocol = QUIC_PROTOCOL_VERSION,
      ar_client_nonce = hex_encode E client, ar_challenge = hex_encode E server, ar_payload = payload,
      ar_mac = hex_encode E (authentication_mac E QUIC_PROTOCOL_VERSION (hex_encode E client)
                 (hex_encode E server) payload secret)\<rparr>"

lemma exchange_facts:
  assumes "crates_correct E" "length client = AUTH_NONCE_BYTES" "length server = AUTH_NONCE_BYTES"
  shows "hello_validate (hello_new E client) = Inr ()"
    "challenge_new E server (hello_new E client) = Inr (challenge_of E client server)"
    "challenge_validate (challenge_of E client server) = Inr ()"
    "challenge_validate_for (challenge_of E client server) (hello_new E client) = Inr ()"
    "request_new E (challenge_of E client server) payload secret = Inr (request_of E client server payload secret)"
    "authenticate E (request_of E client server payload secret) (challenge_of E client server) secret = Inr payload"
proof -
  have nonce: "valid_hex_nonce (hex_encode E n) AUTH_NONCE_BYTES" if "length n = AUTH_NONCE_BYTES" for n
    using assms(1) that by (simp add: valid_hex_nonce_def crates_correct_def hex_lower_def)
  show h: "hello_validate (hello_new E client) = Inr ()"
    using nonce [OF assms(2)] by (simp add: hello_validate_def hello_new_def)
  then show "challenge_new E server (hello_new E client) = Inr (challenge_of E client server)"
    by (simp add: challenge_new_def challenge_of_def hello_new_def)
  show c: "challenge_validate (challenge_of E client server) = Inr ()"
    using nonce assms(2,3) by (simp add: challenge_validate_def challenge_of_def)
  show "challenge_validate_for (challenge_of E client server) (hello_new E client) = Inr ()"
    using h nonce assms(2,3) by (simp add: challenge_validate_for_def challenge_of_def hello_new_def)
  show "request_new E (challenge_of E client server) payload secret = Inr (request_of E client server payload secret)"
    using c by (simp add: request_new_def) (simp add: challenge_of_def request_of_def)
  have "blake3_sizes E" "hex_roundtrip E" using assms(1) by (simp_all add: crates_correct_def)
  then show "authenticate E (request_of E client server payload secret) (challenge_of E client server) secret = Inr payload"
    using c by (simp add: authenticate_Inr_iff hex_roundtrip_def) (simp add: challenge_of_def request_of_def)
qed

definition exchange_fits :: "crates \<Rightarrow> bytes \<Rightarrow> bytes \<Rightarrow> jvalue \<Rightarrow> string \<Rightarrow> bool" where
  "exchange_fits E client server payload secret \<longleftrightarrow>
     fits E (hello_json (hello_new E client)) \<and> fits E (challenge_json (challenge_of E client server)) \<and>
     fits E (request_json (request_of E client server payload secret))"

text \<open>The server side of the exchange.\<close>

lemma server_exchange_run:
  assumes E: "crates_correct E" and calm: "calm s" and fit: "exchange_fits E client server payload secret"
    and nonces: "length client = AUTH_NONCE_BYTES" "length server = AUTH_NONCE_BYTES"
    and random: "nt_random s (Suc (nt_step s)) = server" and payload: "as_value payload = payload"
    and input: "nt_input s = frame_of E (hello_json (hello_new E client)) @
      frame_of E (request_json (request_of E client server payload secret)) @ rest"
  shows "authenticate_incoming_request E secret s = (Inr payload,
    s\<lparr>nt_step := nt_step s + 4, nt_input := rest,
      nt_output := nt_output s @ frame_of E (challenge_json (challenge_of E client server))\<rparr>)"
proof -
  have fits: "fits E (hello_json (hello_new E client))" "fits E (challenge_json (challenge_of E client server))"
    "fits E (request_json (request_of E client server payload secret))"
    using fit by (simp_all add: exchange_fits_def)
  have hello: "as_hello (hello_json (hello_new E client)) = Inr (hello_new E client)"
    by (rule as_hello_json) (simp add: hello_new_def QUIC_PROTOCOL_VERSION_def u16_max_def)
  have request: "as_request (request_json (request_of E client server payload secret)) =
      Inr (request_of E client server payload secret)"
    by (subst as_request_json) (simp_all add: request_of_def payload QUIC_PROTOCOL_VERSION_def u16_max_def)
  have first: "recv_frame E exchange_fault as_hello s = (Inr (hello_new E client), s\<lparr>nt_step := Suc (nt_step s),
      nt_input := frame_of E (request_json (request_of E client server payload secret)) @ rest\<rparr>)"
    by (rule recv_frame_run [where decode = as_hello, OF E calm fits(1) hello input])
  show ?thesis
    unfolding authenticate_incoming_request_def
    using exchange_facts [OF E nonces] calm
    by (simp add: io_bind_def io_then_def io_match_def io_lift_def io_throw_def first net_random_def random
        send_frame_run [OF E _ fits(2)] recv_frame_run [where decode = as_request, OF E _ fits(3) request])
qed

text \<open>The client side.\<close>

lemma client_exchange_run:
  assumes E: "crates_correct E" and calm: "calm s" and fit: "exchange_fits E client server (as_value payload) secret"
    and nonces: "length client = AUTH_NONCE_BYTES" "length server = AUTH_NONCE_BYTES"
    and random: "nt_random s (nt_step s) = client"
    and input: "nt_input s = frame_of E (challenge_json (challenge_of E client server)) @ rest"
  shows "write_authenticated_request E payload secret s = (Inr (),
    s\<lparr>nt_step := nt_step s + 4, nt_input := rest,
      nt_output := nt_output s @ frame_of E (hello_json (hello_new E client)) @
        frame_of E (request_json (request_of E client server (as_value payload) secret))\<rparr>)"
proof -
  have fits: "fits E (hello_json (hello_new E client))" "fits E (challenge_json (challenge_of E client server))"
    "fits E (request_json (request_of E client server (as_value payload) secret))"
    using fit by (simp_all add: exchange_fits_def)
  have read: "recv_frame E exchange_fault (\<lambda>v. Inr (as_value v)) (s\<lparr>nt_step := n, nt_output := bs\<rparr>) =
     (Inr (as_value (challenge_json (challenge_of E client server))),
      s\<lparr>nt_step := Suc n, nt_output := bs, nt_input := rest\<rparr>)" for n bs
    by (subst recv_frame_run [where decode = "\<lambda>v. Inr (as_value v)" and rest = rest, OF E _ fits(2) refl])
       (use calm input in simp_all)
  have challenge: "as_challenge (as_value (challenge_json (challenge_of E client server))) =
      Inr (challenge_of E client server)"
    by (rule as_challenge_value) (simp add: challenge_of_def QUIC_PROTOCOL_VERSION_def u16_max_def)
  have other: "ac_type (challenge_of E client server) \<noteq> AUTH_REJECTED_TYPE"
    by (simp add: challenge_of_def AUTH_CHALLENGE_TYPE_def AUTH_REJECTED_TYPE_def)
  show ?thesis
    unfolding write_authenticated_request_def Let_def
    using exchange_facts [OF E nonces] calm
    by (simp add: io_bind_def io_then_def io_match_def io_lift_def io_throw_def net_random_def random
        reject_if_rejected_def other challenge send_frame_run [OF E _ fits(1)] send_frame_run [OF E _ fits(3)] read)
qed

section \<open>The receiving end\<close>

text \<open>A receiver with nothing of the file yet, and room for it, on a network and disk without faults.\<close>

definition receiver_ready :: "crates \<Rightarrow> incoming_context \<Rightarrow> transfer_offer \<Rightarrow> receiving \<Rightarrow> bool" where
  "receiver_ready E ctx offer s \<longleftrightarrow>
     (let st = ix_store ctx; fs = w_fs (rc_world s) in
      calm s \<and> fresh E st offer fs \<and>
      (\<exists>U. clean U (rc_world s) \<and> room st offer U fs \<and>
        (\<forall>u. U u \<longrightarrow> lookup fs (temp_path (sp_metadata (paths_of st offer)) u) = None)))"

definition answers_fit :: "crates \<Rightarrow> transfer_offer \<Rightarrow> bool" where
  "answers_fit E offer \<longleftrightarrow> fits E (transfer_response_json (Resume 0)) \<and>
     fits E (transfer_response_json (Complete (receipt_of (stored_offer_of offer))))"

lemma receive_fresh_run:
  assumes od: "offer_of_data E offer data" and ready: "receiver_ready E ctx offer s"
    and fit: "answers_fit E offer" and input: "nt_input s = data"
  shows "\<exists>c s'. receive_file E ctx offer s = (Inr (), s') \<and>
     delivered_ok E (ix_store ctx) offer data c (w_fs (rc_world s')) \<and>
     nt_output s' = nt_output s @ frame_of E (transfer_response_json (Resume 0)) @
       frame_of E (transfer_response_json (Complete (receipt_of (stored_offer_of offer))))"
proof -
  let ?st = "ix_store ctx" and ?fs = "w_fs (rc_world s)"
  have fresh: "fresh E ?st offer ?fs" and calm: "calm s"
    using ready by (simp_all add: receiver_ready_def Let_def)
  note none = fresh_missing [OF fresh]
  have not_durable: "\<not> durable E ?st offer data ?fs"
    using fresh by (auto simp: fresh_def Let_def durable_def received_def committed_def delivered_def holds_def)
  obtain U where U: "clean U (rc_world s)" "room ?st offer U ?fs"
      "\<forall>u. U u \<longrightarrow> lookup ?fs (temp_path (sp_metadata (paths_of ?st offer)) u) = None"
    using ready by (auto simp: receiver_ready_def Let_def)
  have room: "room_to_receive (clean U) ?st offer ?fs"
    using U by (auto simp: room_to_receive_def room_to_start_def room_for_def room_def dest: may_draw_clean)
  have "post (receive_file E ctx offer) s (\<lambda>r s'. r = Inr () \<and>
      (\<exists>c. delivered_ok E ?st offer data c (w_fs (rc_world s')) \<and>
         nt_output s' = nt_output s @ frame_of E (transfer_response_json (Resume 0)) @
           frame_of E (transfer_response_json (Complete (receipt_of (stored_offer_of offer))))))"
    by (rule no_fault.receive_file_rule [OF od on_the_way_intros(1) [OF fresh] U(1)])
       (use calm fit room input none not_durable in \<open>auto simp: troubled_def answers_fit_def\<close>)
  then show ?thesis by (cases "receive_file E ctx offer s") (auto simp: post_def)
qed

lemma server_run:
  assumes E: "crates_correct E" and od: "offer_of_data E offer data" and ready: "receiver_ready E ctx offer s"
    and fit: "answers_fit E offer" "exchange_fits E client server (as_value (transfer_offer_json offer)) (ix_shared_secret ctx)"
    and nonces: "length client = AUTH_NONCE_BYTES" "length server = AUTH_NONCE_BYTES"
    and random: "nt_random s (Suc (nt_step s)) = server"
    and input: "nt_input s = frame_of E (hello_json (hello_new E client)) @
      frame_of E (request_json (request_of E client server (as_value (transfer_offer_json offer)) (ix_shared_secret ctx))) @ data"
  shows "\<exists>c s'. handle_stream E ctx s = (Inr (), s') \<and>
     delivered_ok E (ix_store ctx) offer data c (w_fs (rc_world s')) \<and>
     nt_output s' = nt_output s @ frame_of E (challenge_json (challenge_of E client server)) @
       frame_of E (transfer_response_json (Resume 0)) @
       frame_of E (transfer_response_json (Complete (receipt_of (stored_offer_of offer))))"
proof -
  let ?s = "s\<lparr>nt_step := nt_step s + 4, nt_input := data,
      nt_output := nt_output s @ frame_of E (challenge_json (challenge_of E client server))\<rparr>"
  have auth: "authenticate_incoming_request E (ix_shared_secret ctx) s = (Inr (as_value (transfer_offer_json offer)), ?s)"
    by (rule server_exchange_run [OF E _ fit(2) nonces random _ input])
       (use ready in \<open>simp_all add: receiver_ready_def Let_def\<close>)
  have offer: "as_transfer_offer (as_value (transfer_offer_json offer)) = Inr offer" "offer_validate E offer = Inr ()"
    "to_kind offer = FileTransfer"
    using od as_transfer_offer_value [of offer] by (simp_all add: offer_of_data_def)
  have "handle_stream E ctx s = receive_file E ctx offer ?s"
    by (simp add: handle_stream_def handle_offer_def or_reject_def io_match_def io_bind_def io_lift_def auth offer)
  moreover have "receiver_ready E ctx offer ?s" using ready by (simp add: receiver_ready_def Let_def)
  from receive_fresh_run [OF od this fit(1)] have "\<exists>c s'. receive_file E ctx offer ?s = (Inr (), s') \<and>
     delivered_ok E (ix_store ctx) offer data c (w_fs (rc_world s')) \<and>
     nt_output s' = nt_output ?s @ frame_of E (transfer_response_json (Resume 0)) @
       frame_of E (transfer_response_json (Complete (receipt_of (stored_offer_of offer))))" by simp
  ultimately show ?thesis by auto
qed

section \<open>The sending end\<close>

text \<open>A sender whose file does not change while it is sent, on a network and disk without faults.\<close>

definition sender_ready :: "path \<Rightarrow> node \<Rightarrow> sending \<Rightarrow> bool" where
  "sender_ready source node s \<longleftrightarrow>
     calm s \<and> sd_disk_fault s = (\<lambda>_. None) \<and>
     (\<forall>n. plain_nodes (sd_disk s n) \<and> in_dir (sd_disk s n) source \<and>
        lookup (sd_disk s n) source = Some node)"

lemma sender_ready_updates [simp]:
  "sender_ready source node (s\<lparr>nt_step := n\<rparr>) = sender_ready source node s"
  "sender_ready source node (s\<lparr>nt_input := bs\<rparr>) = sender_ready source node s"
  "sender_ready source node (s\<lparr>nt_output := bs\<rparr>) = sender_ready source node s"
  "sender_ready source node (s\<lparr>nt_finished := b\<rparr>) = sender_ready source node s"
  "sender_ready source node (s\<lparr>sd_progress := ps\<rparr>) = sender_ready source node s"
  by (simp_all add: sender_ready_def calm_def)

lemma sender_calm [simp]: "sender_ready source node s \<Longrightarrow> calm s"
  by (simp add: sender_ready_def)

lemma sender_disk_run:
  assumes "sender_ready source (FileN data t) s"
  shows "disk_call (sys_open_read source) s = (Inr source, s\<lparr>nt_step := Suc (nt_step s)\<rparr>)"
    "disk_call (sys_read source) s = (Inr data, s\<lparr>nt_step := Suc (nt_step s)\<rparr>)"
    "disk_call (sys_symlink_metadata source) s = (Inr (FileN data t), s\<lparr>nt_step := Suc (nt_step s)\<rparr>)"
    "disk_read source pos n s = (Inr (take (max 1 (min n (nt_chunk s (nt_step s)))) (drop pos data)),
       s\<lparr>nt_step := Suc (nt_step s)\<rparr>)"
proof -
  have t: "lookup (sd_disk s (nt_step s)) source = Some (FileN data t)"
    and d: "plain_nodes (sd_disk s (nt_step s))" "in_dir (sd_disk s (nt_step s)) source"
    and f: "sd_disk_fault s (nt_step s) = None"
    using assms by (auto simp: sender_ready_def)
  show "disk_call (sys_open_read source) s = (Inr source, s\<lparr>nt_step := Suc (nt_step s)\<rparr>)"
    "disk_call (sys_read source) s = (Inr data, s\<lparr>nt_step := Suc (nt_step s)\<rparr>)"
    "disk_read source pos n s = (Inr (take (max 1 (min n (nt_chunk s (nt_step s)))) (drop pos data)),
       s\<lparr>nt_step := Suc (nt_step s)\<rparr>)"
    using t d f by (simp_all add: disk_call_def sys_open_read_def sys_read_def disk_read_def sys_read_at_def Let_def)
  show "disk_call (sys_symlink_metadata source) s = (Inr (FileN data t), s\<lparr>nt_step := Suc (nt_step s)\<rparr>)"
    using t d f by (simp add: disk_call_def sys_symlink_metadata_def Let_def)
qed

lemma post_progress: "post (send_progress offer n) s Q \<longleftrightarrow>
    Q (Inr ()) (s\<lparr>sd_progress := sd_progress s @ [progress_of offer n]\<rparr>)"
  by (simp add: post_def send_progress_def)

lemma calm_no_fault: "calm s \<Longrightarrow> nt_fault s = (\<lambda>_. None)"
  by (simp add: calm_def)

lemma send_loop_run:
  assumes "sender_ready source (FileN data t) s" "sent \<le> length data" "length data - sent \<le> fuel"
  shows "\<exists>n ps. send_loop changed source (length data) (send_progress offer) fuel sent s =
    (Inr (length data), s\<lparr>nt_step := n, nt_output := nt_output s @ drop sent data, sd_progress := ps\<rparr>)"
  using assms
proof (induction fuel arbitrary: sent s)
  case 0
  then have "sent = length data" by simp
  then show ?case
    by (auto simp: io_ret_def intro!: exI [of _ "nt_step s"] exI [of _ "sd_progress s"])
next
  case (Suc fuel)
  show ?case
  proof (cases "length data \<le> sent")
    case True
    then have "sent = length data" using Suc.prems by simp
    then show ?thesis
      by (auto simp: io_ret_def intro!: exI [of _ "nt_step s"] exI [of _ "sd_progress s"])
  next
    case False
    define wanted where "wanted = min (length data - sent) TRANSFER_BUFFER_SIZE"
    define part where "part = take (max 1 (min wanted (nt_chunk s (Suc (nt_step s))))) (drop sent data)"
    have part: "part \<noteq> []" "length part \<le> length data - sent"
      using False by (auto simp: part_def)
    have "take k xs @ drop (length (take k xs)) xs = xs" for k and xs :: bytes
      by (cases "k \<le> length xs") simp_all
    then have rest: "part @ drop (sent + length part) data = drop sent data"
      unfolding part_def by (metis add.commute drop_drop)
    let ?s = "s\<lparr>nt_step := Suc (Suc (Suc (nt_step s))), nt_output := nt_output s @ part,
        sd_progress := sd_progress s @ [progress_of offer (sent + length part)]\<rparr>"
    have read: "disk_read source sent wanted (s\<lparr>nt_step := Suc (nt_step s)\<rparr>) =
        (Inr part, s\<lparr>nt_step := Suc (Suc (nt_step s))\<rparr>)"
      by (subst sender_disk_run(4)) (use Suc.prems in \<open>simp_all add: part_def\<close>)
    have step: "send_loop changed source (length data) (send_progress offer) (Suc fuel) sent s =
        send_loop changed source (length data) (send_progress offer) fuel (sent + length part) ?s"
      using False Suc.prems(1) part(1)
      by (simp add: cancellable_def io_bind_def io_then_def io_match_def io_reject_if_def net_write_def
          send_progress_def read flip: wanted_def)
    have "\<exists>n ps. send_loop changed source (length data) (send_progress offer) fuel (sent + length part) ?s =
      (Inr (length data), ?s\<lparr>nt_step := n, nt_output := nt_output ?s @ drop (sent + length part) data, sd_progress := ps\<rparr>)"
    proof (rule Suc.IH)
      have "0 < length part" using part(1) by simp
      then show "length data - (sent + length part) \<le> fuel" using Suc.prems by linarith
    qed (use Suc.prems part in auto)
    then show ?thesis unfolding step by (simp add: rest)
  qed
qed

definition file_offer :: "crates \<Rightarrow> device_identity \<Rightarrow> string \<Rightarrow> string \<Rightarrow> bytes \<Rightarrow> int \<Rightarrow> transfer_offer" where
  "file_offer E me tid name data modified =
     (let raw = offer_new E tid name (length data) modified (blake3_hash E data) (identity_summary E me)
      in raw\<lparr>to_signature := sign_base64 E me (offer_signing_bytes E raw)\<rparr>)"

lemma read_application_run:
  assumes "crates_correct E" "calm s" "fits E (transfer_response_json r)" "transfer_response_range r"
    and "nt_input s = frame_of E (transfer_response_json r) @ rest"
  shows "read_application_frame E as_transfer_response s =
    (Inr r, s\<lparr>nt_step := Suc (nt_step s), nt_input := rest\<rparr>)"
proof -
  have "recv_frame E application_fault (\<lambda>v. Inr (as_value v)) s =
      (Inr (as_value (transfer_response_json r)), s\<lparr>nt_step := Suc (nt_step s), nt_input := rest\<rparr>)"
    by (rule recv_frame_run) (use assms in simp_all)
  then show ?thesis
    using as_transfer_response_value [OF assms(4)]
    by (simp add: read_application_frame_def io_bind_def io_match_def reject_if_rejected_def io_lift_def)
qed

lemma send_from_run:
  assumes E: "crates_correct E" and ready: "sender_ready source (FileN data t) s"
    and fit: "answers_fit E offer" and size: "to_size offer = length data" "length data \<le> u64_max"
    and input: "nt_input s = frame_of E (transfer_response_json (Complete (receipt_of (stored_offer_of offer))))"
  shows "\<exists>s'. send_from E source offer 0 s = (Inr (receipt_of (stored_offer_of offer)), s') \<and>
     nt_output s' = nt_output s @ data"
proof -
  let ?receipt = "receipt_of (stored_offer_of offer)"
  let ?changed = "InvalidTransfer ''source file changed while it was being sent''"
  let ?s = "s\<lparr>nt_step := Suc (Suc (Suc (nt_step s))), sd_progress := sd_progress s @ [progress_of offer 0]\<rparr>"
  have opened: "post (disk_call (sys_open_read source)) s' Q \<longleftrightarrow> Q (Inr source) (s'\<lparr>nt_step := Suc (nt_step s')\<rparr>)"
    if "sender_ready source (FileN data t) s'" for s' Q
    by (simp add: post_def sender_disk_run(1) [OF that])
  obtain n ps where "send_loop ?changed source (length data) (send_progress offer) (length data) 0 ?s =
     (Inr (length data), ?s\<lparr>nt_step := n, nt_output := nt_output s @ data, sd_progress := ps\<rparr>)"
    using send_loop_run [of source data t ?s 0 "length data" ?changed offer] ready by auto
  then have loop: "post (send_loop ?changed source (length data) (send_progress offer) (length data) 0) ?s Q \<longleftrightarrow>
     Q (Inr (length data)) (?s\<lparr>nt_step := n, nt_output := nt_output s @ data, sd_progress := ps\<rparr>)" for Q
    by (simp add: post_def)
  have extra: "post (disk_read source (length data) (Suc 0)) s' Q \<longleftrightarrow> Q (Inr []) (s'\<lparr>nt_step := Suc (nt_step s')\<rparr>)"
    if "sender_ready source (FileN data t) s'" for s' Q
    by (simp add: post_def sender_disk_run(4) [OF that])
  have finish: "post (net_finish finish_fault) s' Q \<longleftrightarrow> Q (Inr ()) (s'\<lparr>nt_step := Suc (nt_step s'), nt_finished := True\<rparr>)"
    if "calm s'" for s' :: sending and Q
    using that by (simp add: post_def net_finish_def)
  have receipt: "validate_receipt offer ?receipt = Inr ()"
    by (simp add: validate_receipt_def receipt_of_def stored_offer_of_def)
  have answer: "post (read_application_frame E as_transfer_response) s' Q \<longleftrightarrow>
      Q (Inr (Complete ?receipt)) (s'\<lparr>nt_step := Suc (nt_step s'), nt_input := []\<rparr>)"
    if "calm s'" "nt_input s' = nt_input s" for s' :: sending and Q
    unfolding post_def
    by (subst read_application_run [OF E that(1), of "Complete ?receipt" "[]"])
       (use fit input that size in \<open>simp_all add: answers_fit_def receipt_of_def stored_offer_of_def\<close>)
  have "post (send_from E source offer 0) s (\<lambda>r s'. r = Inr ?receipt \<and> nt_output s' = nt_output s @ data)"
    unfolding send_from_def send_content_def receive_completion_def cancellable_def size(1)
    using ready
    by (simp add: opened loop extra finish answer post_progress receipt calm_no_fault [OF sender_calm])
  then show ?thesis by (auto simp: post_def split: prod.splits)
qed

lemma file_offer_simps [simp]:
  "to_size (file_offer E me tid name data modified) = length data"
  "to_kind (file_offer E me tid name data modified) = FileTransfer"
  "to_transfer_id (file_offer E me tid name data modified) = tid"
  "to_filename (file_offer E me tid name data modified) = name"
  "to_blake3 (file_offer E me tid name data modified) = hex_encode E (blake3_hash E data)"
  by (simp_all add: file_offer_def offer_new_def Let_def)

lemma sender_run:
  assumes E: "crates_correct E" and ready: "sender_ready source (FileN data t) s"
    and offer: "offer = file_offer E me tid name data (min (max 0 t) (2 ^ 63 - 1))" "source_filename source = Inr name"
      "offer_validate E offer = Inr ()" "length data \<le> u64_max"
    and fit: "answers_fit E offer" "exchange_fits E client server (as_value (transfer_offer_json offer)) secret"
    and nonces: "length client = AUTH_NONCE_BYTES" "length server = AUTH_NONCE_BYTES"
    and random: "nt_random s (nt_step s + 4) = client"
    and input: "nt_input s = frame_of E (challenge_json (challenge_of E client server)) @
      frame_of E (transfer_response_json (Resume 0)) @
      frame_of E (transfer_response_json (Complete (receipt_of (stored_offer_of offer))))"
  shows "\<exists>s'. send_file E me tid secret source s = (Inr (receipt_of (stored_offer_of offer)), s') \<and>
     nt_output s' = nt_output s @ frame_of E (hello_json (hello_new E client)) @
       frame_of E (request_json (request_of E client server (as_value (transfer_offer_json offer)) secret)) @ data"
proof -
  let ?receipt = "receipt_of (stored_offer_of offer)"
  let ?answers = "frame_of E (transfer_response_json (Resume 0)) @ frame_of E (transfer_response_json (Complete ?receipt))"
  let ?sent = "frame_of E (hello_json (hello_new E client)) @
      frame_of E (request_json (request_of E client server (as_value (transfer_offer_json offer)) secret))"
  have looked: "post (disk_call (sys_symlink_metadata source)) s' Q \<longleftrightarrow>
      Q (Inr (FileN data t)) (s'\<lparr>nt_step := Suc (nt_step s')\<rparr>)" if "sender_ready source (FileN data t) s'" for s' Q
    by (simp add: post_def sender_disk_run(3) [OF that])
  have read: "post (disk_call (sys_read source)) s' Q \<longleftrightarrow> Q (Inr data) (s'\<lparr>nt_step := Suc (nt_step s')\<rparr>)"
    if "sender_ready source (FileN data t) s'" for s' Q
    by (simp add: post_def sender_disk_run(2) [OF that])
  have raw: "(offer_new E tid name (length data) (metadata_modified_ms (FileN data t)) (blake3_hash E data)
        (identity_summary E me))\<lparr>to_signature := sign_base64 E me (offer_signing_bytes E
        (offer_new E tid name (length data) (metadata_modified_ms (FileN data t)) (blake3_hash E data)
        (identity_summary E me)))\<rparr> = offer"
    by (simp add: offer(1) file_offer_def metadata_modified_ms_def node_mtime_def Let_def)
  have exchange: "post (write_authenticated_request E (transfer_offer_json offer) secret)
      (s\<lparr>nt_step := Suc (Suc (Suc (Suc (nt_step s))))\<rparr>) Q \<longleftrightarrow>
      Q (Inr ()) (s\<lparr>nt_step := nt_step s + 8, nt_input := ?answers, nt_output := nt_output s @ ?sent\<rparr>)" for Q
    unfolding post_def
    by (subst client_exchange_run [OF E _ fit(2) nonces, of _ ?answers])
       (use ready random input in \<open>simp_all add: eval_nat_numeral\<close>)
  have resume: "post (read_application_frame E as_transfer_response) s' Q \<longleftrightarrow>
      Q (Inr (Resume 0)) (s'\<lparr>nt_step := Suc (nt_step s'), nt_input := frame_of E (transfer_response_json (Complete ?receipt))\<rparr>)"
    if "calm s'" "nt_input s' = ?answers" for s' :: sending and Q
    unfolding post_def
    by (subst read_application_run [OF E that(1), of "Resume 0"]) (use fit that in \<open>simp_all add: answers_fit_def\<close>)
  have rest: "post (send_from E source offer 0) s' (\<lambda>r s''. r = Inr ?receipt \<and> nt_output s'' = nt_output s @ ?sent @ data)"
    if "sender_ready source (FileN data t) s'" "nt_output s' = nt_output s @ ?sent"
      "nt_input s' = frame_of E (transfer_response_json (Complete ?receipt))" for s'
    using send_from_run [OF E that(1) fit(1) _ offer(4) that(3)] that(2) by (auto simp: offer(1) post_def)
  have "post (send_file E me tid secret source) s (\<lambda>r s'. r = Inr ?receipt \<and> nt_output s' = nt_output s @ ?sent @ data)"
    unfolding send_file_def outbound_def source_digest_def cancellable_def Let_def
    using ready rest
    by (simp add: looked read is_symlink_def is_file_def node_len_def offer(2,3) raw exchange resume send_file_stream_def
        calm_no_fault [OF sender_calm])
  then show ?thesis by (auto simp: post_def split: prod.splits)
qed

section \<open>The pair\<close>

lemma file_offer_of_data:
  assumes E: "crates_correct E" and me: "identity_ok E me" "length (id_peer_name me) \<le> 255"
    and names: "uuid_parses E tid" "length name \<le> 4096" and size: "length data \<le> MAX_FILE_SIZE"
    and modified: "0 \<le> modified" "modified < 2 ^ 63"
  shows "offer_of_data E (file_offer E me tid name data modified) data"
proof -
  let ?offer = "file_offer E me tid name data modified"
  have "offer_validate E ?offer = Inr ()"
    unfolding file_offer_def Let_def
    by (rule own_offer_validates) (use assms in \<open>simp_all add: crates_correct_def\<close>)
  moreover have "to_protocol ?offer = QUIC_PROTOCOL_VERSION" "to_modified_ms ?offer = modified"
    by (simp_all add: file_offer_def offer_new_def Let_def)
  moreover have "MAX_FILE_SIZE \<le> u64_max" by (simp add: MAX_FILE_SIZE_def u64_max_def)
  ultimately show ?thesis
    using E size modified
    by (simp add: offer_of_data_def crates_correct_def transfer_offer_range_def in_i64_def QUIC_PROTOCOL_VERSION_def
        u16_max_def)
qed

text \<open>C1: A whole transfer: with the same secret on both ends, a file that does not change, room in the
  inbox and no faults, \<open>send_file\<close> and \<open>handle_stream\<close>, each reading exactly what the other
  writes, both succeed. The receiver then has the bytes of the file under a safe name in the inbox,
  and the sender has the receipt for their size and digest.\<close>

theorem file_transfer_end_to_end:
  assumes E: "crates_correct E" and me: "identity_ok E me" "length (id_peer_name me) \<le> 255"
    and names: "uuid_parses E tid" "source_filename source = Inr name" "length name \<le> 4096"
    and size: "length data \<le> MAX_FILE_SIZE"
    and offer: "offer = file_offer E me tid name data (min (max 0 t) (2 ^ 63 - 1))"
    and ends: "sender_ready source (FileN data t) a" "receiver_ready E ctx offer b"
    and nonces: "nt_random a (nt_step a + 4) = client" "nt_random b (nt_step b + 1) = server"
      "length client = AUTH_NONCE_BYTES" "length server = AUTH_NONCE_BYTES"
    and fit: "answers_fit E offer"
      "exchange_fits E client server (as_value (transfer_offer_json offer)) (ix_shared_secret ctx)"
  shows "\<exists>upload answers receipt a' b' c.
     send_file E me tid (ix_shared_secret ctx) source (a\<lparr>nt_input := answers, nt_output := []\<rparr>) = (Inr receipt, a') \<and>
     nt_output a' = upload \<and>
     handle_stream E ctx (b\<lparr>nt_input := upload, nt_output := []\<rparr>) = (Inr (), b') \<and> nt_output b' = answers \<and>
     receipt = \<lparr>tr_transfer_id = tid, tr_size = length data, tr_blake3 = hex_encode E (blake3_hash E data)\<rparr> \<and>
     safe_name c \<and> holds (w_fs (rc_world b')) (dest (ix_store ctx) offer c) data"
proof -
  let ?payload = "as_value (transfer_offer_json offer)" and ?secret = "ix_shared_secret ctx"
  let ?receipt = "receipt_of (stored_offer_of offer)"
  let ?upload = "frame_of E (hello_json (hello_new E client)) @
      frame_of E (request_json (request_of E client server ?payload ?secret)) @ data"
  let ?answers = "frame_of E (challenge_json (challenge_of E client server)) @
      frame_of E (transfer_response_json (Resume 0)) @ frame_of E (transfer_response_json (Complete ?receipt))"
  have od: "offer_of_data E offer data"
    unfolding offer by (rule file_offer_of_data) (use E me names size in simp_all)
  have valid: "offer_validate E offer = Inr ()" using od by (simp add: offer_of_data_def)
  have u64: "length data \<le> u64_max" using size by (simp add: MAX_FILE_SIZE_def u64_max_def)
  have "sender_ready source (FileN data t) (a\<lparr>nt_input := ?answers, nt_output := []\<rparr>)" using ends(1) by simp
  from sender_run [OF E this offer names(2) valid u64 fit nonces(3,4)] nonces(1) obtain a' where
    a': "send_file E me tid ?secret source (a\<lparr>nt_input := ?answers, nt_output := []\<rparr>) = (Inr ?receipt, a')"
      "nt_output a' = ?upload" by auto
  have "receiver_ready E ctx offer (b\<lparr>nt_input := ?upload, nt_output := []\<rparr>)"
    using ends(2) by (simp add: receiver_ready_def Let_def)
  from server_run [OF E od this fit nonces(3,4)] nonces(2) obtain c b' where
    b': "handle_stream E ctx (b\<lparr>nt_input := ?upload, nt_output := []\<rparr>) = (Inr (), b')"
      "delivered_ok E (ix_store ctx) offer data c (w_fs (rc_world b'))" "nt_output b' = ?answers" by auto
  have "?receipt = \<lparr>tr_transfer_id = tid, tr_size = length data, tr_blake3 = hex_encode E (blake3_hash E data)\<rparr>"
    by (simp add: receipt_of_def stored_offer_of_def offer)
  moreover have "safe_name c" "holds (w_fs (rc_world b')) (dest (ix_store ctx) offer c) data"
    using b'(2) by (simp_all add: delivered_ok_def delivered_def)
  ultimately show ?thesis using a' b'(1,3) by blast
qed

section \<open>An example\<close>

definition sample_client :: bytes where "sample_client = replicate 32 1"
definition sample_server :: bytes where "sample_server = replicate 32 5"

text \<open>The values of one transfer; the value the digest covers comes first, its text is one byte.\<close>

definition sample_signed :: jvalue where
  "sample_signed = authenticatable_json 2 (hex_encode sample_crates sample_client)
     (hex_encode sample_crates sample_server) (as_value (transfer_offer_json sample_signed_offer))"

definition sample_talk :: "jvalue list" where
  "sample_talk =
     (let E = table_crates [sample_signed] in
      [sample_signed, hello_json (hello_new E sample_client),
       challenge_json (challenge_of E sample_client sample_server),
       request_json (request_of E sample_client sample_server (as_value (transfer_offer_json sample_signed_offer)) ''secret''),
       transfer_response_json (Resume 0),
       transfer_response_json (Complete (receipt_of (stored_offer_of sample_signed_offer)))])"

abbreviation sample_net :: crates where "sample_net \<equiv> table_crates sample_talk"

lemma sample_talk_length [simp]: "length sample_talk = 6"
  by (simp add: sample_talk_def Let_def)

lemma sample_net_correct [simp]: "crates_correct sample_net"
  by (simp add: crates_correct_def)

lemma sample_net_signed:
  "table_print sample_talk sample_signed = [0]" "table_print [sample_signed] sample_signed = [0]"
  by (simp_all add: table_print_def sample_talk_def Let_def)

lemma sample_net_messages:
  "hello_new sample_net c = hello_new (table_crates [sample_signed]) c"
  "challenge_of sample_net c d = challenge_of (table_crates [sample_signed]) c d"
  "request_of sample_net sample_client sample_server (as_value (transfer_offer_json sample_signed_offer)) secret =
   request_of (table_crates [sample_signed]) sample_client sample_server (as_value (transfer_offer_json sample_signed_offer)) secret"
  using sample_net_signed
  by (simp_all add: hello_new_def challenge_of_def request_of_def authentication_mac_def authenticated_message_def
      authentication_key_def to_vec_def QUIC_PROTOCOL_VERSION_def flip: sample_signed_def)

lemma sample_net_fits:
  "answers_fit sample_net sample_signed_offer"
  "exchange_fits sample_net sample_client sample_server (as_value (transfer_offer_json sample_signed_offer)) ''secret''"
proof -
  have "fits sample_net v" if "v \<in> set sample_talk" for v
    using table_crates_short [OF that] by (simp add: fits_def MAX_CONTROL_FRAME_def)
  then show "answers_fit sample_net sample_signed_offer"
    "exchange_fits sample_net sample_client sample_server (as_value (transfer_offer_json sample_signed_offer)) ''secret''"
    by (simp_all add: answers_fit_def exchange_fits_def sample_net_messages) (simp_all add: sample_talk_def Let_def)
qed

lemma table_offer:
  "file_offer (table_crates vs) sample_identity (replicate 36 CHR ''0'') ''a.txt'' [1, 2, 3] 5 = sample_signed_offer"
  by (simp add: file_offer_def offer_new_def sample_signed_offer_def sample_raw_offer_def Let_def identity_summary_def
      public_key_base64_def sign_base64_def)
    (simp add: sample_crates_def)

definition sample_sending :: sending where
  "sample_sending =
     \<lparr>nt_input = [], nt_end = None, nt_output = [], nt_finished = False, nt_step = 0, nt_fault = (\<lambda>_. None),
      nt_chunk = (\<lambda>_. 2), nt_random = (\<lambda>_. sample_client),
      sd_disk = (\<lambda>_. [([''home''], DirN 0), ([''home'', ''a.txt''], FileN [1, 2, 3] 5)]),
      sd_disk_fault = (\<lambda>_. None), sd_progress = []\<rparr>"

definition sample_listening :: receiving where
  "sample_listening = (sample_receiving [] (\<lambda>_. None))\<lparr>nt_random := (\<lambda>_. sample_server)\<rparr>"

lemma sample_sender_ready: "sender_ready [''home'', ''a.txt''] (FileN [1, 2, 3] 5) sample_sending"
  by (auto simp: sender_ready_def calm_def sample_sending_def plain_nodes_def in_dir_def lookup_def)

lemma sample_receiver_ready: "receiver_ready E sample_incoming sample_signed_offer sample_listening"
proof -
  have none: "lookup sample_inbox (sample_state_dir @ [c]) = None" for c
    by (rule sample_inbox_lookup(3)) (simp add: sample_state_dir_def)
  have "length sample_inbox < u32_max - 1" by (simp add: sample_inbox_def u32_max_def)
  then have room: "room sample_store sample_signed_offer (\<lambda>u. u = ''u'') sample_inbox"
    using candidates_free [of sample_inbox "[''in'']"] by (simp add: room_def dest_def sample_temps none)
  have temp: "lookup sample_inbox (temp_path (sp_metadata (paths_of sample_store sample_signed_offer)) u) = None" for u
    unfolding sample_paths temp_path_def with_extension_snoc by (simp add: none)
  have "clean (\<lambda>u. u = ''u'') (rc_world sample_listening)" "w_fs (rc_world sample_listening) = sample_inbox"
    "calm sample_listening" "ix_store sample_incoming = sample_store"
    by (simp_all add: sample_listening_def sample_receiving_def sample_world_def clean_def calm_def sample_incoming_def)
  with room temp show ?thesis by (auto simp: receiver_ready_def Let_def sample_inbox_fresh)
qed

lemma sample_modified: "min (max 0 5) (2 ^ 63 - 1) = (5 :: int)"
  by simp

theorem file_transfer_end_to_end_witness:
  "\<exists>upload answers receipt a' b' c.
     send_file sample_net sample_identity (replicate 36 CHR ''0'') (ix_shared_secret sample_incoming) [''home'', ''a.txt'']
       (sample_sending\<lparr>nt_input := answers, nt_output := []\<rparr>) = (Inr receipt, a') \<and>
     nt_output a' = upload \<and>
     handle_stream sample_net sample_incoming (sample_listening\<lparr>nt_input := upload, nt_output := []\<rparr>) = (Inr (), b') \<and>
     nt_output b' = answers \<and>
     receipt = \<lparr>tr_transfer_id = replicate 36 CHR ''0'', tr_size = length [1 :: 8 word, 2, 3],
       tr_blake3 = hex_encode sample_net (blake3_hash sample_net [1, 2, 3])\<rparr> \<and>
     safe_name c \<and> holds (w_fs (rc_world b')) (dest (ix_store sample_incoming) sample_signed_offer c) [1, 2, 3]"
proof (rule file_transfer_end_to_end [where t = 5 and client = sample_client and server = sample_server and name = "''a.txt''"])
  show "sample_signed_offer = file_offer sample_net sample_identity (replicate 36 CHR ''0'') ''a.txt'' [1, 2, 3] (min (max 0 5) (2 ^ 63 - 1))"
    unfolding sample_modified table_offer ..
  show "identity_ok sample_net sample_identity"
    using sample_identity_ok by (simp add: identity_ok_def)
  show "uuid_parses sample_net (replicate 36 CHR ''0'')"
    by (simp add: sample_crates_def is_lower_hex_def is_digit_def list_all_iff)
  show "exchange_fits sample_net sample_client sample_server (as_value (transfer_offer_json sample_signed_offer))
      (ix_shared_secret sample_incoming)"
    using sample_net_fits(2) by (simp add: sample_incoming_def)
  show "sender_ready [''home'', ''a.txt''] (FileN [1, 2, 3] 5) sample_sending" by (rule sample_sender_ready)
  show "receiver_ready sample_net sample_incoming sample_signed_offer sample_listening" by (rule sample_receiver_ready)
qed (simp_all add: sample_net_fits sample_identity_def source_filename_def
    MAX_FILE_SIZE_def sample_sending_def sample_listening_def sample_client_def sample_server_def AUTH_NONCE_BYTES_def)

end
