(* ===== verification/StoreTree.thy ===== *)
theory StoreTree
  imports StoreFolder StoreSpec
begin

text \<open>
  The check of a folder against its manifest. \<open>tree_matches\<close> says what the check is for: every
  entry of the manifest is at its place with its contents, and nothing else is there. The walk of
  \<open>validate_folder_contents\<close> ends, within the bound of the model, and accepts only such trees.
\<close>

section \<open>Joined names\<close>

lemma folder_commit_for_yields: "yields (folder_commit_for E st offer m ps) (\<lambda>c. safe_name (co_destination c))"
  unfolding folder_commit_for_def Let_def
  by (intro yields_bind yields_option yields_then checked_name_yields
      yields_bind_result [OF unique_destination_yields] yields_ret) simp_all

lemma finalize_folder_eq:
  "finalize_folder E st offer m pf =
     io_then (io_lift (manifest_validate_offer E m offer))
     (io_then (create_manifest_directories (pf_staging_path pf) m)
     (io_then (validate_folder_contents E (pf_staging_path pf) m)
     (io_then (apply_manifest_times (pf_staging_path pf) m)
     (let ps = paths_of st offer in
      io_bind (folder_commit_for E st offer m ps) (\<lambda>commit.
      let destination = destination_root st offer @ [co_destination commit] in
      io_then (place_folder E offer m (pf_staging_path pf) destination)
      (finish_folder E offer m ps (co_destination commit) destination))))))"
proof -
  have "io_bind (folder_commit_for E st offer m ps) (\<lambda>c. io_then (place_folder E offer m p (path_join root (co_destination c)))
      (finish_folder E offer m ps (co_destination c) (path_join root (co_destination c)))) =
    io_bind (folder_commit_for E st offer m ps) (\<lambda>c. io_then (place_folder E offer m p (root @ [co_destination c]))
      (finish_folder E offer m ps (co_destination c) (root @ [co_destination c])))" for ps p root
    by (rule bind_yields_cong [OF folder_commit_for_yields]) simp
  then show ?thesis unfolding finalize_folder_def Let_def by (simp only:)
qed

lemma recover_folder_commit_eq:
  "recover_folder_commit E st c ps =
     io_then (io_lift (validate_destination_name (co_destination c)))
     (io_bind (io_lift (ok_or (co_manifest c) (InvalidTransfer ''folder commit manifest is missing''))) (\<lambda>m.
      let destination = destination_root_stored st (co_offer c) @ [co_destination c] in
      io_bind (io_try_exists destination) (\<lambda>b.
        if \<not> b then io_ret None
        else
          io_then (validate_folder_contents E destination m)
          (let receipt = receipt_of (co_offer c);
               record = \<lparr>do_offer = co_offer c, do_destination = co_destination c,
                         do_receipt = receipt, do_manifest = Some m\<rparr> in
           io_then (atomic_write_json E (sp_done ps) (done_record_json record))
           (io_then (remove_dir_all_if_exists (sp_folder_part ps))
           (io_then (remove_if_exists (sp_metadata ps))
           (io_then (remove_if_exists (sp_manifest ps))
           (io_then (remove_if_exists (sp_commit ps))
           (io_ret (Some \<lparr>ct_receipt = receipt, ct_destination = destination\<rparr>))))))))))"
  unfolding recover_folder_commit_def Let_def
  by (rule lift_then_cong) (simp only: checked_name_joined)

lemma validate_completed_folder_eq:
  "validate_completed_folder E st d =
     io_then (io_lift (validate_destination_name (do_destination d)))
     (io_bind (io_lift (ok_or (do_manifest d) (InvalidTransfer ''completed folder manifest is missing''))) (\<lambda>m.
      let destination = destination_root_stored st (do_offer d) @ [do_destination d] in
      io_bind (io_try_exists destination) (\<lambda>b.
        if \<not> b then io_ret None
        else io_then (validate_folder_contents E destination m)
               (io_ret (Some \<lparr>ct_receipt = do_receipt d, ct_destination = destination\<rparr>)))))"
  unfolding validate_completed_folder_def Let_def
  by (rule lift_then_cong) (simp only: checked_name_joined)

section \<open>A tree that is its manifest\<close>

definition entry_at :: "crates \<Rightarrow> fs \<Rightarrow> path \<Rightarrow> folder_entry \<Rightarrow> bool" where
  "entry_at E fs p e \<longleftrightarrow>
     (case fe_kind e of
        DirectoryEntry \<Rightarrow> \<exists>t. lookup fs p = Some (DirN t)
      | FileEntry \<Rightarrow> \<exists>d t. lookup fs p = Some (FileN d t) \<and> length d = fe_size e \<and>
          hex_encode E (blake3_hash E d) = fe_blake3 e)"

text \<open>A node below \<open>root\<close>, under directories only.\<close>

definition on_tree :: "fs \<Rightarrow> path \<Rightarrow> path \<Rightarrow> bool" where
  "on_tree fs root p \<longleftrightarrow>
     lookup fs (root @ p) \<noteq> None \<and>
     (\<forall>k < length p. \<exists>t. lookup fs (root @ take k p) = Some (DirN t))"

definition tree_matches :: "crates \<Rightarrow> fs \<Rightarrow> path \<Rightarrow> folder_manifest \<Rightarrow> bool" where
  "tree_matches E fs root m \<longleftrightarrow>
     (\<exists>t. lookup fs root = Some (DirN t)) \<and>
     (\<forall>e \<in> set (fm_entries m). \<exists>p. p \<noteq> [] \<and> join_with CHR ''/'' p = fe_path e \<and> entry_at E fs (root @ p) e) \<and>
     (\<forall>p. p \<noteq> [] \<longrightarrow> on_tree fs root p \<longrightarrow> join_with CHR ''/'' p \<in> fe_path ` set (fm_entries m))"

text \<open>Only the nodes below \<open>root\<close> count, and the time of the root does not.\<close>

lemma tree_matches_cong:
  assumes "\<And>p. p \<noteq> [] \<Longrightarrow> lookup fs' (root @ p) = lookup fs (root @ p)"
    and "(\<exists>t. lookup fs' root = Some (DirN t)) \<longleftrightarrow> (\<exists>t. lookup fs root = Some (DirN t))"
  shows "tree_matches E fs' root m \<longleftrightarrow> tree_matches E fs root m"
proof -
  have dir: "(\<exists>t. lookup fs' (root @ p) = Some (DirN t)) \<longleftrightarrow> (\<exists>t. lookup fs (root @ p) = Some (DirN t))" for p
    by (cases "p = []") (use assms in simp_all)
  have tree: "p \<noteq> [] \<Longrightarrow> on_tree fs' root p \<longleftrightarrow> on_tree fs root p" for p
    by (simp add: on_tree_def dir assms(1))
  have at: "p \<noteq> [] \<Longrightarrow> entry_at E fs' (root @ p) e \<longleftrightarrow> entry_at E fs (root @ p) e" for p e
    by (simp add: entry_at_def assms(1) split: folder_entry_kind.split)
  show ?thesis
    by (simp add: tree_matches_def assms(2) tree at cong: conj_cong imp_cong)
qed

lemma tree_matches_agree:
  assumes "agree_except S fs fs'" "\<And>p. p \<in> S \<Longrightarrow> \<not> prefix root p" "tree_matches E fs root m"
  shows "tree_matches E fs' root m"
proof -
  have "lookup fs' (root @ p) = lookup fs (root @ p)" for p
    by (rule agreeD [OF assms(1)]) (use assms(2) [of "root @ p"] in \<open>auto intro: prefixI\<close>)
  from tree_matches_cong [OF this] this [of "[]"] show ?thesis
    using assms(3) by simp
qed

lemma tree_matches_touch:
  assumes "root \<noteq> []" "lookup fs root = Some n" "tree_matches E fs root m"
  shows "tree_matches E (put_node root (set_node_mtime t n) fs) root m"
proof -
  have "\<exists>t. n = DirN t" using assms(2,3) by (auto simp: tree_matches_def)
  then show ?thesis
    using assms tree_matches_cong [of "put_node root (set_node_mtime t n) fs" root fs E m]
    by (auto simp: set_node_mtime_def)
qed

section \<open>Paths of the walk\<close>

lemma join_with_Nil [simp]: "join_with c [] = []"
  by (simp add: join_with_def)

lemma join_with_snoc:
  "join_with c (p @ [x]) = (if p = [] then x else join_with c p @ c # x)"
  by (cases p) (auto simp: join_with_def)

lemma child_names_lookup: "lookup fs (d @ [c]) = Some n \<Longrightarrow> c \<in> set (child_names fs d)"
  by (auto simp: lookup_def child_names_def dest!: map_of_SomeD) force

lemma expected_keys: "set (map fst (expected_entries m)) = fe_path ` set (fm_entries m)"
  by (force simp: expected_entries_def)

lemma expected_unique:
  assumes "distinct (map fe_path (fm_entries m))" "e \<in> set (fm_entries m)"
  shows "map_of (expected_entries m) (fe_path e) = Some e"
proof (rule map_of_is_SomeI)
  show "distinct (map fst (expected_entries m))"
    using assms(1) by (simp add: expected_entries_def rev_map [symmetric] comp_def)
qed (use assms(2) in \<open>auto simp: expected_entries_def\<close>)

context schedule
begin

lemma read_dir_rule:
  assumes "plain_nodes fs" "\<And>e. Q (Inl e) fs"
    and "\<And>t. lookup fs p = Some (DirN t) \<Longrightarrow> Q (Inr (child_names fs p)) fs"
  shows "always W (io_read_dir p) fs Q"
  unfolding io_read_dir_def
  by (rule fs_call)
     (use assms in \<open>auto simp: sys_read_dir_def split: option.splits node.splits\<close>)

lemma ensure_directory_exists_rule:
  assumes "plain_nodes fs" "\<And>e. Q (Inl e) fs" "\<And>t. lookup fs p = Some (DirN t) \<Longrightarrow> Q (Inr ()) fs"
  shows "always W (ensure_directory_exists p) fs Q"
  unfolding ensure_directory_exists_def
  by (rule bind, rule symlink_metadata_rule [OF assms(1)])
     (use assms in \<open>auto intro!: reject_if ret simp: is_dir_def split: node.splits\<close>)

end

section \<open>The walk\<close>

text \<open>
  \<open>V\<close> are the paths the walk has met: \<open>seen\<close> holds their names, each was compared with its entry,
  and the stack holds the directories of the walk that were not read yet, \<open>q\<close> apart.
\<close>

definition walked ::
  "crates \<Rightarrow> (string \<times> folder_entry) list \<Rightarrow> fs \<Rightarrow> path \<Rightarrow> path option \<Rightarrow> path set \<Rightarrow> string list \<Rightarrow>
     (path \<times> string) list \<Rightarrow> bool" where
  "walked E expected fs root q V seen stack \<longleftrightarrow>
     set seen = join_with CHR ''/'' ` V \<and> distinct seen \<and>
     (\<forall>p \<in> V. p \<noteq> [] \<and> join_with CHR ''/'' p \<noteq> [] \<and>
        (\<exists>e. map_of expected (join_with CHR ''/'' p) = Some e \<and> entry_at E fs (root @ p) e)) \<and>
     (\<forall>(d, parent) \<in> set stack. \<exists>p. d = root @ p \<and> parent = join_with CHR ''/'' p \<and> (p = [] \<or> p \<in> V)) \<and>
     (\<forall>p. (p = [] \<or> p \<in> V) \<longrightarrow> Some p \<noteq> q \<longrightarrow> (\<exists>t. lookup fs (root @ p) = Some (DirN t)) \<longrightarrow>
        (root @ p, join_with CHR ''/'' p) \<in> set stack \<or> (\<forall>c \<in> set (child_names fs (root @ p)). p @ [c] \<in> V))"

lemma walked_add:
  assumes "walked E expected fs root (Some q) V seen stack" "q = [] \<or> q \<in> V"
    and "relative = child_relative (join_with CHR ''/'' q) c" "relative \<noteq> []" "relative \<notin> set seen"
    and "map_of expected relative = Some e" "entry_at E fs (root @ q @ [c]) e"
    and "stack' = (if fe_kind e = DirectoryEntry then (root @ q @ [c], relative) # stack else stack)"
  shows "walked E expected fs root (Some q) (insert (q @ [c]) V) (relative # seen) stack'"
proof -
  have join: "join_with CHR ''/'' (q @ [c]) = relative"
    using assms(1-3) by (auto simp: join_with_snoc child_relative_def walked_def)
  have dir: "fe_kind e = DirectoryEntry" if "lookup fs (root @ q @ [c]) = Some (DirN t)" for t
    using assms(7) that by (cases "fe_kind e") (auto simp: entry_at_def)
  show ?thesis
    unfolding walked_def
    using assms(1) unfolding walked_def
    by (intro conjI) (use assms(2,4-8) join dir in \<open>auto split: if_splits\<close>)
qed

context schedule
begin

lemma check_names_rule:
  assumes "plain_nodes fs" "walked E expected fs root (Some q) V seen stack" "q = [] \<or> q \<in> V"
  shows "always W (check_names E expected (root @ q) (join_with CHR ''/'' q) names seen stack) fs
     (\<lambda>r fs'. fs' = fs \<and> (\<forall>seen' stack'. r = Inr (seen', stack') \<longrightarrow>
        (\<exists>V'. V \<subseteq> V' \<and> (\<lambda>c. q @ [c]) ` set names \<subseteq> V' \<and> walked E expected fs root (Some q) V' seen' stack')))"
  using assms(2,3)
proof (induction names arbitrary: V seen stack)
  case Nil
  then show ?case by (auto intro!: ret)
next
  case (Cons c names)
  let ?relative = "child_relative (join_with CHR ''/'' q) c" and ?p = "root @ q @ [c]"
  let ?Q = "\<lambda>r fs'. fs' = fs \<and> (\<forall>seen' stack'. r = Inr (seen', stack') \<longrightarrow>
        (\<exists>V'. V \<subseteq> V' \<and> (\<lambda>c. q @ [c]) ` set (c # names) \<subseteq> V' \<and>
           walked E expected fs root (Some q) V' seen' stack'))"
  have on: "always W (check_names E expected (root @ q) (join_with CHR ''/'' q) names (?relative # seen) stack') fs ?Q"
    if "?relative \<noteq> []" "?relative \<notin> set seen" "map_of expected ?relative = Some e" "entry_at E fs ?p e"
      "stack' = (if fe_kind e = DirectoryEntry then (?p, ?relative) # stack else stack)" for e stack'
  proof (rule mono [OF Cons.IH])
    show "walked E expected fs root (Some q) (insert (q @ [c]) V) (?relative # seen) stack'"
      by (rule walked_add [OF Cons.prems refl that])
    show "q = [] \<or> q \<in> insert (q @ [c]) V" using Cons.prems(2) by blast
    fix r fs'
    assume h: "fs' = fs \<and> (\<forall>seen' stack''. r = Inr (seen', stack'') \<longrightarrow>
        (\<exists>V'. insert (q @ [c]) V \<subseteq> V' \<and> (\<lambda>c. q @ [c]) ` set names \<subseteq> V' \<and>
           walked E expected fs root (Some q) V' seen' stack''))"
    show "?Q r fs'"
    proof (intro conjI allI impI)
      show "fs' = fs" using h by simp
      fix seen' stack''
      assume "r = Inr (seen', stack'')"
      then obtain V' where "insert (q @ [c]) V \<subseteq> V'" "(\<lambda>c. q @ [c]) ` set names \<subseteq> V'"
        "walked E expected fs root (Some q) V' seen' stack''"
        using h by blast
      then show "\<exists>V'. V \<subseteq> V' \<and> (\<lambda>c. q @ [c]) ` set (c # names) \<subseteq> V' \<and>
          walked E expected fs root (Some q) V' seen' stack''"
        by (intro exI [of _ V']) auto
    qed
  qed
  have regular: "always W (io_bind (blake3_file_hex E ?p) (\<lambda>digest. io_reject_if (digest \<noteq> fe_blake3 e) folder_mismatch
      (check_names E expected (root @ q) (join_with CHR ''/'' q) names (?relative # seen) stack))) fs ?Q"
    if "?relative \<noteq> []" "?relative \<notin> set seen" "map_of expected ?relative = Some e"
      "fe_kind e = FileEntry" "lookup fs ?p = Some n" "is_file n" "node_len n = fe_size e" for e n
  proof (rule bind, rule blake3_file_hex_rule [OF assms(1)])
    fix d m assume d: "lookup fs ?p = Some (FileN d m)"
    have "always W (check_names E expected (root @ q) (join_with CHR ''/'' q) names (?relative # seen) stack) fs ?Q"
      if "hex_encode E (blake3_hash E d) = fe_blake3 e"
      by (rule on) (use that d \<open>?relative \<noteq> []\<close> \<open>?relative \<notin> set seen\<close> \<open>map_of expected ?relative = Some e\<close>
          \<open>fe_kind e = FileEntry\<close> \<open>lookup fs ?p = Some n\<close> \<open>node_len n = fe_size e\<close> in
          \<open>auto simp: entry_at_def node_len_def\<close>)
    then show "case Inr (hex_encode E (blake3_hash E d)) of Inl e \<Rightarrow> ?Q (Inl e) fs
      | Inr digest \<Rightarrow> always W (io_reject_if (digest \<noteq> fe_blake3 e) folder_mismatch
          (check_names E expected (root @ q) (join_with CHR ''/'' q) names (?relative # seen) stack)) fs ?Q"
      unfolding sum.case by (intro reject_if) auto
  qed auto
  show ?case
  proof (cases "validate_folder_relative_path ?relative = Inr () \<and> map_of expected ?relative \<noteq> None")
    case False
    then show ?thesis
      by (auto simp: Let_def ok_or_def intro!: thn bind lift
          split: sum.split option.split)
  next
    case True
    then obtain e where e: "validate_folder_relative_path ?relative = Inr ()" "map_of expected ?relative = Some e"
      by auto
    then have ne: "?relative \<noteq> []" by (auto simp: validate_folder_relative_path_iff)
    let ?rest = "\<lambda>n. if fe_kind e = DirectoryEntry \<and> is_dir n then
           check_names E expected (root @ q) (join_with CHR ''/'' q) names (?relative # seen) ((?p, ?relative) # stack)
         else if fe_kind e = FileEntry \<and> is_file n \<and> node_len n = fe_size e then
           io_bind (blake3_file_hex E ?p) (\<lambda>digest. io_reject_if (digest \<noteq> fe_blake3 e) folder_mismatch
             (check_names E expected (root @ q) (join_with CHR ''/'' q) names (?relative # seen) stack))
         else io_throw folder_mismatch"
    have rest: "always W (?rest n) fs ?Q" if "lookup fs ?p = Some n" "?relative \<notin> set seen" for n
    proof -
      have "always W (check_names E expected (root @ q) (join_with CHR ''/'' q) names (?relative # seen)
          ((?p, ?relative) # stack)) fs ?Q" if "fe_kind e = DirectoryEntry" "is_dir n"
        by (rule on) (use that \<open>lookup fs ?p = Some n\<close> \<open>?relative \<notin> set seen\<close> ne e in
             \<open>auto simp: entry_at_def is_dir_def split: node.splits\<close>)
      moreover have "always W (io_throw folder_mismatch :: (string list \<times> (path \<times> string) list) io) fs ?Q"
        by (rule throw) simp
      ultimately show ?thesis using regular [OF ne that(2) e(2) _ that(1)] by simp
    qed
    show ?thesis
      unfolding check_names.simps Let_def append_assoc
      by (rule thn, rule lift, simp only: e sum.case, rule bind, rule lift, simp only: ok_or_def option.case sum.case,
          rule reject_if, simp, rule bind, rule symlink_metadata_rule [OF assms(1)])
         (use rest in \<open>auto intro!: reject_if\<close>)
  qed
qed

lemma check_directories_rule:
  assumes "plain_nodes fs" "walked E expected fs root None V seen stack"
  shows "always W (check_directories E expected fuel seen stack) fs
     (\<lambda>r fs'. fs' = fs \<and> (\<forall>seen'. r = Inr seen' \<longrightarrow> (\<exists>V'. walked E expected fs root None V' seen' [])))"
  using assms(2)
proof (induction fuel arbitrary: V seen stack)
  case 0
  then show ?case by (cases stack) (auto intro!: ret throw)
next
  case (Suc fuel)
  let ?Q = "\<lambda>r fs'. fs' = fs \<and> (\<forall>seen'. r = Inr seen' \<longrightarrow> (\<exists>V'. walked E expected fs root None V' seen' []))"
  show ?case
  proof (cases stack)
    case Nil
    with Suc.prems show ?thesis by (auto intro!: ret)
  next
    case (Cons dp rest)
    obtain q where q: "dp = (root @ q, join_with CHR ''/'' q)" "q = [] \<or> q \<in> V"
      using Suc.prems Cons by (cases dp) (auto simp: walked_def)
    have w: "walked E expected fs root (Some q) V seen rest"
      using Suc.prems unfolding Cons q(1) walked_def by (intro conjI) auto
    have all: "walked E expected fs root None V' seen' stack'"
      if "walked E expected fs root (Some q) V' seen' stack'" "(\<lambda>c. q @ [c]) ` set (child_names fs (root @ q)) \<subseteq> V'"
      for V' seen' stack'
    proof -
      have "(root @ p, join_with CHR ''/'' p) \<in> set stack' \<or> (\<forall>c \<in> set (child_names fs (root @ p)). p @ [c] \<in> V')"
        if "p = [] \<or> p \<in> V'" "\<exists>t. lookup fs (root @ p) = Some (DirN t)" for p
        using that \<open>walked E expected fs root (Some q) V' seen' stack'\<close>
          \<open>(\<lambda>c. q @ [c]) ` set (child_names fs (root @ q)) \<subseteq> V'\<close>
        by (cases "p = q") (auto simp: walked_def)
      then show ?thesis
        using that(1) unfolding walked_def by (intro conjI) auto
    qed
    show ?thesis
      unfolding Cons q(1) check_directories.simps
    proof (rule bind, rule read_dir_rule [OF assms(1)], simp, simp only: sum.case, rule bind,
        rule mono [OF check_names_rule [OF assms(1) w q(2)]])
      fix r :: "(string list \<times> (path \<times> string) list) result" and fs'
      assume "fs' = fs \<and> (\<forall>seen' stack'. r = Inr (seen', stack') \<longrightarrow>
        (\<exists>V'. V \<subseteq> V' \<and> (\<lambda>c. q @ [c]) ` set (child_names fs (root @ q)) \<subseteq> V' \<and>
           walked E expected fs root (Some q) V' seen' stack'))"
      then show "case r of Inl e \<Rightarrow> ?Q (Inl e) fs'
          | Inr x \<Rightarrow> always W (case x of (seen', stack') \<Rightarrow> check_directories E expected fuel seen' stack') fs' ?Q"
        by (cases r) (auto split: prod.split intro: Suc.IH [OF all])
    qed
  qed
qed

end

text \<open>Every directory the walk reads is a manifest entry, or the root: the bound is enough.\<close>

lemma check_names_stack:
  "check_names E expected d parent names seen stack w = (Inr (seen', stack'), w') \<Longrightarrow>
     distinct seen \<Longrightarrow> set seen \<subseteq> fst ` set expected \<Longrightarrow>
     distinct seen' \<and> set seen' \<subseteq> fst ` set expected \<and>
     length stack' + length seen \<le> length stack + length seen'"
proof (induction names arbitrary: seen stack w)
  case Nil
  then show ?case by (simp add: io_ret_def)
next
  case (Cons c names)
  let ?relative = "child_relative parent c"
  from Cons.prems(1) obtain e stack1 w1 where
    e: "check_names E expected d parent names (?relative # seen) stack1 w1 = (Inr (seen', stack'), w')"
      "length stack1 \<le> Suc (length stack)" "map_of expected ?relative = Some e" "?relative \<notin> set seen"
    by (fastforce simp: Let_def io_then_def io_bind_def io_match_def io_lift_def io_ret_def io_throw_def
        io_reject_if_def ok_or_def split: prod.splits sum.splits option.splits if_splits)
  have "?relative \<in> fst ` set expected" using map_of_SomeD [OF e(3)] by force
  with Cons.IH [OF e(1)] Cons.prems(2,3) e(2,4) show ?case by auto
qed

theorem check_directories_bound:
  assumes "distinct seen" "set seen \<subseteq> fst ` set expected"
    and "length stack + (card (fst ` set expected) - length seen) \<le> fuel"
  shows "check_directories E expected (fuel + k) seen stack = check_directories E expected fuel seen stack"
  using assms
proof (induction fuel arbitrary: seen stack)
  case 0
  then show ?case by (cases k) auto
next
  case (Suc fuel)
  show ?case
  proof (cases stack)
    case Nil
    then show ?thesis by (cases k) auto
  next
    case (Cons dp rest)
    obtain d parent where dp: "dp = (d, parent)" by (cases dp)
    have "check_directories E expected (Suc fuel + k) seen ((d, parent) # rest) w =
        check_directories E expected (Suc fuel) seen ((d, parent) # rest) w" for w
    proof -
      have step: "check_directories E expected (fuel + k) seen' stack' = check_directories E expected fuel seen' stack'"
        if run: "check_names E expected d parent names seen rest w1 = (Inr (seen', stack'), w2)"
        for names seen' stack' w1 w2
      proof (rule Suc.IH)
        note s = check_names_stack [OF run Suc.prems(1,2)]
        have "length seen' \<le> card (fst ` set expected)" "length seen \<le> card (fst ` set expected)"
          using s Suc.prems(1,2) by (metis List.finite_set card_mono distinct_card finite_imageI)+
        then show "length stack' + (card (fst ` set expected) - length seen') \<le> fuel"
          using s Suc.prems(3) Cons by (simp, linarith)
      qed (use check_names_stack [OF run Suc.prems(1,2)] in simp_all)
      show ?thesis
        using step by (auto simp: io_bind_def io_match_def split: prod.splits sum.splits)
    qed
    then show ?thesis unfolding Cons dp by (intro ext)
  qed
qed

context schedule
begin

text \<open>Only a tree that is its manifest passes the check, and the check changes nothing.\<close>

lemma validate_folder_contents_rule:
  assumes lf: "plain_nodes fs"
  shows "always W (validate_folder_contents E root m) fs
     (\<lambda>r fs'. fs' = fs \<and> (r = Inr () \<longrightarrow> tree_matches E fs root m))"
proof -
  let ?expected = "expected_entries m"
  let ?Q = "\<lambda>r fs'. fs' = fs \<and> (r = Inr () \<longrightarrow> tree_matches E fs root m)"
  have start: "walked E ?expected fs root None {} [] [(root, [])]"
    by (simp add: walked_def)
  have last: "tree_matches E fs root m"
    if tot: "validate_manifest E m = Inr tot" and dir: "lookup fs root = Some (DirN t)"
      and walk: "\<exists>V. walked E ?expected fs root None V seen []"
      and len: "length seen = length (remdups (map fst ?expected))" for tot t seen
  proof -
    obtain V where w: "walked E ?expected fs root None V seen []" using walk by blast
    have "sorted_wrt (<) (map fe_path (fm_entries m))"
      using tot by (simp add: validate_manifest_tree manifest_tree_def)
    then have dist: "distinct (map fe_path (fm_entries m))" by (simp add: strict_sorted_iff)
    have sub: "set seen \<subseteq> set (map fst ?expected)"
    proof
      fix r assume "r \<in> set seen"
      then obtain e where "map_of ?expected r = Some e" using w by (auto simp: walked_def)
      from map_of_SomeD [OF this] show "r \<in> set (map fst ?expected)" by force
    qed
    moreover have "card (set seen) = card (set (map fst ?expected))"
      using distinct_card [of seen] w len by (simp add: walked_def length_remdups_card_conv)
    ultimately have "set seen = set (map fst ?expected)" by (intro card_subset_eq) auto
    then have keys: "join_with CHR ''/'' ` V = fe_path ` set (fm_entries m)"
      using w unfolding expected_keys by (simp add: walked_def)
    have at: "\<exists>p. p \<noteq> [] \<and> join_with CHR ''/'' p = fe_path e \<and> entry_at E fs (root @ p) e"
      if e: "e \<in> set (fm_entries m)" for e
    proof -
      obtain p where p: "p \<in> V" "join_with CHR ''/'' p = fe_path e" using keys e by force
      have "p \<noteq> [] \<and> (\<exists>e. map_of ?expected (join_with CHR ''/'' p) = Some e \<and> entry_at E fs (root @ p) e)"
        using w p(1) by (simp add: walked_def)
      with p(2) expected_unique [OF dist e] show ?thesis by auto
    qed
    have met: "on_tree fs root p \<Longrightarrow> p = [] \<or> p \<in> V" for p
    proof (induction p rule: rev_induct)
      case (snoc c q)
      have "\<exists>t. lookup fs (root @ q) = Some (DirN t)"
        using snoc.prems by (auto simp: on_tree_def dest!: spec [of _ "length q"])
      moreover have "on_tree fs root q"
        using snoc.prems calculation unfolding on_tree_def by (auto simp: less_Suc_eq dest: spec)
      moreover have "c \<in> set (child_names fs (root @ q))"
        using snoc.prems by (auto simp: on_tree_def intro: child_names_lookup [of fs "root @ q", simplified])
      ultimately show ?case using snoc.IH w by (auto simp: walked_def)
    qed simp
    show ?thesis
      unfolding tree_matches_def using dir at met keys by blast
  qed
  show ?thesis
    unfolding validate_folder_contents_def Let_def
  proof (rule bind, rule lift)
    show "case validate_manifest E m of Inl e \<Rightarrow> ?Q (Inl e) fs
      | Inr _ \<Rightarrow> always W (io_then (ensure_directory_exists root)
          (io_bind (check_directories E ?expected (Suc (length ?expected)) [] [(root, [])])
            (\<lambda>seen. io_reject_if (length seen \<noteq> length (remdups (map fst ?expected)))
              (InvalidTransfer ''folder is missing a manifest entry'') (io_ret ())))) fs ?Q"
    proof (cases "validate_manifest E m")
      case (Inr tot)
      show ?thesis
        unfolding Inr sum.case
        by (rule thn, rule ensure_directory_exists_rule [OF lf], simp, simp only: sum.case, rule bind,
            rule mono [OF check_directories_rule [OF lf start]])
           (auto intro!: reject_if ret last [OF Inr] split: sum.split)
    qed simp
  qed
qed

end

end
