(* ===== verification/StoreSafe.thy ===== *)
theory StoreSafe
  imports StoreTree
begin

text \<open>
  What the store can do to the files of the user, for every tree of the operating system with files and
  directories only: no operation of it changes or removes a file outside of a state directory \<open>D\<close>, for single
  files and for folders, whatever fails. The calls keep the tree well formed.
\<close>

section \<open>Well-formed trees\<close>

definition connected :: "fs \<Rightarrow> bool" where
  "connected fs \<longleftrightarrow> (\<forall>p. lookup fs p \<noteq> None \<longrightarrow> p \<noteq> [] \<longrightarrow> (\<exists>t. lookup fs (butlast p) = Some (DirN t)))"

definition sane :: "fs \<Rightarrow> bool" where
  "sane fs \<longleftrightarrow> plain_nodes fs \<and> connected fs"

lemma sane_plain_nodes [simp]: "sane fs \<Longrightarrow> plain_nodes fs"
  by (simp add: sane_def)

lemma connected_above:
  assumes "connected fs" "lookup fs (p @ q) = Some n" "q \<noteq> []"
  shows "\<exists>t. lookup fs p = Some (DirN t)"
  using assms(2,3)
proof (induction q arbitrary: n rule: rev_induct)
  case (snoc c q)
  have "\<exists>t. lookup fs (p @ q) = Some (DirN t)"
    using assms(1) snoc.prems unfolding connected_def
    by (metis append_assoc append_is_Nil_conv butlast_snoc option.distinct(1))
  then show ?case using snoc.IH by (cases "q = []") auto
qed simp

lemma connected_below:
  "connected fs \<Longrightarrow> \<forall>t. lookup fs p \<noteq> Some (DirN t) \<Longrightarrow> q \<noteq> [] \<Longrightarrow> lookup fs (p @ q) = None"
  using connected_above [of fs p q] by (cases "lookup fs (p @ q)") auto

text \<open>A new node in a directory, or one that replaces a node of its kind.\<close>

lemma sane_put:
  assumes "sane fs" "p \<noteq> []" "in_dir fs p" "\<not> is_symlink n" "\<not> is_special n"
    and "\<forall>t. lookup fs p = Some (DirN t) \<longrightarrow> is_dir n"
  shows "sane (put_node p n fs)"
proof -
  have "connected (put_node p n fs)"
    unfolding connected_def
  proof (intro allI impI)
    fix q assume q: "lookup (put_node p n fs) q \<noteq> None" "q \<noteq> []"
    have "\<exists>t. lookup fs (butlast q) = Some (DirN t)"
      using q assms(1-3) by (cases "q = p") (auto simp: sane_def connected_def in_dir_def)
    then show "\<exists>t. lookup (put_node p n fs) (butlast q) = Some (DirN t)"
      using assms(2,6) by (auto simp: is_dir_def split: node.splits)
  qed
  then show ?thesis using assms by (simp add: sane_def plain_nodes_put_node)
qed

lemma sane_in_dir: "sane fs \<Longrightarrow> lookup fs p = Some n \<Longrightarrow> p \<noteq> [] \<Longrightarrow> in_dir fs p"
  by (auto simp: sane_def connected_def in_dir_def)

lemma sane_del:
  assumes "sane fs" "p \<noteq> []" "\<forall>q. q \<noteq> [] \<longrightarrow> lookup fs (p @ q) = None"
  shows "sane (del_node p fs)"
proof -
  have "connected (del_node p fs)"
    unfolding connected_def
  proof (intro allI impI)
    fix q assume q: "lookup (del_node p fs) q \<noteq> None" "q \<noteq> []"
    have "lookup fs (p @ [last q]) = None" using assms(3) by simp
    then have "butlast q \<noteq> p"
      using q assms(2) append_butlast_last_id [OF q(2)] by (auto split: if_splits)
    then show "\<exists>t. lookup (del_node p fs) (butlast q) = Some (DirN t)"
      using q assms(1,2) by (auto simp: sane_def connected_def split: if_splits)
  qed
  then show ?thesis using assms by (simp add: sane_def plain_nodes_del_node)
qed

lemma sane_file_below: "sane fs \<Longrightarrow> lookup fs p = Some (FileN d m) \<Longrightarrow> q \<noteq> [] \<Longrightarrow> lookup fs (p @ q) = None"
  using connected_below [of fs p q] by (simp add: sane_def)

lemma sane_del_file:
  assumes "sane fs" "lookup fs p = Some (FileN d m)"
  shows "sane (del_node p fs)"
proof (rule sane_del [OF assms(1)])
  show "p \<noteq> []" using assms(2) by auto
qed (use sane_file_below [OF assms] in blast)

lemma sane_del_tree:
  assumes "sane fs" "p \<noteq> []"
  shows "sane (del_tree p fs)"
proof -
  have "connected (del_tree p fs)"
    unfolding connected_def
  proof (intro allI impI)
    fix q assume q: "lookup (del_tree p fs) q \<noteq> None" "q \<noteq> []"
    then have "\<not> prefix p q" and l: "lookup fs q \<noteq> None" using assms(2) by (auto simp: lookup_del_tree split: if_splits)
    then have "\<not> prefix p (butlast q)" using append_butlast_last_id [OF q(2)] by (metis prefix_prefix)
    then show "\<exists>t. lookup (del_tree p fs) (butlast q) = Some (DirN t)"
      using q l assms by (auto simp: lookup_del_tree sane_def connected_def)
  qed
  then show ?thesis using assms by (simp add: sane_def plain_nodes_del_tree)
qed

section \<open>Moving a tree\<close>

lemma map_of_map_keys:
  assumes "inj_on f (insert k (fst ` set fs))"
  shows "map_of (map (\<lambda>(x, n). (f x, n)) fs) (f k) = map_of fs k"
  using assms by (induction fs) (auto simp: inj_on_def)

lemma map_of_map_none:
  "p \<notin> f ` fst ` set fs \<Longrightarrow> map_of (map (\<lambda>(x, n). (f x, n)) fs) p = None"
  by (induction fs) auto

lemma lookup_move_tree:
  assumes a: "a \<noteq> []" "b \<noteq> []" "\<not> prefix a b" "\<not> prefix b a"
    and none: "\<And>x. lookup fs (b @ x) = None"
  shows "lookup (move_tree a b fs) p =
     (if prefix b p then lookup fs (a @ drop (length b) p) else if prefix a p then None else lookup fs p)"
proof -
  let ?f = "\<lambda>x. if prefix a x then b @ drop (length a) x else x"
  have move: "move_tree a b fs = map (\<lambda>(x, n). (?f x, n)) fs" by (simp add: move_tree_def)
  have keys: "\<not> prefix b x" if "x \<in> fst ` set fs" for x
  proof
    assume "prefix b x"
    then obtain y where y: "x = b @ y" by (auto simp: prefix_def)
    have "map_of fs x \<noteq> None" using that by (metis domIff dom_map_of_conv_image_fst)
    then show False using none [of y] y a(2) by (auto simp: lookup_def)
  qed
  show ?thesis
  proof (cases "p = []")
    case True
    then show ?thesis using a by simp
  next
    case False
    have "map_of (map (\<lambda>(x, n). (?f x, n)) fs) p =
        (if prefix b p then map_of fs (a @ drop (length b) p) else if prefix a p then None else map_of fs p)"
    proof -
      consider "prefix b p" | "\<not> prefix b p" "prefix a p" | "\<not> prefix b p" "\<not> prefix a p" by blast
      then show ?thesis
      proof cases
        case 1
        let ?k = "a @ drop (length b) p"
        have fk: "?f ?k = p" using 1 by (auto simp: prefix_def)
        have "inj_on ?f (insert ?k (fst ` set fs))"
          using keys by (auto simp: inj_on_def prefix_def split: if_splits)
        from map_of_map_keys [OF this] fk 1 show ?thesis by simp
      next
        case 2
        have "p \<notin> ?f ` fst ` set fs"
          using 2 by (auto simp: prefix_def split: if_splits)
        with 2 map_of_map_none [of p ?f fs] show ?thesis by simp
      next
        case 3
        have "inj_on ?f (insert p (fst ` set fs))"
          using keys 3 by (auto simp: inj_on_def prefix_def split: if_splits)
        from map_of_map_keys [OF this] 3 show ?thesis by simp
      qed
    qed
    then show ?thesis using False a(1) by (simp add: move lookup_def)
  qed
qed

lemma sane_move:
  assumes "sane fs" "lookup fs a = Some n" "a \<noteq> []" "b \<noteq> []" "\<not> prefix a b" "in_dir fs b"
    and none: "\<And>x. lookup fs (b @ x) = None"
  shows "sane (move_tree a b fs)"
proof -
  have "\<not> prefix b a" using assms(2) none by (auto simp: prefix_def)
  note look = lookup_move_tree [OF assms(3-5) this none]
  have lf: "plain_nodes (move_tree a b fs)"
    using assms(1) by (auto simp: look sane_def plain_nodes_def simp del: plain_nodesD)
  have "connected (move_tree a b fs)"
    unfolding connected_def
  proof (intro allI impI)
    fix p assume p: "lookup (move_tree a b fs) p \<noteq> None" "p \<noteq> []"
    show "\<exists>t. lookup (move_tree a b fs) (butlast p) = Some (DirN t)"
    proof (cases "prefix b p")
      case True
      then obtain x where x: "p = b @ x" by (auto simp: prefix_def)
      show ?thesis
      proof (cases "x = []")
        case True
        have "\<not> prefix b (butlast p)" 
          using x True assms(4) by (auto dest!: prefix_length_le) (cases b, auto)
        moreover have "\<not> prefix a (butlast p)"
          using x True assms(5) by (metis append_Nil2 append_butlast_last_id assms(4) prefix_prefix)
        ultimately show ?thesis using assms(6) x True by (simp add: look in_dir_def)
      next
        case False
        have l: "lookup fs (a @ x) \<noteq> None" using p(1) x by (simp add: look)
        have "butlast p = b @ butlast x" "butlast (a @ x) = a @ butlast x"
          using x False by (simp_all add: butlast_append)
        moreover have "\<exists>t. lookup fs (butlast (a @ x)) = Some (DirN t)"
          using assms(1) l False by (auto simp: sane_def connected_def)
        ultimately show ?thesis by (simp add: look)
      qed
    next
      case False
      then have l: "\<not> prefix a p" "lookup fs p \<noteq> None" using p(1) by (auto simp: look split: if_splits)
      have "\<not> prefix b (butlast p)" "\<not> prefix a (butlast p)"
        using False l(1) append_butlast_last_id [OF p(2)] by (metis prefix_prefix)+
      then show ?thesis using assms(1) l(2) p(2) by (auto simp: look sane_def connected_def)
    qed
  qed
  then show ?thesis using lf by (simp add: sane_def)
qed

section \<open>What a store keeps\<close>

text \<open>
  The store with the state directory \<open>D\<close> works below the directory that \<open>D\<close> is in. It changes nothing outside of
  this directory, and no file in it but those in \<open>D\<close>.
\<close>

definition store_kept :: "path \<Rightarrow> fs \<Rightarrow> fs \<Rightarrow> bool" where
  "store_kept D fs fs' \<longleftrightarrow>
     files_kept D fs fs' \<and> (\<forall>p. \<not> prefix (butlast D) p \<longrightarrow> lookup fs' p = lookup fs p)"

lemma store_kept_refl [simp]: "store_kept D fs fs"
  by (simp add: store_kept_def)

lemma store_kept_trans: "store_kept D fs fs' \<Longrightarrow> store_kept D fs' fs'' \<Longrightarrow> store_kept D fs fs''"
  using files_kept_trans [of D fs fs' fs''] by (simp add: store_kept_def)

lemma prefix_outer: "prefix D p \<Longrightarrow> prefix (butlast D) p"
  using prefix_order.trans [OF prefixeq_butlast] .

section \<open>Renaming\<close>

lemma child_names_empty:
  assumes "connected fs" "child_names fs p = []" "q \<noteq> []"
  shows "lookup fs (p @ q) = None"
proof (rule ccontr)
  assume n: "lookup fs (p @ q) \<noteq> None"
  obtain c r where q: "q = c # r" using assms(3) by (cases q) auto
  have "\<exists>n. lookup fs (p @ [c]) = Some n"
    using n connected_above [OF assms(1), of "p @ [c]" r] q by (cases "r = []") auto
  then show False using child_names_lookup [of fs p c] assms(2) by auto
qed

text \<open>
  A rename of something inside \<open>D\<close> to another name inside \<open>D\<close>, or beside it to one that is not a file.
\<close>

lemma rename_safe:
  assumes "sane fs" "prefix D p" "sys_rename p q fs = Inr (u, fs')"
    and q: "prefix D q \<or> prefix (butlast D) q \<and> (\<forall>d m. lookup fs q \<noteq> Some (FileN d m))"
  shows "sane fs' \<and> store_kept D fs fs'"
proof -
  have lf: "plain_nodes fs" using assms(1) by simp
  have outer: "prefix (butlast D) p" "prefix (butlast D) q" using assms(2) q prefix_outer by blast+
  then have outside: "\<not> prefix p x" "\<not> prefix q x" "p \<noteq> x" "q \<noteq> x" if "\<not> prefix (butlast D) x" for x
    using that prefix_order.trans by blast+
  obtain n where n: "lookup fs p = Some n" "parent_error fs p = None" "parent_error fs q = None"
    using assms(3) lf by (auto simp: sys_rename_def split: option.splits)
  have dirs: "in_dir fs p \<or> p = []" "in_dir fs q \<or> q = []"
    using n(2,3) by (auto simp: parent_error_def in_dir_def split: option.splits node.splits if_splits)
  consider "p = q" "fs' = fs"
    | (plain) "p \<noteq> q" "\<not> is_dir n" "\<forall>t. lookup fs q \<noteq> Some (DirN t)" "fs' = put_node q n (del_node p fs)"
    | (dir) "is_dir n" "\<not> prefix p q" "lookup fs q = None" "fs' = move_tree p q fs"
    | (dirdir) t where "is_dir n" "\<not> prefix p q" "lookup fs q = Some (DirN t)" "child_names fs q = []"
        "fs' = move_tree p q (del_node q fs)"
    using assms(3) lf n
    by (auto simp: sys_rename_def split: option.splits node.splits if_splits)
  then show ?thesis
  proof cases
    case 1
    then show ?thesis using assms(1) by simp
  next
    case plain
    then obtain d m where f: "n = FileN d m" using n(1) lf by (cases n) (auto simp: is_dir_def)
    have ne: "p \<noteq> []" "q \<noteq> []" using n(1) f plain(3) by auto
    have "butlast q \<noteq> p" using dirs(2) ne n(1) f by (auto simp: in_dir_def)
    then have "in_dir (del_node p fs) q" using dirs(2) ne by (auto simp: in_dir_def)
    then have "sane (put_node q n (del_node p fs))"
      using sane_del_file [OF assms(1) n(1) [unfolded f]] ne f plain(3)
      by (intro sane_put) (auto simp: is_symlink_def)
    moreover have "store_kept D fs (put_node q n (del_node p fs))"
      using ne assms(2) q outside by (auto simp: store_kept_def files_kept_def)
    ultimately show ?thesis using plain by simp
  next
    case dir
    have none: "lookup fs (q @ x) = None" for x
      using dir(3) connected_below [of fs q x] assms(1) by (cases "x = []") (auto simp: sane_def)
    have ne: "q \<noteq> []" "p \<noteq> []" using dir(2,3) by auto
    have np: "\<not> prefix q p" using n(1) none by (auto simp: prefix_def)
    have "sane (move_tree p q fs)"
      using sane_move [OF assms(1) n(1) ne(2,1) dir(2) _ none] dirs(2) ne by simp
    moreover have "store_kept D fs (move_tree p q fs)"
      unfolding store_kept_def files_kept_def lookup_move_tree [OF ne(2,1) dir(2) np none]
      using none assms(2) outside by (auto simp: prefix_def)
    ultimately show ?thesis using dir by simp
  next
    case (dirdir t)
    let ?fs = "del_node q fs"
    have pne: "p \<noteq> []" and pq: "p \<noteq> q" using dirdir(2) by auto
    have below: "lookup fs (q @ x) = None" if "x \<noteq> []" for x
      using child_names_empty [OF _ dirdir(4) that] assms(1) by (simp add: sane_def)
    have qne: "q \<noteq> []" using below [OF pne] n(1) by (cases "q = []") auto
    have none: "lookup ?fs (q @ x) = None" for x using qne below by (cases "x = []") auto
    have np: "\<not> prefix q p"
    proof
      assume "prefix q p"
      then obtain x where "p = q @ x" by (auto simp: prefix_def)
      with pq below [of x] n(1) show False by auto
    qed
    have at: "lookup ?fs p = Some n" using n(1) pq qne by simp
    have "sane ?fs" using sane_del [OF assms(1) qne] below by blast
    moreover have "in_dir ?fs q" using dirs(2) qne by (auto simp: in_dir_def not_own_parent)
    ultimately have "sane (move_tree p q ?fs)"
      using sane_move [OF _ at pne qne dirdir(2) _ none] by simp
    moreover have "files_kept D fs (move_tree p q ?fs)"
      unfolding files_kept_def lookup_move_tree [OF pne qne dirdir(2) np none]
      using none below assms(2) dirdir(3) qne by (auto simp: prefix_def)
    moreover have "lookup (move_tree p q ?fs) x = lookup fs x" if "\<not> prefix (butlast D) x" for x
      unfolding lookup_move_tree [OF pne qne dirdir(2) np none] using outside [OF that] qne by simp
    ultimately show ?thesis using dirdir by (simp add: store_kept_def)
  qed
qed

section \<open>The relation\<close>

definition safe_run :: "path \<Rightarrow> world \<Rightarrow> world \<Rightarrow> bool" where
  "safe_run D w w' \<longleftrightarrow>
     (sane (w_fs w) \<longrightarrow> sane (w_fs w') \<and> store_kept D (w_fs w) (w_fs w'))"

interpretation safe: run_relation "safe_run D" for D
  by unfold_locales (auto simp: safe_run_def intro: store_kept_trans)

lemma safeI:
  assumes "\<And>fs. sane fs \<Longrightarrow> always (\<lambda>_. True) m fs (\<lambda>r fs'. sane fs' \<and> store_kept D fs fs')"
  shows "safe.keeps D m"
  unfolding safe.keeps_def safe_run_def using assms by (auto simp: always_def)

lemma safeD:
  "safe.keeps D m \<Longrightarrow> sane (w_fs w) \<Longrightarrow> sane (w_fs (snd (m w))) \<and> store_kept D (w_fs w) (w_fs (snd (m w)))"
  by (simp add: safe.keeps_def safe_run_def)

lemma safe_after:
  assumes "safe.keeps D m" "sane fs'" "store_kept D fs fs'"
  shows "always (\<lambda>_. True) m fs' (\<lambda>r fs''. sane fs'' \<and> store_kept D fs fs'')"
  unfolding always_def
proof (intro allI impI conjI)
  fix w :: world assume w: "w_fs w = fs'"
  then show "sane (w_fs (snd (m w)))" using safeD [OF assms(1), of w] assms(2) by simp
  have "store_kept D fs' (w_fs (snd (m w)))" using safeD [OF assms(1), of w] assms(2) w by simp
  with assms(3) show "store_kept D fs (w_fs (snd (m w)))" by (rule store_kept_trans)
qed

text \<open>A call is safe when its effect on a well-formed tree is.\<close>

lemma safe_call:
  assumes "\<And>fs x fs'. sane fs \<Longrightarrow> f fs = Inr (x, fs') \<Longrightarrow> sane fs' \<and> store_kept D fs fs'"
  shows "safe.keeps D (io_call f)"
  by (rule safeI, rule any.fs_call) (use assms in auto)

lemma safe_call_at:
  assumes "\<And>fs t x fs'. sane fs \<Longrightarrow> f t fs = Inr (x, fs') \<Longrightarrow> sane fs' \<and> store_kept D fs fs'"
  shows "safe.keeps D (\<lambda>w. io_call (f (w_now w (w_calls w))) w)"
  by (rule safeI, rule any.fs_call_at) (use assms in auto)

lemma store_kept_put:
  "p \<noteq> [] \<Longrightarrow> prefix (butlast D) p \<Longrightarrow> prefix D p \<or> (\<forall>d m. lookup fs p \<noteq> Some (FileN d m)) \<or>
     (\<exists>d m m'. lookup fs p = Some (FileN d m) \<and> n = FileN d m') \<Longrightarrow> store_kept D fs (put_node p n fs)"
  by (auto simp: store_kept_def files_kept_def)

lemma store_kept_del: "p \<noteq> [] \<Longrightarrow> prefix D p \<Longrightarrow> store_kept D fs (del_node p fs)"
  using prefix_outer [of D p] by (auto simp: store_kept_def files_kept_def)

lemma safe_reads:
  "safe.keeps D (io_metadata p)" "safe.keeps D (io_symlink_metadata p)" "safe.keeps D (io_try_exists p)"
  "safe.keeps D (io_read p)" "safe.keeps D (io_read_dir p)" "safe.keeps D io_sync"
  "safe.keeps D (io_open_append p)"
  unfolding io_metadata_def io_symlink_metadata_def io_try_exists_def io_read_def io_read_dir_def io_sync_def
    io_open_append_def
  by (rule safe_call, auto simp: sys_metadata_def sys_symlink_metadata_def sys_try_exists_def sys_read_def
      sys_read_dir_def sys_open_append_def split: option.splits node.splits sum.splits io_kind.splits)+

lemma safe_uuid: "safe.keeps D io_uuid"
  by (rule safeI, rule any.uuid_drawn) simp

lemma safe_create_dir: "prefix (butlast D) p \<Longrightarrow> safe.keeps D (io_create_dir p)"
  unfolding io_create_dir_def
proof (rule safe_call_at)
  fix fs t u fs' assume D: "prefix (butlast D) p" and fs: "sane fs" "sys_create_dir t p fs = Inr (u, fs')"
  then have "lookup fs p = None" "parent_error fs p = None" "fs' = put_node p (DirN t) fs"
    by (auto simp: sys_create_dir_def split: option.splits)
  moreover have "p \<noteq> []" using calculation(1) by auto
  moreover have "in_dir fs p" using calculation(2,4)
    by (auto simp: parent_error_def in_dir_def split: option.splits node.splits if_splits)
  ultimately show "sane fs' \<and> store_kept D fs fs'"
    using fs(1) D by (auto intro!: sane_put store_kept_put simp: is_symlink_def is_dir_def)
qed

lemma safe_open: "prefix D p \<Longrightarrow> safe.keeps D (io_open trunc p)"
  unfolding io_open_def
proof (rule safe_call_at)
  fix fs t h fs' assume D: "prefix D p" and fs: "sane fs" "sys_open trunc t p fs = Inr (h, fs')"
  from sys_open_free [OF sane_plain_nodes [OF fs(1)] fs(2)] show "sane fs' \<and> store_kept D fs fs'"
    using fs(1) D prefix_outer [OF D] by (auto intro!: sane_put store_kept_put simp: is_symlink_def is_dir_def)
qed

lemma safe_create_new: "prefix D p \<Longrightarrow> safe.keeps D (io_create_new p)"
  unfolding io_create_new_def
proof (rule safe_call_at)
  fix fs t h fs' assume D: "prefix D p" and fs: "sane fs" "sys_create_new t p fs = Inr (h, fs')"
  from sys_create_new_free [OF sane_plain_nodes [OF fs(1)] fs(2)] show "sane fs' \<and> store_kept D fs fs'"
    using fs(1) D prefix_outer [OF D] by (auto intro!: sane_put store_kept_put simp: is_symlink_def is_dir_def)
qed

lemma safe_write: "prefix D h \<Longrightarrow> safe.keeps D (io_write h off data)"
proof (rule safeI)
  fix fs assume D: "prefix D h" and fs: "sane fs"
  have "sane fs' \<and> store_kept D fs fs'" if "sys_write t h off d fs = Inr ((), fs')" for t d fs'
    using that fs D prefix_outer [OF D]
    by (cases "h = []")
       (auto simp: sys_write_def is_symlink_def is_dir_def split: option.splits node.splits
         intro!: sane_put store_kept_put intro: sane_in_dir)
  then show "always (\<lambda>_. True) (io_write h off data) fs (\<lambda>r fs'. sane fs' \<and> store_kept D fs fs')"
    by (intro any.write_all) auto
qed

lemma safe_append: "prefix D h \<Longrightarrow> safe.keeps D (io_append h data)"
  using safe_write [of D h] by (simp add: safe.keeps_def io_append_def)

lemma safe_remove_file: "prefix D p \<Longrightarrow> safe.keeps D (io_remove_file p)"
  unfolding io_remove_file_def
proof (rule safe_call)
  fix fs u fs' assume D: "prefix D p" and fs: "sane fs" "sys_remove_file p fs = Inr (u, fs')"
  from sys_remove_file_free [OF sane_plain_nodes [OF fs(1)] fs(2)] show "sane fs' \<and> store_kept D fs fs'"
    using fs(1) D by (auto intro: sane_del_file store_kept_del)
qed

lemma safe_remove_dir_all: "prefix D p \<Longrightarrow> safe.keeps D (io_remove_dir_all p)"
  unfolding io_remove_dir_all_def
proof (rule safe_call)
  fix fs u fs' assume D: "prefix D p" and fs: "sane fs" "sys_remove_dir_all p fs = Inr (u, fs')"
  then have f: "fs' = del_tree p fs"
    by (auto simp: sys_remove_dir_all_def split: option.splits node.splits)
  show "sane fs' \<and> store_kept D fs fs'"
  proof (cases "p = []")
    case True
    then have "lookup fs' q = (if q = [] then Some (DirN 0) else None)" for q
      by (simp add: f del_tree_def lookup_def)
    then show ?thesis using True D by (simp add: sane_def plain_nodes_def connected_def store_kept_def files_kept_def)
  next
    case False
    have "\<not> prefix p q" if "\<not> prefix (butlast D) q" for q using that prefix_outer [OF D] prefix_order.trans by blast
    then show ?thesis
      using fs(1) D False prefix_order.trans [OF D] by (auto simp: f sane_del_tree store_kept_def files_kept_def lookup_del_tree)
  qed
qed

lemma safe_set_mtime: "prefix (butlast D) p \<Longrightarrow> safe.keeps D (io_set_mtime t p)"
  unfolding io_set_mtime_def
proof (rule safe_call)
  fix fs u fs' assume D: "prefix (butlast D) p" and fs: "sane fs" "sys_set_mtime t p fs = Inr (u, fs')"
  from sys_set_mtime_free [OF sane_plain_nodes [OF fs(1)] fs(2)] obtain n where
    n: "lookup fs p = Some n" "p = [] \<and> fs' = fs \<or> p \<noteq> [] \<and> fs' = put_node p (set_node_mtime t n) fs" by blast
  have "sane (put_node p (set_node_mtime t n) fs)" if "p \<noteq> []"
    using fs(1) n(1) that
    by (intro sane_put)
       (auto simp: is_symlink_def is_dir_def set_node_mtime_def intro: sane_in_dir split: node.splits)
  moreover have "store_kept D fs (put_node p (set_node_mtime t n) fs)" if "p \<noteq> []"
    using n(1) that D by (auto simp: store_kept_def files_kept_def set_node_mtime_def)
  ultimately show "sane fs' \<and> store_kept D fs fs'" using n(2) fs(1) by auto
qed

lemma safe_rename: "prefix D p \<Longrightarrow> prefix D q \<Longrightarrow> safe.keeps D (io_rename p q)"
  unfolding io_rename_def by (rule safe_call) (blast intro: rename_safe [THEN conjunct1] rename_safe [THEN conjunct2])

text \<open>A move out of \<open>D\<close> to a name that is not taken.\<close>

lemma safe_move_out:
  assumes "prefix D p" "prefix (butlast D) q"
  shows "safe.keeps D (io_bind (io_try_exists q) (\<lambda>b. if \<not> b then io_rename p q else io_ret ()))"
proof (rule safeI, rule any.bind, rule any.try_exists_rule)
  fix fs assume fs: "sane fs" and none: "lookup fs q = None \<or> \<not> in_dir fs q"
  have "always (\<lambda>_. True) (io_rename p q) fs (\<lambda>r fs'. sane fs' \<and> store_kept D fs fs')"
    unfolding io_rename_def
  proof (rule any.fs_call)
    fix u fs' assume r: "sys_rename p q fs = Inr (u, fs')"
    have "\<forall>d m. lookup fs q \<noteq> Some (FileN d m)"
      using none sane_in_dir [OF fs, of q] by (cases "q = []") auto
    then show "sane fs' \<and> store_kept D fs fs'"
      using rename_safe [OF fs assms(1) r] assms(2) by blast
  qed (use fs in auto)
  then show "case Inr False of Inl e \<Rightarrow> sane fs \<and> store_kept D fs fs
    | Inr b \<Rightarrow> always (\<lambda>_. True) (if \<not> b then io_rename p q else io_ret ()) fs
        (\<lambda>r fs'. sane fs' \<and> store_kept D fs fs')" by simp
qed (auto intro!: any.ret)

section \<open>The operations of the store\<close>

lemma prefix_with_extension: "prefix D (with_extension (D @ [x]) ext)"
  by simp

lemma safe_atomic_write:
  assumes "prefix D p" "\<And>ext. prefix D (with_extension p ext)"
  shows "safe.keeps D (atomic_write_json E p v)"
proof -
  have written: "safe.keeps D (io_bind (io_create_new t) (\<lambda>h.
      io_then (io_write h 0 data) (io_then io_sync (io_match (io_rename t p) io_ret (\<lambda>_.
        let retry = io_match (io_rename t p) io_ret
             (\<lambda>e. io_match (io_remove_file t) (\<lambda>_. io_throw e) (\<lambda>_. io_throw e))
        in io_match (io_remove_file p) (\<lambda>_. retry) (\<lambda>_. retry))))))"
    (is "safe.keeps D (io_bind _ ?k)") if t: "prefix D t" for t data
  proof (rule safeI, rule any.bind, rule any.create_new_rule)
    fix fs m assume fs: "sane fs" "in_dir fs t" "lookup fs t = None"
    have k: "safe.keeps D (?k t)"
      unfolding Let_def using t assms
      by (intro safe.keeps_rules safe_write safe_reads safe_rename safe_remove_file) auto
    have f: "sane (put_node t (FileN [] m) fs)" "store_kept D fs (put_node t (FileN [] m) fs)"
      using fs t prefix_outer [OF t] by (auto intro!: sane_put store_kept_put simp: is_symlink_def is_dir_def)
    from safe_after [OF k f] show "case Inr t of Inl e \<Rightarrow> sane (put_node t (FileN [] m) fs) \<and> store_kept D fs (put_node t (FileN [] m) fs)
      | Inr h \<Rightarrow> always (\<lambda>_. True) (?k h) (put_node t (FileN [] m) fs) (\<lambda>r fs'. sane fs' \<and> store_kept D fs fs')"
      by simp
  qed simp_all
  show ?thesis
    unfolding atomic_write_json_def Let_def [of "to_vec E v"] Let_def [of "with_extension p _"]
    by (intro safe.keeps_bind safe_uuid written assms)
qed

lemma safe_remove_if_exists: "prefix D p \<Longrightarrow> safe.keeps D (remove_if_exists p)"
  unfolding remove_if_exists_def by (intro safe.keeps_rules safe_remove_file)

lemma safe_remove_dir_all_if_exists: "prefix D p \<Longrightarrow> safe.keeps D (remove_dir_all_if_exists p)"
  unfolding remove_dir_all_if_exists_def
  by (intro safe.keeps_rules safe_reads safe_remove_file safe_remove_dir_all)

lemma safe_read_json: "safe.keeps D (read_json_optional E decode p)"
  unfolding read_json_optional_def by (intro safe.keeps_rules safe_reads)

lemma safe_blake3: "safe.keeps D (blake3_file_hex E p)"
  unfolding blake3_file_hex_def by (intro safe.keeps_rules safe_reads)

lemma safe_apply_time: "prefix (butlast D) p \<Longrightarrow> safe.keeps D (apply_modified_time p t)"
  unfolding apply_modified_time_eq by (intro safe.keeps_rules safe_set_mtime)

lemma safe_ensure_file: "safe.keeps D (ensure_file_destination E p n digest)"
  unfolding ensure_file_destination_def by (intro safe.keeps_rules safe_reads safe_blake3)

lemma safe_unique_from: "safe.keeps D (unique_from root stem ext index)"
proof (induction root stem ext index rule: unique_from.induct)
  case (1 root stem ext index)
  then show ?case
    by (subst unique_from.simps) (auto simp: Let_def intro!: safe.keeps_rules safe_reads)
qed

lemma safe_unique_destination: "safe.keeps D (unique_destination root s)"
  unfolding unique_destination_def by (intro safe.keeps_rules safe_reads safe_unique_from)

lemma safe_existing: "safe.keeps D (ensure_directory_exists p)"
  unfolding ensure_directory_exists_def by (intro safe.keeps_rules safe_reads)

lemma safe_directories:
  "prefix (butlast D) p \<Longrightarrow> safe.keeps D (create_or_check_dir p)"
  "prefix (butlast D) p \<Longrightarrow> safe.keeps D (ensure_directory p)"
  unfolding ensure_directory_def create_or_check_dir_def
  by (intro safe.keeps_rules safe_reads safe_existing safe_create_dir; assumption)+

lemma safe_create_components:
  "prefix (butlast D) p \<Longrightarrow> \<forall>c \<in> set cs. plain_name c \<Longrightarrow> safe.keeps D (create_components p cs)"
  by (induction cs arbitrary: p) (auto intro!: safe.keeps_rules safe_directories)

lemma safe_lift_then:
  assumes "\<And>x. r = Inr x \<Longrightarrow> safe.keeps D k"
  shows "safe.keeps D (io_then (io_lift r) k)"
proof (cases r)
  case (Inl e)
  then have "io_then (io_lift r) k = io_throw e"
    by (simp add: io_then_def io_bind_def io_match_def io_lift_def io_throw_def fun_eq_iff)
  then show ?thesis by (simp add: safe.keeps_throw)
next
  case (Inr x)
  then have "io_then (io_lift r) k = k"
    by (simp add: io_then_def io_bind_def io_match_def io_lift_def fun_eq_iff)
  then show ?thesis using assms Inr by simp
qed

lemma safe_parents: "prefix (butlast D) root \<Longrightarrow> safe.keeps D (ensure_safe_parent_directories root relative)"
  unfolding ensure_safe_parent_directories_def
  by (intro safe_lift_then safe.keeps_then safe_existing safe_create_components)
     (auto dest: in_set_butlastD intro: valid_components_plain)

lemma safe_folder_entry:
  assumes "prefix D root" "\<And>p. prefix D p \<Longrightarrow> safe.keeps C (k p)"
  shows "safe.keeps C (io_bind (io_lift (folder_entry_path root relative)) k)"
proof (cases "folder_entry_path root relative")
  case (Inl e)
  then have "io_bind (io_lift (folder_entry_path root relative)) k = io_throw e"
    by (simp add: io_bind_def io_match_def io_lift_def io_throw_def fun_eq_iff)
  then show ?thesis by (simp add: safe.keeps_throw)
next
  case (Inr p)
  then have "io_bind (io_lift (folder_entry_path root relative)) k = k p"
    by (simp add: io_bind_def io_match_def io_lift_def fun_eq_iff)
  moreover have "prefix D p" using folder_entry_path_resolve [OF Inr] assms(1) by auto
  ultimately show ?thesis using assms(2) by simp
qed

lemmas safe_folder_entry_file = safe_folder_entry [where C = D and D = D for D]

lemma safe_create_entries: "prefix (butlast D) root \<Longrightarrow> safe.keeps D (create_entry_directories root es)"
  by (induction es) (auto intro!: safe.keeps_ret safe.keeps_then safe_directories safe_parents safe_folder_entry)

lemma safe_create_manifest: "prefix (butlast D) root \<Longrightarrow> safe.keeps D (create_manifest_directories root m)"
  unfolding create_manifest_directories_def by (intro safe.keeps_rules safe_existing safe_create_entries)

lemma safe_entry_times: "prefix (butlast D) root \<Longrightarrow> safe.keeps D (apply_entry_times root es)"
  by (induction es) (auto intro!: safe.keeps_ret safe.keeps_then safe_apply_time safe_folder_entry)

lemma safe_manifest_times: "prefix (butlast D) root \<Longrightarrow> safe.keeps D (apply_manifest_times root m)"
  unfolding apply_manifest_times_def by (auto intro!: safe.keeps_then safe_entry_times)

lemma safe_check_names: "safe.keeps D (check_names E expected d parent names seen stack)"
  by (induction names arbitrary: seen stack)
     (auto simp: Let_def intro!: safe.keeps_rules safe_reads safe_blake3)

lemma safe_check_directories: "safe.keeps D (check_directories E expected fuel seen stack)"
proof (induction fuel arbitrary: seen stack)
  case 0
  then show ?case by (cases stack) (auto intro!: safe.keeps_rules)
next
  case (Suc fuel)
  then show ?case
    by (cases stack) (auto intro!: safe.keeps_rules safe_reads safe_check_names)
qed

lemma safe_validate_contents: "safe.keeps D (validate_folder_contents E root m)"
  unfolding validate_folder_contents_def
  by (intro safe.keeps_rules safe_existing safe_check_directories)

lemma safe_checkpoint:
  assumes "prefix D root"
  shows "safe.keeps D (folder_checkpoint E root es i n)"
proof (induction es arbitrary: i n)
  case (Cons e es)
  show ?case
    unfolding folder_checkpoint.simps Let_def
    by (intro safe_folder_entry_file [OF assms] safe.keeps_rules safe_parents [OF prefix_outer [OF assms]] safe_reads
        safe_blake3 safe_remove_if_exists Cons)
qed (auto intro!: safe.keeps_rules)

lemma safe_open_folder_file:
  assumes "prefix D (pf_staging_path pf)"
  shows "safe.keeps D (open_folder_file pf e n)"
  unfolding open_folder_file_def
  by (intro safe_folder_entry_file [OF assms] safe.keeps_rules safe_parents [OF prefix_outer [OF assms]] safe_reads safe_open)

lemma safe_verify_folder_file:
  assumes "prefix D (pf_staging_path pf)"
  shows "safe.keeps D (verify_folder_file E pf e)"
  unfolding verify_folder_file_def
  by (intro safe_folder_entry_file [OF assms] safe.keeps_rules safe_parents [OF prefix_outer [OF assms]] safe_reads
      safe_blake3 safe_remove_if_exists safe_apply_time prefix_outer)

text \<open>The records of a transfer are in its state directory.\<close>

lemma state_paths_in:
  assumes "id_name (to_transfer_id offer)"
  obtains a b c d e f where "sp_part (paths_of st offer) = state_dir st offer @ [a]"
    "sp_metadata (paths_of st offer) = state_dir st offer @ [b]"
    "sp_commit (paths_of st offer) = state_dir st offer @ [c]"
    "sp_done (paths_of st offer) = state_dir st offer @ [d]"
    "sp_manifest (paths_of st offer) = state_dir st offer @ [e]"
    "sp_folder_part (paths_of st offer) = state_dir st offer @ [f]"
  using assms by (simp add: paths_of_def Let_def state_dir_def)

definition records_in :: "path \<Rightarrow> state_paths \<Rightarrow> bool" where
  "records_in D ps \<longleftrightarrow> prefix D (sp_part ps) \<and> prefix D (sp_folder_part ps) \<and>
     (\<forall>p \<in> {sp_metadata ps, sp_commit ps, sp_done ps, sp_manifest ps}.
        prefix D p \<and> (\<forall>ext. prefix D (with_extension p ext)))"

lemma records_in_root [simp]: "records_in [] ps"
  by (simp add: records_in_def)

lemma records_in_state_dir: "id_name (to_transfer_id offer) \<Longrightarrow> records_in (state_dir st offer) (paths_of st offer)"
  by (erule state_paths_in [of offer st]) (simp add: records_in_def)

lemma safe_records:
  assumes "records_in D ps"
  shows "safe.keeps D (atomic_write_json E (sp_metadata ps) v)" "safe.keeps D (atomic_write_json E (sp_commit ps) v)"
    "safe.keeps D (atomic_write_json E (sp_done ps) v)" "safe.keeps D (atomic_write_json E (sp_manifest ps) v)"
    "safe.keeps D (remove_if_exists (sp_part ps))" "safe.keeps D (remove_if_exists (sp_metadata ps))"
    "safe.keeps D (remove_if_exists (sp_commit ps))" "safe.keeps D (remove_if_exists (sp_done ps))"
    "safe.keeps D (remove_if_exists (sp_manifest ps))" "safe.keeps D (remove_dir_all_if_exists (sp_folder_part ps))"
    "safe.keeps D (io_open True (sp_part ps))" "prefix D (sp_part ps)" "prefix D (sp_folder_part ps)"
    "safe.keeps D (ensure_directory (sp_folder_part ps))"
  using assms unfolding records_in_def
  by (auto intro!: safe_atomic_write safe_remove_if_exists safe_remove_dir_all_if_exists safe_open safe_directories
      intro: prefix_outer)

lemmas safe_calls = safe_reads safe_read_json safe_blake3 safe_apply_time safe_ensure_file
  safe_unique_destination safe_existing safe_create_manifest safe_manifest_times safe_validate_contents

lemma safe_prepare: "records_in D (paths_of st offer) \<Longrightarrow> safe.keeps D (prepare E st offer)"
  unfolding prepare_def prepare_commit_def prepare_part_def validate_completed_eq recover_commit_eq Let_def
  by (intro safe.keeps_rules safe_calls safe_records; assumption)

lemma inbox_of_state_dir [simp]:
  fixes st :: store
  shows "prefix (butlast (state_dir st offer)) (destination_root st offer @ x)"
  by (simp add: state_dir_def)

lemma safe_finalize:
  fixes st :: store
  assumes "id_name (to_transfer_id offer)"
  shows "safe.keeps (state_dir st offer) (finalize E st offer)"
proof -
  note records = records_in_state_dir [OF assms, of st]
  show ?thesis
    unfolding finalize_eq commit_for_def finish_file_def place_file_alt Let_def
    by (intro safe.keeps_rules safe_move_out safe_calls safe_records [OF records] inbox_of_state_dir)
qed

lemma place_folder_alt:
  "place_folder E offer m staging destination =
     io_then (io_bind (io_try_exists destination)
               (\<lambda>b. if \<not> b then io_rename staging destination else io_ret ()))
       (io_then (validate_folder_contents E destination m)
         (apply_modified_time destination (to_modified_ms offer)))"
  by (simp add: place_folder_def io_then_def io_bind_assoc)

lemma safe_prepare_folder: "records_in D (paths_of st offer) \<Longrightarrow> safe.keeps D (prepare_folder E st offer m)"
  unfolding prepare_folder_def prepare_folder_commit_def prepare_staging_def validate_completed_folder_eq
    recover_folder_commit_eq Let_def
  by (intro safe.keeps_rules safe_checkpoint safe_calls safe_records; assumption)

lemma safe_finalize_folder:
  fixes st :: store
  assumes "id_name (to_transfer_id offer)" "prefix (state_dir st offer) (pf_staging_path pf)"
  shows "safe.keeps (state_dir st offer) (finalize_folder E st offer m pf)"
proof -
  note records = records_in_state_dir [OF assms(1), of st]
  show ?thesis
    unfolding finalize_folder_eq folder_commit_for_def place_folder_alt finish_folder_def Let_def
    by (intro safe.keeps_rules safe_move_out [OF assms(2)] safe_calls safe_records [OF records] inbox_of_state_dir
        prefix_outer [OF assms(2)])
qed

end
