(* ===== verification/Evaluation.thy ===== *)
theory Evaluation
  imports FileLogic
begin

text \<open>
  Symbolic evaluation: the simplifier runs a program of the store on a concrete tree, in a world
  without faults. The bundles unfold the monad and the calls; the examples of the folder store
  and of the receiving end use them.
\<close>

lemma io_call_clean: "w_fault w = (\<lambda>_. None) \<Longrightarrow> io_call f w =
   (case f (w_fs w) of Inl k \<Rightarrow> (Inl (Io k), tick w) | Inr (x, fs') \<Rightarrow> (Inr x, tick (w\<lparr>w_fs := fs'\<rparr>)))"
  by (simp add: io_call_def)

lemma tick_simps:
  "w_fault (tick w) = w_fault w" "w_fs (tick w) = w_fs w" "w_uuid (tick w) = w_uuid w"
  "w_now (tick w) = w_now w" "(tick w)\<lparr>w_fs := f\<rparr> = tick (w\<lparr>w_fs := f\<rparr>)"
  by (simp_all add: tick_def)

lemmas monad_simps = io_bind_def io_then_def io_match_def io_ret_def io_throw_def io_lift_def
  io_reject_if_def if_not_found_def

lemmas call_simps = io_call_clean tick_simps io_read_def io_symlink_metadata_def io_try_exists_def
  io_metadata_def io_open_def io_open_append_def io_create_new_def io_create_dir_def io_write_def io_append_def
  io_sync_def io_rename_def io_remove_file_def io_read_dir_def io_set_mtime_def io_uuid_def

lemmas sys_simps = sys_read_def sys_symlink_metadata_def sys_try_exists_def sys_metadata_def sys_open_def
  sys_open_append_def sys_create_new_def sys_create_dir_def sys_write_def sys_rename_def sys_remove_file_def
  sys_read_dir_def sys_set_mtime_def resolve_all_def resolve_parent_def at_path_def parent_error_def

lemmas tree_simps = lookup_def put_node_def del_node_def move_tree_def child_names_def set_node_mtime_def
  is_dir_def is_file_def is_symlink_def node_len_def

end
