(* ===== verification/FolderProps.thy ===== *)
theory FolderProps
  imports StoreSafe StoreProps Send Evaluation
begin

text \<open>
  Folder transfers: what \<open>finalize_folder\<close> reports as complete is the offered folder, and the
  checkpoint that \<open>prepare_folder\<close> hands to the sender is one the sender accepts.
\<close>

section \<open>A finished folder\<close>

definition folder_delivered :: "crates \<Rightarrow> store \<Rightarrow> transfer_offer \<Rightarrow> folder_manifest \<Rightarrow> completed_transfer \<Rightarrow> fs \<Rightarrow> bool" where
  "folder_delivered E st offer m c fs \<longleftrightarrow>
     manifest_validate_offer E m offer = Inr () \<and>
     (\<exists>name. safe_name name \<and> ct_destination c = dest st offer name) \<and>
     tree_matches E fs (ct_destination c) m \<and> ct_receipt c = receipt_of (stored_offer_of offer)"

lemma dest_in_inbox:
  fixes st :: store
  shows "prefix (butlast (state_dir st offer)) (dest st offer name)"
  by (simp add: dest_def state_dir_def)

lemma safe_always: "safe.keeps D m \<Longrightarrow> sane fs \<Longrightarrow> always (\<lambda>_. True) m fs (\<lambda>r fs'. sane fs')"
  by (rule any.mono [OF safe_after [where D = D and fs = fs]]) auto

text \<open>Steps whose result does not matter, on the way to something that holds for every error.\<close>

lemma safe_bind:
  assumes "safe.keeps D m" "sane fs" "\<And>e fs'. Q (Inl e) fs'" "\<And>x fs'. sane fs' \<Longrightarrow> always (\<lambda>_. True) (k x) fs' Q"
  shows "always (\<lambda>_. True) (io_bind m k) fs Q"
  by (rule any.bind, rule any.mono [OF safe_always [OF assms(1,2)]]) (use assms(3,4) in \<open>auto split: sum.split\<close>)

lemma safe_then:
  assumes "safe.keeps D m" "sane fs" "\<And>e fs'. Q (Inl e) fs'" "\<And>fs'. sane fs' \<Longrightarrow> always (\<lambda>_. True) k fs' Q"
  shows "always (\<lambda>_. True) (io_then m k) fs Q"
  unfolding io_then_def by (rule safe_bind [OF assms(1,2)]) (use assms(3,4) in auto)

lemma lift_bind:
  assumes "\<And>e. r = Inl e \<Longrightarrow> Q (Inl e) fs" "\<And>x. r = Inr x \<Longrightarrow> always (\<lambda>_. True) (k x) fs Q"
  shows "always (\<lambda>_. True) (io_bind (io_lift r) k) fs Q"
  by (rule any.bind, rule any.lift) (use assms in \<open>auto split: sum.split\<close>)

lemma lift_then:
  assumes "\<And>e. r = Inl e \<Longrightarrow> Q (Inl e) fs" "\<And>x. r = Inr x \<Longrightarrow> always (\<lambda>_. True) k fs Q"
  shows "always (\<lambda>_. True) (io_then (io_lift r) k) fs Q"
  unfolding io_then_def by (rule lift_bind) (use assms in auto)

lemma commit_name_rule:
  assumes "plain_nodes fs"
  shows "always (\<lambda>_. True) (folder_commit_for E st offer m ps) fs
    (\<lambda>r fs'. \<forall>c. r = Inr c \<longrightarrow> safe_name (co_destination c))"
proof -
  have d: "safe_name d" if "d \<in> candidates (so_filename (stored_offer_of offer))" for d
    using candidates_safe [OF _ that] safe_name_safe_filename by (simp add: stored_offer_of_def)
  have named: "always (\<lambda>_. True) (io_then m' (io_ret c)) fs' (\<lambda>r _. \<forall>c. r = Inr c \<longrightarrow> safe_name (co_destination c))"
    if "safe_name (co_destination c)" for m' :: "unit io" and c fs'
    using that by (auto simp: always_def io_then_def io_bind_def io_match_def io_ret_def io_throw_def
        split: prod.splits sum.splits)
  let ?Q = "\<lambda>r fs'. \<forall>c. r = Inr c \<longrightarrow> safe_name (co_destination c)"
  have old: "always (\<lambda>_. True) (io_then (io_lift (ensure_same_offer (stored_offer_of offer) (co_offer c)))
      (io_then (io_lift (ensure_same_manifest m (co_manifest c)))
      (io_then (io_lift (validate_destination_name (co_destination c))) (io_ret c)))) fs ?Q" for c
  proof (cases "validate_destination_name (co_destination c)")
    case (Inr u)
    then show ?thesis
      by (auto intro!: any.thn any.lift any.ret simp: validate_destination_name_iff split: sum.split)
  qed (auto intro!: any.thn any.lift split: sum.split)
  have new: "always (\<lambda>_. True) (io_bind (unique_destination (destination_root st offer) (so_filename (stored_offer_of offer)))
      (\<lambda>n. io_then (atomic_write_json E (sp_commit ps) (commit_record_json
          \<lparr>co_offer = stored_offer_of offer, co_destination = n, co_manifest = Some m\<rparr>))
        (io_ret \<lparr>co_offer = stored_offer_of offer, co_destination = n, co_manifest = Some m\<rparr>))) fs ?Q"
    by (rule any.bind, rule any.unique_destination_rule [OF assms stored_name_safe]) (auto intro!: named d)
  show ?thesis
    unfolding folder_commit_for_def Let_def
    by (rule any.bind, rule any.read_json_rule [OF assms]) (use old new in simp_all)
qed

lemma under_state_dir:
  fixes st :: store
  assumes "dest st offer name \<noteq> state_dir st offer"
  shows "\<not> prefix (dest st offer name) (state_dir st offer @ [x])"
  using assms by (auto simp: dest_def state_dir_def prefix_def)

lemma finish_folder_rule:
  assumes tid: "id_name (to_transfer_id offer)" "to_transfer_id offer \<noteq> []"
    and fs: "plain_nodes fs" "folder_delivered E st offer m
        \<lparr>ct_receipt = receipt_of (stored_offer_of offer), ct_destination = dest st offer name\<rparr> fs"
    and ne: "dest st offer name \<noteq> state_dir st offer"
  shows "always (\<lambda>_. True) (finish_folder E offer m (paths_of st offer) name (dest st offer name)) fs
    (\<lambda>r fs'. \<forall>c. r = Inr c \<longrightarrow> folder_delivered E st offer m c fs')"
proof -
  let ?c = "\<lparr>ct_receipt = receipt_of (stored_offer_of offer), ct_destination = dest st offer name\<rparr>"
  let ?I = "\<lambda>fs. plain_nodes fs \<and> folder_delivered E st offer m ?c fs"
  let ?Q = "\<lambda>r fs'. \<forall>c. r = Inr c \<longrightarrow> folder_delivered E st offer m c fs'"
  obtain a b c d e f where ps: "sp_metadata (paths_of st offer) = state_dir st offer @ [b]"
    "sp_commit (paths_of st offer) = state_dir st offer @ [c]"
    "sp_done (paths_of st offer) = state_dir st offer @ [d]"
    "sp_manifest (paths_of st offer) = state_dir st offer @ [e]"
    by (rule state_paths_in [OF tid(1), of st])
  have agree: "?I fs2" if "?I fs1" "plain_nodes fs2" "agree_except {state_dir st offer @ [x]} fs1 fs2" for fs1 fs2 x
    using that tree_matches_agree [OF that(3)] under_state_dir [OF ne] by (auto simp: folder_delivered_def)
  have remove: "always (\<lambda>_. True) (io_then (remove_if_exists (state_dir st offer @ [x])) k) fs1 ?Q"
    if "?I fs1" "\<And>fs2. ?I fs2 \<Longrightarrow> always (\<lambda>_. True) k fs2 ?Q" for x k fs1
  proof (rule any.thn, rule any.remove_if_exists_rule)
    fix d m'
    have "?I (del_node (state_dir st offer @ [x]) fs1)"
      by (rule agree [OF that(1)]) (use that(1) in \<open>auto intro: plain_nodes_del_node agree_del\<close>)
    then show "case (Inr () :: unit result) of Inl e \<Rightarrow> ?Q (Inl e) (del_node (state_dir st offer @ [x]) fs1)
      | Inr _ \<Rightarrow> always (\<lambda>_. True) k (del_node (state_dir st offer @ [x]) fs1) ?Q"
      using that(2) by simp
  qed (use that in auto)
  show ?thesis
    unfolding finish_folder_def Let_def
  proof (rule any.thn, rule any.atomic_write_rule [OF fs(1) records_of_transfer(3) [OF tid]])
    fix m' fs' assume "plain_nodes fs'" "agree_except {sp_done (paths_of st offer)} fs fs'"
    then have "?I fs'" using agree [of fs fs'] fs unfolding ps by blast
    then show "case (Inr () :: unit result) of Inl e \<Rightarrow> ?Q (Inl e) fs'
      | Inr _ \<Rightarrow> always (\<lambda>_. True) (io_then (remove_if_exists (sp_metadata (paths_of st offer)))
          (io_then (remove_if_exists (sp_manifest (paths_of st offer)))
          (io_then (remove_if_exists (sp_commit (paths_of st offer))) (io_ret ?c)))) fs' ?Q"
      unfolding ps by (auto intro!: remove any.ret)
  qed simp
qed

lemma finalize_folder_rule:
  fixes st :: store
  assumes tid: "id_name (to_transfer_id offer)" "to_transfer_id offer \<noteq> []"
    and fs: "sane fs" and staging: "prefix (state_dir st offer) (pf_staging_path pf)"
  shows "always (\<lambda>_. True) (finalize_folder E st offer m pf) fs
    (\<lambda>r fs'. \<forall>c. r = Inr c \<longrightarrow> ct_destination c \<noteq> state_dir st offer \<longrightarrow> folder_delivered E st offer m c fs')"
proof -
  let ?Q = "\<lambda>r fs'. \<forall>c. r = Inr c \<longrightarrow> ct_destination c \<noteq> state_dir st offer \<longrightarrow> folder_delivered E st offer m c fs'"
  let ?D = "state_dir st offer" and ?ps = "paths_of st offer"
  note records = safe_records [OF records_in_state_dir [OF tid(1), of st]]
  have skip: "always (\<lambda>_. True) (io_then m1 k) fs1 ?Q"
    if "safe.keeps ?D m1" "sane fs1" "\<And>fs2. sane fs2 \<Longrightarrow> always (\<lambda>_. True) k fs2 ?Q" for m1 :: "unit io" and k fs1
    by (rule any.thn, rule any.mono [OF safe_always [OF that(1,2)]]) (use that(3) in \<open>auto split: sum.split\<close>)
  have placed: "always (\<lambda>_. True) (io_then (place_folder E offer m (pf_staging_path pf) (dest st offer name))
      (finish_folder E offer m ?ps name (dest st offer name))) fs1 ?Q"
    if fs1: "sane fs1" and safe: "safe_name name" and ok: "manifest_validate_offer E m offer = Inr ()" for fs1 name
  proof (cases "dest st offer name = ?D")
    case True
    have dest: "\<forall>c. fst (finish_folder E offer m ?ps name (dest st offer name) w) = Inr c \<longrightarrow>
        ct_destination c = dest st offer name" for w
      by (auto simp: finish_folder_def Let_def io_then_def io_bind_def io_match_def io_ret_def io_throw_def
          split: prod.splits sum.splits)
    then have "always (\<lambda>_. True) (finish_folder E offer m ?ps name (dest st offer name)) fs2 ?Q" for fs2
      using True by (auto simp: always_def)
    then show ?thesis
      by (intro any.thn) (auto simp: always_def split: sum.split)
  next
    case False
    let ?d = "dest st offer name"
    let ?c = "\<lparr>ct_receipt = receipt_of (stored_offer_of offer), ct_destination = ?d\<rparr>"
    have last: "always (\<lambda>_. True) (finish_folder E offer m ?ps name ?d) fs2 ?Q"
      if "plain_nodes fs2" "tree_matches E fs2 ?d m" for fs2
      by (rule any.mono [OF finish_folder_rule [OF tid that(1) _ False]])
         (use that ok safe in \<open>auto simp: folder_delivered_def\<close>)
    have touched: "always (\<lambda>_. True) (io_then (apply_modified_time ?d (to_modified_ms offer))
        (finish_folder E offer m ?ps name ?d)) fs2 ?Q"
      if t: "sane fs2" "tree_matches E fs2 ?d m" for fs2
    proof (rule any.thn, unfold apply_modified_time_eq, rule any.set_mtime_rule [OF sane_plain_nodes [OF t(1)]])
      fix n assume n: "lookup fs2 ?d = Some n" "?d \<noteq> []"
      have "\<not> is_symlink (set_node_mtime (to_modified_ms offer mod 2 ^ 64) n)"
          "\<not> is_special (set_node_mtime (to_modified_ms offer mod 2 ^ 64) n)"
        using t n by (cases n; auto simp: is_symlink_def set_node_mtime_def)+
      then show "case (Inr () :: unit result) of Inl e \<Rightarrow> ?Q (Inl e) (put_node ?d (set_node_mtime (to_modified_ms offer mod 2 ^ 64) n) fs2)
        | Inr _ \<Rightarrow> always (\<lambda>_. True) (finish_folder E offer m ?ps name ?d)
            (put_node ?d (set_node_mtime (to_modified_ms offer mod 2 ^ 64) n) fs2) ?Q"
        using last tree_matches_touch [OF n(2,1) t(2)] t(1) n by (simp add: plain_nodes_put_node)
    qed (use last t in \<open>auto simp: dest_def\<close>)
    have checked: "always (\<lambda>_. True) (io_then (io_then (validate_folder_contents E ?d m)
        (apply_modified_time ?d (to_modified_ms offer))) (finish_folder E offer m ?ps name ?d)) fs2 ?Q"
      if "sane fs2" for fs2
      unfolding io_then_def io_bind_assoc
      by (rule any.bind, rule any.mono [OF any.validate_folder_contents_rule [OF sane_plain_nodes [OF that]]])
         (use touched that in \<open>auto simp: io_then_def split: sum.split\<close>)
    have "io_then (place_folder E offer m (pf_staging_path pf) ?d) (finish_folder E offer m ?ps name ?d) =
        io_then (io_bind (io_try_exists ?d) (\<lambda>b. if \<not> b then io_rename (pf_staging_path pf) ?d else io_ret ()))
          (io_then (io_then (validate_folder_contents E ?d m) (apply_modified_time ?d (to_modified_ms offer)))
            (finish_folder E offer m ?ps name ?d))"
      by (simp add: place_folder_alt io_then_def io_bind_assoc)
    then show ?thesis
      using skip [OF safe_move_out [OF staging dest_in_inbox] fs1 checked] by simp
  qed
  have commit: "always (\<lambda>_. True) (io_bind (folder_commit_for E st offer m ?ps) (\<lambda>c.
      io_then (place_folder E offer m (pf_staging_path pf) (destination_root st offer @ [co_destination c]))
        (finish_folder E offer m ?ps (co_destination c) (destination_root st offer @ [co_destination c])))) fs1 ?Q"
    if "sane fs1" "manifest_validate_offer E m offer = Inr ()" for fs1
  proof (rule any.bind, rule any.mono [OF any.conj [OF commit_name_rule [OF sane_plain_nodes [OF that(1)]]]])
    show "always (\<lambda>_. True) (folder_commit_for E st offer m ?ps) fs1 (\<lambda>r fs'. sane fs')"
      unfolding folder_commit_for_def Let_def
      by (rule safe_always [where D = ?D]) (intro safe.keeps_rules safe_calls records, rule that(1))
    fix r :: "commit_record result" and fs'
    assume "(\<forall>c. r = Inr c \<longrightarrow> safe_name (co_destination c)) \<and> sane fs'"
    then show "case r of Inl e \<Rightarrow> ?Q (Inl e) fs' | Inr c \<Rightarrow> always (\<lambda>_. True)
      (io_then (place_folder E offer m (pf_staging_path pf) (destination_root st offer @ [co_destination c]))
        (finish_folder E offer m ?ps (co_destination c) (destination_root st offer @ [co_destination c]))) fs' ?Q"
      using placed that(2) by (cases r) (auto simp: dest_def)
  qed
  show ?thesis
    unfolding finalize_folder_eq Let_def
  proof (rule any.thn, rule any.lift)
    show "case manifest_validate_offer E m offer of Inl e \<Rightarrow> ?Q (Inl e) fs
      | Inr _ \<Rightarrow> always (\<lambda>_. True) (io_then (create_manifest_directories (pf_staging_path pf) m)
          (io_then (validate_folder_contents E (pf_staging_path pf) m)
          (io_then (apply_manifest_times (pf_staging_path pf) m)
          (io_bind (folder_commit_for E st offer m ?ps) (\<lambda>c.
             io_then (place_folder E offer m (pf_staging_path pf) (destination_root st offer @ [co_destination c]))
              (finish_folder E offer m ?ps (co_destination c) (destination_root st offer @ [co_destination c]))))))) fs ?Q"
    proof (cases "manifest_validate_offer E m offer")
      case (Inr u)
      then show ?thesis
        using commit
        by (auto intro!: skip safe_calls prefix_outer [OF staging] fs)
    qed simp
  qed
qed

section \<open>The checkpoint\<close>

definition entry_path :: "path \<Rightarrow> folder_entry \<Rightarrow> path" where
  "entry_path root e = root @ split_on CHR ''/'' (fe_path e)"

lemma entry_path_inj: "entry_path root e = entry_path root e' \<longleftrightarrow> fe_path e = fe_path e'"
  by (auto simp: entry_path_def) (metis join_with_split_on)

lemma folder_entry_path_is: "folder_entry_path root (fe_path e) = Inr p \<Longrightarrow> p = entry_path root e"
  using folder_entry_path_resolve [of root "fe_path e" p] by (simp add: entry_path_def)

text \<open>The nodes of \<open>fs\<close>, with the paths in \<open>S\<close> apart, are in \<open>fs'\<close> as well.\<close>

definition keeps_nodes :: "path set \<Rightarrow> fs \<Rightarrow> fs \<Rightarrow> bool" where
  "keeps_nodes S fs fs' \<longleftrightarrow> (\<forall>p n. p \<notin> S \<longrightarrow> lookup fs p = Some n \<longrightarrow> lookup fs' p = Some n)"

lemma keeps_nodes_refl [simp]: "keeps_nodes S fs fs"
  by (simp add: keeps_nodes_def)

lemma keeps_nodes_trans: "keeps_nodes S fs fs' \<Longrightarrow> keeps_nodes T fs' fs'' \<Longrightarrow> keeps_nodes (S \<union> T) fs fs''"
  by (auto simp: keeps_nodes_def)

lemma keeps_nodes_mono: "keeps_nodes S fs fs' \<Longrightarrow> S \<subseteq> T \<Longrightarrow> keeps_nodes T fs fs'"
  by (auto simp: keeps_nodes_def)

lemma create_or_check_rule:
  assumes "sane fs"
  shows "always (\<lambda>_. True) (create_or_check_dir p) fs (\<lambda>r fs'. sane fs' \<and> keeps_nodes {} fs fs')"
proof -
  have "always (\<lambda>_. True) (io_create_dir p) fs (\<lambda>r fs'. keeps_nodes {} fs fs' \<and> (\<forall>e. r = Inl e \<longrightarrow> fs' = fs))"
    unfolding io_create_dir_def
  proof (rule any.fs_call_at)
    fix u t fs' assume "sys_create_dir t p fs = Inr (u, fs')"
    then have "lookup fs p = None" "fs' = put_node p (DirN t) fs"
      using assms by (auto simp: sys_create_dir_def split: option.splits)
    then show "keeps_nodes {} fs fs' \<and> (\<forall>e. Inr u = Inl e \<longrightarrow> fs' = fs)"
      by (cases "p = []") (auto simp: keeps_nodes_def)
  qed auto
  then have "always (\<lambda>_. True) (create_or_check_dir p) fs (\<lambda>r fs'. keeps_nodes {} fs fs')"
    unfolding create_or_check_dir_def
    by (intro any.match, elim any.mono)
       (auto split: sum.split intro!: any.ret any.throw any.ensure_directory_exists_rule
         simp: sane_plain_nodes [OF assms])
  then show ?thesis
    using any.conj [OF safe_always [OF safe_directories(1) [of "[]"] assms]] by simp
qed

lemma create_components_rule:
  "sane fs \<Longrightarrow> always (\<lambda>_. True) (create_components p cs) fs (\<lambda>r fs'. sane fs' \<and> keeps_nodes {} fs fs')"
proof (induction cs arbitrary: p fs)
  case (Cons c cs)
  have "always (\<lambda>_. True) (create_components (path_join p c) cs) fs1 (\<lambda>r fs'. sane fs' \<and> keeps_nodes {} fs fs')"
    if "sane fs1" "keeps_nodes {} fs fs1" for fs1
    by (rule any.mono [OF Cons.IH [OF that(1)]]) (use keeps_nodes_trans [OF that(2)] in auto)
  then show ?case
    unfolding create_components.simps
    by (intro any.thn, intro any.mono [OF create_or_check_rule [OF Cons.prems]]) (auto split: sum.split)
qed (auto intro: any.ret)

lemma safe_parents_rule:
  assumes "sane fs"
  shows "always (\<lambda>_. True) (ensure_safe_parent_directories root relative) fs
    (\<lambda>r fs'. sane fs' \<and> keeps_nodes {} fs fs')"
proof -
  have "always (\<lambda>_. True) (io_then (ensure_directory_exists root)
      (create_components root (butlast (split_on CHR ''/'' relative)))) fs (\<lambda>r fs'. sane fs' \<and> keeps_nodes {} fs fs')"
    by (rule any.thn, rule any.ensure_directory_exists_rule [OF sane_plain_nodes [OF assms]])
       (use assms in \<open>auto intro!: create_components_rule\<close>)
  then show ?thesis
    unfolding ensure_safe_parent_directories_def
    by (intro any.thn any.lift) (use assms in \<open>auto split: sum.split\<close>)
qed

text \<open>What the checkpoint of a transfer says: \<open>k\<close> files are complete and the next has \<open>offset\<close> bytes.\<close>

definition checkpoint_of :: "crates \<Rightarrow> path \<Rightarrow> folder_entry list \<Rightarrow> nat \<Rightarrow> nat \<Rightarrow> prepared_folder \<Rightarrow> fs \<Rightarrow> bool" where
  "checkpoint_of E root es i n pf fs \<longleftrightarrow>
     pf_staging_path pf = root \<and>
     (\<exists>k \<le> length es. pf_file_index pf = i + k \<and>
        checked_sum n (map fe_size (take k es)) = Some (pf_completed pf) \<and>
        (\<forall>e \<in> set (take k es). entry_at E fs (entry_path root e) e) \<and>
        (if k = length es then pf_offset pf = 0
         else pf_offset pf \<le> fe_size (es ! k) \<and>
           (pf_offset pf \<noteq> 0 \<longrightarrow> (\<exists>d t. lookup fs (entry_path root (es ! k)) = Some (FileN d t) \<and> length d = pf_offset pf))))"

lemma checkpoint_done: "checkpoint_of E root [] i n \<lparr>pf_staging_path = root, pf_file_index = i, pf_offset = 0, pf_completed = n\<rparr> fs"
  by (simp add: checkpoint_of_def)

lemma checkpoint_here:
  assumes "off \<le> fe_size e" "off \<noteq> 0 \<Longrightarrow> \<exists>d t. lookup fs (entry_path root e) = Some (FileN d t) \<and> length d = off"
  shows "checkpoint_of E root (e # es) i n \<lparr>pf_staging_path = root, pf_file_index = i, pf_offset = off, pf_completed = n\<rparr> fs"
  unfolding checkpoint_of_def using assms by (auto intro!: exI [of _ 0])

lemma checkpoint_next:
  assumes "checkpoint_of E root es (Suc i) n' pf fs" "checked_add_u64 n (fe_size e) = Some n'"
    and "entry_at E fs (entry_path root e) e"
  shows "checkpoint_of E root (e # es) i n pf fs"
proof -
  from assms(1) obtain k where "k \<le> length es" "pf_file_index pf = Suc i + k"
    "checked_sum n' (map fe_size (take k es)) = Some (pf_completed pf)"
    "\<forall>e \<in> set (take k es). entry_at E fs (entry_path root e) e"
    "if k = length es then pf_offset pf = 0
     else pf_offset pf \<le> fe_size (es ! k) \<and>
       (pf_offset pf \<noteq> 0 \<longrightarrow> (\<exists>d t. lookup fs (entry_path root (es ! k)) = Some (FileN d t) \<and> length d = pf_offset pf))"
    and "pf_staging_path pf = root"
    by (auto simp: checkpoint_of_def)
  moreover from this have "checked_sum n (map fe_size (take (Suc k) (e # es))) = Some (pf_completed pf)"
    by (simp only: take_Suc_Cons list.map checked_sum.simps assms(2) Option.bind.bind_lunit)
  ultimately show ?thesis
    unfolding checkpoint_of_def using assms(3) by (intro conjI exI [of _ "Suc k"]) (auto simp del: checked_sum.simps)
qed

lemma checkpoint_rule:
  assumes "sane fs" "distinct (map fe_path es)" "\<forall>e \<in> set es. fe_kind e = FileEntry"
  shows "always (\<lambda>_. True) (folder_checkpoint E root es i n) fs
    (\<lambda>r fs'. keeps_nodes (entry_path root ` set es) fs fs' \<and> (\<forall>pf. r = Inr pf \<longrightarrow> checkpoint_of E root es i n pf fs'))"
  using assms
proof (induction es arbitrary: i n fs)
  case Nil
  then show ?case by (auto intro!: any.ret checkpoint_done)
next
  case (Cons e es)
  let ?p = "entry_path root e"
  let ?Q = "\<lambda>r fs'. keeps_nodes (entry_path root ` set (e # es)) fs fs' \<and>
      (\<forall>pf. r = Inr pf \<longrightarrow> checkpoint_of E root (e # es) i n pf fs')"
  let ?here = "\<lambda>off. \<lparr>pf_staging_path = root, pf_file_index = i, pf_offset = off, pf_completed = n\<rparr>"
  have mono: "keeps_nodes (entry_path root ` set (e # es)) fs fs1" if "keeps_nodes {} fs fs1" for fs1
    using that by (rule keeps_nodes_mono) simp
  have rest: "always (\<lambda>_. True) (folder_checkpoint E root es (Suc i) n') fs1 ?Q"
    if fs1: "sane fs1" "keeps_nodes {} fs fs1" and e: "checked_add_u64 n (fe_size e) = Some n'" "entry_at E fs1 ?p e" for fs1 n'
  proof (rule any.mono [OF Cons.IH [OF fs1(1)]])
    fix r :: "prepared_folder result" and fs'
    assume r: "keeps_nodes (entry_path root ` set es) fs1 fs' \<and>
      (\<forall>pf. r = Inr pf \<longrightarrow> checkpoint_of E root es (Suc i) n' pf fs')"
    have "?p \<notin> entry_path root ` set es" using Cons.prems(2) by (auto simp: entry_path_inj)
    then have "entry_at E fs' ?p e"
      using r e(2) unfolding entry_at_def keeps_nodes_def by (auto split: folder_entry_kind.splits)
    then show "?Q r fs'"
      using r e(1) keeps_nodes_trans [OF fs1(2), of "entry_path root ` set es" fs']
      by (auto intro!: checkpoint_next elim: keeps_nodes_mono)
  qed (use Cons.prems in simp_all)
  have whole: "always (\<lambda>_. True) (io_bind (blake3_file_hex E ?p) (\<lambda>digest.
      if digest \<noteq> fe_blake3 e then io_then (remove_if_exists ?p) (io_ret (?here 0))
      else io_bind (io_lift (ok_or (checked_add_u64 n (fe_size e)) (InvalidTransfer ''folder checkpoint size overflow'')))
             (\<lambda>completed'. folder_checkpoint E root es (Suc i) completed'))) fs1 ?Q"
    if fs1: "sane fs1" "keeps_nodes {} fs fs1" and m: "lookup fs1 ?p = Some nd" "is_file nd" "node_len nd = fe_size e" for fs1 nd
  proof (rule any.bind, rule any.blake3_file_hex_rule [OF sane_plain_nodes [OF fs1(1)]])
    fix d t assume d: "lookup fs1 ?p = Some (FileN d t)"
    have gone: "keeps_nodes (entry_path root ` set (e # es)) fs (del_node ?p fs1)" if "?p \<noteq> []"
      using fs1(2) that by (auto simp: keeps_nodes_def)
    have bad: "always (\<lambda>_. True) (io_then (remove_if_exists ?p) (io_ret (?here 0))) fs1 ?Q"
      by (rule any.thn, rule any.remove_if_exists_rule [OF sane_plain_nodes [OF fs1(1)]])
         (use mono [OF fs1(2)] gone in \<open>auto intro!: any.ret checkpoint_here\<close>)
    have at: "entry_at E fs1 ?p e" if "hex_encode E (blake3_hash E d) = fe_blake3 e"
      using that d m Cons.prems(3) by (simp add: entry_at_def node_len_def)
    have good: "always (\<lambda>_. True) (io_bind (io_lift (ok_or (checked_add_u64 n (fe_size e))
        (InvalidTransfer ''folder checkpoint size overflow''))) (\<lambda>n'. folder_checkpoint E root es (Suc i) n')) fs1 ?Q"
      if "hex_encode E (blake3_hash E d) = fe_blake3 e"
      by (rule any.bind, rule any.lift)
         (use rest [OF fs1 _ at [OF that]] mono [OF fs1(2)] in \<open>auto simp: ok_or_def split: option.split\<close>)
    show "case Inr (hex_encode E (blake3_hash E d)) of Inl e \<Rightarrow> ?Q (Inl e) fs1
      | Inr digest \<Rightarrow> always (\<lambda>_. True)
          (if digest \<noteq> fe_blake3 e then io_then (remove_if_exists ?p) (io_ret (?here 0))
           else io_bind (io_lift (ok_or (checked_add_u64 n (fe_size e)) (InvalidTransfer ''folder checkpoint size overflow'')))
             (\<lambda>completed'. folder_checkpoint E root es (Suc i) completed')) fs1 ?Q"
      using good bad by simp
  qed (use mono [OF fs1(2)] in auto)
  have step: "always (\<lambda>_. True) (io_match (io_symlink_metadata ?p)
      (\<lambda>m. io_reject_if (is_symlink m \<or> \<not> is_file m) (InvalidTransfer ''folder checkpoint contains a non-regular file'')
        (io_reject_if (fe_size e < node_len m) (InvalidTransfer ''folder checkpoint file is larger than declared'')
        (if node_len m < fe_size e then io_ret (?here (node_len m))
         else io_bind (blake3_file_hex E ?p) (\<lambda>digest.
           if digest \<noteq> fe_blake3 e then io_then (remove_if_exists ?p) (io_ret (?here 0))
           else io_bind (io_lift (ok_or (checked_add_u64 n (fe_size e)) (InvalidTransfer ''folder checkpoint size overflow'')))
             (\<lambda>completed'. folder_checkpoint E root es (Suc i) completed')))))
      (if_not_found (io_ret (?here 0)))) fs1 ?Q"
    if fs1: "sane fs1" "keeps_nodes {} fs fs1" for fs1
  proof (rule any.match, rule any.symlink_metadata_rule [OF sane_plain_nodes [OF fs1(1)]])
    fix nd assume nd: "lookup fs1 ?p = Some nd"
    have short: "checkpoint_of E root (e # es) i n (?here (node_len nd)) fs1" if "is_file nd" "node_len nd < fe_size e"
      using that nd by (intro checkpoint_here) (auto simp: is_file_def node_len_def split: node.splits)
    show "case Inr nd of Inl e' \<Rightarrow> always (\<lambda>_. True) (if_not_found (io_ret (?here 0)) e') fs1 ?Q
      | Inr m \<Rightarrow> always (\<lambda>_. True) (io_reject_if (is_symlink m \<or> \<not> is_file m) (InvalidTransfer ''folder checkpoint contains a non-regular file'')
        (io_reject_if (fe_size e < node_len m) (InvalidTransfer ''folder checkpoint file is larger than declared'')
        (if node_len m < fe_size e then io_ret (?here (node_len m))
         else io_bind (blake3_file_hex E ?p) (\<lambda>digest.
           if digest \<noteq> fe_blake3 e then io_then (remove_if_exists ?p) (io_ret (?here 0))
           else io_bind (io_lift (ok_or (checked_add_u64 n (fe_size e)) (InvalidTransfer ''folder checkpoint size overflow'')))
             (\<lambda>completed'. folder_checkpoint E root es (Suc i) completed'))))) fs1 ?Q"
      unfolding sum.case
      by (intro any.reject_if) (use mono [OF fs1(2)] short whole [OF fs1 nd] in \<open>auto intro!: any.ret\<close>)
  qed (use mono [OF fs1(2)] in \<open>auto simp: if_not_found_def intro!: any.ret any.throw checkpoint_here\<close>)
  show ?case
  proof (cases "folder_entry_path root (fe_path e)")
    case (Inl err)
    then show ?thesis by (auto simp: Let_def intro!: any.bind any.lift)
  next
    case (Inr p)
    then have p: "p = ?p" by (rule folder_entry_path_is)
    show ?thesis
      unfolding folder_checkpoint.simps Let_def Inr p
      by (rule any.bind, rule any.lift, simp only: sum.case, rule any.thn,
          rule any.mono [OF safe_parents_rule [OF Cons.prems(1)]])
         (use step mono in \<open>auto split: sum.split\<close>)
  qed
qed

lemma prepare_folder_rule:
  assumes fs: "sane fs"
  shows "always (\<lambda>_. True) (prepare_folder E st offer m) fs
    (\<lambda>r fs'. \<forall>pf. r = Inr (FolderResumed pf) \<longrightarrow>
       checkpoint_of E (sp_folder_part (paths_of st offer)) (file_entries m) 0 0 pf fs')"
proof -
  let ?ps = "paths_of st offer" and ?D = "[] :: path"
  note records = safe_records [OF records_in_root]
  let ?Q = "\<lambda>r fs'. \<forall>pf. r = Inr (FolderResumed pf) \<longrightarrow>
       checkpoint_of E (sp_folder_part ?ps) (file_entries m) 0 0 pf fs'"
  have checkpoint: "always (\<lambda>_. True) (io_bind (folder_checkpoint E (sp_folder_part ?ps) (file_entries m) 0 0)
      (\<lambda>pf. io_ret (FolderResumed pf))) fs1 ?Q"
    if "sane fs1" "manifest_validate_offer E m offer = Inr ()" for fs1
  proof (rule any.bind, rule any.mono [OF checkpoint_rule [OF that(1)]])
    have "distinct (map fe_path (fm_entries m))"
      using that(2) by (auto simp: manifest_validate_offer_Inr validate_manifest_tree manifest_tree_def strict_sorted_iff)
    then show "distinct (map fe_path (file_entries m))"
      by (simp add: file_entries_def distinct_map_filter)
  qed (auto simp: file_entries_def split: sum.split intro!: any.ret)
  have staging: "always (\<lambda>_. True) (prepare_staging E offer m ?ps) fs1 ?Q"
    if "sane fs1" "manifest_validate_offer E m offer = Inr ()" for fs1
    unfolding prepare_staging_def
  proof (rule safe_bind [OF safe_read_json that(1)], simp)
    fix stored fs2 assume fs2: "sane fs2"
    show "always (\<lambda>_. True) (io_then
       (case stored of
          Some s \<Rightarrow>
            io_then (io_lift (ensure_same_offer (stored_offer_of offer) s))
            (io_bind (read_json_optional E as_folder_manifest (sp_manifest ?ps)) (\<lambda>sm.
             io_bind (io_lift (ok_or sm (InvalidTransfer ''folder transfer manifest is missing''))) (\<lambda>sm'.
             io_lift (ensure_same_manifest m (Some sm')))))
        | None \<Rightarrow>
            io_then (remove_dir_all_if_exists (sp_folder_part ?ps))
            (io_then (remove_if_exists (sp_manifest ?ps))
            (io_then (atomic_write_json E (sp_metadata ?ps) (stored_offer_json (stored_offer_of offer)))
            (atomic_write_json E (sp_manifest ?ps) (folder_manifest_json m)))))
     (io_then (ensure_directory (sp_folder_part ?ps))
     (io_bind (folder_checkpoint E (sp_folder_part ?ps) (file_entries m) 0 0) (\<lambda>pf.
      io_ret (FolderResumed pf))))) fs2 ?Q"
    proof (rule safe_then [where D = ?D, OF _ fs2])
      show "safe.keeps ?D (case stored of
          Some s \<Rightarrow>
            io_then (io_lift (ensure_same_offer (stored_offer_of offer) s))
            (io_bind (read_json_optional E as_folder_manifest (sp_manifest ?ps)) (\<lambda>sm.
             io_bind (io_lift (ok_or sm (InvalidTransfer ''folder transfer manifest is missing''))) (\<lambda>sm'.
             io_lift (ensure_same_manifest m (Some sm')))))
        | None \<Rightarrow>
            io_then (remove_dir_all_if_exists (sp_folder_part ?ps))
            (io_then (remove_if_exists (sp_manifest ?ps))
            (io_then (atomic_write_json E (sp_metadata ?ps) (stored_offer_json (stored_offer_of offer)))
            (atomic_write_json E (sp_manifest ?ps) (folder_manifest_json m)))))"
        by (intro safe.keeps_rules safe_calls records)
    next
      fix fs3 assume "sane fs3"
      then show "always (\<lambda>_. True) (io_then (ensure_directory (sp_folder_part ?ps))
         (io_bind (folder_checkpoint E (sp_folder_part ?ps) (file_entries m) 0 0) (\<lambda>pf.
          io_ret (FolderResumed pf)))) fs3 ?Q"
        by (rule safe_then [OF records(14)]) (use checkpoint that(2) in simp_all)
    qed simp
  qed
  have commit: "always (\<lambda>_. True) (prepare_folder_commit E st offer m ?ps) fs1 ?Q"
    if "sane fs1" "manifest_validate_offer E m offer = Inr ()" for fs1
  proof -
    have "always (\<lambda>_. True) (io_bind (recover_folder_commit E st c ?ps) (\<lambda>r. case r of
        Some completed \<Rightarrow> io_ret (FolderComplete completed) | None \<Rightarrow> prepare_staging E offer m ?ps)) fs2 ?Q"
      if fs2: "sane fs2" for fs2 c
    proof (rule safe_bind [where D = ?D, OF _ fs2])
      show "safe.keeps ?D (recover_folder_commit E st c ?ps)"
        unfolding recover_folder_commit_eq Let_def by (intro safe.keeps_rules safe_calls records)
    qed (use staging \<open>manifest_validate_offer E m offer = Inr ()\<close> in \<open>auto split: option.split intro!: any.ret\<close>)
    then show ?thesis
      unfolding prepare_folder_commit_def
      by (intro safe_bind [OF safe_read_json that(1)])
         (use staging that(2) in \<open>auto split: option.split intro!: lift_then\<close>)
  qed
  have completed: "always (\<lambda>_. True) (io_bind (validate_completed_folder E st d) (\<lambda>r. case r of
      Some completed \<Rightarrow> io_ret (FolderComplete completed)
    | None \<Rightarrow> io_then (remove_if_exists (sp_done ?ps)) (prepare_folder_commit E st offer m ?ps))) fs1 ?Q"
    if "sane fs1" "manifest_validate_offer E m offer = Inr ()" for fs1 d
  proof (rule safe_bind [where D = ?D, OF _ that(1)])
    show "safe.keeps ?D (validate_completed_folder E st d)"
      unfolding validate_completed_folder_eq Let_def by (intro safe.keeps_rules safe_calls)
    fix x fs2 assume fs2: "sane fs2"
    have "always (\<lambda>_. True) (io_then (remove_if_exists (sp_done ?ps)) (prepare_folder_commit E st offer m ?ps)) fs2 ?Q"
      by (rule safe_then [where D = ?D, OF _ fs2]) (use commit that(2) in \<open>auto intro: records\<close>)
    then show "always (\<lambda>_. True) (case x of Some completed \<Rightarrow> io_ret (FolderComplete completed)
      | None \<Rightarrow> io_then (remove_if_exists (sp_done ?ps)) (prepare_folder_commit E st offer m ?ps)) fs2 ?Q"
      by (cases x) (auto intro: any.ret)
  qed simp
  have start: "always (\<lambda>_. True) (io_bind (read_json_optional E as_done_record (sp_done ?ps)) (\<lambda>d.
      case d of
        None \<Rightarrow> prepare_folder_commit E st offer m ?ps
      | Some record \<Rightarrow>
          io_then (io_lift (ensure_same_offer (stored_offer_of offer) (do_offer record)))
          (io_then (io_lift (ensure_same_manifest m (do_manifest record)))
          (io_bind (validate_completed_folder E st record) (\<lambda>r.
           case r of
             Some completed \<Rightarrow> io_ret (FolderComplete completed)
           | None \<Rightarrow> io_then (remove_if_exists (sp_done ?ps)) (prepare_folder_commit E st offer m ?ps)))))) fs ?Q"
    if "manifest_validate_offer E m offer = Inr ()"
    by (rule safe_bind [OF safe_read_json fs]) (use commit completed that in \<open>auto split: option.split intro!: lift_then\<close>)
  show ?thesis
    unfolding prepare_folder_def Let_def by (intro lift_then start) auto
qed

section \<open>An example\<close>

text \<open>A folder with one file of two bytes: staged in part, and staged completely.\<close>

definition sample_folder_manifest :: folder_manifest where
  "sample_folder_manifest = \<lparr>fm_version = 1, fm_entries =
     [\<lparr>fe_path = ''b'', fe_kind = FileEntry, fe_size = 2, fe_modified_ms = 5,
        fe_blake3 = hex_encode sample_crates (blake3_hash sample_crates [8, 9])\<rparr>]\<rparr>"

definition sample_folder_offer :: transfer_offer where
  "sample_folder_offer = sample_signed_offer\<lparr>to_kind := FolderV1, to_size := 2, to_filename := ''f'',
     to_blake3 := hex_encode sample_crates (blake3_hash sample_crates
       (FOLDER_MANIFEST_DOMAIN @ to_vec sample_crates (folder_manifest_json sample_folder_manifest)))\<rparr>"

lemma sample_digest_ok: "valid_blake3 (hex_encode sample_crates (blake3_hash sample_crates d))"
  using sample_hex_lower sample_blake3_sizes
  by (simp add: valid_blake3_def hex_lower_def blake3_sizes_def)

lemma sample_folder_offer_valid: "offer_validate sample_crates sample_folder_offer = Inr ()"
proof -
  have verify: "ed25519_verify sample_crates k m s = ed25519_verify sample_crates k m' s" for k m m' s
    by (simp add: sample_crates_def)
  have sz: "MAX_FILE_SIZE \<ge> 2" by (simp add: MAX_FILE_SIZE_def)
  show ?thesis
    using sample_signed_offer_valid verify [of _ "offer_signing_bytes sample_crates sample_folder_offer" _
        "offer_signing_bytes sample_crates sample_signed_offer"] sz
    by (auto simp: offer_validate_def sample_folder_offer_def sample_digest_ok result_simps Let_def)
qed

lemma sample_folder_manifest_valid:
  "manifest_validate_offer sample_crates sample_folder_manifest sample_folder_offer = Inr ()"
proof -
  have r: "validate_folder_relative_path ''b'' = Inr ()" "folder_ancestors (canonical_folder_path sample_crates ''b'') = []"
    by code_simp+
  have "manifest_tree sample_crates (fm_entries sample_folder_manifest)"
    using r by (simp add: manifest_tree_def sample_folder_manifest_def sample_digest_ok entry_canon_def)
  then show ?thesis
    by (simp add: manifest_validate_offer_Inr validate_manifest_tree sample_folder_offer_def)
       (simp add: sample_folder_manifest_def MAX_FOLDER_ENTRIES_def MAX_FILE_SIZE_def)
qed


definition sample_record :: "string \<Rightarrow> path" where
  "sample_record ext = [''in'', ''.inkhole-transfers'', replicate 36 CHR ''0'' @ ext]"

definition sample_half_staged :: fs where
  "sample_half_staged =
     [([''in''], DirN 0), ([''in'', ''.inkhole-transfers''], DirN 0),
      (sample_record ''.folder.part'', DirN 0), (sample_record ''.folder.part'' @ [''b''], FileN [8] 0),
      (sample_record ''.json'', FileN (to_vec sample_crates (stored_offer_json (stored_offer_of sample_folder_offer))) 0),
      (sample_record ''.manifest.json'', FileN (to_vec sample_crates (folder_manifest_json sample_folder_manifest)) 0)]"

definition sample_staged :: fs where
  "sample_staged =
     [([''in''], DirN 0), ([''in'', ''.inkhole-transfers''], DirN 0),
      (sample_record ''.folder.part'', DirN 0), (sample_record ''.folder.part'' @ [''b''], FileN [8, 9] 0)]"

definition sample_prepared :: prepared_folder where
  "sample_prepared =
     \<lparr>pf_staging_path = sample_record ''.folder.part'', pf_file_index = 0, pf_offset = 1, pf_completed = 0\<rparr>"

lemma sample_folder_tid:
  "to_transfer_id sample_folder_offer = replicate 36 CHR ''0''"
  "destination_root sample_store sample_folder_offer = [''in'']"
  by (simp_all add: sample_folder_offer_def destination_root_def root_for_def sample_store_def Let_def
      split: file_category.split)

lemma sample_folder_paths:
  "sp_metadata (paths_of sample_store sample_folder_offer) = sample_record ''.json''"
  "sp_commit (paths_of sample_store sample_folder_offer) = sample_record ''.commit.json''"
  "sp_done (paths_of sample_store sample_folder_offer) = sample_record ''.done.json''"
  "sp_manifest (paths_of sample_store sample_folder_offer) = sample_record ''.manifest.json''"
  "sp_folder_part (paths_of sample_store sample_folder_offer) = sample_record ''.folder.part''"
  using paths_of_simps [of sample_folder_offer sample_store]
  by (simp_all add: sample_folder_tid sample_record_def STATE_DIRECTORY_def id_name_def)

lemma sample_folder_temps:
  "with_extension (sample_record ''.commit.json'') u = sample_record (''.commit.'' @ u)"
  "with_extension (sample_record ''.done.json'') u = sample_record (''.done.'' @ u)"
  using with_extension_two [of "[''in'']" "''.inkhole-transfers''"] by (simp_all add: sample_record_def)

lemma sample_folder_sane: "sane sample_half_staged" "sane sample_staged"
proof -
  have "connected sample_half_staged" "connected sample_staged"
    unfolding connected_def sample_half_staged_def sample_staged_def
    by (auto simp: lookup_def sample_record_def split: if_splits)
  moreover have "plain_nodes sample_half_staged" "plain_nodes sample_staged"
    by (simp_all add: plain_nodes_def lookup_def sample_half_staged_def sample_staged_def)
  ultimately show "sane sample_half_staged" "sane sample_staged" by (simp_all add: sane_def)
qed

lemma sample_folder_stored:
  "bind_r (from_slice sample_crates (to_vec sample_crates (stored_offer_json (stored_offer_of sample_folder_offer)))) as_stored_offer =
     Inr (stored_offer_of sample_folder_offer)"
  "bind_r (from_slice sample_crates (to_vec sample_crates (folder_manifest_json sample_folder_manifest))) as_folder_manifest =
     Inr sample_folder_manifest"
proof -
  have j: "from_slice sample_crates (to_vec sample_crates v) = Inr v" for v
    using sample_json_roundtrip by (simp add: json_roundtrip_def from_slice_def to_vec_def)
  have "stored_offer_range (stored_offer_of sample_folder_offer)"
    using offer_range [OF sample_offer_of_data]
    by (simp add: stored_offer_range_def stored_offer_of_def sample_folder_offer_def u64_max_def)
  then show "bind_r (from_slice sample_crates (to_vec sample_crates (stored_offer_json (stored_offer_of sample_folder_offer)))) as_stored_offer =
     Inr (stored_offer_of sample_folder_offer)" by (simp add: j)
  show "bind_r (from_slice sample_crates (to_vec sample_crates (folder_manifest_json sample_folder_manifest))) as_folder_manifest =
     Inr sample_folder_manifest"
    using as_folder_manifest_json [of sample_folder_manifest]
    by (simp add: j folder_manifest_range_def folder_entry_range_def sample_folder_manifest_def in_i64_def u64_max_def u16_max_def)
qed

lemma sample_folder_facts:
  "validate_folder_relative_path ''b'' = Inr ()" "split_on CHR ''/'' ''b'' = [''b'']"
  "so_filename (stored_offer_of sample_folder_offer) = ''f''"
  "validate_manifest sample_crates sample_folder_manifest = Inr 2"
  "fm_entries sample_folder_manifest = [\<lparr>fe_path = ''b'', fe_kind = FileEntry, fe_size = 2, fe_modified_ms = 5,
     fe_blake3 = hex_encode sample_crates (blake3_hash sample_crates [8, 9])\<rparr>]"
proof -
  show "validate_folder_relative_path ''b'' = Inr ()" "split_on CHR ''/'' ''b'' = [''b'']" by code_simp+
  have "safe_filename ''f'' = ''f''" by code_simp
  then show "so_filename (stored_offer_of sample_folder_offer) = ''f''"
    by (simp add: stored_offer_of_def sample_folder_offer_def)
  show "validate_manifest sample_crates sample_folder_manifest = Inr 2"
    using sample_folder_manifest_valid by (simp add: manifest_validate_offer_Inr) (simp add: sample_folder_offer_def)
qed (simp add: sample_folder_manifest_def)

lemmas folder_run = monad_simps call_simps sys_simps tree_simps Let_def ok_or_def sample_record_def sample_folder_paths
  sample_folder_temps [unfolded sample_record_def] sample_folder_facts sample_folder_offer_valid sample_folder_manifest_valid sample_folder_stored
  sample_folder_tid read_json_optional_def file_entries_def folder_entry_path_split child_relative_def
  ensure_directory_exists_def ensure_directory_def ensure_safe_parent_directories_def blake3_file_hex_def
  apply_modified_time_eq expected_entries_def plain_name_def

lemma sample_checkpoint_run:
  "fst (prepare_folder sample_crates sample_store sample_folder_offer sample_folder_manifest
     (sample_world\<lparr>w_fs := sample_half_staged\<rparr>)) = Inr (FolderResumed sample_prepared)"
  by (simp add: prepare_folder_def prepare_folder_commit_def prepare_staging_def ensure_same_offer_def
      ensure_same_manifest_def sample_half_staged_def sample_world_def sample_prepared_def folder_run)

lemma sample_finalize_run:
  "fst (finalize_folder sample_crates sample_store sample_folder_offer sample_folder_manifest sample_prepared
     (sample_world\<lparr>w_fs := sample_staged\<rparr>)) =
   Inr \<lparr>ct_receipt = receipt_of (stored_offer_of sample_folder_offer), ct_destination = [''in'', ''f'']\<rparr>"
  by (simp add: finalize_folder_eq create_manifest_directories_def validate_folder_contents_def
      apply_manifest_times_def folder_commit_for_def unique_destination_def atomic_write_json_def place_folder_def
      finish_folder_def remove_if_exists_def sample_staged_def sample_world_def sample_prepared_def folder_run)

section \<open>Properties\<close>

text \<open>C9: The checkpoint the receiver answers a folder offer with is true and is accepted: it names files
  that are all in the staging directory with their declared size and digest, and the sender's own
  check of a checkpoint against its manifest admits it.\<close>

theorem folder_checkpoint_is_verified:
  assumes "sane (w_fs w)" "prepare_folder E st offer m w = (Inr (FolderResumed pf), w')"
  shows "check_checkpoint (file_entries m) (pf_file_index pf) (pf_offset pf) (pf_completed pf) = Inr () \<and>
    pf_staging_path pf = sp_folder_part (paths_of st offer) \<and>
    (\<forall>e \<in> set (take (pf_file_index pf) (file_entries m)).
       entry_at E (w_fs w') (pf_staging_path pf @ split_on CHR ''/'' (fe_path e)) e)"
proof -
  have "checkpoint_of E (sp_folder_part (paths_of st offer)) (file_entries m) 0 0 pf (w_fs w')"
    using alwaysD [OF prepare_folder_rule [OF assms(1), of E st offer m], of w] assms(2) by simp
  then show ?thesis
    by (auto simp: checkpoint_of_def entry_path_def check_checkpoint_def ok_or_def reject_if_def split: if_splits)
qed

theorem folder_checkpoint_is_verified_witness:
  "check_checkpoint (file_entries sample_folder_manifest) 0 1 0 = Inr ()"
proof -
  obtain w' where "prepare_folder sample_crates sample_store sample_folder_offer sample_folder_manifest
     (sample_world\<lparr>w_fs := sample_half_staged\<rparr>) = (Inr (FolderResumed sample_prepared), w')"
    using sample_checkpoint_run by (metis prod.collapse)
  from folder_checkpoint_is_verified [OF _ this] show ?thesis
    by (simp add: sample_folder_sane sample_prepared_def)
qed

text \<open>C10: A folder that is reported as complete is the offered folder: under a safe name of the inbox
  there is a directory with every entry of the manifest at its place, each file with its declared
  size and BLAKE3 digest, and with nothing else below it, and the receipt is that of the offer.\<close>

theorem finished_folder_is_its_manifest:
  assumes "uuid_plain E" "uuid_parses E (to_transfer_id offer)" "sane (w_fs w)"
    and "prefix (sp_folder_part (paths_of st offer)) (pf_staging_path pf)"
    and "finalize_folder E st offer m pf w = (Inr c, w')" "ct_destination c \<noteq> state_dir st offer"
  shows "folder_delivered E st offer m c (w_fs w')"
proof -
  have tid: "id_name (to_transfer_id offer)" "to_transfer_id offer \<noteq> []"
    using assms(1,2) by (auto simp: uuid_plain_def id_name_def)
  have "prefix (state_dir st offer) (pf_staging_path pf)"
    using assms(4) safe_records(13) [OF records_in_state_dir [OF tid(1), of st]] by (rule prefix_order.trans [rotated])
  from alwaysD [OF finalize_folder_rule [OF tid assms(3) this, of E m], of w] assms(5,6) show ?thesis by simp
qed

theorem finished_folder_is_its_manifest_witness:
  "\<exists>w' :: world. folder_delivered sample_crates sample_store sample_folder_offer sample_folder_manifest
     \<lparr>ct_receipt = receipt_of (stored_offer_of sample_folder_offer), ct_destination = [''in'', ''f'']\<rparr> (w_fs w')"
proof -
  let ?c = "\<lparr>ct_receipt = receipt_of (stored_offer_of sample_folder_offer), ct_destination = [''in'', ''f'']\<rparr>"
  obtain w' where f: "finalize_folder sample_crates sample_store sample_folder_offer sample_folder_manifest
      sample_prepared (sample_world\<lparr>w_fs := sample_staged\<rparr>) = (Inr ?c, w')"
    using sample_finalize_run by (metis prod.collapse)
  have "uuid_parses sample_crates (to_transfer_id sample_folder_offer)"
    using sample_folder_offer_valid by (auto simp: offer_validate_iff offer_fields_ok_def)
  from finished_folder_is_its_manifest [OF _ this _ _ f] show ?thesis
    by (auto simp: sample_folder_sane sample_prepared_def sample_folder_paths state_dir_def sample_folder_tid
        STATE_DIRECTORY_def)
qed

text \<open>Parents are looked up among lower-cased paths: a file may name a directory of another spelling.\<close>

definition folded_manifest :: folder_manifest where
  "folded_manifest = \<lparr>fm_version = 1, fm_entries =
     [\<lparr>fe_path = ''Foo'', fe_kind = DirectoryEntry, fe_size = 0, fe_modified_ms = 0, fe_blake3 = []\<rparr>,
      \<lparr>fe_path = ''foo/x'', fe_kind = FileEntry, fe_size = 3, fe_modified_ms = 0, fe_blake3 = replicate 64 CHR ''0''\<rparr>]\<rparr>"

lemma folded_parent_is_accepted: "validate_manifest sample_crates folded_manifest = Inr 3"
proof -
  have "validate_folder_relative_path ''Foo'' = Inr ()" "validate_folder_relative_path ''foo/x'' = Inr ()"
    "folder_ancestors ''foo'' = []" "folder_ancestors ''foo/x'' = [''foo'']"
    "rsplit_once CHR ''/'' ''foo'' = None" "rsplit_once CHR ''/'' ''foo/x'' = Some (''foo'', ''x'')"
    "to_ascii_lowercase ''Foo'' = ''foo''" "to_ascii_lowercase ''foo/x'' = ''foo/x''"
    "valid_blake3 (replicate 64 CHR ''0'')" "''Foo'' < ''foo/x''"
    by code_simp+
  then show ?thesis
    by (simp add: validate_manifest_def folded_manifest_def MAX_FOLDER_ENTRIES_def canonical_folder_path_def sample_crates_def
        checked_add_u64_def ok_or_def u64_max_def MAX_FILE_SIZE_def)
qed

end
