(* ===== verification/ReceiveSafe.thy ===== *)
theory ReceiveSafe
  imports Exchange FolderProps
begin

text \<open>
  What a peer can cause that sends anything at all. Every run of the receiving end leaves the
  files outside of the state directories as they are, and everything outside of the inbox and its
  category directories, whatever names and paths the peer sends; without the shared secret it does not
  reach the disk; and what the user is told was received is on the disk.
\<close>

section \<open>Results\<close>

lemma prepare_yields:
  "yields (prepare E st offer) (\<lambda>r. \<forall>pt. r = PrepareResume pt \<longrightarrow> pt_part_path pt = sp_part (paths_of st offer))"
  unfolding prepare_def prepare_commit_def prepare_part_def Let_def
  by (intro yields_rules) auto

lemma checkpoint_yields: "yields (folder_checkpoint E root es i n) (\<lambda>pf. pf_staging_path pf = root)"
  by (induction es arbitrary: i n) (auto simp: Let_def intro!: yields_rules)

lemma prepare_folder_yields:
  "yields (prepare_folder E st offer m)
     (\<lambda>r. \<forall>pf. r = FolderResumed pf \<longrightarrow> pf_staging_path pf = sp_folder_part (paths_of st offer))"
proof -
  let ?P = "\<lambda>r. \<forall>pf. r = FolderResumed pf \<longrightarrow> pf_staging_path pf = sp_folder_part (paths_of st offer)"
  have "yields (prepare_staging E offer m (paths_of st offer)) ?P"
    unfolding prepare_staging_def
    by (intro yields_bind yields_then yields_bind_result [OF checkpoint_yields] yields_ret) auto
  then show ?thesis
    unfolding prepare_folder_def prepare_folder_commit_def Let_def
    by (intro yields_rules) auto
qed

section \<open>What a step may do\<close>

text \<open>
  The directories a store works in. A file in them that is in no state directory is the user's, and so is everything
  outside of them.
\<close>

definition store_roots :: "store \<Rightarrow> path set" where
  "store_roots st = set (all_roots (st_category_roots st) (st_inbox st))"

definition user_kept :: "path set \<Rightarrow> fs \<Rightarrow> fs \<Rightarrow> bool" where
  "user_kept R fs fs' \<longleftrightarrow>
     (\<forall>p d m. STATE_DIRECTORY \<notin> set p \<longrightarrow> lookup fs p = Some (FileN d m) \<longrightarrow>
        (\<exists>m'. lookup fs' p = Some (FileN d m'))) \<and>
     (\<forall>p. (\<forall>root \<in> R. \<not> prefix root p) \<longrightarrow> lookup fs' p = lookup fs p)"

lemma user_kept_refl [simp]: "user_kept R fs fs"
  by (simp add: user_kept_def)

lemma user_kept_trans: "user_kept R fs fs' \<Longrightarrow> user_kept R fs' fs'' \<Longrightarrow> user_kept R fs fs''"
  unfolding user_kept_def by (metis (no_types, lifting))

lemma user_kept_mono: "user_kept R fs fs' \<Longrightarrow> R \<subseteq> R' \<Longrightarrow> user_kept R' fs fs'"
  unfolding user_kept_def by (meson subsetD)

lemma store_kept_user:
  fixes st :: store
  assumes "store_kept (state_dir st offer) fs fs'"
  shows "user_kept (store_roots st) fs fs'"
proof -
  have "\<not> prefix (state_dir st offer) p" if "STATE_DIRECTORY \<notin> set p" for p
    using that by (auto simp: state_dir_def prefix_def)
  moreover have "butlast (state_dir st offer) \<in> store_roots st"
    by (simp add: state_dir_def destination_root_def store_roots_def root_for_in_all_roots)
  ultimately show ?thesis using assms by (auto simp: user_kept_def store_kept_def files_kept_def)
qed

fun reports_receipt :: "transfer_event \<Rightarrow> bool" where
  "reports_receipt (ReceivedEvent i d n z h si sn) = True"
| "reports_receipt _ = False"

text \<open>
  \<open>outcome st T m P\<close>: from a well-formed tree, every run of \<open>m\<close> ends in a well-formed tree with
  the files of the user, every receipt it reports satisfies \<open>T\<close> in that tree, and its result
  satisfies \<open>P\<close>.
\<close>

definition outcome :: "store \<Rightarrow> (transfer_event \<Rightarrow> fs \<Rightarrow> bool) \<Rightarrow> (receiving, 'a) action \<Rightarrow> ('a \<Rightarrow> bool) \<Rightarrow> bool" where
  "outcome st T m P \<longleftrightarrow> (\<forall>s r s'. m s = (r, s') \<longrightarrow> sane (w_fs (rc_world s)) \<longrightarrow>
     sane (w_fs (rc_world s')) \<and> user_kept (store_roots st) (w_fs (rc_world s)) (w_fs (rc_world s')) \<and>
     (\<exists>evs. rc_events s' = rc_events s @ evs \<and>
        (\<forall>ev \<in> set evs. reports_receipt ev \<longrightarrow> T ev (w_fs (rc_world s')))) \<and>
     (\<forall>x. r = Inr x \<longrightarrow> P x))"

abbreviation silent :: "store \<Rightarrow> (receiving, 'a) action \<Rightarrow> ('a \<Rightarrow> bool) \<Rightarrow> bool" where
  "silent st \<equiv> outcome st (\<lambda>_ _. False)"

lemma outcomeD:
  assumes "outcome st T m P" "m s = (r, s')" "sane (w_fs (rc_world s))"
  shows "sane (w_fs (rc_world s'))" "user_kept (store_roots st) (w_fs (rc_world s)) (w_fs (rc_world s'))"
    "\<exists>evs. rc_events s' = rc_events s @ evs \<and>
       (\<forall>ev \<in> set evs. reports_receipt ev \<longrightarrow> T ev (w_fs (rc_world s')))"
    "r = Inr x \<Longrightarrow> P x"
  using assms unfolding outcome_def by blast+

lemma outcome_match_with:
  assumes m: "silent st m P" and f: "\<And>x. P x \<Longrightarrow> outcome st T (f x) Q" and g: "\<And>e. outcome st T (g e) Q"
  shows "outcome st T (io_match m f g) Q"
  unfolding outcome_def
proof (intro allI impI)
  fix s r s' assume run: "io_match m f g s = (r, s')" and sane: "sane (w_fs (rc_world s))"
  obtain r1 s1 where one: "m s = (r1, s1)" by (cases "m s")
  note first = outcomeD [OF m one sane]
  obtain evs1 where evs1: "rc_events s1 = rc_events s @ evs1" "\<forall>ev \<in> set evs1. \<not> reports_receipt ev"
    using first(3) by auto
  define k where "k = (case r1 of Inl e \<Rightarrow> g e | Inr x \<Rightarrow> f x)"
  have k: "outcome st T k Q" using f g first(4) by (auto simp: k_def split: sum.split)
  have "k s1 = (r, s')" using run one by (auto simp: k_def io_match_def split: sum.splits)
  note second = outcomeD [OF k this first(1)]
  obtain evs2 where evs2: "rc_events s' = rc_events s1 @ evs2"
    "\<forall>ev \<in> set evs2. reports_receipt ev \<longrightarrow> T ev (w_fs (rc_world s'))"
    using second(3) by auto
  have "\<exists>evs. rc_events s' = rc_events s @ evs \<and>
      (\<forall>ev \<in> set evs. reports_receipt ev \<longrightarrow> T ev (w_fs (rc_world s')))"
    using evs1 evs2 by (intro exI [of _ "evs1 @ evs2"]) auto
  then show "sane (w_fs (rc_world s')) \<and> user_kept (store_roots st) (w_fs (rc_world s)) (w_fs (rc_world s')) \<and>
      (\<exists>evs. rc_events s' = rc_events s @ evs \<and>
        (\<forall>ev \<in> set evs. reports_receipt ev \<longrightarrow> T ev (w_fs (rc_world s')))) \<and> (\<forall>x. r = Inr x \<longrightarrow> Q x)"
    using second(1,4) user_kept_trans [OF first(2) second(2)] by blast
qed

lemma outcome_ret: "P x \<Longrightarrow> outcome st T (io_ret x) P"
  by (simp add: outcome_def io_ret_def)

lemma outcome_throw: "outcome st T (io_throw e) P"
  by (simp add: outcome_def io_throw_def)

lemma outcome_lift: "(\<And>x. r = Inr x \<Longrightarrow> P x) \<Longrightarrow> outcome st T (io_lift r) P"
  by (simp add: outcome_def io_lift_def)

lemma outcome_bind_with: "silent st m P \<Longrightarrow> (\<And>x. P x \<Longrightarrow> outcome st T (f x) Q) \<Longrightarrow> outcome st T (io_bind m f) Q"
  unfolding io_bind_def by (rule outcome_match_with [where P = P]) (auto intro: outcome_throw)

lemma outcome_match:
  "silent st m (\<lambda>_. True) \<Longrightarrow> (\<And>x. outcome st T (f x) Q) \<Longrightarrow> (\<And>e. outcome st T (g e) Q) \<Longrightarrow> outcome st T (io_match m f g) Q"
  by (rule outcome_match_with)

lemma outcome_bind: "silent st m (\<lambda>_. True) \<Longrightarrow> (\<And>x. outcome st T (f x) Q) \<Longrightarrow> outcome st T (io_bind m f) Q"
  by (rule outcome_bind_with)

lemma outcome_then: "silent st m (\<lambda>_. True) \<Longrightarrow> outcome st T k Q \<Longrightarrow> outcome st T (io_then m k) Q"
  unfolding io_then_def by (rule outcome_bind)

lemma outcome_reject_if: "(\<not> c \<Longrightarrow> outcome st T k Q) \<Longrightarrow> outcome st T (io_reject_if c e k) Q"
  by (simp add: io_reject_if_def outcome_throw)

lemma outcome_If: "(c \<Longrightarrow> outcome st T a Q) \<Longrightarrow> (\<not> c \<Longrightarrow> outcome st T b Q) \<Longrightarrow> outcome st T (if c then a else b) Q"
  by simp

lemmas outcome_rules = outcome_ret outcome_throw outcome_lift outcome_match outcome_bind outcome_then
  outcome_reject_if outcome_If

text \<open>Steps that touch neither the disk nor the events.\<close>

definition quiet :: "(receiving, 'a) action \<Rightarrow> bool" where
  "quiet m \<longleftrightarrow> (\<forall>s. rc_world (snd (m s)) = rc_world s \<and> rc_events (snd (m s)) = rc_events s)"

lemma quietD: "quiet m \<Longrightarrow> m s = (r, s') \<Longrightarrow> rc_world s' = rc_world s \<and> rc_events s' = rc_events s"
  unfolding quiet_def by (metis snd_conv)

definition untouched :: "receiving \<Rightarrow> receiving \<Rightarrow> bool" where
  "untouched s s' \<longleftrightarrow> rc_world s' = rc_world s \<and> rc_events s' = rc_events s"

interpretation quiet: run_relation untouched
  by unfold_locales (auto simp: untouched_def)

lemma quiet_keeps: "quiet.keeps m \<longleftrightarrow> quiet m"
  by (auto simp: quiet.keeps_def quiet_def untouched_def)

lemmas quiet_rules = quiet.keeps_rules [unfolded quiet_keeps]

lemma quiet_net:
  "quiet (net_read meaning n)" "quiet (net_write meaning data)" "quiet (net_finish meaning)"
  "quiet net_random" "quiet (net_call meaning (net_decode d))" "quiet gate_wait"
  by (auto simp: quiet_def net_read_def net_write_def net_finish_def net_random_def net_call_def
      net_decode_def gate_wait_def io_ret_def Let_def split: option.split sum.split)

lemma quiet_frames:
  "quiet (send_frame E meaning v)" "quiet (recv_frame E meaning d)" "quiet (send_complete E c)"
  "quiet (send_and_finish E v)" "quiet (reject_stream E reason)" "quiet (reject_authentication E)"
  unfolding send_frame_def recv_frame_def send_complete_def send_and_finish_def reject_stream_def
    reject_authentication_def Let_def
  by (intro quiet_rules quiet_net)+

lemma quiet_exchange:
  "quiet (authenticate_incoming_request E secret)" "quiet (receive_manifest E ctx)"
  "quiet (handle_probe_stream E identity capabilities request)"
  unfolding authenticate_incoming_request_def receive_manifest_def handle_probe_stream_def Let_def
  by (intro quiet_rules quiet_net quiet_frames)+

lemma outcome_quiet: "quiet m \<Longrightarrow> outcome st T m (\<lambda>_. True)"
  by (auto simp: outcome_def dest: quietD)

lemmas outcome_net = quiet_net [THEN outcome_quiet] quiet_frames [THEN outcome_quiet]
  quiet_exchange [THEN outcome_quiet]

lemma outcome_emit: "\<not> reports_receipt ev \<Longrightarrow> outcome st T (emit_event ev) (\<lambda>_. True)"
  by (simp add: outcome_def emit_event_def)

text \<open>Steps of the store.\<close>

lemma outcome_on_disk_with:
  fixes st :: store
  assumes "safe.keeps (state_dir st offer) m"
    and "\<And>w x w'. sane (w_fs w) \<Longrightarrow> m w = (Inr x, w') \<Longrightarrow> P x"
  shows "outcome st T (on_disk m) P"
  unfolding outcome_def
proof (intro allI impI)
  fix s r s' assume run: "on_disk m s = (r, s')" and sane: "sane (w_fs (rc_world s))"
  obtain w' where m: "m (rc_world s) = (r, w')" "s' = s\<lparr>rc_world := w'\<rparr>"
    using run by (auto simp: on_disk_def split: prod.splits)
  from safeD [OF assms(1) sane] m have "sane (w_fs w')" "store_kept (state_dir st offer) (w_fs (rc_world s)) (w_fs w')"
    by simp_all
  then show "sane (w_fs (rc_world s')) \<and> user_kept (store_roots st) (w_fs (rc_world s)) (w_fs (rc_world s')) \<and>
      (\<exists>evs. rc_events s' = rc_events s @ evs \<and>
        (\<forall>ev \<in> set evs. reports_receipt ev \<longrightarrow> T ev (w_fs (rc_world s')))) \<and> (\<forall>x. r = Inr x \<longrightarrow> P x)"
    using store_kept_user assms(2) [OF sane] m by auto
qed

lemma outcome_on_disk:
  fixes st :: store
  shows "safe.keeps (state_dir st offer) m \<Longrightarrow> outcome st T (on_disk m) (\<lambda>_. True)"
  by (rule outcome_on_disk_with) simp_all

lemma outcome_or_reject_with:
  "silent st m P \<Longrightarrow> (\<And>x. P x \<Longrightarrow> outcome st T (k x) Q) \<Longrightarrow> outcome st T (or_reject E ctx m k) Q"
  unfolding or_reject_def
  by (rule outcome_match_with [where P = P]) (auto intro!: outcome_then outcome_throw outcome_net)

lemma outcome_or_reject:
  "silent st m (\<lambda>_. True) \<Longrightarrow> (\<And>x. outcome st T (k x) Q) \<Longrightarrow> outcome st T (or_reject E ctx m k) Q"
  by (rule outcome_or_reject_with)

section \<open>The receive loops\<close>

lemma outcome_progress: "outcome st T (emit_event (ProgressEvent p)) (\<lambda>_. True)"
  by (simp add: outcome_emit)

lemma silent_receive_loop:
  fixes st :: store
  assumes "prefix (state_dir st offer) part"
  shows "silent st (receive_loop offer part n got) (\<lambda>_. True)"
proof (induction n arbitrary: got)
  case (Suc n)
  show ?case
    unfolding receive_loop.simps
    by (intro outcome_rules outcome_net outcome_progress outcome_on_disk [where st = st and offer = offer]
        safe_reads safe_append assms Suc TrueI)
qed (simp add: outcome_ret)

lemma silent_receive_entry_loop:
  fixes st :: store
  assumes "prefix (state_dir st offer) part"
  shows "silent st (receive_entry_loop offer entry part n k got) (\<lambda>_. True)"
proof (induction n arbitrary: k got)
  case (Suc n)
  show ?case
    unfolding receive_entry_loop.simps
    by (intro outcome_rules outcome_net outcome_progress outcome_on_disk [where st = st and offer = offer]
        safe_reads safe_write assms Suc TrueI)
qed (simp add: outcome_ret)

text \<open>The handle of an opened file is its path.\<close>

lemma opened_path:
  assumes "sane (w_fs w)" "io_open trunc p w = (Inr h, w')"
  shows "h = p"
  using sys_open_free [OF sane_plain_nodes [OF assms(1)]] assms(2)
  by (auto simp: io_open_def io_call_def split: option.splits sum.splits)

lemma opened_append:
  assumes "sane (w_fs w)" "io_open_append p w = (Inr h, w')"
  shows "h = p"
  using assms
  by (auto simp: io_open_append_def io_call_def sys_open_append_def split: option.splits sum.splits node.splits if_splits)

lemma folder_file_handle:
  fixes st :: store
  assumes "prefix D (pf_staging_path pf)" "sane (w_fs w)" "open_folder_file pf e n w = (Inr h, w')"
  shows "prefix D h"
proof -
  have last: "always (\<lambda>_. True) (io_open trunc p) fs (\<lambda>r _. \<forall>h. r = Inr h \<longrightarrow> prefix D h)"
    if "sane fs" "prefix D p" for trunc p fs
    unfolding always_def
  proof (intro allI impI conjI)
    fix w :: world and h assume w: "w_fs w = fs" "fst (io_open trunc p w) = Inr h"
    then have "io_open trunc p w = (Inr h, snd (io_open trunc p w))" by (metis prod.collapse)
    from opened_path [OF _ this] that w(1) show "prefix D h" by simp
  qed simp
  have checked: "always (\<lambda>_. True) (io_then m (io_open trunc p)) fs (\<lambda>r _. \<forall>h. r = Inr h \<longrightarrow> prefix D h)"
    if "safe.keeps D m" "sane fs" "prefix D p" for m :: "unit io" and trunc p fs
    by (rule safe_then [OF that(1,2)]) (use last that(3) in simp_all)
  have "always (\<lambda>_. True) (open_folder_file pf e n) (w_fs w) (\<lambda>r _. \<forall>h. r = Inr h \<longrightarrow> prefix D h)"
    unfolding open_folder_file_def
  proof (intro any.reject_if, simp, rule lift_bind, simp)
    fix p assume "folder_entry_path (pf_staging_path pf) (fe_path e) = Inr p"
    from folder_entry_path_resolve [OF this] assms(1) have p: "prefix D p" by simp
    show "always (\<lambda>_. True) (io_then (ensure_safe_parent_directories (pf_staging_path pf) (fe_path e))
        (io_then (io_match (io_symlink_metadata p)
           (\<lambda>m. io_reject_if (is_symlink m \<or> \<not> is_file m)
                  (InvalidTransfer ''folder checkpoint path is not a regular file'')
                (io_reject_if (0 < n \<and> node_len m \<noteq> n)
                  (InvalidTransfer ''folder checkpoint offset changed'') (io_ret ())))
           (\<lambda>e. if e = Io NotFound \<and> n = 0 then io_ret () else io_throw e))
        (io_open (n = 0) p))) (w_fs w) (\<lambda>r _. \<forall>h. r = Inr h \<longrightarrow> prefix D h)"
      by (rule safe_then [OF safe_parents [OF prefix_outer [OF assms(1)]] assms(2)], simp, rule checked)
         (intro safe.keeps_rules safe_reads, auto intro: p)
  qed
  from alwaysD [OF this, of w] assms(3) show ?thesis by simp
qed

section \<open>A stream\<close>

definition truly_received :: "crates \<Rightarrow> store \<Rightarrow> transfer_event \<Rightarrow> fs \<Rightarrow> bool" where
  "truly_received E st ev fs \<longleftrightarrow>
     (\<exists>offer c. ev = received_event offer c \<and> offer_validate E offer = Inr () \<and>
        (if to_kind offer = FolderV1
         then ct_destination c = state_dir st offer \<or> (\<exists>m. folder_delivered E st offer m c fs)
         else verified_at E st offer c fs))"

text \<open>The last steps: the commit, the report and the receipt.\<close>

lemma outcome_complete:
  fixes st :: store
  assumes "safe.keeps (state_dir st offer) m"
    and "\<And>w c w'. sane (w_fs w) \<Longrightarrow> m w = (Inr c, w') \<Longrightarrow> T (received_event offer c) (w_fs w')"
    and g: "\<And>e. outcome st T (g e) (\<lambda>_. True)"
  shows "outcome st T (io_match (on_disk m) (\<lambda>c. io_then (emit_event (received_event offer c)) (send_complete E c)) g)
    (\<lambda>_. True)"
  unfolding outcome_def
proof (intro allI impI)
  fix s r s'
  assume run: "io_match (on_disk m) (\<lambda>c. io_then (emit_event (received_event offer c)) (send_complete E c)) g s = (r, s')"
    and sane: "sane (w_fs (rc_world s))"
  have disk: "silent st (on_disk m) (\<lambda>_. True)" by (rule outcome_on_disk [OF assms(1)])
  obtain x w' where m: "m (rc_world s) = (x, w')" by (cases "m (rc_world s)")
  then have one: "on_disk m s = (x, s\<lparr>rc_world := w'\<rparr>)" by (simp add: on_disk_def)
  note first = outcomeD [OF disk one sane, simplified]
  show "sane (w_fs (rc_world s')) \<and> user_kept (store_roots st) (w_fs (rc_world s)) (w_fs (rc_world s')) \<and>
      (\<exists>evs. rc_events s' = rc_events s @ evs \<and>
        (\<forall>ev \<in> set evs. reports_receipt ev \<longrightarrow> T ev (w_fs (rc_world s')))) \<and> (\<forall>x. r = Inr x \<longrightarrow> True)"
  proof (cases x)
    case (Inl e)
    then have "g e (s\<lparr>rc_world := w'\<rparr>) = (r, s')" using run one by (simp add: io_match_def)
    from outcomeD [OF g this] first show ?thesis
      using user_kept_trans by simp
  next
    case (Inr c)
    then have "io_then (emit_event (received_event offer c)) (send_complete E c) (s\<lparr>rc_world := w'\<rparr>) = (r, s')"
      using run one by (simp add: io_match_def)
    then have "send_complete E c (s\<lparr>rc_world := w', rc_events := rc_events s @ [received_event offer c]\<rparr>) = (r, s')"
      by (simp add: io_then_def io_bind_def io_match_def emit_event_def)
    from quietD [OF quiet_frames(3) this] first assms(2) [OF sane m [unfolded Inr]] show ?thesis by simp
  qed
qed

lemma silent_commit:
  fixes st :: store
  assumes safe: "safe.keeps (state_dir st offer) m"
    and true: "\<And>w c w'. sane (w_fs w) \<Longrightarrow> m w = (Inr c, w') \<Longrightarrow> T (received_event offer c) (w_fs w')"
  shows "outcome st T (io_bind (on_disk m) (\<lambda>c. io_then (emit_event (received_event offer c)) (send_complete E c))) (\<lambda>_. True)"
    and "outcome st T (or_reject E ctx (on_disk m) (\<lambda>c. io_then (emit_event (received_event offer c)) (send_complete E c)))
      (\<lambda>_. True)"
  unfolding io_bind_def or_reject_def
  by (rule outcome_complete [where st = st and T = T, OF safe true];
      (assumption | intro outcome_rules outcome_net))+

lemma outcome_receive_part:
  fixes st :: store
  assumes tid: "id_name (to_transfer_id offer)"
    and part: "pt_part_path prepared = sp_part (paths_of st offer)"
    and true: "\<And>w c w'. sane (w_fs w) \<Longrightarrow> finalize E st offer w = (Inr c, w') \<Longrightarrow>
      T (received_event offer c) (w_fs w')"
  shows "outcome st T (receive_part E st offer prepared) (\<lambda>_. True)"
proof -
  let ?D = "state_dir st offer"
  have open_part: "silent st (on_disk (io_open_append (pt_part_path prepared))) (\<lambda>h. prefix ?D h)"
    by (rule outcome_on_disk_with [OF safe_reads(7)])
       (auto dest: opened_append simp: part safe_records(12) [OF records_in_state_dir [OF tid]])
  show ?thesis
    unfolding receive_part_def
    by (intro silent_commit(1) [where st = st] safe_finalize [OF tid] true outcome_then outcome_net
        outcome_bind_with [OF open_part] outcome_progress outcome_bind silent_receive_loop
        outcome_reject_if outcome_on_disk [where st = st and offer = offer] safe_reads)
qed

lemma outcome_receive_file:
  assumes tid: "id_name (to_transfer_id offer)"
    and true: "\<And>w c w'. sane (w_fs w) \<Longrightarrow> finalize E (ix_store ctx) offer w = (Inr c, w') \<Longrightarrow>
      T (received_event offer c) (w_fs w')"
  shows "outcome (ix_store ctx) T (receive_file E ctx offer) (\<lambda>_. True)"
proof -
  let ?P = "\<lambda>r. \<forall>pt. r = PrepareResume pt \<longrightarrow> pt_part_path pt = sp_part (paths_of (ix_store ctx) offer)"
  have "silent (ix_store ctx) (on_disk (prepare E (ix_store ctx) offer)) ?P"
    by (rule outcome_on_disk_with [OF safe_prepare [OF records_in_state_dir [OF tid]]]) 
       (use prepare_yields [of E "ix_store ctx" offer] in \<open>auto simp: yields_def\<close>)
  then show ?thesis
    unfolding receive_file_def
    by (rule outcome_or_reject_with)
       (auto split: prepare_outcome.split intro!: outcome_net outcome_receive_part [OF tid] true)
qed

lemma silent_receive_entries:
  assumes "prefix (state_dir (ix_store ctx) offer) (pf_staging_path pf)"
  shows "silent (ix_store ctx) (receive_entries E ctx offer pf es offset got) (\<lambda>_. True)"
proof (induction es arbitrary: offset got)
  case (Cons e es)
  have handle: "silent (ix_store ctx) (on_disk (open_folder_file pf e offset)) (\<lambda>h. prefix (state_dir (ix_store ctx) offer) h)"
    by (rule outcome_on_disk_with [OF safe_open_folder_file [OF assms]]) (rule folder_file_handle [OF assms])
  show ?case
    unfolding receive_entries.simps
    by (intro outcome_or_reject_with [OF handle] outcome_bind silent_receive_entry_loop outcome_then
        outcome_or_reject outcome_on_disk [where st = "ix_store ctx" and offer = offer] safe_reads
        safe_verify_folder_file assms Cons)
qed (simp add: outcome_ret)

lemma outcome_receive_folder:
  assumes tid: "id_name (to_transfer_id offer)"
    and true: "\<And>pf w c w'. prefix (state_dir (ix_store ctx) offer) (pf_staging_path pf) \<Longrightarrow> sane (w_fs w) \<Longrightarrow>
      finalize_folder E (ix_store ctx) offer m pf w = (Inr c, w') \<Longrightarrow> T (received_event offer c) (w_fs w')"
  shows "outcome (ix_store ctx) T (receive_folder E ctx offer m) (\<lambda>_. True)"
proof -
  let ?P = "\<lambda>r. \<forall>pf. r = FolderResumed pf \<longrightarrow> pf_staging_path pf = sp_folder_part (paths_of (ix_store ctx) offer)"
  have prepared: "silent (ix_store ctx) (on_disk (prepare_folder E (ix_store ctx) offer m)) ?P"
    by (rule outcome_on_disk_with [OF safe_prepare_folder [OF records_in_state_dir [OF tid]]]) 
       (use prepare_folder_yields [of E "ix_store ctx" offer m] in \<open>auto simp: yields_def\<close>)
  have staging: "outcome (ix_store ctx) T (receive_staging E ctx offer m pf) (\<lambda>_. True)"
    if "pf_staging_path pf = sp_folder_part (paths_of (ix_store ctx) offer)" for pf
  proof -
    have D: "prefix (state_dir (ix_store ctx) offer) (pf_staging_path pf)"
      using that safe_records(13) [OF records_in_state_dir [OF tid], of "ix_store ctx"] by simp
    show ?thesis
      unfolding receive_staging_def
      by (intro silent_commit(2) [where st = "ix_store ctx"] safe_finalize_folder [OF tid] D true [OF D] outcome_then outcome_net outcome_bind
          outcome_lift TrueI outcome_progress silent_receive_entries outcome_or_reject)
  qed
  show ?thesis
    unfolding receive_folder_def
    by (rule outcome_or_reject_with [OF prepared])
       (auto split: prepare_folder_outcome.split intro!: outcome_net outcome_or_reject outcome_lift
          outcome_reject_if staging)
qed

text \<open>An offer that was accepted, a stream and its task.\<close>

lemma or_reject_lift:
  assumes "\<And>x. r = Inr x \<Longrightarrow> outcome st T (k x) Q"
  shows "outcome st T (or_reject E ctx (io_lift r) k) Q"
  by (rule outcome_or_reject_with [where P = "\<lambda>x. r = Inr x"]) (use assms in \<open>auto intro: outcome_lift\<close>)

lemma outcome_handle_offer:
  assumes plain: "uuid_plain E"
  shows "outcome (ix_store ctx) (truly_received E (ix_store ctx)) (handle_offer E ctx offer) (\<lambda>_. True)"
  unfolding handle_offer_def
proof (rule or_reject_lift)
  fix u assume "offer_validate E offer = Inr u"
  then have ok: "offer_validate E offer = Inr ()" by simp
  then have "uuid_parses E (to_transfer_id offer)" by (auto simp: offer_validate_iff offer_fields_ok_def)
  with plain have tid: "id_name (to_transfer_id offer)" "to_transfer_id offer \<noteq> []"
    by (auto simp: uuid_plain_def id_name_def)
  have single: "truly_received E (ix_store ctx) (received_event offer c) (w_fs w')"
    if "to_kind offer \<noteq> FolderV1" "sane (w_fs w)" "finalize E (ix_store ctx) offer w = (Inr c, w')" for w c w'
    using alwaysD [OF finalize_verified [OF tid sane_plain_nodes [OF that(2)]], of w E "ix_store ctx"] that ok
    unfolding truly_received_def by (intro exI [of _ offer] exI [of _ c]) simp
  have folder: "truly_received E (ix_store ctx) (received_event offer c) (w_fs w')"
    if "to_kind offer = FolderV1" "prefix (state_dir (ix_store ctx) offer) (pf_staging_path pf)" "sane (w_fs w)"
      "finalize_folder E (ix_store ctx) offer m pf w = (Inr c, w')" for m pf w c w'
    using alwaysD [OF finalize_folder_rule [OF tid that(3,2)], of w E m] that ok
    unfolding truly_received_def by (intro exI [of _ offer] exI [of _ c]) auto
  show "outcome (ix_store ctx) (truly_received E (ix_store ctx)) (if to_kind offer = FolderV1 then
       io_bind (receive_manifest E ctx) (\<lambda>m.
       or_reject E ctx (io_lift (manifest_validate_offer E m offer)) (\<lambda>_.
       receive_folder E ctx offer m))
     else if to_kind offer \<noteq> FileTransfer then
       or_reject E ctx (io_throw (InvalidTransfer ''unsupported transfer kind'')) io_ret
     else receive_file E ctx offer) (\<lambda>_. True)"
    by (intro outcome_If outcome_bind outcome_net or_reject_lift outcome_receive_folder [OF tid(1)] folder
        outcome_or_reject outcome_throw outcome_ret outcome_receive_file [OF tid(1)] single TrueI)
qed

lemma outcome_handle_stream:
  assumes "uuid_plain E"
  shows "outcome (ix_store ctx) (truly_received E (ix_store ctx)) (handle_stream E ctx) (\<lambda>_. True)"
  unfolding handle_stream_def
  by (intro outcome_rules outcome_net TrueI outcome_handle_offer assms)

lemma outcome_status:
  assumes "outcome st T m (\<lambda>_. True)"
  shows "outcome st T (io_match m io_ret (\<lambda>e. emit_event (StatusEvent (f e)))) (\<lambda>_. True)"
  unfolding outcome_def
proof (intro allI impI)
  fix s r s'
  assume run: "io_match m io_ret (\<lambda>e. emit_event (StatusEvent (f e))) s = (r, s')" and sane: "sane (w_fs (rc_world s))"
  obtain r1 s1 where one: "m s = (r1, s1)" by (cases "m s")
  have s': "rc_world s' = rc_world s1 \<and> (rc_events s' = rc_events s1 \<or> (\<exists>t. rc_events s' = rc_events s1 @ [StatusEvent t]))"
    using run one by (auto simp: io_match_def io_ret_def emit_event_def split: sum.splits)
  from outcomeD(3) [OF assms one sane] obtain evs where evs: "rc_events s1 = rc_events s @ evs"
    "\<forall>ev \<in> set evs. reports_receipt ev \<longrightarrow> T ev (w_fs (rc_world s1))" by blast
  have "\<exists>evs. rc_events s' = rc_events s @ evs \<and>
      (\<forall>ev \<in> set evs. reports_receipt ev \<longrightarrow> T ev (w_fs (rc_world s')))"
    using s' evs by (elim conjE disjE exE) simp_all
  then show "sane (w_fs (rc_world s')) \<and> user_kept (store_roots st) (w_fs (rc_world s)) (w_fs (rc_world s')) \<and>
      (\<exists>evs. rc_events s' = rc_events s @ evs \<and>
        (\<forall>ev \<in> set evs. reports_receipt ev \<longrightarrow> T ev (w_fs (rc_world s')))) \<and> (\<forall>x. r = Inr x \<longrightarrow> True)"
    using outcomeD(1,2) [OF assms one sane] s' by simp
qed

lemma outcome_stream_task:
  assumes "uuid_plain E"
  shows "outcome (ix_store ctx) (truly_received E (ix_store ctx)) (stream_task E ctx) (\<lambda>_. True)"
  unfolding stream_task_def by (rule outcome_status [OF outcome_handle_stream [OF assms]])

section \<open>Properties\<close>

text \<open>
  The disk under any number of streams, of any peers, under settings that may change: every store has its directories
  in \<open>R\<close>.
\<close>

inductive served :: "crates \<Rightarrow> path set \<Rightarrow> fs \<Rightarrow> fs \<Rightarrow> bool" for E R where
  none_served: "served E R fs fs"
| stream_served: "served E R fs (w_fs (rc_world s)) \<Longrightarrow> store_roots (ix_store ctx) \<subseteq> R \<Longrightarrow>
    stream_task E ctx s = (r, s') \<Longrightarrow> served E R fs (w_fs (rc_world s'))"

text \<open>C3: Whatever peers send, names and paths with \<open>..\<close>, separators or a leading \<open>/\<close> included, in any number of
  streams and whatever fails, the files of the user survive: every regular file that is in no state directory is still
  there with its bytes; nothing outside of the inbox and its category directories is created, changed or
  removed; and the tree stays well formed.\<close>

theorem peer_cannot_touch_user_files:
  assumes "served E R fs fs'" "uuid_plain E" "sane fs"
  shows "sane fs' \<and>
    (\<forall>p d m. STATE_DIRECTORY \<notin> set p \<longrightarrow> lookup fs p = Some (FileN d m) \<longrightarrow>
       (\<exists>m'. lookup fs' p = Some (FileN d m'))) \<and>
    (\<forall>p. (\<forall>root \<in> R. \<not> prefix root p) \<longrightarrow> lookup fs' p = lookup fs p)"
  using assms
proof induction
  case (none_served fs)
  then show ?case by auto
next
  case (stream_served fs s ctx r s')
  then have s: "sane (w_fs (rc_world s))" "user_kept R fs (w_fs (rc_world s))" by (simp_all add: user_kept_def)
  note task = outcomeD [OF outcome_stream_task [OF stream_served.prems(1)] stream_served.hyps(3) s(1)]
  from task(1) user_kept_trans [OF s(2) user_kept_mono [OF task(2) stream_served.hyps(2)]] show ?case
    by (simp add: user_kept_def)
qed

text \<open>C4: What the user is told is true: when a stream reports a received transfer, the offer was signed
  and valid, and in the tree the stream leaves behind the reported file is there under a safe name
  with the offered size and digest, or the reported folder is exactly its manifest.\<close>

theorem received_event_is_true:
  assumes "uuid_plain E" "sane (w_fs (rc_world s))" "stream_task E ctx s = (r, s')"
  shows "\<exists>evs. rc_events s' = rc_events s @ evs \<and>
    (\<forall>ev \<in> set evs. reports_receipt ev \<longrightarrow> truly_received E (ix_store ctx) ev (w_fs (rc_world s')))"
  by (rule outcomeD(3) [OF outcome_stream_task [OF assms(1)] assms(3,2)])

text \<open>What a run of the exchange has read and checked: the first two frames of the stream.\<close>

lemma recv_frame_Inr:
  assumes "recv_frame E meaning dec_value s = (Inr x, s')"
  shows "read_frame E dec_value (nt_input s) = Inr (x, nt_input s')" "nt_step s' = Suc (nt_step s)"
    "nt_random s' = nt_random s"
  using assms by (auto simp: recv_frame_def net_call_def net_decode_def Let_def split: option.splits sum.splits)

lemma send_frame_keeps:
  assumes "send_frame E meaning v s = (r, s')"
  shows "nt_input s' = nt_input s"
  using assms by (auto simp: send_frame_def net_write_def net_call_def Let_def io_bind_def io_match_def io_lift_def
      io_throw_def split: option.splits sum.splits prod.splits)

lemma exchange_checked:
  assumes "authenticate_incoming_request E secret s = (Inr payload, s')"
  shows "\<exists>hello rest challenge request. read_frame E as_hello (nt_input s) = Inr (hello, rest) \<and>
    challenge_new E (nt_random s (Suc (nt_step s))) hello = Inr challenge \<and>
    read_frame E as_request rest = Inr (request, nt_input s') \<and>
    authenticate E request challenge secret = Inr payload"
proof -
  obtain hello s1 challenge w s2 request where run: "recv_frame E exchange_fault as_hello s = (Inr hello, s1)"
      "challenge_new E (nt_random s1 (nt_step s1)) hello = Inr challenge"
      "send_frame E exchange_fault (challenge_json challenge) (s1\<lparr>nt_step := Suc (nt_step s1)\<rparr>) = (Inr w, s2)"
      "recv_frame E exchange_fault as_request s2 = (Inr request, s')"
      "authenticate E request challenge secret = Inr payload"
    using assms by (auto simp: authenticate_incoming_request_def io_bind_Inr io_then_Inr net_random_def io_lift_def)
  show ?thesis
    using run recv_frame_Inr [OF run(1)] send_frame_keeps [OF run(3)] recv_frame_Inr(1) [OF run(4)]
    by (intro exI [of _ hello] exI [of _ "nt_input s1"] exI [of _ challenge] exI [of _ request]) simp
qed

text \<open>C2: Without the shared secret nobody reaches the disk: when a stream changes the disk or reports
  anything to the user, its first frame was a valid hello, and its second frame a request whose keyed digest under
  the secret is right for the nonce of that hello, the nonce drawn for this stream and the payload of that
  request, and this payload is an offer with valid fields and a valid signature. In all other cases, malformed
  frames, wrong secrets, replays and forged offers, nothing changes.\<close>

theorem only_authenticated_offers_reach_the_disk:
  assumes "blake3_sizes E" "handle_stream E ctx s = (r, s')"
    and "rc_world s' \<noteq> rc_world s \<or> rc_events s' \<noteq> rc_events s"
  shows "\<exists>hello rest (request :: authenticated_request) rest' offer.
    read_frame E as_hello (nt_input s) = Inr (hello, rest) \<and>
    challenge_new E (nt_random s (Suc (nt_step s))) hello =
      Inr \<lparr>ac_type = AUTH_CHALLENGE_TYPE, ac_protocol = QUIC_PROTOCOL_VERSION, ac_client_nonce = ah_nonce hello,
           ac_nonce = hex_encode E (nt_random s (Suc (nt_step s)))\<rparr> \<and>
    read_frame E as_request rest = Inr (request, rest') \<and>
    hex_decode E (ar_mac request) = Some (authentication_mac E QUIC_PROTOCOL_VERSION (ah_nonce hello)
      (hex_encode E (nt_random s (Suc (nt_step s)))) (ar_payload request) (ix_shared_secret ctx)) \<and>
    as_transfer_offer (ar_payload request) = Inr offer \<and> offer_validate E offer = Inr ()"
proof -
  obtain r1 s1 where auth: "authenticate_incoming_request E (ix_shared_secret ctx) s = (r1, s1)"
    by (cases "authenticate_incoming_request E (ix_shared_secret ctx) s")
  have s1: "rc_world s1 = rc_world s" "rc_events s1 = rc_events s"
    using quietD [OF quiet_exchange(1) auth] by simp_all
  have quiet_end: False if "quiet m" "m s1 = (r, s')" for m :: "(receiving, unit) action"
    using quietD [OF that] s1 assms(3) by simp
  obtain payload where payload: "r1 = Inr payload"
  proof (cases r1)
    case (Inl e)
    then have "io_then (reject_authentication E) (io_throw e) s1 = (r, s')"
      using assms(2) auth by (simp add: handle_stream_def io_match_def)
    then show ?thesis using quiet_end [of "io_then (reject_authentication E) (io_throw e)"]
      by (simp add: quiet_rules quiet_frames)
  qed (use that in blast)
  let ?rest = "if frame_type payload = Some PEER_PROBE_REQUEST_TYPE then
      io_bind (io_lift (as_probe_request payload)) (handle_probe_stream E (ix_identity ctx) (ix_capabilities ctx))
    else io_bind (io_lift (as_transfer_offer payload)) (handle_offer E ctx)"
  have rest: "?rest s1 = (r, s')"
    using assms(2) auth payload by (simp add: handle_stream_def io_match_def)
  have no_probe: "frame_type payload \<noteq> Some PEER_PROBE_REQUEST_TYPE"
  proof
    assume probe: "frame_type payload = Some PEER_PROBE_REQUEST_TYPE"
    have "quiet (io_bind (io_lift (as_probe_request payload))
        (handle_probe_stream E (ix_identity ctx) (ix_capabilities ctx)))"
      by (intro quiet_rules quiet_exchange)
    from quiet_end [OF this] rest probe show False by simp
  qed
  obtain offer where offer: "as_transfer_offer payload = Inr offer"
  proof (cases "as_transfer_offer payload")
    case (Inl e)
    then show ?thesis
      using rest no_probe s1 assms(3) by (auto simp: io_bind_def io_match_def io_lift_def io_throw_def)
  qed (use that in blast)
  then have handled: "handle_offer E ctx offer s1 = (r, s')"
    using rest no_probe by (simp add: io_bind_def io_match_def io_lift_def)
  have valid: "offer_validate E offer = Inr ()"
  proof (cases "offer_validate E offer")
    case (Inl e)
    then have "io_then (reject_stream E (error_text (ix_io_text ctx) e)) (io_throw e) s1 = (r, s')"
      using handled by (simp add: handle_offer_def or_reject_def io_match_def io_lift_def)
    then show ?thesis using quiet_end [of "io_then (reject_stream E (error_text (ix_io_text ctx) e)) (io_throw e)"]
      by (simp add: quiet_rules quiet_frames)
  qed simp
  obtain hello rest challenge request where
    frames: "read_frame E as_hello (nt_input s) = Inr (hello, rest)" "read_frame E as_request rest = Inr (request, nt_input s1)"
    and c: "challenge_new E (nt_random s (Suc (nt_step s))) hello = Inr challenge"
    and a: "authenticate E request challenge (ix_shared_secret ctx) = Inr payload"
    using exchange_checked auth payload by blast
  have "challenge = \<lparr>ac_type = AUTH_CHALLENGE_TYPE, ac_protocol = QUIC_PROTOCOL_VERSION, ac_client_nonce = ah_nonce hello,
      ac_nonce = hex_encode E (nt_random s (Suc (nt_step s)))\<rparr>"
    using c by (auto simp: challenge_new_def result_simps)
  with a c have "challenge_new E (nt_random s (Suc (nt_step s))) hello =
      Inr \<lparr>ac_type = AUTH_CHALLENGE_TYPE, ac_protocol = QUIC_PROTOCOL_VERSION, ac_client_nonce = ah_nonce hello,
           ac_nonce = hex_encode E (nt_random s (Suc (nt_step s)))\<rparr>"
    "hex_decode E (ar_mac request) = Some (authentication_mac E QUIC_PROTOCOL_VERSION (ah_nonce hello)
      (hex_encode E (nt_random s (Suc (nt_step s)))) (ar_payload request) (ix_shared_secret ctx))"
    "as_transfer_offer (ar_payload request) = Inr offer"
    using offer by (simp_all add: authenticate_Inr_iff [OF assms(1)])
  with valid frames show ?thesis by blast
qed

section \<open>An example\<close>

text \<open>The inbox of the example of a whole transfer, with a file of the user beside it.\<close>

definition sample_upload :: bytes where
  "sample_upload = frame_of sample_net (hello_json (hello_new sample_net sample_client)) @
     frame_of sample_net (request_json (request_of sample_net sample_client sample_server
       (as_value (transfer_offer_json sample_signed_offer)) ''secret'')) @ [1, 2, 3]"

lemma sample_handle_run:
  "\<exists>c s'. handle_stream sample_net sample_incoming (sample_listening\<lparr>nt_input := sample_upload\<rparr>) = (Inr (), s') \<and>
     holds (w_fs (rc_world s')) [''in'', c] [1, 2, 3]"
proof -
  have od: "offer_of_data sample_net sample_signed_offer [1, 2, 3]" by (simp add: table_offer_of_data)
  have ready: "receiver_ready sample_net sample_incoming sample_signed_offer (sample_listening\<lparr>nt_input := sample_upload\<rparr>)"
    using sample_receiver_ready [of sample_net] by (simp add: receiver_ready_def Let_def)
  have len: "length sample_client = AUTH_NONCE_BYTES" "length sample_server = AUTH_NONCE_BYTES"
    by (simp_all add: sample_client_def sample_server_def AUTH_NONCE_BYTES_def)
  have secret: "ix_shared_secret sample_incoming = ''secret''" "ix_store sample_incoming = sample_store"
    by (simp_all add: sample_incoming_def)
  have "\<exists>c s'. handle_stream sample_net sample_incoming (sample_listening\<lparr>nt_input := sample_upload\<rparr>) = (Inr (), s') \<and>
     delivered_ok sample_net (ix_store sample_incoming) sample_signed_offer [1, 2, 3] c (w_fs (rc_world s')) \<and>
     nt_output s' = nt_output (sample_listening\<lparr>nt_input := sample_upload\<rparr>) @
       frame_of sample_net (challenge_json (challenge_of sample_net sample_client sample_server)) @
       frame_of sample_net (transfer_response_json (Resume 0)) @
       frame_of sample_net (transfer_response_json (Complete (receipt_of (stored_offer_of sample_signed_offer))))"
    by (rule server_run [OF sample_net_correct od ready sample_net_fits(1) _ len])
       (use sample_net_fits(2) in \<open>simp_all add: secret sample_listening_def sample_upload_def\<close>)
  then show ?thesis by (auto simp: delivered_ok_def delivered_def secret dest_def)
qed

lemma sample_inbox_sane: "sane sample_inbox"
  unfolding sane_def connected_def plain_nodes_def
  by (auto simp: sample_inbox_def lookup_def sample_state_dir_def split: if_splits)

theorem only_authenticated_offers_reach_the_disk_witness:
  "\<exists>hello rest (request :: authenticated_request) rest' offer.
    read_frame sample_net as_hello sample_upload = Inr (hello, rest) \<and> challenge_new sample_net sample_server hello =
      Inr \<lparr>ac_type = AUTH_CHALLENGE_TYPE, ac_protocol = QUIC_PROTOCOL_VERSION, ac_client_nonce = ah_nonce hello,
           ac_nonce = hex_encode sample_net sample_server\<rparr> \<and>
    read_frame sample_net as_request rest = Inr (request, rest') \<and>
    hex_decode sample_net (ar_mac request) = Some (authentication_mac sample_net QUIC_PROTOCOL_VERSION (ah_nonce hello)
      (hex_encode sample_net sample_server) (ar_payload request) ''secret'') \<and>
    as_transfer_offer (ar_payload request) = Inr offer \<and> offer_validate sample_net offer = Inr ()"
proof -
  obtain c s' where run: "handle_stream sample_net sample_incoming (sample_listening\<lparr>nt_input := sample_upload\<rparr>) = (Inr (), s')"
    "holds (w_fs (rc_world s')) [''in'', c] [1, 2, 3]" using sample_handle_run by blast
  have "w_fs (rc_world (sample_listening\<lparr>nt_input := sample_upload\<rparr>)) = sample_inbox"
    by (simp add: sample_listening_def sample_receiving_def)
  moreover have "\<not> holds sample_inbox [''in'', c] [1, 2, 3]"
    by (simp add: holds_def sample_inbox_def lookup_def sample_state_dir_def)
  ultimately have "rc_world s' \<noteq> rc_world (sample_listening\<lparr>nt_input := sample_upload\<rparr>)" using run(2) by metis
  from only_authenticated_offers_reach_the_disk [OF _ run(1) disjI1 [OF this]] show ?thesis
    by (simp add: sample_incoming_def sample_listening_def)
qed

theorem received_event_is_true_witness:
  "\<exists>s' evs. stream_task sample_net sample_incoming (sample_listening\<lparr>nt_input := sample_upload\<rparr>) = (Inr (), s') \<and>
     rc_events s' = evs \<and>
     (\<forall>ev \<in> set evs. reports_receipt ev \<longrightarrow> truly_received sample_net sample_store ev (w_fs (rc_world s')))"
proof -
  obtain c s' where "handle_stream sample_net sample_incoming (sample_listening\<lparr>nt_input := sample_upload\<rparr>) = (Inr (), s')"
    using sample_handle_run by blast
  then have run: "stream_task sample_net sample_incoming (sample_listening\<lparr>nt_input := sample_upload\<rparr>) = (Inr (), s')"
    by (simp add: stream_task_def io_match_def io_ret_def)
  have start: "w_fs (rc_world (sample_listening\<lparr>nt_input := sample_upload\<rparr>)) = sample_inbox"
    "rc_events (sample_listening\<lparr>nt_input := sample_upload\<rparr>) = []" "ix_store sample_incoming = sample_store"
    by (simp_all add: sample_listening_def sample_receiving_def sample_incoming_def)
  from received_event_is_true [OF _ _ run, unfolded start] sample_inbox_sane run show ?thesis by simp
qed

definition sample_user_inbox :: fs where
  "sample_user_inbox = ([''in'', ''mine''], FileN [7] 1) # sample_inbox"

theorem peer_cannot_touch_user_files_witness:
  "(\<exists>m'. lookup (w_fs (rc_world (snd (stream_task sample_net sample_incoming (sample_listening
       \<lparr>nt_input := sample_upload, rc_world := sample_world\<lparr>w_fs := sample_user_inbox\<rparr>\<rparr>)))))
     [''in'', ''mine''] = Some (FileN [7] m')) \<and>
   lookup (w_fs (rc_world (snd (stream_task sample_net sample_incoming (sample_listening
       \<lparr>nt_input := sample_upload, rc_world := sample_world\<lparr>w_fs := sample_user_inbox\<rparr>\<rparr>)))))
     [''etc''] = None"
proof -
  let ?s = "sample_listening\<lparr>nt_input := sample_upload, rc_world := sample_world\<lparr>w_fs := sample_user_inbox\<rparr>\<rparr>"
  have start: "w_fs (rc_world ?s) = sample_user_inbox" by simp
  have sane: "sane sample_user_inbox"
    unfolding sane_def connected_def plain_nodes_def
    by (auto simp: sample_user_inbox_def sample_inbox_def lookup_def sample_state_dir_def split: if_splits)
  have roots: "store_roots (ix_store sample_incoming) \<subseteq> {[''in'']}"
    by (simp add: store_roots_def all_roots_def sample_incoming_def sample_store_def map_filter_def)
  have "stream_task sample_net sample_incoming ?s =
      (fst (stream_task sample_net sample_incoming ?s), snd (stream_task sample_net sample_incoming ?s))" by simp
  moreover have "served sample_net {[''in'']} sample_user_inbox (w_fs (rc_world ?s))" by (simp add: start none_served)
  ultimately have "served sample_net {[''in'']} sample_user_inbox (w_fs (rc_world (snd (stream_task sample_net sample_incoming ?s))))"
    using stream_served [OF _ roots] by metis
  note kept = peer_cannot_touch_user_files [OF this _ sane]
  have "lookup sample_user_inbox [''in'', ''mine''] = Some (FileN [7] 1)" "lookup sample_user_inbox [''etc''] = None"
    by (simp_all add: sample_user_inbox_def sample_inbox_def lookup_def sample_state_dir_def)
  then show ?thesis using kept by (auto simp: STATE_DIRECTORY_def)
qed

end
