(* ===== verification/Machine.thy ===== *)
theory Machine
  imports InkPrelude "HOL-Library.Multiset"
begin

text \<open>
  State machines: the states a system can reach from its initial states by labelled steps, and
  the interface of an inductive invariant, interpreted by the components that are event loops.
\<close>

inductive reachable :: "('s \<Rightarrow> bool) \<Rightarrow> ('s \<Rightarrow> 'l \<Rightarrow> 's \<Rightarrow> bool) \<Rightarrow> 's \<Rightarrow> bool"
  for init step where
  reachable_init: "init s \<Longrightarrow> reachable init step s"
| reachable_step: "reachable init step s \<Longrightarrow> step s l s' \<Longrightarrow> reachable init step s'"

locale machine =
  fixes init :: "'s \<Rightarrow> bool"
    and step :: "'s \<Rightarrow> 'l \<Rightarrow> 's \<Rightarrow> bool"
    and inv :: "'s \<Rightarrow> bool"
  assumes init_inv: "init s \<Longrightarrow> inv s"
    and step_inv: "inv s \<Longrightarrow> step s l s' \<Longrightarrow> inv s'"
begin

lemma reachable_inv: "reachable init step s \<Longrightarrow> inv s"
  by (induction rule: reachable.induct) (auto intro: init_inv step_inv)

text \<open>An invariant may be used to establish another.\<close>

lemma reachable_inv_and:
  assumes "reachable init step s"
    and "\<And>s. init s \<Longrightarrow> P s"
    and "\<And>s l s'. inv s \<Longrightarrow> P s \<Longrightarrow> step s l s' \<Longrightarrow> P s'"
  shows "inv s \<and> P s"
  using assms by induction (auto intro: init_inv step_inv)

end

text \<open>A machine whose step is a function of the state and an event.\<close>

fun run_events :: "('s \<Rightarrow> 'l \<Rightarrow> 's) \<Rightarrow> 's \<Rightarrow> 'l list \<Rightarrow> 's" where
  "run_events f s [] = s"
| "run_events f s (e # es) = run_events f (f s e) es"

lemma run_events_append: "run_events f s (xs @ ys) = run_events f (run_events f s xs) ys"
  by (induction xs arbitrary: s) auto

lemma run_events_inv:
  "P s \<Longrightarrow> (\<And>s e. e \<in> set es \<Longrightarrow> P s \<Longrightarrow> P (f s e)) \<Longrightarrow> P (run_events f s es)"
  by (induction es arbitrary: s) auto

lemma reachable_run:
  "reachable init (\<lambda>s e s'. s' = f s e) s \<Longrightarrow> reachable init (\<lambda>s e s'. s' = f s e) (run_events f s es)"
proof (induction es arbitrary: s)
  case (Cons e es)
  show ?case
    using Cons.IH [OF reachable_step [OF Cons.prems refl, of e]] by simp
qed simp

lemma reachable_run_events:
  "init s \<Longrightarrow> reachable init (\<lambda>s e s'. s' = f s e) (run_events f s es)"
  by (rule reachable_run) (rule reachable_init)

lemma reachable_run_events_iff:
  "reachable init (\<lambda>s e s'. s' = f s e) t \<longleftrightarrow> (\<exists>s es. init s \<and> t = run_events f s es)"
proof
  assume "reachable init (\<lambda>s e s'. s' = f s e) t"
  then show "\<exists>s es. init s \<and> t = run_events f s es"
  proof induction
    case (reachable_init s)
    then show ?case by (metis run_events.simps(1))
  next
    case (reachable_step s l s')
    then obtain r es where "init r" "s = run_events f r es" by auto
    then show ?case
      using reachable_step by (auto intro!: exI [of _ r] exI [of _ "es @ [l]"] simp: run_events_append)
  qed
qed (auto intro: reachable_run_events)

end
