(* ===== verification/Dns.thy ===== *)
theory Dns
  imports Machine RustText
begin

text \<open>
  The DNS fallback of \<open>net.rs\<close>: the query, the parser of the response of an untrusted server, and
  the collection of the answers. A buffer access out of range is a panic in Rust; here it is
  the outer \<open>None\<close>, so that the absence of panics is a theorem.
\<close>

datatype ip_addr = IpV4 bytes | IpV6 bytes

type_synonym 'a run = "'a result option"

definition run_bind :: "'a run \<Rightarrow> ('a \<Rightarrow> 'b run) \<Rightarrow> 'b run" where
  "run_bind m f = (case m of None \<Rightarrow> None | Some (Inl e) \<Rightarrow> Some (Inl e) | Some (Inr x) \<Rightarrow> f x)"

definition run_err :: "core_error \<Rightarrow> 'a run" where "run_err e = Some (Inl e)"
definition run_ok :: "'a \<Rightarrow> 'a run" where "run_ok x = Some (Inr x)"

text \<open>\<open>packet[i]\<close> and \<open>packet[a..b]\<close>.\<close>

definition byte_at :: "bytes \<Rightarrow> nat \<Rightarrow> byte run" where
  "byte_at packet i = (if i < length packet then run_ok (packet ! i) else None)"

definition slice_of :: "bytes \<Rightarrow> nat \<Rightarrow> nat \<Rightarrow> bytes run" where
  "slice_of packet a b =
     (if a \<le> b \<and> b \<le> length packet then run_ok (take (b - a) (drop a packet)) else None)"

definition u16_at :: "bytes \<Rightarrow> nat \<Rightarrow> nat run" where
  "u16_at packet i =
     run_bind (byte_at packet i) (\<lambda>a. run_bind (byte_at packet (i + 1)) (\<lambda>b. run_ok (be_value [a, b])))"

definition malformed :: core_error where "malformed = Protocol ''malformed DNS response''"

section \<open>Names\<close>

text \<open>
  \<open>skip_dns_name\<close>: the offset after a possibly compressed name. The loop ends because the cursor
  grows at every label and stays inside the packet.
\<close>

function skip_dns_name :: "bytes \<Rightarrow> nat \<Rightarrow> nat option" where
  "skip_dns_name packet cursor =
     (if length packet \<le> cursor then None
      else (let len = packet ! cursor in
            if len AND 0xC0 = 0xC0 then (if cursor + 2 \<le> length packet then Some (cursor + 2) else None)
            else if len = 0 then Some (cursor + 1)
            else (let cursor' = cursor + (1 + unat len) in
                  if length packet < cursor' then None else skip_dns_name packet cursor')))"
  by pat_completeness auto
termination
  by (relation "measure (\<lambda>(packet, cursor). length packet - cursor)") auto

declare skip_dns_name.simps [simp del]

definition dns_labels :: "string \<Rightarrow> string list" where
  "dns_labels host = split_on CHR ''.'' (trim_end_chars [CHR ''.''] host)"

fun put_labels :: "string \<Rightarrow> string list \<Rightarrow> bytes result" where
  "put_labels host [] = Inr []"
| "put_labels host (label # labels) =
     reject_if (label = [] \<or> 63 < length label) (Protocol (''invalid DNS label in '' @ host))
       (bind_r (put_labels host labels) (\<lambda>rest.
          Inr (of_nat (length label) # str_bytes label @ rest)))"

definition build_dns_query :: "nat \<Rightarrow> string \<Rightarrow> nat \<Rightarrow> bytes result" where
  "build_dns_query qid host qtype =
     bind_r (put_labels host (dns_labels host)) (\<lambda>name.
     Inr (be_bytes 2 qid @ [0x01, 0x00] @ [0, 1, 0, 0, 0, 0, 0, 0] @ name @ [0] @
          be_bytes 2 qtype @ [0, 1]))"

section \<open>Responses\<close>

fun skip_questions :: "bytes \<Rightarrow> nat \<Rightarrow> nat \<Rightarrow> nat run" where
  "skip_questions packet 0 cursor = run_ok cursor"
| "skip_questions packet (Suc n) cursor =
     (case skip_dns_name packet cursor of
        None \<Rightarrow> run_err malformed
      | Some c \<Rightarrow> if c + 4 \<le> length packet then skip_questions packet n (c + 4) else run_err malformed)"

definition answer_addr :: "nat \<Rightarrow> nat \<Rightarrow> bytes \<Rightarrow> ip_addr list run" where
  "answer_addr qtype rdlength rdata =
     (if qtype = 1 \<and> rdlength = 4
      then run_bind (byte_at rdata 0) (\<lambda>a. run_bind (byte_at rdata 1) (\<lambda>b.
           run_bind (byte_at rdata 2) (\<lambda>c. run_bind (byte_at rdata 3) (\<lambda>d.
           run_ok [IpV4 [a, b, c, d]]))))
      else if qtype = 28 \<and> rdlength = 16
      then (if length rdata = 16 then run_ok [IpV6 rdata] else None)
      else run_ok [])"

fun read_answers :: "bytes \<Rightarrow> nat \<Rightarrow> nat \<Rightarrow> nat \<Rightarrow> ip_addr list \<Rightarrow> ip_addr list run" where
  "read_answers packet qtype 0 cursor collected = run_ok collected"
| "read_answers packet qtype (Suc n) cursor collected =
     (case skip_dns_name packet cursor of
        None \<Rightarrow> run_err malformed
      | Some c \<Rightarrow>
          if length packet < c + 10 then run_err malformed
          else run_bind (u16_at packet c) (\<lambda>answer_type.
               run_bind (u16_at packet (c + 8)) (\<lambda>rdlength.
               let c' = c + 10 in
               if length packet < c' + rdlength then run_err malformed
               else run_bind (slice_of packet c' (c' + rdlength)) (\<lambda>rdata.
                 if answer_type \<noteq> qtype then read_answers packet qtype n (c' + rdlength) collected
                 else run_bind (answer_addr qtype rdlength rdata) (\<lambda>found.
                        read_answers packet qtype n (c' + rdlength) (collected @ found))))))"

definition parse_dns_answers :: "bytes \<Rightarrow> nat \<Rightarrow> nat \<Rightarrow> ip_addr list run" where
  "parse_dns_answers packet qid qtype =
     (if length packet < 12 then run_err malformed
      else run_bind (slice_of packet 0 2) (\<lambda>h.
      if h \<noteq> be_bytes 2 qid then run_err malformed
      else run_bind (byte_at packet 3) (\<lambda>flags.
      if flags AND 0x0F \<noteq> 0
      then run_err (Protocol (''DNS server returned rcode '' @ dec (unat (flags AND 0x0F))))
      else run_bind (u16_at packet 4) (\<lambda>questions.
           run_bind (u16_at packet 6) (\<lambda>answers.
           run_bind (skip_questions packet questions 12) (\<lambda>cursor.
           read_answers packet qtype answers cursor []))))))"

section \<open>The collection of the answers\<close>

text \<open>
  The loop of \<open>fallback_resolve\<close> over the queries in the order they finish: addresses are kept
  once, and the first answer with an IPv4 address ends the wait.
\<close>

fun add_answers :: "ip_addr list \<Rightarrow> ip_addr list \<times> ip_addr list \<Rightarrow> ip_addr list \<times> ip_addr list" where
  "add_answers [] (v4, v6) = (v4, v6)"
| "add_answers (a # as) (v4, v6) =
     add_answers as
       (case a of
          IpV4 _ \<Rightarrow> (if a \<in> set v4 then (v4, v6) else (v4 @ [a], v6))
        | IpV6 _ \<Rightarrow> (if a \<in> set v6 then (v4, v6) else (v4, v6 @ [a])))"

fun collect_answers ::
  "(string + ip_addr list) list \<Rightarrow> ip_addr list \<times> ip_addr list \<Rightarrow> string option \<Rightarrow>
     (ip_addr list \<times> ip_addr list) \<times> string option" where
  "collect_answers [] acc last_error = (acc, last_error)"
| "collect_answers (Inl e # rest) acc last_error = collect_answers rest acc (Some e)"
| "collect_answers (Inr as # rest) acc last_error =
     (let acc' = add_answers as acc in
      if fst acc' \<noteq> [] then (acc', last_error) else collect_answers rest acc' last_error)"

definition fallback_resolve ::
  "string \<Rightarrow> nat \<Rightarrow> (string + ip_addr list) list \<Rightarrow> (ip_addr \<times> nat) list result" where
  "fallback_resolve host port finished =
     (case collect_answers finished ([], []) None of
        ((v4, v6), last_error) \<Rightarrow>
          (let addresses = map (\<lambda>a. (a, port)) (v4 @ v6) in
           reject_if (addresses = [])
             (Protocol (''failed to resolve '' @ host @ '': '' @
                (case last_error of None \<Rightarrow> ''no DNS answer'' | Some e \<Rightarrow> e)))
             (Inr addresses)))"

section \<open>No panic, and progress\<close>

lemma run_bind_simps [simp]:
  "run_bind (run_ok x) f = f x" "run_bind (run_err e) f = run_err e" "run_bind None f = None"
  by (simp_all add: run_bind_def run_ok_def run_err_def)

lemma run_returns [simp]: "\<exists>y. run_ok x = Some y" "\<exists>y. run_err e = Some y"
  by (simp_all add: run_ok_def run_err_def)

lemma run_not_None [simp]: "run_ok x \<noteq> None" "run_err e \<noteq> None" "run_ok x = run_ok y \<longleftrightarrow> x = y"
  "run_ok x \<noteq> run_err e" "run_err e \<noteq> run_ok x"
  by (simp_all add: run_ok_def run_err_def)

lemma byte_at_ok [simp]: "i < length packet \<Longrightarrow> byte_at packet i = run_ok (packet ! i)"
  by (simp add: byte_at_def)

lemma u16_at_ok [simp]:
  "i + 1 < length packet \<Longrightarrow> u16_at packet i = run_ok (be_value [packet ! i, packet ! (i + 1)])"
  by (simp add: u16_at_def)

lemma slice_of_ok [simp]:
  "a \<le> b \<Longrightarrow> b \<le> length packet \<Longrightarrow> slice_of packet a b = run_ok (take (b - a) (drop a packet))"
  by (simp add: slice_of_def)

lemma skip_dns_name_bound:
  "skip_dns_name packet cursor = Some c \<Longrightarrow> cursor < c \<and> c \<le> length packet"
proof (induction packet cursor rule: skip_dns_name.induct)
  case (1 packet cursor)
  show ?case
  proof (cases "length packet \<le> cursor \<or> packet ! cursor AND 0xC0 = 0xC0 \<or> packet ! cursor = 0")
    case True
    with 1(2) show ?thesis
      by (subst (asm) skip_dns_name.simps) (auto simp: Let_def split: if_splits)
  next
    case False
    let ?c = "cursor + (1 + unat (packet ! cursor))"
    from False 1(2) have "\<not> length packet < ?c" "skip_dns_name packet ?c = Some c"
      by (subst (asm) skip_dns_name.simps, auto simp: Let_def split: if_splits)+
    with 1(1) [OF _ refl _ _ refl] False show ?thesis by auto
  qed
qed

lemma skip_questions_no_panic: "skip_questions packet n cursor \<noteq> None"
  by (induction packet n cursor rule: skip_questions.induct) (auto split: option.split)

lemma answer_addr_no_panic:
  "length rdata = rdlength \<Longrightarrow> \<exists>as. answer_addr qtype rdlength rdata = run_ok as"
  by (auto simp: answer_addr_def)

lemma read_answers_no_panic: "read_answers packet qtype n cursor collected \<noteq> None"
proof (induction n arbitrary: cursor collected)
  case 0
  then show ?case by simp
next
  case (Suc n)
  show ?case
  proof (cases "skip_dns_name packet cursor")
    case None
    then show ?thesis by simp
  next
    case (Some c)
    show ?thesis
    proof (cases "length packet < c + 10")
      case True
      then show ?thesis using Some by simp
    next
      case False
      let ?rd = "be_value [packet ! (c + 8), packet ! (c + 8 + 1)]"
      show ?thesis
      proof (cases "length packet < c + 10 + ?rd")
        case True
        then show ?thesis using Some False by (simp add: Let_def)
      next
        case fits: False
        let ?rdata = "take ?rd (drop (c + 10) packet)"
        have "length ?rdata = ?rd" using fits by simp
        from answer_addr_no_panic [OF this] obtain as where
          "answer_addr qtype ?rd ?rdata = run_ok as" by blast
        then show ?thesis using Some False fits Suc by (simp add: Let_def)
      qed
    qed
  qed
qed

section \<open>Responses of a server\<close>

text \<open>A response as a server sends it: the question echoed, each answer naming it by a pointer.\<close>

fun addr_bytes :: "ip_addr \<Rightarrow> bytes" where
  "addr_bytes (IpV4 bs) = bs" | "addr_bytes (IpV6 bs) = bs"

fun addr_type :: "ip_addr \<Rightarrow> nat" where
  "addr_type (IpV4 bs) = 1" | "addr_type (IpV6 bs) = 28"

fun addr_ok :: "ip_addr \<Rightarrow> bool" where
  "addr_ok (IpV4 bs) \<longleftrightarrow> length bs = 4" | "addr_ok (IpV6 bs) \<longleftrightarrow> length bs = 16"

definition dns_answer :: "bytes \<Rightarrow> ip_addr \<Rightarrow> bytes" where
  "dns_answer ttl a =
     [0xC0, 0x0C] @ be_bytes 2 (addr_type a) @ [0, 1] @ ttl @ be_bytes 2 (length (addr_bytes a)) @ addr_bytes a"

definition dns_response :: "nat \<Rightarrow> string \<Rightarrow> nat \<Rightarrow> (bytes \<times> ip_addr) list \<Rightarrow> bytes result" where
  "dns_response qid host qtype answers =
     bind_r (put_labels host (dns_labels host)) (\<lambda>name.
     Inr (be_bytes 2 qid @ [0x81, 0x80, 0, 1] @ be_bytes 2 (length answers) @ [0, 0, 0, 0] @
          name @ [0] @ be_bytes 2 qtype @ [0, 1] @ concat (map (\<lambda>(ttl, a). dns_answer ttl a) answers)))"

lemma nth_append_at [simp]: "(pre @ x # rest) ! length pre = x"
  by simp

lemma small_length_byte:
  assumes "0 < n" "n \<le> 63"
  shows "(of_nat n :: byte) AND 0xC0 \<noteq> 0xC0" "(of_nat n :: byte) \<noteq> 0" "unat (of_nat n :: byte) = n"
proof -
  show u: "unat (of_nat n :: byte) = n" using assms by (simp add: unat_of_nat)
  then show "(of_nat n :: byte) \<noteq> 0" using assms by auto
  have "\<not> bit n 7" using assms by (simp add: bit_iff_odd)
  then have "\<not> bit (of_nat n :: byte) 7" by (simp add: bit_of_nat_iff)
  moreover have "bit (0xC0 :: byte) 7" by simp
  ultimately show "(of_nat n :: byte) AND 0xC0 \<noteq> 0xC0" by (metis bit_and_iff)
qed

lemma skip_labels:
  assumes "put_labels host labels = Inr name"
  shows "skip_dns_name (pre @ name @ 0 # rest) (length pre) = Some (length pre + length name + 1)"
  using assms
proof (induction labels arbitrary: pre name)
  case Nil
  then show ?case by (subst skip_dns_name.simps) simp
next
  case (Cons l ls)
  then obtain more where more: "put_labels host ls = Inr more" and l: "l \<noteq> []" "length l \<le> 63"
    and name: "name = of_nat (length l) # str_bytes l @ more"
    by (auto simp: result_simps)
  let ?pre = "pre @ of_nat (length l) # str_bytes l"
  note b = small_length_byte [of "length l"]
  have "skip_dns_name (?pre @ more @ 0 # rest) (length ?pre) = Some (length ?pre + length more + 1)"
    by (rule Cons.IH [OF more])
  then show ?case
    using b l unfolding name
    by (subst skip_dns_name.simps) (simp add: Let_def add.assoc add.commute add.left_commute)
qed

lemma skip_pointer:
  "skip_dns_name (pre @ 0xC0 # x # rest) (length pre) = Some (length pre + 2)"
  by (subst skip_dns_name.simps) simp

lemma be_bytes_2: "be_bytes 2 n = [of_nat (n div 256 mod 256), of_nat (n mod 256)]"
  by (simp add: numeral_2_eq_2)

lemma u16_at_put:
  assumes "n < 65536" "i = length pre"
  shows "u16_at (pre @ be_bytes 2 n @ rest) i = run_ok n"
proof -
  have "be_value [of_nat (n div 256 mod 256), of_nat (n mod 256)] = n"
    using be_value_be_bytes [of n 2] assms by (simp add: be_bytes_2)
  then show ?thesis using assms(2) by (simp add: u16_at_def byte_at_def be_bytes_2 nth_append)
qed

lemma answer_addr_put:
  "addr_ok a \<Longrightarrow> addr_type a = qtype \<Longrightarrow>
     answer_addr qtype (length (addr_bytes a)) (addr_bytes a) = run_ok [a]"
proof (cases a)
  case (IpV4 bs)
  assume "addr_ok a" "addr_type a = qtype"
  with IpV4 have "length bs = 4" "qtype = 1" by auto
  then have "bs = [bs ! 0, bs ! 1, bs ! 2, bs ! 3]"
    by (intro nth_equalityI) (auto simp: less_Suc_eq numeral_eq_Suc)
  with IpV4 \<open>length bs = 4\<close> \<open>qtype = 1\<close> show ?thesis by (simp add: answer_addr_def)
qed (auto simp: answer_addr_def)

lemma read_answers_put:
  assumes "\<forall>(ttl, a) \<in> set answers. length ttl = 4 \<and> addr_ok a"
  shows "read_answers (pre @ concat (map (\<lambda>(ttl, a). dns_answer ttl a) answers)) qtype
           (length answers) (length pre) acc =
         run_ok (acc @ filter (\<lambda>a. addr_type a = qtype) (map snd answers))"
  using assms
proof (induction answers arbitrary: pre acc)
  case Nil
  then show ?case by simp
next
  case (Cons x answers)
  obtain ttl a where x: "x = (ttl, a)" by (cases x)
  have ttl: "length ttl = 4" and a: "addr_ok a" using Cons.prems x by auto
  let ?rest = "concat (map (\<lambda>(ttl, a). dns_answer ttl a) answers)"
  let ?b = "addr_bytes a"
  let ?p = "pre @ dns_answer ttl a @ ?rest"
  have lens: "length ?b < 65536" "addr_type a < 65536" using a by (cases a; auto)+
  have skip: "skip_dns_name ?p (length pre) = Some (length pre + 2)"
    using skip_pointer [of pre] by (simp add: dns_answer_def)
  have ty: "u16_at ?p (length pre + 2) = run_ok (addr_type a)"
    using u16_at_put [OF lens(2), of "length pre + 2" "pre @ [0xC0, 0x0C]"] by (simp add: dns_answer_def)
  have rd: "u16_at ?p (length pre + 2 + 8) = run_ok (length ?b)"
  proof -
    have p: "?p = (pre @ [0xC0, 0x0C] @ be_bytes 2 (addr_type a) @ [0, 1] @ ttl) @
        be_bytes 2 (length ?b) @ ?b @ ?rest" by (simp add: dns_answer_def)
    show ?thesis unfolding p by (rule u16_at_put) (use lens ttl in simp_all)
  qed
  have sl: "slice_of ?p (length pre + 2 + 10) (length pre + 2 + 10 + length ?b) = run_ok ?b"
    using ttl by (simp add: slice_of_def dns_answer_def)
  have len: "length ?p = length pre + 12 + length ?b + length ?rest" using ttl by (simp add: dns_answer_def)
  have IH: "read_answers ?p qtype (length answers) (length pre + 2 + 10 + length ?b) acc' =
      run_ok (acc' @ filter (\<lambda>a. addr_type a = qtype) (map snd answers))" for acc'
  proof -
    have l: "length (pre @ dns_answer ttl a) = length pre + 2 + 10 + length ?b"
      using ttl by (simp add: dns_answer_def)
    have pr: "\<forall>(ttl, a) \<in> set answers. length ttl = 4 \<and> addr_ok a" using Cons.prems by simp
    show ?thesis using Cons.IH [of "pre @ dns_answer ttl a" acc', OF pr] unfolding l by simp
  qed
  have fits: "\<not> length ?p < length pre + 2 + 10" "\<not> length ?p < length pre + 2 + 10 + length ?b"
    using len by simp_all
  have "read_answers ?p qtype (Suc (length answers)) (length pre) acc =
      (if addr_type a \<noteq> qtype
       then read_answers ?p qtype (length answers) (length pre + 2 + 10 + length ?b) acc
       else run_bind (answer_addr qtype (length ?b) ?b) (\<lambda>found.
         read_answers ?p qtype (length answers) (length pre + 2 + 10 + length ?b) (acc @ found)))"
    by (simp only: read_answers.simps(2) skip option.case ty rd sl fits Let_def run_bind_simps if_False)
  also have "\<dots> = run_ok (acc @ filter (\<lambda>a. addr_type a = qtype) (map snd (x # answers)))"
    using answer_addr_put [OF a] by (cases "addr_type a = qtype") (simp_all only: IH, simp_all add: x IH)
  finally show ?case by (simp add: x)
qed

section \<open>Properties\<close>

text \<open>C24: The parser of DNS responses never panics: for every packet of any server, every query id
  and type, all array accesses and slices are in range, so it returns addresses or an error.\<close>

theorem dns_parser_never_panics: "parse_dns_answers packet qid qtype \<noteq> None"
proof (cases "length packet < 12")
  case False
  have q: "run_bind (skip_questions packet n 12) (\<lambda>c. read_answers packet qtype m c []) \<noteq> None" for n m
    using skip_questions_no_panic [of packet n 12] read_answers_no_panic [of packet qtype m]
    by (cases "skip_questions packet n 12") (auto simp: run_bind_def split: sum.split)
  show ?thesis using False q by (simp add: parse_dns_answers_def)
qed (simp add: parse_dns_answers_def)

text \<open>What a resolver answers is what is dialled: a response that echoes the query and lists
  addresses is parsed to exactly the addresses of the requested family, in order; answers of
  another family are skipped.\<close>

theorem dns_response_parsed:
  assumes "qid < 65536" "qtype < 65536" "length answers < 65536"
    and "\<forall>(ttl, a) \<in> set answers. length ttl = 4 \<and> addr_ok a"
    and "dns_response qid host qtype answers = Inr packet"
  shows "parse_dns_answers packet qid qtype =
           Some (Inr (filter (\<lambda>a. addr_type a = qtype) (map snd answers)))"
proof -
  let ?rest = "concat (map (\<lambda>(ttl, a). dns_answer ttl a) answers)"
  from assms(5) obtain name where name: "put_labels host (dns_labels host) = Inr name"
    and packet: "packet = be_bytes 2 qid @ [0x81, 0x80, 0, 1] @ be_bytes 2 (length answers) @ [0, 0, 0, 0] @
          name @ [0] @ be_bytes 2 qtype @ [0, 1] @ ?rest"
    by (auto simp: dns_response_def result_simps)
  let ?head = "be_bytes 2 qid @ [0x81, 0x80, 0, 1] @ be_bytes 2 (length answers) @ [0, 0, 0, 0 :: byte]"
  have len: "length packet = 12 + length name + 5 + length ?rest" by (simp add: packet)
  have h: "slice_of packet 0 2 = run_ok (be_bytes 2 qid)" by (simp add: slice_of_def packet)
  have fl: "byte_at packet 3 = run_ok 0x80" by (simp add: byte_at_def packet be_bytes_2)
  have qn: "u16_at packet 4 = run_ok 1"
    using u16_at_put [of 1 4 "be_bytes 2 qid @ [0x81, 0x80]"] by (simp add: packet be_bytes_2)
  have an: "u16_at packet 6 = run_ok (length answers)"
    using u16_at_put [OF assms(3), of 6 "be_bytes 2 qid @ [0x81, 0x80, 0, 1]"] by (simp add: packet)
  have skip: "skip_dns_name packet 12 = Some (12 + length name + 1)"
    using skip_labels [OF name, of ?head] by (simp add: packet)
  have sq: "skip_questions packet 1 12 = run_ok (12 + length name + 5)"
    unfolding One_nat_def skip_questions.simps using skip len by simp
  have ra: "read_answers packet qtype (length answers) (12 + length name + 5) [] =
      run_ok (filter (\<lambda>a. addr_type a = qtype) (map snd answers))"
    using read_answers_put [OF assms(4), of "?head @ name @ [0] @ be_bytes 2 qtype @ [0, 1]" qtype "[]"]
    by (simp add: packet)
  have big: "\<not> length packet < 12" using len by simp
  show ?thesis
    using big h fl qn an sq ra by (simp add: parse_dns_answers_def run_ok_def [symmetric])
qed

theorem dns_response_parsed_witness:
  "\<exists>packet. dns_response 7 ''a.bc'' 1 [([0, 0, 0, 9], IpV4 [1, 2, 3, 4]), ([0, 0, 0, 9], IpV6 (replicate 16 1))]
       = Inr packet \<and>
     parse_dns_answers packet 7 1 = Some (Inr [IpV4 [1, 2, 3, 4]])"
proof -
  obtain packet where p: "dns_response 7 ''a.bc'' 1
      [([0, 0, 0, 9], IpV4 [1, 2, 3, 4]), ([0, 0, 0, 9], IpV6 (replicate 16 1))] = Inr packet"
    by (simp add: dns_response_def dns_labels_def trim_end_chars_def)
  from dns_response_parsed [OF _ _ _ _ p] p show ?thesis by simp
qed

end
