(* ===== verification/Announce.thy ===== *)
theory Announce
  imports Auth Dns "HOL-Library.Product_Lexorder"
begin

text \<open>
  LAN discovery, data and codecs (\<open>discovery.rs\<close>): announcements, candidates, what an mDNS
  answer contributes, and the normalisation of the configuration. Addresses are ordered as Rust
  orders \<open>SocketAddr\<close>: IPv4 before IPv6, then the octets, then the port.
\<close>

section \<open>Socket addresses\<close>

type_synonym socket_addr = "ip_addr \<times> nat"

instantiation ip_addr :: linorder
begin

fun less_eq_ip_addr :: "ip_addr \<Rightarrow> ip_addr \<Rightarrow> bool" where
  "less_eq_ip_addr (IpV4 a) (IpV4 b) = (a \<le> b)"
| "less_eq_ip_addr (IpV4 a) (IpV6 b) = True"
| "less_eq_ip_addr (IpV6 a) (IpV4 b) = False"
| "less_eq_ip_addr (IpV6 a) (IpV6 b) = (a \<le> b)"

definition less_ip_addr :: "ip_addr \<Rightarrow> ip_addr \<Rightarrow> bool" where
  "less_ip_addr a b = (a \<le> b \<and> \<not> b \<le> a)"

instance
proof
  fix x y z :: ip_addr
  show "x < y \<longleftrightarrow> x \<le> y \<and> \<not> y \<le> x" by (simp add: less_ip_addr_def)
  show "x \<le> x" by (cases x) simp_all
  show "x \<le> y \<Longrightarrow> y \<le> z \<Longrightarrow> x \<le> z" by (cases x; cases y; cases z) auto
  show "x \<le> y \<Longrightarrow> y \<le> x \<Longrightarrow> x = y" by (cases x; cases y) auto
  show "x \<le> y \<or> y \<le> x" by (cases x; cases y) auto
qed

end

fun ip_is_v4 :: "ip_addr \<Rightarrow> bool" where
  "ip_is_v4 (IpV4 _) = True"
| "ip_is_v4 (IpV6 _) = False"

fun ip_unspecified :: "ip_addr \<Rightarrow> bool" where
  "ip_unspecified (IpV4 octets) = (octets = [0, 0, 0, 0])"
| "ip_unspecified (IpV6 octets) = (octets = replicate 16 0)"

definition v4_multicast :: "bytes \<Rightarrow> bool" where
  "v4_multicast octets = (octets \<noteq> [] \<and> hd octets AND 0xF0 = 0xE0)"

definition v4_broadcast :: bytes where "v4_broadcast = [255, 255, 255, 255]"

text \<open>
  The text of an address (\<open>IpAddr: Display, FromStr\<close> of the standard library) is an argument:
  the program keeps addresses as text in its peer table and only relies on text parsing back.
\<close>

record ip_syntax =
  ip_show :: "ip_addr \<Rightarrow> string"
  ip_parse :: "string \<Rightarrow> ip_addr option"

definition ip_roundtrip :: "ip_syntax \<Rightarrow> bool" where
  "ip_roundtrip I \<longleftrightarrow> (\<forall>a. ip_parse I (ip_show I a) = Some a)"

section \<open>Announcements\<close>

definition UDP_DISCOVERY_PORT :: nat where "UDP_DISCOVERY_PORT = 41301"

definition UDP_DISCOVERY_MAGIC :: string where "UDP_DISCOVERY_MAGIC = ''inkhole-lan-v1''"

definition MDNS_SERVICE_TYPE :: string where "MDNS_SERVICE_TYPE = ''_inkhole._udp.local.''"

definition MDNS_TRANSPORT :: string where "MDNS_TRANSPORT = ''quic''"

definition MDNS_HASH :: string where "MDNS_HASH = ''blake3''"

definition MAX_UDP_PACKET :: nat where "MAX_UDP_PACKET = 2048"

record udp_announcement =
  an_magic :: string
  an_version :: nat
  an_instance_id :: string
  an_port :: nat
  an_fingerprint :: string
  an_reply :: bool
  an_bye :: bool

definition udp_announcement_json :: "udp_announcement \<Rightarrow> jvalue" where
  "udp_announcement_json a =
     JObj ([(''magic'', JStr (an_magic a)), (''version'', jnat (an_version a)),
            (''instance_id'', JStr (an_instance_id a)), (''port'', jnat (an_port a)),
            (''fingerprint'', JStr (an_fingerprint a)), (''reply'', JBool (an_reply a))]
           @ (if an_bye a then [(''bye'', JBool True)] else []))"

definition as_udp_announcement :: "jvalue \<Rightarrow> udp_announcement result" where
  "as_udp_announcement v =
     bind_r (as_struct [''magic'', ''version'', ''instance_id'', ''port'', ''fingerprint'', ''reply''] [''bye''] v) (\<lambda>kvs.
     bind_r (field ''magic'' as_str kvs) (\<lambda>magic.
     bind_r (field ''version'' (as_unsigned u16_max) kvs) (\<lambda>version.
     bind_r (field ''instance_id'' as_str kvs) (\<lambda>instance_id.
     bind_r (field ''port'' (as_unsigned u16_max) kvs) (\<lambda>port.
     bind_r (field ''fingerprint'' as_str kvs) (\<lambda>fingerprint.
     bind_r (field ''reply'' as_bool kvs) (\<lambda>reply.
     bind_r (field_default ''bye'' False as_bool kvs) (\<lambda>bye.
       Inr \<lparr>an_magic = magic, an_version = version, an_instance_id = instance_id, an_port = port,
            an_fingerprint = fingerprint, an_reply = reply, an_bye = bye\<rparr>))))))))"

record discovery_timings =
  dt_announce_interval :: nat
  dt_refresh_burst_gap :: nat
  dt_refresh_burst :: nat
  dt_probe_timeout :: nat
  dt_min_probe_interval :: nat
  dt_liveness_interval :: nat
  dt_prune_interval :: nat
  dt_stale_after :: nat
  dt_max_failures :: nat

definition default_timings :: discovery_timings where
  "default_timings =
     \<lparr>dt_announce_interval = 2000, dt_refresh_burst_gap = 150, dt_refresh_burst = 5,
      dt_probe_timeout = 1500, dt_min_probe_interval = 1000, dt_liveness_interval = 4000,
      dt_prune_interval = 1000, dt_stale_after = 12000, dt_max_failures = 3\<rparr>"

record discovery_config =
  dc_enable_udp :: bool
  dc_enable_mdns :: bool
  dc_bind_address :: socket_addr
  dc_targets :: "socket_addr list"
  dc_instance_id :: string
  dc_quic_port :: nat
  dc_certificate_fingerprint :: string
  dc_shared_secret :: string
  dc_timings :: discovery_timings

definition announcement_of :: "discovery_config \<Rightarrow> bool \<Rightarrow> bool \<Rightarrow> udp_announcement" where
  "announcement_of config reply bye =
     \<lparr>an_magic = UDP_DISCOVERY_MAGIC, an_version = LAN_DISCOVERY_PROTOCOL_VERSION,
      an_instance_id = dc_instance_id config, an_port = dc_quic_port config,
      an_fingerprint = dc_certificate_fingerprint config, an_reply = reply, an_bye = bye\<rparr>"

definition encode_announcement :: "crates \<Rightarrow> discovery_config \<Rightarrow> bool \<Rightarrow> bool \<Rightarrow> bytes result" where
  "encode_announcement E config reply bye =
     (let payload = to_vec E (udp_announcement_json (announcement_of config reply bye)) in
      reject_if (MAX_UDP_PACKET < length payload)
        (Protocol ''UDP discovery announcement is too large'')
      (Inr payload))"

definition decode_announcement :: "crates \<Rightarrow> bytes \<Rightarrow> udp_announcement option" where
  "decode_announcement E payload =
     (if payload = [] \<or> MAX_UDP_PACKET < length payload then None
      else (case bind_r (from_slice E payload) as_udp_announcement of
              Inl _ \<Rightarrow> None
            | Inr decoded \<Rightarrow>
                if an_magic decoded \<noteq> UDP_DISCOVERY_MAGIC
                   \<or> an_version decoded \<noteq> LAN_DISCOVERY_PROTOCOL_VERSION
                   \<or> \<not> valid_instance_id (an_instance_id decoded)
                   \<or> an_port decoded = 0
                   \<or> \<not> valid_blake3 (an_fingerprint decoded)
                then None else Some decoded))"

section \<open>Configuration\<close>

definition invalid_timings :: "discovery_timings \<Rightarrow> bool" where
  "invalid_timings t =
     (dt_announce_interval t = 0 \<or> dt_refresh_burst_gap t = 0 \<or> dt_probe_timeout t = 0
      \<or> dt_min_probe_interval t = 0 \<or> dt_liveness_interval t = 0 \<or> dt_prune_interval t = 0
      \<or> dt_stale_after t = 0 \<or> dt_refresh_burst t = 0 \<or> dt_max_failures t = 0)"

text \<open>\<open>Vec::dedup\<close> removes equal neighbours; after a sort that is every duplicate.\<close>

definition normal_targets :: "socket_addr list \<Rightarrow> socket_addr list" where
  "normal_targets targets =
     remdups_adj (sort (if targets = [] then [(IpV4 v4_broadcast, UDP_DISCOVERY_PORT)] else targets))"

definition validate_config :: "discovery_config \<Rightarrow> discovery_config result" where
  "validate_config given =
     (let config = given\<lparr>dc_instance_id := to_ascii_lowercase (trim (dc_instance_id given)),
                         dc_certificate_fingerprint :=
                           to_ascii_lowercase (trim (dc_certificate_fingerprint given))\<rparr> in
      reject_if (\<not> dc_enable_udp config \<and> \<not> dc_enable_mdns config)
        (InvalidRequest ''at least one LAN discovery transport must be enabled'')
      (reject_if (dc_enable_udp config \<and> \<not> ip_is_v4 (fst (dc_bind_address config)))
        (InvalidRequest ''UDP discovery currently requires an IPv4 bind address'')
      (reject_if (\<not> valid_instance_id (dc_instance_id config))
        (InvalidIdentity ''invalid discovery instance id'')
      (reject_if (dc_quic_port config = 0)
        (InvalidRequest ''invalid discovery QUIC port'')
      (reject_if (\<not> valid_blake3 (dc_certificate_fingerprint config))
        (InvalidIdentity ''invalid discovery certificate fingerprint'')
      (reject_if (invalid_timings (dc_timings config))
        (InvalidRequest ''invalid LAN discovery timing configuration'')
      (if dc_enable_udp config then
         reject_if (list_ex (\<lambda>t. \<not> ip_is_v4 (fst t) \<or> snd t = 0 \<or> ip_unspecified (fst t))
                     (dc_targets config))
           (InvalidRequest ''invalid IPv4 UDP discovery target'')
         (Inr (config\<lparr>dc_targets := normal_targets (dc_targets config)\<rparr>))
       else Inr config)))))))"

section \<open>Candidates\<close>

record candidate_key =
  ck_instance_id :: string
  ck_address :: socket_addr
  ck_fingerprint :: string

record candidate =
  ca_key :: candidate_key
  ca_service_name :: string
  ca_announce_reply_port :: "nat option"

text \<open>What the program reads of a \<open>ResolvedService\<close> of the mDNS crate.\<close>

record resolved_service =
  rs_ty_domain :: string
  rs_fullname :: string
  rs_port :: nat
  rs_properties :: "(string \<times> string) list"
  rs_addresses_v4 :: "bytes list"

definition service_property :: "resolved_service \<Rightarrow> string \<Rightarrow> string option" where
  "service_property service k = map_of (rs_properties service) k"

definition ends_with :: "string \<Rightarrow> string \<Rightarrow> bool" where
  "ends_with s t = (length t \<le> length s \<and> drop (length s - length t) s = t)"

definition mdns_candidates :: "resolved_service \<Rightarrow> candidate list option" where
  "mdns_candidates service =
     (if to_ascii_lowercase (rs_ty_domain service) \<noteq> to_ascii_lowercase MDNS_SERVICE_TYPE
         \<or> rs_fullname service = []
         \<or> \<not> ends_with (to_ascii_lowercase (rs_fullname service)) MDNS_SERVICE_TYPE
         \<or> rs_port service = 0 then None
      else
        Option.bind (service_property service ''version'') (\<lambda>version.
        Option.bind (service_property service ''instance_id'') (\<lambda>instance_id.
        Option.bind (service_property service ''fingerprint'') (\<lambda>fingerprint.
        Option.bind (service_property service ''transport'') (\<lambda>transport.
        Option.bind (service_property service ''hash'') (\<lambda>hash.
          if version \<noteq> dec LAN_DISCOVERY_PROTOCOL_VERSION
             \<or> \<not> valid_instance_id instance_id
             \<or> \<not> valid_blake3 fingerprint
             \<or> transport \<noteq> MDNS_TRANSPORT
             \<or> hash \<noteq> MDNS_HASH then None
          else
            Some (map (\<lambda>octets.
                    \<lparr>ca_key = \<lparr>ck_instance_id = instance_id,
                               ck_address = (IpV4 octets, rs_port service),
                               ck_fingerprint = fingerprint\<rparr>,
                     ca_service_name = rs_fullname service,
                     ca_announce_reply_port = None\<rparr>)
                  (filter (\<lambda>octets. \<not> ip_unspecified (IpV4 octets) \<and> \<not> v4_multicast octets
                                    \<and> octets \<noteq> v4_broadcast)
                    (sort (rs_addresses_v4 service))))))))))"

section \<open>What is decoded and normalised\<close>

lemma as_udp_announcement_json [simp]:
  assumes "an_version a \<le> u16_max" and "an_port a \<le> u16_max"
  shows "as_udp_announcement (udp_announcement_json a) = Inr a"
  using assms
  by (simp add: as_udp_announcement_def udp_announcement_json_def field_def field_default_def entries_of_def)

lemma validate_config_Inr:
  assumes "validate_config given = Inr config"
  shows "valid_instance_id (dc_instance_id config) \<and> dc_quic_port config \<noteq> 0
    \<and> valid_blake3 (dc_certificate_fingerprint config) \<and> \<not> invalid_timings (dc_timings config)
    \<and> dc_quic_port config = dc_quic_port given"
  using assms by (auto simp: validate_config_def Let_def result_simps split: if_splits)

lemma normal_targets:
  "sorted_wrt (<) (normal_targets targets) \<and> normal_targets targets \<noteq> []
   \<and> (targets \<noteq> [] \<longrightarrow> set (normal_targets targets) = set targets)"
proof -
  have "sorted_wrt (<) (remdups_adj xs)" if "sorted xs" for xs :: "socket_addr list"
    using that
  proof (induction xs rule: remdups_adj.induct)
    case (3 x y xs)
    show ?case
    proof (cases "x = y")
      case False
      then have "x < y" using 3 by auto
      then have "\<forall>z\<in>set (y # xs). x < z"
        using 3(3) by (auto simp: order.strict_trans1 less_le_trans)
      then show ?thesis using False 3 by simp
    qed (use 3 in simp)
  qed simp_all
  moreover have "sort targets \<noteq> []" if "targets \<noteq> []"
    using that by (metis set_empty set_sort)
  ultimately show ?thesis by (simp add: normal_targets_def)
qed

text \<open>An announcement of a validated configuration that fits a datagram is read back by every
  receiver as exactly the announced device, port and certificate; and whatever a receiver reads
  names a well-formed device and certificate of this protocol version.\<close>

theorem announcement_roundtrip:
  assumes "json_roundtrip E" and "json_nonempty E" and "validate_config given = Inr config"
    and "dc_quic_port given \<le> u16_max"
    and "encode_announcement E config reply bye = Inr payload"
  shows "decode_announcement E payload = Some (announcement_of config reply bye)
    \<and> (\<forall>datagram a. decode_announcement E datagram = Some a \<longrightarrow>
         an_magic a = UDP_DISCOVERY_MAGIC \<and> an_version a = LAN_DISCOVERY_PROTOCOL_VERSION
         \<and> valid_instance_id (an_instance_id a) \<and> an_port a \<noteq> 0 \<and> valid_blake3 (an_fingerprint a))"
proof
  have ranges: "an_version (announcement_of config reply bye) \<le> u16_max"
    "an_port (announcement_of config reply bye) \<le> u16_max"
    using validate_config_Inr [OF assms(3)] assms(4)
    by (simp_all add: announcement_of_def LAN_DISCOVERY_PROTOCOL_VERSION_def u16_max_def)
  have "payload \<noteq> []" "\<not> MAX_UDP_PACKET < length payload"
    "json_parse E payload = Some (udp_announcement_json (announcement_of config reply bye))"
    using assms(1,2,5)
    by (auto simp: encode_announcement_def Let_def result_simps to_vec_def json_roundtrip_def json_nonempty_def)
  then show "decode_announcement E payload = Some (announcement_of config reply bye)"
    using ranges validate_config_Inr [OF assms(3)]
    by (simp add: decode_announcement_def from_slice_def announcement_of_def)
qed (auto simp: decode_announcement_def split: if_splits sum.splits)

definition sample_discovery :: discovery_config where
  "sample_discovery =
     \<lparr>dc_enable_udp = True, dc_enable_mdns = False, dc_bind_address = (IpV4 [0, 0, 0, 0], 41301),
      dc_targets = [], dc_instance_id = replicate 32 CHR ''a'', dc_quic_port = 4130,
      dc_certificate_fingerprint = replicate 64 CHR ''0'', dc_shared_secret = '''',
      dc_timings = default_timings\<rparr>"

theorem announcement_roundtrip_witness:
  "let E = short_crates (udp_announcement_json (announcement_of sample_discovery True False)) in
     decode_announcement E [1] = Some (announcement_of sample_discovery True False)"
proof -
  let ?given = "sample_discovery"
  let ?E = "short_crates (udp_announcement_json (announcement_of ?given True False))"
  have trims: "trim (replicate n CHR ''a'') = replicate n CHR ''a''"
    "trim (replicate n CHR ''0'') = replicate n CHR ''0''" for n
    by (rule trim_lower_hex, simp add: list_all_iff is_lower_hex_def is_digit_def)+
  have config: "validate_config ?given = Inr (?given\<lparr>dc_targets := [(IpV4 v4_broadcast, 41301)]\<rparr>)"
    by (simp add: validate_config_def Let_def sample_discovery_def trims to_ascii_lowercase_def
        ascii_lower_char_def valid_instance_id_def valid_blake3_def list_all_iff is_lower_hex_def is_digit_def
        invalid_timings_def default_timings_def normal_targets_def UDP_DISCOVERY_PORT_def)
  have same: "announcement_of (?given\<lparr>dc_targets := t\<rparr>) reply bye = announcement_of ?given reply bye" for t reply bye
    by (simp add: announcement_of_def)
  have "encode_announcement ?E (?given\<lparr>dc_targets := [(IpV4 v4_broadcast, 41301)]\<rparr>) True False = Inr [1]"
    by (simp add: encode_announcement_def same to_vec_def MAX_UDP_PACKET_def)
  note read_back = announcement_roundtrip [OF short_crates_json(1,2) config _ this]
  have "decode_announcement ?E [1] = Some (announcement_of ?given True False)"
    using read_back [unfolded same, THEN conjunct1] by (simp add: sample_discovery_def u16_max_def)
  then show ?thesis by (simp add: Let_def)
qed

end
