(* ===== verification/Discovery.thy ===== *)
theory Discovery
  imports Announce "HOL-Library.AList"
begin

text \<open>
  The LAN discovery task (\<open>run_discovery\<close> of \<open>discovery.rs\<close>): the peer table, the tracker of
  the probes in flight and one handler per branch of the \<open>select!\<close> loop. A hash map is an
  association list, whose order is the iteration order of the map; the step relation may
  reorder the peer table at any time, so nothing depends on that order. Instants are
  milliseconds, read once per handler and never decreasing.
\<close>

section \<open>Data\<close>

definition MAX_PENDING_PROBES :: nat where "MAX_PENDING_PROBES = 16"

definition MAX_DISCOVERED_PEERS :: nat where "MAX_DISCOVERED_PEERS = 256"

definition MAX_UDP_ERROR_STREAK :: nat where "MAX_UDP_ERROR_STREAK = 50"

definition BEACON_MIN_INTERVAL :: nat where "BEACON_MIN_INTERVAL = 20000"

record verified_peer =
  vp_address :: socket_addr
  vp_instance_id :: string
  vp_name :: string
  vp_capabilities :: "string list"
  vp_public_key :: string
  vp_certificate_fingerprint :: string

record discovered_peer =
  dp_instance_id :: string
  dp_name :: string
  dp_host :: string
  dp_hosts :: "string list"
  dp_port :: nat
  dp_capabilities :: "string list"
  dp_fingerprint :: string
  dp_public_key :: string
  dp_service_name :: string

record peer_record =
  rec_peer :: discovered_peer
  rec_last_verified :: nat
  rec_failures :: "(socket_addr \<times> nat) list"
  rec_farewelled :: bool

type_synonym peer_table = "(string \<times> peer_record) list"

record probe_tracker =
  pt_probes :: "(nat \<times> candidate) list"
  pt_next_id :: nat
  pt_pending :: "candidate_key set"
  pt_owners :: "(nat \<times> candidate_key) list"
  pt_last_attempt :: "(candidate_key \<times> nat) list"

definition new_tracker :: probe_tracker where
  "new_tracker = \<lparr>pt_probes = [], pt_next_id = 0, pt_pending = {}, pt_owners = [], pt_last_attempt = []\<rparr>"

section \<open>Scheduling probes\<close>

definition schedule_probe :: "discovery_timings \<Rightarrow> nat \<Rightarrow> candidate \<Rightarrow> probe_tracker \<Rightarrow> probe_tracker" where
  "schedule_probe timings now candidate tracker =
     (let key = ca_key candidate in
      if MAX_PENDING_PROBES \<le> length (pt_probes tracker) \<or> key \<in> pt_pending tracker then tracker
      else if (case map_of (pt_last_attempt tracker) key of
                 Some last_time \<Rightarrow> now - last_time < dt_min_probe_interval timings | None \<Rightarrow> False)
      then tracker
      else tracker\<lparr>pt_last_attempt := AList.update key now (pt_last_attempt tracker),
                   pt_pending := insert key (pt_pending tracker),
                   pt_probes := pt_probes tracker @ [(pt_next_id tracker, candidate)],
                   pt_owners := AList.update (pt_next_id tracker) key (pt_owners tracker),
                   pt_next_id := Suc (pt_next_id tracker)\<rparr>)"

fun schedule_each :: "discovery_timings \<Rightarrow> nat \<Rightarrow> candidate list \<Rightarrow> probe_tracker \<Rightarrow> probe_tracker" where
  "schedule_each timings now [] tracker = tracker"
| "schedule_each timings now (c # cs) tracker =
     schedule_each timings now cs (schedule_probe timings now c tracker)"

text \<open>The handlers that forget the last attempt first, so that the rate limit does not apply.\<close>

fun schedule_forced :: "discovery_timings \<Rightarrow> nat \<Rightarrow> candidate list \<Rightarrow> probe_tracker \<Rightarrow> probe_tracker" where
  "schedule_forced timings now [] tracker = tracker"
| "schedule_forced timings now (c # cs) tracker =
     schedule_forced timings now cs
       (schedule_probe timings now c
          (tracker\<lparr>pt_last_attempt := AList.delete (ca_key c) (pt_last_attempt tracker)\<rparr>))"

section \<open>The peer table\<close>

definition failure_count :: "peer_record \<Rightarrow> socket_addr \<Rightarrow> nat" where
  "failure_count record_of address =
     (case map_of (rec_failures record_of) address of None \<Rightarrow> 0 | Some n \<Rightarrow> n)"

text \<open>Every host of the record has failed at least \<open>threshold\<close> times; text that is no address counts as failed.\<close>

definition hosts_failed :: "ip_syntax \<Rightarrow> nat \<Rightarrow> peer_record \<Rightarrow> bool" where
  "hosts_failed I threshold record_of =
     list_all (\<lambda>host. case ip_parse I host of
                 None \<Rightarrow> True
               | Some ip \<Rightarrow> threshold \<le> failure_count record_of (ip, dp_port (rec_peer record_of)))
       (dp_hosts (rec_peer record_of))"

definition refreshed_peer :: "ip_syntax \<Rightarrow> verified_peer \<Rightarrow> discovered_peer \<Rightarrow> discovered_peer" where
  "refreshed_peer I v peer =
     (let host = ip_show I (fst (vp_address v)) in
      peer\<lparr>dp_hosts := (if host \<in> set (dp_hosts peer) then dp_hosts peer else sort (dp_hosts peer @ [host])),
           dp_host := host, dp_port := snd (vp_address v), dp_name := vp_name v,
           dp_capabilities := vp_capabilities v\<rparr>)"

definition new_peer_record :: "ip_syntax \<Rightarrow> nat \<Rightarrow> candidate \<Rightarrow> verified_peer \<Rightarrow> peer_record" where
  "new_peer_record I now candidate v =
     (let host = ip_show I (fst (vp_address v)) in
      \<lparr>rec_peer =
         \<lparr>dp_instance_id = vp_instance_id v, dp_name = vp_name v, dp_host = host, dp_hosts = [host],
          dp_port = snd (vp_address v), dp_capabilities = vp_capabilities v,
          dp_fingerprint = vp_certificate_fingerprint v, dp_public_key = vp_public_key v,
          dp_service_name = ca_service_name candidate\<rparr>,
       rec_last_verified = now, rec_failures = [], rec_farewelled = False\<rparr>)"

definition apply_verified ::
  "ip_syntax \<Rightarrow> nat \<Rightarrow> peer_table \<Rightarrow> candidate \<Rightarrow> verified_peer \<Rightarrow> peer_table \<times> bool" where
  "apply_verified I now records candidate v =
     (case map_of records (vp_instance_id v) of
        Some r \<Rightarrow>
          (if dp_fingerprint (rec_peer r) \<noteq> vp_certificate_fingerprint v
              \<or> dp_public_key (rec_peer r) \<noteq> vp_public_key v then (records, False)
           else (let peer = refreshed_peer I v (rec_peer r) in
                 (AList.update (vp_instance_id v)
                    (r\<lparr>rec_peer := peer, rec_last_verified := now,
                       rec_failures := AList.delete (vp_address v) (rec_failures r),
                       rec_farewelled := False\<rparr>) records,
                  peer \<noteq> rec_peer r)))
      | None \<Rightarrow>
          (if MAX_DISCOVERED_PEERS \<le> length records then (records, False)
           else (AList.update (vp_instance_id v) (new_peer_record I now candidate v) records, True)))"

definition count_failure :: "socket_addr \<Rightarrow> peer_record \<Rightarrow> peer_record" where
  "count_failure address r =
     r\<lparr>rec_failures := AList.update address (min 255 (failure_count r address + 1)) (rec_failures r)\<rparr>"

definition apply_failed ::
  "ip_syntax \<Rightarrow> nat \<Rightarrow> peer_table \<Rightarrow> candidate \<Rightarrow> peer_table \<times> bool" where
  "apply_failed I max_failures records candidate =
     (let key = ca_key candidate in
      case map_of records (ck_instance_id key) of
        None \<Rightarrow> (records, False)
      | Some r \<Rightarrow>
          (if dp_fingerprint (rec_peer r) = ck_fingerprint key
              \<and> dp_port (rec_peer r) = snd (ck_address key)
              \<and> ip_show I (fst (ck_address key)) \<in> set (dp_hosts (rec_peer r))
           then (let r' = count_failure (ck_address key) r in
                 if hosts_failed I (if rec_farewelled r then 1 else max_failures) r'
                 then (AList.delete (ck_instance_id key) records, True)
                 else (AList.update (ck_instance_id key) r' records, False))
           else (records, False)))"

definition apply_probe_outcome ::
  "ip_syntax \<Rightarrow> nat \<Rightarrow> nat \<Rightarrow> peer_table \<Rightarrow> candidate \<Rightarrow> verified_peer result \<Rightarrow> peer_table \<times> bool" where
  "apply_probe_outcome I max_failures now records candidate outcome =
     (case outcome of
        Inr v \<Rightarrow> apply_verified I now records candidate v
      | Inl err \<Rightarrow> if err = Cancelled then (records, False) else apply_failed I max_failures records candidate)"

definition record_candidates :: "ip_syntax \<Rightarrow> peer_record \<Rightarrow> candidate list" where
  "record_candidates I r =
     (let peer = rec_peer r; hosts = (if dp_hosts peer = [] then [dp_host peer] else dp_hosts peer) in
      concat (map (\<lambda>host. case ip_parse I host of
                None \<Rightarrow> []
              | Some ip \<Rightarrow>
                  [\<lparr>ca_key = \<lparr>ck_instance_id = dp_instance_id peer, ck_address = (ip, dp_port peer),
                              ck_fingerprint = dp_fingerprint peer\<rparr>,
                    ca_service_name = dp_service_name peer, ca_announce_reply_port = None\<rparr>]) hosts))"

definition demote_goodbye ::
  "ip_syntax \<Rightarrow> peer_table \<Rightarrow> udp_announcement \<Rightarrow> ip_addr \<Rightarrow> peer_table \<times> candidate list" where
  "demote_goodbye I records goodbye sender_ip =
     (case map_of records (an_instance_id goodbye) of
        None \<Rightarrow> (records, [])
      | Some r \<Rightarrow>
          (if dp_fingerprint (rec_peer r) \<noteq> an_fingerprint goodbye
              \<or> dp_port (rec_peer r) \<noteq> an_port goodbye
              \<or> ip_show I sender_ip \<notin> set (dp_hosts (rec_peer r)) then (records, [])
           else (let r' = r\<lparr>rec_farewelled := True\<rparr> in
                 (AList.update (an_instance_id goodbye) r' records, record_candidates I r'))))"

text \<open>The order of the published list: the lower-cased name, then the instance.\<close>

definition snapshot_of :: "crates \<Rightarrow> peer_table \<Rightarrow> discovered_peer list" where
  "snapshot_of E records =
     sort_key (\<lambda>p. (unicode_lowercase E (dp_name p), dp_instance_id p)) (map (\<lambda>kr. rec_peer (snd kr)) records)"

section \<open>The task\<close>

record discovery_task =
  tk_socket :: bool
  tk_config :: discovery_config
  tk_announcement :: bytes
  tk_reply :: bytes
  tk_goodbye :: bytes

datatype mdns_event = MdnsResolved resolved_service | MdnsRemoved string

datatype discovery_event =
    CancelRequested
  | PeriodicTick
  | BurstTick
  | HintReceived ip_addr
  | RefreshRequested
  | DatagramReceived bytes socket_addr
  | ReceiveFailed io_kind
  | MdnsReceived mdns_event
  | MdnsClosed
  | ProbeFinished nat "verified_peer result"
  | ProbeAborted nat
  | LivenessTick
  | PruneTick

datatype discovery_output = SendTo bytes "socket_addr list" | Publish "discovered_peer list"

record discovery_state =
  d_records :: peer_table
  d_tracker :: probe_tracker
  d_error_streak :: nat
  d_mdns_services :: "(string \<times> candidate_key list) list"
  d_mdns_open :: bool
  d_beaconed :: "(ip_addr \<times> nat) list"
  d_burst_remaining :: nat
  d_published :: "discovered_peer list"
  d_status :: "unit result option"

definition discovery_start :: "discovery_task \<Rightarrow> bool \<Rightarrow> discovery_state" where
  "discovery_start task mdns =
     \<lparr>d_records = [], d_tracker = new_tracker, d_error_streak = 0, d_mdns_services = [],
      d_mdns_open = mdns, d_beaconed = [], d_burst_remaining = 0, d_published = [], d_status = None\<rparr>"

definition send_if :: "bool \<Rightarrow> bytes \<Rightarrow> socket_addr list \<Rightarrow> discovery_output list" where
  "send_if socket payload targets = (if socket then [SendTo payload targets] else [])"

text \<open>What the task does before its loop: one announcement.\<close>

definition discovery_begin :: "discovery_task \<Rightarrow> bool \<Rightarrow> discovery_state \<times> discovery_output list" where
  "discovery_begin task mdns =
     (discovery_start task mdns,
      send_if (tk_socket task) (tk_announcement task) (dc_targets (tk_config task)))"

definition publish_snapshot :: "crates \<Rightarrow> discovery_state \<Rightarrow> discovery_state \<times> discovery_output list" where
  "publish_snapshot E s =
     (let peers = snapshot_of E (d_records s) in (s\<lparr>d_published := peers\<rparr>, [Publish peers]))"

text \<open>After the loop: clear the list if the socket died, say goodbye, abort the probes.\<close>

definition finish_discovery ::
  "crates \<Rightarrow> discovery_task \<Rightarrow> unit result \<Rightarrow> discovery_state \<Rightarrow> discovery_state \<times> discovery_output list" where
  "finish_discovery E task run_result s =
     (let (s', out) = (if \<not> is_ok run_result \<and> d_records s \<noteq> []
                       then publish_snapshot E (s\<lparr>d_records := []\<rparr>) else (s, [])) in
      (s'\<lparr>d_tracker := new_tracker, d_status := Some run_result\<rparr>,
       out @ send_if (tk_socket task) (tk_goodbye task) (dc_targets (tk_config task))))"

definition on_hint ::
  "ip_syntax \<Rightarrow> discovery_task \<Rightarrow> nat \<Rightarrow> ip_addr \<Rightarrow> discovery_state \<Rightarrow> discovery_state \<times> discovery_output list" where
  "on_hint I task now ip s =
     (if \<not> tk_socket task then (s, [])
      else if list_ex (\<lambda>kr. ip_show I ip \<in> set (dp_hosts (rec_peer (snd kr)))) (d_records s) then (s, [])
      else
        (let beaconed = (if 512 < length (d_beaconed s)
                         then filter (\<lambda>b. now - snd b < BEACON_MIN_INTERVAL) (d_beaconed s)
                         else d_beaconed s) in
         if (case map_of beaconed ip of Some at \<Rightarrow> now - at < BEACON_MIN_INTERVAL | None \<Rightarrow> False)
         then (s\<lparr>d_beaconed := beaconed\<rparr>, [])
         else (s\<lparr>d_beaconed := AList.update ip now beaconed\<rparr>,
               [SendTo (tk_announcement task) [(ip, snd (dc_bind_address (tk_config task)))]])))"

definition all_candidates :: "ip_syntax \<Rightarrow> peer_table \<Rightarrow> candidate list" where
  "all_candidates I records = concat (map (\<lambda>kr. record_candidates I (snd kr)) records)"

definition on_refresh :: "ip_syntax \<Rightarrow> discovery_task \<Rightarrow> nat \<Rightarrow> discovery_state \<Rightarrow> discovery_state" where
  "on_refresh I task now s =
     (let timings = dc_timings (tk_config task) in
      s\<lparr>d_burst_remaining := (if tk_socket task then dt_refresh_burst timings else d_burst_remaining s),
        d_tracker := schedule_forced timings now (all_candidates I (d_records s)) (d_tracker s)\<rparr>)"

definition on_datagram ::
  "crates \<Rightarrow> ip_syntax \<Rightarrow> discovery_task \<Rightarrow> nat \<Rightarrow> bytes \<Rightarrow> socket_addr \<Rightarrow> discovery_state
    \<Rightarrow> discovery_state \<times> discovery_output list" where
  "on_datagram E I task now datagram sender s0 =
     (let s = s0\<lparr>d_error_streak := 0\<rparr>; config = tk_config task; timings = dc_timings config in
      case decode_announcement E (take (MAX_UDP_PACKET + 1) datagram) of
        None \<Rightarrow> (s, [])
      | Some decoded \<Rightarrow>
          (if an_instance_id decoded = dc_instance_id config then (s, [])
           else if an_bye decoded then
             (let (records, candidates) = demote_goodbye I (d_records s) decoded (fst sender) in
              (s\<lparr>d_records := records, d_tracker := schedule_forced timings now candidates (d_tracker s)\<rparr>, []))
           else
             (s\<lparr>d_tracker := schedule_probe timings now
                  \<lparr>ca_key = \<lparr>ck_instance_id = an_instance_id decoded,
                             ck_address = (fst sender, an_port decoded),
                             ck_fingerprint = an_fingerprint decoded\<rparr>,
                   ca_service_name = ''udp-v4'', ca_announce_reply_port = Some (snd sender)\<rparr>
                  (d_tracker s)\<rparr>,
              if an_reply decoded then [] else [SendTo (tk_reply task) [sender]])))"

definition on_receive_error ::
  "crates \<Rightarrow> discovery_task \<Rightarrow> io_kind \<Rightarrow> discovery_state \<Rightarrow> discovery_state \<times> discovery_output list" where
  "on_receive_error E task kind s =
     (if kind = NotConnected then finish_discovery E task (Inl (Io kind)) s
      else (let streak = min u32_max (d_error_streak s + 1) in
            (s\<lparr>d_error_streak := (if MAX_UDP_ERROR_STREAK \<le> streak then 0 else streak)\<rparr>, [])))"

definition on_mdns ::
  "ip_syntax \<Rightarrow> discovery_task \<Rightarrow> nat \<Rightarrow> mdns_event \<Rightarrow> discovery_state \<Rightarrow> discovery_state" where
  "on_mdns I task now ev s =
     (let timings = dc_timings (tk_config task) in
      case ev of
        MdnsResolved service \<Rightarrow>
          (case mdns_candidates service of
             None \<Rightarrow> s
           | Some candidates \<Rightarrow>
               (let others = filter (\<lambda>c. ck_instance_id (ca_key c) \<noteq> dc_instance_id (tk_config task)) candidates in
                s\<lparr>d_tracker := schedule_each timings now others (d_tracker s),
                  d_mdns_services :=
                    (if others = [] then AList.delete (rs_fullname service) (d_mdns_services s)
                     else AList.update (rs_fullname service) (remdups (map ca_key others)) (d_mdns_services s))\<rparr>))
      | MdnsRemoved service_name \<Rightarrow>
          (let stored = (case map_of (d_mdns_services s) service_name of None \<Rightarrow> [] | Some ks \<Rightarrow> ks);
               known = map ca_key (all_candidates I
                 (filter (\<lambda>kr. dp_service_name (rec_peer (snd kr)) = service_name) (d_records s)));
               candidates = map (\<lambda>key. \<lparr>ca_key = key, ca_service_name = service_name,
                                        ca_announce_reply_port = None\<rparr>) (remdups (stored @ known)) in
           s\<lparr>d_mdns_services := AList.delete service_name (d_mdns_services s),
             d_tracker := schedule_forced timings now candidates (d_tracker s)\<rparr>))"

definition release_probe :: "nat \<Rightarrow> candidate_key \<Rightarrow> probe_tracker \<Rightarrow> probe_tracker" where
  "release_probe i key tracker =
     tracker\<lparr>pt_probes := AList.delete i (pt_probes tracker),
             pt_owners := AList.delete i (pt_owners tracker),
             pt_pending := pt_pending tracker - {key}\<rparr>"

definition on_probe_finished ::
  "crates \<Rightarrow> ip_syntax \<Rightarrow> discovery_task \<Rightarrow> nat \<Rightarrow> nat \<Rightarrow> verified_peer result \<Rightarrow> discovery_state
    \<Rightarrow> discovery_state \<times> discovery_output list" where
  "on_probe_finished E I task now i outcome s =
     (case map_of (pt_probes (d_tracker s)) i of
        None \<Rightarrow> (s, [])
      | Some candidate \<Rightarrow>
          (let released = s\<lparr>d_tracker := release_probe i (ca_key candidate) (d_tracker s)\<rparr>;
               newly_verified_ip =
                 (case outcome of
                    Inr v \<Rightarrow> if map_of (d_records s) (vp_instance_id v) = None then Some (fst (vp_address v)) else None
                  | Inl _ \<Rightarrow> None);
               reply_port = (case ca_announce_reply_port candidate of
                    Some p \<Rightarrow> p | None \<Rightarrow> snd (dc_bind_address (tk_config task)));
               (records, changed) = apply_probe_outcome I (dt_max_failures (dc_timings (tk_config task)))
                 now (d_records s) candidate outcome;
               updated = released\<lparr>d_records := records\<rparr> in
           if changed then
             (let (s', out) = publish_snapshot E updated in
              (s', out @ (case newly_verified_ip of
                            None \<Rightarrow> []
                          | Some ip \<Rightarrow> send_if (tk_socket task) (tk_announcement task) [(ip, reply_port)])))
           else (updated, [])))"

definition on_probe_aborted :: "nat \<Rightarrow> discovery_state \<Rightarrow> discovery_state" where
  "on_probe_aborted i s =
     (let tracker = d_tracker s in
      s\<lparr>d_tracker :=
          (case map_of (pt_owners tracker) i of
             None \<Rightarrow> tracker\<lparr>pt_probes := AList.delete i (pt_probes tracker)\<rparr>
           | Some key \<Rightarrow> release_probe i key tracker)\<rparr>)"

definition on_liveness :: "ip_syntax \<Rightarrow> discovery_task \<Rightarrow> nat \<Rightarrow> discovery_state \<Rightarrow> discovery_state" where
  "on_liveness I task now s =
     s\<lparr>d_tracker := schedule_each (dc_timings (tk_config task)) now (all_candidates I (d_records s)) (d_tracker s)\<rparr>"

definition on_prune ::
  "crates \<Rightarrow> discovery_task \<Rightarrow> nat \<Rightarrow> discovery_state \<Rightarrow> discovery_state \<times> discovery_output list" where
  "on_prune E task now s =
     (let timings = dc_timings (tk_config task);
          records = filter (\<lambda>kr. now - rec_last_verified (snd kr) < dt_stale_after timings) (d_records s);
          tracker = (d_tracker s)\<lparr>pt_last_attempt :=
            filter (\<lambda>ka. now - snd ka < dt_stale_after timings * 2) (pt_last_attempt (d_tracker s))\<rparr>;
          s' = s\<lparr>d_records := records, d_tracker := tracker\<rparr> in
      if length records \<noteq> length (d_records s) then publish_snapshot E s' else (s', []))"

text \<open>One turn of the loop; a branch whose guard is false is not taken.\<close>

definition discovery_step ::
  "crates \<Rightarrow> ip_syntax \<Rightarrow> discovery_task \<Rightarrow> nat \<Rightarrow> discovery_event \<Rightarrow> discovery_state
    \<Rightarrow> discovery_state \<times> discovery_output list" where
  "discovery_step E I task now ev s =
     (if d_status s \<noteq> None then (s, [])
      else (case ev of
        CancelRequested \<Rightarrow> finish_discovery E task (Inr ()) s
      | PeriodicTick \<Rightarrow> (s, send_if (tk_socket task) (tk_announcement task) (dc_targets (tk_config task)))
      | BurstTick \<Rightarrow>
          (if tk_socket task \<and> 0 < d_burst_remaining s
           then (s\<lparr>d_burst_remaining := d_burst_remaining s - 1\<rparr>,
                 [SendTo (tk_announcement task) (dc_targets (tk_config task))])
           else (s, []))
      | HintReceived ip \<Rightarrow> on_hint I task now ip s
      | RefreshRequested \<Rightarrow> (on_refresh I task now s, [])
      | DatagramReceived datagram sender \<Rightarrow>
          (if tk_socket task then on_datagram E I task now datagram sender s else (s, []))
      | ReceiveFailed kind \<Rightarrow> (if tk_socket task then on_receive_error E task kind s else (s, []))
      | MdnsReceived m \<Rightarrow> ((if d_mdns_open s then on_mdns I task now m s else s), [])
      | MdnsClosed \<Rightarrow> (s\<lparr>d_mdns_open := False\<rparr>, [])
      | ProbeFinished i outcome \<Rightarrow> on_probe_finished E I task now i outcome s
      | ProbeAborted i \<Rightarrow> (on_probe_aborted i s, [])
      | LivenessTick \<Rightarrow> ((if d_records s = [] then s else on_liveness I task now s), [])
      | PruneTick \<Rightarrow> on_prune E task now s))"

end
