(* ===== verification/DiscoveryProps.thy ===== *)
theory DiscoveryProps
  imports Discovery
begin

text \<open>
  What the LAN discovery task keeps: the probe tracker never leaks a slot, the peer table holds
  only verified peers under one identity each, the published list is the table, and a peer
  leaves it only when its probes failed or it went stale.
\<close>

section \<open>Association lists\<close>

lemma update_present:
  assumes "map_of al k = Some v"
  obtains before after where "al = before @ (k, v) # after" "k \<notin> fst ` set before"
    "\<And>w. AList.update k w al = before @ (k, w) # after"
proof -
  have "\<exists>before after. al = before @ (k, v) # after \<and> k \<notin> fst ` set before
      \<and> (\<forall>w. AList.update k w al = before @ (k, w) # after)"
    using assms
  proof (induction al)
    case (Cons x al)
    show ?case
    proof (cases "fst x = k")
      case True
      then show ?thesis using Cons.prems by (cases x) (auto intro: exI [of _ "[]"])
    next
      case False
      then obtain before after where "al = before @ (k, v) # after" "k \<notin> fst ` set before"
        "\<forall>w. AList.update k w al = before @ (k, w) # after"
        using Cons by (cases x) (auto split: if_splits)
      then show ?thesis
        using False by (cases x) (simp, intro exI [of _ "x # before"] exI [of _ after], auto)
    qed
  qed simp
  then show thesis using that by blast
qed

lemma update_absent: "map_of al k = None \<Longrightarrow> AList.update k w al = al @ [(k, w)]"
  by (induction al) (auto split: if_splits)

lemma map_of_delete: "map_of (AList.delete k al) = (map_of al)(k := None)"
  by (simp add: delete_conv')

lemma delete_append: "AList.delete k (xs @ ys) = AList.delete k xs @ AList.delete k ys"
  by (simp add: AList.delete_eq)

lemma delete_present:
  "k \<notin> fst ` set before \<Longrightarrow> k \<notin> fst ` set after \<Longrightarrow>
    AList.delete k (before @ (k, v) # after) = before @ after"
  by (simp add: delete_append)

section \<open>The probe tracker\<close>

text \<open>
  Every probe in flight holds one pending slot and is the owner of its key, no candidate is
  probed twice at a time, and at most 16 probes run.
\<close>

definition tracker_ok :: "probe_tracker \<Rightarrow> bool" where
  "tracker_ok t =
     (length (pt_probes t) \<le> MAX_PENDING_PROBES
      \<and> distinct (map fst (pt_probes t))
      \<and> (\<forall>ic\<in>set (pt_probes t). fst ic < pt_next_id t)
      \<and> distinct (map (\<lambda>ic. ca_key (snd ic)) (pt_probes t))
      \<and> pt_pending t = (\<lambda>ic. ca_key (snd ic)) ` set (pt_probes t)
      \<and> (\<forall>i. map_of (pt_owners t) i = map_option ca_key (map_of (pt_probes t) i)))"

lemma new_tracker_ok: "tracker_ok new_tracker"
  by (simp add: tracker_ok_def new_tracker_def)

lemma tracker_ok_attempts [simp]: "tracker_ok (t\<lparr>pt_last_attempt := a\<rparr>) = tracker_ok t"
  by (simp add: tracker_ok_def)

lemma schedule_probe_ok:
  assumes "tracker_ok t"
  shows "tracker_ok (schedule_probe timings now c t)"
proof -
  have fresh: "map_of (pt_probes t) (pt_next_id t) = None"
    using assms by (auto simp: tracker_ok_def map_of_eq_None_iff)
  have "map_of (pt_probes t @ [(pt_next_id t, c)]) i
      = (if i = pt_next_id t then Some c else map_of (pt_probes t) i)" for i
    using fresh by (auto simp: map_add_def split: option.splits)
  then show ?thesis
    using assms fresh
    by (auto simp: schedule_probe_def Let_def tracker_ok_def update_conv' less_Suc_eq)
qed

lemma schedule_each_ok: "tracker_ok t \<Longrightarrow> tracker_ok (schedule_each timings now cs t)"
  by (induction cs arbitrary: t) (simp_all add: schedule_probe_ok)

lemma schedule_forced_ok: "tracker_ok t \<Longrightarrow> tracker_ok (schedule_forced timings now cs t)"
  by (induction cs arbitrary: t) (simp_all add: schedule_probe_ok)

lemma release_probe_ok:
  assumes "tracker_ok t" and "map_of (pt_probes t) i = Some c"
  shows "tracker_ok (release_probe i (ca_key c) t)"
proof -
  obtain before after where probes: "pt_probes t = before @ (i, c) # after" "i \<notin> fst ` set before"
    using update_present [OF assms(2)] by metis
  then have "i \<notin> fst ` set after"
    using assms(1) by (auto simp: tracker_ok_def)
  then have deleted: "AList.delete i (pt_probes t) = before @ after"
    using probes(1,2) by (simp add: delete_present)
  have lookup: "map_of (before @ after) j = (if j = i then None else map_of (pt_probes t) j)" for j
    using map_of_delete [of i "pt_probes t"] deleted by simp
  have "release_probe i (ca_key c) t = t\<lparr>pt_probes := before @ after,
      pt_owners := AList.delete i (pt_owners t), pt_pending := pt_pending t - {ca_key c}\<rparr>"
    by (simp add: release_probe_def deleted)
  moreover have "map_of (AList.delete i (pt_owners t)) j = map_option ca_key (map_of (before @ after) j)" for j
    using assms(1) unfolding lookup by (simp add: map_of_delete tracker_ok_def)
  moreover have "pt_pending t - {ca_key c} = (\<lambda>ic. ca_key (snd ic)) ` set (before @ after)"
    using assms(1) unfolding tracker_ok_def probes(1) by (simp add: image_Un Diff_insert_absorb)
  ultimately show ?thesis
    using assms(1) unfolding tracker_ok_def probes(1) by (simp del: map_of_append)
qed

section \<open>The peer table\<close>

text \<open>\<open>vouches I v k peer\<close>: the verified probe \<open>v\<close> is of instance \<open>k\<close> with the identity of \<open>peer\<close>.\<close>

definition vouches :: "verified_peer \<Rightarrow> string \<Rightarrow> discovered_peer \<Rightarrow> bool" where
  "vouches v k peer =
     (vp_instance_id v = k \<and> vp_certificate_fingerprint v = dp_fingerprint peer
      \<and> vp_public_key v = dp_public_key peer)"

definition peer_entry_ok :: "ip_syntax \<Rightarrow> (nat \<times> verified_peer) set \<Rightarrow> string \<Rightarrow> peer_record \<Rightarrow> bool" where
  "peer_entry_ok I verified k r =
     (let peer = rec_peer r in
      dp_instance_id peer = k
      \<and> (\<exists>v. (rec_last_verified r, v) \<in> verified \<and> vouches v k peer
           \<and> dp_name peer = vp_name v \<and> dp_capabilities peer = vp_capabilities v
           \<and> dp_host peer = ip_show I (fst (vp_address v)) \<and> dp_port peer = snd (vp_address v))
      \<and> dp_host peer \<in> set (dp_hosts peer)
      \<and> (\<forall>host\<in>set (dp_hosts peer). \<exists>(t, v)\<in>verified. vouches v k peer \<and> host = ip_show I (fst (vp_address v))))"

definition table_ok :: "ip_syntax \<Rightarrow> (nat \<times> verified_peer) set \<Rightarrow> peer_table \<Rightarrow> bool" where
  "table_ok I verified records =
     (distinct (map fst records) \<and> length records \<le> MAX_DISCOVERED_PEERS
      \<and> (\<forall>(k, r)\<in>set records. peer_entry_ok I verified k r))"

lemma peer_entry_ok_mono: "peer_entry_ok I verified k r \<Longrightarrow> verified \<subseteq> more_verified \<Longrightarrow> peer_entry_ok I more_verified k r"
  by (fastforce simp: peer_entry_ok_def Let_def)

lemma peer_entry_ok_bookkeeping [simp]:
  "peer_entry_ok I verified k (r\<lparr>rec_failures := f\<rparr>) = peer_entry_ok I verified k r"
  "peer_entry_ok I verified k (r\<lparr>rec_farewelled := b\<rparr>) = peer_entry_ok I verified k r"
  by (simp_all add: peer_entry_ok_def)

lemma table_ok_mono: "table_ok I verified records \<Longrightarrow> verified \<subseteq> more_verified \<Longrightarrow> table_ok I more_verified records"
  using peer_entry_ok_mono by (fastforce simp: table_ok_def)

lemma table_ok_Nil [simp]: "table_ok I verified []"
  by (simp add: table_ok_def)

lemma table_ok_filter: "table_ok I verified records \<Longrightarrow> table_ok I verified (filter p records)"
  using order.trans [OF length_filter_le [of p records]] by (auto simp: table_ok_def distinct_map_filter)

lemma table_ok_perm: "table_ok I verified records \<Longrightarrow> mset records' = mset records \<Longrightarrow> table_ok I verified records'"
  by (auto simp: table_ok_def dest: mset_eq_setD mset_eq_length
      intro: mset_eq_imp_distinct_iff [THEN iffD1, of "map fst records"] arg_cong [of _ _ "image_mset fst"])

lemma table_ok_update:
  assumes "table_ok I verified records" and "peer_entry_ok I verified k r"
    and "map_of records k = None \<Longrightarrow> length records < MAX_DISCOVERED_PEERS"
  shows "table_ok I verified (AList.update k r records)"
proof (cases "map_of records k")
  case None
  then show ?thesis
    using assms by (auto simp: update_absent table_ok_def map_of_eq_None_iff)
next
  case (Some old)
  then obtain before after where "records = before @ (k, old) # after"
    "AList.update k r records = before @ (k, r) # after"
    using update_present by metis
  then show ?thesis using assms(1,2) by (auto simp: table_ok_def)
qed

lemma table_ok_lookup: "table_ok I verified records \<Longrightarrow> map_of records k = Some r \<Longrightarrow> peer_entry_ok I verified k r"
  by (auto simp: table_ok_def dest: map_of_SomeD)

lemma table_ok_delete: "table_ok I verified records \<Longrightarrow> table_ok I verified (AList.delete k records)"
  by (simp add: AList.delete_eq table_ok_filter)

lemma apply_verified_ok:
  assumes ok: "table_ok I verified records" and now: "(now, v) \<in> verified"
  shows "table_ok I verified (fst (apply_verified I now records c v))"
proof (cases "map_of records (vp_instance_id v)")
  case None
  have "peer_entry_ok I verified (vp_instance_id v) (new_peer_record I now c v)"
    using now by (force simp: peer_entry_ok_def new_peer_record_def vouches_def Let_def)
  then show ?thesis
    using None ok by (simp add: apply_verified_def table_ok_update)
next
  case (Some r)
  note entry = table_ok_lookup [OF ok Some]
  have "peer_entry_ok I verified (vp_instance_id v)
      (r\<lparr>rec_peer := refreshed_peer I v (rec_peer r), rec_last_verified := now, rec_failures := f,
         rec_farewelled := False\<rparr>)"
    if "dp_fingerprint (rec_peer r) = vp_certificate_fingerprint v" "dp_public_key (rec_peer r) = vp_public_key v" for f
    using entry now that
    by (auto simp: peer_entry_ok_def refreshed_peer_def vouches_def Let_def intro!: bexI [of _ "(now, v)"])
  then show ?thesis
    using Some ok by (auto simp: apply_verified_def Let_def intro!: table_ok_update)
qed

lemma apply_failed_ok:
  assumes "table_ok I verified records"
  shows "table_ok I verified (fst (apply_failed I max_failures records c))"
proof (cases "map_of records (ck_instance_id (ca_key c))")
  case (Some r)
  then show ?thesis
    using assms table_ok_lookup [OF assms Some]
    by (auto simp: apply_failed_def Let_def count_failure_def table_ok_delete intro!: table_ok_update)
qed (use assms in \<open>simp add: apply_failed_def Let_def\<close>)

lemma demote_goodbye_ok:
  assumes "table_ok I verified records"
  shows "table_ok I verified (fst (demote_goodbye I records goodbye ip))"
proof (cases "map_of records (an_instance_id goodbye)")
  case (Some r)
  then show ?thesis
    using assms table_ok_lookup [OF assms Some]
    by (auto simp: demote_goodbye_def Let_def intro!: table_ok_update)
qed (use assms in \<open>simp add: demote_goodbye_def\<close>)

section \<open>The published list\<close>

abbreviation peers_of :: "peer_table \<Rightarrow> discovered_peer list" where
  "peers_of records \<equiv> map (\<lambda>kr. rec_peer (snd kr)) records"

lemma peers_of_update:
  assumes "map_of records k = Some r" and "rec_peer r' = rec_peer r"
  shows "peers_of (AList.update k r' records) = peers_of records"
proof -
  obtain before after where "records = before @ (k, r) # after" "AList.update k r' records = before @ (k, r') # after"
    using update_present [OF assms(1)] by metis
  then show ?thesis using assms(2) by simp
qed

lemma snapshot_of_cong: "peers_of records = peers_of records' \<Longrightarrow> snapshot_of E records = snapshot_of E records'"
  by (simp add: snapshot_of_def)

lemma table_ok_instances:
  "table_ok I verified records \<Longrightarrow> map dp_instance_id (peers_of records) = map fst records"
  by (auto simp: table_ok_def peer_entry_ok_def Let_def)

lemma snapshot_of_perm:
  assumes "table_ok I verified records" and "mset records' = mset records"
  shows "snapshot_of E records' = snapshot_of E records"
proof -
  have "distinct (map dp_instance_id (peers_of records))"
    unfolding table_ok_instances [OF assms(1)] using assms(1) by (simp add: table_ok_def)
  then have "inj_on dp_instance_id (set (peers_of records))"
    unfolding distinct_map by blast
  moreover have peers: "mset (peers_of records') = mset (peers_of records)"
    using assms(2) by (simp add: mset_map)
  moreover have "set (peers_of records') = set (peers_of records)"
    using peers by (rule mset_eq_setD)
  ultimately show ?thesis
    unfolding snapshot_of_def
    by (intro sort_key_inj_key_eq) (auto simp: inj_on_def)
qed

lemma length_filter_same:
  assumes "length (filter p xs) = length xs"
  shows "filter p xs = xs"
proof -
  have "\<forall>x\<in>set xs. p x"
    using assms length_filter_less [of _ xs p] by (metis less_irrefl)
  then show ?thesis by simp
qed

lemma apply_probe_outcome_unchanged:
  assumes "apply_probe_outcome I max_failures now records c outcome = (records', False)"
  shows "peers_of records' = peers_of records"
proof (cases outcome)
  case (Inl err)
  then show ?thesis
    using assms
    by (auto simp: apply_probe_outcome_def apply_failed_def Let_def count_failure_def peers_of_update
        split: if_splits option.splits)
next
  case (Inr v)
  then show ?thesis
    using assms
    by (auto simp: apply_probe_outcome_def apply_verified_def Let_def peers_of_update
        split: if_splits option.splits)
qed

lemma demote_goodbye_peers: "peers_of (fst (demote_goodbye I records goodbye ip)) = peers_of records"
  by (auto simp: demote_goodbye_def Let_def peers_of_update split: option.splits)

section \<open>The system\<close>

record discovery_system =
  sy_state :: discovery_state
  sy_now :: nat
  sy_verified :: "(nat \<times> verified_peer) set"

text \<open>The probes that have verified a peer so far, with the time they did.\<close>

definition verified_by :: "nat \<Rightarrow> discovery_event \<Rightarrow> (nat \<times> verified_peer) set" where
  "verified_by now ev = (case ev of ProbeFinished i (Inr v) \<Rightarrow> {(now, v)} | _ \<Rightarrow> {})"

inductive discovery_moves ::
  "crates \<Rightarrow> ip_syntax \<Rightarrow> discovery_task \<Rightarrow> discovery_system \<Rightarrow> discovery_event option \<Rightarrow> discovery_system \<Rightarrow> bool"
  for E I task where
  moves_event:
    "sy_now w \<le> now \<Longrightarrow>
     discovery_moves E I task w (Some ev)
       \<lparr>sy_state = fst (discovery_step E I task now ev (sy_state w)), sy_now = now,
        sy_verified = sy_verified w \<union> verified_by now ev\<rparr>"
| moves_rehash:
    "mset records = mset (d_records (sy_state w)) \<Longrightarrow>
     discovery_moves E I task w None (w\<lparr>sy_state := (sy_state w)\<lparr>d_records := records\<rparr>\<rparr>)"

inductive_cases discovery_moves_Some: "discovery_moves E I task w (Some ev) w'"

definition state_ok :: "crates \<Rightarrow> ip_syntax \<Rightarrow> (nat \<times> verified_peer) set \<Rightarrow> discovery_state \<Rightarrow> bool" where
  "state_ok E I verified s =
     (tracker_ok (d_tracker s) \<and> table_ok I verified (d_records s)
      \<and> d_published s = snapshot_of E (d_records s))"

lemma state_ok_frame:
  assumes "state_ok E I verified s" and "d_records s' = d_records s" and "d_published s' = d_published s"
    and "tracker_ok (d_tracker s')"
  shows "state_ok E I verified s'"
  using assms by (simp add: state_ok_def)

lemma state_ok_publish:
  "tracker_ok (d_tracker s) \<Longrightarrow> table_ok I verified (d_records s) \<Longrightarrow>
    state_ok E I verified (fst (publish_snapshot E s))"
  by (simp add: state_ok_def publish_snapshot_def Let_def)

lemma finish_ok: "state_ok E I verified s \<Longrightarrow> state_ok E I verified (fst (finish_discovery E task r s))"
  by (simp add: finish_discovery_def Let_def publish_snapshot_def state_ok_def new_tracker_ok)

lemma on_datagram_ok:
  assumes "state_ok E I verified s"
  shows "state_ok E I verified (fst (on_datagram E I task now datagram sender s))"
proof -
  have peers: "snapshot_of E (fst (demote_goodbye I (d_records s) a ip)) = snapshot_of E (d_records s)" for a ip
    by (rule snapshot_of_cong) (rule demote_goodbye_peers)
  show ?thesis
    using assms
    by (auto simp: on_datagram_def Let_def state_ok_def split_def schedule_forced_ok schedule_probe_ok
        demote_goodbye_ok peers split: option.splits)
qed

lemma on_mdns_ok:
  assumes "state_ok E I verified s"
  shows "state_ok E I verified (on_mdns I task now m s)"
  using assms
  by (auto simp: on_mdns_def Let_def state_ok_def schedule_each_ok schedule_forced_ok
      split: mdns_event.splits option.splits)

lemma on_probe_finished_ok:
  assumes ok: "state_ok E I verified s" and seen: "verified_by now (ProbeFinished i outcome) \<subseteq> verified"
  shows "state_ok E I verified (fst (on_probe_finished E I task now i outcome s))"
proof (cases "map_of (pt_probes (d_tracker s)) i")
  case (Some c)
  obtain records changed where outcome:
    "apply_probe_outcome I (dt_max_failures (dc_timings (tk_config task))) now (d_records s) c outcome
      = (records, changed)"
    by fastforce
  have tracker: "tracker_ok (release_probe i (ca_key c) (d_tracker s))"
    using ok Some by (simp add: state_ok_def release_probe_ok)
  have table: "table_ok I verified records"
    using ok outcome seen apply_verified_ok [of I verified "d_records s" now _ c]
      apply_failed_ok [of I verified "d_records s" _ c]
    by (auto simp: apply_probe_outcome_def state_ok_def verified_by_def split: sum.splits if_splits) (metis fst_conv)+
  show ?thesis
  proof (cases changed)
    case True
    then show ?thesis
      using Some outcome tracker table state_ok_publish
      by (simp add: on_probe_finished_def Let_def split_def publish_snapshot_def state_ok_def)
  next
    case False
    then have "snapshot_of E records = snapshot_of E (d_records s)"
      using outcome by (intro snapshot_of_cong apply_probe_outcome_unchanged) simp
    then show ?thesis
      using Some outcome tracker table False ok
      by (simp add: on_probe_finished_def Let_def split_def state_ok_def)
  qed
qed (use ok in \<open>simp add: on_probe_finished_def\<close>)

lemma on_prune_ok:
  assumes "state_ok E I verified s"
  shows "state_ok E I verified (fst (on_prune E task now s))"
  using assms
  by (auto simp: on_prune_def Let_def state_ok_def publish_snapshot_def table_ok_filter
      dest: length_filter_same)

lemma on_probe_aborted_ok:
  assumes "state_ok E I verified s"
  shows "state_ok E I verified (on_probe_aborted i s)"
proof (cases "map_of (pt_probes (d_tracker s)) i")
  case None
  then have "map_of (pt_owners (d_tracker s)) i = None"
    using assms by (simp add: state_ok_def tracker_ok_def)
  moreover have "AList.delete i (pt_probes (d_tracker s)) = pt_probes (d_tracker s)"
    using None by (simp add: map_of_eq_None_iff)
  ultimately show ?thesis using assms by (simp add: on_probe_aborted_def Let_def state_ok_def)
next
  case (Some c)
  then have "map_of (pt_owners (d_tracker s)) i = Some (ca_key c)"
    using assms by (simp add: state_ok_def tracker_ok_def)
  then show ?thesis
    using assms Some by (simp add: on_probe_aborted_def Let_def state_ok_def release_probe_ok)
qed

lemma on_receive_error_ok:
  "state_ok E I verified s \<Longrightarrow> state_ok E I verified (fst (on_receive_error E task kind s))"
  by (simp add: on_receive_error_def finish_ok Let_def) (simp add: state_ok_def)

lemma on_hint_ok: "state_ok E I verified s \<Longrightarrow> state_ok E I verified (fst (on_hint I task now ip s))"
  by (simp add: on_hint_def Let_def state_ok_def)

lemma on_refresh_ok: "state_ok E I verified s \<Longrightarrow> state_ok E I verified (on_refresh I task now s)"
  by (simp add: on_refresh_def Let_def state_ok_def schedule_forced_ok)

lemma on_liveness_ok: "state_ok E I verified s \<Longrightarrow> state_ok E I verified (on_liveness I task now s)"
  by (simp add: on_liveness_def state_ok_def schedule_each_ok)

lemma state_ok_fields [simp]:
  "state_ok E I verified (s\<lparr>d_burst_remaining := n\<rparr>) = state_ok E I verified s"
  "state_ok E I verified (s\<lparr>d_mdns_open := b\<rparr>) = state_ok E I verified s"
  by (simp_all add: state_ok_def)

lemmas handlers_ok = finish_ok on_datagram_ok on_mdns_ok on_probe_aborted_ok on_prune_ok
  on_receive_error_ok on_hint_ok on_refresh_ok on_liveness_ok on_probe_finished_ok

lemma discovery_step_ok:
  assumes "state_ok E I verified s" and "verified_by now ev \<subseteq> verified"
  shows "state_ok E I verified (fst (discovery_step E I task now ev s))"
  using assms by (cases ev) (simp_all add: discovery_step_def handlers_ok)

definition system_ok :: "crates \<Rightarrow> ip_syntax \<Rightarrow> discovery_system \<Rightarrow> bool" where
  "system_ok E I w = (state_ok E I (sy_verified w) (sy_state w) \<and> (\<forall>(t, v)\<in>sy_verified w. t \<le> sy_now w))"

definition system_start :: "discovery_task \<Rightarrow> discovery_system \<Rightarrow> bool" where
  "system_start task w =
     ((\<exists>mdns. sy_state w = discovery_start task mdns) \<and> sy_verified w = {})"

lemma system_start_ok: "system_start task w \<Longrightarrow> system_ok E I w"
  by (auto simp: system_start_def system_ok_def state_ok_def discovery_start_def new_tracker_ok snapshot_of_def)

lemma discovery_moves_ok:
  assumes "system_ok E I w" and "discovery_moves E I task w l w'"
  shows "system_ok E I w'"
  using assms(2,1)
proof cases
  case (moves_event now ev)
  have "state_ok E I (sy_verified w \<union> verified_by now ev) (sy_state w)"
    using assms(1) by (auto simp: system_ok_def state_ok_def intro: table_ok_mono)
  then have "state_ok E I (sy_verified w') (sy_state w')"
    unfolding moves_event(2) by (simp add: discovery_step_ok)
  moreover have "\<forall>(t, v)\<in>sy_verified w'. t \<le> sy_now w'"
    using assms(1) moves_event(2,3)
    by (auto simp: system_ok_def verified_by_def split: discovery_event.splits sum.splits)
  ultimately show ?thesis by (simp add: system_ok_def)
next
  case (moves_rehash records)
  have "table_ok I (sy_verified w) (d_records (sy_state w))"
    using assms(1) by (simp add: system_ok_def state_ok_def)
  from table_ok_perm [OF this moves_rehash(3)] snapshot_of_perm [OF this moves_rehash(3)] show ?thesis
    using assms(1) moves_rehash(2) by (simp add: system_ok_def state_ok_def)
qed

interpretation discovery_machine: machine "system_start task" "discovery_moves E I task" "system_ok E I"
  for task E I
  by unfold_locales (auto intro: system_start_ok discovery_moves_ok)

text \<open>C15: Every device the peer list shows has proved itself: in every reachable state of the
  discovery task each entry of the table is of an instance whose latest verification is the
  recorded one, with the name, capabilities, host and port that verification gave; its certificate
  and public key are those of every verification that contributed a host; instances are unique;
  there are at most 256 of them; and the published list is exactly the table, in the order of its
  names.\<close>

theorem peer_table_verified:
  assumes "reachable (system_start task) (discovery_moves E I task) w"
  shows "distinct (map fst (d_records (sy_state w)))
    \<and> length (d_records (sy_state w)) \<le> MAX_DISCOVERED_PEERS
    \<and> list_all (\<lambda>(k, r). peer_entry_ok I (sy_verified w) k r) (d_records (sy_state w))
    \<and> d_published (sy_state w) = snapshot_of E (d_records (sy_state w))"
  using discovery_machine.reachable_inv [OF assms]
  by (auto simp: system_ok_def state_ok_def table_ok_def list_all_iff)

text \<open>C17: The probe tracker never leaks: in every reachable state the pending set is exactly the keys
  of the probes in flight, each probe owns its own key, no candidate is probed twice at once and
  at most 16 probes run, whatever probes finish, are aborted or panic.\<close>

theorem probe_slots_never_leak:
  assumes "reachable (system_start task) (discovery_moves E I task) w"
  shows "length (pt_probes (d_tracker (sy_state w))) \<le> MAX_PENDING_PROBES
    \<and> pt_pending (d_tracker (sy_state w)) = (\<lambda>ic. ca_key (snd ic)) ` set (pt_probes (d_tracker (sy_state w)))
    \<and> distinct (map (\<lambda>ic. ca_key (snd ic)) (pt_probes (d_tracker (sy_state w))))
    \<and> map_of (pt_owners (d_tracker (sy_state w))) i
       = map_option ca_key (map_of (pt_probes (d_tracker (sy_state w))) i)"
  using discovery_machine.reachable_inv [OF assms]
  by (auto simp: system_ok_def state_ok_def tracker_ok_def)

section \<open>What a datagram can do\<close>

definition without_farewell :: "peer_table \<Rightarrow> peer_table" where
  "without_farewell records = map (\<lambda>(k, r). (k, r\<lparr>rec_farewelled := False\<rparr>)) records"

lemma without_farewell_update:
  assumes "map_of records k = Some r"
  shows "without_farewell (AList.update k (r\<lparr>rec_farewelled := True\<rparr>) records) = without_farewell records"
proof -
  obtain before after where "records = before @ (k, r) # after"
    "AList.update k (r\<lparr>rec_farewelled := True\<rparr>) records = before @ (k, r\<lparr>rec_farewelled := True\<rparr>) # after"
    using update_present [OF assms] by metis
  then show ?thesis by (simp add: without_farewell_def)
qed

text \<open>An unauthenticated datagram, forged or not, cannot add, change or remove a device: it leaves
  the peer table as it was, except for the mark of a farewell, publishes nothing, and is
  answered at most by one reply to its sender, and only when it is itself no reply.\<close>

theorem datagram_changes_no_peer:
  shows "without_farewell (d_records (fst (discovery_step E I task now (DatagramReceived datagram sender) s)))
      = without_farewell (d_records s)
    \<and> d_published (fst (discovery_step E I task now (DatagramReceived datagram sender) s)) = d_published s
    \<and> (snd (discovery_step E I task now (DatagramReceived datagram sender) s) = []
       \<or> snd (discovery_step E I task now (DatagramReceived datagram sender) s) = [SendTo (tk_reply task) [sender]]
         \<and> map_option an_reply (decode_announcement E (take (MAX_UDP_PACKET + 1) datagram)) = Some False)"
proof -
  have demote: "without_farewell (fst (demote_goodbye I records a ip)) = without_farewell records" for records a ip
    by (auto simp: demote_goodbye_def Let_def without_farewell_update split: option.splits)
  show ?thesis
    by (auto simp: discovery_step_def on_datagram_def Let_def split_def demote split: option.splits)
qed

section \<open>How a peer leaves\<close>

text \<open>What one turn of the loop may make of the record \<open>r\<close> of instance \<open>k\<close>.\<close>

definition fair_effect ::
  "ip_syntax \<Rightarrow> discovery_task \<Rightarrow> nat \<Rightarrow> discovery_event \<Rightarrow> probe_tracker \<Rightarrow> string \<Rightarrow> peer_record
    \<Rightarrow> peer_record option \<Rightarrow> bool" where
  "fair_effect I task now ev tracker k r after =
     (case after of
        Some r' \<Rightarrow>
          dp_fingerprint (rec_peer r') = dp_fingerprint (rec_peer r)
          \<and> dp_public_key (rec_peer r') = dp_public_key (rec_peer r)
          \<and> rec_last_verified r \<le> rec_last_verified r'
      | None \<Rightarrow>
          ev = PruneTick \<and> dt_stale_after (dc_timings (tk_config task)) \<le> now - rec_last_verified r
          \<or> ev = ReceiveFailed NotConnected
          \<or> (\<exists>i err c. ev = ProbeFinished i (Inl err) \<and> err \<noteq> Cancelled
              \<and> map_of (pt_probes tracker) i = Some c \<and> ck_instance_id (ca_key c) = k
              \<and> hosts_failed I (if rec_farewelled r then 1 else dt_max_failures (dc_timings (tk_config task)))
                  (count_failure (ck_address (ca_key c)) r)))"

lemma fair_effect_same [simp]: "fair_effect I task now ev tracker k r (Some r)"
  by (simp add: fair_effect_def)

lemma map_of_filter_distinct:
  assumes "distinct (map fst al)" and "map_of al k = Some v"
  shows "map_of (filter p al) k = (if p (k, v) then Some v else None)"
  using assms by (induction al) (auto simp: map_of_eq_None_iff split: if_splits dest: map_of_SomeD)

lemma apply_failed_lookup:
  assumes "map_of records k = Some r"
  shows "map_of (fst (apply_failed I max_failures records c)) k =
    (if ck_instance_id (ca_key c) = k \<and> dp_fingerprint (rec_peer r) = ck_fingerprint (ca_key c)
        \<and> dp_port (rec_peer r) = snd (ck_address (ca_key c))
        \<and> ip_show I (fst (ck_address (ca_key c))) \<in> set (dp_hosts (rec_peer r))
     then if hosts_failed I (if rec_farewelled r then 1 else max_failures) (count_failure (ck_address (ca_key c)) r)
          then None else Some (count_failure (ck_address (ca_key c)) r)
     else Some r)"
  using assms
  by (auto simp: apply_failed_def Let_def update_conv' map_of_delete split: option.splits)

lemma apply_verified_lookup:
  assumes "map_of records k = Some r"
  obtains r' where "map_of (fst (apply_verified I now records c v)) k = Some r'"
    "dp_fingerprint (rec_peer r') = dp_fingerprint (rec_peer r)"
    "dp_public_key (rec_peer r') = dp_public_key (rec_peer r)"
    "rec_last_verified r' = rec_last_verified r \<or> rec_last_verified r' = now"
proof -
  have "\<exists>r'. map_of (fst (apply_verified I now records c v)) k = Some r'
      \<and> dp_fingerprint (rec_peer r') = dp_fingerprint (rec_peer r)
      \<and> dp_public_key (rec_peer r') = dp_public_key (rec_peer r)
      \<and> (rec_last_verified r' = rec_last_verified r \<or> rec_last_verified r' = now)"
    using assms
    by (auto simp: apply_verified_def Let_def update_conv' refreshed_peer_def split: option.splits)
  then show thesis using that by blast
qed

lemma probe_finished_fair:
  assumes "map_of (d_records s) k = Some r" and "rec_last_verified r \<le> now"
  shows "fair_effect I task now (ProbeFinished i outcome) (d_tracker s) k r
    (map_of (d_records (fst (on_probe_finished E I task now i outcome s))) k)"
proof (cases "map_of (pt_probes (d_tracker s)) i")
  case (Some c)
  have records: "d_records (fst (on_probe_finished E I task now i outcome s))
      = fst (apply_probe_outcome I (dt_max_failures (dc_timings (tk_config task))) now (d_records s) c outcome)"
    using Some by (simp add: on_probe_finished_def Let_def split_def publish_snapshot_def)
  show ?thesis
  proof (cases outcome)
    case (Inl err)
    show ?thesis
      using Some assms unfolding records unfolding Inl
      by (auto simp: apply_probe_outcome_def apply_failed_lookup fair_effect_def count_failure_def)
  next
    case (Inr v)
    show ?thesis
      unfolding records unfolding Inr
      by (rule apply_verified_lookup [OF assms(1), of I now c v])
        (use assms in \<open>auto simp: apply_probe_outcome_def fair_effect_def\<close>)
  qed
qed (use assms in \<open>simp add: on_probe_finished_def\<close>)

lemma datagram_fair:
  assumes "map_of (d_records s) k = Some r"
  shows "fair_effect I task now ev tracker k r
    (map_of (d_records (fst (on_datagram E I task now datagram sender s))) k)"
proof -
  have "fair_effect I task now ev tracker k r (map_of (fst (demote_goodbye I (d_records s) a ip)) k)" for a ip
    using assms
    by (auto simp: demote_goodbye_def Let_def update_conv' fair_effect_def split: option.splits)
  then show ?thesis
    using assms by (auto simp: on_datagram_def Let_def split_def split: option.splits)
qed

lemma discovery_step_fair:
  assumes "map_of (d_records s) k = Some r" and "rec_last_verified r \<le> now" and "distinct (map fst (d_records s))"
  shows "fair_effect I task now ev (d_tracker s) k r
    (map_of (d_records (fst (discovery_step E I task now ev s))) k)"
proof (cases ev)
  case (ReceiveFailed kind)
  then show ?thesis
    using assms
    by (auto simp: discovery_step_def on_receive_error_def finish_discovery_def publish_snapshot_def Let_def)
      (auto simp: fair_effect_def)
next
  case PruneTick
  then show ?thesis
    using assms map_of_filter_distinct [OF assms(3,1)]
    by (auto simp: discovery_step_def on_prune_def publish_snapshot_def Let_def) (auto simp: fair_effect_def)
next
  case LivenessTick
  then show ?thesis
    using assms by (cases "d_records s") (auto simp: discovery_step_def on_liveness_def)
qed (use assms in \<open>simp_all add: discovery_step_def probe_finished_fair datagram_fair finish_discovery_def
    on_hint_def on_refresh_def on_mdns_def on_probe_aborted_def Let_def
    split: mdns_event.splits option.splits\<close>)

text \<open>C16: A listed device cannot be evicted or impersonated: in any reachable state, whatever event
  comes next, the device keeps its certificate and public key and its verification time never goes
  back, or it leaves the table, and then either it was not verified for the stale time, or a probe of
  it failed after which every known host has failed at least the configured number of times
  (once, if it said goodbye), or the socket died.\<close>

theorem peer_leaves_only_failed_or_stale:
  assumes "reachable (system_start task) (discovery_moves E I task) w"
    and "sy_now w \<le> now" and "map_of (d_records (sy_state w)) k = Some r"
  shows "fair_effect I task now ev (d_tracker (sy_state w)) k r
    (map_of (d_records (fst (discovery_step E I task now ev (sy_state w)))) k)"
proof (rule discovery_step_fair [OF assms(3)])
  have ok: "system_ok E I w"
    by (rule discovery_machine.reachable_inv [OF assms(1)])
  then have "peer_entry_ok I (sy_verified w) k r"
    using assms(3) table_ok_lookup by (auto simp: system_ok_def state_ok_def)
  then show "rec_last_verified r \<le> now"
    using ok assms(2) by (fastforce simp: peer_entry_ok_def Let_def system_ok_def)
  show "distinct (map fst (d_records (sy_state w)))"
    using ok by (simp add: system_ok_def state_ok_def table_ok_def)
qed

section \<open>A concrete history\<close>

fun discovery_run ::
  "crates \<Rightarrow> ip_syntax \<Rightarrow> discovery_task \<Rightarrow> discovery_system \<Rightarrow> (nat \<times> discovery_event) list \<Rightarrow> discovery_system" where
  "discovery_run E I task w [] = w"
| "discovery_run E I task w ((now, ev) # rest) =
     discovery_run E I task
       \<lparr>sy_state = fst (discovery_step E I task now ev (sy_state w)), sy_now = now,
        sy_verified = sy_verified w \<union> verified_by now ev\<rparr> rest"

lemma discovery_run_reachable:
  assumes "reachable (system_start task) (discovery_moves E I task) w"
    and "sorted (sy_now w # map fst events)"
  shows "reachable (system_start task) (discovery_moves E I task) (discovery_run E I task w events)"
  using assms
proof (induction E I task w events rule: discovery_run.induct)
  case (2 E I task w now ev rest)
  have "reachable (system_start task) (discovery_moves E I task)
      \<lparr>sy_state = fst (discovery_step E I task now ev (sy_state w)), sy_now = now,
       sy_verified = sy_verified w \<union> verified_by now ev\<rparr>"
    by (rule reachable_step, rule 2(2), rule moves_event) (use 2(3) in simp)
  then show ?case
    using 2(1,3) by simp
qed simp

definition sample_ip :: ip_syntax where
  "sample_ip =
     \<lparr>ip_show = (\<lambda>a. case a of IpV4 b \<Rightarrow> CHR ''4'' # bytes_str b | IpV6 b \<Rightarrow> CHR ''6'' # bytes_str b),
      ip_parse = (\<lambda>s. case s of
         c # t \<Rightarrow> if c = CHR ''4'' then Some (IpV4 (str_bytes t))
                  else if c = CHR ''6'' then Some (IpV6 (str_bytes t)) else None
       | [] \<Rightarrow> None)\<rparr>"

lemma sample_ip_roundtrip: "ip_roundtrip sample_ip"
  by (auto simp: ip_roundtrip_def sample_ip_def split: ip_addr.splits)

definition sample_task :: discovery_task where
  "sample_task =
     \<lparr>tk_socket = True, tk_config = sample_discovery, tk_announcement = [2], tk_reply = [3], tk_goodbye = [4]\<rparr>"

definition sample_other :: udp_announcement where
  "sample_other =
     \<lparr>an_magic = UDP_DISCOVERY_MAGIC, an_version = LAN_DISCOVERY_PROTOCOL_VERSION,
      an_instance_id = replicate 32 CHR ''b'', an_port = 4130, an_fingerprint = replicate 64 CHR ''1'',
      an_reply = False, an_bye = False\<rparr>"

definition sample_peer :: verified_peer where
  "sample_peer =
     \<lparr>vp_address = (IpV4 [10, 0, 0, 7], 4130), vp_instance_id = replicate 32 CHR ''b'', vp_name = ''laptop'',
      vp_capabilities = [], vp_public_key = ''key'', vp_certificate_fingerprint = replicate 64 CHR ''1''\<rparr>"

definition sample_history :: "(nat \<times> discovery_event) list" where
  "sample_history =
     [(10, PeriodicTick), (20, DatagramReceived [1] (IpV4 [10, 0, 0, 7], 41301)), (30, ProbeFinished 0 (Inr sample_peer))]"

definition sample_system :: discovery_system where
  "sample_system =
     discovery_run (short_crates (udp_announcement_json sample_other)) sample_ip sample_task
       \<lparr>sy_state = discovery_start sample_task False, sy_now = 0, sy_verified = {}\<rparr> sample_history"

lemma sample_system_reachable:
  "reachable (system_start sample_task)
     (discovery_moves (short_crates (udp_announcement_json sample_other)) sample_ip sample_task) sample_system"
  unfolding sample_system_def
  by (intro discovery_run_reachable reachable_init)
    (auto simp: system_start_def sample_history_def)

lemma decode_sample: "decode_announcement (short_crates (udp_announcement_json sample_other)) [1] = Some sample_other"
proof -
  have "json_parse (short_crates v) [1] = Some v" for v
    using short_crates_json(1,3) [of v] by (metis json_roundtrip_def)
  then show ?thesis
    by (simp add: decode_announcement_def MAX_UDP_PACKET_def from_slice_def sample_other_def
        LAN_DISCOVERY_PROTOCOL_VERSION_def u16_max_def valid_instance_id_def valid_blake3_def list_all_iff
        is_lower_hex_def is_digit_def)
qed

lemma sample_system_records:
  "d_records (sy_state sample_system) =
    [(replicate 32 CHR ''b'', new_peer_record sample_ip 30
       \<lparr>ca_key = \<lparr>ck_instance_id = replicate 32 CHR ''b'', ck_address = (IpV4 [10, 0, 0, 7], 4130),
                  ck_fingerprint = replicate 64 CHR ''1''\<rparr>,
        ca_service_name = ''udp-v4'', ca_announce_reply_port = Some 41301\<rparr> sample_peer)]"
proof -
  define E where "E = short_crates (udp_announcement_json sample_other)"
  have "take (MAX_UDP_PACKET + 1) [1 :: byte] = [1]"
    by (simp add: MAX_UDP_PACKET_def)
  then show ?thesis
    unfolding sample_system_def E_def [symmetric]
    by (simp add: sample_history_def discovery_step_def discovery_start_def on_datagram_def
        decode_sample [folded E_def] sample_task_def sample_discovery_def sample_other_def schedule_probe_def new_tracker_def
        MAX_PENDING_PROBES_def on_probe_finished_def apply_probe_outcome_def apply_verified_def
        sample_peer_def MAX_DISCOVERED_PEERS_def publish_snapshot_def Let_def)
qed

theorem peer_table_verified_witness:
  "d_published (sy_state sample_system) = snapshot_of (short_crates (udp_announcement_json sample_other))
     (d_records (sy_state sample_system))
   \<and> length (d_records (sy_state sample_system)) = 1"
  using peer_table_verified [OF sample_system_reachable] by (simp add: sample_system_records)

theorem probe_slots_never_leak_witness:
  "length (pt_probes (d_tracker (sy_state sample_system))) \<le> MAX_PENDING_PROBES"
  using probe_slots_never_leak [OF sample_system_reachable] by blast

theorem peer_leaves_only_failed_or_stale_witness:
  "let s = sy_state sample_system; (k, r) = hd (d_records s) in
     fair_effect sample_ip sample_task 50 LivenessTick (d_tracker s) k r
       (map_of (d_records (fst (discovery_step (short_crates (udp_announcement_json sample_other)) sample_ip
          sample_task 50 LivenessTick s))) k)"
proof -
  have time: "sy_now sample_system \<le> 50"
    by (simp add: sample_system_def sample_history_def)
  show ?thesis
    using peer_leaves_only_failed_or_stale [OF sample_system_reachable time, of "fst (hd (d_records (sy_state sample_system)))"
        "snd (hd (d_records (sy_state sample_system)))" LivenessTick]
    by (simp add: sample_system_records Let_def split_def)
qed

end
