(* ===== verification/Summary.thy ===== *)
theory Summary
  imports Send
begin

text \<open>
  What a short-code receiver is shown before it accepts (\<open>wormhole/session.rs\<close>): the summary of the
  selected files and folders, its check at the other end, and the walk that counts them. The walk
  runs in the monad of the sending end, over a disk that may fail and change at any call. The counter
  \<open>entries\<close> is kept as the number of entries left below its limit.
\<close>

definition MAX_SELECTED_ITEMS :: nat where "MAX_SELECTED_ITEMS = 256"

definition MAX_SUMMARY_ENTRIES :: nat where "MAX_SUMMARY_ENTRIES = 1000000"

record transfer_summary =
  su_device_name :: string
  su_instance_id :: string
  su_item_count :: nat
  su_file_count :: nat
  su_directory_count :: nat
  su_total_bytes :: nat
  su_names :: "string list"

text \<open>The list of names is left out of the JSON when it is empty, and missing fields default to it.\<close>

definition transfer_summary_json :: "transfer_summary \<Rightarrow> jvalue" where
  "transfer_summary_json x =
     JObj ([(''device_name'', JStr (su_device_name x)), (''instance_id'', JStr (su_instance_id x)),
            (''item_count'', jnat (su_item_count x)), (''file_count'', jnat (su_file_count x)),
            (''directory_count'', jnat (su_directory_count x)), (''total_bytes'', jnat (su_total_bytes x))] @
           (if su_names x = [] then [] else [(''names'', jstrs (su_names x))]))"

definition as_transfer_summary :: "jvalue \<Rightarrow> transfer_summary result" where
  "as_transfer_summary v =
     bind_r (as_struct [''device_name'', ''instance_id'', ''item_count'', ''file_count'', ''directory_count'', ''total_bytes''] [''names''] v) (\<lambda>kvs.
     bind_r (field ''device_name'' as_str kvs) (\<lambda>device.
     bind_r (field ''instance_id'' as_str kvs) (\<lambda>instance.
     bind_r (field ''item_count'' (as_unsigned u64_max) kvs) (\<lambda>items.
     bind_r (field ''file_count'' (as_unsigned u64_max) kvs) (\<lambda>files.
     bind_r (field ''directory_count'' (as_unsigned u64_max) kvs) (\<lambda>directories.
     bind_r (field ''total_bytes'' (as_unsigned u64_max) kvs) (\<lambda>bytes.
     bind_r (field_default ''names'' [] (as_list as_str) kvs) (\<lambda>names.
     Inr \<lparr>su_device_name = device, su_instance_id = instance, su_item_count = items, su_file_count = files,
          su_directory_count = directories, su_total_bytes = bytes, su_names = names\<rparr>))))))))"

definition summary_valid :: "transfer_summary \<Rightarrow> bool" where
  "summary_valid x \<longleftrightarrow>
     trim (su_device_name x) \<noteq> [] \<and> length (su_device_name x) \<le> 255 \<and> valid_instance_id (su_instance_id x) \<and>
     su_item_count x \<noteq> 0 \<and> su_item_count x \<le> MAX_SELECTED_ITEMS \<and>
     (let count = su_file_count x + su_directory_count x in
      count \<le> u64_max \<and> su_item_count x \<le> count \<and> count \<le> MAX_SUMMARY_ENTRIES) \<and>
     length (su_names x) \<le> 8 \<and> list_all (\<lambda>name. trim name \<noteq> [] \<and> length name \<le> 255) (su_names x)"

definition summary_validate :: "transfer_summary \<Rightarrow> unit result" where
  "summary_validate x =
     reject_if (\<not> summary_valid x) (InvalidTransfer ''short-code transfer summary is invalid'') (Inr ())"

lemma summary_validate_iff [simp]: "summary_validate x = Inr u \<longleftrightarrow> summary_valid x"
  by (simp add: summary_validate_def reject_if_def)

section \<open>The walk\<close>

definition show_path :: "path \<Rightarrow> string" where
  "show_path p = CHR ''/'' # join_with CHR ''/'' p"

definition path_name :: "path \<Rightarrow> string result" where
  "path_name p =
     (if p = [] \<or> last p = ''..'' \<or> last p = [] then Inl (InvalidTransfer (''invalid source path: '' @ show_path p))
      else Inr (last p))"

definition check_cancelled :: "(sending, unit) action" where
  "check_cancelled = cancellable (io_ret ())"

text \<open>One visited node; the additions that cannot overflow below the limit on entries are unchecked.\<close>

definition count_file :: "nat \<Rightarrow> transfer_summary \<Rightarrow> transfer_summary result" where
  "count_file len x =
     reject_if (u64_max < su_total_bytes x + len) (InvalidTransfer ''summary size overflow'')
       (Inr (x\<lparr>su_file_count := su_file_count x + 1, su_total_bytes := su_total_bytes x + len\<rparr>))"

definition count_directory :: "transfer_summary \<Rightarrow> transfer_summary" where
  "count_directory x = x\<lparr>su_directory_count := su_directory_count x + 1\<rparr>"

text \<open>The stack \<open>pending\<close> has its top in front: the children of a directory are pushed in their order.\<close>

fun summarize_pending ::
  "nat \<Rightarrow> path list \<Rightarrow> transfer_summary \<Rightarrow> (sending, nat \<times> transfer_summary) action" where
  "summarize_pending left [] x = io_ret (left, x)"
| "summarize_pending left (current # pending) x =
     io_then check_cancelled
     (io_bind (disk_call (sys_symlink_metadata current)) (\<lambda>metadata.
      io_reject_if (is_symlink metadata)
        (InvalidTransfer (''symbolic links cannot be sent: '' @ show_path current))
      (case left of
         0 \<Rightarrow> io_throw (InvalidTransfer ''selected folders contain too many entries'')
       | Suc left' \<Rightarrow>
           if is_file metadata then
             io_bind (io_lift (count_file (node_len metadata) x)) (summarize_pending left' pending)
           else if is_dir metadata then
             io_bind (disk_call (sys_read_dir current)) (\<lambda>names.
               summarize_pending left' (rev (map (\<lambda>name. current @ [name]) names) @ pending) (count_directory x))
           else io_throw (InvalidTransfer (''unsupported file type: '' @ show_path current)))))"

definition add_name :: "path \<Rightarrow> transfer_summary \<Rightarrow> transfer_summary result" where
  "add_name p x =
     (if length (su_names x) < 8 then bind_r (path_name p) (\<lambda>name. Inr (x\<lparr>su_names := su_names x @ [name]\<rparr>))
      else Inr x)"

fun summarize_items :: "nat \<Rightarrow> path list \<Rightarrow> transfer_summary \<Rightarrow> (sending, transfer_summary) action" where
  "summarize_items left [] x = io_ret x"
| "summarize_items left (p # paths) x =
     io_then check_cancelled
     (io_bind (io_lift (add_name p x)) (\<lambda>x'.
      io_bind (summarize_pending left [p] x') (\<lambda>(left', x''). summarize_items left' paths x'')))"

definition summarize_paths_blocking :: "string \<Rightarrow> string \<Rightarrow> path list \<Rightarrow> (sending, transfer_summary) action" where
  "summarize_paths_blocking device instance paths =
     io_bind (summarize_items MAX_SUMMARY_ENTRIES paths
        \<lparr>su_device_name = device, su_instance_id = instance, su_item_count = length paths, su_file_count = 0,
         su_directory_count = 0, su_total_bytes = 0, su_names = []\<rparr>) (\<lambda>x.
     io_then (io_lift (summary_validate x)) (io_ret x))"

definition summarize_paths :: "string \<Rightarrow> string \<Rightarrow> path list \<Rightarrow> (sending, transfer_summary) action" where
  "summarize_paths device instance paths =
     io_reject_if (trim device = [] \<or> \<not> valid_instance_id instance \<or> paths = [] \<or>
                   MAX_SELECTED_ITEMS < length paths)
       (InvalidRequest ''short-code transfer paths or device identity are invalid'')
       (summarize_paths_blocking device instance paths)"

section \<open>The tree under a path\<close>

text \<open>
  A tree in which names are unique and every node is in a directory, and the sum of a weight over
  the nodes at and under a path. The root directory is a node too.
\<close>

definition proper_tree :: "fs \<Rightarrow> bool" where
  "proper_tree fs \<longleftrightarrow> distinct (map fst fs) \<and> (\<forall>q \<in> fst ` set fs. in_dir fs q)"

definition nodes_under :: "fs \<Rightarrow> path \<Rightarrow> (path \<times> node) list" where
  "nodes_under fs p = filter (\<lambda>(q, _). prefix p q) (([], DirN 0) # fs)"

definition weight :: "(node \<Rightarrow> nat) \<Rightarrow> fs \<Rightarrow> path \<Rightarrow> nat" where
  "weight f fs p = (\<Sum>(q, n) \<leftarrow> nodes_under fs p. f n)"

definition strictly_under :: "(node \<Rightarrow> nat) \<Rightarrow> fs \<Rightarrow> path \<Rightarrow> nat" where
  "strictly_under f fs p = (\<Sum>(q, n) \<leftarrow> filter (\<lambda>(q, _). strict_prefix p q) fs. f n)"

lemma proper_no_root: "proper_tree fs \<Longrightarrow> [] \<notin> fst ` set fs"
  by (auto simp: proper_tree_def in_dir_def)

lemma sum_list_filter_split:
  "(\<Sum>x \<leftarrow> filter P xs. g x) = (\<Sum>x \<leftarrow> filter (\<lambda>x. P x \<and> Q x) xs. g x) + (\<Sum>x \<leftarrow> filter (\<lambda>x. P x \<and> \<not> Q x) xs. g (x :: 'a) :: nat)"
  by (induction xs) auto

lemma sum_list_unique_key:
  assumes "distinct (map fst xs)" "map_of xs k = Some v"
  shows "(\<Sum>(q, n) \<leftarrow> filter (\<lambda>(q, _). q = k) xs. f n) = (f v :: nat)"
proof -
  have "filter (\<lambda>(q, _). q = k) xs = [(k, v)]"
    using assms
  proof (induction xs)
    case (Cons x xs)
    have "k \<notin> fst ` set xs \<Longrightarrow> filter (\<lambda>(q, _). q = k) xs = []"
      by (force simp: filter_empty_conv)
    with Cons show ?case by (cases x) (auto split: if_splits)
  qed simp
  then show ?thesis by simp
qed

lemma weight_split:
  assumes "proper_tree fs" "lookup fs p = Some n"
  shows "weight f fs p = f n + strictly_under f fs p"
proof -
  have root: "[] \<notin> fst ` set fs" using proper_no_root [OF assms(1)] .
  show ?thesis
  proof (cases "p = []")
    case True
    then have "filter (\<lambda>(q, _). strict_prefix p q) fs = fs"
      using root by (intro filter_True) (force simp: strict_prefix_def)
    then show ?thesis
      using True assms(2) by (simp add: weight_def nodes_under_def strictly_under_def lookup_def case_prod_unfold)
  next
    case False
    have "map_of fs p = Some n" using False assms(2) by (simp add: lookup_def)
    moreover have "distinct (map fst fs)" using assms(1) by (simp add: proper_tree_def)
    ultimately have here: "(\<Sum>(q, n) \<leftarrow> filter (\<lambda>(q, _). q = p) fs. f n) = f n"
      by (rule sum_list_unique_key [rotated])
    have "weight f fs p = (\<Sum>(q, n) \<leftarrow> filter (\<lambda>(q, _). prefix p q) fs. f n)"
      using False by (simp add: weight_def nodes_under_def)
    also have "\<dots> = (\<Sum>(q, n) \<leftarrow> filter (\<lambda>(q, _). q = p) fs. f n) + strictly_under f fs p"
      unfolding strictly_under_def
      by (subst sum_list_filter_split [where Q = "\<lambda>(q, _). q = p"])
         (auto intro!: arg_cong2 [where f = plus] arg_cong [where f = sum_list] arg_cong2 [where f = map] filter_cong
           simp: strict_prefix_def)
    finally show ?thesis using here by simp
  qed
qed

lemma lookup_key: "lookup fs q = Some n \<Longrightarrow> q \<noteq> [] \<Longrightarrow> q \<in> fst ` set fs"
  by (force simp: lookup_def dest: map_of_SomeD)

lemma step_on_the_way:
  assumes "proper_tree fs"
  shows "p @ c # r \<in> fst ` set fs \<Longrightarrow> p @ [c] \<in> fst ` set fs"
proof (induction r rule: rev_induct)
  case (snoc x r)
  then have "in_dir fs (p @ c # r @ [x])"
    using assms unfolding proper_tree_def by blast
  then have "p @ c # r \<in> fst ` set fs"
    using lookup_key [of fs "p @ c # r"] by (auto simp: in_dir_def butlast_append)
  then show ?case by (rule snoc.IH)
qed simp

lemma child_names_iff: "c \<in> set (child_names fs p) \<longleftrightarrow> p @ [c] \<in> fst ` set fs"
  by (auto simp: child_names_def image_iff) (metis append_butlast_last_id fst_conv, metis append_is_Nil_conv
      butlast_snoc fst_conv last_snoc list.distinct(1))

lemma distinct_child_names:
  assumes "distinct (map fst fs)"
  shows "distinct (child_names fs p)"
proof -
  let ?xs = "filter (\<lambda>(q, _). q \<noteq> [] \<and> butlast q = p) fs"
  have "distinct (map fst ?xs)"
    using assms by (rule distinct_map_filter)
  moreover have "inj_on last (set (map fst ?xs))"
    by (auto simp: inj_on_def) (metis append_butlast_last_id)
  ultimately have "distinct (map last (map fst ?xs))"
    by (simp only: distinct_map)
  then show ?thesis by (simp add: child_names_def case_prod_unfold comp_def)
qed

lemma sum_list_swap:
  "(\<Sum>x \<leftarrow> xs. \<Sum>y \<leftarrow> ys. g x y) = (\<Sum>y \<leftarrow> ys. \<Sum>x \<leftarrow> xs. (g x y :: nat))"
  by (induction xs) (simp_all add: sum_list_addf)

lemma sum_list_indicator:
  "distinct cs \<Longrightarrow> (\<Sum>c \<leftarrow> cs. if c = k then v else 0) = (if k \<in> set cs then v else (0 :: nat))"
  by (induction cs) auto

lemma under_one_child:
  assumes "proper_tree fs" "q \<in> fst ` set fs"
  shows "(\<Sum>c \<leftarrow> child_names fs p. if prefix (p @ [c]) q then v else 0) = (if strict_prefix p q then v else (0 :: nat))"
proof (cases "strict_prefix p q")
  case True
  then obtain c r where q: "q = p @ c # r"
    by (metis append_Nil2 neq_Nil_conv prefix_def strict_prefix_def)
  then have "prefix (p @ [c']) q \<longleftrightarrow> c' = c" for c' by (auto simp: prefix_def)
  moreover have "c \<in> set (child_names fs p)"
    using step_on_the_way [OF assms(1)] assms(2) by (simp add: q child_names_iff)
  ultimately show ?thesis
    using True assms(1) by (simp add: sum_list_indicator distinct_child_names proper_tree_def)
next
  case False
  then have "\<not> prefix (p @ [c]) q" for c by (auto simp: prefix_def strict_prefix_def)
  with False show ?thesis by simp
qed

lemma strictly_under_children:
  assumes "proper_tree fs"
  shows "strictly_under f fs p = (\<Sum>c \<leftarrow> child_names fs p. weight f fs (p @ [c]))"
proof -
  have "(\<Sum>c \<leftarrow> child_names fs p. weight f fs (p @ [c]))
      = (\<Sum>c \<leftarrow> child_names fs p. \<Sum>x \<leftarrow> fs. if prefix (p @ [c]) (fst x) then f (snd x) else 0)"
    by (simp add: weight_def nodes_under_def case_prod_unfold sum_list_map_filter')
  also have "\<dots> = (\<Sum>x \<leftarrow> fs. \<Sum>c \<leftarrow> child_names fs p. if prefix (p @ [c]) (fst x) then f (snd x) else 0)"
    by (rule sum_list_swap)
  also have "\<dots> = (\<Sum>x \<leftarrow> fs. if strict_prefix p (fst x) then f (snd x) else 0)"
    by (intro arg_cong [where f = sum_list] map_cong refl under_one_child [OF assms]) simp
  also have "\<dots> = strictly_under f fs p"
    by (simp add: strictly_under_def case_prod_unfold sum_list_map_filter')
  finally show ?thesis by simp
qed

lemma nothing_under_file:
  assumes "proper_tree fs" "lookup fs p = Some n" "\<not> is_dir n"
  shows "strictly_under f fs p = 0"
proof -
  have "c \<notin> set (child_names fs p)" for c
  proof
    assume "c \<in> set (child_names fs p)"
    then have "in_dir fs (p @ [c])"
      using assms(1) unfolding proper_tree_def child_names_iff by blast
    then show False using assms(2,3) by (auto simp: in_dir_snoc is_dir_def)
  qed
  then have "child_names fs p = []" by (meson last_in_set)
  then show ?thesis using strictly_under_children [OF assms(1)] by simp
qed

section \<open>Paths without links on the way\<close>

definition plain_way :: "fs \<Rightarrow> path \<Rightarrow> bool" where
  "plain_way fs p \<longleftrightarrow> (\<forall>q n. strict_prefix q p \<longrightarrow> lookup fs q = Some n \<longrightarrow> \<not> is_symlink n)"

lemma follow_plain:
  "(\<And>q m. strict_prefix cur q \<Longrightarrow> prefix q (cur @ cs) \<Longrightarrow> lookup fs q = Some m \<Longrightarrow> \<not> is_symlink m)
    \<Longrightarrow> follow n fs cur cs = Inr (cur @ cs)"
proof (induction cs arbitrary: cur)
  case (Cons c cs)
  have "follow n fs (cur @ [c]) cs = Inr ((cur @ [c]) @ cs)"
    by (rule Cons.IH) (use Cons.prems in \<open>auto simp: strict_prefix_def prefix_def\<close>)
  moreover have "\<not> is_symlink m" if "lookup fs (cur @ [c]) = Some m" for m
    using that by (intro Cons.prems [of "cur @ [c]"]) (auto simp: strict_prefix_def)
  ultimately show ?case
    by (auto simp: is_symlink_def split: option.split node.split)
qed simp

lemma resolve_plain_way:
  assumes "plain_way fs p"
  shows "resolve_parent fs p = Inr p"
    and "lookup fs p = Some n \<Longrightarrow> \<not> is_symlink n \<Longrightarrow> resolve_all fs p = Inr p"
proof -
  have "follow 40 fs [] (butlast p) = Inr ([] @ butlast p)" if "p \<noteq> []"
  proof (rule follow_plain)
    fix q m assume "prefix q ([] @ butlast p)" "lookup fs q = Some m"
    moreover have "strict_prefix (butlast p) p" using that by (metis append_butlast_last_id strict_prefixI')
    ultimately show "\<not> is_symlink m"
      using assms unfolding plain_way_def by (metis append_Nil prefix_order.le_less_trans)
  qed
  then show "resolve_parent fs p = Inr p" by (simp add: resolve_parent_def)
  assume here: "lookup fs p = Some n" "\<not> is_symlink n"
  have "follow 40 fs [] p = Inr ([] @ p)"
  proof (rule follow_plain)
    fix q m assume "prefix q ([] @ p)" "lookup fs q = Some m"
    with assms here show "\<not> is_symlink m"
      by (cases "q = p") (auto simp: plain_way_def strict_prefix_def)
  qed
  then show "resolve_all fs p = Inr p" by (simp add: resolve_all_def)
qed

lemma plain_way_child:
  assumes "plain_way fs p" "lookup fs p = Some n" "\<not> is_symlink n"
  shows "plain_way fs (p @ [c])"
  using assms by (auto simp: plain_way_def strict_prefix_def prefix_snoc)

section \<open>A disk that stands still\<close>

definition still :: "fs \<Rightarrow> sending \<Rightarrow> bool" where
  "still fs s \<longleftrightarrow> (\<forall>n. sd_disk s n = fs)"

lemma still_step [simp]: "still fs (s\<lparr>nt_step := k\<rparr>) = still fs s"
  by (simp add: still_def)

lemma io_lift_Inr [simp]: "io_lift r s = (Inr y, t) \<longleftrightarrow> r = Inr y \<and> t = s"
  by (auto simp: io_lift_def)

lemma io_reject_if_Inr [simp]: "io_reject_if b e m s = (Inr y, t) \<longleftrightarrow> \<not> b \<and> m s = (Inr y, t)"
  by (simp add: io_reject_if_def io_throw_def)

lemma check_cancelled_Inr: "check_cancelled s = (Inr u, t) \<Longrightarrow> t = s\<lparr>nt_step := Suc (nt_step s)\<rparr>"
  by (simp add: check_cancelled_def cancellable_def net_call_def io_ret_def Let_def split: option.splits)

lemma disk_call_Inr:
  assumes "disk_call f s = (Inr x, t)" "still fs s"
  shows "\<exists>fs'. f fs = Inr (x, fs') \<and> t = s\<lparr>nt_step := Suc (nt_step s)\<rparr>"
  using assms by (auto simp: disk_call_def still_def Let_def split: option.splits sum.splits)

lemma sys_symlink_metadata_plain:
  assumes "sys_symlink_metadata p fs = Inr (n, fs')" "plain_way fs p"
  shows "lookup fs p = Some n"
  using assms by (auto simp: sys_symlink_metadata_def at_path_def resolve_plain_way(1) bind_r_def split: option.splits)

lemma sys_read_dir_plain:
  assumes "sys_read_dir p fs = Inr (names, fs')" "plain_way fs p" "lookup fs p = Some n" "\<not> is_symlink n"
  shows "names = child_names fs p"
  using assms
  by (auto simp: sys_read_dir_def at_path_def resolve_plain_way(2) bind_r_def split: option.splits node.splits)

section \<open>The counts\<close>

definition ones :: "(node \<Rightarrow> bool) \<Rightarrow> node \<Rightarrow> nat" where
  "ones P n = (if P n then 1 else 0)"

definition weights :: "(node \<Rightarrow> nat) \<Rightarrow> fs \<Rightarrow> path list \<Rightarrow> nat" where
  "weights f fs ps = (\<Sum>p \<leftarrow> ps. weight f fs p)"

lemma weights_simps [simp]:
  "weights f fs [] = 0" "weights f fs (p # ps) = weight f fs p + weights f fs ps"
  "weights f fs (ps @ qs) = weights f fs ps + weights f fs qs" "weights f fs (rev ps) = weights f fs ps"
  by (simp_all add: weights_def rev_map [symmetric])

lemma weight_leaf:
  "proper_tree fs \<Longrightarrow> lookup fs p = Some n \<Longrightarrow> \<not> is_dir n \<Longrightarrow> weight f fs p = f n"
  by (simp add: weight_split nothing_under_file)

lemma weight_dir:
  "proper_tree fs \<Longrightarrow> lookup fs p = Some n \<Longrightarrow>
    weight f fs p = f n + weights f fs (map (\<lambda>c. p @ [c]) (child_names fs p))"
  by (simp add: weight_split strictly_under_children weights_def comp_def)

text \<open>What a summary says beyond its counts, and what a walk over \<open>ps\<close> adds.\<close>

definition unsendable :: "node \<Rightarrow> bool" where
  "unsendable n \<longleftrightarrow> is_symlink n \<or> is_special n"

definition same_head :: "transfer_summary \<Rightarrow> transfer_summary \<Rightarrow> bool" where
  "same_head x y \<longleftrightarrow> su_device_name y = su_device_name x \<and> su_instance_id y = su_instance_id x \<and>
     su_item_count y = su_item_count x"

definition counted :: "fs \<Rightarrow> path list \<Rightarrow> transfer_summary \<Rightarrow> transfer_summary \<Rightarrow> bool" where
  "counted fs ps x y \<longleftrightarrow> same_head x y \<and>
     su_file_count y = su_file_count x + weights (ones is_file) fs ps \<and>
     su_directory_count y = su_directory_count x + weights (ones is_dir) fs ps \<and>
     su_total_bytes y = su_total_bytes x + weights node_len fs ps \<and>
     weights (ones unsendable) fs ps = 0"

lemma counted_Nil: "counted fs [] x x"
  by (simp add: counted_def same_head_def)

lemma counted_append: "counted fs ps x y \<Longrightarrow> counted fs qs y z \<Longrightarrow> counted fs (ps @ qs) x z"
  by (auto simp: counted_def same_head_def)

lemma counted_file:
  assumes "proper_tree fs" "lookup fs p = Some n" "is_file n" "count_file (node_len n) x = Inr y"
  shows "counted fs [p] x y"
  using assms
  by (auto simp: counted_def same_head_def weight_leaf count_file_def result_simps ones_def is_file_def is_dir_def
      unsendable_def is_symlink_def split: node.splits)

lemma counted_directory:
  assumes "proper_tree fs" "lookup fs p = Some n" "is_dir n"
    and "counted fs (rev (map (\<lambda>c. p @ [c]) (child_names fs p)) @ ps) (count_directory x) y"
  shows "counted fs (p # ps) x y"
  using assms
  by (auto simp: counted_def same_head_def weight_dir count_directory_def ones_def is_file_def is_dir_def
      unsendable_def is_symlink_def node_len_def split: node.splits)

lemma summarize_pending_counts:
  assumes "summarize_pending left ps x s = (Inr (left', y), s')" "still fs s" "proper_tree fs"
    and "\<forall>p \<in> set ps. plain_way fs p"
  shows "still fs s' \<and> counted fs ps x y \<and> su_names y = su_names x"
  using assms
proof (induction left arbitrary: ps x s)
  case 0
  then show ?case
    by (cases ps) (auto simp: io_ret_def counted_Nil io_then_Inr io_bind_Inr io_throw_def)
next
  case (Suc left)
  show ?case
  proof (cases ps)
    case Nil
    then show ?thesis using Suc.prems by (auto simp: io_ret_def counted_Nil)
  next
    case (Cons p rest)
    obtain s1 s2 n where s1: "check_cancelled s = (Inr (), s1)"
      and s2: "disk_call (sys_symlink_metadata p) s1 = (Inr n, s2)" and link: "\<not> is_symlink n"
      and go: "(if is_file n then io_bind (io_lift (count_file (node_len n) x)) (summarize_pending left rest)
         else if is_dir n then io_bind (disk_call (sys_read_dir p)) (\<lambda>names.
           summarize_pending left (rev (map (\<lambda>name. p @ [name]) names) @ rest) (count_directory x))
         else io_throw (InvalidTransfer (''unsupported file type: '' @ show_path p))) s2 = (Inr (left', y), s')"
      using Suc.prems(1) by (auto simp: Cons io_then_Inr io_bind_Inr)
    have way: "plain_way fs p" and ways: "\<forall>q \<in> set rest. plain_way fs q"
      using Suc.prems(4) Cons by auto
    have "still fs s1" using s1 Suc.prems(2) check_cancelled_Inr by fastforce
    then have still: "still fs s2" and n: "lookup fs p = Some n"
      using disk_call_Inr [OF s2] sys_symlink_metadata_plain [OF _ way] by auto
    show ?thesis
    proof (cases "is_file n")
      case True
      then obtain x1 where "count_file (node_len n) x = Inr x1" "summarize_pending left rest x1 s2 = (Inr (left', y), s')"
        using go by (auto simp: io_bind_Inr)
      with Suc.IH [OF this(2) still Suc.prems(3) ways] counted_file [OF Suc.prems(3) n True]
        counted_append [of fs "[p]" x x1 rest y]
      show ?thesis by (auto simp: Cons count_file_def result_simps)
    next
      case False
      then have dir: "is_dir n" using go by (auto simp: io_throw_def split: if_splits)
      with False go obtain names s3 where names: "disk_call (sys_read_dir p) s2 = (Inr names, s3)"
        and run: "summarize_pending left (rev (map (\<lambda>name. p @ [name]) names) @ rest) (count_directory x) s3
          = (Inr (left', y), s')"
        by (auto simp: io_bind_Inr)
      have "names = child_names fs p" "still fs s3"
        using disk_call_Inr [OF names still] sys_read_dir_plain [OF _ way n link] still by auto
      moreover have "\<forall>q \<in> set (rev (map (\<lambda>name. p @ [name]) names) @ rest). plain_way fs q"
        using ways plain_way_child [OF way n link] by auto
      ultimately show ?thesis
        using Suc.IH [OF run _ Suc.prems(3)] counted_directory [OF Suc.prems(3) n dir]
        by (simp add: Cons count_directory_def)
    qed
  qed
qed

lemma summarize_items_counts:
  assumes "summarize_items left ps x s = (Inr y, s')" "still fs s" "proper_tree fs" "\<forall>p \<in> set ps. plain_way fs p"
  shows "counted fs ps x y \<and> su_names y = su_names x @ map last (take (8 - length (su_names x)) ps)"
  using assms
proof (induction ps arbitrary: left x s)
  case Nil
  then show ?case by (simp add: io_ret_def counted_Nil)
next
  case (Cons p ps)
  obtain s1 x1 left2 x2 s2 where s1: "check_cancelled s = (Inr (), s1)" and x1: "add_name p x = Inr x1"
    and run: "summarize_pending left [p] x1 s1 = (Inr (left2, x2), s2)"
    and rest: "summarize_items left2 ps x2 s2 = (Inr y, s')"
    using Cons.prems(1) by (auto simp: io_then_Inr io_bind_Inr)
  have still: "still fs s1" using s1 Cons.prems(2) check_cancelled_Inr by fastforce
  have one: "still fs s2" "counted fs [p] x1 x2" "su_names x2 = su_names x1"
    using summarize_pending_counts [OF run still Cons.prems(3)] Cons.prems(4) by auto
  have names: "counted fs [] x x1" "su_names x1 = su_names x @ map last (take (8 - length (su_names x)) [p])"
    using x1 by (auto simp: add_name_def path_name_def counted_def same_head_def result_simps split: if_splits)
  have "counted fs ps x2 y" "su_names y = su_names x2 @ map last (take (8 - length (su_names x2)) ps)"
    using Cons.IH [OF rest one(1) Cons.prems(3)] Cons.prems(4) by auto
  then show ?case
    using counted_append [OF counted_append [OF names(1) one(2)]] names(2) one(3)
    by (cases "length (su_names x) < 8") (auto simp: take_Cons')
qed

section \<open>Completion\<close>

definition still_calm :: "fs \<Rightarrow> sending \<Rightarrow> bool" where
  "still_calm fs s \<longleftrightarrow> still fs s \<and> nt_fault s = (\<lambda>_. None) \<and> sd_disk_fault s = (\<lambda>_. None)"

lemma still_calm_step [simp]: "still_calm fs (s\<lparr>nt_step := k\<rparr>) = still_calm fs s"
  by (simp add: still_calm_def)

lemma check_cancelled_calm: "still_calm fs s \<Longrightarrow> check_cancelled s = (Inr (), s\<lparr>nt_step := Suc (nt_step s)\<rparr>)"
  by (simp add: still_calm_def check_cancelled_def cancellable_def net_call_def io_ret_def Let_def)

lemma disk_call_calm:
  "still_calm fs s \<Longrightarrow> f fs = Inr (x, fs') \<Longrightarrow> disk_call f s = (Inr x, s\<lparr>nt_step := Suc (nt_step s)\<rparr>)"
  by (simp add: still_calm_def still_def disk_call_def Let_def)

lemma sys_calls_plain:
  assumes "proper_tree fs" "plain_way fs p" "lookup fs p = Some n"
  shows "sys_symlink_metadata p fs = Inr (n, fs)"
    and "is_dir n \<Longrightarrow> sys_read_dir p fs = Inr (child_names fs p, fs)"
proof -
  have "parent_error fs p = None"
  proof (cases "p = []")
    case False
    then have "in_dir fs p" using assms(1) lookup_key [OF assms(3)] unfolding proper_tree_def by blast
    then show ?thesis by simp
  qed (simp add: parent_error_def)
  then show "sys_symlink_metadata p fs = Inr (n, fs)"
    and "is_dir n \<Longrightarrow> sys_read_dir p fs = Inr (child_names fs p, fs)"
    using assms(2,3)
    by (auto simp: sys_symlink_metadata_def sys_read_dir_def at_path_def resolve_plain_way bind_r_def is_dir_def
        is_symlink_def split: node.splits)
qed

lemma child_lookup: "c \<in> set (child_names fs p) \<Longrightarrow> lookup fs (p @ [c]) \<noteq> None"
  by (simp add: child_names_iff lookup_def map_of_eq_None_iff)

text \<open>What a walk over \<open>ps\<close> needs to end well: \<open>left\<close> entries and room in the counter of bytes.\<close>

definition countable :: "fs \<Rightarrow> path list \<Rightarrow> nat \<Rightarrow> transfer_summary \<Rightarrow> bool" where
  "countable fs ps left x \<longleftrightarrow> (\<forall>p \<in> set ps. plain_way fs p \<and> lookup fs p \<noteq> None) \<and>
     weights (ones unsendable) fs ps = 0 \<and> weights (\<lambda>_. 1) fs ps \<le> left \<and>
     su_total_bytes x + weights node_len fs ps \<le> u64_max"

lemma summarize_pending_completes:
  assumes "still_calm fs s" "proper_tree fs" "countable fs ps left x"
  shows "\<exists>y s'. summarize_pending left ps x s = (Inr (left - weights (\<lambda>_. 1) fs ps, y), s') \<and> still_calm fs s'"
  using assms
proof (induction left arbitrary: ps x s)
  case 0
  then show ?case
  proof (cases ps)
    case (Cons p rest)
    then obtain n where "lookup fs p = Some n" using 0 by (auto simp: countable_def)
    then show ?thesis using 0 weight_split [OF 0(2), of p n "\<lambda>_. 1"] by (simp add: countable_def Cons)
  qed (simp add: io_ret_def)
next
  case (Suc left)
  show ?case
  proof (cases ps)
    case Nil
    then show ?thesis using Suc.prems(1) by (simp add: io_ret_def)
  next
    case (Cons p rest)
    let ?s = "s\<lparr>nt_step := Suc (Suc (nt_step s))\<rparr>"
    obtain n where n: "lookup fs p = Some n" and way: "plain_way fs p"
      using Suc.prems(3) by (auto simp: countable_def Cons)
    have "\<not> unsendable n"
      using Suc.prems(3) weight_split [OF Suc.prems(2) n, of "ones unsendable"]
      by (auto simp: countable_def Cons ones_def split: if_splits)
    then have link: "\<not> is_symlink n" and special: "\<not> is_special n" by (simp_all add: unsendable_def)
    note steps = io_then_def io_bind_def io_match_def check_cancelled_calm [OF Suc.prems(1)] disk_call_calm [of fs]
      sys_calls_plain [OF Suc.prems(2) way n] io_reject_if_def io_lift_def link Suc.prems(1)
    have still: "still_calm fs ?s" using Suc.prems(1) by simp
    show ?thesis
    proof (cases "is_file n")
      case True
      then have w: "weight f fs p = f n" for f
        using Suc.prems(2) n by (intro weight_leaf) (auto simp: is_file_def is_dir_def split: node.splits)
      then obtain x1 where x1: "count_file (node_len n) x = Inr x1" and c: "countable fs rest left x1"
        using Suc.prems(3) by (auto simp: countable_def Cons count_file_def reject_if_def)
      show ?thesis
        using Suc.IH [OF still Suc.prems(2) c] by (simp add: Cons steps True x1 w)
    next
      case False
      then have dir: "is_dir n" using link special by (cases n) (auto simp: is_file_def is_dir_def is_symlink_def)
      let ?ps = "rev (map (\<lambda>name. p @ [name]) (child_names fs p)) @ rest"
      have "countable fs ?ps left (count_directory x)"
        using Suc.prems(3) plain_way_child [OF way n link] child_lookup
        by (auto simp: countable_def Cons weight_dir [OF Suc.prems(2) n] count_directory_def)
      moreover have "still_calm fs (?s\<lparr>nt_step := Suc (nt_step ?s)\<rparr>)" using Suc.prems(1) by simp
      ultimately show ?thesis
        using Suc.IH [OF _ Suc.prems(2), of "?s\<lparr>nt_step := Suc (nt_step ?s)\<rparr>" ?ps "count_directory x"] False dir
        by (simp add: Cons steps weight_dir [OF Suc.prems(2) n])
    qed
  qed
qed

lemma summarize_items_completes:
  assumes "still_calm fs s" "proper_tree fs" "countable fs ps left x"
    and "\<forall>p \<in> set (take (8 - length (su_names x)) ps). \<exists>name. path_name p = Inr name"
  shows "\<exists>y s'. summarize_items left ps x s = (Inr y, s')"
  using assms
proof (induction ps arbitrary: left x s)
  case Nil
  then show ?case by (simp add: io_ret_def)
next
  case (Cons p ps)
  obtain x1 where x1: "add_name p x = Inr x1" and same: "su_total_bytes x1 = su_total_bytes x"
    "8 - length (su_names x1) \<le> 8 - Suc (length (su_names x))"
  proof (cases "length (su_names x) < 8")
    case True
    then obtain name where "path_name p = Inr name" using Cons.prems(4) by (auto simp: take_Cons')
    with True show ?thesis by (intro that [of "x\<lparr>su_names := su_names x @ [name]\<rparr>"]) (simp_all add: add_name_def)
  next
    case False
    then show ?thesis by (intro that [of x]) (simp_all add: add_name_def)
  qed
  let ?s = "s\<lparr>nt_step := Suc (nt_step s)\<rparr>"
  have "countable fs [p] left x1"
    using Cons.prems(3) same by (simp add: countable_def)
  then obtain x2 s2 where run: "summarize_pending left [p] x1 ?s = (Inr (left - weights (\<lambda>_. 1) fs [p], x2), s2)"
    and calm: "still_calm fs s2"
    using summarize_pending_completes [of fs ?s "[p]" left x1] Cons.prems(1,2) by auto
  have x2: "counted fs [p] x1 x2" "su_names x2 = su_names x1"
    using summarize_pending_counts [OF run _ Cons.prems(2)] Cons.prems(1,3) by (auto simp: still_calm_def countable_def)
  have "countable fs ps (left - weights (\<lambda>_. 1) fs [p]) x2"
    using Cons.prems(3) x2(1) same(1) by (auto simp: countable_def counted_def)
  moreover have "\<forall>q \<in> set (take (8 - length (su_names x2)) ps). \<exists>name. path_name q = Inr name"
  proof
    fix q assume "q \<in> set (take (8 - length (su_names x2)) ps)"
    then have "q \<in> set (take (8 - Suc (length (su_names x))) ps)"
      using same(2) x2(2) set_take_subset_set_take by fastforce
    then show "\<exists>name. path_name q = Inr name"
      using Cons.prems(4) by (auto simp: take_Cons' split: if_splits)
  qed
  ultimately show ?case
    using Cons.IH [OF calm Cons.prems(2)] Cons.prems(1) run x1
    by (simp add: io_then_def io_bind_def io_match_def check_cancelled_calm io_lift_def)
qed

text \<open>The summary that the tree itself gives.\<close>

definition summary_of :: "fs \<Rightarrow> string \<Rightarrow> string \<Rightarrow> path list \<Rightarrow> transfer_summary" where
  "summary_of fs device instance paths =
     \<lparr>su_device_name = device, su_instance_id = instance, su_item_count = length paths,
      su_file_count = weights (ones is_file) fs paths, su_directory_count = weights (ones is_dir) fs paths,
      su_total_bytes = weights node_len fs paths, su_names = map last (take 8 paths)\<rparr>"

lemma counted_summary_of:
  assumes "counted fs ps \<lparr>su_device_name = device, su_instance_id = instance, su_item_count = length ps,
      su_file_count = 0, su_directory_count = 0, su_total_bytes = 0, su_names = []\<rparr> y"
    and "su_names y = map last (take 8 ps)"
  shows "y = summary_of fs device instance ps"
  using assms by (intro transfer_summary.equality) (simp_all add: counted_def same_head_def summary_of_def)

text \<open>C32: The summary a receiver is shown before it accepts is true: whatever calls fail or are
  cancelled while the sender walks a tree that does not change, a summary that comes out counts exactly
  the files, directories and bytes at and under the selected paths, names the first eight of them, passes
  the receiver's check, and there is neither a symbolic link nor a special file among what it counts.\<close>

theorem summary_is_true:
  assumes "still fs s" and "proper_tree fs" and "\<forall>p \<in> set paths. plain_way fs p"
    and "summarize_paths device instance paths s = (Inr x, s')"
  shows "x = summary_of fs device instance paths \<and> summary_validate x = Inr ()
    \<and> weights (ones unsendable) fs paths = 0"
proof -
  obtain s1 where run: "summarize_items MAX_SUMMARY_ENTRIES paths
      \<lparr>su_device_name = device, su_instance_id = instance, su_item_count = length paths, su_file_count = 0,
       su_directory_count = 0, su_total_bytes = 0, su_names = []\<rparr> s = (Inr x, s1)" and "summary_valid x"
    using assms(4)
    by (auto simp: summarize_paths_def summarize_paths_blocking_def io_bind_Inr io_then_Inr io_ret_def)
  then show ?thesis
    using summarize_items_counts [OF run assms(1-3)] counted_summary_of by (auto simp: counted_def)
qed

text \<open>On a disk without faults the summary comes out, when it is valid and the names can be shown.\<close>

theorem summary_completes:
  assumes "still_calm fs s" and "proper_tree fs"
    and "\<forall>p \<in> set paths. plain_way fs p \<and> lookup fs p \<noteq> None"
    and "weights (ones unsendable) fs paths = 0" and "weights node_len fs paths \<le> u64_max"
    and "weights (\<lambda>_. 1) fs paths \<le> MAX_SUMMARY_ENTRIES"
    and "\<forall>p \<in> set (take 8 paths). \<exists>name. path_name p = Inr name"
    and "summary_valid (summary_of fs device instance paths)"
  shows "\<exists>s'. summarize_paths device instance paths s = (Inr (summary_of fs device instance paths), s')"
proof -
  let ?x = "\<lparr>su_device_name = device, su_instance_id = instance, su_item_count = length paths, su_file_count = 0,
       su_directory_count = 0, su_total_bytes = 0, su_names = []\<rparr>"
  have "countable fs paths MAX_SUMMARY_ENTRIES ?x" using assms(3-6) by (simp add: countable_def)
  then obtain y s' where run: "summarize_items MAX_SUMMARY_ENTRIES paths ?x s = (Inr y, s')"
    using summarize_items_completes [OF assms(1,2)] assms(7) by fastforce
  moreover have "y = summary_of fs device instance paths"
    using summarize_items_counts [OF run _ assms(2)] assms(1,3) counted_summary_of
    by (auto simp: still_calm_def)
  ultimately show ?thesis
    using assms(8)
    by (auto simp: summarize_paths_def summarize_paths_blocking_def io_reject_if_def io_bind_def io_then_def io_match_def
        io_lift_def io_ret_def summary_valid_def summary_of_def summary_validate_def reject_if_def)
qed

text \<open>A selected folder with two files and an empty folder, and a file beside it.\<close>

definition selected_tree :: fs where
  "selected_tree =
     [([''d''], DirN 0), ([''d'', ''a''], FileN [1, 2] 0), ([''d'', ''e''], DirN 0),
      ([''d'', ''b''], FileN [3] 0), ([''f''], FileN [4, 5, 6] 0)]"

definition sample_selection :: sending where
  "sample_selection =
     \<lparr>nt_input = [], nt_end = None, nt_output = [], nt_finished = False, nt_step = 0, nt_fault = (\<lambda>_. None),
      nt_chunk = (\<lambda>_. 1), nt_random = (\<lambda>_. []), sd_disk = (\<lambda>_. selected_tree), sd_disk_fault = (\<lambda>_. None),
      sd_progress = []\<rparr>"

lemma selected_tree_ok:
  "proper_tree selected_tree" "plain_way selected_tree [''d'']" "plain_way selected_tree [''f'']"
  "lookup selected_tree [''d''] = Some (DirN 0)" "lookup selected_tree [''f''] = Some (FileN [4, 5, 6] 0)"
  by (simp_all add: proper_tree_def selected_tree_def in_dir_def lookup_def plain_way_def strict_prefix_def
      prefix_Cons is_symlink_def)

lemma sample_weights:
  "weights (ones is_file) selected_tree [[''d''], [''f'']] = 3" "weights (ones is_dir) selected_tree [[''d''], [''f'']] = 2"
  "weights node_len selected_tree [[''d''], [''f'']] = 6" "weights (ones unsendable) selected_tree [[''d''], [''f'']] = 0"
  "weights (\<lambda>_. Suc 0) selected_tree [[''d''], [''f'']] = 5"
  by (simp_all add: weight_def nodes_under_def selected_tree_def ones_def is_file_def is_dir_def is_symlink_def node_len_def
      unsendable_def)

theorem summary_is_true_witness:
  "\<exists>s'. summarize_paths ''Sender'' (replicate 32 CHR ''a'') [[''d''], [''f'']] sample_selection =
     (Inr \<lparr>su_device_name = ''Sender'', su_instance_id = replicate 32 CHR ''a'', su_item_count = 2,
           su_file_count = 3, su_directory_count = 2, su_total_bytes = 6, su_names = [''d'', ''f'']\<rparr>, s')"
proof -
  let ?id = "replicate 32 CHR ''a''"
  have still: "still_calm selected_tree sample_selection" "still selected_tree sample_selection"
    by (simp_all add: still_calm_def still_def sample_selection_def)
  have plain: "trim ''Sender'' = ''Sender''" "trim ''d'' = ''d''" "trim ''f'' = ''f''"
    by (simp_all add: trim_graphic)
  have id: "valid_instance_id ?id" by (simp add: valid_instance_id_def is_lower_hex_def is_digit_def list_all_iff)
  have truth: "summary_of selected_tree ''Sender'' ?id [[''d''], [''f'']] =
     \<lparr>su_device_name = ''Sender'', su_instance_id = ?id, su_item_count = 2,
      su_file_count = 3, su_directory_count = 2, su_total_bytes = 6, su_names = [''d'', ''f'']\<rparr>"
    by (simp add: summary_of_def sample_weights del: weights_simps)
  have "\<exists>x s'. summarize_paths ''Sender'' ?id [[''d''], [''f'']] sample_selection = (Inr x, s')"
    using summary_completes [OF still(1) selected_tree_ok(1), of "[[''d''], [''f'']]" "''Sender''" ?id]
    unfolding truth
    by (auto simp: selected_tree_ok sample_weights plain id summary_valid_def path_name_def u64_max_def
        MAX_SUMMARY_ENTRIES_def MAX_SELECTED_ITEMS_def simp del: weights_simps)
  then show ?thesis
    using summary_is_true [OF still(2) selected_tree_ok(1), of "[[''d''], [''f'']]" "''Sender''" ?id] selected_tree_ok
    unfolding truth by auto
qed

end
