(* ===== verification/Rendezvous.thy ===== *)
theory Rendezvous
  imports Frames Machine "HOL-Library.AList"
begin

text \<open>
  The client of the rendezvous server (\<open>wormhole/rendezvous.rs\<close>): an operation is a function of
  the client state, which holds what the socket still has to deliver and what was written to it.
  A socket that has delivered everything ends with an error. The random command numbers are a
  supply in the state; failures of writing are not modelled.
\<close>

section \<open>State\<close>

definition MAX_RENDEZVOUS_MESSAGE :: nat where "MAX_RENDEZVOUS_MESSAGE = 64 * 1024"

definition MAX_PENDING_MESSAGES :: nat where "MAX_PENDING_MESSAGES = 64"

record mailbox_message =
  mm_side :: string
  mm_phase :: string
  mm_body :: string

datatype ws_message = WsData bytes | WsPing bytes | WsPong | WsFrame | WsClose

datatype ws_output = WsCommand "(string \<times> jvalue) list" | WsPongReply bytes

record rendezvous =
  rv_side_id :: string
  rv_app_id :: string
  rv_mailbox_id :: string
  rv_nameplate :: "string option"
  rv_pending :: "jvalue list"
  rv_mailbox :: "mailbox_message list"
  rv_inbound :: "ws_message list"
  rv_sent :: "ws_output list"
  rv_id_supply :: "nat \<Rightarrow> string"
  rv_next_id :: nat

type_synonym 'a rv = "rendezvous \<Rightarrow> 'a result \<times> rendezvous"

definition rv_return :: "'a \<Rightarrow> 'a rv" where
  "rv_return x s = (Inr x, s)"

definition rv_fail :: "core_error \<Rightarrow> 'a rv" where
  "rv_fail err s = (Inl err, s)"

definition rv_bind :: "'a rv \<Rightarrow> ('a \<Rightarrow> 'b rv) \<Rightarrow> 'b rv" where
  "rv_bind m f s = (case m s of (Inl err, s') \<Rightarrow> (Inl err, s') | (Inr x, s') \<Rightarrow> f x s')"

lemma rv_bind_Inr:
  "rv_bind m f s = (Inr y, t) \<longleftrightarrow> (\<exists>x s'. m s = (Inr x, s') \<and> f x s' = (Inr y, t))"
  by (auto simp: rv_bind_def split: prod.splits sum.splits)

section \<open>Messages\<close>

definition message_type :: "jvalue \<Rightarrow> string option" where
  "message_type v = Option.bind (value_get ''type'' v) value_as_str"

definition required_string :: "jvalue \<Rightarrow> string \<Rightarrow> string result" where
  "required_string v k =
     (case Option.bind (value_get k v) value_as_str of
        Some s \<Rightarrow> if s = [] then Inl (Protocol (''rendezvous response has no '' @ k)) else Inr s
      | None \<Rightarrow> Inl (Protocol (''rendezvous response has no '' @ k)))"

definition as_mailbox_message :: "jvalue \<Rightarrow> mailbox_message result" where
  "as_mailbox_message v =
     bind_r (as_struct [''side'', ''phase'', ''body''] [] (as_value v)) (\<lambda>kvs.
     bind_r (field ''side'' as_str kvs) (\<lambda>side.
     bind_r (field ''phase'' as_str kvs) (\<lambda>phase.
     bind_r (field ''body'' as_str kvs) (\<lambda>body.
       Inr \<lparr>mm_side = side, mm_phase = phase, mm_body = body\<rparr>))))"

text \<open>The advice given when the server reports a crowded mailbox, in UTF-8.\<close>

definition crowded_text :: string where
  "crowded_text = bytes_str
      [0xE8, 0xAF, 0xA5, 0xE7, 0x9F, 0xAD, 0xE7, 0xA0, 0x81, 0xE7, 0x9A, 0x84, 0xE4, 0xBC, 0x9A, 0xE8,
       0xAF, 0x9D, 0xE5, 0xB7, 0xB2, 0xE8, 0xA2, 0xAB, 0xE5, 0x8D, 0xA0, 0xE7, 0x94, 0xA8, 0xE6, 0x88,
       0x96, 0xE5, 0xB7, 0xB2, 0xE5, 0xA4, 0xB1, 0xE6, 0x95, 0x88, 0x3B, 0xE8, 0xAF, 0xB7, 0xE8, 0xAE,
       0xA9, 0xE5, 0x8F, 0x91, 0xE9, 0x80, 0x81, 0xE7, 0xAB, 0xAF, 0xE9, 0x87, 0x8D, 0xE6, 0x96, 0xB0,
       0xE7, 0x94, 0x9F, 0xE6, 0x88, 0x90, 0xE7, 0x9F, 0xAD, 0xE7, 0xA0, 0x81, 0xE5, 0x90, 0x8E, 0xE5,
       0x86, 0x8D, 0xE6, 0x8E, 0xA5, 0xE6, 0x94, 0xB6]"

definition str_contains :: "string \<Rightarrow> string \<Rightarrow> bool" where
  "str_contains part s = (split_once_str part s \<noteq> None)"

definition rendezvous_error :: "jvalue \<Rightarrow> core_error" where
  "rendezvous_error v =
     (let message = (case Option.bind (value_get ''error'' v) value_as_str of
                       Some m \<Rightarrow> m | None \<Rightarrow> ''unknown rendezvous error'') in
      if str_contains ''crowded'' message then Protocol crowded_text
      else Protocol (''rendezvous server error: '' @ message))"

definition dispatch :: "jvalue \<Rightarrow> unit rv" where
  "dispatch v s =
     (case message_type v of
        None \<Rightarrow> (Inl (Protocol ''rendezvous message has no type''), s)
      | Some kind \<Rightarrow>
          if kind = ''message'' then
            (case as_mailbox_message v of
               Inl err \<Rightarrow> (Inl err, s)
             | Inr message \<Rightarrow>
                 if mm_side message = rv_side_id s then (Inr (), s)
                 else if MAX_PENDING_MESSAGES \<le> length (rv_mailbox s)
                 then (Inl (Protocol ''too many pending mailbox messages''), s)
                 else (Inr (), s\<lparr>rv_mailbox := rv_mailbox s @ [message]\<rparr>))
          else if kind = ''error'' then (Inl (rendezvous_error v), s)
          else if MAX_PENDING_MESSAGES \<le> length (rv_pending s)
          then (Inl (Protocol ''too many pending rendezvous messages''), s)
          else (Inr (), s\<lparr>rv_pending := rv_pending s @ [v]\<rparr>))"

text \<open>\<open>read_socket_value\<close>: pings are answered, pongs and raw frames are skipped.\<close>

fun read_values :: "crates \<Rightarrow> ws_message list \<Rightarrow> ws_output list \<Rightarrow> jvalue result \<times> ws_message list \<times> ws_output list" where
  "read_values E [] sent = (Inl (Protocol ''rendezvous connection ended''), [], sent)"
| "read_values E (WsData bs # rest) sent =
     (if MAX_RENDEZVOUS_MESSAGE < length bs then (Inl (Protocol ''rendezvous message is too large''), rest, sent)
      else (from_slice E bs, rest, sent))"
| "read_values E (WsPing bs # rest) sent = read_values E rest (sent @ [WsPongReply bs])"
| "read_values E (WsPong # rest) sent = read_values E rest sent"
| "read_values E (WsFrame # rest) sent = read_values E rest sent"
| "read_values E (WsClose # rest) sent =
     (Inl (Protocol ''rendezvous server closed the connection''), rest, sent)"

definition read_socket_value :: "crates \<Rightarrow> jvalue rv" where
  "read_socket_value E s =
     (let (r, rest, sent) = read_values E (rv_inbound s) (rv_sent s) in
      (r, s\<lparr>rv_inbound := rest, rv_sent := sent\<rparr>))"

fun take_first :: "('a \<Rightarrow> bool) \<Rightarrow> 'a list \<Rightarrow> ('a \<times> 'a list) option" where
  "take_first p [] = None"
| "take_first p (x # xs) =
     (if p x then Some (x, xs) else map_option (\<lambda>(y, ys). (y, x # ys)) (take_first p xs))"

lemma read_values_shrinks: "read_values E inbound sent = (Inr v, rest, sent') \<Longrightarrow> length rest < length inbound"
  by (induction E inbound sent rule: read_values.induct) (auto split: if_splits)

lemma read_socket_value_shrinks:
  "read_socket_value E s = (Inr v, s') \<Longrightarrow> length (rv_inbound s') < length (rv_inbound s)"
  using read_values_shrinks by (fastforce simp: read_socket_value_def split: prod.splits)

lemma dispatch_inbound [simp]: "rv_inbound (snd (dispatch v s)) = rv_inbound s"
  by (auto simp: dispatch_def split: option.splits sum.splits)

text \<open>The loops below end because every turn takes a message from the socket.\<close>

function read_type :: "crates \<Rightarrow> string \<Rightarrow> jvalue rv" where
  "read_type E expected s =
     (case take_first (\<lambda>v. message_type v = Some expected) (rv_pending s) of
        Some (v, rest) \<Rightarrow> (Inr v, s\<lparr>rv_pending := rest\<rparr>)
      | None \<Rightarrow>
          (case read_socket_value E s of
             (Inl err, s1) \<Rightarrow> (Inl err, s1)
           | (Inr v, s1) \<Rightarrow>
               if message_type v = Some expected then (Inr v, s1)
               else (case dispatch v s1 of
                       (Inl err, s2) \<Rightarrow> (Inl err, s2)
                     | (Inr _, s2) \<Rightarrow> read_type E expected s2)))"
  by pat_completeness auto
termination
proof (relation "measure (\<lambda>(E, expected, s). length (rv_inbound s))", goal_cases)
  case (2 E expected s x y v xa ya)
  have "rv_inbound ya = rv_inbound y"
    using 2(5) dispatch_inbound [of v y] by (metis snd_conv)
  moreover have "length (rv_inbound y) < length (rv_inbound s)"
    using 2(2,3) by (intro read_socket_value_shrinks [of E s v]) simp
  ultimately show ?case by simp
qed simp

declare read_type.simps [simp del]

section \<open>Operations\<close>

text \<open>Every command is written before the first acknowledgement is read.\<close>

fun write_commands :: "crates \<Rightarrow> (string \<times> jvalue) list \<Rightarrow> string list rv" where
  "write_commands E [] s = (Inr [], s)"
| "write_commands E ((command, content) # rest) s =
     (let i = rv_id_supply s (rv_next_id s); s1 = s\<lparr>rv_next_id := Suc (rv_next_id s)\<rparr> in
      case content of
        JObj kvs \<Rightarrow>
          (let object = AList.update ''id'' (JStr i) (AList.update ''type'' (JStr command) kvs) in
           if MAX_RENDEZVOUS_MESSAGE < length (to_vec E (JObj object))
           then (Inl (InvalidRequest ''rendezvous command is too large''), s1)
           else (case write_commands E rest (s1\<lparr>rv_sent := rv_sent s1 @ [WsCommand object]\<rparr>) of
                   (Inl err, s2) \<Rightarrow> (Inl err, s2)
                 | (Inr ids, s2) \<Rightarrow> (Inr (i # ids), s2)))
      | _ \<Rightarrow> (Inl (InvalidRequest ''rendezvous command fields must be an object''), s1))"

fun read_acks :: "crates \<Rightarrow> string list \<Rightarrow> unit rv" where
  "read_acks E [] s = (Inr (), s)"
| "read_acks E (i # ids) s =
     rv_bind (read_type E ''ack'') (\<lambda>acknowledgement.
       if Option.bind (value_get ''id'' acknowledgement) value_as_str \<noteq> Some i
       then rv_fail (Protocol ''rendezvous acknowledgement ID mismatch'')
       else read_acks E ids) s"

definition send_commands :: "crates \<Rightarrow> (string \<times> jvalue) list \<Rightarrow> unit rv" where
  "send_commands E commands = rv_bind (write_commands E commands) (read_acks E)"

definition package_version :: string where "package_version = ''2.1.2''"

definition bind_command :: "rendezvous \<Rightarrow> string \<times> jvalue" where
  "bind_command s =
     (''bind'', JObj [(''side'', JStr (rv_side_id s)), (''appid'', JStr (rv_app_id s)),
                      (''client_version'', JArr [JStr ''inkhole-rust'', JStr package_version])])"

text \<open>The greeting of \<open>connect\<close>, after the web socket is up.\<close>

definition read_welcome :: "crates \<Rightarrow> unit rv" where
  "read_welcome E =
     rv_bind (read_type E ''welcome'') (\<lambda>welcome.
       case Option.bind (Option.bind (value_get ''welcome'' welcome) (value_get ''error'')) value_as_str of
         Some err \<Rightarrow> if err = [] then rv_return () else rv_fail (Protocol (''rendezvous rejected client: '' @ err))
       | None \<Rightarrow> rv_return ())"

definition rv_lift :: "'a result \<Rightarrow> 'a rv" where
  "rv_lift r s = (r, s)"

definition finish_open :: "crates \<Rightarrow> string \<Rightarrow> unit rv" where
  "finish_open E nameplate =
     rv_bind (read_type E ''claimed'') (\<lambda>claimed.
     rv_bind (rv_lift (required_string claimed ''mailbox'')) (\<lambda>mailbox.
     rv_bind (send_commands E [(''open'', JObj [(''mailbox'', JStr mailbox)])]) (\<lambda>_ s.
       (Inr (), s\<lparr>rv_mailbox_id := mailbox, rv_nameplate := Some nameplate\<rparr>))))"

definition create_mailbox :: "crates \<Rightarrow> string rv" where
  "create_mailbox E s =
     rv_bind (send_commands E [bind_command s, (''allocate'', JObj [])]) (\<lambda>_.
     rv_bind (read_type E ''allocated'') (\<lambda>allocated.
     rv_bind (rv_lift (required_string allocated ''nameplate'')) (\<lambda>nameplate.
     rv_bind (send_commands E [(''claim'', JObj [(''nameplate'', JStr nameplate)])]) (\<lambda>_.
     rv_bind (finish_open E nameplate) (\<lambda>_. rv_return nameplate))))) s"

definition attach_mailbox :: "crates \<Rightarrow> string \<Rightarrow> unit rv" where
  "attach_mailbox E nameplate s =
     (if nameplate = [] \<or> \<not> list_all is_digit nameplate
      then (Inl (InvalidRequest ''short code has an invalid nameplate''), s)
      else rv_bind (send_commands E [bind_command s, (''claim'', JObj [(''nameplate'', JStr nameplate)])])
             (\<lambda>_. finish_open E nameplate) s)"

definition add_message :: "crates \<Rightarrow> string \<Rightarrow> string \<Rightarrow> unit rv" where
  "add_message E phase body =
     (if phase = [] \<or> 64 < length phase \<or> MAX_RENDEZVOUS_MESSAGE < length body
      then rv_fail (InvalidRequest ''rendezvous mailbox message is invalid'')
      else send_commands E [(''add'', JObj [(''phase'', JStr phase), (''body'', JStr body)])])"

definition release_nameplate :: "crates \<Rightarrow> unit rv" where
  "release_nameplate E s =
     (case rv_nameplate s of
        None \<Rightarrow> (Inr (), s)
      | Some nameplate \<Rightarrow>
          rv_bind (send_commands E [(''release'', JObj [(''nameplate'', JStr nameplate)])]) (\<lambda>_.
          rv_bind (read_type E ''released'') (\<lambda>_. rv_return ())) (s\<lparr>rv_nameplate := None\<rparr>))"

function next_peer_message :: "crates \<Rightarrow> mailbox_message rv" where
  "next_peer_message E s =
     (case rv_mailbox s of
        message # rest \<Rightarrow>
          rv_bind (if rv_nameplate s \<noteq> None then release_nameplate E else rv_return ())
            (\<lambda>_. rv_return message) (s\<lparr>rv_mailbox := rest\<rparr>)
      | [] \<Rightarrow>
          (case read_socket_value E s of
             (Inl err, s1) \<Rightarrow> (Inl err, s1)
           | (Inr v, s1) \<Rightarrow>
               (case dispatch v s1 of
                  (Inl err, s2) \<Rightarrow> (Inl err, s2)
                | (Inr _, s2) \<Rightarrow> next_peer_message E s2)))"
  by pat_completeness auto
termination
proof (relation "measure (\<lambda>(E, s). length (rv_inbound s))", goal_cases)
  case (2 E s x y v xa ya)
  have "rv_inbound ya = rv_inbound y"
    using 2(4) dispatch_inbound [of v y] by (metis snd_conv)
  moreover have "length (rv_inbound y) < length (rv_inbound s)"
    using 2(2,3) by (intro read_socket_value_shrinks [of E s v]) simp
  ultimately show ?case by simp
qed simp

declare next_peer_message.simps [simp del]

text \<open>The keep-alive pump, stopped after \<open>n\<close> values.\<close>

fun pump :: "crates \<Rightarrow> nat \<Rightarrow> unit rv" where
  "pump E 0 = rv_return ()"
| "pump E (Suc n) = rv_bind (read_socket_value E) (\<lambda>v. rv_bind (dispatch v) (\<lambda>_. pump E n))"

definition close_mailbox :: "crates \<Rightarrow> string \<Rightarrow> unit rv" where
  "close_mailbox E mood s =
     (if rv_mailbox_id s = [] then (Inr (), s)
      else rv_bind (send_commands E
               [(''close'', JObj [(''mailbox'', JStr (rv_mailbox_id s)),
                                  (''mood'', JStr (if mood = [] then ''happy'' else mood))])])
             (\<lambda>_. rv_bind (read_type E ''closed'') (\<lambda>_. rv_return ())) s)"

definition valid_scheme :: "string \<Rightarrow> bool" where
  "valid_scheme scheme = (scheme = ''ws'' \<or> scheme = ''wss'')"

definition invalid_rendezvous_port :: core_error where
  "invalid_rendezvous_port = InvalidRequest ''invalid rendezvous port''"

text \<open>The part of a text before the first of the given characters.\<close>

definition upto_any :: "char list \<Rightarrow> string \<Rightarrow> string" where
  "upto_any cs s = takeWhile (\<lambda>c. c \<notin> set cs) s"

definition ws_endpoint :: "string \<Rightarrow> (string \<times> nat) result" where
  "ws_endpoint url =
     (case split_once_str ''://'' url of
        None \<Rightarrow> Inl (InvalidRequest ''rendezvous URL must use ws:// or wss://'')
      | Some (scheme, rest) \<Rightarrow>
          reject_if (\<not> valid_scheme scheme) (InvalidRequest ''rendezvous URL must use ws:// or wss://'')
          (let authority = upto_any [CHR ''/'', CHR ''?'', CHR ''#''] rest;
               default_port = (if scheme = ''wss'' then 443 else 80) in
           bind_r
             (case authority of
                c # inner \<Rightarrow>
                  if c = CHR ''['' then
                    (case split_once_str '']'' inner of
                       None \<Rightarrow> Inl (InvalidRequest ''invalid IPv6 rendezvous host'')
                     | Some (host, []) \<Rightarrow> Inr (host, default_port)
                     | Some (host, d # port) \<Rightarrow>
                         if d = CHR '':'' then
                           bind_r (ok_or (parse_u16 port) invalid_rendezvous_port) (\<lambda>p. Inr (host, p))
                         else Inr (host, default_port))
                  else
                    (case rsplit_once CHR '':'' authority of
                       Some (host, port) \<Rightarrow>
                         bind_r (ok_or (parse_u16 port) invalid_rendezvous_port) (\<lambda>p. Inr (host, p))
                     | None \<Rightarrow> Inr (authority, default_port))
              | [] \<Rightarrow> Inr ([], default_port))
             (\<lambda>(host, port).
                reject_if (host = []) (InvalidRequest ''rendezvous URL has no host'') (Inr (host, port)))))"

section \<open>The messages of the peer\<close>

text \<open>
  The abstraction of a client: the messages of the other side, those queued and those the
  socket still holds, in order. Commands, acknowledgements and keep-alives do not touch it.
\<close>

definition peer_messages_in :: "string \<Rightarrow> jvalue \<Rightarrow> mailbox_message list" where
  "peer_messages_in side v =
     (if message_type v = Some ''message'' then
        (case as_mailbox_message v of
           Inr m \<Rightarrow> if mm_side m = side then [] else [m] | Inl _ \<Rightarrow> [])
      else [])"

definition peer_messages_of :: "crates \<Rightarrow> string \<Rightarrow> ws_message \<Rightarrow> mailbox_message list" where
  "peer_messages_of E side w =
     (case w of
        WsData bs \<Rightarrow> (case from_slice E bs of Inr v \<Rightarrow> peer_messages_in side v | Inl _ \<Rightarrow> [])
      | _ \<Rightarrow> [])"

definition peer_stream :: "crates \<Rightarrow> rendezvous \<Rightarrow> mailbox_message list" where
  "peer_stream E s = rv_mailbox s @ concat (map (peer_messages_of E (rv_side_id s)) (rv_inbound s))"

definition rv_ok :: "rendezvous \<Rightarrow> bool" where
  "rv_ok s =
     (length (rv_mailbox s) \<le> MAX_PENDING_MESSAGES \<and> length (rv_pending s) \<le> MAX_PENDING_MESSAGES
      \<and> list_all (\<lambda>m. mm_side m \<noteq> rv_side_id s) (rv_mailbox s))"

text \<open>An operation that, when it succeeds, keeps the invariant and consumes the messages \<open>f r\<close>.\<close>

definition consumes :: "crates \<Rightarrow> ('a \<Rightarrow> mailbox_message list) \<Rightarrow> 'a rv \<Rightarrow> bool" where
  "consumes E f m \<longleftrightarrow>
     (\<forall>s r s'. rv_ok s \<longrightarrow> m s = (Inr r, s') \<longrightarrow>
        rv_ok s' \<and> rv_side_id s' = rv_side_id s \<and> peer_stream E s = f r @ peer_stream E s')"

abbreviation steady :: "crates \<Rightarrow> 'a rv \<Rightarrow> bool" where
  "steady E m \<equiv> consumes E (\<lambda>_. []) m"

lemma consumesI:
  assumes "\<And>s r s'. rv_ok s \<Longrightarrow> m s = (Inr r, s') \<Longrightarrow>
    rv_ok s' \<and> rv_side_id s' = rv_side_id s \<and> peer_stream E s = f r @ peer_stream E s'"
  shows "consumes E f m"
  unfolding consumes_def using assms by blast

lemma consumesD:
  assumes "consumes E f m" and "rv_ok s" and "m s = (Inr r, s')"
  shows "rv_ok s' \<and> rv_side_id s' = rv_side_id s \<and> peer_stream E s = f r @ peer_stream E s'"
  using assms unfolding consumes_def by blast

lemma steady_bind:
  assumes "steady E m" and "\<And>x. consumes E f (g x)"
  shows "consumes E f (rv_bind m g)"
proof (rule consumesI)
  fix s r s'
  assume ok: "rv_ok s" and run: "rv_bind m g s = (Inr r, s')"
  then obtain x s1 where first: "m s = (Inr x, s1)" and second: "g x s1 = (Inr r, s')"
    by (auto simp: rv_bind_Inr)
  note at_s1 = consumesD [OF assms(1) ok first]
  show "rv_ok s' \<and> rv_side_id s' = rv_side_id s \<and> peer_stream E s = f r @ peer_stream E s'"
    using at_s1 consumesD [OF assms(2) conjunct1 [OF at_s1] second] by simp
qed

lemma steady_simple [simp, intro]:
  "steady E (rv_return x)" "consumes E f (rv_fail err)" "steady E (rv_lift r)"
  by (auto intro!: consumesI simp: rv_return_def rv_fail_def rv_lift_def)

lemma read_values_split:
  assumes "read_values E inbound sent = (Inr v, rest, sent')"
  shows "\<exists>before bs. inbound = before @ WsData bs # rest \<and> from_slice E bs = Inr v
    \<and> (\<forall>w\<in>set before. peer_messages_of E side w = [])"
  using assms
proof (induction inbound arbitrary: sent)
  case (Cons w inbound)
  show ?case
  proof (cases w)
    case (WsData bs)
    then show ?thesis using Cons.prems by (auto split: if_splits intro: exI [of _ "[]"])
  next
    case WsClose
    then show ?thesis using Cons.prems by simp
  qed (use Cons in \<open>fastforce simp: peer_messages_of_def intro: exI [of _ "w # _"]\<close>)+
qed simp

lemma read_socket_value_stream:
  assumes "read_socket_value E s = (Inr v, s')"
  shows "rv_mailbox s' = rv_mailbox s \<and> rv_pending s' = rv_pending s \<and> rv_side_id s' = rv_side_id s
    \<and> peer_stream E s = rv_mailbox s @ peer_messages_in (rv_side_id s) v
        @ concat (map (peer_messages_of E (rv_side_id s)) (rv_inbound s'))"
proof -
  obtain rest sent where r: "read_values E (rv_inbound s) (rv_sent s) = (Inr v, rest, sent)"
    and s': "s' = s\<lparr>rv_inbound := rest, rv_sent := sent\<rparr>"
    using assms by (auto simp: read_socket_value_def split: prod.splits)
  obtain before bs where "rv_inbound s = before @ WsData bs # rest" "from_slice E bs = Inr v"
    "\<forall>w\<in>set before. peer_messages_of E (rv_side_id s) w = []"
    using read_values_split [OF r] by blast
  then show ?thesis
    by (auto simp: s' peer_stream_def peer_messages_of_def [of E "rv_side_id s" "WsData bs"])
qed

lemma dispatch_stream:
  assumes "dispatch v s = (Inr u, s')"
  shows "rv_mailbox s' = rv_mailbox s @ peer_messages_in (rv_side_id s) v \<and> rv_side_id s' = rv_side_id s
    \<and> rv_inbound s' = rv_inbound s \<and> (rv_ok s \<longrightarrow> rv_ok s')"
  using assms
  by (auto simp: dispatch_def peer_messages_in_def rv_ok_def split: option.splits sum.splits if_splits)

lemma steady_pump_once: "steady E (rv_bind (read_socket_value E) dispatch)"
proof -
  have "rv_ok s' \<and> rv_side_id s' = rv_side_id s \<and> peer_stream E s = peer_stream E s'"
    if ok: "rv_ok s" and read: "read_socket_value E s = (Inr v, s1)" and put: "dispatch v s1 = (Inr r, s')"
    for s s' s1 v r
    using read_socket_value_stream [OF read] dispatch_stream [OF put] ok
    by (auto simp: rv_ok_def peer_stream_def)
  then show ?thesis by (intro consumesI) (auto simp: rv_bind_Inr)
qed

lemma take_first_Some:
  "take_first p xs = Some (x, ys) \<Longrightarrow> length ys < length xs \<and> p x"
  by (induction xs arbitrary: ys) (fastforce split: if_splits)+

lemma steady_read_type:
  assumes "expected \<noteq> ''message''"
  shows "steady E (read_type E expected)"
proof -
  have "rv_ok s' \<and> rv_side_id s' = rv_side_id s \<and> peer_stream E s = [] @ peer_stream E s'"
    if "rv_ok s" "read_type E expected s = (Inr r, s')" for s s' r
    using assms that
  proof (induction E expected s rule: read_type.induct)
    case (1 E expected s)
    show ?case
    proof (cases "take_first (\<lambda>v. message_type v = Some expected) (rv_pending s)")
      case (Some vr)
      then show ?thesis
        using 1(3,4) take_first_Some [of _ "rv_pending s"]
        by (cases vr) (force simp: read_type.simps [of E expected s] rv_ok_def peer_stream_def)
    next
      case None
      then obtain v s1 where read: "read_socket_value E s = (Inr v, s1)"
        using 1(4) by (auto simp: read_type.simps [of E expected s] split: prod.splits sum.splits)
      note at_s1 = read_socket_value_stream [OF read]
      show ?thesis
      proof (cases "message_type v = Some expected")
        case True
        then show ?thesis
          using None read 1(2,3,4) at_s1
          by (auto simp: read_type.simps [of E expected s] rv_ok_def peer_stream_def peer_messages_in_def)
      next
        case False
        then obtain u s2 where put: "dispatch v s1 = (Inr u, s2)" and again: "read_type E expected s2 = (Inr r, s')"
          using None read 1(4) by (auto simp: read_type.simps [of E expected s] split: prod.splits sum.splits)
        have "rv_bind (read_socket_value E) dispatch s = (Inr u, s2)"
          using read put by (simp add: rv_bind_def)
        note s2 = consumesD [OF steady_pump_once 1(3) this]
        show ?thesis
          using 1(1) [OF None read [symmetric] refl False put [symmetric] refl 1(2) conjunct1 [OF s2] again] s2 by simp
      qed
    qed
  qed
  then show ?thesis by (rule consumesI)
qed

lemma write_commands_stream:
  assumes "write_commands E commands s = (Inr ids, s')"
  shows "rv_mailbox s' = rv_mailbox s \<and> rv_pending s' = rv_pending s \<and> rv_side_id s' = rv_side_id s
    \<and> rv_inbound s' = rv_inbound s"
  using assms
proof (induction E commands s arbitrary: ids s' rule: write_commands.induct)
  case (2 E command content rest s)
  show ?case
  proof (cases content)
    case (JObj kvs)
    let ?i = "rv_id_supply s (rv_next_id s)"
    let ?object = "AList.update ''id'' (JStr ?i) (AList.update ''type'' (JStr command) kvs)"
    have small: "\<not> MAX_RENDEZVOUS_MESSAGE < length (to_vec E (JObj ?object))"
      using 2(2) JObj by (auto simp: Let_def split: if_splits)
    with 2(2) JObj obtain ids' where
      "write_commands E rest (s\<lparr>rv_next_id := Suc (rv_next_id s), rv_sent := rv_sent s @ [WsCommand ?object]\<rparr>)
        = (Inr ids', s')"
      by (auto simp: Let_def split: prod.splits sum.splits)
    from 2(1) [OF refl refl JObj refl small, simplified, OF this] show ?thesis by simp
  qed (use 2(2) in simp_all)
qed simp

lemma steady_write_commands: "steady E (write_commands E commands)"
  by (rule consumesI, drule write_commands_stream) (simp add: rv_ok_def peer_stream_def)

lemma steady_read_acks: "steady E (read_acks E ids)"
proof (induction ids)
  case (Cons i ids)
  have "read_acks E (i # ids) = rv_bind (read_type E ''ack'') (\<lambda>acknowledgement.
       if Option.bind (value_get ''id'' acknowledgement) value_as_str \<noteq> Some i
       then rv_fail (Protocol ''rendezvous acknowledgement ID mismatch'') else read_acks E ids)"
    by (rule ext) simp
  then show ?case
    using Cons by (auto intro!: steady_bind steady_read_type)
qed (auto intro!: consumesI)

lemma steady_send_commands: "steady E (send_commands E commands)"
  unfolding send_commands_def by (intro steady_bind steady_write_commands steady_read_acks)

text \<open>The opening commands name the client, so they read the state first.\<close>

lemma steady_bound:
  assumes "\<And>x. consumes E f (g x)"
  shows "consumes E f (\<lambda>s. rv_bind (send_commands E [bind_command s, c]) g s)"
proof (rule consumesI)
  fix s r s'
  assume ok: "rv_ok s" and run: "rv_bind (send_commands E [bind_command s, c]) g s = (Inr r, s')"
  have "consumes E f (rv_bind (send_commands E [bind_command s, c]) g)"
    by (intro steady_bind steady_send_commands assms)
  from consumesD [OF this ok run]
  show "rv_ok s' \<and> rv_side_id s' = rv_side_id s \<and> peer_stream E s = f r @ peer_stream E s'" .
qed

lemma steady_finish_open: "steady E (finish_open E nameplate)"
proof -
  have "steady E (\<lambda>s. (Inr (), s\<lparr>rv_mailbox_id := mailbox, rv_nameplate := Some nameplate\<rparr>))" for mailbox
    by (intro consumesI) (auto simp: rv_ok_def peer_stream_def)
  then show ?thesis
    unfolding finish_open_def by (intro steady_bind steady_send_commands) (auto intro: steady_read_type)
qed

lemma steady_create_mailbox: "steady E (create_mailbox E)"
  unfolding create_mailbox_def
  by (intro steady_bound steady_bind steady_read_type steady_send_commands steady_finish_open steady_simple) simp

lemma steady_attach_mailbox: "steady E (attach_mailbox E nameplate)"
proof -
  have "attach_mailbox E nameplate =
    (if nameplate = [] \<or> \<not> list_all is_digit nameplate
     then rv_fail (InvalidRequest ''short code has an invalid nameplate'')
     else (\<lambda>s. rv_bind (send_commands E [bind_command s, (''claim'', JObj [(''nameplate'', JStr nameplate)])])
             (\<lambda>_. finish_open E nameplate) s))"
    by (rule ext) (simp add: attach_mailbox_def rv_fail_def)
  then show ?thesis
    by (simp add: steady_bound steady_finish_open)
qed

lemma steady_add_message: "steady E (add_message E phase body)"
  by (simp add: add_message_def steady_send_commands)

lemma steady_release: "steady E (release_nameplate E)"
proof (rule consumesI)
  fix s r s'
  assume ok: "rv_ok s" and run: "release_nameplate E s = (Inr r, s')"
  show "rv_ok s' \<and> rv_side_id s' = rv_side_id s \<and> peer_stream E s = [] @ peer_stream E s'"
  proof (cases "rv_nameplate s")
    case (Some nameplate)
    let ?m = "rv_bind (send_commands E [(''release'', JObj [(''nameplate'', JStr nameplate)])]) (\<lambda>_.
          rv_bind (read_type E ''released'') (\<lambda>_. rv_return ()))"
    have "steady E ?m"
      by (intro steady_bind steady_send_commands steady_simple) (auto intro: steady_read_type)
    moreover have "?m (s\<lparr>rv_nameplate := None\<rparr>) = (Inr r, s')"
      using run Some by (simp add: release_nameplate_def)
    moreover have "rv_ok (s\<lparr>rv_nameplate := None\<rparr>)"
      using ok by (simp add: rv_ok_def)
    ultimately show ?thesis
      using consumesD [of E "\<lambda>_. []" ?m "s\<lparr>rv_nameplate := None\<rparr>" r s'] by (simp add: peer_stream_def)
  qed (use ok run in \<open>simp add: release_nameplate_def\<close>)
qed

lemma consumes_next: "consumes E (\<lambda>m. [m]) (next_peer_message E)"
proof -
  have "rv_ok s' \<and> rv_side_id s' = rv_side_id s \<and> peer_stream E s = [m] @ peer_stream E s'"
    if "rv_ok s" "next_peer_message E s = (Inr m, s')" for s m s'
    using that
  proof (induction E s rule: next_peer_message.induct)
    case (1 E s)
    show ?case
    proof (cases "rv_mailbox s")
      case (Cons message rest)
      let ?release = "if rv_nameplate s \<noteq> None then release_nameplate E else rv_return ()"
      have "steady E ?release" by (simp add: steady_release)
      moreover obtain u where "?release (s\<lparr>rv_mailbox := rest\<rparr>) = (Inr u, s')" and "m = message"
        using 1(3) Cons
        by (auto simp: next_peer_message.simps [of E s] rv_bind_Inr rv_return_def split: if_splits)
      moreover have "rv_ok (s\<lparr>rv_mailbox := rest\<rparr>)"
        using 1(2) Cons by (simp add: rv_ok_def)
      ultimately show ?thesis
        using consumesD [of E "\<lambda>_. []" ?release "s\<lparr>rv_mailbox := rest\<rparr>" u s'] Cons
        by (simp add: peer_stream_def)
    next
      case Nil
      then obtain v s1 u s2 where read: "read_socket_value E s = (Inr v, s1)"
        and put: "dispatch v s1 = (Inr u, s2)" and again: "next_peer_message E s2 = (Inr m, s')"
        using 1(3) by (auto simp: next_peer_message.simps [of E s] split: prod.splits sum.splits)
      have "rv_bind (read_socket_value E) dispatch s = (Inr u, s2)"
        using read put by (simp add: rv_bind_def)
      note s2 = consumesD [OF steady_pump_once 1(2) this]
      show ?thesis
        using 1(1) [OF Nil read [symmetric] refl put [symmetric] refl conjunct1 [OF s2] again] s2 by simp
    qed
  qed
  then show ?thesis by (rule consumesI)
qed

lemma steady_pump: "steady E (pump E n)"
proof (induction n)
  case (Suc n)
  have "pump E (Suc n) = rv_bind (rv_bind (read_socket_value E) dispatch) (\<lambda>_. pump E n)"
    by (rule ext) (simp add: rv_bind_def split: prod.splits sum.splits)
  then show ?case using Suc by (auto intro!: steady_bind steady_pump_once)
qed simp

section \<open>A session\<close>

datatype rv_op =
    CreateMailbox
  | AttachMailbox string
  | AddMessage string string
  | NextMessage
  | Pump nat

fun rv_op_run :: "crates \<Rightarrow> rv_op \<Rightarrow> mailbox_message list rv" where
  "rv_op_run E CreateMailbox = rv_bind (create_mailbox E) (\<lambda>_. rv_return [])"
| "rv_op_run E (AttachMailbox nameplate) = rv_bind (attach_mailbox E nameplate) (\<lambda>_. rv_return [])"
| "rv_op_run E (AddMessage phase body) = rv_bind (add_message E phase body) (\<lambda>_. rv_return [])"
| "rv_op_run E NextMessage = rv_bind (next_peer_message E) (\<lambda>m. rv_return [m])"
| "rv_op_run E (Pump n) = rv_bind (pump E n) (\<lambda>_. rv_return [])"

text \<open>The messages a session of operations delivers.\<close>

fun rv_session :: "crates \<Rightarrow> rv_op list \<Rightarrow> mailbox_message list rv" where
  "rv_session E [] = rv_return []"
| "rv_session E (operation # rest) =
     rv_bind (rv_op_run E operation) (\<lambda>ms. rv_bind (rv_session E rest) (\<lambda>ms'. rv_return (ms @ ms')))"

lemma consumes_then:
  assumes "consumes E f m" and "\<And>x. consumes E g (h x)"
    and "\<And>x r s s'. m s = (Inr x, s') \<Longrightarrow> k x r = f x @ g r"
  shows "consumes E id (rv_bind m (\<lambda>x. rv_bind (h x) (\<lambda>r. rv_return (k x r))))"
proof (rule consumesI)
  fix s r s'
  assume ok: "rv_ok s" and run: "rv_bind m (\<lambda>x. rv_bind (h x) (\<lambda>r. rv_return (k x r))) s = (Inr r, s')"
  then obtain x s1 y where first: "m s = (Inr x, s1)" and second: "h x s1 = (Inr y, s')" and r: "r = k x y"
    by (auto simp: rv_bind_Inr rv_return_def)
  note at_s1 = consumesD [OF assms(1) ok first]
  show "rv_ok s' \<and> rv_side_id s' = rv_side_id s \<and> peer_stream E s = id r @ peer_stream E s'"
    using at_s1 consumesD [OF assms(2) conjunct1 [OF at_s1] second] assms(3) [OF first] r by simp
qed

lemma consumes_returning:
  assumes "consumes E f m" and "\<And>x. k x = f x"
  shows "consumes E id (rv_bind m (\<lambda>x. rv_return (k x)))"
proof (rule consumesI)
  fix s r s'
  assume ok: "rv_ok s" and run: "rv_bind m (\<lambda>x. rv_return (k x)) s = (Inr r, s')"
  then obtain x where "m s = (Inr x, s')" "r = k x"
    by (auto simp: rv_bind_Inr rv_return_def)
  with consumesD [OF assms(1) ok] assms(2)
  show "rv_ok s' \<and> rv_side_id s' = rv_side_id s \<and> peer_stream E s = id r @ peer_stream E s'" by simp
qed

lemma consumes_op: "consumes E id (rv_op_run E operation)"
  by (cases operation)
    (auto intro: consumes_returning [OF steady_create_mailbox] consumes_returning [OF steady_attach_mailbox]
      consumes_returning [OF steady_add_message] consumes_returning [OF steady_pump]
      consumes_returning [OF consumes_next])

lemma consumes_session: "consumes E id (rv_session E operations)"
proof (induction operations)
  case Nil
  show ?case by (auto intro!: consumesI simp: rv_return_def)
next
  case (Cons operation operations)
  show ?case
    unfolding rv_session.simps
    by (rule consumes_then [where f = id and g = id]) (simp_all add: consumes_op Cons)
qed

lemma peer_stream_foreign: "rv_ok s \<Longrightarrow> m \<in> set (peer_stream E s) \<Longrightarrow> mm_side m \<noteq> rv_side_id s"
proof -
  have "mm_side m \<noteq> side" if "m \<in> set (peer_messages_in side v)" for side v
    using that
    by (cases "as_mailbox_message v"; cases "message_type v = Some ''message''"; cases "mm_side (projr (as_mailbox_message v)) = side")
      (simp_all add: peer_messages_in_def)
  then have "mm_side m \<noteq> side" if "m \<in> set (peer_messages_of E side w)" for side w
    using that
    by (cases w; cases "from_slice E (case w of WsData bs \<Rightarrow> bs | _ \<Rightarrow> [])") (simp_all add: peer_messages_of_def)
  then show "rv_ok s \<Longrightarrow> m \<in> set (peer_stream E s) \<Longrightarrow> mm_side m \<noteq> rv_side_id s"
    by (auto simp: peer_stream_def rv_ok_def list_all_iff)
qed

text \<open>C36: A rendezvous session delivers exactly the messages of the other side, each once and in the
  order the server sent them: whatever commands, acknowledgements, pings and keep-alives
  interleave, the messages returned so far followed by those still queued or on the socket are the
  ones there were at the start; its own messages, echoed by the server, are never delivered, and
  the queues stay bounded.\<close>

theorem rendezvous_delivers_in_order:
  assumes "rv_ok s" and "rv_session E operations s = (Inr delivered, s')"
  shows "peer_stream E s = delivered @ peer_stream E s'
    \<and> list_all (\<lambda>m. mm_side m \<noteq> rv_side_id s) delivered
    \<and> length (rv_mailbox s') \<le> MAX_PENDING_MESSAGES \<and> length (rv_pending s') \<le> MAX_PENDING_MESSAGES"
  using consumesD [OF consumes_session assms] peer_stream_foreign [OF assms(1), of _ E]
  by (auto simp: rv_ok_def list_all_iff)

definition sample_message :: "string \<Rightarrow> string \<Rightarrow> jvalue" where
  "sample_message side body =
     JObj [(''type'', JStr ''message''), (''side'', JStr side), (''phase'', JStr ''pake''), (''body'', JStr body)]"

definition sample_rendezvous_crates :: crates where
  "sample_rendezvous_crates =
     sample_crates\<lparr>json_parse := (\<lambda>bs. if bs = [1] then Some (sample_message ''me'' ''a'')
                                      else if bs = [2] then Some (sample_message ''you'' ''b'') else None)\<rparr>"

definition sample_rendezvous :: rendezvous where
  "sample_rendezvous =
     \<lparr>rv_side_id = ''me'', rv_app_id = ''app'', rv_mailbox_id = ''m'', rv_nameplate = None, rv_pending = [],
      rv_mailbox = [], rv_inbound = [WsPing [7], WsData [1], WsData [2], WsData [2]], rv_sent = [],
      rv_id_supply = dec, rv_next_id = 0\<rparr>"

theorem rendezvous_delivers_in_order_witness:
  "map mm_body (take 1 (peer_stream sample_rendezvous_crates sample_rendezvous)) = [''b'']"
proof -
  have "fst (rv_session sample_rendezvous_crates [Pump 1, NextMessage] sample_rendezvous)
      = Inr [\<lparr>mm_side = ''you'', mm_phase = ''pake'', mm_body = ''b''\<rparr>]"
    by (simp add: sample_rendezvous_def sample_rendezvous_crates_def rv_bind_def rv_return_def
        next_peer_message.simps read_socket_value_def from_slice_def dispatch_def message_type_def sample_message_def
        value_get_def value_as_str_def as_mailbox_message_def
        MAX_RENDEZVOUS_MESSAGE_def MAX_PENDING_MESSAGES_def)
  then obtain s' where run: "rv_session sample_rendezvous_crates [Pump 1, NextMessage] sample_rendezvous
      = (Inr [\<lparr>mm_side = ''you'', mm_phase = ''pake'', mm_body = ''b''\<rparr>], s')"
    by (cases "rv_session sample_rendezvous_crates [Pump 1, NextMessage] sample_rendezvous") simp
  have "rv_ok sample_rendezvous"
    by (simp add: rv_ok_def sample_rendezvous_def)
  from rendezvous_delivers_in_order [OF this run] show ?thesis by simp
qed

end
