(* ===== verification/Wormhole.thy ===== *)
theory Wormhole
  imports Rendezvous
begin

text \<open>
  The short-code channel (\<open>wormhole/protocol.rs\<close>): settings, short codes, the password-key
  exchange, and the encrypted messages numbered by phase, carried by the rendezvous client. The
  SPAKE2 exchange (its outgoing message and its completion), the random nonces and the word list are
  arguments.
\<close>

section \<open>Settings and short codes\<close>

definition WORMHOLE_APP_ID :: string where "WORMHOLE_APP_ID = ''com.rexvane.inkhole/transport-v2''"

definition DEFAULT_RENDEZVOUS_URL :: string where
  "DEFAULT_RENDEZVOUS_URL = ''wss://relay.magic-wormhole.io/v1''"

definition DEFAULT_TRANSIT_RELAY :: string where
  "DEFAULT_TRANSIT_RELAY = ''transit.magic-wormhole.io:4001''"

definition WORMHOLE_PROTOCOL_VERSION :: nat where "WORMHOLE_PROTOCOL_VERSION = 2"

definition MAX_CODE_LENGTH :: nat where "MAX_CODE_LENGTH = 160"

definition SHORT_CODE_WORDS :: nat where "SHORT_CODE_WORDS = 3"

record wormhole_settings =
  ws_rendezvous_url :: string
  ws_transit_relay :: string

definition valid_host_port :: "string \<Rightarrow> bool" where
  "valid_host_port value =
     (case rsplit_once CHR '':'' value of
        None \<Rightarrow> False
      | Some (host, port) \<Rightarrow>
          host \<noteq> [] \<and> (case parse_u16 port of Some p \<Rightarrow> 0 < p | None \<Rightarrow> False))"

definition or_default :: "string \<Rightarrow> string \<Rightarrow> string" where
  "or_default d s = (if s = [] then d else s)"

definition normalize_settings :: "wormhole_settings \<Rightarrow> wormhole_settings result" where
  "normalize_settings given =
     (let url = or_default DEFAULT_RENDEZVOUS_URL (trim (ws_rendezvous_url given)) in
      reject_if (case split_once_str ''://'' url of Some (scheme, _) \<Rightarrow> \<not> valid_scheme scheme | None \<Rightarrow> True)
        (InvalidRequest ''rendezvous URL must use ws:// or wss://'')
      (let relay = or_default DEFAULT_TRANSIT_RELAY (trim (ws_transit_relay given)) in
       reject_if (\<not> valid_host_port relay) (InvalidRequest ''transit relay must use host:port'')
       (Inr \<lparr>ws_rendezvous_url = url, ws_transit_relay = relay\<rparr>)))"

definition is_lower_letter :: "char \<Rightarrow> bool" where
  "is_lower_letter c = (let n = (of_char c :: nat) in 97 \<le> n \<and> n \<le> 122)"

definition code_char :: "char \<Rightarrow> bool" where
  "code_char c = (is_lower_letter c \<or> is_digit c \<or> c = CHR ''-'')"

definition normalize_code :: "string \<Rightarrow> string result" where
  "normalize_code raw =
     (let code = to_ascii_lowercase (trim raw) in
      reject_if (code = [] \<or> MAX_CODE_LENGTH < length code \<or> \<not> list_all code_char code)
        (InvalidRequest ''short code is invalid'')
      (let components = split_on CHR ''-'' code; nameplate = hd components; words = tl components in
       reject_if (nameplate = [] \<or> \<not> list_all is_digit nameplate \<or> length words < 2 \<or> [] \<in> set words)
         (InvalidRequest ''short code is incomplete'')
       (Inr code)))"

text \<open>The words of the code are picked by the given indices.\<close>

definition generate_code :: "string list \<Rightarrow> nat list \<Rightarrow> string \<Rightarrow> string" where
  "generate_code word_list picks nameplate =
     nameplate @ CHR ''-'' # join_with CHR ''-'' (map (\<lambda>i. word_list ! i) (take SHORT_CODE_WORDS picks))"

section \<open>Keys and phases\<close>

datatype peer_role = SenderRole | ReceiverRole

fun opposite :: "peer_role \<Rightarrow> peer_role" where
  "opposite SenderRole = ReceiverRole"
| "opposite ReceiverRole = SenderRole"

fun peer_role_json :: "peer_role \<Rightarrow> jvalue" where
  "peer_role_json SenderRole = JStr ''sender''"
| "peer_role_json ReceiverRole = JStr ''receiver''"

definition as_peer_role :: "jvalue \<Rightarrow> peer_role result" where
  "as_peer_role v =
     bind_r (as_variant v) (\<lambda>s. if s = ''sender'' then Inr SenderRole
                            else if s = ''receiver'' then Inr ReceiverRole else Inl json_error)"

definition version_envelope_json :: "nat \<Rightarrow> peer_role \<Rightarrow> jvalue" where
  "version_envelope_json protocol role =
     JObj [(''inkhole_v2'', JObj [(''protocol'', jnat protocol), (''role'', peer_role_json role)])]"

definition as_version_envelope :: "jvalue \<Rightarrow> (nat \<times> peer_role) result" where
  "as_version_envelope v =
     bind_r (as_struct [''inkhole_v2''] [] v) (\<lambda>kvs.
     field ''inkhole_v2'' (\<lambda>w.
       bind_r (as_struct [''protocol'', ''role''] [] w) (\<lambda>info.
       bind_r (field ''protocol'' (as_unsigned u16_max) info) (\<lambda>protocol.
       bind_r (field ''role'' as_peer_role info) (\<lambda>role. Inr (protocol, role))))) kvs)"

text \<open>The output length is fixed and valid, so the expansion cannot fail.\<close>

definition derive_key :: "crates \<Rightarrow> bytes \<Rightarrow> bytes \<Rightarrow> bytes" where
  "derive_key E input purpose = hkdf_sha256 E input purpose"

definition derive_phase_key :: "crates \<Rightarrow> bytes \<Rightarrow> string \<Rightarrow> string \<Rightarrow> bytes" where
  "derive_phase_key E shared_key side phase =
     derive_key E shared_key
       (str_bytes ''wormhole:phase:'' @ sha256 E (str_bytes side) @ sha256 E (str_bytes phase))"

definition transit_key :: "crates \<Rightarrow> bytes \<Rightarrow> bytes" where
  "transit_key E shared_key = derive_key E shared_key (str_bytes (WORMHOLE_APP_ID @ ''/transit-key''))"

text \<open>The body of a message: nonce and sealed JSON, in hexadecimal.\<close>

definition seal_phase :: "crates \<Rightarrow> bytes \<Rightarrow> string \<Rightarrow> string \<Rightarrow> bytes \<Rightarrow> jvalue \<Rightarrow> string" where
  "seal_phase E shared_key side phase nonce value =
     hex_encode E (nonce @ secretbox_encrypt E (derive_phase_key E shared_key side phase) nonce (to_vec E value))"

definition open_phase :: "crates \<Rightarrow> bytes \<Rightarrow> string \<Rightarrow> mailbox_message \<Rightarrow> jvalue result" where
  "open_phase E shared_key expected_phase message =
     reject_if (mm_phase message \<noteq> expected_phase)
       (Protocol (''expected wormhole phase '' @ expected_phase @ '', received '' @ mm_phase message))
     (bind_r (ok_or (hex_decode E (mm_body message))
         (Protocol ''encrypted wormhole message is not hexadecimal'')) (\<lambda>envelope.
      reject_if (length envelope < 24 + 16) (Protocol ''encrypted wormhole message is truncated'')
      (bind_r (ok_or (secretbox_decrypt E (derive_phase_key E shared_key (mm_side message) (mm_phase message))
                        (take 24 envelope) (drop 24 envelope))
          (Crypto ''decrypt wormhole control message failed'')) (\<lambda>plaintext.
       from_slice E plaintext))))"

section \<open>The channel\<close>

record wormhole_protocol =
  wp_rendezvous :: rendezvous
  wp_shared_key :: bytes
  wp_send_phase :: nat
  wp_receive_phase :: nat
  wp_nonces :: "nat \<Rightarrow> bytes"
  wp_next_nonce :: nat

type_synonym 'a wp = "wormhole_protocol \<Rightarrow> 'a result \<times> wormhole_protocol"

text \<open>An operation of the rendezvous client inside the channel.\<close>

definition on_rendezvous :: "'a rv \<Rightarrow> 'a wp" where
  "on_rendezvous m p = (let (r, s) = m (wp_rendezvous p) in (r, p\<lparr>wp_rendezvous := s\<rparr>))"

definition wp_send_phase_message :: "crates \<Rightarrow> string \<Rightarrow> jvalue \<Rightarrow> unit wp" where
  "wp_send_phase_message E phase value p =
     on_rendezvous
       (add_message E phase (seal_phase E (wp_shared_key p) (rv_side_id (wp_rendezvous p)) phase
          (wp_nonces p (wp_next_nonce p)) value))
       (p\<lparr>wp_next_nonce := Suc (wp_next_nonce p)\<rparr>)"

definition wp_receive_phase_message :: "crates \<Rightarrow> string \<Rightarrow> jvalue wp" where
  "wp_receive_phase_message E expected_phase p =
     (case on_rendezvous (next_peer_message E) p of
        (Inl err, p') \<Rightarrow> (Inl err, p')
      | (Inr message, p') \<Rightarrow> (open_phase E (wp_shared_key p') expected_phase message, p'))"

definition wp_send :: "crates \<Rightarrow> jvalue \<Rightarrow> unit wp" where
  "wp_send E value p =
     (if u32_max \<le> wp_send_phase p then (Inl (Protocol ''outgoing phase counter exhausted''), p)
      else wp_send_phase_message E (dec (wp_send_phase p)) value (p\<lparr>wp_send_phase := wp_send_phase p + 1\<rparr>))"

definition wp_receive :: "crates \<Rightarrow> jvalue wp" where
  "wp_receive E p =
     (if u32_max \<le> wp_receive_phase p then (Inl (Protocol ''incoming phase counter exhausted''), p)
      else wp_receive_phase_message E (dec (wp_receive_phase p)) (p\<lparr>wp_receive_phase := wp_receive_phase p + 1\<rparr>))"

text \<open>The key exchange: \<open>outbound\<close> and \<open>finish\<close> are the SPAKE2 state for the code.\<close>

definition peer_pake :: "crates \<Rightarrow> (bytes \<Rightarrow> string + bytes) \<Rightarrow> mailbox_message \<Rightarrow> bytes result" where
  "peer_pake E finish message =
     reject_if (mm_phase message \<noteq> ''pake'')
       (Protocol (''expected PAKE phase, received '' @ mm_phase message))
     (bind_r (ok_or (hex_decode E (mm_body message)) (Protocol ''peer PAKE envelope is not hexadecimal'')) (\<lambda>pake_json.
      bind_r (from_slice E pake_json) (\<lambda>pake_value.
      bind_r (ok_or (Option.bind (value_get ''pake_v1'' pake_value) value_as_str)
          (Protocol ''peer PAKE envelope is invalid'')) (\<lambda>text.
      bind_r (ok_or (hex_decode E text) (Protocol ''peer PAKE value is not hexadecimal'')) (\<lambda>peer_outbound.
      bind_r (case finish peer_outbound of
          Inl error \<Rightarrow> Inl (Crypto (''SPAKE2 failed: '' @ error)) | Inr key \<Rightarrow> Inr key) (\<lambda>key.
      reject_if (length key \<noteq> 32) (Crypto ''SPAKE2 returned an invalid key length'') (Inr key)))))))"

definition pake_body :: "crates \<Rightarrow> bytes \<Rightarrow> string" where
  "pake_body E outbound = hex_encode E (to_vec E (JObj [(''pake_v1'', JStr (hex_encode E outbound))]))"

definition establish ::
  "crates \<Rightarrow> bytes \<Rightarrow> (bytes \<Rightarrow> string + bytes) \<Rightarrow> (nat \<Rightarrow> bytes) \<Rightarrow> peer_role \<Rightarrow> rendezvous
    \<Rightarrow> wormhole_protocol result" where
  "establish E outbound finish nonces role s =
     (case rv_bind (add_message E ''pake'' (pake_body E outbound)) (\<lambda>_. next_peer_message E) s of
        (Inl err, _) \<Rightarrow> Inl err
      | (Inr message, s1) \<Rightarrow>
          bind_r (peer_pake E finish message) (\<lambda>key.
            (let p = \<lparr>wp_rendezvous = s1, wp_shared_key = key, wp_send_phase = 0, wp_receive_phase = 0,
                      wp_nonces = nonces, wp_next_nonce = 0\<rparr> in
             case wp_send_phase_message E ''version''
                    (version_envelope_json WORMHOLE_PROTOCOL_VERSION role) p of
               (Inl err, _) \<Rightarrow> Inl err
             | (Inr _, p1) \<Rightarrow>
                 (case wp_receive_phase_message E ''version'' p1 of
                    (Inl err, _) \<Rightarrow> Inl err
                  | (Inr value, p2) \<Rightarrow>
                      bind_r (as_version_envelope value) (\<lambda>(protocol, peer).
                        reject_if (protocol \<noteq> WORMHOLE_PROTOCOL_VERSION \<or> peer \<noteq> opposite role)
                          (Protocol ''peer does not support InkHole short-code V2'')
                          (Inr p2))))))"

section \<open>Short codes\<close>

lemma code_char_not_space: "code_char c \<Longrightarrow> c \<notin> ws_chars"
  by (auto simp: code_char_def is_lower_letter_def is_digit_def ws_chars_def ws_encodings_def Let_def)

lemma code_char_lower: "code_char c \<Longrightarrow> ascii_lower_char c = c"
  by (auto simp: code_char_def is_lower_letter_def is_digit_def ascii_lower_char_def Let_def)

lemma code_fixed: "list_all code_char code \<Longrightarrow> to_ascii_lowercase (trim code) = code"
proof -
  assume ok: "list_all code_char code"
  then have "set code \<inter> ws_chars = {}"
    using code_char_not_space by (auto simp: list_all_iff)
  moreover have "map ascii_lower_char code = code"
    using ok code_char_lower by (simp add: list_all_iff map_idI)
  ultimately show ?thesis by (simp add: trim_disjoint to_ascii_lowercase_def)
qed

lemma split_code:
  assumes "CHR ''-'' \<notin> set nameplate" and "\<forall>w\<in>set words. CHR ''-'' \<notin> set w" and "words \<noteq> []"
  shows "split_on CHR ''-'' (nameplate @ CHR ''-'' # join_with CHR ''-'' words) = nameplate # words"
  using assms by (simp add: split_on_append split_on_join_with)

lemma normalize_code_fixed: "normalize_code raw = Inr code \<Longrightarrow> normalize_code code = Inr code"
proof -
  assume n: "normalize_code raw = Inr code"
  then have "list_all code_char code"
    by (auto simp: normalize_code_def Let_def result_simps)
  then have "to_ascii_lowercase (trim code) = code"
    by (rule code_fixed)
  moreover have "to_ascii_lowercase (trim raw) = code"
    using n by (auto simp: normalize_code_def Let_def result_simps)
  ultimately show ?thesis using n by (simp add: normalize_code_def Let_def)
qed

lemma join_with_chars: "set (join_with c ps) \<subseteq> insert c (\<Union>p\<in>set ps. set p)"
  by (induction ps rule: induct_list012) (auto simp: join_with_def)

definition code_words :: "string list \<Rightarrow> nat list \<Rightarrow> string list" where
  "code_words word_list picks = map (\<lambda>i. word_list ! i) (take SHORT_CODE_WORDS picks)"

text \<open>The short code a sender shows is what its peer joins with, however it is typed: any
  spelling of a generated code in other letter case or with surrounding white space normalises to
  the code itself, provided the code fits the limit, and normalising is idempotent.\<close>

theorem short_code_normal_form:
  assumes "nameplate \<noteq> []" and "list_all is_digit nameplate" and "SHORT_CODE_WORDS \<le> length picks"
    and "\<forall>w\<in>set (code_words word_list picks). w \<noteq> [] \<and> list_all is_lower_letter w"
    and "length (generate_code word_list picks nameplate) \<le> MAX_CODE_LENGTH"
    and "to_ascii_lowercase (trim typed) = generate_code word_list picks nameplate"
  shows "normalize_code typed = Inr (generate_code word_list picks nameplate)
    \<and> normalize_code (generate_code word_list picks nameplate) = Inr (generate_code word_list picks nameplate)"
proof -
  define words where "words = code_words word_list picks"
  define code where "code = nameplate @ CHR ''-'' # join_with CHR ''-'' words"
  have gen: "generate_code word_list picks nameplate = code"
    by (simp add: generate_code_def code_def words_def code_words_def)
  have len: "length words = 3"
    using assms(3) by (simp add: words_def code_words_def SHORT_CODE_WORDS_def)
  have dash: "\<not> is_digit CHR ''-''" "\<not> is_lower_letter CHR ''-''"
    by (simp_all add: is_digit_def is_lower_letter_def)
  have "list_all code_char nameplate"
    using assms(2) by (auto simp: list_all_iff code_char_def)
  moreover have "list_all code_char (join_with CHR ''-'' words)"
    using join_with_chars [of "CHR ''-''" words] assms(4)
    by (fastforce simp: list_all_iff code_char_def words_def)
  ultimately have chars: "list_all code_char code"
    by (simp add: code_def code_char_def)
  have "split_on CHR ''-'' code = nameplate # words"
    unfolding code_def
    by (rule split_code) (use assms(2,4) len dash in \<open>auto simp: list_all_iff words_def\<close>)
  moreover have "[] \<notin> set words" using assms(4) by (auto simp: words_def)
  ultimately have "normalize_code typed = Inr code"
    using assms(1,2,5,6) chars len
    by (simp add: normalize_code_def Let_def gen code_def [symmetric])
      (auto simp: reject_if_def code_def)
  then show ?thesis using normalize_code_fixed gen by simp
qed

theorem short_code_normal_form_witness:
  "normalize_code '' 7-Acid-able-ZOO '' = Inr ''7-acid-able-zoo''"
proof -
  have code: "generate_code [''able'', ''acid'', ''zoo''] [1, 0, 2] ''7'' = ''7-acid-able-zoo''"
    by (simp add: generate_code_def SHORT_CODE_WORDS_def join_with_def)
  have "to_ascii_lowercase (trim '' 7-Acid-able-ZOO '') = ''7-acid-able-zoo''"
    by code_simp
  then show ?thesis
    using short_code_normal_form [of "''7''" "[1, 0, 2]" "[''able'', ''acid'', ''zoo'']" "'' 7-Acid-able-ZOO ''"]
    unfolding code
    by (simp add: is_digit_def SHORT_CODE_WORDS_def code_words_def is_lower_letter_def MAX_CODE_LENGTH_def)
qed

section \<open>The encrypted channel\<close>

lemma open_seal:
  assumes "secretbox_correct E" and "json_roundtrip E" and "hex_roundtrip E" and "length nonce = 24"
  shows "open_phase E key phase \<lparr>mm_side = side, mm_phase = phase, mm_body = seal_phase E key side phase nonce value\<rparr>
    = Inr value"
  using assms
  by (simp add: open_phase_def seal_phase_def hex_roundtrip_def secretbox_correct_def json_roundtrip_def
      from_slice_def to_vec_def)

text \<open>The messages that consecutive sends of one side put into the mailbox.\<close>

fun sealed_messages ::
  "crates \<Rightarrow> bytes \<Rightarrow> string \<Rightarrow> nat \<Rightarrow> (bytes \<times> jvalue) list \<Rightarrow> mailbox_message list" where
  "sealed_messages E key side i [] = []"
| "sealed_messages E key side i ((nonce, value) # rest) =
     \<lparr>mm_side = side, mm_phase = dec i, mm_body = seal_phase E key side (dec i) nonce value\<rparr>
       # sealed_messages E key side (Suc i) rest"

fun receive_many :: "crates \<Rightarrow> nat \<Rightarrow> jvalue list wp" where
  "receive_many E 0 p = (Inr [], p)"
| "receive_many E (Suc n) p =
     (case wp_receive E p of
        (Inl err, p') \<Rightarrow> (Inl err, p')
      | (Inr v, p') \<Rightarrow>
          (case receive_many E n p' of
             (Inl err, p'') \<Rightarrow> (Inl err, p'')
           | (Inr vs, p'') \<Rightarrow> (Inr (v # vs), p'')))"

lemma wp_receive_next:
  assumes "rv_ok (wp_rendezvous p)" and "wp_receive E p = (Inr v, p')"
  shows "\<exists>m. peer_stream E (wp_rendezvous p) = m # peer_stream E (wp_rendezvous p')
    \<and> open_phase E (wp_shared_key p) (dec (wp_receive_phase p)) m = Inr v
    \<and> rv_ok (wp_rendezvous p') \<and> wp_shared_key p' = wp_shared_key p
    \<and> wp_receive_phase p' = Suc (wp_receive_phase p)"
proof -
  obtain m s where got: "next_peer_message E (wp_rendezvous p) = (Inr m, s)"
    and v: "open_phase E (wp_shared_key p) (dec (wp_receive_phase p)) m = Inr v"
    and p': "p' = p\<lparr>wp_receive_phase := wp_receive_phase p + 1, wp_rendezvous := s\<rparr>"
    using assms(2)
    by (auto simp: wp_receive_def wp_receive_phase_message_def on_rendezvous_def Let_def
        split: if_splits prod.splits sum.splits)
  from consumesD [OF consumes_next assms(1) got] v show ?thesis by (auto simp: p')
qed

lemma open_phase_phase: "open_phase E key phase m = Inr v \<Longrightarrow> mm_phase m = phase"
  by (auto simp: open_phase_def result_simps)

lemma receive_many_phases:
  assumes "rv_ok (wp_rendezvous p)" and "receive_many E n p = (Inr vs, p')"
  shows "\<exists>ms. peer_stream E (wp_rendezvous p) = ms @ peer_stream E (wp_rendezvous p')
    \<and> map mm_phase ms = map dec [wp_receive_phase p ..< wp_receive_phase p + n]
    \<and> map (\<lambda>m. open_phase E (wp_shared_key p) (mm_phase m) m) ms = map Inr vs
    \<and> wp_receive_phase p' = wp_receive_phase p + n"
  using assms
proof (induction n arbitrary: p vs)
  case (Suc n)
  obtain v ws p1 where first: "wp_receive E p = (Inr v, p1)" and later: "receive_many E n p1 = (Inr ws, p')"
    and vs: "vs = v # ws"
    using Suc.prems(2) by (auto split: prod.splits sum.splits)
  obtain m where m: "peer_stream E (wp_rendezvous p) = m # peer_stream E (wp_rendezvous p1)"
    "open_phase E (wp_shared_key p) (dec (wp_receive_phase p)) m = Inr v" "rv_ok (wp_rendezvous p1)"
    "wp_shared_key p1 = wp_shared_key p" "wp_receive_phase p1 = Suc (wp_receive_phase p)"
    using wp_receive_next [OF Suc.prems(1) first] by blast
  obtain ms where ms: "peer_stream E (wp_rendezvous p1) = ms @ peer_stream E (wp_rendezvous p')"
    "map mm_phase ms = map dec [wp_receive_phase p1 ..< wp_receive_phase p1 + n]"
    "map (\<lambda>m. open_phase E (wp_shared_key p1) (mm_phase m) m) ms = map Inr ws"
    "wp_receive_phase p' = wp_receive_phase p1 + n"
    using Suc.IH [OF m(3) later] by blast
  have "[wp_receive_phase p ..< wp_receive_phase p + Suc n]
      = wp_receive_phase p # [Suc (wp_receive_phase p) ..< Suc (wp_receive_phase p) + n]"
    by (simp add: upt_rec)
  then show ?case
    using m ms vs open_phase_phase [OF m(2)] by (intro exI [of _ "m # ms"]) simp
qed simp

lemma sealed_opened:
  assumes "secretbox_correct E" and "json_roundtrip E" and "hex_roundtrip E"
    and "\<forall>nv\<in>set nvs. length (fst nv) = 24"
  shows "map (\<lambda>m. open_phase E key (mm_phase m) m) (sealed_messages E key side i nvs) = map Inr (map snd nvs)"
  using assms(4)
  by (induction nvs arbitrary: i) (auto simp: open_seal [OF assms(1-3)])

lemma length_sealed [simp]: "length (sealed_messages E key side i nvs) = length nvs"
  by (induction E key side i nvs rule: sealed_messages.induct) auto

text \<open>The encrypted channel delivers what the peer sent, in order and once: when the messages still
  to come begin with those the other side sealed under the shared key from the expected phase on,
  any successful run of as many receptions yields exactly the values it sent, in order, leaves the
  rest untouched and advances the phase by their number, whatever pings, acknowledgements and
  commands the mailbox connection carries in between.\<close>

theorem wormhole_channel_in_order:
  assumes "secretbox_correct E" and "json_roundtrip E" and "hex_roundtrip E" and "rv_ok (wp_rendezvous p)"
    and "\<forall>nv\<in>set nvs. length (fst nv) = 24"
    and "peer_stream E (wp_rendezvous p)
      = sealed_messages E (wp_shared_key p) side (wp_receive_phase p) nvs @ rest"
    and "receive_many E (length nvs) p = (Inr vs, p')"
  shows "vs = map snd nvs \<and> peer_stream E (wp_rendezvous p') = rest
    \<and> wp_receive_phase p' = wp_receive_phase p + length nvs"
proof -
  obtain ms where ms: "peer_stream E (wp_rendezvous p) = ms @ peer_stream E (wp_rendezvous p')"
    "map mm_phase ms = map dec [wp_receive_phase p ..< wp_receive_phase p + length nvs]"
    "map (\<lambda>m. open_phase E (wp_shared_key p) (mm_phase m) m) ms = map Inr vs"
    "wp_receive_phase p' = wp_receive_phase p + length nvs"
    using receive_many_phases [OF assms(4,7)] by blast
  have "length ms = length nvs"
    using arg_cong [OF ms(2), of length] by simp
  then have same: "ms = sealed_messages E (wp_shared_key p) side (wp_receive_phase p) nvs"
    and rest: "peer_stream E (wp_rendezvous p') = rest"
    using ms(1) assms(6) by (simp_all add: append_eq_append_conv)
  have "map (Inr :: jvalue \<Rightarrow> jvalue result) vs = map Inr (map snd nvs)"
    using ms(3) sealed_opened [OF assms(1-3,5)] unfolding same by metis
  then have "vs = map snd nvs"
    by (simp only: inj_map_eq_map [OF inj_Inr])
  then show ?thesis using rest ms(4) by simp
qed

definition sample_channel :: "jvalue \<Rightarrow> wormhole_protocol" where
  "sample_channel value =
     \<lparr>wp_rendezvous = sample_rendezvous
        \<lparr>rv_inbound := [], rv_mailbox := sealed_messages sample_crates [9] ''you'' 5 [(replicate 24 1, value)]\<rparr>,
      wp_shared_key = [9], wp_send_phase = 0, wp_receive_phase = 5, wp_nonces = (\<lambda>_. replicate 24 0),
      wp_next_nonce = 0\<rparr>"

theorem wormhole_channel_in_order_witness:
  "fst (receive_many sample_crates 1 (sample_channel (JStr ''hello''))) = Inr [JStr ''hello'']"
proof -
  let ?p = "sample_channel (JStr ''hello'')"
  have nonce: "length (replicate 24 (1 :: byte)) = 24" by simp
  have ok: "rv_ok (wp_rendezvous ?p)"
    by (simp add: rv_ok_def sample_channel_def sample_rendezvous_def MAX_PENDING_MESSAGES_def)
  have stream: "peer_stream sample_crates (wp_rendezvous ?p)
      = sealed_messages sample_crates (wp_shared_key ?p) ''you'' (wp_receive_phase ?p)
          [(replicate 24 1, JStr ''hello'')] @ []"
    by (simp add: peer_stream_def sample_channel_def)
  obtain vs p' where run: "receive_many sample_crates 1 ?p = (Inr vs, p')"
    using open_seal [OF sample_secretbox(1) sample_json_roundtrip sample_hex_roundtrip nonce, of "[9]" "dec 5" "''you''" "JStr ''hello''"]
    by (simp add: wp_receive_def wp_receive_phase_message_def on_rendezvous_def sample_channel_def
        next_peer_message.simps sample_rendezvous_def rv_bind_def rv_return_def u32_max_def Let_def)
  show ?thesis
    using wormhole_channel_in_order [OF sample_secretbox(1) sample_json_roundtrip sample_hex_roundtrip ok _ stream, of vs p'] run
    by simp
qed

end
