(* ===== verification/Tunnel.thy ===== *)
theory Tunnel
  imports Wormhole Announce
begin

text \<open>
  The UDP tunnel over a relayed stream (\<open>wormhole/tunnel.rs\<close>): numbered, sealed records, the
  bounded write queue, and the sender's and the receiver's loops as step functions on the events
  of their \<open>select!\<close>. The stream is the list of bytes still to be read; a stream that ends
  early is the I/O error of the reader.
\<close>

section \<open>Records\<close>

definition MAX_DATAGRAM :: nat where "MAX_DATAGRAM = 64 * 1024"

definition NONCE_SIZE :: nat where "NONCE_SIZE = 24"

definition TAG_SIZE :: nat where "TAG_SIZE = 16"

definition MAX_RECORD :: nat where "MAX_RECORD = NONCE_SIZE + TAG_SIZE + MAX_DATAGRAM"

definition WRITE_QUEUE :: nat where "WRITE_QUEUE = 1024"

definition WRITE_BATCH_DATAGRAMS :: nat where "WRITE_BATCH_DATAGRAMS = 128"

definition PEER_IDLE_REPLACE :: nat where "PEER_IDLE_REPLACE = 5000"

definition record_nonce :: "nat \<Rightarrow> bytes" where
  "record_nonce counter = replicate (NONCE_SIZE - 8) 0 @ be_bytes 8 counter"

text \<open>A record writer or reader is its key and its counter.\<close>

record record_end =
  re_key :: bytes
  re_counter :: nat

definition write_record :: "crates \<Rightarrow> bytes \<Rightarrow> record_end \<Rightarrow> (bytes \<times> record_end) result" where
  "write_record E payload w =
     reject_if (MAX_DATAGRAM < length payload \<or> re_counter w = u64_max)
       (Protocol ''UDP tunnel record is too large'')
     (let nonce = record_nonce (re_counter w);
          ciphertext = secretbox_encrypt E (re_key w) nonce payload;
          record_len = NONCE_SIZE + length ciphertext in
      reject_if (MAX_RECORD < record_len) (Protocol ''UDP tunnel record exceeded limit'')
      (Inr (be_bytes 4 record_len @ nonce @ ciphertext, w\<lparr>re_counter := re_counter w + 1\<rparr>)))"

fun write_records :: "crates \<Rightarrow> bytes list \<Rightarrow> record_end \<Rightarrow> (bytes \<times> record_end) result" where
  "write_records E [] w = Inr ([], w)"
| "write_records E (payload # rest) w =
     bind_r (write_record E payload w) (\<lambda>(bs, w1).
     bind_r (write_records E rest w1) (\<lambda>(bs', w2). Inr (bs @ bs', w2)))"

definition read_record :: "crates \<Rightarrow> record_end \<Rightarrow> bytes \<Rightarrow> (bytes \<times> record_end \<times> bytes) result" where
  "read_record E r bs =
     bind_r (read_u32 bs) (\<lambda>(record_len, bs1).
     reject_if (record_len < NONCE_SIZE + TAG_SIZE \<or> MAX_RECORD < record_len)
       (Protocol (''invalid UDP tunnel record length: '' @ dec record_len))
     (bind_r (read_exact NONCE_SIZE bs1) (\<lambda>(nonce, bs2).
      reject_if (list_ex (\<lambda>b. b \<noteq> 0) (take (NONCE_SIZE - 8) nonce)
                 \<or> be_value (drop (NONCE_SIZE - 8) nonce) \<noteq> re_counter r)
        (Protocol ''UDP tunnel nonce is out of order'')
      (bind_r (read_exact (record_len - NONCE_SIZE) bs2) (\<lambda>(ciphertext, bs3).
       bind_r (ok_or (secretbox_decrypt E (re_key r) nonce ciphertext)
           (Crypto ''decrypt UDP tunnel record failed'')) (\<lambda>payload.
         Inr (payload, r\<lparr>re_counter := re_counter r + 1\<rparr>, bs3)))))))"

text \<open>The reader task: payloads until the first error, which it passes on as its last message.\<close>

lemma read_record_shrinks: "read_record E r bs = Inr (payload, r', rest) \<Longrightarrow> length rest < length bs"
  by (auto simp: read_record_def read_u32_def result_simps read_exact_def NONCE_SIZE_def TAG_SIZE_def
      split: if_splits)

function read_records :: "crates \<Rightarrow> record_end \<Rightarrow> bytes \<Rightarrow> bytes list \<times> core_error" where
  "read_records E r bs =
     (case read_record E r bs of
        Inl err \<Rightarrow> ([], err)
      | Inr (payload, r', rest) \<Rightarrow> (let (payloads, err) = read_records E r' rest in (payload # payloads, err)))"
  by pat_completeness auto
termination
  by (relation "measure (\<lambda>(E, r, bs). length bs)") (auto dest: read_record_shrinks)

declare read_records.simps [simp del]

definition stream_ended :: "core_error \<Rightarrow> bool" where
  "stream_ended err =
     (err = Io UnexpectedEof \<or> err = Io ConnectionReset \<or> err = Io ConnectionAborted \<or> err = Io BrokenPipe)"

section \<open>Correctness of the records\<close>

lemma length_record_nonce [simp]: "length (record_nonce n) = NONCE_SIZE"
  by (simp add: record_nonce_def NONCE_SIZE_def)

lemma record_nonce_parts [simp]:
  "take (NONCE_SIZE - 8) (record_nonce n) = replicate (NONCE_SIZE - 8) 0"
  "n \<le> u64_max \<Longrightarrow> be_value (drop (NONCE_SIZE - 8) (record_nonce n)) = n"
  by (simp_all add: record_nonce_def NONCE_SIZE_def be_value_be_bytes u64_max_def)

lemma record_nonce_inj: "n \<le> u64_max \<Longrightarrow> m \<le> u64_max \<Longrightarrow> record_nonce n = record_nonce m \<Longrightarrow> n = m"
  by (metis record_nonce_parts(2))

lemma nonce_determined:
  assumes "length nonce = NONCE_SIZE" and "\<not> list_ex (\<lambda>b. b \<noteq> 0) (take (NONCE_SIZE - 8) nonce)"
    and "be_value (drop (NONCE_SIZE - 8) nonce) = n"
  shows "nonce = record_nonce n"
proof -
  have "take (NONCE_SIZE - 8) nonce = replicate (NONCE_SIZE - 8) 0"
    using assms(1,2) by (intro replicate_eqI) (auto simp: list_ex_iff NONCE_SIZE_def)
  moreover have "drop (NONCE_SIZE - 8) nonce = be_bytes 8 n"
    using be_bytes_be_value [of "drop (NONCE_SIZE - 8) nonce"] assms(1,3) by (simp add: NONCE_SIZE_def)
  ultimately show ?thesis
    unfolding record_nonce_def by (metis append_take_drop_id)
qed

lemma write_record_Inr:
  assumes "write_record E payload w = Inr (bs, w')"
  shows "re_counter w < u64_max \<or> u64_max < re_counter w" and "length payload \<le> MAX_DATAGRAM"
    and "w' = w\<lparr>re_counter := Suc (re_counter w)\<rparr>"
    and "bs = be_bytes 4 (NONCE_SIZE + length (secretbox_encrypt E (re_key w) (record_nonce (re_counter w)) payload))
          @ record_nonce (re_counter w) @ secretbox_encrypt E (re_key w) (record_nonce (re_counter w)) payload"
  using assms by (auto simp: write_record_def Let_def result_simps)

lemma read_write_record:
  assumes "secretbox_correct E" and "write_record E payload w = Inr (bs, w')" and "re_counter w \<le> u64_max"
    and "re_key r = re_key w" and "re_counter r = re_counter w"
  shows "read_record E r (bs @ rest) = Inr (payload, r\<lparr>re_counter := Suc (re_counter r)\<rparr>, rest)"
proof -
  note w = write_record_Inr [OF assms(2)]
  have "length (secretbox_encrypt E (re_key w) (record_nonce (re_counter w)) payload) = length payload + TAG_SIZE"
    using assms(1) by (simp add: secretbox_correct_def TAG_SIZE_def)
  moreover have "NONCE_SIZE + (length payload + TAG_SIZE) < 2 ^ 32"
    using w(2) by (simp add: MAX_DATAGRAM_def NONCE_SIZE_def TAG_SIZE_def)
  ultimately show ?thesis
    using assms w(2)
    by (simp add: w(4) read_record_def MAX_RECORD_def secretbox_correct_def list_ex_iff)
qed

lemma write_records_counter:
  "write_records E payloads w = Inr (bs, w') \<Longrightarrow> re_counter w' = re_counter w + length payloads \<and> re_key w' = re_key w"
proof (induction payloads arbitrary: w bs)
  case (Cons payload payloads)
  then obtain b1 w1 b2 where "write_record E payload w = Inr (b1, w1)" "write_records E payloads w1 = Inr (b2, w')"
    by (auto simp: result_simps)
  then show ?case using Cons.IH [of w1 b2] write_record_Inr(3) by fastforce
qed simp

lemma read_written:
  assumes "secretbox_correct E" and "write_records E payloads w = Inr (bs, w')"
    and "re_counter w + length payloads \<le> u64_max" and "re_key r = re_key w" and "re_counter r = re_counter w"
  shows "read_records E r bs = (payloads, Io UnexpectedEof)"
  using assms(2-5)
proof (induction payloads arbitrary: w r bs)
  case Nil
  then show ?case
    by (simp add: read_records.simps [of E r] read_record_def read_u32_def read_exact_def)
next
  case (Cons payload payloads)
  obtain b1 w1 b2 where first: "write_record E payload w = Inr (b1, w1)"
    and later: "write_records E payloads w1 = Inr (b2, w')" and bs: "bs = b1 @ b2"
    using Cons.prems(1) by (auto simp: result_simps)
  have w1: "re_counter w1 = Suc (re_counter w)" "re_key w1 = re_key w"
    using write_record_Inr(3) [OF first] by simp_all
  have "read_record E r bs = Inr (payload, r\<lparr>re_counter := Suc (re_counter r)\<rparr>, b2)"
    unfolding bs by (rule read_write_record [OF assms(1) first]) (use Cons.prems in simp_all)
  moreover have "read_records E (r\<lparr>re_counter := Suc (re_counter r)\<rparr>) b2 = (payloads, Io UnexpectedEof)"
    by (rule Cons.IH [OF later]) (use Cons.prems w1 in simp_all)
  ultimately show ?case by (simp add: read_records.simps [of E r])
qed

text \<open>
  What the authenticated cipher is documented to give to the holder of a key: nothing opens under it
  but what its owner sealed, here the payload number \<open>i\<close> under nonce \<open>i\<close>.
\<close>

definition sealed_only :: "crates \<Rightarrow> bytes \<Rightarrow> bytes list \<Rightarrow> bool" where
  "sealed_only E key sent \<longleftrightarrow>
     (\<forall>n c m. secretbox_decrypt E key n c = Some m \<longrightarrow> (\<exists>i<length sent. n = record_nonce i \<and> m = sent ! i))"

lemma read_record_genuine:
  assumes "sealed_only E (re_key r) sent" and "length sent \<le> u64_max" and "re_counter r \<le> u64_max"
    and "read_record E r bs = Inr (payload, r', rest)"
  shows "re_counter r < length sent \<and> payload = sent ! re_counter r \<and> r' = r\<lparr>re_counter := Suc (re_counter r)\<rparr>"
proof -
  obtain nonce c where nonce: "length nonce = NONCE_SIZE"
    "\<not> list_ex (\<lambda>b. b \<noteq> 0) (take (NONCE_SIZE - 8) nonce)" "be_value (drop (NONCE_SIZE - 8) nonce) = re_counter r"
    and c: "secretbox_decrypt E (re_key r) nonce c = Some payload" and r': "r' = r\<lparr>re_counter := Suc (re_counter r)\<rparr>"
    using assms(4) by (auto simp: read_record_def result_simps read_exact_Inr split: prod.splits)
  obtain i where i: "i < length sent" "nonce = record_nonce i" "payload = sent ! i"
    using assms(1) c unfolding sealed_only_def by blast
  have "i = re_counter r"
    using nonce_determined [OF nonce] i assms(2,3) by (intro record_nonce_inj) auto
  then show ?thesis using i r' by simp
qed

lemma read_records_genuine:
  assumes "sealed_only E (re_key r) sent" and "length sent \<le> u64_max" and "re_counter r \<le> length sent"
  shows "prefix (fst (read_records E r bs)) (drop (re_counter r) sent)"
  using assms(1,3)
proof (induction E r bs rule: read_records.induct)
  case (1 E r bs)
  show ?case
  proof (cases "read_record E r bs")
    case (Inl err)
    then show ?thesis by (simp add: read_records.simps [of E r bs])
  next
    case (Inr p)
    then obtain payload r' rest where read: "read_record E r bs = Inr (payload, r', rest)"
      by (cases p) auto
    have "re_counter r \<le> u64_max" using 1(3) assms(2) by simp
    note got = read_record_genuine [OF 1(2) assms(2) this read]
    have "prefix (fst (read_records E r' rest)) (drop (re_counter r') sent)"
      by (rule 1(1) [OF read refl refl]) (use 1(2,3) got in simp_all)
    moreover have "drop (re_counter r) sent = payload # drop (re_counter r') sent"
      using got by (simp add: Cons_nth_drop_Suc)
    ultimately show ?thesis by (simp add: read_records.simps [of E r bs] read split_def Let_def)
  qed
qed

text \<open>C25: A tunnel delivers to the far side a prefix of what was sent, and nothing else: whatever bytes
  an attacker on the relay puts on the stream, cut, repeated, reordered or made up, the payloads the
  record reader accepts are an initial part of the payloads the peer sealed, in order, provided
  nothing opens under the key but what the peer sealed with its own counter.\<close>

theorem tunnel_delivers_a_prefix:
  assumes "sealed_only E key sent" and "length sent \<le> u64_max"
  shows "prefix (fst (read_records E \<lparr>re_key = key, re_counter = 0\<rparr> stream)) sent"
  using read_records_genuine [of E "\<lparr>re_key = key, re_counter = 0\<rparr>" sent stream] assms by simp

definition sealing_crates :: "bytes list \<Rightarrow> crates" where
  "sealing_crates sent =
     sample_crates\<lparr>secretbox_decrypt := (\<lambda>k n c.
        (case filter (\<lambda>i. n = record_nonce i \<and> c = replicate 16 0 @ sent ! i) [0..<length sent] of
           [] \<Rightarrow> None | i # _ \<Rightarrow> Some (sent ! i)))\<rparr>"

lemma sealing_crates_only: "sealed_only (sealing_crates sent) key sent"
proof -
  have "\<exists>i<length sent. n = record_nonce i \<and> m = sent ! i"
    if "secretbox_decrypt (sealing_crates sent) key n c = Some m" for n c m
  proof -
    let ?is = "filter (\<lambda>i. n = record_nonce i \<and> c = replicate 16 0 @ sent ! i) [0..<length sent]"
    from that obtain i where "hd ?is = i" "?is \<noteq> []" "m = sent ! i"
      by (auto simp: sealing_crates_def split: list.splits)
    then have "i \<in> set ?is" using hd_in_set by blast
    then show ?thesis using \<open>m = sent ! i\<close> by auto
  qed
  then show ?thesis by (simp add: sealed_only_def)
qed

theorem tunnel_delivers_a_prefix_witness:
  "prefix (fst (read_records (sealing_crates [[5], [6]]) \<lparr>re_key = [1], re_counter = 0\<rparr>
     (be_bytes 4 41 @ record_nonce 1 @ replicate 16 0 @ [6]))) [[5], [6]]"
  by (rule tunnel_delivers_a_prefix [OF sealing_crates_only]) (simp add: u64_max_def)

section \<open>The loops\<close>

fun ip_loopback :: "ip_addr \<Rightarrow> bool" where
  "ip_loopback (IpV4 octets) = (octets \<noteq> [] \<and> hd octets = 127)"
| "ip_loopback (IpV6 octets) = (octets = replicate 15 0 @ [1])"

text \<open>
  The state of a tunnel task: the local peer and when it was last heard, the write queue, the
  record writer with what it has written to the stream, and how the task ended. The last field is
  the history of the datagrams that entered the queue.
\<close>

record tunnel =
  tu_peer :: "(socket_addr \<times> nat) option"
  tu_queue :: "bytes list"
  tu_writer :: record_end
  tu_stream :: bytes
  tu_status :: "unit result option"
  tu_entered :: "(socket_addr \<times> bytes) list"

datatype tunnel_event =
    TunnelCancelled
  | WriterEnded "unit result"
  | PeerReset "unit option"
  | DatagramArrived nat socket_addr bytes
  | RecordArrived "bytes result option"
  | WriterBatch nat

definition new_tunnel :: "bytes \<Rightarrow> tunnel" where
  "new_tunnel key =
     \<lparr>tu_peer = None, tu_queue = [], tu_writer = \<lparr>re_key = key, re_counter = 0\<rparr>, tu_stream = [],
      tu_status = None, tu_entered = []\<rparr>"

definition queue_write :: "socket_addr \<Rightarrow> bytes \<Rightarrow> tunnel \<Rightarrow> tunnel" where
  "queue_write address payload t =
     (if WRITE_QUEUE \<le> length (tu_queue t) then t
      else t\<lparr>tu_queue := tu_queue t @ [payload], tu_entered := tu_entered t @ [(address, payload)]\<rparr>)"

text \<open>One turn of the writer task: a batch of at most 128 queued datagrams becomes records.\<close>

definition write_batch :: "crates \<Rightarrow> nat \<Rightarrow> tunnel \<Rightarrow> tunnel" where
  "write_batch E n t =
     (let k = min n WRITE_BATCH_DATAGRAMS; batch = take k (tu_queue t) in
      case write_records E batch (tu_writer t) of
        Inl err \<Rightarrow> t\<lparr>tu_queue := drop k (tu_queue t), tu_status := Some (Inl err)\<rparr>
      | Inr (bs, w) \<Rightarrow> t\<lparr>tu_queue := drop k (tu_queue t), tu_writer := w, tu_stream := tu_stream t @ bs\<rparr>)"

text \<open>What an arriving record or the end of the reader does; \<open>target\<close> is where payloads go.\<close>

definition on_record :: "socket_addr option \<Rightarrow> bytes result option \<Rightarrow> tunnel \<Rightarrow> tunnel \<times> (socket_addr \<times> bytes) list" where
  "on_record target arrived t =
     (case arrived of
        None \<Rightarrow> (t\<lparr>tu_status := Some (Inr ())\<rparr>, [])
      | Some (Inl err) \<Rightarrow>
          (t\<lparr>tu_status := Some (if stream_ended err then Inr () else Inl err)\<rparr>, [])
      | Some (Inr payload) \<Rightarrow> (t, case target of None \<Rightarrow> [] | Some address \<Rightarrow> [(address, payload)]))"

definition sender_step :: "crates \<Rightarrow> tunnel \<Rightarrow> tunnel_event \<Rightarrow> tunnel \<times> (socket_addr \<times> bytes) list" where
  "sender_step E t ev =
     (if tu_status t \<noteq> None then (t, [])
      else (case ev of
        TunnelCancelled \<Rightarrow> (t\<lparr>tu_status := Some (Inr ())\<rparr>, [])
      | WriterEnded r \<Rightarrow> (t\<lparr>tu_status := Some r\<rparr>, [])
      | PeerReset None \<Rightarrow> (t\<lparr>tu_status := Some (Inr ())\<rparr>, [])
      | PeerReset (Some _) \<Rightarrow> (t\<lparr>tu_peer := None\<rparr>, [])
      | DatagramArrived now address datagram \<Rightarrow>
          (if \<not> ip_loopback (fst address) then (t, [])
           else if (case tu_peer t of
                      Some (existing, last_seen) \<Rightarrow> existing \<noteq> address \<and> now - last_seen < PEER_IDLE_REPLACE
                    | None \<Rightarrow> False) then (t, [])
           else (queue_write address (take MAX_DATAGRAM datagram) (t\<lparr>tu_peer := Some (address, now)\<rparr>), []))
      | RecordArrived arrived \<Rightarrow> on_record (map_option fst (tu_peer t)) arrived t
      | WriterBatch n \<Rightarrow> (write_batch E n t, [])))"

definition receiver_step ::
  "crates \<Rightarrow> socket_addr \<Rightarrow> tunnel \<Rightarrow> tunnel_event \<Rightarrow> tunnel \<times> (socket_addr \<times> bytes) list" where
  "receiver_step E upstream t ev =
     (if tu_status t \<noteq> None then (t, [])
      else (case ev of
        TunnelCancelled \<Rightarrow> (t\<lparr>tu_status := Some (Inr ())\<rparr>, [])
      | WriterEnded r \<Rightarrow> (t\<lparr>tu_status := Some r\<rparr>, [])
      | PeerReset _ \<Rightarrow> (t, [])
      | DatagramArrived now address datagram \<Rightarrow>
          (if address \<noteq> upstream then (t, [])
           else (queue_write address (take MAX_DATAGRAM datagram) t, []))
      | RecordArrived arrived \<Rightarrow> on_record (Some upstream) arrived t
      | WriterBatch n \<Rightarrow> (write_batch E n t, [])))"

definition sender_keys :: "crates \<Rightarrow> bytes \<Rightarrow> bytes \<times> bytes" where
  "sender_keys E transit =
     (derive_key E transit (str_bytes ''transit_record_sender_key''),
      derive_key E transit (str_bytes ''transit_record_receiver_key''))"

definition receiver_keys :: "crates \<Rightarrow> bytes \<Rightarrow> bytes \<times> bytes" where
  "receiver_keys E transit =
     (derive_key E transit (str_bytes ''transit_record_receiver_key''),
      derive_key E transit (str_bytes ''transit_record_sender_key''))"

section \<open>The invariant of a tunnel\<close>

lemma write_records_append:
  "write_records E (xs @ ys) w =
     bind_r (write_records E xs w) (\<lambda>(bs, w1). bind_r (write_records E ys w1) (\<lambda>(bs', w2). Inr (bs @ bs', w2)))"
proof (induction xs arbitrary: w)
  case Nil
  show ?case by (cases "write_records E ys w") auto
next
  case (Cons x xs)
  show ?case
  proof (cases "write_record E x w")
    case (Inr p)
    then show ?thesis
      by (cases p; cases "write_records E xs (snd p)"; cases "write_records E ys (snd (projr (write_records E xs (snd p))))")
        (auto simp: Cons.IH split_def)
  qed simp
qed

definition tunnel_ok :: "crates \<Rightarrow> bytes \<Rightarrow> (socket_addr \<Rightarrow> bool) \<Rightarrow> tunnel \<Rightarrow> bool" where
  "tunnel_ok E key source t =
     (length (tu_queue t) \<le> WRITE_QUEUE
      \<and> list_all (\<lambda>(address, _). source address) (tu_entered t)
      \<and> (case tu_peer t of Some (address, _) \<Rightarrow> source address | None \<Rightarrow> True)
      \<and> (\<exists>written lost. map snd (tu_entered t) = written @ lost @ tu_queue t
           \<and> (tu_status t = None \<longrightarrow> lost = [])
           \<and> write_records E written \<lparr>re_key = key, re_counter = 0\<rparr> = Inr (tu_stream t, tu_writer t)))"

lemma new_tunnel_ok: "tunnel_ok E key source (new_tunnel key)"
  by (simp add: tunnel_ok_def new_tunnel_def)

lemma tunnel_okI:
  assumes "length (tu_queue t) \<le> WRITE_QUEUE" and "list_all (\<lambda>(address, _). source address) (tu_entered t)"
    and "case tu_peer t of Some (address, _) \<Rightarrow> source address | None \<Rightarrow> True"
    and "map snd (tu_entered t) = written @ lost @ tu_queue t" and "tu_status t = None \<Longrightarrow> lost = []"
    and "write_records E written \<lparr>re_key = key, re_counter = 0\<rparr> = Inr (tu_stream t, tu_writer t)"
  shows "tunnel_ok E key source t"
proof -
  have "map snd (tu_entered t) = written @ lost @ tu_queue t \<and> (tu_status t = None \<longrightarrow> lost = [])
      \<and> write_records E written \<lparr>re_key = key, re_counter = 0\<rparr> = Inr (tu_stream t, tu_writer t)"
    using assms(4-6) by simp
  then have "\<exists>written lost. map snd (tu_entered t) = written @ lost @ tu_queue t
      \<and> (tu_status t = None \<longrightarrow> lost = [])
      \<and> write_records E written \<lparr>re_key = key, re_counter = 0\<rparr> = Inr (tu_stream t, tu_writer t)"
    by (rule_tac x = written in exI, rule_tac x = lost in exI)
  then show ?thesis
    unfolding tunnel_ok_def by (intro conjI assms(1-3))
qed

lemma tunnel_ok_basic:
  assumes "tunnel_ok E key source t"
  shows "length (tu_queue t) \<le> WRITE_QUEUE" and "list_all (\<lambda>(address, _). source address) (tu_entered t)"
    and "case tu_peer t of Some (address, _) \<Rightarrow> source address | None \<Rightarrow> True"
  using assms unfolding tunnel_ok_def by blast+

lemma tunnel_ok_status:
  assumes "tunnel_ok E key source t" and "tu_status t = None"
  shows "tunnel_ok E key source (t\<lparr>tu_status := r\<rparr>)"
proof -
  obtain written where hist: "map snd (tu_entered t) = written @ [] @ tu_queue t"
    and wrote: "write_records E written \<lparr>re_key = key, re_counter = 0\<rparr> = Inr (tu_stream t, tu_writer t)"
    using assms by (auto simp: tunnel_ok_def)
  show ?thesis
    by (rule tunnel_okI [where written = written and lost = "[]"])
      (use tunnel_ok_basic [OF assms(1)] hist wrote in simp_all)
qed

lemma tunnel_ok_peer:
  "tunnel_ok E key source t \<Longrightarrow> source address \<Longrightarrow> tunnel_ok E key source (t\<lparr>tu_peer := Some (address, now)\<rparr>)"
  "tunnel_ok E key source t \<Longrightarrow> tunnel_ok E key source (t\<lparr>tu_peer := None\<rparr>)"
  by (auto simp: tunnel_ok_def)

lemma queue_write_ok:
  assumes "tunnel_ok E key source t" and "source address" and "tu_status t = None"
  shows "tunnel_ok E key source (queue_write address payload t)"
  using assms by (auto simp: tunnel_ok_def queue_write_def WRITE_QUEUE_def)

lemma write_batch_ok:
  assumes "tunnel_ok E key source t" and "tu_status t = None"
  shows "tunnel_ok E key source (write_batch E n t)"
proof -
  let ?k = "min n WRITE_BATCH_DATAGRAMS"
  obtain written where hist: "map snd (tu_entered t) = written @ tu_queue t"
    and wrote: "write_records E written \<lparr>re_key = key, re_counter = 0\<rparr> = Inr (tu_stream t, tu_writer t)"
    using assms by (auto simp: tunnel_ok_def)
  have cut: "map snd (tu_entered t) = written @ take ?k (tu_queue t) @ drop ?k (tu_queue t)"
    using hist by simp
  show ?thesis
  proof (cases "write_records E (take ?k (tu_queue t)) (tu_writer t)")
    case (Inl err)
    have "tunnel_ok E key source (t\<lparr>tu_queue := drop ?k (tu_queue t), tu_status := Some (Inl err)\<rparr>)"
      by (rule tunnel_okI [where written = written and lost = "take ?k (tu_queue t)"])
        (use tunnel_ok_basic [OF assms(1)] cut wrote in simp_all)
    then show ?thesis
      using Inl by (simp add: write_batch_def Let_def)
  next
    case (Inr p)
    have "write_records E (written @ take ?k (tu_queue t)) \<lparr>re_key = key, re_counter = 0\<rparr>
        = Inr (tu_stream t @ fst p, snd p)"
      using wrote Inr by (simp add: write_records_append split_def)
    then have "tunnel_ok E key source
        (t\<lparr>tu_queue := drop ?k (tu_queue t), tu_writer := snd p, tu_stream := tu_stream t @ fst p\<rparr>)"
      by (intro tunnel_okI [where written = "written @ take ?k (tu_queue t)" and lost = "[]"])
        (use tunnel_ok_basic [OF assms(1)] cut in simp_all)
    then show ?thesis
      using Inr by (simp add: write_batch_def Let_def split_def)
  qed
qed

lemma on_record_ok:
  "tunnel_ok E key source t \<Longrightarrow> tu_status t = None \<Longrightarrow> tunnel_ok E key source (fst (on_record target arrived t))"
  by (auto simp: on_record_def tunnel_ok_status split: option.splits sum.splits)

lemma sender_step_ok:
  assumes "tunnel_ok E key (\<lambda>a. ip_loopback (fst a)) t"
  shows "tunnel_ok E key (\<lambda>a. ip_loopback (fst a)) (fst (sender_step E t ev))"
  using assms
  by (cases ev)
    (auto simp: sender_step_def tunnel_ok_status tunnel_ok_peer queue_write_ok write_batch_ok on_record_ok
      split: option.splits)

lemma receiver_step_ok:
  assumes "tunnel_ok E key (\<lambda>a. a = upstream) t"
  shows "tunnel_ok E key (\<lambda>a. a = upstream) (fst (receiver_step E upstream t ev))"
  using assms
  by (cases ev) (auto simp: receiver_step_def tunnel_ok_status queue_write_ok write_batch_ok on_record_ok)

interpretation sender_tunnel: machine "\<lambda>t. t = new_tunnel key" "\<lambda>t ev t'. t' = fst (sender_step E t ev)"
    "tunnel_ok E key (\<lambda>a. ip_loopback (fst a))" for E key
  by unfold_locales (auto simp: new_tunnel_ok sender_step_ok)

interpretation receiver_tunnel: machine "\<lambda>t. t = new_tunnel key" "\<lambda>t ev t'. t' = fst (receiver_step E upstream t ev)"
    "tunnel_ok E key (\<lambda>a. a = upstream)" for E key upstream
  by unfold_locales (auto simp: new_tunnel_ok receiver_step_ok)

lemma tunnel_ok_read:
  assumes "tunnel_ok E key source t" and "secretbox_correct E" and "length (tu_entered t) \<le> u64_max"
  shows "read_records E \<lparr>re_key = key, re_counter = 0\<rparr> (tu_stream t)
    = (take (re_counter (tu_writer t)) (map snd (tu_entered t)), Io UnexpectedEof)"
proof -
  obtain written lost where hist: "map snd (tu_entered t) = written @ lost @ tu_queue t"
    and wrote: "write_records E written \<lparr>re_key = key, re_counter = 0\<rparr> = Inr (tu_stream t, tu_writer t)"
    using assms(1) by (auto simp: tunnel_ok_def)
  have "length written \<le> length (tu_entered t)"
    using arg_cong [OF hist, of length] by simp
  then have "read_records E \<lparr>re_key = key, re_counter = 0\<rparr> (tu_stream t) = (written, Io UnexpectedEof)"
    using assms(3) by (intro read_written [OF assms(2) wrote]) simp_all
  moreover have "re_counter (tu_writer t) = length written"
    using write_records_counter [OF wrote] by simp
  ultimately show ?thesis using hist by simp
qed

text \<open>Both ends of a tunnel forward only what their own endpoint sent, and forward it faithfully:
  in any reachable state of the sending end every datagram that entered the queue came from a
  loopback address, the remembered peer is one, and in the receiving end they all came from the
  upstream endpoint; the queue holds at most 1024 datagrams; and reading the stream written so far
  yields exactly the datagrams that entered, in order, up to those not yet written.\<close>

theorem tunnel_forwards_its_endpoint:
  assumes "reachable (\<lambda>t. t = new_tunnel key) (\<lambda>t ev t'. t' = fst (sender_step E t ev)) s"
    and "reachable (\<lambda>t. t = new_tunnel key') (\<lambda>t ev t'. t' = fst (receiver_step E upstream t ev)) r"
    and "secretbox_correct E" and "length (tu_entered s) \<le> u64_max"
  shows "list_all (\<lambda>(a, _). ip_loopback (fst a)) (tu_entered s)
    \<and> list_all (\<lambda>(a, _). a = upstream) (tu_entered r)
    \<and> length (tu_queue s) \<le> WRITE_QUEUE \<and> length (tu_queue r) \<le> WRITE_QUEUE
    \<and> pred_option (\<lambda>(a, _). ip_loopback (fst a)) (tu_peer s)
    \<and> read_records E \<lparr>re_key = key, re_counter = 0\<rparr> (tu_stream s)
      = (take (re_counter (tu_writer s)) (map snd (tu_entered s)), Io UnexpectedEof)"
  using sender_tunnel.reachable_inv [OF assms(1)] receiver_tunnel.reachable_inv [OF assms(2)]
    tunnel_ok_read [OF sender_tunnel.reachable_inv [OF assms(1)] assms(3,4)]
  by (auto simp: tunnel_ok_def split: option.splits)

theorem tunnel_forwards_its_endpoint_witness:
  "let s = run_events (\<lambda>t ev. fst (sender_step sample_crates t ev)) (new_tunnel [1])
        [DatagramArrived 5 (IpV4 [10, 0, 0, 7], 9) [3], DatagramArrived 6 (IpV4 [127, 0, 0, 1], 9) [4], WriterBatch 8] in
     map snd (tu_entered s) = [[4]]
     \<and> read_records sample_crates \<lparr>re_key = [1], re_counter = 0\<rparr> (tu_stream s) = ([[4]], Io UnexpectedEof)"
proof -
  define s where "s = run_events (\<lambda>t ev. fst (sender_step sample_crates t ev)) (new_tunnel [1])
        [DatagramArrived 5 (IpV4 [10, 0, 0, 7], 9) [3], DatagramArrived 6 (IpV4 [127, 0, 0, 1], 9) [4], WriterBatch 8]"
  have reach: "reachable (\<lambda>t. t = new_tunnel [1]) (\<lambda>t ev t'. t' = fst (sender_step sample_crates t ev)) s"
    unfolding s_def by (rule reachable_run_events) simp
  have idle: "reachable (\<lambda>t. t = new_tunnel [1])
      (\<lambda>t ev t'. t' = fst (receiver_step sample_crates (IpV4 [127, 0, 0, 1], 9) t ev)) (new_tunnel [1])"
    by (rule reachable_init) simp
  have entered: "map snd (tu_entered s) = [[4]]"
    and counter: "re_counter (tu_writer s) = 1"
    by (simp_all add: s_def sender_step_def new_tunnel_def queue_write_def write_batch_def write_record_def
        WRITE_QUEUE_def WRITE_BATCH_DATAGRAMS_def MAX_DATAGRAM_def MAX_RECORD_def NONCE_SIZE_def TAG_SIZE_def
        u64_max_def sample_crates_def Let_def)
  have "length (tu_entered s) \<le> u64_max"
    using arg_cong [OF entered, of length] by (simp add: u64_max_def)
  note tunnel_forwards_its_endpoint [OF reach idle sample_secretbox(1) this]
  then have "map snd (tu_entered s) = [[4]]
      \<and> read_records sample_crates \<lparr>re_key = [1], re_counter = 0\<rparr> (tu_stream s) = ([[4]], Io UnexpectedEof)"
    using entered counter by simp
  then show ?thesis unfolding s_def Let_def .
qed

end
