(* ===== verification/Dial.thy ===== *)
theory Dial
  imports Dns
begin

text \<open>
  Dialling a host (\<open>net.rs\<close>): the race of the two resolvers, the order in which the addresses are
  tried, and the staggered race of connection attempts as a state machine whose events are what
  \<open>select!\<close> can observe. Timers and sockets are the environment: any sequence of events is
  considered.
\<close>

section \<open>Resolvers\<close>

datatype 'a resolve_event = SystemDone "'a option" | PublicDone "'a option"

fun resolve_race :: "string \<Rightarrow> bool \<Rightarrow> bool \<Rightarrow> 'a resolve_event list \<Rightarrow> 'a result option" where
  "resolve_race host system_pending public_pending [] =
     (if \<not> system_pending \<and> \<not> public_pending
      then Some (Inl (Protocol (''failed to resolve '' @ host))) else None)"
| "resolve_race host system_pending public_pending (e # events) =
     (if \<not> system_pending \<and> \<not> public_pending
      then Some (Inl (Protocol (''failed to resolve '' @ host)))
      else (case e of
              SystemDone r \<Rightarrow>
                (if \<not> system_pending then resolve_race host system_pending public_pending events
                 else (case r of Some addresses \<Rightarrow> Some (Inr addresses)
                       | None \<Rightarrow> resolve_race host False public_pending events))
            | PublicDone r \<Rightarrow>
                (if \<not> public_pending then resolve_race host system_pending public_pending events
                 else (case r of Some addresses \<Rightarrow> Some (Inr addresses)
                       | None \<Rightarrow> resolve_race host system_pending False events))))"

text \<open>The stable sort of \<open>dial_host_port\<close>: IPv4 first.\<close>

definition is_ipv6 :: "ip_addr \<times> nat \<Rightarrow> bool" where
  "is_ipv6 a = (case fst a of IpV4 _ \<Rightarrow> False | IpV6 _ \<Rightarrow> True)"

definition dial_order :: "(ip_addr \<times> nat) list \<Rightarrow> (ip_addr \<times> nat) list" where
  "dial_order addresses = sort_key (\<lambda>a. if is_ipv6 a then 1 else (0 :: nat)) addresses"

section \<open>The race of the attempts\<close>

datatype attempt_end = AttemptConnected | AttemptFailed string

text \<open>\<open>Finished k r\<close>: the \<open>k\<close>-th attempt in flight ends with \<open>r\<close>.\<close>

datatype race_event = RaceCancelled | StaggerElapsed | Finished nat attempt_end

record 'a race =
  ra_remaining :: "'a list"
  ra_attempts :: "'a list"
  ra_started :: nat
  ra_last_error :: "string option"

datatype 'a race_state = Racing "'a race" | Connected 'a | RaceFailed core_error

definition all_failed :: "string option \<Rightarrow> core_error" where
  "all_failed last_error =
     Protocol (''all addresses failed: '' @
       (case last_error of None \<Rightarrow> ''no attempt was made'' | Some e \<Rightarrow> e))"

text \<open>The inner \<open>while started == 0\<close>.\<close>

definition start_next :: "'a race \<Rightarrow> 'a race_state" where
  "start_next s =
     (if ra_started s \<noteq> 0 then Racing s
      else (case ra_remaining s of
              address # rest \<Rightarrow>
                Racing (s\<lparr>ra_remaining := rest, ra_attempts := ra_attempts s @ [address],
                          ra_started := 1\<rparr>)
            | [] \<Rightarrow> if ra_attempts s = [] then RaceFailed (all_failed (ra_last_error s)) else Racing s))"

definition remove_nth :: "nat \<Rightarrow> 'a list \<Rightarrow> 'a list" where
  "remove_nth k xs = take k xs @ drop (Suc k) xs"

text \<open>One \<open>select!\<close> and the start loop after it; an event whose branch is disabled is ignored.\<close>

fun race_step :: "'a race_state \<Rightarrow> race_event \<Rightarrow> 'a race_state" where
  "race_step (Racing s) RaceCancelled = RaceFailed Cancelled"
| "race_step (Racing s) StaggerElapsed =
     (case ra_remaining s of
        [] \<Rightarrow> Racing s
      | address # rest \<Rightarrow>
          start_next (s\<lparr>ra_remaining := rest, ra_attempts := ra_attempts s @ [address]\<rparr>))"
| "race_step (Racing s) (Finished k r) =
     (if length (ra_attempts s) \<le> k then Racing s
      else (case r of
              AttemptConnected \<Rightarrow> Connected (ra_attempts s ! k)
            | AttemptFailed error \<Rightarrow>
                start_next (s\<lparr>ra_attempts := remove_nth k (ra_attempts s),
                              ra_last_error := Some error, ra_started := ra_started s - 1\<rparr>)))"
| "race_step (Connected a) e = Connected a"
| "race_step (RaceFailed err) e = RaceFailed err"

definition race_addresses :: "'a list \<Rightarrow> race_event list \<Rightarrow> 'a race_state" where
  "race_addresses addresses events =
     run_events race_step
       (start_next \<lparr>ra_remaining = addresses, ra_attempts = [], ra_started = 0, ra_last_error = None\<rparr>)
       events"

section \<open>Dialling\<close>

text \<open>
  \<open>dial_host_port\<close>: the address parser of the standard library and what the resolvers and the
  connections do are arguments; \<open>None\<close> stands for a call that is still waiting. A literal
  address is tried alone (\<open>connect_one\<close>).
\<close>

fun connect_one :: "'a \<Rightarrow> race_event list \<Rightarrow> 'a result option" where
  "connect_one address [] = None"
| "connect_one address (RaceCancelled # events) = Some (Inl Cancelled)"
| "connect_one address (StaggerElapsed # events) = connect_one address events"
| "connect_one address (Finished k AttemptConnected # events) = Some (Inr address)"
| "connect_one address (Finished k (AttemptFailed error) # events) = Some (Inl (Io (OtherIo error)))"

definition race_result :: "'a race_state \<Rightarrow> 'a result option" where
  "race_result s = (case s of Racing _ \<Rightarrow> None | Connected a \<Rightarrow> Some (Inr a) | RaceFailed err \<Rightarrow> Some (Inl err))"

definition dial_host_port ::
  "(string \<Rightarrow> ip_addr option) \<Rightarrow> string \<Rightarrow> nat \<Rightarrow> (ip_addr \<times> nat) list resolve_event list \<Rightarrow> bool
    \<Rightarrow> race_event list \<Rightarrow> (ip_addr \<times> nat) result option" where
  "dial_host_port parse_ip given port resolving cancelled events =
     (let host = trim_chars [CHR ''['', CHR '']''] (trim given) in
      case parse_ip host of
        Some address \<Rightarrow> connect_one (address, port) events
      | None \<Rightarrow>
          (if cancelled then Some (Inl Cancelled)
           else (case resolve_race host True True resolving of
                   None \<Rightarrow> None
                 | Some (Inl err) \<Rightarrow> Some (Inl err)
                 | Some (Inr addresses) \<Rightarrow>
                     (if addresses = []
                      then Some (Inl (Protocol (host @ '' did not resolve to any address'')))
                      else race_result (race_addresses (dial_order addresses) events)))))"

section \<open>Invariants\<close>

definition failures :: "race_event list \<Rightarrow> nat" where
  "failures events = length (filter (\<lambda>e. \<exists>k error. e = Finished k (AttemptFailed error)) events)"

lemma failures_simps [simp]:
  "failures [] = 0"
  "failures (e # es) = (if \<exists>k error. e = Finished k (AttemptFailed error) then 1 else 0) + failures es"
  by (simp_all add: failures_def)

text \<open>
  While racing there is an attempt in flight, at least as many as counted as started, and every
  address is waiting, in flight or has failed.
\<close>

fun race_ok :: "'a list \<Rightarrow> nat \<Rightarrow> 'a race_state \<Rightarrow> bool" where
  "race_ok addresses failed (Racing s) \<longleftrightarrow>
     ra_attempts s \<noteq> [] \<and> set (ra_attempts s) \<union> set (ra_remaining s) \<subseteq> set addresses \<and>
     length addresses \<le> length (ra_attempts s) + length (ra_remaining s) + failed"
| "race_ok addresses failed (Connected a) \<longleftrightarrow> a \<in> set addresses"
| "race_ok addresses failed (RaceFailed err) \<longleftrightarrow>
     err = Cancelled \<or> length addresses \<le> failed"

lemma race_ok_mono: "race_ok addresses n s \<Longrightarrow> n \<le> m \<Longrightarrow> race_ok addresses m s"
  by (cases s) auto

lemma start_next_ok:
  assumes "set (ra_attempts s) \<union> set (ra_remaining s) \<subseteq> set addresses"
    and "length addresses \<le> length (ra_attempts s) + length (ra_remaining s) + failed"
    and "ra_started s \<noteq> 0 \<longrightarrow> ra_attempts s \<noteq> []"
  shows "race_ok addresses failed (start_next s)"
  using assms by (auto simp: start_next_def split: list.splits)

text \<open>\<open>started\<close> never exceeds the number of attempts in flight.\<close>

fun started_ok :: "'a race_state \<Rightarrow> bool" where
  "started_ok (Racing s) \<longleftrightarrow> ra_started s \<le> 1 \<and> ra_started s \<le> length (ra_attempts s)"
| "started_ok _ = True"

lemma start_next_started:
  "ra_started s \<le> 1 \<Longrightarrow> ra_started s \<le> length (ra_attempts s) \<Longrightarrow> started_ok (start_next s)"
  by (auto simp: start_next_def split: list.split)

lemma length_remove_nth: "k < length xs \<Longrightarrow> length (remove_nth k xs) = length xs - 1"
  by (simp add: remove_nth_def)

lemma set_remove_nth: "set (remove_nth k xs) \<subseteq> set xs"
  by (auto simp: remove_nth_def dest: in_set_takeD in_set_dropD)

lemma race_step_ok:
  assumes "race_ok addresses failed s" "started_ok s"
  shows "race_ok addresses (failed + failures [e]) (race_step s e) \<and> started_ok (race_step s e)"
proof (cases s)
  case (Racing r)
  show ?thesis
  proof (cases e)
    case RaceCancelled
    then show ?thesis using Racing by simp
  next
    case StaggerElapsed
    show ?thesis
    proof (cases "ra_remaining r")
      case Nil
      then show ?thesis using assms Racing StaggerElapsed by simp
    next
      case (Cons a rest)
      then show ?thesis
        using assms Racing StaggerElapsed
        by (auto intro!: start_next_ok start_next_started)
    qed
  next
    case (Finished k res)
    show ?thesis
    proof (cases "length (ra_attempts r) \<le> k")
      case True
      then show ?thesis using assms Racing Finished by (auto intro: race_ok_mono)
    next
      case False
      show ?thesis
      proof (cases res)
        case AttemptConnected
        then show ?thesis using assms Racing Finished False by (auto dest: subsetD)
      next
        case (AttemptFailed err)
        have l: "length (remove_nth k (ra_attempts r)) = length (ra_attempts r) - 1"
          using False by (simp add: length_remove_nth)
        have "ra_started r - 1 = 0" using assms(2) Racing by simp
        then show ?thesis
          using assms Racing Finished False AttemptFailed l set_remove_nth [of k "ra_attempts r"]
          by (auto intro!: start_next_ok start_next_started)
      qed
    qed
  qed
qed (use assms in auto)

lemma run_race_ok:
  "race_ok addresses n s \<Longrightarrow> started_ok s \<Longrightarrow>
     race_ok addresses (n + failures es) (run_events race_step s es) \<and>
     started_ok (run_events race_step s es)"
proof (induction es arbitrary: s n)
  case Nil
  then show ?case by simp
next
  case (Cons e es)
  from race_step_ok [OF Cons.prems, of e] Cons.IH [of "n + failures [e]" "race_step s e"]
  show ?case by (simp add: add.assoc)
qed

lemma race_addresses_ok: "race_ok addresses (failures events) (race_addresses addresses events)"
proof -
  let ?s = "\<lparr>ra_remaining = addresses, ra_attempts = [], ra_started = 0, ra_last_error = None\<rparr>"
  have "race_ok addresses 0 (start_next ?s)" "started_ok (start_next ?s)"
    by (auto intro!: start_next_ok start_next_started)
  from run_race_ok [OF this, of events] show ?thesis by (simp add: race_addresses_def)
qed

lemma insort_two_high:
  "P x \<Longrightarrow> \<forall>z \<in> set zs. \<not> P z \<Longrightarrow> \<forall>o1 \<in> set os. P o1 \<Longrightarrow>
     insort_key (\<lambda>x. if P x then 1 else (0 :: nat)) x (zs @ os) = zs @ x # os"
  by (induction zs) (cases os, auto)

lemma insort_two_low:
  "\<not> P x \<Longrightarrow> insort_key (\<lambda>x. if P x then 1 else (0 :: nat)) x ys = x # ys"
  by (cases ys) auto

lemma sort_key_two:
  "sort_key (\<lambda>x. if P x then 1 else (0 :: nat)) xs = filter (\<lambda>x. \<not> P x) xs @ filter P xs"
  by (induction xs) (auto simp: insort_two_high insort_two_low)

lemma dial_order_ipv4_first:
  "dial_order addresses = filter (\<lambda>a. \<not> is_ipv6 a) addresses @ filter is_ipv6 addresses"
  by (simp add: dial_order_def sort_key_two)

section \<open>Properties\<close>

text \<open>The race of connection attempts gives up only when every address has failed: whatever the
  order of timers, failures and successes, while it races some attempt is in flight (so it can
  never wait for nothing), a connection is to one of the given addresses, and an error other
  than cancellation needs at least as many failed attempts as there are addresses.\<close>

theorem race_tries_every_address:
  "case race_addresses addresses events of
     Racing s \<Rightarrow> ra_attempts s \<noteq> [] \<and>
       length addresses \<le> length (ra_attempts s) + length (ra_remaining s) + failures events
   | Connected a \<Rightarrow> a \<in> set addresses
   | RaceFailed err \<Rightarrow> (if err = Cancelled then True else length addresses \<le> failures events)"
  using race_addresses_ok [of addresses events] by (cases "race_addresses addresses events") auto

lemma connect_one_target: "connect_one address events = Some (Inr a) \<Longrightarrow> a = address"
  by (induction address events rule: connect_one.induct) auto

lemma resolve_race_answer:
  "resolve_race host sp pp events = Some (Inr addresses) \<Longrightarrow>
    SystemDone (Some addresses) \<in> set events \<or> PublicDone (Some addresses) \<in> set events"
  by (induction host sp pp events rule: resolve_race.induct)
    (auto split: if_splits resolve_event.splits option.splits)

text \<open>A dialled connection is to the literal address the user gave, on the given port, or to an
  address that one of the resolvers answered.\<close>

theorem dial_connects_to_resolved:
  assumes "dial_host_port parse_ip given port resolving cancelled events = Some (Inr a)"
  shows "parse_ip (trim_chars [CHR ''['', CHR '']''] (trim given)) = Some (fst a) \<and> snd a = port
    \<or> (\<exists>addresses. a \<in> set addresses
        \<and> (SystemDone (Some addresses) \<in> set resolving \<or> PublicDone (Some addresses) \<in> set resolving))"
proof (cases "parse_ip (trim_chars [CHR ''['', CHR '']''] (trim given))")
  case None
  let ?host = "trim_chars [CHR ''['', CHR '']''] (trim given)"
  from None assms obtain addresses where
    resolved: "resolve_race ?host True True resolving = Some (Inr addresses)" and
    raced: "race_result (race_addresses (dial_order addresses) events) = Some (Inr a)"
    by (auto simp: dial_host_port_def Let_def split: if_splits option.splits sum.splits)
  have "a \<in> set addresses"
    using raced race_addresses_ok [of "dial_order addresses" events]
    by (cases "race_addresses (dial_order addresses) events") (auto simp: race_result_def dial_order_def)
  then show ?thesis using resolve_race_answer [OF resolved] by blast
qed (use assms connect_one_target in \<open>fastforce simp: dial_host_port_def Let_def\<close>)

theorem dial_connects_to_resolved_witness:
  "let a = (IpV4 [10, 0, 0, 7], 4130 :: nat) in
     (\<exists>addresses. a \<in> set addresses
        \<and> (SystemDone (Some addresses) \<in> set [SystemDone None, PublicDone (Some [(IpV6 [], 4130), a])]
          \<or> PublicDone (Some addresses) \<in> set [SystemDone None, PublicDone (Some [(IpV6 [], 4130), a])]))"
proof -
  have "dial_host_port (\<lambda>_. None) ''relay.example'' 4130
      [SystemDone None, PublicDone (Some [(IpV6 [], 4130), (IpV4 [10, 0, 0, 7], 4130)])] False
      [Finished 0 AttemptConnected] = Some (Inr (IpV4 [10, 0, 0, 7], 4130))"
    by code_simp
  from dial_connects_to_resolved [OF this] show ?thesis by (simp add: Let_def)
qed

end
