(* ===== verification/Transit.thy ===== *)
theory Transit
  imports Tunnel Dial
begin

text \<open>
  The transit connection of the short-code channel (\<open>wormhole/transit.rs\<close>): hints and offers,
  the order and delays in which hints are dialled, and the handshake in which both ends prove
  that they derived the same key. A handshake is a function of the bytes the other side sends; it
  returns what it wrote and, on success, the bytes that follow the handshake.
\<close>

section \<open>Hints and offers\<close>

definition MAX_TRANSIT_HINTS :: nat where "MAX_TRANSIT_HINTS = 32"

definition RELAY_DIAL_DELAY :: nat where "RELAY_DIAL_DELAY = 400"

definition DIRECT_STAGGER_INTERVAL :: nat where "DIRECT_STAGGER_INTERVAL = 30"

datatype hint_kind = DirectTcpV1 | RelayV1

record transit_hint =
  th_kind :: hint_kind
  th_host :: string
  th_port :: nat
  th_priority :: nat

fun hint_kind_json :: "hint_kind \<Rightarrow> jvalue" where
  "hint_kind_json DirectTcpV1 = JStr ''direct-tcp-v1''"
| "hint_kind_json RelayV1 = JStr ''relay-v1''"

definition as_hint_kind :: "jvalue \<Rightarrow> hint_kind result" where
  "as_hint_kind v =
     bind_r (as_variant v) (\<lambda>s. if s = ''direct-tcp-v1'' then Inr DirectTcpV1
                            else if s = ''relay-v1'' then Inr RelayV1 else Inl json_error)"

definition transit_hint_json :: "transit_hint \<Rightarrow> jvalue" where
  "transit_hint_json h =
     JObj [(''kind'', hint_kind_json (th_kind h)), (''host'', JStr (th_host h)),
           (''port'', jnat (th_port h)), (''priority'', jnat (th_priority h))]"

definition as_transit_hint :: "jvalue \<Rightarrow> transit_hint result" where
  "as_transit_hint v =
     bind_r (as_struct [''kind'', ''host'', ''port'', ''priority''] [] v) (\<lambda>kvs.
     bind_r (field ''kind'' as_hint_kind kvs) (\<lambda>kind.
     bind_r (field ''host'' as_str kvs) (\<lambda>host.
     bind_r (field ''port'' (as_unsigned u16_max) kvs) (\<lambda>port.
     bind_r (field ''priority'' (as_unsigned 255) kvs) (\<lambda>priority.
       Inr \<lparr>th_kind = kind, th_host = host, th_port = port, th_priority = priority\<rparr>)))))"

definition transit_offer_json :: "transit_hint list \<Rightarrow> jvalue" where
  "transit_offer_json hints = JObj [(''hints'', JArr (map transit_hint_json hints))]"

definition as_transit_offer :: "jvalue \<Rightarrow> transit_hint list result" where
  "as_transit_offer v = bind_r (as_struct [''hints''] [] v) (\<lambda>kvs. field ''hints'' (as_list as_transit_hint) kvs)"

text \<open>A host contains white space when one of the encodings occurs in it.\<close>

definition has_whitespace :: "string \<Rightarrow> bool" where
  "has_whitespace s = list_ex (\<lambda>w. str_contains w s) ws_encodings"

definition invalid_hint :: "transit_hint \<Rightarrow> bool" where
  "invalid_hint h = (th_host h = [] \<or> 255 < length (th_host h) \<or> th_port h = 0 \<or> has_whitespace (th_host h))"

definition validate_offer :: "transit_hint list \<Rightarrow> unit result" where
  "validate_offer hints =
     reject_if (hints = [] \<or> MAX_TRANSIT_HINTS < length hints)
       (Protocol ''transit offer has an invalid hint count'')
     (reject_if (list_ex invalid_hint hints) (Protocol ''transit offer contains an invalid hint'')
     (Inr ()))"

definition split_host_port :: "string \<Rightarrow> (string \<times> nat) result" where
  "split_host_port value =
     bind_r (ok_or (rsplit_once CHR '':'' value) (InvalidRequest ''transit relay must use host:port''))
       (\<lambda>(given, text).
         (let host = trim_chars [CHR ''['', CHR '']''] given in
          bind_r (ok_or (parse_u16 text) (InvalidRequest ''transit relay port is invalid'')) (\<lambda>port.
            reject_if (host = [] \<or> port = 0) (InvalidRequest ''transit relay is invalid'') (Inr (host, port)))))"

definition format_host_port :: "string \<Rightarrow> nat \<Rightarrow> string" where
  "format_host_port host port =
     (if CHR '':'' \<in> set host \<and> \<not> prefix ''['' host
      then ''['' @ host @ '']:'' @ dec port else host @ '':'' @ dec port)"

text \<open>
  The hints of \<open>prepare\<close>: \<open>addresses\<close> are the local ones with the loopback address, \<open>port\<close> and
  \<open>port_v6\<close> the bound ports, and \<open>relay\<close> the relay, if its reservation succeeded.
\<close>

definition direct_hint :: "ip_syntax \<Rightarrow> nat \<Rightarrow> nat option \<Rightarrow> ip_addr \<Rightarrow> transit_hint list" where
  "direct_hint I port port_v6 address =
     (case address of
        IpV4 octets \<Rightarrow>
          [\<lparr>th_kind = DirectTcpV1, th_host = ip_show I address, th_port = port,
            th_priority = (if ip_loopback address then 2 else 0)\<rparr>]
      | IpV6 _ \<Rightarrow>
          (case port_v6 of
             None \<Rightarrow> []
           | Some p \<Rightarrow> [\<lparr>th_kind = DirectTcpV1, th_host = ip_show I address, th_port = p, th_priority = 1\<rparr>]))"

definition v6_link_local :: "bytes \<Rightarrow> bool" where
  "v6_link_local octets = (be_value (take 2 octets) AND 0xFFC0 = 0xFE80)"

definition v6_multicast :: "bytes \<Rightarrow> bool" where
  "v6_multicast octets = (octets \<noteq> [] \<and> hd octets = 255)"

definition local_address :: "ip_addr \<Rightarrow> bool" where
  "local_address a =
     (case a of
        IpV4 octets \<Rightarrow> \<not> ip_unspecified a \<and> \<not> v4_multicast octets \<and> octets \<noteq> v4_broadcast \<and> \<not> ip_loopback a
      | IpV6 octets \<Rightarrow> \<not> ip_unspecified a \<and> \<not> v6_multicast octets \<and> \<not> ip_loopback a \<and> \<not> v6_link_local octets)"

definition prepare_hints ::
  "ip_syntax \<Rightarrow> ip_addr list \<Rightarrow> nat \<Rightarrow> nat option \<Rightarrow> string \<Rightarrow> bool \<Rightarrow> transit_hint list result" where
  "prepare_hints I interfaces port port_v6 relay_address relay_reserved =
     (let addresses = remdups_adj (sort (filter local_address interfaces @ [IpV4 [127, 0, 0, 1]]));
          direct = concat (map (direct_hint I port port_v6) (take (MAX_TRANSIT_HINTS - 1) addresses));
          relay = trim relay_address in
      if relay = [] \<or> \<not> relay_reserved then Inr direct
      else bind_r (split_host_port relay) (\<lambda>(host, p).
             Inr (direct @ [\<lparr>th_kind = RelayV1, th_host = host, th_port = p, th_priority = 3\<rparr>])))"

text \<open>The attempts of \<open>connect\<close>: the hints by falling priority, each with its delay.\<close>

fun stagger :: "nat \<Rightarrow> transit_hint list \<Rightarrow> (transit_hint \<times> nat) list" where
  "stagger direct [] = []"
| "stagger direct (h # hs) =
     (if th_kind h = RelayV1 then (h, RELAY_DIAL_DELAY) # stagger direct hs
      else (h, direct) # stagger (direct + DIRECT_STAGGER_INTERVAL) hs)"

definition connect_schedule :: "transit_hint list \<Rightarrow> (transit_hint \<times> nat) list result" where
  "connect_schedule hints =
     bind_r (validate_offer hints) (\<lambda>_. Inr (stagger 0 (sort_key (\<lambda>h. 255 - th_priority h) hints)))"

text \<open>The loop of \<open>connect\<close> over the attempts as they end; \<open>None\<close> while it waits.\<close>

datatype 'a connect_event = ConnectCancelled | AttemptOk 'a | AttemptErr string

fun connect_loop :: "nat \<Rightarrow> string list \<Rightarrow> 'a connect_event list \<Rightarrow> 'a result option" where
  "connect_loop attempts errors [] =
     (if attempts = 0
      then Some (Inl (Protocol (''failed to establish direct or relayed transit: '' @
             (if errors = [] then ''no transit hints'' else last errors)))) else None)"
| "connect_loop attempts errors (e # events) =
     (case e of
        ConnectCancelled \<Rightarrow> Some (Inl Cancelled)
      | AttemptOk a \<Rightarrow> if attempts = 0 then connect_loop attempts errors events else Some (Inr a)
      | AttemptErr err \<Rightarrow>
          if attempts = 0 then connect_loop attempts errors events
          else connect_loop (attempts - 1) (errors @ [err]) events)"

section \<open>The handshake\<close>

definition go_line :: bytes where "go_line = str_bytes ''go'' @ [10]"

definition ok_line :: bytes where "ok_line = str_bytes ''ok'' @ [10]"

definition handshake_header :: "crates \<Rightarrow> bytes \<Rightarrow> string \<Rightarrow> string \<Rightarrow> bytes" where
  "handshake_header E key purpose role =
     str_bytes (role @ '' '' @ hex_encode E (derive_key E key (str_bytes purpose)) @ '' ready'') @ [10, 10]"

definition sender_handshake_header :: "crates \<Rightarrow> bytes \<Rightarrow> bytes" where
  "sender_handshake_header E key = handshake_header E key ''transit_sender'' ''transit sender''"

definition receiver_handshake_header :: "crates \<Rightarrow> bytes \<Rightarrow> bytes" where
  "receiver_handshake_header E key = handshake_header E key ''transit_receiver'' ''transit receiver''"

definition relay_handshake_header :: "crates \<Rightarrow> bytes \<Rightarrow> bytes \<Rightarrow> bytes" where
  "relay_handshake_header E key side =
     str_bytes (''please relay '' @ hex_encode E (derive_key E key (str_bytes ''transit_relay_token''))
       @ '' for side '' @ hex_encode E side) @ [10]"

definition read_exact_and_verify :: "bytes \<Rightarrow> string \<Rightarrow> bytes \<Rightarrow> bytes result" where
  "read_exact_and_verify expected label input =
     bind_r (read_exact (length expected) input) (\<lambda>(received, rest).
       reject_if (received \<noteq> expected) (Protocol (''invalid '' @ label)) (Inr rest))"

definition read_ok :: "bytes \<Rightarrow> bytes result" where
  "read_ok input = read_exact_and_verify ok_line ''transit relay acknowledgement'' input"

definition authenticate_incoming :: "crates \<Rightarrow> bytes \<Rightarrow> bytes \<Rightarrow> bytes \<times> bytes result" where
  "authenticate_incoming E key input =
     (case read_exact_and_verify (receiver_handshake_header E key) ''receiver transit handshake'' input of
        Inl err \<Rightarrow> (sender_handshake_header E key, Inl err)
      | Inr rest \<Rightarrow> (sender_handshake_header E key @ go_line, Inr rest))"

definition authenticate_outgoing :: "crates \<Rightarrow> bytes \<Rightarrow> bytes \<Rightarrow> bytes \<times> bytes result" where
  "authenticate_outgoing E key input =
     (case read_exact_and_verify (sender_handshake_header E key) ''sender transit handshake'' input of
        Inl err \<Rightarrow> ([], Inl err)
      | Inr rest \<Rightarrow>
          (receiver_handshake_header E key,
           read_exact_and_verify go_line ''transit go acknowledgement'' rest))"

definition authenticate_relay_incoming :: "crates \<Rightarrow> bytes \<Rightarrow> bytes \<Rightarrow> bytes \<times> bytes result" where
  "authenticate_relay_incoming E key input =
     (case read_ok input of Inl err \<Rightarrow> ([], Inl err) | Inr rest \<Rightarrow> authenticate_incoming E key rest)"

text \<open>\<open>connect_hint\<close> on a connected stream: a relay is asked for the other side first.\<close>

definition connect_hint :: "crates \<Rightarrow> bytes \<Rightarrow> bytes \<Rightarrow> hint_kind \<Rightarrow> bytes \<Rightarrow> bytes \<times> bytes result" where
  "connect_hint E key side kind input =
     (if kind = RelayV1 then
        (case read_ok input of
           Inl err \<Rightarrow> (relay_handshake_header E key side, Inl err)
         | Inr rest \<Rightarrow>
             (let (written, r) = authenticate_outgoing E key rest in
              (relay_handshake_header E key side @ written, r)))
      else authenticate_outgoing E key input)"

lemma read_exact_and_verify_iff:
  "read_exact_and_verify expected label input = Inr rest \<longleftrightarrow> input = expected @ rest"
  by (auto simp: read_exact_and_verify_def result_simps read_exact_Inr)

lemma headers_differ: "sender_handshake_header E key @ r \<noteq> receiver_handshake_header E key' @ r'"
  by (simp add: sender_handshake_header_def receiver_handshake_header_def handshake_header_def str_bytes_def)

text \<open>The transit handshake authenticates both ends. Each end accepts exactly the bytes of the
  other role under its own key, so two ends with one key accept each other and keep the bytes that
  follow, and an end is never convinced by an echo of what it wrote itself, whatever the key.\<close>

theorem transit_handshake:
  "(snd (authenticate_incoming E key input) = Inr rest \<longleftrightarrow> input = receiver_handshake_header E key @ rest)
   \<and> (snd (authenticate_outgoing E key input) = Inr rest
       \<longleftrightarrow> input = sender_handshake_header E key @ go_line @ rest)
   \<and> authenticate_outgoing E key (fst (authenticate_incoming E key
        (fst (authenticate_outgoing E key (sender_handshake_header E key @ later)) @ more_bytes)) @ rest)
     = (receiver_handshake_header E key, Inr rest)
   \<and> \<not> is_ok (snd (authenticate_incoming E key (fst (authenticate_incoming E key' input') @ more_bytes)))
   \<and> \<not> is_ok (snd (authenticate_outgoing E key (receiver_handshake_header E key' @ more_bytes)))"
proof -
  have accepted: "read_exact_and_verify expected label (expected @ r) = Inr r" for expected label r
    by (simp add: read_exact_and_verify_iff)
  have incoming: "snd (authenticate_incoming E key i) = Inr r \<longleftrightarrow> i = receiver_handshake_header E key @ r" for key i r
    by (auto simp: authenticate_incoming_def read_exact_and_verify_iff accepted split: sum.splits)
  have outgoing: "snd (authenticate_outgoing E key i) = Inr r \<longleftrightarrow> i = sender_handshake_header E key @ go_line @ r" for key i r
    by (auto simp: authenticate_outgoing_def read_exact_and_verify_iff accepted split: sum.splits)
  have "fst (authenticate_outgoing E key (sender_handshake_header E key @ later)) = receiver_handshake_header E key"
    by (simp add: authenticate_outgoing_def accepted)
  moreover have "fst (authenticate_incoming E key (receiver_handshake_header E key @ more_bytes))
      = sender_handshake_header E key @ go_line"
    by (simp add: authenticate_incoming_def accepted)
  moreover have "authenticate_outgoing E key (sender_handshake_header E key @ go_line @ rest)
      = (receiver_handshake_header E key, Inr rest)"
    by (simp add: authenticate_outgoing_def accepted)
  moreover have "\<not> is_ok (snd (authenticate_incoming E key (fst (authenticate_incoming E key' input') @ more_bytes)))"
  proof -
    obtain tail where "fst (authenticate_incoming E key' input') = sender_handshake_header E key' @ tail"
      unfolding authenticate_incoming_def
      by (cases "read_exact_and_verify (receiver_handshake_header E key') ''receiver transit handshake'' input'") auto
    then show ?thesis by (auto simp: is_ok_iff incoming headers_differ)
  qed
  moreover have "\<not> is_ok (snd (authenticate_outgoing E key (receiver_handshake_header E key' @ more_bytes)))"
    using headers_differ [of E key _ key' more_bytes] by (auto simp: is_ok_iff outgoing dest: sym)
  ultimately show ?thesis using incoming outgoing by simp
qed

end
