(* ===== verification/ShortCode.thy ===== *)
theory ShortCode
  imports Summary Wormhole Transit
begin

text \<open>
  The two ends of a short-code session (\<open>wormhole/session.rs\<close>, with \<open>allocate\<close>, \<open>join\<close> and
  \<open>PendingWormhole\<close> of \<open>wormhole/protocol.rs\<close> and the start of a tunnel): the sender shows a code and
  waits, both agree on a key, the sender offers its summary and its transit hints, and the receiver answers
  with the credentials of its temporary QUIC server. The record \<open>surroundings\<close> holds what sockets, SPAKE2,
  random numbers and the cancellation token yield in one run; \<open>'s\<close> is the type of a transit stream.
\<close>

section \<open>Messages\<close>

definition sender_offer_json :: "transfer_summary \<Rightarrow> transit_hint list \<Rightarrow> jvalue" where
  "sender_offer_json x hints = JObj [(''summary'', transfer_summary_json x), (''transit'', transit_offer_json hints)]"

definition as_sender_offer :: "jvalue \<Rightarrow> (transfer_summary \<times> transit_hint list) result" where
  "as_sender_offer v =
     bind_r (as_struct [''summary'', ''transit''] [] v) (\<lambda>kvs.
     bind_r (field ''summary'' as_transfer_summary kvs) (\<lambda>x.
     bind_r (field ''transit'' as_transit_offer kvs) (\<lambda>hints. Inr (x, hints))))"

record receiver_answer =
  ra_accepted :: bool
  ra_error :: string
  ra_quic_fingerprint :: string
  ra_quic_secret :: string

definition receiver_answer_json :: "receiver_answer \<Rightarrow> jvalue" where
  "receiver_answer_json a =
     JObj ((''accepted'', JBool (ra_accepted a)) # str_unless_empty ''error'' (ra_error a) @
           str_unless_empty ''quic_fingerprint'' (ra_quic_fingerprint a) @
           str_unless_empty ''quic_secret'' (ra_quic_secret a))"

definition as_receiver_answer :: "jvalue \<Rightarrow> receiver_answer result" where
  "as_receiver_answer v =
     bind_r (as_struct [''accepted''] [''error'', ''quic_fingerprint'', ''quic_secret''] v) (\<lambda>kvs.
     bind_r (field ''accepted'' as_bool kvs) (\<lambda>accepted.
     bind_r (field_default ''error'' [] as_str kvs) (\<lambda>err.
     bind_r (field_default ''quic_fingerprint'' [] as_str kvs) (\<lambda>fingerprint.
     bind_r (field_default ''quic_secret'' [] as_str kvs) (\<lambda>secret.
     Inr \<lparr>ra_accepted = accepted, ra_error = err, ra_quic_fingerprint = fingerprint, ra_quic_secret = secret\<rparr>)))))"

definition valid_quic_fingerprint :: "string \<Rightarrow> bool" where
  "valid_quic_fingerprint s \<longleftrightarrow> length s = 64 \<and> list_all is_lower_hex s"

definition valid_quic_secret :: "string \<Rightarrow> bool" where
  "valid_quic_secret s \<longleftrightarrow> 32 \<le> length s \<and> length s \<le> 128"

text \<open>\<open>chars().take(n)\<close>: the first characters of a text, each with its continuation bytes.\<close>

definition is_continuation :: "char \<Rightarrow> bool" where
  "is_continuation c \<longleftrightarrow> 128 \<le> (of_char c :: nat) \<and> (of_char c :: nat) < 192"

fun take_characters :: "nat \<Rightarrow> string \<Rightarrow> string" where
  "take_characters n [] = []"
| "take_characters n (c # cs) =
     (if is_continuation c then c # take_characters n cs
      else case n of 0 \<Rightarrow> [] | Suc m \<Rightarrow> c # take_characters m cs)"

section \<open>Surroundings\<close>

datatype 's accept_outcome = AcceptEnded "'s result" | AcceptPanicked string | AcceptTimedOut

record 's surroundings =
  en_socket :: "string \<Rightarrow> string \<times> nat \<Rightarrow> (ws_message list \<times> (nat \<Rightarrow> string)) result"
  en_side :: string
  en_spake :: "string \<Rightarrow> bytes \<times> (bytes \<Rightarrow> string + bytes)"
  en_nonces :: "nat \<Rightarrow> bytes"
  en_word_list :: "string list"
  en_picks :: "nat list"
  en_pumped :: nat
  en_ips :: ip_syntax
  en_interfaces :: "ip_addr list"
  en_port :: "nat result"
  en_port_v6 :: "nat option"
  en_relay_reserved :: bool
  en_accept :: "bytes \<Rightarrow> 's accept_outcome"
  en_dial :: "bytes \<Rightarrow> (transit_hint \<times> nat) list \<Rightarrow> 's result"
  en_udp :: "socket_addr result"
  en_cancelled :: "nat \<Rightarrow> bool"

section \<open>The channel of a session\<close>

text \<open>\<open>RendezvousClient::connect\<close>, on the socket that dialling yields.\<close>

definition rendezvous_connect :: "crates \<Rightarrow> 's surroundings \<Rightarrow> string \<Rightarrow> rendezvous result" where
  "rendezvous_connect E T url =
     bind_r (ws_endpoint (trim url)) (\<lambda>endpoint.
     bind_r (en_socket T (trim url) endpoint) (\<lambda>(inbound, ids).
       case read_welcome E
         \<lparr>rv_side_id = en_side T, rv_app_id = WORMHOLE_APP_ID, rv_mailbox_id = [], rv_nameplate = None, rv_pending = [],
          rv_mailbox = [], rv_inbound = inbound, rv_sent = [], rv_id_supply = ids, rv_next_id = 0\<rparr> of
         (Inl err, _) \<Rightarrow> Inl err
       | (Inr _, client) \<Rightarrow> Inr client))"

definition establish_code :: "crates \<Rightarrow> 's surroundings \<Rightarrow> string \<Rightarrow> peer_role \<Rightarrow> rendezvous \<Rightarrow> wormhole_protocol result" where
  "establish_code E T code role client =
     (let (pake, finishing) = en_spake T code in establish E pake finishing (en_nonces T) role client)"

definition allocate :: "crates \<Rightarrow> 's surroundings \<Rightarrow> wormhole_settings \<Rightarrow> (string \<times> rendezvous) result" where
  "allocate E T settings =
     bind_r (rendezvous_connect E T (ws_rendezvous_url settings)) (\<lambda>client.
       case create_mailbox E client of
         (Inl err, _) \<Rightarrow> Inl err
       | (Inr nameplate, client') \<Rightarrow> Inr (generate_code (en_word_list T) (en_picks T) nameplate, client'))"

text \<open>\<open>PendingWormhole::establish\<close>: the pump ends after some messages, with its error if it failed.\<close>

definition pending_establish :: "crates \<Rightarrow> 's surroundings \<Rightarrow> string \<times> rendezvous \<Rightarrow> wormhole_protocol result" where
  "pending_establish E T pending =
     (case pump E (en_pumped T) (snd pending) of
        (Inl err, _) \<Rightarrow> Inl err
      | (Inr _, client) \<Rightarrow> establish_code E T (fst pending) SenderRole client)"

definition join_channel :: "crates \<Rightarrow> 's surroundings \<Rightarrow> wormhole_settings \<Rightarrow> string \<Rightarrow> wormhole_protocol result" where
  "join_channel E T settings raw =
     bind_r (normalize_code raw) (\<lambda>code.
     bind_r (ok_or (split_once_str ''-'' code) (InvalidRequest ''short code is incomplete'')) (\<lambda>(nameplate, _).
     bind_r (rendezvous_connect E T (ws_rendezvous_url settings)) (\<lambda>client.
       case attach_mailbox E nameplate client of
         (Inl err, _) \<Rightarrow> Inl err
       | (Inr _, client') \<Rightarrow> establish_code E T code ReceiverRole client')))"

section \<open>The tunnel of a session\<close>

record 's udp_tunnel =
  ut_local_address :: socket_addr
  ut_stream :: 's
  ut_key :: bytes
  ut_upstream :: "socket_addr option"

definition start_sender :: "'s surroundings \<Rightarrow> 's \<Rightarrow> bytes \<Rightarrow> 's udp_tunnel result" where
  "start_sender T stream key =
     bind_r (en_udp T) (\<lambda>local.
       Inr \<lparr>ut_local_address = local, ut_stream = stream, ut_key = key, ut_upstream = None\<rparr>)"

definition start_receiver :: "'s surroundings \<Rightarrow> 's \<Rightarrow> socket_addr \<Rightarrow> bytes \<Rightarrow> 's udp_tunnel result" where
  "start_receiver T stream upstream key =
     bind_r (en_udp T) (\<lambda>local.
       Inr \<lparr>ut_local_address = local, ut_stream = stream, ut_key = key, ut_upstream = Some upstream\<rparr>)"

section \<open>The sender\<close>

text \<open>A session is its channel and the number of awaits at which cancellation was looked at.\<close>

record short_session =
  ss_protocol :: wormhole_protocol
  ss_step :: nat

definition on_protocol :: "'a wp \<Rightarrow> (short_session, 'a) action" where
  "on_protocol m s = (let (r, p) = m (ss_protocol s) in (r, s\<lparr>ss_protocol := p\<rparr>))"

definition selecting :: "'s surroundings \<Rightarrow> (short_session, 'a) action \<Rightarrow> (short_session, 'a) action" where
  "selecting T m s =
     (let s' = s\<lparr>ss_step := Suc (ss_step s)\<rparr> in if en_cancelled T (ss_step s) then (Inl Cancelled, s') else m s')"

definition session_receive :: "crates \<Rightarrow> (jvalue \<Rightarrow> 'a result) \<Rightarrow> (short_session, 'a) action" where
  "session_receive E decode = io_bind (on_protocol (wp_receive E)) (\<lambda>v. io_lift (decode v))"

text \<open>Closing tells the server the mood; its failure and its timeout are ignored.\<close>

definition close_protocol :: "crates \<Rightarrow> string \<Rightarrow> (short_session, unit) action" where
  "close_protocol E mood s =
     (Inr (), s\<lparr>ss_protocol := snd (on_rendezvous (close_mailbox E mood) (ss_protocol s))\<rparr>)"

record sender_session =
  sn_pending :: "string \<times> rendezvous"
  sn_settings :: wormhole_settings
  sn_summary :: transfer_summary

definition sender_create ::
  "crates \<Rightarrow> 's surroundings \<Rightarrow> wormhole_settings \<Rightarrow> transfer_summary \<Rightarrow> (string \<times> sender_session) result" where
  "sender_create E T given x =
     bind_r (normalize_settings given) (\<lambda>settings.
     bind_r (summary_validate x) (\<lambda>_.
     if en_cancelled T 0 then Inl Cancelled
     else bind_r (allocate E T settings) (\<lambda>pending.
       Inr (fst pending, \<lparr>sn_pending = pending, sn_settings = settings, sn_summary = x\<rparr>))))"

definition check_answer :: "receiver_answer \<Rightarrow> unit result" where
  "check_answer answer =
     reject_if (\<not> ra_accepted answer)
       (Protocol (if ra_error answer = [] then ''receiver rejected the transfer'' else ra_error answer))
     (reject_if (\<not> valid_quic_secret (ra_quic_secret answer) \<or> \<not> valid_quic_fingerprint (ra_quic_fingerprint answer))
       (Protocol ''receiver returned invalid temporary QUIC credentials'') (Inr ()))"

definition accept_transit :: "'s surroundings \<Rightarrow> bytes \<Rightarrow> (short_session, 's) action" where
  "accept_transit T key = selecting T
     (io_lift (case en_accept T key of
        AcceptEnded r \<Rightarrow> r
      | AcceptPanicked err \<Rightarrow> Inl (Protocol (''transit accept task failed: '' @ err))
      | AcceptTimedOut \<Rightarrow> Inl (Protocol (''the receiver never completed the direct connection; '' @
           ''check that both devices can reach the network and try again''))))"

record 's sender_connection =
  sc_peer_address :: socket_addr
  sc_peer_fingerprint :: string
  sc_shared_secret :: string
  sc_tunnel :: "'s udp_tunnel"

definition transit_prepare :: "'s surroundings \<Rightarrow> string \<Rightarrow> transit_hint list result" where
  "transit_prepare T relay =
     bind_r (en_port T) (\<lambda>port.
       prepare_hints (en_ips T) (en_interfaces T) port (en_port_v6 T) relay (en_relay_reserved T))"

definition sender_exchange ::
  "crates \<Rightarrow> 's surroundings \<Rightarrow> wormhole_settings \<Rightarrow> transfer_summary \<Rightarrow> bytes \<Rightarrow>
     (short_session, receiver_answer) action" where
  "sender_exchange E T settings x key =
     io_bind (io_lift (transit_prepare T (ws_transit_relay settings))) (\<lambda>hints.
     io_then (selecting T (on_protocol (wp_send E (sender_offer_json x hints))))
     (selecting T (session_receive E as_receiver_answer)))"

definition sender_finish ::
  "crates \<Rightarrow> 's surroundings \<Rightarrow> bytes \<Rightarrow> receiver_answer \<Rightarrow> (short_session, 's sender_connection) action" where
  "sender_finish E T key answer =
     io_then (io_lift (check_answer answer))
     (io_then (close_protocol E ''happy'')
     (io_bind (accept_transit T key) (\<lambda>stream.
      io_bind (io_lift (start_sender T stream key)) (\<lambda>tunnel.
      io_ret \<lparr>sc_peer_address = ut_local_address tunnel, sc_peer_fingerprint = ra_quic_fingerprint answer,
              sc_shared_secret = ra_quic_secret answer, sc_tunnel = tunnel\<rparr>))))"

text \<open>What follows the exchange of keys, on the channel it yields.\<close>

definition sender_connected ::
  "crates \<Rightarrow> 's surroundings \<Rightarrow> wormhole_settings \<Rightarrow> transfer_summary \<Rightarrow> wormhole_protocol \<Rightarrow>
     's sender_connection result \<times> short_session" where
  "sender_connected E T settings x p =
     (let key = transit_key E (wp_shared_key p) in
      io_bind (sender_exchange E T settings x key) (sender_finish E T key) \<lparr>ss_protocol = p, ss_step = 2\<rparr>)"

definition sender_connect :: "crates \<Rightarrow> 's surroundings \<Rightarrow> sender_session \<Rightarrow> 's sender_connection result" where
  "sender_connect E T sn =
     (if en_cancelled T 1 then Inl Cancelled
      else bind_r (pending_establish E T (sn_pending sn)) (\<lambda>p.
        fst (sender_connected E T (sn_settings sn) (sn_summary sn) p)))"

section \<open>The receiver\<close>

record received_offer =
  ro_session :: short_session
  ro_summary :: transfer_summary
  ro_hints :: "transit_hint list"
  ro_transit_key :: bytes

definition receive_offer :: "crates \<Rightarrow> 's surroundings \<Rightarrow> wormhole_protocol \<Rightarrow> received_offer result" where
  "receive_offer E T p =
     (case selecting T (session_receive E as_sender_offer) \<lparr>ss_protocol = p, ss_step = 1\<rparr> of
        (Inl err, _) \<Rightarrow> Inl err
      | (Inr (x, hints), s) \<Rightarrow>
          bind_r (summary_validate x) (\<lambda>_.
            Inr \<lparr>ro_session = s, ro_summary = x, ro_hints = hints, ro_transit_key = transit_key E (wp_shared_key p)\<rparr>))"

definition receiver_join :: "crates \<Rightarrow> 's surroundings \<Rightarrow> wormhole_settings \<Rightarrow> string \<Rightarrow> received_offer result" where
  "receiver_join E T given code =
     bind_r (normalize_settings given) (\<lambda>settings.
     if en_cancelled T 0 then Inl Cancelled
     else bind_r (join_channel E T settings code) (receive_offer E T))"

definition transit_connect :: "'s surroundings \<Rightarrow> transit_hint list \<Rightarrow> bytes \<Rightarrow> 's result" where
  "transit_connect T hints key = bind_r (connect_schedule hints) (en_dial T key)"

definition receiver_accept ::
  "crates \<Rightarrow> 's surroundings \<Rightarrow> socket_addr \<Rightarrow> string \<Rightarrow> string \<Rightarrow> received_offer \<Rightarrow>
     's udp_tunnel result \<times> short_session" where
  "receiver_accept E T upstream fingerprint secret ro =
     io_reject_if (\<not> ip_loopback (fst upstream) \<or> \<not> valid_quic_fingerprint fingerprint \<or> \<not> valid_quic_secret secret)
       (InvalidRequest ''temporary QUIC endpoint is invalid'')
     (io_then (selecting T (on_protocol (wp_send E (receiver_answer_json
        \<lparr>ra_accepted = True, ra_error = [], ra_quic_fingerprint = fingerprint, ra_quic_secret = secret\<rparr>))))
     (io_bind (io_lift (transit_connect T (ro_hints ro) (ro_transit_key ro))) (\<lambda>stream.
      io_then (close_protocol E ''happy'')
      (io_lift (start_receiver T stream upstream (ro_transit_key ro)))))) (ro_session ro)"

definition receiver_reject :: "crates \<Rightarrow> 's surroundings \<Rightarrow> string \<Rightarrow> received_offer \<Rightarrow> unit result \<times> short_session" where
  "receiver_reject E T reason ro =
     io_then (selecting T (on_protocol (wp_send E (receiver_answer_json
        \<lparr>ra_accepted = False, ra_error = take_characters 255 (trim reason), ra_quic_fingerprint = [],
         ra_quic_secret = []\<rparr>))))
     (close_protocol E ''scary'') (ro_session ro)"

text \<open>\<open>temporary_secret\<close>, from 32 random bytes.\<close>

definition random_secret :: "crates \<Rightarrow> bytes \<Rightarrow> string" where
  "random_secret E seed = hex_encode E seed"

end
