(* ===== verification/ShortCodeProps.thy ===== *)
theory ShortCodeProps
  imports ShortCode
begin

text \<open>
  What the two ends of a short-code session agree on. The server is any that hands to each client what the
  other one added to the mailbox, in order, among whatever else it sends: the messages that a client posts are
  read off the commands it writes.
\<close>

section \<open>Messages decode to what was encoded\<close>

lemma as_unsigned_only: "as_unsigned bound (jnat n) = Inr m \<Longrightarrow> m = n"
  by (auto simp: jnat_def split: if_splits)

lemma map_result_only:
  "(\<And>x y. x \<in> set xs \<Longrightarrow> f (g x) = Inr y \<Longrightarrow> y = x) \<Longrightarrow> map_result f (map g xs) = Inr ys \<Longrightarrow> ys = xs"
  by (induction xs arbitrary: ys) (auto simp: result_simps)

lemma as_transfer_summary_only: "as_transfer_summary (transfer_summary_json x) = Inr y \<Longrightarrow> y = x"
  by (auto simp: as_transfer_summary_def transfer_summary_json_def field_def field_default_def result_simps
      dest!: as_unsigned_only split: if_splits)

lemma as_transit_hint_only: "as_transit_hint (transit_hint_json h) = Inr g \<Longrightarrow> g = h"
  by (cases "th_kind h")
     (auto simp: as_transit_hint_def transit_hint_json_def field_def as_hint_kind_def result_simps
       dest!: as_unsigned_only split: if_splits)

lemma as_sender_offer_only:
  "as_sender_offer (sender_offer_json x hints) = Inr (y, hs) \<Longrightarrow> y = x \<and> hs = hints"
  by (auto simp: as_sender_offer_def sender_offer_json_def field_def result_simps as_transit_offer_def
      transit_offer_json_def dest!: as_transfer_summary_only map_result_only [OF as_transit_hint_only, rotated])

lemma as_receiver_answer_json: "as_receiver_answer (receiver_answer_json a) = Inr a"
  by (auto simp: as_receiver_answer_def receiver_answer_json_def field_def field_default_def)

section \<open>What a client posts\<close>

text \<open>The phase and the body of every \<open>add\<close> command.\<close>

definition posting :: "ws_output \<Rightarrow> (string \<times> string) list" where
  "posting w =
     (case w of
        WsCommand kvs \<Rightarrow>
          (case (map_of kvs ''type'', map_of kvs ''phase'', map_of kvs ''body'') of
             (Some (JStr t), Some (JStr phase), Some (JStr body)) \<Rightarrow> if t = ''add'' then [(phase, body)] else []
           | _ \<Rightarrow> [])
      | WsPongReply _ \<Rightarrow> [])"

definition posted :: "rendezvous \<Rightarrow> (string \<times> string) list" where
  "posted s = concat (map posting (rv_sent s))"

definition silent :: "'a rv \<Rightarrow> bool" where
  "silent m \<longleftrightarrow> (\<forall>s. posted (snd (m s)) = posted s)"

lemma silentD: "silent m \<Longrightarrow> m s = (r, s') \<Longrightarrow> posted s' = posted s"
  unfolding silent_def by (metis snd_conv)

lemma silent_bind: "silent m \<Longrightarrow> (\<And>x. silent (f x)) \<Longrightarrow> silent (rv_bind m f)"
  by (auto simp: silent_def rv_bind_def split: prod.splits sum.splits) (metis snd_conv)+

lemma silent_simple [simp]: "silent (rv_return x)" "silent (rv_fail err)" "silent (rv_lift r)"
  by (simp_all add: silent_def rv_return_def rv_fail_def rv_lift_def)

lemma posted_update [simp]:
  "posted (s\<lparr>rv_pending := a\<rparr>) = posted s" "posted (s\<lparr>rv_mailbox := b\<rparr>) = posted s"
  "posted (s\<lparr>rv_inbound := c\<rparr>) = posted s" "posted (s\<lparr>rv_next_id := d\<rparr>) = posted s"
  "posted (s\<lparr>rv_nameplate := e\<rparr>) = posted s" "posted (s\<lparr>rv_mailbox_id := f\<rparr>) = posted s"
  by (simp_all add: posted_def)

lemma read_values_posts: "read_values E inbound sent = (r, rest, sent') \<Longrightarrow> concat (map posting sent') = concat (map posting sent)"
  by (induction E inbound sent arbitrary: r rest sent' rule: read_values.induct) (auto simp: posting_def split: if_splits)

lemma silent_read_socket_value: "silent (read_socket_value E)"
  by (auto simp: silent_def read_socket_value_def posted_def dest: read_values_posts split: prod.splits)

lemma silent_dispatch: "silent (dispatch v)"
  by (auto simp: silent_def dispatch_def split: option.splits sum.splits)

lemma silent_read_type: "silent (read_type E expected)"
proof -
  have "posted (snd (read_type E expected s)) = posted s" for s
  proof (induction E expected s rule: read_type.induct)
    case (1 E expected s)
    show ?case
      using 1 silentD [OF silent_read_socket_value, of E s] silentD [OF silent_dispatch]
      by (subst read_type.simps) (fastforce split: option.splits prod.splits sum.splits)
  qed
  then show ?thesis by (simp add: silent_def)
qed

lemma silent_read_acks: "silent (read_acks E ids)"
proof (induction ids)
  case (Cons i ids)
  have "read_acks E (i # ids) = rv_bind (read_type E ''ack'') (\<lambda>acknowledgement.
       if Option.bind (value_get ''id'' acknowledgement) value_as_str \<noteq> Some i
       then rv_fail (Protocol ''rendezvous acknowledgement ID mismatch'') else read_acks E ids)"
    by (rule ext) simp
  then show ?case
    using Cons by (auto intro!: silent_bind silent_read_type)
qed (simp add: silent_def)

text \<open>A command that is written, with its type and number.\<close>

definition command_posting :: "string \<times> jvalue \<Rightarrow> (string \<times> string) list" where
  "command_posting c =
     (case c of
        (t, JObj kvs) \<Rightarrow>
          (case (map_of kvs ''phase'', map_of kvs ''body'') of
             (Some (JStr phase), Some (JStr body)) \<Rightarrow> if t = ''add'' then [(phase, body)] else []
           | _ \<Rightarrow> [])
      | _ \<Rightarrow> [])"

lemma posting_command:
  "posting (WsCommand (AList.update ''id'' (JStr i) (AList.update ''type'' (JStr t) kvs))) = command_posting (t, JObj kvs)"
  by (simp add: posting_def command_posting_def update_conv')

lemma write_commands_posts:
  assumes "write_commands E commands s = (r, s')"
  shows "\<exists>n. posted s' = posted s @ concat (map command_posting (take n commands))
    \<and> (\<forall>ids. r = Inr ids \<longrightarrow> n = length commands)"
  using assms
proof (induction E commands s arbitrary: r s' rule: write_commands.induct)
  case (2 E command content rest s)
  show ?case
  proof (cases content)
    case (JObj kvs)
    let ?i = "rv_id_supply s (rv_next_id s)"
    let ?object = "AList.update ''id'' (JStr ?i) (AList.update ''type'' (JStr command) kvs)"
    show ?thesis
    proof (cases "MAX_RENDEZVOUS_MESSAGE < length (to_vec E (JObj ?object))")
      case True
      then show ?thesis using 2(2) JObj by (auto simp: Let_def intro: exI [of _ 0])
    next
      case False
      let ?s = "s\<lparr>rv_next_id := Suc (rv_next_id s), rv_sent := rv_sent s @ [WsCommand ?object]\<rparr>"
      obtain r' where run: "write_commands E rest ?s = (r', s')" and r: "\<forall>ids. r = Inr ids \<longrightarrow> (\<exists>ids'. r' = Inr ids')"
        using 2(2) JObj False by (auto simp: Let_def split: prod.splits sum.splits)
      from 2(1) [OF refl refl JObj refl False, simplified, OF run] obtain n where
        "posted s' = posted ?s @ concat (map command_posting (take n rest))" "\<forall>ids. r' = Inr ids \<longrightarrow> n = length rest"
        by auto
      moreover have "posted ?s = posted s @ command_posting (command, content)"
        by (simp add: posted_def posting_command JObj)
      ultimately show ?thesis using r by (intro exI [of _ "Suc n"]) fastforce
    qed
  qed (use 2(2) in \<open>auto intro: exI [of _ 0]\<close>)
qed simp

lemma silent_send_commands:
  assumes "\<forall>c \<in> set commands. command_posting c = []"
  shows "silent (send_commands E commands)"
proof -
  have "concat (map command_posting (take n commands)) = []" for n
    using assms by (auto dest: in_set_takeD)
  then have "silent (write_commands E commands)"
    unfolding silent_def by (metis append_Nil2 prod.collapse write_commands_posts)
  then show ?thesis by (simp add: send_commands_def silent_bind silent_read_acks)
qed

lemma silent_release: "silent (release_nameplate E)"
proof -
  have "silent (rv_bind (send_commands E [(''release'', JObj [(''nameplate'', JStr n)])])
          (\<lambda>_. rv_bind (read_type E ''released'') (\<lambda>_. rv_return ())))" for n
    by (intro silent_bind silent_send_commands silent_read_type silent_simple) (simp add: command_posting_def)
  then show ?thesis
    unfolding silent_def release_nameplate_def by (auto split: option.split)
qed

lemma silent_next_peer_message: "silent (next_peer_message E)"
proof -
  have "posted (snd (next_peer_message E s)) = posted s" for s
  proof (induction E s rule: next_peer_message.induct)
    case (1 E s)
    have "silent (rv_bind (if rv_nameplate s \<noteq> None then release_nameplate E else rv_return ()) (\<lambda>_. rv_return m))"
      for m :: mailbox_message
      by (intro silent_bind) (simp_all add: silent_release)
    then have take: "posted (snd (rv_bind (if rv_nameplate s \<noteq> None then release_nameplate E else rv_return ())
        (\<lambda>_. rv_return m) t)) = posted t" for m :: mailbox_message and t
      unfolding silent_def by blast
    show ?case
      using 1 silentD [OF silent_read_socket_value, of E s] silentD [OF silent_dispatch] take
      by (subst next_peer_message.simps) (fastforce split: list.splits prod.splits sum.splits)
  qed
  then show ?thesis by (simp add: silent_def)
qed

lemma silent_close: "silent (close_mailbox E mood)"
proof -
  have "silent (rv_bind (send_commands E [(''close'', JObj [(''mailbox'', JStr m), (''mood'', JStr k)])])
          (\<lambda>_. rv_bind (read_type E ''closed'') (\<lambda>_. rv_return ())))" for m k
    by (intro silent_bind silent_send_commands silent_read_type silent_simple) (simp add: command_posting_def)
  then show ?thesis
    unfolding silent_def close_mailbox_def by auto
qed

lemma add_message_posts:
  assumes "add_message E phase body s = (Inr u, s')"
  shows "posted s' = posted s @ [(phase, body)]"
proof -
  let ?c = "(''add'', JObj [(''phase'', JStr phase), (''body'', JStr body)])"
  obtain ids s1 where w: "write_commands E [?c] s = (Inr ids, s1)" and a: "read_acks E ids s1 = (Inr u, s')"
    using assms by (auto simp: add_message_def send_commands_def rv_bind_Inr rv_fail_def split: if_splits)
  have "posted s1 = posted s @ command_posting ?c"
    using write_commands_posts [OF w] by auto
  then show ?thesis using silentD [OF silent_read_acks a] by (simp add: command_posting_def)
qed

section \<open>Steps of the channel\<close>

lemma wp_send_next:
  assumes "rv_ok (wp_rendezvous p)" and "wp_send E v p = (Inr u, p')"
  shows "posted (wp_rendezvous p') = posted (wp_rendezvous p) @
      [(dec (wp_send_phase p), seal_phase E (wp_shared_key p) (rv_side_id (wp_rendezvous p)) (dec (wp_send_phase p))
         (wp_nonces p (wp_next_nonce p)) v)]
    \<and> peer_stream E (wp_rendezvous p') = peer_stream E (wp_rendezvous p) \<and> rv_ok (wp_rendezvous p')
    \<and> rv_side_id (wp_rendezvous p') = rv_side_id (wp_rendezvous p)
    \<and> wp_shared_key p' = wp_shared_key p \<and> wp_receive_phase p' = wp_receive_phase p"
proof -
  let ?body = "seal_phase E (wp_shared_key p) (rv_side_id (wp_rendezvous p)) (dec (wp_send_phase p))
     (wp_nonces p (wp_next_nonce p)) v"
  obtain s where add: "add_message E (dec (wp_send_phase p)) ?body (wp_rendezvous p) = (Inr u, s)"
    and p': "wp_rendezvous p' = s" "wp_shared_key p' = wp_shared_key p" "wp_receive_phase p' = wp_receive_phase p"
    using assms(2)
    by (auto simp: wp_send_def wp_send_phase_message_def on_rendezvous_def Let_def split: if_splits prod.splits)
  from consumesD [OF steady_add_message assms(1) add] add_message_posts [OF add] show ?thesis
    by (simp add: p')
qed

lemma wp_receive_keeps:
  assumes "rv_ok (wp_rendezvous p)" and "wp_receive E p = (Inr v, p')"
  shows "wp_send_phase p' = wp_send_phase p \<and> wp_nonces p' = wp_nonces p
    \<and> rv_side_id (wp_rendezvous p') = rv_side_id (wp_rendezvous p)"
proof -
  obtain m s where got: "next_peer_message E (wp_rendezvous p) = (Inr m, s)"
    and p': "p' = p\<lparr>wp_receive_phase := wp_receive_phase p + 1, wp_rendezvous := s\<rparr>"
    using assms(2)
    by (auto simp: wp_receive_def wp_receive_phase_message_def on_rendezvous_def Let_def
        split: if_splits prod.splits sum.splits)
  from consumesD [OF consumes_next assms(1) got] show ?thesis by (simp add: p')
qed

lemma wp_receive_silent: "wp_receive E p = (r, p') \<Longrightarrow> posted (wp_rendezvous p') = posted (wp_rendezvous p)"
  using silentD [OF silent_next_peer_message]
  by (fastforce simp: wp_receive_def wp_receive_phase_message_def on_rendezvous_def Let_def
      split: if_splits prod.splits sum.splits)

section \<open>The two sessions\<close>

text \<open>A channel after the exchange of keys: \<open>establish\<close> yields such a state.\<close>

definition fresh_channel :: "wormhole_protocol \<Rightarrow> bool" where
  "fresh_channel p \<longleftrightarrow> rv_ok (wp_rendezvous p) \<and> wp_send_phase p = 0 \<and> wp_receive_phase p = 0 \<and>
     (\<forall>n. length (wp_nonces p n) = 24)"

lemma case_run_Inr:
  "(case x of (Inl e, _) \<Rightarrow> Inl e | (Inr a, t) \<Rightarrow> f a t) = Inr p \<longleftrightarrow> (\<exists>a t. x = (Inr a, t) \<and> f a t = Inr p)"
  by (cases x) (auto split: sum.splits)

lemma establish_fresh:
  assumes "establish E pake finishing nonces role s = Inr p" and "rv_ok s" and "\<forall>n. length (nonces n) = 24"
  shows "fresh_channel p"
proof -
  obtain m s1 key p0 p1 v where keys: "rv_bind (add_message E ''pake'' (pake_body E pake)) (\<lambda>_. next_peer_message E) s = (Inr m, s1)"
    and p0: "p0 = \<lparr>wp_rendezvous = s1, wp_shared_key = key, wp_send_phase = 0, wp_receive_phase = 0,
               wp_nonces = nonces, wp_next_nonce = 0\<rparr>"
    and send: "wp_send_phase_message E ''version'' (version_envelope_json WORMHOLE_PROTOCOL_VERSION role) p0 = (Inr (), p1)"
    and receive: "wp_receive_phase_message E ''version'' p1 = (Inr v, p)"
    using assms(1) by (auto simp: establish_def result_simps Let_def case_run_Inr)
  have "rv_ok s1"
    using consumesD [OF steady_bind [OF steady_add_message consumes_next] assms(2) keys] by blast
  then have ok: "rv_ok (wp_rendezvous p1)" and p1: "wp_send_phase p1 = 0" "wp_receive_phase p1 = 0" "wp_nonces p1 = nonces"
    using send consumesD [OF steady_add_message]
    by (fastforce simp: p0 wp_send_phase_message_def on_rendezvous_def Let_def split: prod.splits)+
  obtain m' s2 where got: "next_peer_message E (wp_rendezvous p1) = (Inr m', s2)" and p: "p = p1\<lparr>wp_rendezvous := s2\<rparr>"
    using receive by (auto simp: wp_receive_phase_message_def on_rendezvous_def Let_def split: prod.splits sum.splits)
  show ?thesis
    using consumesD [OF consumes_next ok got] p1 assms(3) by (simp add: p fresh_channel_def)
qed

text \<open>The server hands over to \<open>q\<close>, first of all, what the client \<open>p\<close> posted until it was \<open>p'\<close>.\<close>

definition handed_over :: "crates \<Rightarrow> wormhole_protocol \<Rightarrow> wormhole_protocol \<Rightarrow> wormhole_protocol \<Rightarrow> bool" where
  "handed_over E p p' q \<longleftrightarrow>
     (\<exists>more. peer_stream E (wp_rendezvous q) =
        map (\<lambda>(phase, body). \<lparr>mm_side = rv_side_id (wp_rendezvous p), mm_phase = phase, mm_body = body\<rparr>)
          (drop (length (posted (wp_rendezvous p))) (posted (wp_rendezvous p'))) @ more)"

lemma on_protocol_Inr:
  "on_protocol m s = (Inr x, s') \<longleftrightarrow> (\<exists>p. m (ss_protocol s) = (Inr x, p) \<and> s' = s\<lparr>ss_protocol := p\<rparr>)"
  by (auto simp: on_protocol_def split: prod.splits)

lemma selecting_Inr:
  "selecting T m s = (Inr x, s') \<longleftrightarrow>
     \<not> en_cancelled T (ss_step s) \<and> m (s\<lparr>ss_step := Suc (ss_step s)\<rparr>) = (Inr x, s')"
  by (simp add: selecting_def Let_def)

lemma close_protocol_Inr:
  "close_protocol E mood s = (Inr u, s') \<Longrightarrow> posted (wp_rendezvous (ss_protocol s')) = posted (wp_rendezvous (ss_protocol s))"
  using silentD [OF silent_close]
  by (auto simp: close_protocol_def on_rendezvous_def split: prod.splits)

lemmas session_simps = io_bind_Inr io_then_Inr on_protocol_Inr selecting_Inr io_ret_def

text \<open>What one seals for the other is what the other opens.\<close>

lemma hand_over:
  assumes "secretbox_correct E" "json_roundtrip E" "hex_roundtrip E" "length nonce = 24"
    and "handed_over E p p' q" "rv_ok (wp_rendezvous q)" "wp_receive E q = (Inr w, q')"
    and "posted (wp_rendezvous p') = posted (wp_rendezvous p) @
      [(dec (wp_receive_phase q), seal_phase E (wp_shared_key q) (rv_side_id (wp_rendezvous p)) (dec (wp_receive_phase q)) nonce v)]"
  shows "w = v"
  using wp_receive_next [OF assms(6,7)] assms(5,8) open_seal [OF assms(1-4)]
  by (auto simp: handed_over_def)

lemma start_keys:
  "start_sender T stream key = Inr t \<Longrightarrow> ut_key t = key"
  "start_receiver T stream upstream key = Inr t \<Longrightarrow> ut_key t = key \<and> ut_upstream t = Some upstream"
  by (auto simp: start_sender_def start_receiver_def result_simps)

lemma sender_connected_run:
  assumes "sender_connected E T settings x p = (Inr c, s)" and "fresh_channel p"
  shows "\<exists>hints answer v q q'. transit_prepare T (ws_transit_relay settings) = Inr hints
    \<and> posted (wp_rendezvous (ss_protocol s)) = posted (wp_rendezvous p) @
        [(dec 0, seal_phase E (wp_shared_key p) (rv_side_id (wp_rendezvous p)) (dec 0)
            (wp_nonces p (wp_next_nonce p)) (sender_offer_json x hints))]
    \<and> wp_receive E q = (Inr v, q') \<and> as_receiver_answer v = Inr answer \<and> check_answer answer = Inr ()
    \<and> peer_stream E (wp_rendezvous q) = peer_stream E (wp_rendezvous p) \<and> rv_ok (wp_rendezvous q)
    \<and> wp_receive_phase q = 0 \<and> wp_shared_key q = wp_shared_key p
    \<and> sc_peer_fingerprint c = ra_quic_fingerprint answer \<and> sc_shared_secret c = ra_quic_secret answer
    \<and> sc_peer_address c = ut_local_address (sc_tunnel c) \<and> ut_key (sc_tunnel c) = transit_key E (wp_shared_key p)"
proof -
  let ?key = "transit_key E (wp_shared_key p)"
  have ok: "rv_ok (wp_rendezvous p)" and zero: "wp_send_phase p = 0" "wp_receive_phase p = 0"
    using assms(2) by (simp_all add: fresh_channel_def)
  obtain hints answer v p1 p2 s3 s4 stream where prepare: "transit_prepare T (ws_transit_relay settings) = Inr hints"
    and send: "wp_send E (sender_offer_json x hints) p = (Inr (), p1)"
    and receive: "wp_receive E p1 = (Inr v, p2)" and decode: "as_receiver_answer v = Inr answer"
    and answer: "check_answer answer = Inr ()"
    and close: "close_protocol E ''happy'' \<lparr>ss_protocol = p2, ss_step = 4\<rparr> = (Inr (), s3)"
    and accept: "accept_transit T ?key s3 = (Inr stream, s4)"
    and tunnel: "start_sender T stream ?key = Inr (sc_tunnel c)" and s: "s = s4"
    and c: "sc_peer_fingerprint c = ra_quic_fingerprint answer" "sc_shared_secret c = ra_quic_secret answer"
      "sc_peer_address c = ut_local_address (sc_tunnel c)"
    using assms(1)
    by (auto simp: sender_connected_def sender_exchange_def sender_finish_def session_receive_def session_simps Let_def)
  have "posted (wp_rendezvous (ss_protocol s)) = posted (wp_rendezvous p1)"
    using accept close_protocol_Inr [OF close] wp_receive_silent [OF receive]
    by (auto simp: s accept_transit_def session_simps)
  moreover have "ut_key (sc_tunnel c) = ?key"
    using start_keys(1) [OF tunnel] .
  ultimately show ?thesis
    using wp_send_next [OF ok send] prepare receive decode answer c zero by metis
qed

lemma receive_offer_run:
  assumes "receive_offer E T q = Inr ro" and "fresh_channel q"
  shows "\<exists>w. wp_receive E q = (Inr w, ss_protocol (ro_session ro))
    \<and> as_sender_offer w = Inr (ro_summary ro, ro_hints ro) \<and> summary_valid (ro_summary ro)
    \<and> ro_transit_key ro = transit_key E (wp_shared_key q)"
proof -
  obtain x hints s where "selecting T (session_receive E as_sender_offer) \<lparr>ss_protocol = q, ss_step = 1\<rparr> = (Inr (x, hints), s)"
    and "summary_valid x"
    and "ro = \<lparr>ro_session = s, ro_summary = x, ro_hints = hints, ro_transit_key = transit_key E (wp_shared_key q)\<rparr>"
    using assms(1) by (auto simp: receive_offer_def result_simps split: prod.splits sum.splits)
  then show ?thesis by (auto simp: session_receive_def session_simps)
qed

lemma receiver_accept_run:
  assumes "receiver_accept E T upstream fingerprint secret ro = (Inr tunnel, r)" and "ss_protocol (ro_session ro) = q"
    and "rv_ok (wp_rendezvous q)"
  shows "ip_loopback (fst upstream) \<and> valid_quic_fingerprint fingerprint \<and> valid_quic_secret secret
    \<and> posted (wp_rendezvous (ss_protocol r)) = posted (wp_rendezvous q) @
        [(dec (wp_send_phase q), seal_phase E (wp_shared_key q) (rv_side_id (wp_rendezvous q)) (dec (wp_send_phase q))
            (wp_nonces q (wp_next_nonce q))
            (receiver_answer_json \<lparr>ra_accepted = True, ra_error = [], ra_quic_fingerprint = fingerprint, ra_quic_secret = secret\<rparr>))]
    \<and> ut_key tunnel = ro_transit_key ro \<and> ut_upstream tunnel = Some upstream"
proof -
  let ?a = "receiver_answer_json \<lparr>ra_accepted = True, ra_error = [], ra_quic_fingerprint = fingerprint, ra_quic_secret = secret\<rparr>"
  obtain q1 stream where valid: "ip_loopback (fst upstream)" "valid_quic_fingerprint fingerprint" "valid_quic_secret secret"
    and send: "wp_send E ?a q = (Inr (), q1)"
    and close: "close_protocol E ''happy'' ((ro_session ro)\<lparr>ss_step := Suc (ss_step (ro_session ro)), ss_protocol := q1\<rparr>)
      = (Inr (), r)"
    and tunnel: "start_receiver T stream upstream (ro_transit_key ro) = Inr tunnel"
    using assms(1,2) by (auto simp: receiver_accept_def session_simps)
  show ?thesis
    using valid wp_send_next [OF assms(3) send] close_protocol_Inr [OF close] start_keys(2) [OF tunnel]
    by simp
qed

lemma receiver_run:
  assumes "fresh_channel q" and "receive_offer E T q = Inr ro"
    and "receiver_accept E T upstream fingerprint secret ro = (Inr tunnel, r)"
  shows "\<exists>n. posted (wp_rendezvous (ss_protocol r)) = posted (wp_rendezvous q) @
      [(dec 0, seal_phase E (wp_shared_key q) (rv_side_id (wp_rendezvous q)) (dec 0) (wp_nonces q n)
          (receiver_answer_json \<lparr>ra_accepted = True, ra_error = [], ra_quic_fingerprint = fingerprint, ra_quic_secret = secret\<rparr>))]"
proof -
  let ?q = "ss_protocol (ro_session ro)"
  have fresh: "rv_ok (wp_rendezvous q)" "wp_send_phase q = 0"
    using assms(1) by (simp_all add: fresh_channel_def)
  obtain w where w: "wp_receive E q = (Inr w, ?q)"
    using receive_offer_run [OF assms(2,1)] by blast
  note same = wp_receive_next [OF fresh(1) w] wp_receive_keeps [OF fresh(1) w] wp_receive_silent [OF w]
  have "rv_ok (wp_rendezvous ?q)" using same(1) by blast
  from receiver_accept_run [OF assms(3) refl this] show ?thesis
    using same fresh by (intro exI [of _ "wp_next_nonce ?q"]) auto
qed

text \<open>C29: Two devices that meet over a short code agree. When both sessions succeed over a server that
  hands each of them what the other added, in order, and their exchange of keys gave one key, the receiver
  was shown the sender's own summary and hints before it accepted, the sender connects with exactly the
  certificate fingerprint and secret that the receiver gave for its temporary QUIC server, which listens on a
  loopback address, and both tunnels seal with one transit key.\<close>

theorem short_code_agreement:
  assumes "secretbox_correct E" "json_roundtrip E" "hex_roundtrip E"
    and "fresh_channel p" "fresh_channel q" "wp_shared_key p = wp_shared_key q"
    and "sender_connected E T settings x p = (Inr c, s)"
    and "receive_offer E R q = Inr ro" "receiver_accept E R upstream fingerprint secret ro = (Inr tunnel, r)"
    and "handed_over E p (ss_protocol s) q" "handed_over E q (ss_protocol r) p"
  shows "ro_summary ro = x \<and> summary_validate x = Inr ()
    \<and> transit_prepare T (ws_transit_relay settings) = Inr (ro_hints ro)
    \<and> sc_peer_fingerprint c = fingerprint \<and> sc_shared_secret c = secret
    \<and> valid_quic_fingerprint fingerprint \<and> valid_quic_secret secret
    \<and> sc_peer_address c = ut_local_address (sc_tunnel c)
    \<and> ut_key (sc_tunnel c) = ut_key tunnel \<and> ut_upstream tunnel = Some upstream \<and> ip_loopback (fst upstream)"
proof -
  note facts = assms(1-3)
  let ?a = "\<lparr>ra_accepted = True, ra_error = [], ra_quic_fingerprint = fingerprint, ra_quic_secret = secret\<rparr>"
  have fresh: "rv_ok (wp_rendezvous p)" "rv_ok (wp_rendezvous q)" "\<And>n. length (wp_nonces p n) = 24"
      "\<And>n. length (wp_nonces q n) = 24" "wp_send_phase q = 0" "wp_receive_phase q = 0"
    using assms(4,5) by (simp_all add: fresh_channel_def)
  obtain w where w: "wp_receive E q = (Inr w, ss_protocol (ro_session ro))"
    "as_sender_offer w = Inr (ro_summary ro, ro_hints ro)" "summary_valid (ro_summary ro)"
    "ro_transit_key ro = transit_key E (wp_shared_key q)"
    using receive_offer_run [OF assms(8,5)] by blast
  obtain hints answer v p1 p2 where run: "transit_prepare T (ws_transit_relay settings) = Inr hints"
    "posted (wp_rendezvous (ss_protocol s)) = posted (wp_rendezvous p) @
        [(dec 0, seal_phase E (wp_shared_key p) (rv_side_id (wp_rendezvous p)) (dec 0)
            (wp_nonces p (wp_next_nonce p)) (sender_offer_json x hints))]"
    "wp_receive E p1 = (Inr v, p2)" "as_receiver_answer v = Inr answer"
    "peer_stream E (wp_rendezvous p1) = peer_stream E (wp_rendezvous p)" "rv_ok (wp_rendezvous p1)"
    "wp_receive_phase p1 = 0" "wp_shared_key p1 = wp_shared_key p"
    "sc_peer_fingerprint c = ra_quic_fingerprint answer" "sc_shared_secret c = ra_quic_secret answer"
    "sc_peer_address c = ut_local_address (sc_tunnel c)" "ut_key (sc_tunnel c) = transit_key E (wp_shared_key p)"
    using sender_connected_run [OF assms(7,4)] by blast
  have "w = sender_offer_json x hints"
    by (rule hand_over [OF facts fresh(3) assms(10) fresh(2) w(1)]) (simp add: run(2) assms(6) fresh)
  then have offer: "ro_summary ro = x" "ro_hints ro = hints"
    using w(2) as_sender_offer_only by blast+
  have "rv_ok (wp_rendezvous (ss_protocol (ro_session ro)))"
    using wp_receive_next [OF fresh(2) w(1)] by blast
  note accepted = receiver_accept_run [OF assms(9) refl this]
  obtain n where "posted (wp_rendezvous (ss_protocol r)) = posted (wp_rendezvous q) @
      [(dec 0, seal_phase E (wp_shared_key q) (rv_side_id (wp_rendezvous q)) (dec 0) (wp_nonces q n) (receiver_answer_json ?a))]"
    using receiver_run [OF assms(5,8,9)] by blast
  moreover have "handed_over E q (ss_protocol r) p1"
    using assms(11) run(5) by (simp add: handed_over_def)
  ultimately have "v = receiver_answer_json ?a"
    using hand_over [OF facts fresh(4) _ run(6,3), of q "ss_protocol r" n] assms(6) run(7,8) by simp
  then have "answer = ?a"
    using run(4) by (simp add: as_receiver_answer_json)
  then show ?thesis using offer run w accepted assms(6) by simp
qed

section \<open>An example\<close>

definition meet_hint :: transit_hint where
  "meet_hint = \<lparr>th_kind = DirectTcpV1, th_host = ''h'', th_port = 7000, th_priority = 2\<rparr>"

definition meet_summary :: transfer_summary where
  "meet_summary = \<lparr>su_device_name = ''Sender'', su_instance_id = replicate 32 CHR ''a'', su_item_count = 1,
     su_file_count = 1, su_directory_count = 0, su_total_bytes = 3, su_names = [''f'']\<rparr>"

definition meet_answer :: receiver_answer where
  "meet_answer = \<lparr>ra_accepted = True, ra_error = [], ra_quic_fingerprint = replicate 64 CHR ''b'',
     ra_quic_secret = replicate 64 CHR ''c''\<rparr>"

text \<open>The sealed bodies, and the values that are printed in one byte.\<close>

definition meet_body :: "byte \<Rightarrow> string" where
  "meet_body b = hex_text (replicate 40 0 @ [b])"

definition meet_command :: "byte \<Rightarrow> jvalue" where
  "meet_command b = JObj [(''phase'', JStr ''0''), (''body'', JStr (meet_body b)), (''type'', JStr ''add''), (''id'', JStr ''0'')]"

definition meet_table :: "jvalue list" where
  "meet_table = [sender_offer_json meet_summary [meet_hint], receiver_answer_json meet_answer, meet_command 0, meet_command 1]"

definition meet_channel :: "string \<Rightarrow> string \<Rightarrow> byte \<Rightarrow> wormhole_protocol" where
  "meet_channel me you b =
     \<lparr>wp_rendezvous =
        \<lparr>rv_side_id = me, rv_app_id = WORMHOLE_APP_ID, rv_mailbox_id = [], rv_nameplate = None,
         rv_pending = [JObj [(''type'', JStr ''ack''), (''id'', JStr ''0'')]],
         rv_mailbox = [\<lparr>mm_side = you, mm_phase = ''0'', mm_body = meet_body b\<rparr>],
         rv_inbound = [], rv_sent = [], rv_id_supply = dec, rv_next_id = 0\<rparr>,
      wp_shared_key = [9], wp_send_phase = 0, wp_receive_phase = 0, wp_nonces = (\<lambda>_. replicate 24 0), wp_next_nonce = 0\<rparr>"

definition meet_surroundings :: "unit surroundings" where
  "meet_surroundings =
     \<lparr>en_socket = (\<lambda>_ _. Inl Cancelled), en_side = [], en_spake = (\<lambda>_. ([], \<lambda>_. Inr [])), en_nonces = (\<lambda>_. []),
      en_word_list = [], en_picks = [], en_pumped = 0, en_ips = \<lparr>ip_show = (\<lambda>_. ''h''), ip_parse = (\<lambda>_. None)\<rparr>,
      en_interfaces = [], en_port = Inr 7000, en_port_v6 = None, en_relay_reserved = False,
      en_accept = (\<lambda>_. AcceptEnded (Inr ())), en_dial = (\<lambda>_ _. Inr ()), en_udp = Inr (IpV4 [127, 0, 0, 1], 5000),
      en_cancelled = (\<lambda>_. False)\<rparr>"

abbreviation "meet_crates \<equiv> table_crates meet_table"

lemma dec_0: "dec 0 = ''0''"
  by (simp add: dec.simps digit_char_def char_of_def bit_0)

lemma meet_differ: "sender_offer_json x hints \<noteq> receiver_answer_json a" "meet_command b \<noteq> sender_offer_json x hints"
    "meet_command b \<noteq> receiver_answer_json a"
  by (simp_all add: sender_offer_json_def receiver_answer_json_def meet_command_def)

lemma meet_print:
  "to_vec meet_crates (sender_offer_json meet_summary [meet_hint]) = [0]"
  "to_vec meet_crates (receiver_answer_json meet_answer) = [1]"
  "b \<in> {0, 1} \<Longrightarrow> length (to_vec meet_crates (meet_command b)) = 1"
  by (auto simp: to_vec_def table_print_def meet_table_def meet_differ meet_differ [symmetric])

lemma meet_crates_ok:
  "secretbox_correct meet_crates" "json_roundtrip meet_crates" "hex_roundtrip meet_crates"
  using sample_secretbox
  by (simp_all add: table_crates_def secretbox_correct_def meet_table_def table_crates_json [unfolded table_crates_def]
      table_crates_plain [unfolded table_crates_def])

lemma meet_seal:
  "to_vec meet_crates v = [b] \<Longrightarrow> seal_phase meet_crates [9] side phase (replicate 24 0) v = meet_body b"
  by (simp add: seal_phase_def meet_body_def sample_crates_def table_crates_def to_vec_def replicate_add [symmetric]
      flip: append_assoc)

lemma meet_fresh: "fresh_channel (meet_channel me you b)" if "me \<noteq> you"
  using that by (simp add: fresh_channel_def meet_channel_def rv_ok_def MAX_PENDING_MESSAGES_def)

lemma wp_receive_queued:
  assumes "rv_mailbox (wp_rendezvous p) = m # rest" "rv_nameplate (wp_rendezvous p) = None"
    "wp_receive_phase p = 0" "open_phase E (wp_shared_key p) ''0'' m = Inr v"
  shows "wp_receive E p = (Inr v, p\<lparr>wp_receive_phase := 1, wp_rendezvous := (wp_rendezvous p)\<lparr>rv_mailbox := rest\<rparr>\<rparr>)"
  using assms
  by (simp add: wp_receive_def wp_receive_phase_message_def on_rendezvous_def next_peer_message.simps rv_bind_def
      rv_return_def u32_max_def dec_0)

lemma meet_send:
  assumes "to_vec meet_crates v = [b]" "b \<in> {0, 1}" "wp_send_phase p = 0" "wp_shared_key p = [9]"
    "wp_nonces p = (\<lambda>_. replicate 24 0)" "rv_pending (wp_rendezvous p) = [JObj [(''type'', JStr ''ack''), (''id'', JStr ''0'')]]"
    "rv_id_supply (wp_rendezvous p) = dec" "rv_next_id (wp_rendezvous p) = 0"
  shows "\<exists>r. wp_send meet_crates v p = (Inr (), p\<lparr>wp_send_phase := 1, wp_next_nonce := Suc (wp_next_nonce p), wp_rendezvous := r\<rparr>)
    \<and> rv_mailbox r = rv_mailbox (wp_rendezvous p) \<and> rv_nameplate r = rv_nameplate (wp_rendezvous p)"
proof -
  have b: "length (meet_body b) \<le> MAX_RENDEZVOUS_MESSAGE"
    by (simp add: meet_body_def MAX_RENDEZVOUS_MESSAGE_def)
  have "length (to_vec meet_crates (JObj [(''phase'', JStr ''0''), (''body'', JStr (meet_body b)), (''type'', JStr ''add''), (''id'', JStr ''0'')])) = 1"
    using meet_print(3) [OF assms(2)] by (simp add: meet_command_def)
  then show ?thesis
    using assms b
    by (simp add: wp_send_def wp_send_phase_message_def on_rendezvous_def meet_seal add_message_def send_commands_def
        rv_bind_def rv_fail_def dec_0 u32_max_def MAX_RENDEZVOUS_MESSAGE_def read_type.simps message_type_def value_get_def
        value_as_str_def Let_def) (intro exI conjI, rule refl, simp_all)
qed

lemma meet_env [simp]:
  "en_cancelled meet_surroundings = (\<lambda>_. False)" "en_udp meet_surroundings = Inr (IpV4 [127, 0, 0, 1], 5000)"
  "en_accept meet_surroundings = (\<lambda>_. AcceptEnded (Inr ()))" "en_dial meet_surroundings = (\<lambda>_ _. Inr ())"
  by (simp_all add: meet_surroundings_def)

lemmas meet_run = session_receive_def io_bind_def io_then_def io_match_def io_lift_def io_ret_def selecting_def
  on_protocol_def close_protocol_def

lemma meet_hints: "transit_prepare meet_surroundings [] = Inr [meet_hint]"
  by (simp add: transit_prepare_def meet_surroundings_def prepare_hints_def direct_hint_def meet_hint_def
      MAX_TRANSIT_HINTS_def Let_def)

lemma meet_sender:
  "\<exists>c s. sender_connected meet_crates meet_surroundings \<lparr>ws_rendezvous_url = [], ws_transit_relay = []\<rparr> meet_summary
     (meet_channel ''me'' ''you'' 1) = (Inr c, s)"
proof -
  let ?p = "meet_channel ''me'' ''you'' 1"
  let ?offer = "sender_offer_json meet_summary [meet_hint]"
  obtain r where send: "wp_send meet_crates ?offer ?p = (Inr (), ?p\<lparr>wp_send_phase := 1, wp_next_nonce := 1, wp_rendezvous := r\<rparr>)"
    and r: "rv_mailbox r = [\<lparr>mm_side = ''you'', mm_phase = ''0'', mm_body = meet_body 1\<rparr>]" "rv_nameplate r = None"
    using meet_send [OF meet_print(1), of ?p] by (auto simp: meet_channel_def)
  have "open_phase meet_crates [9] ''0'' \<lparr>mm_side = ''you'', mm_phase = ''0'', mm_body = meet_body 1\<rparr>
      = Inr (receiver_answer_json meet_answer)"
    using open_seal [OF meet_crates_ok, of "replicate 24 0" "[9]" "''0''" "''you''" "receiver_answer_json meet_answer"]
    by (simp add: meet_seal [OF meet_print(2)])
  then have "\<exists>q. wp_receive meet_crates (?p\<lparr>wp_send_phase := 1, wp_next_nonce := 1, wp_rendezvous := r\<rparr>)
      = (Inr (receiver_answer_json meet_answer), q)"
    using wp_receive_queued [of "?p\<lparr>wp_send_phase := 1, wp_next_nonce := 1, wp_rendezvous := r\<rparr>" _ "[]" meet_crates] r
    by (simp add: meet_channel_def)
  moreover have "check_answer meet_answer = Inr ()"
    by (simp add: check_answer_def meet_answer_def valid_quic_secret_def valid_quic_fingerprint_def is_lower_hex_def
        is_digit_def list_all_iff reject_if_def)
  ultimately show ?thesis
    using send
    by (auto simp: sender_connected_def sender_exchange_def sender_finish_def meet_hints meet_run as_receiver_answer_json
        accept_transit_def start_sender_def Let_def)
qed

lemma meet_schedule: "connect_schedule [meet_hint] = Inr [(meet_hint, 0)]"
proof -
  have "\<not> has_whitespace ''h''" by code_simp
  then show ?thesis
    by (simp add: connect_schedule_def validate_offer_def invalid_hint_def meet_hint_def MAX_TRANSIT_HINTS_def reject_if_def)
qed

lemma meet_summary_valid: "summary_valid meet_summary"
proof -
  have "trim ''Sender'' = ''Sender''" "trim ''f'' = ''f''" by (simp_all add: trim_graphic)
  then show ?thesis
    by (simp add: summary_valid_def meet_summary_def valid_instance_id_def is_lower_hex_def is_digit_def list_all_iff
        MAX_SELECTED_ITEMS_def MAX_SUMMARY_ENTRIES_def u64_max_def)
qed

lemma meet_rebuild:
  "\<lparr>ra_accepted = True, ra_error = [], ra_quic_fingerprint = ra_quic_fingerprint meet_answer,
    ra_quic_secret = ra_quic_secret meet_answer\<rparr> = meet_answer"
  by (simp add: meet_answer_def)

lemma meet_receiver:
  "\<exists>ro tunnel r. receive_offer meet_crates meet_surroundings (meet_channel ''you'' ''me'' 0) = Inr ro
    \<and> receiver_accept meet_crates meet_surroundings (IpV4 [127, 0, 0, 1], 4000) (ra_quic_fingerprint meet_answer)
        (ra_quic_secret meet_answer) ro = (Inr tunnel, r)"
proof -
  let ?q = "meet_channel ''you'' ''me'' 0"
  let ?offer = "sender_offer_json meet_summary [meet_hint]"
  let ?q1 = "?q\<lparr>wp_receive_phase := 1, wp_rendezvous := (wp_rendezvous ?q)\<lparr>rv_mailbox := []\<rparr>\<rparr>"
  have "open_phase meet_crates [9] ''0'' \<lparr>mm_side = ''me'', mm_phase = ''0'', mm_body = meet_body 0\<rparr> = Inr ?offer"
    using open_seal [OF meet_crates_ok, of "replicate 24 0" "[9]" "''0''" "''me''" ?offer]
    by (simp add: meet_seal [OF meet_print(1)])
  then have receive: "wp_receive meet_crates ?q = (Inr ?offer, ?q1)"
    by (intro wp_receive_queued [of _ _ "[]"]) (simp_all add: meet_channel_def)
  have decode: "as_sender_offer ?offer = Inr (meet_summary, [meet_hint])"
    by (simp add: as_sender_offer_def sender_offer_json_def field_def as_transit_offer_def transit_offer_json_def
        as_transfer_summary_def transfer_summary_json_def field_default_def as_transit_hint_def transit_hint_json_def
        as_hint_kind_def meet_summary_def meet_hint_def u64_max_def u16_max_def)
  have send: "\<exists>q2. wp_send meet_crates (receiver_answer_json meet_answer) ?q1 = (Inr (), q2)"
    using meet_send [OF meet_print(2), of ?q1] by (auto simp: meet_channel_def)
  have "valid_quic_secret (ra_quic_secret meet_answer)" "valid_quic_fingerprint (ra_quic_fingerprint meet_answer)"
    by (simp_all add: meet_answer_def valid_quic_secret_def valid_quic_fingerprint_def is_lower_hex_def
        is_digit_def list_all_iff)
  then show ?thesis
    using send
    by (auto simp: receive_offer_def receiver_accept_def meet_run receive decode meet_rebuild transit_connect_def
        meet_schedule start_receiver_def io_reject_if_def summary_validate_def meet_summary_valid reject_if_def)
qed

theorem short_code_agreement_witness:
  "\<exists>c s ro tunnel r. sender_connected meet_crates meet_surroundings \<lparr>ws_rendezvous_url = [], ws_transit_relay = []\<rparr>
       meet_summary (meet_channel ''me'' ''you'' 1) = (Inr c, s)
    \<and> receive_offer meet_crates meet_surroundings (meet_channel ''you'' ''me'' 0) = Inr ro
    \<and> receiver_accept meet_crates meet_surroundings (IpV4 [127, 0, 0, 1], 4000) (ra_quic_fingerprint meet_answer)
        (ra_quic_secret meet_answer) ro = (Inr tunnel, r)
    \<and> ro_summary ro = meet_summary \<and> sc_shared_secret c = ra_quic_secret meet_answer
    \<and> sc_peer_fingerprint c = ra_quic_fingerprint meet_answer \<and> ut_key (sc_tunnel c) = ut_key tunnel"
proof -
  let ?p = "meet_channel ''me'' ''you'' 1" and ?q = "meet_channel ''you'' ''me'' 0"
  have fresh: "fresh_channel ?p" "fresh_channel ?q" by (simp_all add: meet_fresh)
  obtain c s where sender: "sender_connected meet_crates meet_surroundings \<lparr>ws_rendezvous_url = [], ws_transit_relay = []\<rparr>
      meet_summary ?p = (Inr c, s)"
    using meet_sender by blast
  obtain ro tunnel r where offer: "receive_offer meet_crates meet_surroundings ?q = Inr ro"
    and accept: "receiver_accept meet_crates meet_surroundings (IpV4 [127, 0, 0, 1], 4000) (ra_quic_fingerprint meet_answer)
      (ra_quic_secret meet_answer) ro = (Inr tunnel, r)"
    using meet_receiver by blast
  have key: "wp_shared_key ?p = wp_shared_key ?q" by (simp add: meet_channel_def)
  have "handed_over meet_crates ?p (ss_protocol s) ?q"
    using sender_connected_run [OF sender fresh(1)] meet_hints
    by (auto simp: handed_over_def meet_channel_def peer_stream_def posted_def meet_seal meet_print dec_0)
  moreover have "handed_over meet_crates ?q (ss_protocol r) ?p"
    using receiver_run [OF fresh(2) offer accept]
    by (auto simp: handed_over_def meet_channel_def peer_stream_def posted_def meet_seal meet_print meet_rebuild dec_0)
  ultimately show ?thesis
    using short_code_agreement [OF meet_crates_ok fresh key sender offer accept] sender offer accept by blast
qed

end
