(* ===== verification/SshAuth.thy ===== *)
theory SshAuth
  imports Exchange Wormhole
begin

text \<open>
  The protocol of the SSH relay (\<open>ssh/protocol.rs\<close>): pairing codes, the pairing of two devices
  over a password-authenticated key exchange, and the mutual authentication of a data channel,
  which carries the credentials of a temporary QUIC endpoint and derives the key of the tunnel. A
  channel is a stream of \<open>Quic.net\<close>; the SPAKE2 state, the word list and the random draws
  are arguments.
\<close>

section \<open>Channels and structures\<close>

definition PAIRING_APP_ID :: bytes where
  "PAIRING_APP_ID = str_bytes ''com.rexvane.inkhole/ssh-pair-v2''"

definition PAIR_CODE_WORDS :: nat where "PAIR_CODE_WORDS = 4"
definition SSH_NONCE_BYTES :: nat where "SSH_NONCE_BYTES = 32"
definition PAIR_CHANNEL_MAGIC :: bytes where "PAIR_CHANNEL_MAGIC = str_bytes ''IKP2''"
definition DATA_CHANNEL_MAGIC :: bytes where "DATA_CHANNEL_MAGIC = str_bytes ''IKD2''"

datatype channel_mode = PairMode | DataMode

fun mode_magic :: "channel_mode \<Rightarrow> bytes" where
  "mode_magic PairMode = PAIR_CHANNEL_MAGIC"
| "mode_magic DataMode = DATA_CHANNEL_MAGIC"

text \<open>
  Every call on a channel runs within \<open>timeout_handshake\<close> and is cancelled with the session: at any
  await the handshake may end with one of these errors.
\<close>

fun handshake_fault :: fault_meaning where
  "handshake_fault NetCancelled = Some Cancelled"
| "handshake_fault NetTimedOut = Some (Protocol ''SSH relay handshake timed out'')"
| "handshake_fault (NetLost k) = Some (Io (OtherIo k))"

definition write_channel_mode :: "channel_mode \<Rightarrow> ('z net_scheme, unit) action" where
  "write_channel_mode mode = net_write handshake_fault (mode_magic mode)"

definition read_channel_mode :: "('z net_scheme, channel_mode) action" where
  "read_channel_mode =
     io_bind (net_call handshake_fault (net_decode (read_exact 4))) (\<lambda>magic.
     if magic = PAIR_CHANNEL_MAGIC then io_ret PairMode
     else if magic = DATA_CHANNEL_MAGIC then io_ret DataMode
     else io_throw (Protocol ''unknown SSH relay channel mode''))"

record pairing_identity =
  pi_name :: string
  pi_instance_id :: string
  pi_remote_port :: nat
  pi_public_key :: string

definition pairing_identity_json :: "pairing_identity \<Rightarrow> jvalue" where
  "pairing_identity_json p =
     JObj [(''name'', JStr (pi_name p)), (''instance_id'', JStr (pi_instance_id p)),
           (''remote_port'', jnat (pi_remote_port p)), (''public_key'', JStr (pi_public_key p))]"

definition as_pairing_identity :: "jvalue \<Rightarrow> pairing_identity result" where
  "as_pairing_identity v =
     bind_r (as_struct [''name'', ''instance_id'', ''remote_port'', ''public_key''] [] v) (\<lambda>kvs.
     bind_r (field ''name'' as_str kvs) (\<lambda>n.
     bind_r (field ''instance_id'' as_str kvs) (\<lambda>i.
     bind_r (field ''remote_port'' (as_unsigned u16_max) kvs) (\<lambda>p.
     bind_r (field ''public_key'' as_str kvs) (\<lambda>k.
     Inr \<lparr>pi_name = n, pi_instance_id = i, pi_remote_port = p, pi_public_key = k\<rparr>)))))"

definition pairing_from_device :: "crates \<Rightarrow> device_identity \<Rightarrow> nat \<Rightarrow> pairing_identity" where
  "pairing_from_device E me remote_port =
     \<lparr>pi_name = id_peer_name me, pi_instance_id = id_instance_id me, pi_remote_port = remote_port,
      pi_public_key = public_key_base64 E me\<rparr>"

definition ssh_verifying_key :: "crates \<Rightarrow> string \<Rightarrow> bytes result" where
  "ssh_verifying_key E encoded =
     (let err = Protocol ''SSH relay peer public key is invalid'' in
      bind_r (decode_array E 32 err encoded) (\<lambda>b.
      reject_if (\<not> ed25519_point_ok E b) err (Inr b)))"

definition pairing_validate :: "crates \<Rightarrow> pairing_identity \<Rightarrow> unit result" where
  "pairing_validate E p =
     reject_if (trim (pi_name p) = [] \<or> 255 < length (pi_name p) \<or> \<not> valid_instance_id (pi_instance_id p)
                \<or> pi_remote_port p = 0)
       (Protocol ''invalid SSH relay peer identity'')
     (bind_r (ssh_verifying_key E (pi_public_key p)) (\<lambda>_. Inr ()))"

datatype pair_role = CreatorRole | JoinerRole

fun pair_opposite :: "pair_role \<Rightarrow> pair_role" where
  "pair_opposite CreatorRole = JoinerRole"
| "pair_opposite JoinerRole = CreatorRole"

fun pair_role_json :: "pair_role \<Rightarrow> jvalue" where
  "pair_role_json CreatorRole = JStr ''creator''"
| "pair_role_json JoinerRole = JStr ''joiner''"

definition as_pair_role :: "jvalue \<Rightarrow> pair_role result" where
  "as_pair_role v =
     bind_r (as_variant v) (\<lambda>s. if s = ''creator'' then Inr CreatorRole
                            else if s = ''joiner'' then Inr JoinerRole else Inl json_error)"

definition pake_frame_json :: "string \<Rightarrow> jvalue" where
  "pake_frame_json pake = JObj [(''pake'', JStr pake)]"

definition as_pake_frame :: "jvalue \<Rightarrow> string result" where
  "as_pake_frame v = bind_r (as_struct [''pake''] [] v) (\<lambda>kvs. field ''pake'' as_str kvs)"

record cipher_frame =
  cf_nonce :: string
  cf_ciphertext :: string

definition cipher_frame_json :: "cipher_frame \<Rightarrow> jvalue" where
  "cipher_frame_json c = JObj [(''nonce'', JStr (cf_nonce c)), (''ciphertext'', JStr (cf_ciphertext c))]"

definition as_cipher_frame :: "jvalue \<Rightarrow> cipher_frame result" where
  "as_cipher_frame v =
     bind_r (as_struct [''nonce'', ''ciphertext''] [] v) (\<lambda>kvs.
     bind_r (field ''nonce'' as_str kvs) (\<lambda>n.
     bind_r (field ''ciphertext'' as_str kvs) (\<lambda>c.
     Inr \<lparr>cf_nonce = n, cf_ciphertext = c\<rparr>)))"

definition pair_payload_json :: "pair_role \<Rightarrow> pairing_identity \<Rightarrow> jvalue" where
  "pair_payload_json role p = JObj [(''role'', pair_role_json role), (''identity'', pairing_identity_json p)]"

definition as_pair_payload :: "jvalue \<Rightarrow> (pair_role \<times> pairing_identity) result" where
  "as_pair_payload v =
     bind_r (as_struct [''role'', ''identity''] [] v) (\<lambda>kvs.
     bind_r (field ''role'' as_pair_role kvs) (\<lambda>r.
     bind_r (field ''identity'' as_pairing_identity kvs) (\<lambda>p. Inr (r, p))))"

record data_hello =
  dh_sender_instance_id :: string
  dh_receiver_instance_id :: string
  dh_nonce :: string
  dh_signature :: string

definition data_hello_json :: "data_hello \<Rightarrow> jvalue" where
  "data_hello_json h =
     JObj [(''sender_instance_id'', JStr (dh_sender_instance_id h)),
           (''receiver_instance_id'', JStr (dh_receiver_instance_id h)),
           (''nonce'', JStr (dh_nonce h)), (''signature'', JStr (dh_signature h))]"

definition as_data_hello :: "jvalue \<Rightarrow> data_hello result" where
  "as_data_hello v =
     bind_r (as_struct [''sender_instance_id'', ''receiver_instance_id'', ''nonce'', ''signature''] [] v) (\<lambda>kvs.
     bind_r (field ''sender_instance_id'' as_str kvs) (\<lambda>s.
     bind_r (field ''receiver_instance_id'' as_str kvs) (\<lambda>r.
     bind_r (field ''nonce'' as_str kvs) (\<lambda>n.
     bind_r (field ''signature'' as_str kvs) (\<lambda>g.
     Inr \<lparr>dh_sender_instance_id = s, dh_receiver_instance_id = r, dh_nonce = n, dh_signature = g\<rparr>)))))"

record verified_data_hello =
  vh_sender_instance_id :: string
  vh_nonce :: bytes

record data_answer =
  da_sender_instance_id :: string
  da_receiver_instance_id :: string
  da_client_nonce :: string
  da_server_nonce :: string
  da_quic_fingerprint :: string
  da_quic_secret :: string
  da_signature :: string

definition data_answer_json :: "data_answer \<Rightarrow> jvalue" where
  "data_answer_json a =
     JObj [(''sender_instance_id'', JStr (da_sender_instance_id a)),
           (''receiver_instance_id'', JStr (da_receiver_instance_id a)),
           (''client_nonce'', JStr (da_client_nonce a)), (''server_nonce'', JStr (da_server_nonce a)),
           (''quic_fingerprint'', JStr (da_quic_fingerprint a)), (''quic_secret'', JStr (da_quic_secret a)),
           (''signature'', JStr (da_signature a))]"

definition as_data_answer :: "jvalue \<Rightarrow> data_answer result" where
  "as_data_answer v =
     bind_r (as_struct [''sender_instance_id'', ''receiver_instance_id'', ''client_nonce'', ''server_nonce'', ''quic_fingerprint'', ''quic_secret'', ''signature''] [] v) (\<lambda>kvs.
     bind_r (field ''sender_instance_id'' as_str kvs) (\<lambda>s.
     bind_r (field ''receiver_instance_id'' as_str kvs) (\<lambda>r.
     bind_r (field ''client_nonce'' as_str kvs) (\<lambda>c.
     bind_r (field ''server_nonce'' as_str kvs) (\<lambda>n.
     bind_r (field ''quic_fingerprint'' as_str kvs) (\<lambda>f.
     bind_r (field ''quic_secret'' as_str kvs) (\<lambda>q.
     bind_r (field ''signature'' as_str kvs) (\<lambda>g.
     Inr \<lparr>da_sender_instance_id = s, da_receiver_instance_id = r, da_client_nonce = c, da_server_nonce = n,
          da_quic_fingerprint = f, da_quic_secret = q, da_signature = g\<rparr>))))))))"

record sender_authentication =
  sa_quic_fingerprint :: string
  sa_quic_secret :: string
  sa_tunnel_key :: bytes

section \<open>Frames of a channel\<close>

definition ssh_send :: "crates \<Rightarrow> jvalue \<Rightarrow> ('z net_scheme, unit) action" where
  "ssh_send E v = io_bind (io_lift (ssh_write_frame E v)) (net_write handshake_fault)"

definition ssh_recv :: "crates \<Rightarrow> (jvalue \<Rightarrow> 'a result) \<Rightarrow> ('z net_scheme, 'a) action" where
  "ssh_recv E decode = net_call handshake_fault (net_decode (ssh_read_frame E decode))"

section \<open>Pairing codes\<close>

definition invalid_pair_code :: core_error where
  "invalid_pair_code = InvalidRequest ''SSH pairing code is invalid''"

definition pair_port :: "string \<Rightarrow> nat option" where
  "pair_port s = (case parse_u16 s of Some p \<Rightarrow> (if p \<noteq> 0 then Some p else None) | None \<Rightarrow> None)"

definition normalize_pair_code :: "string list \<Rightarrow> string \<Rightarrow> string result" where
  "normalize_pair_code word_list raw =
     (let code = to_ascii_lowercase (trim raw); components = split_on CHR ''-'' code in
      reject_if (length components \<noteq> PAIR_CODE_WORDS + 1
                 \<or> pair_port (components ! 0) = None
                 \<or> list_ex (\<lambda>word. word = [] \<or> \<not> list_all is_lower_letter word \<or> word \<notin> set word_list) (tl components)
                 \<or> length (remdups (tl components)) < 2)
        invalid_pair_code (Inr code))"

text \<open>Up to 64 draws of four words.\<close>

fun draw_pair_code :: "string list \<Rightarrow> nat \<Rightarrow> nat list list \<Rightarrow> string result" where
  "draw_pair_code word_list remote_port [] = Inl (Crypto ''could not generate an SSH pairing code'')"
| "draw_pair_code word_list remote_port (picks # draws) =
     (let code = dec remote_port @ CHR ''-'' # join_with CHR ''-'' (map (\<lambda>i. word_list ! i) (take PAIR_CODE_WORDS picks)) in
      case normalize_pair_code word_list code of
        Inr _ \<Rightarrow> Inr code
      | Inl _ \<Rightarrow> draw_pair_code word_list remote_port draws)"

definition generate_pair_code :: "string list \<Rightarrow> nat list list \<Rightarrow> nat \<Rightarrow> string result" where
  "generate_pair_code word_list draws remote_port =
     reject_if (remote_port = 0) (InvalidRequest ''SSH relay remote port is unavailable'')
       (draw_pair_code word_list remote_port (take 64 draws))"

definition pair_code_port :: "string list \<Rightarrow> string \<Rightarrow> nat result" where
  "pair_code_port word_list code =
     bind_r (normalize_pair_code word_list code) (\<lambda>code.
     ok_or (pair_port (hd (split_on CHR ''-'' code)))
       (InvalidRequest ''SSH pairing code has an invalid port''))"

lemma draw_pair_code_Inr: "draw_pair_code word_list port draws = Inr code \<Longrightarrow>
  \<exists>picks c. code = dec port @ CHR ''-'' # join_with CHR ''-'' (map (\<lambda>i. word_list ! i) (take PAIR_CODE_WORDS picks)) \<and>
    normalize_pair_code word_list code = Inr c \<and> picks \<in> set draws"
  by (induction draws) (auto simp: Let_def split: sum.splits)

text \<open>The pairing code a device shows is what another device joins with: any spelling of a generated
  code in other letter case or with surrounding white space normalises to the code itself,
  it names the port the code was made for, and its words are not all the same.
\<close>

theorem ssh_pair_code_roundtrip:
  assumes "generate_pair_code word_list draws port = Inr code" "port \<le> u16_max"
    and "\<forall>w \<in> set word_list. list_all is_lower_letter w"
    and "\<forall>picks \<in> set draws. \<forall>i \<in> set picks. i < length word_list"
    and "to_ascii_lowercase (trim typed) = code"
  shows "normalize_pair_code word_list typed = Inr code \<and> pair_code_port word_list typed = Inr port \<and>
    2 \<le> card (set (tl (split_on CHR ''-'' code)))"
proof -
  have port: "port \<noteq> 0" and draw: "draw_pair_code word_list port (take 64 draws) = Inr code"
    using assms(1) by (auto simp: generate_pair_code_def result_simps)
  from draw_pair_code_Inr [OF draw] obtain picks c where
    code: "code = dec port @ CHR ''-'' # join_with CHR ''-'' (map (\<lambda>i. word_list ! i) (take PAIR_CODE_WORDS picks))"
    and c: "normalize_pair_code word_list code = Inr c" and picks: "picks \<in> set draws"
    by (auto dest: in_set_takeD)
  let ?words = "map (\<lambda>i. word_list ! i) (take PAIR_CODE_WORDS picks)"
  have "set ?words \<subseteq> set word_list"
    using assms(4) picks by (auto dest!: in_set_takeD)
  then have "\<forall>w \<in> set ?words. list_all code_char w"
    using assms(3) by (auto simp: list_all_iff code_char_def)
  then have "list_all code_char (join_with CHR ''-'' ?words)"
    using join_with_chars [of "CHR ''-''" ?words] code_char_def [of "CHR ''-''"] unfolding list_all_iff by blast
  then have "list_all code_char code"
    by (auto simp: code list_all_iff code_char_def dest: dec_digits)
  then have fixed: "to_ascii_lowercase (trim code) = code" by (rule code_fixed)
  have "CHR ''-'' \<notin> set (dec port)" using dec_digits [of "CHR ''-''" port] by (auto simp: is_digit_def)
  then have first: "split_on CHR ''-'' code = dec port # tl (split_on CHR ''-'' code)"
    unfolding code by (simp add: split_on_append)
  have "normalize_pair_code word_list typed = Inr code" "2 \<le> length (remdups (tl (split_on CHR ''-'' code)))"
    using c by (auto simp: normalize_pair_code_def Let_def fixed assms(5) result_simps)
  moreover have "pair_port (dec port) = Some port"
    using port assms(2) by (simp add: pair_port_def parse_u16_dec)
  ultimately show ?thesis
    using first by (metis pair_code_port_def bind_r_simps(2) list.sel(1) ok_or_simps(2) length_remdups_card_conv)
qed
definition sample_words :: "string list" where "sample_words = [''able'', ''acid'']"
definition sample_pair_code :: string where "sample_pair_code = ''7000-able-acid-able-acid''"

lemma sample_pair_code_normal: "normalize_pair_code sample_words sample_pair_code = Inr sample_pair_code"
proof -
  have "list_all code_char sample_pair_code"
    by (simp add: sample_pair_code_def code_char_def is_lower_letter_def is_digit_def)
  from code_fixed [OF this] show ?thesis
    by (simp add: normalize_pair_code_def Let_def)
      (simp add: sample_pair_code_def sample_words_def pair_port_def parse_u16_def parse_unsigned_def is_digit_def
        digits_value_def digit_value_def u16_max_def PAIR_CODE_WORDS_def is_lower_letter_def)
qed

lemma sample_pair_code_generated: "generate_pair_code sample_words [[0, 1, 0, 1]] 7000 = Inr sample_pair_code"
proof -
  have "dec 7000 = ''7000''" by (simp add: dec.simps digit_char_def char_of_def bit_0)
  then show ?thesis
    using sample_pair_code_normal
    by (simp add: generate_pair_code_def PAIR_CODE_WORDS_def join_with_def sample_words_def sample_pair_code_def)
qed

theorem ssh_pair_code_roundtrip_witness:
  "normalize_pair_code sample_words ''7000-Able-acid-able-ACID'' = Inr sample_pair_code \<and>
   pair_code_port sample_words ''7000-Able-acid-able-ACID'' = Inr 7000 \<and>
   2 \<le> card (set (tl (split_on CHR ''-'' sample_pair_code)))"
proof (rule ssh_pair_code_roundtrip [OF sample_pair_code_generated])
  show "to_ascii_lowercase (trim ''7000-Able-acid-able-ACID'') = sample_pair_code"
    by (simp add: trim_graphic sample_pair_code_def to_ascii_lowercase_def ascii_lower_char_def char_of_def bit_0)
qed (simp_all add: u16_max_def sample_words_def is_lower_letter_def)

section \<open>Signed messages and keys\<close>

text \<open>A domain and length-prefixed fields.\<close>

definition ssh_message :: "bytes \<Rightarrow> bytes list \<Rightarrow> bytes" where
  "ssh_message domain fs = domain @ concat (map (\<lambda>f. be_bytes 4 (length f mod 2 ^ 32) @ f) fs)"

definition client_auth_message :: "string \<Rightarrow> string \<Rightarrow> bytes \<Rightarrow> bytes" where
  "client_auth_message sender receiver nonce =
     ssh_message (str_bytes ''inkhole/ssh-relay-v2/client'') [str_bytes sender, str_bytes receiver, nonce]"

definition server_auth_message :: "string \<Rightarrow> string \<Rightarrow> bytes \<Rightarrow> bytes \<Rightarrow> string \<Rightarrow> string \<Rightarrow> bytes" where
  "server_auth_message sender receiver client_nonce server_nonce fingerprint secret =
     ssh_message (str_bytes ''inkhole/ssh-relay-v2/server'')
       [str_bytes sender, str_bytes receiver, client_nonce, server_nonce, str_bytes fingerprint, str_bytes secret]"

definition ssh_tunnel_key :: "crates \<Rightarrow> bytes \<Rightarrow> bytes \<Rightarrow> string \<Rightarrow> string \<Rightarrow> bytes" where
  "ssh_tunnel_key E client_nonce server_nonce client_public server_public =
     hkdf_sha256 E
       (ssh_message (str_bytes ''inkhole/ssh-relay-v2/tunnel'')
          [client_nonce, server_nonce, str_bytes client_public, str_bytes server_public])
       (str_bytes ''record-key'')"

definition ssh_decode_nonce :: "crates \<Rightarrow> string \<Rightarrow> bytes result" where
  "ssh_decode_nonce E value =
     (let err = Protocol ''SSH relay nonce is invalid'' in
      bind_r (ok_or (hex_decode E value) err) (\<lambda>b. reject_if (length b \<noteq> SSH_NONCE_BYTES) err (Inr b)))"

definition valid_fingerprint :: "string \<Rightarrow> bool" where
  "valid_fingerprint value = (length value = 64 \<and> list_all is_lower_hex value)"

definition ssh_verify_signature :: "crates \<Rightarrow> string \<Rightarrow> bytes \<Rightarrow> string \<Rightarrow> unit result" where
  "ssh_verify_signature E public_key message encoded =
     bind_r (decode_array E 64 (Protocol ''SSH relay signature is invalid'') encoded) (\<lambda>signature.
     bind_r (ssh_verifying_key E public_key) (\<lambda>key.
     reject_if (\<not> ed25519_verify E key message signature)
       (Protocol ''SSH relay signature verification failed'') (Inr ())))"

section \<open>Pairing\<close>

definition encrypt_pair_payload :: "crates \<Rightarrow> bytes \<Rightarrow> bytes \<Rightarrow> pair_role \<Rightarrow> pairing_identity \<Rightarrow> cipher_frame" where
  "encrypt_pair_payload E key nonce role p =
     \<lparr>cf_nonce = hex_encode E nonce,
      cf_ciphertext = hex_encode E (secretbox_encrypt E key nonce (to_vec E (pair_payload_json role p)))\<rparr>"

definition decrypt_pair_payload :: "crates \<Rightarrow> bytes \<Rightarrow> cipher_frame \<Rightarrow> (pair_role \<times> pairing_identity) result" where
  "decrypt_pair_payload E key frame =
     (let bad_nonce = Protocol ''SSH pairing nonce is invalid'' in
      bind_r (ok_or (hex_decode E (cf_nonce frame)) bad_nonce) (\<lambda>nonce.
      reject_if (length nonce \<noteq> 24) bad_nonce
      (bind_r (ok_or (hex_decode E (cf_ciphertext frame)) (Protocol ''SSH pairing ciphertext is invalid'')) (\<lambda>ciphertext.
       bind_r (ok_or (secretbox_decrypt E key nonce ciphertext) (Crypto ''decrypt SSH pairing identity failed'')) (\<lambda>plaintext.
       bind_r (from_slice E plaintext) as_pair_payload)))))"

text \<open>
  The key exchange: \<open>pake\<close> gives, for a password, what is sent and how the answer is used; it stands
  for one draw of the SPAKE2 state with the identity \<open>PAIRING_APP_ID\<close>.
\<close>

type_synonym pake_start = "bytes \<Rightarrow> bytes \<Rightarrow> bytes \<times> (bytes \<Rightarrow> string + bytes)"

definition establish_pairing_key :: "crates \<Rightarrow> pake_start \<Rightarrow> string \<Rightarrow> ('z net_scheme, bytes) action" where
  "establish_pairing_key E pake code =
     (let (outbound, finish) = pake (str_bytes code) PAIRING_APP_ID in
      io_then (ssh_send E (pake_frame_json (hex_encode E outbound)))
      (io_bind (ssh_recv E as_pake_frame) (\<lambda>text.
       io_bind (io_lift (ok_or (hex_decode E text) (Protocol ''SSH pairing PAKE value is invalid''))) (\<lambda>peer.
       io_bind (io_lift (case finish peer of
           Inl error \<Rightarrow> Inl (Crypto (''SSH pairing SPAKE2 failed: '' @ error)) | Inr shared \<Rightarrow> Inr shared)) (\<lambda>shared.
       io_ret (hkdf_sha256 E shared (str_bytes ''inkhole/ssh-pair-v2/control'')))))))"

definition exchange_pairing ::
  "crates \<Rightarrow> string list \<Rightarrow> pake_start \<Rightarrow> string \<Rightarrow> pair_role \<Rightarrow> pairing_identity \<Rightarrow> ('z net_scheme, pairing_identity) action" where
  "exchange_pairing E word_list pake code role me =
     io_then (io_lift (pairing_validate E me))
     (io_bind (io_lift (normalize_pair_code word_list code)) (\<lambda>code.
      io_bind (establish_pairing_key E pake code) (\<lambda>key.
      io_bind net_random (\<lambda>nonce.
      io_then (ssh_send E (cipher_frame_json (encrypt_pair_payload E key nonce role me)))
      (io_bind (ssh_recv E as_cipher_frame) (\<lambda>inbound.
       io_bind (io_lift (decrypt_pair_payload E key inbound)) (\<lambda>(peer_role, peer).
       io_reject_if (peer_role \<noteq> pair_opposite role) (Protocol ''SSH pairing role reflection detected'')
       (io_then (io_lift (pairing_validate E peer)) (io_ret peer)))))))))"

section \<open>The data channel\<close>

definition send_data_hello ::
  "crates \<Rightarrow> device_identity \<Rightarrow> pairing_identity \<Rightarrow> ('z net_scheme, bytes) action" where
  "send_data_hello E me peer =
     io_then (io_lift (pairing_validate E peer))
     (io_bind net_random (\<lambda>nonce.
      let message = client_auth_message (id_instance_id me) (pi_instance_id peer) nonce in
      io_then (ssh_send E (data_hello_json
        \<lparr>dh_sender_instance_id = id_instance_id me, dh_receiver_instance_id = pi_instance_id peer,
         dh_nonce = hex_encode E nonce, dh_signature = sign_base64 E me message\<rparr>))
      (io_ret nonce)))"

definition receive_data_hello :: "crates \<Rightarrow> ('z net_scheme, data_hello) action" where
  "receive_data_hello E = ssh_recv E as_data_hello"

definition verify_data_hello ::
  "crates \<Rightarrow> data_hello \<Rightarrow> device_identity \<Rightarrow> pairing_identity \<Rightarrow> verified_data_hello result" where
  "verify_data_hello E hello me peer =
     reject_if (dh_sender_instance_id hello \<noteq> pi_instance_id peer \<or> dh_receiver_instance_id hello \<noteq> id_instance_id me)
       (Protocol ''SSH relay data channel targets the wrong peer'')
     (bind_r (ssh_decode_nonce E (dh_nonce hello)) (\<lambda>nonce.
      bind_r (ssh_verify_signature E (pi_public_key peer)
                (client_auth_message (dh_sender_instance_id hello) (dh_receiver_instance_id hello) nonce)
                (dh_signature hello)) (\<lambda>_.
      Inr \<lparr>vh_sender_instance_id = dh_sender_instance_id hello, vh_nonce = nonce\<rparr>)))"

definition bad_credentials :: "string \<Rightarrow> string \<Rightarrow> bool" where
  "bad_credentials fingerprint secret =
     (\<not> valid_fingerprint fingerprint \<or> length secret < 32 \<or> 128 < length secret)"

definition send_data_answer ::
  "crates \<Rightarrow> device_identity \<Rightarrow> pairing_identity \<Rightarrow> verified_data_hello \<Rightarrow> string \<Rightarrow> string
    \<Rightarrow> ('z net_scheme, bytes) action" where
  "send_data_answer E me peer hello fingerprint secret =
     io_reject_if (vh_sender_instance_id hello \<noteq> pi_instance_id peer \<or> bad_credentials fingerprint secret)
       (Protocol ''invalid SSH relay QUIC credentials'')
     (io_bind net_random (\<lambda>server_nonce.
      let message = server_auth_message (pi_instance_id peer) (id_instance_id me) (vh_nonce hello) server_nonce
                      fingerprint secret in
      io_then (ssh_send E (data_answer_json
        \<lparr>da_sender_instance_id = pi_instance_id peer, da_receiver_instance_id = id_instance_id me,
         da_client_nonce = hex_encode E (vh_nonce hello), da_server_nonce = hex_encode E server_nonce,
         da_quic_fingerprint = fingerprint, da_quic_secret = secret, da_signature = sign_base64 E me message\<rparr>))
      (io_ret (ssh_tunnel_key E (vh_nonce hello) server_nonce (pi_public_key peer) (public_key_base64 E me)))))"

definition check_data_answer ::
  "crates \<Rightarrow> device_identity \<Rightarrow> pairing_identity \<Rightarrow> bytes \<Rightarrow> data_answer \<Rightarrow> sender_authentication result" where
  "check_data_answer E me peer client_nonce answer =
     (let invalid = Protocol ''invalid SSH relay data answer'' in
      reject_if (da_sender_instance_id answer \<noteq> id_instance_id me
                 \<or> da_receiver_instance_id answer \<noteq> pi_instance_id peer) invalid
      (bind_r (ssh_decode_nonce E (da_client_nonce answer)) (\<lambda>echoed.
       reject_if (echoed \<noteq> client_nonce \<or> bad_credentials (da_quic_fingerprint answer) (da_quic_secret answer)) invalid
       (bind_r (ssh_decode_nonce E (da_server_nonce answer)) (\<lambda>server_nonce.
        bind_r (ssh_verify_signature E (pi_public_key peer)
                  (server_auth_message (id_instance_id me) (pi_instance_id peer) client_nonce server_nonce
                     (da_quic_fingerprint answer) (da_quic_secret answer))
                  (da_signature answer)) (\<lambda>_.
        Inr \<lparr>sa_quic_fingerprint = da_quic_fingerprint answer, sa_quic_secret = da_quic_secret answer,
             sa_tunnel_key = ssh_tunnel_key E client_nonce server_nonce (public_key_base64 E me) (pi_public_key peer)\<rparr>))))))"

definition receive_data_answer ::
  "crates \<Rightarrow> device_identity \<Rightarrow> pairing_identity \<Rightarrow> bytes \<Rightarrow> ('z net_scheme, sender_authentication) action" where
  "receive_data_answer E me peer client_nonce =
     io_bind (ssh_recv E as_data_answer) (\<lambda>answer. io_lift (check_data_answer E me peer client_nonce answer))"

section \<open>Round trips\<close>

lemma as_pairing_identity_json:
  "pi_remote_port p \<le> u16_max \<Longrightarrow> as_pairing_identity (pairing_identity_json p) = Inr p"
  by (simp add: as_pairing_identity_def pairing_identity_json_def field_def)

lemma as_pair_payload_json:
  "pi_remote_port p \<le> u16_max \<Longrightarrow> as_pair_payload (pair_payload_json role p) = Inr (role, p)"
  by (cases role)
     (simp_all add: as_pair_payload_def pair_payload_json_def field_def as_pair_role_def as_pairing_identity_json)

lemma ssh_structures_json [simp]:
  "as_pake_frame (pake_frame_json t) = Inr t"
  "as_cipher_frame (cipher_frame_json c) = Inr c"
  "as_data_hello (data_hello_json h) = Inr h"
  "as_data_answer (data_answer_json a) = Inr a"
  by (simp_all add: as_pake_frame_def pake_frame_json_def as_cipher_frame_def cipher_frame_json_def
      as_data_hello_def data_hello_json_def as_data_answer_def data_answer_json_def field_def)

definition ssh_fits :: "crates \<Rightarrow> jvalue \<Rightarrow> bool" where
  "ssh_fits E v \<longleftrightarrow> length (to_vec E v) \<le> MAX_RELAY_FRAME"

lemma ssh_send_run:
  assumes "json_nonempty E" "calm s" "ssh_fits E v"
  shows "ssh_send E v s = (Inr (), s\<lparr>nt_step := Suc (nt_step s), nt_output := nt_output s @ frame_of E v\<rparr>)"
proof -
  have "to_vec E v \<noteq> []" using assms(1) by (simp add: json_nonempty_def to_vec_def)
  then show ?thesis
    using assms(2,3)
    by (simp add: ssh_send_def ssh_write_frame_def ssh_fits_def frame_of_def Let_def net_write_def io_bind_def
        io_match_def io_lift_def)
qed

lemma ssh_recv_run:
  assumes "json_roundtrip E" "json_nonempty E" "calm s" "ssh_fits E v" "decode v = Inr x"
    and "nt_input s = frame_of E v @ rest"
  shows "ssh_recv E decode s = (Inr x, s\<lparr>nt_step := Suc (nt_step s), nt_input := rest\<rparr>)"
proof -
  have ok: "frame_ok MAX_RELAY_FRAME (to_vec E v)"
    using assms(2,4) by (simp add: frame_ok_def ssh_fits_def json_nonempty_def to_vec_def)
  have "ssh_read_frame E decode (frame_of E v @ rest) = Inr (x, rest)"
    using relay.get_put [OF ok] assms(1,5)
    by (simp add: ssh_read_frame_def frame_of_def from_slice_def to_vec_def json_roundtrip_def)
  then show ?thesis
    using assms(3,6) by (simp add: ssh_recv_def net_decode_def)
qed

lemma post_ssh_send:
  "json_nonempty E \<Longrightarrow> calm s \<Longrightarrow> ssh_fits E v \<Longrightarrow> post (ssh_send E v) s Q \<longleftrightarrow>
     Q (Inr ()) (s\<lparr>nt_step := Suc (nt_step s), nt_output := nt_output s @ frame_of E v\<rparr>)"
  by (simp add: post_def ssh_send_run)

lemma post_ssh_recv:
  "json_roundtrip E \<Longrightarrow> json_nonempty E \<Longrightarrow> calm s \<Longrightarrow> ssh_fits E v \<Longrightarrow> decode v = Inr x \<Longrightarrow>
     nt_input s = frame_of E v @ rest \<Longrightarrow> post (ssh_recv E decode) s Q \<longleftrightarrow>
     Q (Inr x) (s\<lparr>nt_step := Suc (nt_step s), nt_input := rest\<rparr>)"
  by (simp add: post_def ssh_recv_run [where decode = decode])

lemma post_random: "post net_random s Q \<longleftrightarrow> Q (Inr (nt_random s (nt_step s))) (s\<lparr>nt_step := Suc (nt_step s)\<rparr>)"
  by (simp add: post_def net_random_def)

text \<open>What is read back from a sealed payload.\<close>

lemma decrypt_encrypt:
  assumes "secretbox_correct E" "json_roundtrip E" "hex_roundtrip E" "length nonce = 24" "pi_remote_port p \<le> u16_max"
  shows "decrypt_pair_payload E key (encrypt_pair_payload E key nonce role p) = Inr (role, p)"
  using assms
  by (simp add: decrypt_pair_payload_def encrypt_pair_payload_def hex_roundtrip_def secretbox_correct_def
      json_roundtrip_def from_slice_def to_vec_def as_pair_payload_json Let_def)

lemma ssh_decode_nonce_encode:
  "hex_roundtrip E \<Longrightarrow> length n = SSH_NONCE_BYTES \<Longrightarrow> ssh_decode_nonce E (hex_encode E n) = Inr n"
  by (simp add: ssh_decode_nonce_def hex_roundtrip_def Let_def)

lemma ssh_verify_own:
  assumes "base64_roundtrip E" "ed25519_correct E" "length (id_signing_key me) = 32"
  shows "ssh_verify_signature E (public_key_base64 E me) m (sign_base64 E me m) = Inr ()"
  using assms
  by (simp add: ssh_verify_signature_def ssh_verifying_key_def decode_array_def public_key_base64_def sign_base64_def
      base64_roundtrip_def ed25519_correct_def Let_def)

section \<open>What a signature covers\<close>

text \<open>
  The fields of a message determine it and are determined by it, as long as each is shorter than
  \<open>2 ^ 32\<close> bytes, and messages of different domains differ.
\<close>

abbreviation short_fields :: "bytes list \<Rightarrow> bool" where
  "short_fields fs \<equiv> \<forall>f \<in> set fs. length f < 2 ^ 32"

lemma ssh_fields_inj:
  assumes "concat (map (\<lambda>f. be_bytes 4 (length f mod 2 ^ 32) @ f) fs) =
    concat (map (\<lambda>f. be_bytes 4 (length f mod 2 ^ 32) @ f) gs)" "short_fields fs" "short_fields gs"
  shows "fs = gs"
  using assms
proof (induction fs arbitrary: gs)
  case Nil
  then show ?case by (cases gs) (auto dest: arg_cong [where f = length])
next
  case (Cons f fs)
  then obtain g gs' where gs: "gs = g # gs'"
    by (cases gs) (auto dest: arg_cong [where f = length])
  have "be_bytes 4 (length f) = be_bytes 4 (length g)"
    and tails: "f @ concat (map (\<lambda>f. be_bytes 4 (length f mod 2 ^ 32) @ f) fs) =
      g @ concat (map (\<lambda>f. be_bytes 4 (length f mod 2 ^ 32) @ f) gs')"
    using Cons.prems by (simp_all add: gs)
  then have "length f = length g"
    using be_bytes_inj [of "length f" 4 "length g"] Cons.prems(2,3) by (simp add: gs)
  with tails have "f = g" "fs = gs'"
    using Cons.IH [of gs'] Cons.prems(2,3) by (simp_all add: gs)
  then show ?case by (simp add: gs)
qed

lemma ssh_message_inj:
  assumes "length d = length d'" "short_fields fs" "short_fields gs"
  shows "ssh_message d fs = ssh_message d' gs \<longleftrightarrow> d = d' \<and> fs = gs"
  using assms ssh_fields_inj [of fs gs] by (auto simp: ssh_message_def)

lemma auth_messages_inj:
  assumes "short_fields [str_bytes a, str_bytes b, n, m, str_bytes f, str_bytes k]"
    "short_fields [str_bytes a', str_bytes b', n', m', str_bytes f', str_bytes k']"
  shows "server_auth_message a b n m f k = server_auth_message a' b' n' m' f' k' \<longleftrightarrow>
      a = a' \<and> b = b' \<and> n = n' \<and> m = m' \<and> f = f' \<and> k = k'"
  using assms by (simp add: server_auth_message_def ssh_message_inj)

lemma client_messages_inj:
  assumes "short_fields [str_bytes a, str_bytes b, n]" "short_fields [str_bytes a', str_bytes b', n']"
  shows "client_auth_message a b n = client_auth_message a' b' n' \<longleftrightarrow> a = a' \<and> b = b' \<and> n = n'"
  using assms by (simp add: client_auth_message_def ssh_message_inj)

lemma auth_messages_apart:
  assumes "short_fields [str_bytes a, str_bytes b, n, m, str_bytes f, str_bytes k]"
    "short_fields [str_bytes a', str_bytes b', n']"
  shows "server_auth_message a b n m f k \<noteq> client_auth_message a' b' n'"
  using assms by (simp add: server_auth_message_def client_auth_message_def ssh_message_inj)

lemma ssh_verify_signature_Inr:
  "ssh_verify_signature E public_key message encoded = Inr u \<Longrightarrow>
     \<exists>key signature. ssh_verifying_key E public_key = Inr key \<and> base64_decode E encoded = Some signature \<and>
       ed25519_verify E key message signature"
  by (auto simp: ssh_verify_signature_def result_simps decode_array_Inr)

lemma ssh_decode_nonce_length: "ssh_decode_nonce E t = Inr n \<Longrightarrow> length n = SSH_NONCE_BYTES"
  by (auto simp: ssh_decode_nonce_def Let_def result_simps)

text \<open>The hello and the answer of one data channel.\<close>

definition hello_of :: "crates \<Rightarrow> device_identity \<Rightarrow> string \<Rightarrow> bytes \<Rightarrow> data_hello" where
  "hello_of E me receiver n =
     \<lparr>dh_sender_instance_id = id_instance_id me, dh_receiver_instance_id = receiver, dh_nonce = hex_encode E n,
      dh_signature = sign_base64 E me (client_auth_message (id_instance_id me) receiver n)\<rparr>"

definition answer_of ::
  "crates \<Rightarrow> device_identity \<Rightarrow> string \<Rightarrow> bytes \<Rightarrow> bytes \<Rightarrow> string \<Rightarrow> string \<Rightarrow> data_answer" where
  "answer_of E me sender n m fingerprint secret =
     \<lparr>da_sender_instance_id = sender, da_receiver_instance_id = id_instance_id me, da_client_nonce = hex_encode E n,
      da_server_nonce = hex_encode E m, da_quic_fingerprint = fingerprint, da_quic_secret = secret,
      da_signature = sign_base64 E me (server_auth_message sender (id_instance_id me) n m fingerprint secret)\<rparr>"

definition sample_laptop :: device_identity where
  "sample_laptop = sample_identity\<lparr>id_instance_id := replicate 32 CHR ''b'', id_signing_key := replicate 32 4\<rparr>"

definition sample_nonce :: bytes where "sample_nonce = replicate 32 1"
definition sample_answer_nonce :: bytes where "sample_answer_nonce = replicate 32 5"
definition sample_quic_fingerprint :: string where "sample_quic_fingerprint = replicate 64 CHR ''a''"
definition sample_quic_secret :: string where "sample_quic_secret = replicate 32 CHR ''s''"

section \<open>Two devices pair\<close>

text \<open>One side of the pairing, when the other side answers with its PAKE message and its identity.\<close>

lemma pairing_side:
  assumes E: "json_roundtrip E" "json_nonempty E" "hex_roundtrip E" "secretbox_correct E"
    and calm: "calm s" and me: "pairing_validate E me = Inr ()" and code: "normalize_pair_code word_list typed = Inr code"
    and pake: "pake (str_bytes code) PAIRING_APP_ID = (sent, finish)" "finish peer_sent = Inr shared"
    and key: "key = hkdf_sha256 E shared (str_bytes ''inkhole/ssh-pair-v2/control'')"
    and peer: "pairing_validate E peer = Inr ()" "pi_remote_port peer \<le> u16_max" "length peer_nonce = 24"
    and nonce: "nt_random s (nt_step s + 2) = nonce"
    and fits: "ssh_fits E (pake_frame_json (hex_encode E sent))"
      "ssh_fits E (pake_frame_json (hex_encode E peer_sent))"
      "ssh_fits E (cipher_frame_json (encrypt_pair_payload E key nonce role me))"
      "ssh_fits E (cipher_frame_json (encrypt_pair_payload E key peer_nonce (pair_opposite role) peer))"
    and input: "nt_input s = frame_of E (pake_frame_json (hex_encode E peer_sent)) @
      frame_of E (cipher_frame_json (encrypt_pair_payload E key peer_nonce (pair_opposite role) peer))"
  shows "exchange_pairing E word_list pake typed role me s = (Inr peer, s\<lparr>nt_step := nt_step s + 5, nt_input := [],
    nt_output := nt_output s @ frame_of E (pake_frame_json (hex_encode E sent)) @
       frame_of E (cipher_frame_json (encrypt_pair_payload E key nonce role me))\<rparr>)"
proof -
  have hex: "hex_decode E (hex_encode E peer_sent) = Some peer_sent"
    using E(3) by (simp add: hex_roundtrip_def)
  note opened = decrypt_encrypt [OF E(4,1,3) peer(3,2), of key "pair_opposite role"]
  note hello = post_ssh_recv [where decode = as_pake_frame, OF E(1,2) _ fits(2) ssh_structures_json(1),
      where rest = "frame_of E (cipher_frame_json (encrypt_pair_payload E key peer_nonce (pair_opposite role) peer))"]
  note answer = post_ssh_recv [where decode = as_cipher_frame, OF E(1,2) _ fits(4) ssh_structures_json(2), where rest = "[]"]
  have "post (exchange_pairing E word_list pake typed role me) s (\<lambda>r s'. (r, s') = (Inr peer,
     s\<lparr>nt_step := nt_step s + 5, nt_input := [],
    nt_output := nt_output s @ frame_of E (pake_frame_json (hex_encode E sent)) @
       frame_of E (cipher_frame_json (encrypt_pair_payload E key nonce role me))\<rparr>))"
    unfolding exchange_pairing_def establish_pairing_key_def
    using calm nonce
    by (simp add: me code pake post_ssh_send [OF E(2)] fits hello answer hex post_random peer opened input key [symmetric]
        eval_nat_numeral)
  then show ?thesis by (auto simp: post_def split: prod.splits)
qed

end
