(* ===== verification/SshClient.thy ===== *)
theory SshClient
  imports SshAuth
begin

text \<open>
  The SSH connection of the relay (\<open>ssh/client.rs\<close>): the connection profile and its checks, the
  pinned host key, the reverse-forwarded port and the channels that arrive on it, and the
  identification line of a server. The SSH library is a parameter: what a server
  presents and how each call ends are the fields of \<open>ssh_server\<close>.
\<close>

section \<open>The profile\<close>

definition INCOMING_CHANNEL_CAPACITY :: nat where "INCOMING_CHANNEL_CAPACITY = 64"
definition MAX_PRIVATE_KEY_BYTES :: nat where "MAX_PRIVATE_KEY_BYTES = 1024 * 1024"

record ssh_profile =
  pf_id :: string
  pf_host :: string
  pf_port :: nat
  pf_user :: string
  pf_private_key :: string
  pf_private_key_label :: string
  pf_passphrase :: string
  pf_host_key_sha256 :: string

text \<open>Every field has a default; an unknown one is an error.\<close>

definition profile_fields :: "string list" where
  "profile_fields = [''id'', ''host'', ''port'', ''user'', ''private_key'', ''private_key_label'',
     ''passphrase'', ''host_key_sha256'']"

definition as_ssh_profile :: "jvalue \<Rightarrow> ssh_profile result" where
  "as_ssh_profile v =
     bind_r (strict_struct profile_fields v) (\<lambda>kvs.
      bind_r (field_default ''id'' [] as_str kvs) (\<lambda>i.
      bind_r (field_default ''host'' [] as_str kvs) (\<lambda>h.
      bind_r (field_default ''port'' 0 (as_unsigned u16_max) kvs) (\<lambda>p.
      bind_r (field_default ''user'' [] as_str kvs) (\<lambda>u.
      bind_r (field_default ''private_key'' [] as_str kvs) (\<lambda>k.
      bind_r (field_default ''private_key_label'' [] as_str kvs) (\<lambda>l.
      bind_r (field_default ''passphrase'' [] as_str kvs) (\<lambda>w.
      bind_r (field_default ''host_key_sha256'' [] as_str kvs) (\<lambda>f.
      Inr \<lparr>pf_id = i, pf_host = h, pf_port = p, pf_user = u, pf_private_key = k,
           pf_private_key_label = l, pf_passphrase = w, pf_host_key_sha256 = f\<rparr>)))))))))"

definition invalid_text_byte :: "char \<Rightarrow> bool" where
  "invalid_text_byte c \<longleftrightarrow> c = CHR 0x0D \<or> c = CHR 0x0A \<or> c = CHR 0x00"

definition is_ascii_alphanumeric :: "char \<Rightarrow> bool" where
  "is_ascii_alphanumeric c \<longleftrightarrow> is_digit c \<or> is_lower_alpha (ascii_lower_char c)"

definition valid_host_fingerprint :: "string \<Rightarrow> bool" where
  "valid_host_fingerprint value =
     (case strip_prefix ''SHA256:'' value of
        None \<Rightarrow> False
      | Some encoded \<Rightarrow> 32 \<le> length encoded \<and> length encoded \<le> 64 \<and>
          list_all (\<lambda>c. is_ascii_alphanumeric c \<or> c \<in> {CHR ''+'', CHR ''/'', CHR ''_'', CHR ''-''}) encoded)"

definition profile_normalize :: "ssh_profile \<Rightarrow> bool \<Rightarrow> ssh_profile result" where
  "profile_normalize raw require_fingerprint =
     (let p = raw\<lparr>pf_id := trim (pf_id raw), pf_host := trim (pf_host raw), pf_user := trim (pf_user raw),
                  pf_private_key_label := trim (pf_private_key_label raw),
                  pf_host_key_sha256 := trim (pf_host_key_sha256 raw),
                  pf_port := (if pf_port raw = 0 then 22 else pf_port raw)\<rparr> in
      reject_if (pf_host p = [] \<or> 255 < length (pf_host p) \<or> pf_user p = [] \<or> 255 < length (pf_user p)
                 \<or> pf_private_key p = [] \<or> MAX_PRIVATE_KEY_BYTES < length (pf_private_key p)
                 \<or> list_ex invalid_text_byte (pf_host p) \<or> list_ex invalid_text_byte (pf_user p))
        (InvalidRequest ''SSH host, user and a valid private key are required'')
      (reject_if (require_fingerprint \<and> \<not> valid_host_fingerprint (pf_host_key_sha256 p))
        (InvalidRequest ''confirm the SSH host fingerprint before enabling the relay'')
        (Inr p)))"

text \<open>\<open>decode_secret_key\<close> of the SSH library takes the key's text and an optional passphrase.\<close>

type_synonym decode_key = "string \<Rightarrow> string option \<Rightarrow> string + bytes"

definition parse_private_key :: "decode_key \<Rightarrow> ssh_profile \<Rightarrow> bytes result" where
  "parse_private_key decode_key p =
     (case decode_key (pf_private_key p) (if pf_passphrase p = [] then None else Some (pf_passphrase p)) of
        Inr key \<Rightarrow> Inr key
      | Inl error \<Rightarrow> Inl (InvalidRequest (''invalid SSH private key: '' @ error)))"

definition validate_relay :: "decode_key \<Rightarrow> ssh_profile \<Rightarrow> unit result" where
  "validate_relay decode_key raw =
     bind_r (profile_normalize raw True) (\<lambda>p. bind_r (parse_private_key decode_key p) (\<lambda>_. Inr ()))"

section \<open>The forwarded port\<close>

record forward_state =
  fw_port :: nat
  fw_pending :: bool

definition forward_new :: "nat \<Rightarrow> forward_state" where
  "forward_new requested = \<lparr>fw_port = requested, fw_pending = (requested = 0)\<rparr>"

definition forward_accepts :: "forward_state \<Rightarrow> nat \<Rightarrow> bool" where
  "forward_accepts f connected_port =
     (if fw_port f = 0 then fw_pending f \<and> connected_port \<noteq> 0 else connected_port = fw_port f)"

definition forward_confirm :: "forward_state \<Rightarrow> nat \<Rightarrow> forward_state" where
  "forward_confirm f remote_port = f\<lparr>fw_port := remote_port, fw_pending := False\<rparr>"

definition forward_abandon :: "forward_state \<Rightarrow> forward_state" where
  "forward_abandon f = f\<lparr>fw_pending := False\<rparr>"

text \<open>
  A channel the server opens: \<open>try_send\<close> queues it, unless the queue is full or nobody reads it.
\<close>

record incoming_channel =
  ic_connected_address :: string
  ic_connected_port :: nat
  ic_originator_address :: string
  ic_originator_port :: nat

record incoming_queue =
  iq_channels :: "incoming_channel list"
  iq_closed :: bool

datatype open_reply = ChannelAccepted | AdministrativelyProhibited | ResourceShortage

definition channel_open_forwarded ::
  "forward_state \<Rightarrow> string \<Rightarrow> nat \<Rightarrow> string \<Rightarrow> nat \<Rightarrow> incoming_queue \<Rightarrow> open_reply \<times> incoming_queue" where
  "channel_open_forwarded f address port originator originator_port q =
     (if \<not> (forward_accepts f port \<and> port \<le> u16_max \<and> originator_port \<le> u16_max)
      then (AdministrativelyProhibited, q)
      else if iq_closed q \<or> INCOMING_CHANNEL_CAPACITY \<le> length (iq_channels q)
      then (ResourceShortage, q)
      else (ChannelAccepted, q\<lparr>iq_channels := iq_channels q @
             [\<lparr>ic_connected_address = address, ic_connected_port = port,
               ic_originator_address = originator, ic_originator_port = originator_port\<rparr>]\<rparr>))"

section \<open>Calls that may be cancelled or time out\<close>

datatype 'a ssh_call = CallCancelled | CallTimedOut | CallFailed string | CallReturned 'a

fun cancellable_timeout :: "'a ssh_call \<Rightarrow> string \<Rightarrow> 'a result" where
  "cancellable_timeout CallCancelled operation = Inl Cancelled"
| "cancellable_timeout (CallReturned x) operation = Inr x"
| "cancellable_timeout (CallFailed error) operation = Inl (Protocol (operation @ '': '' @ error))"
| "cancellable_timeout CallTimedOut operation = Inl (Protocol (operation @ '' timed out''))"

lemma cancellable_timeout_Inr [result_simps]: "cancellable_timeout c operation = Inr x \<longleftrightarrow> c = CallReturned x"
  by (cases c) auto

section \<open>Connecting\<close>

text \<open>
  What a server does in one connection: the fingerprint of the key it presents, if it comes that
  far; how the connection goes when the handler accepts the key and when it refuses it; the RSA
  hash query, the public-key authentication, and the answer to the forwarding request.
\<close>

record ssh_server =
  sv_host_key :: "string option"
  sv_handshake :: "bool \<Rightarrow> unit ssh_call"
  sv_rsa_hash :: "string + unit"
  sv_authenticate :: "bool ssh_call"
  sv_forward :: "nat ssh_call"

definition check_server_key :: "string option \<Rightarrow> string \<Rightarrow> bool" where
  "check_server_key expected fingerprint = (case expected of None \<Rightarrow> True | Some e \<Rightarrow> e = fingerprint)"

definition connect_authenticated ::
  "decode_key \<Rightarrow> ssh_profile \<Rightarrow> string option \<Rightarrow> ssh_server \<Rightarrow> string result" where
  "connect_authenticated decode_key p expected sv =
     bind_r (parse_private_key decode_key p) (\<lambda>key.
     let accepted = (case sv_host_key sv of None \<Rightarrow> True | Some f \<Rightarrow> check_server_key expected f) in
     bind_r (case cancellable_timeout (sv_handshake sv accepted) ''connect SSH server'' of
         Inr u \<Rightarrow> Inr u
       | Inl error \<Rightarrow>
           (case sv_host_key sv of
              Some observed \<Rightarrow>
                if expected \<noteq> None \<and> pf_host_key_sha256 p \<noteq> [] \<and> observed \<noteq> pf_host_key_sha256 p
                then Inl (Protocol (''SSH host fingerprint changed: '' @ observed)) else Inl error
            | None \<Rightarrow> Inl error)) (\<lambda>_.
     bind_r (case sv_rsa_hash sv of Inl error \<Rightarrow> Inl (Protocol (''SSH error: '' @ error)) | Inr u \<Rightarrow> Inr u) (\<lambda>_.
     bind_r (cancellable_timeout (sv_authenticate sv) ''authenticate SSH public key'') (\<lambda>success.
     reject_if (\<not> success) (Protocol ''SSH public-key authentication failed'')
       (ok_or (sv_host_key sv) (Protocol ''SSH server returned no host key''))))))"

text \<open>\<open>sc_open\<close>: \<open>close\<close> has not yet taken the handle of the connection.\<close>

record ssh_client =
  sc_remote_port :: nat
  sc_connected :: bool
  sc_forward :: forward_state
  sc_open :: bool

text \<open>The state of the forwarding is returned on every path: a request that failed is abandoned.\<close>

definition connect_reverse ::
  "decode_key \<Rightarrow> ssh_profile \<Rightarrow> nat \<Rightarrow> ssh_server \<Rightarrow> ssh_client result \<times> forward_state" where
  "connect_reverse decode_key raw requested sv =
     (let forward = forward_new requested in
      case bind_r (profile_normalize raw True) (\<lambda>p.
             connect_authenticated decode_key p (Some (pf_host_key_sha256 p)) sv) of
        Inl e \<Rightarrow> (Inl e, forward)
      | Inr _ \<Rightarrow>
          (case cancellable_timeout (sv_forward sv) ''request SSH reverse forwarding'' of
             Inl e \<Rightarrow> (Inl e, forward_abandon forward)
           | Inr assigned \<Rightarrow>
               if requested = 0 \<and> (u16_max < assigned \<or> assigned = 0)
               then (Inl (Protocol ''SSH reverse forwarding returned no port''), forward_abandon forward)
               else
                 (let port = (if requested = 0 then assigned else requested); f = forward_confirm forward port in
                  (Inr \<lparr>sc_remote_port = port, sc_connected = True, sc_forward = f, sc_open = True\<rparr>, f))))"

definition open_direct :: "ssh_client \<Rightarrow> nat \<Rightarrow> 'c ssh_call \<Rightarrow> 'c result" where
  "open_direct client remote_port call =
     reject_if (remote_port = 0 \<or> \<not> sc_connected client) (Protocol ''SSH relay is reconnecting'')
     (reject_if (\<not> sc_open client) (Protocol ''SSH relay is closed'')
       (cancellable_timeout call ''open SSH relay channel''))"

text \<open>The cancellation of the forwarding and the disconnect are best effort.\<close>

definition client_close :: "ssh_client \<Rightarrow> ssh_client" where
  "client_close client = client\<lparr>sc_open := False\<rparr>"

section \<open>Checking a server\<close>

text \<open>
  \<open>String::from_utf8\<close>: the number of bytes that follow a leading byte, when they are well-formed.
\<close>

definition utf8_continuation :: "nat \<Rightarrow> bool" where
  "utf8_continuation b \<longleftrightarrow> 0x80 \<le> b \<and> b \<le> 0xBF"

fun utf8_second_ok :: "nat \<Rightarrow> nat \<Rightarrow> bool" where
  "utf8_second_ok b c =
     (if b = 0xE0 then 0xA0 \<le> c \<and> c \<le> 0xBF
      else if b = 0xED then 0x80 \<le> c \<and> c \<le> 0x9F
      else if b = 0xF0 then 0x90 \<le> c \<and> c \<le> 0xBF
      else if b = 0xF4 then 0x80 \<le> c \<and> c \<le> 0x8F
      else utf8_continuation c)"

definition utf8_width :: "nat \<Rightarrow> nat" where
  "utf8_width b = (if b < 0x80 then 1 else if 0xC2 \<le> b \<and> b \<le> 0xDF then 2
     else if 0xE0 \<le> b \<and> b \<le> 0xEF then 3 else if 0xF0 \<le> b \<and> b \<le> 0xF4 then 4 else 0)"

definition utf8_tail :: "nat \<Rightarrow> nat list \<Rightarrow> nat option" where
  "utf8_tail b bs =
     (let w = utf8_width b in
      if w = 0 \<or> length bs < w - 1 then None
      else if w = 1 then Some 0
      else if utf8_second_ok b (hd bs) \<and> list_all utf8_continuation (tl (take (w - 1) bs)) then Some (w - 1)
      else None)"

fun utf8_valid :: "nat list \<Rightarrow> bool" where
  "utf8_valid [] = True"
| "utf8_valid (b # bs) = (case utf8_tail b bs of None \<Rightarrow> False | Some n \<Rightarrow> utf8_valid (drop n bs))"

text \<open>Up to 32 lines, of which the first that starts with \<open>SSH-\<close> decides.\<close>

definition identification_line :: "bytes \<Rightarrow> string result" where
  "identification_line line =
     (if utf8_valid (map unat line) then
        (let version = trim (bytes_str line) in
         if prefix ''SSH-1.99-'' version \<or> prefix ''SSH-2.0-'' version then Inr version
         else Inl (Protocol (''unsupported SSH server identification: '' @ version)))
      else Inl (Protocol ''SSH server identification is not UTF-8''))"

fun read_identification :: "nat \<Rightarrow> bytes ssh_call list \<Rightarrow> string result" where
  "read_identification 0 reads = Inl (Protocol ''SSH server did not provide an identification string'')"
| "read_identification (Suc n) [] = Inl (Protocol ''SSH server did not provide an identification string'')"
| "read_identification (Suc n) (call # reads) =
     bind_r (cancellable_timeout call ''read SSH server identification'') (\<lambda>line.
     if line = [] then Inl (Protocol ''SSH server did not provide an identification string'')
     else if 255 < length line then Inl (Protocol ''SSH server identification line is too long'')
     else if prefix (str_bytes ''SSH-'') line then identification_line line
     else read_identification n reads)"

definition probe_ssh_server_version :: "unit ssh_call \<Rightarrow> bytes ssh_call list \<Rightarrow> string result" where
  "probe_ssh_server_version connect reads =
     bind_r (cancellable_timeout connect ''connect SSH server for identification'') (\<lambda>_.
     read_identification 32 reads)"

record ssh_check_result =
  ck_fingerprint :: string
  ck_server_version :: string
  ck_confirmed :: bool

definition check_ssh ::
  "decode_key \<Rightarrow> ssh_profile \<Rightarrow> unit ssh_call \<Rightarrow> bytes ssh_call list \<Rightarrow> ssh_server \<Rightarrow> ssh_check_result result" where
  "check_ssh decode_key raw connect reads sv =
     bind_r (profile_normalize raw False) (\<lambda>p.
     bind_r (probe_ssh_server_version connect reads) (\<lambda>version.
     bind_r (connect_authenticated decode_key p None sv) (\<lambda>fingerprint.
     Inr \<lparr>ck_fingerprint = fingerprint, ck_server_version = version,
          ck_confirmed = (pf_host_key_sha256 p \<noteq> [] \<and> pf_host_key_sha256 p = fingerprint)\<rparr>)))"

section \<open>Properties of a connection\<close>

text \<open>The SSH library gives up the connection when the handler refuses the key of the server.\<close>

definition refusal_ends :: "ssh_server \<Rightarrow> bool" where
  "refusal_ends sv \<longleftrightarrow> sv_handshake sv False \<noteq> CallReturned ()"

lemma profile_normalize_pinned:
  "profile_normalize raw True = Inr p \<Longrightarrow>
     valid_host_fingerprint (pf_host_key_sha256 p) \<and> pf_host_key_sha256 p \<noteq> [] \<and> pf_port p \<noteq> 0"
  by (auto simp: profile_normalize_def Let_def result_simps valid_host_fingerprint_def strip_prefix_def
      split: option.splits if_splits)

lemma connect_authenticated_pinned:
  assumes "refusal_ends sv" "connect_authenticated decode_key p (Some pinned) sv = Inr fingerprint"
  shows "sv_host_key sv = Some pinned \<and> fingerprint = pinned \<and> sv_authenticate sv = CallReturned True"
  using assms
  by (cases "sv_host_key sv"; cases "sv_host_key sv = Some pinned")
     (auto simp: connect_authenticated_def Let_def result_simps refusal_ends_def check_server_key_def
       split: sum.splits if_splits)

text \<open>C35: The relay only ever works over the SSH server whose key the user confirmed: a connection is
  established only after a server that presented exactly the pinned key accepted the user's key, and
  from then on the channels it forwards are accepted for the one port that was assigned, never for
  port 0; a server with another key ends in an error that shows the key it presented.
\<close>

theorem ssh_server_is_pinned:
  assumes "refusal_ends sv" "requested \<le> u16_max" "profile_normalize raw True = Inr p"
    and "parse_private_key decode_key p = Inr key"
  shows "(case connect_reverse decode_key raw requested sv of
      (Inr client, forward) \<Rightarrow>
        sv_host_key sv = Some (pf_host_key_sha256 p) \<and> valid_host_fingerprint (pf_host_key_sha256 p) \<and>
        sv_authenticate sv = CallReturned True \<and>
        sc_remote_port client \<noteq> 0 \<and> sc_remote_port client \<le> u16_max \<and>
        (\<forall>port. forward_accepts forward port \<longleftrightarrow> port = sc_remote_port client)
    | (Inl e, forward) \<Rightarrow>
        (case sv_host_key sv of
           Some observed \<Rightarrow> observed \<noteq> pf_host_key_sha256 p \<longrightarrow>
             e = Protocol (''SSH host fingerprint changed: '' @ observed)
         | None \<Rightarrow> True))"
proof (cases "connect_authenticated decode_key p (Some (pf_host_key_sha256 p)) sv")
  case (Inl e)
  have "e = Protocol (''SSH host fingerprint changed: '' @ observed)"
    if "sv_host_key sv = Some observed" "observed \<noteq> pf_host_key_sha256 p" for observed
    using Inl that assms(1,4) profile_normalize_pinned [OF assms(3)]
    by (cases "sv_handshake sv False")
       (auto simp: connect_authenticated_def check_server_key_def refusal_ends_def)
  with Inl assms(3) show ?thesis by (simp add: connect_reverse_def split: option.split)
next
  case (Inr fingerprint)
  note pinned = connect_authenticated_pinned [OF assms(1) Inr]
  show ?thesis
    using pinned assms(2,3) profile_normalize_pinned [OF assms(3)]
    by (auto simp: connect_reverse_def Inr Let_def forward_accepts_def forward_confirm_def forward_new_def
        u16_max_def split: sum.split)
qed

section \<open>An example\<close>

definition sample_host_key :: string where "sample_host_key = ''SHA256:'' @ replicate 32 CHR ''a''"

definition sample_profile :: ssh_profile where
  "sample_profile = \<lparr>pf_id = ''r'', pf_host = ''h'', pf_port = 22, pf_user = ''u'', pf_private_key = ''k'',
     pf_private_key_label = [], pf_passphrase = [], pf_host_key_sha256 = sample_host_key\<rparr>"

definition sample_decode_key :: decode_key where "sample_decode_key text passphrase = Inr [1]"

text \<open>A server that presents a key, and one port.\<close>

definition sample_ssh_server :: "string \<Rightarrow> ssh_server" where
  "sample_ssh_server key = \<lparr>sv_host_key = Some key,
     sv_handshake = (\<lambda>accepted. if accepted then CallReturned () else CallFailed ''Unknown server key''),
     sv_rsa_hash = Inr (), sv_authenticate = CallReturned True, sv_forward = CallReturned 7000\<rparr>"

lemma sample_profile_normal: "profile_normalize sample_profile b = Inr sample_profile"
  by (simp add: profile_normalize_def sample_profile_def sample_host_key_def Let_def trim_graphic invalid_text_byte_def
      MAX_PRIVATE_KEY_BYTES_def valid_host_fingerprint_def strip_prefix_def is_ascii_alphanumeric_def is_lower_alpha_def
      ascii_lower_char_def list_all_iff is_digit_def)

lemma sample_connection:
  "connect_reverse sample_decode_key sample_profile 0 (sample_ssh_server sample_host_key) =
     (Inr \<lparr>sc_remote_port = 7000, sc_connected = True, sc_forward = \<lparr>fw_port = 7000, fw_pending = False\<rparr>, sc_open = True\<rparr>,
      \<lparr>fw_port = 7000, fw_pending = False\<rparr>)"
  by (simp add: connect_reverse_def sample_profile_normal connect_authenticated_def parse_private_key_def
      sample_decode_key_def sample_ssh_server_def check_server_key_def Let_def u16_max_def forward_new_def
      forward_confirm_def) (simp add: sample_profile_def)

theorem ssh_server_is_pinned_witness:
  "(\<exists>client forward. connect_reverse sample_decode_key sample_profile 0 (sample_ssh_server sample_host_key) = (Inr client, forward) \<and>
      sc_remote_port client \<noteq> 0 \<and> (\<forall>port. forward_accepts forward port \<longleftrightarrow> port = sc_remote_port client)) \<and>
   fst (connect_reverse sample_decode_key sample_profile 0 (sample_ssh_server ''SHA256:b'')) =
     Inl (Protocol (''SSH host fingerprint changed: '' @ ''SHA256:b''))"
proof -
  have key: "parse_private_key sample_decode_key sample_profile = Inr [1]"
    by (simp add: parse_private_key_def sample_decode_key_def)
  have refusal: "refusal_ends (sample_ssh_server k)" for k by (simp add: refusal_ends_def sample_ssh_server_def)
  note pinned = ssh_server_is_pinned [OF refusal _ sample_profile_normal key, of 0]
  have differ: "pf_host_key_sha256 sample_profile \<noteq> ''SHA256:b''"
    by (simp add: sample_profile_def sample_host_key_def eval_nat_numeral)
  show ?thesis
    using pinned [of sample_host_key] pinned [of "''SHA256:b''"] differ sample_connection
    by (cases "connect_reverse sample_decode_key sample_profile 0 (sample_ssh_server ''SHA256:b'')")
       (auto simp: u16_max_def sample_ssh_server_def split: sum.splits)
qed

end
