(* ===== verification/SshRelay.thy ===== *)
theory SshRelay
  imports SshClient Machine "HOL-Library.AList" "HOL-Library.Product_Lexorder"
begin

text \<open>
  The sessions of the SSH relay (\<open>ssh/session.rs\<close>): the peers a session trusts, the pairing code
  and its budget of attempts, both ends of a pairing and of a data channel, and the supervisor
  that keeps the connection. A handler is a run on its channel and the session; what handlers may
  do in between each other is the state machine of the sections on pairing codes and on the supervisor.
\<close>

section \<open>Peers\<close>

definition PAIRING_LIFETIME_MS :: nat where "PAIRING_LIFETIME_MS = 10 * 60 * 1000"
definition MAX_RECONNECT_BACKOFF :: nat where "MAX_RECONNECT_BACKOFF = 30"
definition MAX_PAIRING_ATTEMPTS :: nat where "MAX_PAIRING_ATTEMPTS = 5"

record ssh_peer =
  sr_id :: string
  sr_name :: string
  sr_instance_id :: string
  sr_remote_port :: nat
  sr_noise_public :: string
  sr_end_to_end :: bool

definition ssh_peer_json :: "ssh_peer \<Rightarrow> jvalue" where
  "ssh_peer_json p =
     JObj [(''id'', JStr (sr_id p)), (''name'', JStr (sr_name p)), (''instance_id'', JStr (sr_instance_id p)),
           (''remote_port'', jnat (sr_remote_port p)), (''noise_public'', JStr (sr_noise_public p)),
           (''end_to_end'', JBool (sr_end_to_end p))]"

text \<open>Every field has a default, \<open>true\<close> for the last; an unknown one is an error.\<close>

definition as_ssh_peer :: "jvalue \<Rightarrow> ssh_peer result" where
  "as_ssh_peer v =
     bind_r (strict_struct [''id'', ''name'', ''instance_id'', ''remote_port'', ''noise_public'', ''end_to_end''] v) (\<lambda>kvs.
      bind_r (field_default ''id'' [] as_str kvs) (\<lambda>i.
      bind_r (field_default ''name'' [] as_str kvs) (\<lambda>n.
      bind_r (field_default ''instance_id'' [] as_str kvs) (\<lambda>d.
      bind_r (field_default ''remote_port'' 0 (as_unsigned u16_max) kvs) (\<lambda>p.
      bind_r (field_default ''noise_public'' [] as_str kvs) (\<lambda>k.
      bind_r (field_default ''end_to_end'' True as_bool kvs) (\<lambda>e.
      Inr \<lparr>sr_id = i, sr_name = n, sr_instance_id = d, sr_remote_port = p, sr_noise_public = k,
           sr_end_to_end = e\<rparr>)))))))"

definition peer_from_identity :: "crates \<Rightarrow> pairing_identity \<Rightarrow> ssh_peer result" where
  "peer_from_identity E p =
     bind_r (pairing_validate E p) (\<lambda>_.
     Inr \<lparr>sr_id = pi_instance_id p, sr_name = pi_name p, sr_instance_id = pi_instance_id p,
          sr_remote_port = pi_remote_port p, sr_noise_public = pi_public_key p, sr_end_to_end = True\<rparr>)"

definition peer_identity :: "ssh_peer \<Rightarrow> pairing_identity" where
  "peer_identity p =
     \<lparr>pi_name = sr_name p, pi_instance_id = sr_instance_id p, pi_remote_port = sr_remote_port p,
      pi_public_key = sr_noise_public p\<rparr>"

definition peer_normalize :: "crates \<Rightarrow> string \<Rightarrow> ssh_peer \<Rightarrow> ssh_peer result" where
  "peer_normalize E local_instance_id raw =
     (let instance = to_ascii_lowercase (trim (sr_instance_id raw)); given = trim (sr_id raw);
          p = raw\<lparr>sr_id := (if given = [] then instance else given), sr_name := trim (sr_name raw),
                  sr_instance_id := instance, sr_noise_public := trim (sr_noise_public raw),
                  sr_end_to_end := True\<rparr> in
      bind_r (pairing_validate E (peer_identity p)) (\<lambda>_.
      reject_if (instance = local_instance_id) (InvalidRequest ''SSH relay peer cannot be the local device'')
        (Inr p)))"

section \<open>Pairing codes\<close>

record active_pairing =
  ap_code :: string
  ap_expires_at :: nat
  ap_in_use :: bool
  ap_failed_attempts :: nat

definition active_new :: "string \<Rightarrow> nat \<Rightarrow> active_pairing" where
  "active_new code expires_at =
     \<lparr>ap_code = code, ap_expires_at = expires_at, ap_in_use = False, ap_failed_attempts = 0\<rparr>"

definition active_is_live :: "active_pairing \<Rightarrow> nat \<Rightarrow> bool" where
  "active_is_live a now \<longleftrightarrow> now < ap_expires_at a"

definition active_begin :: "active_pairing \<Rightarrow> nat \<Rightarrow> (string \<times> active_pairing) result" where
  "active_begin a now =
     reject_if (\<not> active_is_live a now) (Protocol ''SSH pairing code is unavailable'')
     (reject_if (ap_in_use a) (Protocol ''SSH pairing is already in progress'')
     (reject_if (MAX_PAIRING_ATTEMPTS \<le> ap_failed_attempts a)
       (Protocol ''SSH pairing code was invalidated after repeated failed attempts; create a new code'')
     (Inr (ap_code a, a\<lparr>ap_in_use := True\<rparr>))))"

text \<open>Whether the code is to be discarded.\<close>

definition active_finish :: "active_pairing \<Rightarrow> bool \<Rightarrow> bool \<times> active_pairing" where
  "active_finish a success =
     (if success then (True, a)
      else (let n = ap_failed_attempts a + 1 in
            (MAX_PAIRING_ATTEMPTS \<le> n, a\<lparr>ap_in_use := False, ap_failed_attempts := n\<rparr>)))"

section \<open>The session\<close>

text \<open>\<open>rs_peers\<close> is a hash map: an association list with one entry per key.\<close>

record relay_session =
  rs_lan_session_id :: string
  rs_identity :: device_identity
  rs_remote_port :: nat
  rs_peers :: "(string \<times> ssh_peer) list"
  rs_client :: "ssh_client option"
  rs_pairing :: "active_pairing option"
  rs_cancelled :: bool

record relay_config =
  rg_lan_session_id :: string
  rg_profile :: ssh_profile
  rg_requested_port :: nat
  rg_identity :: device_identity
  rg_peers :: "ssh_peer list"

fun start_peers :: "crates \<Rightarrow> string \<Rightarrow> ssh_peer list \<Rightarrow> (string \<times> ssh_peer) list \<Rightarrow> (string \<times> ssh_peer) list result" where
  "start_peers E local_id [] peers = Inr peers"
| "start_peers E local_id (raw # raws) peers =
     bind_r (peer_normalize E local_id raw) (\<lambda>p.
     start_peers E local_id raws (AList.update (sr_instance_id p) p peers))"

text \<open>
  With a requested port a session starts even if the server cannot be reached yet. The result is the
  session, whether it is connected, and the first error.
\<close>

definition relay_start ::
  "crates \<Rightarrow> decode_key \<Rightarrow> (io_kind \<Rightarrow> string) \<Rightarrow> relay_config \<Rightarrow> ssh_server
    \<Rightarrow> (relay_session \<times> bool \<times> string option) result" where
  "relay_start E decode_key io_text config sv =
     reject_if (trim (rg_lan_session_id config) = []) (InvalidRequest ''lan session id is required'')
     (bind_r (validate_relay decode_key (rg_profile config)) (\<lambda>_.
      bind_r (start_peers E (id_instance_id (rg_identity config)) (rg_peers config) []) (\<lambda>peers.
      bind_r (case fst (connect_reverse decode_key (rg_profile config) (rg_requested_port config) sv) of
          Inr client \<Rightarrow> Inr (Some client, sc_remote_port client, None)
        | Inl error \<Rightarrow>
            if rg_requested_port config \<noteq> 0
            then Inr (None, rg_requested_port config, Some (error_text io_text error)) else Inl error)
        (\<lambda>(client, port, initial_error).
      Inr (\<lparr>rs_lan_session_id = rg_lan_session_id config, rs_identity = rg_identity config,
            rs_remote_port = port, rs_peers = peers, rs_client = client, rs_pairing = None,
            rs_cancelled = False\<rparr>, client \<noteq> None, initial_error)))))"

definition session_connected :: "relay_session \<Rightarrow> bool" where
  "session_connected rs = (case rs_client rs of Some client \<Rightarrow> sc_connected client | None \<Rightarrow> False)"

definition peer_list :: "relay_session \<Rightarrow> ssh_peer list" where
  "peer_list rs = sort_key (\<lambda>p. (sr_name p, sr_instance_id p)) (map snd (rs_peers rs))"

definition has_peer :: "relay_session \<Rightarrow> string \<Rightarrow> bool" where
  "has_peer rs instance_id \<longleftrightarrow> map_of (rs_peers rs) instance_id \<noteq> None"

definition create_pairing ::
  "string list \<Rightarrow> nat list list \<Rightarrow> nat \<Rightarrow> relay_session \<Rightarrow> string result \<times> relay_session" where
  "create_pairing word_list draws now rs =
     (if \<not> session_connected rs then (Inl (Protocol ''SSH relay is reconnecting''), rs)
      else if (case rs_pairing rs of Some a \<Rightarrow> ap_in_use a \<and> active_is_live a now | None \<Rightarrow> False)
      then (Inl (Protocol ''SSH pairing is already in progress''), rs)
      else (case generate_pair_code word_list draws (rs_remote_port rs) of
              Inl e \<Rightarrow> (Inl e, rs)
            | Inr code \<Rightarrow> (Inr code, rs\<lparr>rs_pairing := Some (active_new code (now + PAIRING_LIFETIME_MS))\<rparr>)))"

definition begin_pairing_attempt :: "nat \<Rightarrow> relay_session \<Rightarrow> string result \<times> relay_session" where
  "begin_pairing_attempt now rs =
     (case rs_pairing rs of
        None \<Rightarrow> (Inl (Protocol ''SSH pairing code is unavailable''), rs)
      | Some a \<Rightarrow>
          (case active_begin a now of
             Inl e \<Rightarrow> (Inl e, rs)
           | Inr (code, a') \<Rightarrow> (Inr code, rs\<lparr>rs_pairing := Some a'\<rparr>)))"

definition finish_pairing_attempt :: "string \<Rightarrow> bool \<Rightarrow> relay_session \<Rightarrow> relay_session" where
  "finish_pairing_attempt code success rs =
     (case rs_pairing rs of
        None \<Rightarrow> rs
      | Some a \<Rightarrow>
          if ap_code a = code
          then (case active_finish a success of
                  (discard, a') \<Rightarrow> rs\<lparr>rs_pairing := (if discard then None else Some a')\<rparr>)
          else rs)"

definition add_peer :: "crates \<Rightarrow> ssh_peer \<Rightarrow> relay_session \<Rightarrow> ssh_peer result \<times> relay_session" where
  "add_peer E peer rs =
     (case peer_normalize E (id_instance_id (rs_identity rs)) peer of
        Inl e \<Rightarrow> (Inl e, rs)
      | Inr p \<Rightarrow> (Inr p, rs\<lparr>rs_peers := AList.update (sr_instance_id p) p (rs_peers rs)\<rparr>))"

section \<open>Both ends of a pairing\<close>

text \<open>A run of a handler: its channel, the session, the events it emits and the clock.\<close>

record relay_run = net +
  rn_session :: relay_session
  rn_events :: "(string \<times> jvalue) list"
  rn_now :: "nat \<Rightarrow> nat"

definition on_session :: "(relay_session \<Rightarrow> 'a result \<times> relay_session) \<Rightarrow> (relay_run, 'a) action" where
  "on_session f = (\<lambda>s. case f (rn_session s) of (r, rs) \<Rightarrow> (r, s\<lparr>rn_session := rs\<rparr>))"

definition relay_emit :: "string \<Rightarrow> jvalue \<Rightarrow> (relay_run, unit) action" where
  "relay_emit event data = (\<lambda>s.
     (Inr (), if rs_cancelled (rn_session s) then s else s\<lparr>rn_events := rn_events s @ [(event, data)]\<rparr>))"

definition relay_local :: "crates \<Rightarrow> relay_session \<Rightarrow> pairing_identity" where
  "relay_local E rs = pairing_from_device E (rs_identity rs) (rs_remote_port rs)"

text \<open>\<open>self.add_peer(SshPeer::from_identity(peer)?).await?\<close> and the event.\<close>

definition trust_peer :: "crates \<Rightarrow> pairing_identity \<Rightarrow> (relay_run, ssh_peer) action" where
  "trust_peer E p =
     io_bind (io_lift (peer_from_identity E p)) (\<lambda>peer.
     io_bind (on_session (add_peer E peer)) (\<lambda>peer.
     io_then (relay_emit ''ssh.paired'' (JObj [(''peer'', ssh_peer_json peer)]))
     (io_ret peer)))"

definition handle_incoming_pair :: "crates \<Rightarrow> string list \<Rightarrow> pake_start \<Rightarrow> (relay_run, unit) action" where
  "handle_incoming_pair E word_list pake = (\<lambda>s.
     io_bind (on_session (begin_pairing_attempt (rn_now s (nt_step s)))) (\<lambda>code.
     io_match (exchange_pairing E word_list pake code CreatorRole (relay_local E (rn_session s)))
       (\<lambda>peer. io_then (on_session (\<lambda>rs. (Inr (), finish_pairing_attempt code True rs)))
          (io_then (trust_peer E peer) (io_ret ())))
       (\<lambda>e. io_then (on_session (\<lambda>rs. (Inr (), finish_pairing_attempt code False rs)))
          (io_throw e))) s)"

text \<open>The connection of the session, or the one that a wait for it yields.\<close>

definition connected_client :: "relay_session \<Rightarrow> ssh_client ssh_call \<Rightarrow> ssh_client result" where
  "connected_client rs later =
     (case rs_client rs of
        Some client \<Rightarrow> if sc_connected client then Inr client else
          (case later of CallReturned c \<Rightarrow> Inr c | CallCancelled \<Rightarrow> Inl Cancelled
           | _ \<Rightarrow> Inl (Protocol ''SSH relay reconnect timed out''))
      | None \<Rightarrow>
          (case later of CallReturned c \<Rightarrow> Inr c | CallCancelled \<Rightarrow> Inl Cancelled
           | _ \<Rightarrow> Inl (Protocol ''SSH relay reconnect timed out'')))"

definition join_pairing ::
  "crates \<Rightarrow> string list \<Rightarrow> pake_start \<Rightarrow> ssh_client ssh_call \<Rightarrow> unit ssh_call \<Rightarrow> string \<Rightarrow> (relay_run, ssh_peer) action" where
  "join_pairing E word_list pake later opened code = (\<lambda>s.
     io_bind (io_lift (pair_code_port word_list code)) (\<lambda>remote_port.
     io_bind (io_lift (connected_client (rn_session s) later)) (\<lambda>client.
     io_then (io_lift (open_direct client remote_port opened))
     (io_then (write_channel_mode PairMode)
     (io_bind (exchange_pairing E word_list pake code JoinerRole (relay_local E (rn_session s))) (\<lambda>peer.
      trust_peer E peer))))) s)"

section \<open>Both ends of a data channel\<close>

text \<open>The sender's handshake; the tunnel starts with the key and the credentials it yields.\<close>

definition connect_sender ::
  "crates \<Rightarrow> ssh_client ssh_call \<Rightarrow> unit ssh_call \<Rightarrow> string \<Rightarrow> (relay_run, sender_authentication) action" where
  "connect_sender E later opened instance_id = (\<lambda>s.
     io_bind (io_lift (ok_or (map_of (rs_peers (rn_session s)) instance_id)
       (InvalidRequest ''unknown SSH relay peer''))) (\<lambda>peer.
     io_bind (io_lift (connected_client (rn_session s) later)) (\<lambda>client.
     io_then (io_lift (open_direct client (sr_remote_port peer) opened))
     (io_then (write_channel_mode DataMode)
     (io_bind (send_data_hello E (rs_identity (rn_session s)) (peer_identity peer)) (\<lambda>nonce.
      receive_data_answer E (rs_identity (rn_session s)) (peer_identity peer) nonce))))) s)"

text \<open>\<open>bound\<close> is the temporary QUIC server: the fingerprint of its certificate, or why it cannot start.\<close>

definition answer_data_channel :: "crates \<Rightarrow> string result \<Rightarrow> data_hello \<Rightarrow> (relay_run, bytes) action" where
  "answer_data_channel E bound hello = (\<lambda>s.
     io_bind (io_lift (ok_or (map_of (rs_peers (rn_session s)) (dh_sender_instance_id hello))
       (Protocol ''SSH relay data peer is not paired''))) (\<lambda>peer.
     io_bind (io_lift (verify_data_hello E hello (rs_identity (rn_session s)) (peer_identity peer))) (\<lambda>verified.
     io_bind net_random (\<lambda>secret.
     io_bind (io_lift bound) (\<lambda>fingerprint.
     send_data_answer E (rs_identity (rn_session s)) (peer_identity peer) verified fingerprint
       (hex_encode E secret))))) s)"

definition handle_incoming_data :: "crates \<Rightarrow> string result \<Rightarrow> (relay_run, bytes) action" where
  "handle_incoming_data E bound = io_bind (receive_data_hello E) (answer_data_channel E bound)"

definition handle_incoming ::
  "crates \<Rightarrow> string list \<Rightarrow> pake_start \<Rightarrow> string result \<Rightarrow> incoming_channel \<Rightarrow> (relay_run, bytes option) action" where
  "handle_incoming E word_list pake bound incoming = (\<lambda>s.
     io_reject_if (ic_connected_port incoming \<noteq> rs_remote_port (rn_session s))
       (Protocol ''SSH relay forwarded an unexpected port'')
     (io_bind read_channel_mode (\<lambda>mode.
      case mode of
        PairMode \<Rightarrow> io_then (handle_incoming_pair E word_list pake) (io_ret None)
      | DataMode \<Rightarrow> io_bind (handle_incoming_data E bound) (\<lambda>key. io_ret (Some key)))) s)"

text \<open>\<open>close\<close>, which other tasks call: it cancels the session, drops the code and the connection.\<close>

definition relay_close :: "relay_session \<Rightarrow> relay_session" where
  "relay_close rs = rs\<lparr>rs_cancelled := True, rs_pairing := None, rs_client := None\<rparr>"

section \<open>The supervisor\<close>

text \<open>
  \<open>run\<close>: it waits for the connection to end and then tries to connect again, after a pause that doubles
  up to 30 seconds. \<open>su_current\<close> is the connection of the loop.
\<close>

record supervisor =
  su_session :: relay_session
  su_current :: "ssh_client option"
  su_backoff :: nat
  su_running :: bool
  su_events :: "(string \<times> jvalue) list"

datatype supervisor_event =
    SessionCancelled
  | SessionClosed
  | ConnectionLost
  | Reconnected "ssh_client result"
  | PairingChanged "active_pairing option"
  | PeersChanged "(string \<times> ssh_peer) list"

definition su_emit :: "string \<Rightarrow> string \<Rightarrow> supervisor \<Rightarrow> supervisor" where
  "su_emit event error su =
     (if rs_cancelled (su_session su) then su
      else su\<lparr>su_events := su_events su @ [(event, JObj [(''error'', JStr error)])]\<rparr>)"

definition su_stop :: "supervisor \<Rightarrow> supervisor" where
  "su_stop su = su\<lparr>su_running := False, su_session := (su_session su)\<lparr>rs_cancelled := True\<rparr>\<rparr>"

definition double_backoff :: "supervisor \<Rightarrow> supervisor" where
  "double_backoff su = su\<lparr>su_backoff := min (su_backoff su * 2) MAX_RECONNECT_BACKOFF\<rparr>"

definition reconnected :: "(io_kind \<Rightarrow> string) \<Rightarrow> ssh_client result \<Rightarrow> supervisor \<Rightarrow> supervisor" where
  "reconnected io_text r su =
     (case r of
        Inr client \<Rightarrow>
          if sc_remote_port client = rs_remote_port (su_session su)
          then (let su' = su\<lparr>su_session := (su_session su)\<lparr>rs_client := Some client\<rparr>\<rparr> in
                (if rs_cancelled (su_session su) then su'
                 else su'\<lparr>su_events := su_events su @
                   [(''ssh.connected'', JObj [(''remote_port'', jnat (rs_remote_port (su_session su)))])]\<rparr>)
                \<lparr>su_current := Some client, su_backoff := 1\<rparr>)
          else double_backoff
            (su_emit ''ssh.reconnect.error'' ''SSH relay returned a different reverse port'' su)
      | Inl error \<Rightarrow>
          if rs_cancelled (su_session su) then su_stop su
          else double_backoff (su_emit ''ssh.reconnect.error'' (error_text io_text error) su))"

text \<open>
  The slot is emptied when it still holds the lost connection (the loop is the only one that
  fills it). \<open>SessionClosed\<close> and the last two events are what other tasks do to the session.
\<close>

definition supervisor_step :: "(io_kind \<Rightarrow> string) \<Rightarrow> supervisor \<Rightarrow> supervisor_event \<Rightarrow> supervisor" where
  "supervisor_step io_text su event =
     (if \<not> su_running su then su
      else case event of
        SessionCancelled \<Rightarrow> su_stop su
      | SessionClosed \<Rightarrow> su\<lparr>su_session := relay_close (su_session su)\<rparr>
      | ConnectionLost \<Rightarrow>
          (if su_current su = None then su
           else su_emit ''ssh.disconnected'' ''SSH relay connection was lost''
             (su\<lparr>su_current := None, su_session := (su_session su)\<lparr>rs_client := None\<rparr>\<rparr>))
      | Reconnected r \<Rightarrow> (if su_current su = None then reconnected io_text r su else su)
      | PairingChanged p \<Rightarrow> su\<lparr>su_session := (su_session su)\<lparr>rs_pairing := p\<rparr>\<rparr>
      | PeersChanged ps \<Rightarrow> su\<lparr>su_session := (su_session su)\<lparr>rs_peers := ps\<rparr>\<rparr>)"

text \<open>What is reported of a channel task that ended: nothing when it was cancelled.\<close>

definition report_channel_result :: "(io_kind \<Rightarrow> string) \<Rightarrow> unit result \<Rightarrow> (relay_run, unit) action" where
  "report_channel_result io_text r =
     (case r of
        Inl error \<Rightarrow>
          (if error = Cancelled then io_ret ()
           else relay_emit ''ssh.channel.error'' (JObj [(''error'', JStr (error_text io_text error))]))
      | Inr _ \<Rightarrow> io_ret ())"

end
