(* ===== verification/SendRoutes.thy ===== *)
theory SendRoutes
  imports Discovery Summary SshRelay "HOL-Library.Product_Lexorder"
begin

text \<open>
  How the service of \<open>service.rs\<close> finds the way to a device: the list of devices it shows, the resolution of
  addresses, the routes of a transfer with the SSH relay as the last resort, and the transfer id that is
  derived from what is sent. Name resolution is an argument (\<open>lookup_host\<close>), and so are the calls that send
  over one endpoint.
\<close>

section \<open>The list of devices\<close>

record lan_peer =
  lp_instance_id :: string
  lp_name :: string
  lp_host :: string
  lp_hosts :: "string list"
  lp_port :: nat
  lp_capabilities :: "string list"
  lp_fingerprint :: string
  lp_public_key :: string
  lp_service_name :: string

definition lan_peer_from :: "discovered_peer \<Rightarrow> lan_peer" where
  "lan_peer_from p =
     \<lparr>lp_instance_id = dp_instance_id p, lp_name = dp_name p, lp_host = dp_host p, lp_hosts = dp_hosts p,
      lp_port = dp_port p, lp_capabilities = dp_capabilities p, lp_fingerprint = dp_fingerprint p,
      lp_public_key = dp_public_key p, lp_service_name = dp_service_name p\<rparr>"

definition SSH_RELAY_CAPABILITY :: string where "SSH_RELAY_CAPABILITY = ''ssh-relay-v2''"

text \<open>A device on the local network that the relay knows too, and one that only the relay knows.\<close>

definition mark_relayed :: "lan_peer \<Rightarrow> lan_peer" where
  "mark_relayed p = p\<lparr>lp_service_name := ''lan+ssh'',
     lp_capabilities := (if SSH_RELAY_CAPABILITY \<in> set (lp_capabilities p) then lp_capabilities p
                         else sort (lp_capabilities p @ [SSH_RELAY_CAPABILITY]))\<rparr>"

definition relay_entry :: "ssh_peer \<Rightarrow> lan_peer" where
  "relay_entry q =
     \<lparr>lp_instance_id = sr_instance_id q, lp_name = sr_name q, lp_host = [], lp_hosts = [],
      lp_port = sr_remote_port q, lp_capabilities = [''blake3'', ''folder-v1'', ''quic-v2'', SSH_RELAY_CAPABILITY],
      lp_fingerprint = [], lp_public_key = sr_noise_public q, lp_service_name = ''ssh''\<rparr>"

text \<open>The first entry of the device is marked; without one the relay's own entry is pushed.\<close>

fun merge_peer :: "lan_peer list \<Rightarrow> ssh_peer \<Rightarrow> lan_peer list" where
  "merge_peer [] q = [relay_entry q]"
| "merge_peer (p # ps) q =
     (if lp_instance_id p = sr_instance_id q then mark_relayed p # ps else p # merge_peer ps q)"

definition combined_peers :: "discovered_peer list \<Rightarrow> ssh_peer list list \<Rightarrow> lan_peer list" where
  "combined_peers discovered relays =
     sort_key (\<lambda>p. (lp_name p, lp_instance_id p))
       (foldl (foldl merge_peer) (map lan_peer_from discovered) relays)"

section \<open>Addresses\<close>

definition strip_brackets :: "string \<Rightarrow> string" where
  "strip_brackets host =
     (case strip_prefix ''['' host of
        None \<Rightarrow> host
      | Some rest \<Rightarrow> if rest \<noteq> [] \<and> last rest = CHR '']'' then butlast rest else host)"

definition resolve_address ::
  "ip_syntax \<Rightarrow> (string \<Rightarrow> nat \<Rightarrow> socket_addr list result) \<Rightarrow> string \<Rightarrow> nat \<Rightarrow> socket_addr result" where
  "resolve_address I lookup_host given port =
     (let host = strip_brackets (trim given) in
      case ip_parse I host of
        Some address \<Rightarrow> Inr (address, port)
      | None \<Rightarrow>
          bind_r (lookup_host host port) (\<lambda>addresses.
            case addresses of
              [] \<Rightarrow> Inl (InvalidRequest ''target host did not resolve'')
            | address # _ \<Rightarrow> Inr address))"

text \<open>An optional port other than 0 at the end, after the brackets of an IPv6 address if there are any.\<close>

definition port_suffix :: "string \<times> string \<Rightarrow> (string \<times> nat) option" where
  "port_suffix parts =
     (case parse_u16 (snd parts) of
        Some port \<Rightarrow> if port \<noteq> 0 then Some (fst parts, port) else None
      | None \<Rightarrow> None)"

definition discovery_target_parts :: "string \<Rightarrow> string \<times> nat" where
  "discovery_target_parts given =
     (let raw = trim given in
      case Option.bind (strip_prefix ''['' raw) (\<lambda>rest. Option.bind (split_once_str '']:'' rest) port_suffix) of
        Some parts \<Rightarrow> parts
      | None \<Rightarrow>
          (case Option.bind (rsplit_once CHR '':'' raw)
                  (\<lambda>parts. if CHR '':'' \<in> set (fst parts) then None else port_suffix parts) of
             Some parts \<Rightarrow> parts
           | None \<Rightarrow> (raw, UDP_DISCOVERY_PORT)))"

definition is_ipv4 :: "socket_addr \<Rightarrow> bool" where
  "is_ipv4 a = (case fst a of IpV4 _ \<Rightarrow> True | IpV6 _ \<Rightarrow> False)"

text \<open>A host that does not resolve is skipped.\<close>

definition discovery_target ::
  "ip_syntax \<Rightarrow> (string \<Rightarrow> nat \<Rightarrow> socket_addr list result) \<Rightarrow> string \<Rightarrow> socket_addr list" where
  "discovery_target I lookup_host raw =
     (let (given, port) = discovery_target_parts raw; host = strip_brackets given in
      if host = [] then []
      else case ip_parse I host of
        Some (IpV4 octets) \<Rightarrow> [(IpV4 octets, port)]
      | _ \<Rightarrow> (case lookup_host host port of Inr addresses \<Rightarrow> filter is_ipv4 addresses | Inl _ \<Rightarrow> []))"

definition resolve_discovery_targets ::
  "ip_syntax \<Rightarrow> (string \<Rightarrow> nat \<Rightarrow> socket_addr list result) \<Rightarrow> string list \<Rightarrow> socket_addr list" where
  "resolve_discovery_targets I lookup_host hosts =
     remdups_adj (sort (concat (map (discovery_target I lookup_host) (take 64 hosts))))"

section \<open>The routes of a transfer\<close>

record peer_endpoint =
  pe_address :: socket_addr
  pe_certificate_fingerprint :: string

record lan_send_params =
  ls_session_id :: string
  ls_path :: string
  ls_instance_id :: string
  ls_host :: string
  ls_port :: nat
  ls_fingerprint :: string
  ls_endpoint_token :: string

definition target_unavailable :: core_error where
  "target_unavailable = InvalidRequest ''target device is not available''"

text \<open>The addresses of a device, each once, and the first failure of a lookup.\<close>

fun peer_endpoints ::
  "(string \<Rightarrow> socket_addr result) \<Rightarrow> string \<Rightarrow> string list \<Rightarrow> peer_endpoint list \<Rightarrow> core_error option \<Rightarrow>
     peer_endpoint list \<times> core_error option" where
  "peer_endpoints look fingerprint [] endpoints first_error = (endpoints, first_error)"
| "peer_endpoints look fingerprint (host # hosts) endpoints first_error =
     (case look host of
        Inr address \<Rightarrow>
          if address \<in> pe_address ` set endpoints then peer_endpoints look fingerprint hosts endpoints first_error
          else peer_endpoints look fingerprint hosts
                 (endpoints @ [\<lparr>pe_address = address, pe_certificate_fingerprint = fingerprint\<rparr>]) first_error
      | Inl err \<Rightarrow>
          peer_endpoints look fingerprint hosts endpoints
            (case first_error of None \<Rightarrow> Some err | Some e \<Rightarrow> Some e))"

definition resolve_targets ::
  "ip_syntax \<Rightarrow> (string \<Rightarrow> nat \<Rightarrow> socket_addr list result) \<Rightarrow> discovered_peer list \<Rightarrow> lan_send_params \<Rightarrow>
     peer_endpoint list result" where
  "resolve_targets I lookup_host discovered params =
     (let instance_id = to_ascii_lowercase (trim (ls_instance_id params)) in
      case if instance_id = [] then None else find (\<lambda>p. dp_instance_id p = instance_id) discovered of
        Some p \<Rightarrow>
          (let hosts = (if dp_hosts p = [] then [dp_host p] else dp_hosts p);
               (endpoints, first_error) =
                 peer_endpoints (\<lambda>host. resolve_address I lookup_host host (dp_port p)) (dp_fingerprint p) hosts [] None in
           if endpoints = [] then Inl (case first_error of Some e \<Rightarrow> e | None \<Rightarrow> target_unavailable)
           else Inr endpoints)
      | None \<Rightarrow>
          reject_if (trim (ls_host params) = [] \<or> ls_port params = 0) target_unavailable
          (reject_if (trim (ls_fingerprint params) = [])
            (InvalidRequest ''target certificate fingerprint is required'')
          (bind_r (resolve_address I lookup_host (ls_host params) (ls_port params)) (\<lambda>address.
            Inr [\<lparr>pe_address = address,
                  pe_certificate_fingerprint = to_ascii_lowercase (trim (ls_fingerprint params))\<rparr>]))))"

text \<open>\<open>'r\<close> is the type of a relay session; \<open>relays\<close> are those of the LAN session with their peers.\<close>

record 'r send_routes =
  ro_direct :: "peer_endpoint list"
  ro_relay :: "'r option"
  ro_instance_id :: string

definition relay_for_peer :: "('r \<times> ssh_peer list) list \<Rightarrow> string \<Rightarrow> 'r option" where
  "relay_for_peer relays instance_id =
     map_option fst (find (\<lambda>(_, peers). instance_id \<in> sr_instance_id ` set peers) relays)"

definition resolve_send_routes ::
  "ip_syntax \<Rightarrow> (string \<Rightarrow> nat \<Rightarrow> socket_addr list result) \<Rightarrow> discovered_peer list \<Rightarrow> ('r \<times> ssh_peer list) list \<Rightarrow>
     lan_send_params \<Rightarrow> 'r send_routes result" where
  "resolve_send_routes I lookup_host discovered relays params =
     (let instance_id = to_ascii_lowercase (trim (ls_instance_id params));
          known = (instance_id \<noteq> [] \<and> instance_id \<in> dp_instance_id ` set discovered) in
      bind_r (if known \<or> trim (ls_host params) \<noteq> [] then resolve_targets I lookup_host discovered params else Inr [])
        (\<lambda>direct.
         let relay = (if instance_id = [] then None else relay_for_peer relays instance_id) in
         reject_if (direct = [] \<and> relay = None) target_unavailable
         (Inr \<lparr>ro_direct = direct, ro_relay = relay, ro_instance_id = instance_id\<rparr>)))"

section \<open>Sending over the routes\<close>

fun relay_fallback_allowed :: "core_error \<Rightarrow> bool" where
  "relay_fallback_allowed Cancelled = False"
| "relay_fallback_allowed (InvalidRequest _) = False"
| "relay_fallback_allowed (InvalidTransfer _) = False"
| "relay_fallback_allowed (DigestMismatch _) = False"
| "relay_fallback_allowed _ = True"

text \<open>A connection through the relay: the end of the tunnel, its secret and how the tunnel is closed.\<close>

record 's relay_connection =
  rc_peer :: peer_endpoint
  rc_shared_secret :: string
  rc_close :: "('s, unit) action"

fun send_direct ::
  "(peer_endpoint \<Rightarrow> ('s, unit) action) \<Rightarrow> peer_endpoint list \<Rightarrow> core_error option \<Rightarrow>
     (core_error option \<Rightarrow> ('s, unit) action) \<Rightarrow> ('s, unit) action" where
  "send_direct send [] direct_error relayed = relayed direct_error"
| "send_direct send (peer # peers) direct_error relayed =
     io_match (send peer) io_ret
       (\<lambda>err. if \<not> relay_fallback_allowed err then io_throw err
              else send_direct send peers (Some err) relayed)"

definition both_failed :: "(io_kind \<Rightarrow> string) \<Rightarrow> core_error option \<Rightarrow> core_error \<Rightarrow> core_error" where
  "both_failed io_text direct_error relay_error =
     (case direct_error of
        Some e \<Rightarrow> Protocol (''LAN route failed ('' @ error_text io_text e @ ''); SSH relay failed ('' @
                    error_text io_text relay_error @ '')'')
      | None \<Rightarrow> relay_error)"

definition send_relayed ::
  "(io_kind \<Rightarrow> string) \<Rightarrow> (string \<Rightarrow> peer_endpoint \<Rightarrow> ('s, unit) action) \<Rightarrow> ('s, 's relay_connection) action \<Rightarrow>
     core_error option \<Rightarrow> ('s, unit) action" where
  "send_relayed io_text send connect direct_error =
     io_match connect
       (\<lambda>connection.
        io_match (send (rc_shared_secret connection) (rc_peer connection))
          (\<lambda>_. rc_close connection)
          (\<lambda>err. io_match (rc_close connection) (\<lambda>_. io_throw err) (\<lambda>_. io_throw err)))
       (\<lambda>relay_error. io_throw (both_failed io_text direct_error relay_error))"

text \<open>\<open>send secret peer\<close> is \<open>send_file\<close> over one endpoint, \<open>connect\<close> is \<open>connect_sender\<close> of the relay.\<close>

definition send_with_routes ::
  "(io_kind \<Rightarrow> string) \<Rightarrow> (string \<Rightarrow> peer_endpoint \<Rightarrow> ('s, unit) action) \<Rightarrow>
     ('r \<Rightarrow> string \<Rightarrow> ('s, 's relay_connection) action) \<Rightarrow> string \<Rightarrow> 'r send_routes \<Rightarrow> ('s, unit) action" where
  "send_with_routes io_text send connect secret routes =
     send_direct (send secret) (ro_direct routes) None
       (\<lambda>direct_error.
          case ro_relay routes of
            None \<Rightarrow> io_throw (case direct_error of Some e \<Rightarrow> e | None \<Rightarrow> target_unavailable)
          | Some relay \<Rightarrow> send_relayed io_text send (connect relay (ro_instance_id routes)) direct_error)"

section \<open>The transfer id\<close>

definition le_bytes_8 :: "nat \<Rightarrow> bytes" where
  "le_bytes_8 n = rev (be_bytes 8 n)"

text \<open>A scan or a digest under a token that nobody cancels.\<close>

definition uncancelled :: "(sending, 'a) action \<Rightarrow> (sending, 'a) action" where
  "uncancelled m s = (let (r, s') = m (s\<lparr>nt_fault := \<lambda>_. None\<rparr>) in (r, s'\<lparr>nt_fault := nt_fault s\<rparr>))"

definition folder_digest :: "crates \<Rightarrow> path \<Rightarrow> (sending, bytes) action" where
  "folder_digest E p =
     io_bind (scan_folder E p) (\<lambda>folder. io_lift (manifest_digest E (fo_manifest folder)))"

text \<open>The size of a node (that of a directory is up to the file system) and its time, in 16 bytes.\<close>

definition metadata_marker :: "(node \<Rightarrow> nat) \<Rightarrow> node \<Rightarrow> bytes" where
  "metadata_marker node_size metadata =
     le_bytes_8 (node_size metadata) @
     le_bytes_8 (if node_mtime metadata < 0 then 0 else nat (node_mtime metadata) mod 2 ^ 64)"

definition content_marker_for :: "crates \<Rightarrow> (node \<Rightarrow> nat) \<Rightarrow> path \<Rightarrow> node \<Rightarrow> (sending, bytes) action" where
  "content_marker_for E node_size p metadata =
     (let fallback = io_ret (metadata_marker node_size metadata) in
      if is_file metadata then io_match (uncancelled (source_digest E p)) io_ret (\<lambda>_. fallback)
      else if is_dir metadata then io_match (uncancelled (folder_digest E p)) io_ret (\<lambda>_. fallback)
      else fallback)"

definition sized_field :: "bytes \<Rightarrow> bytes" where
  "sized_field bs = le_bytes_8 (length bs mod 2 ^ 64) @ bs"

text \<open>
  The hashed fields of \<open>derive_transfer_id\<close>, each after its length. This is the Unix form: on Windows the source path
  is lower-cased first (\<open>cfg(windows)\<close>).
\<close>

definition transfer_id_input :: "string \<Rightarrow> string \<Rightarrow> bytes \<Rightarrow> string \<Rightarrow> bytes" where
  "transfer_id_input instance_id source marker target =
     sized_field (str_bytes instance_id) @ sized_field (str_bytes source) @ sized_field (str_bytes target) @
     sized_field marker"

text \<open>The version and variant of a random UUID in its bytes 6 and 8.\<close>

definition uuid_of_random :: "bytes \<Rightarrow> bytes" where
  "uuid_of_random bs = bs[6 := (bs ! 6 AND 0x0F) OR 0x40, 8 := (bs ! 8 AND 0x3F) OR 0x80]"

definition derive_transfer_id :: "crates \<Rightarrow> string \<Rightarrow> string \<Rightarrow> bytes \<Rightarrow> string \<Rightarrow> bytes" where
  "derive_transfer_id E instance_id source marker target =
     uuid_of_random (take 16 (blake3_hash E (transfer_id_input instance_id source marker target)))"

text \<open>The id of \<open>lan_send\<close>: the target is the device, or its address when no device was named.\<close>

definition lan_send_target :: "lan_send_params \<Rightarrow> string \<Rightarrow> string" where
  "lan_send_target params instance_id =
     (if instance_id = [] then trim (ls_host params) @ CHR '':'' # dec (ls_port params) else instance_id)"

definition lan_transfer_id ::
  "crates \<Rightarrow> (node \<Rightarrow> nat) \<Rightarrow> string \<Rightarrow> string \<Rightarrow> path \<Rightarrow> string \<Rightarrow> (sending, bytes) action" where
  "lan_transfer_id E node_size instance_id source p target =
     io_bind (disk_call (sys_metadata p)) (\<lambda>metadata.
     io_bind (content_marker_for E node_size p metadata) (\<lambda>marker.
     io_ret (derive_transfer_id E instance_id source marker target)))"

end
