(* ===== verification/SendRoutesProps.thy ===== *)
theory SendRoutesProps
  imports SendRoutes
begin

text \<open>
  The list of devices against a reference definition, what a transfer id stands for, and the order in which
  the routes of a transfer are tried.
\<close>

section \<open>The list of devices\<close>

text \<open>The list as one reads it: a device is shown once, as the local network, the relay, or both know it.\<close>

definition merged_peers :: "lan_peer list \<Rightarrow> ssh_peer list \<Rightarrow> lan_peer list" where
  "merged_peers ps qs =
     map (\<lambda>p. if lp_instance_id p \<in> sr_instance_id ` set qs then mark_relayed p else p) ps @
     map relay_entry (filter (\<lambda>q. sr_instance_id q \<notin> lp_instance_id ` set ps) qs)"

lemma mark_relayed_id [simp]: "lp_instance_id (mark_relayed p) = lp_instance_id p"
  by (simp add: mark_relayed_def)

lemma relay_entry_id [simp]: "lp_instance_id (relay_entry q) = sr_instance_id q"
  by (simp add: relay_entry_def)

lemma merge_peer_new: "sr_instance_id q \<notin> lp_instance_id ` set ps \<Longrightarrow> merge_peer ps q = ps @ [relay_entry q]"
  by (induction ps) auto

lemma merge_peer_known:
  "sr_instance_id q \<in> lp_instance_id ` set ps \<Longrightarrow> distinct (map lp_instance_id ps) \<Longrightarrow>
    merge_peer ps q = map (\<lambda>p. if lp_instance_id p = sr_instance_id q then mark_relayed p else p) ps"
proof (induction ps)
  case (Cons p ps)
  then show ?case
    by (cases "lp_instance_id p = sr_instance_id q") (auto intro!: map_idI [symmetric] simp: image_iff)
qed simp

lemma merge_peer_append: "sr_instance_id q \<in> lp_instance_id ` set ps \<Longrightarrow> merge_peer (ps @ rs) q = merge_peer ps q @ rs"
  by (induction ps) auto

lemma merged_peers_ids:
  "map lp_instance_id (merged_peers ps qs) =
     map lp_instance_id ps @ filter (\<lambda>i. i \<notin> lp_instance_id ` set ps) (map sr_instance_id qs)"
  by (simp add: merged_peers_def comp_def filter_map if_distrib [of lp_instance_id])

lemma foldl_merge:
  assumes "distinct (map lp_instance_id ps)" "distinct (map sr_instance_id qs)"
  shows "foldl merge_peer ps qs = merged_peers ps qs"
  using assms(2)
proof (induction qs rule: rev_induct)
  case Nil
  then show ?case by (simp add: merged_peers_def)
next
  case (snoc q qs)
  let ?mark = "\<lambda>p. if lp_instance_id p \<in> sr_instance_id ` set qs then mark_relayed p else p"
  have q: "sr_instance_id q \<notin> sr_instance_id ` set qs" using snoc.prems by auto
  have ids: "lp_instance_id ` ?mark ` set ps = lp_instance_id ` set ps"
    unfolding image_image by (intro image_cong) auto
  have step: "foldl merge_peer ps (qs @ [q]) = merge_peer (merged_peers ps qs) q"
    using snoc by simp
  show ?case
  proof (cases "sr_instance_id q \<in> lp_instance_id ` set ps")
    case True
    have "merge_peer (map ?mark ps) q = map (\<lambda>p. if lp_instance_id p = sr_instance_id q then mark_relayed p else p) (map ?mark ps)"
    proof (rule merge_peer_known)
      show "sr_instance_id q \<in> lp_instance_id ` set (map ?mark ps)" using True ids by simp
      have "map lp_instance_id (map ?mark ps) = map lp_instance_id ps" by simp
      then show "distinct (map lp_instance_id (map ?mark ps))" using assms(1) by (simp only:)
    qed
    also have "\<dots> = map (\<lambda>p. if lp_instance_id p \<in> sr_instance_id ` set (qs @ [q]) then mark_relayed p else p) ps"
      using q by auto
    finally show ?thesis
      using True ids unfolding step by (simp add: merged_peers_def merge_peer_append)
  next
    case False
    then have "sr_instance_id q \<notin> lp_instance_id ` set (merged_peers ps qs)"
      using q by (simp flip: set_map add: merged_peers_ids)
    then have "merge_peer (merged_peers ps qs) q = merged_peers ps qs @ [relay_entry q]"
      by (rule merge_peer_new)
    moreover have "lp_instance_id p \<noteq> sr_instance_id q" if "p \<in> set ps" for p
      using False that by (metis image_eqI)
    then have "map (\<lambda>p. if lp_instance_id p \<in> sr_instance_id ` set (qs @ [q]) then mark_relayed p else p) ps = map ?mark ps"
      by (intro map_cong) auto
    ultimately show ?thesis
      using False unfolding step by (simp add: merged_peers_def)
  qed
qed

text \<open>The list of devices that the user sees is the reference list, sorted by name and id: every device
  that the local network or a relay of the session knows is in it once; a device that both know keeps the
  address, the certificate and the key that the local network verified and is only marked, and a device
  that only a relay knows has no address and no certificate of its own.\<close>

theorem device_list_is_the_union:
  assumes "distinct (map dp_instance_id discovered)" and "distinct (map sr_instance_id (concat relays))"
  shows "combined_peers discovered relays =
      sort_key (\<lambda>p. (lp_name p, lp_instance_id p)) (merged_peers (map lan_peer_from discovered) (concat relays))
    \<and> distinct (map lp_instance_id (combined_peers discovered relays))
    \<and> lp_instance_id ` set (combined_peers discovered relays) =
        dp_instance_id ` set discovered \<union> sr_instance_id ` set (concat relays)"
proof -
  let ?ps = "map lan_peer_from discovered"
  have ids: "map lp_instance_id ?ps = map dp_instance_id discovered"
    by (simp add: lan_peer_from_def)
  have "foldl (foldl merge_peer) ps rs = foldl merge_peer ps (concat rs)" for ps rs
    by (induction rs arbitrary: ps) simp_all
  then have list: "combined_peers discovered relays =
      sort_key (\<lambda>p. (lp_name p, lp_instance_id p)) (merged_peers ?ps (concat relays))"
    using foldl_merge [OF assms(1) [folded ids] assms(2)] by (simp add: combined_peers_def)
  have merged: "distinct (map lp_instance_id (merged_peers ?ps (concat relays)))"
    unfolding merged_peers_ids ids set_map [symmetric] using assms by auto
  then have "inj_on lp_instance_id (set (merged_peers ?ps (concat relays)))" "distinct (merged_peers ?ps (concat relays))"
    by (simp_all add: distinct_map)
  then have "distinct (map lp_instance_id (combined_peers discovered relays))"
    by (simp add: list distinct_map)
  moreover have "lp_instance_id ` set (combined_peers discovered relays) =
      set (map lp_instance_id (merged_peers ?ps (concat relays)))"
    by (simp add: list)
  ultimately show ?thesis
    using list unfolding merged_peers_ids ids set_map [symmetric] by auto
qed

theorem device_list_is_the_union_witness:
  "map lp_service_name (combined_peers
       [\<lparr>dp_instance_id = ''a'', dp_name = ''Ann'', dp_host = ''h'', dp_hosts = [], dp_port = 1, dp_capabilities = [],
         dp_fingerprint = ''f'', dp_public_key = ''k'', dp_service_name = ''lan''\<rparr>]
       [[\<lparr>sr_id = ''b'', sr_name = ''Bob'', sr_instance_id = ''b'', sr_remote_port = 2, sr_noise_public = ''n'',
          sr_end_to_end = True\<rparr>,
         \<lparr>sr_id = ''a'', sr_name = ''Ann'', sr_instance_id = ''a'', sr_remote_port = 3, sr_noise_public = ''k'',
          sr_end_to_end = True\<rparr>]])
   = [''lan+ssh'', ''ssh'']"
proof -
  let ?lan = "[\<lparr>dp_instance_id = ''a'', dp_name = ''Ann'', dp_host = ''h'', dp_hosts = [], dp_port = 1, dp_capabilities = [],
         dp_fingerprint = ''f'', dp_public_key = ''k'', dp_service_name = ''lan''\<rparr>]"
  let ?ssh = "[[\<lparr>sr_id = ''b'', sr_name = ''Bob'', sr_instance_id = ''b'', sr_remote_port = 2, sr_noise_public = ''n'',
          sr_end_to_end = True\<rparr>,
         \<lparr>sr_id = ''a'', sr_name = ''Ann'', sr_instance_id = ''a'', sr_remote_port = 3, sr_noise_public = ''k'',
          sr_end_to_end = True\<rparr>]]"
  have "combined_peers ?lan ?ssh =
      sort_key (\<lambda>p. (lp_name p, lp_instance_id p)) (merged_peers (map lan_peer_from ?lan) (concat ?ssh))"
    using device_list_is_the_union [of ?lan ?ssh] by simp
  then show ?thesis
    by (simp add: merged_peers_def lan_peer_from_def mark_relayed_def relay_entry_def less_eq_char_def)
qed

section \<open>The transfer id\<close>

lemma le_bytes_8_inj: "a < 2 ^ 64 \<Longrightarrow> b < 2 ^ 64 \<Longrightarrow> le_bytes_8 a = le_bytes_8 b \<longleftrightarrow> a = b"
  using be_bytes_inj [of a 8 b] by (auto simp: le_bytes_8_def)

lemma length_le_bytes_8 [simp]: "length (le_bytes_8 n) = 8"
  by (simp add: le_bytes_8_def)

lemma sized_field_cut:
  assumes "length a < 2 ^ 64" "length b < 2 ^ 64"
  shows "sized_field a @ x = sized_field b @ y \<longleftrightarrow> a = b \<and> x = y"
  using assms le_bytes_8_inj [of "length a" "length b"] by (auto simp: sized_field_def)

text \<open>Every field that goes into the id can be read off its input.\<close>

lemma transfer_id_input_inj:
  assumes "length i < 2 ^ 64" "length i' < 2 ^ 64" "length p < 2 ^ 64" "length p' < 2 ^ 64"
    and "length m < 2 ^ 64" "length m' < 2 ^ 64" "length t < 2 ^ 64" "length t' < 2 ^ 64"
  shows "transfer_id_input i p m t = transfer_id_input i' p' m' t' \<longleftrightarrow> i = i' \<and> p = p' \<and> m = m' \<and> t = t'"
  using assms sized_field_cut [of m m' "[]" "[]"]
  by (auto simp: transfer_id_input_def sized_field_cut)

lemma sys_metadata_plain:
  assumes "proper_tree fs" "plain_way fs p" "lookup fs p = Some n" "\<not> is_symlink n"
  shows "sys_metadata p fs = Inr (n, fs)"
  using sys_calls_plain(1) [OF assms(1-3)] assms
  by (auto simp: sys_metadata_def sys_symlink_metadata_def at_path_def resolve_plain_way bind_r_def split: option.splits)

lemma sys_read_plain:
  assumes "proper_tree fs" "plain_way fs p" "lookup fs p = Some (FileN d t)"
  shows "sys_read p fs = Inr (d, fs)"
  using sys_metadata_plain [OF assms] assms
  by (auto simp: sys_metadata_def sys_read_def at_path_def is_symlink_def resolve_plain_way bind_r_def split: option.splits)

lemma lan_transfer_id_file:
  assumes "still_calm fs s" "proper_tree fs" "plain_way fs p" "lookup fs p = Some (FileN d t)"
  shows "fst (lan_transfer_id E node_size i source p target s) =
     Inr (derive_transfer_id E i source (blake3_hash E d) target)"
proof -
  let ?s = "s\<lparr>nt_step := Suc (nt_step s), nt_fault := \<lambda>_. None\<rparr>"
  have calm: "still_calm fs (?s\<lparr>nt_step := k\<rparr>)" for k
    using assms(1) by (simp add: still_calm_def still_def)
  have "disk_call (sys_metadata p) s = (Inr (FileN d t), s\<lparr>nt_step := Suc (nt_step s)\<rparr>)"
    using assms sys_metadata_plain [OF assms(2-4)]
    by (intro disk_call_calm [where f = "sys_metadata p"]) (simp_all add: is_symlink_def)
  moreover obtain s2 where "source_digest E p ?s = (Inr (blake3_hash E d), s2)"
    using disk_call_calm [where f = "sys_read p", OF calm sys_read_plain [OF assms(2-4)]]
    by (simp add: source_digest_def cancellable_def net_call_def io_bind_def io_match_def io_ret_def Let_def)
  ultimately show ?thesis
    by (simp add: lan_transfer_id_def content_marker_for_def uncancelled_def io_bind_def io_match_def io_ret_def
        is_file_def Let_def)
qed

text \<open>C38: A transfer id stands for what is sent, by whom, from where and to whom. Sending an unchanged file again
  from the same place to the same device gives the same id, so that the receiver resumes, whatever the
  modification time and the rest of the disk are; two sends with the same id agree in all four, unless the two
  contents have the same digest or the two inputs of the id, which differ, hash to the same 16 bytes.\<close>

theorem transfer_id_follows_content:
  assumes "still_calm fs s" "proper_tree fs" "plain_way fs p" "lookup fs p = Some (FileN d t)"
    and "still_calm fs' s'" "proper_tree fs'" "plain_way fs' p'" "lookup fs' p' = Some (FileN d' t')"
    and "blake3_sizes E" "length i < 2 ^ 64" "length source < 2 ^ 64" "length target < 2 ^ 64"
    and "length i' < 2 ^ 64" "length source' < 2 ^ 64" "length target' < 2 ^ 64"
  shows "\<exists>id id'. fst (lan_transfer_id E node_size i source p target s) = Inr id
    \<and> fst (lan_transfer_id E node_size i' source' p' target' s') = Inr id'
    \<and> ((i, source, target, d) = (i', source', target', d') \<longrightarrow> id = id')
    \<and> (id = id' \<longrightarrow> (i, source, target) = (i', source', target') \<and> (d = d' \<or> blake3_hash E d = blake3_hash E d') \<or>
        (let x = transfer_id_input i source (blake3_hash E d) target;
             x' = transfer_id_input i' source' (blake3_hash E d') target' in
         x \<noteq> x' \<and> uuid_of_random (take 16 (blake3_hash E x)) = uuid_of_random (take 16 (blake3_hash E x'))))"
proof -
  have sizes: "length (blake3_hash E d) < 2 ^ 64" "length (blake3_hash E d') < 2 ^ 64"
    using assms(9) by (simp_all add: blake3_sizes_def)
  show ?thesis
    using transfer_id_input_inj [OF assms(10,13,11,14) sizes assms(12,15)]
    unfolding lan_transfer_id_file [OF assms(1-4)] lan_transfer_id_file [OF assms(5-8)] derive_transfer_id_def Let_def
    by blast
qed

theorem transfer_id_follows_content_witness:
  "\<exists>id. fst (lan_transfer_id sample_crates (\<lambda>_. 0) ''me'' ''/f'' [''f''] ''you'' sample_selection) = Inr id
    \<and> fst (lan_transfer_id sample_crates (\<lambda>_. 0) ''me'' ''/f'' [''f''] ''you''
         (sample_selection\<lparr>sd_disk := \<lambda>_. put_node [''f''] (FileN [4, 5, 6] 9) selected_tree\<rparr>)) = Inr id"
proof -
  let ?fs = "put_node [''f''] (FileN [4, 5, 6] 9) selected_tree"
  have "still_calm selected_tree sample_selection" "still_calm ?fs (sample_selection\<lparr>sd_disk := \<lambda>_. ?fs\<rparr>)"
    by (simp_all add: still_calm_def still_def sample_selection_def)
  moreover have "proper_tree ?fs" "plain_way ?fs [''f'']" "lookup ?fs [''f''] = Some (FileN [4, 5, 6] 9)"
    by (simp_all add: proper_tree_def selected_tree_def in_dir_def lookup_def plain_way_def strict_prefix_def
        prefix_Cons is_symlink_def put_node_def)
  ultimately show ?thesis
    using transfer_id_follows_content [of selected_tree sample_selection "[''f'']" "[4, 5, 6]" 0 ?fs _ _ "[4, 5, 6]" 9
        sample_crates "''me''" "''/f''" "''you''" "''me''" "''/f''" "''you''" "\<lambda>_. 0"] selected_tree_ok
    by auto
qed

section \<open>Routes\<close>

lemma peer_endpoints_pinned:
  assumes "peer_endpoints look fingerprint hosts given err = (endpoints, err')"
    and "\<forall>e \<in> set given. pe_certificate_fingerprint e = fingerprint" "distinct (map pe_address given)"
  shows "(\<forall>e \<in> set endpoints. pe_certificate_fingerprint e = fingerprint) \<and> distinct (map pe_address endpoints)"
  using assms
  by (induction look fingerprint hosts given err rule: peer_endpoints.induct) (auto split: sum.splits if_splits option.splits)

lemma find_Some_in: "find P xs = Some x \<Longrightarrow> x \<in> set xs \<and> P x"
  by (auto simp: find_Some_iff)

lemma resolve_targets_pinned:
  assumes "resolve_targets I lookup_host discovered params = Inr endpoints"
  shows "endpoints \<noteq> [] \<and> distinct (map pe_address endpoints) \<and>
    ((\<exists>p \<in> set discovered. dp_instance_id p = to_ascii_lowercase (trim (ls_instance_id params)) \<and>
        (\<forall>e \<in> set endpoints. pe_certificate_fingerprint e = dp_fingerprint p)) \<or>
     trim (ls_fingerprint params) \<noteq> [] \<and>
       (\<forall>e \<in> set endpoints. pe_certificate_fingerprint e = to_ascii_lowercase (trim (ls_fingerprint params))))"
proof (cases "if to_ascii_lowercase (trim (ls_instance_id params)) = [] then None
    else find (\<lambda>p. dp_instance_id p = to_ascii_lowercase (trim (ls_instance_id params))) discovered")
  case None
  then show ?thesis using assms by (auto simp: resolve_targets_def Let_def result_simps)
next
  case (Some p)
  let ?hosts = "if dp_hosts p = [] then [dp_host p] else dp_hosts p"
  obtain err where e: "peer_endpoints (\<lambda>host. resolve_address I lookup_host host (dp_port p)) (dp_fingerprint p) ?hosts [] None
      = (endpoints, err)" and "endpoints \<noteq> []"
    using assms Some unfolding resolve_targets_def Let_def by (simp split: prod.splits if_splits)
  moreover have "p \<in> set discovered" "dp_instance_id p = to_ascii_lowercase (trim (ls_instance_id params))"
    using Some find_Some_in by (fastforce split: if_splits)+
  ultimately show ?thesis using peer_endpoints_pinned [OF e] by auto
qed

text \<open>C37: A transfer only goes where its target is pinned: whatever the device table, the name service and the request
  say, every direct route carries the certificate that discovery verified for the named device or the one
  the request gives, no address is tried twice, the relay is used only when it is paired with the named
  device, and there is at least one route.\<close>

theorem every_route_is_pinned:
  assumes "resolve_send_routes I lookup_host discovered relays params = Inr routes"
  shows "ro_instance_id routes = to_ascii_lowercase (trim (ls_instance_id params))
    \<and> (\<forall>e \<in> set (ro_direct routes).
         (\<exists>p \<in> set discovered. dp_instance_id p = ro_instance_id routes \<and> pe_certificate_fingerprint e = dp_fingerprint p) \<or>
         trim (ls_fingerprint params) \<noteq> [] \<and>
           pe_certificate_fingerprint e = to_ascii_lowercase (trim (ls_fingerprint params)))
    \<and> distinct (map pe_address (ro_direct routes))
    \<and> (\<forall>relay. ro_relay routes = Some relay \<longrightarrow> ro_instance_id routes \<noteq> [] \<and>
         (\<exists>peers. (relay, peers) \<in> set relays \<and> ro_instance_id routes \<in> sr_instance_id ` set peers))
    \<and> (ro_direct routes \<noteq> [] \<or> ro_relay routes \<noteq> None)"
proof -
  let ?id = "to_ascii_lowercase (trim (ls_instance_id params))"
  define chosen where "chosen = (if ?id = [] then None else relay_for_peer relays ?id)"
  obtain direct where direct: "direct = [] \<or> resolve_targets I lookup_host discovered params = Inr direct"
    and some: "direct \<noteq> [] \<or> chosen \<noteq> None"
    and routes: "routes = \<lparr>ro_direct = direct, ro_relay = chosen, ro_instance_id = ?id\<rparr>"
    using assms by (auto simp: resolve_send_routes_def chosen_def Let_def result_simps split: if_splits)
  have relay: "?id \<noteq> [] \<and> (\<exists>peers. (relay, peers) \<in> set relays \<and> ?id \<in> sr_instance_id ` set peers)"
    if "chosen = Some relay" for relay
    using that by (fastforce simp: chosen_def relay_for_peer_def find_Some_iff in_set_conv_nth split: if_splits)
  show ?thesis
    using direct
  proof
    assume "direct = []"
    then show ?thesis using some relay by (simp add: routes)
  next
    assume "resolve_targets I lookup_host discovered params = Inr direct"
    from resolve_targets_pinned [OF this] show ?thesis using some relay by (simp add: routes) blast
  qed
qed

definition sample_request :: lan_send_params where
  "sample_request = \<lparr>ls_session_id = ''s'', ls_path = ''/f'', ls_instance_id = [], ls_host = ''h'', ls_port = 7,
     ls_fingerprint = ''AB'', ls_endpoint_token = []\<rparr>"

theorem every_route_is_pinned_witness:
  "\<exists>routes. resolve_send_routes \<lparr>ip_show = (\<lambda>_. []), ip_parse = (\<lambda>_. None)\<rparr> (\<lambda>host port. Inr [(IpV4 [1, 2, 3, 4], port)]) []
       ([] :: (unit \<times> ssh_peer list) list) sample_request = Inr routes
    \<and> (\<forall>e \<in> set (ro_direct routes). pe_certificate_fingerprint e = ''ab'') \<and> ro_direct routes \<noteq> []"
proof -
  let ?I = "\<lparr>ip_show = (\<lambda>_. []), ip_parse = (\<lambda>_. None)\<rparr>" and ?look = "\<lambda>host port. Inr [(IpV4 [1, 2, 3, 4], port)]"
  have words: "trim ''h'' = ''h''" "trim ''AB'' = ''AB''" "trim [] = []" by (simp_all add: trim_graphic)
  have "\<exists>routes. resolve_send_routes ?I ?look [] ([] :: (unit \<times> ssh_peer list) list) sample_request = Inr routes"
    by (simp add: resolve_send_routes_def resolve_targets_def resolve_address_def sample_request_def words
        to_ascii_lowercase_def reject_if_def strip_brackets_def strip_prefix_def)
  then obtain routes where run: "resolve_send_routes ?I ?look [] ([] :: (unit \<times> ssh_peer list) list) sample_request = Inr routes"
    by blast
  have "to_ascii_lowercase ''AB'' = ''ab''" by code_simp
  then show ?thesis
    using every_route_is_pinned [OF run] run by (auto simp: sample_request_def words)
qed

end
