(* ===== verification/EventQueue.thy ===== *)
theory EventQueue
  imports Json Machine
begin

text \<open>
  The queue between the core and the user interface (\<open>service.rs\<close>, \<open>EventQueue\<close>). Critical
  events are never dropped; progress events are dropped under back pressure; a snapshot event
  (the peer list) replaces the queued snapshot of its stream. The mutex makes every operation
  atomic, so a concurrent history is a list of operations.
\<close>

section \<open>State and operations\<close>

definition DROPPABLE_EVENT_CAPACITY :: nat where "DROPPABLE_EVENT_CAPACITY = 128"

definition MAX_SNAPSHOT_QUEUE_CAPACITY :: nat where "MAX_SNAPSHOT_QUEUE_CAPACITY = DROPPABLE_EVENT_CAPACITY * 8"

record service_event =
  se_event :: string
  se_data :: jvalue

record event_queue =
  eq_items :: "service_event list"
  eq_closed :: bool

definition droppable_event :: "string \<Rightarrow> bool" where
  "droppable_event name = (name = ''lan.progress'' \<or> name = ''lan.status'')"

definition snapshot_event :: "string \<Rightarrow> bool" where
  "snapshot_event name = (name = ''lan.peers'')"

text \<open>Indexing a \<open>Value\<close> by a missing key, or one that is no object, gives \<open>Null\<close>.\<close>

definition value_index :: "jvalue \<Rightarrow> string \<Rightarrow> jvalue" where
  "value_index v k = (case value_get k v of None \<Rightarrow> JNull | Some w \<Rightarrow> w)"

definition same_snapshot_stream :: "service_event \<Rightarrow> service_event \<Rightarrow> bool" where
  "same_snapshot_stream left right =
     (se_event left = se_event right
      \<and> value_index (se_data left) ''session_id'' = value_index (se_data right) ''session_id'')"

definition new_queue :: event_queue where
  "new_queue = \<lparr>eq_items = [], eq_closed = False\<rparr>"

text \<open>\<open>iter().position(p)\<close>.\<close>

fun position :: "('a \<Rightarrow> bool) \<Rightarrow> 'a list \<Rightarrow> nat option" where
  "position p [] = None"
| "position p (x # xs) = (if p x then Some 0 else map_option Suc (position p xs))"

text \<open>\<open>items.remove(i)\<close>.\<close>

definition remove_index :: "nat \<Rightarrow> 'a list \<Rightarrow> 'a list" where
  "remove_index i xs = take i xs @ drop (Suc i) xs"

definition emit :: "service_event \<Rightarrow> event_queue \<Rightarrow> event_queue" where
  "emit event q =
     (let items = eq_items q; push = (\<lambda>xs. q\<lparr>eq_items := xs @ [event]\<rparr>) in
      if eq_closed q then q
      else if snapshot_event (se_event event) then
        (case position (\<lambda>queued. same_snapshot_stream queued event) items of
           Some i \<Rightarrow> q\<lparr>eq_items := items[i := event]\<rparr>
         | None \<Rightarrow>
             (case if DROPPABLE_EVENT_CAPACITY \<le> length items
                   then position (\<lambda>queued. droppable_event (se_event queued)) items else None of
                Some i \<Rightarrow> push (remove_index i items)
              | None \<Rightarrow>
                  if MAX_SNAPSHOT_QUEUE_CAPACITY \<le> length items then
                    (case position (\<lambda>queued. snapshot_event (se_event queued)) items of
                       Some i \<Rightarrow> push (remove_index i items)
                     | None \<Rightarrow> q)
                  else push items))
      else if droppable_event (se_event event) \<and> DROPPABLE_EVENT_CAPACITY \<le> length items then q
      else push items)"

definition try_pop :: "event_queue \<Rightarrow> service_event option \<times> event_queue" where
  "try_pop q = (case eq_items q of [] \<Rightarrow> (None, q) | e # es \<Rightarrow> (Some e, q\<lparr>eq_items := es\<rparr>))"

definition clear_queue :: "event_queue \<Rightarrow> event_queue" where
  "clear_queue q = q\<lparr>eq_items := []\<rparr>"

definition close_queue :: "event_queue \<Rightarrow> event_queue" where
  "close_queue q = q\<lparr>eq_closed := True\<rparr>"

text \<open>
  The waiting \<open>pop\<close>: the section under the lock is one poll, that either returns or waits.
\<close>

datatype poll = Ready "service_event option" | Wait

definition pop_poll :: "event_queue \<Rightarrow> poll \<times> event_queue" where
  "pop_poll q =
     (case eq_items q of
        e # es \<Rightarrow> (Ready (Some e), q\<lparr>eq_items := es\<rparr>)
      | [] \<Rightarrow> (if eq_closed q then Ready None else Wait, q))"

datatype queue_op = Emit service_event | TryPop | Clear | Close

definition queue_step :: "event_queue \<Rightarrow> queue_op \<Rightarrow> event_queue" where
  "queue_step q operation =
     (case operation of
        Emit e \<Rightarrow> emit e q
      | TryPop \<Rightarrow> snd (try_pop q)
      | Clear \<Rightarrow> clear_queue q
      | Close \<Rightarrow> close_queue q)"

text \<open>
  \<open>pop\<close>: while the consumer waits, other threads run batches of operations, one before each
  wake-up; when the batches end without a result the timeout has elapsed. A zero timeout is
  \<open>try_pop\<close>.
\<close>

fun pop_wait :: "event_queue \<Rightarrow> queue_op list list \<Rightarrow> service_event option \<times> event_queue" where
  "pop_wait q batches =
     (case pop_poll q of
        (Ready r, q') \<Rightarrow> (r, q')
      | (Wait, q') \<Rightarrow>
          (case batches of
             [] \<Rightarrow> (None, q')
           | operations # rest \<Rightarrow> pop_wait (run_events queue_step q' operations) rest))"

declare pop_wait.simps [simp del]

definition pop :: "event_queue \<Rightarrow> bool \<Rightarrow> queue_op list list \<Rightarrow> service_event option \<times> event_queue" where
  "pop q zero_timeout batches = (if zero_timeout then try_pop q else pop_wait q batches)"

section \<open>Lists\<close>

lemma position_split:
  "position p xs = Some i \<Longrightarrow>
    i < length xs \<and> p (xs ! i) \<and> xs = take i xs @ xs ! i # drop (Suc i) xs
    \<and> (\<forall>x\<in>set (take i xs). \<not> p x)"
proof (induction xs arbitrary: i)
  case (Cons x xs)
  then show ?case by (cases i) (auto split: if_splits)
qed simp

lemma position_cases:
  obtains (none) "position p xs = None" "\<forall>x\<in>set xs. \<not> p x"
    | (found) before x after where "xs = before @ x # after" "p x"
        "position p xs = Some (length before)" "\<forall>y\<in>set before. \<not> p y"
proof (cases "position p xs")
  case None
  have "\<forall>x\<in>set xs. \<not> p x"
    using None by (induction xs) (auto split: if_splits)
  then show thesis using none None by simp
next
  case (Some i)
  show thesis
    using position_split [OF Some] found [of "take i xs" "xs ! i" "drop (Suc i) xs"] Some by auto
qed

lemma remove_index_split [simp]: "remove_index (length xs) (xs @ x # ys) = xs @ ys"
  by (simp add: remove_index_def)

section \<open>What an emission does\<close>

definition critical :: "service_event \<Rightarrow> bool" where
  "critical e = (\<not> droppable_event (se_event e) \<and> \<not> snapshot_event (se_event e))"

lemma snapshot_not_droppable: "snapshot_event n \<Longrightarrow> \<not> droppable_event n"
  by (simp add: snapshot_event_def droppable_event_def)

lemma same_stream_snapshot:
  "same_snapshot_stream a b \<Longrightarrow> snapshot_event (se_event a) = snapshot_event (se_event b)"
  by (simp add: same_snapshot_stream_def)

text \<open>The five things that can happen to an event.\<close>

lemma emit_cases [case_names closed replace evict append ignore]:
  obtains (closed) "eq_closed q" "emit e q = q"
  | (replace) before old after where "\<not> eq_closed q" "snapshot_event (se_event e)"
      "eq_items q = before @ old # after" "same_snapshot_stream old e"
      "emit e q = q\<lparr>eq_items := before @ e # after\<rparr>"
  | (evict) before old after where "\<not> eq_closed q" "snapshot_event (se_event e)"
      "\<forall>x\<in>set (eq_items q). \<not> same_snapshot_stream x e"
      "eq_items q = before @ old # after" "\<not> critical old"
      "emit e q = q\<lparr>eq_items := before @ after @ [e]\<rparr>"
  | (append) "\<not> eq_closed q"
      "snapshot_event (se_event e) \<Longrightarrow> \<forall>x\<in>set (eq_items q). \<not> same_snapshot_stream x e"
      "snapshot_event (se_event e) \<Longrightarrow> length (eq_items q) < MAX_SNAPSHOT_QUEUE_CAPACITY"
      "droppable_event (se_event e) \<Longrightarrow> length (eq_items q) < DROPPABLE_EVENT_CAPACITY"
      "emit e q = q\<lparr>eq_items := eq_items q @ [e]\<rparr>"
  | (ignore) "\<not> eq_closed q" "\<not> critical e" "emit e q = q"
      "if snapshot_event (se_event e)
       then MAX_SNAPSHOT_QUEUE_CAPACITY \<le> length (eq_items q) \<and> (\<forall>x\<in>set (eq_items q). critical x)
       else DROPPABLE_EVENT_CAPACITY \<le> length (eq_items q)"
proof (cases "eq_closed q")
  case True
  then show thesis using closed by (simp add: emit_def)
next
  case False
  note opened = False
  show thesis
  proof (cases "snapshot_event (se_event e)")
    case True
    note snap = True
    show thesis
    proof (cases rule: position_cases
        [where p = "\<lambda>queued. same_snapshot_stream queued e" and xs = "eq_items q"])
      case none
      note fresh = none
      show thesis
      proof (cases "DROPPABLE_EVENT_CAPACITY \<le> length (eq_items q)
          \<and> position (\<lambda>queued. droppable_event (se_event queued)) (eq_items q) \<noteq> None")
        case True
        then show thesis
          by (cases rule: position_cases
              [where p = "\<lambda>queued. droppable_event (se_event queued)" and xs = "eq_items q"])
            (use opened snap fresh in \<open>auto simp: emit_def critical_def intro!: evict\<close>)
      next
        case False
        then have no_room: "(if DROPPABLE_EVENT_CAPACITY \<le> length (eq_items q)
            then position (\<lambda>queued. droppable_event (se_event queued)) (eq_items q) else None) = None"
          by auto
        show thesis
        proof (cases "MAX_SNAPSHOT_QUEUE_CAPACITY \<le> length (eq_items q)")
          case True
          have undroppable: "\<forall>x\<in>set (eq_items q). \<not> droppable_event (se_event x)"
            using False True
            by (cases rule: position_cases
                [where p = "\<lambda>queued. droppable_event (se_event queued)" and xs = "eq_items q"])
              (auto simp: DROPPABLE_EVENT_CAPACITY_def MAX_SNAPSHOT_QUEUE_CAPACITY_def)
          show thesis
          proof (cases rule: position_cases
              [where p = "\<lambda>queued. snapshot_event (se_event queued)" and xs = "eq_items q"])
            case none
            have "emit e q = q"
              using opened snap True
              by (simp add: emit_def fresh(1) no_room none(1) Let_def del: if_split)
            then show thesis
              using opened snap True undroppable none(2) by (intro ignore) (auto simp: critical_def)
          next
            case (found before x after)
            have "emit e q = q\<lparr>eq_items := remove_index (length before) (eq_items q) @ [e]\<rparr>"
              using opened snap True
              by (simp add: emit_def fresh(1) no_room found(3) Let_def del: if_split)
            then show thesis
              using opened snap fresh(2) found(2)
              by (intro evict [OF _ _ _ found(1)]) (auto simp: critical_def found(1))
          qed
        next
          case False
          then show thesis
            using opened snap fresh no_room snapshot_not_droppable [OF snap]
            by (intro append) (auto simp: emit_def)
        qed
      qed
    next
      case (found before x after)
      then show thesis using opened snap by (intro replace) (auto simp: emit_def)
    qed
  next
    case False
    show thesis
    proof (cases "droppable_event (se_event e) \<and> DROPPABLE_EVENT_CAPACITY \<le> length (eq_items q)")
      case True
      then show thesis using opened False by (intro ignore) (auto simp: emit_def critical_def)
    next
      case False
      then show thesis
        using opened \<open>\<not> snapshot_event (se_event e)\<close> by (intro append) (auto simp: emit_def)
    qed
  qed
qed

section \<open>The invariant\<close>

definition stream :: "service_event \<Rightarrow> string \<times> jvalue" where
  "stream e = (se_event e, value_index (se_data e) ''session_id'')"

lemma same_stream_iff: "same_snapshot_stream a b \<longleftrightarrow> stream a = stream b"
  by (auto simp: same_snapshot_stream_def stream_def)

abbreviation snapshots :: "service_event list \<Rightarrow> service_event list" where
  "snapshots \<equiv> filter (\<lambda>e. snapshot_event (se_event e))"

abbreviation droppables :: "service_event list \<Rightarrow> service_event list" where
  "droppables \<equiv> filter (\<lambda>e. droppable_event (se_event e))"

abbreviation criticals :: "service_event list \<Rightarrow> service_event list" where
  "criticals \<equiv> filter critical"

definition queue_ok :: "event_queue \<Rightarrow> bool" where
  "queue_ok q =
     (length (filter (\<lambda>e. \<not> critical e) (eq_items q)) \<le> MAX_SNAPSHOT_QUEUE_CAPACITY
      \<and> length (droppables (eq_items q)) \<le> DROPPABLE_EVENT_CAPACITY
      \<and> distinct (map stream (snapshots (eq_items q))))"

lemma queue_ok_subset:
  assumes "queue_ok q" and "eq_items q = before @ old # after"
  shows "queue_ok (q\<lparr>eq_items := before @ after\<rparr>)"
  using assms by (auto simp: queue_ok_def split: if_splits)

lemma emit_ok:
  assumes ok: "queue_ok q"
  shows "queue_ok (emit e q)"
proof (cases rule: emit_cases [where e = e and q = q])
  case (replace before old after)
  have names: "se_event old = se_event e" and same: "stream old = stream e"
    using replace(4) by (simp_all add: same_snapshot_stream_def same_stream_iff stream_def)
  then have "critical old = critical e"
    by (simp add: critical_def)
  then show ?thesis
    using ok replace(2,3,5) names same by (auto simp: queue_ok_def)
next
  case (evict before old after)
  have "queue_ok (q\<lparr>eq_items := before @ after\<rparr>)"
    by (rule queue_ok_subset [OF ok evict(4)])
  moreover have "\<not> droppable_event (se_event e)"
    by (rule snapshot_not_droppable [OF evict(2)])
  ultimately show ?thesis
    using ok evict(2-6) by (auto simp: queue_ok_def same_stream_iff critical_def)
next
  case append
  have few: "length (filter p (eq_items q)) \<le> length (eq_items q)" for p
    by (rule length_filter_le)
  show ?thesis
  proof (cases "critical e")
    case True
    then show ?thesis using ok append(5) by (simp add: queue_ok_def critical_def)
  next
    case False
    have room: "length (filter (\<lambda>e. \<not> critical e) (eq_items q)) < MAX_SNAPSHOT_QUEUE_CAPACITY"
      using False append(3,4) le_less_trans [OF few [of "\<lambda>e. \<not> critical e"]]
      by (auto simp: critical_def DROPPABLE_EVENT_CAPACITY_def MAX_SNAPSHOT_QUEUE_CAPACITY_def)
    have "droppable_event (se_event e) \<Longrightarrow> length (droppables (eq_items q)) < DROPPABLE_EVENT_CAPACITY"
      using append(4) le_less_trans [OF few [of "\<lambda>e. droppable_event (se_event e)"]] by blast
    then show ?thesis
      using ok append(2,5) room False snapshot_not_droppable [of "se_event e"]
      by (auto simp: queue_ok_def same_stream_iff)
  qed
qed (use ok in simp_all)

lemma queue_step_simps [simp]:
  "queue_step q (Emit e) = emit e q"
  "queue_step q TryPop = snd (try_pop q)"
  "queue_step q Clear = clear_queue q"
  "queue_step q Close = close_queue q"
  by (simp_all add: queue_step_def)

lemma queue_step_ok: "queue_ok q \<Longrightarrow> queue_ok (queue_step q operation)"
proof (cases operation)
  case TryPop
  assume "queue_ok q"
  then show ?thesis
    using TryPop queue_ok_subset [of q "[]"]
    by (auto simp: try_pop_def split: list.splits)
next
  case (Emit e)
  assume "queue_ok q"
  then show ?thesis using Emit by (simp add: emit_ok)
qed (simp_all add: queue_ok_def clear_queue_def close_queue_def)

lemma new_queue_ok: "queue_ok new_queue"
  by (simp add: queue_ok_def new_queue_def)

interpretation queue_machine: machine "\<lambda>q. q = new_queue" "\<lambda>q operation q'. q' = queue_step q operation" queue_ok
  by unfold_locales (simp_all add: queue_step_ok new_queue_ok)

text \<open>However producers and the consumer interleave, a service event queue never holds more
  than 1024 events that could have been dropped (snapshots and progress events together), nor
  more than 128 progress events, and never two snapshots of the same stream.\<close>

theorem event_queue_bounded:
  assumes "reachable (\<lambda>q. q = new_queue) (\<lambda>q operation q'. q' = queue_step q operation) q"
  shows "length (filter (\<lambda>e. \<not> critical e) (eq_items q)) \<le> MAX_SNAPSHOT_QUEUE_CAPACITY
    \<and> length (droppables (eq_items q)) \<le> DROPPABLE_EVENT_CAPACITY
    \<and> distinct (map stream (snapshots (eq_items q)))"
  using queue_machine.reachable_inv [OF assms] by (simp add: queue_ok_def)

definition sample_peers :: "string \<Rightarrow> int \<Rightarrow> service_event" where
  "sample_peers session n = \<lparr>se_event = ''lan.peers'',
     se_data = JObj [(''session_id'', JStr session), (''count'', JNum n)]\<rparr>"

theorem event_queue_bounded_witness:
  "distinct (map stream (snapshots (eq_items (run_events queue_step new_queue
     [Emit (sample_peers ''a'' 1), Emit (sample_peers ''a'' 2), TryPop]))))"
  by (rule event_queue_bounded [THEN conjunct2, THEN conjunct2])
    (rule reachable_run_events, rule refl)

section \<open>Delivery\<close>

fun deliveries :: "event_queue \<Rightarrow> queue_op list \<Rightarrow> service_event list" where
  "deliveries q [] = []"
| "deliveries q (operation # rest) =
     (case operation of
        TryPop \<Rightarrow> (case fst (try_pop q) of None \<Rightarrow> [] | Some e \<Rightarrow> [e])
      | _ \<Rightarrow> []) @ deliveries (queue_step q operation) rest"

text \<open>The events emitted before the queue is closed.\<close>

definition emissions :: "queue_op list \<Rightarrow> service_event list" where
  "emissions operations =
     concat (map (\<lambda>operation. case operation of Emit e \<Rightarrow> [e] | _ \<Rightarrow> [])
       (takeWhile (\<lambda>operation. operation \<noteq> Close) operations))"

lemma criticals_emit:
  assumes "\<not> eq_closed q"
  shows "criticals (eq_items (emit e q)) = criticals (eq_items q) @ criticals [e]"
proof (cases rule: emit_cases [where e = e and q = q])
  case (replace before old after)
  then show ?thesis by (auto simp: critical_def same_snapshot_stream_def)
qed (use assms in \<open>auto simp: critical_def\<close>)

lemma emit_closed [simp]: "eq_closed (emit e q) = eq_closed q"
  by (cases rule: emit_cases [where e = e and q = q]) auto

lemma try_pop_closed [simp]: "eq_closed (snd (try_pop q)) = eq_closed q"
  by (simp add: try_pop_def split: list.splits)

lemma emit_after_close: "eq_closed q \<Longrightarrow> emit e q = q"
  by (simp add: emit_def)

lemma criticals_closed:
  assumes "eq_closed q" and "Clear \<notin> set operations"
  shows "criticals (deliveries q operations) @ criticals (eq_items (run_events queue_step q operations))
    = criticals (eq_items q)"
  using assms
proof (induction operations arbitrary: q)
  case (Cons operation operations)
  show ?case
  proof (cases operation)
    case TryPop
    then show ?thesis
      using Cons.IH [of "snd (try_pop q)"] Cons.prems
      by (cases "eq_items q") (auto simp: try_pop_def)
  next
    case Close
    then show ?thesis
      using Cons.IH [of "close_queue q"] Cons.prems by (simp add: close_queue_def)
  qed (use Cons in \<open>auto simp: emit_after_close\<close>)
qed simp

text \<open>C18: Critical events are lossless and delivered in order: in any history of emissions, pops
  and a close, the critical events popped followed by those still queued are exactly the ones
  queued at the start followed by the ones emitted before the close.\<close>

theorem critical_events_lossless:
  assumes "\<not> eq_closed q" and "Clear \<notin> set operations"
  shows "criticals (deliveries q operations) @ criticals (eq_items (run_events queue_step q operations))
    = criticals (eq_items q) @ criticals (emissions operations)"
  using assms
proof (induction operations arbitrary: q)
  case (Cons operation operations)
  show ?case
  proof (cases operation)
    case (Emit e)
    then show ?thesis
      using Cons.IH [of "emit e q"] Cons.prems
      by (simp add: criticals_emit emissions_def)
  next
    case TryPop
    then show ?thesis
      using Cons.IH [of "snd (try_pop q)"] Cons.prems
      by (cases "eq_items q") (auto simp: emissions_def try_pop_def)
  next
    case Close
    then show ?thesis
      using Cons.prems criticals_closed [of "close_queue q" operations]
      by (simp add: emissions_def close_queue_def)
  qed (use Cons.prems in auto)
qed (simp add: emissions_def)

definition sample_done :: "string \<Rightarrow> service_event" where
  "sample_done n = \<lparr>se_event = ''transfer.finished'', se_data = JStr n\<rparr>"

definition sample_progress :: "service_event" where
  "sample_progress = \<lparr>se_event = ''lan.progress'', se_data = JNum 1\<rparr>"

theorem critical_events_lossless_witness:
  "criticals (deliveries new_queue [Emit (sample_done ''1''), Emit sample_progress, TryPop, Emit (sample_done ''2''), Close])
   @ criticals (eq_items (run_events queue_step new_queue
       [Emit (sample_done ''1''), Emit sample_progress, TryPop, Emit (sample_done ''2''), Close]))
   = [sample_done ''1'', sample_done ''2'']"
  by (subst critical_events_lossless)
    (simp_all add: new_queue_def emissions_def critical_def sample_done_def sample_progress_def
      droppable_event_def snapshot_event_def)

text \<open>The newest peer list reaches an open queue and is then the only queued snapshot of its
  stream, unless 1024 or more events are queued and every one of them is critical, in which case
  the queue is left unchanged.\<close>

theorem newest_snapshot_queued:
  assumes "\<not> eq_closed q" and "snapshot_event (se_event e)" and "queue_ok q"
  shows "if (\<forall>x\<in>set (eq_items q). critical x) \<and> MAX_SNAPSHOT_QUEUE_CAPACITY \<le> length (eq_items q)
     then emit e q = q
     else filter (\<lambda>x. snapshot_event (se_event x) \<and> stream x = stream e) (eq_items (emit e q)) = [e]"
proof -
  have fresh: "filter (\<lambda>x. snapshot_event (se_event x) \<and> stream x = stream e) xs = []"
    if "\<forall>x\<in>set xs. \<not> same_snapshot_stream x e" for xs
    using that by (auto simp: same_stream_iff filter_empty_conv)
  have crit: "critical x \<Longrightarrow> stream x \<noteq> stream e" for x
    using assms(2) by (auto simp: critical_def stream_def)
  show ?thesis
  proof (cases rule: emit_cases [where e = e and q = q])
    case (replace before old after)
    have "\<not> critical old"
      using replace(2,4) by (simp add: critical_def same_snapshot_stream_def)
    moreover have "snapshot_event (se_event old)"
      using replace(2,4) by (simp add: same_snapshot_stream_def)
    then have "\<forall>x\<in>set (before @ after). snapshot_event (se_event x) \<longrightarrow> stream x \<noteq> stream e"
      using assms(3) replace(3,4) by (auto simp: queue_ok_def same_stream_iff image_iff)
    ultimately show ?thesis
      using replace(2,3,5) by (auto simp: filter_empty_conv)
  next
    case (evict before old after)
    then show ?thesis using fresh [of "before @ after"] by auto
  next
    case append
    then show ?thesis using fresh [of "eq_items q"] assms(2) by auto
  next
    case ignore
    then show ?thesis using assms(2) by simp
  qed (use assms(1) in simp)
qed

theorem newest_snapshot_queued_witness:
  "filter (\<lambda>x. snapshot_event (se_event x) \<and> stream x = stream (sample_peers ''a'' 2))
     (eq_items (emit (sample_peers ''a'' 2) (emit (sample_peers ''a'' 1) new_queue)))
   = [sample_peers ''a'' 2]"
proof -
  have first: "emit (sample_peers ''a'' 1) new_queue = \<lparr>eq_items = [sample_peers ''a'' 1], eq_closed = False\<rparr>"
    by (simp add: emit_def new_queue_def sample_peers_def snapshot_event_def
        DROPPABLE_EVENT_CAPACITY_def MAX_SNAPSHOT_QUEUE_CAPACITY_def)
  show ?thesis
    using newest_snapshot_queued [of "emit (sample_peers ''a'' 1) new_queue" "sample_peers ''a'' 2"]
      emit_ok [OF new_queue_ok, of "sample_peers ''a'' 1"]
    unfolding first by (simp add: critical_def snapshot_event_def sample_peers_def [of _ 2] sample_peers_def [of _ 1])
qed

text \<open>Closing the queue releases a waiting consumer: once another thread has closed it, the
  waiting pop returns without further wake-ups, and it returns no event only when the queue is
  closed and empty.\<close>

theorem close_releases_consumer:
  shows "pop_wait q (batches @ [operations @ [Close]] @ later) = pop_wait q (batches @ [operations @ [Close]])
    \<and> (fst (pop_wait q (batches @ [operations @ [Close]])) = None
        \<longrightarrow> eq_closed (snd (pop_wait q (batches @ [operations @ [Close]])))
          \<and> eq_items (snd (pop_wait q (batches @ [operations @ [Close]]))) = [])"
proof (induction batches arbitrary: q)
  case Nil
  have "eq_closed (run_events queue_step r (operations @ [Close]))" for r
    by (simp add: run_events_append close_queue_def)
  then show ?case
    by (auto simp: pop_wait.simps [of q] pop_wait.simps [of "run_events queue_step q (operations @ [Close])"]
        pop_poll_def split: list.splits poll.splits)
next
  case (Cons batch batches)
  show ?case
    using Cons.IH [of "run_events queue_step q batch"]
    by (auto simp: pop_wait.simps [of q] pop_poll_def split: list.splits poll.splits)
qed

theorem close_releases_consumer_witness:
  "eq_closed (snd (pop_wait new_queue [[Emit sample_progress, TryPop], [Close]]))"
proof -
  have "fst (pop_wait new_queue ([[Emit sample_progress, TryPop]] @ [[] @ [Close]])) = None"
    by (simp add: pop_wait.simps pop_poll_def new_queue_def emit_def try_pop_def
        close_queue_def sample_progress_def snapshot_event_def droppable_event_def
        DROPPABLE_EVENT_CAPACITY_def)
  then show ?thesis
    using close_releases_consumer [of new_queue "[[Emit sample_progress, TryPop]]" "[]" "[]"] by simp
qed

end
