(* ===== verification/Service.thy ===== *)
theory Service
  imports SendRoutes EventQueue Receive "HOL-Library.AList"
begin

text \<open>
  The sessions of the service (\<open>service.rs\<close>): the registries of LAN sessions, short-code sessions and SSH
  relays, the registry of the running transfers of a LAN session, and the requests that change them. What is
  done under one lock is one function on the state; a request is such sections with pauses between them, in
  which other tasks run (an argument). A hash map is a list of pairs: its order stands for the unspecified
  order of iteration. A handle that is dropped without being closed is the step \<open>CancelToken\<close>.
\<close>

section \<open>Cancellation tokens\<close>

text \<open>A token is named by its place in the tree of \<open>child_token\<close>; the token of the service is the root.
  Cancelling a token cancels those below it.\<close>

type_synonym token = "string list"

definition is_cancelled :: "token list \<Rightarrow> token \<Rightarrow> bool" where
  "is_cancelled cancelled t = list_ex (\<lambda>c. prefix c t) cancelled"

definition new_id :: "string \<Rightarrow> string \<Rightarrow> string" where
  "new_id kind uuid = kind @ CHR ''-'' # uuid"

section \<open>State\<close>

record lan_session =
  la_session_id :: string
  la_token :: token

record wormhole_session =
  wh_session_id :: string
  wh_lan_session_id :: string
  wh_token :: token

record relay_handle =
  rl_session_id :: string
  rl_lan_session_id :: string
  rl_token :: token

text \<open>The spawned task of a transfer: running until it has removed its token.\<close>

record send_task =
  tk_send_id :: string
  tk_token :: token
  tk_running :: bool

text \<open>\<open>sg_guards\<close> are the ids of the living \<open>SendTokenGuard\<close>s, \<open>sg_removals\<close> those of dropped ones whose
  removal waits for the lock.\<close>

record send_registry =
  sg_closed :: bool
  sg_cancellations :: "(string \<times> token) list"
  sg_handles :: "send_task list"
  sg_guards :: "string list list"
  sg_removals :: "string list list"

definition new_registry :: send_registry where
  "new_registry = \<lparr>sg_closed = False, sg_cancellations = [], sg_handles = [], sg_guards = [], sg_removals = []\<rparr>"

text \<open>The decision of the user on an offer travels over a channel: its sender is in the session until it is
  used, \<open>dc_message\<close> is what was sent and not yet received, \<open>dc_receiver\<close> whether anyone still listens.\<close>

datatype receiver_decision = AcceptOffer | RejectOffer

record decision_channel =
  dc_sender :: bool
  dc_message :: "receiver_decision option"
  dc_receiver :: bool

definition no_channel :: decision_channel where
  "no_channel = \<lparr>dc_sender = False, dc_message = None, dc_receiver = False\<rparr>"

definition open_channel :: decision_channel where
  "open_channel = \<lparr>dc_sender = True, dc_message = None, dc_receiver = True\<rparr>"

record service =
  sv_closed :: bool
  sv_sessions :: "(string \<times> lan_session) list"
  sv_wormholes :: "(string \<times> wormhole_session) list"
  sv_relays :: "(string \<times> relay_handle) list"
  sv_cancelled :: "token list"
  sv_sends :: "string \<Rightarrow> send_registry"
  sv_decisions :: "string \<Rightarrow> decision_channel"
  sv_paused :: "string \<Rightarrow> bool"
  sv_events :: event_queue

definition new_service :: service where
  "new_service = \<lparr>sv_closed = False, sv_sessions = [], sv_wormholes = [], sv_relays = [], sv_cancelled = [],
     sv_sends = \<lambda>_. new_registry, sv_decisions = \<lambda>_. no_channel,
     sv_paused = \<lambda>_. False, sv_events = new_queue\<rparr>"

definition sv_is_cancelled :: "service \<Rightarrow> token \<Rightarrow> bool" where
  "sv_is_cancelled sv t = is_cancelled (sv_cancelled sv) t"

definition cancel_token :: "token \<Rightarrow> service \<Rightarrow> service" where
  "cancel_token t sv = sv\<lparr>sv_cancelled := t # sv_cancelled sv\<rparr>"

definition lan_session_of :: "string \<Rightarrow> lan_session" where
  "lan_session_of sid = \<lparr>la_session_id = sid, la_token = [sid]\<rparr>"

section \<open>Sections under a lock\<close>

subsection \<open>LAN sessions\<close>

text \<open>The first section of \<open>start_lan\<close> and the last one.\<close>

definition drain_lan :: "service \<Rightarrow> (lan_session list \<times> relay_handle list) \<times> service" where
  "drain_lan sv =
     ((map snd (sv_sessions sv), map snd (sv_relays sv)), sv\<lparr>sv_sessions := [], sv_relays := []\<rparr>)"

definition insert_lan :: "lan_session \<Rightarrow> service \<Rightarrow> bool \<times> service" where
  "insert_lan s sv =
     (if sv_closed sv then (False, sv)
      else (True, sv\<lparr>sv_sessions := AList.update (la_session_id s) s (sv_sessions sv)\<rparr>))"

definition take_lan :: "string \<Rightarrow> service \<Rightarrow> (lan_session option \<times> relay_handle list) \<times> service" where
  "take_lan sid sv =
     ((map_of (sv_sessions sv) sid, filter (\<lambda>r. rl_lan_session_id r = sid) (map snd (sv_relays sv))),
      sv\<lparr>sv_sessions := AList.delete sid (sv_sessions sv),
         sv_relays := filter (\<lambda>(_, r). rl_lan_session_id r \<noteq> sid) (sv_relays sv)\<rparr>)"

definition find_lan :: "string \<Rightarrow> service \<Rightarrow> lan_session result \<times> service" where
  "find_lan sid sv =
     (if sid = [] then Inl (InvalidRequest ''session_id is required'')
      else ok_or (map_of (sv_sessions sv) sid) (InvalidRequest ''unknown lan session''), sv)"

subsection \<open>Transfers\<close>

definition set_sends :: "string \<Rightarrow> (send_registry \<Rightarrow> send_registry) \<Rightarrow> service \<Rightarrow> service" where
  "set_sends sid f sv = sv\<lparr>sv_sends := (sv_sends sv)(sid := f (sv_sends sv sid))\<rparr>"

definition lan_closed_error :: core_error where
  "lan_closed_error = InvalidRequest ''lan session is closed''"

definition lan_is_closed :: "lan_session \<Rightarrow> service \<Rightarrow> bool" where
  "lan_is_closed s sv = (sg_closed (sv_sends sv (la_session_id s)) \<or> sv_is_cancelled sv (la_token s))"

text \<open>The section of \<open>lan_send\<close>: the token is registered and the task is spawned.\<close>

definition register_send :: "lan_session \<Rightarrow> string \<Rightarrow> service \<Rightarrow> unit result \<times> service" where
  "register_send s send_id sv =
     (if lan_is_closed s sv then (Inl lan_closed_error, sv)
      else (Inr (), set_sends (la_session_id s) (\<lambda>g.
        g\<lparr>sg_cancellations := AList.update send_id (la_token s @ [send_id]) (sg_cancellations g),
          sg_handles := filter tk_running (sg_handles g) @
            [\<lparr>tk_send_id = send_id, tk_token = la_token s @ [send_id], tk_running = True\<rparr>]\<rparr>) sv))"

text \<open>The end of the task.\<close>

definition finish_send :: "string \<Rightarrow> string \<Rightarrow> service \<Rightarrow> service" where
  "finish_send sid send_id sv = set_sends sid (\<lambda>g.
     g\<lparr>sg_cancellations := AList.delete send_id (sg_cancellations g),
       sg_handles := map (\<lambda>task. if tk_send_id task = send_id then task\<lparr>tk_running := False\<rparr> else task) (sg_handles g)\<rparr>) sv"

text \<open>The section of \<open>lan_send_cancel\<close>: a copy of the token, which is cancelled after the lock is released.\<close>

definition registered_token :: "lan_session \<Rightarrow> string \<Rightarrow> service \<Rightarrow> token option \<times> service" where
  "registered_token s send_id sv = (map_of (sg_cancellations (sv_sends sv (la_session_id s))) send_id, sv)"

text \<open>\<open>SendTokenGuard\<close>: registration and removal; a drop that does not get the lock leaves the removal to a
  task.\<close>

definition register_tokens :: "lan_session \<Rightarrow> (string \<times> token) list \<Rightarrow> service \<Rightarrow> unit result \<times> service" where
  "register_tokens s tokens sv =
     (if lan_is_closed s sv then (Inl lan_closed_error, sv)
      else (Inr (), set_sends (la_session_id s) (\<lambda>g.
        g\<lparr>sg_cancellations := fold (\<lambda>(i, t). AList.update i t) tokens (sg_cancellations g),
          sg_guards := map fst tokens # sg_guards g\<rparr>) sv))"

definition unregister :: "string list \<Rightarrow> (string \<times> token) list \<Rightarrow> (string \<times> token) list" where
  "unregister send_ids cancellations = fold AList.delete send_ids cancellations"

definition drop_guard :: "string \<Rightarrow> string list \<Rightarrow> bool \<Rightarrow> service \<Rightarrow> service" where
  "drop_guard sid send_ids locked sv = set_sends sid (\<lambda>g.
     if send_ids = [] then g\<lparr>sg_guards := remove1 send_ids (sg_guards g)\<rparr>
     else if locked then g\<lparr>sg_guards := remove1 send_ids (sg_guards g), sg_removals := send_ids # sg_removals g\<rparr>
     else g\<lparr>sg_guards := remove1 send_ids (sg_guards g),
            sg_cancellations := unregister send_ids (sg_cancellations g)\<rparr>) sv"

definition late_removal :: "string \<Rightarrow> string list \<Rightarrow> service \<Rightarrow> service" where
  "late_removal sid send_ids sv = set_sends sid (\<lambda>g.
     g\<lparr>sg_removals := remove1 send_ids (sg_removals g),
       sg_cancellations := unregister send_ids (sg_cancellations g)\<rparr>) sv"

text \<open>\<open>LanSession::close\<close> under the lock: every token is cancelled and the tasks are taken to be joined;
  nothing when the session was closed before.\<close>

definition close_sends :: "lan_session \<Rightarrow> service \<Rightarrow> send_task list option \<times> service" where
  "close_sends s sv =
     (let g = sv_sends sv (la_session_id s) in
      if sg_closed g then (None, sv)
      else (Some (sg_handles g),
            set_sends (la_session_id s) (\<lambda>g. g\<lparr>sg_closed := True, sg_cancellations := [], sg_handles := []\<rparr>)
              (sv\<lparr>sv_cancelled := map snd (sg_cancellations g) @ sv_cancelled sv\<rparr>)))"

subsection \<open>Relays\<close>

definition relays_for_lan :: "string \<Rightarrow> service \<Rightarrow> relay_handle list" where
  "relays_for_lan sid sv = filter (\<lambda>r. rl_lan_session_id r = sid) (map snd (sv_relays sv))"

definition insert_relay :: "relay_handle \<Rightarrow> service \<Rightarrow> bool \<times> service" where
  "insert_relay r sv =
     (if sv_closed sv \<or> relays_for_lan (rl_lan_session_id r) sv \<noteq> [] then (False, sv)
      else (True, sv\<lparr>sv_relays := AList.update (rl_session_id r) r (sv_relays sv)\<rparr>))"

definition find_relay :: "string \<Rightarrow> service \<Rightarrow> relay_handle result \<times> service" where
  "find_relay rid sv =
     (if rid = [] then Inl (InvalidRequest ''session_id is required'')
      else ok_or (map_of (sv_relays sv) rid) (InvalidRequest ''unknown SSH relay session''), sv)"

subsection \<open>Short-code sessions\<close>

definition service_closed :: core_error where
  "service_closed = InvalidRequest ''service is closed''"

definition set_decision :: "string \<Rightarrow> (decision_channel \<Rightarrow> decision_channel) \<Rightarrow> service \<Rightarrow> service" where
  "set_decision wid f sv = sv\<lparr>sv_decisions := (sv_decisions sv)(wid := f (sv_decisions sv wid))\<rparr>"

text \<open>A session that joins has a channel, one that sends has none.\<close>

definition insert_wormhole :: "wormhole_session \<Rightarrow> bool \<Rightarrow> service \<Rightarrow> unit result \<times> service" where
  "insert_wormhole w joins sv =
     (if sv_closed sv then (Inl service_closed, sv)
      else (Inr (), set_decision (wh_session_id w) (\<lambda>_. if joins then open_channel else no_channel)
              (sv\<lparr>sv_wormholes := AList.update (wh_session_id w) w (sv_wormholes sv)\<rparr>)))"

definition take_transport ::
  "string \<Rightarrow> service \<Rightarrow> (wormhole_session option \<times> relay_handle option) \<times> service" where
  "take_transport i sv =
     ((map_of (sv_wormholes sv) i, map_of (sv_relays sv) i),
      sv\<lparr>sv_wormholes := AList.delete i (sv_wormholes sv), sv_relays := AList.delete i (sv_relays sv)\<rparr>)"

definition remove_wormhole :: "string \<Rightarrow> service \<Rightarrow> service" where
  "remove_wormhole wid sv = sv\<lparr>sv_wormholes := AList.delete wid (sv_wormholes sv)\<rparr>"

text \<open>The decision of the user: found, taken, sent.\<close>

definition find_wormhole :: "string \<Rightarrow> service \<Rightarrow> wormhole_session result \<times> service" where
  "find_wormhole wid sv =
     (if wid = [] then Inl (InvalidRequest ''session_id is required'')
      else ok_or (map_of (sv_wormholes sv) wid) (InvalidRequest ''wormhole offer not found''), sv)"

definition take_sender :: "string \<Rightarrow> service \<Rightarrow> unit result \<times> service" where
  "take_sender wid sv =
     (if dc_sender (sv_decisions sv wid) then (Inr (), set_decision wid (\<lambda>c. c\<lparr>dc_sender := False\<rparr>) sv)
      else (Inl (InvalidRequest ''wormhole offer is already handled''), sv))"

definition send_decision :: "string \<Rightarrow> receiver_decision \<Rightarrow> service \<Rightarrow> unit result \<times> service" where
  "send_decision wid d sv =
     (if dc_receiver (sv_decisions sv wid) then (Inr (), set_decision wid (\<lambda>c. c\<lparr>dc_message := Some d\<rparr>) sv)
      else (Inl (InvalidRequest ''wormhole offer is no longer active''), sv))"

text \<open>What the receiving task does next: it was cancelled, its time is up, or \<open>recv\<close> returned (the message, or
  nothing when the sender is gone). The task leaves and its end of the channel with it, or goes on.\<close>

datatype offer_wait = WaitCancelled | WaitExpired | WaitReceived

definition wait_decision :: "string \<Rightarrow> offer_wait \<Rightarrow> service \<Rightarrow> receiver_decision result \<times> service" where
  "wait_decision wid next_event sv =
     (case next_event of
        WaitCancelled \<Rightarrow> (Inl Cancelled, set_decision wid (\<lambda>c. c\<lparr>dc_receiver := False\<rparr>) sv)
      | WaitExpired \<Rightarrow>
          (Inl (Protocol ''short-code pairing window expired''), set_decision wid (\<lambda>c. c\<lparr>dc_receiver := False\<rparr>) sv)
      | WaitReceived \<Rightarrow>
          (ok_or (dc_message (sv_decisions sv wid)) (InvalidRequest ''wormhole offer was cancelled''),
           set_decision wid (\<lambda>c. c\<lparr>dc_message := None\<rparr>) sv))"

subsection \<open>The whole service\<close>

definition drain_all :: "service \<Rightarrow> (lan_session list \<times> wormhole_session list \<times> relay_handle list) \<times> service" where
  "drain_all sv =
     ((map snd (sv_sessions sv), map snd (sv_wormholes sv), map snd (sv_relays sv)),
      sv\<lparr>sv_sessions := [], sv_wormholes := [], sv_relays := []\<rparr>)"

text \<open>The section of \<open>reset\<close>, and that of \<open>close\<close> (nothing when it was closed before).\<close>

definition reset_section ::
  "service \<Rightarrow> (lan_session list \<times> wormhole_session list \<times> relay_handle list) result \<times> service" where
  "reset_section sv =
     (if sv_closed sv then (Inl service_closed, sv)
      else (case drain_all sv of (drained, sv') \<Rightarrow> (Inr drained, sv')))"

definition close_section ::
  "service \<Rightarrow> (lan_session list \<times> wormhole_session list \<times> relay_handle list) option \<times> service" where
  "close_section sv =
     (if sv_closed sv then (None, sv)
      else (case drain_all (sv\<lparr>sv_closed := True\<rparr>) of (drained, sv') \<Rightarrow> (Some drained, sv')))"

definition set_paused :: "string \<Rightarrow> bool \<Rightarrow> service \<Rightarrow> service" where
  "set_paused sid b sv = sv\<lparr>sv_paused := (sv_paused sv)(sid := b)\<rparr>"

definition set_events :: "(event_queue \<Rightarrow> event_queue) \<Rightarrow> service \<Rightarrow> service" where
  "set_events f sv = sv\<lparr>sv_events := f (sv_events sv)\<rparr>"

end
