(* ===== verification/ServiceRequests.thy ===== *)
theory ServiceRequests
  imports Service
begin

text \<open>
  The requests of the service as programs over its sections. Between two sections other tasks run:
  \<open>tasks i n\<close> is what they do to the state at the \<open>n\<close>-th pause in the work on \<open>i\<close>. What the network, the disk
  and the relay answer is an argument; so are fresh UUIDs and the outcomes of shutting a session down.
\<close>

type_synonym tasks = "string \<Rightarrow> nat \<Rightarrow> service \<Rightarrow> service"

definition pause :: "(service \<Rightarrow> service) \<Rightarrow> (service, unit) action" where
  "pause f sv = (Inr (), f sv)"

definition locked :: "(service \<Rightarrow> 'a \<times> service) \<Rightarrow> (service, 'a) action" where
  "locked f sv = (case f sv of (x, sv') \<Rightarrow> (Inr x, sv'))"

definition modify :: "(service \<Rightarrow> service) \<Rightarrow> (service, unit) action" where
  "modify f sv = (Inr (), f sv)"

section \<open>Events\<close>

definition put_field :: "string \<Rightarrow> jvalue \<Rightarrow> jvalue \<Rightarrow> jvalue" where
  "put_field k v data = (case data of JObj kvs \<Rightarrow> JObj (AList.update k v kvs) | _ \<Rightarrow> JObj [(k, v)])"

definition emit_session_event :: "token \<Rightarrow> string \<Rightarrow> string \<Rightarrow> jvalue \<Rightarrow> service \<Rightarrow> service" where
  "emit_session_event t sid name data sv =
     (if sv_is_cancelled sv t then sv
      else set_events (emit \<lparr>se_event = name, se_data = put_field ''session_id'' (JStr sid) data\<rparr>) sv)"

fun emit_transfer_event :: "token \<Rightarrow> string \<Rightarrow> transfer_event \<Rightarrow> service \<Rightarrow> service" where
  "emit_transfer_event t sid (ProgressEvent progress) sv =
     emit_session_event t sid ''lan.progress''
       (JObj [(''kind'', JStr ''recv''), (''filename'', JStr (tp_filename progress)), (''done'', jnat (tp_done progress)),
              (''total'', jnat (tp_total progress)), (''transfer_id'', JStr (tp_transfer_id progress))]) sv"
| "emit_transfer_event t sid (ReceivedEvent transfer_id p filename file_size digest sender_id sender_name) sv =
     emit_session_event t sid ''lan.received''
       (JObj [(''path'', JStr (show_path p)), (''filename'', JStr filename), (''size'', jnat file_size),
              (''blake3'', JStr digest), (''transfer_id'', JStr transfer_id), (''sender_instance_id'', JStr sender_id),
              (''sender_name'', JStr sender_name)]) sv"
| "emit_transfer_event t sid (StatusEvent message) sv =
     emit_session_event t sid ''lan.status'' (JObj [(''message'', JStr message)]) sv"

definition lan_peer_json :: "lan_peer \<Rightarrow> jvalue" where
  "lan_peer_json p =
     JObj [(''instance_id'', JStr (lp_instance_id p)), (''name'', JStr (lp_name p)), (''host'', JStr (lp_host p)),
           (''hosts'', jstrs (lp_hosts p)), (''port'', jnat (lp_port p)), (''capabilities'', jstrs (lp_capabilities p)),
           (''fingerprint'', JStr (lp_fingerprint p)), (''public_key'', JStr (lp_public_key p)),
           (''service_name'', JStr (lp_service_name p))]"

definition peers_json :: "lan_peer list \<Rightarrow> jvalue" where
  "peers_json peers = JObj [(''peers'', JArr (map lan_peer_json peers))]"

section \<open>Closing\<close>

text \<open>How the parts of a session shut down: discovery, the server and the joined tasks of a LAN session, the task
  of a short-code session, the client of a relay.\<close>

record shutdown =
  sh_session :: "string \<Rightarrow> core_error option list"
  sh_wormhole :: "string \<Rightarrow> core_error option"
  sh_relay :: "string \<Rightarrow> core_error option"

fun first_error :: "core_error option list \<Rightarrow> core_error option" where
  "first_error [] = None"
| "first_error (Some e # es) = Some e"
| "first_error (None # es) = first_error es"

definition throw_some :: "core_error option \<Rightarrow> ('s, unit) action" where
  "throw_some e = (case e of Some err \<Rightarrow> io_throw err | None \<Rightarrow> io_ret ())"

definition lan_close :: "tasks \<Rightarrow> shutdown \<Rightarrow> lan_session \<Rightarrow> (service, unit) action" where
  "lan_close tasks sh s =
     io_then (modify (cancel_token (la_token s)))
     (io_then (pause (tasks (la_session_id s) 0))
     (io_bind (locked (close_sends s)) (\<lambda>taken.
      case taken of
        None \<Rightarrow> io_ret ()
      | Some handles \<Rightarrow>
          io_then (pause (tasks (la_session_id s) 1))
            (throw_some (first_error (sh_session sh (la_session_id s)))))))"

definition wormhole_close :: "tasks \<Rightarrow> shutdown \<Rightarrow> wormhole_session \<Rightarrow> (service, unit) action" where
  "wormhole_close tasks sh w =
     io_then (modify (cancel_token (wh_token w)))
     (io_then (pause (tasks (wh_session_id w) 0))
     (io_then (modify (set_decision (wh_session_id w) (\<lambda>c. c\<lparr>dc_sender := False\<rparr>)))
     (io_then (pause (tasks (wh_session_id w) 1))
     (throw_some (sh_wormhole sh (wh_session_id w))))))"

definition close_relay :: "tasks \<Rightarrow> shutdown \<Rightarrow> relay_handle \<Rightarrow> (service, unit) action" where
  "close_relay tasks sh r =
     io_then (modify (cancel_token (rl_token r)))
     (io_then (pause (tasks (rl_session_id r) 0))
     (throw_some (sh_relay sh (rl_session_id r))))"

text \<open>\<open>close_sessions\<close>, \<open>close_wormholes\<close> and \<open>close_ssh_relays\<close>: all are closed, the first error is kept.\<close>

fun close_each :: "('a \<Rightarrow> (service, unit) action) \<Rightarrow> 'a list \<Rightarrow> core_error option \<Rightarrow> (service, unit) action" where
  "close_each close [] first = throw_some first"
| "close_each close (x # xs) first =
     io_match (close x) (\<lambda>_. close_each close xs first)
       (\<lambda>e. close_each close xs (case first of None \<Rightarrow> Some e | Some f \<Rightarrow> Some f))"

text \<open>Errors that are only logged.\<close>

definition ignore_error :: "(service, unit) action \<Rightarrow> (service, unit) action" where
  "ignore_error m = io_match m io_ret (\<lambda>_. io_ret ())"

definition reset :: "tasks \<Rightarrow> shutdown \<Rightarrow> (service, unit) action" where
  "reset tasks sh =
     io_bind reset_section (\<lambda>(lans, wormholes, relays).
     io_then (close_each (close_relay tasks sh) relays None)
     (io_then (close_each (wormhole_close tasks sh) wormholes None)
     (io_then (close_each (lan_close tasks sh) lans None)
     (modify (set_events clear_queue)))))"

text \<open>\<open>Result::and\<close> of the three outcomes: each part is closed whatever the others return.\<close>

definition close_attempt :: "(service, unit) action \<Rightarrow> core_error option \<Rightarrow> (service, core_error option) action" where
  "close_attempt m e = io_match m (\<lambda>_. io_ret e) (\<lambda>err. io_ret (case e of None \<Rightarrow> Some err | Some f \<Rightarrow> Some f))"

definition close_drained ::
  "tasks \<Rightarrow> shutdown \<Rightarrow> lan_session list \<times> wormhole_session list \<times> relay_handle list \<Rightarrow> (service, unit) action" where
  "close_drained tasks sh drained =
     (case drained of (lans, wormholes, relays) \<Rightarrow>
        io_bind (close_attempt (close_each (close_relay tasks sh) relays None) None) (\<lambda>e.
        io_bind (close_attempt (close_each (wormhole_close tasks sh) wormholes None) e) (\<lambda>e.
        io_bind (close_attempt (close_each (lan_close tasks sh) lans None) e) (\<lambda>e.
        io_then (modify (set_events close_queue)) (throw_some e)))))"

definition close_service :: "tasks \<Rightarrow> shutdown \<Rightarrow> (service, unit) action" where
  "close_service tasks sh =
     io_then (modify (cancel_token []))
     (io_then (pause (tasks [] 0))
     (io_bind (locked close_section) (\<lambda>drained.
      case drained of None \<Rightarrow> io_ret () | Some parts \<Rightarrow> close_drained tasks sh parts)))"

section \<open>LAN requests\<close>

record lan_start_params =
  lt_peer_name :: string
  lt_instance_id :: string
  lt_identity_private :: string
  lt_secret :: string
  lt_inbox :: string
  lt_inbox_category_roots :: "string option list"
  lt_listen_port :: nat
  lt_capabilities :: "string list"
  lt_discovery_targets :: "string list"
  lt_disable_mdns :: bool
  lt_disable_udp :: bool

text \<open>The device around \<open>start_lan\<close>: a generated identity, name resolution, binding the QUIC server on a port
  (its port and fingerprint), starting discovery on targets.\<close>

record lan_device =
  ld_generate :: "string \<Rightarrow> string \<Rightarrow> device_identity result"
  ld_syntax :: ip_syntax
  ld_lookup_host :: "string \<Rightarrow> nat \<Rightarrow> socket_addr list result"
  ld_bind :: "nat \<Rightarrow> (nat \<times> string) result"
  ld_discover :: "socket_addr list \<Rightarrow> unit result"
  ld_peers :: "string \<Rightarrow> discovered_peer list"
  ld_relay_peers :: "string \<Rightarrow> ssh_peer list"

definition session_peers :: "lan_device \<Rightarrow> lan_session \<Rightarrow> service \<Rightarrow> lan_peer list" where
  "session_peers D s sv =
     combined_peers (ld_peers D (la_session_id s))
       (map (\<lambda>r. ld_relay_peers D (rl_session_id r)) (relays_for_lan (la_session_id s) sv))"

definition emit_peers :: "lan_device \<Rightarrow> lan_session \<Rightarrow> service \<Rightarrow> service" where
  "emit_peers D s sv =
     emit_session_event (la_token s) (la_session_id s) ''lan.peers'' (peers_json (session_peers D s sv)) sv"

definition start_identity :: "crates \<Rightarrow> lan_device \<Rightarrow> lan_start_params \<Rightarrow> string \<Rightarrow> device_identity result" where
  "start_identity E D params instance_id =
     (if trim (lt_identity_private params) = [] then ld_generate D instance_id (lt_peer_name params)
      else from_private_export E [] (lt_identity_private params) (Some instance_id) (lt_peer_name params))"

definition start_targets :: "lan_device \<Rightarrow> lan_start_params \<Rightarrow> socket_addr list" where
  "start_targets D params =
     (if lt_disable_udp params then []
      else remdups_adj (sort (resolve_discovery_targets (ld_syntax D) (ld_lookup_host D) (lt_discovery_targets params) @
             [(IpV4 v4_broadcast, UDP_DISCOVERY_PORT)])))"

text \<open>A listen port that is taken is replaced by a free one (port 0).\<close>

definition bind_server :: "lan_device \<Rightarrow> nat \<Rightarrow> (nat \<times> string \<times> nat option) result" where
  "bind_server D listen_port =
     (case ld_bind D listen_port of
        Inr (port, fingerprint) \<Rightarrow> Inr (port, fingerprint, None)
      | Inl err \<Rightarrow>
          if listen_port \<noteq> 0
          then bind_r (ld_bind D 0) (\<lambda>(port, fingerprint). Inr (port, fingerprint, Some listen_port))
          else Inl err)"

definition lan_status :: "lan_session \<Rightarrow> string \<Rightarrow> service \<Rightarrow> service" where
  "lan_status s message =
     emit_session_event (la_token s) (la_session_id s) ''lan.status'' (JObj [(''message'', JStr message)])"

definition start_lan ::
  "crates \<Rightarrow> (io_kind \<Rightarrow> string) \<Rightarrow> lan_device \<Rightarrow> tasks \<Rightarrow> shutdown \<Rightarrow> string \<Rightarrow> lan_start_params \<Rightarrow> (service, jvalue) action" where
  "start_lan E io_text D tasks sh uuid params =
     io_bind (locked drain_lan) (\<lambda>(stale_sessions, stale_relays).
     io_then (ignore_error (close_each (close_relay tasks sh) stale_relays None))
     (io_then (ignore_error (close_each (lan_close tasks sh) stale_sessions None))
     (let instance_id = to_ascii_lowercase (trim (lt_instance_id params));
          s = lan_session_of (new_id ''lan'' uuid) in
      io_reject_if (trim (lt_peer_name params) = [] \<or> trim (lt_inbox params) = [] \<or> \<not> valid_instance_id instance_id)
        (InvalidRequest ''peer_name, inbox and a valid instance_id are required'')
      (io_bind (io_lift (start_identity E D params instance_id)) (\<lambda>identity.
       io_bind (io_lift (bind_server D (lt_listen_port params))) (\<lambda>(port, fingerprint, fallback).
       io_then (pause (tasks (la_session_id s) 0))
       (io_then (modify (\<lambda>sv. case fallback of None \<Rightarrow> sv | Some requested \<Rightarrow> lan_status s
          (''listen port '' @ dec requested @ '' is in use; using ephemeral port '' @ dec port @ '' instead'') sv))
       (io_then (pause (tasks (la_session_id s) 1))
       (io_then (modify (\<lambda>sv. if lt_disable_udp params \<and> lt_disable_mdns params then sv else
          case ld_discover D (start_targets D params) of
            Inr _ \<Rightarrow> sv | Inl err \<Rightarrow> lan_status s (''LAN discovery unavailable: '' @ error_text io_text err) sv))
       (io_bind (locked (insert_lan s)) (\<lambda>inserted.
        if \<not> inserted then io_then (lan_close tasks sh s) (io_throw service_closed)
        else
          io_then (modify (emit_peers D s))
          (io_ret (JObj [(''session_id'', JStr (la_session_id s)), (''port'', jnat port), (''instance_id'', JStr instance_id),
             (''fingerprint'', JStr fingerprint), (''public_key'', JStr (public_key_base64 E identity)),
             (''identity_private'', JStr (export_private E identity))])))))))))))))"

definition stop_lan :: "tasks \<Rightarrow> shutdown \<Rightarrow> string \<Rightarrow> (service, jvalue) action" where
  "stop_lan tasks sh sid =
     io_reject_if (sid = []) (InvalidRequest ''session_id is required'')
     (io_bind (locked (take_lan sid)) (\<lambda>(session, relays).
      io_then (close_each (close_relay tasks sh) relays None)
      (io_then (case session of Some s \<Rightarrow> lan_close tasks sh s | None \<Rightarrow> io_ret ())
      (io_ret (JObj [(''stopped'', JBool (session \<noteq> None))])))))"

definition lan_peers :: "lan_device \<Rightarrow> string \<Rightarrow> bool \<Rightarrow> (service, jvalue) action" where
  "lan_peers D sid refresh =
     io_bind (find_lan sid) (\<lambda>s.
     io_bind (locked (\<lambda>sv. (session_peers D s sv, sv))) (\<lambda>peers.
     io_then (modify (\<lambda>sv. if refresh
        then emit_session_event (la_token s) (la_session_id s) ''lan.peers'' (peers_json peers) sv else sv))
     (io_ret (peers_json peers))))"

text \<open>\<open>plan\<close> stands for the metadata of the source, the routes and the transfer id (\<open>SendRoutes\<close>).\<close>

definition lan_send ::
  "(lan_session \<Rightarrow> lan_send_params \<Rightarrow> (service, string) action) \<Rightarrow> string \<Rightarrow> lan_send_params \<Rightarrow> (service, jvalue) action" where
  "lan_send plan uuid params =
     io_bind (find_lan (ls_session_id params)) (\<lambda>s.
     io_reject_if (trim (ls_path params) = []) (InvalidRequest ''path is required'')
     (io_bind (plan s params) (\<lambda>transfer_id.
      io_then (register_send s (new_id ''send'' uuid))
      (io_ret (JObj [(''send_id'', JStr (new_id ''send'' uuid)), (''transfer_id'', JStr transfer_id)])))))"

definition lan_send_cancel :: "tasks \<Rightarrow> string \<Rightarrow> string \<Rightarrow> (service, jvalue) action" where
  "lan_send_cancel tasks sid send_id =
     io_bind (find_lan sid) (\<lambda>s.
     io_reject_if (send_id = []) (InvalidRequest ''send_id is required'')
     (io_then (pause (tasks send_id 0))
     (io_bind (locked (registered_token s send_id)) (\<lambda>cancellation.
      case cancellation of
        Some t \<Rightarrow>
          io_then (pause (tasks send_id 1))
          (io_then (modify (cancel_token t)) (io_ret (JObj [(''cancelled'', JBool True)])))
      | None \<Rightarrow> io_ret (JObj [(''cancelled'', JBool False)])))))"

text \<open>What the task of a transfer reports, and its end.\<close>

definition sent_payload :: "(io_kind \<Rightarrow> string) \<Rightarrow> string \<Rightarrow> string \<Rightarrow> string \<Rightarrow> unit result \<Rightarrow> jvalue" where
  "sent_payload io_text send_id source transfer_id r =
     JObj ([(''send_id'', JStr send_id), (''path'', JStr source), (''ok'', JBool (case r of Inr _ \<Rightarrow> True | Inl _ \<Rightarrow> False)),
            (''transfer_id'', JStr transfer_id)] @
       (case r of Inl err \<Rightarrow> [(''error'', JStr (error_text io_text err))] | Inr _ \<Rightarrow> []))"

definition complete_send ::
  "(io_kind \<Rightarrow> string) \<Rightarrow> lan_session \<Rightarrow> string \<Rightarrow> string \<Rightarrow> string \<Rightarrow> unit result \<Rightarrow> service \<Rightarrow> service" where
  "complete_send io_text s send_id source transfer_id r sv =
     finish_send (la_session_id s) send_id
       (emit_session_event (la_token s) (la_session_id s) ''lan.sent'' (sent_payload io_text send_id source transfer_id r) sv)"

text \<open>The gate of the receiver: pausing and resuming, with a note to the user (UTF-8 text).\<close>

definition paused_message :: string where
  "paused_message =
     bytes_str [0xE5, 0xB7, 0xB2, 0xE6, 0x9A, 0x82, 0xE5, 0x81, 0x9C, 0xE6, 0x8E, 0xA5, 0xE6, 0x94, 0xB6,
     0xEF, 0xBC, 0x8C, 0xE5, 0xAF, 0xB9, 0xE7, 0xAB, 0xAF, 0xE4, 0xBC, 0x9A, 0xE7, 0xAD, 0x89, 0xE5, 0x9C,
     0xA8, 0xE8, 0xBF, 0x99, 0xE9, 0x87, 0x8C]"

definition resumed_message :: string where
  "resumed_message =
     bytes_str [0xE5, 0xB7, 0xB2, 0xE6, 0x81, 0xA2, 0xE5, 0xA4, 0x8D, 0xE6, 0x8E, 0xA5, 0xE6, 0x94, 0xB6]"

definition lan_receive_gate :: "bool \<Rightarrow> string \<Rightarrow> string \<Rightarrow> (service, jvalue) action" where
  "lan_receive_gate paused message sid =
     io_bind (find_lan sid) (\<lambda>s.
     io_then (modify (set_paused (la_session_id s) paused))
     (io_bind (locked (\<lambda>sv. (sv_paused sv (la_session_id s), sv))) (\<lambda>now.
      io_then (modify (lan_status s message)) (io_ret (JObj [(''paused'', JBool now)])))))"

definition lan_receive_pause :: "string \<Rightarrow> (service, jvalue) action" where
  "lan_receive_pause = lan_receive_gate True paused_message"

definition lan_receive_resume :: "string \<Rightarrow> (service, jvalue) action" where
  "lan_receive_resume = lan_receive_gate False resumed_message"

section \<open>SSH requests\<close>

record ssh_started =
  so_peers :: "ssh_peer list"
  so_remote_port :: nat
  so_connected :: bool
  so_initial_error :: "string option"

definition ssh_listen ::
  "crates \<Rightarrow> tasks \<Rightarrow> shutdown \<Rightarrow> device_identity \<Rightarrow> ssh_started result \<Rightarrow> string \<Rightarrow> string \<Rightarrow> (service, jvalue) action" where
  "ssh_listen E tasks sh identity started uuid sid =
     io_bind (find_lan sid) (\<lambda>s.
     io_bind (locked (\<lambda>sv. (relays_for_lan (la_session_id s) sv, sv))) (\<lambda>active.
     io_reject_if (active \<noteq> []) (InvalidRequest ''SSH relay is already active for this LAN session'')
     (let rid = new_id ''ssh'' uuid;
          relay = \<lparr>rl_session_id = rid, rl_lan_session_id = la_session_id s, rl_token = la_token s @ [rid]\<rparr> in
      io_then (pause (tasks rid 0))
      (io_bind (io_lift started) (\<lambda>start.
       io_bind (locked (insert_relay relay)) (\<lambda>inserted.
       if \<not> inserted then io_then (close_relay tasks sh relay) (io_throw (InvalidRequest ''SSH relay could not be registered''))
       else
         io_ret (JObj ([(''session_id'', JStr rid), (''remote_port'', jnat (so_remote_port start)),
           (''noise_public'', JStr (public_key_base64 E identity)), (''peers'', JArr (map ssh_peer_json (so_peers start))),
           (''connected'', JBool (so_connected start))] @
           (case so_initial_error start of Some err \<Rightarrow> [(''error'', JStr err)] | None \<Rightarrow> [])))))))))"

text \<open>What the relay reports goes to the user with the id of its LAN session.\<close>

definition relay_event :: "lan_session \<Rightarrow> string \<Rightarrow> string \<Rightarrow> jvalue \<Rightarrow> service \<Rightarrow> service" where
  "relay_event s rid name data =
     emit_session_event (la_token s) rid name (put_field ''lan_session_id'' (JStr (la_session_id s)) data)"

definition ssh_pair_create :: "(relay_handle \<Rightarrow> (service, string) action) \<Rightarrow> string \<Rightarrow> (service, jvalue) action" where
  "ssh_pair_create make_code rid =
     io_bind (find_relay rid) (\<lambda>r. io_bind (make_code r) (\<lambda>code. io_ret (JObj [(''code'', JStr code)])))"

definition ssh_pair_join ::
  "(relay_handle \<Rightarrow> string \<Rightarrow> (service, ssh_peer) action) \<Rightarrow> string \<Rightarrow> string \<Rightarrow> (service, jvalue) action" where
  "ssh_pair_join join rid code =
     io_reject_if (trim code = []) (InvalidRequest ''SSH pairing code is required'')
     (io_bind (find_relay rid) (\<lambda>r.
      io_bind (join r code) (\<lambda>peer. io_ret (JObj [(''peer'', ssh_peer_json peer)]))))"

section \<open>Short-code requests\<close>

text \<open>The pairing window in seconds: 0 minutes stand for the default.\<close>

definition DEFAULT_WORMHOLE_TIMEOUT_MINUTES :: nat where "DEFAULT_WORMHOLE_TIMEOUT_MINUTES = 10"

definition wormhole_timeout :: "nat \<Rightarrow> nat" where
  "wormhole_timeout minutes =
     (if minutes = 0 then DEFAULT_WORMHOLE_TIMEOUT_MINUTES else max 1 (min 60 minutes)) * 60"

text \<open>Paths compare as on Unix: each once, in the order given.\<close>

fun distinct_paths :: "string list \<Rightarrow> string list \<Rightarrow> string list result" where
  "distinct_paths [] normalized = Inr normalized"
| "distinct_paths (raw # rest) normalized =
     (let p = trim raw in
      reject_if (p = []) (InvalidRequest ''source path is empty'')
      (distinct_paths rest (if p \<in> set normalized then normalized else normalized @ [p])))"

definition normalize_wormhole_paths :: "string list \<Rightarrow> string list result" where
  "normalize_wormhole_paths paths =
     reject_if (paths = [] \<or> 256 < length paths) (InvalidRequest ''one to 256 source paths are required'')
     (bind_r (distinct_paths paths []) (\<lambda>normalized.
      reject_if (normalized = []) (InvalidRequest ''source paths are empty'') (Inr normalized)))"

definition wormhole_session_of :: "lan_session \<Rightarrow> string \<Rightarrow> wormhole_session" where
  "wormhole_session_of s wid =
     \<lparr>wh_session_id = wid, wh_lan_session_id = la_session_id s, wh_token = la_token s @ [wid]\<rparr>"

text \<open>\<open>create\<close> makes the summary and opens the session at the rendezvous server; it returns the code.\<close>

definition wormhole_create ::
  "(string list \<Rightarrow> (service, string) action) \<Rightarrow> string \<Rightarrow> string \<Rightarrow> string \<Rightarrow> string list \<Rightarrow> (service, jvalue) action" where
  "wormhole_create create expires_at uuid sid paths =
     io_bind (find_lan sid) (\<lambda>s.
     io_bind (io_lift (normalize_wormhole_paths paths)) (\<lambda>normalized.
     io_bind (create normalized) (\<lambda>code.
     let wid = new_id ''wh'' uuid in
     io_then (insert_wormhole (wormhole_session_of s wid) False)
     (io_ret (JObj [(''session_id'', JStr wid), (''code'', JStr code),
        (''uri'', JStr (''inkhole://receive?code='' @ code)), (''expires_at'', JStr expires_at)])))))"

definition wormhole_join :: "string \<Rightarrow> string \<Rightarrow> string \<Rightarrow> (service, jvalue) action" where
  "wormhole_join uuid sid code =
     io_bind (find_lan sid) (\<lambda>s.
     io_reject_if (trim code = []) (InvalidRequest ''short code is required'')
     (let wid = new_id ''wh'' uuid in
      io_then (insert_wormhole (wormhole_session_of s wid) True)
      (io_ret (JObj [(''session_id'', JStr wid)]))))"

definition send_wormhole_decision :: "tasks \<Rightarrow> string \<Rightarrow> receiver_decision \<Rightarrow> (service, unit) action" where
  "send_wormhole_decision tasks wid d =
     io_bind (find_wormhole wid) (\<lambda>w.
     io_then (pause (tasks wid 0)) (io_then (take_sender wid) (io_then (pause (tasks wid 1)) (send_decision wid d))))"

definition wormhole_accept :: "tasks \<Rightarrow> string \<Rightarrow> (service, jvalue) action" where
  "wormhole_accept tasks wid =
     io_then (send_wormhole_decision tasks wid AcceptOffer) (io_ret (JObj [(''accepted'', JBool True)]))"

definition wormhole_reject :: "tasks \<Rightarrow> string \<Rightarrow> (service, jvalue) action" where
  "wormhole_reject tasks wid =
     io_then (send_wormhole_decision tasks wid RejectOffer) (io_ret (JObj [(''rejected'', JBool True)]))"

definition cancel_transport_session :: "tasks \<Rightarrow> shutdown \<Rightarrow> string \<Rightarrow> (service, jvalue) action" where
  "cancel_transport_session tasks sh i =
     io_reject_if (i = []) (InvalidRequest ''session_id is required'')
     (io_bind (locked (take_transport i)) (\<lambda>(wormhole, relay).
      io_then (case wormhole of Some w \<Rightarrow> wormhole_close tasks sh w | None \<Rightarrow> io_ret ())
      (io_then (case relay of Some r \<Rightarrow> close_relay tasks sh r | None \<Rightarrow> io_ret ())
      (io_ret (JObj [(''cancelled'', JBool (wormhole \<noteq> None \<or> relay \<noteq> None))])))))"

text \<open>The end of the task of a short-code session.\<close>

definition finish_wormhole_task :: "(io_kind \<Rightarrow> string) \<Rightarrow> wormhole_session \<Rightarrow> unit result \<Rightarrow> service \<Rightarrow> service" where
  "finish_wormhole_task io_text w r sv =
     remove_wormhole (wh_session_id w)
       (case r of
          Inl err \<Rightarrow>
            if sv_is_cancelled sv (wh_token w) then sv
            else emit_session_event (wh_token w) (wh_session_id w) ''wormhole.error''
                   (JObj [(''error'', JStr (error_text io_text err))]) sv
        | Inr _ \<Rightarrow> sv)"

section \<open>The tasks of a short-code session\<close>

definition pairing_expired :: core_error where
  "pairing_expired = Protocol ''short-code pairing window expired''"

text \<open>The pairing phase ends with a result, or (\<open>None\<close>) with the end of its window.\<close>

definition within_window :: "'a result option \<Rightarrow> (service, 'a) action" where
  "within_window r = (case r of Some joined \<Rightarrow> io_lift joined | None \<Rightarrow> io_throw pairing_expired)"

text \<open>The receiver: \<open>bind_local\<close> starts the server on the loopback address, \<open>accept\<close> answers the sender and opens
  the tunnel, \<open>serve\<close> waits for its end and \<open>refuse\<close> answers that the transfer is rejected.\<close>

definition run_wormhole_receiver ::
  "tasks \<Rightarrow> wormhole_session \<Rightarrow> transfer_summary result option \<Rightarrow> offer_wait \<Rightarrow> (service, unit) action \<Rightarrow>
     (service, unit) action \<Rightarrow> (service, unit) action \<Rightarrow> (service, unit) action \<Rightarrow> (service, unit) action" where
  "run_wormhole_receiver tasks w joined woken refuse bind_local accept serve =
     io_bind (within_window joined) (\<lambda>summary.
     io_then (modify (emit_session_event (wh_token w) (wh_session_id w) ''wormhole.offer''
        (JObj [(''summary'', transfer_summary_json summary)])))
     (io_then (pause (tasks (wh_session_id w) 2))
     (io_bind (wait_decision (wh_session_id w) woken) (\<lambda>selected.
      if selected = RejectOffer then refuse
      else
        io_then bind_local
        (io_then accept
        (io_then (modify (emit_session_event (wh_token w) (wh_session_id w) ''wormhole.ready''
           (JObj [(''role'', JStr ''receiver'')])))
         serve))))))"

text \<open>One item of the sender; a failure is reported and does not stop the others.\<close>

definition execute_wormhole_send ::
  "(io_kind \<Rightarrow> string) \<Rightarrow> lan_session \<Rightarrow> string \<Rightarrow> string \<Rightarrow> string \<Rightarrow> (service, unit) action \<Rightarrow> (service, unit) action" where
  "execute_wormhole_send io_text s send_id source transfer_id send =
     (let report = (\<lambda>r. modify (emit_session_event (la_token s) (la_session_id s) ''lan.sent''
                      (sent_payload io_text send_id source transfer_id r))) in
      io_match send (\<lambda>_. report (Inr ())) (\<lambda>err. report (Inl err)))"

fun send_items ::
  "(io_kind \<Rightarrow> string) \<Rightarrow> lan_session \<Rightarrow> (string \<Rightarrow> string) \<Rightarrow> (string \<Rightarrow> (service, unit) action) \<Rightarrow>
     (service, unit) action \<Rightarrow> (string \<times> string) list \<Rightarrow> (service, unit) action" where
  "send_items io_text s transfer_id send reset_peer [] = io_ret ()"
| "send_items io_text s transfer_id send reset_peer ((source, send_id) # items) =
     io_then (execute_wormhole_send io_text s send_id source (transfer_id source) (send source))
     (io_then (ignore_error reset_peer) (send_items io_text s transfer_id send reset_peer items))"

text \<open>The sender: its tokens are registered once the tunnel is there, and the guard is dropped at the end.\<close>

definition run_wormhole_sender ::
  "(io_kind \<Rightarrow> string) \<Rightarrow> tasks \<Rightarrow> lan_session \<Rightarrow> wormhole_session \<Rightarrow> unit result option \<Rightarrow> (string \<Rightarrow> string) \<Rightarrow>
     (string \<Rightarrow> (service, unit) action) \<Rightarrow> (service, unit) action \<Rightarrow> (service, unit) action \<Rightarrow> bool \<Rightarrow>
     string list \<Rightarrow> string list \<Rightarrow> (service, unit) action" where
  "run_wormhole_sender io_text tasks s w connected transfer_id send reset_peer close_tunnel contended paths send_ids =
     io_bind (within_window connected) (\<lambda>_.
     io_then (pause (tasks (wh_session_id w) 2))
     (io_then (register_tokens s (map (\<lambda>i. (i, wh_token w @ [i])) send_ids))
     (io_then (modify (emit_session_event (wh_token w) (wh_session_id w) ''wormhole.ready''
        (JObj [(''role'', JStr ''sender''), (''send_ids'', jstrs send_ids), (''item_count'', jnat (length paths))])))
     (let drop = modify (drop_guard (la_session_id s) send_ids contended) in
      io_match (io_then (send_items io_text s transfer_id send reset_peer (zip paths send_ids)) close_tunnel)
        (\<lambda>_. drop) (\<lambda>err. io_then drop (io_throw err))))))"

section \<open>The state of the service\<close>

definition ensure_open :: "(service, unit) action" where
  "ensure_open sv = (if sv_closed sv then Inl service_closed else Inr (), sv)"

end
