(* ===== verification/ServiceJson.thy ===== *)
theory ServiceJson
  imports ServiceRequests ShortCode SshClient
begin

text \<open>
  The boundary of the service (\<open>service.rs\<close>): requests and responses as JSON text, the parameters of every
  method, and the dispatch. Parameters are strict: every field has a default, and an unknown one is an error.
  The text of a serde error is not modelled, it is empty.
\<close>

section \<open>Parameters\<close>

definition str_field :: "string \<Rightarrow> (string \<times> jvalue) list \<Rightarrow> string result" where
  "str_field k kvs = field_default k [] as_str kvs"

definition strs_field :: "string \<Rightarrow> (string \<times> jvalue) list \<Rightarrow> string list result" where
  "strs_field k kvs = field_default k [] (as_list as_str) kvs"

fun as_optional_str :: "jvalue \<Rightarrow> string option result" where
  "as_optional_str JNull = Inr None"
| "as_optional_str v = bind_r (as_str v) (\<lambda>s. Inr (Some s))"

definition category_fields :: "string list" where
  "category_fields = [''media'', ''archive'', ''file'', ''folder'']"

definition as_category_roots :: "jvalue \<Rightarrow> string option list result" where
  "as_category_roots v =
     bind_r (strict_struct category_fields v) (\<lambda>kvs.
     map_result (\<lambda>k. field_default k None as_optional_str kvs) category_fields)"

definition lan_start_fields :: "string list" where
  "lan_start_fields = [''peer_name'', ''instance_id'', ''identity_private'', ''secret'', ''inbox'', ''inbox_category_roots'',
     ''listen_port'', ''capabilities'', ''discovery_targets'', ''disable_mdns'', ''disable_udp'']"

definition as_lan_start :: "jvalue \<Rightarrow> lan_start_params result" where
  "as_lan_start v =
     bind_r (strict_struct lan_start_fields v) (\<lambda>kvs.
     bind_r (str_field ''peer_name'' kvs) (\<lambda>n.
     bind_r (str_field ''instance_id'' kvs) (\<lambda>i.
     bind_r (str_field ''identity_private'' kvs) (\<lambda>k.
     bind_r (str_field ''secret'' kvs) (\<lambda>s.
     bind_r (str_field ''inbox'' kvs) (\<lambda>d.
     bind_r (field_default ''inbox_category_roots'' [None, None, None, None] as_category_roots kvs) (\<lambda>r.
     bind_r (field_default ''listen_port'' 0 (as_unsigned u16_max) kvs) (\<lambda>p.
     bind_r (strs_field ''capabilities'' kvs) (\<lambda>c.
     bind_r (strs_field ''discovery_targets'' kvs) (\<lambda>t.
     bind_r (field_default ''disable_mdns'' False as_bool kvs) (\<lambda>m.
     bind_r (field_default ''disable_udp'' False as_bool kvs) (\<lambda>u.
     Inr \<lparr>lt_peer_name = n, lt_instance_id = i, lt_identity_private = k, lt_secret = s, lt_inbox = d,
          lt_inbox_category_roots = r, lt_listen_port = p, lt_capabilities = c, lt_discovery_targets = t,
          lt_disable_mdns = m, lt_disable_udp = u\<rparr>))))))))))))"

definition lan_send_fields :: "string list" where
  "lan_send_fields = [''session_id'', ''path'', ''instance_id'', ''host'', ''port'', ''fingerprint'', ''endpoint_token'']"

definition as_lan_send :: "jvalue \<Rightarrow> lan_send_params result" where
  "as_lan_send v =
     bind_r (strict_struct lan_send_fields v) (\<lambda>kvs.
     bind_r (str_field ''session_id'' kvs) (\<lambda>s.
     bind_r (str_field ''path'' kvs) (\<lambda>p.
     bind_r (str_field ''instance_id'' kvs) (\<lambda>i.
     bind_r (str_field ''host'' kvs) (\<lambda>h.
     bind_r (field_default ''port'' 0 (as_unsigned u16_max) kvs) (\<lambda>n.
     bind_r (str_field ''fingerprint'' kvs) (\<lambda>f.
     bind_r (str_field ''endpoint_token'' kvs) (\<lambda>t.
     Inr \<lparr>ls_session_id = s, ls_path = p, ls_instance_id = i, ls_host = h, ls_port = n, ls_fingerprint = f,
          ls_endpoint_token = t\<rparr>))))))))"

text \<open>\<open>SessionParams\<close> and \<open>WormholeSessionParams\<close>; \<open>SendCancelParams\<close> and \<open>SshPairJoinParams\<close>.\<close>

definition as_session :: "jvalue \<Rightarrow> string result" where
  "as_session v = bind_r (strict_struct [''session_id''] v) (str_field ''session_id'')"

definition as_session_and :: "string \<Rightarrow> jvalue \<Rightarrow> (string \<times> string) result" where
  "as_session_and k v =
     bind_r (strict_struct [''session_id'', k] v) (\<lambda>kvs.
     bind_r (str_field ''session_id'' kvs) (\<lambda>s. bind_r (str_field k kvs) (\<lambda>x. Inr (s, x))))"

text \<open>The settings of the rendezvous with the minutes of the pairing window.\<close>

definition as_wormhole_settings :: "jvalue \<Rightarrow> (wormhole_settings \<times> nat) result" where
  "as_wormhole_settings v =
     bind_r (strict_struct [''rendezvous_url'', ''transit_relay'', ''timeout_minutes''] v) (\<lambda>kvs.
     bind_r (str_field ''rendezvous_url'' kvs) (\<lambda>r.
     bind_r (str_field ''transit_relay'' kvs) (\<lambda>t.
     bind_r (field_default ''timeout_minutes'' 0 (as_unsigned u32_max) kvs) (\<lambda>m.
     Inr (\<lparr>ws_rendezvous_url = r, ws_transit_relay = t\<rparr>, m)))))"

definition no_settings :: "wormhole_settings \<times> nat" where
  "no_settings = (\<lparr>ws_rendezvous_url = [], ws_transit_relay = []\<rparr>, 0)"

definition as_wormhole_create :: "jvalue \<Rightarrow> (string \<times> string list \<times> wormhole_settings \<times> nat) result" where
  "as_wormhole_create v =
     bind_r (strict_struct [''session_id'', ''paths'', ''settings''] v) (\<lambda>kvs.
     bind_r (str_field ''session_id'' kvs) (\<lambda>s.
     bind_r (strs_field ''paths'' kvs) (\<lambda>p.
     bind_r (field_default ''settings'' no_settings as_wormhole_settings kvs) (\<lambda>(w, m). Inr (s, p, w, m)))))"

definition as_wormhole_join :: "jvalue \<Rightarrow> (string \<times> string \<times> wormhole_settings \<times> nat) result" where
  "as_wormhole_join v =
     bind_r (strict_struct [''session_id'', ''code'', ''settings''] v) (\<lambda>kvs.
     bind_r (str_field ''session_id'' kvs) (\<lambda>s.
     bind_r (str_field ''code'' kvs) (\<lambda>c.
     bind_r (field_default ''settings'' no_settings as_wormhole_settings kvs) (\<lambda>(w, m). Inr (s, c, w, m)))))"

definition no_profile :: ssh_profile where
  "no_profile = \<lparr>pf_id = [], pf_host = [], pf_port = 0, pf_user = [], pf_private_key = [], pf_private_key_label = [],
     pf_passphrase = [], pf_host_key_sha256 = []\<rparr>"

definition as_ssh_check :: "jvalue \<Rightarrow> ssh_profile result" where
  "as_ssh_check v = bind_r (strict_struct [''profile''] v) (field_default ''profile'' no_profile as_ssh_profile)"

definition as_ssh_listen :: "jvalue \<Rightarrow> (string \<times> ssh_profile \<times> nat \<times> ssh_peer list) result" where
  "as_ssh_listen v =
     bind_r (strict_struct [''session_id'', ''profile'', ''remote_port'', ''peers''] v) (\<lambda>kvs.
     bind_r (str_field ''session_id'' kvs) (\<lambda>s.
     bind_r (field_default ''profile'' no_profile as_ssh_profile kvs) (\<lambda>p.
     bind_r (field_default ''remote_port'' 0 (as_unsigned u16_max) kvs) (\<lambda>n.
     bind_r (field_default ''peers'' [] (as_list as_ssh_peer) kvs) (\<lambda>q. Inr (s, p, n, q))))))"

section \<open>Dispatch\<close>

datatype request =
    Ping
  | LanStart lan_start_params | LanStop string | LanPeers string bool
  | LanSend lan_send_params | LanSendCancel string string | LanReceivePause string | LanReceiveResume string
  | WormholeCreate string "string list" wormhole_settings nat | WormholeJoin string string wormhole_settings nat
  | WormholeAccept string | WormholeReject string
  | SshCheck ssh_profile | SshListen string ssh_profile nat "ssh_peer list"
  | SshPairCreate string | SshPairJoin string string
  | SessionCancel string

definition decode_params :: "(jvalue \<Rightarrow> 'a result) \<Rightarrow> jvalue \<Rightarrow> ('a \<Rightarrow> request) \<Rightarrow> request result" where
  "decode_params decoder params wrap =
     reject_if (params = JNull) (InvalidRequest ''missing params'')
     (case decoder params of Inr x \<Rightarrow> Inr (wrap x) | Inl _ \<Rightarrow> Inl (InvalidRequest ''invalid params: ''))"

definition parse_request :: "string \<Rightarrow> jvalue \<Rightarrow> request result" where
  "parse_request method params =
     (if method = ''ping'' then Inr Ping
      else if method = ''lan.start'' then decode_params as_lan_start params LanStart
      else if method = ''lan.stop'' then decode_params as_session params LanStop
      else if method = ''lan.peers'' then decode_params as_session params (\<lambda>s. LanPeers s False)
      else if method = ''lan.refresh'' then decode_params as_session params (\<lambda>s. LanPeers s True)
      else if method = ''lan.send'' then decode_params as_lan_send params LanSend
      else if method = ''lan.send.cancel'' then
        decode_params (as_session_and ''send_id'') params (\<lambda>(s, i). LanSendCancel s i)
      else if method = ''lan.receive.pause'' then decode_params as_session params LanReceivePause
      else if method = ''lan.receive.resume'' then decode_params as_session params LanReceiveResume
      else if method = ''wormhole.create'' then
        decode_params as_wormhole_create params (\<lambda>(s, p, w, m). WormholeCreate s p w m)
      else if method = ''wormhole.join.start'' then
        decode_params as_wormhole_join params (\<lambda>(s, c, w, m). WormholeJoin s c w m)
      else if method = ''wormhole.accept'' then decode_params as_session params WormholeAccept
      else if method = ''wormhole.reject'' then decode_params as_session params WormholeReject
      else if method = ''ssh.check'' then decode_params as_ssh_check params SshCheck
      else if method = ''ssh.listen'' then decode_params as_ssh_listen params (\<lambda>(s, p, n, q). SshListen s p n q)
      else if method = ''ssh.pair.create'' then decode_params as_session params SshPairCreate
      else if method = ''ssh.pair.join'' then
        decode_params (as_session_and ''code'') params (\<lambda>(s, c). SshPairJoin s c)
      else if method = ''session.cancel'' then decode_params as_session params SessionCancel
      else Inl (InvalidRequest (''unknown method: '' @ method)))"

text \<open>What a request finds outside: the device, the other tasks, the outcomes of closing, a fresh UUID, and the
  answers of the parts that are modelled elsewhere (routes and ids in \<open>SendRoutes\<close>, the codes of \<open>ShortCode\<close>,
  pairing in \<open>SshExchange\<close>).\<close>

record outside =
  os_io_text :: "io_kind \<Rightarrow> string"
  os_core_version :: string
  os_device :: lan_device
  os_tasks :: tasks
  os_shutdown :: shutdown
  os_uuid :: string
  os_plan :: "lan_session \<Rightarrow> lan_send_params \<Rightarrow> (service, string) action"
  os_create :: "wormhole_settings \<Rightarrow> nat \<Rightarrow> string list \<Rightarrow> (service, string) action"
  os_expires_at :: "nat \<Rightarrow> string"
  os_check :: "ssh_profile \<Rightarrow> (service, jvalue) action"
  os_identity :: "string \<Rightarrow> device_identity"
  os_started :: "string \<Rightarrow> ssh_profile \<Rightarrow> nat \<Rightarrow> ssh_peer list \<Rightarrow> ssh_started result"
  os_make_code :: "relay_handle \<Rightarrow> (service, string) action"
  os_join :: "relay_handle \<Rightarrow> string \<Rightarrow> (service, ssh_peer) action"

definition CORE_PROTOCOL_VERSION :: nat where "CORE_PROTOCOL_VERSION = 1"

fun run_request :: "crates \<Rightarrow> outside \<Rightarrow> request \<Rightarrow> (service, jvalue) action" where
  "run_request E W Ping =
     io_ret (JObj [(''protocol'', jnat CORE_PROTOCOL_VERSION), (''core_version'', JStr (os_core_version W))])"
| "run_request E W (LanStart p) =
     start_lan E (os_io_text W) (os_device W) (os_tasks W) (os_shutdown W) (os_uuid W) p"
| "run_request E W (LanStop s) = stop_lan (os_tasks W) (os_shutdown W) s"
| "run_request E W (LanPeers s refresh) = lan_peers (os_device W) s refresh"
| "run_request E W (LanSend p) = lan_send (os_plan W) (os_uuid W) p"
| "run_request E W (LanSendCancel s i) = lan_send_cancel (os_tasks W) s i"
| "run_request E W (LanReceivePause s) = lan_receive_pause s"
| "run_request E W (LanReceiveResume s) = lan_receive_resume s"
| "run_request E W (WormholeCreate s p w m) =
     wormhole_create (os_create W w (wormhole_timeout m)) (os_expires_at W (wormhole_timeout m)) (os_uuid W) s p"
| "run_request E W (WormholeJoin s c w m) = wormhole_join (os_uuid W) s c"
| "run_request E W (WormholeAccept s) = wormhole_accept (os_tasks W) s"
| "run_request E W (WormholeReject s) = wormhole_reject (os_tasks W) s"
| "run_request E W (SshCheck p) = os_check W p"
| "run_request E W (SshListen s p n q) =
     ssh_listen E (os_tasks W) (os_shutdown W) (os_identity W s) (os_started W s p n q) (os_uuid W) s"
| "run_request E W (SshPairCreate s) = ssh_pair_create (os_make_code W) s"
| "run_request E W (SshPairJoin s c) = ssh_pair_join (os_join W) s c"
| "run_request E W (SessionCancel s) = cancel_transport_session (os_tasks W) (os_shutdown W) s"

definition handle :: "crates \<Rightarrow> outside \<Rightarrow> string \<Rightarrow> jvalue \<Rightarrow> (service, jvalue) action" where
  "handle E W method params =
     io_then ensure_open (io_bind (io_lift (parse_request method params)) (run_request E W))"

section \<open>Text in, text out\<close>

text \<open>Absent fields of an envelope are empty.\<close>

definition as_json_request :: "jvalue \<Rightarrow> (string \<times> string \<times> jvalue) result" where
  "as_json_request v =
     bind_r (strict_struct [''id'', ''method'', ''params''] v) (\<lambda>kvs.
     bind_r (str_field ''id'' kvs) (\<lambda>i.
     bind_r (str_field ''method'' kvs) (\<lambda>m.
     bind_r (field_default ''params'' JNull (\<lambda>v. Inr (as_value v)) kvs) (\<lambda>p. Inr (i, m, p)))))"

definition response_json :: "string \<Rightarrow> string + jvalue \<Rightarrow> jvalue" where
  "response_json i r =
     (case r of
        Inr v \<Rightarrow> JObj [(''id'', JStr i), (''ok'', JBool True), (''result'', v)]
      | Inl err \<Rightarrow> JObj [(''id'', JStr i), (''ok'', JBool False), (''error'', JStr err)])"

definition encode_response :: "crates \<Rightarrow> string \<Rightarrow> string + jvalue \<Rightarrow> string" where
  "encode_response E i r = bytes_str (to_vec E (response_json i r))"

definition call_json :: "crates \<Rightarrow> outside \<Rightarrow> string \<Rightarrow> service \<Rightarrow> string \<times> service" where
  "call_json E W request_text sv =
     (let encode = encode_response E in
      if MAX_CONTROL_FRAME < length request_text then (encode [] (Inl ''invalid request: request is too large''), sv)
      else case bind_r (from_slice E (str_bytes request_text)) as_json_request of
        Inl _ \<Rightarrow> (encode [] (Inl ''invalid request: ''), sv)
      | Inr (i, method, params) \<Rightarrow>
          if i = [] \<or> method = [] then (encode i (Inl ''id and method are required''), sv)
          else case handle E W method params sv of
            (Inr v, sv') \<Rightarrow> (encode i (Inr v), sv')
          | (Inl err, sv') \<Rightarrow> (encode i (Inl (error_text (os_io_text W) err)), sv'))"

definition poll_event :: "crates \<Rightarrow> bool \<Rightarrow> queue_op list list \<Rightarrow> service \<Rightarrow> string option \<times> service" where
  "poll_event E zero_timeout batches sv =
     (case pop (sv_events sv) zero_timeout batches of
        (e, q) \<Rightarrow> (map_option (\<lambda>e. bytes_str (to_vec E (JObj ((''event'', JStr (se_event e)) #
                    (if se_data e = JNull then [] else [(''data'', se_data e)]))))) e, sv\<lparr>sv_events := q\<rparr>))"

end
