(* ===== verification/Ffi.thy ===== *)
theory Ffi
  imports ServiceJson
begin

text \<open>
  The C interface (\<open>inkhole-ffi/src/lib.rs\<close>). The memory that the library gives away is explicit: the living services and
  strings under their addresses, and the cells that the caller's pointers name. A call is partial: dereferencing or
  freeing an address that is not alive is undefined behaviour (\<open>None\<close>). A panic is a value that the boundary
  catches. A call is one step; what other threads do to the service meanwhile are the tasks of its requests.
\<close>

section \<open>Status codes and outputs\<close>

definition FFI_ABI_VERSION :: nat where "FFI_ABI_VERSION = 1"
definition STATUS_OK :: int where "STATUS_OK = 0"
definition STATUS_NO_EVENT :: int where "STATUS_NO_EVENT = 1"
definition STATUS_INVALID_ARGUMENT :: int where "STATUS_INVALID_ARGUMENT = 2"
definition STATUS_INVALID_UTF8 :: int where "STATUS_INVALID_UTF8 = 3"
definition STATUS_CLOSED :: int where "STATUS_CLOSED = 4"
definition STATUS_INTERNAL_ERROR :: int where "STATUS_INTERNAL_ERROR = 5"
definition STATUS_PANIC :: int where "STATUS_PANIC = 6"
definition STATUS_WRONG_THREAD :: int where "STATUS_WRONG_THREAD = 7"

record boundary_output =
  bo_status :: int
  bo_value :: "string option"

definition output_ok :: "string \<Rightarrow> boundary_output" where
  "output_ok v = \<lparr>bo_status = STATUS_OK, bo_value = Some v\<rparr>"

definition output_empty :: boundary_output where
  "output_empty = \<lparr>bo_status = STATUS_OK, bo_value = None\<rparr>"

definition output_error :: "int \<Rightarrow> string \<Rightarrow> boundary_output" where
  "output_error status message = \<lparr>bo_status = status, bo_value = Some message\<rparr>"

datatype panic_payload = StaticText string | OwnedText string | OtherPayload

fun panic_message :: "panic_payload \<Rightarrow> string" where
  "panic_message (StaticText message) = message"
| "panic_message (OwnedText message) = message"
| "panic_message OtherPayload = ''non-string panic payload''"

section \<open>Memory\<close>

record ffi_service =
  fs_runtime :: bool
  fs_service :: service
  fs_closed :: bool

text \<open>Address 0 is null; \<open>ff_next\<close> is the next free one.\<close>

record ffi =
  ff_services :: "(nat \<times> ffi_service) list"
  ff_strings :: "(nat \<times> string) list"
  ff_cells :: "nat \<Rightarrow> nat"
  ff_next :: nat

definition set_cell :: "nat \<Rightarrow> nat \<Rightarrow> ffi \<Rightarrow> ffi" where
  "set_cell cell p s = s\<lparr>ff_cells := (ff_cells s)(cell := p)\<rparr>"

definition give_string :: "nat \<Rightarrow> string \<Rightarrow> ffi \<Rightarrow> ffi" where
  "give_string out v s =
     set_cell out (ff_next s) (s\<lparr>ff_strings := (ff_next s, v) # ff_strings s, ff_next := Suc (ff_next s)\<rparr>)"

definition give_service :: "nat \<Rightarrow> ffi_service \<Rightarrow> ffi \<Rightarrow> ffi" where
  "give_service out sv s =
     set_cell out (ff_next s) (s\<lparr>ff_services := (ff_next s, sv) # ff_services s, ff_next := Suc (ff_next s)\<rparr>)"

definition put_service :: "nat \<Rightarrow> ffi_service \<Rightarrow> ffi \<Rightarrow> ffi" where
  "put_service p sv s = s\<lparr>ff_services := AList.update p sv (ff_services s)\<rparr>"

text \<open>Around a call: the crates and the world of the requests, what other threads do while an event is awaited, how the
  runtime starts, whether the caller is on a thread of the runtime (then \<open>block_on\<close> panics), a program that panics
  on the way with what it has done until then, a close that is given up after ten seconds likewise, and whether
  another thread has set the closed flag by the time that an awaited event is looked at.\<close>

record ffi_env =
  fe_crates :: crates
  fe_outside :: outside
  fe_batches :: "queue_op list list"
  fe_runtime :: "string + unit"
  fe_on_runtime :: bool
  fe_block_panic :: panic_payload
  fe_program_panic :: "(panic_payload \<times> (service \<Rightarrow> service)) option"
  fe_partial_close :: "(service \<Rightarrow> service) option"
  fe_closed_meanwhile :: bool
  fe_utf8_error :: "bytes \<Rightarrow> string"

text \<open>A closure: undefined, or a panic with its payload, or an output, and the memory after it.\<close>

type_synonym 'a ffi_op = "ffi \<Rightarrow> ((panic_payload + 'a) \<times> ffi) option"

section \<open>The boundary\<close>

definition ffi_boundary :: "nat \<Rightarrow> boundary_output ffi_op \<Rightarrow> ffi \<Rightarrow> (int \<times> ffi) option" where
  "ffi_boundary out_value operation s =
     (if out_value = 0 then Some (STATUS_INVALID_ARGUMENT, s)
      else map_option (\<lambda>(r, s').
        let output = (case r of Inr v \<Rightarrow> v | Inl payload \<Rightarrow> output_error STATUS_PANIC (''Rust panic: '' @ panic_message payload)) in
        case bo_value output of
          None \<Rightarrow> (bo_status output, s')
        | Some v \<Rightarrow>
            if CHR 0x00 \<in> set v
            then (STATUS_INTERNAL_ERROR, give_string out_value ''FFI output contained an interior NUL'' s')
            else (bo_status output, give_string out_value v s'))
        (operation (set_cell out_value 0 s)))"

definition return_output :: "boundary_output \<Rightarrow> boundary_output ffi_op" where
  "return_output v s = Some (Inr v, s)"

definition closed_output :: boundary_output where
  "closed_output = output_error STATUS_CLOSED ''service is closed''"

text \<open>\<open>service_ref\<close> and its early return.\<close>

definition with_service :: "nat \<Rightarrow> (ffi_service \<Rightarrow> boundary_output ffi_op) \<Rightarrow> boundary_output ffi_op" where
  "with_service p k s =
     (if p = 0 then return_output (output_error STATUS_INVALID_ARGUMENT ''service must not be null'') s
      else Option.bind (map_of (ff_services s) p) (\<lambda>sv. k sv s))"

text \<open>\<open>runtime.block_on\<close> of a program on the service: its value or its panic, and the service after it.\<close>

definition block_on :: "ffi_env \<Rightarrow> (service \<Rightarrow> 'a \<times> service) \<Rightarrow> service \<Rightarrow> (panic_payload + 'a) \<times> service" where
  "block_on W program service =
     (if fe_on_runtime W then (Inl (fe_block_panic W), service)
      else case fe_program_panic W of
        Some (payload, partial) \<Rightarrow> (Inl payload, partial service)
      | None \<Rightarrow> (case program service of (v, service') \<Rightarrow> (Inr v, service')))"

definition on_runtime_of ::
  "ffi_env \<Rightarrow> nat \<Rightarrow> ffi_service \<Rightarrow> (service \<Rightarrow> boundary_output \<times> service) \<Rightarrow> boundary_output ffi_op" where
  "on_runtime_of W p sv program s =
     (if \<not> fs_runtime sv then return_output closed_output s
      else case block_on W program (fs_service sv) of
        (r, service') \<Rightarrow> Some (r, put_service p (sv\<lparr>fs_service := service'\<rparr>) s))"

definition reject_runtime_thread :: "ffi_env \<Rightarrow> boundary_output option" where
  "reject_runtime_thread W =
     (if fe_on_runtime W
      then Some (output_error STATUS_WRONG_THREAD ''close and destroy must not be called from a runtime thread'')
      else None)"

definition timeout_from_millis :: "int \<Rightarrow> boundary_output + nat option" where
  "timeout_from_millis timeout_ms =
     (if timeout_ms = - 1 then Inr None
      else if 0 \<le> timeout_ms then Inr (Some (nat timeout_ms))
      else Inl (output_error STATUS_INVALID_ARGUMENT ''timeout_ms must be -1 or non-negative''))"

text \<open>The bytes that the caller promises to be readable at \<open>input\<close>.\<close>

definition utf8_input :: "ffi_env \<Rightarrow> nat \<Rightarrow> bytes \<Rightarrow> boundary_output + string" where
  "utf8_input W input data =
     (if data = [] then Inr []
      else if input = 0 then
        Inl (output_error STATUS_INVALID_ARGUMENT ''request must not be null when request_len is non-zero'')
      else if utf8_valid (map unat data) then Inr (bytes_str data)
      else Inl (output_error STATUS_INVALID_UTF8 (''request is not valid UTF-8: '' @ fe_utf8_error W data)))"

section \<open>The exported functions\<close>

definition inkhole_ffi_abi_version :: nat where
  "inkhole_ffi_abi_version = FFI_ABI_VERSION"

definition inkhole_service_create :: "ffi_env \<Rightarrow> nat \<Rightarrow> nat \<Rightarrow> ffi \<Rightarrow> (int \<times> ffi) option" where
  "inkhole_service_create W out_service out_message =
     ffi_boundary out_message (\<lambda>s.
       if out_service = 0 then
         return_output (output_error STATUS_INVALID_ARGUMENT ''out_service must not be null'') s
       else
         let s = set_cell out_service 0 s in
         case fe_runtime W of
           Inl err \<Rightarrow> return_output (output_error STATUS_INTERNAL_ERROR (''could not create Tokio runtime: '' @ err)) s
         | Inr _ \<Rightarrow>
             return_output output_empty
               (give_service out_service \<lparr>fs_runtime = True, fs_service = new_service, fs_closed = False\<rparr> s))"

definition inkhole_service_call :: "ffi_env \<Rightarrow> nat \<Rightarrow> nat \<Rightarrow> bytes \<Rightarrow> nat \<Rightarrow> ffi \<Rightarrow> (int \<times> ffi) option" where
  "inkhole_service_call W p request_at request_bytes out_json =
     ffi_boundary out_json (with_service p (\<lambda>sv.
       if fs_closed sv then return_output closed_output
       else case utf8_input W request_at request_bytes of
         Inl err \<Rightarrow> return_output err
       | Inr request_text \<Rightarrow>
           on_runtime_of W p sv (\<lambda>service.
             case call_json (fe_crates W) (fe_outside W) request_text service of
               (answer, service') \<Rightarrow> (output_ok answer, service'))))"

text \<open>The flag is read after the wait; another thread may have set it meanwhile.\<close>

definition inkhole_service_poll_event :: "ffi_env \<Rightarrow> nat \<Rightarrow> int \<Rightarrow> nat \<Rightarrow> ffi \<Rightarrow> (int \<times> ffi) option" where
  "inkhole_service_poll_event W p timeout_ms out_event =
     ffi_boundary out_event (with_service p (\<lambda>sv.
       case timeout_from_millis timeout_ms of
         Inl err \<Rightarrow> return_output err
       | Inr timeout \<Rightarrow>
           let sv = sv\<lparr>fs_closed := fs_closed sv \<or> fe_closed_meanwhile W\<rparr> in
           on_runtime_of W p sv (\<lambda>service.
             case poll_event (fe_crates W) (timeout = Some 0) (fe_batches W) service of
               (Some event, service') \<Rightarrow> (output_ok event, service')
             | (None, service') \<Rightarrow>
                 (if fs_closed sv then closed_output else \<lparr>bo_status = STATUS_NO_EVENT, bo_value = None\<rparr>, service'))))"

definition finish_output :: "(io_kind \<Rightarrow> string) \<Rightarrow> unit result \<Rightarrow> boundary_output" where
  "finish_output io_text r =
     (case r of Inr _ \<Rightarrow> output_empty | Inl err \<Rightarrow> output_error STATUS_INTERNAL_ERROR (error_text io_text err))"

definition inkhole_service_reset :: "ffi_env \<Rightarrow> nat \<Rightarrow> nat \<Rightarrow> ffi \<Rightarrow> (int \<times> ffi) option" where
  "inkhole_service_reset W p out_message =
     ffi_boundary out_message (with_service p (\<lambda>sv.
       if fs_closed sv then return_output closed_output
       else
         on_runtime_of W p sv (\<lambda>service.
           case reset (os_tasks (fe_outside W)) (os_shutdown (fe_outside W)) service of
             (r, service') \<Rightarrow> (finish_output (os_io_text (fe_outside W)) r, service'))))"

text \<open>\<open>close_service\<close> on a service that the caller holds: the panic or the output, and the service after it.\<close>

definition close_held :: "ffi_env \<Rightarrow> ffi_service \<Rightarrow> (panic_payload + boundary_output) \<times> ffi_service" where
  "close_held W sv =
     (case reject_runtime_thread W of
        Some err \<Rightarrow> (Inr err, sv)
      | None \<Rightarrow>
          if fs_closed sv then (Inr output_empty, sv)
          else
            let closed = sv\<lparr>fs_closed := True\<rparr> in
            if \<not> fs_runtime sv then (Inr output_empty, closed)
            else case block_on W (\<lambda>service.
                case fe_partial_close W of
                  Some partial \<Rightarrow> (output_error STATUS_INTERNAL_ERROR ''service close timed out'', partial service)
                | None \<Rightarrow>
                    (case close_service (os_tasks (fe_outside W)) (os_shutdown (fe_outside W)) service of
                       (r, service') \<Rightarrow> (finish_output (os_io_text (fe_outside W)) r, service'))) (fs_service sv) of
              (r, service') \<Rightarrow> (r, closed\<lparr>fs_service := service'\<rparr>))"

definition inkhole_service_close :: "ffi_env \<Rightarrow> nat \<Rightarrow> nat \<Rightarrow> ffi \<Rightarrow> (int \<times> ffi) option" where
  "inkhole_service_close W p out_message =
     ffi_boundary out_message (with_service p (\<lambda>sv s.
       case close_held W sv of (r, sv') \<Rightarrow> Some (r, put_service p sv' s)))"

text \<open>The box is owned from the moment it is taken back: it is released whatever the close says, and if it panics.\<close>

definition inkhole_service_destroy :: "ffi_env \<Rightarrow> nat \<Rightarrow> nat \<Rightarrow> ffi \<Rightarrow> (int \<times> ffi) option" where
  "inkhole_service_destroy W p out_message =
     ffi_boundary out_message (\<lambda>s.
       if p = 0 then return_output (output_error STATUS_INVALID_ARGUMENT ''service must not be null'') s
       else case reject_runtime_thread W of
         Some err \<Rightarrow> return_output err s
       | None \<Rightarrow>
           Option.bind (map_of (ff_services s) p) (\<lambda>sv.
             Some (fst (close_held W sv), s\<lparr>ff_services := AList.delete p (ff_services s)\<rparr>)))"

definition inkhole_string_free :: "nat \<Rightarrow> ffi \<Rightarrow> ffi option" where
  "inkhole_string_free q s =
     (if q = 0 then Some s
      else if q \<in> fst ` set (ff_strings s) then Some (s\<lparr>ff_strings := AList.delete q (ff_strings s)\<rparr>)
      else None)"

end
