(* ===== verification/ServiceMachine.thy ===== *)
theory ServiceMachine
  imports Service
begin

text \<open>
  The service as a machine: every section of every task is a step, in any order. The invariant says what
  the registries promise: sessions are registered under their ids, a LAN session has at most one relay, a
  closed service holds nothing, and the registry of transfers knows exactly those that run. Taking the sender
  of a decision and using it are two steps.
\<close>

section \<open>Steps\<close>

datatype service_op =
    DrainLan | InsertLan string | TakeLan string | CancelToken token | CloseSends string
  | RegisterSend string string | FinishSend string string
  | RegisterTokens string string "string list" | DropGuard string "string list" bool | LateRemoval string "string list"
  | InsertRelay string string
  | InsertWormhole string string bool | TakeTransport string | RemoveWormhole string
  | TakeSender string | SendDecision string receiver_decision | DropSender string | WaitDecision string offer_wait
  | SetPaused string bool | ResetAll | CloseAll | OnEvents queue_op

definition relay_of :: "string \<Rightarrow> string \<Rightarrow> relay_handle" where
  "relay_of sid rid = \<lparr>rl_session_id = rid, rl_lan_session_id = sid, rl_token = [sid, rid]\<rparr>"

definition wormhole_of :: "string \<Rightarrow> string \<Rightarrow> wormhole_session" where
  "wormhole_of sid wid = \<lparr>wh_session_id = wid, wh_lan_session_id = sid, wh_token = [sid, wid]\<rparr>"

text \<open>Ids are random UUIDs: one that is in use is not made again.\<close>

definition running_ids :: "send_registry \<Rightarrow> string list" where
  "running_ids g = map tk_send_id (filter tk_running (sg_handles g))"

definition live_ids :: "send_registry \<Rightarrow> string list" where
  "live_ids g = running_ids g @ concat (sg_guards g) @ concat (sg_removals g)"

definition fresh_ids :: "string list \<Rightarrow> send_registry \<Rightarrow> bool" where
  "fresh_ids ids g = (distinct ids \<and> set ids \<inter> set (live_ids g) = {})"

definition wormhole_tokens :: "string \<Rightarrow> string \<Rightarrow> string list \<Rightarrow> (string \<times> token) list" where
  "wormhole_tokens sid wid ids = map (\<lambda>i. (i, [sid, wid, i])) ids"

fun service_step :: "service \<Rightarrow> service_op \<Rightarrow> service" where
  "service_step sv DrainLan = snd (drain_lan sv)"
| "service_step sv (InsertLan u) = snd (insert_lan (lan_session_of (new_id ''lan'' u)) sv)"
| "service_step sv (TakeLan sid) = snd (take_lan sid sv)"
| "service_step sv (CancelToken t) = cancel_token t sv"
| "service_step sv (CloseSends sid) =
     (if sv_is_cancelled sv [sid] then snd (close_sends (lan_session_of sid) sv) else sv)"
| "service_step sv (RegisterSend sid u) =
     (if fresh_ids [new_id ''send'' u] (sv_sends sv sid)
      then snd (register_send (lan_session_of sid) (new_id ''send'' u) sv) else sv)"
| "service_step sv (FinishSend sid i) =
     (if i \<in> set (running_ids (sv_sends sv sid)) then finish_send sid i sv else sv)"
| "service_step sv (RegisterTokens sid u us) =
     (if fresh_ids (map (new_id ''send'') us) (sv_sends sv sid)
      then snd (register_tokens (lan_session_of sid)
                 (wormhole_tokens sid (new_id ''wh'' u) (map (new_id ''send'') us)) sv) else sv)"
| "service_step sv (DropGuard sid ids locked) =
     (if ids \<in> set (sg_guards (sv_sends sv sid)) then drop_guard sid ids locked sv else sv)"
| "service_step sv (LateRemoval sid ids) =
     (if ids \<in> set (sg_removals (sv_sends sv sid)) then late_removal sid ids sv else sv)"
| "service_step sv (InsertRelay sid u) = snd (insert_relay (relay_of sid (new_id ''ssh'' u)) sv)"
| "service_step sv (InsertWormhole sid u joins) = snd (insert_wormhole (wormhole_of sid (new_id ''wh'' u)) joins sv)"
| "service_step sv (TakeTransport i) = snd (take_transport i sv)"
| "service_step sv (RemoveWormhole i) = remove_wormhole i sv"
| "service_step sv (TakeSender w) = snd (take_sender w sv)"
| "service_step sv (SendDecision w d) = snd (send_decision w d sv)"
| "service_step sv (DropSender w) = set_decision w (\<lambda>c. c\<lparr>dc_sender := False\<rparr>) sv"
| "service_step sv (WaitDecision w next_event) = snd (wait_decision w next_event sv)"
| "service_step sv (SetPaused sid b) = set_paused sid b sv"
| "service_step sv ResetAll = snd (reset_section sv)"
| "service_step sv CloseAll = (if sv_is_cancelled sv [] then snd (close_section sv) else sv)"
| "service_step sv (OnEvents e) = set_events (\<lambda>q. queue_step q e) sv"

section \<open>Tokens\<close>

lemma is_cancelled_mono: "is_cancelled c t \<Longrightarrow> set c \<subseteq> set c' \<Longrightarrow> is_cancelled c' t"
  by (auto simp: is_cancelled_def list_ex_iff)

lemma is_cancelled_below: "is_cancelled c t \<Longrightarrow> prefix t u \<Longrightarrow> is_cancelled c u"
  by (auto simp: is_cancelled_def list_ex_iff intro: prefix_order.trans)

lemma is_cancelled_Cons [simp]: "is_cancelled (t # c) u \<longleftrightarrow> prefix t u \<or> is_cancelled c u"
  by (simp add: is_cancelled_def)

lemma is_cancelled_append [simp]: "is_cancelled (c @ d) u \<longleftrightarrow> is_cancelled c u \<or> is_cancelled d u"
  by (simp add: is_cancelled_def)

section \<open>The registry of transfers\<close>

text \<open>A transfer of the session has a token below that of the session, one of a short-code session a token below
  that one's.\<close>

definition send_entry :: "string \<Rightarrow> string \<times> token \<Rightarrow> bool" where
  "send_entry sid e \<longleftrightarrow> (\<exists>u. fst e = new_id ''send'' u) \<and>
     (snd e = [sid, fst e] \<or> (\<exists>v. snd e = [sid, new_id ''wh'' v, fst e]))"

lemma ids_apart [simp]: "new_id ''send'' u \<noteq> new_id ''wh'' v" "new_id ''wh'' v \<noteq> new_id ''send'' u"
  by (simp_all add: new_id_def)

definition registry_ok :: "token list \<Rightarrow> string \<Rightarrow> send_registry \<Rightarrow> bool" where
  "registry_ok cancelled sid g \<longleftrightarrow>
     (sg_closed g \<longrightarrow> is_cancelled cancelled [sid] \<and> sg_cancellations g = [] \<and> sg_handles g = []) \<and>
     distinct (live_ids g) \<and>
     (\<forall>task \<in> set (sg_handles g). tk_token task = [sid, tk_send_id task] \<and>
        (tk_running task \<longrightarrow> map_of (sg_cancellations g) (tk_send_id task) = Some (tk_token task))) \<and>
     (\<forall>ids \<in> set (sg_guards g). \<forall>i \<in> set ids. \<not> sg_closed g \<longrightarrow>
        (\<exists>w. map_of (sg_cancellations g) i = Some [sid, w, i])) \<and>
     fst ` set (sg_cancellations g) \<subseteq> set (live_ids g) \<and>
     (\<forall>e \<in> set (sg_cancellations g). send_entry sid e)"

lemma map_of_unregister: "map_of (unregister ids c) = (map_of c) |` (- set ids)"
proof (induction ids arbitrary: c)
  case (Cons i ids)
  then show ?case by (simp add: unregister_def AList.delete_conv' restrict_map_def fun_eq_iff)
qed (simp add: unregister_def restrict_map_def)

lemma set_delete: "set (AList.delete i c) = {(k, t) \<in> set c. k \<noteq> i}"
  by (auto simp: AList.delete_eq)

lemma set_unregister: "set (unregister ids c) = {(k, t) \<in> set c. k \<notin> set ids}"
  by (induction ids arbitrary: c) (auto simp: unregister_def set_delete)

lemma map_of_register:
  "distinct ids \<Longrightarrow> map_of (fold (\<lambda>(i, t). AList.update i t) (wormhole_tokens sid wid ids) c) =
     (\<lambda>i. if i \<in> set ids then Some [sid, wid, i] else map_of c i)"
  by (induction ids arbitrary: c) (auto simp: wormhole_tokens_def AList.update_conv' fun_eq_iff)

lemma set_update: "set (AList.update k v xs) \<subseteq> insert (k, v) (set xs)"
  by (induction xs) auto

lemma set_register:
  "set (fold (\<lambda>(i, t). AList.update i t) ts c) \<subseteq> set ts \<union> set c"
proof (induction ts arbitrary: c)
  case (Cons p ts)
  obtain i t where p: "p = (i, t)" by force
  show ?case using Cons [of "AList.update i t c"] set_update [of i t c] p by auto
qed simp

lemma registry_ok_mono: "registry_ok c sid g \<Longrightarrow> set c \<subseteq> set c' \<Longrightarrow> registry_ok c' sid g"
  using is_cancelled_mono [of c "[sid]" c'] by (simp add: registry_ok_def)

lemma new_registry_ok [simp]: "registry_ok c sid new_registry"
  by (simp add: registry_ok_def new_registry_def live_ids_def running_ids_def)

lemma running_ids_simps [simp]:
  "running_ids (g\<lparr>sg_cancellations := c\<rparr>) = running_ids g"
  "running_ids (g\<lparr>sg_guards := a\<rparr>) = running_ids g" "running_ids (g\<lparr>sg_removals := a\<rparr>) = running_ids g"
  "running_ids (g\<lparr>sg_closed := b\<rparr>) = running_ids g"
  by (simp_all add: running_ids_def)

lemma registry_ok_register:
  assumes "registry_ok c sid g" "fresh_ids [i] g" "\<not> sg_closed g" "i = new_id ''send'' u"
  shows "registry_ok c sid (g\<lparr>sg_cancellations := AList.update i [sid, i] (sg_cancellations g),
     sg_handles := filter tk_running (sg_handles g) @ [\<lparr>tk_send_id = i, tk_token = [sid, i], tk_running = True\<rparr>]\<rparr>)"
    (is "registry_ok c sid ?g")
proof -
  have run: "running_ids ?g = running_ids g @ [i]" by (simp add: running_ids_def)
  have new: "i \<notin> set (live_ids g)" using assms(2) by (simp add: fresh_ids_def)
  have set: "set (live_ids ?g) = insert i (set (live_ids g))" by (auto simp: live_ids_def run)
  have "distinct (live_ids ?g)" using assms(1) new by (auto simp: registry_ok_def live_ids_def run)
  moreover have "fst ` set (sg_cancellations ?g) \<subseteq> set (live_ids ?g)"
    using assms(1) image_mono [OF set_update, of fst i "[sid, i]" "sg_cancellations g"]
    unfolding registry_ok_def set by auto
  moreover have "send_entry sid (i, [sid, i])" by (auto simp: send_entry_def assms(4))
  then have "\<forall>e \<in> set (sg_cancellations ?g). send_entry sid e"
    using assms(1) set_update [of i "[sid, i]" "sg_cancellations g"] unfolding registry_ok_def by auto
  moreover have "\<exists>w. map_of (sg_cancellations ?g) j = Some [sid, w, j]" if "ids \<in> set (sg_guards ?g)" "j \<in> set ids" for ids j
  proof -
    have "j \<noteq> i" using that new by (auto simp: live_ids_def)
    then show ?thesis using that assms(1,3) by (auto simp: registry_ok_def AList.update_conv')
  qed
  moreover have "tk_token task = [sid, tk_send_id task] \<and>
      (tk_running task \<longrightarrow> map_of (sg_cancellations ?g) (tk_send_id task) = Some (tk_token task))"
    if "task \<in> set (sg_handles ?g)" for task
  proof -
    have "tk_send_id task \<noteq> i" if "task \<in> set (sg_handles g)" "tk_running task"
      using that new by (auto simp: live_ids_def running_ids_def)
    then show ?thesis using that assms(1) by (auto simp: registry_ok_def AList.update_conv')
  qed
  ultimately show ?thesis using assms(3) unfolding registry_ok_def by (simp add: AList.update_conv')
qed

lemma stopped_ids:
  "map tk_send_id (filter tk_running (map (\<lambda>task. if tk_send_id task = i then task\<lparr>tk_running := False\<rparr> else task) tasks)) =
     filter (\<lambda>j. j \<noteq> i) (map tk_send_id (filter tk_running tasks))"
  by (induction tasks) auto

lemma registry_ok_finish:
  assumes "registry_ok c sid g" "i \<in> set (running_ids g)"
  shows "registry_ok c sid (g\<lparr>sg_cancellations := AList.delete i (sg_cancellations g),
     sg_handles := map (\<lambda>task. if tk_send_id task = i then task\<lparr>tk_running := False\<rparr> else task) (sg_handles g)\<rparr>)"
    (is "registry_ok c sid ?g")
proof -
  have run: "running_ids ?g = filter (\<lambda>j. j \<noteq> i) (running_ids g)"
    by (simp add: running_ids_def stopped_ids)
  have old: "distinct (live_ids g)" using assms(1) by (simp add: registry_ok_def)
  then have "distinct (live_ids ?g)" by (auto simp: live_ids_def run)
  moreover have "fst ` set (sg_cancellations ?g) \<subseteq> set (live_ids ?g)"
    using assms(1) by (auto simp: registry_ok_def live_ids_def run set_delete)
  moreover have "\<exists>w. map_of (sg_cancellations ?g) j = Some [sid, w, j]"
    if "ids \<in> set (sg_guards ?g)" "j \<in> set ids" "\<not> sg_closed g" for ids j
  proof -
    have "j \<noteq> i" using that assms(2) old by (auto simp: live_ids_def)
    then show ?thesis using that assms(1) by (auto simp: registry_ok_def AList.delete_conv')
  qed
  ultimately show ?thesis using assms(1)
    unfolding registry_ok_def by (auto simp: set_delete AList.delete_conv')
qed

lemma registry_ok_tokens:
  assumes "registry_ok c sid g" "fresh_ids ids g" "\<not> sg_closed g" "wid = new_id ''wh'' u" "ids = map (new_id ''send'') us"
  shows "registry_ok c sid (g\<lparr>sg_cancellations :=
       fold (\<lambda>(i, t). AList.update i t) (wormhole_tokens sid wid ids) (sg_cancellations g),
     sg_guards := ids # sg_guards g\<rparr>)" (is "registry_ok c sid ?g")
proof -
  have new: "distinct ids" "set ids \<inter> set (live_ids g) = {}" using assms(2) by (simp_all add: fresh_ids_def)
  have set: "set (live_ids ?g) = set ids \<union> set (live_ids g)" by (auto simp: live_ids_def)
  have map: "map_of (sg_cancellations ?g) = (\<lambda>i. if i \<in> set ids then Some [sid, wid, i] else map_of (sg_cancellations g) i)"
    by (simp add: map_of_register new(1))
  have sub: "set (sg_cancellations ?g) \<subseteq> (\<lambda>i. (i, [sid, wid, i])) ` set ids \<union> set (sg_cancellations g)"
    using set_register [of "wormhole_tokens sid wid ids" "sg_cancellations g"] by (simp add: wormhole_tokens_def)
  have "distinct (live_ids ?g)" using assms(1) new by (auto simp: registry_ok_def live_ids_def)
  moreover have "fst ` set (sg_cancellations ?g) \<subseteq> set (live_ids ?g)"
    using assms(1) image_mono [OF sub, of fst] unfolding registry_ok_def set by (auto simp: image_Un image_image)
  moreover have "send_entry sid (i, [sid, wid, i])" if "i \<in> set ids" for i
    using that by (auto simp: send_entry_def assms(4,5))
  then have "\<forall>e \<in> set (sg_cancellations ?g). send_entry sid e"
    using assms(1) sub unfolding registry_ok_def by auto
  moreover have "\<exists>w. map_of (sg_cancellations ?g) j = Some [sid, w, j]" if "ids' \<in> set (sg_guards ?g)" "j \<in> set ids'" for ids' j
    using that assms(1,3) unfolding map by (auto simp: registry_ok_def)
  moreover have "tk_send_id task \<notin> set ids" if "task \<in> set (sg_handles g)" "tk_running task" for task
    using that new by (auto simp: live_ids_def running_ids_def)
  ultimately show ?thesis using assms(1,3) unfolding registry_ok_def map by simp
qed

lemma distinct_concat_remove1:
  assumes "distinct (concat xss)" "xs \<in> set xss"
  shows "distinct (concat (remove1 xs xss))" "set (concat (remove1 xs xss)) = set (concat xss) - set xs"
  using assms by (induction xss) auto

lemma registry_ok_unregister:
  assumes "registry_ok c sid g" "set (live_ids g') = set (live_ids g) - set ids" "distinct (live_ids g')"
    and "sg_cancellations g' = unregister ids (sg_cancellations g)" "sg_closed g' = sg_closed g"
    and "sg_handles g' = sg_handles g" "set (sg_guards g') \<subseteq> set (sg_guards g)"
  shows "registry_ok c sid g'"
proof -
  have live: "j \<notin> set ids" if "j \<in> set (live_ids g')" for j using that assms(2) by simp
  have "tk_send_id task \<notin> set ids" if "task \<in> set (sg_handles g)" "tk_running task" for task
    using that assms(6) by (intro live) (force simp: live_ids_def running_ids_def)
  moreover have "j \<notin> set ids" if "js \<in> set (sg_guards g')" "j \<in> set js" for j js
    using that by (intro live) (auto simp: live_ids_def)
  moreover have "fst ` set (sg_cancellations g') \<subseteq> set (live_ids g')"
    using assms(1,2,4) by (auto simp: registry_ok_def set_unregister)
  moreover have "\<forall>e \<in> set (sg_cancellations g'). send_entry sid e"
    using assms(1,4) by (auto simp: registry_ok_def set_unregister)
  moreover have "unregister ids [] = []" using set_unregister [of ids "[]"] by simp
  ultimately show ?thesis
    using assms(1,3-7) unfolding registry_ok_def by (auto simp: map_of_unregister subset_iff)
qed

lemma registry_ok_drop:
  assumes "registry_ok c sid g" "ids \<in> set (sg_guards g)"
  shows "registry_ok c sid (g\<lparr>sg_guards := remove1 ids (sg_guards g),
      sg_cancellations := unregister ids (sg_cancellations g)\<rparr>)"
    and "registry_ok c sid (g\<lparr>sg_guards := remove1 ids (sg_guards g), sg_removals := ids # sg_removals g\<rparr>)"
    and "ids = [] \<Longrightarrow> registry_ok c sid (g\<lparr>sg_guards := remove1 ids (sg_guards g)\<rparr>)"
proof -
  let ?A = "set (running_ids g)" and ?B = "set (concat (sg_guards g))" and ?C = "set (concat (sg_removals g))"
  let ?rest = "concat (remove1 ids (sg_guards g))"
  have "distinct (live_ids g)" using assms(1) by (simp add: registry_ok_def)
  then have d: "distinct (running_ids g)" "distinct (concat (sg_guards g))" "distinct (concat (sg_removals g))"
      "?A \<inter> (?B \<union> ?C) = {}" "?B \<inter> ?C = {}"
    unfolding live_ids_def distinct_append set_append by blast+
  note r = distinct_concat_remove1 [OF d(2) assms(2)]
  have sub: "set (remove1 ids (sg_guards g)) \<subseteq> set (sg_guards g)" by (rule set_remove1_subset)
  have guards: "set ids \<subseteq> ?B" using assms(2) by auto
  have sets: "?A \<inter> ((?B - set ids) \<union> ?C) = {}" "(?B - set ids) \<inter> ?C = {}"
      "?A \<union> ((?B - set ids) \<union> ?C) = (?A \<union> (?B \<union> ?C)) - set ids"
    using d guards by blast+
  show one: "registry_ok c sid (g\<lparr>sg_guards := remove1 ids (sg_guards g),
      sg_cancellations := unregister ids (sg_cancellations g)\<rparr>)"
  proof (rule registry_ok_unregister [OF assms(1), where ids = ids])
    show "set (live_ids (g\<lparr>sg_guards := remove1 ids (sg_guards g),
        sg_cancellations := unregister ids (sg_cancellations g)\<rparr>)) = set (live_ids g) - set ids"
      unfolding live_ids_def set_append using r(2) sets(3) by simp
    show "distinct (live_ids (g\<lparr>sg_guards := remove1 ids (sg_guards g),
        sg_cancellations := unregister ids (sg_cancellations g)\<rparr>))"
      unfolding live_ids_def distinct_append set_append using d r sets(1,2) by simp
  qed (use sub in simp_all)
  show "registry_ok c sid (g\<lparr>sg_guards := remove1 ids (sg_guards g)\<rparr>)" if "ids = []"
    using one that by (simp add: unregister_def)
  let ?g = "g\<lparr>sg_guards := remove1 ids (sg_guards g), sg_removals := ids # sg_removals g\<rparr>"
  have "distinct ids" using d(2) assms(2) by (simp add: distinct_concat_iff)
  moreover have "set ids \<inter> ?C = {}" "(?B - set ids) \<inter> (set ids \<union> ?C) = {}" "?A \<inter> ((?B - set ids) \<union> (set ids \<union> ?C)) = {}"
      "?A \<union> ((?B - set ids) \<union> (set ids \<union> ?C)) = ?A \<union> (?B \<union> ?C)"
    using d guards by blast+
  ultimately have "distinct (live_ids ?g)" "set (live_ids ?g) = set (live_ids g)"
    unfolding live_ids_def distinct_append set_append using d r by simp_all
  moreover have "\<forall>js \<in> set (sg_guards g). \<forall>i \<in> set js. \<not> sg_closed g \<longrightarrow>
      (\<exists>w. map_of (sg_cancellations g) i = Some [sid, w, i])"
    using assms(1) by (simp add: registry_ok_def)
  then have "\<forall>js \<in> set (remove1 ids (sg_guards g)). \<forall>i \<in> set js. \<not> sg_closed g \<longrightarrow>
      (\<exists>w. map_of (sg_cancellations g) i = Some [sid, w, i])"
    using sub by (meson subsetD)
  ultimately show "registry_ok c sid ?g"
    using assms(1) unfolding registry_ok_def by simp
qed

lemma registry_ok_late:
  assumes "registry_ok c sid g" "ids \<in> set (sg_removals g)"
  shows "registry_ok c sid (g\<lparr>sg_removals := remove1 ids (sg_removals g),
      sg_cancellations := unregister ids (sg_cancellations g)\<rparr>)"
proof -
  have d: "distinct (live_ids g)" using assms(1) by (simp add: registry_ok_def)
  have "set ids \<subseteq> set (concat (sg_removals g))" using assms(2) by auto
  then show ?thesis
    using d distinct_concat_remove1 [OF _ assms(2)]
    by (intro registry_ok_unregister [OF assms(1)]) (auto simp: live_ids_def)
qed

lemma registry_ok_close:
  assumes "registry_ok c sid g" "is_cancelled c [sid]"
  shows "registry_ok c sid (g\<lparr>sg_closed := True, sg_cancellations := [], sg_handles := []\<rparr>)"
  using assms by (auto simp: registry_ok_def live_ids_def running_ids_def)

end
