(* ===== verification/ServiceProps.thy ===== *)
theory ServiceProps
  imports ServiceMachine ServiceJson
begin

text \<open>
  What the machine of the service keeps in every interleaving: the invariant of the registries, exact
  cancellation of transfers, and that a closed session stays closed.
\<close>

section \<open>The invariant\<close>

definition maps_ok :: "service \<Rightarrow> bool" where
  "maps_ok sv \<longleftrightarrow>
     (sv_closed sv \<longrightarrow> sv_sessions sv = [] \<and> sv_wormholes sv = [] \<and> sv_relays sv = [] \<and> sv_is_cancelled sv []) \<and>
     distinct (map fst (sv_sessions sv)) \<and> (\<forall>(k, s) \<in> set (sv_sessions sv). s = lan_session_of k) \<and>
     distinct (map fst (sv_wormholes sv)) \<and> (\<forall>(k, w) \<in> set (sv_wormholes sv). \<exists>sid. w = wormhole_of sid k) \<and>
     distinct (map fst (sv_relays sv)) \<and> (\<forall>(k, r) \<in> set (sv_relays sv). \<exists>sid. r = relay_of sid k) \<and>
     distinct (map (rl_lan_session_id \<circ> snd) (sv_relays sv))"

definition sends_ok :: "service \<Rightarrow> bool" where
  "sends_ok sv \<longleftrightarrow> (\<forall>sid. registry_ok (sv_cancelled sv) sid (sv_sends sv sid))"

definition service_ok :: "service \<Rightarrow> bool" where
  "service_ok sv \<longleftrightarrow> maps_ok sv \<and> sends_ok sv"

lemma new_service_ok: "service_ok new_service"
  by (simp add: service_ok_def maps_ok_def sends_ok_def new_service_def)

subsection \<open>The sections that keep the maps\<close>

named_theorems section_defs

lemmas [section_defs] = drain_lan_def insert_lan_def take_lan_def cancel_token_def close_sends_def register_send_def
  finish_send_def register_tokens_def drop_guard_def late_removal_def set_sends_def
  insert_relay_def insert_wormhole_def take_transport_def remove_wormhole_def take_sender_def
  send_decision_def wait_decision_def set_decision_def drain_all_def reset_section_def close_section_def
  set_events_def set_paused_def

lemma sv_is_cancelled_simps [simp]:
  "sv_is_cancelled (cancel_token t sv) u \<longleftrightarrow> prefix t u \<or> sv_is_cancelled sv u"
  "sv_is_cancelled (sv\<lparr>sv_sessions := a\<rparr>) u = sv_is_cancelled sv u"
  "sv_is_cancelled (sv\<lparr>sv_wormholes := b\<rparr>) u = sv_is_cancelled sv u"
  "sv_is_cancelled (sv\<lparr>sv_relays := c\<rparr>) u = sv_is_cancelled sv u"
  "sv_is_cancelled (sv\<lparr>sv_sends := d\<rparr>) u = sv_is_cancelled sv u"
  "sv_is_cancelled (sv\<lparr>sv_decisions := e\<rparr>) u = sv_is_cancelled sv u"
  "sv_is_cancelled (sv\<lparr>sv_closed := f\<rparr>) u = sv_is_cancelled sv u"
  "sv_is_cancelled (sv\<lparr>sv_events := q\<rparr>) u = sv_is_cancelled sv u"
  "sv_is_cancelled (sv\<lparr>sv_paused := p\<rparr>) u = sv_is_cancelled sv u"
  by (simp_all add: sv_is_cancelled_def cancel_token_def)

text \<open>Cancelling and the registries of transfers do not touch the maps.\<close>

lemma maps_ok_frame:
  assumes "maps_ok sv" "sv_sessions sv' = sv_sessions sv" "sv_wormholes sv' = sv_wormholes sv"
    and "sv_relays sv' = sv_relays sv" "sv_closed sv' = sv_closed sv" "set (sv_cancelled sv) \<subseteq> set (sv_cancelled sv')"
  shows "maps_ok sv'"
  using assms is_cancelled_mono [OF _ assms(6)] by (simp add: maps_ok_def sv_is_cancelled_def)

text \<open>Removing entries from the maps keeps them.\<close>

lemma maps_ok_less:
  assumes "maps_ok sv" "sv_sessions sv' = filter P (sv_sessions sv)" "sv_wormholes sv' = filter Q (sv_wormholes sv)"
    and "sv_relays sv' = filter R (sv_relays sv)" "sv_cancelled sv' = sv_cancelled sv"
    and "sv_closed sv' \<longrightarrow> sv_closed sv \<or> sv_sessions sv' = [] \<and> sv_wormholes sv' = [] \<and> sv_relays sv' = [] \<and>
      sv_is_cancelled sv []"
  shows "maps_ok sv'"
  using assms unfolding maps_ok_def sv_is_cancelled_def by (auto simp: distinct_map_filter)

lemma delete_is_filter: "AList.delete k xs = filter (\<lambda>(k', _). k' \<noteq> k) xs"
  by (auto simp: AList.delete_eq intro!: filter_cong)

lemma keyed_update:
  assumes "distinct (map fst xs)" "\<forall>(k, x) \<in> set xs. P k x" "P i y"
  shows "distinct (map fst (AList.update i y xs)) \<and> (\<forall>(k, x) \<in> set (AList.update i y xs). P k x)"
  using assms AList.distinct_update [of xs i y] set_update [of i y xs] by blast

lemma lans_update:
  assumes "distinct (map f xs)" "f (k, v) \<notin> f ` set xs"
  shows "distinct (map f (AList.update k v xs))"
proof -
  have sub: "f ` set (AList.update k v xs) \<subseteq> insert (f (k, v)) (f ` set xs)" for xs
    using set_update [of k v xs] by auto
  from assms show ?thesis
  proof (induction xs)
    case (Cons x xs)
    then show ?case using sub [of xs] by (cases x) auto
  qed simp
qed

lemma step_maps: "maps_ok sv \<Longrightarrow> maps_ok (service_step sv op)"
proof (induction op)
  case (InsertLan u)
  then show ?case
    using keyed_update [of "sv_sessions sv" "\<lambda>k s. s = lan_session_of k" "new_id ''lan'' u" "lan_session_of (new_id ''lan'' u)"]
    by (simp add: maps_ok_def insert_lan_def lan_session_of_def)
next
  case (InsertRelay sid u)
  let ?k = "new_id ''ssh'' u"
  show ?case
  proof (cases "sv_closed sv \<or> relays_for_lan sid sv \<noteq> []")
    case False
    then have "sid \<notin> (rl_lan_session_id \<circ> snd) ` set (sv_relays sv)"
      by (auto simp: relays_for_lan_def filter_empty_conv)
    then show ?thesis
      using InsertRelay False keyed_update [of "sv_relays sv" "\<lambda>k r. \<exists>sid. r = relay_of sid k" ?k "relay_of sid ?k"]
        lans_update [of "rl_lan_session_id \<circ> snd" "sv_relays sv" ?k "relay_of sid ?k"]
      by (simp add: maps_ok_def insert_relay_def relay_of_def)
  qed (use InsertRelay in \<open>simp add: insert_relay_def relay_of_def\<close>)
next
  case (InsertWormhole sid u joins)
  let ?k = "new_id ''wh'' u"
  show ?case
    using InsertWormhole keyed_update [of "sv_wormholes sv" "\<lambda>k w. \<exists>sid. w = wormhole_of sid k" ?k "wormhole_of sid ?k"]
    by (simp add: maps_ok_def insert_wormhole_def set_decision_def wormhole_of_def)
next
  case DrainLan
  then show ?case
    by (rule maps_ok_less [where P = "\<lambda>_. False" and Q = "\<lambda>_. True" and R = "\<lambda>_. False"]) (simp_all add: section_defs)
next
  case (TakeLan sid)
  then show ?case
    by (rule maps_ok_less [where P = "\<lambda>(k, _). k \<noteq> sid" and Q = "\<lambda>_. True" and R = "\<lambda>(_, r). rl_lan_session_id r \<noteq> sid"])
      (simp_all add: section_defs delete_is_filter)
next
  case (TakeTransport i)
  then show ?case
    by (rule maps_ok_less [where P = "\<lambda>_. True" and Q = "\<lambda>(k, _). k \<noteq> i" and R = "\<lambda>(k, _). k \<noteq> i"])
      (simp_all add: section_defs delete_is_filter)
next
  case (RemoveWormhole i)
  then show ?case
    by (rule maps_ok_less [where P = "\<lambda>_. True" and Q = "\<lambda>(k, _). k \<noteq> i" and R = "\<lambda>_. True"])
      (simp_all add: section_defs delete_is_filter)
next
  case ResetAll
  then show ?case
    by (cases "sv_closed sv", simp add: reset_section_def)
      (rule maps_ok_less [where P = "\<lambda>_. False" and Q = "\<lambda>_. False" and R = "\<lambda>_. False"], simp_all add: section_defs)
next
  case CloseAll
  then show ?case
    by (cases "sv_closed sv \<or> \<not> sv_is_cancelled sv []", force simp: close_section_def)
      (rule maps_ok_less [where P = "\<lambda>_. False" and Q = "\<lambda>_. False" and R = "\<lambda>_. False"], auto simp: section_defs)
qed ((erule maps_ok_frame; force simp: section_defs Let_def split: option.split sum.split offer_wait.split)+)

subsection \<open>The sections that keep the registries of transfers\<close>

lemma sends_ok_frame:
  assumes "sends_ok sv" "sv_sends sv' = sv_sends sv" "set (sv_cancelled sv) \<subseteq> set (sv_cancelled sv')"
  shows "sends_ok sv'"
  using assms registry_ok_mono [OF _ assms(3)] by (simp add: sends_ok_def)

lemma sends_ok_set:
  assumes "sends_ok sv" "registry_ok (sv_cancelled sv) sid (f (sv_sends sv sid))"
  shows "sends_ok (set_sends sid f sv)"
  using assms by (simp add: sends_ok_def set_sends_def)

lemma sends_okD: "sends_ok sv \<Longrightarrow> registry_ok (sv_cancelled sv) sid (sv_sends sv sid)"
  by (simp add: sends_ok_def)

lemma lan_session_of_simps [simp]: "la_session_id (lan_session_of sid) = sid" "la_token (lan_session_of sid) = [sid]"
  by (simp_all add: lan_session_of_def)

lemma fst_wormhole_tokens [simp]: "map fst (wormhole_tokens sid wid ids) = ids"
  by (simp add: wormhole_tokens_def o_def)

lemma step_sends: "sends_ok sv \<Longrightarrow> sends_ok (service_step sv op)"
proof (induction op)
  case (CloseSends sid)
  show ?case
  proof (cases "sv_is_cancelled sv [sid] \<and> \<not> sg_closed (sv_sends sv sid)")
    case True
    let ?sv = "sv\<lparr>sv_cancelled := map snd (sg_cancellations (sv_sends sv sid)) @ sv_cancelled sv\<rparr>"
    have ok: "sends_ok ?sv" using CloseSends by (rule sends_ok_frame) simp_all
    have "is_cancelled (sv_cancelled ?sv) [sid]" using True by (simp add: sv_is_cancelled_def)
    then show ?thesis
      using True registry_ok_close [OF sends_okD [OF ok]] by (simp add: close_sends_def Let_def sends_ok_set [OF ok])
  qed (use CloseSends in \<open>auto simp: close_sends_def\<close>)
next
  case (RegisterSend sid u)
  then show ?case
    using registry_ok_register [OF sends_okD [OF RegisterSend]]
    by (simp add: register_send_def lan_is_closed_def sends_ok_set [OF RegisterSend])
next
  case (FinishSend sid i)
  then show ?case
    using registry_ok_finish [OF sends_okD [OF FinishSend]] by (simp add: finish_send_def sends_ok_set [OF FinishSend])
next
  case (RegisterTokens sid u us)
  then show ?case
    using registry_ok_tokens [OF sends_okD [OF RegisterTokens]]
    by (simp add: register_tokens_def lan_is_closed_def sends_ok_set [OF RegisterTokens])
next
  case (DropGuard sid ids locked)
  show ?case
  proof (cases "ids \<in> set (sg_guards (sv_sends sv sid))")
    case True
    show ?thesis
      unfolding service_step.simps if_P [OF True] drop_guard_def
      using registry_ok_drop [OF sends_okD [OF DropGuard] True]
      by (intro sends_ok_set [OF DropGuard]) (cases "ids = []"; simp)
  qed (use DropGuard in simp)
next
  case (LateRemoval sid ids)
  then show ?case
    using registry_ok_late [OF sends_okD [OF LateRemoval]] by (simp add: late_removal_def sends_ok_set [OF LateRemoval])
next
  case CloseAll
  then show ?case by (elim sends_ok_frame) (simp_all add: close_section_def drain_all_def)
qed ((erule sends_ok_frame; force simp: section_defs Let_def split: option.split sum.split offer_wait.split)+)

lemma step_service_ok: "service_ok sv \<Longrightarrow> service_ok (service_step sv op)"
  by (simp add: service_ok_def step_maps step_sends)

interpretation service: machine "\<lambda>sv. sv = new_service" "\<lambda>sv op sv'. sv' = service_step sv op" service_ok
  by unfold_locales (simp_all add: new_service_ok step_service_ok)

end
