(* ===== verification/ServiceRuns.thy ===== *)
theory ServiceRuns
  imports ServiceProps
begin

text \<open>
  Every request is a run of the machine: whatever other tasks do in the pauses of a request, the state it leaves
  is reached by steps. So the invariant of the machine holds after it, and what the steps only let grow (the
  cancelled tokens, the closed registries) has grown.
\<close>

section \<open>Runs\<close>

definition steps :: "service \<Rightarrow> service \<Rightarrow> bool" where
  "steps sv sv' \<longleftrightarrow> (\<exists>ops. sv' = run_events service_step sv ops)"

lemma steps_refl [simp]: "steps sv sv"
  unfolding steps_def by (rule exI [of _ "[]"]) simp

lemma steps_trans: "steps a b \<Longrightarrow> steps b c \<Longrightarrow> steps a c"
  unfolding steps_def by (metis run_events_append)

lemma steps_step: "steps sv (service_step sv op)"
  unfolding steps_def by (rule exI [of _ "[op]"]) simp

text \<open>What one step keeps, a run keeps.\<close>

lemma steps_keep:
  assumes "steps sv sv'" "P sv" "\<And>sv op. P sv \<Longrightarrow> P (service_step sv op)"
  shows "P sv'"
proof -
  obtain ops where "sv' = run_events service_step sv ops" using assms(1) by (auto simp: steps_def)
  then show ?thesis using run_events_inv [of P sv ops service_step] assms(2,3) by simp
qed

lemma steps_ok: "steps sv sv' \<Longrightarrow> service_ok sv \<Longrightarrow> service_ok sv'"
  by (erule steps_keep) (simp_all add: step_service_ok)

lemma reachable_steps_iff:
  "reachable (\<lambda>sv. sv = new_service) (\<lambda>sv op sv'. sv' = service_step sv op) sv \<longleftrightarrow> steps new_service sv"
  by (simp add: reachable_run_events_iff steps_def)

text \<open>Cancelled tokens stay cancelled, closed registries and a closed service stay closed.\<close>

lemma step_cancelled: "set (sv_cancelled sv) \<subseteq> set (sv_cancelled (service_step sv op))"
  by (induction op) (auto simp: section_defs Let_def split: option.split sum.split offer_wait.split)

lemma step_sends_closed: "sg_closed (sv_sends sv sid) \<Longrightarrow> sg_closed (sv_sends (service_step sv op) sid)"
  by (induction op) (auto simp: section_defs Let_def split: option.split sum.split offer_wait.split)

lemma step_closed: "sv_closed sv \<Longrightarrow> sv_closed (service_step sv op)"
  by (induction op) (simp_all add: section_defs Let_def split: option.split sum.split offer_wait.split)

lemma steps_cancelled: "steps sv sv' \<Longrightarrow> sv_is_cancelled sv t \<Longrightarrow> sv_is_cancelled sv' t"
  by (erule steps_keep) (auto simp: sv_is_cancelled_def intro: is_cancelled_mono [OF _ step_cancelled])

lemma steps_sends_closed: "steps sv sv' \<Longrightarrow> sg_closed (sv_sends sv sid) \<Longrightarrow> sg_closed (sv_sends sv' sid)"
  by (erule steps_keep) (simp_all add: step_sends_closed)

lemma steps_closed: "steps sv sv' \<Longrightarrow> sv_closed sv \<Longrightarrow> sv_closed sv'"
  by (erule steps_keep) (simp_all add: step_closed)

section \<open>Programs that are runs\<close>

text \<open>From \<open>sv\<close> the program leaves a state that is reached by steps, where \<open>Q\<close> holds of its result.\<close>

definition run_to :: "service \<Rightarrow> (service, 'a) action \<Rightarrow> ('a result \<Rightarrow> service \<Rightarrow> bool) \<Rightarrow> bool" where
  "run_to sv m Q \<longleftrightarrow> (case m sv of (r, sv') \<Rightarrow> steps sv sv' \<and> Q r sv')"

lemma run_okD: "run_to sv m Q \<Longrightarrow> m sv = (r, sv') \<Longrightarrow> steps sv sv' \<and> Q r sv'"
  by (simp add: run_to_def)

lemma run_ok_mono: "run_to sv m P \<Longrightarrow> (\<And>r sv'. steps sv sv' \<Longrightarrow> P r sv' \<Longrightarrow> Q r sv') \<Longrightarrow> run_to sv m Q"
  by (auto simp: run_to_def case_prod_unfold)

lemma run_ok_ret: "Q (Inr x) sv \<Longrightarrow> run_to sv (io_ret x) Q"
  by (simp add: run_to_def io_ret_def)

lemma run_ok_throw: "Q (Inl e) sv \<Longrightarrow> run_to sv (io_throw e) Q"
  by (simp add: run_to_def io_throw_def)

lemma run_ok_lift: "Q r sv \<Longrightarrow> run_to sv (io_lift r) Q"
  by (simp add: run_to_def io_lift_def)

lemma run_ok_match:
  assumes "run_to sv m P"
    and "\<And>x sv'. steps sv sv' \<Longrightarrow> P (Inr x) sv' \<Longrightarrow> run_to sv' (f x) Q"
    and "\<And>e sv'. steps sv sv' \<Longrightarrow> P (Inl e) sv' \<Longrightarrow> run_to sv' (g e) Q"
  shows "run_to sv (io_match m f g) Q"
proof -
  obtain r sv' where m: "m sv = (r, sv')" by force
  with assms(1) have s: "steps sv sv'" and p: "P r sv'" by (simp_all add: run_to_def)
  show ?thesis
  proof (cases r)
    case (Inl e)
    with assms(3) [OF s] p show ?thesis
      using m steps_trans [OF s] by (auto simp: run_to_def io_match_def case_prod_unfold)
  next
    case (Inr x)
    with assms(2) [OF s] p show ?thesis
      using m steps_trans [OF s] by (auto simp: run_to_def io_match_def case_prod_unfold)
  qed
qed

lemma run_ok_bind:
  assumes "run_to sv m P" "\<And>x sv'. steps sv sv' \<Longrightarrow> P (Inr x) sv' \<Longrightarrow> run_to sv' (f x) Q"
    and "\<And>e sv'. steps sv sv' \<Longrightarrow> P (Inl e) sv' \<Longrightarrow> Q (Inl e) sv'"
  shows "run_to sv (io_bind m f) Q"
  unfolding io_bind_def by (rule run_ok_match [OF assms(1,2)]) (auto intro: run_ok_throw assms(3))

lemmas run_ok_then = run_ok_bind [where f = "\<lambda>_. k" for k, folded io_then_def]

lemma run_ok_reject: "(c \<Longrightarrow> Q (Inl e) sv) \<Longrightarrow> (\<not> c \<Longrightarrow> run_to sv k Q) \<Longrightarrow> run_to sv (io_reject_if c e k) Q"
  by (simp add: io_reject_if_def run_ok_throw)

lemma run_ok_throw_some: "(\<And>r. Q r sv) \<Longrightarrow> run_to sv (throw_some e) Q"
  by (cases e) (auto simp: throw_some_def intro: run_ok_ret run_ok_throw)

text \<open>A section that is a step, and a function of the state that is one.\<close>

lemma run_ok_section: "steps sv (snd (m sv)) \<Longrightarrow> Q (fst (m sv)) (snd (m sv)) \<Longrightarrow> run_to sv m Q"
  by (simp add: run_to_def case_prod_unfold)

lemma run_ok_section_bind:
  assumes "steps sv (snd (m sv))" "\<And>x. fst (m sv) = Inr x \<Longrightarrow> run_to (snd (m sv)) (g x) Q"
    and "\<And>e. fst (m sv) = Inl e \<Longrightarrow> Q (Inl e) (snd (m sv))"
  shows "run_to sv (io_bind m g) Q"
proof -
  have "run_to sv m (\<lambda>r sv'. r = fst (m sv) \<and> sv' = snd (m sv))"
    by (rule run_ok_section) (use assms(1) in simp_all)
  then show ?thesis by (rule run_ok_bind) (use assms(2,3) in auto)
qed

lemma run_ok_locked_bind:
  assumes "steps sv (snd (f sv))" "run_to (snd (f sv)) (g (fst (f sv))) Q"
  shows "run_to sv (io_bind (locked f) g) Q"
  by (rule run_ok_section_bind) (use assms in \<open>simp_all add: locked_def case_prod_unfold\<close>)

lemma run_ok_modify_then:
  assumes "steps sv (f sv)" "run_to (f sv) k Q"
  shows "run_to sv (io_then (modify f) k) Q"
  unfolding io_then_def by (rule run_ok_section_bind) (use assms in \<open>simp_all add: modify_def\<close>)

text \<open>Other tasks only make steps.\<close>

definition tasks_ok :: "tasks \<Rightarrow> bool" where
  "tasks_ok tasks \<longleftrightarrow> (\<forall>i n sv. steps sv (tasks i n sv))"

lemma run_ok_pause: "tasks_ok tasks \<Longrightarrow> (\<And>sv'. steps sv sv' \<Longrightarrow> Q (Inr ()) sv') \<Longrightarrow> run_to sv (pause (tasks i n)) Q"
  by (simp add: run_to_def pause_def tasks_ok_def)

section \<open>Closing\<close>

lemma cancel_is_step: "steps sv (cancel_token t sv)"
  using steps_step [of sv "CancelToken t"] by simp

lemma run_ok_cancel:
  assumes "\<And>sv'. sv_is_cancelled sv' t \<Longrightarrow> steps sv sv' \<Longrightarrow> run_to sv' k Q"
  shows "run_to sv (io_then (modify (cancel_token t)) k) Q"
  by (rule run_ok_modify_then) (auto intro: assms cancel_is_step)

lemma run_ok_pause_then:
  assumes "tasks_ok tasks" "\<And>sv'. steps sv sv' \<Longrightarrow> run_to sv' k Q"
  shows "run_to sv (io_then (pause (tasks i n)) k) Q"
  by (rule run_ok_then [OF run_ok_pause [OF assms(1), where Q = "\<lambda>r _. r = Inr ()"]]) (auto intro: assms(2))

lemma close_relay_run:
  "tasks_ok tasks \<Longrightarrow> run_to sv (close_relay tasks sh r) (\<lambda>_ sv'. sv_is_cancelled sv' (rl_token r))"
  unfolding close_relay_def
  by (rule run_ok_cancel, rule run_ok_pause_then, assumption, rule run_ok_throw_some) (rule steps_cancelled)

lemma wormhole_close_run:
  assumes "tasks_ok tasks"
  shows "run_to sv (wormhole_close tasks sh w) (\<lambda>_ sv'. sv_is_cancelled sv' (wh_token w))"
  unfolding wormhole_close_def
proof (rule run_ok_cancel, rule run_ok_pause_then [OF assms])
  fix a b assume a: "sv_is_cancelled a (wh_token w)" "steps a b"
  have d: "steps b (set_decision (wh_session_id w) (\<lambda>c. c\<lparr>dc_sender := False\<rparr>) b)"
    using steps_step [of b "DropSender (wh_session_id w)"] by simp
  have c: "sv_is_cancelled sv' (wh_token w)" if "steps b sv'" for sv'
    using steps_cancelled [OF that] steps_cancelled [OF a(2,1)] by blast
  show "run_to b (io_then (modify (set_decision (wh_session_id w) (\<lambda>c. c\<lparr>dc_sender := False\<rparr>)))
      (io_then (pause (tasks (wh_session_id w) 1)) (throw_some (sh_wormhole sh (wh_session_id w)))))
      (\<lambda>_ sv'. sv_is_cancelled sv' (wh_token w))"
    by (rule run_ok_modify_then [where f = "set_decision (wh_session_id w) (\<lambda>c. c\<lparr>dc_sender := False\<rparr>)", OF d])
      (auto intro!: run_ok_pause_then [OF assms] run_ok_throw_some intro: c steps_trans d)
qed

text \<open>A LAN session that is closed: its token is cancelled and its registry takes no transfer any more.\<close>

definition lan_shut :: "string \<Rightarrow> service \<Rightarrow> bool" where
  "lan_shut sid sv \<longleftrightarrow> sv_is_cancelled sv [sid] \<and> sg_closed (sv_sends sv sid)"

lemma lan_shut_steps: "steps sv sv' \<Longrightarrow> lan_shut sid sv \<Longrightarrow> lan_shut sid sv'"
  by (simp add: lan_shut_def steps_cancelled steps_sends_closed)

lemma lan_close_run:
  assumes "tasks_ok tasks"
  shows "run_to sv (lan_close tasks sh (lan_session_of sid)) (\<lambda>_ sv'. lan_shut sid sv')"
  unfolding lan_close_def lan_session_of_simps
proof (rule run_ok_cancel, rule run_ok_pause_then [OF assms])
  fix a b assume a: "sv_is_cancelled a [sid]" "steps a b"
  let ?s = "lan_session_of sid"
  have cancelled: "sv_is_cancelled b [sid]" by (rule steps_cancelled [OF a(2,1)])
  have close: "steps b (snd (close_sends ?s b))"
    using steps_step [of b "CloseSends sid"] cancelled by simp
  then have shut: "lan_shut sid (snd (close_sends ?s b))"
    using steps_cancelled [OF close cancelled] by (simp add: lan_shut_def close_sends_def set_sends_def Let_def)
  show "run_to b (io_bind (locked (close_sends ?s)) (case_option (io_ret ()) (\<lambda>handles.
      io_then (pause (tasks sid 1)) (throw_some (first_error (sh_session sh sid)))))) (\<lambda>_ sv'. lan_shut sid sv')"
    by (rule run_ok_locked_bind [where f = "close_sends ?s", OF close])
      (auto simp: shut split: option.split intro!: run_ok_ret run_ok_pause_then [OF assms] run_ok_throw_some
        intro: lan_shut_steps)
qed

text \<open>A list is closed whatever the outcomes: what every closing leaves, if steps keep it, holds of all.\<close>

lemma close_each_run:
  assumes "\<And>x sv. x \<in> set xs \<Longrightarrow> run_to sv (close x) (\<lambda>_ sv'. P x sv')"
    and "\<And>x sv sv'. steps sv sv' \<Longrightarrow> P x sv \<Longrightarrow> P x sv'"
  shows "run_to sv (close_each close xs first) (\<lambda>_ sv'. \<forall>x \<in> set xs. P x sv')"
  using assms(1)
proof (induction xs arbitrary: sv first)
  case Nil
  show ?case by (auto intro: run_ok_throw_some)
next
  case (Cons x xs)
  have rest: "run_to sv' (close_each close xs first') (\<lambda>_ sv'. \<forall>y \<in> set (x # xs). P y sv')" if "P x sv'" for sv' first'
    by (rule run_ok_mono [OF Cons.IH]) (use Cons.prems assms(2) [OF _ that] in auto)
  show ?case
    unfolding close_each.simps by (rule run_ok_match [OF Cons.prems]) (simp, (erule rest)+)
qed

end
