(* ===== verification/ServiceSafe.thy ===== *)
theory ServiceSafe
  imports ServiceRuns Samples
begin

text \<open>
  What the requests promise: each one is a run of the machine and is answered, a transfer can be cancelled
  exactly while it runs, a stopped session and a closed service stay dead.
\<close>

section \<open>Every request is a run\<close>

abbreviation runs :: "service \<Rightarrow> (service, 'a) action \<Rightarrow> bool" where
  "runs sv m \<equiv> run_to sv m (\<lambda>_ _. True)"

lemma runs_of: "run_to sv m Q \<Longrightarrow> runs sv m"
  by (rule run_ok_mono) simp_all

lemma runs_bind: "runs sv m \<Longrightarrow> (\<And>x sv'. steps sv sv' \<Longrightarrow> m sv = (Inr x, sv') \<Longrightarrow> runs sv' (f x)) \<Longrightarrow> runs sv (io_bind m f)"
  by (rule run_ok_section_bind) (auto simp: run_to_def case_prod_unfold prod_eq_iff)

lemma runs_then: "runs sv m \<Longrightarrow> (\<And>sv'. steps sv sv' \<Longrightarrow> runs sv' k) \<Longrightarrow> runs sv (io_then m k)"
  unfolding io_then_def by (rule runs_bind)

lemma runs_match:
  "runs sv m \<Longrightarrow> (\<And>x sv'. steps sv sv' \<Longrightarrow> runs sv' (f x)) \<Longrightarrow> (\<And>e sv'. steps sv sv' \<Longrightarrow> runs sv' (g e)) \<Longrightarrow>
    runs sv (io_match m f g)"
  by (rule run_ok_match)

lemma runs_simps [simp]: "runs sv (io_ret x)" "runs sv (io_throw e)" "runs sv (io_lift r)" "runs sv (throw_some err)"
  by (simp_all add: run_ok_ret run_ok_throw run_ok_lift run_ok_throw_some)

lemma runs_reject: "(\<not> c \<Longrightarrow> runs sv k) \<Longrightarrow> runs sv (io_reject_if c e k)"
  by (rule run_ok_reject) auto

lemma runs_pause: "tasks_ok tasks \<Longrightarrow> runs sv (pause (tasks i n))"
  by (rule run_ok_pause) auto

lemma runs_modify: "steps sv (f sv) \<Longrightarrow> runs sv (modify f)"
  by (simp add: run_to_def modify_def)

lemma runs_locked: "steps sv (snd (f sv)) \<Longrightarrow> runs sv (locked f)"
  by (simp add: run_to_def locked_def case_prod_unfold)

lemma locked_eq: "locked f sv = (Inr x, sv') \<longleftrightarrow> f sv = (x, sv')"
  by (simp add: locked_def case_prod_unfold prod_eq_iff)

lemma emit_is_step: "steps sv (emit_session_event t sid name data sv)"
  using steps_step [of sv "OnEvents (Emit e)" for e] by (auto simp: emit_session_event_def queue_step_def)

lemma transfer_event_is_step: "steps sv (emit_transfer_event t sid ev sv)"
  by (cases ev) (simp_all add: emit_is_step)

text \<open>What a service at hand holds, by the invariant.\<close>

lemma registered_shape:
  assumes "service_ok sv"
  shows "map_of (sv_sessions sv) sid = Some s \<Longrightarrow> s = lan_session_of sid"
    and "s \<in> set (map snd (sv_sessions sv)) \<Longrightarrow> \<exists>sid. s = lan_session_of sid"
proof -
  have all: "\<forall>(k, s) \<in> set (sv_sessions sv). s = lan_session_of k"
    using assms by (simp add: service_ok_def maps_ok_def)
  show "s = lan_session_of sid" if "map_of (sv_sessions sv) sid = Some s"
    using all map_of_SomeD [OF that] by blast
  show "\<exists>sid. s = lan_session_of sid" if "s \<in> set (map snd (sv_sessions sv))"
    using that all by (auto simp: image_iff) blast
qed

lemma find_lan_run:
  assumes "service_ok sv"
  shows "run_to sv (find_lan sid) (\<lambda>r sv'. sv' = sv \<and> (\<forall>s. r = Inr s \<longrightarrow> s = lan_session_of sid \<and> sid \<in> fst ` set (sv_sessions sv)))"
proof -
  have "s = lan_session_of sid \<and> sid \<in> fst ` set (sv_sessions sv)" if "map_of (sv_sessions sv) sid = Some s" for s
    using registered_shape(1) [OF assms that] map_of_SomeD [OF that] by force
  then show ?thesis
    by (intro run_ok_section) (auto simp: find_lan_def ok_or_def split: option.splits)
qed

lemma with_lan:
  assumes "service_ok sv" "sid \<in> fst ` set (sv_sessions sv) \<Longrightarrow> runs sv (f (lan_session_of sid))"
  shows "runs sv (io_bind (find_lan sid) f)"
  by (rule run_ok_bind [OF find_lan_run [OF assms(1)]]) (use assms(2) in auto)

lemma section_steps:
  "steps sv (snd (drain_lan sv))" "steps sv (snd (take_lan sid sv))"
  "steps sv (snd (insert_lan (lan_session_of (new_id ''lan'' u)) sv))"
  "steps sv (cancel_token t sv)"
  "steps sv (snd (insert_relay (relay_of sid (new_id ''ssh'' u)) sv))"
  "steps sv (snd (insert_wormhole (wormhole_of sid (new_id ''wh'' u)) joins sv))"
  "steps sv (snd (take_transport i sv))" "steps sv (snd (take_sender wid sv))"
  "steps sv (snd (send_decision wid d sv))" "steps sv (set_paused sid b sv)" "steps sv (snd (reset_section sv))"
  "sv_is_cancelled sv [] \<Longrightarrow> steps sv (snd (close_section sv))"
  "steps sv (set_events clear_queue sv)" "steps sv (set_events close_queue sv)"
  using steps_step [of sv DrainLan] steps_step [of sv "TakeLan sid"] steps_step [of sv "InsertLan u"]
    steps_step [of sv "CancelToken t"] steps_step [of sv "InsertRelay sid u"] steps_step [of sv "InsertWormhole sid u joins"]
    steps_step [of sv "TakeTransport i"] steps_step [of sv "TakeSender wid"] steps_step [of sv "SendDecision wid d"]
    steps_step [of sv "SetPaused sid b"] steps_step [of sv ResetAll] steps_step [of sv CloseAll]
    steps_step [of sv "OnEvents Clear"] steps_step [of sv "OnEvents Close"]
  by (simp_all add: queue_step_def)

lemma find_is_nothing: "snd (find_relay rid sv) = sv" "snd (find_wormhole wid sv) = sv" "snd (ensure_open sv) = sv"
  by (simp_all add: find_relay_def find_wormhole_def ensure_open_def)

lemma runs_find: "runs sv (find_relay rid)" "runs sv (find_wormhole wid)" "runs sv ensure_open"
  by (simp_all add: run_to_def case_prod_unfold find_is_nothing)

lemma close_sessions_run:
  assumes "tasks_ok tasks" "\<forall>s \<in> set ss. \<exists>sid. s = lan_session_of sid"
  shows "run_to sv (close_each (lan_close tasks sh) ss first) (\<lambda>_ sv'. \<forall>s \<in> set ss. lan_shut (la_session_id s) sv')"
  by (rule close_each_run) (use assms lan_close_run in \<open>fastforce intro: lan_shut_steps\<close>)+

lemma close_relays_run:
  assumes "tasks_ok tasks"
  shows "run_to sv (close_each (close_relay tasks sh) rs first) (\<lambda>_ sv'. \<forall>r \<in> set rs. sv_is_cancelled sv' (rl_token r))"
  by (rule close_each_run) (auto intro: close_relay_run [OF assms] steps_cancelled)

lemma close_wormholes_run:
  assumes "tasks_ok tasks"
  shows "run_to sv (close_each (wormhole_close tasks sh) ws first) (\<lambda>_ sv'. \<forall>w \<in> set ws. sv_is_cancelled sv' (wh_token w))"
  by (rule close_each_run) (auto intro: wormhole_close_run [OF assms] steps_cancelled)

text \<open>What the request meets outside only makes steps, and a new id is new where it is registered.\<close>

definition outside_ok :: "outside \<Rightarrow> service \<Rightarrow> bool" where
  "outside_ok W sv \<longleftrightarrow>
     tasks_ok (os_tasks W) \<and>
     (\<forall>s p sv. runs sv (os_plan W s p)) \<and> (\<forall>w m ps sv. runs sv (os_create W w m ps)) \<and>
     (\<forall>p sv. runs sv (os_check W p)) \<and> (\<forall>r sv. runs sv (os_make_code W r)) \<and> (\<forall>r c sv. runs sv (os_join W r c)) \<and>
     (\<forall>s p. fresh_ids [new_id ''send'' (os_uuid W)] (sv_sends (snd (os_plan W s p sv)) (la_session_id s)))"

lemma stop_lan_runs:
  assumes "tasks_ok tasks" "service_ok sv"
  shows "runs sv (stop_lan tasks sh sid)"
  unfolding stop_lan_def
proof (rule runs_reject, rule run_ok_locked_bind [where f = "take_lan sid", OF section_steps(2)])
  let ?s = "map_of (sv_sessions sv) sid"
  have "runs a (case ?s of Some s \<Rightarrow> lan_close tasks sh s | None \<Rightarrow> io_ret ())" for a
  proof (cases ?s)
    case (Some s)
    then show ?thesis
      using registered_shape(1) [OF assms(2) Some] by (simp add: runs_of [OF lan_close_run [OF assms(1)]])
  qed simp
  then show "runs (snd (take_lan sid sv)) (case fst (take_lan sid sv) of (session, relays) \<Rightarrow>
      io_then (close_each (close_relay tasks sh) relays None)
      (io_then (case session of Some s \<Rightarrow> lan_close tasks sh s | None \<Rightarrow> io_ret ())
      (io_ret (JObj [(''stopped'', JBool (session \<noteq> None))]))))"
    by (auto simp: take_lan_def intro!: runs_then runs_of [OF close_relays_run [OF assms(1)]])
qed

lemma runs_ignore: "runs sv m \<Longrightarrow> runs sv (ignore_error m)"
  by (simp add: ignore_error_def runs_match)

lemma insert_lan_runs:
  assumes "tasks_ok tasks"
  shows "runs sv (io_bind (locked (insert_lan (lan_session_of (new_id ''lan'' u)))) (\<lambda>inserted.
      if \<not> inserted then io_then (lan_close tasks sh (lan_session_of (new_id ''lan'' u))) (io_throw service_closed)
      else io_then (modify (emit_peers D (lan_session_of (new_id ''lan'' u)))) (io_ret v)))"
  by (rule runs_bind, rule runs_locked, rule section_steps)
    (auto simp: emit_peers_def intro!: runs_then runs_modify emit_is_step runs_of [OF lan_close_run [OF assms]])

lemma start_lan_runs:
  assumes "tasks_ok tasks" "service_ok sv"
  shows "runs sv (start_lan E io_text D tasks sh uuid params)"
proof -
  have lans: "runs a (close_each (lan_close tasks sh) (map snd (sv_sessions sv)) None)" for a
    using registered_shape(2) [OF assms(2)] by (intro runs_of [OF close_sessions_run [OF assms(1)]]) blast
  show ?thesis
    unfolding start_lan_def Let_def
    by (rule run_ok_locked_bind [where f = drain_lan, OF section_steps(1)])
      (auto simp: drain_lan_def lan_status_def split: option.split sum.split
        intro!: runs_then runs_bind runs_ignore runs_reject runs_pause [OF assms(1)] runs_modify emit_is_step
          insert_lan_runs [OF assms(1)] lans runs_of [OF close_relays_run [OF assms(1)]])
qed

lemma lan_send_runs:
  assumes "service_ok sv" "\<And>s p sv. runs sv (plan s p)"
    and "\<And>s p. fresh_ids [new_id ''send'' uuid] (sv_sends (snd (plan s p sv)) (la_session_id s))"
  shows "runs sv (lan_send plan uuid params)"
  unfolding lan_send_def
proof (rule with_lan [OF assms(1)], rule runs_reject, rule runs_bind [OF assms(2)])
  let ?s = "lan_session_of (ls_session_id params)" and ?i = "new_id ''send'' uuid"
  fix t a assume "plan ?s params sv = (Inr t, a)"
  then have "fresh_ids [?i] (sv_sends a (ls_session_id params))" using assms(3) [of ?s params] by simp
  then have "steps a (snd (register_send ?s ?i a))"
    using steps_step [of a "RegisterSend (ls_session_id params) uuid"] by simp
  then have "runs a (register_send ?s ?i)" by (simp add: run_to_def case_prod_unfold)
  then show "runs a (io_then (register_send ?s ?i) (io_ret (JObj [(''send_id'', JStr ?i), (''transfer_id'', JStr t)])))"
    by (rule runs_then) simp
qed

lemma cancel_session_runs:
  assumes "tasks_ok tasks"
  shows "runs sv (cancel_transport_session tasks sh i)"
  unfolding cancel_transport_session_def
  by (rule runs_reject, rule run_ok_locked_bind [where f = "take_transport i", OF section_steps(7)])
    (auto simp: take_transport_def split: option.split
      intro!: runs_then runs_of [OF wormhole_close_run [OF assms]] runs_of [OF close_relay_run [OF assms]])

lemma decision_runs:
  assumes "tasks_ok tasks"
  shows "runs sv (send_wormhole_decision tasks wid d)"
  unfolding send_wormhole_decision_def
  by (intro runs_bind runs_then runs_pause [OF assms] runs_find) (simp_all add: run_to_def case_prod_unfold section_steps)

lemma ssh_listen_runs:
  assumes "tasks_ok tasks" "service_ok sv"
  shows "runs sv (ssh_listen E tasks sh identity started uuid sid)"
proof -
  let ?relay = "relay_of sid (new_id ''ssh'' uuid)"
  note insert = section_steps(5) [of _ sid uuid, unfolded relay_of_def]
  show ?thesis
    unfolding ssh_listen_def Let_def
    by (rule with_lan [OF assms(2)])
      (auto simp: insert intro!: runs_bind runs_locked runs_reject runs_then runs_pause [OF assms(1)]
        runs_of [OF close_relay_run [OF assms(1)]])
qed

lemma insert_wormhole_runs: "runs sv (insert_wormhole (wormhole_session_of (lan_session_of sid) (new_id ''wh'' u)) joins)"
  using section_steps(6) [of sv sid u joins] by (simp add: run_to_def case_prod_unfold wormhole_session_of_def wormhole_of_def)

lemma run_request_runs:
  assumes "outside_ok W sv" "service_ok sv"
  shows "runs sv (run_request E W r)"
proof -
  note W = assms(1) [unfolded outside_ok_def]
  have tasks: "tasks_ok (os_tasks W)" using W by blast
  have gate: "runs sv (lan_receive_gate b m s)" for b m s
    unfolding lan_receive_gate_def
    by (rule with_lan [OF assms(2)])
      (auto simp: lan_status_def section_steps intro!: runs_then runs_bind runs_modify runs_locked emit_is_step)
  show ?thesis
  proof (cases r)
    case (LanStart p)
    then show ?thesis by (simp add: start_lan_runs [OF tasks assms(2)])
  next
    case (LanStop s)
    then show ?thesis by (simp add: stop_lan_runs [OF tasks assms(2)])
  next
    case (LanPeers s refresh)
    then show ?thesis unfolding LanPeers run_request.simps lan_peers_def
      by (intro with_lan [OF assms(2)]) (auto intro!: runs_bind runs_then runs_locked runs_modify emit_is_step)
  next
    case (LanSend p)
    then show ?thesis using W by (simp add: lan_send_runs [OF assms(2)])
  next
    case (LanSendCancel s i)
    then show ?thesis unfolding LanSendCancel run_request.simps lan_send_cancel_def
      by (intro with_lan [OF assms(2)]) (auto simp: registered_token_def intro!: runs_bind runs_then runs_reject runs_locked runs_pause [OF tasks]
        runs_modify section_steps split: option.split)
  next
    case (WormholeCreate s p w m)
    then show ?thesis using W unfolding WormholeCreate run_request.simps wormhole_create_def Let_def
      by (intro with_lan [OF assms(2)]) (auto intro!: runs_bind runs_then insert_wormhole_runs)
  next
    case (WormholeJoin s c w m)
    then show ?thesis unfolding WormholeJoin run_request.simps wormhole_join_def Let_def
      by (intro with_lan [OF assms(2)]) (auto intro!: runs_reject runs_then insert_wormhole_runs)
  next
    case (SshPairCreate s)
    then show ?thesis using W by (auto simp: ssh_pair_create_def intro!: runs_bind runs_find)
  next
    case (SshPairJoin s c)
    then show ?thesis using W by (auto simp: ssh_pair_join_def intro!: runs_bind runs_reject runs_find)
  qed (use W in \<open>auto simp: lan_receive_pause_def lan_receive_resume_def gate wormhole_accept_def wormhole_reject_def
      ssh_listen_runs [OF tasks assms(2)] cancel_session_runs [OF tasks] decision_runs [OF tasks] intro!: runs_then\<close>)
qed

section \<open>Answers\<close>

lemma handle_runs:
  assumes "outside_ok W sv" "service_ok sv"
  shows "runs sv (handle E W method params)"
  unfolding handle_def
  by (cases "sv_closed sv"; cases "parse_request method params")
    (use run_request_runs [OF assms] in
      \<open>simp_all add: run_to_def io_then_def io_bind_def io_match_def io_lift_def io_throw_def ensure_open_def\<close>)

text \<open>The envelope of a text: its id, its method and its parameters.\<close>

definition envelope :: "crates \<Rightarrow> string \<Rightarrow> (string \<times> string \<times> jvalue) option" where
  "envelope E request_text =
     (if MAX_CONTROL_FRAME < length request_text then None
      else case bind_r (from_slice E (str_bytes request_text)) as_json_request of Inr r \<Rightarrow> Some r | Inl _ \<Rightarrow> None)"

definition answer_id :: "crates \<Rightarrow> string \<Rightarrow> string" where
  "answer_id E request_text = (case envelope E request_text of Some (i, _, _) \<Rightarrow> i | None \<Rightarrow> [])"

lemma encode_response_parses:
  "json_roundtrip E \<Longrightarrow> json_parse E (str_bytes (encode_response E i r)) = Some (response_json i r)"
  by (simp add: encode_response_def to_vec_def json_roundtrip_def)

text \<open>What \<open>call_json\<close> answers: the response that is printed, and the state after it.\<close>

lemma call_json_cases:
  obtains (bad) err where "call_json E W t sv = (encode_response E (answer_id E t) (Inl err), sv)"
      "envelope E t = None \<or> (\<exists>i m p. envelope E t = Some (i, m, p) \<and> (i = [] \<or> m = []))"
  | (handled) i m p r sv' where "envelope E t = Some (i, m, p)" "i \<noteq> [] \<and> m \<noteq> []" "handle E W m p sv = (r, sv')"
      "call_json E W t sv =
         (encode_response E (answer_id E t) (case r of Inr v \<Rightarrow> Inr v | Inl e \<Rightarrow> Inl (error_text (os_io_text W) e)), sv')"
proof (cases "envelope E t")
  case None
  then show thesis
    using bad [of "''invalid request: request is too large''"] bad [of "''invalid request: ''"]
    by (cases "MAX_CONTROL_FRAME < length t")
      (auto simp: call_json_def envelope_def answer_id_def Let_def split: if_splits sum.splits)
next
  case (Some x)
  obtain i m p where x: "x = (i, m, p)" by (cases x)
  have dec: "\<not> MAX_CONTROL_FRAME < length t" "bind_r (from_slice E (str_bytes t)) as_json_request = Inr (i, m, p)"
    using Some x by (auto simp: envelope_def split: if_splits sum.splits)
  have id: "answer_id E t = i" by (simp add: answer_id_def Some x)
  show thesis
  proof (cases "i = [] \<or> m = []")
    case True
    then show thesis using bad [of "''id and method are required''"] Some x dec by (simp add: call_json_def id Let_def)
  next
    case False
    obtain r sv' where h: "handle E W m p sv = (r, sv')" by force
    show thesis
      using handled [OF Some [unfolded x] _ h] False dec h by (cases r) (simp_all add: call_json_def id Let_def)
  qed
qed

subsection \<open>An example\<close>

text \<open>A LAN session with a transfer, and other tasks that try to start another one in every pause.\<close>

definition busy_service :: service where
  "busy_service = run_events service_step new_service [InsertLan ''1'', RegisterSend ''lan-1'' ''a'']"

definition busy_tasks :: tasks where
  "busy_tasks i n sv = service_step sv (RegisterSend ''lan-1'' ''b'')"

definition quiet_shutdown :: shutdown where
  "quiet_shutdown = \<lparr>sh_session = \<lambda>_. [], sh_wormhole = \<lambda>_. None, sh_relay = \<lambda>_. None\<rparr>"

definition busy_outside :: outside where
  "busy_outside =
     \<lparr>os_io_text = \<lambda>_. [], os_core_version = ''1.0.0'',
      os_device = \<lparr>ld_generate = \<lambda>_ _. Inl Cancelled, ld_syntax = \<lparr>ip_show = \<lambda>_. [], ip_parse = \<lambda>_. None\<rparr>,
        ld_lookup_host = \<lambda>_ _. Inr [], ld_bind = \<lambda>_. Inl Cancelled, ld_discover = \<lambda>_. Inr (), ld_peers = \<lambda>_. [],
        ld_relay_peers = \<lambda>_. []\<rparr>,
      os_tasks = busy_tasks, os_shutdown = quiet_shutdown, os_uuid = ''c'', os_plan = \<lambda>_ _. io_ret ''t'',
      os_create = \<lambda>_ _ _. io_ret ''7-guitarist'', os_expires_at = \<lambda>_. [], os_check = \<lambda>_. io_ret JNull,
      os_identity = \<lambda>_. \<lparr>id_instance_id = [], id_peer_name = [], id_tls_certificate = [], id_tls_private_key = [],
        id_signing_key = [], id_certificate_fingerprint = []\<rparr>,
      os_started = \<lambda>_ _ _ _. Inl Cancelled, os_make_code = \<lambda>_. io_ret ''1'', os_join = \<lambda>_ _. io_throw Cancelled\<rparr>"

definition stop_request :: jvalue where
  "stop_request = JObj [(''id'', JStr ''7''), (''method'', JStr ''lan.stop''),
     (''params'', JObj [(''session_id'', JStr ''lan-1'')])]"

lemma busy_tasks_ok: "tasks_ok busy_tasks"
  by (auto simp: tasks_ok_def busy_tasks_def intro: steps_step simp del: service_step.simps)

lemma busy_reached: "steps new_service busy_service"
  unfolding steps_def busy_service_def by blast

lemmas busy_defs = busy_service_def new_service_def new_registry_def insert_lan_def lan_session_of_def register_send_def
  set_sends_def lan_is_closed_def sv_is_cancelled_def is_cancelled_def fresh_ids_def live_ids_def running_ids_def new_id_def

lemma busy_shape:
  "sv_sessions busy_service = [(''lan-1'', lan_session_of ''lan-1'')]" "\<not> sv_closed busy_service"
  "sv_relays busy_service = []" "sv_cancelled busy_service = []"
  "sv_sends busy_service sid = (if sid = ''lan-1'' then \<lparr>sg_closed = False, sg_cancellations = [(''send-a'', [''lan-1'', ''send-a''])],
     sg_handles = [\<lparr>tk_send_id = ''send-a'', tk_token = [''lan-1'', ''send-a''], tk_running = True\<rparr>], sg_guards = [], sg_removals = []\<rparr>
     else new_registry)"
  by (simp_all add: busy_defs)

lemma busy_outside_ok: "outside_ok busy_outside busy_service"
  using busy_tasks_ok
  by (auto simp: outside_ok_def busy_outside_def busy_shape io_ret_def fresh_ids_def live_ids_def running_ids_def
      new_id_def new_registry_def run_to_def io_throw_def)

lemma stop_envelope: "envelope (short_crates stop_request) (bytes_str [1]) =
    Some (''7'', ''lan.stop'', JObj [(''session_id'', JStr ''lan-1'')])"
proof -
  have "length (bytes_str [1]) = 1" by (simp add: bytes_str_def)
  then show ?thesis
    by (simp add: envelope_def MAX_CONTROL_FRAME_def from_slice_def ok_or_def short_crates_def
        as_json_request_def strict_struct_def stop_request_def str_field_def field_default_def key_map_def)
qed

lemma stop_busy: "\<exists>sv. stop_lan busy_tasks quiet_shutdown ''lan-1'' busy_service =
    (Inr (JObj [(''stopped'', JBool True)]), sv)"
  by (simp add: stop_lan_def io_reject_if_def io_bind_def io_then_def io_match_def io_ret_def locked_def take_lan_def
      busy_shape lan_close_def modify_def pause_def throw_some_def quiet_shutdown_def case_prod_unfold
      lan_session_of_def io_throw_def split: option.split sum.split)

subsection \<open>Every request\<close>

lemma handle_eq:
  "handle E W m p sv =
     (if sv_closed sv then (Inl service_closed, sv)
      else case parse_request m p of Inl e \<Rightarrow> (Inl e, sv) | Inr req \<Rightarrow> run_request E W req sv)"
  by (simp add: handle_def io_then_def io_bind_def io_match_def io_lift_def io_throw_def ensure_open_def
      split: sum.split)

text \<open>C19: Every request is answered, and whatever other tasks do meanwhile, the service stays sound. The answer to
  any text is a JSON object with the id of the request, \<open>ok\<close>, and either a result or an error; a text that is no
  request, a request that does not parse or one to a closed service changes nothing; any other request is
  run, and the state it leaves is one the machine reaches, where sessions are registered under their ids, a LAN
  session has at most one relay and the registries of transfers know exactly those that run.\<close>

theorem every_request_is_answered:
  assumes "json_roundtrip E" "steps new_service sv" "outside_ok W sv"
    and "call_json E W request_text sv = (answer, sv')"
  shows "steps new_service sv' \<and> service_ok sv' \<and>
    (\<exists>r. json_parse E (str_bytes answer) = Some (response_json (answer_id E request_text) r) \<and>
      (case envelope E request_text of
         None \<Rightarrow> sv' = sv \<and> (\<exists>err. r = Inl err)
       | Some (i, method, params) \<Rightarrow>
           if i = [] \<or> method = [] \<or> sv_closed sv then sv' = sv \<and> (\<exists>err. r = Inl err)
           else case parse_request method params of
             Inl err \<Rightarrow> sv' = sv \<and> r = Inl (error_text (os_io_text W) err)
           | Inr req \<Rightarrow>
               (case run_request E W req sv of
                  (Inl err, next_sv) \<Rightarrow> sv' = next_sv \<and> r = Inl (error_text (os_io_text W) err)
                | (Inr v, next_sv) \<Rightarrow> sv' = next_sv \<and> r = Inr v)))"
proof -
  have ok: "service_ok sv" by (rule steps_ok [OF assms(2) new_service_ok])
  show ?thesis
  proof (cases rule: call_json_cases [of E W request_text sv])
    case (bad err)
    then have "answer = encode_response E (answer_id E request_text) (Inl err)" "sv' = sv" using assms(4) by simp_all
    then show ?thesis
      using assms(2) ok bad(2) by (auto simp: encode_response_parses [OF assms(1)] split: option.split)
  next
    case (handled i m p r w)
    let ?r = "case r of Inr v \<Rightarrow> Inr v | Inl e \<Rightarrow> Inl (error_text (os_io_text W) e)"
    have a: "answer = encode_response E (answer_id E request_text) ?r" "sv' = w" using assms(4) handled(4) by simp_all
    have "steps sv w" using run_okD [OF handle_runs [OF assms(3) ok] handled(3)] by simp
    then have s: "steps new_service sv'" "service_ok sv'"
      using steps_trans [OF assms(2)] steps_ok [OF _ ok] by (auto simp: a(2))
    show ?thesis
      using s handled(1-3) a unfolding handle_eq
      by (auto simp: encode_response_parses [OF assms(1)] split: sum.splits prod.splits if_splits)
  qed
qed

theorem every_request_is_answered_witness:
  "\<exists>answer sv. call_json (short_crates stop_request) busy_outside (bytes_str [1]) busy_service = (answer, sv)
    \<and> json_parse (short_crates stop_request) (str_bytes answer) = Some (response_json ''7'' (Inr (JObj [(''stopped'', JBool True)])))
    \<and> service_ok sv"
proof -
  obtain answer sv where call: "call_json (short_crates stop_request) busy_outside (bytes_str [1]) busy_service = (answer, sv)"
    by force
  have parse: "parse_request ''lan.stop'' (JObj [(''session_id'', JStr ''lan-1'')]) = Inr (LanStop ''lan-1'')"
    by (simp add: parse_request_def decode_params_def as_session_def strict_struct_def str_field_def field_default_def)
  obtain w where "run_request E busy_outside (LanStop ''lan-1'') busy_service = (Inr (JObj [(''stopped'', JBool True)]), w)" for E
    using stop_busy by (auto simp: busy_outside_def)
  then show ?thesis
    using every_request_is_answered [OF short_crates_json(1) busy_reached busy_outside_ok call] call
    by (auto simp: stop_envelope parse busy_shape answer_id_def)
qed

section \<open>Cancelling a transfer\<close>

lemma step_sound: "steps new_service sv \<Longrightarrow> service_ok sv"
  by (rule service.reachable_inv) (simp add: reachable_steps_iff)

lemma registry_sound: "service_ok sv \<Longrightarrow> registry_ok (sv_cancelled sv) sid (sv_sends sv sid)"
  by (simp add: service_ok_def sends_ok_def)

lemma lan_send_cancel_eq:
  assumes "map_of (sv_sessions sv) sid = Some s" "s = lan_session_of sid" "sid \<noteq> []" "i \<noteq> []"
  shows "lan_send_cancel tasks sid i sv =
     (case map_of (sg_cancellations (sv_sends (tasks i 0 sv) sid)) i of
        Some t \<Rightarrow> (Inr (JObj [(''cancelled'', JBool True)]), cancel_token t (tasks i 1 (tasks i 0 sv)))
      | None \<Rightarrow> (Inr (JObj [(''cancelled'', JBool False)]), tasks i 0 sv))"
  using assms by (simp add: lan_send_cancel_def find_lan_def ok_or_def io_bind_def io_then_def io_match_def io_reject_if_def
      locked_def pause_def modify_def registered_token_def io_ret_def split: option.split)

text \<open>The token of a registered transfer, and what else is below it.\<close>

lemma registered_entry:
  assumes "service_ok sv" "map_of (sg_cancellations (sv_sends sv sid)) i = Some t"
  shows "send_entry sid (i, t)"
  using registry_sound [OF assms(1), of sid, unfolded registry_ok_def] map_of_SomeD [OF assms(2)] by blast

lemma entries_apart:
  assumes "send_entry sid (i, t)"
  shows "send_entry sid' (j, t') \<Longrightarrow> prefix t t' \<Longrightarrow> sid' = sid \<and> j = i"
    and "\<not> prefix t [sid']" "\<not> prefix t [sid', new_id ''wh'' v]"
  using assms by (auto simp: send_entry_def)

text \<open>C20: A transfer can be cancelled exactly while it runs. In any state that any interleaving of tasks reaches, and
  whatever other tasks do before the registry is looked at (the state \<open>seen\<close>) and before the token is cancelled
  (the state \<open>before\<close>), a request to cancel a transfer of a registered session answers true if the transfer runs
  when the registry is looked at, be it one of the session itself or an item of a short-code session, and then its
  token is cancelled in the end; it answers true only for the transfers that are alive (or, for a short-code
  session that just ended, about to be removed); and nothing else is cancelled by it: no other registered transfer
  of any session, no session, no short-code session and no token that is not the transfer's own or below it.\<close>

theorem cancel_reaches_exactly_the_transfer:
  assumes "steps new_service sv" "map_of (sv_sessions sv) sid = Some s" "sid \<noteq> []" "i \<noteq> []" "tasks_ok tasks"
    and "seen = tasks i 0 sv" "before = (if cancelled then tasks i 1 seen else seen)"
    and "lan_send_cancel tasks sid i sv = (r, sv')" "cancelled \<longleftrightarrow> r = Inr (JObj [(''cancelled'', JBool True)])"
  shows "r = Inr (JObj [(''cancelled'', JBool cancelled)])
    \<and> (i \<in> set (running_ids (sv_sends seen sid)) \<longrightarrow> cancelled \<and> sv_is_cancelled sv' [sid, i])
    \<and> (\<forall>items \<in> set (sg_guards (sv_sends seen sid)). i \<in> set items \<longrightarrow> \<not> sg_closed (sv_sends seen sid) \<longrightarrow>
         cancelled \<and> (\<exists>v. map_of (sg_cancellations (sv_sends seen sid)) i = Some [sid, new_id ''wh'' v, i] \<and>
           sv_is_cancelled sv' [sid, new_id ''wh'' v, i]))
    \<and> (cancelled \<longrightarrow> i \<in> set (live_ids (sv_sends seen sid)))
    \<and> (\<forall>t. sv_is_cancelled sv' t \<longrightarrow> sv_is_cancelled before t \<or> prefix [sid, i] t \<or>
         (\<exists>v. prefix [sid, new_id ''wh'' v, i] t))
    \<and> (\<forall>sid' j t. map_of (sg_cancellations (sv_sends before sid')) j = Some t \<longrightarrow> (sid', j) \<noteq> (sid, i) \<longrightarrow>
         sv_is_cancelled sv' t = sv_is_cancelled before t)
    \<and> (\<forall>sid' v. sv_is_cancelled sv' [sid'] = sv_is_cancelled before [sid'] \<and>
         sv_is_cancelled sv' [sid', new_id ''wh'' v] = sv_is_cancelled before [sid', new_id ''wh'' v])"
proof -
  have "steps new_service seen" using steps_trans [OF assms(1)] assms(5,6) by (simp add: tasks_ok_def)
  then have ok: "service_ok sv" "service_ok seen" "service_ok (tasks i 1 seen)"
    using steps_trans assms(1,5) by (auto intro!: step_sound simp: tasks_ok_def)
  let ?c = "sg_cancellations (sv_sends seen sid)"
  note reg = registry_sound [OF ok(2), of sid, unfolded registry_ok_def]
  note eq = assms(8) [unfolded lan_send_cancel_eq [OF assms(2) registered_shape(1) [OF ok(1) assms(2)] assms(3,4)],
      folded assms(6)]
  show ?thesis
  proof (cases "map_of ?c i")
    case None
    then have "r = Inr (JObj [(''cancelled'', JBool False)])" "\<not> cancelled" "sv' = seen" "before = seen"
      using eq assms(7,9) by auto
    moreover have "i \<notin> set (running_ids (sv_sends seen sid))" using None reg by (auto simp: running_ids_def)
    moreover have "sg_closed (sv_sends seen sid)" if "items \<in> set (sg_guards (sv_sends seen sid))" "i \<in> set items" for items
      using that reg None by fastforce
    ultimately show ?thesis by simp
  next
    case (Some t)
    then have run: "r = Inr (JObj [(''cancelled'', JBool True)])" "cancelled" "sv' = cancel_token t before"
      "before = tasks i 1 seen"
      using eq assms(7,9) by auto
    then have now: "sv_is_cancelled sv' u = (prefix t u \<or> sv_is_cancelled before u)" for u
      by (simp add: sv_is_cancelled_def cancel_token_def)
    have entry: "send_entry sid (i, t)" by (rule registered_entry [OF ok(2) Some])
    have own: "t = [sid, i]" if "i \<in> set (running_ids (sv_sends seen sid))"
      using that reg Some by (auto simp: running_ids_def)
    have item: "\<exists>v. t = [sid, new_id ''wh'' v, i]"
      if "items \<in> set (sg_guards (sv_sends seen sid))" "i \<in> set items" "\<not> sg_closed (sv_sends seen sid)" for items
      using that reg Some entry by (fastforce simp: send_entry_def)
    have "i \<in> set (live_ids (sv_sends seen sid))" using map_of_SomeD [OF Some] reg by force
    moreover have "prefix [sid, i] u \<or> (\<exists>v. prefix [sid, new_id ''wh'' v, i] u)" if "prefix t u" for u
      using that entry by (auto simp: send_entry_def)
    moreover have "\<not> prefix t u" if "map_of (sg_cancellations (sv_sends before sid')) j = Some u" "(sid', j) \<noteq> (sid, i)" for sid' j u
      using that entries_apart(1) [OF entry registered_entry [OF ok(3)]] by (auto simp: run(4))
    moreover note entries_apart(2,3) [OF entry]
    ultimately show ?thesis using run(1,2) own item Some unfolding now by blast
  qed
qed

text \<open>Beside a transfer of its own the session sends an item of a short-code session, and others start.\<close>

definition shared_service :: service where
  "shared_service = run_events service_step new_service
     [InsertLan ''1'', RegisterSend ''lan-1'' ''a'', RegisterTokens ''lan-1'' ''w'' [''c'']]"

theorem cancel_reaches_exactly_the_transfer_witness:
  "\<exists>sv. lan_send_cancel busy_tasks ''lan-1'' ''send-c'' shared_service = (Inr (JObj [(''cancelled'', JBool True)]), sv) \<and>
     sv_is_cancelled sv [''lan-1'', ''wh-w'', ''send-c''] \<and> \<not> sv_is_cancelled sv [''lan-1'', ''wh-w'']"
proof -
  obtain r sv where call: "lan_send_cancel busy_tasks ''lan-1'' ''send-c'' shared_service = (r, sv)" by force
  have reached: "steps new_service shared_service" unfolding steps_def shared_service_def by blast
  note defs = shared_service_def busy_defs register_tokens_def wormhole_tokens_def busy_tasks_def
  have session: "map_of (sv_sessions shared_service) ''lan-1'' = Some (lan_session_of ''lan-1'')" by (simp add: defs)
  let ?seen = "busy_tasks ''send-c'' 0 shared_service"
  have seen: "sg_guards (sv_sends ?seen ''lan-1'') = [[''send-c'']]" "\<not> sg_closed (sv_sends ?seen ''lan-1'')"
    "map_of (sg_cancellations (sv_sends ?seen ''lan-1'')) ''send-c'' = Some [''lan-1'', ''wh-w'', ''send-c'']"
    by (simp_all add: defs)
  have "\<not> sv_is_cancelled (busy_tasks ''send-c'' 1 ?seen) [''lan-1'', new_id ''wh'' ''w'']" by (simp add: defs)
  with cancel_reaches_exactly_the_transfer [OF reached session _ _ busy_tasks_ok refl refl call refl] call seen
  show ?thesis by (auto simp: new_id_def)
qed

section \<open>Stopping and closing\<close>

lemma lan_shut_dead:
  assumes "service_ok sv" "lan_shut sid sv"
  shows "prefix [sid] t \<Longrightarrow> sv_is_cancelled sv t" and "sg_handles (sv_sends sv sid) = []"
    and "sg_cancellations (sv_sends sv sid) = []"
    and "register_send (lan_session_of sid) i sv = (Inl lan_closed_error, sv)"
  using assms(2) registry_sound [OF assms(1), of sid]
  by (auto simp: lan_shut_def registry_ok_def register_send_def lan_is_closed_def sv_is_cancelled_def
      intro: is_cancelled_below)

lemma stop_lan_run:
  assumes "tasks_ok tasks" "service_ok sv" "map_of (sv_sessions sv) sid = Some s"
  shows "run_to sv (stop_lan tasks sh sid)
    (\<lambda>r sv'. \<forall>v. r = Inr v \<longrightarrow> v = JObj [(''stopped'', JBool True)] \<and> lan_shut sid sv')"
  unfolding stop_lan_def
proof (rule run_ok_reject, simp, rule run_ok_locked_bind [where f = "take_lan sid", OF section_steps(2)])
  have s: "s = lan_session_of sid" by (rule registered_shape(1) [OF assms(2,3)])
  let ?Q = "\<lambda>r sv'. \<forall>v. r = Inr v \<longrightarrow> v = JObj [(''stopped'', JBool True)] \<and> lan_shut sid sv'"
  have "run_to a (io_then (lan_close tasks sh s) (io_ret (JObj [(''stopped'', JBool True)]))) ?Q" for a
    unfolding s by (rule run_ok_then [OF lan_close_run [OF assms(1)]]) (auto intro!: run_ok_ret)
  then have "run_to b (io_then (close_each (close_relay tasks sh) rs None)
      (io_then (lan_close tasks sh s) (io_ret (JObj [(''stopped'', JBool True)])))) ?Q" for b rs
    by (rule run_ok_then [OF close_relays_run [OF assms(1)]]) auto
  then show "run_to (snd (take_lan sid sv)) (case fst (take_lan sid sv) of (session, relays) \<Rightarrow>
      io_then (close_each (close_relay tasks sh) relays None)
      (io_then (case session of Some s \<Rightarrow> lan_close tasks sh s | None \<Rightarrow> io_ret ())
      (io_ret (JObj [(''stopped'', JBool (session \<noteq> None))])))) ?Q"
    by (simp add: take_lan_def assms(3))
qed

text \<open>C22: A stopped session stays dead, whatever ran while it was stopped. Once \<open>lan.stop\<close> has returned for a
  registered session, in every later state its token and every token below it (its transfers, relays and
  short-code sessions) are cancelled, no task of it holds a slot, and a transfer that is about to start is turned away.\<close>

theorem stopped_session_stays_dead:
  assumes "tasks_ok tasks" "steps new_service sv" "map_of (sv_sessions sv) sid = Some s"
    and "stop_lan tasks sh sid sv = (Inr v, sv')" "steps sv' later"
  shows "v = JObj [(''stopped'', JBool True)]
    \<and> (\<forall>t. prefix [sid] t \<longrightarrow> sv_is_cancelled later t)
    \<and> sg_handles (sv_sends later sid) = [] \<and> sg_cancellations (sv_sends later sid) = []
    \<and> (\<forall>i. register_send s i later = (Inl lan_closed_error, later))"
proof -
  have ok: "service_ok sv" by (rule step_sound [OF assms(2)])
  have "steps sv sv'" "v = JObj [(''stopped'', JBool True)]" "lan_shut sid sv'"
    using run_okD [OF stop_lan_run [OF assms(1) ok assms(3)] assms(4)] by simp_all
  moreover from this have "service_ok later" "lan_shut sid later"
    using steps_ok [OF steps_trans [OF _ assms(5)] ok] lan_shut_steps [OF assms(5)] by blast+
  ultimately show ?thesis
    using lan_shut_dead [of later sid] registered_shape(1) [OF ok assms(3)] by simp
qed

theorem stopped_session_stays_dead_witness:
  "\<exists>sv. stop_lan busy_tasks quiet_shutdown ''lan-1'' busy_service = (Inr (JObj [(''stopped'', JBool True)]), sv) \<and>
     sv_is_cancelled sv [''lan-1'', ''send-a''] \<and>
     register_send (lan_session_of ''lan-1'') ''send-b'' sv = (Inl lan_closed_error, sv)"
proof -
  obtain sv where stop: "stop_lan busy_tasks quiet_shutdown ''lan-1'' busy_service = (Inr (JObj [(''stopped'', JBool True)]), sv)"
    using stop_busy by blast
  have "map_of (sv_sessions busy_service) ''lan-1'' = Some (lan_session_of ''lan-1'')" by (simp add: busy_shape)
  from stopped_session_stays_dead [OF busy_tasks_ok busy_reached this stop steps_refl] show ?thesis
    using stop by auto
qed

lemma attempt_run:
  assumes "runs sv m" "sv_closed sv"
  shows "run_to sv (close_attempt m e) (\<lambda>r sv'. (\<exists>x. r = Inr x) \<and> sv_closed sv')"
  unfolding close_attempt_def
  by (rule run_ok_match [OF assms(1)]) (use steps_closed [OF _ assms(2)] in \<open>auto intro!: run_ok_ret\<close>)

lemma attempt_bind:
  assumes "runs sv m" "sv_closed sv" "\<And>e sv'. sv_closed sv' \<Longrightarrow> run_to sv' (f e) (\<lambda>_ sv'. sv_closed sv')"
  shows "run_to sv (io_bind (close_attempt m e) f) (\<lambda>_ sv'. sv_closed sv')"
  by (rule run_ok_bind [OF attempt_run [OF assms(1,2)]]) (auto intro: assms(3))

lemma close_drained_run:
  assumes "tasks_ok tasks" "sv_closed sv" "\<forall>s \<in> set lans. \<exists>sid. s = lan_session_of sid"
  shows "run_to sv (close_drained tasks sh (lans, wormholes, relays)) (\<lambda>_ sv'. sv_closed sv')"
  unfolding close_drained_def prod.case
  by (intro attempt_bind runs_of [OF close_relays_run [OF assms(1)]] runs_of [OF close_wormholes_run [OF assms(1)]]
      runs_of [OF close_sessions_run [OF assms(1,3)]] assms(2) run_ok_modify_then section_steps run_ok_throw_some)
    (simp_all add: set_events_def)

lemma close_service_run:
  assumes "tasks_ok tasks" "service_ok sv"
  shows "run_to sv (close_service tasks sh) (\<lambda>_ sv'. sv_closed sv')"
  unfolding close_service_def
proof (rule run_ok_cancel, rule run_ok_pause_then [OF assms(1)])
  fix a b assume a: "sv_is_cancelled a []" "steps sv a" "steps a b"
  have ok: "service_ok b" by (rule steps_ok [OF steps_trans [OF a(2,3)] assms(2)])
  have lans: "\<forall>s \<in> set (map snd (sv_sessions b)). \<exists>sid. s = lan_session_of sid"
    using registered_shape(2) [OF ok] by blast
  show "run_to b (io_bind (locked close_section) (\<lambda>drained.
      case drained of None \<Rightarrow> io_ret () | Some parts \<Rightarrow> close_drained tasks sh parts)) (\<lambda>_ sv'. sv_closed sv')"
    by (rule run_ok_locked_bind [where f = close_section, OF section_steps(12) [OF steps_cancelled [OF a(3,1)]]])
      (auto simp: close_section_def drain_all_def intro!: run_ok_ret close_drained_run [OF assms(1)] lans [THEN bspec])
qed

text \<open>C23: A closed service stays dead, whatever ran while it was closed and whatever its parts returned: in every
  later state nothing is registered, every token is cancelled, and every request is answered with an error and
  changes nothing.\<close>

theorem closed_service_stays_dead:
  assumes "json_roundtrip E" "tasks_ok tasks" "steps new_service sv" "close_service tasks sh sv = (r, sv')" "steps sv' later"
  shows "sv_sessions later = [] \<and> sv_wormholes later = [] \<and> sv_relays later = [] \<and> sv_is_cancelled later t
    \<and> (\<exists>err. json_parse E (str_bytes (fst (call_json E W request_text later))) =
          Some (response_json (answer_id E request_text) (Inl err)))
    \<and> snd (call_json E W request_text later) = later"
proof -
  have ok: "service_ok sv" by (rule step_sound [OF assms(3)])
  have "steps sv sv'" "sv_closed sv'"
    using run_okD [OF close_service_run [OF assms(2) ok] assms(4)] by simp_all
  then have later: "service_ok later" "sv_closed later"
    using steps_ok [OF steps_trans [OF _ assms(5)] ok] steps_closed [OF assms(5)] by blast+
  then have maps: "sv_sessions later = []" "sv_wormholes later = []" "sv_relays later = []" "sv_is_cancelled later []"
    by (simp_all add: service_ok_def maps_ok_def)
  have "sv_is_cancelled later t"
    using maps(4) is_cancelled_below [of "sv_cancelled later" "[]" t] by (simp add: sv_is_cancelled_def)
  moreover have "\<exists>err. call_json E W request_text later = (encode_response E (answer_id E request_text) (Inl err), later)"
    by (cases rule: call_json_cases [of E W request_text later]) (auto simp: handle_eq later(2))
  ultimately show ?thesis using maps encode_response_parses [OF assms(1)] by auto
qed

theorem closed_service_stays_dead_witness:
  "sv_sessions busy_service \<noteq> [] \<and>
    (\<exists>r sv. close_service busy_tasks quiet_shutdown busy_service = (r, sv) \<and> sv_sessions sv = [] \<and>
       sv_is_cancelled sv [''lan-1'', ''send-a''] \<and>
       snd (call_json (short_crates stop_request) busy_outside (bytes_str [1]) (service_step sv (InsertLan ''2''))) =
         service_step sv (InsertLan ''2''))"
proof -
  obtain r sv where close: "close_service busy_tasks quiet_shutdown busy_service = (r, sv)" by force
  note dead = closed_service_stays_dead [OF short_crates_json(1) busy_tasks_ok busy_reached close]
  have "snd (call_json (short_crates stop_request) busy_outside (bytes_str [1]) (service_step sv (InsertLan ''2''))) =
      service_step sv (InsertLan ''2'')"
    using dead [OF steps_step] by blast
  moreover have "sv_sessions sv = [] \<and> sv_is_cancelled sv [''lan-1'', ''send-a'']" using dead [OF steps_refl] by blast
  moreover have "sv_sessions busy_service \<noteq> []" by (simp add: busy_shape)
  ultimately show ?thesis using close by blast
qed

section \<open>Consent\<close>

definition not_accepted :: "string \<Rightarrow> service \<Rightarrow> bool" where
  "not_accepted wid sv \<longleftrightarrow> dc_message (sv_decisions sv wid) \<noteq> Some AcceptOffer"

lemma step_not_accepted:
  "not_accepted wid sv \<Longrightarrow> op \<noteq> SendDecision wid AcceptOffer \<Longrightarrow> not_accepted wid (service_step sv op)"
  by (induction op)
    (auto simp: not_accepted_def section_defs no_channel_def open_channel_def Let_def
      split: option.split sum.split offer_wait.split)

lemma receiver_refuses:
  assumes "not_accepted (wh_session_id w) sv"
  shows "io_bind (wait_decision (wh_session_id w) woken) (\<lambda>selected. if selected = RejectOffer then refuse else k) sv =
    io_bind (wait_decision (wh_session_id w) woken) (\<lambda>selected. if selected = RejectOffer then refuse else k') sv"
proof -
  have "d = RejectOffer" if "wait_decision (wh_session_id w) woken sv = (Inr d, sv')" for d sv'
    using that assms by (cases d) (auto simp: wait_decision_def not_accepted_def ok_or_def split: offer_wait.splits option.splits)
  then show ?thesis
    by (auto simp: io_bind_def io_match_def split: prod.split sum.split)
qed

lemma run_receiver_eq:
  "run_wormhole_receiver tasks w joined woken refuse bind_local accept serve sv =
    (case joined of
       None \<Rightarrow> (Inl pairing_expired, sv)
     | Some (Inl e) \<Rightarrow> (Inl e, sv)
     | Some (Inr summary) \<Rightarrow>
         io_bind (wait_decision (wh_session_id w) woken) (\<lambda>selected.
           if selected = RejectOffer then refuse
           else io_then bind_local (io_then accept (io_then (modify (emit_session_event (wh_token w) (wh_session_id w)
             ''wormhole.ready'' (JObj [(''role'', JStr ''receiver'')]))) serve)))
          (tasks (wh_session_id w) 2 (emit_session_event (wh_token w) (wh_session_id w) ''wormhole.offer''
             (JObj [(''summary'', transfer_summary_json summary)]) sv)))"
  by (simp add: run_wormhole_receiver_def within_window_def io_then_def io_bind_def io_match_def modify_def pause_def
      io_lift_def io_throw_def split: option.split sum.split)

text \<open>C21: Nothing is received without consent. Unless the user has accepted the offer, whatever else other tasks do
  and whatever wakes the receiver, a short-code session starts no server and opens no tunnel: its outcome and the state
  it leaves do not depend on what these would do.\<close>

theorem offer_needs_consent:
  assumes "\<forall>i n sv. \<exists>ops. tasks i n sv = run_events service_step sv ops \<and>
      SendDecision (wh_session_id w) AcceptOffer \<notin> set ops"
    and "dc_message (sv_decisions sv (wh_session_id w)) \<noteq> Some AcceptOffer"
  shows "run_wormhole_receiver tasks w joined woken refuse bind_local accept serve sv =
    run_wormhole_receiver tasks w joined woken refuse bind_local' accept' serve' sv"
proof -
  let ?wid = "wh_session_id w"
  have offer: "not_accepted ?wid (emit_session_event t i name data sv)" for t i name data
    using assms(2) by (simp add: not_accepted_def emit_session_event_def set_events_def)
  have pause: "not_accepted ?wid (tasks i n a)" if a: "not_accepted ?wid a" for i n a
  proof -
    obtain ops where ops: "tasks i n a = run_events service_step a ops" "SendDecision ?wid AcceptOffer \<notin> set ops"
      using assms(1) by blast
    have "not_accepted ?wid (run_events service_step a ops)"
    proof (rule run_events_inv [of "not_accepted ?wid", OF a])
      fix b op assume op: "op \<in> set ops" and b: "not_accepted ?wid b"
      have "op \<noteq> SendDecision ?wid AcceptOffer" using op ops(2) by metis
      then show "not_accepted ?wid (service_step b op)" by (rule step_not_accepted [OF b])
    qed
    then show ?thesis by (simp add: ops(1))
  qed
  show ?thesis
    unfolding run_receiver_eq by (simp add: receiver_refuses [OF pause [OF offer]] split: option.split sum.split)
qed

theorem offer_needs_consent_witness:
  "\<forall>x. run_wormhole_receiver (\<lambda>i n sv. service_step sv (SendDecision ''wh-1'' RejectOffer)) (wormhole_of ''lan-1'' ''wh-1'')
      (Some (Inr x)) WaitReceived (io_ret ()) (io_ret ()) (io_throw Cancelled) (io_ret ()) busy_service =
    run_wormhole_receiver (\<lambda>i n sv. service_step sv (SendDecision ''wh-1'' RejectOffer)) (wormhole_of ''lan-1'' ''wh-1'')
      (Some (Inr x)) WaitReceived (io_ret ()) (io_throw Cancelled) (io_ret ()) (io_ret ()) busy_service"
proof (rule allI, rule offer_needs_consent)
  let ?ops = "[SendDecision ''wh-1'' RejectOffer]"
  have "service_step sv (SendDecision ''wh-1'' RejectOffer) = run_events service_step sv ?ops \<and>
      SendDecision (wh_session_id (wormhole_of ''lan-1'' ''wh-1'')) AcceptOffer \<notin> set ?ops" for sv
    by (simp add: wormhole_of_def)
  then show "\<forall>i n sv. \<exists>ops. service_step sv (SendDecision ''wh-1'' RejectOffer) = run_events service_step sv ops \<and>
      SendDecision (wh_session_id (wormhole_of ''lan-1'' ''wh-1'')) AcceptOffer \<notin> set ops"
    by blast
qed (simp add: busy_defs no_channel_def wormhole_of_def)

section \<open>A relay without its session\<close>

text \<open>Registering a relay does not look at the LAN session again: one that was stopped meanwhile leaves an entry.\<close>

lemma relay_outlives_its_session:
  "\<exists>sv. steps new_service sv \<and> sv_sessions sv = [] \<and> relays_for_lan ''lan-1'' sv \<noteq> []"
proof -
  let ?sv = "run_events service_step new_service [InsertLan ''1'', TakeLan ''lan-1'', InsertRelay ''lan-1'' ''2'']"
  have "steps new_service ?sv" unfolding steps_def by blast
  moreover have "sv_sessions ?sv = []" "relays_for_lan ''lan-1'' ?sv \<noteq> []"
    by (simp_all add: insert_lan_def lan_session_of_def new_service_def take_lan_def insert_relay_def relays_for_lan_def
        relay_of_def new_id_def)
  ultimately show ?thesis by blast
qed

end
