(* ===== verification/FfiProps.thy ===== *)
theory FfiProps
  imports Ffi ServiceSafe
begin

text \<open>
  What the C interface promises to a caller that keeps the contract: no call is undefined, no panic leaves the
  library, every string that a call gives away is alive and fresh, and a closed handle stays closed.
\<close>

section \<open>Memory\<close>

definition ffi_ok :: "ffi \<Rightarrow> bool" where
  "ffi_ok s \<longleftrightarrow> 0 < ff_next s \<and>
     distinct (map fst (ff_services s)) \<and> (\<forall>p \<in> fst ` set (ff_services s). 0 < p \<and> p < ff_next s) \<and>
     distinct (map fst (ff_strings s)) \<and> (\<forall>p \<in> fst ` set (ff_strings s). 0 < p \<and> p < ff_next s)"

datatype ffi_call =
    Create nat nat
  | Call nat nat bytes nat
  | PollEvent nat int nat
  | ResetService nat nat
  | CloseService nat nat
  | Destroy nat nat
  | FreeString nat

text \<open>One call; a call without a status answers 0 here.\<close>

fun run_call :: "ffi_env \<Rightarrow> ffi_call \<Rightarrow> ffi \<Rightarrow> (int \<times> ffi) option" where
  "run_call W (Create out_service out) s = inkhole_service_create W out_service out s"
| "run_call W (Call p at_input data out) s = inkhole_service_call W p at_input data out s"
| "run_call W (PollEvent p t out) s = inkhole_service_poll_event W p t out s"
| "run_call W (ResetService p out) s = inkhole_service_reset W p out s"
| "run_call W (CloseService p out) s = inkhole_service_close W p out s"
| "run_call W (Destroy p out) s = inkhole_service_destroy W p out s"
| "run_call W (FreeString q) s = map_option (\<lambda>s'. (STATUS_OK, s')) (inkhole_string_free q s)"

fun out_of :: "ffi_call \<Rightarrow> nat" where
  "out_of (Create _ out) = out"
| "out_of (Call _ _ _ out) = out"
| "out_of (PollEvent _ _ out) = out"
| "out_of (ResetService _ out) = out"
| "out_of (CloseService _ out) = out"
| "out_of (Destroy _ out) = out"
| "out_of (FreeString _) = 0"

text \<open>The contract: a handle is null or alive, and the two outputs of \<open>create\<close> are not the same cell.\<close>

fun allowed :: "ffi_call \<Rightarrow> ffi \<Rightarrow> bool" where
  "allowed (Create out_service out) s = (out_service \<noteq> out \<or> out = 0)"
| "allowed (Call p _ _ _) s = (p = 0 \<or> p \<in> fst ` set (ff_services s))"
| "allowed (PollEvent p _ _) s = (p = 0 \<or> p \<in> fst ` set (ff_services s))"
| "allowed (ResetService p _) s = (p = 0 \<or> p \<in> fst ` set (ff_services s))"
| "allowed (CloseService p _) s = (p = 0 \<or> p \<in> fst ` set (ff_services s))"
| "allowed (Destroy p _) s = (p = 0 \<or> p \<in> fst ` set (ff_services s))"
| "allowed (FreeString q) s = (q = 0 \<or> q \<in> fst ` set (ff_strings s))"

definition status_range :: "int \<Rightarrow> bool" where
  "status_range status \<longleftrightarrow> 0 \<le> status \<and> status \<le> 7"

lemmas status_defs = STATUS_OK_def STATUS_NO_EVENT_def STATUS_INVALID_ARGUMENT_def STATUS_INVALID_UTF8_def STATUS_CLOSED_def
  STATUS_INTERNAL_ERROR_def STATUS_PANIC_def STATUS_WRONG_THREAD_def

lemma set_cell_simps [simp]:
  "ff_services (set_cell c p s) = ff_services s" "ff_strings (set_cell c p s) = ff_strings s"
  "ff_next (set_cell c p s) = ff_next s" "ff_cells (set_cell c p s) = (ff_cells s)(c := p)"
  by (simp_all add: set_cell_def)

lemma ffi_ok_cell [simp]: "ffi_ok (set_cell c p s) = ffi_ok s"
  by (simp add: ffi_ok_def)

lemma ffi_ok_string: "ffi_ok s \<Longrightarrow> ffi_ok (give_string out v s)"
  by (force simp: ffi_ok_def give_string_def)

lemma ffi_ok_service: "ffi_ok s \<Longrightarrow> ffi_ok (give_service out sv s)"
  by (force simp: ffi_ok_def give_service_def)

lemma ffi_ok_put: "ffi_ok s \<Longrightarrow> p \<in> fst ` set (ff_services s) \<Longrightarrow> ffi_ok (put_service p sv s)"
  by (auto simp: ffi_ok_def put_service_def distinct_update dom_update insert_absorb)

lemma ffi_ok_delete:
  "ffi_ok s \<Longrightarrow> ffi_ok (s\<lparr>ff_services := AList.delete p (ff_services s)\<rparr>)"
  "ffi_ok s \<Longrightarrow> ffi_ok (s\<lparr>ff_strings := AList.delete p (ff_strings s)\<rparr>)"
  by (auto simp: ffi_ok_def AList.distinct_delete set_delete)

text \<open>An operation that keeps the memory in order, gives no string away and leaves the output cell as it is.\<close>

definition contained :: "boundary_output ffi_op \<Rightarrow> nat \<Rightarrow> ffi \<Rightarrow> bool" where
  "contained operation out s \<longleftrightarrow>
     (\<exists>r s'. operation s = Some (r, s') \<and> ffi_ok s' \<and> ff_strings s' = ff_strings s \<and> ff_cells s' out = ff_cells s out \<and>
        (\<forall>v. r = Inr v \<longrightarrow> status_range (bo_status v)))"

text \<open>What a call leaves: no output pointer and nothing done, or null in the output cell, or a fresh string without a zero
  byte that is alive there.\<close>

definition given_back :: "nat \<Rightarrow> ffi \<Rightarrow> ffi \<Rightarrow> bool" where
  "given_back out s s' \<longleftrightarrow>
     (if out = 0 then s' = s
      else ff_cells s' out = 0 \<and> ff_strings s' = ff_strings s \<or>
        (\<exists>v. CHR 0x00 \<notin> set v \<and> ff_strings s' = (ff_cells s' out, v) # ff_strings s \<and> ff_cells s' out \<noteq> 0 \<and>
           ff_cells s' out \<notin> fst ` set (ff_strings s)))"

lemma boundary_contained:
  assumes "ffi_ok s" "out \<noteq> 0 \<Longrightarrow> contained operation out (set_cell out 0 s)"
  shows "\<exists>status s'. ffi_boundary out operation s = Some (status, s') \<and> ffi_ok s' \<and> status_range status \<and> given_back out s s'"
proof (cases "out = 0")
  case True
  then show ?thesis using assms(1) by (simp add: ffi_boundary_def status_range_def status_defs given_back_def)
next
  case False
  obtain r s1 where op: "operation (set_cell out 0 s) = Some (r, s1)" "ffi_ok s1" "ff_strings s1 = ff_strings s"
      "ff_cells s1 out = 0" "\<And>v. r = Inr v \<Longrightarrow> status_range (bo_status v)"
    using assms(2) [OF False] by (auto simp: contained_def)
  obtain answer where answer: "answer = (case r of Inr v \<Rightarrow> v | Inl payload \<Rightarrow> output_error STATUS_PANIC (''Rust panic: '' @ panic_message payload))"
    by blast
  have range: "status_range (bo_status answer)" "status_range STATUS_INTERNAL_ERROR"
    using op(5) by (auto simp: answer output_error_def status_range_def status_defs split: sum.split)
  have given: "ffi_ok (give_string out v s1)" "ff_strings (give_string out v s1) = (ff_cells (give_string out v s1) out, v) # ff_strings s"
      "ff_cells (give_string out v s1) out \<noteq> 0" "ff_cells (give_string out v s1) out \<notin> fst ` set (ff_strings s)" for v
    using op(2,3) ffi_ok_string [OF op(2), of out v] by (auto simp: give_string_def ffi_ok_def)
  have run: "ffi_boundary out operation s = Some (case bo_value answer of
      None \<Rightarrow> (bo_status answer, s1)
    | Some v \<Rightarrow>
        if CHR 0x00 \<in> set v
        then (STATUS_INTERNAL_ERROR, give_string out ''FFI output contained an interior NUL'' s1)
        else (bo_status answer, give_string out v s1))"
    unfolding answer using False op(1) by (simp add: ffi_boundary_def Let_def)
  show ?thesis
  proof (cases "bo_value answer")
    case None
    then show ?thesis using run op range False by (simp add: given_back_def)
  next
    case (Some v)
    then show ?thesis
      using run range given [of v] given [of "''FFI output contained an interior NUL''"] False
      by (cases "CHR 0x00 \<in> set v") (auto simp: given_back_def)
  qed
qed

lemma contained_return: "ffi_ok s \<Longrightarrow> status_range (bo_status v) \<Longrightarrow> contained (return_output v) out s"
  by (simp add: contained_def return_output_def)

lemma output_ranges [simp]:
  "status_range (bo_status (output_ok v))" "status_range (bo_status output_empty)" "status_range (bo_status closed_output)"
  "status_range (bo_status (finish_output io_text r))"
  "status_range (bo_status (output_error STATUS_INVALID_ARGUMENT m))" "status_range (bo_status (output_error STATUS_INVALID_UTF8 m))"
  "status_range (bo_status (output_error STATUS_INTERNAL_ERROR m))" "status_range (bo_status (output_error STATUS_WRONG_THREAD m))"
  "status_range STATUS_NO_EVENT"
  by (auto simp: output_ok_def output_empty_def closed_output_def finish_output_def output_error_def status_range_def status_defs
      split: sum.split)

lemma contained_with_service:
  assumes "ffi_ok s" "p = 0 \<or> p \<in> fst ` set (ff_services s)"
    and "\<And>sv. map_of (ff_services s) p = Some sv \<Longrightarrow> contained (k sv) out s"
  shows "contained (with_service p k) out s"
proof (cases "p = 0")
  case True
  then show ?thesis using contained_return [OF assms(1)] by (simp add: contained_def with_service_def)
next
  case False
  then obtain sv where "map_of (ff_services s) p = Some sv" using assms(2) by (auto simp: map_of_eq_None_iff dest: weak_map_of_SomeI)
  then show ?thesis using assms(3) False by (simp add: contained_def with_service_def)
qed

lemma contained_on_runtime:
  assumes "ffi_ok s" "p \<in> fst ` set (ff_services s)" "\<And>service. status_range (bo_status (fst (program service)))"
  shows "contained (on_runtime_of W p sv program) out s"
proof (cases "fs_runtime sv")
  case True
  obtain r service' where run: "block_on W program (fs_service sv) = (r, service')" by fastforce
  have "r = Inr v \<Longrightarrow> status_range (bo_status v)" for v
    using run assms(3) [of "fs_service sv"] by (auto simp: block_on_def split: if_splits option.splits prod.splits)
  then show ?thesis using True run ffi_ok_put [OF assms(1,2)]
    by (auto simp: contained_def on_runtime_of_def) (simp_all add: put_service_def)
next
  case False
  then show ?thesis using contained_return [OF assms(1)] by (simp add: contained_def on_runtime_of_def)
qed


lemma live_at: "map_of (ff_services s) p = Some sv \<Longrightarrow> p \<in> fst ` set (ff_services s)"
  by (metis map_of_SomeD fst_conv image_eqI)

lemma contained_close:
  assumes "ffi_ok s" "p \<in> fst ` set (ff_services s)"
  shows "contained (\<lambda>s. case close_held W sv of (r, sv') \<Rightarrow> Some (r, put_service p sv' s)) out s"
    and "contained (\<lambda>s. Some (fst (close_held W sv), s\<lparr>ff_services := AList.delete p (ff_services s)\<rparr>)) out s"
proof -
  have range: "fst (close_held W sv) = Inr v \<Longrightarrow> status_range (bo_status v)" for v
    by (auto simp: close_held_def reject_runtime_thread_def block_on_def Let_def split: if_splits option.splits prod.splits)
  show "contained (\<lambda>s. case close_held W sv of (r, sv') \<Rightarrow> Some (r, put_service p sv' s)) out s"
    using range ffi_ok_put [OF assms]
    by (cases "close_held W sv") (auto simp: contained_def, simp_all add: put_service_def)
  show "contained (\<lambda>s. Some (fst (close_held W sv), s\<lparr>ff_services := AList.delete p (ff_services s)\<rparr>)) out s"
    using range ffi_ok_delete(1) [OF assms(1)] by (simp add: contained_def)
qed

lemma contained_call:
  assumes "ffi_ok s" "p = 0 \<or> p \<in> fst ` set (ff_services s)"
  shows "\<exists>status s'. inkhole_service_call W p a d out s = Some (status, s') \<and> ffi_ok s' \<and> status_range status \<and> given_back out s s'"
  unfolding inkhole_service_call_def
proof (intro boundary_contained contained_with_service)
  fix sv
  assume at: "map_of (ff_services (set_cell out 0 s)) p = Some sv"
  have err: "utf8_input W a d = Inl err \<Longrightarrow> status_range (bo_status err)" for err
    by (auto simp: utf8_input_def split: if_splits)
  have ok: "ffi_ok (set_cell out 0 s)" using assms by simp
  show "contained (if fs_closed sv then return_output closed_output
       else case utf8_input W a d of
         Inl err \<Rightarrow> return_output err
       | Inr request_text \<Rightarrow>
           on_runtime_of W p sv (\<lambda>service.
             case call_json (fe_crates W) (fe_outside W) request_text service of
               (answer, service') \<Rightarrow> (output_ok answer, service'))) out (set_cell out 0 s)"
    using contained_return [OF ok] err contained_on_runtime [OF ok live_at [OF at]]
    by (cases "utf8_input W a d") (auto split: prod.split)
qed (use assms in auto)

lemma contained_poll:
  assumes "ffi_ok s" "p = 0 \<or> p \<in> fst ` set (ff_services s)"
  shows "\<exists>status s'. inkhole_service_poll_event W p t out s = Some (status, s') \<and> ffi_ok s' \<and> status_range status \<and> given_back out s s'"
  unfolding inkhole_service_poll_event_def Let_def
proof (intro boundary_contained contained_with_service)
  fix sv
  assume at: "map_of (ff_services (set_cell out 0 s)) p = Some sv"
  have err: "timeout_from_millis t = Inl err \<Longrightarrow> status_range (bo_status err)" for err
    by (auto simp: timeout_from_millis_def split: if_splits)
  have ok: "ffi_ok (set_cell out 0 s)" using assms by simp
  show "contained (case timeout_from_millis t of
         Inl err \<Rightarrow> return_output err
       | Inr timeout \<Rightarrow>
           on_runtime_of W p (sv\<lparr>fs_closed := fs_closed sv \<or> fe_closed_meanwhile W\<rparr>) (\<lambda>service.
             case poll_event (fe_crates W) (timeout = Some 0) (fe_batches W) service of
               (Some event, service') \<Rightarrow> (output_ok event, service')
             | (None, service') \<Rightarrow>
                 (if fs_closed (sv\<lparr>fs_closed := fs_closed sv \<or> fe_closed_meanwhile W\<rparr>) then closed_output
                  else \<lparr>bo_status = STATUS_NO_EVENT, bo_value = None\<rparr>, service'))) out (set_cell out 0 s)"
    using contained_return [OF ok] err contained_on_runtime [OF ok live_at [OF at]]
    by (cases "timeout_from_millis t") (auto split: prod.split option.split)
qed (use assms in auto)

lemma contained_reset:
  assumes "ffi_ok s" "p = 0 \<or> p \<in> fst ` set (ff_services s)"
  shows "\<exists>status s'. inkhole_service_reset W p out s = Some (status, s') \<and> ffi_ok s' \<and> status_range status \<and> given_back out s s'"
  unfolding inkhole_service_reset_def
proof (intro boundary_contained contained_with_service)
  fix sv
  assume at: "map_of (ff_services (set_cell out 0 s)) p = Some sv"
  have ok: "ffi_ok (set_cell out 0 s)" using assms by simp
  show "contained (if fs_closed sv then return_output closed_output
       else on_runtime_of W p sv (\<lambda>service.
           case reset (os_tasks (fe_outside W)) (os_shutdown (fe_outside W)) service of
             (r, service') \<Rightarrow> (finish_output (os_io_text (fe_outside W)) r, service'))) out (set_cell out 0 s)"
    using contained_return [OF ok] contained_on_runtime [OF ok live_at [OF at]] by (auto split: prod.split)
qed (use assms in auto)

lemma contained_create:
  assumes "ffi_ok s" "out_service \<noteq> out \<or> out = 0"
  shows "\<exists>status s'. inkhole_service_create W out_service out s = Some (status, s') \<and> ffi_ok s' \<and> status_range status \<and> given_back out s s'"
  unfolding inkhole_service_create_def Let_def
  by (intro boundary_contained)
    (use assms in \<open>auto simp: contained_def return_output_def ffi_ok_service split: sum.split\<close>,
     auto simp: give_service_def output_error_def status_range_def status_defs)

lemma contained_close_destroy:
  assumes "ffi_ok s" "p = 0 \<or> p \<in> fst ` set (ff_services s)"
  shows "\<exists>status s'. inkhole_service_close W p out s = Some (status, s') \<and> ffi_ok s' \<and> status_range status \<and> given_back out s s'"
    and "\<exists>status s'. inkhole_service_destroy W p out s = Some (status, s') \<and> ffi_ok s' \<and> status_range status \<and> given_back out s s'"
proof -
  have ok: "ffi_ok (set_cell out 0 s)" using assms by simp
  show "\<exists>status s'. inkhole_service_close W p out s = Some (status, s') \<and> ffi_ok s' \<and> status_range status \<and> given_back out s s'"
    unfolding inkhole_service_close_def
    by (intro boundary_contained contained_with_service contained_close) (use assms in \<open>auto dest: live_at\<close>)
  have "contained (\<lambda>s.
       if p = 0 then return_output (output_error STATUS_INVALID_ARGUMENT ''service must not be null'') s
       else case reject_runtime_thread W of
         Some err \<Rightarrow> return_output err s
       | None \<Rightarrow>
           Option.bind (map_of (ff_services s) p) (\<lambda>sv.
             Some (fst (close_held W sv), s\<lparr>ff_services := AList.delete p (ff_services s)\<rparr>))) out (set_cell out 0 s)"
  proof (cases "p = 0 \<or> fe_on_runtime W")
    case True
    then show ?thesis using ok by (auto simp: contained_def reject_runtime_thread_def return_output_def)
  next
    case False
    then obtain sv where "map_of (ff_services s) p = Some sv"
      using assms(2) by (auto simp: map_of_eq_None_iff dest: weak_map_of_SomeI)
    then show ?thesis
      using False contained_close(2) [OF ok, of p W sv out] live_at [of s p sv] by (simp add: contained_def reject_runtime_thread_def)
  qed
  then show "\<exists>status s'. inkhole_service_destroy W p out s = Some (status, s') \<and> ffi_ok s' \<and> status_range status \<and> given_back out s s'"
    unfolding inkhole_service_destroy_def using assms(1) by (intro boundary_contained) auto
qed

section \<open>Every use that keeps the contract\<close>

lemma call_contained:
  "ffi_ok s \<Longrightarrow> allowed c s \<Longrightarrow>
   \<exists>status s'. run_call W c s = Some (status, s') \<and> ffi_ok s' \<and> status_range status \<and>
     ((\<forall>q. c \<noteq> FreeString q) \<longrightarrow> given_back (out_of c) s s')"
proof (cases c)
  case (FreeString q)
  assume ok: "ffi_ok s" and "allowed c s"
  then show ?thesis
    using FreeString ffi_ok_delete(2) [OF ok] by (auto simp: inkhole_string_free_def status_range_def status_defs)
qed (auto simp: contained_create contained_call contained_poll contained_reset contained_close_destroy)

text \<open>The library after some calls, each allowed when it is made, from any threads and worlds.\<close>

definition ffi_start :: "(nat \<Rightarrow> nat) \<Rightarrow> ffi" where
  "ffi_start cells = \<lparr>ff_services = [], ff_strings = [], ff_cells = cells, ff_next = 1\<rparr>"

inductive ffi_steps :: "ffi \<Rightarrow> ffi_call list \<Rightarrow> ffi \<Rightarrow> bool" where
  none: "ffi_steps s [] s"
| call: "ffi_steps s cs s' \<Longrightarrow> allowed c s' \<Longrightarrow> run_call W c s' = Some (status, s'') \<Longrightarrow> ffi_steps s (cs @ [c]) s''"

lemma ffi_steps_ok: "ffi_steps s cs s' \<Longrightarrow> ffi_ok s \<Longrightarrow> ffi_ok s'"
proof (induction rule: ffi_steps.induct)
  case (call s cs s' c W status s'')
  then show ?case using call_contained [of s' c W] by force
qed simp

lemma ffi_start_ok: "ffi_ok (ffi_start cells)"
  by (simp add: ffi_ok_def ffi_start_def)

text \<open>C30: However the C interface is used, as long as every handle that is passed is null or alive and every string is
  freed once, no call is undefined behaviour and no panic leaves it: a call always returns a status from 0 to 7, and it
  leaves either null in its output cell or a fresh string without a zero byte there, which is alive until it is freed; a
  null output pointer does nothing at all. A panic of the program (also of \<open>block_on\<close> on a thread of the runtime) is such
  a status.\<close>

theorem ffi_calls_are_contained:
  assumes "ffi_steps (ffi_start cells) cs s" "allowed c s" "\<forall>q. c \<noteq> FreeString q"
  shows "\<exists>status s'. run_call W c s = Some (status, s') \<and> 0 \<le> status \<and> status \<le> 7 \<and> given_back (out_of c) s s'"
proof -
  obtain status s' where "run_call W c s = Some (status, s')" "status_range status" "given_back (out_of c) s s'"
    using call_contained [OF ffi_steps_ok [OF assms(1) ffi_start_ok] assms(2), of W] assms(3) by blast
  then show ?thesis by (simp add: status_range_def)
qed

section \<open>A closed handle\<close>

definition closed_at :: "nat \<Rightarrow> ffi \<Rightarrow> bool" where
  "closed_at p s \<longleftrightarrow> (\<exists>sv. map_of (ff_services s) p = Some sv \<and> fs_closed sv)"

definition keeps_closed :: "nat \<Rightarrow> boundary_output ffi_op \<Rightarrow> bool" where
  "keeps_closed p operation \<longleftrightarrow>
     (\<forall>s r s'. ffi_ok s \<longrightarrow> operation s = Some (r, s') \<longrightarrow> closed_at p s \<longrightarrow> closed_at p s')"

lemma closed_at_cell [simp]: "closed_at p (set_cell c q s) = closed_at p s"
  by (simp add: closed_at_def)

lemma closed_at_string [simp]: "closed_at p (give_string out v s) = closed_at p s"
  by (simp add: closed_at_def give_string_def)

lemma boundary_keeps_closed:
  assumes run: "ffi_boundary out operation s = Some (status, s')" and "ffi_ok s" "closed_at p s" "keeps_closed p operation"
  shows "closed_at p s'"
proof (cases "out = 0")
  case True
  then show ?thesis using assms by (simp add: ffi_boundary_def)
next
  case False
  then obtain r s1 where op: "operation (set_cell out 0 s) = Some (r, s1)"
    using run by (auto simp: ffi_boundary_def)
  have after: "s' = s1 \<or> (\<exists>v. s' = give_string out v s1)"
    using run op False
    by (cases "bo_value (case r of Inr v \<Rightarrow> v | Inl payload \<Rightarrow> output_error STATUS_PANIC (''Rust panic: '' @ panic_message payload))")
      (auto simp: ffi_boundary_def Let_def split: if_splits)
  have "closed_at p s1" using assms(2-4) op unfolding keeps_closed_def by (metis closed_at_cell ffi_ok_cell)
  then show ?thesis using after by auto
qed

lemma keeps_return: "keeps_closed p (return_output v)"
  by (simp add: keeps_closed_def return_output_def)

lemma closed_at_put:
  "closed_at p s \<Longrightarrow> map_of (ff_services s) q = Some sv \<Longrightarrow> (fs_closed sv \<Longrightarrow> fs_closed sv') \<Longrightarrow> closed_at p (put_service q sv' s)"
  by (auto simp: closed_at_def put_service_def update_conv')

lemma keeps_with_service:
  assumes "\<And>s sv r s'. map_of (ff_services s) q = Some sv \<Longrightarrow> k sv s = Some (r, s') \<Longrightarrow> closed_at p s \<Longrightarrow> closed_at p s'"
  shows "keeps_closed p (with_service q k)"
  using assms by (auto simp: keeps_closed_def with_service_def return_output_def Option.bind_eq_Some_conv split: if_splits)

lemma on_runtime_keeps:
  "map_of (ff_services s) q = Some sv \<Longrightarrow> (fs_closed sv \<Longrightarrow> fs_closed sv') \<Longrightarrow>
   on_runtime_of W q sv' program s = Some (r, s') \<Longrightarrow> closed_at p s \<Longrightarrow> closed_at p s'"
  by (auto simp: on_runtime_of_def return_output_def closed_at_put split: if_splits prod.splits)

lemma close_held_closes: "fs_closed sv \<or> \<not> fe_on_runtime W \<Longrightarrow> fs_closed (snd (close_held W sv))"
  by (auto simp: close_held_def reject_runtime_thread_def Let_def split: option.splits prod.splits)

lemma create_keeps_closed:
  assumes "inkhole_service_create W out_service out s = Some (status, s')" "ffi_ok s" "closed_at p s"
  shows "closed_at p s'"
  using assms(1) unfolding inkhole_service_create_def Let_def
  by (rule boundary_keeps_closed [OF _ assms(2,3)])
    (auto simp: keeps_closed_def return_output_def give_service_def closed_at_def ffi_ok_def dest: live_at
        split: if_splits sum.splits)

lemma held_keeps_closed:
  assumes "inkhole_service_call W q a d out s = Some (status, s') \<or> inkhole_service_poll_event W q t out s = Some (status, s') \<or>
      inkhole_service_reset W q out s = Some (status, s') \<or> inkhole_service_close W q out s = Some (status, s')"
    and "ffi_ok s" "closed_at p s"
  shows "closed_at p s'"
proof -
  note keeps = boundary_keeps_closed [OF _ assms(2,3) keeps_with_service]
  consider "inkhole_service_call W q a d out s = Some (status, s')" | "inkhole_service_poll_event W q t out s = Some (status, s')"
    | "inkhole_service_reset W q out s = Some (status, s')" | "inkhole_service_close W q out s = Some (status, s')"
    using assms(1) by blast
  then show ?thesis
  proof cases
    case 1
    then show ?thesis unfolding inkhole_service_call_def
      by (rule keeps) (auto simp: return_output_def dest: on_runtime_keeps split: if_splits sum.splits)
  next
    case 2
    then show ?thesis unfolding inkhole_service_poll_event_def Let_def
      by (rule keeps) (auto simp: return_output_def elim!: on_runtime_keeps [rotated 2] split: sum.splits)
  next
    case 3
    then show ?thesis unfolding inkhole_service_reset_def
      by (rule keeps) (auto simp: return_output_def dest: on_runtime_keeps split: if_splits)
  next
    case 4
    then show ?thesis unfolding inkhole_service_close_def
    proof (rule keeps)
      fix s sv r s'
      assume "map_of (ff_services s) q = Some sv" "closed_at p s"
        and "(case close_held W sv of (r, sv') \<Rightarrow> Some (r, put_service q sv' s)) = Some (r, s')"
      then show "closed_at p s'"
        using closed_at_put [of p s q sv "snd (close_held W sv)"] close_held_closes [of sv W] by (auto split: prod.splits)
    qed
  qed
qed

lemma destroy_keeps_closed:
  assumes "inkhole_service_destroy W q out s = Some (status, s')" "ffi_ok s" "closed_at p s" "q \<noteq> p"
  shows "closed_at p s'"
  using assms(1) unfolding inkhole_service_destroy_def
  by (rule boundary_keeps_closed [OF _ assms(2,3)])
    (use assms(4) in \<open>auto simp: keeps_closed_def return_output_def closed_at_def delete_conv' Option.bind_eq_Some_conv
        split: if_splits option.splits\<close>)

lemma call_keeps_closed:
  assumes "ffi_ok s" "closed_at p s" "\<forall>out. c \<noteq> Destroy p out" "run_call W c s = Some (status, s')"
  shows "closed_at p s'"
proof (cases c)
  case (FreeString q)
  then show ?thesis using assms(2,4) by (auto simp: inkhole_string_free_def closed_at_def split: if_splits)
qed (use assms in \<open>auto intro: create_keeps_closed destroy_keeps_closed held_keeps_closed\<close>)

lemma steps_keep_closed:
  "ffi_steps s cs s' \<Longrightarrow> ffi_ok s \<Longrightarrow> closed_at p s \<Longrightarrow> \<forall>out. Destroy p out \<notin> set cs \<Longrightarrow> closed_at p s'"
proof (induction rule: ffi_steps.induct)
  case (call s cs s' c W status s'')
  then show ?case using ffi_steps_ok [OF call.hyps(1)] call_keeps_closed [of s' p c W status s''] by auto
qed auto

lemma put_same: "map_of (ff_services s) p = Some sv \<Longrightarrow> put_service p sv s = s"
  by (simp add: put_service_def update_triv)

lemma close_closes:
  assumes "p \<noteq> 0" "p \<in> fst ` set (ff_services s)" "out \<noteq> 0" "\<not> fe_on_runtime W" "inkhole_service_close W p out s = Some (status, s')"
  shows "closed_at p s'"
proof -
  obtain sv where at: "map_of (ff_services (set_cell out 0 s)) p = Some sv"
    using assms(2) by (auto simp: map_of_eq_None_iff dest: weak_map_of_SomeI)
  obtain r sv' where held: "close_held W sv = (r, sv')" by fastforce
  have closed: "closed_at p (put_service p sv' (set_cell out 0 s))"
    using close_held_closes [of sv W] assms(4) held by (simp add: closed_at_def put_service_def update_conv')
  show ?thesis
    using assms(1,3,5) at held closed
    by (cases "bo_value (case r of Inr v \<Rightarrow> v | Inl payload \<Rightarrow> output_error STATUS_PANIC (''Rust panic: '' @ panic_message payload))")
      (auto simp: inkhole_service_close_def ffi_boundary_def with_service_def Let_def split: if_splits)
qed

lemma closed_refuses:
  assumes "p \<noteq> 0" "out \<noteq> 0" "closed_at p s"
  shows "inkhole_service_call W p a d out s = Some (STATUS_CLOSED, give_string out ''service is closed'' (set_cell out 0 s))"
    and "inkhole_service_reset W p out s = Some (STATUS_CLOSED, give_string out ''service is closed'' (set_cell out 0 s))"
    and "\<not> fe_on_runtime W \<Longrightarrow> inkhole_service_close W p out s = Some (STATUS_OK, set_cell out 0 s)"
  using assms
  by (auto simp: closed_at_def inkhole_service_call_def inkhole_service_reset_def inkhole_service_close_def ffi_boundary_def
      with_service_def return_output_def closed_output_def output_error_def output_empty_def close_held_def
      reject_runtime_thread_def put_same Let_def)

lemma closed_poll:
  assumes "p \<noteq> 0" "out \<noteq> 0" "closed_at p s" "inkhole_service_poll_event W p t out s = Some (status, s')"
  shows "status \<noteq> STATUS_NO_EVENT"
proof -
  obtain sv where sv: "map_of (ff_services (set_cell out 0 s)) p = Some sv" "fs_closed sv"
    using assms(3) by (auto simp: closed_at_def)
  obtain operation where op: "operation = with_service p (\<lambda>sv.
       case timeout_from_millis t of
         Inl err \<Rightarrow> return_output err
       | Inr timeout \<Rightarrow>
           let sv = sv\<lparr>fs_closed := fs_closed sv \<or> fe_closed_meanwhile W\<rparr> in
           on_runtime_of W p sv (\<lambda>service.
             case poll_event (fe_crates W) (timeout = Some 0) (fe_batches W) service of
               (Some event, service') \<Rightarrow> (output_ok event, service')
             | (None, service') \<Rightarrow>
                 (if fs_closed sv then closed_output else \<lparr>bo_status = STATUS_NO_EVENT, bo_value = None\<rparr>, service')))"
    by blast
  have "operation (set_cell out 0 s) = Some (Inr v, s1) \<Longrightarrow> bo_status v \<noteq> STATUS_NO_EVENT" for v s1
    using assms(1) sv
    by (auto simp: op with_service_def timeout_from_millis_def return_output_def on_runtime_of_def block_on_def
        closed_output_def output_error_def output_ok_def status_defs Let_def split: if_splits option.splits prod.splits)
  then show ?thesis
    using assms(2,4) unfolding inkhole_service_poll_event_def op [symmetric]
    by (auto simp: ffi_boundary_def Let_def output_error_def status_defs split: option.splits sum.splits if_splits)
qed

text \<open>C31: A closed handle stays closed. Once \<open>inkhole_service_close\<close> has been called on it off the runtime's threads,
  whatever status that call returned (also a timeout or a panic), and until the handle is destroyed, whatever else is
  called, every request and every reset is refused with status 4 and touches no service; a further close answers 0 and
  changes nothing; and a poll never answers ``no event'', so a polling thread ends.\<close>

theorem closed_handle_stays_closed:
  assumes "ffi_steps (ffi_start cells) cs s" "p \<noteq> 0" "allowed (CloseService p out) s" "out \<noteq> 0" "\<not> fe_on_runtime W"
    and "inkhole_service_close W p out s = Some (status, s1)"
    and "ffi_steps s1 cs' s2" "\<forall>out. Destroy p out \<notin> set cs'" "out' \<noteq> 0"
  shows "inkhole_service_call W' p a d out' s2 = Some (4, give_string out' ''service is closed'' (set_cell out' 0 s2)) \<and>
    inkhole_service_reset W' p out' s2 = Some (4, give_string out' ''service is closed'' (set_cell out' 0 s2)) \<and>
    (\<not> fe_on_runtime W' \<longrightarrow> inkhole_service_close W' p out' s2 = Some (0, set_cell out' 0 s2)) \<and>
    (\<forall>t status' s3. inkhole_service_poll_event W' p t out' s2 = Some (status', s3) \<longrightarrow> status' \<noteq> 1)"
proof -
  have ok: "ffi_ok s" by (rule ffi_steps_ok [OF assms(1) ffi_start_ok])
  have "ffi_ok s1" using call_contained [OF ok assms(3), of W] assms(6) by auto
  moreover have "closed_at p s1" using close_closes [OF assms(2) _ assms(4-6)] assms(2,3) by simp
  ultimately have "closed_at p s2" using steps_keep_closed [OF assms(7)] assms(8) by blast
  then show ?thesis
    using closed_refuses [OF assms(2,9)] closed_poll [OF assms(2,9)]
    unfolding STATUS_CLOSED_def STATUS_OK_def STATUS_NO_EVENT_def by blast
qed

text \<open>A library with one service under address 1: it is closed from an own thread, and a call then follows; and a call on
  a thread of the runtime, which panics.\<close>

definition sample_env :: "bool \<Rightarrow> ffi_env" where
  "sample_env inside = \<lparr>fe_crates = short_crates stop_request, fe_outside = busy_outside, fe_batches = [], fe_runtime = Inr (),
     fe_on_runtime = inside, fe_block_panic = StaticText ''nested runtime'', fe_program_panic = None, fe_partial_close = None,
     fe_closed_meanwhile = False, fe_utf8_error = (\<lambda>_. [])\<rparr>"

definition one_service :: ffi where
  "one_service = \<lparr>ff_services = [(1, \<lparr>fs_runtime = True, fs_service = new_service, fs_closed = False\<rparr>)], ff_strings = [],
     ff_cells = (\<lambda>_. 0)(20 := 1), ff_next = 2\<rparr>"

lemma one_service_steps: "ffi_steps (ffi_start (\<lambda>_. 0)) [Create 20 21] one_service"
proof -
  have "run_call (sample_env False) (Create 20 21) (ffi_start (\<lambda>_. 0)) = Some (0, one_service)"
    by (simp add: inkhole_service_create_def ffi_boundary_def sample_env_def return_output_def output_empty_def give_service_def
        set_cell_def ffi_start_def one_service_def STATUS_OK_def fun_eq_iff)
  then show ?thesis using ffi_steps.call [OF ffi_steps.none, of "Create 20 21"] by simp
qed

theorem ffi_calls_are_contained_witness:
  "\<exists>status s'. run_call (sample_env True) (Call 1 5 [123, 125] 22) one_service = Some (status, s') \<and> 0 \<le> status \<and> status \<le> 7 \<and>
     given_back 22 one_service s'"
  using ffi_calls_are_contained [OF one_service_steps, of "Call 1 5 [123, 125] 22" "sample_env True"]
  by (simp add: one_service_def)

theorem closed_handle_stays_closed_witness:
  "\<exists>status s. inkhole_service_close (sample_env False) 1 21 one_service = Some (status, s) \<and>
     inkhole_service_call (sample_env False) 1 5 [123, 125] 22 s =
       Some (4, give_string 22 ''service is closed'' (set_cell 22 0 s))"
proof -
  have live: "allowed (CloseService 1 21) one_service" by (simp add: one_service_def)
  have "ffi_ok one_service" by (simp add: ffi_ok_def one_service_def)
  then obtain status s where close: "inkhole_service_close (sample_env False) 1 21 one_service = Some (status, s)"
    using call_contained [OF _ live, of "sample_env False"] by auto
  have "\<not> fe_on_runtime (sample_env False)" by (simp add: sample_env_def)
  then show ?thesis
    using closed_handle_stays_closed [OF one_service_steps _ live _ _ close ffi_steps.none] close by simp
qed

section \<open>Release\<close>

text \<open>A destroy releases the handle, whatever status it returns, exactly if there is an output pointer and it is not called
  on a thread of the runtime. Its documentation says that the pointer is invalid even when the status is not 0.\<close>

lemma destroy_releases:
  assumes "ffi_ok s" "p \<noteq> 0" "p \<in> fst ` set (ff_services s)" "inkhole_service_destroy W p out s = Some (status, s')"
  shows "p \<notin> fst ` set (ff_services s') \<longleftrightarrow> out \<noteq> 0 \<and> \<not> fe_on_runtime W"
proof -
  obtain sv where "map_of (ff_services s) p = Some sv"
    using assms(3) by (auto simp: map_of_eq_None_iff dest: weak_map_of_SomeI)
  then show ?thesis
    using assms(2-4)
    by (auto simp: inkhole_service_destroy_def ffi_boundary_def reject_runtime_thread_def return_output_def Let_def
        give_string_def simp flip: set_map simp: delete_keys split: option.splits if_splits)
qed

end
