(* ===== verification/SshRelayProps.thy ===== *)
theory SshRelayProps
  imports SshRelay
begin

text \<open>
  What the relay sessions guarantee: however handlers interleave, a pairing code allows a bounded number of
  guesses and at most one pairing, and every peer a session trusts is well-formed; two sessions with
  one code pair, and two paired sessions agree on a data channel; the supervisor never takes over
  a connection with another port.
\<close>

section \<open>The budget of a pairing code\<close>

text \<open>
  The session, and a history: the codes that were made, those for which an attempt began, the attempts
  that are in progress, and those that succeeded. Each step is what one task does under the lock; a
  handler that is aborted never finishes its attempt. Codes are drawn at random: a
  fresh one has not been used before.
\<close>

record pairing_world =
  pw_session :: relay_session
  pw_made :: "string list"
  pw_begun :: "string list"
  pw_open :: "string list"
  pw_paired :: "string list"

datatype pairing_action =
    CreateCode "nat list list" nat
  | BeginAttempt nat
  | AttemptSucceeded string
  | AttemptFailed string
  | AttemptAborted string
  | TrustPeer ssh_peer
  | OtherChange relay_session

inductive pairing_step :: "crates \<Rightarrow> string list \<Rightarrow> pairing_world \<Rightarrow> pairing_action \<Rightarrow> pairing_world \<Rightarrow> bool"
  for E word_list where
  create: "create_pairing word_list draws now (pw_session w) = (Inr code, rs) \<Longrightarrow> code \<notin> set (pw_made w) \<Longrightarrow>
    pairing_step E word_list w (CreateCode draws now) (w\<lparr>pw_session := rs, pw_made := code # pw_made w\<rparr>)"
| begin_attempt: "begin_pairing_attempt now (pw_session w) = (Inr code, rs) \<Longrightarrow>
    pairing_step E word_list w (BeginAttempt now)
      (w\<lparr>pw_session := rs, pw_begun := code # pw_begun w, pw_open := code # pw_open w\<rparr>)"
| succeed: "code \<in> set (pw_open w) \<Longrightarrow>
    pairing_step E word_list w (AttemptSucceeded code)
      (w\<lparr>pw_session := finish_pairing_attempt code True (pw_session w),
         pw_open := remove1 code (pw_open w), pw_paired := code # pw_paired w\<rparr>)"
| fail: "code \<in> set (pw_open w) \<Longrightarrow>
    pairing_step E word_list w (AttemptFailed code)
      (w\<lparr>pw_session := finish_pairing_attempt code False (pw_session w), pw_open := remove1 code (pw_open w)\<rparr>)"
| abort: "code \<in> set (pw_open w) \<Longrightarrow>
    pairing_step E word_list w (AttemptAborted code) (w\<lparr>pw_open := remove1 code (pw_open w)\<rparr>)"
| trust: "pairing_step E word_list w (TrustPeer peer) (w\<lparr>pw_session := snd (add_peer E peer (pw_session w))\<rparr>)"
| other: "rs_peers rs = rs_peers (pw_session w) \<Longrightarrow> rs_identity rs = rs_identity (pw_session w) \<Longrightarrow>
    rs_pairing rs = rs_pairing (pw_session w) \<or> rs_pairing rs = None \<Longrightarrow>
    pairing_step E word_list w (OtherChange rs) (w\<lparr>pw_session := rs\<rparr>)"

definition pairing_init :: "crates \<Rightarrow> decode_key \<Rightarrow> (io_kind \<Rightarrow> string) \<Rightarrow> relay_config \<Rightarrow> pairing_world \<Rightarrow> bool" where
  "pairing_init E decode_key io_text config w \<longleftrightarrow>
     (\<exists>sv connected error. relay_start E decode_key io_text config sv = Inr (pw_session w, connected, error)) \<and>
     pw_made w = [] \<and> pw_begun w = [] \<and> pw_open w = [] \<and> pw_paired w = []"

text \<open>
  The invariant: of the active code, the attempts that began are those that failed and the one in use;
  no code has more attempts in progress or finished with success than one.
\<close>

definition code_budget :: "pairing_world \<Rightarrow> bool" where
  "code_budget w \<longleftrightarrow>
     (\<forall>code. count_list (pw_begun w) code \<le> MAX_PAIRING_ATTEMPTS \<and>
        count_list (pw_open w) code + count_list (pw_paired w) code \<le> 1 \<and>
        (code \<in> set (pw_begun w) \<union> set (pw_open w) \<union> set (pw_paired w) \<longrightarrow> code \<in> set (pw_made w))) \<and>
     (case rs_pairing (pw_session w) of
        None \<Rightarrow> True
      | Some a \<Rightarrow>
          ap_code a \<in> set (pw_made w) \<and> ap_failed_attempts a < MAX_PAIRING_ATTEMPTS \<and>
          count_list (pw_begun w) (ap_code a) = ap_failed_attempts a + (if ap_in_use a then 1 else 0) \<and>
          ap_code a \<notin> set (pw_paired w) \<and> (ap_code a \<in> set (pw_open w) \<longrightarrow> ap_in_use a))"

lemma count_list_remove1: "count_list (remove1 x xs) y = count_list xs y - (if x = y then 1 else 0)"
  by (induction xs) (auto simp: count_list_0_iff)

lemma code_budget_create:
  assumes "code_budget w" "create_pairing word_list draws now (pw_session w) = (Inr code, rs)" "code \<notin> set (pw_made w)"
  shows "code_budget (w\<lparr>pw_session := rs, pw_made := code # pw_made w\<rparr>)"
proof -
  have "rs_pairing rs = Some (active_new code (now + PAIRING_LIFETIME_MS))"
    using assms(2) by (auto simp: create_pairing_def split: if_splits sum.splits)
  moreover have "code \<notin> set (pw_begun w)" "code \<notin> set (pw_open w)" "code \<notin> set (pw_paired w)"
    using assms(1,3) by (auto simp: code_budget_def)
  ultimately show ?thesis
    using assms(1) by (auto simp: code_budget_def active_new_def MAX_PAIRING_ATTEMPTS_def count_list_0_iff)
qed

lemma begin_pairing_attempt_Inr:
  assumes "begin_pairing_attempt now rs = (Inr code, rs')"
  obtains a where "rs_pairing rs = Some a" "code = ap_code a" "\<not> ap_in_use a" "active_is_live a now"
    "ap_failed_attempts a < MAX_PAIRING_ATTEMPTS" "rs' = rs\<lparr>rs_pairing := Some (a\<lparr>ap_in_use := True\<rparr>)\<rparr>"
  using assms
  by (auto simp: begin_pairing_attempt_def active_begin_def reject_if_def split: option.splits sum.splits if_splits)

lemma code_budget_begin:
  assumes "code_budget w" "begin_pairing_attempt now (pw_session w) = (Inr code, rs)"
  shows "code_budget (w\<lparr>pw_session := rs, pw_begun := code # pw_begun w, pw_open := code # pw_open w\<rparr>)"
proof -
  from assms(2) obtain a where "rs_pairing (pw_session w) = Some a" "code = ap_code a" "\<not> ap_in_use a"
      "ap_failed_attempts a < MAX_PAIRING_ATTEMPTS" "rs = (pw_session w)\<lparr>rs_pairing := Some (a\<lparr>ap_in_use := True\<rparr>)\<rparr>"
    by (rule begin_pairing_attempt_Inr)
  moreover from this assms(1) have "code \<notin> set (pw_open w)" "code \<notin> set (pw_paired w)"
    by (auto simp: code_budget_def)
  ultimately show ?thesis
    using assms(1) by (auto simp: code_budget_def count_list_0_iff)
qed

lemma code_budget_finish:
  assumes "code_budget w" "code \<in> set (pw_open w)"
  shows "code_budget (w\<lparr>pw_session := finish_pairing_attempt code success (pw_session w),
    pw_open := remove1 code (pw_open w), pw_paired := (if success then code # pw_paired w else pw_paired w)\<rparr>)"
proof -
  have 1: "count_list (pw_open w) code = 1" "count_list (pw_paired w) code = 0"
  proof -
    have "count_list (pw_open w) code \<noteq> 0" using assms(2) by (simp add: count_list_0_iff)
    moreover have "count_list (pw_open w) code + count_list (pw_paired w) code \<le> 1"
      using assms(1) by (simp add: code_budget_def)
    ultimately show "count_list (pw_open w) code = 1" "count_list (pw_paired w) code = 0" by linarith+
  qed
  have made: "code \<in> set (pw_made w)" using assms by (simp add: code_budget_def)
  have gone: "code \<notin> set (remove1 code (pw_open w))"
    unfolding count_list_0_iff [symmetric] by (simp add: 1 count_list_remove1)
  show ?thesis
    using assms 1 made gone
    by (auto simp: code_budget_def finish_pairing_attempt_def active_finish_def Let_def count_list_remove1
        count_list_0_iff dest: notin_set_remove1 set_remove1_subset [THEN subsetD] split: option.splits if_splits)
qed

lemma code_budget_session:
  "code_budget w \<Longrightarrow> rs_pairing rs = rs_pairing (pw_session w) \<or> rs_pairing rs = None \<Longrightarrow>
     code_budget (w\<lparr>pw_session := rs\<rparr>)"
  by (auto simp: code_budget_def split: option.split)

lemma add_peer_keeps [simp]:
  "rs_pairing (snd (add_peer E peer rs)) = rs_pairing rs"
  "rs_identity (snd (add_peer E peer rs)) = rs_identity rs"
  by (simp_all add: add_peer_def split: sum.split)

lemma relay_start_Inr:
  assumes "relay_start E decode_key io_text config sv = Inr (rs, connected, error)"
  shows "rs_pairing rs = None" "rs_identity rs = rg_identity config" "\<not> rs_cancelled rs"
    "start_peers E (id_instance_id (rg_identity config)) (rg_peers config) [] = Inr (rs_peers rs)"
    "case rs_client rs of Some client \<Rightarrow> sc_remote_port client = rs_remote_port rs | None \<Rightarrow> True"
  using assms
  by (auto simp: relay_start_def result_simps split: sum.splits if_splits prod.splits)

interpretation pairing: machine "pairing_init E decode_key io_text config" "pairing_step E word_list" code_budget
proof unfold_locales
  fix w assume "pairing_init E decode_key io_text config w"
  then show "code_budget w"
    by (auto simp: pairing_init_def code_budget_def dest: relay_start_Inr(1))
next
  fix w l w' assume w: "code_budget w" and step: "pairing_step E word_list w l w'"
  from step show "code_budget w'"
  proof cases
    case (abort code)
    with w show ?thesis
      by (auto simp: code_budget_def count_list_remove1 dest: set_remove1_subset [THEN subsetD] split: option.splits)
  next
    case (trust peer)
    then show ?thesis by (auto intro: code_budget_session [OF w])
  next
    case (other rs)
    then show ?thesis by (auto intro: code_budget_session [OF w])
  next
    case (succeed code)
    then show ?thesis using code_budget_finish [OF w, of code True] by simp
  next
    case (fail code)
    then show ?thesis using code_budget_finish [OF w, of code False] by simp
  qed (auto intro: code_budget_create code_budget_begin w)
qed

text \<open>C34: However the tasks of a session interleave, a pairing code gives the server or anybody else who
  can reach the forwarded port at most five guesses, one at a time, and pairs at most one device: an attempt
  counts from the moment it begins, also when its handler is aborted.
\<close>

theorem pairing_code_budget:
  assumes "reachable (pairing_init E decode_key io_text config) (pairing_step E word_list) w"
  shows "count_list (pw_begun w) code \<le> MAX_PAIRING_ATTEMPTS \<and> count_list (pw_open w) code \<le> 1 \<and>
    count_list (pw_paired w) code \<le> 1 \<and> \<not> (code \<in> set (pw_open w) \<and> code \<in> set (pw_paired w))"
proof -
  have "count_list (pw_begun w) code \<le> MAX_PAIRING_ATTEMPTS"
    "count_list (pw_open w) code + count_list (pw_paired w) code \<le> 1"
    using pairing.reachable_inv [OF assms] by (simp_all add: code_budget_def)
  moreover have "\<not> (code \<in> set (pw_open w) \<and> code \<in> set (pw_paired w))"
  proof
    assume "code \<in> set (pw_open w) \<and> code \<in> set (pw_paired w)"
    then have "count_list (pw_open w) code \<noteq> 0" "count_list (pw_paired w) code \<noteq> 0"
      by (simp_all add: count_list_0_iff)
    with calculation(2) show False by linarith
  qed
  ultimately show ?thesis by simp
qed

section \<open>The peers of a session\<close>

definition trusted_ok :: "crates \<Rightarrow> string \<Rightarrow> (string \<times> ssh_peer) list \<Rightarrow> bool" where
  "trusted_ok E local_id peers \<longleftrightarrow>
     distinct (map fst peers) \<and>
     (\<forall>(k, p) \<in> set peers. k = sr_instance_id p \<and> k \<noteq> local_id \<and> sr_end_to_end p \<and>
        pairing_validate E (peer_identity p) = Inr ())"

lemma peer_normalize_Inr:
  "peer_normalize E local_id raw = Inr p \<Longrightarrow>
     sr_instance_id p \<noteq> local_id \<and> sr_end_to_end p \<and> pairing_validate E (peer_identity p) = Inr ()"
  by (auto simp: peer_normalize_def Let_def result_simps)

lemma trusted_ok_update:
  assumes "trusted_ok E local_id peers" "peer_normalize E local_id raw = Inr p"
  shows "trusted_ok E local_id (AList.update (sr_instance_id p) p peers)"
proof -
  have "set (AList.update k v xs) \<subseteq> insert (k, v) (set xs)" for k v and xs :: "(string \<times> ssh_peer) list"
    by (induction xs) auto
  then have "case kp of (k, q) \<Rightarrow> kp \<in> set peers \<or> k = sr_instance_id p \<and> q = p"
    if "kp \<in> set (AList.update (sr_instance_id p) p peers)" for kp
    using that by blast
  then show ?thesis
    using assms(1) peer_normalize_Inr [OF assms(2)]
    unfolding trusted_ok_def by (fastforce simp: distinct_update)
qed

lemma start_peers_ok:
  "trusted_ok E local_id peers \<Longrightarrow> start_peers E local_id raws peers = Inr peers' \<Longrightarrow> trusted_ok E local_id peers'"
  by (induction raws arbitrary: peers) (auto simp: result_simps intro: trusted_ok_update)

lemma add_peer_ok:
  "trusted_ok E (id_instance_id (rs_identity rs)) (rs_peers rs) \<Longrightarrow>
     trusted_ok E (id_instance_id (rs_identity rs)) (rs_peers (snd (add_peer E peer rs)))"
  by (auto simp: add_peer_def intro: trusted_ok_update split: sum.split)

definition peers_inv :: "crates \<Rightarrow> relay_config \<Rightarrow> pairing_world \<Rightarrow> bool" where
  "peers_inv E config w \<longleftrightarrow> rs_identity (pw_session w) = rg_identity config \<and>
     trusted_ok E (id_instance_id (rg_identity config)) (rs_peers (pw_session w))"

lemma pairing_attempt_keeps [simp]:
  "rs_peers (finish_pairing_attempt code success rs) = rs_peers rs"
  "rs_identity (finish_pairing_attempt code success rs) = rs_identity rs"
  "begin_pairing_attempt now rs = (r, rs') \<Longrightarrow> rs_peers rs' = rs_peers rs \<and> rs_identity rs' = rs_identity rs"
  "create_pairing word_list draws now rs = (r, rs') \<Longrightarrow> rs_peers rs' = rs_peers rs \<and> rs_identity rs' = rs_identity rs"
  by (auto simp: finish_pairing_attempt_def begin_pairing_attempt_def create_pairing_def
      split: option.splits sum.splits if_splits prod.splits)

interpretation trusted: machine "pairing_init E decode_key io_text config" "pairing_step E word_list" "peers_inv E config"
proof unfold_locales
  fix w assume "pairing_init E decode_key io_text config w"
  then obtain sv connected error where
    start: "relay_start E decode_key io_text config sv = Inr (pw_session w, connected, error)"
    by (auto simp: pairing_init_def)
  have "trusted_ok E local_id []" for local_id by (simp add: trusted_ok_def)
  from start_peers_ok [OF this relay_start_Inr(4) [OF start]] relay_start_Inr(2) [OF start]
  show "peers_inv E config w" by (simp add: peers_inv_def)
next
  fix w l w' assume "peers_inv E config w" "pairing_step E word_list w l w'"
  from this(2,1) show "peers_inv E config w'"
  proof cases
    case (trust peer)
    then show ?thesis
      using \<open>peers_inv E config w\<close> add_peer_ok [of E "pw_session w"] by (simp add: peers_inv_def)
  next
    case (other rs)
    then show ?thesis using \<open>peers_inv E config w\<close> by (simp add: peers_inv_def)
  qed (use \<open>peers_inv E config w\<close> in \<open>auto simp: peers_inv_def\<close>)
qed

text \<open>C39: Every peer a relay session trusts, in any state it can reach, is well-formed: its name, instance id, port
  and public key are valid, it is not the device itself, its transfers are end-to-end encrypted, and
  there is one entry per instance id; \<open>peer_list\<close> shows each of them once, by name and instance id.
\<close>

theorem relay_peers_are_valid:
  assumes "reachable (pairing_init E decode_key io_text config) (pairing_step E word_list) w"
  shows "(has_peer (pw_session w) i \<longleftrightarrow> (\<exists>p \<in> set (peer_list (pw_session w)). sr_instance_id p = i)) \<and>
    distinct (map sr_instance_id (peer_list (pw_session w))) \<and>
    sorted (map (\<lambda>p. (sr_name p, sr_instance_id p)) (peer_list (pw_session w))) \<and>
    (\<forall>p \<in> set (peer_list (pw_session w)).
       pairing_validate E (peer_identity p) = Inr () \<and> sr_end_to_end p \<and>
       sr_instance_id p \<noteq> id_instance_id (rg_identity config))"
proof -
  have ok: "trusted_ok E (id_instance_id (rg_identity config)) (rs_peers (pw_session w))"
    using trusted.reachable_inv [OF assms] by (simp add: peers_inv_def)
  then have keys: "map sr_instance_id (map snd (rs_peers (pw_session w))) = map fst (rs_peers (pw_session w))"
    by (auto simp: trusted_ok_def)
  have "mset (map sr_instance_id (peer_list (pw_session w))) = mset (map sr_instance_id (map snd (rs_peers (pw_session w))))"
    by (simp add: peer_list_def multiset.map_comp)
  then have "distinct (map sr_instance_id (peer_list (pw_session w))) = distinct (map fst (rs_peers (pw_session w)))"
    unfolding keys by (rule mset_eq_imp_distinct_iff)
  moreover have "has_peer (pw_session w) i \<longleftrightarrow> (\<exists>p \<in> set (peer_list (pw_session w)). sr_instance_id p = i)"
  proof -
    have "has_peer (pw_session w) i \<longleftrightarrow> i \<in> set (map fst (rs_peers (pw_session w)))"
      by (simp add: has_peer_def map_of_eq_None_iff)
    then show ?thesis unfolding keys [symmetric] by (auto simp: peer_list_def)
  qed
  ultimately show ?thesis
    using ok by (auto simp: trusted_ok_def peer_list_def)
qed

section \<open>The supervisor\<close>

definition supervisor_init :: "relay_session \<Rightarrow> supervisor \<Rightarrow> bool" where
  "supervisor_init rs su \<longleftrightarrow>
     su = \<lparr>su_session = rs, su_current = rs_client rs, su_backoff = 1, su_running = True, su_events = []\<rparr>"

definition supervisor_inv :: "nat \<Rightarrow> supervisor \<Rightarrow> bool" where
  "supervisor_inv port su \<longleftrightarrow>
     1 \<le> su_backoff su \<and> su_backoff su \<le> MAX_RECONNECT_BACKOFF \<and> rs_remote_port (su_session su) = port \<and>
     (case rs_client (su_session su) of Some client \<Rightarrow> sc_remote_port client = port | None \<Rightarrow> True) \<and>
     (su_running su \<longrightarrow> \<not> rs_cancelled (su_session su) \<longrightarrow> su_current su = rs_client (su_session su)) \<and>
     (\<not> su_running su \<longrightarrow> rs_cancelled (su_session su))"

lemmas supervisor_defs = supervisor_inv_def su_emit_def su_stop_def double_backoff_def reconnected_def relay_close_def Let_def

lemma supervisor_inv_step: "supervisor_inv port su \<Longrightarrow> supervisor_inv port (supervisor_step io_text su event)"
  by (cases event)
     (auto simp: supervisor_step_def supervisor_defs MAX_RECONNECT_BACKOFF_def split: sum.split option.splits)

text \<open>Whatever happens to the connection of a relay session, its port never changes: the supervisor only
  ever installs a connection with the port the session started with, which is the port peers and
  pairing codes name; while it runs, the connection that handlers find is the one it supervises; it
  tries again after 1 to 30 seconds, and when it ends the session is cancelled.
\<close>

theorem supervisor_keeps_port:
  assumes "relay_start E decode_key io_text config sv = Inr (rs, connected, error)"
    and "reachable (supervisor_init rs) (\<lambda>su event su'. su' = supervisor_step io_text su event) su"
  shows "1 \<le> su_backoff su \<and> su_backoff su \<le> MAX_RECONNECT_BACKOFF \<and>
    rs_remote_port (su_session su) = rs_remote_port rs \<and>
    (case rs_client (su_session su) of Some client \<Rightarrow> sc_remote_port client = rs_remote_port rs | None \<Rightarrow> True) \<and>
    (su_running su \<and> \<not> rs_cancelled (su_session su) \<longrightarrow> su_current su = rs_client (su_session su)) \<and>
    (\<not> su_running su \<longrightarrow> rs_cancelled (su_session su))"
proof -
  from assms(2) have "supervisor_inv (rs_remote_port rs) su"
  proof induction
    case (reachable_init su)
    then show ?case
      using relay_start_Inr(5) [OF assms(1)]
      by (auto simp: supervisor_init_def supervisor_inv_def MAX_RECONNECT_BACKOFF_def)
  next
    case (reachable_step su event su')
    then show ?case by (simp add: supervisor_inv_step)
  qed
  then show ?thesis by (simp add: supervisor_inv_def)
qed

section \<open>An example\<close>

definition sample_raw_peer :: ssh_peer where
  "sample_raw_peer = \<lparr>sr_id = [], sr_name = ''lap'', sr_instance_id = replicate 32 CHR ''b'', sr_remote_port = 7001,
     sr_noise_public = public_key_base64 sample_crates sample_laptop, sr_end_to_end = False\<rparr>"

definition sample_peer_entry :: ssh_peer where
  "sample_peer_entry = sample_raw_peer\<lparr>sr_id := replicate 32 CHR ''b'', sr_end_to_end := True\<rparr>"

definition sample_relay_config :: relay_config where
  "sample_relay_config = \<lparr>rg_lan_session_id = ''lan'', rg_profile = sample_profile, rg_requested_port = 0,
     rg_identity = sample_identity, rg_peers = [sample_raw_peer]\<rparr>"

definition sample_relay :: relay_session where
  "sample_relay = \<lparr>rs_lan_session_id = ''lan'', rs_identity = sample_identity, rs_remote_port = 7000,
     rs_peers = [(replicate 32 CHR ''b'', sample_peer_entry)],
     rs_client = Some \<lparr>sc_remote_port = 7000, sc_connected = True,
       sc_forward = \<lparr>fw_port = 7000, fw_pending = False\<rparr>, sc_open = True\<rparr>,
     rs_pairing = None, rs_cancelled = False\<rparr>"

lemma sample_peer_normal: "peer_normalize sample_crates (id_instance_id sample_identity) sample_raw_peer = Inr sample_peer_entry"
proof -
  have i: "trim (replicate 32 CHR ''b'') = replicate 32 CHR ''b''"
    "to_ascii_lowercase (replicate 32 CHR ''b'') = replicate 32 CHR ''b''" "valid_instance_id (replicate 32 CHR ''b'')"
    by (simp_all add: trim_graphic list_all_iff to_ascii_lowercase_def ascii_lower_char_def valid_instance_id_def
        is_lower_hex_def is_digit_def)
  have k: "trim (public_key_base64 sample_crates sample_laptop) = public_key_base64 sample_crates sample_laptop"
    by (simp add: public_key_base64_def sample_crates_def trim_lower_hex lower_hex_text)
  have v: "is_ok (ssh_verifying_key sample_crates (public_key_base64 sample_crates sample_laptop))"
    by (simp add: public_key_base64_def ssh_verifying_key_def decode_array_def sample_crates_def sample_laptop_def is_ok_def)
  have [simp]: "trim [] = []" "trim ''lap'' = ''lap''" by (simp_all add: trim_graphic)
  show ?thesis
    using v i(3) by (simp add: peer_normalize_def sample_raw_peer_def sample_peer_entry_def i k Let_def peer_identity_def
        pairing_validate_def is_ok_def split: sum.splits) (simp add: sample_identity_def eval_nat_numeral)
qed

lemma sample_relay_start:
  "relay_start sample_crates sample_decode_key (\<lambda>_. []) sample_relay_config (sample_ssh_server sample_host_key) =
     Inr (sample_relay, True, None)"
  using sample_peer_normal
  by (simp add: relay_start_def sample_relay_config_def trim_graphic validate_relay_def sample_profile_normal
      parse_private_key_def sample_decode_key_def [abs_def] sample_connection [unfolded sample_decode_key_def [abs_def]]
      sample_relay_def sample_peer_entry_def sample_raw_peer_def)

text \<open>A world with a code for which an attempt has begun.\<close>

definition sample_pairing_world :: pairing_world where
  "sample_pairing_world = \<lparr>pw_session = sample_relay\<lparr>rs_pairing :=
       Some (active_new sample_pair_code (1 + PAIRING_LIFETIME_MS)\<lparr>ap_in_use := True\<rparr>)\<rparr>,
     pw_made = [sample_pair_code], pw_begun = [sample_pair_code], pw_open = [sample_pair_code], pw_paired = []\<rparr>"

lemma sample_pairing_reachable:
  "reachable (pairing_init sample_crates sample_decode_key (\<lambda>_. []) sample_relay_config)
     (pairing_step sample_crates sample_words) sample_pairing_world"
proof -
  let ?w0 = "\<lparr>pw_session = sample_relay, pw_made = [], pw_begun = [], pw_open = [], pw_paired = []\<rparr>"
  let ?rs = "sample_relay\<lparr>rs_pairing := Some (active_new sample_pair_code (1 + PAIRING_LIFETIME_MS))\<rparr>"
  let ?w1 = "?w0\<lparr>pw_session := ?rs, pw_made := [sample_pair_code]\<rparr>"
  have 0: "pairing_init sample_crates sample_decode_key (\<lambda>_. []) sample_relay_config ?w0"
    using sample_relay_start by (auto simp: pairing_init_def)
  have "create_pairing sample_words [[0, 1, 0, 1]] 1 (pw_session ?w0) = (Inr sample_pair_code, ?rs)"
    using sample_pair_code_generated by (simp add: create_pairing_def session_connected_def sample_relay_def)
  from pairing_step.create [OF this, where E = sample_crates]
  have 1: "pairing_step sample_crates sample_words ?w0 (CreateCode [[0, 1, 0, 1]] 1) ?w1" by simp
  have "begin_pairing_attempt 2 (pw_session ?w1) = (Inr sample_pair_code, pw_session sample_pairing_world)"
    by (simp add: begin_pairing_attempt_def active_begin_def active_new_def active_is_live_def PAIRING_LIFETIME_MS_def
        MAX_PAIRING_ATTEMPTS_def sample_pairing_world_def)
  from pairing_step.begin_attempt [OF this, where E = sample_crates and word_list = sample_words]
  have 2: "pairing_step sample_crates sample_words ?w1 (BeginAttempt 2) sample_pairing_world"
    by (simp add: sample_pairing_world_def)
  show ?thesis
    using 0 1 2 by (meson reachable_init reachable_step)
qed

theorem pairing_code_budget_witness:
  "count_list (pw_begun sample_pairing_world) sample_pair_code = 1 \<and>
   count_list (pw_begun sample_pairing_world) sample_pair_code \<le> MAX_PAIRING_ATTEMPTS \<and>
   count_list (pw_open sample_pairing_world) sample_pair_code \<le> 1"
  using pairing_code_budget [OF sample_pairing_reachable, of sample_pair_code]
  by (simp add: sample_pairing_world_def)

theorem relay_peers_are_valid_witness:
  "has_peer (pw_session sample_pairing_world) (replicate 32 CHR ''b'') \<and>
   (\<exists>p \<in> set (peer_list (pw_session sample_pairing_world)). sr_instance_id p = replicate 32 CHR ''b'' \<and>
      pairing_validate sample_crates (peer_identity p) = Inr ())"
proof -
  have "has_peer (pw_session sample_pairing_world) (replicate 32 CHR ''b'')"
    by (simp add: has_peer_def sample_pairing_world_def sample_relay_def)
  then show ?thesis
    using relay_peers_are_valid [OF sample_pairing_reachable, of "replicate 32 CHR ''b''"] by blast
qed

theorem supervisor_keeps_port_witness:
  "rs_remote_port (su_session (supervisor_step (\<lambda>_. [])
      \<lparr>su_session = sample_relay, su_current = rs_client sample_relay, su_backoff = 1, su_running = True, su_events = []\<rparr>
      ConnectionLost)) = rs_remote_port sample_relay"
proof -
  let ?su = "\<lparr>su_session = sample_relay, su_current = rs_client sample_relay, su_backoff = 1, su_running = True, su_events = []\<rparr>"
  have "reachable (supervisor_init sample_relay) (\<lambda>su event su'. su' = supervisor_step (\<lambda>_. []) su event)
      (supervisor_step (\<lambda>_. []) ?su ConnectionLost)"
    by (rule reachable_step [OF reachable_init]) (simp_all add: supervisor_init_def)
  from supervisor_keeps_port [OF sample_relay_start this] show ?thesis by blast
qed

end
