(* ===== verification/SshExchange.thy ===== *)
theory SshExchange
  imports SshRelayProps
begin

text \<open>
  Two relay sessions together: \<open>join_pairing\<close> against \<open>handle_incoming\<close>, each reading what the other
  writes, and then \<open>connect_sender\<close> against \<open>handle_incoming\<close> between the paired sessions.
\<close>

section \<open>Runs without faults\<close>

lemma post_write_mode:
  "calm s \<Longrightarrow> post (write_channel_mode mode) s Q \<longleftrightarrow>
     Q (Inr ()) (s\<lparr>nt_step := Suc (nt_step s), nt_output := nt_output s @ mode_magic mode\<rparr>)"
  by (simp add: post_def write_channel_mode_def net_write_def)

lemma length_mode_magic [simp]: "length (mode_magic mode) = 4"
  by (cases mode) (simp_all add: PAIR_CHANNEL_MAGIC_def DATA_CHANNEL_MAGIC_def)

lemma magics_differ [simp]: "DATA_CHANNEL_MAGIC \<noteq> PAIR_CHANNEL_MAGIC"
  by (simp add: PAIR_CHANNEL_MAGIC_def DATA_CHANNEL_MAGIC_def)

lemma post_read_mode:
  assumes "calm s" "nt_input s = mode_magic mode @ rest"
  shows "post read_channel_mode s Q \<longleftrightarrow> Q (Inr mode) (s\<lparr>nt_step := Suc (nt_step s), nt_input := rest\<rparr>)"
proof -
  have "read_exact 4 (mode_magic mode @ rest) = Inr (mode_magic mode, rest)"
    by (simp add: read_exact_def)
  then have "net_call handshake_fault (net_decode (read_exact 4)) s =
      (Inr (mode_magic mode), s\<lparr>nt_step := Suc (nt_step s), nt_input := rest\<rparr>)"
    using assms by (simp add: net_decode_def)
  then show ?thesis
    by (cases mode) (simp_all add: post_def read_channel_mode_def io_bind_def io_match_def io_ret_def)
qed

lemma post_on_session:
  "post (on_session f) s Q \<longleftrightarrow> Q (fst (f (rn_session s))) (s\<lparr>rn_session := snd (f (rn_session s))\<rparr>)"
  by (simp add: post_def on_session_def split: prod.split)

lemma post_relay_emit:
  "post (relay_emit event data) s Q \<longleftrightarrow>
     Q (Inr ()) (if rs_cancelled (rn_session s) then s else s\<lparr>rn_events := rn_events s @ [(event, data)]\<rparr>)"
  by (simp add: post_def relay_emit_def)

lemma pair_code_port_normalized:
  assumes "normalize_pair_code word_list typed = Inr code"
  obtains port where "pair_code_port word_list typed = Inr port" "port \<noteq> 0" "port \<le> u16_max"
proof -
  have "length (split_on CHR ''-'' code) = PAIR_CODE_WORDS + 1" "pair_port (split_on CHR ''-'' code ! 0) \<noteq> None"
    using assms by (auto simp: normalize_pair_code_def Let_def result_simps)
  moreover from this(1) have "hd (split_on CHR ''-'' code) = split_on CHR ''-'' code ! 0"
    by (intro hd_conv_nth) auto
  ultimately obtain port where "pair_port (hd (split_on CHR ''-'' code)) = Some port" by auto
  moreover from this have "port \<noteq> 0" "port \<le> u16_max"
    by (auto simp: pair_port_def dest: parse_u16_bound split: option.splits if_splits)
  ultimately show ?thesis using assms by (intro that) (simp_all add: pair_code_port_def)
qed

section \<open>What is kept of a paired device\<close>

definition trusted_peer :: "crates \<Rightarrow> pairing_identity \<Rightarrow> ssh_peer" where
  "trusted_peer E p =
     \<lparr>sr_id = pi_instance_id p, sr_name = trim (pi_name p), sr_instance_id = pi_instance_id p,
      sr_remote_port = pi_remote_port p, sr_noise_public = pi_public_key p, sr_end_to_end = True\<rparr>"

lemma valid_instance_id_text:
  assumes "valid_instance_id i"
  shows "trim i = i" "to_ascii_lowercase i = i" "i \<noteq> []"
  using assms
  by (auto simp: valid_instance_id_def trim_lower_hex to_ascii_lowercase_def list_all_iff ascii_lower_char_lower_hex
      intro: map_idI)

lemma peer_identity_trusted: "peer_identity (trusted_peer E p) = p\<lparr>pi_name := trim (pi_name p)\<rparr>"
  by (simp add: peer_identity_def trusted_peer_def)

lemma trusted_validate:
  assumes "pairing_validate E p = Inr ()"
  shows "pairing_validate E (peer_identity (trusted_peer E p)) = Inr ()"
  using assms length_trim [of "pi_name p"]
  by (auto simp: peer_identity_trusted pairing_validate_def result_simps)

lemma add_trusted:
  assumes "pairing_validate E p = Inr ()" "trim (pi_public_key p) = pi_public_key p"
    and "pi_instance_id p \<noteq> id_instance_id (rs_identity rs)"
  shows "\<exists>raw. peer_from_identity E p = Inr raw \<and>
    add_peer E raw rs = (Inr (trusted_peer E p), rs\<lparr>rs_peers := AList.update (pi_instance_id p) (trusted_peer E p) (rs_peers rs)\<rparr>)"
proof -
  have "valid_instance_id (pi_instance_id p)"
    using assms(1) by (auto simp: pairing_validate_def result_simps)
  then show ?thesis
    using assms valid_instance_id_text [of "pi_instance_id p"] trusted_validate [OF assms(1)]
    by (simp add: peer_from_identity_def add_peer_def peer_normalize_def trusted_peer_def Let_def)
qed

text \<open>The session has the device as a peer.\<close>

definition knows :: "crates \<Rightarrow> relay_session \<Rightarrow> pairing_identity \<Rightarrow> bool" where
  "knows E rs p \<longleftrightarrow> map_of (rs_peers rs) (pi_instance_id p) = Some (trusted_peer E p)"

lemma post_trust_peer:
  assumes "pairing_validate E p = Inr ()" "trim (pi_public_key p) = pi_public_key p"
    and "pi_instance_id p \<noteq> id_instance_id (rs_identity (rn_session s))"
  shows "post (trust_peer E p) s (\<lambda>r s'. r = Inr (trusted_peer E p) \<and> knows E (rn_session s') p \<and>
    rs_pairing (rn_session s') = rs_pairing (rn_session s) \<and> nt_output s' = nt_output s)"
proof -
  obtain raw where "peer_from_identity E p = Inr raw" "add_peer E raw (rn_session s) = (Inr (trusted_peer E p),
      (rn_session s)\<lparr>rs_peers := AList.update (pi_instance_id p) (trusted_peer E p) (rs_peers (rn_session s))\<rparr>)"
    using add_trusted [OF assms] by blast
  then show ?thesis
    by (simp add: trust_peer_def post_on_session post_relay_emit knows_def update_conv')
qed

section \<open>Two sessions pair\<close>

text \<open>The SPAKE2 runs of the two ends agree on a key when they have the same code.\<close>

definition pake_agrees :: "pake_start \<Rightarrow> pake_start \<Rightarrow> string \<Rightarrow> bool" where
  "pake_agrees pa pb code \<longleftrightarrow>
     (\<exists>shared. snd (pa (str_bytes code) PAIRING_APP_ID) (fst (pb (str_bytes code) PAIRING_APP_ID)) = Inr shared \<and>
        snd (pb (str_bytes code) PAIRING_APP_ID) (fst (pa (str_bytes code) PAIRING_APP_ID)) = Inr shared)"

definition pairing_key :: "crates \<Rightarrow> pake_start \<Rightarrow> pake_start \<Rightarrow> string \<Rightarrow> bytes" where
  "pairing_key E pa pb code =
     hkdf_sha256 E (projr (snd (pa (str_bytes code) PAIRING_APP_ID) (fst (pb (str_bytes code) PAIRING_APP_ID))))
       (str_bytes ''inkhole/ssh-pair-v2/control'')"

definition pake_value :: "crates \<Rightarrow> pake_start \<Rightarrow> string \<Rightarrow> jvalue" where
  "pake_value E pa code = pake_frame_json (hex_encode E (fst (pa (str_bytes code) PAIRING_APP_ID)))"

text \<open>A session that can pair: its own identity is valid, and its public key is plain text.\<close>

definition can_pair :: "crates \<Rightarrow> relay_run \<Rightarrow> bool" where
  "can_pair E s \<longleftrightarrow> calm s \<and> (let p = relay_local E (rn_session s) in
     pairing_validate E p = Inr () \<and> pi_remote_port p \<le> u16_max \<and> trim (pi_public_key p) = pi_public_key p)"

definition pairing_values ::
  "crates \<Rightarrow> pake_start \<Rightarrow> pake_start \<Rightarrow> string \<Rightarrow> bytes \<Rightarrow> bytes \<Rightarrow> pairing_identity \<Rightarrow> pairing_identity \<Rightarrow> jvalue list" where
  "pairing_values E pa pb code na nb a b =
     [pake_value E pa code, pake_value E pb code,
      cipher_frame_json (encrypt_pair_payload E (pairing_key E pa pb code) na CreatorRole a),
      cipher_frame_json (encrypt_pair_payload E (pairing_key E pa pb code) nb JoinerRole b)]"

lemma pairing_key_swap: "pake_agrees pa pb code \<Longrightarrow> pairing_key E pb pa code = pairing_key E pa pb code"
  by (auto simp: pake_agrees_def pairing_key_def)

lemma pake_agrees_sym: "pake_agrees pa pb code \<Longrightarrow> pake_agrees pb pa code"
  by (auto simp: pake_agrees_def)

lemma exchange_run:
  assumes E: "json_roundtrip E" "json_nonempty E" "hex_roundtrip E" "secretbox_correct E"
    and s: "calm s" "pairing_validate E me = Inr ()" "normalize_pair_code word_list typed = Inr code"
    and agree: "pake_agrees pa pb code"
    and peer: "pairing_validate E peer = Inr ()" "pi_remote_port peer \<le> u16_max" "length peer_nonce = 24"
    and key: "key = pairing_key E pa pb code" and nonce: "nt_random s (nt_step s + 2) = nonce"
    and fits: "ssh_fits E (pake_value E pa code)" "ssh_fits E (pake_value E pb code)"
      "ssh_fits E (cipher_frame_json (encrypt_pair_payload E key nonce role me))"
      "ssh_fits E (cipher_frame_json (encrypt_pair_payload E key peer_nonce (pair_opposite role) peer))"
    and input: "nt_input s = frame_of E (pake_value E pb code) @
      frame_of E (cipher_frame_json (encrypt_pair_payload E key peer_nonce (pair_opposite role) peer))"
  shows "exchange_pairing E word_list pa typed role me s = (Inr peer, s\<lparr>nt_step := nt_step s + 5, nt_input := [],
    nt_output := nt_output s @ frame_of E (pake_value E pa code) @
       frame_of E (cipher_frame_json (encrypt_pair_payload E key nonce role me))\<rparr>)"
proof -
  obtain shared where shared: "snd (pa (str_bytes code) PAIRING_APP_ID) (fst (pb (str_bytes code) PAIRING_APP_ID)) = Inr shared"
    using agree by (auto simp: pake_agrees_def)
  show ?thesis
    unfolding pake_value_def
    by (rule pairing_side [where finish = "snd (pa (str_bytes code) PAIRING_APP_ID)" and shared = shared, OF E s _ shared _
          peer nonce fits [unfolded pake_value_def] input [unfolded pake_value_def]])
       (simp_all add: key pairing_key_def shared)
qed

lemma post_handle_incoming:
  "post (handle_incoming E word_list pake bound incoming) s Q \<longleftrightarrow>
     post (io_reject_if (ic_connected_port incoming \<noteq> rs_remote_port (rn_session s))
       (Protocol ''SSH relay forwarded an unexpected port'')
     (io_bind read_channel_mode (\<lambda>mode.
      case mode of
        PairMode \<Rightarrow> io_then (handle_incoming_pair E word_list pake) (io_ret None)
      | DataMode \<Rightarrow> io_bind (handle_incoming_data E bound) (\<lambda>key. io_ret (Some key))))) s Q"
  by (simp add: post_def handle_incoming_def)

lemma post_handle_incoming_pair:
  "post (handle_incoming_pair E word_list pake) s Q \<longleftrightarrow>
     post (io_bind (on_session (begin_pairing_attempt (rn_now s (nt_step s)))) (\<lambda>code.
     io_match (exchange_pairing E word_list pake code CreatorRole (relay_local E (rn_session s)))
       (\<lambda>peer. io_then (on_session (\<lambda>rs. (Inr (), finish_pairing_attempt code True rs)))
          (io_then (trust_peer E peer) (io_ret ())))
       (\<lambda>e. io_then (on_session (\<lambda>rs. (Inr (), finish_pairing_attempt code False rs)))
          (io_throw e)))) s Q"
  by (simp add: post_def handle_incoming_pair_def)

lemma post_exchange:
  assumes "exchange_pairing E word_list pa typed role me s = (r, s')"
  shows "post (exchange_pairing E word_list pa typed role me) s Q \<longleftrightarrow> Q r s'"
  by (simp add: post_def assms)

lemma creator_run:
  assumes E: "json_roundtrip E" "json_nonempty E" "hex_roundtrip E" "secretbox_correct E"
    and s: "can_pair E s" "rs_pairing (rn_session s) = Some act" "active_is_live act (rn_now s (nt_step s + 1))"
      "\<not> ap_in_use act" "ap_failed_attempts act < MAX_PAIRING_ATTEMPTS"
      "ic_connected_port incoming = rs_remote_port (rn_session s)"
    and code: "normalize_pair_code word_list (ap_code act) = Inr code" "pake_agrees pa pb code"
    and peer: "pairing_validate E peer = Inr ()" "pi_remote_port peer \<le> u16_max" "length nb = 24"
      "trim (pi_public_key peer) = pi_public_key peer" "pi_instance_id peer \<noteq> id_instance_id (rs_identity (rn_session s))"
    and nonce: "nt_random s (nt_step s + 3) = na"
    and fits: "\<forall>v \<in> set (pairing_values E pa pb code na nb (relay_local E (rn_session s)) peer). ssh_fits E v"
    and input: "nt_input s = mode_magic PairMode @ frame_of E (pake_value E pb code) @
      frame_of E (cipher_frame_json (encrypt_pair_payload E (pairing_key E pa pb code) nb JoinerRole peer))"
  shows "\<exists>s'. handle_incoming E word_list pa bound incoming s = (Inr None, s') \<and>
    nt_output s' = nt_output s @ frame_of E (pake_value E pa code) @
      frame_of E (cipher_frame_json (encrypt_pair_payload E (pairing_key E pa pb code) na CreatorRole (relay_local E (rn_session s)))) \<and>
    rs_pairing (rn_session s') = None \<and> knows E (rn_session s') peer"
proof -
  let ?me = "relay_local E (rn_session s)" and ?key = "pairing_key E pa pb code"
  let ?used = "(rn_session s)\<lparr>rs_pairing := Some (act\<lparr>ap_in_use := True\<rparr>)\<rparr>"
  let ?s = "s\<lparr>nt_step := Suc (nt_step s), nt_input := frame_of E (pake_value E pb code) @
      frame_of E (cipher_frame_json (encrypt_pair_payload E ?key nb JoinerRole peer)), rn_session := ?used\<rparr>"
  have calm: "calm s" "pairing_validate E ?me = Inr ()" using s(1) by (simp_all add: can_pair_def Let_def)
  have begun: "begin_pairing_attempt (rn_now s (Suc (nt_step s))) (rn_session s) = (Inr (ap_code act), ?used)"
    using s(2-5) by (simp add: begin_pairing_attempt_def active_begin_def)
  have "exchange_pairing E word_list pa (ap_code act) CreatorRole ?me ?s = (Inr peer, ?s\<lparr>nt_step := nt_step ?s + 5,
      nt_input := [], nt_output := nt_output ?s @ frame_of E (pake_value E pa code) @
      frame_of E (cipher_frame_json (encrypt_pair_payload E ?key na CreatorRole ?me))\<rparr>)"
    by (rule exchange_run [OF E _ calm(2) code peer(1-3) refl])
       (use calm fits nonce in \<open>simp_all add: calm_def pairing_values_def eval_nat_numeral\<close>)
  note exchange = post_exchange [OF this]
  have "post (handle_incoming E word_list pa bound incoming) s (\<lambda>r s'. r = Inr None \<and>
    nt_output s' = nt_output s @ frame_of E (pake_value E pa code) @
      frame_of E (cipher_frame_json (encrypt_pair_payload E ?key na CreatorRole ?me)) \<and>
    rs_pairing (rn_session s') = None \<and> knows E (rn_session s') peer)"
    unfolding post_handle_incoming
    by (simp add: s(6) post_read_mode [OF calm(1) input] post_handle_incoming_pair,
        simp add: post_on_session begun exchange finish_pairing_attempt_def active_finish_def,
        rule post_mono [OF post_trust_peer [OF peer(1,4)]])
      (simp_all add: peer(5))
  then show ?thesis by (auto simp: post_def split: prod.splits)
qed

text \<open>A session with a connection that can open channels.\<close>

definition can_open :: "relay_session \<Rightarrow> bool" where
  "can_open rs \<longleftrightarrow> (case rs_client rs of Some client \<Rightarrow> sc_connected client \<and> sc_open client | None \<Rightarrow> False)"

lemma can_open_run:
  assumes "can_open rs" "port \<noteq> 0"
  obtains client where "connected_client rs later = Inr client" "open_direct client port (CallReturned ()) = Inr ()"
  using assms by (auto simp: can_open_def connected_client_def open_direct_def split: option.splits)

lemma post_join_pairing:
  "post (join_pairing E word_list pake later opened code) s Q \<longleftrightarrow>
     post (io_bind (io_lift (pair_code_port word_list code)) (\<lambda>remote_port.
     io_bind (io_lift (connected_client (rn_session s) later)) (\<lambda>client.
     io_then (io_lift (open_direct client remote_port opened))
     (io_then (write_channel_mode PairMode)
     (io_bind (exchange_pairing E word_list pake code JoinerRole (relay_local E (rn_session s))) (\<lambda>peer.
      trust_peer E peer)))))) s Q"
  by (simp add: post_def join_pairing_def)

lemma joiner_run:
  assumes E: "json_roundtrip E" "json_nonempty E" "hex_roundtrip E" "secretbox_correct E"
    and s: "can_pair E s" "can_open (rn_session s)"
    and code: "normalize_pair_code word_list typed = Inr code" "pake_agrees pb pa code"
    and peer: "pairing_validate E peer = Inr ()" "pi_remote_port peer \<le> u16_max" "length na = 24"
      "trim (pi_public_key peer) = pi_public_key peer" "pi_instance_id peer \<noteq> id_instance_id (rs_identity (rn_session s))"
    and nonce: "nt_random s (nt_step s + 3) = nb"
    and fits: "\<forall>v \<in> set (pairing_values E pa pb code na nb peer (relay_local E (rn_session s))). ssh_fits E v"
    and input: "nt_input s = frame_of E (pake_value E pa code) @
      frame_of E (cipher_frame_json (encrypt_pair_payload E (pairing_key E pa pb code) na CreatorRole peer))"
  shows "\<exists>s'. join_pairing E word_list pb later (CallReturned ()) typed s = (Inr (trusted_peer E peer), s') \<and>
    nt_output s' = nt_output s @ mode_magic PairMode @ frame_of E (pake_value E pb code) @
      frame_of E (cipher_frame_json (encrypt_pair_payload E (pairing_key E pa pb code) nb JoinerRole (relay_local E (rn_session s)))) \<and>
    knows E (rn_session s') peer"
proof -
  let ?me = "relay_local E (rn_session s)" and ?key = "pairing_key E pa pb code"
  let ?s = "s\<lparr>nt_step := Suc (nt_step s), nt_output := nt_output s @ mode_magic PairMode\<rparr>"
  have calm: "calm s" "pairing_validate E ?me = Inr ()" using s(1) by (simp_all add: can_pair_def Let_def)
  have key: "?key = pairing_key E pb pa code" by (rule pairing_key_swap [OF code(2)])
  obtain port where port: "pair_code_port word_list typed = Inr port" "port \<noteq> 0"
    using pair_code_port_normalized [OF code(1)] by metis
  obtain client where client: "connected_client (rn_session s) later = Inr client"
      "open_direct client port (CallReturned ()) = Inr ()"
    using can_open_run [OF s(2) port(2)] by metis
  have "exchange_pairing E word_list pb typed JoinerRole ?me ?s = (Inr peer, ?s\<lparr>nt_step := nt_step ?s + 5,
      nt_input := [], nt_output := nt_output ?s @ frame_of E (pake_value E pb code) @
      frame_of E (cipher_frame_json (encrypt_pair_payload E ?key nb JoinerRole ?me))\<rparr>)"
    by (rule exchange_run [OF E _ calm(2) code peer(1-3) key])
       (use calm fits nonce input in \<open>simp_all add: calm_def pairing_values_def eval_nat_numeral\<close>)
  note exchange = post_exchange [OF this]
  have "post (join_pairing E word_list pb later (CallReturned ()) typed) s (\<lambda>r s'. r = Inr (trusted_peer E peer) \<and>
    nt_output s' = nt_output s @ mode_magic PairMode @ frame_of E (pake_value E pb code) @
      frame_of E (cipher_frame_json (encrypt_pair_payload E ?key nb JoinerRole ?me)) \<and>
    knows E (rn_session s') peer)"
    unfolding post_join_pairing
    by (simp add: port client post_write_mode [OF calm(1)] exchange del: mode_magic.simps,
        rule post_mono [OF post_trust_peer [OF peer(1,4)]])
      (simp_all add: peer(5))
  then show ?thesis by (auto simp: post_def split: prod.splits)
qed

text \<open>C26: Pairing works: with a live code that is not in use, typed on another device in any spelling
  that normalises to it, and no faults, \<open>join_pairing\<close> and \<open>handle_incoming\<close>, each reading exactly what the other
  writes, both succeed. Each session then has the other device, with its instance id, port and
  public key, among its peers, and the code is used up.
\<close>

theorem ssh_pairing_end_to_end:
  assumes E: "json_roundtrip E" "json_nonempty E" "hex_roundtrip E" "secretbox_correct E"
    and a: "can_pair E a" "rs_pairing (rn_session a) = Some act" "active_is_live act (rn_now a (nt_step a + 1))"
      "\<not> ap_in_use act" "ap_failed_attempts act < MAX_PAIRING_ATTEMPTS"
      "ic_connected_port incoming = rs_remote_port (rn_session a)"
    and b: "can_pair E b" "can_open (rn_session b)"
    and codes: "normalize_pair_code word_list (ap_code act) = Inr code" "normalize_pair_code word_list typed = Inr code"
    and agree: "pake_agrees pa pb code"
    and apart: "id_instance_id (rs_identity (rn_session a)) \<noteq> id_instance_id (rs_identity (rn_session b))"
    and nonces: "nt_random a (nt_step a + 3) = na" "nt_random b (nt_step b + 3) = nb" "length na = 24" "length nb = 24"
    and fits: "list_all (ssh_fits E) (pairing_values E pa pb code na nb (relay_local E (rn_session a)) (relay_local E (rn_session b)))"
  shows "\<exists>x y a' b'.
    handle_incoming E word_list pa bound incoming (a\<lparr>nt_input := x, nt_output := []\<rparr>) = (Inr None, a') \<and> nt_output a' = y \<and>
    join_pairing E word_list pb later (CallReturned ()) typed (b\<lparr>nt_input := y, nt_output := []\<rparr>) =
      (Inr (trusted_peer E (relay_local E (rn_session a))), b') \<and> nt_output b' = x \<and>
    knows E (rn_session a') (relay_local E (rn_session b)) \<and> knows E (rn_session b') (relay_local E (rn_session a)) \<and>
    rs_pairing (rn_session a') = None"
proof -
  let ?a = "relay_local E (rn_session a)" and ?b = "relay_local E (rn_session b)" and ?key = "pairing_key E pa pb code"
  let ?y = "frame_of E (pake_value E pa code) @ frame_of E (cipher_frame_json (encrypt_pair_payload E ?key na CreatorRole ?a))"
  let ?x = "mode_magic PairMode @ frame_of E (pake_value E pb code) @
    frame_of E (cipher_frame_json (encrypt_pair_payload E ?key nb JoinerRole ?b))"
  have own: "pairing_validate E ?a = Inr ()" "pi_remote_port ?a \<le> u16_max" "trim (pi_public_key ?a) = pi_public_key ?a"
    "pairing_validate E ?b = Inr ()" "pi_remote_port ?b \<le> u16_max" "trim (pi_public_key ?b) = pi_public_key ?b"
    using a(1) b(1) by (simp_all add: can_pair_def Let_def)
  have ids: "pi_instance_id ?b \<noteq> id_instance_id (rs_identity (rn_session a))"
    "pi_instance_id ?a \<noteq> id_instance_id (rs_identity (rn_session b))"
    using apart by (auto simp: relay_local_def pairing_from_device_def)
  have able: "can_pair E (a\<lparr>nt_input := ?x, nt_output := []\<rparr>)" "can_pair E (b\<lparr>nt_input := ?y, nt_output := []\<rparr>)"
    using a(1) b(1) by (simp_all add: can_pair_def)
  have "\<exists>a'. handle_incoming E word_list pa bound incoming (a\<lparr>nt_input := ?x, nt_output := []\<rparr>) = (Inr None, a') \<and>
      nt_output a' = ?y \<and> rs_pairing (rn_session a') = None \<and> knows E (rn_session a') ?b"
    using creator_run [OF E able(1), of act incoming word_list code pa pb ?b nb na bound]
      a(2-6) codes(1) agree own ids(1) nonces fits by (simp add: list_all_iff)
  moreover have "\<exists>b'. join_pairing E word_list pb later (CallReturned ()) typed (b\<lparr>nt_input := ?y, nt_output := []\<rparr>) =
      (Inr (trusted_peer E ?a), b') \<and> nt_output b' = ?x \<and> knows E (rn_session b') ?a"
    using joiner_run [OF E able(2), of word_list typed code pb pa ?a na nb later]
      b(2) codes(2) pake_agrees_sym [OF agree] own ids(2) nonces fits by (simp add: list_all_iff del: mode_magic.simps)
  ultimately show ?thesis by blast
qed

section \<open>Two paired sessions open a data channel\<close>

lemma hello_of_ids [simp]:
  "dh_sender_instance_id (hello_of E me receiver n) = id_instance_id me"
  by (simp add: hello_of_def)

text \<open>The crates the data channel relies on, and the devices of two sessions.\<close>

definition channel_crates :: "crates \<Rightarrow> bool" where
  "channel_crates E \<longleftrightarrow> json_roundtrip E \<and> json_nonempty E \<and> hex_roundtrip E \<and> hex_lower E \<and>
     base64_roundtrip E \<and> ed25519_correct E"

lemma hello_verified:
  assumes "channel_crates E" "length (id_signing_key sender) = 32" "length n = SSH_NONCE_BYTES"
  shows "verify_data_hello E (hello_of E sender (id_instance_id me) n) me
      (peer_identity (trusted_peer E (pairing_from_device E sender port))) =
    Inr \<lparr>vh_sender_instance_id = id_instance_id sender, vh_nonce = n\<rparr>"
  using assms
  by (simp add: channel_crates_def verify_data_hello_def hello_of_def peer_identity_trusted pairing_from_device_def
      ssh_decode_nonce_encode ssh_verify_own)

lemma answer_checked:
  assumes "channel_crates E" "length (id_signing_key server) = 32" "length n = SSH_NONCE_BYTES"
    "length m = SSH_NONCE_BYTES" "\<not> bad_credentials fingerprint secret"
  shows "check_data_answer E me (peer_identity (trusted_peer E (pairing_from_device E server port))) n
      (answer_of E server (id_instance_id me) n m fingerprint secret) =
    Inr \<lparr>sa_quic_fingerprint = fingerprint, sa_quic_secret = secret,
      sa_tunnel_key = ssh_tunnel_key E n m (public_key_base64 E me) (public_key_base64 E server)\<rparr>"
  using assms
  by (simp add: channel_crates_def check_data_answer_def answer_of_def peer_identity_trusted pairing_from_device_def
      ssh_decode_nonce_encode ssh_verify_own)

lemma post_connect_sender:
  "post (connect_sender E later opened instance_id) s Q \<longleftrightarrow>
     post (io_bind (io_lift (ok_or (map_of (rs_peers (rn_session s)) instance_id)
       (InvalidRequest ''unknown SSH relay peer''))) (\<lambda>peer.
     io_bind (io_lift (connected_client (rn_session s) later)) (\<lambda>client.
     io_then (io_lift (open_direct client (sr_remote_port peer) opened))
     (io_then (write_channel_mode DataMode)
     (io_bind (send_data_hello E (rs_identity (rn_session s)) (peer_identity peer)) (\<lambda>nonce.
      receive_data_answer E (rs_identity (rn_session s)) (peer_identity peer) nonce)))))) s Q"
  by (simp add: post_def connect_sender_def)

lemma post_answer_data_channel:
  "post (answer_data_channel E bound hello) s Q \<longleftrightarrow>
     post (io_bind (io_lift (ok_or (map_of (rs_peers (rn_session s)) (dh_sender_instance_id hello))
       (Protocol ''SSH relay data peer is not paired''))) (\<lambda>peer.
     io_bind (io_lift (verify_data_hello E hello (rs_identity (rn_session s)) (peer_identity peer))) (\<lambda>verified.
     io_bind net_random (\<lambda>secret.
     io_bind (io_lift bound) (\<lambda>fingerprint.
     send_data_answer E (rs_identity (rn_session s)) (peer_identity peer) verified fingerprint
       (hex_encode E secret)))))) s Q"
  by (simp add: post_def answer_data_channel_def)

lemma data_receiver_run:
  assumes E: "channel_crates E" and s: "calm s" "ic_connected_port incoming = rs_remote_port (rn_session s)"
    and sender: "knows E (rn_session s) (pairing_from_device E sender port)" "length (id_signing_key sender) = 32"
    and nonces: "length n = SSH_NONCE_BYTES" "nt_random s (nt_step s + 2) = secret" "nt_random s (nt_step s + 3) = m"
    and ok: "\<not> bad_credentials fingerprint (hex_encode E secret)"
    and fits: "ssh_fits E (data_hello_json (hello_of E sender (id_instance_id (rs_identity (rn_session s))) n))"
      "ssh_fits E (data_answer_json (answer_of E (rs_identity (rn_session s)) (id_instance_id sender) n m fingerprint (hex_encode E secret)))"
    and input: "nt_input s = mode_magic DataMode @
      frame_of E (data_hello_json (hello_of E sender (id_instance_id (rs_identity (rn_session s))) n))"
  shows "\<exists>s'. handle_incoming E word_list pake (Inr fingerprint) incoming s =
      (Inr (Some (ssh_tunnel_key E n m (public_key_base64 E sender) (public_key_base64 E (rs_identity (rn_session s))))), s') \<and>
    nt_output s' = nt_output s @ frame_of E (data_answer_json
      (answer_of E (rs_identity (rn_session s)) (id_instance_id sender) n m fingerprint (hex_encode E secret)))"
proof -
  let ?me = "rs_identity (rn_session s)"
  have j: "json_roundtrip E" "json_nonempty E" using E by (simp_all add: channel_crates_def)
  have peer: "map_of (rs_peers (rn_session s)) (id_instance_id sender) = Some (trusted_peer E (pairing_from_device E sender port))"
    using sender(1) by (simp add: knows_def pairing_from_device_def)
  have verified: "verify_data_hello E (hello_of E sender (id_instance_id ?me) n) ?me
      (peer_identity (trusted_peer E (pairing_from_device E sender port))) =
    Inr \<lparr>vh_sender_instance_id = id_instance_id sender, vh_nonce = n\<rparr>"
    by (rule hello_verified [OF E sender(2) nonces(1)])
  have random: "nt_random s (Suc (Suc (nt_step s))) = secret" "nt_random s (Suc (Suc (Suc (nt_step s)))) = m"
    using nonces(2,3) by (simp_all add: eval_nat_numeral)
  note hello = post_ssh_recv [where decode = as_data_hello, OF j _ fits(1) ssh_structures_json(3), where rest = "[]"]
  have "post (handle_incoming E word_list pake (Inr fingerprint) incoming) s (\<lambda>r s'.
    r = Inr (Some (ssh_tunnel_key E n m (public_key_base64 E sender) (public_key_base64 E ?me))) \<and>
    nt_output s' = nt_output s @ frame_of E (data_answer_json
      (answer_of E ?me (id_instance_id sender) n m fingerprint (hex_encode E secret))))"
    unfolding post_handle_incoming
    by (simp add: s(2) post_read_mode [OF s(1) input] handle_incoming_data_def receive_data_hello_def
        hello s(1) post_answer_data_channel peer verified)
      (simp add: random s(1) post_random send_data_answer_def ok post_ssh_send [OF j(2)] fits(2) [unfolded answer_of_def]
        peer_identity_trusted pairing_from_device_def answer_of_def)
  then show ?thesis by (auto simp: post_def split: prod.splits)
qed

lemma data_sender_run:
  assumes E: "channel_crates E" and s: "calm s" "can_open (rn_session s)"
    and server: "knows E (rn_session s) (pairing_from_device E server port)" "length (id_signing_key server) = 32"
      "pairing_validate E (pairing_from_device E server port) = Inr ()"
    and nonces: "nt_random s (nt_step s + 1) = n" "length n = SSH_NONCE_BYTES" "length m = SSH_NONCE_BYTES"
    and ok: "\<not> bad_credentials fingerprint secret"
    and fits: "ssh_fits E (data_hello_json (hello_of E (rs_identity (rn_session s)) (id_instance_id server) n))"
      "ssh_fits E (data_answer_json (answer_of E server (id_instance_id (rs_identity (rn_session s))) n m fingerprint secret))"
    and input: "nt_input s = frame_of E (data_answer_json
      (answer_of E server (id_instance_id (rs_identity (rn_session s))) n m fingerprint secret))"
  shows "\<exists>s'. connect_sender E later (CallReturned ()) (id_instance_id server) s =
      (Inr \<lparr>sa_quic_fingerprint = fingerprint, sa_quic_secret = secret, sa_tunnel_key =
         ssh_tunnel_key E n m (public_key_base64 E (rs_identity (rn_session s))) (public_key_base64 E server)\<rparr>, s') \<and>
    nt_output s' = nt_output s @ mode_magic DataMode @
      frame_of E (data_hello_json (hello_of E (rs_identity (rn_session s)) (id_instance_id server) n))"
proof -
  let ?me = "rs_identity (rn_session s)" and ?peer = "trusted_peer E (pairing_from_device E server port)"
  have j: "json_roundtrip E" "json_nonempty E" using E by (simp_all add: channel_crates_def)
  have peer: "map_of (rs_peers (rn_session s)) (id_instance_id server) = Some ?peer"
    using server(1) by (simp add: knows_def pairing_from_device_def)
  have "sr_remote_port ?peer \<noteq> 0"
    using server(3) by (auto simp: trusted_peer_def pairing_validate_def result_simps)
  then obtain client where client: "connected_client (rn_session s) later = Inr client"
      "open_direct client (sr_remote_port ?peer) (CallReturned ()) = Inr ()"
    using can_open_run [OF s(2)] by metis
  note checked = answer_checked [OF E server(2) nonces(2,3) ok, of ?me port]
  note answer = post_ssh_recv [where decode = as_data_answer, OF j _ fits(2) ssh_structures_json(4), where rest = "[]"]
  have random: "nt_random s (Suc (nt_step s)) = n" using nonces(1) by simp
  have "pi_instance_id (peer_identity ?peer) = id_instance_id server"
    by (simp add: peer_identity_trusted pairing_from_device_def)
  then have "post (connect_sender E later (CallReturned ()) (id_instance_id server)) s (\<lambda>r s'.
    r = Inr \<lparr>sa_quic_fingerprint = fingerprint, sa_quic_secret = secret, sa_tunnel_key =
         ssh_tunnel_key E n m (public_key_base64 E ?me) (public_key_base64 E server)\<rparr> \<and>
    nt_output s' = nt_output s @ mode_magic DataMode @
      frame_of E (data_hello_json (hello_of E ?me (id_instance_id server) n)))"
    unfolding post_connect_sender
    by (simp add: peer client post_write_mode [OF s(1)] del: mode_magic.simps)
      (simp add: send_data_hello_def receive_data_answer_def trusted_validate [OF server(3)] post_random random s(1)
        post_ssh_send [OF j(2)] fits(1) [unfolded hello_of_def] answer input checked hello_of_def del: mode_magic.simps)
  then show ?thesis by (auto simp: post_def split: prod.splits)
qed

text \<open>C27: A paired device can open a data channel: without faults, \<open>connect_sender\<close> and \<open>handle_incoming\<close>, each
  reading exactly what the other writes, both succeed; both ends then hold the same tunnel key, and
  the sender has the certificate fingerprint and the secret of the temporary QUIC server that the
  receiver has just started.
\<close>

theorem ssh_data_channel_end_to_end:
  assumes E: "channel_crates E"
    and a: "calm a" "ic_connected_port incoming = rs_remote_port (rn_session a)" "dev_a = rs_identity (rn_session a)"
    and b: "calm b" "can_open (rn_session b)" "dev_b = rs_identity (rn_session b)"
    and paired: "knows E (rn_session a) (pairing_from_device E dev_b port_b)"
      "knows E (rn_session b) (pairing_from_device E dev_a port_a)"
      "pairing_validate E (pairing_from_device E dev_a port_a) = Inr ()"
    and keys: "length (id_signing_key dev_a) = 32" "length (id_signing_key dev_b) = 32"
    and random: "nt_random a (nt_step a + 2) = s" "length s = 32" "nt_random a (nt_step a + 3) = m"
      "length m = SSH_NONCE_BYTES" "nt_random b (nt_step b + 1) = n" "length n = SSH_NONCE_BYTES"
    and server: "valid_fingerprint fingerprint"
    and fits: "ssh_fits E (data_hello_json (hello_of E dev_b (id_instance_id dev_a) n))"
      "ssh_fits E (data_answer_json (answer_of E dev_a (id_instance_id dev_b) n m fingerprint (hex_encode E s)))"
  shows "\<exists>x y a' b' key.
    handle_incoming E word_list pake (Inr fingerprint) incoming (a\<lparr>nt_input := x, nt_output := []\<rparr>) = (Inr (Some key), a') \<and>
    nt_output a' = y \<and>
    connect_sender E later (CallReturned ()) (id_instance_id dev_a) (b\<lparr>nt_input := y, nt_output := []\<rparr>) =
      (Inr \<lparr>sa_quic_fingerprint = fingerprint, sa_quic_secret = hex_encode E s, sa_tunnel_key = key\<rparr>, b') \<and>
    nt_output b' = x"
proof -
  let ?x = "mode_magic DataMode @ frame_of E (data_hello_json (hello_of E dev_b (id_instance_id dev_a) n))"
  let ?y = "frame_of E (data_answer_json (answer_of E dev_a (id_instance_id dev_b) n m fingerprint (hex_encode E s)))"
  have ok: "\<not> bad_credentials fingerprint (hex_encode E s)"
    using server E random(2) by (simp add: bad_credentials_def channel_crates_def hex_lower_def)
  have "\<exists>a'. handle_incoming E word_list pake (Inr fingerprint) incoming (a\<lparr>nt_input := ?x, nt_output := []\<rparr>) =
      (Inr (Some (ssh_tunnel_key E n m (public_key_base64 E dev_b) (public_key_base64 E dev_a))), a') \<and> nt_output a' = ?y"
    using data_receiver_run [OF E, of "a\<lparr>nt_input := ?x, nt_output := []\<rparr>" incoming dev_b port_b n s m fingerprint word_list pake]
      a paired(1) keys(2) random ok fits by simp
  moreover have "\<exists>b'. connect_sender E later (CallReturned ()) (id_instance_id dev_a) (b\<lparr>nt_input := ?y, nt_output := []\<rparr>) =
      (Inr \<lparr>sa_quic_fingerprint = fingerprint, sa_quic_secret = hex_encode E s,
         sa_tunnel_key = ssh_tunnel_key E n m (public_key_base64 E dev_b) (public_key_base64 E dev_a)\<rparr>, b') \<and>
      nt_output b' = ?x"
    using data_sender_run [OF E, of "b\<lparr>nt_input := ?y, nt_output := []\<rparr>" dev_a port_a n m fingerprint "hex_encode E s" later]
      b paired(2,3) keys(1) random ok fits by simp
  ultimately show ?thesis by blast
qed

section \<open>An example\<close>

text \<open>The key exchange of the example sends one byte and takes the code for the key.\<close>

definition sample_pake :: pake_start where
  "sample_pake password identity = ([1], \<lambda>peer. if peer = [1] then Inr password else Inl ''invalid'')"

definition sample_desk :: pairing_identity where
  "sample_desk = pairing_from_device sample_crates sample_identity 7000"

definition sample_lap :: pairing_identity where
  "sample_lap = pairing_from_device sample_crates sample_laptop 7001"

lemma table_more [simp]:
  "hkdf_sha256 (table_crates vs) = hkdf_sha256 sample_crates"
  "secretbox_encrypt (table_crates vs) = secretbox_encrypt sample_crates"
  "secretbox_decrypt (table_crates vs) = secretbox_decrypt sample_crates"
  by (simp_all add: table_crates_def)

lemma table_secretbox [simp]: "secretbox_correct (table_crates vs)"
  using sample_secretbox(1) by (simp add: secretbox_correct_def)

lemma table_print_append: "v \<in> set vs \<Longrightarrow> table_print (vs @ ws) v = table_print vs v"
  by (auto simp: table_print_def takeWhile_append)

definition sample_payloads :: "jvalue list" where
  "sample_payloads = [pair_payload_json CreatorRole sample_desk, pair_payload_json JoinerRole sample_lap]"

abbreviation sample_pair_nonce :: bytes where "sample_pair_nonce \<equiv> replicate 24 7"

definition sample_pairing_table :: "jvalue list" where
  "sample_pairing_table = sample_payloads @ pairing_values (table_crates sample_payloads) sample_pake sample_pake
     sample_pair_code sample_pair_nonce sample_pair_nonce sample_desk sample_lap"

lemma sample_pairing_values:
  "pairing_values (table_crates sample_pairing_table) sample_pake sample_pake sample_pair_code
     sample_pair_nonce sample_pair_nonce sample_desk sample_lap =
   pairing_values (table_crates sample_payloads) sample_pake sample_pake sample_pair_code
     sample_pair_nonce sample_pair_nonce sample_desk sample_lap"
proof -
  have "table_print sample_pairing_table v = table_print sample_payloads v" if "v \<in> set sample_payloads" for v
    unfolding sample_pairing_table_def by (rule table_print_append [OF that])
  then show ?thesis
    by (simp add: pairing_values_def pake_value_def encrypt_pair_payload_def pairing_key_def to_vec_def sample_payloads_def)
qed

lemma sample_pairing_fits:
  "list_all (ssh_fits (table_crates sample_pairing_table)) (pairing_values (table_crates sample_pairing_table) sample_pake
     sample_pake sample_pair_code sample_pair_nonce sample_pair_nonce sample_desk sample_lap)"
proof -
  have "ssh_fits (table_crates sample_pairing_table) v" if "v \<in> set sample_pairing_table" for v
    using table_crates_short [OF that] by (simp add: ssh_fits_def MAX_RELAY_FRAME_def)
  then show ?thesis unfolding sample_pairing_values by (simp add: list_all_iff sample_pairing_table_def)
qed

definition sample_run :: "relay_session \<Rightarrow> (nat \<Rightarrow> bytes) \<Rightarrow> relay_run" where
  "sample_run rs random =
     \<lparr>nt_input = [], nt_end = None, nt_output = [], nt_finished = False, nt_step = 0, nt_fault = (\<lambda>_. None),
      nt_chunk = (\<lambda>_. 2), nt_random = random, rn_session = rs, rn_events = [], rn_now = (\<lambda>_. 1)\<rparr>"

definition sample_channel :: incoming_channel where
  "sample_channel = \<lparr>ic_connected_address = ''127.0.0.1'', ic_connected_port = 7000, ic_originator_address = ''127.0.0.1'',
     ic_originator_port = 0\<rparr>"

definition sample_creator :: relay_session where
  "sample_creator = sample_relay\<lparr>rs_peers := [], rs_pairing := Some (active_new sample_pair_code 10)\<rparr>"

definition sample_joiner :: relay_session where
  "sample_joiner = sample_relay\<lparr>rs_identity := sample_laptop, rs_remote_port := 7001, rs_peers := []\<rparr>"

lemma table_device: "pairing_from_device (table_crates vs) = pairing_from_device sample_crates"
  "public_key_base64 (table_crates vs) = public_key_base64 sample_crates"
  by (intro ext, simp add: pairing_from_device_def public_key_base64_def)+

lemma sample_devices_valid:
  "pairing_validate (table_crates vs) sample_desk = Inr ()" "pairing_validate (table_crates vs) sample_lap = Inr ()"
  "trim (pi_public_key sample_desk) = pi_public_key sample_desk" "trim (pi_public_key sample_lap) = pi_public_key sample_lap"
proof -
  have [simp]: "trim ''desk'' = ''desk''" by (simp add: trim_graphic)
  show "pairing_validate (table_crates vs) sample_desk = Inr ()" "pairing_validate (table_crates vs) sample_lap = Inr ()"
    by (simp_all add: pairing_validate_def sample_desk_def sample_lap_def pairing_from_device_def sample_identity_def
        sample_laptop_def valid_instance_id_def is_lower_hex_def is_digit_def list_all_iff ssh_verifying_key_def
        decode_array_def public_key_base64_def sample_crates_def)
  show "trim (pi_public_key sample_desk) = pi_public_key sample_desk" "trim (pi_public_key sample_lap) = pi_public_key sample_lap"
    by (simp_all add: sample_desk_def sample_lap_def pairing_from_device_def public_key_base64_def sample_crates_def
        trim_lower_hex lower_hex_text)
qed

lemma sample_locals:
  "relay_local (table_crates vs) sample_creator = sample_desk" "relay_local (table_crates vs) sample_joiner = sample_lap"
  by (simp_all add: relay_local_def table_device sample_creator_def sample_joiner_def sample_relay_def sample_desk_def sample_lap_def)

lemma sample_sessions_open: "can_open sample_creator" "can_open sample_joiner"
  by (simp_all add: can_open_def sample_creator_def sample_joiner_def sample_relay_def)

lemma sample_ids_differ: "id_instance_id sample_identity \<noteq> id_instance_id sample_laptop"
  by (simp add: sample_identity_def sample_laptop_def eval_nat_numeral)

theorem ssh_pairing_end_to_end_witness:
  "\<exists>x y a' b'.
    handle_incoming (table_crates sample_pairing_table) sample_words sample_pake (Inl Cancelled) sample_channel
      (sample_run sample_creator (\<lambda>_. sample_pair_nonce)\<lparr>nt_input := x, nt_output := []\<rparr>) = (Inr None, a') \<and> nt_output a' = y \<and>
    join_pairing (table_crates sample_pairing_table) sample_words sample_pake CallTimedOut (CallReturned ()) sample_pair_code
      (sample_run sample_joiner (\<lambda>_. sample_pair_nonce)\<lparr>nt_input := y, nt_output := []\<rparr>) =
      (Inr (trusted_peer (table_crates sample_pairing_table) sample_desk), b') \<and> nt_output b' = x \<and>
    knows (table_crates sample_pairing_table) (rn_session a') sample_lap \<and>
    knows (table_crates sample_pairing_table) (rn_session b') sample_desk \<and> rs_pairing (rn_session a') = None"
proof -
  let ?E = "table_crates sample_pairing_table"
  let ?a = "sample_run sample_creator (\<lambda>_. sample_pair_nonce)" and ?b = "sample_run sample_joiner (\<lambda>_. sample_pair_nonce)"
  have sessions [simp]: "rn_session ?a = sample_creator" "rn_session ?b = sample_joiner" by (simp_all add: sample_run_def)
  have len: "length sample_pairing_table < 255" by (simp add: sample_pairing_table_def sample_payloads_def pairing_values_def)
  have able: "can_pair ?E ?a" "can_pair ?E ?b"
    using sample_devices_valid
    by (simp_all add: can_pair_def sample_locals calm_def sample_run_def Let_def)
      (simp_all add: sample_desk_def sample_lap_def pairing_from_device_def u16_max_def)
  have agree: "pake_agrees sample_pake sample_pake sample_pair_code" by (simp add: pake_agrees_def sample_pake_def)
  note run = ssh_pairing_end_to_end [where E = ?E and a = ?a and b = ?b and act = "active_new sample_pair_code 10"
      and incoming = sample_channel and word_list = sample_words and code = sample_pair_code and typed = sample_pair_code
      and pa = sample_pake and pb = sample_pake and na = sample_pair_nonce and nb = sample_pair_nonce
      and bound = "Inl Cancelled" and later = CallTimedOut, unfolded sessions sample_locals]
  show ?thesis
    by (rule run)
       (use able agree sample_sessions_open len sample_pairing_fits sample_ids_differ sample_pair_code_normal in \<open>simp_all add: sample_run_def
          sample_creator_def sample_joiner_def sample_relay_def sample_channel_def active_is_live_def active_new_def
          MAX_PAIRING_ATTEMPTS_def\<close>)
qed

text \<open>The two sessions once paired, and the frames of one data channel between them.\<close>

definition sample_paired_desk :: relay_session where
  "sample_paired_desk = sample_creator\<lparr>rs_peers := [(id_instance_id sample_laptop, trusted_peer sample_crates sample_lap)]\<rparr>"

definition sample_paired_lap :: relay_session where
  "sample_paired_lap = sample_joiner\<lparr>rs_peers := [(id_instance_id sample_identity, trusted_peer sample_crates sample_desk)]\<rparr>"

definition sample_channel_table :: "jvalue list" where
  "sample_channel_table =
     [data_hello_json (hello_of sample_crates sample_laptop (id_instance_id sample_identity) sample_nonce),
      data_answer_json (answer_of sample_crates sample_identity (id_instance_id sample_laptop) sample_nonce sample_nonce
        sample_quic_fingerprint (hex_encode sample_crates sample_nonce))]"

lemma table_channel_messages:
  "hello_of (table_crates vs) = hello_of sample_crates" "answer_of (table_crates vs) = answer_of sample_crates"
  "trusted_peer (table_crates vs) = trusted_peer sample_crates"
  by (intro ext, simp add: hello_of_def answer_of_def trusted_peer_def sign_base64_def)+

theorem ssh_data_channel_end_to_end_witness:
  "\<exists>x y a' b' key.
    handle_incoming (table_crates sample_channel_table) sample_words sample_pake (Inr sample_quic_fingerprint) sample_channel
      (sample_run sample_paired_desk (\<lambda>_. sample_nonce)\<lparr>nt_input := x, nt_output := []\<rparr>) = (Inr (Some key), a') \<and>
    nt_output a' = y \<and>
    connect_sender (table_crates sample_channel_table) CallTimedOut (CallReturned ()) (id_instance_id sample_identity)
      (sample_run sample_paired_lap (\<lambda>_. sample_nonce)\<lparr>nt_input := y, nt_output := []\<rparr>) =
      (Inr \<lparr>sa_quic_fingerprint = sample_quic_fingerprint,
         sa_quic_secret = hex_encode (table_crates sample_channel_table) sample_nonce, sa_tunnel_key = key\<rparr>, b') \<and>
    nt_output b' = x"
proof (rule ssh_data_channel_end_to_end [where dev_a = sample_identity and dev_b = sample_laptop and port_a = 7000 and
      port_b = 7001 and n = sample_nonce and m = sample_nonce])
  have fits: "ssh_fits (table_crates sample_channel_table) v" if "v \<in> set sample_channel_table" for v
    using table_crates_short [OF that] by (simp add: ssh_fits_def MAX_RELAY_FRAME_def)
  show "ssh_fits (table_crates sample_channel_table)
      (data_hello_json (hello_of (table_crates sample_channel_table) sample_laptop (id_instance_id sample_identity) sample_nonce))"
    "ssh_fits (table_crates sample_channel_table)
      (data_answer_json (answer_of (table_crates sample_channel_table) sample_identity (id_instance_id sample_laptop)
        sample_nonce sample_nonce sample_quic_fingerprint (hex_encode (table_crates sample_channel_table) sample_nonce)))"
    by (rule fits, simp add: sample_channel_table_def table_channel_messages)+
  show "channel_crates (table_crates sample_channel_table)"
    by (simp add: channel_crates_def) (simp add: sample_channel_table_def)
  show "pairing_validate (table_crates sample_channel_table)
      (pairing_from_device (table_crates sample_channel_table) sample_identity 7000) = Inr ()"
    using sample_devices_valid(1) by (simp add: table_device sample_desk_def)
  show "can_open (rn_session (sample_run sample_paired_lap (\<lambda>_. sample_nonce)))"
    using sample_sessions_open(2) by (simp add: sample_run_def sample_paired_lap_def can_open_def)
  show "knows (table_crates sample_channel_table) (rn_session (sample_run sample_paired_desk (\<lambda>_. sample_nonce)))
      (pairing_from_device (table_crates sample_channel_table) sample_laptop 7001)"
    by (simp add: knows_def sample_run_def sample_paired_desk_def table_device table_channel_messages sample_lap_def)
      (simp add: pairing_from_device_def)
  show "knows (table_crates sample_channel_table) (rn_session (sample_run sample_paired_lap (\<lambda>_. sample_nonce)))
      (pairing_from_device (table_crates sample_channel_table) sample_identity 7000)"
    by (simp add: knows_def sample_run_def sample_paired_lap_def table_device table_channel_messages sample_desk_def)
      (simp add: pairing_from_device_def)
  show "valid_fingerprint sample_quic_fingerprint"
    by (simp add: valid_fingerprint_def sample_quic_fingerprint_def is_lower_hex_def is_digit_def list_all_iff)
qed (simp_all add: sample_run_def calm_def sample_channel_def sample_paired_desk_def sample_paired_lap_def sample_creator_def
    sample_joiner_def sample_relay_def sample_nonce_def SSH_NONCE_BYTES_def, simp_all add: sample_identity_def sample_laptop_def)

end
