(* ===== verification/SshChannel.thy ===== *)
theory SshChannel
  imports SshAuth
begin

text \<open>
  The byte stream over a channel of the SSH library (\<open>ssh/channel.rs\<close>): a pump task passes the data
  messages of the channel on until it ends, and the reader hands their bytes out in pieces of any size.
\<close>

datatype channel_msg = DataMsg bytes | EofMsg | CloseMsg | OtherMsg

text \<open>What the pump passes on of the messages of a channel that then ends.\<close>

fun pump_channel_reader :: "channel_msg list \<Rightarrow> channel_msg list" where
  "pump_channel_reader [] = []"
| "pump_channel_reader (DataMsg data # ms) = DataMsg data # pump_channel_reader ms"
| "pump_channel_reader (EofMsg # ms) = []"
| "pump_channel_reader (CloseMsg # ms) = []"
| "pump_channel_reader (OtherMsg # ms) = pump_channel_reader ms"

text \<open>
  The messages that wait, and the one that was read in part, with the offset. A read waits for the next message;
  the model has all that will come, so it runs until there is a byte or the end.
\<close>

record channel_reader =
  rd_receiver :: "channel_msg list"
  rd_buffered :: "(bytes \<times> nat) option"

fun next_message :: "channel_msg list \<Rightarrow> (bytes \<times> channel_msg list) option" where
  "next_message [] = None"
| "next_message (DataMsg data # ms) = (if data = [] then next_message ms else Some (data, ms))"
| "next_message (_ # ms) = next_message ms"

definition take_message :: "bytes \<Rightarrow> nat \<Rightarrow> channel_msg list \<Rightarrow> nat \<Rightarrow> bytes \<times> channel_reader" where
  "take_message data offset ms remaining =
     (let readable = min remaining (length data - offset); offset' = offset + readable in
      (take readable (drop offset data),
       \<lparr>rd_receiver = ms, rd_buffered = (if offset' \<noteq> length data then Some (data, offset') else None)\<rparr>))"

definition poll_read :: "nat \<Rightarrow> channel_reader \<Rightarrow> bytes \<times> channel_reader" where
  "poll_read remaining r =
     (if remaining = 0 then ([], r)
      else case (case rd_buffered r of
                   Some (data, offset) \<Rightarrow> if offset = length data then None else Some (data, offset)
                 | None \<Rightarrow> None) of
             Some (data, offset) \<Rightarrow> take_message data offset (rd_receiver r) remaining
           | None \<Rightarrow>
               (case next_message (rd_receiver r) of
                  None \<Rightarrow> ([], \<lparr>rd_receiver = [], rd_buffered = None\<rparr>)
                | Some (data, ms) \<Rightarrow> take_message data 0 ms remaining))"

text \<open>The bytes a reader still has to hand out.\<close>

fun message_bytes :: "channel_msg list \<Rightarrow> bytes" where
  "message_bytes [] = []"
| "message_bytes (DataMsg data # ms) = data @ message_bytes ms"
| "message_bytes (_ # ms) = message_bytes ms"

definition reader_bytes :: "channel_reader \<Rightarrow> bytes" where
  "reader_bytes r =
     (case rd_buffered r of Some (data, offset) \<Rightarrow> drop offset data | None \<Rightarrow> []) @ message_bytes (rd_receiver r)"

definition reader_ok :: "channel_reader \<Rightarrow> bool" where
  "reader_ok r \<longleftrightarrow> (case rd_buffered r of Some (data, offset) \<Rightarrow> offset < length data | None \<Rightarrow> True)"

fun read_all :: "nat list \<Rightarrow> channel_reader \<Rightarrow> bytes list \<times> channel_reader" where
  "read_all [] r = ([], r)"
| "read_all (n # ns) r =
     (case poll_read n r of (data, r') \<Rightarrow> case read_all ns r' of (rest, r'') \<Rightarrow> (data # rest, r''))"

definition reader_new :: "channel_msg list \<Rightarrow> channel_reader" where
  "reader_new ms = \<lparr>rd_receiver = pump_channel_reader ms, rd_buffered = None\<rparr>"

lemma next_message_bytes:
  "message_bytes ms = (case next_message ms of None \<Rightarrow> [] | Some (data, ms') \<Rightarrow> data @ message_bytes ms')"
  "next_message ms = Some (data, ms') \<Longrightarrow> data \<noteq> []"
  by (induction ms rule: next_message.induct) (auto split: if_splits)

lemma take_message_bytes:
  assumes "offset < length data" "0 < n" "take_message data offset ms n = (got, r)"
  shows "got @ reader_bytes r = drop offset data @ message_bytes ms" "got \<noteq> []" "length got \<le> n" "reader_ok r"
  using assms
  by (auto simp: take_message_def Let_def reader_bytes_def reader_ok_def min_def split: if_splits)
     (metis append_take_drop_id add.commute drop_drop)+

lemma poll_read_bytes:
  assumes "reader_ok r" "poll_read n r = (got, r')"
  shows "got @ reader_bytes r' = reader_bytes r \<and> reader_ok r' \<and> length got \<le> n \<and>
    (0 < n \<longrightarrow> (got = [] \<longleftrightarrow> reader_bytes r = []))"
proof (cases "n = 0")
  case True
  then show ?thesis using assms by (simp add: poll_read_def)
next
  case False
  show ?thesis
  proof (cases "rd_buffered r")
    case (Some b)
    obtain data offset where b: "b = (data, offset)" by fastforce
    then have "offset < length data" using assms(1) Some by (simp add: reader_ok_def)
    moreover from this have "take_message data offset (rd_receiver r) n = (got, r')"
      using assms(2) Some False by (simp add: poll_read_def b)
    ultimately show ?thesis
      using take_message_bytes [of offset data n "rd_receiver r" got r'] False Some
      by (auto simp: reader_bytes_def b)
  next
    case None
    show ?thesis
    proof (cases "next_message (rd_receiver r)")
      case N: None
      then show ?thesis
        using assms(2) None False next_message_bytes(1) [of "rd_receiver r"]
        by (auto simp: poll_read_def reader_bytes_def reader_ok_def)
    next
      case (Some m)
      obtain data ms where m: "m = (data, ms)" by fastforce
      have "data \<noteq> []" using next_message_bytes(2) Some m by blast
      moreover have "take_message data 0 ms n = (got, r')"
        using assms(2) Some None False by (simp add: poll_read_def m)
      ultimately show ?thesis
        using take_message_bytes [of 0 data n ms got r'] False None Some next_message_bytes(1) [of "rd_receiver r"]
        by (auto simp: reader_bytes_def m)
    qed
  qed
qed

text \<open>
  The byte stream over an SSH channel is faithful: whatever sizes are read, the bytes handed out so far and
  those still to come are exactly the data of the messages before the channel ended, and a read of at
  least one byte is empty only when all has been read, which is what the frames above take for the end.
\<close>

theorem channel_reader_is_faithful:
  assumes "read_all ns (reader_new ms) = (chunks, r)"
  shows "concat chunks @ reader_bytes r = message_bytes (pump_channel_reader ms) \<and>
    list_all2 (\<lambda>n chunk. length chunk \<le> n) ns chunks \<and>
    (\<forall>n > 0. fst (poll_read n r) = [] \<longleftrightarrow> reader_bytes r = [])"
proof -
  have "concat chunks @ reader_bytes r = reader_bytes s \<and> list_all2 (\<lambda>n chunk. length chunk \<le> n) ns chunks \<and> reader_ok r"
    if "reader_ok s" "read_all ns s = (chunks, r)" for s
    using that
  proof (induction ns arbitrary: s chunks)
    case (Cons n ns)
    obtain got s' where got: "poll_read n s = (got, s')" by fastforce
    obtain rest r' where rest: "read_all ns s' = (rest, r')" by fastforce
    note step = poll_read_bytes [OF Cons.prems(1) got]
    show ?case
      using Cons.prems(2) Cons.IH [of s' rest] step got rest by auto
  qed auto
  moreover have "reader_ok (reader_new ms)" by (simp add: reader_ok_def reader_new_def)
  ultimately have "concat chunks @ reader_bytes r = reader_bytes (reader_new ms)"
      "list_all2 (\<lambda>n chunk. length chunk \<le> n) ns chunks" "reader_ok r"
    using assms by blast+
  moreover have "fst (poll_read n r) = [] \<longleftrightarrow> reader_bytes r = []" if "0 < n" for n
    using poll_read_bytes [of r n "fst (poll_read n r)" "snd (poll_read n r)"] calculation(3) that by simp
  ultimately show ?thesis by (simp add: reader_bytes_def [of "reader_new ms"]) (simp add: reader_new_def)
qed

end
