(* ===== verification/Signatures.thy ===== *)
theory Signatures
  imports SshAuth
begin

text \<open>
  What a signature of a device says. A device signs with one key: its offers of transfers (\<open>protocol.rs\<close>), its
  answers to probes (\<open>protocol.rs\<close>), and its hellos and answers on the data channels of the SSH relay
  (\<open>ssh/protocol.rs\<close>); the four callers of \<open>sign_base64\<close>. The messages of the four kinds never coincide, and a
  message determines what was signed. So whoever accepts an offer or an answer holds either what the device itself
  signed, or a forgery: a signature of the device's key on a message that the device never signed.
\<close>

section \<open>What a device signs\<close>

datatype signed_message =
    SignedOffer transfer_offer
  | SignedProbe peer_probe_response
  | SignedHello string string bytes
  | SignedAnswer string string bytes bytes string string

fun signed_bytes :: "crates \<Rightarrow> signed_message \<Rightarrow> bytes" where
  "signed_bytes E (SignedOffer offer) = offer_signing_bytes E offer"
| "signed_bytes E (SignedProbe response) = probe_signing_bytes E response"
| "signed_bytes E (SignedHello sender receiver nonce) = client_auth_message sender receiver nonce"
| "signed_bytes E (SignedAnswer sender receiver n m fingerprint secret) =
     server_auth_message sender receiver n m fingerprint secret"

text \<open>
  A device signs hellos and answers between validated peers, with fresh nonces and valid credentials
  (\<open>send_data_hello\<close>, \<open>send_data_answer\<close>). It may sign as several devices, when its key is imported again
  under another instance id.
\<close>

fun honest_message :: "signed_message \<Rightarrow> bool" where
  "honest_message (SignedHello sender receiver nonce) \<longleftrightarrow>
     valid_instance_id sender \<and> valid_instance_id receiver \<and> length nonce = SSH_NONCE_BYTES"
| "honest_message (SignedAnswer sender receiver n m fingerprint secret) \<longleftrightarrow>
     valid_instance_id sender \<and> valid_instance_id receiver \<and> length n = SSH_NONCE_BYTES \<and>
     length m = SSH_NONCE_BYTES \<and> \<not> bad_credentials fingerprint secret"
| "honest_message _ \<longleftrightarrow> True"

section \<open>The kinds are apart\<close>

lemmas signature_domains = offer_signing_bytes_def probe_signing_bytes_def client_auth_message_def
  server_auth_message_def ssh_message_def OFFER_SIGNATURE_DOMAIN_def PROBE_SIGNATURE_DOMAIN_def

lemma signature_domains_apart:
  "offer_signing_bytes E offer \<noteq> probe_signing_bytes E response"
  "offer_signing_bytes E offer \<noteq> client_auth_message s r n"
  "offer_signing_bytes E offer \<noteq> server_auth_message s r n m f k"
  "probe_signing_bytes E response \<noteq> client_auth_message s r n"
  "probe_signing_bytes E response \<noteq> server_auth_message s r n m f k"
  by (simp_all add: signature_domains str_bytes_def)

lemma short_answer:
  "honest_message (SignedAnswer s r n m f k) \<Longrightarrow>
     short_fields [str_bytes s, str_bytes r, n, m, str_bytes f, str_bytes k]"
  by (simp add: valid_instance_id_def bad_credentials_def valid_fingerprint_def SSH_NONCE_BYTES_def)

lemma short_hello: "honest_message (SignedHello s r n) \<Longrightarrow> short_fields [str_bytes s, str_bytes r, n]"
  by (simp add: valid_instance_id_def SSH_NONCE_BYTES_def)

lemma signed_offer_bytes:
  assumes "json_roundtrip E" "signed_bytes E m = offer_signing_bytes E offer"
  shows "\<exists>signed. m = SignedOffer signed \<and> offer = signed\<lparr>to_signature := to_signature offer\<rparr>"
proof (cases m)
  case (SignedOffer signed)
  with assms(2) have "offer_signing_bytes E signed = offer_signing_bytes E offer" by simp
  from offer_signing_bytes_inj [OF assms(1) this, of "to_signature offer"] SignedOffer show ?thesis by simp
qed (use assms(2) signature_domains_apart in \<open>auto dest: sym\<close>)

lemma signed_answer_bytes:
  assumes "honest_message m" "honest_message (SignedAnswer s r n n' f k)"
    and "signed_bytes E m = server_auth_message s r n n' f k"
  shows "m = SignedAnswer s r n n' f k"
proof (cases m)
  case (SignedHello s2 r2 n2)
  with auth_messages_apart [OF short_answer [OF assms(2)] short_hello] assms show ?thesis by fastforce
next
  case (SignedAnswer s2 r2 n2 n2' f2 k2)
  with auth_messages_inj [OF short_answer short_answer [OF assms(2)]] assms show ?thesis by simp
qed (use assms(3) signature_domains_apart in auto)

section \<open>Offers\<close>

text \<open>C14: An accepted offer is one that its sender signed: when an offer in the name of a device's key is accepted,
  then, whatever the device has signed with this key, offers, answers to probes, hellos and answers on data channels,
  either it has signed an offer with the same version, id, file name, kind, size, time, digest and sender, or
  the signature in the offer is a forgery: the key verifies it on a message which the device never signed. No
  signature made for another offer or another purpose is accepted.\<close>

theorem accepted_offer_was_signed:
  assumes "json_roundtrip E" "base64_roundtrip E" "offer_validate E offer = Inr ()"
    and "ds_public_key (to_sender offer) = public_key_base64 E me"
  shows "(\<exists>signed. SignedOffer signed \<in> M \<and> offer = signed\<lparr>to_signature := to_signature offer\<rparr>) \<or>
    (\<exists>sig. base64_decode E (to_signature offer) = Some sig \<and> length sig = 64 \<and>
       ed25519_verify E (ed25519_public E (id_signing_key me)) (offer_signing_bytes E offer) sig \<and>
       offer_signing_bytes E offer \<notin> signed_bytes E ` M)"
proof (cases "offer_signing_bytes E offer \<in> signed_bytes E ` M")
  case True
  then obtain m where "m \<in> M" "signed_bytes E m = offer_signing_bytes E offer" by auto
  then show ?thesis using signed_offer_bytes [OF assms(1)] by blast
next
  case False
  with assms(2-4) show ?thesis
    by (auto simp: offer_validate_iff offer_signed_def public_key_base64_def base64_roundtrip_def)
qed

theorem accepted_offer_was_signed_witness:
  "\<exists>signed. SignedOffer signed \<in> {SignedOffer sample_raw_offer, SignedHello [] [] []} \<and>
     sample_signed_offer = signed\<lparr>to_signature := to_signature sample_signed_offer\<rparr>"
proof -
  have key: "ds_public_key (to_sender sample_signed_offer) = public_key_base64 sample_crates sample_identity"
    by (simp add: sample_signed_offer_def sample_raw_offer_def offer_new_def identity_summary_def)
  have "offer_signing_bytes sample_crates sample_signed_offer \<in>
      signed_bytes sample_crates ` {SignedOffer sample_raw_offer, SignedHello [] [] []}"
    by (simp add: sample_signed_offer_def)
  with accepted_offer_was_signed [OF _ _ sample_signed_offer_valid key,
      of "{SignedOffer sample_raw_offer, SignedHello [] [] []}"] show ?thesis
    by auto
qed

section \<open>Data channels\<close>

text \<open>C28: An accepted answer was given for this very connection: whatever the paired device has signed with its key,
  offers, answers to probes, hellos and answers on data channels, when the sender of a hello accepts an answer, the device
  itself signed an answer to this sender and this nonce, with the credentials the sender goes on with, and
  both derive the key of the tunnel from the same two nonces and keys; or else the signature in the answer is a forgery:
  the key verifies it on a message which the device never signed. Neither the SSH server nor another device can replay an
  answer, change the credentials in it, or use a signature that was made for another purpose.\<close>

theorem ssh_answer_agreement:
  assumes "ssh_verifying_key E (pi_public_key peer) = Inr key" "\<forall>m \<in> M. honest_message m"
    and "check_data_answer E me peer nonce answer = Inr auth"
    and "valid_instance_id (id_instance_id me)" "valid_instance_id (pi_instance_id peer)"
  shows "\<exists>server_nonce.
    sa_tunnel_key auth = ssh_tunnel_key E nonce server_nonce (public_key_base64 E me) (pi_public_key peer) \<and>
    (SignedAnswer (id_instance_id me) (pi_instance_id peer) nonce server_nonce (sa_quic_fingerprint auth)
       (sa_quic_secret auth) \<in> M \<or>
     (\<exists>sig message. base64_decode E (da_signature answer) = Some sig \<and>
        message = server_auth_message (id_instance_id me) (pi_instance_id peer) nonce server_nonce
          (sa_quic_fingerprint auth) (sa_quic_secret auth) \<and>
        ed25519_verify E key message sig \<and> message \<notin> signed_bytes E ` M))"
proof -
  obtain m where m: "ssh_decode_nonce E (da_server_nonce answer) = Inr m"
    and n: "ssh_decode_nonce E (da_client_nonce answer) = Inr nonce"
    and ok: "\<not> bad_credentials (da_quic_fingerprint answer) (da_quic_secret answer)"
    and verified: "ssh_verify_signature E (pi_public_key peer)
      (server_auth_message (id_instance_id me) (pi_instance_id peer) nonce m
         (da_quic_fingerprint answer) (da_quic_secret answer)) (da_signature answer) = Inr ()"
    and auth: "\<lparr>sa_quic_fingerprint = da_quic_fingerprint answer, sa_quic_secret = da_quic_secret answer,
      sa_tunnel_key = ssh_tunnel_key E nonce m (public_key_base64 E me) (pi_public_key peer)\<rparr> = auth"
    using assms(3) unfolding check_data_answer_def Let_def result_simps
    by (elim conjE exE) (rule that; (assumption | simp))
  let ?item = "SignedAnswer (id_instance_id me) (pi_instance_id peer) nonce m
      (da_quic_fingerprint answer) (da_quic_secret answer)"
  have honest: "honest_message ?item"
    using assms(4,5) ok ssh_decode_nonce_length [OF n] ssh_decode_nonce_length [OF m] by simp
  obtain sig where sig: "base64_decode E (da_signature answer) = Some sig" "ed25519_verify E key (signed_bytes E ?item) sig"
    using ssh_verify_signature_Inr [OF verified] assms(1) by auto
  have "?item \<in> M" if "signed_bytes E ?item \<in> signed_bytes E ` M"
    using that signed_answer_bytes [OF _ honest] assms(2) by fastforce
  with sig show ?thesis by (intro exI [of _ m]) (auto simp: auth [symmetric])
qed

text \<open>The laptop signed one answer and one offer, and its key verifies the answer.\<close>

definition sample_signed_answer :: signed_message where
  "sample_signed_answer = SignedAnswer (id_instance_id sample_identity) (id_instance_id sample_laptop) sample_nonce
     sample_answer_nonce sample_quic_fingerprint sample_quic_secret"

definition sample_signer :: crates where
  "sample_signer = sample_crates\<lparr>ed25519_verify := (\<lambda>k message s. message =
     server_auth_message (id_instance_id sample_identity) (id_instance_id sample_laptop) sample_nonce sample_answer_nonce
       sample_quic_fingerprint sample_quic_secret)\<rparr>"

theorem ssh_answer_agreement_witness:
  "\<exists>auth server_nonce.
    check_data_answer sample_signer sample_identity (pairing_from_device sample_signer sample_laptop 7000) sample_nonce
      (answer_of sample_signer sample_laptop (id_instance_id sample_identity) sample_nonce sample_answer_nonce
         sample_quic_fingerprint sample_quic_secret) = Inr auth \<and>
    SignedAnswer (id_instance_id sample_identity) (id_instance_id sample_laptop) sample_nonce server_nonce
      (sa_quic_fingerprint auth) (sa_quic_secret auth) \<in> {sample_signed_answer, SignedOffer sample_raw_offer} \<and>
    sa_tunnel_key auth = ssh_tunnel_key sample_signer sample_nonce server_nonce (public_key_base64 sample_signer sample_identity)
      (pi_public_key (pairing_from_device sample_signer sample_laptop 7000))"
proof -
  have ids: "valid_instance_id (id_instance_id sample_identity)" "valid_instance_id (id_instance_id sample_laptop)"
    by (simp_all add: sample_identity_def sample_laptop_def valid_instance_id_def is_lower_hex_def is_digit_def list_all_iff)
  have sizes: "length sample_nonce = SSH_NONCE_BYTES" "length sample_answer_nonce = SSH_NONCE_BYTES"
      "\<not> bad_credentials sample_quic_fingerprint sample_quic_secret"
    by (simp_all add: sample_nonce_def sample_answer_nonce_def SSH_NONCE_BYTES_def bad_credentials_def valid_fingerprint_def
        sample_quic_fingerprint_def sample_quic_secret_def is_lower_hex_def is_digit_def list_all_iff)
  have hex: "hex_roundtrip sample_signer"
    using sample_hex_roundtrip by (simp add: sample_signer_def hex_roundtrip_def)
  have key: "ssh_verifying_key sample_signer (pi_public_key (pairing_from_device sample_signer sample_laptop 7000)) = Inr (replicate 32 4)"
    by (simp add: pairing_from_device_def public_key_base64_def ssh_verifying_key_def decode_array_def sample_signer_def
        sample_crates_def sample_laptop_def)
  let ?M = "{sample_signed_answer, SignedOffer sample_raw_offer}"
  have honest: "\<forall>m \<in> ?M. honest_message m" using ids sizes by (simp add: sample_signed_answer_def)
  have "ssh_verify_signature sample_signer (pi_public_key (pairing_from_device sample_signer sample_laptop 7000))
      (server_auth_message (id_instance_id sample_identity) (id_instance_id sample_laptop) sample_nonce sample_answer_nonce
         sample_quic_fingerprint sample_quic_secret) (sign_base64 sample_signer sample_laptop m) = Inr ()" for m
    unfolding ssh_verify_signature_def key
    by (simp add: decode_array_def sign_base64_def sample_signer_def sample_crates_def)
  then obtain auth where auth: "check_data_answer sample_signer sample_identity
      (pairing_from_device sample_signer sample_laptop 7000) sample_nonce
      (answer_of sample_signer sample_laptop (id_instance_id sample_identity) sample_nonce sample_answer_nonce
         sample_quic_fingerprint sample_quic_secret) = Inr auth"
    using sizes by (simp add: check_data_answer_def answer_of_def ssh_decode_nonce_encode [OF hex] pairing_from_device_def)
  show ?thesis
    using ssh_answer_agreement [OF key honest auth ids(1)] auth ids(2)
    by (auto simp: pairing_from_device_def sample_signer_def sample_signed_answer_def)
qed

end
