(* ===== verification/Spec2Isabelle.thy ===== *)
theory Spec2Isabelle
  imports IdentityStore ReceiveSafe DiscoveryProps ShortCodeProps SendRoutesProps FfiProps EventQueue SshExchange SshChannel Signatures
begin

text \<open>
  InkHole, the core crate (\<open>rust/crates/inkhole-core\<close>) and its C interface
  (\<open>rust/crates/inkhole-ffi\<close>): root of the development.

  InkHole sends files and folders between devices. The core crate finds devices on the local network
  (\<open>discovery.rs\<close>), sends over QUIC (\<open>transport.rs\<close>, \<open>protocol.rs\<close>,
  \<open>folder.rs\<close>) into a resumable store (\<open>state.rs\<close>, \<open>inbox.rs\<close>,
  \<open>hash.rs\<close>), and carries the same QUIC traffic through a tunnel when devices do not reach each other: after a
  short code (\<open>wormhole/\<close>) or over an SSH server (\<open>ssh/\<close>). \<open>service.rs\<close> drives all of
  it for the user interface and hands it events.

  How the parts interact. A sender scans its source (\<open>Send\<close>), makes a signed offer (\<open>Offer\<close>),
  authenticates on a QUIC stream (\<open>Auth\<close>, \<open>Quic\<close>) and is told where to resume; the receiver checks
  the offer, keeps the bytes in the store (\<open>Store\<close>, \<open>StoreFolder\<close>, \<open>Receive\<close>) and
  answers with a receipt. The address and the certificate of the receiver come from a verified probe
  (\<open>Announce\<close>, \<open>Discovery\<close>), from the peer's answer on a short-code channel
  (\<open>Rendezvous\<close>, \<open>Wormhole\<close>, \<open>Transit\<close>) or on an SSH data channel
  (\<open>SshAuth\<close>, \<open>SshRelay\<close>); in the last two cases the datagrams of QUIC pass through the tunnel
  (\<open>Tunnel\<close>). What happens reaches the user through the event queue (\<open>EventQueue\<close>).

  Theories, by component:
  \<^item> \<open>InkPrelude\<close>: \<open>error.rs\<close>, results and the \<open>?\<close> operator, integers, decimal
    numerals, the named collections. \<open>RustText\<close>: the operations of \<open>str\<close>. \<open>Json\<close>:
    serde values, the object and the array form of a struct, and \<open>crates\<close>, the record of the functions of
    third-party crates. \<open>Samples\<close>, \<open>Evaluation\<close>: an instance of that record on which the
    hypotheses hold, and symbolic evaluation, both for the examples.
  \<^item> \<open>Frames\<close> (length-prefixed frames), \<open>Wire\<close> (the messages of \<open>protocol.rs\<close>),
    \<open>Paths\<close> (file names, relative paths and what joining them to a root makes of absolute ones,
    \<open>..\<close> and \<open>.\<close>), \<open>Manifest\<close> (folder manifests), \<open>Offer\<close> (identities of
    \<open>identity.rs\<close>, signed offers), \<open>Auth\<close> (shared secret and probes), \<open>Inbox\<close>
    (\<open>inbox.rs\<close>).
  \<^item> \<open>FileSystem\<close>: a tree of files, directories, links and special nodes, the calls on it and the monad
    of programs in which each call may fail or the process die (a loss of power is not modelled); \<open>FileLogic\<close>:
    Hoare triples over all fault schedules. \<open>IdentityStore\<close>: generation and file of the identity
    (\<open>identity.rs\<close>). \<open>Store\<close>, \<open>StoreFolder\<close>: \<open>state.rs\<close>.
    \<open>StoreNames\<close>, \<open>StoreSpec\<close>, \<open>StoreFile\<close>, \<open>StoreKeep\<close>,
    \<open>StoreProps\<close>, \<open>StoreResume\<close>, \<open>StoreTree\<close>, \<open>StoreSafe\<close>,
    \<open>FolderProps\<close>: what it keeps.
  \<^item> \<open>Quic\<close> (a stream, the authentication exchange), \<open>Send\<close>, \<open>Receive\<close>:
    \<open>transport.rs\<close> and \<open>folder.rs\<close>; \<open>ReceiveProps\<close>, \<open>Sessions\<close>,
    \<open>ReceiveSafe\<close>, \<open>Exchange\<close>: one run, many runs, hostile peers, both ends.
  \<^item> \<open>Machine\<close>: reachability and the locale of inductive invariants. \<open>Announce\<close>,
    \<open>Discovery\<close>, \<open>DiscoveryProps\<close>: \<open>discovery.rs\<close> as a state machine.
    \<open>EventQueue\<close>: the queue of \<open>service.rs\<close>.
  \<^item> \<open>Dns\<close>, \<open>Dial\<close>: \<open>net.rs\<close>. \<open>Rendezvous\<close>,
    \<open>Wormhole\<close>, \<open>Tunnel\<close>, \<open>Transit\<close>: the files of \<open>wormhole/\<close>.
    \<open>Summary\<close>, \<open>ShortCode\<close>: \<open>wormhole/session.rs\<close>, what the receiver is shown and
    both ends of a session; \<open>ShortCodeProps\<close>: what they agree on.
  \<^item> \<open>SendRoutes\<close>, \<open>SendRoutesProps\<close>: devices, addresses, routes and transfer ids of
    \<open>service.rs\<close>. \<open>Service\<close> (its registries and the sections under a lock),
    \<open>ServiceRequests\<close> (requests and short-code tasks as programs over the sections), \<open>ServiceJson\<close>
    (parameters, dispatch, text), \<open>ServiceMachine\<close>, \<open>ServiceProps\<close> (every section of every task as
    a step, the invariant), \<open>ServiceRuns\<close>, \<open>ServiceSafe\<close> (each request is a run of steps; what it
    promises).
  \<^item> \<open>Ffi\<close> (\<open>inkhole-ffi/src/lib.rs\<close> over an explicit memory), \<open>FfiProps\<close>: no
    call that keeps the contract is undefined, a closed handle stays closed.
  \<^item> \<open>SshAuth\<close> (\<open>ssh/protocol.rs\<close>), \<open>Signatures\<close> (all that a device signs with
    its key: offers, answers to probes, data-channel hellos and answers, and why one is never taken for another),
    \<open>SshChannel\<close> (\<open>ssh/channel.rs\<close>), \<open>SshClient\<close> (\<open>ssh/client.rs\<close>),
    \<open>SshRelay\<close> (\<open>ssh/session.rs\<close>), \<open>SshRelayProps\<close> (interleavings of handlers, the
    supervisor), \<open>SshExchange\<close> (two sessions).

  State and operations. A function of the code is a HOL function of the same name where HOL allows it; an \<open>async
  fn\<close> on a stream or the disk is an action, a function from the state (\<open>net\<close>, \<open>world\<close>, or a
  record that extends them) to a result and the new state; an event loop is a step function on its state and the event that
  its \<open>select!\<close> yields. Errors are the left values of a sum with the variants of \<open>CoreError\<close>.
  Unsigned counters are naturals with the checked or saturating arithmetic of the code written out; bytes are \<open>8
  word\<close>, and strings are their UTF-8 bytes.

  What the lemmas show. Codecs: round trips and injectivity of what is signed or hashed. Store: every call may fail and the
  process may die between any two; still no received byte is lost, no wrong byte is kept, no file of the user changes, no
  name or path a peer sends leads out of the inbox, and one undisturbed run completes; a device keeps its identity.
  Transfers: both ends agree, an interrupted transfer goes on, a peer without the secret reaches nothing. Discovery, event
  queue, SSH relay: inductive invariants over all event sequences. Tunnel and short-code channel: what is delivered is a
  prefix of what was sent, in order, whatever is on the wire. Service: a request is cut into the sections it runs under a
  lock; in every interleaving with other tasks the registries stay sound, a transfer can be cancelled exactly while it runs
  (a cancel looks the token up under the lock and cancels it after, as the code does), what was stopped stays stopped.
  Signatures: what is accepted under the key of a device, the device signed as this kind of message, or it is a forgery,
  which the theorem shows. Relay: pairing and data channels complete, and an accepted answer was given for this connection.

  Bounds and fuel. Link resolution follows at most forty links, as Linux does; the search for a free name counts up to
  \<open>u32::MAX\<close> as the code does; the receive and send loops count down the missing bytes, and each round moves at
  least one; the scan of a folder has fuel for one directory more than the limit on entries, which every directory counts
  for, so that the limit stops it first; the check of a received folder has fuel for each expected entry, and more changes
  nothing (\<open>check_directories_bound\<close>). Theorems that a run ends in success say so outright; no theorem holds
  only because fuel ran out.

  Hypotheses. Third-party functions are arguments. The theorems name what they rely on: printed JSON parses
  back, hexadecimal and Base64 texts decode to what was encoded, a key verifies what it signed, sealed boxes
  open to what was sealed, digests have their sizes, SPAKE2 runs with one password agree. Secrecy of
  keys and collision resistance are not assumed: theorems about forgery say that a message was signed or that
  the two inputs at hand, which differ, collide. Generated certificates and keys are
  not empty. The SSH library gives up a connection whose server key the handler refuses.

  Not modelled. \<open>ssh/test_support.rs\<close>, \<open>wormhole/test_support.rs\<close> and the test modules. The
  spawning and the join of tasks and the dropping of handles in \<open>service.rs\<close> (a task is its steps, a dropped
  handle the cancellation of its token), the accept loops and endpoints of QUIC and TLS (\<open>transport.rs\<close>: quinn
  and rustls), the mDNS daemon, the start and the join of tunnel tasks: glue around sockets, runtimes and libraries. The
  mobile application (Dart, Kotlin, Swift) is outside of the crate. Locks are not modelled: an operation under a lock is one
  step.
\<close>

end
